(* ===== verification/Prelude.thy ===== *)
theory Prelude
  imports Main "HOL-Library.Code_Target_Numeral"
begin

section \<open>Shared library: row tables, results, list lemmas\<close>

text \<open>
  The generic layer of the development.  A database table is a list of rows (the order is the
  order in which an unordered query happens to return them); a row carries its primary key,
  read by a selector \<open>rid\<close>.  \<open>session.get\<close> is \<open>tbl_get\<close>, a flushed attribute write is
  \<open>tbl_put\<close>, \<open>session.add\<close> is \<open>tbl_add\<close>, a bulk update is \<open>tbl_map\<close>.  The laws of these
  operations are stated once, as the locale \<open>row_store\<close>, and interpreted on every table of
  the model.  Fallible code returns \<open>'e + 'a\<close> and is composed with \<open>rbind\<close>.
\<close>

named_theorems table_laws \<open>lookup and update laws of the row tables\<close>
named_theorems frame_laws \<open>which part of the state an operation leaves alone\<close>

subsection \<open>Results\<close>

definition rbind :: "'e + 'a \<Rightarrow> ('a \<Rightarrow> 'e + 'b) \<Rightarrow> 'e + 'b" where
  "rbind r f = (case r of Inl e \<Rightarrow> Inl e | Inr x \<Rightarrow> f x)"

lemma rbind_simps [simp]:
  "rbind (Inl e) f = Inl e"
  "rbind (Inr x) f = f x"
  by (simp_all add: rbind_def)

lemma rbind_eq_Inr: "rbind r f = Inr y \<longleftrightarrow> (\<exists>x. r = Inr x \<and> f x = Inr y)"
  by (cases r) simp_all

fun rmap :: "('a \<Rightarrow> 'e + 'b) \<Rightarrow> 'a list \<Rightarrow> 'e + 'b list" where
  "rmap f [] = Inr []"
| "rmap f (x # xs) = rbind (f x) (\<lambda>y. rbind (rmap f xs) (\<lambda>ys. Inr (y # ys)))"

lemma rmap_Inr_length: "rmap f xs = Inr ys \<Longrightarrow> length ys = length xs"
  by (induction xs arbitrary: ys) (auto simp: rbind_eq_Inr)

subsection \<open>Option helpers\<close>

definition opt_or :: "'a option \<Rightarrow> 'a \<Rightarrow> 'a" where
  "opt_or x d = (case x of None \<Rightarrow> d | Some v \<Rightarrow> v)"

lemma opt_or_simps [simp]: "opt_or None d = d" "opt_or (Some v) d = v"
  by (simp_all add: opt_or_def)

subsection \<open>Row tables\<close>

definition tbl_get :: "('r \<Rightarrow> 'k) \<Rightarrow> 'k \<Rightarrow> 'r list \<Rightarrow> 'r option" where
  "tbl_get rid k t = List.find (\<lambda>r. rid r = k) t"

definition tbl_put :: "('r \<Rightarrow> 'k) \<Rightarrow> 'r \<Rightarrow> 'r list \<Rightarrow> 'r list" where
  "tbl_put rid r t = map (\<lambda>q. if rid q = rid r then r else q) t"

definition tbl_add :: "'r \<Rightarrow> 'r list \<Rightarrow> 'r list" where
  "tbl_add r t = t @ [r]"

definition tbl_map :: "('r \<Rightarrow> bool) \<Rightarrow> ('r \<Rightarrow> 'r) \<Rightarrow> 'r list \<Rightarrow> 'r list" where
  "tbl_map p f t = map (\<lambda>r. if p r then f r else r) t"

definition tbl_keys :: "('r \<Rightarrow> 'k) \<Rightarrow> 'r list \<Rightarrow> 'k set" where
  "tbl_keys rid t = rid ` set t"

text \<open>The interface the components use: what a lookup returns after an update.\<close>

locale row_store =
  fixes rid :: "'r \<Rightarrow> 'k"
    and get :: "'k \<Rightarrow> 't \<Rightarrow> 'r option"
    and put :: "'r \<Rightarrow> 't \<Rightarrow> 't"
    and add :: "'r \<Rightarrow> 't \<Rightarrow> 't"
    and keys :: "'t \<Rightarrow> 'k set"
  assumes get_rid: "get k t = Some r \<Longrightarrow> rid r = k"
    and get_keys: "get k t = None \<longleftrightarrow> k \<notin> keys t"
    and get_put: "get k (put r t) = (if k = rid r \<and> k \<in> keys t then Some r else get k t)"
    and get_add: "get k (add r t) =
      (case get k t of None \<Rightarrow> (if k = rid r then Some r else None) | Some q \<Rightarrow> Some q)"
    and keys_put: "keys (put r t) = keys t"
    and keys_add: "keys (add r t) = insert (rid r) (keys t)"
begin

lemma get_put_same: "get (rid r) t = Some q \<Longrightarrow> get (rid r) (put r t) = Some r"
  by (metis get_keys get_put option.distinct(1))

lemma get_put_other: "k \<noteq> rid r \<Longrightarrow> get k (put r t) = get k t"
  by (simp add: get_put)

lemma get_add_fresh: "rid r \<notin> keys t \<Longrightarrow> get (rid r) (add r t) = Some r"
  by (simp add: get_add get_keys [symmetric])

lemma get_add_old: "get k t = Some q \<Longrightarrow> get k (add r t) = Some q"
  by (simp add: get_add)

lemma get_put_cases:
  "get k (put r t) = Some q \<Longrightarrow> (k = rid r \<and> q = r) \<or> (k \<noteq> rid r \<and> get k t = Some q)"
  by (metis get_keys get_put keys_put option.distinct(1) option.inject)

lemma put_last: "rid r = rid q \<Longrightarrow> get k (put q (put r t)) = get k (put q t)"
  by (auto simp: get_put keys_put)

lemma put_commute:
  "rid r \<noteq> rid q \<Longrightarrow> get k (put q (put r t)) = get k (put r (put q t))"
  by (auto simp: get_put keys_put)

end

lemma find_key_None: "List.find (\<lambda>r. rid r = k) t = None \<longleftrightarrow> k \<notin> rid ` set t"
  by (auto simp: find_None_iff)

lemma tbl_get_rid [table_laws]: "tbl_get rid k t = Some r \<Longrightarrow> rid r = k"
  by (auto simp: tbl_get_def find_Some_iff)

lemma tbl_get_in: "tbl_get rid k t = Some r \<Longrightarrow> r \<in> set t"
  by (auto simp: tbl_get_def find_Some_iff)

lemma tbl_get_put:
  "tbl_get rid k (tbl_put rid r t) =
     (if k = rid r \<and> k \<in> tbl_keys rid t then Some r else tbl_get rid k t)"
  by (induction t) (auto simp: tbl_get_def tbl_put_def tbl_keys_def)

lemma tbl_get_add:
  "tbl_get rid k (tbl_add r t) =
     (case tbl_get rid k t of None \<Rightarrow> (if k = rid r then Some r else None) | Some q \<Rightarrow> Some q)"
  by (induction t) (auto simp: tbl_get_def tbl_add_def)

lemma tbl_keys_put [simp]: "tbl_keys rid (tbl_put rid r t) = tbl_keys rid t"
proof -
  have "rid \<circ> (\<lambda>q. if rid q = rid r then r else q) = rid" by auto
  then show ?thesis by (metis list.map_comp set_map tbl_keys_def tbl_put_def)
qed

lemma tbl_keys_add [simp]: "tbl_keys rid (tbl_add r t) = insert (rid r) (tbl_keys rid t)"
  by (auto simp: tbl_keys_def tbl_add_def)

lemma tbl_row_store:
  "row_store rid (tbl_get rid) (tbl_put rid) tbl_add (tbl_keys rid)"
proof (unfold_locales, goal_cases)
  case 1 then show ?case by (rule tbl_get_rid)
next
  case 2 show ?case by (simp add: tbl_get_def tbl_keys_def find_key_None)
next
  case 3 show ?case by (rule tbl_get_put)
next
  case 4 show ?case by (rule tbl_get_add)
next
  case 5 show ?case by (rule tbl_keys_put)
next
  case 6 show ?case by (rule tbl_keys_add)
qed

lemma set_tbl_put: "q \<in> set (tbl_put rid r t) \<Longrightarrow> q = r \<or> (q \<in> set t \<and> rid q \<noteq> rid r)"
  by (auto simp: tbl_put_def split: if_splits)

lemma map_rid_tbl_put [simp]: "map rid (tbl_put rid r t) = map rid t"
  by (induction t) (auto simp: tbl_put_def)

lemma tbl_put_id: "(\<And>q. q \<in> set t \<Longrightarrow> rid q = rid r \<Longrightarrow> q = r) \<Longrightarrow> tbl_put rid r t = t"
  unfolding tbl_put_def by (rule map_idI) auto

lemma length_tbl_put [simp]: "length (tbl_put rid r t) = length t"
  by (simp add: tbl_put_def)

lemma tbl_get_unique:
  "distinct (map rid t) \<Longrightarrow> r \<in> set t \<Longrightarrow> tbl_get rid (rid r) t = Some r"
  by (induction t) (auto simp: tbl_get_def rev_image_eqI)

lemma tbl_map_set:
  "q \<in> set (tbl_map p f t) \<longleftrightarrow> (\<exists>r\<in>set t. q = (if p r then f r else r))"
  by (auto simp: tbl_map_def)

lemma tbl_map_keys:
  "(\<And>r. rid (f r) = rid r) \<Longrightarrow> map rid (tbl_map p f t) = map rid t"
  by (induction t) (auto simp: tbl_map_def)

lemma tbl_get_map:
  assumes "\<And>r. rid (f r) = rid r"
  shows "tbl_get rid k (tbl_map p f t) =
    map_option (\<lambda>r. if p r then f r else r) (tbl_get rid k t)"
  by (induction t) (auto simp: tbl_get_def tbl_map_def assms)

subsection \<open>Lists\<close>

text \<open>Python's \<open>dict.fromkeys\<close> dedupe: first occurrences, in order.\<close>

fun dedupe :: "'a list \<Rightarrow> 'a list" where
  "dedupe [] = []"
| "dedupe (x # xs) = x # filter (\<lambda>y. y \<noteq> x) (dedupe xs)"

lemma set_dedupe [simp]: "set (dedupe xs) = set xs"
  by (induction xs) auto

lemma distinct_dedupe [simp]: "distinct (dedupe xs)"
  by (induction xs) auto

definition count_if :: "('a \<Rightarrow> bool) \<Rightarrow> 'a list \<Rightarrow> nat" where
  "count_if p xs = length (filter p xs)"

lemma count_if_mono: "(\<And>x. x \<in> set xs \<Longrightarrow> p x \<Longrightarrow> q x) \<Longrightarrow> count_if p xs \<le> count_if q xs"
  by (induction xs) (auto simp: count_if_def)

lemma count_if_le_length: "count_if p xs \<le> length xs"
  by (simp add: count_if_def)

lemma count_if_split: "count_if p xs = count_if (\<lambda>x. p x \<and> q x) xs + count_if (\<lambda>x. p x \<and> \<not> q x) xs"
  by (induction xs) (auto simp: count_if_def)

text \<open>Python's stable \<open>sorted(xs, key=k)\<close> is \<open>sort_key\<close>.\<close>

lemma sort_key_hd_min:
  "xs \<noteq> [] \<Longrightarrow> x \<in> set xs \<Longrightarrow> k (hd (sort_key k xs)) \<le> k x"
proof -
  assume "xs \<noteq> []" "x \<in> set xs"
  then obtain y ys where s: "sort_key k xs = y # ys"
    by (metis length_0_conv length_sort neq_Nil_conv)
  have "sorted (map k (y # ys))" by (metis s sorted_sort_key)
  moreover have "x \<in> set (y # ys)" using \<open>x \<in> set xs\<close> s by (metis set_sort)
  ultimately show ?thesis using s by auto
qed

end
