(* ===== verification/Py_Str.thy ===== *)
theory Py_Str
  imports Prelude "HOL-Library.Word" "HOL-Library.Sublist"
begin

section \<open>Python strings\<close>

text \<open>
  A Python \<open>str\<close> is its list of Unicode code points (\<open>pystr = nat list\<close>), so \<open>len\<close>,
  slicing and indexing count what Python counts.  \<open>S ''...''\<close> turns an ASCII literal of the
  source into such a list; a non-ASCII character of a literal is written as its code point.
  The functions below are the \<open>str\<close> methods the program uses.  \<open>py_lower\<close> is exact for
  ASCII letters and for the Kelvin sign (the only other character whose lower case is one
  ASCII letter); other code points are left unchanged, which no comparison of the program
  with an ASCII constant can tell apart.
\<close>

type_synonym pystr = "nat list"

definition S :: "string \<Rightarrow> pystr" where
  "S s = map of_char s"

lemma S_Nil [simp]: "S [] = []"
  by (simp add: S_def)

subsection \<open>Whitespace and strip\<close>

definition is_py_space :: "nat \<Rightarrow> bool" where
  "is_py_space c \<longleftrightarrow>
     (9 \<le> c \<and> c \<le> 13) \<or> (28 \<le> c \<and> c \<le> 32) \<or> c = 0x85 \<or> c = 0xA0 \<or> c = 0x1680 \<or>
     (0x2000 \<le> c \<and> c \<le> 0x200A) \<or> c = 0x2028 \<or> c = 0x2029 \<or> c = 0x202F \<or>
     c = 0x205F \<or> c = 0x3000"

definition py_lstrip :: "pystr \<Rightarrow> pystr" where
  "py_lstrip s = dropWhile is_py_space s"

definition py_rstrip :: "pystr \<Rightarrow> pystr" where
  "py_rstrip s = rev (dropWhile is_py_space (rev s))"

definition py_strip :: "pystr \<Rightarrow> pystr" where
  "py_strip s = py_rstrip (py_lstrip s)"

lemma dropWhile_rev_hd:
  "xs \<noteq> [] \<Longrightarrow> \<not> P (hd xs) \<Longrightarrow> rev (dropWhile P (rev xs)) \<noteq> [] \<and> hd (rev (dropWhile P (rev xs))) = hd xs"
  by (cases xs) (auto simp: dropWhile_append3)

lemma py_rstrip_last: "py_rstrip s \<noteq> [] \<Longrightarrow> \<not> is_py_space (last (py_rstrip s))"
  by (simp add: py_rstrip_def last_rev hd_dropWhile)

lemma py_strip_last: "py_strip s \<noteq> [] \<Longrightarrow> \<not> is_py_space (last (py_strip s))"
  by (simp add: py_strip_def py_rstrip_last)

lemma py_strip_hd: "py_strip s \<noteq> [] \<Longrightarrow> \<not> is_py_space (hd (py_strip s))"
proof -
  assume ne: "py_strip s \<noteq> []"
  then have l: "py_lstrip s \<noteq> []" by (auto simp: py_strip_def py_rstrip_def)
  then have "\<not> is_py_space (hd (py_lstrip s))" by (simp add: py_lstrip_def hd_dropWhile)
  with l show ?thesis
    using dropWhile_rev_hd [of "py_lstrip s" is_py_space] by (simp add: py_strip_def py_rstrip_def)
qed

lemma py_strip_fixed:
  "s = [] \<or> (\<not> is_py_space (hd s) \<and> \<not> is_py_space (last s)) \<Longrightarrow> py_strip s = s"
proof (cases "s = []")
  case False
  assume "s = [] \<or> (\<not> is_py_space (hd s) \<and> \<not> is_py_space (last s))"
  with False have h: "dropWhile is_py_space s = s" "dropWhile is_py_space (rev s) = rev s"
    by (simp_all add: dropWhile_eq_self_iff hd_rev)
  show ?thesis by (simp add: py_strip_def py_lstrip_def py_rstrip_def h)
qed (simp add: py_strip_def py_lstrip_def py_rstrip_def)

lemma py_strip_idem [simp]: "py_strip (py_strip s) = py_strip s"
  by (rule py_strip_fixed) (auto simp: py_strip_hd py_strip_last)

lemma py_strip_Nil [simp]: "py_strip [] = []"
  by (simp add: py_strip_def py_lstrip_def py_rstrip_def)

lemma set_py_strip: "set (py_strip s) \<subseteq> set s"
proof
  fix x assume "x \<in> set (py_strip s)"
  then have "x \<in> set (py_lstrip s)"
    by (simp add: py_strip_def py_rstrip_def) (metis set_dropWhileD set_rev)
  then show "x \<in> set s" by (simp add: py_lstrip_def) (metis set_dropWhileD)
qed

lemma length_py_strip_le: "length (py_strip s) \<le> length s"
proof -
  have "length (py_strip s) \<le> length (py_lstrip s)"
    by (simp add: py_strip_def py_rstrip_def) (metis length_dropWhile_le length_rev)
  also have "\<dots> \<le> length s" by (simp add: py_lstrip_def length_dropWhile_le)
  finally show ?thesis .
qed

lemma py_strip_eq_Nil_iff: "py_strip s = [] \<longleftrightarrow> (\<forall>c\<in>set s. is_py_space c)"
  by (auto simp: py_strip_def py_rstrip_def py_lstrip_def dest: set_dropWhileD)
     (metis dropWhile_eq_Nil_conv dropWhile_idem)+

subsection \<open>Prefixes, suffixes, search\<close>

definition py_startswith :: "pystr \<Rightarrow> pystr \<Rightarrow> bool" where
  "py_startswith s p \<longleftrightarrow> take (length p) s = p"

definition py_endswith :: "pystr \<Rightarrow> pystr \<Rightarrow> bool" where
  "py_endswith s p \<longleftrightarrow> py_startswith (rev s) (rev p)"

lemma py_startswith_iff: "py_startswith s p \<longleftrightarrow> prefix p s"
  by (auto simp: py_startswith_def prefix_def) (metis append_take_drop_id)

fun py_find :: "pystr \<Rightarrow> pystr \<Rightarrow> nat option" where
  "py_find sub s =
     (if py_startswith s sub then Some 0
      else case s of [] \<Rightarrow> None | c # cs \<Rightarrow> map_option Suc (py_find sub cs))"

declare py_find.simps [simp del]

definition py_contains :: "pystr \<Rightarrow> pystr \<Rightarrow> bool" where
  "py_contains s sub \<longleftrightarrow> py_find sub s \<noteq> None"

lemma py_find_Some: "py_find sub s = Some i \<Longrightarrow> i + length sub \<le> length s \<and> take (length sub) (drop i s) = sub"
proof (induction s arbitrary: i)
  case Nil
  then show ?case
    by (subst (asm) py_find.simps) (auto simp: py_startswith_def split: if_splits)
next
  case (Cons c cs)
  show ?case
  proof (cases "py_startswith (c # cs) sub")
    case True
    with Cons.prems show ?thesis
      by (subst (asm) py_find.simps)
         (auto simp: py_startswith_def, metis length_Cons length_take min.cobounded1)
  next
    case False
    with Cons.prems obtain j where "i = Suc j" "py_find sub cs = Some j"
      by (subst (asm) py_find.simps) auto
    with Cons.IH show ?thesis by auto
  qed
qed

text \<open>The last occurrence of a single character (\<open>str.rfind\<close>).\<close>

definition py_rfind_char :: "nat \<Rightarrow> pystr \<Rightarrow> nat option" where
  "py_rfind_char c s =
     (case py_find [c] (rev s) of None \<Rightarrow> None | Some i \<Rightarrow> Some (length s - 1 - i))"

subsection \<open>Split, join, replace\<close>

definition py_join :: "pystr \<Rightarrow> pystr list \<Rightarrow> pystr" where
  "py_join sep xs = (case xs of [] \<Rightarrow> [] | y # ys \<Rightarrow> y @ concat (map (\<lambda>z. sep @ z) ys))"

lemma py_join_simps [simp]:
  "py_join sep [] = []"
  "py_join sep [x] = x"
  "py_join sep (x # y # ys) = x @ sep @ py_join sep (y # ys)"
  by (simp_all add: py_join_def)

text \<open>\<open>s.split(sep, 1)\<close> for a non-empty \<open>sep\<close>: the parts around the first occurrence.\<close>

definition py_split1 :: "pystr \<Rightarrow> pystr \<Rightarrow> (pystr \<times> pystr) option" where
  "py_split1 sep s =
     (case py_find sep s of None \<Rightarrow> None
      | Some i \<Rightarrow> Some (take i s, drop (i + length sep) s))"

lemma py_split1_join: "py_split1 sep s = Some (a, b) \<Longrightarrow> s = a @ sep @ b"
proof -
  assume "py_split1 sep s = Some (a, b)"
  then obtain i where i: "py_find sep s = Some i" "a = take i s" "b = drop (i + length sep) s"
    by (auto simp: py_split1_def split: option.splits)
  from py_find_Some [OF i(1)] have "drop i s = sep @ b"
    by (metis add.commute append_take_drop_id drop_drop i(3))
  then show ?thesis using i(2) by (metis append_take_drop_id)
qed

text \<open>\<open>s.replace(c, d)\<close> for single characters.\<close>

definition py_replace_char :: "nat \<Rightarrow> nat \<Rightarrow> pystr \<Rightarrow> pystr" where
  "py_replace_char c d s = map (\<lambda>x. if x = c then d else x) s"

lemma length_py_replace_char [simp]: "length (py_replace_char c d s) = length s"
  by (simp add: py_replace_char_def)

lemma py_replace_char_gone: "c \<noteq> d \<Longrightarrow> c \<notin> set (py_replace_char c d s)"
  by (auto simp: py_replace_char_def)

definition is_line_break :: "nat \<Rightarrow> bool" where
  "is_line_break c \<longleftrightarrow> c = 10 \<or> c = 13 \<or> c = 11 \<or> c = 12 \<or> c = 28 \<or> c = 29 \<or> c = 30 \<or>
     c = 0x85 \<or> c = 0x2028 \<or> c = 0x2029"

definition skip_lf :: "nat \<Rightarrow> pystr \<Rightarrow> pystr" where
  "skip_lf c s = (if c = 13 \<and> s \<noteq> [] \<and> hd s = 10 then tl s else s)"

lemma length_skip_lf [termination_simp]: "length (skip_lf c s) < Suc (length s)"
  by (simp add: skip_lf_def less_Suc_eq_le)

lemma set_skip_lf: "set (skip_lf c s) \<subseteq> set s"
  by (cases s) (auto simp: skip_lf_def)

text \<open>\<open>str.splitlines\<close>; the accumulator is the current line, reversed.\<close>

fun splitlines_from :: "pystr \<Rightarrow> pystr \<Rightarrow> pystr list" where
  "splitlines_from acc [] = (if acc = [] then [] else [rev acc])"
| "splitlines_from acc (c # s) =
     (if is_line_break c then
        rev acc # splitlines_from [] (skip_lf c s)
      else splitlines_from (c # acc) s)"

definition py_splitlines :: "pystr \<Rightarrow> pystr list" where
  "py_splitlines s = splitlines_from [] s"

lemma splitlines_from_no_break:
  "list_all (\<lambda>c. \<not> is_line_break c) acc \<Longrightarrow>
   list_all (list_all (\<lambda>c. \<not> is_line_break c)) (splitlines_from acc s)"
proof (induction acc s rule: splitlines_from.induct)
  case (1 acc)
  then show ?case by simp
next
  case (2 acc c s)
  show ?case
  proof (cases "is_line_break c")
    case True
    with 2(1) 2(3) show ?thesis by simp
  next
    case False
    with 2(2) 2(3) show ?thesis by simp
  qed
qed

lemma py_splitlines_no_break: "l \<in> set (py_splitlines s) \<Longrightarrow> c \<in> set l \<Longrightarrow> \<not> is_line_break c"
proof -
  have "list_all (list_all (\<lambda>c. \<not> is_line_break c)) (py_splitlines s)"
    unfolding py_splitlines_def by (rule splitlines_from_no_break) simp
  then show "l \<in> set (py_splitlines s) \<Longrightarrow> c \<in> set l \<Longrightarrow> \<not> is_line_break c"
    by (auto simp: list_all_iff)
qed

lemma splitlines_from_set:
  "\<forall>l\<in>set (splitlines_from acc s). set l \<subseteq> set acc \<union> set s"
proof (induction acc s rule: splitlines_from.induct)
  case (1 acc)
  then show ?case by simp
next
  case (2 acc c s)
  show ?case
  proof (cases "is_line_break c")
    case True
    with 2(1) have "\<forall>l\<in>set (splitlines_from [] (skip_lf c s)). set l \<subseteq> set s"
      using set_skip_lf [of c s] by auto
    with True show ?thesis by auto
  next
    case False
    with 2(2) show ?thesis by auto
  qed
qed

text \<open>Joining break-free lines with newlines and splitting them again gives the lines back,
  but for a trailing empty line, which \<open>splitlines\<close> drops.\<close>

lemma splitlines_from_app:
  "\<forall>c\<in>set l. \<not> is_line_break c \<Longrightarrow> splitlines_from acc (l @ s) = splitlines_from (rev l @ acc) s"
  by (induction l arbitrary: acc) auto

lemma splitlines_join:
  assumes "\<forall>l\<in>set ls. \<forall>c\<in>set l. \<not> is_line_break c" and "ls \<noteq> []" and "last ls \<noteq> []"
  shows "py_splitlines (py_join [10] ls) = ls"
  using assms
proof (induction ls)
  case Nil
  then show ?case by simp
next
  case (Cons l ls)
  show ?case
  proof (cases ls)
    case Nil
    with Cons.prems show ?thesis
      using splitlines_from_app [of l "[]" "[]"] by (simp add: py_splitlines_def)
  next
    case (Cons m ms)
    with Cons.prems Cons.IH have "py_splitlines (py_join [10] ls) = ls" by simp
    with Cons Cons.prems(1) show ?thesis
      using splitlines_from_app [of l "[]" "10 # py_join [10] ls"]
      by (simp add: py_splitlines_def is_line_break_def skip_lf_def)
  qed
qed

subsection \<open>Case\<close>

definition lower_cp :: "nat \<Rightarrow> nat" where
  "lower_cp c = (if 65 \<le> c \<and> c \<le> 90 then c + 32 else if c = 0x212A then 107 else c)"

definition py_lower :: "pystr \<Rightarrow> pystr" where
  "py_lower s = map lower_cp s"

lemma py_lower_idem [simp]: "py_lower (py_lower s) = py_lower s"
  by (auto simp: py_lower_def lower_cp_def)

subsection \<open>Numbers\<close>

fun nat_digits :: "nat \<Rightarrow> pystr" where
  "nat_digits n = (if n < 10 then [48 + n] else nat_digits (n div 10) @ [48 + n mod 10])"

declare nat_digits.simps [simp del]

definition py_str_int :: "int \<Rightarrow> pystr" where
  "py_str_int i = (if i < 0 then 45 # nat_digits (nat (- i)) else nat_digits (nat i))"

definition is_digit :: "nat \<Rightarrow> bool" where
  "is_digit c \<longleftrightarrow> 48 \<le> c \<and> c \<le> 57"

definition digits_val :: "pystr \<Rightarrow> nat" where
  "digits_val ds = foldl (\<lambda>v d. 10 * v + (d - 48)) 0 ds"

lemma nat_digits_ne: "nat_digits n \<noteq> []"
  by (subst nat_digits.simps) simp

lemma nat_digits_digit: "\<forall>d\<in>set (nat_digits n). is_digit d"
proof (induction n rule: nat_digits.induct)
  case (1 n)
  show ?case
  proof (cases "n < 10")
    case True
    then show ?thesis by (subst nat_digits.simps) (auto simp: is_digit_def)
  next
    case False
    moreover have "n mod 10 \<le> 9" by presburger
    ultimately show ?thesis using "1.IH"
      by (subst nat_digits.simps) (auto simp: is_digit_def)
  qed
qed

lemma digits_val_nat_digits: "digits_val (nat_digits n) = n"
proof (induction n rule: nat_digits.induct)
  case (1 n)
  show ?case
  proof (cases "n < 10")
    case True
    then show ?thesis by (subst nat_digits.simps) (simp add: digits_val_def)
  next
    case False
    with "1.IH" have "digits_val (nat_digits (n div 10)) = n div 10" by simp
    with False show ?thesis by (subst nat_digits.simps) (simp add: digits_val_def)
  qed
qed

lemma py_str_int_inj: "py_str_int i = py_str_int j \<Longrightarrow> i = j"
proof -
  have d: "nat_digits n \<noteq> 45 # s" for n s
    using nat_digits_digit [of n] by (auto simp: is_digit_def)
  assume "py_str_int i = py_str_int j"
  then have "(i < 0) = (j < 0) \<and> nat \<bar>i\<bar> = nat \<bar>j\<bar>"
    using d d [symmetric] digits_val_nat_digits
    by (auto simp: py_str_int_def split: if_splits) metis+
  then show ?thesis by auto
qed

subsection \<open>UUIDs\<close>

type_synonym uuid = "128 word"

definition hex_chr :: "int \<Rightarrow> nat" where
  "hex_chr d = (if d < 10 then nat (48 + d) else nat (87 + d))"

primrec hex_n :: "nat \<Rightarrow> int \<Rightarrow> pystr" where
  "hex_n 0 v = []"
| "hex_n (Suc k) v = hex_n k (v div 16) @ [hex_chr (v mod 16)]"

lemma length_hex_n [simp]: "length (hex_n k v) = k"
  by (induction k arbitrary: v) auto

lemma hex_chr_inj: "0 \<le> a \<Longrightarrow> a < 16 \<Longrightarrow> 0 \<le> b \<Longrightarrow> b < 16 \<Longrightarrow> hex_chr a = hex_chr b \<Longrightarrow> a = b"
  by (auto simp: hex_chr_def split: if_splits)

lemma hex_chr_range:
  "0 \<le> d \<Longrightarrow> d < 16 \<Longrightarrow> (48 \<le> hex_chr d \<and> hex_chr d \<le> 57) \<or> (97 \<le> hex_chr d \<and> hex_chr d \<le> 102)"
  unfolding hex_chr_def by (cases "d < 10") auto

lemma hex_n_chars: "\<forall>c\<in>set (hex_n k v). (48 \<le> c \<and> c \<le> 57) \<or> (97 \<le> c \<and> c \<le> 102)"
proof (induction k arbitrary: v)
  case (Suc k)
  have "0 \<le> v mod 16" "v mod 16 < 16" by simp_all
  from Suc hex_chr_range [OF this] show ?case by auto
qed simp

lemma hex_n_inj:
  "0 \<le> v \<Longrightarrow> v < 16 ^ k \<Longrightarrow> 0 \<le> w \<Longrightarrow> w < 16 ^ k \<Longrightarrow> hex_n k v = hex_n k w \<Longrightarrow> v = w"
proof (induction k arbitrary: v w)
  case (Suc k)
  from Suc.prems have "hex_n k (v div 16) = hex_n k (w div 16)" and
    h: "hex_chr (v mod 16) = hex_chr (w mod 16)" by auto
  moreover have "v div 16 < 16 ^ k" "w div 16 < 16 ^ k" "0 \<le> v div 16" "0 \<le> w div 16"
    using Suc.prems by (simp_all add: pos_imp_zdiv_nonneg_iff)
  ultimately have "v div 16 = w div 16" using Suc.IH by blast
  moreover have "v mod 16 = w mod 16"
    by (rule hex_chr_inj [OF _ _ _ _ h]) simp_all
  ultimately show ?case by (metis div_mult_mod_eq)
qed simp

text \<open>\<open>str(uuid)\<close>: 8-4-4-4-12 lower-case hexadecimal digits.\<close>

definition uuid_str :: "uuid \<Rightarrow> pystr" where
  "uuid_str u = (let h = hex_n 32 (uint u) in
     take 8 h @ [45] @ take 4 (drop 8 h) @ [45] @ take 4 (drop 12 h) @ [45] @
     take 4 (drop 16 h) @ [45] @ drop 20 h)"

lemma length_uuid_str [simp]: "length (uuid_str u) = 36"
  by (simp add: uuid_str_def Let_def)

lemma uuid_str_inj: "uuid_str u = uuid_str w \<Longrightarrow> u = w"
proof -
  assume e: "uuid_str u = uuid_str w"
  let ?a = "hex_n 32 (uint u)" and ?b = "hex_n 32 (uint w)"
  from e have p: "take 8 ?a = take 8 ?b" "take 4 (drop 8 ?a) = take 4 (drop 8 ?b)"
    "take 4 (drop 12 ?a) = take 4 (drop 12 ?b)" "take 4 (drop 16 ?a) = take 4 (drop 16 ?b)"
    "drop 20 ?a = drop 20 ?b"
    by (simp_all add: uuid_str_def Let_def)
  have s: "xs = take 8 xs @ take 4 (drop 8 xs) @ take 4 (drop 12 xs) @ take 4 (drop 16 xs) @ drop 20 xs"
    for xs :: pystr
  proof -
    have "drop 8 xs = take 4 (drop 8 xs) @ drop 12 xs"
      using append_take_drop_id [of 4 "drop 8 xs"] by simp
    moreover have "drop 12 xs = take 4 (drop 12 xs) @ drop 16 xs"
      using append_take_drop_id [of 4 "drop 12 xs"] by simp
    moreover have "drop 16 xs = take 4 (drop 16 xs) @ drop 20 xs"
      using append_take_drop_id [of 4 "drop 16 xs"] by simp
    ultimately show ?thesis by (metis append_take_drop_id)
  qed
  have "?a = ?b" using s [of ?a] s [of ?b] p by metis
  moreover have "uint u < 16 ^ 32" "uint w < 16 ^ 32"
    using uint_lt2p [of u] uint_lt2p [of w] by simp_all
  ultimately have "uint u = uint w" by (blast intro: hex_n_inj uint_ge_0)
  then show ?thesis by (rule word_uint_eqI)
qed

end
