(* ===== verification/Json.thy ===== *)
theory Json
  imports Py_Str
begin

section \<open>JSON values and the program's exceptions\<close>

text \<open>
  \<open>json\<close> is what \<open>json.loads\<close> and a JSONB column return: an object is the association list
  of its members in order, without duplicate keys; a float is a decimal literal
  (\<open>JFloat m k\<close> is \<open>m / 10 ^ k\<close>).  \<open>exn\<close> holds the exceptions the modelled code raises or
  catches: the platform exceptions of \<open>app/core/exceptions.py\<close> (kind, message and error code),
  the \<open>httpx\<close> errors, and the built-in ones.
\<close>

datatype json =
    JNull
  | JBool bool
  | JInt int
  | JFloat int nat
  | JStr pystr
  | JArr "json list"
  | JObj "(pystr \<times> json) list"

fun json_get :: "pystr \<Rightarrow> (pystr \<times> json) list \<Rightarrow> json option" where
  "json_get k ms = map_of ms k"

text \<open>\<open>d[k] = v\<close> on a dict: an existing key keeps its position.\<close>

fun json_set :: "pystr \<Rightarrow> json \<Rightarrow> (pystr \<times> json) list \<Rightarrow> (pystr \<times> json) list" where
  "json_set k v [] = [(k, v)]"
| "json_set k v ((a, b) # ms) = (if a = k then (a, v) # ms else (a, b) # json_set k v ms)"

lemma json_get_set: "json_get j (json_set k v ms) = (if j = k then Some v else json_get j ms)"
  by (induction ms) auto

lemma keys_json_set: "fst ` set (json_set k v ms) = insert k (fst ` set ms)"
proof (induction ms)
  case (Cons p ms)
  then show ?case by (cases p) (auto simp del: image_eqI)
qed simp

lemma distinct_json_set: "distinct (map fst ms) \<Longrightarrow> distinct (map fst (json_set k v ms))"
proof (induction ms)
  case (Cons p ms)
  then show ?case by (cases p) (auto simp: keys_json_set simp del: image_eqI)
qed simp

text \<open>Python truth of a JSON value (\<open>if value:\<close>).\<close>

fun json_truthy :: "json \<Rightarrow> bool" where
  "json_truthy JNull = False"
| "json_truthy (JBool b) = b"
| "json_truthy (JInt i) = (i \<noteq> 0)"
| "json_truthy (JFloat m k) = (m \<noteq> 0)"
| "json_truthy (JStr s) = (s \<noteq> [])"
| "json_truthy (JArr xs) = (xs \<noteq> [])"
| "json_truthy (JObj ms) = (ms \<noteq> [])"

subsection \<open>Exceptions\<close>

datatype platform_kind =
    PlatformException
  | ValidationError
  | NotFoundError
  | ConflictError
  | UnauthorizedError
  | ForbiddenError
  | ServiceUnavailableError
  | BillingWebhookError
  | RateLimitedError

definition default_error_code :: "platform_kind \<Rightarrow> pystr" where
  "default_error_code k = (case k of
     PlatformException \<Rightarrow> S ''internal_error''
   | ValidationError \<Rightarrow> S ''validation_error''
   | NotFoundError \<Rightarrow> S ''not_found''
   | ConflictError \<Rightarrow> S ''conflict''
   | UnauthorizedError \<Rightarrow> S ''unauthorized''
   | ForbiddenError \<Rightarrow> S ''forbidden''
   | ServiceUnavailableError \<Rightarrow> S ''service_unavailable''
   | BillingWebhookError \<Rightarrow> S ''billing_webhook_error''
   | RateLimitedError \<Rightarrow> S ''rate_limited'')"

definition http_status_code :: "platform_kind \<Rightarrow> int" where
  "http_status_code k = (case k of
     PlatformException \<Rightarrow> 500
   | ValidationError \<Rightarrow> 422
   | NotFoundError \<Rightarrow> 404
   | ConflictError \<Rightarrow> 409
   | UnauthorizedError \<Rightarrow> 401
   | ForbiddenError \<Rightarrow> 403
   | ServiceUnavailableError \<Rightarrow> 503
   | BillingWebhookError \<Rightarrow> 500
   | RateLimitedError \<Rightarrow> 429)"

datatype exn =
    Platform platform_kind (exn_message: pystr) (exn_code: pystr)
  | Http_status int
  | Http_transport pystr
  | Os_error
  | Json_decode_error
  | Unicode_decode_error
  | Binascii_error
  | Value_error pystr
  | Attribute_error
  | Type_error
  | Judge_parse_error pystr pystr
  | Integrity_error
  | Pending_rollback_error
  | Runtime_error pystr

text \<open>\<open>raise Kind(message, error_code=code)\<close>; without a code (or with an empty one) the class
  attribute is used.\<close>

definition raise_platform :: "platform_kind \<Rightarrow> pystr \<Rightarrow> pystr option \<Rightarrow> exn" where
  "raise_platform k msg code = Platform k msg
     (case code of None \<Rightarrow> default_error_code k
      | Some c \<Rightarrow> if c = [] then default_error_code k else c)"

fun is_platform :: "platform_kind \<Rightarrow> exn \<Rightarrow> bool" where
  "is_platform k (Platform k' m c) = (k = k')"
| "is_platform k _ = False"

text \<open>\<open>except httpx.HTTPError\<close>.\<close>

fun is_http_error :: "exn \<Rightarrow> bool" where
  "is_http_error (Http_status c) = True"
| "is_http_error (Http_transport m) = True"
| "is_http_error _ = False"

text \<open>\<open>except ValueError\<close>: with its subclasses \<open>JSONDecodeError\<close>, \<open>UnicodeDecodeError\<close>,
  \<open>binascii.Error\<close> and the program's \<open>JudgeParseError\<close>.\<close>

fun is_value_error :: "exn \<Rightarrow> bool" where
  "is_value_error (Value_error m) = True"
| "is_value_error (Judge_parse_error c t) = True"
| "is_value_error Json_decode_error = True"
| "is_value_error Unicode_decode_error = True"
| "is_value_error Binascii_error = True"
| "is_value_error _ = False"

lemma http_not_value_error: "is_http_error e \<Longrightarrow> \<not> is_value_error e"
  by (cases e) auto

end
