(* ===== verification/Enums.thy ===== *)
theory Enums
  imports Json
begin

section \<open>Enumerations (\<open>app/constants/enums.py\<close>)\<close>

text \<open>
  The string enums of the pipeline.  A column holds the member's value; the model keeps the
  member, and \<open>..._value\<close> gives the stored string where the code reads it
  (\<open>stored_enum_value\<close>, \<open>.value\<close>) or parses it (\<open>Enum(text)\<close>, which raises
  \<open>ValueError\<close> on an unknown value).
\<close>

datatype github_installation_status = Inst_active | Inst_suspended | Inst_removed

datatype account_type = Account_user | Account_organization

datatype repository_status = Repo_active | Repo_removed

datatype pull_request_state = PR_open | PR_closed

datatype index_job_status = IJ_pending | IJ_processing | IJ_completed | IJ_failed

datatype trigger_source = Trig_manual | Trig_autostart | Trig_command

datatype index_mode = Mode_diff | Mode_full

datatype step_type =
  Step_index | Step_retrieve | Step_review | Step_reconcile | Step_judge | Step_publish

datatype step_status = St_pending | St_processing | St_completed | St_failed

datatype artifact_kind =
  Art_manifest | Art_prompt | Art_raw_response | Art_parse_report | Art_summary_markdown
  | Art_retrieval_hits

datatype resolution_status = RS_addressed | RS_still_open | RS_judge_dismissed

datatype resolution_method =
  RM_absent_and_addressed | RM_judge_dismissed | RM_verification_dismissed
  | RM_human_dismissed | RM_head_contradiction

datatype judge_purpose = JP_discovery | JP_verification

datatype review_run_status =
  RR_pending | RR_processing | RR_completed | RR_failed | RR_superseded

datatype review_profile = Prof_standard | Prof_deep | Prof_critical

datatype finding_severity = Sev_info | Sev_warning | Sev_error | Sev_critical

datatype finding_category =
  Cat_security | Cat_bug | Cat_performance | Cat_style | Cat_maintainability | Cat_other

datatype group_state = Grp_active | Grp_superseded | Grp_resolved

datatype judge_outcome = JO_upheld | JO_dismissed | JO_modified

datatype judge_status =
  JS_not_applicable | JS_completed | JS_skipped_disabled | JS_skipped_unavailable

datatype publish_job_status =
  PJ_pending | PJ_processing | PJ_completed | PJ_failed | PJ_skipped_not_head
  | PJ_skipped_superseded

datatype failure_class =
  FC_timeout | FC_rate_limit | FC_provider_error | FC_truncated | FC_parse_error
  | FC_context_length | FC_celery_soft_limit | FC_superseded

subsection \<open>Stored values\<close>

definition severity_value :: "finding_severity \<Rightarrow> pystr" where
  "severity_value s = (case s of
     Sev_info \<Rightarrow> S ''info'' | Sev_warning \<Rightarrow> S ''warning''
   | Sev_error \<Rightarrow> S ''error'' | Sev_critical \<Rightarrow> S ''critical'')"

definition category_value :: "finding_category \<Rightarrow> pystr" where
  "category_value c = (case c of
     Cat_security \<Rightarrow> S ''security'' | Cat_bug \<Rightarrow> S ''bug''
   | Cat_performance \<Rightarrow> S ''performance'' | Cat_style \<Rightarrow> S ''style''
   | Cat_maintainability \<Rightarrow> S ''maintainability'' | Cat_other \<Rightarrow> S ''other'')"

definition outcome_value :: "judge_outcome \<Rightarrow> pystr" where
  "outcome_value o' = (case o' of
     JO_upheld \<Rightarrow> S ''upheld'' | JO_dismissed \<Rightarrow> S ''dismissed'' | JO_modified \<Rightarrow> S ''modified'')"

text \<open>\<open>Enum(value)\<close>: the member with that value, in declaration order.\<close>

definition severity_of :: "pystr \<Rightarrow> finding_severity option" where
  "severity_of v = List.find (\<lambda>s. severity_value s = v)
     [Sev_info, Sev_warning, Sev_error, Sev_critical]"

definition category_of :: "pystr \<Rightarrow> finding_category option" where
  "category_of v = List.find (\<lambda>c. category_value c = v)
     [Cat_security, Cat_bug, Cat_performance, Cat_style, Cat_maintainability, Cat_other]"

definition outcome_of :: "pystr \<Rightarrow> judge_outcome option" where
  "outcome_of v = List.find (\<lambda>c. outcome_value c = v) [JO_upheld, JO_dismissed, JO_modified]"

lemma severity_of_value [simp]: "severity_of (severity_value s) = Some s"
  by (cases s) (simp_all add: severity_of_def severity_value_def S_def)

lemma category_of_value [simp]: "category_of (category_value c) = Some c"
  by (cases c) (simp_all add: category_of_def category_value_def S_def)

lemma outcome_of_value [simp]: "outcome_of (outcome_value c) = Some c"
  by (cases c) (simp_all add: outcome_of_def outcome_value_def S_def)

lemma category_value_inj: "category_value c = category_value d \<longleftrightarrow> c = d"
  by (metis category_of_value option.inject)

lemma category_value_no_sep: "31 \<notin> set (category_value c)"
  by (cases c) (simp_all add: category_value_def S_def)

subsection \<open>Severity order\<close>

text \<open>\<open>severity_rank\<close> of \<open>github_finding_reconcile.py\<close>; severities are ordered by it.\<close>

definition severity_rank :: "finding_severity \<Rightarrow> nat" where
  "severity_rank s = (case s of
     Sev_info \<Rightarrow> 0 | Sev_warning \<Rightarrow> 1 | Sev_error \<Rightarrow> 2 | Sev_critical \<Rightarrow> 3)"

lemma severity_rank_inj: "severity_rank a = severity_rank b \<longleftrightarrow> a = b"
  by (cases a; cases b) (simp_all add: severity_rank_def)

instantiation finding_severity :: linorder
begin

definition less_eq_finding_severity :: "finding_severity \<Rightarrow> finding_severity \<Rightarrow> bool" where
  "less_eq_finding_severity a b \<longleftrightarrow> severity_rank a \<le> severity_rank b"

definition less_finding_severity :: "finding_severity \<Rightarrow> finding_severity \<Rightarrow> bool" where
  "less_finding_severity a b \<longleftrightarrow> severity_rank a < severity_rank b"

instance
  by standard
     (auto simp: less_eq_finding_severity_def less_finding_severity_def severity_rank_inj)

end

end
