(* ===== verification/Records.thy ===== *)
theory Records
  imports Enums
begin

section \<open>Rows and the database session (\<open>app/models/\<close>)\<close>

text \<open>
  One \<open>record\<close> per ORM class, with the columns the modelled code reads or writes (every
  column of the finding and run tables; the columns of \<open>TimestampedModel\<close> that code reads are
  \<open>..._id\<close> and \<open>..._created_at\<close>, a UTC instant in microseconds).  An identifier is a 128-bit
  word.  \<open>session\<close> is the database as one transaction sees it: one list per table, the
  supply of fresh identifiers (\<open>uuid_generate_v7()\<close> on the server) and the clock
  (\<open>utc_now()\<close>), both read with the number of rows created so far, so that successive rows
  may get later timestamps.  \<open>ss_checks\<close> is the log of these
  requests, each with whether it was answered with success.
\<close>

record workspace =
  ws_id :: uuid
  ws_review_autostart_enabled :: bool
  ws_completed_review_runs :: int
  ws_review_run_limit :: "int option"

record installation =
  inst_id :: uuid
  inst_workspace_id :: uuid
  inst_github_installation_id :: int
  inst_account_login :: pystr
  inst_account_type :: account_type
  inst_account_id :: int
  inst_status :: github_installation_status
  inst_permissions_snapshot :: "json option"
  inst_verified_at :: "int option"

record repository =
  repo_id :: uuid
  repo_installation_id :: uuid
  repo_workspace_id :: uuid
  repo_github_repository_id :: int
  repo_name :: pystr
  repo_full_name :: pystr
  repo_default_branch :: "pystr option"
  repo_private :: bool
  repo_html_url :: "pystr option"
  repo_status :: repository_status

record pull_request =
  pr_id :: uuid
  pr_repository_id :: uuid
  pr_workspace_id :: uuid
  pr_installation_id :: uuid
  pr_github_pull_request_id :: int
  pr_number :: int
  pr_title :: pystr
  pr_state :: pull_request_state
  pr_head_sha :: pystr
  pr_head_ref :: pystr
  pr_base_ref :: pystr
  pr_html_url :: "pystr option"
  pr_body :: "pystr option"
  pr_revision_count :: int
  pr_is_draft :: bool
  pr_merged :: bool
  pr_resolution_rollup :: "json option"

record revision =
  rev_id :: uuid
  rev_pull_request_id :: uuid
  rev_number :: int
  rev_head_sha :: pystr
  rev_base_sha :: "pystr option"

record pull_request_review =
  pv_id :: uuid
  pv_pull_request_id :: uuid
  pv_github_review_id :: int
  pv_author_login :: pystr
  pv_state :: pystr
  pv_submitted_at :: int

record webhook_delivery =
  wd_delivery_id :: pystr
  wd_event_type :: pystr
  wd_installation_id :: "int option"
  wd_payload :: "(pystr \<times> json) list"

record index_job =
  ij_id :: uuid
  ij_revision_id :: uuid
  ij_workspace_id :: uuid
  ij_status :: index_job_status
  ij_error_message :: "pystr option"
  ij_trigger_source :: trigger_source
  ij_index_mode :: index_mode
  ij_chunk_count :: "int option"
  ij_fallback_reason :: "pystr option"
  ij_warning_message :: "pystr option"
  ij_index_incremental :: bool
  ij_created_at :: int

record chunk_row =
  cr_id :: uuid
  cr_index_job_id :: uuid
  cr_revision_id :: uuid
  cr_workspace_id :: uuid
  cr_file_path :: pystr
  cr_chunk_index :: int
  cr_content :: pystr
  cr_content_hash :: "pystr option"
  cr_embedding :: "int list option"

record review_run =
  rr_id :: uuid
  rr_revision_id :: uuid
  rr_workspace_id :: uuid
  rr_status :: review_run_status
  rr_profile :: review_profile
  rr_provider :: "pystr option"
  rr_model_id :: "pystr option"
  rr_error_message :: "pystr option"
  rr_judge_escalation_candidate_count :: int
  rr_judge_status :: judge_status
  rr_context_stats :: "json option"
  rr_trigger_source :: "trigger_source option"
  rr_created_at :: int

record publish_job =
  pj_id :: uuid
  pj_review_run_id :: uuid
  pj_revision_id :: uuid
  pj_workspace_id :: uuid
  pj_head_sha :: pystr
  pj_status :: publish_job_status
  pj_github_check_run_id :: "int option"
  pj_github_comment_id :: "int option"
  pj_inline_comments_posted :: bool
  pj_summary_json :: "json option"
  pj_error_message :: "pystr option"
  pj_created_at :: int

record finding =
  fi_id :: uuid
  fi_review_run_id :: uuid
  fi_workspace_id :: uuid
  fi_severity :: finding_severity
  fi_category :: finding_category
  fi_title :: pystr
  fi_message :: pystr
  fi_file_path :: "pystr option"
  fi_start_line :: "int option"
  fi_end_line :: "int option"
  fi_suggestion :: "pystr option"
  fi_evidence_snippet :: "pystr option"
  fi_group_id :: "uuid option"
  fi_created_at :: int

record finding_group =
  fg_id :: uuid
  fg_workspace_id :: uuid
  fg_pull_request_id :: uuid
  fg_fingerprint :: pystr
  fg_state :: group_state
  fg_severity :: finding_severity
  fg_category :: finding_category
  fg_title :: pystr
  fg_message :: pystr
  fg_file_path :: "pystr option"
  fg_start_line :: "int option"
  fg_claim_slot :: "pystr option"
  fg_last_seen_revision_id :: uuid
  fg_resolution_status :: "resolution_status option"
  fg_resolution_method :: "resolution_method option"
  fg_resolved_at_revision_id :: "uuid option"
  fg_closure_blocked_reason :: "pystr option"
  fg_created_at :: int

record judge_row =
  jo_id :: uuid
  jo_group_id :: uuid
  jo_review_run_id :: uuid
  jo_workspace_id :: uuid
  jo_outcome :: judge_outcome
  jo_judge_purpose :: judge_purpose
  jo_judge_provider :: "pystr option"
  jo_judge_model_id :: "pystr option"
  jo_judge_notes :: "pystr option"

record pipeline_run =
  pl_id :: uuid
  pl_workspace_id :: uuid
  pl_revision_id :: uuid
  pl_head_sha :: pystr
  pl_index_mode :: index_mode
  pl_index_job_id :: "uuid option"
  pl_review_run_id :: "uuid option"
  pl_publish_job_id :: "uuid option"
  pl_models_snapshot :: "json option"

record pipeline_step =
  ps_id :: uuid
  ps_pipeline_run_id :: uuid
  ps_step_type :: step_type
  ps_status :: step_status
  ps_duration_ms :: "int option"
  ps_model_provider :: "pystr option"
  ps_model_id :: "pystr option"
  ps_input_tokens :: "int option"
  ps_output_tokens :: "int option"
  ps_error :: "pystr option"
  ps_created_at :: int

record pipeline_artifact =
  pa_id :: uuid
  pa_step_id :: uuid
  pa_kind :: artifact_kind
  pa_content_text :: "pystr option"
  pa_content_json :: "json option"
  pa_created_at :: int

record llm_attempt =
  la_id :: uuid
  la_pipeline_run_id :: uuid
  la_step_type :: pystr
  la_provider :: pystr
  la_request_model :: pystr
  la_started_at :: "int option"
  la_failure_class :: "failure_class option"

text \<open>The requests sent to GitHub that write, and those to its GraphQL endpoint: the URL and the JSON body.
  Most are for check runs; publishing adds comments, review comments and threads.\<close>

datatype check_call =
    Check_post pystr json
  | Check_patch pystr json
  | Check_delete pystr

record session =
  ss_workspaces :: "workspace list"
  ss_installations :: "installation list"
  ss_repositories :: "repository list"
  ss_pull_requests :: "pull_request list"
  ss_revisions :: "revision list"
  ss_reviews :: "pull_request_review list"
  ss_deliveries :: "webhook_delivery list"
  ss_index_jobs :: "index_job list"
  ss_chunks :: "chunk_row list"
  ss_review_runs :: "review_run list"
  ss_publish_jobs :: "publish_job list"
  ss_findings :: "finding list"
  ss_groups :: "finding_group list"
  ss_outcomes :: "judge_row list"
  ss_pipeline_runs :: "pipeline_run list"
  ss_steps :: "pipeline_step list"
  ss_artifacts :: "pipeline_artifact list"
  ss_attempts :: "llm_attempt list"
  ss_checks :: "(check_call \<times> bool) list"
  ss_uuids :: "nat \<Rightarrow> uuid"
  ss_clock :: "nat \<Rightarrow> int"
  ss_created :: nat

subsection \<open>\<open>session.get\<close>, \<open>session.add\<close> and attribute writes\<close>

definition get_workspace :: "session \<Rightarrow> uuid \<Rightarrow> workspace option" where
  "get_workspace s k = tbl_get ws_id k (ss_workspaces s)"

definition get_installation :: "session \<Rightarrow> uuid \<Rightarrow> installation option" where
  "get_installation s k = tbl_get inst_id k (ss_installations s)"

definition get_repository :: "session \<Rightarrow> uuid \<Rightarrow> repository option" where
  "get_repository s k = tbl_get repo_id k (ss_repositories s)"

definition get_pull_request :: "session \<Rightarrow> uuid \<Rightarrow> pull_request option" where
  "get_pull_request s k = tbl_get pr_id k (ss_pull_requests s)"

definition get_revision :: "session \<Rightarrow> uuid \<Rightarrow> revision option" where
  "get_revision s k = tbl_get rev_id k (ss_revisions s)"

definition get_index_job :: "session \<Rightarrow> uuid \<Rightarrow> index_job option" where
  "get_index_job s k = tbl_get ij_id k (ss_index_jobs s)"

definition get_review_run :: "session \<Rightarrow> uuid \<Rightarrow> review_run option" where
  "get_review_run s k = tbl_get rr_id k (ss_review_runs s)"

definition get_group :: "session \<Rightarrow> uuid \<Rightarrow> finding_group option" where
  "get_group s k = tbl_get fg_id k (ss_groups s)"

definition get_pipeline_run :: "session \<Rightarrow> uuid \<Rightarrow> pipeline_run option" where
  "get_pipeline_run s k = tbl_get pl_id k (ss_pipeline_runs s)"

definition get_publish_job :: "session \<Rightarrow> uuid \<Rightarrow> publish_job option" where
  "get_publish_job s k = tbl_get pj_id k (ss_publish_jobs s)"

definition put_group :: "finding_group \<Rightarrow> session \<Rightarrow> session" where
  "put_group g s = s\<lparr>ss_groups := tbl_put fg_id g (ss_groups s)\<rparr>"

definition put_finding :: "finding \<Rightarrow> session \<Rightarrow> session" where
  "put_finding f s = s\<lparr>ss_findings := tbl_put fi_id f (ss_findings s)\<rparr>"

definition put_review_run :: "review_run \<Rightarrow> session \<Rightarrow> session" where
  "put_review_run r s = s\<lparr>ss_review_runs := tbl_put rr_id r (ss_review_runs s)\<rparr>"

definition put_index_job :: "index_job \<Rightarrow> session \<Rightarrow> session" where
  "put_index_job j s = s\<lparr>ss_index_jobs := tbl_put ij_id j (ss_index_jobs s)\<rparr>"

definition put_pipeline_run :: "pipeline_run \<Rightarrow> session \<Rightarrow> session" where
  "put_pipeline_run p s = s\<lparr>ss_pipeline_runs := tbl_put pl_id p (ss_pipeline_runs s)\<rparr>"

definition put_pull_request :: "pull_request \<Rightarrow> session \<Rightarrow> session" where
  "put_pull_request p s = s\<lparr>ss_pull_requests := tbl_put pr_id p (ss_pull_requests s)\<rparr>"

definition put_publish_job :: "publish_job \<Rightarrow> session \<Rightarrow> session" where
  "put_publish_job j s = s\<lparr>ss_publish_jobs := tbl_put pj_id j (ss_publish_jobs s)\<rparr>"

definition put_step :: "pipeline_step \<Rightarrow> session \<Rightarrow> session" where
  "put_step st s = s\<lparr>ss_steps := tbl_put ps_id st (ss_steps s)\<rparr>"

definition put_artifact :: "pipeline_artifact \<Rightarrow> session \<Rightarrow> session" where
  "put_artifact a s = s\<lparr>ss_artifacts := tbl_put pa_id a (ss_artifacts s)\<rparr>"

text \<open>The identifier and creation time the next flushed row gets.\<close>

definition next_uuid :: "session \<Rightarrow> uuid" where
  "next_uuid s = ss_uuids s (ss_created s)"

definition next_time :: "session \<Rightarrow> int" where
  "next_time s = ss_clock s (ss_created s)"

definition tick :: "session \<Rightarrow> session" where
  "tick s = s\<lparr>ss_created := Suc (ss_created s)\<rparr>"

lemmas session_gets =
  get_workspace_def get_installation_def get_repository_def get_pull_request_def
  get_revision_def get_index_job_def get_review_run_def get_group_def get_pipeline_run_def
  get_publish_job_def

lemmas session_puts =
  put_group_def put_finding_def put_review_run_def put_index_job_def put_pipeline_run_def
  put_publish_job_def put_pull_request_def put_step_def put_artifact_def tick_def

text \<open>The tables that components update in place obey the laws of a row store.\<close>

interpretation groups: row_store fg_id "tbl_get fg_id" "tbl_put fg_id" tbl_add "tbl_keys fg_id"
  by (rule tbl_row_store)

interpretation findings: row_store fi_id "tbl_get fi_id" "tbl_put fi_id" tbl_add "tbl_keys fi_id"
  by (rule tbl_row_store)

interpretation runs: row_store rr_id "tbl_get rr_id" "tbl_put rr_id" tbl_add "tbl_keys rr_id"
  by (rule tbl_row_store)

interpretation jobs: row_store ij_id "tbl_get ij_id" "tbl_put ij_id" tbl_add "tbl_keys ij_id"
  by (rule tbl_row_store)

lemma get_group_put [simp]:
  "get_group (put_group g s) k =
     (if k = fg_id g \<and> k \<in> tbl_keys fg_id (ss_groups s) then Some g else get_group s k)"
  by (auto simp: get_group_def put_group_def groups.get_put)

lemma get_group_id: "get_group s k = Some g \<Longrightarrow> fg_id g = k"
  unfolding get_group_def by (rule groups.get_rid)

lemma get_group_in: "get_group s k = Some g \<Longrightarrow> g \<in> set (ss_groups s)"
  unfolding get_group_def by (rule tbl_get_in)

lemma get_revision_id: "get_revision s k = Some r \<Longrightarrow> rev_id r = k"
  unfolding get_revision_def by (rule tbl_get_rid)

lemma get_review_run_id: "get_review_run s k = Some r \<Longrightarrow> rr_id r = k"
  unfolding get_review_run_def by (rule runs.get_rid)

lemma put_group_frame [frame_laws]:
  "get_revision (put_group g s) k = get_revision s k"
  "get_review_run (put_group g s) k = get_review_run s k"
  "get_pull_request (put_group g s) k = get_pull_request s k"
  "ss_findings (put_group g s) = ss_findings s"
  "ss_revisions (put_group g s) = ss_revisions s"
  "ss_outcomes (put_group g s) = ss_outcomes s"
  by (simp_all add: put_group_def session_gets)

subsection \<open>A small database\<close>

text \<open>Concrete rows, on which the theorems of the components are instantiated: workspace 3 has
  repository 5, whose pull request 4 has revision 2, reviewed by run 1.\<close>

definition empty_session :: session where
  "empty_session = \<lparr>
     ss_workspaces = [], ss_installations = [], ss_repositories = [], ss_pull_requests = [],
     ss_revisions = [], ss_reviews = [], ss_deliveries = [], ss_index_jobs = [], ss_chunks = [], ss_review_runs = [], ss_publish_jobs = [],
     ss_findings = [], ss_groups = [], ss_outcomes = [], ss_pipeline_runs = [], ss_steps = [],
     ss_artifacts = [], ss_attempts = [], ss_checks = [], ss_uuids = (\<lambda>n. of_nat (n + 1000)),
     ss_clock = int, ss_created = 0\<rparr>"

definition demo_pull_request :: pull_request where
  "demo_pull_request = \<lparr>
     pr_id = 4, pr_repository_id = 5, pr_workspace_id = 3, pr_installation_id = 6,
     pr_github_pull_request_id = 900, pr_number = 17, pr_title = S ''Add'', pr_state = PR_open, pr_head_sha = S ''bb'',
     pr_head_ref = S ''topic'', pr_base_ref = S ''main'', pr_html_url = None, pr_body = None, pr_revision_count = 2,
     pr_is_draft = False, pr_merged = False, pr_resolution_rollup = None\<rparr>"

definition demo_revision :: revision where
  "demo_revision = \<lparr>
     rev_id = 2, rev_pull_request_id = 4, rev_number = 2, rev_head_sha = S ''bb'',
     rev_base_sha = Some (S ''aa'')\<rparr>"

definition demo_run :: review_run where
  "demo_run = \<lparr>
     rr_id = 1, rr_revision_id = 2, rr_workspace_id = 3, rr_status = RR_completed,
     rr_profile = Prof_standard, rr_provider = None, rr_model_id = None, rr_error_message = None, rr_judge_escalation_candidate_count = 0,
     rr_judge_status = JS_not_applicable, rr_context_stats = None, rr_trigger_source = Some Trig_manual,
     rr_created_at = 50\<rparr>"

definition demo_finding :: finding where
  "demo_finding = \<lparr>
     fi_id = 20, fi_review_run_id = 1, fi_workspace_id = 3, fi_severity = Sev_error,
     fi_category = Cat_bug, fi_title = S ''Off by one'', fi_message = S ''Loop bound'',
     fi_file_path = Some (S ''a.py''), fi_start_line = Some 7, fi_end_line = Some 9,
     fi_suggestion = None, fi_evidence_snippet = None, fi_group_id = None, fi_created_at = 51\<rparr>"

definition demo_group :: finding_group where
  "demo_group = \<lparr>
     fg_id = 10, fg_workspace_id = 3, fg_pull_request_id = 4, fg_fingerprint = S ''f0'',
     fg_state = Grp_active, fg_severity = Sev_error, fg_category = Cat_bug,
     fg_title = S ''Off by one'', fg_message = S ''Loop bound'', fg_file_path = Some (S ''a.py''),
     fg_start_line = Some 7, fg_claim_slot = None, fg_last_seen_revision_id = 1,
     fg_resolution_status = None, fg_resolution_method = None, fg_resolved_at_revision_id = None,
     fg_closure_blocked_reason = None, fg_created_at = 40\<rparr>"

definition demo_session :: session where
  "demo_session = empty_session\<lparr>
     ss_pull_requests := [demo_pull_request], ss_revisions := [demo_revision],
     ss_review_runs := [demo_run], ss_findings := [demo_finding], ss_groups := [demo_group]\<rparr>"

lemmas demo_defs =
  empty_session_def demo_pull_request_def demo_revision_def demo_run_def demo_finding_def
  demo_group_def demo_session_def

end
