(* ===== verification/Closure_Rules.thy ===== *)
theory Closure_Rules
  imports Records
begin

section \<open>Finding-group closure rules (\<open>services/github_finding_closure_rules.py\<close>)\<close>

text \<open>
  The pure rules every pass over finding groups consults: when an active group is closed, when
  a resolved one is reopened, and which columns each decision writes.  The dictionaries of column
  values the code returns are \<open>field_update\<close> records, and the \<open>setattr\<close> loop of the callers
  is \<open>apply_fields\<close>.  The ways of closing a group share one contract, the locale
  \<open>closing\<close>, interpreted here on the four of them.
\<close>

definition COMPARE_FAILED_REASON :: pystr where
  "COMPARE_FAILED_REASON = S ''compare_failed''"

definition HEAD_CHECK_FAILED_REASON :: pystr where
  "HEAD_CHECK_FAILED_REASON = S ''head_check_failed''"

lemma reasons_distinct [simp]:
  "COMPARE_FAILED_REASON \<noteq> HEAD_CHECK_FAILED_REASON"
  "HEAD_CHECK_FAILED_REASON \<noteq> COMPARE_FAILED_REASON"
  by (simp_all add: COMPARE_FAILED_REASON_def HEAD_CHECK_FAILED_REASON_def S_def)

record field_update =
  fu_state :: group_state
  fu_resolution_method :: "resolution_method option"
  fu_resolved_at_revision_id :: "uuid option"
  fu_closure_blocked_reason :: "pystr option"

definition apply_fields :: "field_update \<Rightarrow> finding_group \<Rightarrow> finding_group" where
  "apply_fields f g = g\<lparr>
     fg_state := fu_state f,
     fg_resolution_method := fu_resolution_method f,
     fg_resolved_at_revision_id := fu_resolved_at_revision_id f,
     fg_closure_blocked_reason := fu_closure_blocked_reason f\<rparr>"

definition should_close_absent_and_addressed ::
  "group_state \<Rightarrow> bool \<Rightarrow> int \<Rightarrow> bool \<Rightarrow> pystr option \<Rightarrow> bool" where
  "should_close_absent_and_addressed state bound_this_run this_run_finding_count path_gone
      closure_blocked_reason =
     (if state \<noteq> Grp_active then False
      else if bound_this_run then False
      else if \<not> (path_gone \<or> this_run_finding_count = 0) then False
      else closure_blocked_reason = None)"

definition closure_fields_for_absent_and_addressed :: "uuid \<Rightarrow> field_update" where
  "closure_fields_for_absent_and_addressed r = \<lparr>
     fu_state = Grp_resolved,
     fu_resolution_method = Some RM_absent_and_addressed,
     fu_resolved_at_revision_id = Some r,
     fu_closure_blocked_reason = None\<rparr>"

definition apply_resolution_method_on_judge_dismiss ::
  "judge_outcome \<Rightarrow> uuid \<Rightarrow> field_update option" where
  "apply_resolution_method_on_judge_dismiss outcome r =
     (if outcome \<noteq> JO_dismissed then None
      else Some \<lparr>
        fu_state = Grp_resolved,
        fu_resolution_method = Some RM_judge_dismissed,
        fu_resolved_at_revision_id = Some r,
        fu_closure_blocked_reason = None\<rparr>)"

definition apply_resolution_method_on_verification_dismiss ::
  "judge_outcome \<Rightarrow> uuid \<Rightarrow> field_update option" where
  "apply_resolution_method_on_verification_dismiss outcome r =
     (if outcome \<noteq> JO_dismissed then None
      else Some \<lparr>
        fu_state = Grp_resolved,
        fu_resolution_method = Some RM_verification_dismissed,
        fu_resolved_at_revision_id = Some r,
        fu_closure_blocked_reason = None\<rparr>)"

definition apply_resolution_method_on_human_dismiss :: "uuid \<Rightarrow> field_update" where
  "apply_resolution_method_on_human_dismiss r = \<lparr>
     fu_state = Grp_resolved,
     fu_resolution_method = Some RM_human_dismissed,
     fu_resolved_at_revision_id = Some r,
     fu_closure_blocked_reason = None\<rparr>"

definition should_reopen_absent_and_addressed ::
  "group_state \<Rightarrow> resolution_method option \<Rightarrow> bool \<Rightarrow> bool" where
  "should_reopen_absent_and_addressed state resolution_method bound_this_run =
     (if state \<noteq> Grp_resolved then False
      else if resolution_method \<noteq> Some RM_absent_and_addressed then False
      else bound_this_run)"

definition reopen_fields_for_re_report :: field_update where
  "reopen_fields_for_re_report = \<lparr>
     fu_state = Grp_active,
     fu_resolution_method = None,
     fu_resolved_at_revision_id = None,
     fu_closure_blocked_reason = None\<rparr>"

definition should_skip_resolved_group_on_reconcile ::
  "group_state \<Rightarrow> resolution_method option \<Rightarrow> bool" where
  "should_skip_resolved_group_on_reconcile state resolution_method =
     (if state \<noteq> Grp_resolved then False
      else resolution_method \<in>
        {Some RM_judge_dismissed, Some RM_verification_dismissed, Some RM_human_dismissed, None})"

subsection \<open>The well-formed group\<close>

text \<open>
  A group that is not resolved carries no resolution; a resolved one carries the revision it was resolved
  at exactly when it carries a method (rows resolved before the method column existed have
  neither), and no pending closure block.
\<close>

definition group_wf :: "finding_group \<Rightarrow> bool" where
  "group_wf g \<longleftrightarrow>
     (fg_state g \<noteq> Grp_resolved \<longrightarrow>
        fg_resolution_method g = None \<and> fg_resolved_at_revision_id g = None) \<and>
     (fg_state g = Grp_resolved \<longrightarrow>
        (fg_resolution_method g = None \<longleftrightarrow> fg_resolved_at_revision_id g = None) \<and>
        (fg_resolution_method g \<noteq> None \<longrightarrow> fg_closure_blocked_reason g = None))"

text \<open>What a pass may not touch: the identity of a group and what was reported.\<close>

definition same_identity :: "finding_group \<Rightarrow> finding_group \<Rightarrow> bool" where
  "same_identity g h \<longleftrightarrow>
     fg_id g = fg_id h \<and> fg_workspace_id g = fg_workspace_id h \<and>
     fg_pull_request_id g = fg_pull_request_id h \<and> fg_fingerprint g = fg_fingerprint h \<and>
     fg_created_at g = fg_created_at h"

lemma same_identity_refl [simp]: "same_identity g g"
  by (simp add: same_identity_def)

lemma same_identity_trans: "same_identity g h \<Longrightarrow> same_identity h k \<Longrightarrow> same_identity g k"
  by (simp add: same_identity_def)

subsection \<open>The contract of closing a group\<close>

locale closing =
  fixes close :: "uuid \<Rightarrow> finding_group \<Rightarrow> finding_group"
    and how :: resolution_method
  assumes close_state: "fg_state (close r g) = Grp_resolved"
    and close_method: "fg_resolution_method (close r g) = Some how"
    and close_at: "fg_resolved_at_revision_id (close r g) = Some r"
    and close_block: "fg_closure_blocked_reason (close r g) = None"
    and close_same: "same_identity (close r g) g"
    and close_seen: "fg_last_seen_revision_id (close r g) = fg_last_seen_revision_id g"
begin

lemma close_wf: "group_wf (close r g)"
  by (simp add: group_wf_def close_state close_method close_at close_block)

lemma close_not_closable:
  "\<not> should_close_absent_and_addressed (fg_state (close r g)) b n p (fg_closure_blocked_reason (close r g))"
  by (simp add: should_close_absent_and_addressed_def close_state)

lemma close_id: "fg_id (close r g) = fg_id g"
  using close_same by (simp add: same_identity_def)

text \<open>Every close is either final for reconciliation or reopened by a new report of the
  same finding, and only the absence closure is of the second kind; a head contradiction is
  neither (see the reconciliation theory).\<close>

lemma close_skip_iff:
  "should_skip_resolved_group_on_reconcile (fg_state (close r g)) (fg_resolution_method (close r g))
   \<longleftrightarrow> how \<in> {RM_judge_dismissed, RM_verification_dismissed, RM_human_dismissed}"
  by (auto simp: should_skip_resolved_group_on_reconcile_def close_state close_method)

lemma close_reopen_iff:
  "should_reopen_absent_and_addressed (fg_state (close r g)) (fg_resolution_method (close r g)) b
   \<longleftrightarrow> how = RM_absent_and_addressed \<and> b"
  by (auto simp: should_reopen_absent_and_addressed_def close_state close_method)

end

lemma apply_fields_sel [simp]:
  "fg_state (apply_fields f g) = fu_state f"
  "fg_resolution_method (apply_fields f g) = fu_resolution_method f"
  "fg_resolved_at_revision_id (apply_fields f g) = fu_resolved_at_revision_id f"
  "fg_closure_blocked_reason (apply_fields f g) = fu_closure_blocked_reason f"
  "fg_id (apply_fields f g) = fg_id g"
  "fg_last_seen_revision_id (apply_fields f g) = fg_last_seen_revision_id g"
  "fg_resolution_status (apply_fields f g) = fg_resolution_status g"
  "fg_pull_request_id (apply_fields f g) = fg_pull_request_id g"
  "fg_fingerprint (apply_fields f g) = fg_fingerprint g"
  "fg_severity (apply_fields f g) = fg_severity g"
  "fg_category (apply_fields f g) = fg_category g"
  "fg_file_path (apply_fields f g) = fg_file_path g"
  by (simp_all add: apply_fields_def)

lemma apply_fields_same [simp]: "same_identity (apply_fields f g) g"
  by (simp add: apply_fields_def same_identity_def)

definition close_absent :: "uuid \<Rightarrow> finding_group \<Rightarrow> finding_group" where
  "close_absent r g = apply_fields (closure_fields_for_absent_and_addressed r) g"

definition close_human :: "uuid \<Rightarrow> finding_group \<Rightarrow> finding_group" where
  "close_human r g = apply_fields (apply_resolution_method_on_human_dismiss r) g"

definition close_judge :: "uuid \<Rightarrow> finding_group \<Rightarrow> finding_group" where
  "close_judge r g =
     (case apply_resolution_method_on_judge_dismiss JO_dismissed r of
        None \<Rightarrow> g | Some f \<Rightarrow> apply_fields f g)"

definition close_verification :: "uuid \<Rightarrow> finding_group \<Rightarrow> finding_group" where
  "close_verification r g =
     (case apply_resolution_method_on_verification_dismiss JO_dismissed r of
        None \<Rightarrow> g | Some f \<Rightarrow> apply_fields f g)"

interpretation absent: closing close_absent RM_absent_and_addressed
  by unfold_locales (simp_all add: close_absent_def closure_fields_for_absent_and_addressed_def)

interpretation human: closing close_human RM_human_dismissed
  by unfold_locales (simp_all add: close_human_def apply_resolution_method_on_human_dismiss_def)

interpretation judged: closing close_judge RM_judge_dismissed
  by unfold_locales (simp_all add: close_judge_def apply_resolution_method_on_judge_dismiss_def)

interpretation verified: closing close_verification RM_verification_dismissed
  by unfold_locales
     (simp_all add: close_verification_def apply_resolution_method_on_verification_dismiss_def)

subsection \<open>Facts about the rules\<close>

lemma reopen_wf: "group_wf (apply_fields reopen_fields_for_re_report g)"
  by (simp add: group_wf_def reopen_fields_for_re_report_def)

lemma should_close_iff:
  "should_close_absent_and_addressed st bound n gone blocked \<longleftrightarrow>
     st = Grp_active \<and> \<not> bound \<and> (gone \<or> n = 0) \<and> blocked = None"
  by (simp add: should_close_absent_and_addressed_def)

end
