(* ===== verification/Utf8.thy ===== *)
theory Utf8
  imports Py_Str
begin

section \<open>UTF-8 encoding, decoding and byte-bounded truncation\<close>

text \<open>
  \<open>str.encode("utf-8")\<close> and \<open>bytes.decode("utf-8")\<close>, strict and with
  \<open>errors="ignore"\<close>, on strings of Unicode scalar values (\<open>valid_str\<close>: no lone surrogates,
  which PostgreSQL text cannot hold and for which \<open>encode\<close> raises).  Dropping one byte at a time
  gives the same text as CPython's dropping of the maximal ill-formed subpart, because the
  bytes it covers after the first are continuation bytes, ill-formed on their own.
  \<open>truncate_utf8\<close> is the helper the services share (\<open>_truncate_utf8\<close> of
  \<open>engineering_context/extract.py\<close>, \<open>pack.py\<close>, \<open>judge_prompt_context.py\<close>,
  \<open>github_review.py\<close>, and \<open>_truncate_text\<close> of \<open>github_pipeline_trace.py\<close>).
\<close>

definition valid_cp :: "nat \<Rightarrow> bool" where
  "valid_cp c \<longleftrightarrow> c < 0xD800 \<or> (0xE000 \<le> c \<and> c < 0x110000)"

definition valid_str :: "pystr \<Rightarrow> bool" where
  "valid_str s \<longleftrightarrow> list_all valid_cp s"

definition utf8_char :: "nat \<Rightarrow> nat list" where
  "utf8_char c =
     (if c < 0x80 then [c]
      else if c < 0x800 then [0xC0 + c div 64, 0x80 + c mod 64]
      else if c < 0x10000 then [0xE0 + c div 4096, 0x80 + c div 64 mod 64, 0x80 + c mod 64]
      else [0xF0 + c div 262144, 0x80 + c div 4096 mod 64, 0x80 + c div 64 mod 64, 0x80 + c mod 64])"

definition utf8_encode :: "pystr \<Rightarrow> nat list" where
  "utf8_encode s = concat (map utf8_char s)"

definition is_cont :: "nat \<Rightarrow> bool" where
  "is_cont b \<longleftrightarrow> 0x80 \<le> b \<and> b < 0xC0"

text \<open>The first character of a byte string, and how many bytes it takes.\<close>

fun utf8_step :: "nat list \<Rightarrow> (nat \<times> nat) option" where
  "utf8_step [] = None"
| "utf8_step (a # bs) =
     (if a < 0x80 then Some (a, 1)
      else if a < 0xC2 then None
      else if a < 0xE0 then
        (case bs of b # _ \<Rightarrow> if is_cont b then Some ((a - 0xC0) * 64 + (b - 0x80), 2) else None
         | _ \<Rightarrow> None)
      else if a < 0xF0 then
        (case bs of b # c # _ \<Rightarrow>
           if is_cont b \<and> is_cont c \<and> (a = 0xE0 \<longrightarrow> 0xA0 \<le> b) \<and> (a = 0xED \<longrightarrow> b < 0xA0)
           then Some ((a - 0xE0) * 4096 + (b - 0x80) * 64 + (c - 0x80), 3) else None
         | _ \<Rightarrow> None)
      else if a < 0xF5 then
        (case bs of b # c # d # _ \<Rightarrow>
           if is_cont b \<and> is_cont c \<and> is_cont d \<and> (a = 0xF0 \<longrightarrow> 0x90 \<le> b) \<and> (a = 0xF4 \<longrightarrow> b < 0x90)
           then Some ((a - 0xF0) * 262144 + (b - 0x80) * 4096 + (c - 0x80) * 64 + (d - 0x80), 4)
           else None
         | _ \<Rightarrow> None)
      else None)"

declare utf8_step.simps [simp del]

lemma utf8_step_pos: "utf8_step bs = Some (c, n) \<Longrightarrow> 0 < n \<and> n \<le> length bs"
  by (cases bs) (auto simp: utf8_step.simps split: if_splits list.splits)

function utf8_decode :: "nat list \<Rightarrow> pystr option" where
  "utf8_decode bs =
     (if bs = [] then Some []
      else case utf8_step bs of None \<Rightarrow> None
           | Some (c, n) \<Rightarrow> map_option (\<lambda>s. c # s) (utf8_decode (drop n bs)))"
  by pat_completeness auto
termination
  by (relation "measure length") (auto dest: utf8_step_pos)

function utf8_decode_ignore :: "nat list \<Rightarrow> pystr" where
  "utf8_decode_ignore bs =
     (if bs = [] then []
      else case utf8_step bs of None \<Rightarrow> utf8_decode_ignore (drop 1 bs)
           | Some (c, n) \<Rightarrow> c # utf8_decode_ignore (drop n bs))"
  by pat_completeness auto
termination
  by (relation "measure length") (auto dest: utf8_step_pos)

declare utf8_decode.simps [simp del] utf8_decode_ignore.simps [simp del]

lemma utf8_decode_Nil [simp]: "utf8_decode [] = Some []" "utf8_decode_ignore [] = []"
  by (simp_all add: utf8_decode.simps [of "[]"] utf8_decode_ignore.simps [of "[]"])

subsection \<open>Round trip\<close>

lemma utf8_step_char:
  assumes "valid_cp c"
  shows "utf8_step (utf8_char c @ bs) = Some (c, length (utf8_char c))"
proof -
  consider "c < 0x80" | "0x80 \<le> c" "c < 0x800" | "0x800 \<le> c" "c < 0x10000" | "0x10000 \<le> c"
    by linarith
  then show ?thesis
  proof cases
    case 1
    then show ?thesis by (simp add: utf8_char_def utf8_step.simps)
  next
    case 2
    have "2 \<le> c div 64" "c div 64 < 32" using 2 by linarith+
    with 2 show ?thesis by (auto simp: utf8_char_def utf8_step.simps is_cont_def)
  next
    case 3
    define p where "p = c div 64"
    have r: "c div 4096 = p div 64" by (simp add: p_def flip: div_mult2_eq)
    have p: "32 \<le> p" "p < 1024" using 3 unfolding p_def by linarith+
    have w: "c = p * 64 + c mod 64" "p = p div 64 * 64 + p mod 64"
      unfolding p_def by simp_all
    have d: "p div 64 < 16" "p div 64 = 0 \<longrightarrow> 32 \<le> p mod 64"
      using p w(2) by (linarith, auto)
    have c: "c < 55296 \<or> 57344 \<le> c" using assms unfolding valid_cp_def by linarith
    have e: "p div 64 = 13 \<longrightarrow> p mod 64 < 32"
    proof
      assume "p div 64 = 13"
      with w(2) have "p = 832 + p mod 64" by simp
      moreover have "p mod 64 < 64" "c mod 64 < 64" by simp_all
      ultimately show "p mod 64 < 32" using w(1) c by linarith
    qed
    have v: "p div 64 * 4096 + p mod 64 * 64 + c mod 64 = c" using w by linarith
    note d = d [folded r, unfolded p_def]
    note e = e [folded r, unfolded p_def]
    note v = v [folded r, unfolded p_def]
    show ?thesis using 3 d e v by (auto simp: utf8_char_def utf8_step.simps is_cont_def)
  next
    case 4
    have m: "c < 0x110000" using assms 4 by (auto simp: valid_cp_def)
    define p q where "p = c div 64" and "q = c div 4096"
    have r: "q = p div 64" "c div 262144 = q div 64"
      by (simp_all add: p_def q_def flip: div_mult2_eq)
    have q: "16 \<le> q" "q < 272" using 4 m unfolding q_def by linarith+
    have d: "q div 64 < 5" using q by linarith
    have d': "q div 64 = 0 \<longrightarrow> 16 \<le> q mod 64" "q div 64 = 4 \<longrightarrow> q mod 64 < 16"
      using q div_mult_mod_eq [of q 64] by linarith+
    have w: "c = p * 64 + c mod 64" "p = q * 64 + p mod 64" "q = q div 64 * 64 + q mod 64"
      unfolding p_def r(1) by simp_all
    have v: "q div 64 * 262144 + q mod 64 * 4096 + p mod 64 * 64 + c mod 64 = c"
      using w by linarith
    note d = d [folded r(2), unfolded q_def] d' [folded r(2), unfolded q_def]
    note v = v [folded r(2), unfolded q_def p_def]
    show ?thesis using 4 d v by (auto simp: utf8_char_def utf8_step.simps is_cont_def)
  qed
qed

lemma utf8_char_ne [simp]: "utf8_char c \<noteq> []"
  by (simp add: utf8_char_def)

lemma utf8_encode_simps [simp]:
  "utf8_encode [] = []"
  "utf8_encode (c # s) = utf8_char c @ utf8_encode s"
  "utf8_encode (s @ t) = utf8_encode s @ utf8_encode t"
  by (simp_all add: utf8_encode_def)

lemma utf8_decode_char:
  "valid_cp c \<Longrightarrow> utf8_decode (utf8_char c @ bs) = map_option (\<lambda>s. c # s) (utf8_decode bs)"
  by (subst utf8_decode.simps) (simp add: utf8_step_char)

lemma utf8_decode_ignore_char:
  "valid_cp c \<Longrightarrow> utf8_decode_ignore (utf8_char c @ bs) = c # utf8_decode_ignore bs"
  by (subst utf8_decode_ignore.simps) (simp add: utf8_step_char)

lemma utf8_roundtrip: "valid_str s \<Longrightarrow> utf8_decode (utf8_encode s) = Some s"
  by (induction s) (auto simp: valid_str_def utf8_decode_char)

lemma length_utf8_encode_ge: "length s \<le> length (utf8_encode s)"
proof (induction s)
  case (Cons c s)
  have "1 \<le> length (utf8_char c)" by (simp add: utf8_char_def)
  with Cons show ?case by simp
qed simp

subsection \<open>Truncation\<close>

definition truncate_utf8 :: "pystr \<Rightarrow> nat \<Rightarrow> pystr" where
  "truncate_utf8 text max_bytes =
     (let encoded = utf8_encode text in
      if length encoded \<le> max_bytes then text
      else utf8_decode_ignore (take max_bytes encoded))"

text \<open>A proper prefix of one character's bytes decodes to nothing.\<close>

lemma is_cont_mod: "is_cont (0x80 + n mod 64)"
proof -
  have "n mod 64 < 64" by simp
  then show ?thesis unfolding is_cont_def by linarith
qed

lemma utf8_step_cont: "is_cont b \<Longrightarrow> utf8_step (b # bs) = None"
  by (auto simp: utf8_step.simps is_cont_def)

lemma decode_ignore_conts: "list_all is_cont bs \<Longrightarrow> utf8_decode_ignore bs = []"
  by (induction bs) (simp_all add: utf8_decode_ignore.simps [of "_ # _"] utf8_step_cont)

lemma utf8_char_tl_cont: "list_all is_cont (tl (utf8_char c))"
  using is_cont_mod [of c] is_cont_mod [of "c div 64"] is_cont_mod [of "c div 4096"]
  by (auto simp: utf8_char_def)

lemma utf8_step_append: "utf8_step bs = Some r \<Longrightarrow> utf8_step (bs @ xs) = Some r"
  by (cases bs) (auto simp: utf8_step.simps split: if_splits list.splits)

lemma utf8_step_partial:
  assumes "valid_cp c" "k < length (utf8_char c)"
  shows "utf8_step (take k (utf8_char c)) = None"
proof (cases "utf8_step (take k (utf8_char c))")
  case (Some r)
  then have "utf8_step (utf8_char c) = Some r"
    using utf8_step_append [OF Some, of "drop k (utf8_char c)"] by simp
  moreover have "utf8_step (utf8_char c) = Some (c, length (utf8_char c))"
    using utf8_step_char [OF assms(1), of "[]"] by simp
  ultimately have "utf8_step (take k (utf8_char c)) = Some (c, length (utf8_char c))"
    using Some by simp
  from utf8_step_pos [OF this] assms(2) show ?thesis by simp
qed

lemma decode_ignore_partial:
  assumes "valid_cp c" "k < length (utf8_char c)"
  shows "utf8_decode_ignore (take k (utf8_char c)) = []"
proof (cases "take k (utf8_char c)")
  case Nil
  then show ?thesis by simp
next
  case (Cons b bs)
  then have "bs = take (k - 1) (tl (utf8_char c))"
    by (metis list.sel(3) tl_take)
  then have "list_all is_cont bs"
    using utf8_char_tl_cont [of c] by (auto simp: list_all_iff dest: in_set_takeD)
  moreover have "utf8_step (b # bs) = None"
    using utf8_step_partial [OF assms] Cons by simp
  ultimately show ?thesis
    by (simp add: Cons utf8_decode_ignore.simps [of "b # bs"] decode_ignore_conts)
qed

lemma decode_ignore_take:
  assumes "valid_str s"
  shows "\<exists>k. utf8_decode_ignore (take n (utf8_encode s)) = take k s \<and> k \<le> length s \<and>
     length (utf8_encode (take k s)) \<le> n \<and>
     (k < length s \<longrightarrow> n < length (utf8_encode (take (Suc k) s)))"
  using assms
proof (induction s arbitrary: n)
  case Nil
  then show ?case by simp
next
  case (Cons c s)
  from Cons.prems have v: "valid_cp c" "valid_str s" by (auto simp: valid_str_def)
  show ?case
  proof (cases "n < length (utf8_char c)")
    case True
    then have "utf8_decode_ignore (take n (utf8_encode (c # s))) = []"
      using decode_ignore_partial [OF v(1)] by simp
    with True show ?thesis by (intro exI [of _ 0]) simp
  next
    case False
    obtain k where k: "utf8_decode_ignore (take (n - length (utf8_char c)) (utf8_encode s)) = take k s"
      "k \<le> length s" "length (utf8_encode (take k s)) \<le> n - length (utf8_char c)"
      "k < length s \<longrightarrow> n - length (utf8_char c) < length (utf8_encode (take (Suc k) s))"
      using Cons.IH [OF v(2)] by blast
    with False v(1) show ?thesis
      by (intro exI [of _ "Suc k"]) (auto simp: utf8_decode_ignore_char)
  qed
qed

lemma truncate_utf8_prefix:
  assumes "valid_str s"
  shows "\<exists>k. truncate_utf8 s n = take k s \<and> length (utf8_encode (take k s)) \<le> n \<and>
     (k < length s \<longrightarrow> n < length (utf8_encode (take (Suc k) s)))"
proof (cases "length (utf8_encode s) \<le> n")
  case True
  then show ?thesis by (intro exI [of _ "length s"]) (simp add: truncate_utf8_def)
next
  case False
  then show ?thesis using decode_ignore_take [OF assms, of n]
    by (auto simp: truncate_utf8_def Let_def)
qed

lemma truncate_utf8_bytes: "valid_str s \<Longrightarrow> length (utf8_encode (truncate_utf8 s n)) \<le> n"
  using truncate_utf8_prefix by metis

lemma truncate_utf8_is_prefix: "valid_str s \<Longrightarrow> prefix (truncate_utf8 s n) s"
  using truncate_utf8_prefix take_is_prefix by metis

lemma truncate_utf8_id: "length (utf8_encode s) \<le> n \<Longrightarrow> truncate_utf8 s n = s"
  by (simp add: truncate_utf8_def)

lemma valid_str_take: "valid_str s \<Longrightarrow> valid_str (take k s)"
  by (auto simp: valid_str_def list_all_iff dest: in_set_takeD)

lemma truncate_utf8_idem: "valid_str s \<Longrightarrow> truncate_utf8 (truncate_utf8 s n) n = truncate_utf8 s n"
  by (simp add: truncate_utf8_id truncate_utf8_bytes)

end
