(* ===== verification/Sha256.thy ===== *)
theory Sha256
  imports Utf8
begin

section \<open>SHA-256 (\<open>hashlib.sha256(...).hexdigest()\<close>)\<close>

text \<open>
  The fingerprints of the program are SHA-256 digests.  The hash is a library function, given
  here in full (FIPS 180-4 on 32-bit words) so that fingerprints are values of the model and not
  an opaque parameter; \<open>sha256_hex_length\<close> and \<open>sha256_hex_chars\<close> are the facts the
  components use.
\<close>

unbundle bit_operations_syntax

type_synonym w32 = "32 word"

definition rotr :: "nat \<Rightarrow> w32 \<Rightarrow> w32" where
  "rotr n x = drop_bit n x OR push_bit (32 - n) x"

text \<open>The fractional parts of the cube roots of the first 64 primes and of the square roots of the
  first 8, in decimal.\<close>

definition sha_k :: "w32 list" where
  "sha_k = [
     1116352408, 1899447441, 3049323471, 3921009573, 961987163, 1508970993, 2453635748, 2870763221,
     3624381080, 310598401, 607225278, 1426881987, 1925078388, 2162078206, 2614888103, 3248222580,
     3835390401, 4022224774, 264347078, 604807628, 770255983, 1249150122, 1555081692, 1996064986,
     2554220882, 2821834349, 2952996808, 3210313671, 3336571891, 3584528711, 113926993, 338241895,
     666307205, 773529912, 1294757372, 1396182291, 1695183700, 1986661051, 2177026350, 2456956037,
     2730485921, 2820302411, 3259730800, 3345764771, 3516065817, 3600352804, 4094571909, 275423344,
     430227734, 506948616, 659060556, 883997877, 958139571, 1322822218, 1537002063, 1747873779,
     1955562222, 2024104815, 2227730452, 2361852424, 2428436474, 2756734187, 3204031479, 3329325298]"

definition sha_init :: "w32 list" where
  "sha_init = [
     1779033703, 3144134277, 1013904242, 2773480762, 1359893119, 2600822924, 528734635, 1541459225]"

definition small0 :: "w32 \<Rightarrow> w32" where
  "small0 x = rotr 7 x XOR rotr 18 x XOR drop_bit 3 x"

definition small1 :: "w32 \<Rightarrow> w32" where
  "small1 x = rotr 17 x XOR rotr 19 x XOR drop_bit 10 x"

definition big0 :: "w32 \<Rightarrow> w32" where
  "big0 x = rotr 2 x XOR rotr 13 x XOR rotr 22 x"

definition big1 :: "w32 \<Rightarrow> w32" where
  "big1 x = rotr 6 x XOR rotr 11 x XOR rotr 25 x"

definition ch :: "w32 \<Rightarrow> w32 \<Rightarrow> w32 \<Rightarrow> w32" where
  "ch x y z = (x AND y) XOR (NOT x AND z)"

definition maj :: "w32 \<Rightarrow> w32 \<Rightarrow> w32 \<Rightarrow> w32" where
  "maj x y z = (x AND y) XOR (x AND z) XOR (y AND z)"

text \<open>Padding: one 1 bit, zeros to 56 modulo 64 bytes, the bit length in 8 bytes.\<close>

primrec be_bytes :: "nat \<Rightarrow> nat \<Rightarrow> nat list" where
  "be_bytes 0 v = []"
| "be_bytes (Suc k) v = be_bytes k (v div 256) @ [v mod 256]"

definition sha_pad :: "nat list \<Rightarrow> nat list" where
  "sha_pad m = (let n = length m in
     m @ [0x80] @ replicate ((119 - n mod 64) mod 64) 0 @ be_bytes 8 (8 * n))"

fun be_words :: "nat list \<Rightarrow> w32 list" where
  "be_words (a # b # c # d # bs) =
     of_nat (((a * 256 + b) * 256 + c) * 256 + d) # be_words bs"
| "be_words _ = []"

text \<open>The message schedule, newest word first.\<close>

primrec sha_extend :: "nat \<Rightarrow> w32 list \<Rightarrow> w32 list" where
  "sha_extend 0 w = w"
| "sha_extend (Suc n) w =
     sha_extend n ((small1 (w ! 1) + w ! 6 + small0 (w ! 14) + w ! 15) # w)"

fun sha_round :: "w32 list \<Rightarrow> w32 \<times> w32 \<Rightarrow> w32 list" where
  "sha_round [a, b, c, d, e, f, g, h] (k, w) =
     (let t1 = h + big1 e + ch e f g + k + w; t2 = big0 a + maj a b c
      in [t1 + t2, a, b, c, d + t1, e, f, g])"
| "sha_round st _ = st"

definition sha_block :: "w32 list \<Rightarrow> nat list \<Rightarrow> w32 list" where
  "sha_block st blk =
     (let w = rev (sha_extend 48 (rev (be_words blk)))
      in map2 (+) st (foldl sha_round st (zip sha_k w)))"

function sha_blocks :: "nat list \<Rightarrow> nat list list" where
  "sha_blocks bs = (if bs = [] then [] else take 64 bs # sha_blocks (drop 64 bs))"
  by pat_completeness auto
termination
  by (relation "measure length") simp_all

declare sha_blocks.simps [simp del]

definition sha256 :: "nat list \<Rightarrow> w32 list" where
  "sha256 m = foldl sha_block sha_init (sha_blocks (sha_pad m))"

definition sha256_hex :: "pystr \<Rightarrow> pystr" where
  "sha256_hex text = concat (map (\<lambda>w. hex_n 8 (uint w)) (sha256 (utf8_encode text)))"

lemma length_sha_round [simp]: "length (sha_round st kw) = length st"
  by (induction st kw rule: sha_round.induct) (auto simp: Let_def)

lemma length_foldl_sha_round [simp]: "length (foldl sha_round st kws) = length st"
  by (induction kws arbitrary: st) auto

lemma length_sha_block [simp]: "length (sha_block st blk) = length st"
  by (simp add: sha_block_def Let_def)

lemma length_sha256: "length (sha256 m) = 8"
proof -
  have "length (foldl sha_block st bs) = length st" for st bs
    by (induction bs arbitrary: st) auto
  then show ?thesis by (simp add: sha256_def sha_init_def)
qed

lemma sha256_hex_length [simp]: "length (sha256_hex s) = 64"
proof -
  have "sum_list (map (length \<circ> (\<lambda>w::w32. hex_n 8 (uint w))) ws) = 8 * length ws" for ws
    by (induction ws) auto
  then show ?thesis by (simp add: sha256_hex_def length_concat length_sha256 comp_def)
qed

lemma sha256_hex_chars: "c \<in> set (sha256_hex s) \<Longrightarrow> (48 \<le> c \<and> c \<le> 57) \<or> (97 \<le> c \<and> c \<le> 102)"
  using hex_n_chars by (fastforce simp: sha256_hex_def)

end
