(* ===== verification/Reconcile.thy ===== *)
theory Reconcile
  imports Closure_Rules Sha256 Utf8
begin

section \<open>Binding findings to persistent groups (\<open>services/github_finding_reconcile.py\<close>)\<close>

text \<open>
  After a review run completes, each of its findings is bound to a group of its pull request: by
  fingerprint, by the fingerprint of the previous generation, by continuation (the one
  unbound active group of the same file and category), or to a new group.  A query of an
  unordered table is a filter of the table's list.  The lookups read the database as last
  flushed; they only compare columns the loop never rewrites (pull request, fingerprint) or read groups
  it has not touched (\<open>bound_this_run\<close> is excluded), so reading the current state is the same.
\<close>

definition FINGERPRINT_SEP :: nat where
  "FINGERPRINT_SEP = 31"

definition CLAIM_SLOT_HEX_LEN :: nat where
  "CLAIM_SLOT_HEX_LEN = 32"

definition start_line_key :: "int option \<Rightarrow> pystr" where
  "start_line_key l = (case l of Some n \<Rightarrow> py_str_int n | None \<Rightarrow> S ''0'')"

definition claim_slot_key :: "pystr \<Rightarrow> pystr" where
  "claim_slot_key title = take CLAIM_SLOT_HEX_LEN (sha256_hex (py_strip title))"

text \<open>\<open>file_path or ""\<close>.\<close>

definition path_or_empty :: "pystr option \<Rightarrow> pystr" where
  "path_or_empty p = opt_or p []"

definition fingerprint_payload ::
  "uuid \<Rightarrow> uuid \<Rightarrow> pystr option \<Rightarrow> finding_category \<Rightarrow> pystr \<Rightarrow> pystr" where
  "fingerprint_payload ws pr path cat slot =
     py_join [FINGERPRINT_SEP]
       [uuid_str ws, uuid_str pr, path_or_empty path, category_value cat, slot]"

definition compute_fingerprint ::
  "uuid \<Rightarrow> uuid \<Rightarrow> pystr option \<Rightarrow> finding_category \<Rightarrow> pystr \<Rightarrow> pystr" where
  "compute_fingerprint ws pr path cat slot =
     sha256_hex (fingerprint_payload ws pr path cat slot)"

definition compute_legacy_d10_fingerprint ::
  "uuid \<Rightarrow> uuid \<Rightarrow> pystr option \<Rightarrow> finding_category \<Rightarrow> pystr \<Rightarrow> int option \<Rightarrow> pystr" where
  "compute_legacy_d10_fingerprint ws pr path cat title line =
     sha256_hex (py_join [FINGERPRINT_SEP]
       [uuid_str ws, uuid_str pr, path_or_empty path, category_value cat,
        py_strip title, start_line_key line])"

definition load_group_by_fingerprint :: "session \<Rightarrow> uuid \<Rightarrow> pystr \<Rightarrow> finding_group option" where
  "load_group_by_fingerprint s pr fp =
     List.find (\<lambda>g. fg_pull_request_id g = pr \<and> fg_fingerprint g = fp) (ss_groups s)"

definition continuation_candidate ::
  "session \<Rightarrow> uuid \<Rightarrow> pystr option \<Rightarrow> finding_category \<Rightarrow> uuid list \<Rightarrow> finding_group option" where
  "continuation_candidate s pr path cat bound =
     (case path of
        None \<Rightarrow> None
      | Some p \<Rightarrow>
          if p = [] then None
          else case filter (\<lambda>g. fg_pull_request_id g = pr \<and> fg_file_path g = Some p \<and>
                                fg_category g = cat \<and> fg_state g = Grp_active \<and>
                                fg_id g \<notin> set bound) (ss_groups s) of
                 [g] \<Rightarrow> Some g
               | _ \<Rightarrow> None)"

definition copy_finding_attributes :: "finding_group \<Rightarrow> finding \<Rightarrow> uuid \<Rightarrow> finding_group" where
  "copy_finding_attributes g f rv = g\<lparr>
     fg_last_seen_revision_id := rv,
     fg_severity := fi_severity f,
     fg_category := fi_category f,
     fg_title := fi_title f,
     fg_message := fi_message f,
     fg_file_path := fi_file_path f,
     fg_start_line := fi_start_line f\<rparr>"

datatype bound_via = Via_new | Via_legacy | Via_continuation

text \<open>The group \<open>_bind_group_for_finding\<close> finds, and the last lookup it made.\<close>

definition lookup_group ::
  "session \<Rightarrow> review_run \<Rightarrow> uuid \<Rightarrow> finding \<Rightarrow> uuid list \<Rightarrow> finding_group option \<times> bound_via" where
  "lookup_group s run pr f bound =
     (case load_group_by_fingerprint s pr
             (compute_fingerprint (rr_workspace_id run) pr (fi_file_path f) (fi_category f)
                (claim_slot_key (fi_title f))) of
        Some g \<Rightarrow> (Some g, Via_new)
      | None \<Rightarrow>
         (case load_group_by_fingerprint s pr
                 (compute_legacy_d10_fingerprint (rr_workspace_id run) pr (fi_file_path f)
                    (fi_category f) (fi_title f) (fi_start_line f)) of
            Some g \<Rightarrow> (Some g, Via_legacy)
          | None \<Rightarrow>
              (continuation_candidate s pr (fi_file_path f) (fi_category f) bound,
               Via_continuation)))"

definition new_group :: "session \<Rightarrow> review_run \<Rightarrow> uuid \<Rightarrow> uuid \<Rightarrow> finding \<Rightarrow> finding_group" where
  "new_group s run pr rv f = \<lparr>
     fg_id = next_uuid s,
     fg_workspace_id = rr_workspace_id run,
     fg_pull_request_id = pr,
     fg_fingerprint = compute_fingerprint (rr_workspace_id run) pr (fi_file_path f) (fi_category f)
       (claim_slot_key (fi_title f)),
     fg_state = Grp_active,
     fg_severity = fi_severity f,
     fg_category = fi_category f,
     fg_title = fi_title f,
     fg_message = fi_message f,
     fg_file_path = fi_file_path f,
     fg_start_line = fi_start_line f,
     fg_claim_slot = Some (claim_slot_key (fi_title f)),
     fg_last_seen_revision_id = rv,
     fg_resolution_status = None,
     fg_resolution_method = None,
     fg_resolved_at_revision_id = None,
     fg_closure_blocked_reason = None,
     fg_created_at = next_time s\<rparr>"

text \<open>The attribute writes on a group that was found.\<close>

definition rebind_group :: "finding_group \<Rightarrow> bound_via \<Rightarrow> finding \<Rightarrow> uuid \<Rightarrow> finding_group" where
  "rebind_group g via f rv =
     (if should_skip_resolved_group_on_reconcile (fg_state g) (fg_resolution_method g) then g
      else
        let g1 = (if should_reopen_absent_and_addressed (fg_state g) (fg_resolution_method g) True
                  then apply_fields reopen_fields_for_re_report g
                  else g\<lparr>fg_state := Grp_active\<rparr>);
            g2 = copy_finding_attributes g1 f rv
        in if via = Via_legacy \<and> fg_claim_slot g2 = None
           then g2\<lparr>fg_claim_slot := Some (claim_slot_key (fi_title f))\<rparr>
           else g2)"

definition bind_group_for_finding ::
  "session \<Rightarrow> review_run \<Rightarrow> uuid \<Rightarrow> uuid \<Rightarrow> finding \<Rightarrow> uuid list \<Rightarrow> session \<times> finding_group" where
  "bind_group_for_finding s run pr rv f bound =
     (case lookup_group s run pr f bound of
        (None, _) \<Rightarrow>
          let g = new_group s run pr rv f
          in (tick (s\<lparr>ss_groups := tbl_add g (ss_groups s)\<rparr>), g)
      | (Some g, via) \<Rightarrow>
          let g' = rebind_group g via f rv in (put_group g' s, g'))"

fun reconcile_loop ::
  "session \<Rightarrow> review_run \<Rightarrow> uuid \<Rightarrow> uuid \<Rightarrow> finding list \<Rightarrow> uuid list \<Rightarrow> uuid list \<Rightarrow> session \<times> uuid list" where
  "reconcile_loop s run pr rv [] linked bound = (s, linked)"
| "reconcile_loop s run pr rv (f # fs) linked bound =
     (let (s1, g) = bind_group_for_finding s run pr rv f bound;
          s2 = put_finding (f\<lparr>fi_group_id := Some (fg_id g)\<rparr>) s1
      in reconcile_loop s2 run pr rv fs (linked @ [fg_id g]) (fg_id g # bound))"

definition run_findings :: "session \<Rightarrow> uuid \<Rightarrow> finding list" where
  "run_findings s run_id = filter (\<lambda>f. fi_review_run_id f = run_id) (ss_findings s)"

definition reconcile_review_run :: "session \<Rightarrow> uuid \<Rightarrow> session \<times> uuid list" where
  "reconcile_review_run s run_id =
     (case get_review_run s run_id of
        None \<Rightarrow> (s, [])
      | Some run \<Rightarrow>
          if rr_status run \<noteq> RR_completed then (s, [])
          else case get_revision s (rr_revision_id run) of
                 None \<Rightarrow> (s, [])
               | Some rv \<Rightarrow>
                   reconcile_loop s run (rev_pull_request_id rv) (rev_id rv)
                     (run_findings s run_id) [] [])"

text \<open>\<open>_ensure_pull_request_access\<close>: the join of the pull request and its repository.\<close>

definition ensure_pull_request_access :: "session \<Rightarrow> uuid \<Rightarrow> uuid \<Rightarrow> uuid \<Rightarrow> exn + unit" where
  "ensure_pull_request_access s ws repo pr =
     (if \<exists>p\<in>set (ss_pull_requests s). \<exists>r\<in>set (ss_repositories s).
           pr_repository_id p = repo_id r \<and> pr_id p = pr \<and> pr_repository_id p = repo \<and>
           pr_workspace_id p = ws \<and> repo_id r = repo \<and> repo_workspace_id r = ws
      then Inr ()
      else Inl (raise_platform NotFoundError (S ''Pull request not found'') None))"

subsection \<open>Fingerprints separate identities\<close>

lemma length_claim_slot_key [simp]: "length (claim_slot_key t) = 32"
  by (simp add: claim_slot_key_def CLAIM_SLOT_HEX_LEN_def sha256_hex_length)

lemma sep_right_unique:
  assumes "p @ x # c = q @ x # d" and "x \<notin> set c" and "x \<notin> set d"
  shows "p = q \<and> c = d"
proof -
  from assms(1) have e: "rev c @ x # rev p = rev d @ x # rev q"
    by (metis append.assoc append_Cons append_Nil rev.simps(2) rev_append)
  have t: "takeWhile (\<lambda>y. y \<noteq> x) (rev c @ x # z) = rev c" if "x \<notin> set c" for c z
    using that by (subst takeWhile_append2) auto
  from e t [OF assms(2)] t [OF assms(3)] have "rev c = rev d" by metis
  with e show ?thesis by simp
qed

lemma fingerprint_payload_eq:
  assumes "fingerprint_payload ws pr p c s = fingerprint_payload ws' pr' p' c' s'"
    and "length s = 32" and "length s' = 32"
  shows "ws = ws' \<and> pr = pr' \<and> path_or_empty p = path_or_empty p' \<and> c = c' \<and> s = s'"
proof -
  from assms(1) have e:
    "uuid_str ws @ 31 # uuid_str pr @ 31 # path_or_empty p @ 31 # category_value c @ 31 # s =
     uuid_str ws' @ 31 # uuid_str pr' @ 31 # path_or_empty p' @ 31 # category_value c' @ 31 # s'"
    by (simp add: fingerprint_payload_def FINGERPRINT_SEP_def)
  then have w: "uuid_str ws = uuid_str ws'"
    and e1: "uuid_str pr @ 31 # path_or_empty p @ 31 # category_value c @ 31 # s =
       uuid_str pr' @ 31 # path_or_empty p' @ 31 # category_value c' @ 31 # s'"
    by (simp_all add: append_eq_append_conv)
  then have u: "uuid_str pr = uuid_str pr'"
    and e2: "(path_or_empty p @ 31 # category_value c @ [31]) @ s =
       (path_or_empty p' @ 31 # category_value c' @ [31]) @ s'"
    by (simp_all add: append_eq_append_conv)
  from e2 assms(2,3) have "s = s'"
    and "path_or_empty p @ 31 # category_value c @ [31] = path_or_empty p' @ 31 # category_value c' @ [31]"
    by (simp_all add: append_eq_append_conv del: append_assoc)
  then have "path_or_empty p @ 31 # category_value c = path_or_empty p' @ 31 # category_value c'"
    by (metis append.assoc append_Cons append_same_eq)
  from sep_right_unique [OF this category_value_no_sep category_value_no_sep] w u \<open>s = s'\<close>
  show ?thesis using uuid_str_inj category_value_inj by blast
qed

subsection \<open>One binding step\<close>

text \<open>Row identifiers are unique, and the next \<open>n\<close> identifiers the server gives are new.\<close>

definition groups_ok :: "nat \<Rightarrow> session \<Rightarrow> bool" where
  "groups_ok n s \<longleftrightarrow>
     distinct (map fg_id (ss_groups s)) \<and>
     inj_on (ss_uuids s) {ss_created s..<ss_created s + n} \<and>
     (\<forall>i\<in>{ss_created s..<ss_created s + n}. ss_uuids s i \<notin> tbl_keys fg_id (ss_groups s))"

definition skips_group :: "finding_group \<Rightarrow> bool" where
  "skips_group g = should_skip_resolved_group_on_reconcile (fg_state g) (fg_resolution_method g)"

definition settled :: "uuid \<Rightarrow> finding_group \<Rightarrow> bool" where
  "settled rv g \<longleftrightarrow>
     skips_group g \<or> (fg_state g = Grp_active \<and> fg_last_seen_revision_id g = rv)"

lemma load_group_in:
  "load_group_by_fingerprint s pr fp = Some g \<Longrightarrow>
     g \<in> set (ss_groups s) \<and> fg_pull_request_id g = pr \<and> fg_fingerprint g = fp"
  by (auto simp: load_group_by_fingerprint_def find_Some_iff)

lemma continuation_candidate_in:
  "continuation_candidate s pr path cat bound = Some g \<Longrightarrow>
     g \<in> set (ss_groups s) \<and> fg_pull_request_id g = pr \<and> fg_file_path g = path \<and>
     fg_category g = cat \<and> fg_state g = Grp_active \<and> fg_id g \<notin> set bound"
proof -
  assume a: "continuation_candidate s pr path cat bound = Some g"
  then obtain p where p: "path = Some p"
    and fl: "filter (\<lambda>g. fg_pull_request_id g = pr \<and> fg_file_path g = Some p \<and>
                fg_category g = cat \<and> fg_state g = Grp_active \<and>
                fg_id g \<notin> set bound) (ss_groups s) = [g]"
    by (auto simp: continuation_candidate_def split: option.splits if_splits list.splits)
  have "g \<in> set (filter (\<lambda>g. fg_pull_request_id g = pr \<and> fg_file_path g = Some p \<and>
                fg_category g = cat \<and> fg_state g = Grp_active \<and>
                fg_id g \<notin> set bound) (ss_groups s))"
    by (simp add: fl)
  with p show ?thesis by simp
qed

lemma lookup_group_in:
  "lookup_group s run pr f bound = (Some g, via) \<Longrightarrow>
     g \<in> set (ss_groups s) \<and> fg_pull_request_id g = pr"
  by (auto simp: lookup_group_def split: option.splits
           dest: load_group_in continuation_candidate_in)

lemma rebind_same [simp]: "same_identity (rebind_group g via f rv) g"
  by (auto simp: rebind_group_def same_identity_def copy_finding_attributes_def Let_def
        apply_fields_def)

lemma rebind_id [simp]: "fg_id (rebind_group g via f rv) = fg_id g"
  using rebind_same [of g via f rv] by (simp add: same_identity_def)

lemma rebind_skipped: "skips_group g \<Longrightarrow> rebind_group g via f rv = g"
  by (simp add: rebind_group_def skips_group_def)

lemma rebind_settled: "settled rv (rebind_group g via f rv)"
  by (auto simp: rebind_group_def settled_def skips_group_def copy_finding_attributes_def Let_def
        reopen_fields_for_re_report_def)

lemma rebind_slot:
  "fg_claim_slot g = Some c \<Longrightarrow> fg_claim_slot (rebind_group g via f rv) = Some c"
  by (auto simp: rebind_group_def copy_finding_attributes_def Let_def apply_fields_def)

lemma bind_cases:
  assumes "bind_group_for_finding s run pr rv f bound = (s', g)"
  obtains (new) "fst (lookup_group s run pr f bound) = None" "g = new_group s run pr rv f"
      "s' = tick (s\<lparr>ss_groups := tbl_add g (ss_groups s)\<rparr>)"
    | (found) g0 via where "lookup_group s run pr f bound = (Some g0, via)"
      "g = rebind_group g0 via f rv" "s' = put_group g s"
  using assms
  by (auto simp: bind_group_for_finding_def Let_def split: prod.splits option.splits)

lemma get_group_unique:
  "distinct (map fg_id (ss_groups s)) \<Longrightarrow> g \<in> set (ss_groups s) \<Longrightarrow> get_group s (fg_id g) = Some g"
  by (simp add: get_group_def tbl_get_unique)

text \<open>What one binding does to the table: the bound group is in it and settled, and every
  other group is as before.\<close>

lemma bind_step:
  assumes b: "bind_group_for_finding s run pr rv f bound = (s', g)" and ok: "groups_ok (Suc n) s"
  shows "get_group s' (fg_id g) = Some g" "settled rv g" "fg_pull_request_id g = pr"
    "k \<noteq> fg_id g \<Longrightarrow> get_group s' k = get_group s k"
    "get_group s (fg_id g) = Some h \<Longrightarrow> \<exists>via. g = rebind_group h via f rv"
    "groups_ok n s'" "ss_findings s' = ss_findings s"
proof -
  have fresh: "next_uuid s \<notin> tbl_keys fg_id (ss_groups s)"
    using ok by (simp add: groups_ok_def next_uuid_def)
  have rest: "{Suc (ss_created s)..<Suc (ss_created s + n)} \<subseteq> {ss_created s..<ss_created s + Suc n}"
    "ss_created s \<in> {ss_created s..<ss_created s + Suc n}"
    by auto
  have inj: "inj_on (ss_uuids s) {Suc (ss_created s)..<Suc (ss_created s + n)}"
    using ok rest inj_on_subset unfolding groups_ok_def by blast
  have later: "ss_uuids s i \<notin> insert (next_uuid s) (tbl_keys fg_id (ss_groups s))"
    if i: "i \<in> {Suc (ss_created s)..<Suc (ss_created s + n)}" for i
  proof -
    have "ss_uuids s i \<noteq> ss_uuids s (ss_created s)"
      using ok i rest inj_onD [of "ss_uuids s" "{ss_created s..<ss_created s + Suc n}" i "ss_created s"]
      unfolding groups_ok_def by auto
    moreover have "ss_uuids s i \<notin> tbl_keys fg_id (ss_groups s)"
      using ok i rest(1) unfolding groups_ok_def by blast
    ultimately show ?thesis by (simp add: next_uuid_def)
  qed
  have *: "get_group s' (fg_id g) = Some g \<and> settled rv g \<and> fg_pull_request_id g = pr \<and>
     (k \<noteq> fg_id g \<longrightarrow> get_group s' k = get_group s k) \<and>
     (\<forall>h. get_group s (fg_id g) = Some h \<longrightarrow> (\<exists>via. g = rebind_group h via f rv)) \<and>
     groups_ok n s' \<and> ss_findings s' = ss_findings s"
    using b
  proof (cases rule: bind_cases)
    case new
    have id: "fg_id g = next_uuid s" by (simp add: new new_group_def)
    have none: "tbl_get fg_id (next_uuid s) (ss_groups s) = None"
      using fresh by (simp add: groups.get_keys)
    have "groups_ok n s'"
      using ok inj later fresh unfolding new(3) groups_ok_def
      by (auto simp: tick_def id tbl_add_def tbl_keys_def)
    then show ?thesis
      using none
      by (auto simp: new(3) id get_group_def tick_def groups.get_add settled_def split: option.splits)
         (auto simp: new(2) new_group_def)
  next
    case (found g0 via)
    from lookup_group_in [OF found(1)] have g0: "g0 \<in> set (ss_groups s)" "fg_pull_request_id g0 = pr"
      by auto
    with ok have get0: "get_group s (fg_id g0) = Some g0"
      by (simp add: groups_ok_def get_group_unique)
    have id: "fg_id g = fg_id g0" by (simp add: found)
    have pr: "fg_pull_request_id g = pr"
      using rebind_same [of g0 via f rv] g0 by (simp add: found same_identity_def)
    have "fg_id g \<in> tbl_keys fg_id (ss_groups s)" using g0 id by (simp add: tbl_keys_def)
    moreover have "groups_ok n s'"
      using ok inj_on_subset [of "ss_uuids s" "{ss_created s..<ss_created s + Suc n}"
        "{ss_created s..<ss_created s + n}"]
      by (auto simp: found(3) groups_ok_def put_group_def)
    ultimately show ?thesis using rebind_settled [of rv g0 via f] get0 pr
      by (auto simp: found id frame_laws)
  qed
  then show "get_group s' (fg_id g) = Some g" "settled rv g" "fg_pull_request_id g = pr"
    "k \<noteq> fg_id g \<Longrightarrow> get_group s' k = get_group s k"
    "get_group s (fg_id g) = Some h \<Longrightarrow> \<exists>via. g = rebind_group h via f rv"
    "groups_ok n s'" "ss_findings s' = ss_findings s" by blast+
qed

subsection \<open>The whole loop\<close>

text \<open>How the group table may change: a group keeps its identity, a final one is untouched, and
  so is a group of another pull request; a claim slot is never rewritten.\<close>

definition evolves :: "uuid \<Rightarrow> session \<Rightarrow> session \<Rightarrow> bool" where
  "evolves pr s s' \<longleftrightarrow>
     (\<forall>k g. get_group s k = Some g \<longrightarrow>
        (\<exists>g'. get_group s' k = Some g' \<and> same_identity g' g \<and>
              (skips_group g \<longrightarrow> g' = g) \<and>
              (fg_pull_request_id g \<noteq> pr \<longrightarrow> g' = g) \<and>
              (fg_claim_slot g \<noteq> None \<longrightarrow> fg_claim_slot g' = fg_claim_slot g)))"

lemma evolves_refl [simp]: "evolves pr s s"
  by (auto simp: evolves_def)

lemma evolvesE:
  assumes "evolves pr s s'" "get_group s k = Some g"
  obtains g' where "get_group s' k = Some g'" "same_identity g' g"
    "skips_group g \<Longrightarrow> g' = g" "fg_pull_request_id g \<noteq> pr \<Longrightarrow> g' = g"
    "fg_claim_slot g \<noteq> None \<Longrightarrow> fg_claim_slot g' = fg_claim_slot g"
  using assms unfolding evolves_def by blast

lemma evolves_trans:
  assumes a: "evolves pr s s1" and b: "evolves pr s1 s2"
  shows "evolves pr s s2"
  unfolding evolves_def
proof (intro allI impI)
  fix k g assume "get_group s k = Some g"
  with a obtain g1 where g1: "get_group s1 k = Some g1" "same_identity g1 g"
    "skips_group g \<Longrightarrow> g1 = g" "fg_pull_request_id g \<noteq> pr \<Longrightarrow> g1 = g"
    "fg_claim_slot g \<noteq> None \<Longrightarrow> fg_claim_slot g1 = fg_claim_slot g"
    using evolvesE by blast
  from b g1(1) obtain g2 where g2: "get_group s2 k = Some g2" "same_identity g2 g1"
    "skips_group g1 \<Longrightarrow> g2 = g1" "fg_pull_request_id g1 \<noteq> pr \<Longrightarrow> g2 = g1"
    "fg_claim_slot g1 \<noteq> None \<Longrightarrow> fg_claim_slot g2 = fg_claim_slot g1"
    using evolvesE by blast
  have "same_identity g2 g" using g1(2) g2(2) same_identity_trans by blast
  then show "\<exists>g'. get_group s2 k = Some g' \<and> same_identity g' g \<and>
              (skips_group g \<longrightarrow> g' = g) \<and> (fg_pull_request_id g \<noteq> pr \<longrightarrow> g' = g) \<and>
              (fg_claim_slot g \<noteq> None \<longrightarrow> fg_claim_slot g' = fg_claim_slot g)"
    using g1 g2 by auto
qed

lemma bind_evolves:
  assumes b: "bind_group_for_finding s run pr rv f bound = (s', g)" and ok: "groups_ok (Suc n) s"
  shows "evolves pr s s'"
  unfolding evolves_def
proof (intro allI impI)
  fix k h assume h: "get_group s k = Some h"
  show "\<exists>g'. get_group s' k = Some g' \<and> same_identity g' h \<and>
          (skips_group h \<longrightarrow> g' = h) \<and> (fg_pull_request_id h \<noteq> pr \<longrightarrow> g' = h) \<and>
          (fg_claim_slot h \<noteq> None \<longrightarrow> fg_claim_slot g' = fg_claim_slot h)"
  proof (cases "k = fg_id g")
    case True
    with bind_step(5) [OF b ok] h obtain via where g: "g = rebind_group h via f rv" by blast
    moreover have "fg_pull_request_id h = pr"
      using bind_step(3) [OF b ok] rebind_same [of h via f rv] by (simp add: g same_identity_def)
    ultimately show ?thesis
      using bind_step(1) [OF b ok] True rebind_slot [of h _ via f rv] rebind_skipped by auto
  next
    case False
    with bind_step(4) [OF b ok] h show ?thesis by auto
  qed
qed

lemma put_finding_frame [simp]:
  "get_group (put_finding f s) k = get_group s k"
  "groups_ok n (put_finding f s) = groups_ok n s"
  "ss_groups (put_finding f s) = ss_groups s"
  by (simp_all add: put_finding_def get_group_def groups_ok_def)

lemma reconcile_loop_groups:
  assumes "groups_ok (length fs) s"
    and "list_all (\<lambda>k. \<exists>g. get_group s k = Some g \<and> fg_pull_request_id g = pr \<and> settled rv g) linked"
    and "reconcile_loop s run pr rv fs linked bound = (s', ids)"
  shows "evolves pr s s' \<and>
    list_all (\<lambda>k. \<exists>g. get_group s' k = Some g \<and> fg_pull_request_id g = pr \<and> settled rv g) ids"
  using assms
proof (induction fs arbitrary: s linked bound)
  case Nil
  then show ?case by simp
next
  case (Cons f fs)
  obtain s1 g where b: "bind_group_for_finding s run pr rv f bound = (s1, g)" by fastforce
  have ok: "groups_ok (Suc (length fs)) s" using Cons.prems(1) by simp
  note st = bind_step [OF b ok]
  let ?s2 = "put_finding (f\<lparr>fi_group_id := Some (fg_id g)\<rparr>) s1"
  have "\<exists>h. get_group s1 k = Some h \<and> fg_pull_request_id h = pr \<and> settled rv h"
    if "k = fg_id g \<or> k \<in> set linked" for k
  proof (cases "k = fg_id g")
    case False
    with that Cons.prems(2) st(4) show ?thesis by (simp add: list_all_iff)
  qed (use st in simp)
  then have l: "list_all (\<lambda>k. \<exists>g. get_group ?s2 k = Some g \<and> fg_pull_request_id g = pr \<and> settled rv g)
      (linked @ [fg_id g])"
    by (simp add: list_all_iff)
  from Cons.prems(3) have r: "reconcile_loop ?s2 run pr rv fs (linked @ [fg_id g]) (fg_id g # bound) = (s', ids)"
    by (simp add: b)
  have "groups_ok (length fs) ?s2" using st(6) by simp
  note IH = Cons.IH [OF this l r]
  have "evolves pr s ?s2" using bind_evolves [OF b ok] by (simp add: evolves_def)
  with IH show ?case using evolves_trans by blast
qed

lemma reconcile_loop_links:
  assumes "reconcile_loop s run pr rv fs linked bound = (s', ids)"
  shows "\<exists>new. ids = linked @ new \<and> length new = length fs"
  using assms
proof (induction fs arbitrary: s linked bound)
  case (Cons f fs)
  then show ?case by (fastforce split: prod.splits simp: Let_def)
qed simp

lemma bind_findings [simp]:
  "bind_group_for_finding s run pr rv f bound = (s', g) \<Longrightarrow> ss_findings s' = ss_findings s"
  by (erule bind_cases) (simp_all add: tick_def frame_laws)

lemma reconcile_loop_findings:
  assumes "distinct (map fi_id fs)" and "reconcile_loop s run pr rv fs linked bound = (s', ids)"
  shows "(\<forall>k. k \<notin> fi_id ` set fs \<longrightarrow>
            tbl_get fi_id k (ss_findings s') = tbl_get fi_id k (ss_findings s)) \<and>
         (\<exists>new. ids = linked @ new \<and>
            list_all2 (\<lambda>f k. fi_id f \<in> tbl_keys fi_id (ss_findings s) \<longrightarrow>
               tbl_get fi_id (fi_id f) (ss_findings s') = Some (f\<lparr>fi_group_id := Some k\<rparr>)) fs new)"
  using assms
proof (induction fs arbitrary: s linked bound)
  case (Cons f fs)
  obtain s1 g where b: "bind_group_for_finding s run pr rv f bound = (s1, g)" by fastforce
  let ?f = "f\<lparr>fi_group_id := Some (fg_id g)\<rparr>"
  let ?s2 = "put_finding ?f s1"
  have fi: "ss_findings ?s2 = tbl_put fi_id ?f (ss_findings s)"
    using bind_findings [OF b] by (simp add: put_finding_def)
  from Cons.prems(2) have r: "reconcile_loop ?s2 run pr rv fs (linked @ [fg_id g]) (fg_id g # bound) = (s', ids)"
    by (simp add: b)
  have d: "distinct (map fi_id fs)" "fi_id f \<notin> fi_id ` set fs" using Cons.prems(1) by auto
  from Cons.IH [OF d(1) r] obtain new where
    other: "\<And>k. k \<notin> fi_id ` set fs \<Longrightarrow> tbl_get fi_id k (ss_findings s') = tbl_get fi_id k (ss_findings ?s2)"
    and ids: "ids = (linked @ [fg_id g]) @ new"
    and al: "list_all2 (\<lambda>f k. fi_id f \<in> tbl_keys fi_id (ss_findings s) \<longrightarrow>
               tbl_get fi_id (fi_id f) (ss_findings s') = Some (f\<lparr>fi_group_id := Some k\<rparr>)) fs new"
    by (auto simp: fi)
  have "tbl_get fi_id (fi_id f) (ss_findings s') = Some ?f"
    if "fi_id f \<in> tbl_keys fi_id (ss_findings s)"
    using that other [of "fi_id f"] d(2) by (simp add: fi findings.get_put)
  moreover have "tbl_get fi_id k (ss_findings s') = tbl_get fi_id k (ss_findings s)"
    if "k \<noteq> fi_id f" "k \<notin> fi_id ` set fs" for k
    using that other [of k] by (simp add: fi findings.get_put)
  ultimately show ?case using ids al by auto
qed simp

text \<open>The unique constraint on (pull request, fingerprint).\<close>

definition unique_fingerprints :: "session \<Rightarrow> bool" where
  "unique_fingerprints s \<longleftrightarrow>
     distinct (map (\<lambda>g. (fg_pull_request_id g, fg_fingerprint g)) (ss_groups s))"

lemma map_key_put:
  assumes "distinct (map fg_id t)" "g0 \<in> set t" "fg_id g = fg_id g0" "k g = k g0"
  shows "map k (tbl_put fg_id g t) = map k t"
proof -
  have "k (if fg_id q = fg_id g then g else q) = k q" if "q \<in> set t" for q
    using that assms by (auto simp: distinct_map inj_on_def)
  then show ?thesis by (simp add: tbl_put_def)
qed

lemma load_group_None:
  "load_group_by_fingerprint s pr fp = None \<Longrightarrow>
     (pr, fp) \<notin> (\<lambda>g. (fg_pull_request_id g, fg_fingerprint g)) ` set (ss_groups s)"
  by (auto simp: load_group_by_fingerprint_def find_None_iff)

text \<open>A resolution is well-formed, or it is a head contradiction's.\<close>

definition groups_wf :: "session \<Rightarrow> bool" where
  "groups_wf s \<longleftrightarrow>
     (\<forall>g\<in>set (ss_groups s). fg_resolution_method g = Some RM_head_contradiction \<or> group_wf g)"

lemma rebind_wf:
  assumes "fg_resolution_method g = Some RM_head_contradiction \<or> group_wf g"
  shows "fg_resolution_method (rebind_group g via f rv) = Some RM_head_contradiction \<or>
    group_wf (rebind_group g via f rv)"
proof -
  note defs = rebind_group_def Let_def copy_finding_attributes_def group_wf_def apply_fields_def
    should_skip_resolved_group_on_reconcile_def should_reopen_absent_and_addressed_def
    reopen_fields_for_re_report_def
  show ?thesis
  proof (cases "fg_state g = Grp_resolved")
    case False
    with assms show ?thesis by (simp add: defs)
  next
    case True
    show ?thesis
    proof (cases "fg_resolution_method g")
      case None
      with True assms show ?thesis by (simp add: defs)
    next
      case (Some m)
      with True assms show ?thesis by (cases m) (simp_all add: defs)
    qed
  qed
qed

lemma bind_table_invariants:
  assumes b: "bind_group_for_finding s run pr rv f bound = (s', g)" and ok: "groups_ok (Suc n) s"
  shows "unique_fingerprints s \<Longrightarrow> unique_fingerprints s'" and "groups_wf s \<Longrightarrow> groups_wf s'"
proof -
  have "(unique_fingerprints s \<longrightarrow> unique_fingerprints s') \<and> (groups_wf s \<longrightarrow> groups_wf s')"
    using b
  proof (cases rule: bind_cases)
    case new
    from new(1) have "load_group_by_fingerprint s pr (fg_fingerprint g) = None"
      by (auto simp: new(2) new_group_def lookup_group_def split: option.splits)
    then have "(pr, fg_fingerprint g) \<notin>
        (\<lambda>g. (fg_pull_request_id g, fg_fingerprint g)) ` set (ss_groups s)"
      by (rule load_group_None)
    moreover have "group_wf g" "fg_pull_request_id g = pr"
      by (simp_all add: new(2) new_group_def group_wf_def)
    moreover have "ss_groups s' = ss_groups s @ [g]"
      by (simp add: new(3) tick_def tbl_add_def)
    ultimately show ?thesis
      by (simp add: unique_fingerprints_def groups_wf_def image_iff ball_Un)
  next
    case (found g0 via)
    from lookup_group_in [OF found(1)] ok
    have g0: "g0 \<in> set (ss_groups s)" "distinct (map fg_id (ss_groups s))"
      by (auto simp: groups_ok_def)
    have "map (\<lambda>g. (fg_pull_request_id g, fg_fingerprint g)) (ss_groups s') =
        map (\<lambda>g. (fg_pull_request_id g, fg_fingerprint g)) (ss_groups s)"
      using map_key_put [OF g0(2,1), of g "\<lambda>g. (fg_pull_request_id g, fg_fingerprint g)"]
        rebind_same [of g0 via f rv]
      by (simp add: found(2,3) put_group_def same_identity_def)
    moreover have "groups_wf s \<Longrightarrow> groups_wf s'"
    proof -
      assume "groups_wf s"
      with g0(1) have "fg_resolution_method g0 = Some RM_head_contradiction \<or> group_wf g0"
        by (simp add: groups_wf_def)
      from rebind_wf [OF this] have "fg_resolution_method g = Some RM_head_contradiction \<or> group_wf g"
        by (simp add: found(2))
      moreover have "ss_groups s' = tbl_put fg_id g (ss_groups s)"
        by (simp add: found(3) put_group_def)
      ultimately show "groups_wf s'"
        using \<open>groups_wf s\<close> set_tbl_put [of _ fg_id g "ss_groups s"] unfolding groups_wf_def by metis
    qed
    ultimately show ?thesis by (simp add: unique_fingerprints_def)
  qed
  then show "unique_fingerprints s \<Longrightarrow> unique_fingerprints s'" and "groups_wf s \<Longrightarrow> groups_wf s'"
    by blast+
qed

lemma reconcile_loop_invariants:
  assumes "groups_ok (length fs) s" and "reconcile_loop s run pr rv fs linked bound = (s', ids)"
  shows "(unique_fingerprints s \<longrightarrow> unique_fingerprints s') \<and> (groups_wf s \<longrightarrow> groups_wf s')"
  using assms
proof (induction fs arbitrary: s linked bound)
  case (Cons f fs)
  obtain s1 g where b: "bind_group_for_finding s run pr rv f bound = (s1, g)" by fastforce
  have ok: "groups_ok (Suc (length fs)) s" using Cons.prems(1) by simp
  let ?s2 = "put_finding (f\<lparr>fi_group_id := Some (fg_id g)\<rparr>) s1"
  have ok2: "groups_ok (length fs) ?s2" using bind_step(6) [OF b ok] by simp
  from Cons.prems(2) have r: "reconcile_loop ?s2 run pr rv fs (linked @ [fg_id g]) (fg_id g # bound) = (s', ids)"
    by (simp add: b)
  have "unique_fingerprints ?s2 = unique_fingerprints s1" "groups_wf ?s2 = groups_wf s1"
    unfolding unique_fingerprints_def groups_wf_def by (simp_all only: put_finding_frame)
  with Cons.IH [OF ok2 r] bind_table_invariants [OF b ok] show ?case by blast
qed simp

subsection \<open>Properties\<close>

lemma reconcile_unfold:
  assumes "get_review_run s r = Some run" "rr_status run = RR_completed"
    "get_revision s (rr_revision_id run) = Some rv" "reconcile_review_run s r = (s', ids)"
  shows "reconcile_loop s run (rev_pull_request_id rv) (rev_id rv) (run_findings s r) [] [] = (s', ids)"
  using assms by (simp add: reconcile_review_run_def)

lemmas demo_eval =
  demo_defs session_gets tbl_get_def run_findings_def groups_ok_def tbl_keys_def

text \<open>C1. Reconciliation binds every finding of a completed run: the identifiers it returns are,
  in the order of the findings, the group each finding is linked to afterwards, and each of
  those groups is a row of the run's pull request that is either one a dismissal keeps
  resolved, or active and last seen at the run's revision.\<close>

theorem reconcile_binds_every_finding:
  assumes "get_review_run s r = Some run" and "rr_status run = RR_completed"
    and "get_revision s (rr_revision_id run) = Some rv"
    and "groups_ok (length (run_findings s r)) s"
    and "distinct (map fi_id (ss_findings s))"
    and "reconcile_review_run s r = (s', ids)"
  shows "list_all2 (\<lambda>f k.
      tbl_get fi_id (fi_id f) (ss_findings s') = Some (f\<lparr>fi_group_id := Some k\<rparr>) \<and>
      (\<exists>g. get_group s' k = Some g \<and> fg_pull_request_id g = rev_pull_request_id rv \<and>
           (skips_group g \<or> fg_state g = Grp_active \<and> fg_last_seen_revision_id g = rev_id rv)))
    (run_findings s r) ids"
proof -
  note loop = reconcile_unfold [OF assms(1-3,6)]
  have d: "distinct (map fi_id (run_findings s r))"
    using assms(5) by (simp add: run_findings_def distinct_map_filter)
  have keys: "fi_id f \<in> tbl_keys fi_id (ss_findings s)" if "f \<in> set (run_findings s r)" for f
    using that by (auto simp: run_findings_def tbl_keys_def)
  from reconcile_loop_findings [OF d loop]
  have a: "list_all2 (\<lambda>f k. fi_id f \<in> tbl_keys fi_id (ss_findings s) \<longrightarrow>
      tbl_get fi_id (fi_id f) (ss_findings s') = Some (f\<lparr>fi_group_id := Some k\<rparr>)) (run_findings s r) ids"
    by auto
  from reconcile_loop_groups [OF assms(4) _ loop]
  have b: "list_all (\<lambda>k. \<exists>g. get_group s' k = Some g \<and>
      fg_pull_request_id g = rev_pull_request_id rv \<and> settled (rev_id rv) g) ids"
    by simp
  from a b keys show ?thesis
    by (simp add: list_all2_conv_all_nth list_all_length settled_def)
qed

theorem reconcile_binds_every_finding_witness:
  "case reconcile_review_run demo_session 1 of (s', ids) \<Rightarrow>
     length ids = 1 \<and>
     tbl_get fi_id 20 (ss_findings s') = Some (demo_finding\<lparr>fi_group_id := Some (hd ids)\<rparr>)"
proof -
  obtain s' ids where e: "reconcile_review_run demo_session 1 = (s', ids)" by fastforce
  have "list_all2 (\<lambda>f k.
      tbl_get fi_id (fi_id f) (ss_findings s') = Some (f\<lparr>fi_group_id := Some k\<rparr>) \<and>
      (\<exists>g. get_group s' k = Some g \<and> fg_pull_request_id g = rev_pull_request_id demo_revision \<and>
           (skips_group g \<or> fg_state g = Grp_active \<and> fg_last_seen_revision_id g = rev_id demo_revision)))
    (run_findings demo_session 1) ids"
    by (rule reconcile_binds_every_finding [OF _ _ _ _ _ e, of demo_run]) (simp_all add: demo_eval)
  moreover have "run_findings demo_session 1 = [demo_finding]" by (simp add: demo_eval)
  ultimately show ?thesis by (auto simp: e list_all2_Cons1 demo_finding_def)
qed

text \<open>C2. Reconciliation never rewrites history: every group that existed still exists with its
  identity, a group dismissed by the judge, by verification or by a human (or resolved
  before methods were recorded) is left exactly as it was even when it is reported again,
  groups of other pull requests are left alone, and a claim slot is frozen once set.\<close>

theorem reconcile_preserves_history:
  assumes "get_review_run s r = Some run" and "rr_status run = RR_completed"
    and "get_revision s (rr_revision_id run) = Some rv"
    and "groups_ok (length (run_findings s r)) s"
    and "reconcile_review_run s r = (s', ids)"
    and "get_group s k = Some g"
  shows "\<exists>g'. get_group s' k = Some g' \<and> same_identity g' g \<and>
    (should_skip_resolved_group_on_reconcile (fg_state g) (fg_resolution_method g) \<longrightarrow> g' = g) \<and>
    (fg_pull_request_id g \<noteq> rev_pull_request_id rv \<longrightarrow> g' = g) \<and>
    (fg_claim_slot g \<noteq> None \<longrightarrow> fg_claim_slot g' = fg_claim_slot g)"
proof -
  have "evolves (rev_pull_request_id rv) s s'"
    using reconcile_loop_groups [OF assms(4) _ reconcile_unfold [OF assms(1-3,5)]] by simp
  with assms(6) show ?thesis unfolding evolves_def skips_group_def by blast
qed

theorem reconcile_preserves_history_witness:
  "get_group (fst (reconcile_review_run
      (demo_session\<lparr>ss_groups := [close_judge 1 demo_group]\<rparr>) 1)) 10
   = Some (close_judge 1 demo_group)"
proof -
  let ?s = "demo_session\<lparr>ss_groups := [close_judge 1 demo_group]\<rparr>"
  obtain s' ids where e: "reconcile_review_run ?s 1 = (s', ids)" by fastforce
  have i: "fg_id (close_judge 1 demo_group) = 10" by (simp add: judged.close_id demo_group_def)
  have "\<exists>g'. get_group s' 10 = Some g' \<and> same_identity g' (close_judge 1 demo_group) \<and>
    (should_skip_resolved_group_on_reconcile (fg_state (close_judge 1 demo_group))
       (fg_resolution_method (close_judge 1 demo_group)) \<longrightarrow> g' = close_judge 1 demo_group) \<and>
    (fg_pull_request_id (close_judge 1 demo_group) \<noteq> rev_pull_request_id demo_revision \<longrightarrow>
       g' = close_judge 1 demo_group) \<and>
    (fg_claim_slot (close_judge 1 demo_group) \<noteq> None \<longrightarrow>
       fg_claim_slot g' = fg_claim_slot (close_judge 1 demo_group))"
    by (rule reconcile_preserves_history [OF _ _ _ _ e, of demo_run])
       (use i in \<open>simp_all add: demo_eval\<close>)
  then show ?thesis by (auto simp: e judged.close_skip_iff)
qed

text \<open>Reconciliation keeps the table consistent: (pull request, fingerprint) stays unique,
  the constraint of the database, and every group that was well-formed stays so unless it
  carries the method of a head contradiction.\<close>

theorem reconcile_keeps_invariants:
  assumes "groups_ok (length (run_findings s r)) s"
    and "unique_fingerprints s" and "groups_wf s"
  shows "unique_fingerprints (fst (reconcile_review_run s r)) \<and>
    groups_wf (fst (reconcile_review_run s r))"
proof -
  obtain s' ids where e: "reconcile_review_run s r = (s', ids)" by fastforce
  show ?thesis
  proof (cases "\<exists>run rv. get_review_run s r = Some run \<and> rr_status run = RR_completed \<and>
      get_revision s (rr_revision_id run) = Some rv")
    case True
    then obtain run rv where "get_review_run s r = Some run" "rr_status run = RR_completed"
      "get_revision s (rr_revision_id run) = Some rv" by blast
    from reconcile_loop_invariants [OF assms(1) reconcile_unfold [OF this e]] assms(2,3)
    show ?thesis by (simp add: e)
  next
    case False
    then have "reconcile_review_run s r = (s, [])"
      by (auto simp: reconcile_review_run_def split: option.splits)
    with assms(2,3) show ?thesis by simp
  qed
qed

theorem reconcile_keeps_invariants_witness:
  "unique_fingerprints (fst (reconcile_review_run demo_session 1)) \<and>
   groups_wf (fst (reconcile_review_run demo_session 1))"
  by (rule reconcile_keeps_invariants)
     (simp_all add: demo_eval unique_fingerprints_def groups_wf_def group_wf_def)

text \<open>C5. A fingerprint identifies the claim: where SHA-256 does not collide on the two
  payloads, equal fingerprints mean the same workspace, pull request, path (a missing path and an
  empty one are the same), category and claim slot, whatever separator characters the path
  contains.\<close>

theorem fingerprint_identifies_claim:
  assumes "sha256_hex (fingerprint_payload ws pr p c (claim_slot_key t)) =
           sha256_hex (fingerprint_payload ws' pr' p' c' (claim_slot_key t'))
           \<Longrightarrow> fingerprint_payload ws pr p c (claim_slot_key t) =
               fingerprint_payload ws' pr' p' c' (claim_slot_key t')"
  shows "compute_fingerprint ws pr p c (claim_slot_key t) =
         compute_fingerprint ws' pr' p' c' (claim_slot_key t') \<longleftrightarrow>
         ws = ws' \<and> pr = pr' \<and> path_or_empty p = path_or_empty p' \<and> c = c' \<and>
         claim_slot_key t = claim_slot_key t'"
proof
  assume "compute_fingerprint ws pr p c (claim_slot_key t) =
          compute_fingerprint ws' pr' p' c' (claim_slot_key t')"
  then have "fingerprint_payload ws pr p c (claim_slot_key t) =
      fingerprint_payload ws' pr' p' c' (claim_slot_key t')"
    using assms by (simp add: compute_fingerprint_def)
  then show "ws = ws' \<and> pr = pr' \<and> path_or_empty p = path_or_empty p' \<and> c = c' \<and>
      claim_slot_key t = claim_slot_key t'"
    by (rule fingerprint_payload_eq) simp_all
qed (simp add: compute_fingerprint_def fingerprint_payload_def)

theorem fingerprint_identifies_claim_witness:
  "compute_fingerprint 3 4 None Cat_bug (claim_slot_key (S '' x'')) =
   compute_fingerprint 3 4 (Some []) Cat_bug (claim_slot_key (S ''x ''))"
proof -
  have s: "claim_slot_key (S '' x'') = claim_slot_key (S ''x '')"
    by (simp add: claim_slot_key_def py_strip_def py_lstrip_def py_rstrip_def S_def is_py_space_def)
  then show ?thesis
    by (subst fingerprint_identifies_claim)
       (simp_all add: path_or_empty_def fingerprint_payload_def)
qed

end
