(* ===== verification/Github_Api.thy ===== *)
theory Github_Api
  imports Json Utf8 "HOL-Library.AList"
begin

section \<open>The GitHub client (\<open>integrations/github_api.py\<close>)\<close>

text \<open>
  The HTTP transport is a parameter of the model, \<open>gh\<close>: for an installation, a URL and the
  \<open>ref\<close> query parameter it either raises (no token, no connection, a timeout) or returns a
  status and a body (\<open>None\<close> when the body is not JSON).  What the client does with the
  answer, \<open>raise_for_status\<close>, the checks of the payload and the base64 body, is modelled here.
\<close>

record http_response =
  hr_status :: int
  hr_body :: "json option"

type_synonym gh = "int \<Rightarrow> pystr \<Rightarrow> pystr option \<Rightarrow> exn + http_response"

definition GITHUB_API_BASE :: pystr where
  "GITHUB_API_BASE = S ''https://api.github.com''"

definition INDEXABLE_COMPARE_STATUSES :: "pystr list" where
  "INDEXABLE_COMPARE_STATUSES =
     [S ''added'', S ''modified'', S ''copied'', S ''renamed'', S ''changed'']"

definition REMOVED_COMPARE_STATUSES :: "pystr list" where
  "REMOVED_COMPARE_STATUSES = [S ''removed'']"

record compare_file =
  cf_filename :: pystr
  cf_status :: pystr
  cf_patch :: "pystr option"
  cf_previous_filename :: "pystr option"

text \<open>\<open>CompareCommitsResult\<close> is its tuple of files; the properties of the class follow.\<close>

definition paths_to_index :: "compare_file list \<Rightarrow> pystr list" where
  "paths_to_index files =
     map cf_filename (filter (\<lambda>f. cf_status f \<in> set INDEXABLE_COMPARE_STATUSES) files)"

definition deleted_paths :: "compare_file list \<Rightarrow> pystr list" where
  "deleted_paths files =
     map cf_filename (filter (\<lambda>f. cf_status f \<in> set REMOVED_COMPARE_STATUSES) files)"

fun renamed_from_paths :: "compare_file list \<Rightarrow> pystr list" where
  "renamed_from_paths [] = []"
| "renamed_from_paths (f # fs) =
     (case cf_previous_filename f of
        Some p \<Rightarrow>
          if cf_status f = S ''renamed'' \<and> p \<noteq> [] then p # renamed_from_paths fs
          else renamed_from_paths fs
      | None \<Rightarrow> renamed_from_paths fs)"

definition paths_to_remove :: "compare_file list \<Rightarrow> pystr list" where
  "paths_to_remove files = deleted_paths files @ renamed_from_paths files"

lemma index_deleted_disjoint:
  "distinct (map cf_filename files) \<Longrightarrow> set (paths_to_index files) \<inter> set (deleted_paths files) = {}"
  by (induction files)
     (auto simp: paths_to_index_def deleted_paths_def INDEXABLE_COMPARE_STATUSES_def
        REMOVED_COMPARE_STATUSES_def S_def image_iff)

subsection \<open>HTTP errors\<close>

definition is_success :: "int \<Rightarrow> bool" where
  "is_success c \<longleftrightarrow> 200 \<le> c \<and> c \<le> 299"

definition compare_http_error :: "int \<Rightarrow> exn" where
  "compare_http_error status =
     (if status = 404 then
        raise_platform NotFoundError (S ''GitHub compare not found'') (Some (S ''github_compare_not_found''))
      else if status = 429 then
        raise_platform RateLimitedError (S ''GitHub API rate limit exceeded'') (Some (S ''github_rate_limited''))
      else Http_status status)"

definition contents_http_error :: "int \<Rightarrow> exn" where
  "contents_http_error status =
     (if status = 404 then
        raise_platform NotFoundError (S ''GitHub repository file not found'') (Some (S ''github_contents_not_found''))
      else if status = 429 then
        raise_platform RateLimitedError (S ''GitHub API rate limit exceeded'') (Some (S ''github_rate_limited''))
      else Http_status status)"

text \<open>\<open>client.get\<close>, \<open>raise_for_status\<close> and \<open>response.json()\<close>.\<close>

definition get_json :: "gh \<Rightarrow> (int \<Rightarrow> exn) \<Rightarrow> int \<Rightarrow> pystr \<Rightarrow> pystr option \<Rightarrow> exn + json" where
  "get_json gh on_error inst url ref =
     rbind (gh inst url ref) (\<lambda>r.
       if \<not> is_success (hr_status r) then Inl (on_error (hr_status r))
       else case hr_body r of None \<Rightarrow> Inl Json_decode_error | Some j \<Rightarrow> Inr j)"

subsection \<open>Comparing two commits\<close>

definition str_member :: "pystr \<Rightarrow> (pystr \<times> json) list \<Rightarrow> pystr option" where
  "str_member k ms = (case json_get k ms of Some (JStr s) \<Rightarrow> Some s | _ \<Rightarrow> None)"

fun compare_items :: "json list \<Rightarrow> compare_file list" where
  "compare_items [] = []"
| "compare_items (JObj ms # items) =
     (case (str_member (S ''filename'') ms, str_member (S ''status'') ms) of
        (Some filename, Some status) \<Rightarrow>
          \<lparr>cf_filename = filename, cf_status = status, cf_patch = str_member (S ''patch'') ms,
           cf_previous_filename = str_member (S ''previous_filename'') ms\<rparr> # compare_items items
      | _ \<Rightarrow> compare_items items)"
| "compare_items (_ # items) = compare_items items"

definition compare_url :: "pystr \<Rightarrow> pystr \<Rightarrow> pystr \<Rightarrow> pystr \<Rightarrow> pystr" where
  "compare_url owner repo base head =
     GITHUB_API_BASE @ S ''/repos/'' @ owner @ S ''/'' @ repo @ S ''/compare/'' @ base @ S ''...'' @ head"

definition compare_commits ::
  "gh \<Rightarrow> int \<Rightarrow> pystr \<Rightarrow> pystr \<Rightarrow> pystr \<Rightarrow> pystr \<Rightarrow> exn + compare_file list" where
  "compare_commits gh inst owner repo base head =
     rbind (get_json gh compare_http_error inst (compare_url owner repo base head) None) (\<lambda>data.
       case data of
         JObj ms \<Rightarrow>
           (case json_get (S ''files'') ms of
              Some (JArr raw) \<Rightarrow>
                if 300 \<le> length raw then
                  Inl (raise_platform ServiceUnavailableError
                         (S ''GitHub compare returned too many changed files'')
                         (Some (S ''github_compare_truncated'')))
                else Inr (compare_items raw)
            | _ \<Rightarrow> Inr [])
       | _ \<Rightarrow> Inl Attribute_error)"

lemma compare_items_length: "length (compare_items raw) \<le> length raw"
  by (induction raw rule: compare_items.induct) (auto split: option.splits intro: le_SucI)

subsection \<open>Base64 (\<open>base64.b64decode\<close>)\<close>

text \<open>The value of a character of the standard alphabet.\<close>

definition b64_val :: "nat \<Rightarrow> nat option" where
  "b64_val c =
     (if 65 \<le> c \<and> c \<le> 90 then Some (c - 65)
      else if 97 \<le> c \<and> c \<le> 122 then Some (c - 71)
      else if 48 \<le> c \<and> c \<le> 57 then Some (c + 4)
      else if c = 43 then Some 62
      else if c = 47 then Some 63
      else None)"

definition b64_char :: "nat \<Rightarrow> nat" where
  "b64_char v =
     (if v < 26 then v + 65 else if v < 52 then v + 71 else if v < 62 then v - 4
      else if v = 62 then 43 else 47)"

lemma b64_val_char [simp]: "v < 64 \<Longrightarrow> b64_val (b64_char v) = Some v"
  by (auto simp: b64_val_def b64_char_def)

lemma b64_char_not_pad [simp]: "v < 64 \<Longrightarrow> b64_char v \<noteq> 61"
  by (auto simp: b64_char_def)

text \<open>The loop of \<open>binascii.a2b_base64\<close> (not strict): position in the group of four, the bits
  carried over, and the pads seen; characters outside the alphabet are skipped, and the pad that
  completes a group ends the input.\<close>

fun a2b_base64 :: "nat \<Rightarrow> nat \<Rightarrow> nat \<Rightarrow> pystr \<Rightarrow> nat list option" where
  "a2b_base64 q left pads [] = (if q = 0 then Some [] else None)"
| "a2b_base64 q left pads (c # cs) =
     (if c = 61 then
        (if 2 \<le> q \<and> 4 \<le> q + Suc pads then Some []
         else a2b_base64 q left (if 2 \<le> q then Suc pads else pads) cs)
      else case b64_val c of
        None \<Rightarrow> a2b_base64 q left pads cs
      | Some v \<Rightarrow>
          if q = 0 then a2b_base64 1 v 0 cs
          else if q = 1 then map_option ((#) (4 * left + v div 16)) (a2b_base64 2 (v mod 16) 0 cs)
          else if q = 2 then map_option ((#) (16 * left + v div 4)) (a2b_base64 3 (v mod 4) 0 cs)
          else map_option ((#) (64 * left + v)) (a2b_base64 0 0 0 cs))"

definition b64decode :: "pystr \<Rightarrow> exn + nat list" where
  "b64decode s =
     (if \<exists>c\<in>set s. 128 \<le> c
      then Inl (Value_error (S ''string argument should contain only ASCII characters''))
      else case a2b_base64 0 0 0 s of None \<Rightarrow> Inl Binascii_error | Some bs \<Rightarrow> Inr bs)"

text \<open>The encoder, for the round trip.\<close>

fun b64encode :: "nat list \<Rightarrow> pystr" where
  "b64encode [] = []"
| "b64encode [a] = [b64_char (a div 4), b64_char (a mod 4 * 16), 61, 61]"
| "b64encode [a, b] = [b64_char (a div 4), b64_char (a mod 4 * 16 + b div 16), b64_char (b mod 16 * 4), 61]"
| "b64encode (a # b # c # bs) =
     [b64_char (a div 4), b64_char (a mod 4 * 16 + b div 16),
      b64_char (b mod 16 * 4 + c div 64), b64_char (c mod 64)] @ b64encode bs"

lemma div_bound: "(a::nat) < 256 \<Longrightarrow> a div 4 < 64" "a < 256 \<Longrightarrow> a div 16 < 16" "a < 256 \<Longrightarrow> a div 64 < 4"
  by (simp_all add: less_mult_imp_div_less)

lemma mod_div_small:
  "(y::nat) < n \<Longrightarrow> (x * n + y) div n = x" "y < n \<Longrightarrow> (x * n + y) mod n = y"
  by auto

lemma mod_bound: "(a::nat) mod 4 \<le> 3" "a mod 16 \<le> 15" "a mod 64 \<le> 63"
  using mod_less_divisor [of 4 a] mod_less_divisor [of 16 a] mod_less_divisor [of 64 a] by linarith+

lemma a2b_b64encode:
  "list_all (\<lambda>b. b < 256) bs \<Longrightarrow> a2b_base64 0 0 0 (b64encode bs) = Some bs"
proof (induction bs rule: b64encode.induct)
  case 1
  then show ?case by simp
next
  case (2 a)
  have "a div 4 < 64" "a mod 4 * 16 < 64"
    using 2 div_bound(1) [of a] mod_bound(1) [of a] by simp_all
  then show ?case by (simp add: mult.commute)
next
  case (3 a b)
  have l: "a div 4 < 64" "a mod 4 * 16 + b div 16 < 64" "b mod 16 * 4 < 64"
    using 3 div_bound [of a] div_bound(2) [of b] mod_bound(1) [of a] mod_bound(2) [of b] by simp_all
  have "b div 16 < 16" using 3 div_bound(2) [of b] by simp
  from mod_div_small [OF this, of "a mod 4"] l show ?case
    by (simp add: mult.commute)
next
  case (4 a b c bs)
  have l: "a div 4 < 64" "a mod 4 * 16 + b div 16 < 64" "b mod 16 * 4 + c div 64 < 64" "c mod 64 < 64"
    using 4 div_bound [of a] div_bound(2) [of b] div_bound(3) [of c] mod_bound(1) [of a]
      mod_bound(2) [of b] mod_bound(3) [of c] by simp_all
  have b: "b div 16 < 16" and c: "c div 64 < 4"
    using 4 div_bound(2) [of b] div_bound(3) [of c] by simp_all
  from mod_div_small [OF b, of "a mod 4"] mod_div_small [OF c, of "b mod 16"] l 4 show ?case
    by (simp add: mult.commute)
qed

text \<open>Line breaks in the body (GitHub wraps it) do not matter.\<close>

lemma a2b_skip:
  "a2b_base64 q l p (filter (\<lambda>c. c = 61 \<or> b64_val c \<noteq> None) s) = a2b_base64 q l p s"
proof (induction q l p s rule: a2b_base64.induct)
  case (2 q left pads c cs)
  then show ?case by (cases "b64_val c") auto
qed simp

lemma b64encode_alphabet: "list_all (\<lambda>b. b < 256) bs \<Longrightarrow> \<forall>c\<in>set (b64encode bs). c = 61 \<or> b64_val c \<noteq> None"
proof (induction bs rule: b64encode.induct)
  case (2 a)
  then show ?case using div_bound(1) [of a] mod_bound(1) [of a] by simp
next
  case (3 a b)
  then show ?case
    using div_bound [of a] div_bound(2) [of b] mod_bound(1) [of a] mod_bound(2) [of b] by simp
next
  case (4 a b c bs)
  then show ?case
    using div_bound [of a] div_bound(2) [of b] div_bound(3) [of c] mod_bound(1) [of a]
      mod_bound(2) [of b] mod_bound(3) [of c] by simp
qed simp

subsection \<open>Reading a file\<close>

text \<open>\<open>urllib.parse.quote(path, safe="/")\<close>: percent-encoding of the UTF-8 bytes.\<close>

definition unreserved :: "nat \<Rightarrow> bool" where
  "unreserved b \<longleftrightarrow>
     (65 \<le> b \<and> b \<le> 90) \<or> (97 \<le> b \<and> b \<le> 122) \<or> (48 \<le> b \<and> b \<le> 57) \<or>
     b = 95 \<or> b = 46 \<or> b = 45 \<or> b = 126 \<or> b = 47"

definition hex_upper :: "nat \<Rightarrow> nat" where
  "hex_upper d = (if d < 10 then 48 + d else 55 + d)"

definition url_quote :: "pystr \<Rightarrow> pystr" where
  "url_quote s = concat (map (\<lambda>b. if unreserved b then [b]
     else [37, hex_upper (b div 16), hex_upper (b mod 16)]) (utf8_encode s))"

definition contents_url :: "pystr \<Rightarrow> pystr \<Rightarrow> pystr \<Rightarrow> pystr" where
  "contents_url owner repo path =
     GITHUB_API_BASE @ S ''/repos/'' @ owner @ S ''/'' @ repo @ S ''/contents/'' @ url_quote path"

definition contents_invalid :: "pystr \<Rightarrow> exn" where
  "contents_invalid msg =
     raise_platform ServiceUnavailableError msg (Some (S ''github_contents_invalid''))"

text \<open>\<open>bytes.decode("utf-8")\<close>.\<close>

definition py_decode :: "nat list \<Rightarrow> exn + pystr" where
  "py_decode bs = (case utf8_decode bs of None \<Rightarrow> Inl Unicode_decode_error | Some s \<Rightarrow> Inr s)"

definition fetch_repository_file_at_sha ::
  "gh \<Rightarrow> int \<Rightarrow> pystr \<Rightarrow> pystr \<Rightarrow> pystr \<Rightarrow> pystr \<Rightarrow> exn + pystr" where
  "fetch_repository_file_at_sha gh inst owner repo path ref =
     rbind (get_json gh contents_http_error inst (contents_url owner repo path) (Some ref)) (\<lambda>data.
       case data of
         JObj ms \<Rightarrow>
           (case (json_get (S ''encoding'') ms, json_get (S ''content'') ms) of
              (Some (JStr enc), Some (JStr content)) \<Rightarrow>
                if enc = S ''base64'' then rbind (b64decode content) py_decode
                else Inl (contents_invalid (S ''GitHub contents response missing base64 body''))
            | _ \<Rightarrow> Inl (contents_invalid (S ''GitHub contents response missing base64 body'')))
       | _ \<Rightarrow> Inl (contents_invalid (S ''GitHub contents response invalid'')))"


subsection \<open>Properties\<close>

lemma utf8_char_bytes: "valid_cp c \<Longrightarrow> list_all (\<lambda>b. b < 256) (utf8_char c)"
proof -
  assume v: "valid_cp c"
  have m: "0x80 + n mod 64 < (256::nat)" for n
    using mod_less_divisor [of 64 n] by linarith
  have "c div 64 < 32" if "c < 0x800" using that by (simp add: less_mult_imp_div_less)
  moreover have "c div 4096 < 16" if "c < 0x10000" using that by (simp add: less_mult_imp_div_less)
  moreover have "c div 262144 < 5" using v by (auto simp: valid_cp_def less_mult_imp_div_less)
  ultimately show ?thesis using m by (auto simp: utf8_char_def)
qed

lemma utf8_encode_bytes: "valid_str s \<Longrightarrow> list_all (\<lambda>b. b < 256) (utf8_encode s)"
  by (induction s) (auto simp: valid_str_def utf8_encode_def dest: utf8_char_bytes)

lemma b64decode_wrapped:
  assumes "list_all (\<lambda>b. b < 256) bs" and "filter (\<lambda>c. c = 61 \<or> b64_val c \<noteq> None) content = b64encode bs"
    and "\<forall>c\<in>set content. c < 128"
  shows "b64decode content = Inr bs"
proof -
  have "a2b_base64 0 0 0 content = Some bs"
    using a2b_skip [of 0 0 0 content] a2b_b64encode [OF assms(1)] assms(2) by simp
  with assms(3) show ?thesis by (auto simp: b64decode_def not_le)
qed

lemma fetch_decodes:
  assumes "gh inst (contents_url owner repo path) (Some ref) = Inr \<lparr>hr_status = st, hr_body = Some (JObj ms)\<rparr>"
    and "is_success st"
    and "json_get (S ''encoding'') ms = Some (JStr (S ''base64''))"
    and "json_get (S ''content'') ms = Some (JStr content)"
    and "filter (\<lambda>c. c = 61 \<or> b64_val c \<noteq> None) content = b64encode bs"
    and "\<forall>c\<in>set content. c < 128" and "list_all (\<lambda>b. b < 256) bs"
  shows "fetch_repository_file_at_sha gh inst owner repo path ref = py_decode bs"
  using assms b64decode_wrapped [OF assms(7,5,6)]
  by (simp add: fetch_repository_file_at_sha_def get_json_def)

text \<open>A server that answers every request with the same bytes.\<close>

definition gh_serves :: "nat list \<Rightarrow> gh" where
  "gh_serves bs = (\<lambda>inst url ref. Inr \<lparr>hr_status = 200, hr_body = Some (JObj
     [(S ''encoding'', JStr (S ''base64'')), (S ''content'', JStr (b64encode bs))])\<rparr>)"

lemma fetch_serves:
  assumes "list_all (\<lambda>b. b < 256) bs"
  shows "fetch_repository_file_at_sha (gh_serves bs) inst owner repo path ref = py_decode bs"
proof (rule fetch_decodes)
  show "gh_serves bs inst (contents_url owner repo path) (Some ref) = Inr \<lparr>hr_status = 200, hr_body = Some (JObj
     [(S ''encoding'', JStr (S ''base64'')), (S ''content'', JStr (b64encode bs))])\<rparr>"
    by (simp add: gh_serves_def)
  show "filter (\<lambda>c. c = 61 \<or> b64_val c \<noteq> None) (b64encode bs) = b64encode bs"
    using b64encode_alphabet [OF assms] by (simp add: filter_id_conv)
  have "c < 128" if "c = 61 \<or> b64_val c \<noteq> None" for c
    using that by (auto simp: b64_val_def split: if_splits)
  then show "\<forall>c\<in>set (b64encode bs). c < 128" using b64encode_alphabet [OF assms] by blast
qed (use assms in \<open>simp_all add: is_success_def S_def\<close>)

text \<open>Reading a file gives the file: when GitHub answers a contents request with a success
  status and the base64 of the UTF-8 text, wrapped by line breaks or other characters outside
  the alphabet, the client returns exactly that text.\<close>

theorem fetch_returns_file:
  assumes "gh inst (contents_url owner repo path) (Some ref) = Inr \<lparr>hr_status = st, hr_body = Some (JObj ms)\<rparr>"
    and "is_success st"
    and "json_get (S ''encoding'') ms = Some (JStr (S ''base64''))"
    and "json_get (S ''content'') ms = Some (JStr content)"
    and "filter (\<lambda>c. c = 61 \<or> b64_val c \<noteq> None) content = b64encode (utf8_encode text)"
    and "\<forall>c\<in>set content. c < 128" and "valid_str text"
  shows "fetch_repository_file_at_sha gh inst owner repo path ref = Inr text"
  using fetch_decodes [where gh = gh, OF assms(1-6) utf8_encode_bytes [OF assms(7)]] assms(7)
  by (simp add: py_decode_def utf8_roundtrip)

theorem fetch_returns_file_witness:
  "fetch_repository_file_at_sha
     (\<lambda>i u r. Inr \<lparr>hr_status = 200, hr_body = Some (JObj
        [(S ''encoding'', JStr (S ''base64'')), (S ''content'', JStr (S ''b2s='' @ [10]))])\<rparr>)
     9 (S ''o'') (S ''r'') (S ''a.py'') (S ''bb'') = Inr (S ''ok'')"
  by (rule fetch_returns_file [where content = "S ''b2s='' @ [10]" and st = 200 and
        ms = "[(S ''encoding'', JStr (S ''base64'')), (S ''content'', JStr (S ''b2s='' @ [10]))]"])
     (simp_all add: is_success_def S_def b64_val_def b64_char_def utf8_encode_def utf8_char_def
        valid_str_def valid_cp_def)

text \<open>A comparison is never silently truncated: whatever the transport answers, a result has
  fewer than 300 files, and an answer with 300 or more raises the truncation error.\<close>

theorem compare_commits_never_truncated:
  "(case compare_commits gh inst owner repo base head of
      Inr files \<Rightarrow> length files < 300
    | Inl e \<Rightarrow> True) \<and>
   (\<forall>ms raw. gh inst (compare_url owner repo base head) None =
        Inr \<lparr>hr_status = 200, hr_body = Some (JObj ms)\<rparr> \<and>
      json_get (S ''files'') ms = Some (JArr raw) \<and> 300 \<le> length raw \<longrightarrow>
      compare_commits gh inst owner repo base head =
        Inl (Platform ServiceUnavailableError (S ''GitHub compare returned too many changed files'')
               (S ''github_compare_truncated'')))"
proof
  have small: "length (compare_items raw) < 300" if "\<not> 300 \<le> length raw" for raw
    using compare_items_length [of raw] that by linarith
  show "case compare_commits gh inst owner repo base head of
      Inr files \<Rightarrow> length files < 300 | Inl e \<Rightarrow> True"
    using small
    by (cases "get_json gh compare_http_error inst (compare_url owner repo base head) None")
       (auto simp: compare_commits_def split: json.splits option.splits)
  show "\<forall>ms raw. gh inst (compare_url owner repo base head) None =
        Inr \<lparr>hr_status = 200, hr_body = Some (JObj ms)\<rparr> \<and>
      json_get (S ''files'') ms = Some (JArr raw) \<and> 300 \<le> length raw \<longrightarrow>
      compare_commits gh inst owner repo base head =
        Inl (Platform ServiceUnavailableError (S ''GitHub compare returned too many changed files'')
               (S ''github_compare_truncated''))"
    by (auto simp: compare_commits_def get_json_def is_success_def raise_platform_def S_def)
qed

theorem compare_commits_never_truncated_witness:
  "length (case compare_commits (\<lambda>i u r. Inr \<lparr>hr_status = 200, hr_body = Some (JObj
       [(S ''files'', JArr [JNull, JObj [(S ''filename'', JStr (S ''a.py'')), (S ''status'', JStr (S ''added''))]])])\<rparr>)
     9 (S ''o'') (S ''r'') (S ''aa'') (S ''bb'') of Inl e \<Rightarrow> [] | Inr fs \<Rightarrow> fs) < 300"
  using compare_commits_never_truncated [of "\<lambda>i u r. Inr \<lparr>hr_status = 200, hr_body = Some (JObj
       [(S ''files'', JArr [JNull, JObj [(S ''filename'', JStr (S ''a.py'')), (S ''status'', JStr (S ''added''))]])])\<rparr>"
     9 "S ''o''" "S ''r''" "S ''aa''" "S ''bb''"]
  by (cases "compare_commits (\<lambda>i u r. Inr \<lparr>hr_status = 200, hr_body = Some (JObj
       [(S ''files'', JArr [JNull, JObj [(S ''filename'', JStr (S ''a.py'')), (S ''status'', JStr (S ''added''))]])])\<rparr>)
     9 (S ''o'') (S ''r'') (S ''aa'') (S ''bb'')") simp_all

end
