(* ===== verification/Diff.thy ===== *)
theory Diff
  imports Github_Api "HOL-Library.List_Lexorder" "HOL-Library.Multiset"
begin

section \<open>Unified diffs (\<open>services/github_review.py\<close>, \<open>github_resolution_metrics.py\<close>)\<close>

text \<open>
  The code that reads and writes unified diffs: the bounded diff of the review prompt
  (\<open>build_unified_diff\<close>), the lookup of a file's patch, the evidence lines around a finding
  (\<open>extract_evidence_from_patch\<close>) and the test that a patch modifies a finding's lines
  (\<open>patch_touches_line_region\<close>).  Line numbers are \<open>int\<close>: the counters start one before
  the hunk, which is -1 for a file that did not exist.  The digits of a hunk header are ASCII, as
  git writes them.
\<close>

subsection \<open>Hunk headers\<close>

text \<open>The optional \<open>,count\<close> of a range.\<close>

definition skip_count :: "pystr \<Rightarrow> pystr" where
  "skip_count s =
     (if py_startswith s (S '','') \<and> takeWhile is_digit (drop 1 s) \<noteq> []
      then dropWhile is_digit (drop 1 s) else s)"

text \<open>\<open>_HUNK_HEADER_RE.match(line)\<close>: the first old and the first new line number.\<close>

definition hunk_header :: "pystr \<Rightarrow> (int \<times> int) option" where
  "hunk_header line =
     (if py_startswith line (S ''@@ -'') then
        let r1 = drop 4 line; d1 = takeWhile is_digit r1;
            r2 = skip_count (dropWhile is_digit r1) in
        if d1 \<noteq> [] \<and> py_startswith r2 (S '' +'') then
          let r3 = drop 2 r2; d2 = takeWhile is_digit r3;
              r4 = skip_count (dropWhile is_digit r3) in
          if d2 \<noteq> [] \<and> py_startswith r4 (S '' @@'')
          then Some (int (digits_val d1), int (digits_val d2)) else None
        else None
      else None)"

subsection \<open>The diff of the prompt\<close>

definition REVY_DIFF_MAX_BYTES :: nat where
  "REVY_DIFF_MAX_BYTES = 524288"

definition byte_len :: "pystr \<Rightarrow> nat" where
  "byte_len s = length (utf8_encode s)"

definition patch_entry_size :: "pystr \<times> pystr \<Rightarrow> nat" where
  "patch_entry_size e = byte_len (fst e) + byte_len (snd e) + 32"

definition entries_size :: "(pystr \<times> pystr) list \<Rightarrow> nat" where
  "entries_size es = sum_list (map patch_entry_size es)"

definition format_entry :: "pystr \<times> pystr \<Rightarrow> pystr" where
  "format_entry e = S ''--- a/'' @ fst e @ [10] @ S ''+++ b/'' @ fst e @ [10] @ snd e"

definition format_unified_diff :: "(pystr \<times> pystr) list \<Rightarrow> pystr" where
  "format_unified_diff es = py_join [10, 10] (map format_entry es)"

text \<open>\<open>while kept and size > cap: kept.pop(0)\<close>; the second component is \<open>omitted\<close>.\<close>

fun drop_largest :: "nat \<Rightarrow> (pystr \<times> pystr) list \<Rightarrow> (pystr \<times> pystr) list \<times> pystr list" where
  "drop_largest cap [] = ([], [])"
| "drop_largest cap (e # es) =
     (if cap < entries_size (e # es) then
        let (kept, omitted) = drop_largest cap es in (kept, fst e # omitted)
      else (e # es, []))"

definition patch_entries :: "compare_file list \<Rightarrow> (pystr \<times> pystr) list" where
  "patch_entries files =
     concat (map (\<lambda>f. case cf_patch f of
        Some p \<Rightarrow> if p = [] then [] else [(cf_filename f, p)]
      | None \<Rightarrow> []) files)"

definition build_unified_diff ::
  "compare_file list \<Rightarrow> nat option \<Rightarrow> pystr \<times> bool \<times> pystr list" where
  "build_unified_diff files max_bytes =
     (let cap = opt_or max_bytes REVY_DIFF_MAX_BYTES;
          patches = patch_entries files in
      if patches = [] then ([], False, [])
      else if entries_size patches \<le> cap then (format_unified_diff patches, False, [])
      else
        let (kept, omitted) = drop_largest cap (sort_key (\<lambda>e. - int (length (snd e))) patches)
        in (format_unified_diff (sort_key fst kept), True, omitted))"

subsection \<open>The patch of a file\<close>

definition normalize_patch_file_key :: "pystr \<Rightarrow> pystr" where
  "normalize_patch_file_key path =
     (let n = py_strip (py_replace_char 92 47 path)
      in if py_startswith n (S ''./'') then drop 2 n else n)"

text \<open>A dict is an association list in insertion order, without duplicate keys.\<close>

definition lookup_patch_for_file :: "(pystr \<times> pystr) list \<Rightarrow> pystr option \<Rightarrow> pystr option" where
  "lookup_patch_for_file patches path =
     (case path of
        None \<Rightarrow> None
      | Some p \<Rightarrow>
          if p = [] then None
          else case map_of patches p of
            Some patch \<Rightarrow> Some patch
          | None \<Rightarrow>
              let n = normalize_patch_file_key p in
              case (if n \<noteq> p then map_of patches n else None) of
                Some patch \<Rightarrow> Some patch
              | None \<Rightarrow>
                  map_option snd (List.find (\<lambda>kv. normalize_patch_file_key (fst kv) = n) patches))"

subsection \<open>Evidence around a line\<close>

datatype line_kind = K_hunk | K_minus | K_plus | K_space

text \<open>The local variables of the loop; the parallel lists of pending and flushed removals and
  their old line numbers are lists of pairs.\<close>

record evidence =
  ev_collected :: "pystr list"
  ev_old :: int
  ev_new :: int
  ev_pending :: "(pystr \<times> int) list"
  ev_flushed :: "(pystr \<times> int) list"
  ev_plus :: "int list"
  ev_last :: "line_kind option"
  ev_saw_plus :: bool

definition flush_pending :: "int \<Rightarrow> int \<Rightarrow> evidence \<Rightarrow> evidence" where
  "flush_pending lo hi v =
     v\<lparr>ev_flushed := ev_flushed v @ filter (\<lambda>m. lo \<le> snd m \<and> snd m \<le> hi) (ev_pending v)\<rparr>"

text \<open>\<open>_merge_flushed_orphans_into_collected\<close>: whether one flushed removal is collected.\<close>

definition keep_orphan :: "int list \<Rightarrow> int \<Rightarrow> int \<Rightarrow> int \<Rightarrow> bool \<Rightarrow> pystr \<times> int \<Rightarrow> bool" where
  "keep_orphan added start lo hi discard m =
     (if \<not> (lo \<le> snd m \<and> snd m \<le> hi) then False
      else if added = [] then \<not> (discard \<and> 1 < \<bar>snd m - start\<bar>)
      else \<bar>snd m - start\<bar> < Min (set (map (\<lambda>p. \<bar>p - start\<bar>) added)))"

definition merge_flushed :: "int \<Rightarrow> int \<Rightarrow> int \<Rightarrow> bool \<Rightarrow> evidence \<Rightarrow> evidence" where
  "merge_flushed start lo hi discard v =
     v\<lparr>ev_collected := ev_collected v @
         map fst (filter (keep_orphan (ev_plus v) start lo hi discard) (ev_flushed v))\<rparr>"

definition clear_pending :: "evidence \<Rightarrow> evidence" where
  "clear_pending v = v\<lparr>ev_pending := []\<rparr>"

text \<open>A new hunk: what is pending is flushed and merged (both branches of the code do the same),
  and the counters restart.\<close>

definition start_hunk :: "int \<Rightarrow> int \<Rightarrow> int \<Rightarrow> int \<times> int \<Rightarrow> evidence \<Rightarrow> evidence" where
  "start_hunk start lo hi h v =
     (merge_flushed start lo hi True (flush_pending lo hi v))\<lparr>
        ev_pending := [], ev_flushed := [], ev_plus := [], ev_saw_plus := False,
        ev_old := fst h - 1, ev_new := snd h - 1, ev_last := Some K_hunk\<rparr>"

definition minus_line :: "int \<Rightarrow> int \<Rightarrow> pystr \<Rightarrow> evidence \<Rightarrow> evidence" where
  "minus_line lo hi line v =
     (let v1 = (if ev_last v = Some K_space \<or> ev_last v = Some K_plus
                then clear_pending (flush_pending lo hi v) else v);
          old = ev_old v1 + 1
      in v1\<lparr>ev_old := old, ev_pending := ev_pending v1 @ [(45 # drop 1 line, old)],
            ev_last := Some K_minus\<rparr>)"

definition plus_line :: "int \<Rightarrow> int \<Rightarrow> pystr \<Rightarrow> evidence \<Rightarrow> evidence" where
  "plus_line lo hi line v =
     (let v1 = v\<lparr>ev_saw_plus := True, ev_new := ev_new v + 1\<rparr>;
          n = ev_new v1;
          v2 = (if lo \<le> n \<and> n \<le> hi then
                  v1\<lparr>ev_collected := ev_collected v1 @ map fst (ev_pending v1) @ [drop 1 line],
                     ev_pending := [], ev_plus := ev_plus v1 @ [n]\<rparr>
                else clear_pending (flush_pending lo hi v1))
      in v2\<lparr>ev_last := Some K_plus\<rparr>)"

definition space_line :: "int \<Rightarrow> int \<Rightarrow> pystr \<Rightarrow> evidence \<Rightarrow> evidence" where
  "space_line lo hi line v =
     (let v1 = v\<lparr>ev_old := ev_old v + 1, ev_new := ev_new v + 1\<rparr>;
          n = ev_new v1
      in v1\<lparr>ev_collected := (if lo \<le> n \<and> n \<le> hi then ev_collected v1 @ [drop 1 line]
                             else ev_collected v1),
            ev_last := Some K_space\<rparr>)"

definition evidence_line :: "int \<Rightarrow> int \<Rightarrow> int \<Rightarrow> pystr \<Rightarrow> evidence \<Rightarrow> evidence" where
  "evidence_line start lo hi line v =
     (case hunk_header line of
        Some h \<Rightarrow> start_hunk start lo hi h v
      | None \<Rightarrow>
          if line = [] then v
          else if hd line = 92 then v
          else if hd line = 45 then minus_line lo hi line v
          else if hd line = 43 then plus_line lo hi line v
          else if hd line = 32 then space_line lo hi line v
          else v)"

definition evidence_init :: evidence where
  "evidence_init = \<lparr>ev_collected = [], ev_old = 0, ev_new = 0, ev_pending = [], ev_flushed = [],
     ev_plus = [], ev_last = None, ev_saw_plus = False\<rparr>"

definition EVIDENCE_SNIPPET_MAX_CHARS :: nat where
  "EVIDENCE_SNIPPET_MAX_CHARS = 2048"

definition EVIDENCE_CONTEXT_LINES :: int where
  "EVIDENCE_CONTEXT_LINES = 15"

definition JUDGE_FILE_PATCH_MAX_CHARS :: nat where
  "JUDGE_FILE_PATCH_MAX_CHARS = 8192"

definition collect_evidence :: "pystr list \<Rightarrow> int \<Rightarrow> int \<Rightarrow> pystr list" where
  "collect_evidence ls start context =
     (let lo = max 1 (start - context); hi = start + context;
          v = fold (evidence_line start lo hi) ls evidence_init
      in ev_collected (merge_flushed start lo hi False (flush_pending lo hi v)))"

definition extract_evidence_from_patch :: "pystr \<Rightarrow> int \<Rightarrow> int \<Rightarrow> nat \<Rightarrow> pystr option" where
  "extract_evidence_from_patch patch start context max_chars =
     (let collected = collect_evidence (py_splitlines patch) start context
      in if collected = [] then None
         else Some (truncate_utf8 (py_join [10] collected) max_chars))"

text \<open>The supplemental hits are the dict of the top hit's content per file.\<close>

definition lookup_supplemental :: "(pystr \<times> pystr) list \<Rightarrow> pystr \<Rightarrow> pystr option" where
  "lookup_supplemental hits path =
     (case map_of hits path of
        Some c \<Rightarrow> Some c
      | None \<Rightarrow>
          let n = normalize_patch_file_key path in
          case map_of hits n of
            Some c \<Rightarrow> Some c
          | None \<Rightarrow> map_option snd (List.find (\<lambda>kv. normalize_patch_file_key (fst kv) = n) hits))"

definition resolve_evidence_snippet ::
  "pystr option \<Rightarrow> int option \<Rightarrow> (pystr \<times> pystr) list \<Rightarrow> (pystr \<times> pystr) list \<Rightarrow> nat \<Rightarrow> pystr option" where
  "resolve_evidence_snippet path start patches hits max_chars =
     (case path of
        None \<Rightarrow> None
      | Some p \<Rightarrow>
          if p = [] then None
          else
            let patch = opt_or (lookup_patch_for_file patches path) [];
                snippet = (case start of
                    Some l \<Rightarrow> if patch = [] then None
                              else extract_evidence_from_patch patch l EVIDENCE_CONTEXT_LINES max_chars
                  | None \<Rightarrow> None)
            in case snippet of
                 Some (c # cs) \<Rightarrow> Some (c # cs)
               | _ \<Rightarrow>
                   (case lookup_supplemental hits p of
                      Some content \<Rightarrow> Some (truncate_utf8 content max_chars)
                    | None \<Rightarrow> if patch = [] then None else Some (truncate_utf8 patch max_chars)))"

definition resolve_judge_code_context ::
  "pystr option \<Rightarrow> int option \<Rightarrow> (pystr \<times> pystr) list \<Rightarrow> (pystr \<times> pystr) list
   \<Rightarrow> pystr option \<times> pystr option" where
  "resolve_judge_code_context path start patches hits =
     (resolve_evidence_snippet path start patches hits EVIDENCE_SNIPPET_MAX_CHARS,
      case lookup_patch_for_file patches path of
        Some p \<Rightarrow> if p = [] then None else Some (truncate_utf8 p JUDGE_FILE_PATCH_MAX_CHARS)
      | None \<Rightarrow> None)"

subsection \<open>Does a patch touch a region?\<close>

text \<open>The set of modified lines: new numbers of added lines, old numbers of removed ones.\<close>

fun modified_lines :: "int \<Rightarrow> int \<Rightarrow> pystr list \<Rightarrow> int list" where
  "modified_lines old new [] = []"
| "modified_lines old new (line # ls) =
     (case hunk_header line of
        Some (a, b) \<Rightarrow> modified_lines (a - 1) (b - 1) ls
      | None \<Rightarrow>
          if py_startswith line (S ''+++'') \<or> py_startswith line (S ''---'') \<or>
             py_startswith line [92] then modified_lines old new ls
          else if py_startswith line (S ''+'') then (new + 1) # modified_lines old (new + 1) ls
          else if py_startswith line (S ''-'') then (old + 1) # modified_lines (old + 1) new ls
          else if py_startswith line (S '' '') then modified_lines (old + 1) (new + 1) ls
          else modified_lines old new ls)"

definition changes_line :: "pystr \<Rightarrow> bool" where
  "changes_line line \<longleftrightarrow>
     (py_startswith line (S ''+'') \<or> py_startswith line (S ''-'')) \<and>
     \<not> (py_startswith line (S ''+++'') \<or> py_startswith line (S ''---''))"

definition patch_touches_line_region :: "pystr \<Rightarrow> int option \<Rightarrow> int option \<Rightarrow> bool" where
  "patch_touches_line_region patch start_line end_line =
     (if py_strip patch = [] then False
      else case start_line of
        None \<Rightarrow> list_ex changes_line (py_splitlines patch)
      | Some start \<Rightarrow>
          let region_end = opt_or end_line start
          in list_ex (\<lambda>l. start \<le> l \<and> l \<le> region_end) (modified_lines 0 0 (py_splitlines patch)))"

subsection \<open>The prompt's diff: facts\<close>

lemma drop_largest_parts:
  "drop_largest cap es = (kept, omitted) \<Longrightarrow>
     entries_size kept \<le> cap \<and> (\<exists>dropped. es = dropped @ kept \<and> omitted = map fst dropped)"
proof (induction es arbitrary: kept omitted)
  case Nil
  then show ?case by (simp add: entries_size_def)
next
  case (Cons e es)
  show ?case
  proof (cases "cap < entries_size (e # es)")
    case True
    obtain k om where r: "drop_largest cap es = (k, om)" by fastforce
    with True Cons.prems have "kept = k" "omitted = fst e # om" by simp_all
    with Cons.IH [OF r] show ?thesis by (metis append_Cons list.simps(9))
  next
    case False
    with Cons.prems show ?thesis by simp
  qed
qed

lemma entries_size_mset: "mset xs = mset ys \<Longrightarrow> entries_size xs = entries_size ys"
  unfolding entries_size_def by (metis mset_map sum_mset_sum_list)

lemma byte_len_append [simp]: "byte_len (xs @ ys) = byte_len xs + byte_len ys"
  by (simp add: byte_len_def utf8_encode_def)

lemma byte_len_ascii: "list_all (\<lambda>c. c < 128) s \<Longrightarrow> byte_len s = length s"
  by (induction s) (auto simp: byte_len_def utf8_encode_def utf8_char_def)

lemma byte_len_Nil [simp]: "byte_len [] = 0"
  by (simp add: byte_len_def utf8_encode_def)

lemma byte_len_sep: "byte_len [10, 10] = 2" "byte_len [10] = 1" "byte_len (10 # s) = Suc (byte_len s)"
  by (simp_all add: byte_len_def utf8_encode_def utf8_char_def)

lemma byte_len_markers: "byte_len (S ''--- a/'') = 6" "byte_len (S ''+++ b/'') = 6"
  by (simp_all add: byte_len_ascii S_def)

lemma format_entry_size: "byte_len (format_entry e) + 18 = patch_entry_size e + byte_len (fst e)"
  by (simp add: format_entry_def patch_entry_size_def byte_len_markers byte_len_sep)

lemma format_unified_diff_size:
  "es \<noteq> [] \<Longrightarrow> byte_len (format_unified_diff es) + 18 + 16 * (length es - 1) =
     entries_size es + sum_list (map (byte_len \<circ> fst) es)"
proof (induction es rule: induct_list012)
  case (3 x y zs)
  then show ?case
    using format_entry_size [of x]
    by (simp add: format_unified_diff_def entries_size_def byte_len_sep)
qed (simp_all add: format_unified_diff_def entries_size_def format_entry_size)

text \<open>The diff of the prompt is bounded and complete: every changed file with a patch is
  either shown or named among the omitted ones, files are omitted only when the estimate of
  the whole exceeds the cap, what is shown then fits the cap by the code's estimate, and the
  bytes of the text exceed that estimate by at most the bytes of the shown file names, which the
  estimate counts once and the text writes twice.\<close>

theorem build_unified_diff_bounded:
  assumes "build_unified_diff files mx = (text, truncated, omitted)"
  shows "\<exists>kept dropped. mset (patch_entries files) = mset (dropped @ kept) \<and>
    omitted = map fst dropped \<and> text = format_unified_diff kept \<and>
    (truncated \<longleftrightarrow> opt_or mx REVY_DIFF_MAX_BYTES < entries_size (patch_entries files)) \<and>
    (\<not> truncated \<longrightarrow> dropped = []) \<and>
    entries_size kept \<le> opt_or mx REVY_DIFF_MAX_BYTES \<and>
    byte_len text \<le> opt_or mx REVY_DIFF_MAX_BYTES + sum_list (map (byte_len \<circ> fst) kept)"
proof -
  let ?cap = "opt_or mx REVY_DIFF_MAX_BYTES" and ?p = "patch_entries files"
  have bound: "byte_len (format_unified_diff kept) \<le> ?cap + sum_list (map (byte_len \<circ> fst) kept)"
    if "entries_size kept \<le> ?cap" for kept
  proof (cases "kept = []")
    case False
    with format_unified_diff_size [OF this] that show ?thesis by linarith
  qed (simp add: format_unified_diff_def)
  show ?thesis
  proof (cases "entries_size ?p \<le> ?cap")
    case True
    then have "text = format_unified_diff ?p" "\<not> truncated" "omitted = []"
      using assms by (auto simp: build_unified_diff_def format_unified_diff_def Let_def split: if_splits)
    with True bound [OF True] show ?thesis
      by (intro exI [of _ ?p] exI [of _ "[]"]) simp
  next
    case False
    then have "?p \<noteq> []" by (auto simp: entries_size_def)
    obtain k om where d: "drop_largest ?cap (sort_key (\<lambda>e. - int (length (snd e))) ?p) = (k, om)"
      by fastforce
    from drop_largest_parts [OF d] obtain dropped where
      k: "entries_size k \<le> ?cap" "sort_key (\<lambda>e. - int (length (snd e))) ?p = dropped @ k"
        "om = map fst dropped" by blast
    have r: "text = format_unified_diff (sort_key fst k)" "truncated" "omitted = om"
      using assms False \<open>?p \<noteq> []\<close> d by (auto simp: build_unified_diff_def Let_def)
    have "mset ?p = mset (dropped @ sort_key fst k)"
      using arg_cong [OF k(2), of mset] by simp
    moreover have e: "entries_size (sort_key fst k) \<le> ?cap"
      using k(1) entries_size_mset [of "sort_key fst k" k] by simp
    ultimately show ?thesis
      using r False k(3) bound [OF e]
      by (intro exI [of _ "sort_key fst k"] exI [of _ dropped]) simp
  qed
qed

text \<open>The patch field of a file whose name is 60 bytes long, under a cap of 100 bytes.\<close>

theorem build_unified_diff_bounded_witness:
  "entries_size (patch_entries [\<lparr>cf_filename = replicate 60 97, cf_status = S ''added'',
      cf_patch = Some (S ''+x''), cf_previous_filename = None\<rparr>]) \<le> 100 \<and>
   100 < byte_len (fst (build_unified_diff [\<lparr>cf_filename = replicate 60 97, cf_status = S ''added'',
      cf_patch = Some (S ''+x''), cf_previous_filename = None\<rparr>] (Some 100)))"
proof -
  let ?f = "[\<lparr>cf_filename = replicate 60 97, cf_status = S ''added'',
      cf_patch = Some (S ''+x''), cf_previous_filename = None\<rparr>]"
  have l: "byte_len (replicate 60 97) = 60" "byte_len (S ''+x'') = 2"
    by (simp_all add: byte_len_ascii S_def list_all_iff)
  have p: "patch_entries ?f = [(replicate 60 97, S ''+x'')]" by (simp add: patch_entries_def S_def)
  have e: "entries_size (patch_entries ?f) = 94" by (simp add: p entries_size_def patch_entry_size_def l)
  obtain out tr om where b: "build_unified_diff ?f (Some 100) = (out, tr, om)"
    by (metis prod_cases3)
  from build_unified_diff_bounded [OF b] obtain kept dropped where
    k: "mset (patch_entries ?f) = mset (dropped @ kept)" "out = format_unified_diff kept"
      "tr \<longleftrightarrow> 100 < entries_size (patch_entries ?f)" "\<not> tr \<longrightarrow> dropped = []" by auto
  then have "kept = [(replicate 60 97, S ''+x'')]"
    using e by (simp add: p)
  then have "byte_len out = 136"
    using k(2) by (simp add: format_unified_diff_def format_entry_def l byte_len_markers byte_len_sep)
  then show ?thesis using e b by simp
qed

subsection \<open>Evidence quotes the patch\<close>

text \<open>A line the evidence may quote: an added or context line without its sign, or a removed
  line with it.\<close>

definition quotable :: "pystr list \<Rightarrow> pystr \<Rightarrow> bool" where
  "quotable ls q \<longleftrightarrow>
     (\<exists>l\<in>set ls. l \<noteq> [] \<and>
        ((hd l = 43 \<or> hd l = 32) \<and> q = tl l \<or> hd l = 45 \<and> q = l))"

definition quotes_only :: "pystr list \<Rightarrow> evidence \<Rightarrow> bool" where
  "quotes_only ls v \<longleftrightarrow>
     list_all (quotable ls) (ev_collected v) \<and>
     list_all (quotable ls \<circ> fst) (ev_pending v) \<and> list_all (quotable ls \<circ> fst) (ev_flushed v)"

lemma quotes_flush [intro]: "quotes_only ls v \<Longrightarrow> quotes_only ls (flush_pending lo hi v)"
  by (auto simp: quotes_only_def flush_pending_def list_all_iff)

lemma quotes_clear [intro]: "quotes_only ls v \<Longrightarrow> quotes_only ls (clear_pending v)"
  by (auto simp: quotes_only_def clear_pending_def)

lemma quotes_merge [intro]: "quotes_only ls v \<Longrightarrow> quotes_only ls (merge_flushed s lo hi d v)"
  by (auto simp: quotes_only_def merge_flushed_def list_all_iff)

lemma quotes_hunk: "quotes_only ls v \<Longrightarrow> quotes_only ls (start_hunk s lo hi h v)"
  using quotes_merge [OF quotes_flush, of ls v s lo hi True lo hi]
  by (simp add: start_hunk_def quotes_only_def)

lemma quotes_minus:
  assumes "quotes_only ls v" "line \<in> set ls" "line \<noteq> []" "hd line = 45"
  shows "quotes_only ls (minus_line lo hi line v)"
proof -
  have q: "quotable ls (45 # drop 1 line)"
    using assms(2-4) by (auto simp: quotable_def) (metis drop0 drop_Suc list.collapse)
  have "quotes_only ls (clear_pending (flush_pending lo hi v))"
    using assms(1) by blast
  with assms(1) q show ?thesis
    by (simp add: minus_line_def Let_def quotes_only_def)
qed

lemma quotes_plus:
  assumes "quotes_only ls v" "line \<in> set ls" "line \<noteq> []" "hd line = 43"
  shows "quotes_only ls (plus_line lo hi line v)"
proof -
  have q: "quotable ls (drop 1 line)"
    using assms(2-4) by (auto simp: quotable_def drop_Suc)
  let ?v = "v\<lparr>ev_saw_plus := True, ev_new := ev_new v + 1\<rparr>"
  have "quotes_only ls ?v" using assms(1) by (simp add: quotes_only_def)
  then have "quotes_only ls (clear_pending (flush_pending lo hi ?v))" by blast
  with assms(1) q show ?thesis
    by (auto simp: plus_line_def Let_def quotes_only_def list_all_iff)
qed

lemma quotes_space:
  assumes "quotes_only ls v" "line \<in> set ls" "line \<noteq> []" "hd line = 32"
  shows "quotes_only ls (space_line lo hi line v)"
proof -
  have "quotable ls (drop 1 line)"
    using assms(2-4) by (auto simp: quotable_def drop_Suc)
  with assms(1) show ?thesis by (simp add: space_line_def Let_def quotes_only_def)
qed

lemma quotes_line:
  "quotes_only ls v \<Longrightarrow> line \<in> set ls \<Longrightarrow> quotes_only ls (evidence_line s lo hi line v)"
  by (auto simp: evidence_line_def quotes_hunk quotes_minus quotes_plus quotes_space
      split: option.splits)

lemma quotes_fold:
  "quotes_only all v \<Longrightarrow> set ls \<subseteq> set all \<Longrightarrow>
     quotes_only all (fold (evidence_line s lo hi) ls v)"
  by (induction ls arbitrary: v) (auto simp: quotes_line)

text \<open>C24. The evidence shown to the judge quotes the patch and nothing else: every collected
  line is an added or context line of the patch without its sign or a removed line with it, and
  the snippet is a prefix of these lines joined, at most the given number of bytes.\<close>

theorem evidence_quotes_patch:
  assumes "extract_evidence_from_patch patch start context mx = Some snippet"
    and "valid_str (py_join [10] (collect_evidence (py_splitlines patch) start context))"
  shows "list_all (quotable (py_splitlines patch)) (collect_evidence (py_splitlines patch) start context) \<and>
    prefix snippet (py_join [10] (collect_evidence (py_splitlines patch) start context)) \<and>
    byte_len snippet \<le> mx"
proof -
  let ?ls = "py_splitlines patch" and ?lo = "max 1 (start - context)" and ?hi = "start + context"
  have "quotes_only ?ls evidence_init" by (simp add: quotes_only_def evidence_init_def)
  then have "quotes_only ?ls (fold (evidence_line start ?lo ?hi) ?ls evidence_init)"
    by (rule quotes_fold) simp
  then have "quotes_only ?ls (merge_flushed start ?lo ?hi False
      (flush_pending ?lo ?hi (fold (evidence_line start ?lo ?hi) ?ls evidence_init)))"
    by blast
  then have "list_all (quotable ?ls) (collect_evidence ?ls start context)"
    by (simp add: collect_evidence_def Let_def quotes_only_def)
  moreover have "snippet = truncate_utf8 (py_join [10] (collect_evidence ?ls start context)) mx"
    using assms(1) by (auto simp: extract_evidence_from_patch_def Let_def split: if_splits)
  ultimately show ?thesis
    using truncate_utf8_is_prefix [OF assms(2)] truncate_utf8_bytes [OF assms(2)]
    by (simp add: byte_len_def)
qed

definition demo_patch :: pystr where
  "demo_patch = S ''@@ -1,2 +1,2 @@'' @ [10] @ S ''-a'' @ [10] @ S ''+b'' @ [10] @ S '' c''"

lemma demo_patch_lines:
  "py_splitlines demo_patch = [S ''@@ -1,2 +1,2 @@'', S ''-a'', S ''+b'', S '' c'']"
  by (simp add: demo_patch_def py_splitlines_def S_def is_line_break_def skip_lf_def)

lemmas evidence_eval =
  collect_evidence_def Let_def evidence_line_def hunk_header_def py_startswith_def skip_count_def
  is_digit_def digits_val_def start_hunk_def merge_flushed_def flush_pending_def minus_line_def
  plus_line_def space_line_def evidence_init_def clear_pending_def keep_orphan_def

lemma demo_evidence: "collect_evidence (py_splitlines demo_patch) 1 15 = [S ''-a'', S ''b'', S ''c'']"
  by (simp add: demo_patch_lines S_def evidence_eval)

theorem evidence_quotes_patch_witness:
  "list_all (quotable (py_splitlines demo_patch)) [S ''-a'', S ''b'', S ''c'']"
  using evidence_quotes_patch [of demo_patch 1 15 2048 "S ''-a'' @ [10] @ S ''b'' @ [10] @ S ''c''"]
  by (simp add: demo_evidence extract_evidence_from_patch_def Let_def truncate_utf8_id
      utf8_encode_def utf8_char_def S_def valid_str_def valid_cp_def)

subsection \<open>The region test against a reference\<close>

text \<open>The body of a hunk as edit operations, and the lines they are written as.\<close>

datatype edit = Keep pystr | Add pystr | Del pystr

fun edit_line :: "edit \<Rightarrow> pystr" where
  "edit_line (Keep s) = 32 # s"
| "edit_line (Add s) = 43 # s"
| "edit_line (Del s) = 45 # s"

text \<open>Contents for which the line is not mistaken for a file header.\<close>

fun plain_edit :: "edit \<Rightarrow> bool" where
  "plain_edit (Keep s) = True"
| "plain_edit (Add s) = (\<not> py_startswith s (S ''++''))"
| "plain_edit (Del s) = (\<not> py_startswith s (S ''--''))"

fun in_old :: "edit \<Rightarrow> bool" where
  "in_old (Add s) = False" | "in_old _ = True"

fun in_new :: "edit \<Rightarrow> bool" where
  "in_new (Del s) = False" | "in_new _ = True"

text \<open>The reference: an operation modifies its line of the side it is on, whose number is the
  number of lines of that side before it in the hunk.\<close>

definition edited_lines :: "int \<Rightarrow> int \<Rightarrow> edit list \<Rightarrow> int set" where
  "edited_lines a b es =
     {b + int (count_if in_new (take i es)) | i. i < length es \<and> (\<exists>s. es ! i = Add s)} \<union>
     {a + int (count_if in_old (take i es)) | i. i < length es \<and> (\<exists>s. es ! i = Del s)}"

lemma edited_lines_Cons:
  "edited_lines a b (e # es) =
     (case e of
        Keep s \<Rightarrow> edited_lines (a + 1) (b + 1) es
      | Add s \<Rightarrow> insert b (edited_lines a (b + 1) es)
      | Del s \<Rightarrow> insert a (edited_lines (a + 1) b es))"
proof -
  have sp: "{f i | i. i < length (e # es) \<and> P i} =
      (if P 0 then {f 0} else {}) \<union> {f (Suc i) | i. i < length es \<and> P (Suc i)}"
    for f :: "nat \<Rightarrow> int" and P
    by (auto simp: less_Suc_eq_0_disj)
  show ?thesis
    unfolding edited_lines_def sp
    by (cases e) (auto simp: count_if_def algebra_simps)
qed

lemma edit_not_hunk [simp]:
  "hunk_header (32 # s) = None" "hunk_header (43 # s) = None" "hunk_header (45 # s) = None"
  by (simp_all add: hunk_header_def py_startswith_def S_def)

lemma modified_lines_edits:
  "list_all plain_edit es \<Longrightarrow>
     set (modified_lines (a - 1) (b - 1) (map edit_line es)) = edited_lines a b es"
proof (induction es arbitrary: a b)
  case Nil
  then show ?case by (simp add: edited_lines_def)
next
  case (Cons e es)
  then have IH: "set (modified_lines (a - 1) (b - 1) (map edit_line es)) = edited_lines a b es" for a b
    by simp
  have s: "modified_lines a b (map edit_line es) = modified_lines ((a + 1) - 1) ((b + 1) - 1) (map edit_line es)"
    for a b by simp
  show ?case
    using Cons.prems IH [of "a + 1" b] IH [of a "b + 1"] IH [of "a + 1" "b + 1"]
    by (cases e) (auto simp: edited_lines_Cons py_startswith_def S_def)
qed

text \<open>A patch is a sequence of hunks, between whose lines GitHub puts lines that start with a backslash
  (\<open>No newline at end of file\<close>).\<close>

definition no_note :: "pystr \<Rightarrow> bool" where
  "no_note line \<longleftrightarrow> \<not> py_startswith line [92]"

definition hunk_lines :: "pystr \<times> edit list \<Rightarrow> pystr list" where
  "hunk_lines = (\<lambda>(h, es). h # map edit_line es)"

definition plain_hunk :: "pystr \<times> edit list \<Rightarrow> bool" where
  "plain_hunk = (\<lambda>(h, es). hunk_header h \<noteq> None \<and> list_all plain_edit es)"

definition hunk_edits :: "pystr \<times> edit list \<Rightarrow> int set" where
  "hunk_edits = (\<lambda>(h, es). case hunk_header h of None \<Rightarrow> {} | Some (a, b) \<Rightarrow> edited_lines a b es)"

fun is_edit :: "edit \<Rightarrow> bool" where
  "is_edit (Keep s) = False" | "is_edit _ = True"

lemma hunk_header_at: "hunk_header h = Some ab \<Longrightarrow> \<exists>r. h = 64 # r"
  by (auto simp: hunk_header_def py_startswith_def S_def take_Suc_conv_app_nth split: if_splits)
    (cases h; simp)+

lemma modified_lines_notes: "modified_lines a b ls = modified_lines a b (filter no_note ls)"
proof (induction ls arbitrary: a b)
  case (Cons l ls)
  show ?case
  proof (cases "hunk_header l")
    case None
    then show ?thesis using Cons.IH by (simp add: no_note_def)
  next
    case (Some ab)
    then have "no_note l" using hunk_header_at [OF Some] by (auto simp: no_note_def py_startswith_def)
    then show ?thesis using Some Cons.IH by (cases ab) simp
  qed
qed simp

text \<open>At a header the counting starts anew, wherever it was.\<close>

lemma modified_lines_append_hunk:
  "list_all plain_edit es \<Longrightarrow> hunk_header h = Some (c, d) \<Longrightarrow>
     set (modified_lines (a - 1) (b - 1) (map edit_line es @ h # ls)) =
       edited_lines a b es \<union> set (modified_lines (c - 1) (d - 1) ls)"
proof (induction es arbitrary: a b)
  case Nil
  then show ?case by (simp add: edited_lines_def)
next
  case (Cons e es)
  then have IH: "set (modified_lines (a - 1) (b - 1) (map edit_line es @ h # ls)) =
      edited_lines a b es \<union> set (modified_lines (c - 1) (d - 1) ls)" for a b
    by simp
  show ?case
    using Cons.prems IH [of "a + 1" b] IH [of a "b + 1"] IH [of "a + 1" "b + 1"]
    by (cases e) (auto simp: edited_lines_Cons py_startswith_def S_def)
qed

lemma modified_lines_hunks:
  "list_all plain_hunk hs \<Longrightarrow> set (modified_lines a b (concat (map hunk_lines hs))) = \<Union> (hunk_edits ` set hs)"
proof (induction hs arbitrary: a b)
  case (Cons x hs)
  obtain h es where x: "x = (h, es)" by fastforce
  obtain c d where h: "hunk_header h = Some (c, d)" "list_all plain_edit es"
    using Cons.prems by (auto simp: x plain_hunk_def)
  have IH: "set (modified_lines a b (concat (map hunk_lines hs))) = \<Union> (hunk_edits ` set hs)" for a b
    using Cons by simp
  have "set (modified_lines (c - 1) (d - 1) (map edit_line es @ concat (map hunk_lines hs))) =
      edited_lines c d es \<union> \<Union> (hunk_edits ` set hs)"
  proof (cases hs)
    case Nil
    then show ?thesis using modified_lines_edits [OF h(2), of c d] by simp
  next
    case (Cons y ys)
    obtain h' es' where y: "y = (h', es')" by fastforce
    obtain c' d' where h': "hunk_header h' = Some (c', d')"
      using \<open>list_all plain_hunk (x # hs)\<close> by (auto simp: Cons y plain_hunk_def)
    from modified_lines_append_hunk [OF h(2) h', of c d] IH [of 0 0] show ?thesis
      by (simp add: Cons y hunk_lines_def h')
  qed
  then show ?case by (simp add: x hunk_lines_def h hunk_edits_def)
qed simp

lemma changes_line_hunks:
  "list_all plain_hunk hs \<Longrightarrow> list_ex changes_line (concat (map hunk_lines hs)) \<longleftrightarrow> (\<exists>x\<in>set hs. list_ex is_edit (snd x))"
proof (induction hs)
  case (Cons x hs)
  obtain h es where x: "x = (h, es)" by fastforce
  obtain ab where h: "hunk_header h = Some ab" "list_all plain_edit es"
    using Cons.prems by (auto simp: x plain_hunk_def)
  have "\<not> changes_line h" using hunk_header_at [OF h(1)] by (auto simp: changes_line_def py_startswith_def S_def)
  moreover have "changes_line (edit_line e) \<longleftrightarrow> is_edit e" if "plain_edit e" for e
    using that by (cases e) (auto simp: changes_line_def py_startswith_def S_def)
  then have "list_ex changes_line (map edit_line es) \<longleftrightarrow> list_ex is_edit es"
    using h(2) by (induction es) auto
  ultimately show ?case using Cons by (simp add: x hunk_lines_def)
qed simp

lemma changes_line_notes: "list_ex changes_line ls \<longleftrightarrow> list_ex changes_line (filter no_note ls)"
proof -
  have "no_note l" if "changes_line l" for l
    using that by (cases l) (auto simp: changes_line_def no_note_def py_startswith_def S_def)
  then show ?thesis by (auto simp: list_ex_iff)
qed

text \<open>C28. The region test implements its specification on patches whose contents cannot
  be mistaken for file headers, of any number of hunks: with a start line, the patch touches the region exactly when
  some operation of some hunk adds a new line, or deletes an old line, whose number, counted from the header of its
  hunk, lies in the region; without one, exactly when some hunk adds or deletes a line.\<close>

theorem patch_touches_line_region_spec:
  assumes "filter no_note (py_splitlines patch) = concat (map hunk_lines hunks)"
    and "list_all plain_hunk hunks" and "py_strip patch \<noteq> []"
  shows "patch_touches_line_region patch start_line end_line \<longleftrightarrow>
    (case start_line of
       Some start \<Rightarrow> \<exists>x\<in>set hunks. \<exists>l\<in>hunk_edits x. start \<le> l \<and> l \<le> opt_or end_line start
     | None \<Rightarrow> \<exists>x\<in>set hunks. list_ex is_edit (snd x))"
proof (cases start_line)
  case None
  then show ?thesis
    using assms(3) changes_line_notes [of "py_splitlines patch"] changes_line_hunks [OF assms(2)]
    by (simp add: patch_touches_line_region_def assms(1))
next
  case (Some start)
  have "set (modified_lines 0 0 (py_splitlines patch)) = \<Union> (hunk_edits ` set hunks)"
    unfolding modified_lines_notes [of 0 0 "py_splitlines patch"] assms(1) by (rule modified_lines_hunks [OF assms(2)])
  then show ?thesis using assms(3) by (simp add: patch_touches_line_region_def Some list_ex_iff Let_def)
qed

definition demo_hunks :: "(pystr \<times> edit list) list" where
  "demo_hunks = [(S ''@@ -1,2 +1,2 @@'', [Del (S ''a''), Add (S ''b''), Keep (S ''c'')]), (S ''@@ -10 +10,2 @@'', [Keep (S ''x''), Add (S ''y'')])]"

definition demo_two_hunks :: pystr where
  "demo_two_hunks = py_join [10] (concat (map hunk_lines demo_hunks))"

theorem patch_touches_line_region_spec_witness:
  "patch_touches_line_region demo_two_hunks (Some 11) None \<and> \<not> patch_touches_line_region demo_two_hunks (Some 2) (Some 10) \<and>
   patch_touches_line_region demo_two_hunks None None"
proof -
  have p: "filter no_note (py_splitlines demo_two_hunks) = concat (map hunk_lines demo_hunks)" by code_simp
  have n: "py_strip demo_two_hunks \<noteq> []" "list_all plain_hunk demo_hunks" by code_simp+
  have h: "hunk_header (S ''@@ -1,2 +1,2 @@'') = Some (1, 1)" "hunk_header (S ''@@ -10 +10,2 @@'') = Some (10, 10)"
    by code_simp+
  have e: "edited_lines 1 1 [Del (S ''a''), Add (S ''b''), Keep (S ''c'')] = {1}"
    "edited_lines 10 10 [Keep (S ''x''), Add (S ''y'')] = {11}"
    by (simp_all add: edited_lines_Cons) (simp_all add: edited_lines_def)
  show ?thesis
    by (simp add: patch_touches_line_region_spec [OF p n(2,1)] demo_hunks_def hunk_edits_def h e)
qed

text \<open>A removed line whose content starts with two dashes (an SQL or Lua comment) is taken for
  a file header: the deletion of line 1 is not seen, and the removals after it are counted one
  line too low.\<close>

theorem region_test_misses_dash_comment:
  "let patch = S ''@@ -1,2 +0,0 @@'' @ [10] @ S ''--- note'' @ [10] @ S ''-x''
   in \<not> patch_touches_line_region patch (Some 2) None \<and>
      edited_lines 1 0 [Del (S ''-- note''), Del (S ''x'')] = {1, 2}"
proof -
  have "edited_lines 1 0 [Del (S ''-- note''), Del (S ''x'')] = {1, 2}"
    by (simp add: edited_lines_Cons) (simp add: edited_lines_def)
  moreover have "py_splitlines (S ''@@ -1,2 +0,0 @@'' @ [10] @ S ''--- note'' @ [10] @ S ''-x'') =
      [S ''@@ -1,2 +0,0 @@'', S ''--- note'', S ''-x'']"
    by (simp add: py_splitlines_def S_def is_line_break_def skip_lf_def)
  ultimately show ?thesis
    by (simp add: patch_touches_line_region_def Let_def)
       (simp add: S_def evidence_eval)
qed

end
