(* ===== verification/Compare.thy ===== *)
theory Compare
  imports Records Diff
begin

section \<open>Compare patches and path hygiene\<close>

text \<open>
  \<open>services/github_compare_patches.py\<close> and \<open>services/github_path_hygiene.py\<close>: what changed
  between two heads, and whether a file still exists at the head.  An API failure is an answer of
  its own here (\<open>cp_compare_failed\<close>, \<open>None\<close>), so that the passes over groups
  can keep a finding open instead of closing it on missing evidence.  A dict is an association
  list in insertion order; a frozenset of paths is a list.
\<close>

definition dict_of :: "('k \<times> 'v) list \<Rightarrow> ('k \<times> 'v) list" where
  "dict_of kvs = fold (\<lambda>kv d. AList.update (fst kv) (snd kv) d) kvs []"

lemma map_of_update: "map_of (AList.update k v d) = (map_of d)(k \<mapsto> v)"
  by (rule update_conv')

lemma map_of_dict_of_aux:
  "map_of (fold (\<lambda>kv d. AList.update (fst kv) (snd kv) d) kvs d) k =
     (case map_of (rev kvs) k of Some v \<Rightarrow> Some v | None \<Rightarrow> map_of d k)"
  by (induction kvs arbitrary: d) (auto simp: map_of_update map_add_def split: option.splits)

lemma map_of_dict_of: "map_of (dict_of kvs) k = map_of (rev kvs) k"
  by (simp add: dict_of_def map_of_dict_of_aux split: option.splits)

text \<open>\<open>full_name.split("/", 1)\<close> into owner and name; the unpacking raises without a slash.\<close>

definition split_full_name :: "pystr \<Rightarrow> exn + pystr \<times> pystr" where
  "split_full_name full =
     (case py_split1 (S ''/'') full of
        Some (owner, name) \<Rightarrow> Inr (owner, name)
      | None \<Rightarrow> Inl (Value_error (S ''not enough values to unpack (expected 2, got 1)'')))"

subsection \<open>Patches between two heads\<close>

record compare_patches =
  cp_patches_by_file :: "(pystr \<times> pystr) list"
  cp_compare_failed :: bool
  cp_removed_paths :: "pystr list"
  cp_deleted_paths :: "pystr list"
  cp_renamed_from_paths :: "pystr list"

definition no_patches :: "bool \<Rightarrow> compare_patches" where
  "no_patches failed = \<lparr>cp_patches_by_file = [], cp_compare_failed = failed, cp_removed_paths = [],
     cp_deleted_paths = [], cp_renamed_from_paths = []\<rparr>"

text \<open>\<open>except (httpx.HTTPError, OSError, NotFoundError, RateLimitedError, ServiceUnavailableError)\<close>.\<close>

fun is_compare_failure :: "exn \<Rightarrow> bool" where
  "is_compare_failure Os_error = True"
| "is_compare_failure e =
     (is_http_error e \<or> is_platform NotFoundError e \<or> is_platform RateLimitedError e \<or>
      is_platform ServiceUnavailableError e)"

definition patches_of :: "compare_file list \<Rightarrow> (pystr \<times> pystr) list" where
  "patches_of files = dict_of (patch_entries files)"

definition sha_missing :: "pystr option \<Rightarrow> bool" where
  "sha_missing sha = (opt_or sha [] = [])"

definition fetch_compare_patches ::
  "gh \<Rightarrow> session \<Rightarrow> pull_request \<Rightarrow> pystr option \<Rightarrow> pystr option \<Rightarrow> bool \<Rightarrow> exn + compare_patches" where
  "fetch_compare_patches gh s pr base head skip_same =
     (if sha_missing base \<or> sha_missing head then Inr (no_patches False)
      else if skip_same \<and> base = head then Inr (no_patches False)
      else case (get_repository s (pr_repository_id pr), get_installation s (pr_installation_id pr)) of
        (Some repo, Some inst) \<Rightarrow>
          rbind (split_full_name (repo_full_name repo)) (\<lambda>(owner, name).
            case compare_commits gh (inst_github_installation_id inst) owner name
                   (opt_or base []) (opt_or head []) of
              Inl e \<Rightarrow> if is_compare_failure e then Inr (no_patches True) else Inl e
            | Inr files \<Rightarrow> Inr \<lparr>
                cp_patches_by_file = patches_of files,
                cp_compare_failed = False,
                cp_removed_paths = dedupe (paths_to_remove files),
                cp_deleted_paths = dedupe (deleted_paths files),
                cp_renamed_from_paths = dedupe (renamed_from_paths files)\<rparr>)
      | _ \<Rightarrow> Inr (no_patches False))"

definition fetch_compare_patches_by_file ::
  "gh \<Rightarrow> session \<Rightarrow> pull_request \<Rightarrow> revision \<Rightarrow> exn + (pystr \<times> pystr) list" where
  "fetch_compare_patches_by_file gh s pr rv =
     rbind (fetch_compare_patches gh s pr (rev_base_sha rv) (Some (rev_head_sha rv)) False)
       (\<lambda>r. Inr (cp_patches_by_file r))"

record review_context =
  rc_patches_by_file :: "(pystr \<times> pystr) list"
  rc_changed_files :: "pystr list"
  rc_omitted_files :: "pystr list"
  rc_compare_failed :: bool
  rc_github_installation_id :: "int option"
  rc_owner :: "pystr option"
  rc_repo_name :: "pystr option"

definition no_context :: review_context where
  "no_context = \<lparr>rc_patches_by_file = [], rc_changed_files = [], rc_omitted_files = [],
     rc_compare_failed = False, rc_github_installation_id = None, rc_owner = None, rc_repo_name = None\<rparr>"

definition fetch_compare_review_context ::
  "gh \<Rightarrow> session \<Rightarrow> pull_request \<Rightarrow> revision \<Rightarrow> exn + review_context" where
  "fetch_compare_review_context gh s pr rv =
     (if sha_missing (rev_base_sha rv) \<or> rev_head_sha rv = [] then Inr no_context
      else case (get_repository s (pr_repository_id pr), get_installation s (pr_installation_id pr)) of
        (Some repo, Some inst) \<Rightarrow>
          rbind (split_full_name (repo_full_name repo)) (\<lambda>(owner, name).
            let ctx = no_context\<lparr>
                rc_github_installation_id := Some (inst_github_installation_id inst),
                rc_owner := Some owner, rc_repo_name := Some name\<rparr> in
            case compare_commits gh (inst_github_installation_id inst) owner name
                   (opt_or (rev_base_sha rv) []) (rev_head_sha rv) of
              Inl e \<Rightarrow> if is_compare_failure e then Inr (ctx\<lparr>rc_compare_failed := True\<rparr>) else Inl e
            | Inr files \<Rightarrow> Inr (ctx\<lparr>
                rc_patches_by_file := patches_of files,
                rc_changed_files := paths_to_index files,
                rc_omitted_files := snd (snd (build_unified_diff files None))\<rparr>))
      | _ \<Rightarrow> Inr no_context)"

subsection \<open>Path hygiene\<close>

text \<open>\<open>except (httpx.HTTPError, OSError, RateLimitedError, ServiceUnavailableError)\<close>.\<close>

fun is_contents_failure :: "exn \<Rightarrow> bool" where
  "is_contents_failure Os_error = True"
| "is_contents_failure e =
     (is_http_error e \<or> is_platform RateLimitedError e \<or> is_platform ServiceUnavailableError e)"

definition path_absent_at_head ::
  "gh \<Rightarrow> int \<Rightarrow> pystr \<Rightarrow> pystr \<Rightarrow> pystr \<Rightarrow> pystr \<Rightarrow> exn + bool option" where
  "path_absent_at_head gh inst owner repo path head =
     (case fetch_repository_file_at_sha gh inst owner repo path head of
        Inr content \<Rightarrow> Inr (Some False)
      | Inl e \<Rightarrow>
          if is_platform NotFoundError e then
            Inr (if exn_code e = S ''github_contents_not_found'' then Some True else None)
          else if is_contents_failure e then Inr None
          else Inl e)"

definition hygiene_path_gone :: "pystr \<Rightarrow> bool option \<Rightarrow> pystr list \<Rightarrow> bool option" where
  "hygiene_path_gone path absent renamed_from =
     (if path \<in> set renamed_from then Some False else absent)"

text \<open>The loop over the sorted paths; the head is asked only about paths the comparison did not
  settle.\<close>

fun check_paths ::
  "(pystr \<Rightarrow> exn + bool option) \<Rightarrow> pystr list \<Rightarrow> pystr list \<Rightarrow> pystr list
   \<Rightarrow> exn + (pystr \<times> bool option) list" where
  "check_paths ask renamed deleted [] = Inr []"
| "check_paths ask renamed deleted (p # ps) =
     rbind (if p \<in> set renamed then Inr (Some False)
            else if p \<in> set deleted then Inr (Some True)
            else ask p)
       (\<lambda>r. rbind (check_paths ask renamed deleted ps) (\<lambda>rs. Inr ((p, r) # rs)))"

definition paths_absent_at_head ::
  "gh \<Rightarrow> session \<Rightarrow> pull_request \<Rightarrow> pystr \<Rightarrow> pystr list \<Rightarrow> pystr list option \<Rightarrow> pystr list option
   \<Rightarrow> exn + (pystr \<times> bool option) list" where
  "paths_absent_at_head gh s pr head paths deleted renamed =
     (let unknown = map (\<lambda>p. (p, None)) (dedupe paths) in
      if paths = [] \<or> head = [] then Inr []
      else case (get_repository s (pr_repository_id pr), get_installation s (pr_installation_id pr)) of
        (Some repo, Some inst) \<Rightarrow>
          (case py_split1 (S ''/'') (repo_full_name repo) of
             None \<Rightarrow> Inr unknown
           | Some (owner, name) \<Rightarrow>
               if owner = [] \<or> name = [] then Inr unknown
               else check_paths
                 (\<lambda>p. path_absent_at_head gh (inst_github_installation_id inst) owner name p head)
                 (opt_or renamed []) (opt_or deleted []) (sort (dedupe paths)))
      | _ \<Rightarrow> Inr unknown)"

subsection \<open>Properties\<close>

lemma check_paths_keys:
  "check_paths ask renamed deleted ps = Inr rs \<Longrightarrow> map fst rs = ps"
  by (induction ps arbitrary: rs) (auto simp: rbind_eq_Inr)

lemma check_paths_lookup:
  "check_paths ask renamed deleted ps = Inr rs \<Longrightarrow> map_of rs p = Some a \<Longrightarrow>
     (if p \<in> set renamed then a = Some False
      else if p \<in> set deleted then a = Some True
      else ask p = Inr a)"
  by (induction ps arbitrary: rs) (auto simp: rbind_eq_Inr split: if_splits)

lemma path_absent_cases:
  "path_absent_at_head gh inst owner repo path head = Inr (Some True) \<Longrightarrow>
     fetch_repository_file_at_sha gh inst owner repo path head =
       Inl (Platform NotFoundError (exn_message (contents_http_error 404)) (S ''github_contents_not_found'')) \<or>
     (\<exists>m. fetch_repository_file_at_sha gh inst owner repo path head =
       Inl (Platform NotFoundError m (S ''github_contents_not_found'')))"
  by (cases "fetch_repository_file_at_sha gh inst owner repo path head")
     (auto simp: path_absent_at_head_def split: if_splits elim: is_platform.elims)

text \<open>GitHub answered 404 for the file at the head, in the repository of the pull request and as its
  installation.\<close>

definition file_missing :: "gh \<Rightarrow> session \<Rightarrow> pull_request \<Rightarrow> pystr \<Rightarrow> pystr \<Rightarrow> bool" where
  "file_missing gh s pr head path \<longleftrightarrow>
     (\<exists>repo inst owner name m. get_repository s (pr_repository_id pr) = Some repo \<and>
        get_installation s (pr_installation_id pr) = Some inst \<and>
        py_split1 (S ''/'') (repo_full_name repo) = Some (owner, name) \<and>
        fetch_repository_file_at_sha gh (inst_github_installation_id inst) owner name path head =
          Inl (Platform NotFoundError m (S ''github_contents_not_found'')))"

lemma path_gone_only_on_evidence_aux:
  assumes "paths_absent_at_head gh s pr head paths deleted renamed = Inr rs"
    and "map_of rs p = Some (Some True)"
  shows "p \<in> set paths \<and> p \<notin> set (opt_or renamed []) \<and>
    (p \<in> set (opt_or deleted []) \<or> file_missing gh s pr head p)"
proof -
  have m: "map_of (map (\<lambda>p. (p, None)) xs) p \<noteq> Some (Some True)" for xs
    by (induction xs) auto
  obtain repo inst owner name where
    r: "get_repository s (pr_repository_id pr) = Some repo" "get_installation s (pr_installation_id pr) = Some inst"
      "py_split1 (S ''/'') (repo_full_name repo) = Some (owner, name)" and
    c: "check_paths (\<lambda>p. path_absent_at_head gh (inst_github_installation_id inst) owner name p head)
          (opt_or renamed []) (opt_or deleted []) (sort (dedupe paths)) = Inr rs"
    using assms m that
    by (auto simp: paths_absent_at_head_def Let_def split: if_splits option.splits)
  have "p \<in> fst ` set rs" using assms(2) by (force dest: map_of_SomeD)
  then have p: "p \<in> set paths"
    using check_paths_keys [OF c] by (metis set_dedupe set_map set_sort)
  have "file_missing gh s pr head p"
    if "path_absent_at_head gh (inst_github_installation_id inst) owner name p head = Inr (Some True)"
    using path_absent_cases [OF that] r unfolding file_missing_def by blast
  with p check_paths_lookup [OF c assms(2)] show ?thesis by (auto split: if_splits)
qed

text \<open>A path is reported gone only on evidence: the answer covers exactly the asked paths, a
  path the comparison renamed away is never gone, and one reported gone was either deleted by
  the comparison or answered with a 404 by the contents API at the head; any other failure of the API
  gives \<open>None\<close>, not an answer.\<close>

theorem path_gone_only_on_evidence:
  assumes "paths_absent_at_head gh s pr head paths deleted renamed = Inr rs"
    and "map_of rs p = Some (Some True)"
  shows "p \<in> set paths \<and> p \<notin> set (opt_or renamed []) \<and>
    (p \<in> set (opt_or deleted []) \<or> file_missing gh s pr head p)"
  using assms by (rule path_gone_only_on_evidence_aux)

definition demo_repository :: repository where
  "demo_repository = \<lparr>repo_id = 5, repo_installation_id = 6, repo_workspace_id = 3, repo_github_repository_id = 70, repo_name = S ''r'', repo_full_name = S ''o/r'',
     repo_default_branch = None, repo_private = False, repo_html_url = None, repo_status = Repo_active\<rparr>"

definition demo_installation :: installation where
  "demo_installation = \<lparr>inst_id = 6, inst_workspace_id = 3, inst_github_installation_id = 9,
     inst_account_login = S ''o'', inst_account_type = Account_user,
     inst_account_id = 8, inst_status = Inst_active, inst_permissions_snapshot = None, inst_verified_at = None\<rparr>"

definition demo_github_session :: session where
  "demo_github_session = demo_session\<lparr>ss_repositories := [demo_repository],
     ss_installations := [demo_installation]\<rparr>"

text \<open>A server on which no file exists, and one that is down.\<close>

definition gh_404 :: gh where
  "gh_404 = (\<lambda>inst url ref. Inr \<lparr>hr_status = 404, hr_body = None\<rparr>)"

definition gh_down :: gh where
  "gh_down = (\<lambda>inst url ref. Inl (Http_transport []))"

lemmas demo_github_eval =
  demo_github_session_def demo_repository_def demo_installation_def demo_defs session_gets
  tbl_get_def gh_404_def gh_down_def get_json_def is_success_def

theorem path_gone_only_on_evidence_witness:
  "paths_absent_at_head gh_404 demo_github_session demo_pull_request (S ''bb'') [S ''a.py''] None None
     = Inr [(S ''a.py'', Some True)] \<and>
   S ''a.py'' \<notin> set (opt_or None [])"
proof -
  have sp: "py_split1 (S ''/'') (S ''o/r'') = Some (S ''o'', S ''r'')"
    by (simp add: py_split1_def S_def py_find.simps py_startswith_def)
  have "paths_absent_at_head gh_404 demo_github_session demo_pull_request (S ''bb'') [S ''a.py''] None None
     = Inr [(S ''a.py'', Some True)]"
    using sp
    by (simp add: paths_absent_at_head_def demo_github_eval path_absent_at_head_def Let_def
        fetch_repository_file_at_sha_def contents_http_error_def raise_platform_def)
       (simp add: S_def)
  with path_gone_only_on_evidence [OF this, of "S ''a.py''"] show ?thesis by simp
qed

text \<open>When the API is down nothing is known and nothing is lost: a comparison that raises one
  of the handled errors gives an empty result marked as failed, and every path that the
  comparison did not settle is unknown.\<close>

theorem api_failure_is_unknown:
  assumes "compare_commits gh (inst_github_installation_id inst) owner name (opt_or base []) (opt_or head []) = Inl e"
    and "is_compare_failure e" and "\<not> sha_missing base" and "\<not> sha_missing head"
    and "\<not> (skip_same \<and> base = head)"
    and "get_repository s (pr_repository_id pr) = Some repo"
    and "get_installation s (pr_installation_id pr) = Some inst"
    and "py_split1 (S ''/'') (repo_full_name repo) = Some (owner, name)"
    and "fetch_repository_file_at_sha gh (inst_github_installation_id inst) owner name p h = Inl e'"
    and "is_contents_failure e'"
  shows "fetch_compare_patches gh s pr base head skip_same = Inr (no_patches True) \<and>
    path_absent_at_head gh (inst_github_installation_id inst) owner name p h = Inr None"
proof -
  have "\<not> is_platform NotFoundError e'"
    using assms(10) by (cases e') auto
  with assms show ?thesis
    by (auto simp: fetch_compare_patches_def split_full_name_def path_absent_at_head_def)
qed

theorem api_failure_is_unknown_witness:
  "fetch_compare_patches gh_down demo_github_session demo_pull_request (Some (S ''aa'')) (Some (S ''bb'')) True
     = Inr (no_patches True)"
proof -
  have sp: "py_split1 (S ''/'') (S ''o/r'') = Some (S ''o'', S ''r'')"
    by (simp add: py_split1_def S_def py_find.simps py_startswith_def)
  have "fetch_compare_patches gh_down demo_github_session demo_pull_request (Some (S ''aa'')) (Some (S ''bb'')) True
     = Inr (no_patches True) \<and>
     path_absent_at_head gh_down (inst_github_installation_id demo_installation) (S ''o'') (S ''r'') (S ''x'') (S ''bb'')
     = Inr None"
    by (rule api_failure_is_unknown [where e = "Http_transport []" and e' = "Http_transport []"
          and repo = demo_repository])
       (simp_all add: demo_github_eval compare_commits_def fetch_repository_file_at_sha_def
          sha_missing_def sp S_def sp [unfolded S_def, simplified])
  then show ?thesis by simp
qed

text \<open>A file that exists but is not UTF-8 text escapes the hygiene check: the decoding error is
  not among those handled, so checking one binary file raises out of the whole pass.\<close>

theorem binary_file_escapes_hygiene:
  assumes "utf8_decode bs = None" and "list_all (\<lambda>b. b < 256) bs"
    and "get_repository s (pr_repository_id pr) = Some repo"
    and "get_installation s (pr_installation_id pr) = Some inst"
    and "py_split1 (S ''/'') (repo_full_name repo) = Some (owner, name)" and "owner \<noteq> []" and "name \<noteq> []"
    and "head \<noteq> []" and "p \<notin> set (opt_or deleted [])" and "p \<notin> set (opt_or renamed [])"
  shows "paths_absent_at_head (gh_serves bs) s pr head [p] deleted renamed = Inl Unicode_decode_error"
  using assms fetch_serves [OF assms(2)]
  by (simp add: paths_absent_at_head_def path_absent_at_head_def py_decode_def)

theorem binary_file_escapes_hygiene_witness:
  "paths_absent_at_head (gh_serves [255]) demo_github_session demo_pull_request (S ''bb'') [S ''logo.png''] None None
     = Inl Unicode_decode_error"
proof -
  have sp: "py_split1 (S ''/'') (S ''o/r'') = Some (S ''o'', S ''r'')"
    by (simp add: py_split1_def S_def py_find.simps py_startswith_def)
  show ?thesis
    by (rule binary_file_escapes_hygiene [where repo = demo_repository and inst = demo_installation
          and owner = "S ''o''" and name = "S ''r''"])
       (simp_all add: demo_github_eval sp utf8_decode.simps utf8_step.simps, simp_all add: S_def)
qed

end
