(* ===== verification/Resolution_Metrics.thy ===== *)
theory Resolution_Metrics
  imports Closure_Rules Compare "HOL-Library.Product_Lexorder"
begin

section \<open>Resolution metrics (\<open>services/github_resolution_metrics.py\<close>)\<close>

text \<open>
  On a push, the groups of the pull request are stamped with what the push did to them
  (\<open>apply_resolution_status_for_synchronize\<close>): the cohort reported up to the last published
  revision by the patch of its lines, every active group with a path by the existence of its
  file at the new head.  After reconciliation the transitions are counted
  (\<open>build_resolution_pass_manifest\<close>).  The two loops of the stamping write each group's own
  attributes only, so the model stamps group by group; an exception rolls the transaction back and
  is the left result.  Rows that tie in an \<open>ORDER BY\<close> keep the table's order.
\<close>

subsection \<open>Published revisions\<close>

text \<open>The join of review runs and completed publish jobs.\<close>

definition revision_published :: "session \<Rightarrow> uuid \<Rightarrow> bool" where
  "revision_published s rid \<longleftrightarrow>
     list_ex (\<lambda>r. rr_revision_id r = rid \<and>
        list_ex (\<lambda>j. pj_review_run_id j = rr_id r \<and> pj_status j = PJ_completed) (ss_publish_jobs s))
       (ss_review_runs s)"

definition get_last_published_prior_revision :: "session \<Rightarrow> uuid \<Rightarrow> revision \<Rightarrow> revision option" where
  "get_last_published_prior_revision s pr cur =
     (case sort_key (\<lambda>r. - rev_number r) (filter (\<lambda>r. rev_pull_request_id r = pr \<and>
             rev_number r < rev_number cur \<and> revision_published s (rev_id r)) (ss_revisions s)) of
        [] \<Rightarrow> None
      | r # _ \<Rightarrow> Some r)"

definition published_revisions_for_pull_request :: "session \<Rightarrow> uuid \<Rightarrow> revision list" where
  "published_revisions_for_pull_request s pr =
     sort_key rev_number (filter (\<lambda>r. rev_pull_request_id r = pr \<and> revision_published s (rev_id r))
       (ss_revisions s))"

definition get_intermediate_revision_ids_between ::
  "session \<Rightarrow> uuid \<Rightarrow> revision \<Rightarrow> revision \<Rightarrow> uuid list" where
  "get_intermediate_revision_ids_between s pr prior cur =
     (if rev_number cur \<le> rev_number prior + 1 then []
      else map rev_id (filter (\<lambda>r. rev_pull_request_id r = pr \<and>
             rev_number prior < rev_number r \<and> rev_number r < rev_number cur) (ss_revisions s)))"

definition prior_publish_pairing_revision_ids :: "revision \<Rightarrow> uuid list \<Rightarrow> uuid list" where
  "prior_publish_pairing_revision_ids prior intermediate = rev_id prior # intermediate"

text \<open>R3.3: a last-seen revision that was never published counts as the nearest published one
  before it.\<close>

definition resolve_pairing_last_seen :: "session \<Rightarrow> uuid \<Rightarrow> uuid \<Rightarrow> uuid" where
  "resolve_pairing_last_seen s pr last_seen =
     (case get_revision s last_seen of
        None \<Rightarrow> last_seen
      | Some target \<Rightarrow>
          if rev_pull_request_id target \<noteq> pr then last_seen
          else if revision_published s last_seen then last_seen
          else case List.find (\<lambda>p. rev_number p < rev_number target)
                 (rev (published_revisions_for_pull_request s pr)) of
            Some p \<Rightarrow> rev_id p
          | None \<Rightarrow> last_seen)"

text \<open>\<open>_latest_finding_lines_by_group_ids\<close>, read at one group with the default of its use.\<close>

definition latest_finding_lines :: "session \<Rightarrow> uuid \<Rightarrow> int option \<times> int option" where
  "latest_finding_lines s gid =
     (case sort_key (\<lambda>f. - fi_created_at f) (filter (\<lambda>f. fi_group_id f = Some gid) (ss_findings s)) of
        [] \<Rightarrow> (None, None)
      | f # _ \<Rightarrow> (fi_start_line f, fi_end_line f))"

subsection \<open>Which findings a publish job showed\<close>

text \<open>\<open>deserialize_inline_thread_map\<close> of \<open>github_publish.py\<close>: a bool is an int in Python.\<close>

fun thread_comment_id :: "json \<Rightarrow> int option" where
  "thread_comment_id (JInt i) = Some i"
| "thread_comment_id (JBool b) = Some (of_bool b)"
| "thread_comment_id (JObj ms) =
     (case json_get (S ''comment_id'') ms of
        Some (JInt i) \<Rightarrow> Some i
      | Some (JBool b) \<Rightarrow> Some (of_bool b)
      | _ \<Rightarrow> None)"
| "thread_comment_id _ = None"

definition deserialize_inline_thread_map :: "json option \<Rightarrow> (pystr \<times> int) list" where
  "deserialize_inline_thread_map raw =
     (case raw of
        Some (JObj ms) \<Rightarrow> concat (map (\<lambda>m. case thread_comment_id (snd m) of
            Some c \<Rightarrow> [(fst m, c)] | None \<Rightarrow> []) ms)
      | _ \<Rightarrow> [])"

definition fingerprints_from_publish_summary :: "json option \<Rightarrow> pystr list" where
  "fingerprints_from_publish_summary summary =
     (case summary of
        Some (JObj ms) \<Rightarrow> map fst (deserialize_inline_thread_map (json_get (S ''github_inline_threads'') ms))
      | _ \<Rightarrow> [])"

text \<open>The group keys of a run's findings (the join keeps findings whose group exists).\<close>

definition fingerprints_of_run :: "session \<Rightarrow> uuid \<Rightarrow> pystr list" where
  "fingerprints_of_run s run_id =
     concat (map (\<lambda>f. case fi_group_id f of
          Some g \<Rightarrow> if get_group s g \<noteq> None then [uuid_str g] else []
        | None \<Rightarrow> [])
       (filter (\<lambda>f. fi_review_run_id f = run_id) (ss_findings s)))"

text \<open>The joined rows (summary, run, revision), by revision number and creation time.\<close>

definition published_rows :: "session \<Rightarrow> uuid \<Rightarrow> revision \<Rightarrow> (publish_job \<times> review_run \<times> revision) list" where
  "published_rows s pr cur =
     sort_key (\<lambda>(j, r, v). (rev_number v, pj_created_at j))
       (concat (map (\<lambda>j. concat (map (\<lambda>r. map (\<lambda>v. (j, r, v))
            (filter (\<lambda>v. rev_id v = rr_revision_id r \<and> rev_pull_request_id v = pr \<and>
                         rev_number v \<le> rev_number cur) (ss_revisions s)))
          (filter (\<lambda>r. rr_id r = pj_review_run_id j) (ss_review_runs s))))
        (filter (\<lambda>j. pj_status j = PJ_completed) (ss_publish_jobs s))))"

definition get_fingerprint_published_revision_ids ::
  "session \<Rightarrow> uuid \<Rightarrow> revision \<Rightarrow> (pystr \<times> uuid) list" where
  "get_fingerprint_published_revision_ids s pr cur =
     dict_of (concat (map (\<lambda>(j, r, v).
        map (\<lambda>fp. (fp, rr_revision_id r))
          (fingerprints_from_publish_summary (pj_summary_json j) @
           fingerprints_of_run s (pj_review_run_id j)))
       (published_rows s pr cur)))"

subsection \<open>The cohort of a push\<close>

definition group_in_synchronize_cohort ::
  "finding_group \<Rightarrow> uuid list \<Rightarrow> uuid \<Rightarrow> uuid option \<Rightarrow> int \<Rightarrow> (uuid \<times> int) list \<Rightarrow> bool" where
  "group_in_synchronize_cohort g pairing effective published current numbers =
     (if effective \<in> set pairing then True
      else if fg_last_seen_revision_id g \<in> set pairing then True
      else case published of
        None \<Rightarrow> False
      | Some rid \<Rightarrow> (case map_of numbers rid of None \<Rightarrow> False | Some n \<Rightarrow> n \<le> current))"

definition in_cohort_of ::
  "session \<Rightarrow> uuid \<Rightarrow> revision \<Rightarrow> uuid list \<Rightarrow> (pystr \<times> uuid) list \<Rightarrow> (uuid \<times> int) list \<Rightarrow>
   finding_group \<Rightarrow> bool" where
  "in_cohort_of s pr cur pairing published numbers g =
     (let effective = (if fg_last_seen_revision_id g \<in> set pairing then fg_last_seen_revision_id g
                       else resolve_pairing_last_seen s pr (fg_last_seen_revision_id g));
          shown = (case map_of published (uuid_str (fg_id g)) of
                     Some rid \<Rightarrow> Some rid
                   | None \<Rightarrow> map_of published (fg_fingerprint g))
      in group_in_synchronize_cohort g pairing effective shown (rev_number cur) numbers)"

definition published_revision_numbers ::
  "session \<Rightarrow> revision \<Rightarrow> revision \<Rightarrow> (pystr \<times> uuid) list \<Rightarrow> (uuid \<times> int) list" where
  "published_revision_numbers s cur prior published =
     (let base = dict_of [(rev_id cur, rev_number cur), (rev_id prior, rev_number prior)];
          extra = filter (\<lambda>rid. map_of base rid = None) (map snd published)
      in dict_of (base @ map (\<lambda>r. (rev_id r, rev_number r))
           (filter (\<lambda>r. rev_id r \<in> set extra) (ss_revisions s))))"

subsection \<open>Stamping one group\<close>

definition resolve_group_resolution_status ::
  "finding_group \<Rightarrow> (pystr \<times> pystr) list \<Rightarrow> pystr list \<Rightarrow> int option \<Rightarrow> int option \<Rightarrow> resolution_status" where
  "resolve_group_resolution_status g patches deleted start_line end_line =
     (if fg_state g = Grp_resolved then RS_judge_dismissed
      else
        let path = opt_or (fg_file_path g) [] in
        if path = [] then RS_still_open
        else if path \<in> set deleted then RS_addressed
        else case map_of patches path of
          None \<Rightarrow> RS_still_open
        | Some patch \<Rightarrow>
            if patch_touches_line_region patch start_line end_line then RS_addressed
            else RS_still_open)"

definition stamp_cohort_group ::
  "compare_patches \<Rightarrow> int option \<times> int option \<Rightarrow> finding_group \<Rightarrow> finding_group" where
  "stamp_cohort_group cp ls g =
     (if cp_compare_failed cp then
        g\<lparr>fg_closure_blocked_reason := Some COMPARE_FAILED_REASON,
          fg_resolution_status := Some RS_still_open\<rparr>
      else
        g\<lparr>fg_closure_blocked_reason := None,
          fg_resolution_status := Some (resolve_group_resolution_status g
            (cp_patches_by_file cp) (cp_deleted_paths cp) (fst ls) (snd ls))\<rparr>)"

text \<open>Pass 1b on an active group with a path; the flag tells whether the update is counted.\<close>

definition stamp_active_group ::
  "compare_patches \<Rightarrow> bool option \<Rightarrow> pystr \<Rightarrow> finding_group \<Rightarrow> finding_group \<times> bool" where
  "stamp_active_group cp absent path g =
     (if cp_compare_failed cp then
        if fg_resolution_status g = Some RS_addressed then (g, False)
        else case absent of
          None \<Rightarrow>
            if fg_closure_blocked_reason g \<noteq> Some COMPARE_FAILED_REASON then
              (g\<lparr>fg_closure_blocked_reason := Some HEAD_CHECK_FAILED_REASON,
                 fg_resolution_status := Some RS_still_open\<rparr>, True)
            else (g, False)
        | Some True \<Rightarrow>
            if fg_closure_blocked_reason g \<noteq> Some COMPARE_FAILED_REASON then
              (g\<lparr>fg_closure_blocked_reason := Some COMPARE_FAILED_REASON,
                 fg_resolution_status := Some RS_still_open\<rparr>, True)
            else (g, False)
        | Some False \<Rightarrow>
            if fg_closure_blocked_reason g = Some HEAD_CHECK_FAILED_REASON then
              (g\<lparr>fg_closure_blocked_reason := None\<rparr>, False)
            else (g, False)
      else case hygiene_path_gone path absent (cp_renamed_from_paths cp) of
        None \<Rightarrow>
          if fg_resolution_status g \<noteq> Some RS_addressed then
            (g\<lparr>fg_closure_blocked_reason := Some HEAD_CHECK_FAILED_REASON,
               fg_resolution_status := Some RS_still_open\<rparr>, True)
          else (g, False)
      | Some False \<Rightarrow>
          if fg_closure_blocked_reason g \<noteq> None then
            (g\<lparr>fg_closure_blocked_reason := None\<rparr>, True)
          else (g, False)
      | Some True \<Rightarrow>
          (g\<lparr>fg_closure_blocked_reason := None, fg_resolution_status := Some RS_addressed\<rparr>, True))"

definition is_active_with_path :: "finding_group \<Rightarrow> bool" where
  "is_active_with_path g \<longleftrightarrow> fg_state g = Grp_active \<and> opt_or (fg_file_path g) [] \<noteq> []"

definition stamp_group ::
  "compare_patches \<Rightarrow> (pystr \<times> bool option) list \<Rightarrow> (finding_group \<Rightarrow> bool) \<Rightarrow>
   (uuid \<Rightarrow> int option \<times> int option) \<Rightarrow> finding_group \<Rightarrow> finding_group \<times> bool" where
  "stamp_group cp absent_by_path cohort lines_of g0 =
     (let g1 = g0\<lparr>fg_resolution_status := None\<rparr>;
          c = cohort g1;
          g2 = (if c then stamp_cohort_group cp (lines_of (fg_id g1)) g1 else g1);
          path = opt_or (fg_file_path g2) []
      in if is_active_with_path g2 then
           let (g3, counted) = stamp_active_group cp
                 (opt_or (map_of absent_by_path path) None) path g2
           in (g3, c \<or> counted)
         else (g2, c))"

definition is_stale :: "uuid \<Rightarrow> finding_group \<Rightarrow> bool" where
  "is_stale pr g \<longleftrightarrow> fg_pull_request_id g = pr \<and> fg_state g \<noteq> Grp_superseded"

definition apply_resolution_status_for_synchronize ::
  "gh \<Rightarrow> session \<Rightarrow> pull_request \<Rightarrow> revision \<Rightarrow> exn + session \<times> nat" where
  "apply_resolution_status_for_synchronize gh s pr cur =
     (case get_last_published_prior_revision s (pr_id pr) cur of
        None \<Rightarrow> Inr (s, 0)
      | Some prior \<Rightarrow>
          let intermediate = get_intermediate_revision_ids_between s (pr_id pr) prior cur;
              pairing = prior_publish_pairing_revision_ids prior intermediate;
              stale = filter (is_stale (pr_id pr)) (ss_groups s);
              published = get_fingerprint_published_revision_ids s (pr_id pr) cur;
              numbers = published_revision_numbers s cur prior published;
              cohort = in_cohort_of s (pr_id pr) cur pairing published numbers;
              paths = dedupe (map (\<lambda>g. opt_or (fg_file_path g) []) (filter is_active_with_path stale))
          in rbind (fetch_compare_patches gh s pr (Some (rev_head_sha prior)) (Some (rev_head_sha cur)) True)
             (\<lambda>cp. rbind (paths_absent_at_head gh s pr (rev_head_sha cur) paths
                  (if cp_compare_failed cp then None else Some (cp_deleted_paths cp))
                  (if cp_compare_failed cp then None else Some (cp_renamed_from_paths cp)))
             (\<lambda>absent.
                let stamp = stamp_group cp absent cohort (latest_finding_lines s)
                in Inr (s\<lparr>ss_groups := tbl_map (is_stale (pr_id pr)) (fst \<circ> stamp) (ss_groups s)\<rparr>,
                        count_if (snd \<circ> stamp) stale))))"

subsection \<open>Python's float division and rounding\<close>

text \<open>\<open>round(100.0 * n / d, 1)\<close> for counts: the quotient correctly rounded to 53 bits, ties to
  even, then that double correctly rounded to tenths, ties to even.  The result is in tenths.
  (Below \<open>2 ^ 52\<close> the scaling leaves 53 significant bits.)\<close>

definition round_half_even :: "nat \<Rightarrow> nat \<Rightarrow> nat" where
  "round_half_even n d =
     (let q = n div d; r = n mod d in
      if 2 * r < d then q else if d < 2 * r then q + 1 else if even q then q else q + 1)"

definition MANTISSA_MIN :: nat where
  "MANTISSA_MIN = 2 ^ 52"

function scale_up :: "nat \<Rightarrow> nat \<Rightarrow> nat \<times> nat" where
  "scale_up a b =
     (if a = 0 \<or> MANTISSA_MIN * b \<le> a then (a, 0)
      else let (x, k) = scale_up (2 * a) b in (x, Suc k))"
  by pat_completeness auto

termination
  by (relation "measure (\<lambda>(a, b). MANTISSA_MIN * b - a)") (auto simp: not_le)

declare scale_up.simps [simp del]

definition double_div :: "nat \<Rightarrow> nat \<Rightarrow> nat \<times> nat" where
  "double_div a b = (let (x, k) = scale_up a b in (round_half_even x b, k))"

definition pct_tenths :: "nat \<Rightarrow> nat \<Rightarrow> nat" where
  "pct_tenths n d = (let (m, k) = double_div (100 * n) d in round_half_even (10 * m) (2 ^ k))"

lemma round_half_even_le: "n \<le> c * d \<Longrightarrow> round_half_even n d \<le> c"
proof (cases "d = 0")
  case True
  then show "n \<le> c * d \<Longrightarrow> round_half_even n d \<le> c" by (simp add: round_half_even_def)
next
  case False
  assume n: "n \<le> c * d"
  then have q: "n div d \<le> c"
    using False by (metis div_le_mono nonzero_mult_div_cancel_right)
  show ?thesis
  proof (cases "n div d = c")
    case True
    have "n = c * d + n mod d" using True div_mult_mod_eq [of n d] by simp
    with n have "n mod d = 0" by linarith
    with True False show ?thesis by (simp add: round_half_even_def Let_def)
  next
    case False
    with q show ?thesis by (auto simp: round_half_even_def Let_def)
  qed
qed

lemma scale_up_exact: "scale_up a b = (x, k) \<Longrightarrow> x = a * 2 ^ k"
proof (induction a b arbitrary: x k rule: scale_up.induct)
  case (1 a b)
  show ?case
  proof (cases "a = 0 \<or> MANTISSA_MIN * b \<le> a")
    case True
    with "1.prems" show ?thesis by (subst (asm) scale_up.simps) auto
  next
    case False
    obtain y j where r: "scale_up (2 * a) b = (y, j)" by fastforce
    from "1.prems" False r have "x = y" "k = Suc j"
      by (subst (asm) scale_up.simps, simp)+
    with "1.IH" [OF False r] show ?thesis by simp
  qed
qed

lemma pct_tenths_le: "n \<le> d \<Longrightarrow> pct_tenths n d \<le> 1000"
proof -
  assume n: "n \<le> d"
  obtain x k where s: "scale_up (100 * n) d = (x, k)" by fastforce
  have "x \<le> (100 * 2 ^ k) * d" using scale_up_exact [OF s] n by simp
  then have "round_half_even x d \<le> 100 * 2 ^ k" by (rule round_half_even_le)
  then have "round_half_even (10 * round_half_even x d) (2 ^ k) \<le> 1000"
    by (intro round_half_even_le) simp
  then show ?thesis by (simp add: pct_tenths_def double_div_def s)
qed

text \<open>\<open>f"{pct}%"\<close>: the shortest decimal of a float that is a number of tenths.\<close>

definition show_tenths :: "nat \<Rightarrow> pystr" where
  "show_tenths t = nat_digits (t div 10) @ S ''.'' @ nat_digits (t mod 10)"

subsection \<open>The resolution manifest\<close>

definition is_pre_sync_resolved :: "uuid \<Rightarrow> finding_group \<Rightarrow> bool" where
  "is_pre_sync_resolved cur g \<longleftrightarrow>
     fg_state g = Grp_resolved \<and> fg_resolved_at_revision_id g \<noteq> None \<and>
     fg_resolved_at_revision_id g \<noteq> Some cur"

definition in_sync_stamp_cohort :: "uuid list \<Rightarrow> uuid \<Rightarrow> finding_group \<Rightarrow> bool" where
  "in_sync_stamp_cohort prior cur g =
     (if fg_last_seen_revision_id g \<in> set prior then True
      else if fg_resolved_at_revision_id g = Some cur then True
      else fg_last_seen_revision_id g = cur \<and> fg_resolution_status g \<noteq> None)"

definition is_hygiene_path_removed_closure :: "uuid list \<Rightarrow> uuid \<Rightarrow> finding_group \<Rightarrow> bool" where
  "is_hygiene_path_removed_closure prior cur g \<longleftrightarrow>
     fg_state g = Grp_resolved \<and> fg_resolution_method g = Some RM_absent_and_addressed \<and>
     fg_resolved_at_revision_id g = Some cur \<and> fg_last_seen_revision_id g \<notin> set prior"

record resolution_pass =
  rp_transitions_addressed :: nat
  rp_dismissed_judge :: nat
  rp_dismissed_verification :: nat
  rp_dismissed_human :: nat
  rp_transition_count :: nat
  rp_denominator_active_prior :: nat
  rp_rate_tenths :: "nat option"
  rp_rate_display :: pystr
  rp_compare_failed_count :: nat
  rp_head_check_failed_count :: nat
  rp_hygiene_path_removed_count :: nat
  rp_still_open_count :: nat

definition resolution_cohort :: "uuid list \<Rightarrow> uuid \<Rightarrow> finding_group list \<Rightarrow> finding_group list" where
  "resolution_cohort prior cur groups =
     filter (\<lambda>g. fg_state g \<noteq> Grp_superseded \<and> in_sync_stamp_cohort prior cur g) groups"

definition in_denominator :: "uuid list \<Rightarrow> uuid \<Rightarrow> finding_group \<Rightarrow> bool" where
  "in_denominator prior cur g \<longleftrightarrow>
     fg_closure_blocked_reason g \<notin> {Some COMPARE_FAILED_REASON, Some HEAD_CHECK_FAILED_REASON} \<and>
     \<not> is_pre_sync_resolved cur g \<and> \<not> is_hygiene_path_removed_closure prior cur g"

definition is_rate_transition :: "uuid list \<Rightarrow> uuid \<Rightarrow> finding_group \<Rightarrow> bool" where
  "is_rate_transition prior cur g \<longleftrightarrow>
     (fg_state g = Grp_resolved \<and> fg_resolved_at_revision_id g = Some cur \<and>
      fg_resolution_method g \<noteq> None) \<and>
     \<not> is_hygiene_path_removed_closure prior cur g"

definition build_resolution_pass_manifest ::
  "finding_group list \<Rightarrow> uuid list \<Rightarrow> uuid \<Rightarrow> resolution_pass" where
  "build_resolution_pass_manifest groups prior cur =
     (let cohort = resolution_cohort prior cur groups;
          live = filter (\<lambda>g. fg_state g \<noteq> Grp_superseded) groups;
          denominator_groups = filter (in_denominator prior cur) cohort;
          transitions = filter (is_rate_transition prior cur) cohort;
          by_method = (\<lambda>m. count_if (\<lambda>g. fg_resolution_method g = Some m) transitions);
          denominator = length denominator_groups
      in \<lparr>rp_transitions_addressed = by_method RM_absent_and_addressed,
          rp_dismissed_judge = by_method RM_judge_dismissed,
          rp_dismissed_verification = by_method RM_verification_dismissed,
          rp_dismissed_human = by_method RM_human_dismissed,
          rp_transition_count = length transitions,
          rp_denominator_active_prior = denominator,
          rp_rate_tenths = (if denominator = 0 then None
                            else Some (pct_tenths (length transitions) denominator)),
          rp_rate_display = (if denominator = 0 then S ''N/A''
                             else show_tenths (pct_tenths (length transitions) denominator) @ S ''%''),
          rp_compare_failed_count =
            count_if (\<lambda>g. fg_closure_blocked_reason g = Some COMPARE_FAILED_REASON) cohort,
          rp_head_check_failed_count =
            count_if (\<lambda>g. fg_closure_blocked_reason g = Some HEAD_CHECK_FAILED_REASON) live,
          rp_hygiene_path_removed_count = count_if (is_hygiene_path_removed_closure prior cur) live,
          rp_still_open_count =
            count_if (\<lambda>g. fg_state g = Grp_active \<and> fg_resolution_status g = Some RS_still_open)
              denominator_groups\<rparr>)"

definition compute_resolution_transitions ::
  "session \<Rightarrow> pull_request \<Rightarrow> revision \<Rightarrow> revision \<Rightarrow> resolution_pass" where
  "compute_resolution_transitions s pr prior cur =
     build_resolution_pass_manifest (filter (is_stale (pr_id pr)) (ss_groups s))
       (prior_publish_pairing_revision_ids prior
          (get_intermediate_revision_ids_between s (pr_id pr) prior cur))
       (rev_id cur)"

text \<open>The dict that goes into the reconcile step's artifact.\<close>

definition resolution_pass_json :: "resolution_pass \<Rightarrow> json" where
  "resolution_pass_json p = JObj [
     (S ''transitions_addressed'', JInt (int (rp_transitions_addressed p))),
     (S ''transitions_dismissed'', JObj [
        (S ''judge_dismissed'', JInt (int (rp_dismissed_judge p))),
        (S ''verification_dismissed'', JInt (int (rp_dismissed_verification p))),
        (S ''human_dismissed'', JInt (int (rp_dismissed_human p)))]),
     (S ''transition_count'', JInt (int (rp_transition_count p))),
     (S ''denominator_active_prior'', JInt (int (rp_denominator_active_prior p))),
     (S ''resolution_rate_pct'',
        (case rp_rate_tenths p of None \<Rightarrow> JNull | Some t \<Rightarrow> JFloat (int t) 1)),
     (S ''resolution_rate_display'', JStr (rp_rate_display p)),
     (S ''compare_failed_count'', JInt (int (rp_compare_failed_count p))),
     (S ''head_check_failed_count'', JInt (int (rp_head_check_failed_count p))),
     (S ''hygiene_path_removed_count'', JInt (int (rp_hygiene_path_removed_count p))),
     (S ''still_open_count'', JInt (int (rp_still_open_count p)))]"

subsection \<open>Properties of the stamping\<close>

lemma stamp_frame:
  "fg_id (fst (stamp_group cp a c l g)) = fg_id g"
  "fg_state (fst (stamp_group cp a c l g)) = fg_state g"
  "fg_resolution_method (fst (stamp_group cp a c l g)) = fg_resolution_method g"
  "fg_resolved_at_revision_id (fst (stamp_group cp a c l g)) = fg_resolved_at_revision_id g"
  "fg_last_seen_revision_id (fst (stamp_group cp a c l g)) = fg_last_seen_revision_id g"
  "fg_file_path (fst (stamp_group cp a c l g)) = fg_file_path g"
  "same_identity (fst (stamp_group cp a c l g)) g"
  "fg_fingerprint (fst (stamp_group cp a c l g)) = fg_fingerprint g"
  "fg_pull_request_id (fst (stamp_group cp a c l g)) = fg_pull_request_id g"
  by (auto simp: stamp_group_def stamp_active_group_def stamp_cohort_group_def Let_def
      same_identity_def split: option.splits bool.splits)

text \<open>A failed comparison never stamps a group addressed, and blocks every cohort group.\<close>

lemma stamp_compare_failed:
  assumes "cp_compare_failed cp"
  shows "fg_resolution_status (fst (stamp_group cp a c l g)) \<noteq> Some RS_addressed"
    and "c (g\<lparr>fg_resolution_status := None\<rparr>) \<Longrightarrow>
      fg_closure_blocked_reason (fst (stamp_group cp a c l g)) = Some COMPARE_FAILED_REASON"
  using assms
  by (auto simp: stamp_group_def stamp_active_group_def stamp_cohort_group_def Let_def
      split: option.splits bool.splits)


lemma apply_resolution_unfold:
  assumes "get_last_published_prior_revision s (pr_id pr) cur = Some prior"
    and "fetch_compare_patches gh s pr (Some (rev_head_sha prior)) (Some (rev_head_sha cur)) True = Inr cp"
    and "apply_resolution_status_for_synchronize gh s pr cur = Inr (s', n)"
  obtains absent cohort where
    "cohort = in_cohort_of s (pr_id pr) cur
       (prior_publish_pairing_revision_ids prior (get_intermediate_revision_ids_between s (pr_id pr) prior cur))
       (get_fingerprint_published_revision_ids s (pr_id pr) cur)
       (published_revision_numbers s cur prior (get_fingerprint_published_revision_ids s (pr_id pr) cur))"
    "paths_absent_at_head gh s pr (rev_head_sha cur)
       (dedupe (map (\<lambda>g. opt_or (fg_file_path g) [])
          (filter is_active_with_path (filter (is_stale (pr_id pr)) (ss_groups s)))))
       (if cp_compare_failed cp then None else Some (cp_deleted_paths cp))
       (if cp_compare_failed cp then None else Some (cp_renamed_from_paths cp)) = Inr absent"
    "\<forall>k. get_group s' k = map_option (\<lambda>g. if is_stale (pr_id pr) g
        then fst (stamp_group cp absent cohort (latest_finding_lines s) g) else g) (get_group s k)"
proof -
  let ?published = "get_fingerprint_published_revision_ids s (pr_id pr) cur"
  let ?cohort = "in_cohort_of s (pr_id pr) cur
       (prior_publish_pairing_revision_ids prior (get_intermediate_revision_ids_between s (pr_id pr) prior cur))
       ?published (published_revision_numbers s cur prior ?published)"
  from assms obtain absent where
    ab: "paths_absent_at_head gh s pr (rev_head_sha cur)
       (dedupe (map (\<lambda>g. opt_or (fg_file_path g) [])
          (filter is_active_with_path (filter (is_stale (pr_id pr)) (ss_groups s)))))
       (if cp_compare_failed cp then None else Some (cp_deleted_paths cp))
       (if cp_compare_failed cp then None else Some (cp_renamed_from_paths cp)) = Inr absent"
    and s': "s' = s\<lparr>ss_groups := tbl_map (is_stale (pr_id pr))
        (fst \<circ> stamp_group cp absent ?cohort (latest_finding_lines s)) (ss_groups s)\<rparr>"
    by (auto simp: apply_resolution_status_for_synchronize_def Let_def rbind_eq_Inr)
  have "get_group s' k = map_option (\<lambda>g. if is_stale (pr_id pr) g
        then fst (stamp_group cp absent ?cohort (latest_finding_lines s) g) else g) (get_group s k)" for k
    by (simp add: s' get_group_def tbl_get_map stamp_frame(1) o_def)
  with ab show ?thesis using that by blast
qed

lemma in_cohort_cong:
  assumes "fg_id g = fg_id h" "fg_fingerprint g = fg_fingerprint h"
    "fg_last_seen_revision_id g = fg_last_seen_revision_id h"
  shows "in_cohort_of s pr cur pairing published numbers g = in_cohort_of s pr cur pairing published numbers h"
  using assms
  by (simp add: in_cohort_of_def Let_def group_in_synchronize_cohort_def cong: option.case_cong)

lemma stamping_frame:
  assumes "get_last_published_prior_revision s (pr_id pr) cur = Some prior"
    and "fetch_compare_patches gh s pr (Some (rev_head_sha prior)) (Some (rev_head_sha cur)) True = Inr cp"
    and "apply_resolution_status_for_synchronize gh s pr cur = Inr (s', n)"
    and "get_group s k = Some g"
  shows "\<exists>g'. get_group s' k = Some g' \<and> same_identity g' g \<and> fg_state g' = fg_state g \<and>
    fg_last_seen_revision_id g' = fg_last_seen_revision_id g"
proof (rule apply_resolution_unfold [OF assms(1-3)])
  fix absent and cohort :: "finding_group \<Rightarrow> bool"
  assume "\<forall>k. get_group s' k = map_option (\<lambda>g. if is_stale (pr_id pr) g
        then fst (stamp_group cp absent cohort (latest_finding_lines s) g) else g) (get_group s k)"
  with assms(4) show ?thesis by (simp add: stamp_frame)
qed

text \<open>The cohort of a push, as the stamping computes it.\<close>

definition push_cohort :: "session \<Rightarrow> pull_request \<Rightarrow> revision \<Rightarrow> revision \<Rightarrow> finding_group \<Rightarrow> bool" where
  "push_cohort s pr prior cur g =
     in_cohort_of s (pr_id pr) cur
       (prior_publish_pairing_revision_ids prior (get_intermediate_revision_ids_between s (pr_id pr) prior cur))
       (get_fingerprint_published_revision_ids s (pr_id pr) cur)
       (published_revision_numbers s cur prior (get_fingerprint_published_revision_ids s (pr_id pr) cur))
       (g\<lparr>fg_resolution_status := None\<rparr>)"




text \<open>Pull request 4 after a push: revision 1 was reviewed by run 30 and published.\<close>

definition demo_prior :: revision where
  "demo_prior = \<lparr>rev_id = 1, rev_pull_request_id = 4, rev_number = 1, rev_head_sha = S ''aa'',
     rev_base_sha = None\<rparr>"

definition demo_push_session :: session where
  "demo_push_session = demo_github_session\<lparr>
     ss_revisions := [demo_prior, demo_revision],
     ss_review_runs := [demo_run\<lparr>rr_id := 30, rr_revision_id := 1\<rparr>, demo_run],
     ss_publish_jobs := [\<lparr>pj_id = 31, pj_review_run_id = 30, pj_revision_id = 1, pj_workspace_id = 3,
        pj_head_sha = S ''aa'', pj_status = PJ_completed, pj_github_check_run_id = None,
        pj_github_comment_id = None, pj_inline_comments_posted = False, pj_summary_json = None,
        pj_error_message = None, pj_created_at = 45\<rparr>]\<rparr>"

text \<open>A server that answers every request with a comparison that deletes \<open>a.py\<close>.\<close>

definition gh_deletes :: gh where
  "gh_deletes = (\<lambda>inst url ref. Inr \<lparr>hr_status = 200, hr_body = Some (JObj [(S ''files'',
     JArr [JObj [(S ''filename'', JStr (S ''a.py'')), (S ''status'', JStr (S ''removed''))]])])\<rparr>)"

definition demo_compare :: compare_patches where
  "demo_compare = \<lparr>cp_patches_by_file = [], cp_compare_failed = False,
     cp_removed_paths = [S ''a.py''], cp_deleted_paths = [S ''a.py''], cp_renamed_from_paths = []\<rparr>"

lemma demo_split: "py_split1 (S ''/'') (S ''o/r'') = Some (S ''o'', S ''r'')"
  by (simp add: py_split1_def S_def py_find.simps py_startswith_def)

lemma demo_last_published:
  "get_last_published_prior_revision demo_push_session 4 demo_revision = Some demo_prior"
  by (simp add: get_last_published_prior_revision_def revision_published_def demo_push_session_def
      demo_prior_def demo_github_eval)

lemma demo_fetch_deletes:
  "fetch_compare_patches gh_deletes demo_push_session demo_pull_request (Some (S ''aa'')) (Some (S ''bb'')) True
   = Inr demo_compare"
  by (simp add: fetch_compare_patches_def split_full_name_def demo_split demo_push_session_def
      demo_github_eval sha_missing_def)
     (simp add: compare_commits_def get_json_def is_success_def gh_deletes_def demo_compare_def
      str_member_def patches_of_def dict_of_def patch_entries_def paths_to_remove_def
      deleted_paths_def REMOVED_COMPARE_STATUSES_def S_def)

lemma demo_fetch_down:
  "fetch_compare_patches gh_down demo_push_session demo_pull_request (Some (S ''aa'')) (Some (S ''bb'')) True
   = Inr (no_patches True)"
  by (simp add: fetch_compare_patches_def split_full_name_def demo_split demo_push_session_def
      demo_github_eval sha_missing_def)
     (simp add: compare_commits_def S_def get_json_def gh_down_def)

lemma demo_groups: "ss_groups demo_push_session = [demo_group]"
  by (simp add: demo_push_session_def demo_github_session_def demo_session_def)

lemma demo_pairing:
  "prior_publish_pairing_revision_ids demo_prior
     (get_intermediate_revision_ids_between demo_push_session 4 demo_prior demo_revision) = [1]"
  by (simp add: prior_publish_pairing_revision_ids_def get_intermediate_revision_ids_between_def
      demo_prior_def demo_revision_def)

lemma demo_in_cohort:
  "in_cohort_of demo_push_session 4 demo_revision [1] pub num (demo_group\<lparr>fg_resolution_status := None\<rparr>)"
  by (simp add: in_cohort_of_def Let_def group_in_synchronize_cohort_def demo_group_def)

lemma demo_lookups:
  "get_repository demo_push_session 5 = Some demo_repository"
  "get_installation demo_push_session 6 = Some demo_installation"
  by (simp_all add: demo_push_session_def demo_github_eval)

lemma demo_heads:
  "rev_head_sha demo_prior = S ''aa''" "rev_head_sha demo_revision = S ''bb''"
  "pr_id demo_pull_request = 4" "pr_repository_id demo_pull_request = 5"
  "pr_installation_id demo_pull_request = 6" "rev_id demo_revision = 2" "rev_id demo_prior = 1"
  by (simp_all add: demo_prior_def demo_defs)

lemma demo_stale: "is_stale 4 demo_group" "is_active_with_path demo_group"
  "fg_file_path demo_group = Some (S ''a.py'')" "fg_id demo_group = 10" "fg_state demo_group = Grp_active"
  by (simp_all add: is_stale_def is_active_with_path_def demo_group_def S_def)

lemmas demo_push = demo_groups demo_pairing demo_in_cohort demo_lookups demo_heads demo_stale
  demo_last_published demo_fetch_deletes demo_fetch_down



text \<open>A failed comparison closes nothing: when the comparison with the last published head
  fails, no group of the pull request is stamped addressed, and every group of the push's
  cohort gets the closure block that keeps the absence closure (pass 2) from closing it, whether or
  not it was reported again and whether or not its file still exists.\<close>

theorem failed_comparison_blocks_closure:
  assumes "get_last_published_prior_revision s (pr_id pr) cur = Some prior"
    and "fetch_compare_patches gh s pr (Some (rev_head_sha prior)) (Some (rev_head_sha cur)) True = Inr cp"
    and "cp_compare_failed cp"
    and "apply_resolution_status_for_synchronize gh s pr cur = Inr (s', n)"
    and "get_group s' k = Some g'" and "is_stale (pr_id pr) g'"
  shows "fg_resolution_status g' \<noteq> Some RS_addressed \<and>
    (push_cohort s pr prior cur g' \<longrightarrow>
       fg_closure_blocked_reason g' = Some COMPARE_FAILED_REASON \<and>
       (\<forall>bound count gone. \<not> should_close_absent_and_addressed (fg_state g') bound count gone
          (fg_closure_blocked_reason g')))"
proof -
  obtain absent cohort where
    co: "cohort = in_cohort_of s (pr_id pr) cur
       (prior_publish_pairing_revision_ids prior (get_intermediate_revision_ids_between s (pr_id pr) prior cur))
       (get_fingerprint_published_revision_ids s (pr_id pr) cur)
       (published_revision_numbers s cur prior (get_fingerprint_published_revision_ids s (pr_id pr) cur))"
    and "paths_absent_at_head gh s pr (rev_head_sha cur)
       (dedupe (map (\<lambda>g. opt_or (fg_file_path g) [])
          (filter is_active_with_path (filter (is_stale (pr_id pr)) (ss_groups s)))))
       (if cp_compare_failed cp then None else Some (cp_deleted_paths cp))
       (if cp_compare_failed cp then None else Some (cp_renamed_from_paths cp)) = Inr absent"
    and get: "\<forall>k. get_group s' k = map_option (\<lambda>g. if is_stale (pr_id pr) g
        then fst (stamp_group cp absent cohort (latest_finding_lines s) g) else g) (get_group s k)"
    by (rule apply_resolution_unfold [OF assms(1,2,4)])
  from get assms(5) obtain g where g: "get_group s k = Some g"
    "g' = (if is_stale (pr_id pr) g then fst (stamp_group cp absent cohort (latest_finding_lines s) g) else g)"
    by auto
  let ?st = "fst (stamp_group cp absent cohort (latest_finding_lines s) g)"
  have "fg_pull_request_id ?st = fg_pull_request_id g"
    using stamp_frame(7) [of cp absent cohort "latest_finding_lines s" g] by (simp add: same_identity_def)
  with assms(6) g(2) have st: "is_stale (pr_id pr) g" "g' = ?st"
    by (auto simp: is_stale_def stamp_frame split: if_splits)
  have same: "push_cohort s pr prior cur g' \<longleftrightarrow> cohort (g\<lparr>fg_resolution_status := None\<rparr>)"
    unfolding push_cohort_def co st(2)
    by (rule in_cohort_cong) (simp_all add: stamp_frame)
  have "fg_resolution_status g' \<noteq> Some RS_addressed"
    using stamp_compare_failed(1) [OF assms(3)] st by simp
  moreover have "fg_closure_blocked_reason g' = Some COMPARE_FAILED_REASON"
    if "push_cohort s pr prior cur g'"
    using stamp_compare_failed(2) [OF assms(3)] that same st by blast
  ultimately show ?thesis by (simp add: should_close_iff)
qed

theorem failed_comparison_blocks_closure_witness:
  "\<exists>s' n g'. apply_resolution_status_for_synchronize gh_down demo_push_session demo_pull_request
       demo_revision = Inr (s', n) \<and> get_group s' 10 = Some g' \<and>
     fg_closure_blocked_reason g' = Some COMPARE_FAILED_REASON"
proof -
  have ab: "paths_absent_at_head gh_down demo_push_session demo_pull_request (S ''bb'') [S ''a.py''] None None
      = Inr [(S ''a.py'', None)]"
    by (simp add: paths_absent_at_head_def demo_push Let_def)
       (simp add: demo_repository_def demo_split [unfolded S_def, simplified] demo_split
        path_absent_at_head_def fetch_repository_file_at_sha_def get_json_def gh_down_def S_def)
  have "\<exists>s' n. apply_resolution_status_for_synchronize gh_down demo_push_session demo_pull_request
      demo_revision = Inr (s', n)"
    by (simp add: apply_resolution_status_for_synchronize_def demo_push Let_def no_patches_def ab)
  then obtain s' n where a: "apply_resolution_status_for_synchronize gh_down demo_push_session
      demo_pull_request demo_revision = Inr (s', n)" by blast
  have get: "get_group demo_push_session 10 = Some demo_group"
    by (simp add: get_group_def demo_groups tbl_get_def demo_stale)
  have "\<exists>g'. get_group s' 10 = Some g' \<and> same_identity g' demo_group \<and>
      fg_state g' = fg_state demo_group \<and>
      fg_last_seen_revision_id g' = fg_last_seen_revision_id demo_group"
    by (rule stamping_frame [OF _ _ a get, of demo_prior "no_patches True"])
       (simp_all add: demo_push)
  then obtain g' where g': "get_group s' 10 = Some g'" "same_identity g' demo_group"
      "fg_state g' = fg_state demo_group"
      "fg_last_seen_revision_id g' = fg_last_seen_revision_id demo_group" by blast
  have "is_stale (pr_id demo_pull_request) g'"
    using g'(2,3) demo_stale by (simp add: is_stale_def same_identity_def demo_heads)
  moreover have "push_cohort demo_push_session demo_pull_request demo_prior demo_revision g'"
    using g'(4) by (simp add: push_cohort_def demo_push in_cohort_of_def Let_def
      group_in_synchronize_cohort_def) (simp add: demo_group_def)
  ultimately have "fg_closure_blocked_reason g' = Some COMPARE_FAILED_REASON"
    using failed_comparison_blocks_closure [OF _ _ _ a g'(1), of demo_prior "no_patches True"]
    unfolding demo_heads by (simp add: demo_push no_patches_def)
  with a g'(1) show ?thesis by blast
qed

subsection \<open>Properties of the manifest\<close>

lemma rate_transition_in_denominator:
  "group_wf g \<Longrightarrow> is_rate_transition prior cur g \<Longrightarrow> in_denominator prior cur g"
  by (auto simp: is_rate_transition_def in_denominator_def group_wf_def is_pre_sync_resolved_def)

lemma length_filter_le:
  "(\<And>x. x \<in> set xs \<Longrightarrow> p x \<Longrightarrow> q x) \<Longrightarrow> length (filter p xs) \<le> length (filter q xs)"
  using count_if_mono [of xs p q] by (simp add: count_if_def)

lemma count_disjoint:
  "(\<And>x. x \<in> set xs \<Longrightarrow> \<not> (p x \<and> q x)) \<Longrightarrow>
     length (filter p xs) + length (filter q xs) = length (filter (\<lambda>x. p x \<or> q x) xs)"
  by (induction xs) auto

lemma count_methods:
  "list_all (\<lambda>g. fg_resolution_method g \<noteq> None) gs \<Longrightarrow>
   count_if (\<lambda>g. fg_resolution_method g = Some RM_absent_and_addressed) gs +
   count_if (\<lambda>g. fg_resolution_method g = Some RM_judge_dismissed) gs +
   count_if (\<lambda>g. fg_resolution_method g = Some RM_verification_dismissed) gs +
   count_if (\<lambda>g. fg_resolution_method g = Some RM_human_dismissed) gs +
   count_if (\<lambda>g. fg_resolution_method g = Some RM_head_contradiction) gs = length gs"
proof (induction gs)
  case (Cons g gs)
  then obtain m where "fg_resolution_method g = Some m" by auto
  with Cons show ?case by (cases m) (simp_all add: count_if_def)
qed (simp add: count_if_def)

text \<open>The resolution metrics are consistent: on well-formed groups the transitions counted are
  part of the denominator, so the rate lies between 0.0 and 100.0 and is missing exactly when
  there is nothing to count; transitions and still-open groups together do not exceed the
  denominator; and the counts by method add up to the transitions except for those of head
  contradictions, which no counter holds.\<close>

theorem resolution_manifest_consistent:
  assumes "list_all group_wf groups" and "m = build_resolution_pass_manifest groups prior cur"
  shows "rp_transition_count m + rp_still_open_count m \<le> rp_denominator_active_prior m \<and>
    (case rp_rate_tenths m of
       None \<Rightarrow> rp_denominator_active_prior m = 0
     | Some t \<Rightarrow> 0 < rp_denominator_active_prior m \<and> t \<le> 1000) \<and>
    rp_transitions_addressed m + rp_dismissed_judge m + rp_dismissed_verification m + rp_dismissed_human m +
      count_if (\<lambda>g. is_rate_transition prior cur g \<and> fg_resolution_method g = Some RM_head_contradiction)
        (resolution_cohort prior cur groups) = rp_transition_count m"
proof -
  let ?co = "resolution_cohort prior cur groups"
  let ?den = "filter (in_denominator prior cur) ?co"
  let ?tr = "filter (is_rate_transition prior cur) ?co"
  let ?open = "\<lambda>g. fg_state g = Grp_active \<and> fg_resolution_status g = Some RS_still_open"
  have wf: "group_wf g" if "g \<in> set ?co" for g
    using that assms(1) by (auto simp: resolution_cohort_def list_all_iff)
  have m: "rp_transition_count m = length ?tr" "rp_denominator_active_prior m = length ?den"
    "rp_still_open_count m = length (filter (\<lambda>g. in_denominator prior cur g \<and> ?open g) ?co)"
    "rp_rate_tenths m = (if length ?den = 0 then None else Some (pct_tenths (length ?tr) (length ?den)))"
    by (simp_all add: assms(2) build_resolution_pass_manifest_def Let_def count_if_def conj_commute)
  have "length ?tr + length (filter (\<lambda>g. in_denominator prior cur g \<and> ?open g) ?co) =
      length (filter (\<lambda>g. is_rate_transition prior cur g \<or> (in_denominator prior cur g \<and> ?open g)) ?co)"
    by (rule count_disjoint) (auto simp: is_rate_transition_def)
  also have "\<dots> \<le> length ?den"
    by (rule length_filter_le) (use wf rate_transition_in_denominator in blast)
  finally have le: "length ?tr + length (filter (\<lambda>g. in_denominator prior cur g \<and> ?open g) ?co) \<le> length ?den" .
  have "rp_transitions_addressed m + rp_dismissed_judge m + rp_dismissed_verification m + rp_dismissed_human m +
      count_if (\<lambda>g. fg_resolution_method g = Some RM_head_contradiction) ?tr = length ?tr"
    using count_methods [of ?tr]
    by (simp add: assms(2) build_resolution_pass_manifest_def Let_def list_all_iff is_rate_transition_def)
  moreover have "count_if (\<lambda>g. fg_resolution_method g = Some RM_head_contradiction) ?tr =
      count_if (\<lambda>g. is_rate_transition prior cur g \<and> fg_resolution_method g = Some RM_head_contradiction) ?co"
    by (simp add: count_if_def conj_commute)
  ultimately show ?thesis
    using le pct_tenths_le [of "length ?tr" "length ?den"] by (simp add: m)
qed

theorem resolution_manifest_consistent_witness:
  "rp_rate_display (build_resolution_pass_manifest [close_absent 2 demo_group, demo_group, demo_group] [1] 2)
     = S ''33.3%'' \<and>
   (case rp_rate_tenths (build_resolution_pass_manifest [close_absent 2 demo_group, demo_group, demo_group] [1] 2)
    of None \<Rightarrow> False | Some t \<Rightarrow> t \<le> 1000)"
proof -
  let ?gs = "[close_absent 2 demo_group, demo_group, demo_group]"
  have wf: "list_all group_wf ?gs"
    by (simp add: absent.close_wf) (simp add: group_wf_def demo_group_def)
  note defs = build_resolution_pass_manifest_def Let_def resolution_cohort_def in_sync_stamp_cohort_def
    in_denominator_def is_rate_transition_def is_pre_sync_resolved_def is_hygiene_path_removed_closure_def
    count_if_def absent.close_state absent.close_method absent.close_at absent.close_block absent.close_seen
  have seen: "fg_last_seen_revision_id demo_group = 1" "fg_state demo_group = Grp_active"
    "fg_closure_blocked_reason demo_group = None"
    by (simp_all add: demo_group_def)
  have pct: "pct_tenths 1 3 = 333" by code_simp
  have pct': "pct_tenths (Suc 0) (Suc (Suc (Suc 0))) = 333"
    using pct by (simp only: One_nat_def numeral_3_eq_3)
  have sh: "show_tenths 333 = S ''33.3''" by code_simp
  have d: "rp_rate_display (build_resolution_pass_manifest ?gs [1] 2) = S ''33.3%''"
    by (simp add: defs seen pct' sh) (simp add: S_def)
  have "rp_denominator_active_prior (build_resolution_pass_manifest ?gs [1] 2) = 3"
    by (simp add: defs seen)
  with resolution_manifest_consistent [OF wf refl, of "[1]" 2] d show ?thesis
    by (cases "rp_rate_tenths (build_resolution_pass_manifest ?gs [1] 2)") simp_all
qed

end
