(* ===== verification/Closure.thy ===== *)
theory Closure
  imports Reconcile Resolution_Metrics
begin

section \<open>Closing groups (\<open>services/github_finding_closure.py\<close>)\<close>

text \<open>
  Pass 2 closes the active groups that the current run no longer reports
  (\<open>apply_pass2_closure_for_review_run\<close>), and a person may dismiss a group
  (\<open>dismiss_finding_group\<close>).  Pass 3, the verification judge, is in its own theory.  The loop of
  pass 2 writes each group's own attributes only, so the model maps over the table.
\<close>

subsection \<open>Pass 2\<close>

definition bound_group_ids_this_run :: "session \<Rightarrow> uuid \<Rightarrow> uuid list" where
  "bound_group_ids_this_run s rv =
     map fg_id (filter (\<lambda>g. fg_last_seen_revision_id g = rv) (ss_groups s))"

text \<open>\<open>GROUP BY file_path, category\<close>, then a dict keyed by the path (a missing one is empty) and
  the category.\<close>

definition run_finding_counts :: "session \<Rightarrow> uuid \<Rightarrow> ((pystr \<times> finding_category) \<times> nat) list" where
  "run_finding_counts s run_id =
     (let fs = run_findings s run_id;
          keys = dedupe (map (\<lambda>f. (fi_file_path f, fi_category f)) fs)
      in dict_of (map (\<lambda>k. ((path_or_empty (fst k), snd k),
            count_if (\<lambda>f. (fi_file_path f, fi_category f) = k) fs)) keys))"

definition resolve_absent_paths ::
  "gh \<Rightarrow> session \<Rightarrow> revision \<Rightarrow> pystr list \<Rightarrow> exn + pystr list" where
  "resolve_absent_paths gh s rv paths =
     (if paths = [] then Inr []
      else case get_pull_request s (rev_pull_request_id rv) of
        None \<Rightarrow> Inr []
      | Some pr \<Rightarrow>
          rbind (paths_absent_at_head gh s pr (rev_head_sha rv) paths None None)
            (\<lambda>absent. Inr (map fst (filter (\<lambda>r. snd r = Some True) absent))))"

text \<open>The groups pass 2 looks at.\<close>

definition pass2_scope :: "uuid \<Rightarrow> uuid list \<Rightarrow> finding_group \<Rightarrow> bool" where
  "pass2_scope pr pairing g \<longleftrightarrow>
     fg_pull_request_id g = pr \<and> fg_state g = Grp_active \<and>
     (fg_last_seen_revision_id g \<in> set pairing \<or> fg_resolution_status g = Some RS_addressed)"

definition pass2_closes ::
  "uuid list \<Rightarrow> ((pystr \<times> finding_category) \<times> nat) list \<Rightarrow> pystr list \<Rightarrow> finding_group \<Rightarrow> bool" where
  "pass2_closes bound counts gone g =
     should_close_absent_and_addressed (fg_state g) (fg_id g \<in> set bound)
       (int (opt_or (map_of counts (path_or_empty (fg_file_path g), fg_category g)) 0))
       (path_or_empty (fg_file_path g) \<in> set gone) (fg_closure_blocked_reason g)"

definition apply_pass2_closure_for_review_run ::
  "gh \<Rightarrow> session \<Rightarrow> uuid \<Rightarrow> exn + session \<times> nat" where
  "apply_pass2_closure_for_review_run gh s run_id =
     (case get_review_run s run_id of
        None \<Rightarrow> Inr (s, 0)
      | Some run \<Rightarrow>
          if rr_status run \<noteq> RR_completed then Inr (s, 0)
          else case get_revision s (rr_revision_id run) of
            None \<Rightarrow> Inr (s, 0)
          | Some rv \<Rightarrow>
              case get_last_published_prior_revision s (rev_pull_request_id rv) rv of
                None \<Rightarrow> Inr (s, 0)
              | Some prior \<Rightarrow>
                  let pr = rev_pull_request_id rv;
                      pairing = prior_publish_pairing_revision_ids prior
                        (get_intermediate_revision_ids_between s pr prior rv);
                      bound = bound_group_ids_this_run s (rev_id rv);
                      counts = run_finding_counts s run_id;
                      groups = filter (pass2_scope pr pairing) (ss_groups s);
                      paths = dedupe (filter (\<lambda>p. p \<noteq> []) (map (\<lambda>g. path_or_empty (fg_file_path g)) groups))
                  in rbind (resolve_absent_paths gh s rv paths) (\<lambda>gone.
                       let closes = (\<lambda>g. pass2_scope pr pairing g \<and> pass2_closes bound counts gone g)
                       in Inr (s\<lparr>ss_groups := tbl_map closes (close_absent (rev_id rv)) (ss_groups s)\<rparr>,
                               count_if (pass2_closes bound counts gone) groups)))"

subsection \<open>Human dismissal\<close>

definition head_revision :: "session \<Rightarrow> uuid \<Rightarrow> revision option" where
  "head_revision s pr =
     (case sort_key (\<lambda>r. - rev_number r) (filter (\<lambda>r. rev_pull_request_id r = pr) (ss_revisions s)) of
        [] \<Rightarrow> None
      | r # _ \<Rightarrow> Some r)"

definition dismiss_finding_group ::
  "session \<Rightarrow> uuid \<Rightarrow> uuid \<Rightarrow> uuid \<Rightarrow> uuid \<Rightarrow> exn + session \<times> finding_group" where
  "dismiss_finding_group s ws repo pr gid =
     rbind (ensure_pull_request_access s ws repo pr) (\<lambda>_.
       case get_group s gid of
         None \<Rightarrow> Inl (raise_platform NotFoundError (S ''Finding group not found'') None)
       | Some g \<Rightarrow>
           if fg_workspace_id g \<noteq> ws \<or> fg_pull_request_id g \<noteq> pr
           then Inl (raise_platform NotFoundError (S ''Finding group not found'') None)
           else if fg_state g \<noteq> Grp_active
           then Inl (raise_platform ConflictError (S ''Finding group is not active'') (Some (S ''group_not_active'')))
           else case head_revision s pr of
             None \<Rightarrow> Inl (raise_platform NotFoundError (S ''Pull request revision not found'') None)
           | Some rv \<Rightarrow>
               let g' = close_human (rev_id rv) g in Inr (put_group g' s, g'))"

subsection \<open>Facts\<close>

lemma head_revision_newest:
  "head_revision s pr = Some rv \<Longrightarrow>
     rv \<in> set (ss_revisions s) \<and> rev_pull_request_id rv = pr \<and>
     (\<forall>r\<in>set (ss_revisions s). rev_pull_request_id r = pr \<longrightarrow> rev_number r \<le> rev_number rv)"
proof -
  let ?xs = "filter (\<lambda>r. rev_pull_request_id r = pr) (ss_revisions s)"
  assume h: "head_revision s pr = Some rv"
  then obtain rest where srt: "sort_key (\<lambda>r. - rev_number r) ?xs = rv # rest"
    by (auto simp: head_revision_def split: list.splits)
  then have "rv \<in> set (sort_key (\<lambda>r. - rev_number r) ?xs)" by simp
  then have m: "rv \<in> set ?xs" by simp
  have "- rev_number rv \<le> - rev_number r" if r: "r \<in> set ?xs" for r
  proof -
    have "?xs \<noteq> []" using m by (metis empty_iff empty_set)
    from sort_key_hd_min [OF this r, of "\<lambda>r. - rev_number r"] srt show ?thesis by simp
  qed
  with m show ?thesis by auto
qed

lemma run_finding_counts_zero:
  "opt_or (map_of (run_finding_counts s run_id) (p, c)) 0 = 0 \<longleftrightarrow>
     (\<forall>f\<in>set (run_findings s run_id). \<not> (path_or_empty (fi_file_path f) = p \<and> fi_category f = c))"
proof -
  let ?fs = "run_findings s run_id"
  let ?rows = "map (\<lambda>k. ((path_or_empty (fst k), snd k),
        count_if (\<lambda>f. (fi_file_path f, fi_category f) = k) ?fs))
      (dedupe (map (\<lambda>f. (fi_file_path f, fi_category f)) ?fs))"
  have m: "map_of (run_finding_counts s run_id) (p, c) = map_of (rev ?rows) (p, c)"
    by (simp add: run_finding_counts_def Let_def map_of_dict_of)
  show ?thesis
  proof (cases "map_of (rev ?rows) (p, c)")
    case None
    then have "(p, c) \<notin> fst ` set ?rows" by (simp only: map_of_eq_None_iff set_rev not_False_eq_True)
    moreover have "(path_or_empty (fi_file_path f), fi_category f) \<in> fst ` set ?rows"
      if "f \<in> set ?fs" for f
      using that by (simp add: image_image)
    ultimately show ?thesis using None by (auto simp: m)
  next
    case (Some n)
    from map_of_SomeD [OF Some] have "((p, c), n) \<in> set ?rows" by (simp only: set_rev)
    then obtain f where f: "f \<in> set ?fs" "path_or_empty (fi_file_path f) = p" "fi_category f = c"
      and n: "n = count_if (\<lambda>g. (fi_file_path g, fi_category g) = (fi_file_path f, fi_category f)) ?fs"
      by auto
    have "filter (\<lambda>g. (fi_file_path g, fi_category g) = (fi_file_path f, fi_category f)) ?fs \<noteq> []"
      using f(1) by (metis (mono_tags, lifting) filter_empty_conv)
    then have "n \<noteq> 0" unfolding n count_if_def by simp
    moreover have "opt_or (map_of (run_finding_counts s run_id) (p, c)) 0 = n"
      by (simp only: m Some opt_or_simps)
    ultimately have "opt_or (map_of (run_finding_counts s run_id) (p, c)) 0 \<noteq> 0" by simp
    moreover have "\<not> (\<forall>f\<in>set ?fs. \<not> (path_or_empty (fi_file_path f) = p \<and> fi_category f = c))"
      using f by blast
    ultimately show ?thesis by blast
  qed
qed

lemma pass2_closes_iff:
  "pass2_closes bound (run_finding_counts s run_id) gone g \<longleftrightarrow>
     fg_state g = Grp_active \<and> fg_id g \<notin> set bound \<and> fg_closure_blocked_reason g = None \<and>
     (path_or_empty (fg_file_path g) \<in> set gone \<or>
      (\<forall>f\<in>set (run_findings s run_id).
         \<not> (path_or_empty (fi_file_path f) = path_or_empty (fg_file_path g) \<and> fi_category f = fg_category g)))"
  by (simp add: pass2_closes_def should_close_iff run_finding_counts_zero conj_comms)

lemma absent_path_evidence:
  assumes "resolve_absent_paths gh s rv paths = Inr gone" and "p \<in> set gone"
  shows "p \<in> set paths \<and>
    (\<exists>pr. get_pull_request s (rev_pull_request_id rv) = Some pr \<and> file_missing gh s pr (rev_head_sha rv) p)"
proof -
  from assms obtain pr absent where
    pr: "get_pull_request s (rev_pull_request_id rv) = Some pr" and
    a: "paths_absent_at_head gh s pr (rev_head_sha rv) paths None None = Inr absent"
    and g: "(p, Some True) \<in> set absent"
    by (auto simp: resolve_absent_paths_def rbind_eq_Inr split: if_splits option.splits)
  have "distinct (map fst absent)"
    using a check_paths_keys
    by (auto simp: paths_absent_at_head_def Let_def o_def split: if_splits option.splits)
  with g have "map_of absent p = Some (Some True)" by simp
  from path_gone_only_on_evidence_aux [OF a this] pr show ?thesis by simp
qed

text \<open>What pass 2 computes when it gets to its loop.\<close>

lemma pass2_unfold:
  assumes "apply_pass2_closure_for_review_run gh s run_id = Inr (s', n)"
  obtains (nothing) "s' = s" "n = 0"
    | (loop) run rv prior pairing gone where
        "get_review_run s run_id = Some run" "rr_status run = RR_completed"
        "get_revision s (rr_revision_id run) = Some rv"
        "get_last_published_prior_revision s (rev_pull_request_id rv) rv = Some prior"
        "pairing = prior_publish_pairing_revision_ids prior
           (get_intermediate_revision_ids_between s (rev_pull_request_id rv) prior rv)"
        "resolve_absent_paths gh s rv (dedupe (filter (\<lambda>p. p \<noteq> []) (map (\<lambda>g. path_or_empty (fg_file_path g))
           (filter (pass2_scope (rev_pull_request_id rv) pairing) (ss_groups s))))) = Inr gone"
        "s' = s\<lparr>ss_groups := tbl_map (\<lambda>g. pass2_scope (rev_pull_request_id rv) pairing g \<and>
            pass2_closes (bound_group_ids_this_run s (rev_id rv)) (run_finding_counts s run_id) gone g)
           (close_absent (rev_id rv)) (ss_groups s)\<rparr>"
        "n = count_if (pass2_closes (bound_group_ids_this_run s (rev_id rv)) (run_finding_counts s run_id) gone)
           (filter (pass2_scope (rev_pull_request_id rv) pairing) (ss_groups s))"
proof (cases "get_review_run s run_id")
  case None
  show ?thesis by (rule nothing) (use assms None in \<open>simp_all add: apply_pass2_closure_for_review_run_def\<close>)
next
  case run: (Some run)
  show ?thesis
  proof (cases "rr_status run = RR_completed")
    case False
    show ?thesis
      by (rule nothing) (use assms run False in \<open>simp_all add: apply_pass2_closure_for_review_run_def\<close>)
  next
    case cmp: True
    show ?thesis
    proof (cases "get_revision s (rr_revision_id run)")
      case None
      show ?thesis
        by (rule nothing) (use assms run cmp None in \<open>simp_all add: apply_pass2_closure_for_review_run_def\<close>)
    next
      case rv: (Some rv)
      show ?thesis
      proof (cases "get_last_published_prior_revision s (rev_pull_request_id rv) rv")
        case None
        show ?thesis
          by (rule nothing)
             (use assms run cmp rv None in \<open>simp_all add: apply_pass2_closure_for_review_run_def\<close>)
      next
        case prior: (Some prior)
        from assms show ?thesis
          by (simp only: apply_pass2_closure_for_review_run_def run cmp rv prior option.case Let_def
              rbind_eq_Inr simp_thms if_False sum.inject prod.inject)
             (elim exE conjE, rule loop [OF run cmp rv prior refl], assumption, simp_all only:)
      qed
    qed
  qed
qed

subsection \<open>Properties\<close>

text \<open>C22. Pass 2 closes a group only for a reason: a group whose row changed was an active group of
  the run's pull request, not seen at the run's revision and not blocked, in the scope of the
  pass (last seen at a revision paired with the last published one, or stamped addressed), and either GitHub answered 404
  for its file at the head, in the repository and as the installation of the pull request, or the run has no
  finding in its file and category; the change is exactly the absence closure at the
  run's revision, every other group is as before, and nothing but the table of groups is touched.\<close>

theorem pass2_closes_only_absent:
  assumes "apply_pass2_closure_for_review_run gh s run_id = Inr (s', n)"
  shows "(\<exists>gs. s' = s\<lparr>ss_groups := gs\<rparr> \<and> map fg_id gs = map fg_id (ss_groups s)) \<and>
   (\<forall>k g. get_group s k = Some g \<longrightarrow> get_group s' k = Some g \<or>
    (\<exists>run rv prior. get_review_run s run_id = Some run \<and> rr_status run = RR_completed \<and>
       get_revision s (rr_revision_id run) = Some rv \<and>
       get_last_published_prior_revision s (rev_pull_request_id rv) rv = Some prior \<and>
       get_group s' k = Some (close_absent (rev_id rv) g) \<and>
       fg_pull_request_id g = rev_pull_request_id rv \<and> fg_state g = Grp_active \<and>
       fg_last_seen_revision_id g \<noteq> rev_id rv \<and> fg_closure_blocked_reason g = None \<and>
       (fg_last_seen_revision_id g \<in> set (prior_publish_pairing_revision_ids prior
           (get_intermediate_revision_ids_between s (rev_pull_request_id rv) prior rv)) \<or>
        fg_resolution_status g = Some RS_addressed) \<and>
       ((\<exists>pr. get_pull_request s (rev_pull_request_id rv) = Some pr \<and>
           file_missing gh s pr (rev_head_sha rv) (path_or_empty (fg_file_path g))) \<or>
        (\<forall>f\<in>set (run_findings s run_id).
           \<not> (path_or_empty (fi_file_path f) = path_or_empty (fg_file_path g) \<and>
              fi_category f = fg_category g)))))"
    (is "_ \<and> (\<forall>k g. _ \<longrightarrow> _ \<or> ?reason k g)")
  using assms
proof (cases rule: pass2_unfold)
  case nothing
  then show ?thesis by (intro conjI exI [of _ "ss_groups s"]) simp_all
next
  case (loop run rv prior pairing gone)
  let ?closes = "\<lambda>g. pass2_scope (rev_pull_request_id rv) pairing g \<and>
     pass2_closes (bound_group_ids_this_run s (rev_id rv)) (run_finding_counts s run_id) gone g"
  have get: "get_group s' k = Some (if ?closes g then close_absent (rev_id rv) g else g)"
    if "get_group s k = Some g" for k g
    using that absent.close_id unfolding loop(7) get_group_def
    by (simp add: tbl_get_map)
  have reason: "fg_last_seen_revision_id g \<noteq> rev_id rv \<and>
      (path_or_empty (fg_file_path g) \<in> set gone \<longrightarrow>
        (\<exists>pr. get_pull_request s (rev_pull_request_id rv) = Some pr \<and>
           file_missing gh s pr (rev_head_sha rv) (path_or_empty (fg_file_path g))))"
    if g: "get_group s k = Some g" "?closes g" for k g
  proof
    have "g \<in> set (ss_groups s)" using g(1) by (rule get_group_in)
    with g(2) show "fg_last_seen_revision_id g \<noteq> rev_id rv"
      by (auto simp: pass2_closes_iff bound_group_ids_this_run_def)
  qed (use absent_path_evidence [OF loop(6)] in blast)
  show ?thesis
  proof (intro conjI allI impI)
    show "\<exists>gs. s' = s\<lparr>ss_groups := gs\<rparr> \<and> map fg_id gs = map fg_id (ss_groups s)"
      unfolding loop(7) by (intro exI conjI, rule refl) (rule tbl_map_keys, rule absent.close_id)
    fix k g assume g: "get_group s k = Some g"
    show "get_group s' k = Some g \<or> ?reason k g"
    proof (cases "?closes g")
      case True
      with get [OF g] reason [OF g True] loop(1-5) show ?thesis
        unfolding pass2_closes_iff pass2_scope_def by auto
    next
      case False
      with get [OF g] have "get_group s' k = Some g" by (simp only: if_False)
      then show ?thesis by (rule disjI1)
    qed
  qed
qed

text \<open>A server with no files: the group's file is gone and pass 2 closes it.\<close>

definition demo_pass2_session :: session where
  "demo_pass2_session = demo_push_session\<lparr>ss_findings := []\<rparr>"

lemma demo_pass2:
  "apply_pass2_closure_for_review_run gh_404 demo_pass2_session 1 =
     Inr (demo_pass2_session\<lparr>ss_groups := [close_absent 2 demo_group]\<rparr>, 1)"
proof -
  have r: "get_review_run demo_pass2_session 1 = Some demo_run" "rr_status demo_run = RR_completed"
    "get_revision demo_pass2_session (rr_revision_id demo_run) = Some demo_revision"
    by (simp_all add: demo_pass2_session_def demo_push_session_def demo_prior_def demo_github_eval)
  have d: "rev_id demo_revision = 2" "rev_pull_request_id demo_revision = 4" "rev_head_sha demo_revision = S ''bb''"
    "ss_groups demo_pass2_session = [demo_group]"
    "get_pull_request demo_pass2_session 4 = Some demo_pull_request"
    "get_repository demo_pass2_session 5 = Some demo_repository"
    "get_installation demo_pass2_session 6 = Some demo_installation"
    by (simp_all add: demo_pass2_session_def demo_push_session_def demo_github_eval)
  have prior: "get_last_published_prior_revision demo_pass2_session 4 demo_revision = Some demo_prior"
    by (simp add: get_last_published_prior_revision_def revision_published_def demo_pass2_session_def
      demo_push_session_def demo_prior_def demo_github_eval)
  have pair: "prior_publish_pairing_revision_ids demo_prior
      (get_intermediate_revision_ids_between demo_pass2_session 4 demo_prior demo_revision) = [1]"
    by (simp add: prior_publish_pairing_revision_ids_def get_intermediate_revision_ids_between_def
      demo_prior_def demo_revision_def)
  have g: "pass2_scope 4 [1] demo_group" "path_or_empty (fg_file_path demo_group) = S ''a.py''"
    "S ''a.py'' \<noteq> []"
    by (simp_all add: pass2_scope_def demo_group_def path_or_empty_def S_def)
  have gone: "resolve_absent_paths gh_404 demo_pass2_session demo_revision [S ''a.py''] = Inr [S ''a.py'']"
    by (simp add: resolve_absent_paths_def d paths_absent_at_head_def demo_heads Let_def)
       (simp add: demo_repository_def demo_split [unfolded S_def, simplified] demo_split
        path_absent_at_head_def fetch_repository_file_at_sha_def get_json_def gh_404_def is_success_def
        contents_http_error_def raise_platform_def S_def)
  have cl: "pass2_closes (bound_group_ids_this_run demo_pass2_session 2) (run_finding_counts demo_pass2_session 1)
      [S ''a.py''] demo_group"
    unfolding pass2_closes_iff bound_group_ids_this_run_def
    by (simp add: d g) (simp add: demo_group_def)
  show ?thesis
    by (simp add: apply_pass2_closure_for_review_run_def r d prior pair g gone cl Let_def tbl_map_def
        count_if_def)
qed

theorem pass2_closes_only_absent_witness:
  "\<exists>s' n. apply_pass2_closure_for_review_run gh_404 demo_pass2_session 1 = Inr (s', n) \<and>
     get_group s' 10 = Some (close_absent 2 demo_group) \<and> fg_closure_blocked_reason demo_group = None"
proof -
  have get: "get_group demo_pass2_session 10 = Some demo_group"
    by (simp add: get_group_def demo_pass2_session_def demo_push_session_def demo_github_eval)
  have g': "get_group (demo_pass2_session\<lparr>ss_groups := [close_absent 2 demo_group]\<rparr>) 10
      = Some (close_absent 2 demo_group)"
    using absent.close_id [of 2 demo_group] by (simp add: get_group_def tbl_get_def demo_stale)
  have ne: "close_absent 2 demo_group \<noteq> demo_group"
    using absent.close_state [of 2 demo_group] demo_stale by (metis group_state.distinct(3))
  from pass2_closes_only_absent [OF demo_pass2, THEN conjunct2, rule_format, OF get] g' ne
  have "fg_closure_blocked_reason demo_group = None" by auto
  with demo_pass2 g' show ?thesis by blast
qed

text \<open>Asking about fewer paths gives the same answers.\<close>

lemma check_paths_subset:
  "check_paths ask renamed deleted ps = Inr rs \<Longrightarrow> set qs \<subseteq> set ps \<Longrightarrow>
     \<exists>rs'. check_paths ask renamed deleted qs = Inr rs'"
proof (induction qs)
  case (Cons q qs)
  from Cons.prems check_paths_keys have "q \<in> fst ` set rs" by fastforce
  then obtain a where "map_of rs q = Some a"
    by (metis map_of_eq_None_iff not_None_eq)
  from check_paths_lookup [OF Cons.prems(1) this] Cons show ?case
    by (auto split: if_splits)
qed simp

lemma dedupe_Nil [simp]: "dedupe xs = [] \<longleftrightarrow> xs = []"
  by (cases xs) auto

lemma paths_absent_subset:
  assumes "paths_absent_at_head gh s pr h ps d r = Inr rs" and "set qs \<subseteq> set ps" and "qs \<noteq> []"
  shows "\<exists>rs'. paths_absent_at_head gh s pr h qs d r = Inr rs' \<and>
    (\<forall>q. map_of rs' q = Some (Some True) \<longrightarrow> map_of rs q = Some (Some True))"
proof -
  have ps: "ps \<noteq> []" using assms(2,3) by auto
  have unknown: "map_of (map (\<lambda>p. (p, None)) xs) q \<noteq> Some (Some True)" for xs :: "pystr list" and q
    by (induction xs) auto
  show ?thesis
  proof (cases "h = []")
    case True
    then show ?thesis using assms ps by (simp add: paths_absent_at_head_def)
  next
    case False
    note h = False
    show ?thesis
    proof (cases "\<exists>repo inst owner name. get_repository s (pr_repository_id pr) = Some repo \<and>
        get_installation s (pr_installation_id pr) = Some inst \<and>
        py_split1 (S ''/'') (repo_full_name repo) = Some (owner, name) \<and> owner \<noteq> [] \<and> name \<noteq> []")
      case True
      then obtain repo inst owner name where
        c: "get_repository s (pr_repository_id pr) = Some repo"
          "get_installation s (pr_installation_id pr) = Some inst"
          "py_split1 (S ''/'') (repo_full_name repo) = Some (owner, name)" "owner \<noteq> []" "name \<noteq> []"
        by blast
      let ?ask = "\<lambda>p. path_absent_at_head gh (inst_github_installation_id inst) owner name p h"
      have eq: "paths_absent_at_head gh s pr h xs d r =
          check_paths ?ask (opt_or r []) (opt_or d []) (sort (dedupe xs))" if "xs \<noteq> []" for xs
        using that h c by (simp add: paths_absent_at_head_def)
      from assms(1) have rs: "check_paths ?ask (opt_or r []) (opt_or d []) (sort (dedupe ps)) = Inr rs"
        by (simp add: eq ps)
      have "set (sort (dedupe qs)) \<subseteq> set (sort (dedupe ps))" using assms(2) by simp
      from check_paths_subset [OF rs this] obtain rs' where
        rs': "check_paths ?ask (opt_or r []) (opt_or d []) (sort (dedupe qs)) = Inr rs'" by blast
      have "map_of rs q = Some (Some True)" if q: "map_of rs' q = Some (Some True)" for q
      proof -
        have "q \<in> set (sort (dedupe qs))"
          using q check_paths_keys [OF rs'] by (metis map_of_SomeD fst_conv image_eqI set_map)
        then have "q \<in> fst ` set rs"
          using assms(2) check_paths_keys [OF rs] by (metis set_dedupe set_map set_sort subsetD)
        then obtain a where a: "map_of rs q = Some a"
          by (metis map_of_eq_None_iff not_None_eq)
        from check_paths_lookup [OF rs a] check_paths_lookup [OF rs' q] have "a = Some True"
          by (auto split: if_splits)
        with a show ?thesis by simp
      qed
      with rs' show ?thesis by (simp add: eq assms(3))
    next
      case False
      then have eq: "paths_absent_at_head gh s pr h xs d r = Inr (map (\<lambda>p. (p, None)) (dedupe xs))"
        if "xs \<noteq> []" for xs
        using that h by (auto simp: paths_absent_at_head_def Let_def split: option.splits)
      show ?thesis using unknown by (simp add: eq assms(3))
    qed
  qed
qed

lemma resolve_absent_subset:
  assumes "resolve_absent_paths gh s rv ps = Inr gone" and "set qs \<subseteq> set ps"
  shows "\<exists>gone'. resolve_absent_paths gh s rv qs = Inr gone' \<and> set gone' \<subseteq> set gone"
proof (cases "qs = [] \<or> get_pull_request s (rev_pull_request_id rv) = None")
  case True
  then show ?thesis by (auto simp: resolve_absent_paths_def split: option.splits)
next
  case False
  then obtain pr where pr: "get_pull_request s (rev_pull_request_id rv) = Some pr" and qs: "qs \<noteq> []"
    by auto
  from assms qs pr obtain rs where
    rs: "paths_absent_at_head gh s pr (rev_head_sha rv) ps None None = Inr rs"
    and gone: "gone = map fst (filter (\<lambda>r. snd r = Some True) rs)"
    by (auto simp: resolve_absent_paths_def rbind_eq_Inr split: if_splits)
  from paths_absent_subset [OF rs assms(2) qs] obtain rs' where
    rs': "paths_absent_at_head gh s pr (rev_head_sha rv) qs None None = Inr rs'"
    and sub: "\<And>q. map_of rs' q = Some (Some True) \<Longrightarrow> map_of rs q = Some (Some True)" by blast
  have "distinct (map fst rs')"
    using rs' check_paths_keys
    by (auto simp: paths_absent_at_head_def Let_def o_def split: if_splits option.splits)
  then have "fst x \<in> set gone" if "x \<in> set rs'" "snd x = Some True" for x
    using that sub [of "fst x"] map_of_SomeD [of rs "fst x" "Some True"]
    by (cases x) (force simp: gone)
  with rs' qs pr show ?thesis by (auto simp: resolve_absent_paths_def)
qed

lemma pass2_frame:
  assumes "s' = s\<lparr>ss_groups := gs\<rparr>"
  shows "get_review_run s' k = get_review_run s k" "get_revision s' k = get_revision s k"
    "get_last_published_prior_revision s' pr rv = get_last_published_prior_revision s pr rv"
    "get_intermediate_revision_ids_between s' pr a b = get_intermediate_revision_ids_between s pr a b"
    "run_finding_counts s' k = run_finding_counts s k"
    "resolve_absent_paths gh s' rv ps = resolve_absent_paths gh s rv ps"
proof -
  have f: "get_pull_request s' k = get_pull_request s k" "get_repository s' k = get_repository s k"
    "get_installation s' k = get_installation s k" "revision_published s' k = revision_published s k"
    "ss_revisions s' = ss_revisions s" "ss_findings s' = ss_findings s"
    "get_review_run s' k = get_review_run s k" "get_revision s' k = get_revision s k" for k
    by (simp_all add: assms session_gets revision_published_def)
  have p: "paths_absent_at_head gh s' pr h ps d r = paths_absent_at_head gh s pr h ps d r" for pr h ps d r
    unfolding paths_absent_at_head_def f ..
  show "get_review_run s' k = get_review_run s k" "get_revision s' k = get_revision s k"
    by (rule f)+
  show "get_last_published_prior_revision s' pr rv = get_last_published_prior_revision s pr rv"
    unfolding get_last_published_prior_revision_def f ..
  show "get_intermediate_revision_ids_between s' pr a b = get_intermediate_revision_ids_between s pr a b"
    unfolding get_intermediate_revision_ids_between_def f ..
  show "run_finding_counts s' k = run_finding_counts s k"
    unfolding run_finding_counts_def run_findings_def f ..
  show "resolve_absent_paths gh s' rv ps = resolve_absent_paths gh s rv ps"
    unfolding resolve_absent_paths_def f p ..
qed

lemma bound_frame:
  assumes "s' = s\<lparr>ss_groups := tbl_map p (close_absent r) (ss_groups s)\<rparr>"
  shows "bound_group_ids_this_run s' rv = bound_group_ids_this_run s rv"
proof -
  have "map fg_id (filter (\<lambda>g. fg_last_seen_revision_id g = rv) (tbl_map p (close_absent r) gs)) =
      map fg_id (filter (\<lambda>g. fg_last_seen_revision_id g = rv) gs)" for gs
    by (induction gs) (auto simp: tbl_map_def absent.close_id absent.close_seen)
  then show ?thesis by (simp add: assms bound_group_ids_this_run_def)
qed

text \<open>Pass 2 is idempotent: run again on its own result (a retried task, with the same answers
  from GitHub), it closes nothing and changes nothing.\<close>

theorem pass2_idempotent:
  assumes "apply_pass2_closure_for_review_run gh s run_id = Inr (s', n)"
  shows "apply_pass2_closure_for_review_run gh s' run_id = Inr (s', 0) \<or> (s' = s \<and> n = 0)"
  using assms
proof (cases rule: pass2_unfold)
  case (loop run rv prior pairing gone)
  note frame = pass2_frame [OF loop(7)] bound_frame [OF loop(7)]
  let ?pr = "rev_pull_request_id rv"
  let ?closes = "\<lambda>gone g. pass2_closes (bound_group_ids_this_run s (rev_id rv)) (run_finding_counts s run_id) gone g"
  let ?paths = "\<lambda>gs. dedupe (filter (\<lambda>p. p \<noteq> []) (map (\<lambda>g. path_or_empty (fg_file_path g))
           (filter (pass2_scope ?pr pairing) gs)))"
  have left: "h \<in> set (ss_groups s) \<and> \<not> ?closes gone h"
    if "h \<in> set (ss_groups s')" "pass2_scope ?pr pairing h" for h
  proof -
    from that(1) obtain r where r: "r \<in> set (ss_groups s)"
      "h = (if pass2_scope ?pr pairing r \<and> ?closes gone r then close_absent (rev_id rv) r else r)"
      unfolding loop(7) by (auto simp: tbl_map_set)
    have "\<not> pass2_scope ?pr pairing (close_absent (rev_id rv) r)"
      by (simp add: pass2_scope_def absent.close_state)
    with r that(2) show ?thesis by (metis (full_types))
  qed
  then have "set (?paths (ss_groups s')) \<subseteq> set (?paths (ss_groups s))" by auto
  from resolve_absent_subset [OF loop(6) this] obtain gone' where
    gone': "resolve_absent_paths gh s rv (?paths (ss_groups s')) = Inr gone'" "set gone' \<subseteq> set gone" by blast
  have keep: "\<not> ?closes gone' h" if "h \<in> set (ss_groups s')" "pass2_scope ?pr pairing h" for h
    using left [OF that] gone'(2) unfolding pass2_closes_iff by blast
  have "tbl_map (\<lambda>g. pass2_scope ?pr pairing g \<and> ?closes gone' g) (close_absent (rev_id rv)) (ss_groups s')
      = ss_groups s'"
    unfolding tbl_map_def by (rule map_idI) (use keep in auto)
  moreover have "count_if (?closes gone') (filter (pass2_scope ?pr pairing) (ss_groups s')) = 0"
    using keep by (simp add: count_if_def filter_empty_conv)
  ultimately have "apply_pass2_closure_for_review_run gh s' run_id = Inr (s', 0)"
    using gone'(1) loop(1-5) by (simp add: apply_pass2_closure_for_review_run_def frame Let_def)
  then show ?thesis ..
qed simp

theorem pass2_idempotent_witness:
  "apply_pass2_closure_for_review_run gh_404
     (demo_pass2_session\<lparr>ss_groups := [close_absent 2 demo_group]\<rparr>) 1 =
   Inr (demo_pass2_session\<lparr>ss_groups := [close_absent 2 demo_group]\<rparr>, 0)"
  using pass2_idempotent [OF demo_pass2] by simp

text \<open>A dismissal by a person does what it answers: on success the caller has access to the pull
  request, the group was an active group of it, and it is now resolved as dismissed at the newest
  revision and nothing else changed, so that a new report of the finding leaves it alone; a group
  that is unknown, of another workspace or of another pull request is not found, and one
  that is not active is a conflict.\<close>

theorem dismiss_finding_group_behaviour:
  "case dismiss_finding_group s ws repo pr gid of
     Inr (s', g') \<Rightarrow>
       (\<exists>g rv. get_group s gid = Some g \<and> fg_workspace_id g = ws \<and> fg_pull_request_id g = pr \<and>
          fg_state g = Grp_active \<and> head_revision s pr = Some rv \<and>
          (\<forall>r\<in>set (ss_revisions s). rev_pull_request_id r = pr \<longrightarrow> rev_number r \<le> rev_number rv) \<and>
          g' = close_human (rev_id rv) g \<and> get_group s' gid = Some g' \<and>
          (\<forall>k. k \<noteq> gid \<longrightarrow> get_group s' k = get_group s k) \<and>
          should_skip_resolved_group_on_reconcile (fg_state g') (fg_resolution_method g')) \<and>
       ensure_pull_request_access s ws repo pr = Inr ()
   | Inl e \<Rightarrow>
       ensure_pull_request_access s ws repo pr = Inl e \<or>
       (is_platform NotFoundError e \<and>
          (\<forall>g. get_group s gid = Some g \<longrightarrow>
             fg_workspace_id g \<noteq> ws \<or> fg_pull_request_id g \<noteq> pr \<or> head_revision s pr = None)) \<or>
       (e = Platform ConflictError (S ''Finding group is not active'') (S ''group_not_active'') \<and>
          (\<exists>g. get_group s gid = Some g \<and> fg_state g \<noteq> Grp_active))"
proof (cases "ensure_pull_request_access s ws repo pr")
  case (Inl e)
  then show ?thesis by (simp add: dismiss_finding_group_def)
next
  case acc: (Inr u)
  show ?thesis
  proof (cases "get_group s gid")
    case None
    with acc show ?thesis by (simp add: dismiss_finding_group_def raise_platform_def)
  next
    case g: (Some g)
    show ?thesis
    proof (cases "fg_workspace_id g = ws \<and> fg_pull_request_id g = pr \<and> fg_state g = Grp_active")
      case False
      with acc g show ?thesis
        by (auto simp: dismiss_finding_group_def raise_platform_def S_def)
    next
      case True
      show ?thesis
      proof (cases "head_revision s pr")
        case None
        with acc g True show ?thesis by (simp add: dismiss_finding_group_def raise_platform_def)
      next
        case rv: (Some rv)
        have id: "fg_id g = gid" using g by (rule get_group_id)
        have "gid \<in> tbl_keys fg_id (ss_groups s)"
          using get_group_in [OF g] id by (auto simp: tbl_keys_def)
        then show ?thesis
          using acc g True rv head_revision_newest [OF rv] id
          by (simp add: dismiss_finding_group_def Let_def human.close_id human.close_skip_iff)
      qed
    qed
  qed
qed

theorem dismiss_finding_group_behaviour_witness:
  "case dismiss_finding_group demo_github_session 3 5 4 10 of
     Inr (s', g') \<Rightarrow> get_group s' 10 = Some g' \<and> fg_resolution_method g' = Some RM_human_dismissed \<and>
       fg_resolved_at_revision_id g' = Some 2
   | Inl e \<Rightarrow> False"
proof -
  have d: "dismiss_finding_group demo_github_session 3 5 4 10 =
      Inr (put_group (close_human 2 demo_group) demo_github_session, close_human 2 demo_group)"
    by (simp add: dismiss_finding_group_def ensure_pull_request_access_def head_revision_def
        demo_github_eval Let_def)
  from dismiss_finding_group_behaviour [of demo_github_session 3 5 4 10]
  have "get_group (put_group (close_human 2 demo_group) demo_github_session) 10 = Some (close_human 2 demo_group)"
    unfolding d by auto
  then show ?thesis by (simp add: d human.close_method human.close_at)
qed

end
