(* ===== verification/Judge.thy ===== *)
theory Judge
  imports Closure
begin

section \<open>The judge (\<open>services/github_finding_judge.py\<close>)\<close>

text \<open>
  Severe findings of a completed run are put to a second model, which upholds, dismisses or
  modifies each.  The model's answer is a parameter, \<open>je_llm\<close>: the n-th request of the pass
  with its prompt and system prompt either raises or gives the parsed JSON object
  (\<open>llm_dispatch.call_judge_llm\<close>, an HTTP call).  The model policy (\<open>resolve_model\<close>) and the
  engineering-context pack are parameters too.  Sessions do not flush before a query
  (\<open>autoflush=False\<close>), so inside the loop the query for an existing outcome sees the outcomes of
  the database and not those the loop has added; these are kept apart until the flush.
\<close>

record model_ref =
  mr_provider :: pystr
  mr_model_id :: pystr

record engineering_pack =
  ep_lock_ids :: "pystr list"
  ep_extracted_text :: pystr

record judge_env =
  je_llm_enabled :: bool
  je_resolve :: "uuid \<Rightarrow> exn + model_ref"
  je_llm :: "nat \<Rightarrow> pystr \<Rightarrow> pystr option \<Rightarrow> exn + (pystr \<times> json) list"
  je_pack :: "review_context \<Rightarrow> pystr \<Rightarrow> exn + engineering_pack"

definition JUDGE_MAX_PER_RUN :: nat where
  "JUDGE_MAX_PER_RUN = 10"

subsection \<open>Prompt context (\<open>services/judge_prompt_context.py\<close>)\<close>

definition JUDGE_PROMPT_PATCH_MAX_CHARS :: nat where
  "JUDGE_PROMPT_PATCH_MAX_CHARS = 2048"

definition JUDGE_ENGINEERING_CONTEXT_MAX_CHARS :: nat where
  "JUDGE_ENGINEERING_CONTEXT_MAX_CHARS = 2048"

definition truncate_judge_prompt_patch :: "pystr \<Rightarrow> pystr" where
  "truncate_judge_prompt_patch patch = take JUDGE_PROMPT_PATCH_MAX_CHARS patch"

text \<open>Python truth of an optional string, and whether it holds more than white space.\<close>

definition has_text :: "pystr option \<Rightarrow> bool" where
  "has_text t \<longleftrightarrow> py_strip (opt_or t []) \<noteq> []"

definition resolve_judge_prompt_file_patch :: "pystr option \<Rightarrow> pystr option \<Rightarrow> pystr option" where
  "resolve_judge_prompt_file_patch evidence patch =
     (if opt_or patch [] = [] then None
      else if has_text evidence then None
      else Some (truncate_judge_prompt_patch (opt_or patch [])))"

definition judge_prompt_file_patch_chars :: "pystr option \<Rightarrow> pystr option \<Rightarrow> nat option" where
  "judge_prompt_file_patch_chars evidence patch =
     (case resolve_judge_prompt_file_patch evidence patch of
        None \<Rightarrow> None
      | Some p \<Rightarrow> if p = [] then None else Some (length p))"

definition format_judge_engineering_context :: "engineering_pack option \<Rightarrow> pystr option" where
  "format_judge_engineering_context pack =
     (case pack of
        None \<Rightarrow> None
      | Some p \<Rightarrow>
          let t = py_strip (ep_extracted_text p)
          in if t = [] then None else Some (truncate_utf8 t JUDGE_ENGINEERING_CONTEXT_MAX_CHARS))"

subsection \<open>Who is judged\<close>

definition is_judge_candidate :: "finding_severity \<Rightarrow> finding_category \<Rightarrow> bool" where
  "is_judge_candidate sev cat =
     (if sev = Sev_error \<or> sev = Sev_critical then True
      else cat = Cat_security \<and> severity_rank Sev_warning \<le> severity_rank sev)"

text \<open>The WHERE clause \<open>judge_candidate_group_sql_predicate\<close> on the row's severity and category.\<close>

definition judge_candidate_group_sql_predicate :: "finding_severity \<Rightarrow> finding_category \<Rightarrow> bool" where
  "judge_candidate_group_sql_predicate sev cat \<longleftrightarrow>
     sev \<in> {Sev_error, Sev_critical} \<or>
     (cat = Cat_security \<and> sev \<in> {Sev_warning, Sev_error, Sev_critical})"

text \<open>The run and its candidates: findings with their group's identifier (the group object is
  read from the session when it is used).\<close>

definition load_judge_candidates ::
  "session \<Rightarrow> uuid \<Rightarrow> review_run option \<times> (finding \<times> uuid) list" where
  "load_judge_candidates s run_id =
     (case get_review_run s run_id of
        None \<Rightarrow> (None, [])
      | Some run \<Rightarrow>
          if rr_status run \<noteq> RR_completed then (Some run, [])
          else (Some run, concat (map (\<lambda>f.
             case fi_group_id f of
               None \<Rightarrow> []
             | Some gid \<Rightarrow>
                 (case get_group s gid of
                    None \<Rightarrow> []
                  | Some g \<Rightarrow>
                      if fg_state g = Grp_resolved then []
                      else if \<not> is_judge_candidate (fi_severity f) (fi_category f) then []
                      else [(f, gid)])) (run_findings s run_id))))"

subsection \<open>The prompt\<close>

definition line_reference :: "int \<Rightarrow> int option \<Rightarrow> pystr" where
  "line_reference start end_line =
     (case end_line of
        Some e \<Rightarrow> if e \<noteq> start then py_str_int start @ S ''-'' @ py_str_int e else py_str_int start
      | None \<Rightarrow> py_str_int start)"

definition path_or_na :: "pystr option \<Rightarrow> pystr" where
  "path_or_na p = (if opt_or p [] = [] then S ''n/a'' else opt_or p [])"

definition build_judge_prompt ::
  "finding_group \<Rightarrow> pystr option \<Rightarrow> int option \<Rightarrow> int option \<Rightarrow> pystr option \<Rightarrow> pystr option
   \<Rightarrow> pystr option \<Rightarrow> pystr" where
  \<open>build_judge_prompt g evidence start_line end_line suggestion file_patch engineering = py_join [10] (
     [S ''Automated reviewer (Moonshot) raised the finding below. Verify this claim only.'',
      S ''Do not introduce new findings.'',
      [],
      S ''Title: '' @ fg_title g,
      S ''Severity: '' @ severity_value (fg_severity g),
      S ''Category: '' @ category_value (fg_category g),
      S ''File: '' @ path_or_na (fg_file_path g),
      S ''Message: '' @ fg_message g] @
     (case start_line of Some l \<Rightarrow> [S ''Line: '' @ line_reference l end_line] | None \<Rightarrow> []) @
     (if opt_or suggestion [] \<noteq> [] then [S ''Suggested fix: '' @ opt_or suggestion []] else []) @
     (if has_text evidence then
        [[], S ''Evidence (code excerpt from diff or retrieval):'', opt_or evidence [], [],
         S ''Grounding (E2): Dismiss or weaken the finding if the claim is not entailed by the evidence excerpt. Uphold only when the excerpt supports the severity and message.'']
      else
        [[], S ''Grounding (E2): No evidence excerpt was captured. Judge conservatively; dismiss if the claim cannot be verified from the message alone.'']) @
     (if opt_or engineering [] \<noteq> [] then
        [[], S ''Engineering context (authoritative locks):'', opt_or engineering []] else []) @
     (case resolve_judge_prompt_file_patch evidence file_patch of
        Some p \<Rightarrow> if p \<noteq> [] then [[], S ''File diff (scoped):'', p] else []
      | None \<Rightarrow> []))\<close>

subsection \<open>One request, with one retry\<close>

text \<open>\<open>parse_judge_outcome\<close> of \<open>anthropic_review.py\<close>: the string forms of other JSON values are
  none of the three words.\<close>

definition parse_judge_outcome :: "(pystr \<times> json) list \<Rightarrow> exn + judge_outcome \<times> pystr option" where
  "parse_judge_outcome raw =
     (case (case json_get (S ''outcome'') raw of
              Some (JStr t) \<Rightarrow> outcome_of (py_lower (py_strip t)) | _ \<Rightarrow> None) of
        None \<Rightarrow> Inl (Value_error (S ''judge_outcome_invalid''))
      | Some out \<Rightarrow> Inr (out,
          case json_get (S ''notes'') raw of
            Some (JStr n) \<Rightarrow> if py_strip n \<noteq> [] then Some (py_strip n) else None
          | _ \<Rightarrow> None))"

fun is_parse_contract_error :: "exn \<Rightarrow> bool" where
  "is_parse_contract_error (Judge_parse_error code txt) = True"
| "is_parse_contract_error (Value_error m) = (m = S ''judge_outcome_invalid'')"
| "is_parse_contract_error _ = False"

text \<open>\<open>getattr(exc, "code", str(exc))\<close> of a contract error.\<close>

fun contract_error_code :: "exn \<Rightarrow> pystr" where
  "contract_error_code (Judge_parse_error code txt) = code"
| "contract_error_code (Value_error m) = m"
| "contract_error_code _ = []"

definition judge_retry_prompt :: "pystr \<Rightarrow> exn \<Rightarrow> pystr" where
  \<open>judge_retry_prompt user_prompt e =
     user_prompt @ [10, 10] @ S ''Previous judge response failed parse ('' @ contract_error_code e @ S ''). '' @
     S ''Return JSON only: {"outcome":"upheld|dismissed|modified","notes":"brief rationale"}''\<close>

definition ask_judge ::
  "judge_env \<Rightarrow> nat \<Rightarrow> pystr \<Rightarrow> pystr option \<Rightarrow> exn + (pystr \<times> json) list" where
  "ask_judge env n user_prompt system =
     rbind (je_llm env n user_prompt system) (\<lambda>raw.
       rbind (parse_judge_outcome raw) (\<lambda>_. Inr raw))"

text \<open>The error of the retry keeps the text of the first answer.\<close>

fun keep_first_text :: "exn \<Rightarrow> exn \<Rightarrow> exn" where
  "keep_first_text (Judge_parse_error c1 t1) (Judge_parse_error c2 t2) =
     (if t1 \<noteq> [] then Judge_parse_error c2 t1 else Judge_parse_error c2 t2)"
| "keep_first_text _ e = e"

text \<open>The result carries the retry count (on an error, its \<open>judge_retry_count\<close> attribute, 0 when
  it was not set) and the number of requests made so far.\<close>

definition call_judge_with_optional_retry ::
  "judge_env \<Rightarrow> nat \<Rightarrow> pystr \<Rightarrow> pystr option
   \<Rightarrow> ((exn \<times> nat) + ((pystr \<times> json) list \<times> nat)) \<times> nat" where
  "call_judge_with_optional_retry env n user_prompt system =
     (case ask_judge env n user_prompt system of
        Inr raw \<Rightarrow> (Inr (raw, 0), Suc n)
      | Inl e \<Rightarrow>
          if \<not> is_parse_contract_error e then (Inl (e, 0), Suc n)
          else case ask_judge env (Suc n) (judge_retry_prompt user_prompt e) system of
            Inr raw \<Rightarrow> (Inr (raw, 1), Suc (Suc n))
          | Inl e2 \<Rightarrow>
              if \<not> is_parse_contract_error e2 then (Inl (e2, 0), Suc (Suc n))
              else (Inl (keep_first_text e e2, 1), Suc (Suc n)))"

text \<open>\<open>except (httpx.HTTPError, ValueError, ServiceUnavailableError)\<close>.\<close>

definition is_judge_failure :: "exn \<Rightarrow> bool" where
  "is_judge_failure e \<longleftrightarrow> is_http_error e \<or> is_value_error e \<or> is_platform ServiceUnavailableError e"

subsection \<open>The loop\<close>

record judge_artifact =
  ja_group_id :: uuid
  ja_evidence_snippet :: "pystr option"
  ja_user_prompt :: pystr
  ja_outcome :: "judge_outcome option"
  ja_file_patch_chars :: "nat option"
  ja_lock_ids_cited :: "pystr list option"
  ja_error :: "exn option"
  ja_retry_count :: nat

text \<open>The state of a judging pass: the session (groups change in place), the outcomes added and
  not yet flushed, the artifacts, the count, and the number of requests made.\<close>

record judge_state =
  jst_session :: session
  jst_added :: "judge_row list"
  jst_artifacts :: "judge_artifact list"
  jst_judged :: nat
  jst_requests :: nat

definition outcome_row ::
  "review_run \<Rightarrow> uuid \<Rightarrow> judge_outcome \<Rightarrow> judge_purpose \<Rightarrow> model_ref \<Rightarrow> pystr option \<Rightarrow> judge_row" where
  "outcome_row run gid out purpose model notes = \<lparr>
     jo_id = 0, jo_group_id = gid, jo_review_run_id = rr_id run, jo_workspace_id = rr_workspace_id run,
     jo_outcome = out, jo_judge_purpose = purpose, jo_judge_provider = Some (mr_provider model),
     jo_judge_model_id = Some (mr_model_id model), jo_judge_notes = notes\<rparr>"

text \<open>A flush inserts the added rows; the server gives their identifiers.\<close>

definition flush_outcome :: "judge_row \<Rightarrow> session \<Rightarrow> session" where
  "flush_outcome r s =
     tick (s\<lparr>ss_outcomes := tbl_add (r\<lparr>jo_id := next_uuid s\<rparr>) (ss_outcomes s)\<rparr>)"

definition flush_outcomes :: "judge_row list \<Rightarrow> session \<Rightarrow> session" where
  "flush_outcomes rows s = fold flush_outcome rows s"

definition judged_group :: "judge_outcome \<Rightarrow> uuid \<Rightarrow> finding_group \<Rightarrow> finding_group" where
  "judged_group out rv g =
     (if out = JO_dismissed then
        (case apply_resolution_method_on_judge_dismiss out rv of
           Some f \<Rightarrow> apply_fields f g | None \<Rightarrow> g)
      else if out = JO_modified then g\<lparr>fg_severity := Sev_warning\<rparr>
      else g)"

definition judge_evidence :: "finding \<Rightarrow> (pystr \<times> pystr) list \<Rightarrow> pystr option \<times> pystr option" where
  "judge_evidence f patches =
     (let ctx = resolve_judge_code_context (fi_file_path f) (fi_start_line f) patches []
      in (if opt_or (fi_evidence_snippet f) [] \<noteq> [] then fi_evidence_snippet f else fst ctx, snd ctx))"

definition judge_candidate ::
  "judge_env \<Rightarrow> review_run \<Rightarrow> (pystr \<times> pystr) list \<Rightarrow> engineering_pack option \<Rightarrow> model_ref
   \<Rightarrow> finding \<times> uuid \<Rightarrow> judge_state \<Rightarrow> exn + judge_state" where
  "judge_candidate env run patches pack model c st =
     (let f = fst c; gid = snd c; s = jst_session st in
      if list_ex (\<lambda>r. jo_review_run_id r = rr_id run \<and> jo_group_id r = gid) (ss_outcomes s) then Inr st
      else case get_group s gid of
        None \<Rightarrow> Inr st
      | Some g \<Rightarrow>
          let (evidence, file_patch) = judge_evidence f patches;
              chars = judge_prompt_file_patch_chars evidence file_patch;
              prompt = build_judge_prompt g evidence (fi_start_line f) (fi_end_line f)
                (fi_suggestion f) file_patch (format_judge_engineering_context pack);
              locks = (case pack of Some p \<Rightarrow> if ep_lock_ids p = [] then None else Some (ep_lock_ids p)
                       | None \<Rightarrow> None);
              (answer, n) = call_judge_with_optional_retry env (jst_requests st) prompt None;
              art = \<lparr>ja_group_id = gid, ja_evidence_snippet = evidence, ja_user_prompt = prompt,
                ja_outcome = None, ja_file_patch_chars = chars, ja_lock_ids_cited = None,
                ja_error = None, ja_retry_count = 0\<rparr>
          in case answer of
            Inl (e, retries) \<Rightarrow>
              if is_judge_failure e then
                Inr (st\<lparr>jst_requests := n,
                  jst_artifacts := jst_artifacts st @ [art\<lparr>ja_error := Some e, ja_retry_count := retries\<rparr>]\<rparr>)
              else Inl e
          | Inr (raw, retries) \<Rightarrow>
              (case parse_judge_outcome raw of
                 Inl e \<Rightarrow> Inl e
               | Inr (out, notes) \<Rightarrow>
                   Inr (st\<lparr>
                     jst_session := put_group (judged_group out (rr_revision_id run) g) s,
                     jst_added := jst_added st @ [outcome_row run gid out JP_discovery model notes],
                     jst_artifacts := jst_artifacts st @ [art\<lparr>ja_outcome := Some out,
                       ja_lock_ids_cited := locks, ja_retry_count := retries\<rparr>],
                     jst_judged := Suc (jst_judged st),
                     jst_requests := n\<rparr>)))"

fun judge_loop ::
  "('c \<Rightarrow> judge_state \<Rightarrow> exn + judge_state) \<Rightarrow> 'c list \<Rightarrow> judge_state \<Rightarrow> exn + judge_state" where
  "judge_loop step [] st = Inr st"
| "judge_loop step (c # cs) st = rbind (step c st) (judge_loop step cs)"

text \<open>Both judging passes run this loop.  What they share is the contract of a step: the invariant
  \<open>inv\<close> speaks of the candidates already seen, and a step extends it by one candidate, as long as the
  candidates seen are admissible.\<close>

locale judging =
  fixes step :: "'c \<Rightarrow> judge_state \<Rightarrow> exn + judge_state"
    and ok :: "'c list \<Rightarrow> bool"
    and inv :: "'c list \<Rightarrow> judge_state \<Rightarrow> bool"
  assumes ok_prefix: "ok (ds @ es) \<Longrightarrow> ok ds"
    and step_keeps: "inv ds st \<Longrightarrow> ok (ds @ [c]) \<Longrightarrow> step c st = Inr st' \<Longrightarrow> inv (ds @ [c]) st'"
begin

lemma loop_keeps:
  "inv ds st \<Longrightarrow> ok (ds @ cs) \<Longrightarrow> judge_loop step cs st = Inr st' \<Longrightarrow> inv (ds @ cs) st'"
proof (induction cs arbitrary: ds st)
  case (Cons c cs)
  from Cons.prems(3) obtain st1 where s: "step c st = Inr st1" "judge_loop step cs st1 = Inr st'"
    by (auto simp: rbind_eq_Inr)
  have "ok (ds @ [c])" using Cons.prems(2) ok_prefix [of "ds @ [c]" cs] by simp
  from step_keeps [OF Cons.prems(1) this s(1)] have "inv (ds @ [c]) st1" .
  from Cons.IH [OF this _ s(2)] Cons.prems(2) show ?case by simp
qed simp

lemma pass_keeps: "inv [] st \<Longrightarrow> ok cs \<Longrightarrow> judge_loop step cs st = Inr st' \<Longrightarrow> inv cs st'"
  using loop_keeps [of "[]" st cs st'] by simp

end

definition start_judging :: "session \<Rightarrow> judge_state" where
  "start_judging s = \<lparr>jst_session = s, jst_added = [], jst_artifacts = [], jst_judged = 0, jst_requests = 0\<rparr>"

definition run_judge_llm_loop ::
  "judge_env \<Rightarrow> session \<Rightarrow> review_run \<Rightarrow> (finding \<times> uuid) list \<Rightarrow> model_ref \<Rightarrow> (pystr \<times> pystr) list
   \<Rightarrow> engineering_pack option \<Rightarrow> exn + judge_state" where
  "run_judge_llm_loop env s run candidates model patches pack =
     judge_loop (judge_candidate env run patches pack model) (take JUDGE_MAX_PER_RUN candidates)
       (start_judging s)"

subsection \<open>The judge status of the run\<close>

definition review_run_has_judge_outcomes :: "session \<Rightarrow> uuid \<Rightarrow> bool" where
  "review_run_has_judge_outcomes s run_id \<longleftrightarrow>
     list_ex (\<lambda>r. jo_review_run_id r = run_id) (ss_outcomes s)"

definition judge_candidates_missing_outcome :: "session \<Rightarrow> uuid \<Rightarrow> (finding \<times> uuid) list \<Rightarrow> bool" where
  "judge_candidates_missing_outcome s run_id candidates \<longleftrightarrow>
     list_ex (\<lambda>c. (case get_group s (snd c) of
          None \<Rightarrow> False
        | Some g \<Rightarrow> fg_state g \<noteq> Grp_resolved \<and>
            \<not> list_ex (\<lambda>r. jo_review_run_id r = run_id \<and> jo_group_id r = snd c) (ss_outcomes s)))
       candidates"

definition set_judge_status :: "uuid \<Rightarrow> judge_status \<Rightarrow> session \<Rightarrow> session" where
  "set_judge_status run_id st s =
     (case get_review_run s run_id of
        None \<Rightarrow> s | Some run \<Rightarrow> put_review_run (run\<lparr>rr_judge_status := st\<rparr>) s)"

definition set_candidate_count :: "uuid \<Rightarrow> nat \<Rightarrow> session \<Rightarrow> session" where
  "set_candidate_count run_id n s =
     (case get_review_run s run_id of
        None \<Rightarrow> s
      | Some run \<Rightarrow> put_review_run (run\<lparr>rr_judge_escalation_candidate_count := int n\<rparr>) s)"

text \<open>The patches and the engineering pack the loop is given.\<close>

definition judge_code ::
  "gh \<Rightarrow> judge_env \<Rightarrow> session \<Rightarrow> review_run \<Rightarrow> exn + (pystr \<times> pystr) list \<times> engineering_pack" where
  "judge_code gh env s run =
     (let empty_pack = \<lparr>ep_lock_ids = [], ep_extracted_text = []\<rparr> in
      case get_revision s (rr_revision_id run) of
        None \<Rightarrow> Inr ([], empty_pack)
      | Some rv \<Rightarrow>
          (case get_pull_request s (rev_pull_request_id rv) of
             None \<Rightarrow> Inr ([], empty_pack)
           | Some pr \<Rightarrow>
               rbind (fetch_compare_review_context gh s pr rv) (\<lambda>ctx.
                 if rc_github_installation_id ctx \<noteq> None \<and> rc_owner ctx \<noteq> None \<and> rc_repo_name ctx \<noteq> None
                 then rbind (je_pack env ctx (rev_head_sha rv)) (\<lambda>pack. Inr (rc_patches_by_file ctx, pack))
                 else Inr (rc_patches_by_file ctx, empty_pack))))"

text \<open>The end of the pass: the outcomes are flushed and the status set.\<close>

definition judged_session :: "uuid \<Rightarrow> (finding \<times> uuid) list \<Rightarrow> judge_state \<Rightarrow> session" where
  "judged_session run_id cands st =
     (let s2 = flush_outcomes (jst_added st) (jst_session st) in
      set_judge_status run_id
        (if judge_candidates_missing_outcome s2 run_id cands
         then JS_skipped_unavailable else JS_completed) s2)"

text \<open>The result: the session, the number judged, the model used, and the artifacts.\<close>

definition record_review_run_judge_status_with_model ::
  "gh \<Rightarrow> judge_env \<Rightarrow> session \<Rightarrow> uuid
   \<Rightarrow> exn + session \<times> nat \<times> model_ref option \<times> judge_artifact list" where
  "record_review_run_judge_status_with_model gh env s run_id =
     (let (run_opt, candidates) = load_judge_candidates s run_id in
      case run_opt of
        None \<Rightarrow> Inr (s, 0, None, [])
      | Some run \<Rightarrow>
          let s1 = set_candidate_count run_id (length candidates) s;
              has = review_run_has_judge_outcomes s run_id;
              quit = (\<lambda>st. Inr (set_judge_status run_id st s1, 0, None, []))
          in if rr_status run \<noteq> RR_completed \<or> candidates = []
             then quit (if candidates = [] \<and> has then JS_completed else JS_not_applicable)
             else if \<not> je_llm_enabled env
             then quit (if has then JS_completed else JS_skipped_disabled)
             else case je_resolve env (rr_workspace_id run) of
               Inl e \<Rightarrow>
                 if is_platform ServiceUnavailableError e \<or> is_platform ValidationError e
                 then quit (if has then JS_completed else JS_skipped_unavailable)
                 else Inl e
             | Inr model \<Rightarrow>
                 rbind (judge_code gh env s1 run) (\<lambda>(patches, pack).
                 rbind (run_judge_llm_loop env s1 run candidates model patches (Some pack)) (\<lambda>st.
                   Inr (judged_session run_id candidates st, jst_judged st, Some model,
                        jst_artifacts st))))"

definition finalize_review_run_judge_status :: "session \<Rightarrow> uuid \<Rightarrow> session" where
  "finalize_review_run_judge_status s run_id =
     (case get_review_run s run_id of
        None \<Rightarrow> s
      | Some run \<Rightarrow>
          if rr_judge_status run \<noteq> JS_skipped_unavailable then s
          else
            let candidates = snd (load_judge_candidates s run_id)
            in if judge_candidates_missing_outcome s run_id candidates then s
               else set_judge_status run_id JS_completed s)"

subsection \<open>The requests\<close>

lemma judge_requests:
  "call_judge_with_optional_retry env n prompt system = (r, m) \<Longrightarrow>
     n < m \<and> m \<le> n + 2 \<and>
     (\<forall>raw k. r = Inr (raw, k) \<longrightarrow> (\<exists>x. parse_judge_outcome raw = Inr x) \<and> m = Suc (n + k))"
  by (auto simp: call_judge_with_optional_retry_def ask_judge_def rbind_eq_Inr
      split: sum.splits if_splits)

text \<open>The judge is asked at most twice: a first answer that parses is final, a failure that is
  not about the answer's format is never retried, and a format error is retried once, with the
  error appended to the same prompt; the answer that counts always has a valid outcome.\<close>

theorem judge_retry_behaviour:
  "case ask_judge env n prompt system of
     Inr raw \<Rightarrow> call_judge_with_optional_retry env n prompt system = (Inr (raw, 0), Suc n) \<and>
       (\<exists>out. parse_judge_outcome raw = Inr out)
   | Inl e \<Rightarrow>
       (if is_parse_contract_error e then
          snd (call_judge_with_optional_retry env n prompt system) = n + 2 \<and>
          (\<forall>raw. ask_judge env (Suc n) (judge_retry_prompt prompt e) system = Inr raw \<longrightarrow>
             fst (call_judge_with_optional_retry env n prompt system) = Inr (raw, 1) \<and>
             (\<exists>out. parse_judge_outcome raw = Inr out))
        else call_judge_with_optional_retry env n prompt system = (Inl (e, 0), Suc n))"
  by (auto simp: call_judge_with_optional_retry_def ask_judge_def rbind_eq_Inr split: sum.splits)

text \<open>A judge that answers with a fixed word, and one whose first answer is malformed.\<close>

definition demo_judge :: "pystr \<Rightarrow> judge_env" where
  "demo_judge word = \<lparr>je_llm_enabled = True, je_resolve = (\<lambda>ws. Inr \<lparr>mr_provider = S ''p'', mr_model_id = S ''m''\<rparr>),
     je_llm = (\<lambda>n p sys. Inr [(S ''outcome'', JStr word)]),
     je_pack = (\<lambda>ctx h. Inr \<lparr>ep_lock_ids = [], ep_extracted_text = []\<rparr>)\<rparr>"

definition stumbling_judge :: judge_env where
  "stumbling_judge = (demo_judge (S ''upheld''))\<lparr>je_llm := (\<lambda>n p sys.
     if n = 0 then Inr [] else Inr [(S ''outcome'', JStr (S '' Upheld''))])\<rparr>"

theorem judge_retry_behaviour_witness:
  "fst (call_judge_with_optional_retry stumbling_judge 0 (S ''q'') None) =
     Inr ([(S ''outcome'', JStr (S '' Upheld''))], 1)"
proof -
  have a: "ask_judge stumbling_judge 0 (S ''q'') None = Inl (Value_error (S ''judge_outcome_invalid''))"
    by (simp add: ask_judge_def stumbling_judge_def parse_judge_outcome_def)
  have b: "ask_judge stumbling_judge (Suc 0) p None = Inr [(S ''outcome'', JStr (S '' Upheld''))]" for p
    by (simp add: ask_judge_def stumbling_judge_def parse_judge_outcome_def outcome_of_def
        outcome_value_def S_def py_lower_def lower_cp_def py_strip_def py_lstrip_def py_rstrip_def
        is_py_space_def)
  from judge_retry_behaviour [of stumbling_judge 0 "S ''q''" None] show ?thesis
    by (simp add: a b)
qed

subsection \<open>The pass over the candidates\<close>

lemma flush_outcomes_rows:
  "map (\<lambda>r. r\<lparr>jo_id := 0\<rparr>) (ss_outcomes (flush_outcomes rows s)) =
     map (\<lambda>r. r\<lparr>jo_id := 0\<rparr>) (ss_outcomes s) @ map (\<lambda>r. r\<lparr>jo_id := 0\<rparr>) rows"
  by (induction rows arbitrary: s) (simp_all add: flush_outcomes_def flush_outcome_def tick_def tbl_add_def)

lemma flush_outcomes_frame [simp]:
  "ss_groups (flush_outcomes rows s) = ss_groups s"
  "ss_review_runs (flush_outcomes rows s) = ss_review_runs s"
  by (induction rows arbitrary: s) (simp_all add: flush_outcomes_def flush_outcome_def tick_def)

lemma flush_outcomes_ex:
  assumes "\<And>r. p (r\<lparr>jo_id := 0\<rparr>) = p r"
  shows "list_ex p (ss_outcomes (flush_outcomes rows s)) \<longleftrightarrow> list_ex p (ss_outcomes s) \<or> list_ex p rows"
proof -
  have m: "list_ex p xs = list_ex p (map (\<lambda>r. r\<lparr>jo_id := 0\<rparr>) xs)" for xs
    by (induction xs) (simp_all add: assms)
  show ?thesis
    unfolding m [of "ss_outcomes (flush_outcomes rows s)"] flush_outcomes_rows
    by (simp add: m [symmetric])
qed

text \<open>What the loop keeps: the outcomes it adds are about candidates of this run that had none,
  and every change of a group is accounted for by an outcome.\<close>

definition accounted :: "uuid \<Rightarrow> judge_row list \<Rightarrow> finding_group \<Rightarrow> finding_group \<Rightarrow> bool" where
  "accounted rv added g g' \<longleftrightarrow>
     same_identity g' g \<and> fg_last_seen_revision_id g' = fg_last_seen_revision_id g \<and>
     (g' \<noteq> g \<longrightarrow> (\<exists>r\<in>set added. jo_group_id r = fg_id g \<and> jo_outcome r \<noteq> JO_upheld)) \<and>
     (fg_state g' \<noteq> fg_state g \<longrightarrow>
        (\<exists>r\<in>set added. jo_group_id r = fg_id g \<and> jo_outcome r = JO_dismissed) \<and>
        fg_state g' = Grp_resolved \<and> fg_resolution_method g' = Some RM_judge_dismissed \<and>
        fg_resolved_at_revision_id g' = Some rv)"

definition judge_inv :: "session \<Rightarrow> review_run \<Rightarrow> (finding \<times> uuid) list \<Rightarrow> nat \<Rightarrow> judge_state \<Rightarrow> bool" where
  "judge_inv s0 run cands k st \<longleftrightarrow>
     ss_outcomes (jst_session st) = ss_outcomes s0 \<and>
     ss_review_runs (jst_session st) = ss_review_runs s0 \<and>
     jst_judged st = length (jst_added st) \<and> length (jst_added st) \<le> k \<and> jst_requests st \<le> 2 * k \<and>
     (\<forall>r\<in>set (jst_added st). jo_review_run_id r = rr_id run \<and> jo_judge_purpose r = JP_discovery \<and>
        jo_group_id r \<in> snd ` set cands \<and>
        \<not> list_ex (\<lambda>o'. jo_review_run_id o' = rr_id run \<and> jo_group_id o' = jo_group_id r) (ss_outcomes s0)) \<and>
     (\<forall>g. get_group s0 g = None \<longleftrightarrow> get_group (jst_session st) g = None) \<and>
     (\<forall>gid g. get_group s0 gid = Some g \<longrightarrow>
        (\<exists>g'. get_group (jst_session st) gid = Some g' \<and>
              accounted (rr_revision_id run) (jst_added st) g g'))"

lemma judged_group_facts:
  "same_identity (judged_group out rv g) g" "fg_id (judged_group out rv g) = fg_id g"
  "fg_last_seen_revision_id (judged_group out rv g) = fg_last_seen_revision_id g"
  "judged_group JO_upheld rv g = g"
  "fg_state (judged_group out rv g) = (if out = JO_dismissed then Grp_resolved else fg_state g)"
  "fg_resolution_method (judged_group out rv g) =
     (if out = JO_dismissed then Some RM_judge_dismissed else fg_resolution_method g)"
  "fg_resolved_at_revision_id (judged_group out rv g) =
     (if out = JO_dismissed then Some rv else fg_resolved_at_revision_id g)"
  by (auto simp: judged_group_def apply_resolution_method_on_judge_dismiss_def same_identity_def
      apply_fields_def)

lemma judge_candidate_cases:
  assumes "judge_candidate env run patches pack model c st = Inr st'"
  obtains (skip) "st' = st"
    | (failed) m arts where "st' = st\<lparr>jst_requests := m, jst_artifacts := arts\<rparr>"
        "jst_requests st < m" "m \<le> jst_requests st + 2"
    | (judged) g out nts m arts where
        "\<not> list_ex (\<lambda>r. jo_review_run_id r = rr_id run \<and> jo_group_id r = snd c) (ss_outcomes (jst_session st))"
        "get_group (jst_session st) (snd c) = Some g"
        "st' = st\<lparr>jst_session := put_group (judged_group out (rr_revision_id run) g) (jst_session st),
           jst_added := jst_added st @ [outcome_row run (snd c) out JP_discovery model nts],
           jst_artifacts := arts, jst_judged := Suc (jst_judged st), jst_requests := m\<rparr>"
        "jst_requests st < m" "m \<le> jst_requests st + 2"
proof (cases "list_ex (\<lambda>r. jo_review_run_id r = rr_id run \<and> jo_group_id r = snd c) (ss_outcomes (jst_session st))")
  case True
  with assms have "st' = st" by (simp add: judge_candidate_def Let_def)
  then show ?thesis by (rule skip)
next
  case ex: False
  show ?thesis
  proof (cases "get_group (jst_session st) (snd c)")
    case None
    with assms ex have "st' = st" by (simp add: judge_candidate_def Let_def)
    then show ?thesis by (rule skip)
  next
    case g: (Some g)
    obtain evidence file_patch where ev: "judge_evidence (fst c) patches = (evidence, file_patch)" by fastforce
    let ?prompt = "build_judge_prompt g evidence (fi_start_line (fst c)) (fi_end_line (fst c))
                (fi_suggestion (fst c)) file_patch (format_judge_engineering_context pack)"
    obtain answer m where call:
      "call_judge_with_optional_retry env (jst_requests st) ?prompt None = (answer, m)" by fastforce
    note req = judge_requests [OF call]
    show ?thesis
    proof (cases answer)
      case (Inl er)
      obtain e k where er: "er = (e, k)" by fastforce
      from assms ex g ev call Inl er have "\<exists>arts. st' = st\<lparr>jst_requests := m, jst_artifacts := arts\<rparr>"
        by (auto simp: judge_candidate_def Let_def split: if_splits)
      with req show ?thesis using failed by blast
    next
      case (Inr rk)
      obtain raw k where rk: "rk = (raw, k)" by fastforce
      with req Inr obtain out nts where p: "parse_judge_outcome raw = Inr (out, nts)"
        by (metis surj_pair)
      from assms ex g ev call Inr rk p obtain arts where
        "st' = st\<lparr>jst_session := put_group (judged_group out (rr_revision_id run) g) (jst_session st),
           jst_added := jst_added st @ [outcome_row run (snd c) out JP_discovery model nts],
           jst_artifacts := arts, jst_judged := Suc (jst_judged st), jst_requests := m\<rparr>"
        by (auto simp: judge_candidate_def Let_def)
      with ex g req show ?thesis using judged by blast
    qed
  qed
qed

lemma accounted_mono: "accounted rv added g g' \<Longrightarrow> accounted rv (added @ xs) g g'"
  by (auto simp: accounted_def)

lemma accounted_step:
  assumes "accounted rv added g0 g" and "out \<noteq> JO_upheld \<Longrightarrow> r \<in> set added'"
    and "set added \<subseteq> set added'" and "jo_group_id r = fg_id g0" and "jo_outcome r = out"
  shows "accounted rv added' g0 (judged_group out rv g)"
  unfolding accounted_def
proof (intro conjI impI)
  show "same_identity (judged_group out rv g) g0"
    using assms(1) judged_group_facts(1) same_identity_trans unfolding accounted_def by blast
  show "fg_last_seen_revision_id (judged_group out rv g) = fg_last_seen_revision_id g0"
    using assms(1) by (simp add: accounted_def judged_group_facts)
next
  assume ne: "judged_group out rv g \<noteq> g0"
  show "\<exists>r\<in>set added'. jo_group_id r = fg_id g0 \<and> jo_outcome r \<noteq> JO_upheld"
  proof (cases "out = JO_upheld")
    case True
    with ne have "g \<noteq> g0" by (simp add: judged_group_facts)
    with assms(1,3) show ?thesis unfolding accounted_def by blast
  qed (use assms in blast)
next
  assume ch: "fg_state (judged_group out rv g) \<noteq> fg_state g0"
  show "\<exists>r\<in>set added'. jo_group_id r = fg_id g0 \<and> jo_outcome r = JO_dismissed"
  proof (cases "out = JO_dismissed")
    case False
    with ch have "fg_state g \<noteq> fg_state g0" by (simp add: judged_group_facts)
    with assms(1,3) show ?thesis unfolding accounted_def by blast
  qed (use assms in auto)
  show "fg_state (judged_group out rv g) = Grp_resolved"
    "fg_resolution_method (judged_group out rv g) = Some RM_judge_dismissed"
    "fg_resolved_at_revision_id (judged_group out rv g) = Some rv"
    using ch assms(1) by (auto simp: judged_group_facts accounted_def)
qed

lemma judge_inv_step:
  assumes inv: "judge_inv s0 run cands k st" and c: "c \<in> set cands"
    and step: "judge_candidate env run patches pack model c st = Inr st'"
  shows "judge_inv s0 run cands (Suc k) st'"
  using step
proof (cases rule: judge_candidate_cases)
  case skip
  with inv show ?thesis by (auto simp: judge_inv_def)
next
  case (failed m arts)
  with inv show ?thesis by (simp add: judge_inv_def)
next
  case (judged g out nts m arts)
  let ?s = "jst_session st" and ?r = "outcome_row run (snd c) out JP_discovery model nts"
  let ?g = "judged_group out (rr_revision_id run) g"
  have id: "fg_id g = snd c" using judged(2) by (rule get_group_id)
  have key: "snd c \<in> tbl_keys fg_id (ss_groups ?s)"
    using imageI [OF get_group_in [OF judged(2)], of fg_id] id by (simp add: tbl_keys_def)
  have get: "get_group (put_group ?g ?s) gid = (if gid = snd c then Some ?g else get_group ?s gid)" for gid
    using key by (auto simp: judged_group_facts id)
  have acc: "\<exists>g'. get_group (put_group ?g ?s) gid = Some g' \<and>
      accounted (rr_revision_id run) (jst_added st @ [?r]) g1 g'"
    if g1: "get_group s0 gid = Some g1" for gid g1
  proof -
    from inv g1 obtain g2 where g2: "get_group ?s gid = Some g2"
      "accounted (rr_revision_id run) (jst_added st) g1 g2"
      unfolding judge_inv_def by blast
    show ?thesis
    proof (cases "gid = snd c")
      case True
      with g2(1) judged(2) have "g2 = g" by simp
      moreover have "fg_id g1 = snd c" using g1 True by (auto dest: get_group_id)
      ultimately have "accounted (rr_revision_id run) (jst_added st @ [?r]) g1 ?g"
        using g2(2) by (intro accounted_step [where added = "jst_added st" and r = ?r])
          (auto simp: outcome_row_def)
      with True get show ?thesis by simp
    next
      case False
      with g2 get accounted_mono show ?thesis by simp
    qed
  qed
  have none: "get_group s0 gid = None \<longleftrightarrow> get_group (put_group ?g ?s) gid = None" for gid
    using inv judged(2) unfolding get judge_inv_def by auto
  show ?thesis
    unfolding judge_inv_def judged(3)
  proof (intro conjI)
    show "\<forall>gid g. get_group s0 gid = Some g \<longrightarrow> (\<exists>g'.
        get_group (jst_session (st\<lparr>jst_session := put_group ?g ?s, jst_added := jst_added st @ [?r],
          jst_artifacts := arts, jst_judged := Suc (jst_judged st), jst_requests := m\<rparr>)) gid = Some g' \<and>
        accounted (rr_revision_id run) (jst_added (st\<lparr>jst_session := put_group ?g ?s, jst_added := jst_added st @ [?r],
          jst_artifacts := arts, jst_judged := Suc (jst_judged st), jst_requests := m\<rparr>)) g g')"
      using acc by (simp del: get_group_put)
    show "\<forall>gid. get_group s0 gid = None \<longleftrightarrow>
        get_group (jst_session (st\<lparr>jst_session := put_group ?g ?s, jst_added := jst_added st @ [?r],
          jst_artifacts := arts, jst_judged := Suc (jst_judged st), jst_requests := m\<rparr>)) gid = None"
      using none by (simp del: get_group_put)
  qed (use inv judged(1,4,5) c in \<open>auto simp: judge_inv_def put_group_def outcome_row_def\<close>)
qed

interpretation discovery: judging "judge_candidate env run patches pack model" "\<lambda>ds. set ds \<subseteq> set cands"
    "\<lambda>ds. judge_inv s0 run cands (length ds)"
  for env run patches pack model cands s0
  by unfold_locales (auto intro: judge_inv_step)

lemma judge_inv_start: "judge_inv s run cands 0 (start_judging s)"
  by (simp add: judge_inv_def start_judging_def accounted_def)

lemma run_judge_inv:
  assumes "run_judge_llm_loop env s run candidates model patches pack = Inr st"
  shows "judge_inv s run candidates (min JUDGE_MAX_PER_RUN (length candidates)) st"
  using discovery.pass_keeps [OF _ set_take_subset assms [unfolded run_judge_llm_loop_def], of s]
  by (simp add: min.commute judge_inv_start)

text \<open>C6. The judge loop is bounded and accounts for what it does: it judges at most ten of the
  candidates with at most two requests each, every outcome it adds is a discovery outcome of this run
  for a candidate group that had none in the database, every group keeps its identity, and a group
  that changed has an outcome other than upheld; one whose state changed was resolved as dismissed
  by the judge at the run's revision and has a dismissing outcome.\<close>

theorem judge_loop_accounts:
  assumes "run_judge_llm_loop env s run candidates model patches pack = Inr st"
  shows "jst_judged st = length (jst_added st) \<and> jst_judged st \<le> 10 \<and> jst_requests st \<le> 20 \<and>
    (\<forall>r\<in>set (jst_added st). jo_review_run_id r = rr_id run \<and> jo_judge_purpose r = JP_discovery \<and>
       jo_group_id r \<in> snd ` set candidates \<and>
       \<not> (\<exists>o'\<in>set (ss_outcomes s). jo_review_run_id o' = rr_id run \<and> jo_group_id o' = jo_group_id r)) \<and>
    (\<forall>gid g. get_group s gid = Some g \<longrightarrow>
       (\<exists>g'. get_group (jst_session st) gid = Some g' \<and> same_identity g' g \<and>
         (g' \<noteq> g \<longrightarrow> (\<exists>r\<in>set (jst_added st). jo_group_id r = gid \<and> jo_outcome r \<noteq> JO_upheld)) \<and>
         (fg_state g' \<noteq> fg_state g \<longrightarrow>
            (\<exists>r\<in>set (jst_added st). jo_group_id r = gid \<and> jo_outcome r = JO_dismissed) \<and>
            fg_resolution_method g' = Some RM_judge_dismissed \<and>
            fg_resolved_at_revision_id g' = Some (rr_revision_id run))))"
proof -
  note inv = run_judge_inv [OF assms, unfolded judge_inv_def]
  have k: "min JUDGE_MAX_PER_RUN (length candidates) \<le> 10" by (simp add: JUDGE_MAX_PER_RUN_def)
  have groups: "\<exists>g'. get_group (jst_session st) gid = Some g' \<and> same_identity g' g \<and>
         (g' \<noteq> g \<longrightarrow> (\<exists>r\<in>set (jst_added st). jo_group_id r = gid \<and> jo_outcome r \<noteq> JO_upheld)) \<and>
         (fg_state g' \<noteq> fg_state g \<longrightarrow>
            (\<exists>r\<in>set (jst_added st). jo_group_id r = gid \<and> jo_outcome r = JO_dismissed) \<and>
            fg_resolution_method g' = Some RM_judge_dismissed \<and>
            fg_resolved_at_revision_id g' = Some (rr_revision_id run))"
    if g: "get_group s gid = Some g" for gid g
  proof -
    from inv g obtain g' where "get_group (jst_session st) gid = Some g'"
      "accounted (rr_revision_id run) (jst_added st) g g'" by blast
    moreover have "fg_id g = gid" using g by (rule get_group_id)
    ultimately show ?thesis unfolding accounted_def by blast
  qed
  from inv k have "jst_judged st = length (jst_added st)" "jst_judged st \<le> 10" "jst_requests st \<le> 20"
    by linarith+
  moreover from inv have "\<forall>r\<in>set (jst_added st). jo_review_run_id r = rr_id run \<and>
       jo_judge_purpose r = JP_discovery \<and> jo_group_id r \<in> snd ` set candidates \<and>
       \<not> (\<exists>o'\<in>set (ss_outcomes s). jo_review_run_id o' = rr_id run \<and> jo_group_id o' = jo_group_id r)"
    by (simp add: list_ex_iff)
  ultimately show ?thesis using groups by blast
qed

lemma demo_candidates:
  "load_judge_candidates (demo_session\<lparr>ss_findings := [demo_finding\<lparr>fi_group_id := Some 10\<rparr>]\<rparr>) 1
     = (Some demo_run, [(demo_finding\<lparr>fi_group_id := Some 10\<rparr>, 10)])"
  by (simp add: load_judge_candidates_def run_findings_def demo_defs session_gets tbl_get_def
      is_judge_candidate_def)

lemma demo_judge_answers:
  "call_judge_with_optional_retry (demo_judge (outcome_value out)) n p sys =
     (Inr ([(S ''outcome'', JStr (outcome_value out))], 0), Suc n)"
  "parse_judge_outcome [(S ''outcome'', JStr (outcome_value out))] = Inr (out, None)"
proof -
  have w: "py_lower (py_strip (outcome_value out)) = outcome_value out"
    by (cases out) (simp_all add: outcome_value_def S_def py_lower_def lower_cp_def py_strip_def
        py_lstrip_def py_rstrip_def is_py_space_def)
  show p: "parse_judge_outcome [(S ''outcome'', JStr (outcome_value out))] = Inr (out, None)"
    by (simp add: parse_judge_outcome_def w S_def)
  then show "call_judge_with_optional_retry (demo_judge (outcome_value out)) n p sys =
     (Inr ([(S ''outcome'', JStr (outcome_value out))], 0), Suc n)"
    by (simp add: call_judge_with_optional_retry_def ask_judge_def demo_judge_def)
qed

lemma demo_judge_step:
  assumes "ss_outcomes (jst_session st) = []" and "get_group (jst_session st) gid = Some g"
  shows "\<exists>arts. judge_candidate (demo_judge (outcome_value out)) run [] pack model (f, gid) st =
    Inr (st\<lparr>jst_session := put_group (judged_group out (rr_revision_id run) g) (jst_session st),
      jst_added := jst_added st @ [outcome_row run gid out JP_discovery model None],
      jst_artifacts := arts, jst_judged := Suc (jst_judged st), jst_requests := Suc (jst_requests st)\<rparr>)"
  using assms by (auto simp: judge_candidate_def Let_def demo_judge_answers split: prod.splits)

theorem judge_loop_accounts_witness:
  "\<exists>st. run_judge_llm_loop (demo_judge (S ''dismissed'')) demo_session demo_run [(demo_finding, 10)]
       \<lparr>mr_provider = [], mr_model_id = []\<rparr> [] None = Inr st \<and> jst_judged st = 1 \<and> jst_requests st \<le> 20 \<and>
     (\<exists>g'. get_group (jst_session st) 10 = Some g' \<and> fg_resolution_method g' = Some RM_judge_dismissed)"
proof -
  let ?m = "\<lparr>mr_provider = [], mr_model_id = []\<rparr>"
  have g: "get_group demo_session 10 = Some demo_group" by (simp add: demo_defs session_gets tbl_get_def)
  have w: "S ''dismissed'' = outcome_value JO_dismissed" by (simp add: outcome_value_def)
  have o: "ss_outcomes (jst_session (start_judging demo_session)) = []"
    by (simp add: start_judging_def demo_defs)
  from demo_judge_step [OF o, of 10 demo_group JO_dismissed demo_run None ?m demo_finding] g
  obtain st where st: "run_judge_llm_loop (demo_judge (S ''dismissed'')) demo_session demo_run
      [(demo_finding, 10)] ?m [] None = Inr st" "jst_judged st = 1"
      "jst_session st = put_group (judged_group JO_dismissed 2 demo_group) demo_session"
    by (auto simp: run_judge_llm_loop_def JUDGE_MAX_PER_RUN_def start_judging_def w demo_run_def)
  have "fg_id (judged_group JO_dismissed 2 demo_group) = 10" "10 \<in> tbl_keys fg_id (ss_groups demo_session)"
    by (simp_all add: judged_group_facts) (simp_all add: demo_defs tbl_keys_def)
  then have new: "get_group (jst_session st) 10 = Some (judged_group JO_dismissed 2 demo_group)"
    by (simp add: st(3))
  from judge_loop_accounts [OF st(1)] have "jst_requests st \<le> 20" by blast
  with st new show ?thesis by (auto simp: judged_group_facts)
qed

lemma load_judge_candidates_run:
  "fst (load_judge_candidates s run_id) = get_review_run s run_id"
  by (simp add: load_judge_candidates_def split: option.split)

lemma record_asked:
  assumes "record_review_run_judge_status_with_model gh env s run_id = Inr (s', n, Some model, arts)"
    and "load_judge_candidates s run_id = (Some run, cands)"
  shows "\<exists>st patches pack. run_judge_llm_loop env (set_candidate_count run_id (length cands) s) run cands
      model patches (Some pack) = Inr st \<and> s' = judged_session run_id cands st"
  using assms(1)
  unfolding record_review_run_judge_status_with_model_def assms(2) Let_def
  by (auto simp: rbind_eq_Inr split: if_splits sum.splits)

text \<open>The two ways through the pass.\<close>

lemma judge_status_not_asked:
  assumes "record_review_run_judge_status_with_model gh env s run_id = Inr (s', n, None, arts)"
    and "get_review_run s run_id = Some run0"
  defines "cands \<equiv> snd (load_judge_candidates s run_id)"
  shows "\<not> (rr_status run0 = RR_completed \<and> cands \<noteq> [] \<and> je_llm_enabled env \<and>
      (\<exists>model. je_resolve env (rr_workspace_id run0) = Inr model)) \<and>
    ss_groups s' = ss_groups s \<and> ss_outcomes s' = ss_outcomes s \<and>
    (\<exists>run'. get_review_run s' run_id = Some run' \<and>
       rr_judge_escalation_candidate_count run' = int (length cands) \<and>
       rr_judge_status run' =
        (if rr_status run0 \<noteq> RR_completed \<and> cands \<noteq> [] then JS_not_applicable
         else if review_run_has_judge_outcomes s run_id then JS_completed
         else if cands = [] then JS_not_applicable
         else if je_llm_enabled env then JS_skipped_unavailable
         else JS_skipped_disabled))"
proof -
  have ld: "load_judge_candidates s run_id = (Some run0, cands)"
    using assms(2) load_judge_candidates_run [of s run_id] by (simp add: cands_def prod_eq_iff)
  let ?s1 = "set_candidate_count run_id (length cands) s"
  have id: "rr_id run0 = run_id" using assms(2) by (rule get_review_run_id)
  have k: "run_id \<in> tbl_keys rr_id (ss_review_runs s)"
    using assms(2) runs.get_keys [of run_id "ss_review_runs s"] by (auto simp: get_review_run_def)
  have marked: "get_review_run (set_judge_status run_id st ?s1) run_id =
      Some (run0\<lparr>rr_judge_escalation_candidate_count := int (length cands), rr_judge_status := st\<rparr>)" for st
    using k id assms(2)
    by (simp add: set_judge_status_def set_candidate_count_def put_review_run_def get_review_run_def runs.get_put)
  have same: "ss_groups (set_judge_status run_id st ?s1) = ss_groups s" "ss_outcomes (set_judge_status run_id st ?s1) = ss_outcomes s" for st
    using assms(2) by (simp_all add: set_judge_status_def set_candidate_count_def put_review_run_def split: option.split)
  obtain st where s': "s' = set_judge_status run_id st ?s1" and
    st: "st = (if rr_status run0 \<noteq> RR_completed \<and> cands \<noteq> [] then JS_not_applicable
         else if review_run_has_judge_outcomes s run_id then JS_completed
         else if cands = [] then JS_not_applicable
         else if je_llm_enabled env then JS_skipped_unavailable
         else JS_skipped_disabled)" and
    no: "\<not> (rr_status run0 = RR_completed \<and> cands \<noteq> [] \<and> je_llm_enabled env \<and>
      (\<exists>model. je_resolve env (rr_workspace_id run0) = Inr model))"
    using assms(1) unfolding record_review_run_judge_status_with_model_def ld Let_def prod.case option.case
    by (auto simp: rbind_eq_Inr split: if_splits sum.splits)
  show ?thesis
    unfolding s' marked same using no st by simp
qed

lemma judge_status_asked:
  assumes "record_review_run_judge_status_with_model gh env s run_id = Inr (s', n, Some model, arts)"
    and "get_review_run s run_id = Some run0"
  defines "cands \<equiv> snd (load_judge_candidates s run_id)"
  shows "rr_status run0 = RR_completed \<and> cands \<noteq> [] \<and> je_llm_enabled env \<and>
      (\<exists>model. je_resolve env (rr_workspace_id run0) = Inr model) \<and>
    (\<exists>run'. get_review_run s' run_id = Some run' \<and>
       rr_judge_escalation_candidate_count run' = int (length cands) \<and>
       rr_judge_status run' =
        (if \<forall>c\<in>set cands. \<forall>g. get_group s' (snd c) = Some g \<longrightarrow>
              fg_state g = Grp_resolved \<or>
              (\<exists>r\<in>set (ss_outcomes s'). jo_review_run_id r = run_id \<and> jo_group_id r = snd c)
         then JS_completed else JS_skipped_unavailable))"
proof -
  define run where "run = run0"
  have run: "get_review_run s run_id = Some run" using assms(2) by (simp add: run_def)
  have ld: "load_judge_candidates s run_id = (Some run, cands)"
    using run load_judge_candidates_run [of s run_id] by (simp add: cands_def prod_eq_iff)
  let ?s1 = "set_candidate_count run_id (length cands) s"
  obtain st patches pack where
    lp: "run_judge_llm_loop env ?s1 run cands model patches (Some pack) = Inr st"
    and s': "s' = judged_session run_id cands st"
    using record_asked [OF assms(1) ld] by (elim exE conjE) (rule that)
  let ?s2 = "flush_outcomes (jst_added st) (jst_session st)"
  let ?run1 = "run\<lparr>rr_judge_escalation_candidate_count := int (length cands)\<rparr>"
  have id: "rr_id run = run_id" using run by (rule get_review_run_id)
  have k: "run_id \<in> tbl_keys rr_id (ss_review_runs s)"
    using run runs.get_keys [of run_id "ss_review_runs s"] by (auto simp: get_review_run_def)
  have "ss_review_runs ?s2 = ss_review_runs ?s1"
    using run_judge_inv [OF lp] by (simp add: judge_inv_def)
  moreover have "ss_review_runs ?s1 = tbl_put rr_id ?run1 (ss_review_runs s)"
    by (simp add: set_candidate_count_def run put_review_run_def)
  ultimately have r2: "get_review_run ?s2 run_id = Some ?run1"
    and k2: "run_id \<in> tbl_keys rr_id (ss_review_runs ?s2)"
    using k id by (simp_all add: get_review_run_def runs.get_put)
  let ?st = "if judge_candidates_missing_outcome ?s2 run_id cands then JS_skipped_unavailable else JS_completed"
  have s'2: "s' = put_review_run (?run1\<lparr>rr_judge_status := ?st\<rparr>) ?s2"
    unfolding s' judged_session_def Let_def set_judge_status_def r2 option.case by (rule refl)
  have "get_review_run s' run_id = Some (?run1\<lparr>rr_judge_status := ?st\<rparr>)"
    using k2 id by (simp add: s'2 get_review_run_def put_review_run_def runs.get_put)
  moreover have "get_group s' gid = get_group ?s2 gid" "ss_outcomes s' = ss_outcomes ?s2" for gid
    by (simp_all add: s'2 put_review_run_def get_group_def)
  then have "judge_candidates_missing_outcome ?s2 run_id cands \<longleftrightarrow>
      \<not> (\<forall>c\<in>set cands. \<forall>g. get_group s' (snd c) = Some g \<longrightarrow> fg_state g = Grp_resolved \<or>
            (\<exists>r\<in>set (ss_outcomes s'). jo_review_run_id r = run_id \<and> jo_group_id r = snd c))"
    by (auto simp: judge_candidates_missing_outcome_def list_ex_iff split: option.splits)
  moreover have "rr_status run0 = RR_completed \<and> cands \<noteq> [] \<and> je_llm_enabled env \<and>
      (\<exists>model. je_resolve env (rr_workspace_id run0) = Inr model)"
    using assms(1) unfolding record_review_run_judge_status_with_model_def ld Let_def prod.case option.case run_def
    by (auto split: if_splits sum.splits)
  ultimately show ?thesis by simp
qed

text \<open>C23. The judge status after the pass, in every case. The pass asks the model exactly when the run is
  completed, has candidates, judging is enabled and a model is configured; then the run is marked
  completed if every candidate whose group is still unresolved has an outcome for this run, and as
  skipped otherwise. When the model is not asked, no group and no outcome is touched, and the mark says whether there
  was nothing to judge, judging is disabled or no model was available, unless the run has outcomes already, of an
  earlier pass, and is not without reason to judge: then the mark is completed. The number of candidates is stored in
  each case.\<close>

theorem judge_status_truthful:
  assumes "record_review_run_judge_status_with_model gh env s run_id = Inr (s', n, asked, arts)"
    and "get_review_run s run_id = Some run0"
  defines "cands \<equiv> snd (load_judge_candidates s run_id)"
  shows "(asked \<noteq> None \<longleftrightarrow> rr_status run0 = RR_completed \<and> cands \<noteq> [] \<and> je_llm_enabled env \<and>
      (\<exists>model. je_resolve env (rr_workspace_id run0) = Inr model)) \<and>
    (asked = None \<longrightarrow> ss_groups s' = ss_groups s \<and> ss_outcomes s' = ss_outcomes s) \<and>
    (\<exists>run'. get_review_run s' run_id = Some run' \<and>
       rr_judge_escalation_candidate_count run' = int (length cands) \<and>
       rr_judge_status run' =
        (if asked \<noteq> None then
           (if \<forall>c\<in>set cands. \<forall>g. get_group s' (snd c) = Some g \<longrightarrow>
                 fg_state g = Grp_resolved \<or>
                 (\<exists>r\<in>set (ss_outcomes s'). jo_review_run_id r = run_id \<and> jo_group_id r = snd c)
            then JS_completed else JS_skipped_unavailable)
         else if rr_status run0 \<noteq> RR_completed \<and> cands \<noteq> [] then JS_not_applicable
         else if review_run_has_judge_outcomes s run_id then JS_completed
         else if cands = [] then JS_not_applicable
         else if je_llm_enabled env then JS_skipped_unavailable
         else JS_skipped_disabled))"
proof (cases asked)
  case None
  from judge_status_not_asked [OF assms(1) [unfolded None] assms(2)] show ?thesis
    unfolding None cands_def by simp
next
  case (Some model)
  from judge_status_asked [OF assms(1) [unfolded Some] assms(2)] show ?thesis
    unfolding Some cands_def by simp
qed

theorem judge_status_truthful_witness:
  "\<exists>s' n model arts run'. record_review_run_judge_status_with_model gh_down (demo_judge (S ''upheld''))
       (demo_session\<lparr>ss_findings := [demo_finding\<lparr>fi_group_id := Some 10\<rparr>]\<rparr>) 1 = Inr (s', n, Some model, arts) \<and>
     get_review_run s' 1 = Some run' \<and> rr_judge_escalation_candidate_count run' = 1"
proof -
  let ?s = "demo_session\<lparr>ss_findings := [demo_finding\<lparr>fi_group_id := Some 10\<rparr>]\<rparr>"
  let ?s1 = "set_candidate_count 1 (Suc 0) ?s"
  let ?m = "\<lparr>mr_provider = S ''p'', mr_model_id = S ''m''\<rparr>"
  have w: "S ''upheld'' = outcome_value JO_upheld" by (simp add: outcome_value_def)
  have s1: "ss_outcomes ?s1 = []" "get_group ?s1 10 = Some demo_group"
    "get_revision ?s1 2 = Some demo_revision" "get_pull_request ?s1 4 = Some demo_pull_request"
    "get_repository ?s1 5 = None"
    by (simp_all add: set_candidate_count_def demo_defs session_gets tbl_get_def put_review_run_def)
  have code: "\<exists>pk. judge_code gh_down (demo_judge (outcome_value JO_upheld)) ?s1 demo_run = Inr ([], pk)"
  proof -
    have v: "rr_revision_id demo_run = 2" "rev_pull_request_id demo_revision = 4" "pr_repository_id demo_pull_request = 5"
      by (simp_all add: demo_defs)
    have "fetch_compare_review_context gh_down ?s1 demo_pull_request demo_revision = Inr no_context"
      by (simp add: fetch_compare_review_context_def s1 v)
    then show ?thesis by (simp add: judge_code_def Let_def s1 v no_context_def)
  qed
  then obtain pk where code: "judge_code gh_down (demo_judge (outcome_value JO_upheld)) ?s1 demo_run = Inr ([], pk)" by blast
  have o: "ss_outcomes (jst_session (start_judging ?s1)) = []"
    "get_group (jst_session (start_judging ?s1)) 10 = Some demo_group"
    using s1 by (simp_all add: start_judging_def)
  from demo_judge_step [OF o, of JO_upheld demo_run "Some pk" ?m "demo_finding\<lparr>fi_group_id := Some 10\<rparr>"]
  obtain st where lp: "run_judge_llm_loop (demo_judge (outcome_value JO_upheld)) ?s1 demo_run
      [(demo_finding\<lparr>fi_group_id := Some 10\<rparr>, 10)] ?m [] (Some pk) = Inr st"
    by (auto simp: run_judge_llm_loop_def JUDGE_MAX_PER_RUN_def)
  have env: "je_llm_enabled (demo_judge x)" "je_resolve (demo_judge x) ws = Inr ?m" for x ws
    by (simp_all add: demo_judge_def)
  have "rr_status demo_run = RR_completed" by (simp add: demo_run_def)
  then have "\<exists>s' n arts. record_review_run_judge_status_with_model gh_down (demo_judge (outcome_value JO_upheld)) ?s 1
      = Inr (s', n, Some ?m, arts)"
    using code lp
    by (simp add: record_review_run_judge_status_with_model_def demo_candidates env Let_def)
  then obtain s' n arts where r: "record_review_run_judge_status_with_model gh_down
      (demo_judge (outcome_value JO_upheld)) ?s 1 = Inr (s', n, Some ?m, arts)" by blast
  have "get_review_run ?s 1 = Some demo_run" by (simp add: demo_defs session_gets tbl_get_def)
  from judge_status_truthful [OF r this] show ?thesis
    unfolding w using r by (auto simp: demo_candidates)
qed

text \<open>Two findings of one run that were bound to the same group are both put to the judge: the
  check for an existing outcome does not see the outcome just added, and the group gets two outcomes
  for the run.\<close>

theorem judge_asks_twice_about_one_group:
  "\<exists>st. run_judge_llm_loop (demo_judge (outcome_value out)) demo_session demo_run
       [(demo_finding, 10), (demo_finding\<lparr>fi_id := 21, fi_start_line := Some 30\<rparr>, 10)] model [] None = Inr st \<and>
     map jo_group_id (jst_added st) = [10, 10] \<and> jst_requests st = 2"
proof -
  let ?st = "start_judging demo_session"
  have st: "ss_outcomes (jst_session ?st) = []" "get_group (jst_session ?st) 10 = Some demo_group"
    by (simp_all add: start_judging_def demo_defs session_gets tbl_get_def)
  from demo_judge_step [OF this] obtain a1 where
    s1: "judge_candidate (demo_judge (outcome_value out)) demo_run [] None model (demo_finding, 10) ?st =
      Inr (?st\<lparr>jst_session := put_group (judged_group out (rr_revision_id demo_run) demo_group) (jst_session ?st),
        jst_added := jst_added ?st @ [outcome_row demo_run 10 out JP_discovery model None],
        jst_artifacts := a1, jst_judged := Suc (jst_judged ?st), jst_requests := Suc (jst_requests ?st)\<rparr>)"
      (is "_ = Inr ?st1") by blast
  have "fg_id (judged_group out (rr_revision_id demo_run) demo_group) = 10"
    "10 \<in> tbl_keys fg_id (ss_groups (jst_session ?st))"
    by (simp_all add: judged_group_facts) (simp_all add: start_judging_def demo_defs tbl_keys_def)
  then have "ss_outcomes (jst_session ?st1) = []" "get_group (jst_session ?st1) 10 =
      Some (judged_group out (rr_revision_id demo_run) demo_group)"
    using st by (simp_all add: put_group_frame)
  from demo_judge_step [OF this] obtain a2 where
    s2: "judge_candidate (demo_judge (outcome_value out)) demo_run [] None model
        (demo_finding\<lparr>fi_id := 21, fi_start_line := Some 30\<rparr>, 10) ?st1 =
      Inr (?st1\<lparr>jst_session := put_group (judged_group out (rr_revision_id demo_run)
          (judged_group out (rr_revision_id demo_run) demo_group)) (jst_session ?st1),
        jst_added := jst_added ?st1 @ [outcome_row demo_run 10 out JP_discovery model None],
        jst_artifacts := a2, jst_judged := Suc (jst_judged ?st1), jst_requests := Suc (jst_requests ?st1)\<rparr>)"
    by blast
  show ?thesis
    unfolding run_judge_llm_loop_def using s1 s2
    by (simp add: JUDGE_MAX_PER_RUN_def start_judging_def outcome_row_def)
qed

text \<open>The Python filter and the SQL filter for judge candidates agree.\<close>

theorem judge_candidate_filters_agree:
  "is_judge_candidate sev cat = judge_candidate_group_sql_predicate sev cat"
  by (cases sev) (auto simp: is_judge_candidate_def judge_candidate_group_sql_predicate_def severity_rank_def)

end
