(* ===== verification/Verification.thy ===== *)
theory Verification
  imports Judge
begin

section \<open>The verification judge, pass 3 (\<open>services/github_finding_closure.py\<close>)\<close>

text \<open>
  Severe groups that a push left \<open>still_open\<close> and that the new run does not report are put to the
  judge once more, with the patch since the last published revision: at most five per run.  A
  dismissal closes the group; \<open>modified\<close> is not an answer here and counts as a failure.  The loop
  has the shape of the discovery judge's, and its invariant is an instance of the same locale.
\<close>

definition VERIFICATION_JUDGE_MAX_PER_RUN :: nat where
  "VERIFICATION_JUDGE_MAX_PER_RUN = 5"

definition VERIFICATION_JUDGE_SYSTEM_PROMPT :: pystr where
  \<open>VERIFICATION_JUDGE_SYSTEM_PROMPT =
     S ''You verify whether an automated code review finding from a PRIOR revision '' @
     S ''is still valid given ONLY the push delta (changes since that revision). '' @
     S ''Original claim from prior revision '' @ [8212] @ S '' still valid on this push delta? '' @
     S ''Dismiss only when the push delta shows the issue was fixed or the claim no longer holds. '' @
     S ''Uphold when the delta does not refute the finding. '' @
     S ''Do not search for new issues. Return JSON only: '' @
     S ''{"outcome":"upheld|dismissed","notes":"brief rationale tied to push delta evidence"}''\<close>

subsection \<open>Candidates\<close>

definition is_verification_escalation_candidate :: "finding_group \<Rightarrow> uuid option \<Rightarrow> bool" where
  "is_verification_escalation_candidate g current =
     (if fg_state g \<noteq> Grp_active then False
      else if fg_resolution_status g \<noteq> Some RS_still_open then False
      else if fg_closure_blocked_reason g = Some COMPARE_FAILED_REASON then False
      else if current = Some (fg_last_seen_revision_id g) then False
      else is_judge_candidate (fg_severity g) (fg_category g))"

definition verification_escalation_candidate_sql_filters :: "uuid \<Rightarrow> uuid \<Rightarrow> finding_group \<Rightarrow> bool" where
  "verification_escalation_candidate_sql_filters pr current g \<longleftrightarrow>
     fg_pull_request_id g = pr \<and>
     fg_state g = Grp_active \<and>
     fg_resolution_status g = Some RS_still_open \<and>
     (fg_closure_blocked_reason g = None \<or> fg_closure_blocked_reason g \<noteq> Some COMPARE_FAILED_REASON) \<and>
     fg_last_seen_revision_id g \<noteq> current \<and>
     judge_candidate_group_sql_predicate (fg_severity g) (fg_category g)"

definition is_verification_row :: "uuid \<Rightarrow> judge_row \<Rightarrow> bool" where
  "is_verification_row run_id r \<longleftrightarrow> jo_review_run_id r = run_id \<and> jo_judge_purpose r = JP_verification"

definition pass3_verification_escalation_select ::
  "session \<Rightarrow> uuid \<Rightarrow> uuid \<Rightarrow> uuid \<Rightarrow> pystr list \<Rightarrow> int \<Rightarrow> exn + finding_group list" where
  "pass3_verification_escalation_select s pr current run_id reported limit =
     (if limit \<le> 0 then Inl (Value_error (S ''pass3_verification_escalation_limit_must_be_positive''))
      else
        let already = map jo_group_id (filter (is_verification_row run_id) (ss_outcomes s))
        in Inr (take (nat limit) (sort_key fg_last_seen_revision_id
             (filter (\<lambda>g. verification_escalation_candidate_sql_filters pr current g \<and>
                          fg_id g \<notin> set already \<and>
                          (reported \<noteq> [] \<longrightarrow> fg_fingerprint g \<notin> set reported)) (ss_groups s)))))"

definition verification_judge_slots_remaining :: "session \<Rightarrow> uuid \<Rightarrow> int" where
  "verification_judge_slots_remaining s run_id =
     max 0 (int VERIFICATION_JUDGE_MAX_PER_RUN - int (count_if (is_verification_row run_id) (ss_outcomes s)))"

text \<open>The fingerprints of the groups the run's findings are bound to (a set in the code).\<close>

definition fingerprints_in_review_run :: "session \<Rightarrow> uuid \<Rightarrow> pystr list" where
  "fingerprints_in_review_run s run_id =
     (case get_review_run s run_id of
        None \<Rightarrow> []
      | Some run \<Rightarrow>
          (case get_revision s (rr_revision_id run) of
             None \<Rightarrow> []
           | Some rv \<Rightarrow>
               concat (map (\<lambda>f. case fi_group_id f of
                   None \<Rightarrow> []
                 | Some gid \<Rightarrow>
                     (case get_group s gid of
                        None \<Rightarrow> []
                      | Some g \<Rightarrow> if fg_fingerprint g = [] then [] else [fg_fingerprint g]))
                 (run_findings s run_id))))"

subsection \<open>The prompt\<close>

definition build_verification_judge_prompt ::
  "finding_group \<Rightarrow> pystr option \<Rightarrow> pystr option \<Rightarrow> int option \<Rightarrow> int option \<Rightarrow> pystr" where
  "build_verification_judge_prompt g delta evidence start_line end_line = py_join [10] (
     [S ''Original finding from prior revision '' @ [8212] @ S '' is it still valid on this push delta?'',
      [],
      S ''Title: '' @ fg_title g,
      S ''Severity: '' @ severity_value (fg_severity g),
      S ''Category: '' @ category_value (fg_category g),
      S ''File: '' @ path_or_na (fg_file_path g),
      S ''Message: '' @ fg_message g] @
     (case start_line of Some l \<Rightarrow> [S ''Line: '' @ line_reference l end_line] | None \<Rightarrow> []) @
     (case resolve_judge_prompt_file_patch evidence delta of
        Some p \<Rightarrow> if p \<noteq> [] then [[], S ''Push delta (since prior revision):'', p] else []
      | None \<Rightarrow> []) @
     (if has_text evidence then [[], S ''Evidence excerpt:'', opt_or evidence []] else []))"

subsection \<open>One group\<close>

text \<open>The latest finding of the group (among equal times, the first in table order).\<close>

definition latest_finding :: "session \<Rightarrow> uuid \<Rightarrow> finding option" where
  "latest_finding s gid =
     (case sort_key (\<lambda>f. - fi_created_at f) (filter (\<lambda>f. fi_group_id f = Some gid) (ss_findings s)) of
        [] \<Rightarrow> None
      | f # _ \<Rightarrow> Some f)"

definition push_delta :: "(pystr \<times> pystr) list \<Rightarrow> finding_group \<Rightarrow> pystr option" where
  "push_delta patches g =
     (let p = (if opt_or (fg_file_path g) [] = [] then [] else opt_or (map_of patches (opt_or (fg_file_path g) [])) [])
      in if p = [] then None else Some p)"

definition verification_evidence :: "(pystr \<times> pystr) list \<Rightarrow> finding option \<Rightarrow> pystr option" where
  "verification_evidence patches f =
     (case f of
        None \<Rightarrow> None
      | Some f \<Rightarrow>
          if opt_or (fi_evidence_snippet f) [] \<noteq> [] then fi_evidence_snippet f
          else fst (resolve_judge_code_context (fi_file_path f) (fi_start_line f) patches []))"

definition verified_group :: "judge_outcome \<Rightarrow> uuid \<Rightarrow> finding_group \<Rightarrow> finding_group" where
  "verified_group out rv g =
     (case apply_resolution_method_on_verification_dismiss out rv of
        Some f \<Rightarrow> apply_fields f g | None \<Rightarrow> g)"

text \<open>The answer of the judge; \<open>modified\<close> is turned into an error with the retry count reached.\<close>

definition verification_answer ::
  "((exn \<times> nat) + ((pystr \<times> json) list \<times> nat)) \<Rightarrow> (exn \<times> nat) + (judge_outcome \<times> pystr option) \<times> nat" where
  "verification_answer a =
     (case a of
        Inl e \<Rightarrow> Inl e
      | Inr (raw, retries) \<Rightarrow>
          (case parse_judge_outcome raw of
             Inl e \<Rightarrow> Inl (e, retries)
           | Inr (out, nts) \<Rightarrow>
               if out = JO_modified then Inl (Value_error (S ''verification_judge_outcome_modified''), retries)
               else Inr ((out, nts), retries)))"

definition verify_group ::
  "judge_env \<Rightarrow> review_run \<Rightarrow> uuid \<Rightarrow> (pystr \<times> pystr) list \<Rightarrow> model_ref \<Rightarrow> uuid \<Rightarrow> judge_state
   \<Rightarrow> exn + judge_state" where
  "verify_group env run rv patches model gid st =
     (let s = jst_session st in
      if list_ex (\<lambda>r. is_verification_row (rr_id run) r \<and> jo_group_id r = gid) (ss_outcomes s) then Inr st
      else case get_group s gid of
        None \<Rightarrow> Inr st
      | Some g \<Rightarrow>
          let f = latest_finding s gid;
              delta = push_delta patches g;
              evidence = verification_evidence patches f;
              prompt = build_verification_judge_prompt g delta evidence
                (Option.bind f fi_start_line) (Option.bind f fi_end_line);
              (answer, n) = call_judge_with_optional_retry env (jst_requests st) prompt
                (Some VERIFICATION_JUDGE_SYSTEM_PROMPT);
              art = \<lparr>ja_group_id = gid, ja_evidence_snippet = evidence, ja_user_prompt = prompt,
                ja_outcome = None, ja_file_patch_chars = judge_prompt_file_patch_chars evidence delta,
                ja_lock_ids_cited = None, ja_error = None, ja_retry_count = 0\<rparr>
          in case verification_answer answer of
            Inl (e, retries) \<Rightarrow>
              if is_judge_failure e then
                Inr (st\<lparr>jst_requests := n,
                  jst_artifacts := jst_artifacts st @ [art\<lparr>ja_error := Some e, ja_retry_count := retries\<rparr>]\<rparr>)
              else Inl e
          | Inr ((out, nts), retries) \<Rightarrow>
              Inr (st\<lparr>
                jst_session := put_group (verified_group out rv g) s,
                jst_added := jst_added st @ [outcome_row run gid out JP_verification model nts],
                jst_artifacts := jst_artifacts st @ [art\<lparr>ja_outcome := Some out, ja_retry_count := retries\<rparr>],
                jst_judged := Suc (jst_judged st),
                jst_requests := n\<rparr>))"

subsection \<open>The pass\<close>

text \<open>The groups the pass puts to the judge, once the comparison has succeeded.\<close>

definition escalation_groups :: "session \<Rightarrow> uuid \<Rightarrow> revision \<Rightarrow> exn + finding_group list" where
  "escalation_groups s run_id rv =
     (let reported = fingerprints_in_review_run s run_id;
          slots = verification_judge_slots_remaining s run_id
      in if slots = 0 then Inr []
         else rbind (pass3_verification_escalation_select s (rev_pull_request_id rv) (rev_id rv) run_id reported slots)
           (\<lambda>loaded. Inr (filter (\<lambda>g. is_verification_escalation_candidate g (Some (rev_id rv)) \<and>
              fg_fingerprint g \<notin> set reported) loaded)))"

definition verify_still_open_escalation_groups ::
  "gh \<Rightarrow> judge_env \<Rightarrow> session \<Rightarrow> uuid \<Rightarrow> exn + session \<times> nat \<times> judge_artifact list" where
  "verify_still_open_escalation_groups gh env s run_id =
     (let nothing = Inr (s, 0, []) in
      if \<not> je_llm_enabled env then nothing
      else case get_review_run s run_id of
        None \<Rightarrow> nothing
      | Some run \<Rightarrow>
          if rr_status run \<noteq> RR_completed then nothing
          else case get_revision s (rr_revision_id run) of
            None \<Rightarrow> nothing
          | Some rv \<Rightarrow>
              case get_last_published_prior_revision s (rev_pull_request_id rv) rv of
                None \<Rightarrow> nothing
              | Some prior \<Rightarrow>
                  case get_pull_request s (rev_pull_request_id rv) of
                    None \<Rightarrow> nothing
                  | Some pr \<Rightarrow>
                      rbind (fetch_compare_patches gh s pr (Some (rev_head_sha prior)) (Some (rev_head_sha rv)) True)
                        (\<lambda>cp. if cp_compare_failed cp then nothing
                          else rbind (escalation_groups s run_id rv) (\<lambda>groups.
                            if groups = [] then nothing
                            else case je_resolve env (rr_workspace_id run) of
                              Inl e \<Rightarrow>
                                if is_platform ServiceUnavailableError e \<or> is_platform ValidationError e
                                then nothing else Inl e
                            | Inr model \<Rightarrow>
                                rbind (judge_loop (verify_group env run (rev_id rv) (cp_patches_by_file cp) model)
                                         (map fg_id groups) (start_judging s)) (\<lambda>st.
                                  Inr (flush_outcomes (jst_added st) (jst_session st), jst_judged st,
                                       jst_artifacts st)))))"

subsection \<open>Candidates: the two filters\<close>

lemma sql_filter_iff:
  "verification_escalation_candidate_sql_filters pr cur g \<longleftrightarrow>
      fg_pull_request_id g = pr \<and> is_verification_escalation_candidate g (Some cur)"
  by (cases "fg_severity g")
     (auto simp: verification_escalation_candidate_sql_filters_def is_verification_escalation_candidate_def
        is_judge_candidate_def judge_candidate_group_sql_predicate_def severity_rank_def)

definition may_verify :: "session \<Rightarrow> uuid \<Rightarrow> revision \<Rightarrow> finding_group \<Rightarrow> bool" where
  "may_verify s run_id rv g \<longleftrightarrow>
     g \<in> set (ss_groups s) \<and> fg_pull_request_id g = rev_pull_request_id rv \<and>
     is_verification_escalation_candidate g (Some (rev_id rv)) \<and>
     fg_fingerprint g \<notin> set (fingerprints_in_review_run s run_id) \<and>
     \<not> list_ex (\<lambda>r. is_verification_row run_id r \<and> jo_group_id r = fg_id g) (ss_outcomes s)"

lemma escalation_groups_facts:
  "\<exists>gs. escalation_groups s run_id rv = Inr gs \<and>
     int (length gs) \<le> verification_judge_slots_remaining s run_id \<and>
     (verification_judge_slots_remaining s run_id \<noteq> 0 \<longrightarrow>
        pass3_verification_escalation_select s (rev_pull_request_id rv) (rev_id rv) run_id
          (fingerprints_in_review_run s run_id) (verification_judge_slots_remaining s run_id) = Inr gs) \<and>
     list_all (may_verify s run_id rv) gs \<and>
     (distinct (map fg_id (ss_groups s)) \<longrightarrow> distinct (map fg_id gs))"
proof -
  let ?n = "verification_judge_slots_remaining s run_id"
  let ?rep = "fingerprints_in_review_run s run_id"
  let ?p = "\<lambda>g. verification_escalation_candidate_sql_filters (rev_pull_request_id rv) (rev_id rv) g \<and>
    fg_id g \<notin> set (map jo_group_id (filter (is_verification_row run_id) (ss_outcomes s))) \<and>
    (?rep \<noteq> [] \<longrightarrow> fg_fingerprint g \<notin> set ?rep)"
  define ys where "ys = sort_key fg_last_seen_revision_id (filter ?p (ss_groups s))"
  define xs where "xs = take (nat ?n) ys"
  have nn: "0 \<le> ?n" by (simp add: verification_judge_slots_remaining_def)
  have mem: "may_verify s run_id rv g" if "g \<in> set xs" for g
    using in_set_takeD [OF that [unfolded xs_def]]
    by (auto simp: ys_def sql_filter_iff list_ex_iff image_iff may_verify_def)
  have len: "int (length xs) \<le> ?n" using nn by (simp add: xs_def)
  have keep: "filter (\<lambda>g. is_verification_escalation_candidate g (Some (rev_id rv)) \<and>
      fg_fingerprint g \<notin> set ?rep) xs = xs"
    using mem by (simp add: filter_id_conv may_verify_def)
  have sel: "pass3_verification_escalation_select s (rev_pull_request_id rv) (rev_id rv) run_id ?rep ?n = Inr xs"
    if "?n \<noteq> 0"
    using that nn by (simp add: pass3_verification_escalation_select_def xs_def ys_def Let_def)
  have gs: "escalation_groups s run_id rv = Inr (if ?n = 0 then [] else xs)"
    using keep sel by (simp add: escalation_groups_def Let_def)
  have dist: "distinct (map fg_id xs)" if "distinct (map fg_id (ss_groups s))"
  proof -
    have "distinct (map fg_id (filter ?p (ss_groups s)))" using that by (rule distinct_map_filter)
    then have "inj_on fg_id (set ys)" "distinct ys" by (simp_all add: ys_def distinct_map)
    then have "distinct (map fg_id ys)" by (simp add: distinct_map)
    then show ?thesis unfolding xs_def take_map [symmetric] by (rule distinct_take)
  qed
  have "list_all (may_verify s run_id rv) xs" using mem by (simp add: list_all_iff)
  then show ?thesis using gs len sel dist nn by (cases "?n = 0") simp_all
qed

text \<open>C40. The SQL filter of pass 3 selects exactly the groups the Python filter accepts, so that the
  second filter over the loaded rows drops nothing: the groups put to the judge are the loaded rows,
  at most as many as there are slots left, none of them judged or reported in this run.\<close>

theorem verification_filters_agree:
  "(verification_escalation_candidate_sql_filters pr cur g \<longleftrightarrow>
      fg_pull_request_id g = pr \<and> is_verification_escalation_candidate g (Some cur)) \<and>
   (\<exists>gs. escalation_groups s run_id rv = Inr gs \<and>
      int (length gs) \<le> verification_judge_slots_remaining s run_id \<and>
      (verification_judge_slots_remaining s run_id = 0 \<or>
         pass3_verification_escalation_select s (rev_pull_request_id rv) (rev_id rv) run_id
           (fingerprints_in_review_run s run_id) (verification_judge_slots_remaining s run_id) = Inr gs) \<and>
      list_all (may_verify s run_id rv) gs)"
  using escalation_groups_facts [of s run_id rv] sql_filter_iff by blast

subsection \<open>The loop\<close>

lemma verified_group_cases:
  "verified_group out rv g = (if out = JO_dismissed then close_verification rv g else g)"
  by (simp add: verified_group_def close_verification_def apply_resolution_method_on_verification_dismiss_def)

text \<open>After the groups \<open>ds\<close>: the outcomes added are about distinct groups of \<open>ds\<close> that had none, and
  the groups differ from the start exactly by the closure of those dismissed.\<close>

definition dismissed_in :: "judge_row list \<Rightarrow> uuid \<Rightarrow> bool" where
  "dismissed_in rows gid \<longleftrightarrow> list_ex (\<lambda>r. jo_group_id r = gid \<and> jo_outcome r = JO_dismissed) rows"

text \<open>The question about a group, and what the model answered to it (at some request of the run).\<close>

definition verification_prompt :: "session \<Rightarrow> (pystr \<times> pystr) list \<Rightarrow> finding_group \<Rightarrow> pystr" where
  "verification_prompt s patches g =
     (let f = latest_finding s (fg_id g)
      in build_verification_judge_prompt g (push_delta patches g) (verification_evidence patches f)
           (Option.bind f fi_start_line) (Option.bind f fi_end_line))"

definition judge_said :: "judge_env \<Rightarrow> pystr \<Rightarrow> judge_outcome \<Rightarrow> bool" where
  "judge_said env prompt out \<longleftrightarrow>
     (\<exists>n nts k. verification_answer (fst (call_judge_with_optional_retry env n prompt (Some VERIFICATION_JUDGE_SYSTEM_PROMPT))) =
        Inr ((out, nts), k))"

definition verify_inv ::
  "judge_env \<Rightarrow> (pystr \<times> pystr) list \<Rightarrow> session \<Rightarrow> review_run \<Rightarrow> uuid \<Rightarrow> uuid list \<Rightarrow> judge_state \<Rightarrow> bool" where
  "verify_inv env patches s0 run rv ds st \<longleftrightarrow>
     ss_outcomes (jst_session st) = ss_outcomes s0 \<and> ss_findings (jst_session st) = ss_findings s0 \<and>
     (\<forall>r\<in>set (jst_added st). \<exists>g. get_group s0 (jo_group_id r) = Some g \<and>
        judge_said env (verification_prompt s0 patches g) (jo_outcome r)) \<and>
     jst_judged st = length (jst_added st) \<and> jst_requests st \<le> 2 * length ds \<and>
     distinct (map jo_group_id (jst_added st)) \<and> set (map jo_group_id (jst_added st)) \<subseteq> set ds \<and>
     list_all (\<lambda>r. is_verification_row (rr_id run) r \<and> jo_outcome r \<noteq> JO_modified) (jst_added st) \<and>
     (\<forall>gid. get_group (jst_session st) gid =
        (if dismissed_in (jst_added st) gid
         then map_option (close_verification rv) (get_group s0 gid) else get_group s0 gid))"

lemma verify_group_cases:
  assumes "verify_group env run rv patches model gid st = Inr st'"
  obtains (skip) "st' = st"
    | (failed) m arts where "st' = st\<lparr>jst_requests := m, jst_artifacts := arts\<rparr>" "m \<le> jst_requests st + 2"
    | (judged) g out nts m arts where
        "get_group (jst_session st) gid = Some g" "out \<noteq> JO_modified"
        "st' = st\<lparr>jst_session := put_group (verified_group out rv g) (jst_session st),
           jst_added := jst_added st @ [outcome_row run gid out JP_verification model nts],
           jst_artifacts := arts, jst_judged := Suc (jst_judged st), jst_requests := m\<rparr>"
        "m \<le> jst_requests st + 2"
        "judge_said env (verification_prompt (jst_session st) patches g) out"
proof (cases "list_ex (\<lambda>r. is_verification_row (rr_id run) r \<and> jo_group_id r = gid) (ss_outcomes (jst_session st)) \<or>
    get_group (jst_session st) gid = None")
  case True
  with assms have "st' = st" by (auto simp: verify_group_def Let_def split: if_splits)
  then show ?thesis by (rule skip)
next
  case False
  then obtain g where g: "get_group (jst_session st) gid = Some g"
    and ex: "\<not> list_ex (\<lambda>r. is_verification_row (rr_id run) r \<and> jo_group_id r = gid) (ss_outcomes (jst_session st))"
    by blast
  let ?f = "latest_finding (jst_session st) gid"
  let ?prompt = "build_verification_judge_prompt g (push_delta patches g) (verification_evidence patches ?f)
      (Option.bind ?f fi_start_line) (Option.bind ?f fi_end_line)"
  obtain answer m where call: "call_judge_with_optional_retry env (jst_requests st) ?prompt
      (Some VERIFICATION_JUDGE_SYSTEM_PROMPT) = (answer, m)" by fastforce
  from judge_requests [OF call] have m: "m \<le> jst_requests st + 2" by blast
  show ?thesis
  proof (cases "verification_answer answer")
    case (Inl er)
    obtain e k where er: "er = (e, k)" by fastforce
    from assms ex g call Inl er have "\<exists>arts. st' = st\<lparr>jst_requests := m, jst_artifacts := arts\<rparr>"
      by (auto simp: verify_group_def Let_def split: if_splits)
    with m show ?thesis using failed by blast
  next
    case (Inr rk)
    obtain out nts k where rk: "rk = ((out, nts), k)" by (metis surj_pair)
    have "out \<noteq> JO_modified"
      using Inr rk by (auto simp: verification_answer_def split: sum.splits prod.splits if_splits)
    moreover from assms ex g call Inr rk obtain arts where
      "st' = st\<lparr>jst_session := put_group (verified_group out rv g) (jst_session st),
         jst_added := jst_added st @ [outcome_row run gid out JP_verification model nts],
         jst_artifacts := arts, jst_judged := Suc (jst_judged st), jst_requests := m\<rparr>"
      by (auto simp: verify_group_def Let_def)
    moreover have "judge_said env (verification_prompt (jst_session st) patches g) out"
      using call Inr rk get_group_id [OF g] unfolding judge_said_def verification_prompt_def Let_def
      by (intro exI [of _ "jst_requests st"] exI [of _ nts] exI [of _ k]) simp
    ultimately show ?thesis using g m judged by blast
  qed
qed

lemma verify_inv_step:
  assumes inv: "verify_inv env patches s0 run rv ds st" and ok: "distinct (ds @ [gid])"
    and step: "verify_group env run rv patches model gid st = Inr st'"
  shows "verify_inv env patches s0 run rv (ds @ [gid]) st'"
  using step
proof (cases rule: verify_group_cases)
  case skip
  with inv show ?thesis by (auto simp: verify_inv_def)
next
  case (failed m arts)
  with inv show ?thesis by (auto simp: verify_inv_def)
next
  case (judged g out nts m arts)
  let ?s = "jst_session st" and ?r = "outcome_row run gid out JP_verification model nts"
  have new: "\<not> dismissed_in (jst_added st) gid" "gid \<notin> set (map jo_group_id (jst_added st))"
    using inv ok by (auto simp: verify_inv_def dismissed_in_def list_ex_iff)
  have id: "fg_id g = gid" using judged(1) by (rule get_group_id)
  have g0: "get_group s0 gid = Some g" using inv new(1) judged(1) by (simp add: verify_inv_def)
  have key: "gid \<in> tbl_keys fg_id (ss_groups ?s)"
    using imageI [OF get_group_in [OF judged(1)], of fg_id] id by (simp add: tbl_keys_def)
  have vid: "fg_id (verified_group out rv g) = gid"
    by (simp add: verified_group_cases id verified.close_id)
  have get: "get_group (put_group (verified_group out rv g) ?s) k =
      (if dismissed_in (jst_added st @ [?r]) k
       then map_option (close_verification rv) (get_group s0 k) else get_group s0 k)" for k
  proof (cases "k = gid")
    case True
    with key vid g0 new(1) show ?thesis
      by (simp add: verified_group_cases dismissed_in_def outcome_row_def)
  next
    case False
    then have "dismissed_in (jst_added st @ [?r]) k = dismissed_in (jst_added st) k"
      by (simp add: dismissed_in_def outcome_row_def)
    with False inv vid show ?thesis by (simp add: verify_inv_def)
  qed
  have "latest_finding ?s = latest_finding s0" using inv by (simp add: fun_eq_iff latest_finding_def verify_inv_def)
  then have "judge_said env (verification_prompt s0 patches g) out"
    using judged(5) by (simp add: verification_prompt_def)
  then have said: "\<forall>r\<in>set (jst_added st @ [?r]). \<exists>g. get_group s0 (jo_group_id r) = Some g \<and>
      judge_said env (verification_prompt s0 patches g) (jo_outcome r)"
    using inv g0 by (auto simp: verify_inv_def outcome_row_def)
  show ?thesis
    unfolding verify_inv_def judged(3)
  proof (intro conjI)
    show "\<forall>r\<in>set (jst_added (st\<lparr>jst_session := put_group (verified_group out rv g) ?s,
        jst_added := jst_added st @ [?r], jst_artifacts := arts, jst_judged := Suc (jst_judged st),
        jst_requests := m\<rparr>)). \<exists>g. get_group s0 (jo_group_id r) = Some g \<and>
      judge_said env (verification_prompt s0 patches g) (jo_outcome r)"
      using said by simp
  next
    show "\<forall>k. get_group (jst_session (st\<lparr>jst_session := put_group (verified_group out rv g) ?s,
        jst_added := jst_added st @ [?r], jst_artifacts := arts, jst_judged := Suc (jst_judged st),
        jst_requests := m\<rparr>)) k =
      (if dismissed_in (jst_added (st\<lparr>jst_session := put_group (verified_group out rv g) ?s,
        jst_added := jst_added st @ [?r], jst_artifacts := arts, jst_judged := Suc (jst_judged st),
        jst_requests := m\<rparr>)) k then map_option (close_verification rv) (get_group s0 k) else get_group s0 k)"
      using get by (simp del: get_group_put)
  qed (use inv judged(2,4) new(2) in \<open>auto simp: verify_inv_def put_group_def outcome_row_def is_verification_row_def\<close>)
qed

interpretation verification: judging "verify_group env run rv patches model" distinct "verify_inv env patches s0 run rv"
  for env run rv patches model s0
  by unfold_locales (auto intro: verify_inv_step)

lemma verify_inv_start: "verify_inv env patches s run rv [] (start_judging s)"
  by (simp add: verify_inv_def start_judging_def dismissed_in_def)

subsection \<open>The pass\<close>

lemma flush_outcomes_ids:
  assumes "\<And>r i. p (r\<lparr>jo_id := i\<rparr>) = p r"
  shows "map jo_group_id (filter p (ss_outcomes (flush_outcomes rows s))) =
     map jo_group_id (filter p (ss_outcomes s)) @ map jo_group_id (filter p rows)"
proof (induction rows arbitrary: s)
  case (Cons r rows)
  have "flush_outcomes (r # rows) s = flush_outcomes rows (flush_outcome r s)"
    by (simp add: flush_outcomes_def)
  then show ?case by (simp add: Cons.IH) (simp add: flush_outcome_def tick_def tbl_add_def assms)
qed (simp add: flush_outcomes_def)

lemma verify_cases:
  assumes "verify_still_open_escalation_groups gh env s run_id = Inr (s', n, arts)"
  obtains (nothing) "s' = s" "n = 0"
    | (asked) run rv gs patches model st where
        "get_review_run s run_id = Some run" "get_revision s (rr_revision_id run) = Some rv"
        "escalation_groups s run_id rv = Inr gs"
        "judge_loop (verify_group env run (rev_id rv) patches model) (map fg_id gs) (start_judging s) = Inr st"
        "s' = flush_outcomes (jst_added st) (jst_session st)" "n = jst_judged st"
        "\<exists>prior pr cp. get_last_published_prior_revision s (rev_pull_request_id rv) rv = Some prior \<and>
           get_pull_request s (rev_pull_request_id rv) = Some pr \<and>
           fetch_compare_patches gh s pr (Some (rev_head_sha prior)) (Some (rev_head_sha rv)) True = Inr cp \<and>
           \<not> cp_compare_failed cp \<and> patches = cp_patches_by_file cp"
proof (cases "get_review_run s run_id")
  case None
  with assms have "s' = s \<and> n = 0"
    by (auto simp: verify_still_open_escalation_groups_def Let_def split: if_splits)
  then show ?thesis by (elim conjE) (rule nothing)
next
  case run: (Some run)
  show ?thesis
  proof (cases "get_revision s (rr_revision_id run)")
    case None
    with run assms have "s' = s \<and> n = 0"
      by (auto simp: verify_still_open_escalation_groups_def Let_def split: if_splits)
    then show ?thesis by (elim conjE) (rule nothing)
  next
    case rv: (Some rv)
    obtain gs where gs: "escalation_groups s run_id rv = Inr gs"
      by (cases "escalation_groups s run_id rv")
         (auto simp: escalation_groups_def pass3_verification_escalation_select_def Let_def
           verification_judge_slots_remaining_def split: if_splits)
    have "(s' = s \<and> n = 0) \<or> (\<exists>patches model st.
        judge_loop (verify_group env run (rev_id rv) patches model) (map fg_id gs) (start_judging s) = Inr st \<and>
        s' = flush_outcomes (jst_added st) (jst_session st) \<and> n = jst_judged st \<and>
        (\<exists>prior pr cp. get_last_published_prior_revision s (rev_pull_request_id rv) rv = Some prior \<and>
           get_pull_request s (rev_pull_request_id rv) = Some pr \<and>
           fetch_compare_patches gh s pr (Some (rev_head_sha prior)) (Some (rev_head_sha rv)) True = Inr cp \<and>
           \<not> cp_compare_failed cp \<and> patches = cp_patches_by_file cp))"
      using assms
      unfolding verify_still_open_escalation_groups_def Let_def run rv gs option.case
      by (auto simp: rbind_eq_Inr gs split: if_splits option.splits sum.splits)
    then show ?thesis
      by (elim disjE exE conjE) (rule nothing, assumption+, rule asked [OF run rv gs], assumption+, intro exI conjI, assumption+)
  qed
qed

definition verification_ids :: "session \<Rightarrow> uuid \<Rightarrow> uuid list" where
  "verification_ids s run_id = map jo_group_id (filter (is_verification_row run_id) (ss_outcomes s))"

lemma slots_remaining:
  "verification_judge_slots_remaining s run_id = max 0 (5 - int (length (verification_ids s run_id)))"
  by (simp add: verification_judge_slots_remaining_def VERIFICATION_JUDGE_MAX_PER_RUN_def
      verification_ids_def count_if_def)

text \<open>Flushed rows get an identifier and are otherwise as they were added.\<close>

lemma flush_outcomes_appended:
  "\<exists>rows. ss_outcomes (flush_outcomes added s) = ss_outcomes s @ rows \<and>
     list_all2 (\<lambda>r q. \<exists>i. r = q\<lparr>jo_id := i\<rparr>) rows added"
proof (induction added arbitrary: s)
  case (Cons q added)
  from Cons.IH [of "flush_outcome q s"] obtain rows where
    rows: "ss_outcomes (flush_outcomes added (flush_outcome q s)) = ss_outcomes (flush_outcome q s) @ rows"
      "list_all2 (\<lambda>r q. \<exists>i. r = q\<lparr>jo_id := i\<rparr>) rows added" by blast
  then have "ss_outcomes (flush_outcomes (q # added) s) = ss_outcomes s @ (q\<lparr>jo_id := next_uuid s\<rparr> # rows)"
    by (simp add: flush_outcomes_def flush_outcome_def tick_def tbl_add_def)
  with rows(2) show ?case by (intro exI conjI) (assumption, auto)
qed (simp add: flush_outcomes_def)

text \<open>A row of the verification: the group it is about was a candidate, the model was asked about it
  with the patches since the last published head and gave the outcome of the row, and the group is closed on
  \<open>dismissed\<close> and left alone on \<open>upheld\<close>.\<close>

definition verified_by :: "gh \<Rightarrow> judge_env \<Rightarrow> session \<Rightarrow> session \<Rightarrow> uuid \<Rightarrow> judge_row \<Rightarrow> bool" where
  "verified_by gh env s s' run_id r \<longleftrightarrow>
     (\<exists>run rv prior pr cp g. get_review_run s run_id = Some run \<and> get_revision s (rr_revision_id run) = Some rv \<and>
        get_last_published_prior_revision s (rev_pull_request_id rv) rv = Some prior \<and>
        get_pull_request s (rev_pull_request_id rv) = Some pr \<and>
        fetch_compare_patches gh s pr (Some (rev_head_sha prior)) (Some (rev_head_sha rv)) True = Inr cp \<and>
        \<not> cp_compare_failed cp \<and>
        is_verification_row run_id r \<and> jo_outcome r \<in> {JO_dismissed, JO_upheld} \<and>
        get_group s (jo_group_id r) = Some g \<and> may_verify s run_id rv g \<and>
        judge_said env (verification_prompt s (cp_patches_by_file cp) g) (jo_outcome r) \<and>
        get_group s' (jo_group_id r) =
          Some (if jo_outcome r = JO_dismissed then close_verification (rev_id rv) g else g))"

text \<open>The candidates put to the model, and the rows flushed after the loop.\<close>

lemma escalated:
  assumes "escalation_groups s run_id rv = Inr gs" and "distinct (map fg_id (ss_groups s))" and "k \<in> set (map fg_id gs)"
  shows "\<exists>g. get_group s k = Some g \<and> may_verify s run_id rv g \<and> k \<notin> set (verification_ids s run_id)"
proof -
  have "list_all (may_verify s run_id rv) gs" using escalation_groups_facts [of s run_id rv] assms(1) by auto
  moreover from assms(3) obtain g where "g \<in> set gs" "k = fg_id g" by auto
  ultimately have "may_verify s run_id rv g" "k = fg_id g" by (simp_all add: list_all_iff)
  then show ?thesis using tbl_get_unique [OF assms(2), of g]
    by (auto simp: may_verify_def list_ex_iff verification_ids_def get_group_def)
qed

lemma flushed_rows:
  assumes inv: "verify_inv env patches s run rv ds st" and id: "rr_id run = run_id"
    and s': "s' = flush_outcomes (jst_added st) (jst_session st)"
  obtains rows where "ss_outcomes s' = ss_outcomes s @ rows" "length rows = jst_judged st"
    "map jo_group_id rows = map jo_group_id (jst_added st)"
    "verification_ids s' run_id = verification_ids s run_id @ map jo_group_id (jst_added st)"
    "\<And>r. r \<in> set rows \<Longrightarrow> is_verification_row run_id r \<and> jo_outcome r \<noteq> JO_modified \<and>
       (\<exists>q\<in>set (jst_added st). jo_group_id q = jo_group_id r \<and> jo_outcome q = jo_outcome r)"
proof -
  have out0: "ss_outcomes (jst_session st) = ss_outcomes s" using inv by (simp add: verify_inv_def)
  obtain rows where rows: "ss_outcomes s' = ss_outcomes s @ rows" "list_all2 (\<lambda>r q. \<exists>i. r = q\<lparr>jo_id := i\<rparr>) rows (jst_added st)"
    using flush_outcomes_appended [of "jst_added st" "jst_session st"] by (auto simp: s' out0)
  have all: "is_verification_row run_id q \<and> jo_outcome q \<noteq> JO_modified" if "q \<in> set (jst_added st)" for q
    using inv that id by (auto simp: verify_inv_def list_all_iff)
  have "\<exists>q\<in>set (jst_added st). jo_group_id q = jo_group_id r \<and> jo_outcome q = jo_outcome r \<and>
      is_verification_row run_id q = is_verification_row run_id r" if "r \<in> set rows" for r
    using list_all2_conv_all_nth [THEN iffD1, OF rows(2)] that by (fastforce simp: in_set_conv_nth is_verification_row_def)
  then have each: "is_verification_row run_id r \<and> jo_outcome r \<noteq> JO_modified \<and>
       (\<exists>q\<in>set (jst_added st). jo_group_id q = jo_group_id r \<and> jo_outcome q = jo_outcome r)" if "r \<in> set rows" for r
    using that all by fastforce
  have "map jo_group_id xs = map jo_group_id ys" if "list_all2 (\<lambda>r q. \<exists>i. r = q\<lparr>jo_id := i\<rparr>) xs ys" for xs ys :: "judge_row list"
    using that by (induction rule: list_all2_induct) auto
  then have ids: "map jo_group_id rows = map jo_group_id (jst_added st)" using rows(2) by blast
  have "filter (is_verification_row run_id) rows = rows" using each by (simp add: filter_id_conv)
  then have "verification_ids s' run_id = verification_ids s run_id @ map jo_group_id (jst_added st)"
    by (simp add: verification_ids_def rows(1) ids)
  moreover have "length rows = jst_judged st" using inv list_all2_lengthD [OF rows(2)] by (simp add: verify_inv_def)
  ultimately show ?thesis using that rows(1) ids each by blast
qed

text \<open>A group answered about: the answer is the outcome, and decides on the closure.\<close>

lemma answered_group:
  assumes inv: "verify_inv env patches s run rv ds st" and q: "q \<in> set (jst_added st)" and g: "get_group s (jo_group_id q) = Some g"
  shows "judge_said env (verification_prompt s patches g) (jo_outcome q)"
    "get_group (jst_session st) (jo_group_id q) = Some (if jo_outcome q = JO_dismissed then close_verification rv g else g)"
proof -
  show "judge_said env (verification_prompt s patches g) (jo_outcome q)" using inv q g by (auto simp: verify_inv_def)
  have "distinct (map jo_group_id (jst_added st))" using inv by (simp add: verify_inv_def)
  then have "x = q" if "x \<in> set (jst_added st)" "jo_group_id x = jo_group_id q" for x
    using that q by (metis distinct_map inj_onD)
  then have "dismissed_in (jst_added st) (jo_group_id q) \<longleftrightarrow> jo_outcome q = JO_dismissed"
    using q unfolding dismissed_in_def list_ex_iff by metis
  then show "get_group (jst_session st) (jo_group_id q) = Some (if jo_outcome q = JO_dismissed then close_verification rv g else g)"
    using inv g by (simp add: verify_inv_def)
qed

text \<open>C37. The verification pass is bounded and closes groups on the answer \<open>dismissed\<close> only: a run never gets more
  than five verification outcomes and no group gets two; every outcome added is the model's answer, \<open>dismissed\<close> or
  \<open>upheld\<close>, to the question about an active, still-open group of the run's pull request that the run did not
  report, that no failed comparison blocks and that had no outcome of the run; on \<open>dismissed\<close> that group is closed as
  dismissed by verification at the run's revision, on \<open>upheld\<close> it is as before, and so is every group without an
  outcome, whatever the model answered.\<close>

theorem verification_pass_accounts:
  assumes "verify_still_open_escalation_groups gh env s run_id = Inr (s', n, arts)"
    and "distinct (map fg_id (ss_groups s))" and "distinct (verification_ids s run_id)"
  shows "length (verification_ids s' run_id) = length (verification_ids s run_id) + n \<and>
    length (verification_ids s' run_id) \<le> max 5 (length (verification_ids s run_id)) \<and>
    distinct (verification_ids s' run_id) \<and>
    (\<exists>rows. ss_outcomes s' = ss_outcomes s @ rows \<and> length rows = n \<and>
       (\<forall>r\<in>set rows. verified_by gh env s s' run_id r) \<and>
       (\<forall>gid. gid \<notin> jo_group_id ` set rows \<longrightarrow> get_group s' gid = get_group s gid))"
  using assms(1)
proof (cases rule: verify_cases)
  case nothing
  then show ?thesis using assms(3) by auto
next
  case (asked run rv gs patches model st)
  from escalation_groups_facts [of s run_id rv] asked(3) assms(2)
  have gs: "int (length gs) \<le> verification_judge_slots_remaining s run_id" "distinct (map fg_id gs)" by auto
  have rid: "rr_id run = run_id" using asked(1) by (rule get_review_run_id)
  have inv: "verify_inv env patches s run (rev_id rv) (map fg_id gs) st"
    using verification.pass_keeps [OF verify_inv_start gs(2) asked(4)] .
  let ?new = "map jo_group_id (jst_added st)"
  obtain rows where rows: "ss_outcomes s' = ss_outcomes s @ rows" "length rows = jst_judged st" "map jo_group_id rows = ?new"
    "verification_ids s' run_id = verification_ids s run_id @ ?new"
    "\<And>r. r \<in> set rows \<Longrightarrow> is_verification_row run_id r \<and> jo_outcome r \<noteq> JO_modified \<and>
       (\<exists>q\<in>set (jst_added st). jo_group_id q = jo_group_id r \<and> jo_outcome q = jo_outcome r)"
    using flushed_rows [OF inv rid asked(5)] by blast
  have groups': "get_group s' k = get_group (jst_session st) k" for k by (simp add: asked(5) get_group_def)
  have new: "distinct ?new" "set ?new \<subseteq> set (map fg_id gs)" "jst_judged st = length ?new"
    using inv by (simp_all add: verify_inv_def)
  note cand = escalated [OF asked(3) assms(2)]
  have "length ?new \<le> length gs" using card_mono [OF _ new(2)] distinct_card [OF new(1)]
    distinct_card [OF gs(2)] by simp
  then have bound: "length (verification_ids s' run_id) \<le> max 5 (length (verification_ids s run_id))"
    using gs(1) by (simp add: rows(4) slots_remaining)
  have dist: "distinct (verification_ids s' run_id)"
    using assms(3) new cand by (auto simp: rows(4))
  have each: "verified_by gh env s s' run_id r" if r: "r \<in> set rows" for r
  proof -
    obtain q where q: "q \<in> set (jst_added st)" "jo_group_id q = jo_group_id r" "jo_outcome q = jo_outcome r"
      using rows(5) [OF r] by blast
    have "jo_group_id q \<in> set ?new" using imageI [OF q(1), of jo_group_id] by simp
    from cand [OF subsetD [OF new(2) this]]
    obtain g where g: "get_group s (jo_group_id q) = Some g" "may_verify s run_id rv g" by blast
    have o: "jo_outcome r \<in> {JO_dismissed, JO_upheld}" "is_verification_row run_id r"
      using rows(5) [OF r] by (cases "jo_outcome r"; simp)+
    from asked(7) obtain prior pr cp where
      "get_last_published_prior_revision s (rev_pull_request_id rv) rv = Some prior"
      "get_pull_request s (rev_pull_request_id rv) = Some pr"
      "fetch_compare_patches gh s pr (Some (rev_head_sha prior)) (Some (rev_head_sha rv)) True = Inr cp"
      "\<not> cp_compare_failed cp" "patches = cp_patches_by_file cp" by (elim exE conjE)
    with asked(1,2) g answered_group [OF inv q(1) g(1)] o groups' show ?thesis
      unfolding verified_by_def q(2,3) by metis
  qed
  have rest: "get_group s' gid = get_group s gid" if "gid \<notin> jo_group_id ` set rows" for gid
  proof -
    have "gid \<notin> set ?new" using that rows(3) by (metis set_map)
    then have "\<not> dismissed_in (jst_added st) gid" by (auto simp: dismissed_in_def list_ex_iff)
    then show ?thesis using inv by (simp add: groups' verify_inv_def)
  qed
  have "length (verification_ids s' run_id) = length (verification_ids s run_id) + n" "length rows = n"
    using new(3) asked(6) rows(2,4) by simp_all
  with bound dist rows(1) each rest show ?thesis by blast
qed

text \<open>Run 1 reviews revision 2 of pull request 4; a severe group last seen at the published revision 1
  is still open and the run does not report it.\<close>

definition demo_open_group :: finding_group where
  "demo_open_group = demo_group\<lparr>fg_resolution_status := Some RS_still_open\<rparr>"

definition demo_verify_session :: session where
  "demo_verify_session = demo_push_session\<lparr>ss_findings := [], ss_groups := [demo_open_group]\<rparr>"

lemma demo_verify_rows:
  "get_review_run demo_verify_session 1 = Some demo_run" "rr_status demo_run = RR_completed"
  "get_revision demo_verify_session 2 = Some demo_revision" "rr_revision_id demo_run = 2"
  "rev_pull_request_id demo_revision = 4" "get_pull_request demo_verify_session 4 = Some demo_pull_request"
  "ss_groups demo_verify_session = [demo_open_group]" "ss_outcomes demo_verify_session = []"
  "ss_findings demo_verify_session = []" "get_group demo_verify_session 10 = Some demo_open_group"
  "rr_id demo_run = 1" "fg_id demo_open_group = 10"
  by (simp_all add: demo_verify_session_def demo_push_session_def demo_prior_def demo_open_group_def demo_github_eval)

lemma demo_verify_prior:
  "get_last_published_prior_revision demo_verify_session 4 demo_revision = Some demo_prior"
  by (simp add: get_last_published_prior_revision_def revision_published_def demo_verify_session_def
      demo_push_session_def demo_prior_def demo_github_eval)

lemma demo_verify_fetch:
  "fetch_compare_patches gh_deletes demo_verify_session demo_pull_request (Some (S ''aa'')) (Some (S ''bb'')) True
   = Inr demo_compare"
proof -
  have "get_repository demo_verify_session = get_repository demo_push_session"
    "get_installation demo_verify_session = get_installation demo_push_session"
    by (simp_all add: fun_eq_iff session_gets demo_verify_session_def)
  then have "fetch_compare_patches gh_deletes demo_verify_session = fetch_compare_patches gh_deletes demo_push_session"
    by (simp add: fun_eq_iff fetch_compare_patches_def)
  then show ?thesis by (simp add: demo_fetch_deletes)
qed

lemma demo_escalation:
  "escalation_groups demo_verify_session 1 demo_revision = Inr [demo_open_group]"
proof -
  have c: "is_verification_escalation_candidate demo_open_group (Some 2)"
    by (simp add: is_verification_escalation_candidate_def demo_open_group_def demo_group_def
        is_judge_candidate_def)
  have sl: "verification_judge_slots_remaining demo_verify_session 1 = 5"
    by (simp add: slots_remaining verification_ids_def demo_verify_rows)
  have rep: "fingerprints_in_review_run demo_verify_session 1 = []"
    by (simp add: fingerprints_in_review_run_def demo_verify_rows run_findings_def)
  have pr: "fg_pull_request_id demo_open_group = 4" by (simp add: demo_open_group_def demo_group_def)
  show ?thesis
    by (simp add: escalation_groups_def pass3_verification_escalation_select_def sl rep sql_filter_iff
        demo_verify_rows demo_heads c pr Let_def)
qed

theorem verification_pass_accounts_witness:
  "\<exists>s' arts. verify_still_open_escalation_groups gh_deletes (demo_judge (S ''dismissed'')) demo_verify_session 1
      = Inr (s', 1, arts) \<and> length (verification_ids s' 1) = 1 \<and>
     (\<exists>r. ss_outcomes s' = [r] \<and> verified_by gh_deletes (demo_judge (S ''dismissed'')) demo_verify_session s' 1 r)"
proof -
  let ?env = "demo_judge (S ''dismissed'')" and ?st = "start_judging demo_verify_session"
  let ?m = "\<lparr>mr_provider = S ''p'', mr_model_id = S ''m''\<rparr>"
  have w: "S ''dismissed'' = outcome_value JO_dismissed" by (simp add: outcome_value_def)
  have st: "ss_outcomes (jst_session ?st) = []" "get_group (jst_session ?st) 10 = Some demo_open_group"
    by (simp_all add: start_judging_def demo_verify_rows)
  have env: "je_llm_enabled ?env" "je_resolve ?env ws = Inr ?m" for ws by (simp_all add: demo_judge_def)
  have cp: "cp_compare_failed demo_compare = False" "cp_patches_by_file demo_compare = []"
    by (simp_all add: demo_compare_def)
  obtain st' where s: "verify_group ?env demo_run 2 [] ?m 10 ?st = Inr st'" "jst_judged st' = 1"
    using st by (auto simp: verify_group_def Let_def w demo_judge_answers verification_answer_def
        start_judging_def split: prod.splits)
  have "\<exists>s' arts. verify_still_open_escalation_groups gh_deletes ?env demo_verify_session 1 = Inr (s', 1, arts)"
    using s by (simp add: verify_still_open_escalation_groups_def demo_verify_rows demo_verify_prior
        demo_heads demo_verify_fetch demo_escalation Let_def)
       (simp add: env cp demo_verify_rows demo_heads)
  then obtain s' arts where v: "verify_still_open_escalation_groups gh_deletes ?env demo_verify_session 1
      = Inr (s', 1, arts)" by blast
  have d: "distinct (map fg_id (ss_groups demo_verify_session))" "verification_ids demo_verify_session 1 = []"
    by (simp_all add: verification_ids_def demo_verify_rows)
  then have nil: "distinct (verification_ids demo_verify_session 1)" by simp
  note acc = verification_pass_accounts [OF v d(1) nil]
  from acc have "length (verification_ids s' 1) = 1" by (simp add: d(2))
  moreover from acc obtain rows where "ss_outcomes s' = rows" "length rows = 1"
    "\<forall>r\<in>set rows. verified_by gh_deletes ?env demo_verify_session s' 1 r"
    by (auto simp: demo_verify_rows)
  then have "\<exists>r. ss_outcomes s' = [r] \<and> verified_by gh_deletes ?env demo_verify_session s' 1 r"
    by (auto simp: length_Suc_conv)
  ultimately show ?thesis using v by blast
qed

end
