(* ===== verification/Py_Re.thy ===== *)
theory Py_Re
  imports Py_Str
begin

section \<open>Regular expressions of Python's \<open>re\<close>\<close>

text \<open>
  The fragment of \<open>re\<close> that the source searches with: character classes, \<open>\\b\<close>, concatenation,
  alternatives, and a repeated class.  \<open>re_lang\<close> is the meaning of an expression as a set of
  matches in their context, \<open>re_search\<close> an executable search that is proved to decide it (only
  whether there is a match is used, so greediness plays no role).  \<open>\\w\<close> is alphanumeric or the
  underscore; which code points above 127 are alphanumeric is Unicode's table, the
  parameter \<open>u\<close>.
\<close>

datatype regex =
    Eps
  | Cls "nat \<Rightarrow> bool"
  | Bnd
  | Cat regex regex
  | Alt regex regex
  | Rep "nat \<Rightarrow> bool" nat "nat option"

definition is_word :: "(nat \<Rightarrow> bool) \<Rightarrow> nat \<Rightarrow> bool" where
  "is_word u c \<longleftrightarrow>
     (48 \<le> c \<and> c \<le> 57) \<or> (65 \<le> c \<and> c \<le> 90) \<or> (97 \<le> c \<and> c \<le> 122) \<or> c = 95 \<or> (128 \<le> c \<and> u c)"

definition is_word_opt :: "(nat \<Rightarrow> bool) \<Rightarrow> nat option \<Rightarrow> bool" where
  "is_word_opt u c = (case c of None \<Rightarrow> False | Some c \<Rightarrow> is_word u c)"

definition hd_opt :: "pystr \<Rightarrow> nat option" where
  "hd_opt s = (case s of [] \<Rightarrow> None | c # _ \<Rightarrow> Some c)"

definition last_opt :: "pystr \<Rightarrow> nat option" where
  "last_opt s = hd_opt (rev s)"

lemma last_opt_snoc [simp]: "last_opt (s @ [c]) = Some c" "last_opt [] = None"
  by (simp_all add: last_opt_def hd_opt_def)

subsection \<open>Meaning\<close>

text \<open>The expression matches \<open>w\<close> where \<open>pre\<close> comes before it and \<open>post\<close> after it.\<close>

fun re_lang :: "(nat \<Rightarrow> bool) \<Rightarrow> regex \<Rightarrow> pystr \<Rightarrow> pystr \<Rightarrow> pystr \<Rightarrow> bool" where
  "re_lang u Eps pre w post \<longleftrightarrow> w = []"
| "re_lang u (Cls p) pre w post \<longleftrightarrow> (\<exists>c. w = [c] \<and> p c)"
| "re_lang u Bnd pre w post \<longleftrightarrow>
     w = [] \<and> is_word_opt u (last_opt pre) \<noteq> is_word_opt u (hd_opt post)"
| "re_lang u (Cat a b) pre w post \<longleftrightarrow>
     (\<exists>v1 v2. w = v1 @ v2 \<and> re_lang u a pre v1 (v2 @ post) \<and> re_lang u b (pre @ v1) v2 post)"
| "re_lang u (Alt a b) pre w post \<longleftrightarrow> re_lang u a pre w post \<or> re_lang u b pre w post"
| "re_lang u (Rep p lo hi) pre w post \<longleftrightarrow>
     list_all p w \<and> lo \<le> length w \<and> (case hi of None \<Rightarrow> True | Some h \<Rightarrow> length w \<le> h)"

subsection \<open>Search\<close>

text \<open>All the ways to match at the current position: the character before the end, and the rest.\<close>

fun rep_ends ::
  "(nat \<Rightarrow> bool) \<Rightarrow> nat \<Rightarrow> nat option \<Rightarrow> nat option \<Rightarrow> pystr \<Rightarrow> (nat option \<times> pystr) list" where
  "rep_ends p lo hi prev [] = (if lo = 0 then [(prev, [])] else [])"
| "rep_ends p lo hi prev (c # s) =
     (if lo = 0 then [(prev, c # s)] else []) @
     (if p c \<and> hi \<noteq> Some 0 then rep_ends p (lo - 1) (map_option (\<lambda>h. h - 1) hi) (Some c) s else [])"

fun ends :: "(nat \<Rightarrow> bool) \<Rightarrow> regex \<Rightarrow> nat option \<Rightarrow> pystr \<Rightarrow> (nat option \<times> pystr) list" where
  "ends u Eps prev s = [(prev, s)]"
| "ends u (Cls p) prev s = (case s of [] \<Rightarrow> [] | c # t \<Rightarrow> if p c then [(Some c, t)] else [])"
| "ends u Bnd prev s = (if is_word_opt u prev \<noteq> is_word_opt u (hd_opt s) then [(prev, s)] else [])"
| "ends u (Cat a b) prev s = concat (map (\<lambda>e. ends u b (fst e) (snd e)) (ends u a prev s))"
| "ends u (Alt a b) prev s = ends u a prev s @ ends u b prev s"
| "ends u (Rep p lo hi) prev s = rep_ends p lo hi prev s"

fun search_from :: "(nat \<Rightarrow> bool) \<Rightarrow> regex \<Rightarrow> nat option \<Rightarrow> pystr \<Rightarrow> bool" where
  "search_from u r prev [] \<longleftrightarrow> ends u r prev [] \<noteq> []"
| "search_from u r prev (c # s) \<longleftrightarrow> ends u r prev (c # s) \<noteq> [] \<or> search_from u r (Some c) s"

definition re_search :: "(nat \<Rightarrow> bool) \<Rightarrow> regex \<Rightarrow> pystr \<Rightarrow> bool" where
  "re_search u r s = search_from u r None s"

subsection \<open>Building expressions\<close>

fun seq :: "regex list \<Rightarrow> regex" where
  "seq [] = Eps"
| "seq (r # rs) = Cat r (seq rs)"

text \<open>A literal, exactly and with \<open>re.IGNORECASE\<close>.  The latter compares the simple case
  foldings: besides the two cases of an ASCII letter these are the long s, the Kelvin sign, and
  the dotted and dotless i.\<close>

definition ci :: "nat \<Rightarrow> nat \<Rightarrow> bool" where
  "ci l c \<longleftrightarrow>
     lower_cp c = lower_cp l \<or>
     (lower_cp l = 115 \<and> c = 0x17F) \<or> (lower_cp l = 107 \<and> c = 0x212A) \<or>
     (lower_cp l = 105 \<and> (c = 0x130 \<or> c = 0x131))"

definition re_lit :: "pystr \<Rightarrow> regex" where
  "re_lit s = seq (map (\<lambda>l. Cls (\<lambda>c. c = l)) s)"

definition re_lit_ci :: "pystr \<Rightarrow> regex" where
  "re_lit_ci s = seq (map (\<lambda>l. Cls (ci l)) s)"

definition re_word_ci :: "pystr \<Rightarrow> regex" where
  "re_word_ci s = seq [Bnd, re_lit_ci s, Bnd]"

abbreviation re_star :: "(nat \<Rightarrow> bool) \<Rightarrow> regex" where
  "re_star p \<equiv> Rep p 0 None"

abbreviation re_plus :: "(nat \<Rightarrow> bool) \<Rightarrow> regex" where
  "re_plus p \<equiv> Rep p 1 None"

definition none_of :: "pystr \<Rightarrow> nat \<Rightarrow> bool" where
  "none_of cs c \<longleftrightarrow> c \<notin> set cs"

subsection \<open>The search decides the meaning\<close>

lemma rep_ends_iff:
  "(q, t) \<in> set (rep_ends p lo hi (last_opt pre) s) \<longleftrightarrow>
     (\<exists>w. s = w @ t \<and> q = last_opt (pre @ w) \<and> list_all p w \<and> lo \<le> length w \<and>
        (case hi of None \<Rightarrow> True | Some h \<Rightarrow> length w \<le> h))"
proof (induction s arbitrary: lo hi pre)
  case Nil
  then show ?case by (auto split: option.splits)
next
  case (Cons c s)
  have step: "(q, t) \<in> set (rep_ends p (lo - 1) (map_option (\<lambda>h. h - 1) hi) (Some c) s) \<longleftrightarrow>
      (\<exists>w. s = w @ t \<and> q = last_opt (pre @ c # w) \<and> list_all p w \<and> lo - 1 \<le> length w \<and>
        (case map_option (\<lambda>h. h - 1) hi of None \<Rightarrow> True | Some h \<Rightarrow> length w \<le> h))"
    using Cons.IH [of "lo - 1" "map_option (\<lambda>h. h - 1) hi" "pre @ [c]"] by simp
  have nonempty: "(\<exists>w. c # s = w @ t \<and> P w) \<longleftrightarrow> (c # s = t \<and> P []) \<or> (\<exists>w. s = w @ t \<and> P (c # w))" for P
    by (auto simp: Cons_eq_append_conv)
  have len: "(case map_option (\<lambda>h. h - 1) hi of None \<Rightarrow> True | Some h \<Rightarrow> length w \<le> h) \<and> hi \<noteq> Some 0 \<longleftrightarrow>
      (case hi of None \<Rightarrow> True | Some h \<Rightarrow> length (c # w) \<le> h)" for w :: pystr
    by (cases hi) auto
  show ?case
    unfolding rep_ends.simps nonempty [of "\<lambda>w. q = last_opt (pre @ w) \<and> list_all p w \<and> lo \<le> length w \<and>
        (case hi of None \<Rightarrow> True | Some h \<Rightarrow> length w \<le> h)"] set_append Un_iff
    using step len by (auto split: option.splits)
qed

lemma ends_iff:
  "(q, t) \<in> set (ends u r (last_opt pre) s) \<longleftrightarrow>
     (\<exists>w. s = w @ t \<and> q = last_opt (pre @ w) \<and> re_lang u r pre w t)"
proof (induction r arbitrary: pre s q t)
  case (Cls p)
  then show ?case by (cases s) auto
next
  case (Cat a b)
  show ?case
  proof
    assume "(q, t) \<in> set (ends u (Cat a b) (last_opt pre) s)"
    then obtain q1 t1 where 1: "(q1, t1) \<in> set (ends u a (last_opt pre) s)" "(q, t) \<in> set (ends u b q1 t1)"
      by auto
    from 1(1) obtain v1 where v1: "s = v1 @ t1" "q1 = last_opt (pre @ v1)" "re_lang u a pre v1 t1"
      unfolding Cat.IH(1) by blast
    with 1(2) obtain v2 where v2: "t1 = v2 @ t" "q = last_opt ((pre @ v1) @ v2)" "re_lang u b (pre @ v1) v2 t"
      using Cat.IH(2) by blast
    with v1 show "\<exists>w. s = w @ t \<and> q = last_opt (pre @ w) \<and> re_lang u (Cat a b) pre w t"
      by (intro exI [of _ "v1 @ v2"]) auto
  next
    assume "\<exists>w. s = w @ t \<and> q = last_opt (pre @ w) \<and> re_lang u (Cat a b) pre w t"
    then obtain v1 v2 where v: "s = v1 @ v2 @ t" "q = last_opt ((pre @ v1) @ v2)"
      "re_lang u a pre v1 (v2 @ t)" "re_lang u b (pre @ v1) v2 t" by auto
    then have "(last_opt (pre @ v1), v2 @ t) \<in> set (ends u a (last_opt pre) s)"
      "(q, t) \<in> set (ends u b (last_opt (pre @ v1)) (v2 @ t))"
      unfolding Cat.IH by blast+
    then show "(q, t) \<in> set (ends u (Cat a b) (last_opt pre) s)" by force
  qed
next
  case (Rep p lo hi)
  show ?case using rep_ends_iff [of q t p lo hi pre s] by simp
qed auto

lemma ends_ne_iff: "ends u r (last_opt pre) s \<noteq> [] \<longleftrightarrow> (\<exists>w t. s = w @ t \<and> re_lang u r pre w t)"
proof
  assume "ends u r (last_opt pre) s \<noteq> []"
  then obtain q t where "(q, t) \<in> set (ends u r (last_opt pre) s)" by (metis list.set_intros(1) neq_Nil_conv surj_pair)
  then show "\<exists>w t. s = w @ t \<and> re_lang u r pre w t" unfolding ends_iff by blast
next
  assume "\<exists>w t. s = w @ t \<and> re_lang u r pre w t"
  then obtain w t where "s = w @ t" "re_lang u r pre w t" by blast
  then have "(last_opt (pre @ w), t) \<in> set (ends u r (last_opt pre) s)" unfolding ends_iff by blast
  then show "ends u r (last_opt pre) s \<noteq> []" by auto
qed

lemma search_from_iff:
  "search_from u r (last_opt pre) s \<longleftrightarrow> (\<exists>v w t. s = v @ w @ t \<and> re_lang u r (pre @ v) w t)"
proof (induction s arbitrary: pre)
  case Nil
  show ?case using ends_ne_iff [of u r pre "[]"] by auto
next
  case (Cons c s)
  have later: "search_from u r (Some c) s \<longleftrightarrow> (\<exists>v w t. s = v @ w @ t \<and> re_lang u r (pre @ c # v) w t)"
    using Cons.IH [of "pre @ [c]"] by simp
  have "(\<exists>v w t. c # s = v @ w @ t \<and> re_lang u r (pre @ v) w t) \<longleftrightarrow>
      (\<exists>w t. c # s = w @ t \<and> re_lang u r pre w t) \<or>
      (\<exists>v w t. s = v @ w @ t \<and> re_lang u r (pre @ c # v) w t)" (is "?l \<longleftrightarrow> ?a \<or> ?b")
  proof
    assume ?l
    then obtain v w t where v: "c # s = v @ w @ t" "re_lang u r (pre @ v) w t" by blast
    show "?a \<or> ?b"
    proof (cases v)
      case Nil
      with v show ?thesis by auto
    next
      case (Cons d v')
      with v have "s = v' @ w @ t" "re_lang u r (pre @ c # v') w t" by auto
      then show ?thesis by blast
    qed
  next
    assume "?a \<or> ?b"
    then show ?l by (metis append_Cons append_Nil append_Nil2)
  qed
  then show ?case using later ends_ne_iff [of u r pre "c # s"] by simp
qed

lemma re_search_iff:
  "re_search u r s \<longleftrightarrow> (\<exists>pre w post. s = pre @ w @ post \<and> re_lang u r pre w post)"
  using search_from_iff [of u r "[]" s] by (simp add: re_search_def)

lemma re_search_Alt: "re_search u (Alt a b) s \<longleftrightarrow> re_search u a s \<or> re_search u b s"
  unfolding re_search_iff by auto

lemma cat_cls:
  "re_lang u (Cat (Cls p) r) pre w post \<longleftrightarrow> (\<exists>c v. w = c # v \<and> p c \<and> re_lang u r (pre @ [c]) v post)"
proof
  assume "\<exists>c v. w = c # v \<and> p c \<and> re_lang u r (pre @ [c]) v post"
  then obtain c v where "w = [c] @ v" "p c" "re_lang u r (pre @ [c]) v post" by auto
  then show "re_lang u (Cat (Cls p) r) pre w post" unfolding re_lang.simps by blast
qed auto

lemma seq_lits:
  "re_lang u (seq (map (\<lambda>l. Cls (f l)) ls)) pre w post \<longleftrightarrow> list_all2 f ls w"
proof (induction ls arbitrary: pre w)
  case (Cons l ls)
  show ?case unfolding list.map seq.simps cat_cls Cons.IH list_all2_Cons1 by blast
qed simp

end
