(* ===== verification/Head_Suppression.thy ===== *)
theory Head_Suppression
  imports Closure Py_Re
begin

section \<open>Head contradictions (\<open>services/github_finding_head_suppression.py\<close>)\<close>

text \<open>
  A group whose claim matches a rule and whose file, read at the head, contradicts the claim is
  resolved as \<open>head_contradiction\<close>.  The compiled patterns are expressions of the theory of
  regular expressions, with \<open>u\<close> the table of alphanumeric code points above 127; the file
  contents come from the contents API.
\<close>

subsection \<open>Patterns\<close>

definition CLAIM_SQLALCHEMY_OR_MISSING_RE :: regex where
  "CLAIM_SQLALCHEMY_OR_MISSING_RE =
     (let module = Alt (re_lit_ci (S ''sqlalchemy'')) (re_lit_ci (S ''import''));
          gap = Rep (none_of [10]) 0 (Some 120)
      in Alt (seq [Bnd, re_lit_ci (S ''or_''), Bnd, gap, Bnd, module, Bnd])
             (seq [Bnd, module, Bnd, gap, Bnd, re_lit_ci (S ''or_''), Bnd]))"

definition HEAD_SQLALCHEMY_OR_IMPORT_RE :: regex where
  "HEAD_SQLALCHEMY_OR_IMPORT_RE =
     (let gap = re_star (none_of [10, 59]) in
      Alt (seq [re_lit_ci (S ''from''), re_plus is_py_space, re_lit_ci (S ''sqlalchemy''), Bnd, gap,
                Bnd, re_lit_ci (S ''or_''), Bnd])
          (seq [Bnd, re_lit_ci (S ''import''), re_plus is_py_space, re_lit_ci (S ''sqlalchemy''), Bnd, gap,
                Bnd, re_lit_ci (S ''or_''), Bnd]))"

definition CLAIM_SYSTEM_STATUS_BAR_REQUIRED_RE :: regex where
  "CLAIM_SYSTEM_STATUS_BAR_REQUIRED_RE =
     seq [Bnd, re_lit_ci (S ''system''), re_star is_py_space, re_lit_ci (S ''status''), re_star is_py_space,
          re_lit_ci (S ''bar''), Bnd]"

definition CLAIM_REQUIRED_OR_MISSING_RE :: regex where
  "CLAIM_REQUIRED_OR_MISSING_RE =
     seq [Bnd, Alt (re_lit_ci (S ''required'')) (re_lit_ci (S ''missing'')), Bnd]"

definition HEAD_TS_OPTIONAL_PROPS_RE :: regex where
  "HEAD_TS_OPTIONAL_PROPS_RE =
     seq [re_lit_ci (S ''connectionId''), re_star is_py_space, re_lit (S ''?''), re_star is_py_space, re_lit (S '':''),
          re_star (none_of (S ''}'')), re_lit_ci (S ''compact''), re_star is_py_space, re_lit (S ''?''),
          re_star is_py_space, re_lit (S '':'')]"

definition HEAD_JSX_OPTIONAL_PROPS_RE :: regex where
  "HEAD_JSX_OPTIONAL_PROPS_RE =
     seq [re_lit_ci (S ''connectionId''), re_star is_py_space, re_lit (S ''?''), re_star (none_of [10, 47, 62]),
          re_lit_ci (S ''compact''), re_star is_py_space, re_lit (S ''?'')]"

definition CLAIM_KPI_SKELETON_RE :: regex where
  "CLAIM_KPI_SKELETON_RE = re_word_ci (S ''kpi'')"

definition CLAIM_KPI_SKELETON_COUNT_RE :: regex where
  "CLAIM_KPI_SKELETON_COUNT_RE = seq [Bnd, re_lit_ci (S ''skeleton'')]"

definition HEAD_OVERVIEW_KPI_COUNT_FOUR_RE :: regex where
  "HEAD_OVERVIEW_KPI_COUNT_FOUR_RE =
     seq [Bnd, re_lit (S ''OVERVIEW_KPI_COUNT''), re_star is_py_space, re_lit (S ''=''), re_star is_py_space,
          re_lit (S ''4''), Bnd]"

definition CLAIM_EXPORT_RE :: regex where
  "CLAIM_EXPORT_RE = re_word_ci (S ''export'')"

definition CLAIM_EXPORT_LABEL_CONTEXT_RE :: regex where
  "CLAIM_EXPORT_LABEL_CONTEXT_RE =
     seq [Bnd, Alt (re_lit_ci (S ''label'')) (Alt (re_lit_ci (S ''misleading''))
            (seq [re_lit_ci (S ''always''), re_plus is_py_space, re_lit_ci (S ''wrong'')])), Bnd]"

definition quoted :: "pystr \<Rightarrow> regex" where
  "quoted s = seq [Cls (\<lambda>c. c = 39 \<or> c = 34), re_lit s, Cls (\<lambda>c. c = 39 \<or> c = 34)]"

definition HEAD_EXPORT_LIST_RE :: regex where
  "HEAD_EXPORT_LIST_RE = quoted (S ''Export List'')"

definition HEAD_EXPORT_SELECTED_RE :: regex where
  "HEAD_EXPORT_SELECTED_RE = quoted (S ''Export Selected'')"

definition CLAIM_PROP_MIGRATION_RE :: regex where
  "CLAIM_PROP_MIGRATION_RE =
     seq [Bnd, re_lit_ci (S ''prop''), re_plus is_py_space, re_lit_ci (S ''migration''), Bnd]"

definition CLAIM_CALLER_PROPS_RE :: regex where
  "CLAIM_CALLER_PROPS_RE = seq [Bnd, re_lit_ci (S ''caller''), Rep (ci 115) 0 (Some 1), Bnd]"

definition CLAIM_CALLER_PROP_GAP_RE :: regex where
  "CLAIM_CALLER_PROP_GAP_RE =
     seq [Bnd, Alt (re_lit_ci (S ''missing'')) (Alt (re_lit_ci (S ''required'')) (re_lit_ci (S ''incomplete''))), Bnd]"

definition PROPS_RE :: regex where
  "PROPS_RE = seq [Bnd, re_lit_ci (S ''prop''), Rep (ci 115) 0 (Some 1), Bnd]"

subsection \<open>Rules\<close>

record head_contradiction_rule =
  hc_rule_id :: pystr
  hc_matrix_ref :: pystr
  hc_claim_predicate :: "finding_group \<Rightarrow> bool"
  hc_head_predicate :: "pystr \<Rightarrow> bool"

definition claim_text :: "finding_group \<Rightarrow> pystr" where
  "claim_text g = fg_title g @ [10] @ fg_message g"

definition claim_matches :: "(nat \<Rightarrow> bool) \<Rightarrow> regex \<Rightarrow> finding_group \<Rightarrow> bool" where
  "claim_matches u r g \<longleftrightarrow> re_search u r (claim_text g)"

definition head_imports_sqlalchemy_or :: "(nat \<Rightarrow> bool) \<Rightarrow> pystr \<Rightarrow> bool" where
  "head_imports_sqlalchemy_or u content \<longleftrightarrow> re_search u HEAD_SQLALCHEMY_OR_IMPORT_RE content"

definition head_system_status_bar_optional_props :: "(nat \<Rightarrow> bool) \<Rightarrow> pystr \<Rightarrow> bool" where
  "head_system_status_bar_optional_props u content \<longleftrightarrow>
     re_search u HEAD_TS_OPTIONAL_PROPS_RE content \<or> re_search u HEAD_JSX_OPTIONAL_PROPS_RE content"

definition head_has_overview_kpi_count_four :: "(nat \<Rightarrow> bool) \<Rightarrow> pystr \<Rightarrow> bool" where
  "head_has_overview_kpi_count_four u content \<longleftrightarrow> re_search u HEAD_OVERVIEW_KPI_COUNT_FOUR_RE content"

definition head_has_conditional_export_labels :: "(nat \<Rightarrow> bool) \<Rightarrow> pystr \<Rightarrow> bool" where
  "head_has_conditional_export_labels u content \<longleftrightarrow>
     re_search u HEAD_EXPORT_LIST_RE content \<and> re_search u HEAD_EXPORT_SELECTED_RE content"

definition claim_system_status_bar_required :: "(nat \<Rightarrow> bool) \<Rightarrow> finding_group \<Rightarrow> bool" where
  "claim_system_status_bar_required u g \<longleftrightarrow>
     re_search u CLAIM_SYSTEM_STATUS_BAR_REQUIRED_RE (claim_text g) \<and>
     re_search u CLAIM_REQUIRED_OR_MISSING_RE (claim_text g)"

definition claim_kpi_skeleton_count :: "(nat \<Rightarrow> bool) \<Rightarrow> finding_group \<Rightarrow> bool" where
  "claim_kpi_skeleton_count u g \<longleftrightarrow>
     re_search u CLAIM_KPI_SKELETON_RE (claim_text g) \<and> re_search u CLAIM_KPI_SKELETON_COUNT_RE (claim_text g)"

definition claim_export_label :: "(nat \<Rightarrow> bool) \<Rightarrow> finding_group \<Rightarrow> bool" where
  "claim_export_label u g \<longleftrightarrow>
     re_search u CLAIM_EXPORT_RE (claim_text g) \<and> re_search u CLAIM_EXPORT_LABEL_CONTEXT_RE (claim_text g)"

definition claim_prop_migration :: "(nat \<Rightarrow> bool) \<Rightarrow> finding_group \<Rightarrow> bool" where
  "claim_prop_migration u g =
     (if re_search u CLAIM_PROP_MIGRATION_RE (claim_text g) then True
      else re_search u CLAIM_CALLER_PROPS_RE (claim_text g) \<and>
           re_search u CLAIM_CALLER_PROP_GAP_RE (claim_text g) \<and>
           re_search u PROPS_RE (claim_text g))"

definition HEAD_CONTRADICTION_RULES :: "(nat \<Rightarrow> bool) \<Rightarrow> head_contradiction_rule list" where
  "HEAD_CONTRADICTION_RULES u = [
     \<lparr>hc_rule_id = S ''missing_or_import'', hc_matrix_ref = S ''RR-V5 row 1'',
      hc_claim_predicate = claim_matches u CLAIM_SQLALCHEMY_OR_MISSING_RE,
      hc_head_predicate = head_imports_sqlalchemy_or u\<rparr>,
     \<lparr>hc_rule_id = S ''system_status_bar_props'', hc_matrix_ref = S ''RR-V5 row 2'',
      hc_claim_predicate = claim_system_status_bar_required u,
      hc_head_predicate = head_system_status_bar_optional_props u\<rparr>,
     \<lparr>hc_rule_id = S ''kpi_skeleton_count'', hc_matrix_ref = S ''RR-V5 row 3'',
      hc_claim_predicate = claim_kpi_skeleton_count u,
      hc_head_predicate = head_has_overview_kpi_count_four u\<rparr>,
     \<lparr>hc_rule_id = S ''export_label'', hc_matrix_ref = S ''RR-V5 row 15'',
      hc_claim_predicate = claim_export_label u,
      hc_head_predicate = head_has_conditional_export_labels u\<rparr>,
     \<lparr>hc_rule_id = S ''prop_migration'', hc_matrix_ref = S ''RR-V5 row 17'',
      hc_claim_predicate = claim_prop_migration u,
      hc_head_predicate = head_system_status_bar_optional_props u\<rparr>]"

definition matches_head_contradiction :: "(nat \<Rightarrow> bool) \<Rightarrow> finding_group \<Rightarrow> pystr \<Rightarrow> pystr option" where
  "matches_head_contradiction u g content =
     map_option hc_rule_id
       (List.find (\<lambda>r. hc_claim_predicate r g \<and> hc_head_predicate r content) (HEAD_CONTRADICTION_RULES u))"

subsection \<open>Reading the head\<close>

text \<open>The loop over the sorted paths; the errors it skips are those of the comparison.\<close>

fun load_snippets :: "(pystr \<Rightarrow> exn + pystr) \<Rightarrow> pystr list \<Rightarrow> exn + (pystr \<times> pystr) list" where
  "load_snippets fetch [] = Inr []"
| "load_snippets fetch (p # ps) =
     (case fetch p of
        Inr content \<Rightarrow> rbind (load_snippets fetch ps) (\<lambda>rs. Inr ((p, content) # rs))
      | Inl e \<Rightarrow> if is_compare_failure e then load_snippets fetch ps else Inl e)"

definition load_head_file_snippets ::
  "gh \<Rightarrow> session \<Rightarrow> pull_request \<Rightarrow> pystr \<Rightarrow> pystr list \<Rightarrow> exn + (pystr \<times> pystr) list" where
  "load_head_file_snippets gh s pr head paths =
     (if paths = [] \<or> head = [] then Inr []
      else case (get_repository s (pr_repository_id pr), get_installation s (pr_installation_id pr)) of
        (Some repo, Some inst) \<Rightarrow>
          (case py_split1 (S ''/'') (repo_full_name repo) of
             None \<Rightarrow> Inr []
           | Some (owner, name) \<Rightarrow>
               load_snippets
                 (\<lambda>p. fetch_repository_file_at_sha gh (inst_github_installation_id inst) owner name p head)
                 (sort (dedupe paths)))
      | _ \<Rightarrow> Inr [])"

subsection \<open>Suppression\<close>

definition close_contradicted :: "uuid \<Rightarrow> finding_group \<Rightarrow> finding_group" where
  "close_contradicted rv g = g\<lparr>
     fg_state := Grp_resolved,
     fg_resolution_method := Some RM_head_contradiction,
     fg_resolved_at_revision_id := Some rv,
     fg_closure_blocked_reason := None,
     fg_resolution_status := None\<rparr>"

definition is_contradicted :: "(nat \<Rightarrow> bool) \<Rightarrow> (pystr \<times> pystr) list \<Rightarrow> finding_group \<Rightarrow> bool" where
  "is_contradicted u snippets g =
     (if fg_state g \<noteq> Grp_active then False
      else if opt_or (fg_file_path g) [] = [] then False
      else
        let content = opt_or (map_of snippets (opt_or (fg_file_path g) [])) [] in
        if content = [] then False
        else matches_head_contradiction u g content \<noteq> None)"

text \<open>The loop over the given groups writes each group's own row; the result is the count.\<close>

definition suppress_head_contradictions ::
  "(nat \<Rightarrow> bool) \<Rightarrow> session \<Rightarrow> (finding_group \<Rightarrow> bool) \<Rightarrow> (pystr \<times> pystr) list \<Rightarrow> uuid \<Rightarrow> session \<times> nat" where
  "suppress_head_contradictions u s in_groups snippets rv =
     (let hit = (\<lambda>g. in_groups g \<and> is_contradicted u snippets g)
      in (s\<lparr>ss_groups := tbl_map hit (close_contradicted rv) (ss_groups s)\<rparr>, count_if hit (ss_groups s)))"

definition suppress_head_contradictions_for_review_run ::
  "(nat \<Rightarrow> bool) \<Rightarrow> gh \<Rightarrow> session \<Rightarrow> uuid \<Rightarrow> exn + session \<times> nat" where
  "suppress_head_contradictions_for_review_run u gh s run_id =
     (case get_review_run s run_id of
        None \<Rightarrow> Inr (s, 0)
      | Some run \<Rightarrow>
          (case get_revision s (rr_revision_id run) of
             None \<Rightarrow> Inr (s, 0)
           | Some rv \<Rightarrow>
               (case get_pull_request s (rev_pull_request_id rv) of
                  None \<Rightarrow> Inr (s, 0)
                | Some pr \<Rightarrow>
                    let in_groups = (\<lambda>g. fg_pull_request_id g = pr_id pr \<and> fg_state g = Grp_active);
                        groups = filter in_groups (ss_groups s);
                        paths = filter (\<lambda>p. p \<noteq> []) (map (\<lambda>g. opt_or (fg_file_path g) []) groups)
                    in if groups = [] then Inr (s, 0)
                       else rbind (load_head_file_snippets gh s pr (rev_head_sha rv) paths) (\<lambda>snippets.
                         Inr (suppress_head_contradictions u s in_groups snippets (rev_id rv))))))"

subsection \<open>What the head predicates accept\<close>

lemma lit_matches: "re_lang u (re_lit s) pre w post \<longleftrightarrow> w = s"
proof -
  have "list_all2 (\<lambda>l c. c = l) s w \<longleftrightarrow> w = s"
    by (metis (mono_tags, lifting) list.rel_eq list_all2_mono)
  then show ?thesis by (simp add: re_lit_def seq_lits)
qed

lemma seq_Cons: "re_lang u (seq (r # rs)) pre w post \<longleftrightarrow>
    (\<exists>v1 v2. w = v1 @ v2 \<and> re_lang u r pre v1 (v2 @ post) \<and> re_lang u (seq rs) (pre @ v1) v2 post)"
  by simp

lemma quoted_matches:
  "re_search u (quoted s) content \<longleftrightarrow>
     (\<exists>pre q q' post. content = pre @ [q] @ s @ [q'] @ post \<and> q \<in> {39, 34} \<and> q' \<in> {39, 34})"
  (is "?l \<longleftrightarrow> ?r")
proof
  assume ?l
  then obtain pre w post where c: "content = pre @ w @ post" "re_lang u (quoted s) pre w post"
    unfolding re_search_iff by blast
  then show ?r unfolding quoted_def seq.simps cat_cls by (auto simp: lit_matches) blast+
next
  assume ?r
  then obtain pre q q' post where c: "content = pre @ ([q] @ s @ [q']) @ post" "q \<in> {39, 34}" "q' \<in> {39, 34}"
    by auto
  then have "re_lang u (quoted s) pre ([q] @ s @ [q']) post"
    unfolding quoted_def seq.simps cat_cls by (auto simp: lit_matches)
  with c(1) show ?l unfolding re_search_iff by blast
qed

lemma word_at_start: "re_lang u Bnd pre v (c # post) \<and> is_word u c \<longleftrightarrow>
    v = [] \<and> \<not> is_word_opt u (last_opt pre) \<and> is_word u c"
  by (auto simp: hd_opt_def is_word_opt_def)

definition quoted_in :: "pystr \<Rightarrow> pystr \<Rightarrow> bool" where
  "quoted_in s content \<longleftrightarrow>
     (\<exists>pre q q' post. content = pre @ [q] @ s @ [q'] @ post \<and> q \<in> {39, 34} \<and> q' \<in> {39, 34})"

text \<open>The head predicates of two rules say what they look for: the labels of the export button are
  both present as quoted strings, and a constant of the given name is set to the digit 4, as a
  whole word, with white space allowed around the equals sign.\<close>

theorem head_predicates_spec:
  "(head_has_conditional_export_labels u content \<longleftrightarrow>
      quoted_in (S ''Export List'') content \<and> quoted_in (S ''Export Selected'') content) \<and>
   (head_has_overview_kpi_count_four u content \<longleftrightarrow>
      (\<exists>pre a b post. content = pre @ S ''OVERVIEW_KPI_COUNT'' @ a @ S ''='' @ b @ S ''4'' @ post \<and>
         list_all is_py_space a \<and> list_all is_py_space b \<and>
         \<not> is_word_opt u (last_opt pre) \<and> \<not> is_word_opt u (hd_opt post)))"
proof (rule conjI)
  show "head_has_conditional_export_labels u content \<longleftrightarrow>
      quoted_in (S ''Export List'') content \<and> quoted_in (S ''Export Selected'') content"
    unfolding head_has_conditional_export_labels_def HEAD_EXPORT_LIST_RE_def HEAD_EXPORT_SELECTED_RE_def
      quoted_matches quoted_in_def by simp
next
  define kpi where "kpi = S ''OVERVIEW_KPI_COUNT''"
  have kpi: "hd_opt (kpi @ x) = Some 79" for x by (simp add: kpi_def S_def hd_opt_def)
  have four: "last_opt (x @ S ''4'') = Some 52" for x by (simp add: S_def)
  have m: "re_lang u HEAD_OVERVIEW_KPI_COUNT_FOUR_RE pre w post \<longleftrightarrow>
      (\<exists>a b. w = kpi @ a @ S ''='' @ b @ S ''4'' \<and> list_all is_py_space a \<and> list_all is_py_space b \<and>
         \<not> is_word_opt u (last_opt pre) \<and> \<not> is_word_opt u (hd_opt post))" (is "?l \<longleftrightarrow> ?r") for pre w post
  proof
    assume ?l
    then obtain a b where w: "w = kpi @ a @ S ''='' @ b @ S ''4''" "list_all is_py_space a" "list_all is_py_space b"
      "is_word_opt u (last_opt pre) \<noteq> is_word_opt u (hd_opt (w @ post))"
      "is_word_opt u (last_opt (pre @ w)) \<noteq> is_word_opt u (hd_opt post)"
      unfolding HEAD_OVERVIEW_KPI_COUNT_FOUR_RE_def kpi_def [symmetric] seq.simps
      by (auto simp: lit_matches)
    moreover have "last_opt (pre @ w) = Some 52" using four [of "pre @ kpi @ a @ S ''='' @ b"] w(1) by simp
    moreover have "hd_opt (w @ post) = Some 79" using kpi w(1) by simp
    ultimately show ?r by (auto simp: is_word_opt_def is_word_def)
  next
    assume ?r
    then obtain a b where w: "w = kpi @ a @ S ''='' @ b @ S ''4''" "list_all is_py_space a" "list_all is_py_space b"
      "\<not> is_word_opt u (last_opt pre)" "\<not> is_word_opt u (hd_opt post)" by blast
    have "hd_opt (w @ post) = Some 79" using kpi w(1) by simp
    moreover have "last_opt (pre @ w) = Some 52" using four [of "pre @ kpi @ a @ S ''='' @ b"] w(1) by simp
    ultimately have "is_word_opt u (last_opt pre) \<noteq> is_word_opt u (hd_opt (w @ post))"
      "is_word_opt u (last_opt (pre @ w)) \<noteq> is_word_opt u (hd_opt post)"
      using w(4,5) by (auto simp: is_word_opt_def is_word_def)
    then show ?l
      unfolding HEAD_OVERVIEW_KPI_COUNT_FOUR_RE_def kpi_def [symmetric] seq.simps
      using w(1-3) by (auto simp: lit_matches)
  qed
  show "head_has_overview_kpi_count_four u content \<longleftrightarrow>
      (\<exists>pre a b post. content = pre @ S ''OVERVIEW_KPI_COUNT'' @ a @ S ''='' @ b @ S ''4'' @ post \<and>
         list_all is_py_space a \<and> list_all is_py_space b \<and>
         \<not> is_word_opt u (last_opt pre) \<and> \<not> is_word_opt u (hd_opt post))" (is "_ \<longleftrightarrow> ?r")
  proof
    assume "head_has_overview_kpi_count_four u content"
    then obtain pre w post where c: "content = pre @ w @ post"
      and w: "\<exists>a b. w = kpi @ a @ S ''='' @ b @ S ''4'' \<and> list_all is_py_space a \<and> list_all is_py_space b \<and>
         \<not> is_word_opt u (last_opt pre) \<and> \<not> is_word_opt u (hd_opt post)"
      unfolding head_has_overview_kpi_count_four_def re_search_iff m by blast
    from w obtain a b where "w = kpi @ a @ S ''='' @ b @ S ''4''" "list_all is_py_space a"
      "list_all is_py_space b" "\<not> is_word_opt u (last_opt pre)" "\<not> is_word_opt u (hd_opt post)" by blast
    then show ?r unfolding c kpi_def by (metis append.assoc)
  next
    assume ?r
    then obtain pre a b post where r: "content = pre @ (kpi @ a @ S ''='' @ b @ S ''4'') @ post"
      "list_all is_py_space a" "list_all is_py_space b" "\<not> is_word_opt u (last_opt pre)"
      "\<not> is_word_opt u (hd_opt post)" unfolding kpi_def by auto
    show "head_has_overview_kpi_count_four u content"
      unfolding head_has_overview_kpi_count_four_def re_search_iff m
      by (rule exI [of _ pre], rule exI, rule exI [of _ post], rule conjI, rule r(1))
         (rule exI [of _ a], rule exI [of _ b], simp add: r)
  qed
qed

subsection \<open>Suppression\<close>

interpretation contradicted: closing close_contradicted RM_head_contradiction
  by unfold_locales (simp_all add: close_contradicted_def same_identity_def)

lemma load_snippets_map:
  "load_snippets fetch ps = Inr rs \<Longrightarrow>
     map_of rs p = (if p \<in> set ps then (case fetch p of Inr c \<Rightarrow> Some c | Inl e \<Rightarrow> None) else None)"
proof (induction ps arbitrary: rs)
  case (Cons q ps)
  show ?case
  proof (cases "fetch q")
    case (Inl e)
    with Cons.prems have "load_snippets fetch ps = Inr rs" by (simp split: if_splits)
    from Cons.IH [OF this] Inl show ?thesis by auto
  next
    case (Inr c)
    with Cons.prems obtain rs' where r: "load_snippets fetch ps = Inr rs'" "rs = (q, c) # rs'"
      by (auto simp: rbind_eq_Inr)
    from Cons.IH [OF r(1)] r(2) Inr show ?thesis by auto
  qed
qed simp

definition contradicted_at_head ::
  "(nat \<Rightarrow> bool) \<Rightarrow> (pystr \<Rightarrow> exn + pystr) \<Rightarrow> uuid \<Rightarrow> finding_group \<Rightarrow> bool" where
  "contradicted_at_head u fetch pr g \<longleftrightarrow>
     fg_pull_request_id g = pr \<and> fg_state g = Grp_active \<and> opt_or (fg_file_path g) [] \<noteq> [] \<and>
     (case fetch (opt_or (fg_file_path g) []) of
        Inl e \<Rightarrow> False
      | Inr content \<Rightarrow> content \<noteq> [] \<and> matches_head_contradiction u g content \<noteq> None)"

lemma tbl_map_cong: "(\<And>g. g \<in> set t \<Longrightarrow> p g = q g) \<Longrightarrow> tbl_map p f t = tbl_map q f t"
  by (simp add: tbl_map_def)

lemma count_if_cong: "(\<And>g. g \<in> set t \<Longrightarrow> p g = q g) \<Longrightarrow> count_if p t = count_if q t"
  unfolding count_if_def by (simp cong: filter_cong)

text \<open>C38. The suppression closes exactly the contradicted groups: an active group of the run's pull
  request whose file could be read at the head and holds text that contradicts its claim is resolved as a
  head contradiction at the run's revision; every other group, also one whose file could not be
  read, is as before, nothing else changes, and the result counts the groups closed.\<close>

theorem suppression_exact:
  assumes "suppress_head_contradictions_for_review_run u gh s run_id = Inr (s', n)"
    and "get_review_run s run_id = Some run" and "get_revision s (rr_revision_id run) = Some rv"
    and "get_pull_request s (rev_pull_request_id rv) = Some pr" and "rev_head_sha rv \<noteq> []"
    and "get_repository s (pr_repository_id pr) = Some repo"
    and "get_installation s (pr_installation_id pr) = Some inst"
    and "py_split1 (S ''/'') (repo_full_name repo) = Some (owner, name)"
  shows "let hit = contradicted_at_head u (\<lambda>p. fetch_repository_file_at_sha gh
             (inst_github_installation_id inst) owner name p (rev_head_sha rv)) (pr_id pr)
     in s' = s\<lparr>ss_groups := tbl_map hit (close_contradicted (rev_id rv)) (ss_groups s)\<rparr> \<and>
        n = count_if hit (ss_groups s)"
proof -
  let ?fetch = "\<lambda>p. fetch_repository_file_at_sha gh (inst_github_installation_id inst) owner name p (rev_head_sha rv)"
  let ?in = "\<lambda>g. fg_pull_request_id g = pr_id pr \<and> fg_state g = Grp_active"
  let ?groups = "filter ?in (ss_groups s)"
  let ?paths = "filter (\<lambda>p. p \<noteq> []) (map (\<lambda>g. opt_or (fg_file_path g) []) ?groups)"
  let ?hit = "contradicted_at_head u ?fetch (pr_id pr)"
  show ?thesis
  proof (cases "?groups = []")
    case True
    then have none: "\<not> ?hit g" if "g \<in> set (ss_groups s)" for g
      using that unfolding contradicted_at_head_def filter_empty_conv by blast
    have "s' = s" "n = 0" using assms True
      by (simp_all add: suppress_head_contradictions_for_review_run_def Let_def)
    moreover have "tbl_map ?hit (close_contradicted (rev_id rv)) (ss_groups s) = ss_groups s"
      using none by (simp add: tbl_map_def map_idI)
    moreover have "count_if ?hit (ss_groups s) = 0" using none by (simp add: count_if_def)
    ultimately show ?thesis by simp
  next
    case False
    have ld: "load_head_file_snippets gh s pr (rev_head_sha rv) ?paths =
        (if ?paths = [] then Inr [] else load_snippets ?fetch (sort (dedupe ?paths)))"
      unfolding load_head_file_snippets_def assms(6,7) using assms(5,8) by simp
    have "rbind (load_head_file_snippets gh s pr (rev_head_sha rv) ?paths)
        (\<lambda>sn. Inr (suppress_head_contradictions u s ?in sn (rev_id rv))) = Inr (s', n)"
      using assms(1)
      unfolding suppress_head_contradictions_for_review_run_def assms(2,3,4) option.case Let_def if_not_P [OF False] .
    then obtain sn where sn: "load_head_file_snippets gh s pr (rev_head_sha rv) ?paths = Inr sn"
      and res: "suppress_head_contradictions u s ?in sn (rev_id rv) = (s', n)"
      unfolding rbind_eq_Inr sum.inject by (elim exE conjE) (rule that)
    have m: "map_of sn p = (if p \<in> set ?paths then (case ?fetch p of Inr c \<Rightarrow> Some c | Inl e \<Rightarrow> None) else None)" for p
    proof (cases "?paths = []")
      case True
      then show ?thesis using sn unfolding ld by simp
    next
      case False
      then have "load_snippets ?fetch (sort (dedupe ?paths)) = Inr sn" using sn unfolding ld by simp
      from load_snippets_map [OF this, of p] show ?thesis by simp
    qed
    have hit: "(?in g \<and> is_contradicted u sn g) = ?hit g" if "g \<in> set (ss_groups s)" for g
    proof (cases "?in g \<and> opt_or (fg_file_path g) [] \<noteq> []")
      case True
      then have "opt_or (fg_file_path g) [] \<in> set ?paths" using that by auto
      with m have "map_of sn (opt_or (fg_file_path g) []) =
          (case ?fetch (opt_or (fg_file_path g) []) of Inr c \<Rightarrow> Some c | Inl e \<Rightarrow> None)" by simp
      with True show ?thesis
        by (simp add: is_contradicted_def contradicted_at_head_def Let_def split: sum.split)
    next
      case False
      then show ?thesis by (auto simp: is_contradicted_def contradicted_at_head_def)
    qed
    have groups: "tbl_map (\<lambda>g. ?in g \<and> is_contradicted u sn g) (close_contradicted (rev_id rv)) (ss_groups s) =
        tbl_map ?hit (close_contradicted (rev_id rv)) (ss_groups s)"
      by (rule tbl_map_cong) (rule hit)
    have num: "count_if (\<lambda>g. ?in g \<and> is_contradicted u sn g) (ss_groups s) = count_if ?hit (ss_groups s)"
      by (rule count_if_cong) (rule hit)
    show ?thesis
      using res unfolding suppress_head_contradictions_def Let_def prod.inject groups num
      by (elim conjE) (intro conjI, erule sym, erule sym)
  qed
qed

text \<open>The group of the small database claims a wrong number of skeletons; the file served sets the
  constant to four.\<close>

definition kpi_text :: pystr where
  "kpi_text = S ''x OVERVIEW_KPI_COUNT = 4''"

lemma kpi_text_head: "head_has_overview_kpi_count_four u kpi_text"
  by (simp add: head_has_overview_kpi_count_four_def kpi_text_def HEAD_OVERVIEW_KPI_COUNT_FOUR_RE_def
      re_search_def re_lit_def S_def is_word_opt_def is_word_def hd_opt_def is_py_space_def)

definition kpi_group :: finding_group where
  "kpi_group = demo_group\<lparr>fg_title := S ''KPI skeletons'', fg_message := []\<rparr>"

lemma kpi_group_claim: "claim_kpi_skeleton_count u kpi_group"
  by (simp add: claim_kpi_skeleton_count_def CLAIM_KPI_SKELETON_RE_def CLAIM_KPI_SKELETON_COUNT_RE_def
      claim_text_def kpi_group_def re_search_def re_word_ci_def re_lit_ci_def ci_def lower_cp_def S_def
      is_word_opt_def is_word_def hd_opt_def)

lemma kpi_matches: "matches_head_contradiction u kpi_group kpi_text \<noteq> None"
proof -
  have "\<exists>r\<in>set (HEAD_CONTRADICTION_RULES u). hc_claim_predicate r kpi_group \<and> hc_head_predicate r kpi_text"
    by (simp add: HEAD_CONTRADICTION_RULES_def kpi_group_claim kpi_text_head)
  then have "List.find (\<lambda>r. hc_claim_predicate r kpi_group \<and> hc_head_predicate r kpi_text)
      (HEAD_CONTRADICTION_RULES u) \<noteq> None"
    unfolding find_None_iff by blast
  then show ?thesis by (simp add: matches_head_contradiction_def)
qed

lemma kpi_served:
  "fetch_repository_file_at_sha (gh_serves (utf8_encode kpi_text)) inst owner repo path ref = Inr kpi_text"
proof -
  have v: "valid_str kpi_text" by (simp add: kpi_text_def S_def valid_str_def valid_cp_def)
  show ?thesis
    using fetch_serves [OF utf8_encode_bytes [OF v]] by (simp add: py_decode_def utf8_roundtrip v)
qed

theorem suppression_exact_witness:
  "\<exists>s'. suppress_head_contradictions_for_review_run (\<lambda>c. False) (gh_serves (utf8_encode kpi_text))
      (demo_github_session\<lparr>ss_groups := [kpi_group]\<rparr>) 1 = Inr (s', 1) \<and>
    ss_groups s' = [close_contradicted 2 kpi_group]"
proof -
  let ?u = "\<lambda>c. False"
  let ?gh = "gh_serves (utf8_encode kpi_text)" and ?s = "demo_github_session\<lparr>ss_groups := [kpi_group]\<rparr>"
  have sp: "py_split1 (S ''/'') (S ''o/r'') = Some (S ''o'', S ''r'')"
    by (simp add: py_split1_def S_def py_find.simps py_startswith_def)
  have rows: "get_review_run ?s 1 = Some demo_run" "get_revision ?s (rr_revision_id demo_run) = Some demo_revision"
    "get_pull_request ?s (rev_pull_request_id demo_revision) = Some demo_pull_request"
    "get_repository ?s (pr_repository_id demo_pull_request) = Some demo_repository"
    "get_installation ?s (pr_installation_id demo_pull_request) = Some demo_installation"
    "py_split1 (S ''/'') (repo_full_name demo_repository) = Some (S ''o'', S ''r'')"
    by (simp_all add: demo_github_eval sp)
  have head: "rev_head_sha demo_revision \<noteq> []" by (simp add: demo_revision_def S_def)
  have g: "fg_pull_request_id kpi_group = 4" "fg_state kpi_group = Grp_active"
    "fg_file_path kpi_group = Some (S ''a.py'')" "S ''a.py'' \<noteq> []" "kpi_text \<noteq> []"
    by (simp_all add: kpi_group_def demo_group_def kpi_text_def S_def)
  have hit: "contradicted_at_head ?u (\<lambda>p. fetch_repository_file_at_sha ?gh i o1 n1 p h) 4 kpi_group" for i o1 n1 h
    by (simp add: contradicted_at_head_def kpi_served g kpi_matches)
  obtain sn where sn: "load_snippets (\<lambda>p. fetch_repository_file_at_sha ?gh i o1 n1 p h) ps = Inr (sn ps)" for i o1 n1 h ps
  proof
    show "load_snippets (\<lambda>p. fetch_repository_file_at_sha ?gh i o1 n1 p h) ps = Inr (map (\<lambda>p. (p, kpi_text)) ps)"
      for i o1 n1 h ps by (induction ps) (simp_all add: kpi_served)
  qed
  have "\<exists>s' n. suppress_head_contradictions_for_review_run ?u ?gh ?s 1 = Inr (s', n)"
    unfolding suppress_head_contradictions_for_review_run_def rows option.case Let_def
    by (simp add: load_head_file_snippets_def rows sn suppress_head_contradictions_def Let_def)
  then obtain s' n where r: "suppress_head_contradictions_for_review_run ?u ?gh ?s 1 = Inr (s', n)" by blast
  from suppression_exact [OF r rows(1,2,3) head rows(4,5,6)]
  show ?thesis
    using r by (simp add: Let_def tbl_map_def count_if_def hit demo_pull_request_def demo_revision_def)
qed

text \<open>A group suppressed by the head that a later run reports again comes back dirty: reconciliation
  makes it active but keeps the resolution method and revision of the suppression, so that the row
  breaks the well-formedness that every other closure and reopening keeps.\<close>

theorem contradiction_reopened_dirty:
  "let g' = rebind_group (close_contradicted r g) via f rv in
     fg_state g' = Grp_active \<and> fg_resolution_method g' = Some RM_head_contradiction \<and>
     fg_resolved_at_revision_id g' = Some r \<and> \<not> group_wf g' \<and>
     group_wf (close_contradicted r g) \<and> group_wf (rebind_group (close_absent r g) via f rv)"
  by (auto simp: rebind_group_def Let_def should_skip_resolved_group_on_reconcile_def
      should_reopen_absent_and_addressed_def close_contradicted_def copy_finding_attributes_def group_wf_def
      close_absent_def closure_fields_for_absent_and_addressed_def reopen_fields_for_re_report_def)

end
