(* ===== verification/Finding_Rows.thy ===== *)
theory Finding_Rows
  imports Records
begin

section \<open>Findings of the model: parsing and suggestions\<close>

text \<open>
  The reviewer model answers with a JSON list.  \<open>parse_finding_rows\<close>
  (\<open>services/github_review.py\<close>) keeps the well-formed rows and counts why the others were dropped;
  \<open>services/github_suggestion.py\<close> decides which suggestions may be shown as a GitHub suggestion
  block.  Python's \<open>str.isdigit\<close> and \<open>int\<close> accept digits beyond ASCII; which code points above
  127 they accept is Unicode's table, the parameter \<open>unicode\<close>.
\<close>

record unicode =
  uc_isdigit :: "nat \<Rightarrow> bool"
  uc_decimal :: "nat \<Rightarrow> nat option"

definition py_isdigit :: "unicode \<Rightarrow> pystr \<Rightarrow> bool" where
  "py_isdigit u s \<longleftrightarrow> s \<noteq> [] \<and> list_all (\<lambda>c. is_digit c \<or> (128 \<le> c \<and> uc_isdigit u c)) s"

definition digit_value :: "unicode \<Rightarrow> nat \<Rightarrow> nat option" where
  "digit_value u c =
     (if is_digit c then Some (c - 48) else if 128 \<le> c then uc_decimal u c else None)"

text \<open>\<open>int(s)\<close> of a string of digits; more than 4300 of them are refused.\<close>

fun digits_value :: "unicode \<Rightarrow> nat \<Rightarrow> pystr \<Rightarrow> nat option" where
  "digits_value u acc [] = Some acc"
| "digits_value u acc (c # cs) =
     (case digit_value u c of None \<Rightarrow> None | Some d \<Rightarrow> digits_value u (10 * acc + d) cs)"

definition py_int_of_digits :: "unicode \<Rightarrow> pystr \<Rightarrow> exn + int" where
  "py_int_of_digits u s =
     (case digits_value u 0 s of
        Some n \<Rightarrow> if length s \<le> 4300 then Inr (int n)
                  else Inl (Value_error (S ''Exceeds the limit (4300 digits) for integer string conversion''))
      | None \<Rightarrow> Inl (Value_error (S ''invalid literal for int() with base 10'')))"

subsection \<open>Suggestions (\<open>services/github_suggestion.py\<close>)\<close>

definition SUGGESTION_MAX_LENGTH :: nat where
  "SUGGESTION_MAX_LENGTH = 2000"

definition normalize_end_line :: "int option \<Rightarrow> int option" where
  "normalize_end_line end_line = (if end_line = Some 0 then None else end_line)"

definition is_eligible_suggestion_text :: "pystr option \<Rightarrow> pystr option" where
  "is_eligible_suggestion_text suggestion =
     (case suggestion of
        None \<Rightarrow> None
      | Some t \<Rightarrow>
          if py_strip t = [] then None
          else if 10 \<in> set t \<or> 13 \<in> set t then None
          else if py_contains t [96, 96, 96] then None
          else if SUGGESTION_MAX_LENGTH < length t then None
          else Some t)"

definition is_single_line_anchor :: "int option \<Rightarrow> int option \<Rightarrow> bool" where
  "is_single_line_anchor start_line end_line =
     (if start_line = None then False
      else normalize_end_line end_line = None \<or> normalize_end_line end_line = start_line)"

definition validated_suggestion_for_row ::
  "json option \<Rightarrow> pystr option \<Rightarrow> int option \<Rightarrow> int option \<Rightarrow> pystr option" where
  "validated_suggestion_for_row suggestion file_path start_line end_line =
     (case is_eligible_suggestion_text (case suggestion of Some (JStr t) \<Rightarrow> Some t | _ \<Rightarrow> None) of
        None \<Rightarrow> None
      | Some t \<Rightarrow>
          if file_path = None \<or> start_line = None then None
          else if \<not> is_single_line_anchor start_line end_line then None
          else Some t)"

definition is_publishable_suggestion :: "finding \<Rightarrow> pystr option" where
  "is_publishable_suggestion f =
     validated_suggestion_for_row (map_option JStr (fi_suggestion f)) (fi_file_path f)
       (fi_start_line f) (fi_end_line f)"

subsection \<open>Lines\<close>

text \<open>\<open>isinstance(raw, int)\<close> holds of booleans too, whose values are 0 and 1.\<close>

definition line_value :: "unicode \<Rightarrow> json option \<Rightarrow> exn + int option" where
  "line_value u raw =
     (case raw of
        Some (JInt i) \<Rightarrow> Inr (Some i)
      | Some (JBool b) \<Rightarrow> Inr (Some (if b then 1 else 0))
      | Some (JStr t) \<Rightarrow>
          if py_isdigit u (py_strip t) then rbind (py_int_of_digits u (py_strip t)) (\<lambda>i. Inr (Some i))
          else Inr None
      | _ \<Rightarrow> Inr None)"

definition normalize_finding_start_line :: "unicode \<Rightarrow> json option \<Rightarrow> exn + int option" where
  "normalize_finding_start_line u raw =
     rbind (line_value u raw) (\<lambda>v. Inr (case v of Some i \<Rightarrow> if i \<le> 0 then None else Some i | None \<Rightarrow> None))"

definition normalize_finding_end_line :: "unicode \<Rightarrow> json option \<Rightarrow> exn + int option" where
  "normalize_finding_end_line u raw = rbind (line_value u raw) (\<lambda>v. Inr (normalize_end_line v))"

subsection \<open>Rows\<close>

record finding_row =
  fr_severity :: finding_severity
  fr_category :: finding_category
  fr_title :: pystr
  fr_message :: pystr
  fr_file_path :: "pystr option"
  fr_start_line :: "int option"
  fr_end_line :: "int option"
  fr_suggestion :: "pystr option"

text \<open>\<open>str(raw.get(key, "")).strip().lower()\<close>: the string form of a value that is not a string is
  no enum value, and is modelled as absent.\<close>

definition enum_text :: "(pystr \<times> json) list \<Rightarrow> pystr \<Rightarrow> pystr" where
  "enum_text raw key = (case json_get key raw of Some (JStr t) \<Rightarrow> py_lower (py_strip t) | _ \<Rightarrow> [])"

text \<open>A string with more than white space.\<close>

definition nonblank :: "json option \<Rightarrow> pystr option" where
  "nonblank v = (case v of Some (JStr t) \<Rightarrow> if py_strip t = [] then None else Some (py_strip t) | _ \<Rightarrow> None)"

definition parse_finding_row :: "unicode \<Rightarrow> (pystr \<times> json) list \<Rightarrow> exn + pystr + finding_row" where
  "parse_finding_row u raw =
     (if enum_text raw (S ''category'') = category_value Cat_style then Inr (Inl (S ''style_category''))
      else case (severity_of (enum_text raw (S ''severity'')), category_of (enum_text raw (S ''category''))) of
        (Some sev, Some cat) \<Rightarrow>
          (case nonblank (json_get (S ''title'') raw) of
             None \<Rightarrow> Inr (Inl (S ''missing_title''))
           | Some title \<Rightarrow>
               (case nonblank (json_get (S ''message'') raw) of
                  None \<Rightarrow> Inr (Inl (S ''missing_message''))
                | Some message \<Rightarrow>
                    rbind (normalize_finding_start_line u (json_get (S ''start_line'') raw)) (\<lambda>start_line.
                    rbind (normalize_finding_end_line u (json_get (S ''end_line'') raw)) (\<lambda>end_line.
                      let path = nonblank (json_get (S ''file_path'') raw)
                      in Inr (Inr \<lparr>fr_severity = sev, fr_category = cat, fr_title = title, fr_message = message,
                           fr_file_path = path, fr_start_line = start_line, fr_end_line = end_line,
                           fr_suggestion = validated_suggestion_for_row (json_get (S ''suggestion'') raw)
                             path start_line end_line\<rparr>)))))
      | _ \<Rightarrow> Inr (Inl (S ''invalid_enum'')))"

record parse_report =
  rep_parsed_count :: nat
  rep_dropped_count :: nat
  rep_drop_reasons :: "(pystr \<times> nat) list"

fun bump :: "pystr \<Rightarrow> (pystr \<times> nat) list \<Rightarrow> (pystr \<times> nat) list" where
  "bump k [] = [(k, 1)]"
| "bump k ((a, n) # ms) = (if a = k then (a, Suc n) # ms else (a, n) # bump k ms)"

fun parse_rows ::
  "unicode \<Rightarrow> json list \<Rightarrow> finding_row list \<Rightarrow> (pystr \<times> nat) list \<Rightarrow> exn + finding_row list \<times> (pystr \<times> nat) list" where
  "parse_rows u [] rows drops = Inr (rows, drops)"
| "parse_rows u (item # items) rows drops =
     (case item of
        JObj raw \<Rightarrow>
          rbind (parse_finding_row u raw) (\<lambda>r. case r of
            Inl reason \<Rightarrow> parse_rows u items rows (bump reason drops)
          | Inr row \<Rightarrow> parse_rows u items (rows @ [row]) drops)
      | _ \<Rightarrow> parse_rows u items rows (bump (S ''invalid_row'') drops))"

definition parse_finding_rows :: "unicode \<Rightarrow> json list \<Rightarrow> exn + finding_row list \<times> parse_report" where
  "parse_finding_rows u raw =
     rbind (parse_rows u raw [] []) (\<lambda>(rows, drops).
       Inr (rows, \<lparr>rep_parsed_count = length rows, rep_dropped_count = sum_list (map snd drops),
                   rep_drop_reasons = drops\<rparr>))"

subsection \<open>Properties\<close>

definition suggestion_ok :: "pystr option \<Rightarrow> pystr option \<Rightarrow> int option \<Rightarrow> int option \<Rightarrow> bool" where
  "suggestion_ok sug path start_line end_line =
     (case sug of
        None \<Rightarrow> True
      | Some t \<Rightarrow>
          py_strip t \<noteq> [] \<and> 10 \<notin> set t \<and> 13 \<notin> set t \<and> \<not> py_contains t [96, 96, 96] \<and> length t \<le> 2000 \<and>
          path \<noteq> None \<and> start_line \<noteq> None \<and> end_line \<in> {None, Some 0, start_line})"

definition row_ok :: "finding_row \<Rightarrow> bool" where
  "row_ok r \<longleftrightarrow>
     fr_category r \<noteq> Cat_style \<and> fr_title r \<noteq> [] \<and> py_strip (fr_title r) = fr_title r \<and>
     fr_message r \<noteq> [] \<and> py_strip (fr_message r) = fr_message r \<and>
     fr_file_path r \<noteq> Some [] \<and> (case fr_start_line r of None \<Rightarrow> True | Some i \<Rightarrow> 0 < i) \<and>
     fr_end_line r \<noteq> Some 0 \<and> suggestion_ok (fr_suggestion r) (fr_file_path r) (fr_start_line r) (fr_end_line r)"

lemma py_lstrip_id: "s = [] \<or> \<not> is_py_space (hd s) \<Longrightarrow> py_lstrip s = s"
  by (cases s) (auto simp: py_lstrip_def)

lemma py_rstrip_id: "s = [] \<or> \<not> is_py_space (last s) \<Longrightarrow> py_rstrip s = s"
  using py_lstrip_id [of "rev s"] by (auto simp: py_rstrip_def py_lstrip_def hd_rev)

lemma py_strip_strip: "py_strip (py_strip s) = py_strip s"
proof (cases "py_strip s = []")
  case True
  have "py_strip [] = []" by (simp add: py_strip_def py_lstrip_def py_rstrip_def)
  with True show ?thesis by simp
next
  case False
  then have "py_lstrip (py_strip s) = py_strip s" "py_rstrip (py_strip s) = py_strip s"
    using py_strip_hd [OF False] py_strip_last [OF False] by (simp_all add: py_lstrip_id py_rstrip_id)
  then show ?thesis by (simp add: py_strip_def [of "py_strip s"])
qed

lemma nonblank_Some: "nonblank v = Some t \<Longrightarrow> t \<noteq> [] \<and> py_strip t = t"
  by (auto simp: nonblank_def py_strip_strip split: option.splits json.splits if_splits)

lemma validated_ok:
  "suggestion_ok (validated_suggestion_for_row v path start_line end_line) path start_line end_line"
  by (auto simp: suggestion_ok_def validated_suggestion_for_row_def is_eligible_suggestion_text_def
      is_single_line_anchor_def normalize_end_line_def SUGGESTION_MAX_LENGTH_def
      split: option.splits if_splits)

lemma validated_again:
  "suggestion_ok sug path start_line end_line \<Longrightarrow>
     validated_suggestion_for_row (map_option JStr sug) path start_line end_line = sug"
  by (cases sug)
     (auto simp: suggestion_ok_def validated_suggestion_for_row_def is_eligible_suggestion_text_def
      is_single_line_anchor_def normalize_end_line_def SUGGESTION_MAX_LENGTH_def)

lemma parse_finding_row_ok:
  assumes "parse_finding_row u raw = Inr (Inr r)"
  shows "row_ok r"
proof -
  from assms obtain sev cat title message start_line end_line v w where
    c: "enum_text raw (S ''category'') \<noteq> category_value Cat_style" "category_of (enum_text raw (S ''category'')) = Some cat"
    and t: "nonblank (json_get (S ''title'') raw) = Some title" "nonblank (json_get (S ''message'') raw) = Some message"
    and l: "normalize_finding_start_line u v = Inr start_line" "normalize_finding_end_line u w = Inr end_line"
    and r: "r = \<lparr>fr_severity = sev, fr_category = cat, fr_title = title, fr_message = message,
        fr_file_path = nonblank (json_get (S ''file_path'') raw), fr_start_line = start_line, fr_end_line = end_line,
        fr_suggestion = validated_suggestion_for_row (json_get (S ''suggestion'') raw)
          (nonblank (json_get (S ''file_path'') raw)) start_line end_line\<rparr>"
    by (auto simp: parse_finding_row_def Let_def rbind_eq_Inr split: if_splits option.splits)
  have "category_value cat = enum_text raw (S ''category'')"
    using c(2) unfolding category_of_def find_Some_iff by auto
  with c(1) have "cat \<noteq> Cat_style" by auto
  moreover have "case start_line of None \<Rightarrow> True | Some i \<Rightarrow> 0 < i"
  proof -
    from l(1) obtain x where "start_line = (case x of Some i \<Rightarrow> if i \<le> 0 then None else Some i | None \<Rightarrow> None)"
      unfolding normalize_finding_start_line_def rbind_eq_Inr by blast
    then show ?thesis by (cases x) simp_all
  qed
  moreover have "end_line \<noteq> Some 0"
    using l(2) by (auto simp: normalize_finding_end_line_def rbind_eq_Inr normalize_end_line_def
        split: if_splits)
  moreover have "nonblank (json_get (S ''file_path'') raw) \<noteq> Some []" by (auto dest: nonblank_Some)
  ultimately show ?thesis using t [THEN nonblank_Some] validated_ok by (simp add: row_ok_def r)
qed

lemma sum_bump: "sum_list (map snd (bump k ms)) = Suc (sum_list (map snd ms))"
  by (induction ms) auto

lemma keys_bump: "set (map fst (bump k ms)) = insert k (set (map fst ms))"
proof (induction ms)
  case (Cons p ms)
  obtain a n where "p = (a, n)" by fastforce
  with Cons show ?case by (cases "a = k") (simp_all add: insert_commute)
qed simp

lemma distinct_bump: "distinct (map fst ms) \<Longrightarrow> distinct (map fst (bump k ms))"
proof (induction ms)
  case (Cons p ms)
  obtain a n where p: "p = (a, n)" by fastforce
  from Cons have "distinct (map fst (bump k ms))" "a \<notin> set (map fst ms)" by (simp_all add: p)
  with Cons.prems keys_bump [of k ms] show ?case by (cases "a = k") (simp_all add: p)
qed simp

lemma parse_rows_accounts:
  "parse_rows u items rows drops = Inr (rows', drops') \<Longrightarrow>
     length rows' + sum_list (map snd drops') = length items + length rows + sum_list (map snd drops) \<and>
     (list_all row_ok rows \<longrightarrow> list_all row_ok rows') \<and>
     (distinct (map fst drops) \<longrightarrow> distinct (map fst drops'))"
proof (induction items arbitrary: rows drops)
  case (Cons item items)
  show ?case
  proof (cases "\<exists>raw. item = JObj raw")
    case True
    then obtain raw r where raw: "item = JObj raw" "parse_finding_row u raw = Inr r"
      using Cons.prems by (auto simp: rbind_eq_Inr)
    show ?thesis
    proof (cases r)
      case (Inl reason)
      with Cons.prems raw have "parse_rows u items rows (bump reason drops) = Inr (rows', drops')" by simp
      from Cons.IH [OF this] show ?thesis by (auto simp: sum_bump distinct_bump)
    next
      case (Inr row)
      with Cons.prems raw have "parse_rows u items (rows @ [row]) drops = Inr (rows', drops')" by simp
      from Cons.IH [OF this] parse_finding_row_ok raw(2) Inr show ?thesis by auto
    qed
  next
    case False
    then have "parse_rows u items rows (bump (S ''invalid_row'') drops) = Inr (rows', drops')"
      using Cons.prems by (cases item) auto
    from Cons.IH [OF this] show ?thesis by (auto simp: sum_bump distinct_bump)
  qed
qed simp

text \<open>C39. Parsing the model's answer accounts for every item: each is either kept or counted under one
  reason, and a row that is kept is well-formed: no style finding, a title and a message without
  surrounding white space, positive start line, and a suggestion only where it fits one line.\<close>

theorem parse_finding_rows_accounts:
  assumes "parse_finding_rows u raw = Inr (rows, report)"
  shows "rep_parsed_count report = length rows \<and>
    rep_parsed_count report + rep_dropped_count report = length raw \<and>
    rep_dropped_count report = sum_list (map snd (rep_drop_reasons report)) \<and>
    distinct (map fst (rep_drop_reasons report)) \<and> list_all row_ok rows"
proof -
  from assms obtain drops where d: "parse_rows u raw [] [] = Inr (rows, drops)"
    "report = \<lparr>rep_parsed_count = length rows, rep_dropped_count = sum_list (map snd drops), rep_drop_reasons = drops\<rparr>"
    by (auto simp: parse_finding_rows_def rbind_eq_Inr)
  from parse_rows_accounts [OF d(1)] d(2) show ?thesis by simp
qed

definition ascii_only :: unicode where
  "ascii_only = \<lparr>uc_isdigit = (\<lambda>c. False), uc_decimal = (\<lambda>c. None)\<rparr>"

definition demo_row_json :: "(pystr \<times> json) list" where
  "demo_row_json = [(S ''severity'', JStr (S ''Error'')), (S ''category'', JStr (S ''bug'')),
     (S ''title'', JStr (S '' T '')), (S ''message'', JStr (S ''m'')), (S ''start_line'', JStr (S '' 7''))]"

theorem parse_finding_rows_accounts_witness:
  "\<exists>rows report. parse_finding_rows ascii_only [JNull, JObj demo_row_json] = Inr (rows, report) \<and>
     rep_parsed_count report = 1 \<and> rep_dropped_count report = 1 \<and> list_all row_ok rows"
proof -
  have "\<exists>row. parse_finding_row ascii_only demo_row_json = Inr (Inr row)"
    by (simp add: parse_finding_row_def demo_row_json_def enum_text_def nonblank_def severity_of_def
        category_of_def severity_value_def category_value_def S_def py_lower_def lower_cp_def py_strip_def
        py_lstrip_def py_rstrip_def is_py_space_def normalize_finding_start_line_def
        normalize_finding_end_line_def line_value_def py_isdigit_def is_digit_def py_int_of_digits_def
        digit_value_def Let_def)
  then obtain row where "parse_finding_row ascii_only demo_row_json = Inr (Inr row)" by blast
  then have p: "parse_finding_rows ascii_only [JNull, JObj demo_row_json] =
      Inr ([row], \<lparr>rep_parsed_count = 1, rep_dropped_count = 1, rep_drop_reasons = [(S ''invalid_row'', 1)]\<rparr>)"
    by (simp add: parse_finding_rows_def)
  from parse_finding_rows_accounts [OF p] p show ?thesis by auto
qed

text \<open>A suggestion that was accepted when the finding was parsed is still accepted, unchanged, when
  the finding is published.\<close>

theorem suggestion_survives_storage:
  assumes "parse_finding_row u raw = Inr (Inr row)"
    and "fi_suggestion f = fr_suggestion row" and "fi_file_path f = fr_file_path row"
    and "fi_start_line f = fr_start_line row" and "fi_end_line f = fr_end_line row"
  shows "is_publishable_suggestion f = fr_suggestion row"
  using validated_again parse_finding_row_ok [OF assms(1)]
  by (simp add: is_publishable_suggestion_def assms(2-5) row_ok_def)

definition demo_suggestion_json :: "(pystr \<times> json) list" where
  "demo_suggestion_json = [(S ''severity'', JStr (S ''error'')), (S ''category'', JStr (S ''bug'')),
     (S ''title'', JStr (S ''T'')), (S ''message'', JStr (S ''m'')), (S ''start_line'', JInt 7),
     (S ''file_path'', JStr (S ''a.py'')), (S ''suggestion'', JStr (S ''x = 1''))]"

definition demo_suggestion_row :: finding_row where
  "demo_suggestion_row = \<lparr>fr_severity = Sev_error, fr_category = Cat_bug, fr_title = S ''T'', fr_message = S ''m'',
     fr_file_path = Some (S ''a.py''), fr_start_line = Some 7, fr_end_line = None,
     fr_suggestion = Some (S ''x = 1'')\<rparr>"

lemma demo_suggestion_parses: "parse_finding_row ascii_only demo_suggestion_json = Inr (Inr demo_suggestion_row)"
  by (simp add: parse_finding_row_def demo_suggestion_json_def demo_suggestion_row_def enum_text_def
      nonblank_def severity_of_def category_of_def severity_value_def category_value_def S_def
      py_lower_def lower_cp_def py_strip_def py_lstrip_def py_rstrip_def is_py_space_def
      normalize_finding_start_line_def normalize_finding_end_line_def line_value_def Let_def
      validated_suggestion_for_row_def is_eligible_suggestion_text_def is_single_line_anchor_def
      normalize_end_line_def SUGGESTION_MAX_LENGTH_def py_contains_def
      py_find.simps py_startswith_def)

theorem suggestion_survives_storage_witness:
  "\<exists>f. fi_suggestion f = Some (S ''x = 1'') \<and> is_publishable_suggestion f = Some (S ''x = 1'')"
proof -
  define f where "f = demo_finding\<lparr>fi_suggestion := Some (S ''x = 1''), fi_file_path := Some (S ''a.py''),
    fi_start_line := Some 7, fi_end_line := None\<rparr>"
  have "is_publishable_suggestion f = fr_suggestion demo_suggestion_row"
    by (rule suggestion_survives_storage [OF demo_suggestion_parses]) (simp_all add: f_def demo_suggestion_row_def)
  then show ?thesis by (intro exI [of _ f]) (simp add: f_def demo_suggestion_row_def)
qed

text \<open>One malformed row loses the whole answer: a start line written with a digit that
  \<open>str.isdigit\<close> accepts and \<open>int\<close> does not (a superscript two) raises out of the parser,
  where the other malformed rows are counted and dropped.\<close>

theorem superscript_line_loses_answer:
  assumes "uc_isdigit u 178" and "uc_decimal u 178 = None"
  shows "parse_finding_rows u [JObj demo_row_json, JObj (json_set (S ''start_line'') (JStr [178]) demo_row_json)] =
    Inl (Value_error (S ''invalid literal for int() with base 10''))"
proof -
  have l: "line_value u (Some (JStr [178])) = Inl (Value_error (S ''invalid literal for int() with base 10''))"
    using assms by (simp add: line_value_def py_strip_def py_lstrip_def py_rstrip_def is_py_space_def
        py_isdigit_def py_int_of_digits_def digit_value_def is_digit_def)
  have bad: "parse_finding_row u (json_set (S ''start_line'') (JStr [178]) demo_row_json) =
      Inl (Value_error (S ''invalid literal for int() with base 10''))"
    by (simp add: parse_finding_row_def demo_row_json_def enum_text_def nonblank_def severity_of_def
        category_of_def severity_value_def category_value_def py_lower_def lower_cp_def py_strip_def
        py_lstrip_def py_rstrip_def is_py_space_def normalize_finding_start_line_def l S_def)
  have good: "\<exists>r. parse_finding_row u demo_row_json = Inr (Inr r)"
    by (simp add: parse_finding_row_def demo_row_json_def enum_text_def nonblank_def severity_of_def
        category_of_def severity_value_def category_value_def S_def py_lower_def lower_cp_def py_strip_def
        py_lstrip_def py_rstrip_def is_py_space_def normalize_finding_start_line_def
        normalize_finding_end_line_def line_value_def py_isdigit_def is_digit_def py_int_of_digits_def
        digit_value_def Let_def)
  then show ?thesis by (auto simp: parse_finding_rows_def bad)
qed

theorem superscript_line_loses_answer_witness:
  "parse_finding_rows \<lparr>uc_isdigit = (\<lambda>c. c = 178), uc_decimal = (\<lambda>c. None)\<rparr>
     [JObj demo_row_json, JObj (json_set (S ''start_line'') (JStr [178]) demo_row_json)] =
   Inl (Value_error (S ''invalid literal for int() with base 10''))"
  by (rule superscript_line_loses_answer) simp_all

end
