(* ===== verification/Model_Snapshot.thy ===== *)
theory Model_Snapshot
  imports Records "HOL-Library.Product_Lexorder"
begin

section \<open>The models of a pipeline run (\<open>services/model_run_snapshot.py\<close>)\<close>

text \<open>
  When a pipeline run ends, the models its steps used are written to the run, once: per role the
  model of the terminal step (a completed one before a failed one, the later before the
  earlier), or of the last recorded LLM call when the step names none.  An index step that embedded
  nothing has no embedding model, whatever calls are recorded.
\<close>

record attempt_input =
  at_step_type :: pystr
  at_provider :: "pystr option"
  at_request_model :: "pystr option"
  at_sequence :: nat
  at_failure_class :: "failure_class option"
  at_started :: bool

record step_input =
  si_step_type :: step_type
  si_status :: step_status
  si_model_provider :: "pystr option"
  si_model_id :: "pystr option"
  si_manifest :: "(pystr \<times> json) list option"
  si_sequence :: nat

datatype snapshot_role = Role_embedding | Role_reviewer | Role_judge | Role_publish

definition SNAPSHOT_ROLES :: "snapshot_role list" where
  "SNAPSHOT_ROLES = [Role_embedding, Role_reviewer, Role_judge, Role_publish]"

definition role_value :: "snapshot_role \<Rightarrow> pystr" where
  "role_value r = (case r of
     Role_embedding \<Rightarrow> S ''embedding'' | Role_reviewer \<Rightarrow> S ''reviewer''
   | Role_judge \<Rightarrow> S ''judge'' | Role_publish \<Rightarrow> S ''publish'')"

definition step_of_role :: "snapshot_role \<Rightarrow> step_type" where
  "step_of_role r = (case r of
     Role_embedding \<Rightarrow> Step_index | Role_reviewer \<Rightarrow> Step_review
   | Role_judge \<Rightarrow> Step_judge | Role_publish \<Rightarrow> Step_publish)"

definition attempt_step_of_role :: "snapshot_role \<Rightarrow> pystr" where
  "attempt_step_of_role r = (case r of
     Role_embedding \<Rightarrow> S ''index_embed'' | Role_reviewer \<Rightarrow> S ''review''
   | Role_judge \<Rightarrow> S ''judge'' | Role_publish \<Rightarrow> S ''publish'')"

subsection \<open>Entries\<close>

definition model_entry ::
  "pystr option \<Rightarrow> pystr option \<Rightarrow> json option \<Rightarrow> (pystr \<times> json) list option" where
  "model_entry provider model_id dimensions =
     (if opt_or provider [] = [] \<or> opt_or model_id [] = [] then None
      else Some ([(S ''provider'', JStr (opt_or provider [])), (S ''model_id'', JStr (opt_or model_id []))] @
        (case dimensions of None \<Rightarrow> [] | Some d \<Rightarrow> [(S ''dimensions'', d)])))"

text \<open>\<open>value == 0\<close> in Python, of a JSON value: \<open>False\<close> equals 0.\<close>

fun json_is_zero :: "json \<Rightarrow> bool" where
  "json_is_zero (JInt i) = (i = 0)"
| "json_is_zero (JFloat m k) = (m = 0)"
| "json_is_zero (JBool b) = (\<not> b)"
| "json_is_zero _ = False"

definition get_truthy :: "pystr \<Rightarrow> (pystr \<times> json) list \<Rightarrow> bool" where
  "get_truthy k ms = (case json_get k ms of None \<Rightarrow> False | Some v \<Rightarrow> json_truthy v)"

definition get_zero :: "pystr \<Rightarrow> (pystr \<times> json) list \<Rightarrow> bool" where
  "get_zero k ms = (case json_get k ms of None \<Rightarrow> False | Some v \<Rightarrow> json_is_zero v)"

text \<open>A member that is a string with at least one character.\<close>

definition get_nonempty_str :: "pystr \<Rightarrow> (pystr \<times> json) list \<Rightarrow> pystr option" where
  "get_nonempty_str k ms =
     (case json_get k ms of Some (JStr t) \<Rightarrow> if t = [] then None else Some t | _ \<Rightarrow> None)"

text \<open>\<open>isinstance(value, int)\<close> holds of booleans.\<close>

definition get_int_like :: "pystr \<Rightarrow> (pystr \<times> json) list \<Rightarrow> json option" where
  "get_int_like k ms =
     (case json_get k ms of Some (JInt i) \<Rightarrow> Some (JInt i) | Some (JBool b) \<Rightarrow> Some (JBool b) | _ \<Rightarrow> None)"

definition embedding_from_index :: "step_input \<Rightarrow> (pystr \<times> json) list option" where
  "embedding_from_index step =
     (let manifest = opt_or (si_manifest step) [] in
      if get_truthy (S ''embedding_skipped_reason'') manifest then None
      else if get_zero (S ''embed_batches'') manifest then None
      else
        let model = (case get_nonempty_str (S ''embedding_model'') manifest of
              Some m \<Rightarrow> Some m
            | None \<Rightarrow> if opt_or (si_model_id step) [] = [] then None else si_model_id step)
        in case model of
          None \<Rightarrow> None
        | Some m \<Rightarrow>
            let provider = (if get_truthy (S ''embedding_provider'') manifest
                  then (case json_get (S ''embedding_provider'') manifest of Some (JStr p) \<Rightarrow> Some p | _ \<Rightarrow> None)
                  else si_model_provider step)
            in model_entry provider (Some m) (get_int_like (S ''embedding_dimensions'') manifest))"

definition role_entry_from_step :: "snapshot_role \<Rightarrow> step_input \<Rightarrow> (pystr \<times> json) list option" where
  "role_entry_from_step role step =
     (if role = Role_embedding then embedding_from_index step
      else model_entry (si_model_provider step) (si_model_id step) None)"

subsection \<open>Terminal steps and attempts\<close>

definition step_status_rank :: "step_status \<Rightarrow> nat" where
  "step_status_rank st = (if st = St_completed then 2 else if st = St_failed then 1 else 0)"

text \<open>\<open>max(xs, key=f)\<close>: the first of the greatest.\<close>

fun max_by :: "('a \<Rightarrow> 'k::linorder) \<Rightarrow> 'a list \<Rightarrow> 'a option" where
  "max_by f [] = None"
| "max_by f (x # xs) =
     (case max_by f xs of None \<Rightarrow> Some x | Some y \<Rightarrow> if f y \<le> f x then Some x else Some y)"

definition pick_terminal_step :: "step_input list \<Rightarrow> step_input option" where
  "pick_terminal_step candidates =
     max_by (\<lambda>s. (step_status_rank (si_status s), si_sequence s)) candidates"

definition pick_terminal_attempt :: "attempt_input list \<Rightarrow> attempt_input option" where
  "pick_terminal_attempt candidates =
     (let started = filter at_started candidates
      in max_by (\<lambda>a. (if at_failure_class a = None then 1 else (0::nat), at_sequence a))
           (if started \<noteq> [] then started else candidates))"

definition attempt_fallback :: "attempt_input list \<Rightarrow> snapshot_role \<Rightarrow> (pystr \<times> json) list option" where
  "attempt_fallback attempts role =
     (case pick_terminal_attempt (filter (\<lambda>a. at_step_type a = attempt_step_of_role role) attempts) of
        None \<Rightarrow> None
      | Some a \<Rightarrow> model_entry (at_provider a) (at_request_model a) None)"

definition embedding_step_skipped :: "step_input \<Rightarrow> bool" where
  "embedding_step_skipped step =
     (case si_manifest step of
        None \<Rightarrow> False
      | Some manifest \<Rightarrow>
          get_truthy (S ''embedding_skipped_reason'') manifest \<or> get_zero (S ''embed_batches'') manifest)"

subsection \<open>The snapshot\<close>

definition terminal_steps :: "step_input list \<Rightarrow> step_type \<Rightarrow> step_input list" where
  "terminal_steps steps ty =
     filter (\<lambda>s. si_status s \<in> {St_completed, St_failed} \<and> si_step_type s = ty) steps"

definition role_entry ::
  "step_input list \<Rightarrow> attempt_input list \<Rightarrow> snapshot_role \<Rightarrow> (pystr \<times> json) list option" where
  "role_entry steps attempts role =
     (case pick_terminal_step (terminal_steps steps (step_of_role role)) of
        None \<Rightarrow> attempt_fallback attempts role
      | Some step \<Rightarrow>
          (case role_entry_from_step role step of
             Some e \<Rightarrow> Some e
           | None \<Rightarrow> if role = Role_embedding \<and> embedding_step_skipped step then None
                     else attempt_fallback attempts role))"

definition build_models_snapshot ::
  "step_input list \<Rightarrow> attempt_input list \<Rightarrow> (snapshot_role \<times> (pystr \<times> json) list option) list" where
  "build_models_snapshot steps attempts = map (\<lambda>r. (r, role_entry steps attempts r)) SNAPSHOT_ROLES"

subsection \<open>Writing it\<close>

definition step_manifest :: "session \<Rightarrow> pipeline_step \<Rightarrow> (pystr \<times> json) list option" where
  "step_manifest s step =
     map_option (\<lambda>a. case pa_content_json a of Some (JObj ms) \<Rightarrow> ms | _ \<Rightarrow> [])
       (List.find (\<lambda>a. pa_step_id a = ps_id step \<and> pa_kind a = Art_manifest \<and>
          (case pa_content_json a of Some (JObj ms) \<Rightarrow> True | _ \<Rightarrow> False)) (ss_artifacts s))"

definition step_inputs :: "session \<Rightarrow> pipeline_step list \<Rightarrow> step_input list" where
  "step_inputs s steps =
     map (\<lambda>(i, st). \<lparr>si_step_type = ps_step_type st, si_status = ps_status st,
            si_model_provider = ps_model_provider st, si_model_id = ps_model_id st,
            si_manifest = step_manifest s st, si_sequence = i\<rparr>)
       (enumerate 0 (sort_key ps_created_at steps))"

definition attempt_inputs :: "llm_attempt list \<Rightarrow> attempt_input list" where
  "attempt_inputs attempts =
     map (\<lambda>(i, a). \<lparr>at_step_type = la_step_type a, at_provider = Some (la_provider a),
            at_request_model = Some (la_request_model a), at_sequence = i,
            at_failure_class = la_failure_class a, at_started = (la_started_at a \<noteq> None)\<rparr>)
       (enumerate 0 (sort_key (\<lambda>a. (la_started_at a = None, opt_or (la_started_at a) 0)) attempts))"

definition snapshot_json :: "(snapshot_role \<times> (pystr \<times> json) list option) list \<Rightarrow> json" where
  "snapshot_json snap =
     JObj (map (\<lambda>(r, e). (role_value r, case e of None \<Rightarrow> JNull | Some ms \<Rightarrow> JObj ms)) snap)"

definition write_models_snapshot :: "session \<Rightarrow> uuid \<Rightarrow> session" where
  "write_models_snapshot s k =
     (case get_pipeline_run s k of
        None \<Rightarrow> s
      | Some p \<Rightarrow>
          let snap = build_models_snapshot
                (step_inputs s (filter (\<lambda>st. ps_pipeline_run_id st = k) (ss_steps s)))
                (attempt_inputs (filter (\<lambda>a. la_pipeline_run_id a = k) (ss_attempts s)))
          in put_pipeline_run (p\<lparr>pl_models_snapshot :=
               if list_ex (\<lambda>e. snd e \<noteq> None) snap then Some (snapshot_json snap) else None\<rparr>) s)"

definition try_persist_models_snapshot :: "session \<Rightarrow> uuid \<Rightarrow> session" where
  "try_persist_models_snapshot s k =
     (case Option.bind (get_pipeline_run s k) pl_models_snapshot of
        Some snap \<Rightarrow> s
      | None \<Rightarrow> write_models_snapshot s k)"

subsection \<open>Properties\<close>

lemma max_by_None [simp]: "max_by f xs = None \<longleftrightarrow> xs = []"
  by (cases xs) (auto split: option.splits)

lemma max_by_Some: "max_by f xs = Some x \<Longrightarrow> x \<in> set xs \<and> (\<forall>y\<in>set xs. f y \<le> f x)"
proof (induction xs arbitrary: x)
  case (Cons a xs)
  show ?case
  proof (cases "max_by f xs")
    case None
    with Cons.prems show ?thesis by simp
  next
    case (Some y)
    from Cons.IH [OF this] Cons.prems Some show ?thesis
      by (auto split: if_splits intro: order.trans)
  qed
qed simp

lemma pick_terminal_step_best:
  assumes "pick_terminal_step (terminal_steps steps ty) = Some s"
  shows "s \<in> set steps \<and> si_step_type s = ty \<and>
    (\<forall>t\<in>set steps. si_step_type t = ty \<longrightarrow> si_status t = St_completed \<longrightarrow>
       si_status s = St_completed \<and> si_sequence t \<le> si_sequence s)"
proof -
  let ?key = "\<lambda>s. (step_status_rank (si_status s), si_sequence s)"
  from max_by_Some [OF assms [unfolded pick_terminal_step_def]]
  have s: "s \<in> set (terminal_steps steps ty)" and best: "\<And>t. t \<in> set (terminal_steps steps ty) \<Longrightarrow> ?key t \<le> ?key s"
    by auto
  have "si_status s = St_completed \<and> si_sequence t \<le> si_sequence s"
    if "t \<in> set steps" "si_step_type t = ty" "si_status t = St_completed" for t
    using best [of t] that s
    by (auto simp: terminal_steps_def step_status_rank_def less_eq_prod_def split: if_splits)
  with s show ?thesis by (auto simp: terminal_steps_def)
qed

text \<open>The snapshot names a model per role from the right step: for the reviewer, the judge and the
  publisher the model comes from the last completed step of the role whenever one is completed
  (never from a failed one then), and an index step that skipped embedding gives no embedding model even
  when embedding calls were recorded.\<close>

theorem snapshot_uses_terminal_steps:
  "map fst (build_models_snapshot steps attempts) = SNAPSHOT_ROLES \<and>
   (\<forall>role step. pick_terminal_step (terminal_steps steps (step_of_role role)) = Some step \<longrightarrow>
      (step \<in> set steps \<and>
       (\<forall>t\<in>set steps. si_step_type t = step_of_role role \<longrightarrow> si_status t = St_completed \<longrightarrow>
          si_status step = St_completed \<and> si_sequence t \<le> si_sequence step)) \<and>
      (role_entry_from_step role step \<noteq> None \<longrightarrow>
         map_of (build_models_snapshot steps attempts) role = Some (role_entry_from_step role step)) \<and>
      (role = Role_embedding \<and> embedding_step_skipped step \<longrightarrow>
         map_of (build_models_snapshot steps attempts) role = Some None))"
proof (rule conjI)
  show "map fst (build_models_snapshot steps attempts) = SNAPSHOT_ROLES"
    by (simp add: build_models_snapshot_def comp_def)
  have m: "map_of (build_models_snapshot steps attempts) role = Some (role_entry steps attempts role)" for role
    by (cases role) (simp_all add: build_models_snapshot_def SNAPSHOT_ROLES_def)
  have skip: "embedding_from_index step = None" if "embedding_step_skipped step" for step
    using that by (auto simp: embedding_step_skipped_def embedding_from_index_def Let_def split: option.splits)
  show "\<forall>role step. pick_terminal_step (terminal_steps steps (step_of_role role)) = Some step \<longrightarrow>
      (step \<in> set steps \<and>
       (\<forall>t\<in>set steps. si_step_type t = step_of_role role \<longrightarrow> si_status t = St_completed \<longrightarrow>
          si_status step = St_completed \<and> si_sequence t \<le> si_sequence step)) \<and>
      (role_entry_from_step role step \<noteq> None \<longrightarrow>
         map_of (build_models_snapshot steps attempts) role = Some (role_entry_from_step role step)) \<and>
      (role = Role_embedding \<and> embedding_step_skipped step \<longrightarrow>
         map_of (build_models_snapshot steps attempts) role = Some None)"
    using pick_terminal_step_best by (auto simp: m role_entry_def role_entry_from_step_def skip)
qed

theorem snapshot_uses_terminal_steps_witness:
  "\<exists>e. map_of (build_models_snapshot
      [\<lparr>si_step_type = Step_review, si_status = St_completed, si_model_provider = Some (S ''p''),
        si_model_id = Some (S ''m''), si_manifest = None, si_sequence = 0\<rparr>,
       \<lparr>si_step_type = Step_review, si_status = St_failed, si_model_provider = Some (S ''q''),
        si_model_id = Some (S ''n''), si_manifest = None, si_sequence = 1\<rparr>] []) Role_reviewer = Some (Some e) \<and>
     json_get (S ''provider'') e = Some (JStr (S ''p''))"
proof -
  let ?a = "\<lparr>si_step_type = Step_review, si_status = St_completed, si_model_provider = Some (S ''p''),
        si_model_id = Some (S ''m''), si_manifest = None, si_sequence = 0\<rparr>"
  let ?steps = "[?a, \<lparr>si_step_type = Step_review, si_status = St_failed, si_model_provider = Some (S ''q''),
        si_model_id = Some (S ''n''), si_manifest = None, si_sequence = 1\<rparr>]"
  have p: "pick_terminal_step (terminal_steps ?steps (step_of_role Role_reviewer)) = Some ?a"
    by (simp add: pick_terminal_step_def terminal_steps_def step_of_role_def step_status_rank_def less_eq_prod_def)
  have e: "role_entry_from_step Role_reviewer ?a = Some [(S ''provider'', JStr (S ''p'')), (S ''model_id'', JStr (S ''m''))]"
    by (simp add: role_entry_from_step_def model_entry_def S_def)
  from snapshot_uses_terminal_steps [of ?steps "[]"] p e show ?thesis by fastforce
qed

interpretation pipelines: row_store pl_id "tbl_get pl_id" "tbl_put pl_id" tbl_add "tbl_keys pl_id"
  by (rule tbl_row_store)

lemma get_pipeline_run_put:
  "get_pipeline_run s (pl_id p) \<noteq> None \<Longrightarrow>
     get_pipeline_run (put_pipeline_run p s) k = (if k = pl_id p then Some p else get_pipeline_run s k)"
  using pipelines.get_keys [of "pl_id p" "ss_pipeline_runs s"]
  by (auto simp: get_pipeline_run_def put_pipeline_run_def pipelines.get_put)

lemma get_pipeline_run_id: "get_pipeline_run s k = Some p \<Longrightarrow> pl_id p = k"
  unfolding get_pipeline_run_def by (rule pipelines.get_rid)

lemma write_snapshot_frame:
  "ss_steps (write_models_snapshot s k) = ss_steps s" "ss_artifacts (write_models_snapshot s k) = ss_artifacts s"
  "ss_attempts (write_models_snapshot s k) = ss_attempts s"
  by (simp_all add: write_models_snapshot_def put_pipeline_run_def Let_def split: option.split)

text \<open>What a write stores.\<close>

definition snapshot_of :: "session \<Rightarrow> uuid \<Rightarrow> json option" where
  "snapshot_of s k =
     (let snap = build_models_snapshot
            (step_inputs s (filter (\<lambda>st. ps_pipeline_run_id st = k) (ss_steps s)))
            (attempt_inputs (filter (\<lambda>a. la_pipeline_run_id a = k) (ss_attempts s)))
      in if list_ex (\<lambda>e. snd e \<noteq> None) snap then Some (snapshot_json snap) else None)"

lemma write_snapshot_get:
  assumes "get_pipeline_run s k = Some p"
  shows "get_pipeline_run (write_models_snapshot s k) j =
    (if j = k then Some (p\<lparr>pl_models_snapshot := snapshot_of s k\<rparr>) else get_pipeline_run s j)"
proof -
  have id: "pl_id p = k" using assms by (rule get_pipeline_run_id)
  have w: "write_models_snapshot s k = put_pipeline_run (p\<lparr>pl_models_snapshot := snapshot_of s k\<rparr>) s"
    by (simp add: write_models_snapshot_def assms snapshot_of_def Let_def)
  show ?thesis
    unfolding w using get_pipeline_run_put [of s "p\<lparr>pl_models_snapshot := snapshot_of s k\<rparr>" j] assms id by simp
qed

lemma snapshot_of_write: "snapshot_of (write_models_snapshot s k) k = snapshot_of s k"
proof -
  have "step_inputs (write_models_snapshot s k) = step_inputs s"
    by (simp add: fun_eq_iff step_inputs_def step_manifest_def write_snapshot_frame)
  then show ?thesis by (simp add: snapshot_of_def write_snapshot_frame)
qed

text \<open>A snapshot is written once: a run that has one keeps it, no other run and no other column is
  touched, and a second attempt leaves the run as the first did.\<close>

theorem snapshot_written_once:
  assumes "get_pipeline_run s k = Some p"
  shows "get_pipeline_run (try_persist_models_snapshot s k) k = Some (p\<lparr>pl_models_snapshot :=
       case pl_models_snapshot p of Some snap \<Rightarrow> Some snap | None \<Rightarrow> snapshot_of s k\<rparr>) \<and>
    (\<forall>j. j \<noteq> k \<longrightarrow> get_pipeline_run (try_persist_models_snapshot s k) j = get_pipeline_run s j) \<and>
    get_pipeline_run (try_persist_models_snapshot (try_persist_models_snapshot s k) k) k =
      get_pipeline_run (try_persist_models_snapshot s k) k"
proof (cases "pl_models_snapshot p")
  case (Some snap)
  then have "try_persist_models_snapshot s k = s" by (simp add: try_persist_models_snapshot_def assms)
  moreover have "p\<lparr>pl_models_snapshot := Some snap\<rparr> = p" using Some by (cases p) simp
  ultimately show ?thesis using assms Some by simp
next
  case None
  let ?s = "write_models_snapshot s k" and ?p = "p\<lparr>pl_models_snapshot := snapshot_of s k\<rparr>"
  have t: "try_persist_models_snapshot s k = ?s" by (simp add: try_persist_models_snapshot_def assms None)
  have g: "get_pipeline_run ?s k = Some ?p" using write_snapshot_get [OF assms, of k] by simp
  have again: "get_pipeline_run (try_persist_models_snapshot ?s k) k = Some ?p"
  proof (cases "snapshot_of s k")
    case None
    then have "try_persist_models_snapshot ?s k = write_models_snapshot ?s k"
      by (simp add: try_persist_models_snapshot_def g)
    then show ?thesis using write_snapshot_get [OF g, of k] by (simp add: snapshot_of_write)
  next
    case (Some snap)
    then show ?thesis by (simp add: try_persist_models_snapshot_def g)
  qed
  show ?thesis using write_snapshot_get [OF assms] again by (simp add: t g None)
qed

definition demo_pipeline_run :: pipeline_run where
  "demo_pipeline_run = \<lparr>pl_id = 50, pl_workspace_id = 3, pl_revision_id = 2, pl_head_sha = S ''bb'',
     pl_index_mode = Mode_diff, pl_index_job_id = Some 51, pl_review_run_id = Some 1, pl_publish_job_id = None,
     pl_models_snapshot = None\<rparr>"

theorem snapshot_written_once_witness:
  "let s = demo_session\<lparr>ss_pipeline_runs := [demo_pipeline_run]\<rparr>
   in get_pipeline_run (try_persist_models_snapshot (try_persist_models_snapshot s 50) 50) 50 =
      get_pipeline_run (try_persist_models_snapshot s 50) 50"
proof -
  have "get_pipeline_run (demo_session\<lparr>ss_pipeline_runs := [demo_pipeline_run]\<rparr>) 50 = Some demo_pipeline_run"
    by (simp add: get_pipeline_run_def tbl_get_def demo_pipeline_run_def)
  from snapshot_written_once [OF this] show ?thesis by (simp add: Let_def)
qed

end
