(* ===== verification/Pipeline_Trace.thy ===== *)
theory Pipeline_Trace
  imports Model_Snapshot Github_Api
begin

section \<open>The pipeline trace (\<open>services/github_pipeline_trace.py\<close>)\<close>

text \<open>
  A pipeline run has steps, a step has artifacts; the first manifest of the first index step also
  holds the identifier of the GitHub check run of the generation.  The model has every operation that
  writes the trace and every operation that creates, refreshes or concludes the check run.  Left out:
  \<open>content_hash\<close>, the mapping to API responses and the purge by age.

  Requests to the checks API are answered by the parameter \<open>check_env\<close>, which may depend on the
  requests made before (the log \<open>ss_checks\<close>); obtaining the installation token is part of it.  An
  operation that calls the API returns the session with its log and either an exception or a result.
\<close>

subsection \<open>Lookups\<close>

text \<open>\<open>.order_by(created_at.asc()).limit(1)\<close>: the oldest row that matches.\<close>

fun first_by :: "('r \<Rightarrow> 'k::linorder) \<Rightarrow> ('r \<Rightarrow> bool) \<Rightarrow> 'r list \<Rightarrow> 'r option" where
  "first_by k p [] = None"
| "first_by k p (r # rs) =
     (if p r then
        (case first_by k p rs of None \<Rightarrow> Some r | Some q \<Rightarrow> if k r \<le> k q then Some r else Some q)
      else first_by k p rs)"

definition get_pipeline_run_for_index_job :: "session \<Rightarrow> uuid \<Rightarrow> pipeline_run option" where
  "get_pipeline_run_for_index_job s job_id =
     List.find (\<lambda>p. pl_index_job_id p = Some job_id) (ss_pipeline_runs s)"

definition get_pipeline_run_for_review_run :: "session \<Rightarrow> uuid \<Rightarrow> pipeline_run option" where
  "get_pipeline_run_for_review_run s run_id =
     List.find (\<lambda>p. pl_review_run_id p = Some run_id) (ss_pipeline_runs s)"

definition is_step_of :: "uuid \<Rightarrow> step_type \<Rightarrow> pipeline_step \<Rightarrow> bool" where
  "is_step_of k ty st \<longleftrightarrow> ps_pipeline_run_id st = k \<and> ps_step_type st = ty"

definition get_index_pipeline_step :: "session \<Rightarrow> uuid \<Rightarrow> pipeline_step option" where
  "get_index_pipeline_step s k = first_by ps_created_at (is_step_of k Step_index) (ss_steps s)"

definition get_reconcile_pipeline_step :: "session \<Rightarrow> uuid \<Rightarrow> pipeline_step option" where
  "get_reconcile_pipeline_step s k = first_by ps_created_at (is_step_of k Step_reconcile) (ss_steps s)"

definition get_publish_pipeline_step :: "session \<Rightarrow> uuid \<Rightarrow> pipeline_step option" where
  "get_publish_pipeline_step s k = first_by ps_created_at (is_step_of k Step_publish) (ss_steps s)"

definition pipeline_has_step :: "session \<Rightarrow> uuid \<Rightarrow> step_type \<Rightarrow> bool" where
  "pipeline_has_step s k ty \<longleftrightarrow> list_ex (is_step_of k ty) (ss_steps s)"

definition is_manifest_of :: "uuid \<Rightarrow> pipeline_artifact \<Rightarrow> bool" where
  "is_manifest_of step_id a \<longleftrightarrow> pa_step_id a = step_id \<and> pa_kind a = Art_manifest"

definition get_step_manifest_artifact :: "session \<Rightarrow> uuid \<Rightarrow> pipeline_artifact option" where
  "get_step_manifest_artifact s step_id =
     first_by pa_created_at (is_manifest_of step_id) (ss_artifacts s)"

subsection \<open>Writing runs, steps and artifacts\<close>

definition ensure_pipeline_run_for_index_job ::
  "session \<Rightarrow> index_job \<Rightarrow> pystr \<Rightarrow> session \<times> pipeline_run" where
  "ensure_pipeline_run_for_index_job s job head_sha =
     (case get_pipeline_run_for_index_job s (ij_id job) of
        Some p \<Rightarrow> (s, p)
      | None \<Rightarrow>
          let p = \<lparr>pl_id = next_uuid s, pl_workspace_id = ij_workspace_id job,
                   pl_revision_id = ij_revision_id job, pl_head_sha = head_sha,
                   pl_index_mode = ij_index_mode job, pl_index_job_id = Some (ij_id job),
                   pl_review_run_id = None, pl_publish_job_id = None, pl_models_snapshot = None\<rparr>
          in (tick (s\<lparr>ss_pipeline_runs := tbl_add p (ss_pipeline_runs s)\<rparr>), p))"

definition link_review_run_to_pipeline :: "session \<Rightarrow> pipeline_run \<Rightarrow> uuid \<Rightarrow> session" where
  "link_review_run_to_pipeline s p run_id = put_pipeline_run (p\<lparr>pl_review_run_id := Some run_id\<rparr>) s"

definition link_publish_job_to_pipeline :: "session \<Rightarrow> pipeline_run \<Rightarrow> uuid \<Rightarrow> session" where
  "link_publish_job_to_pipeline s p job_id = put_pipeline_run (p\<lparr>pl_publish_job_id := Some job_id\<rparr>) s"

definition add_step_artifact ::
  "session \<Rightarrow> uuid \<Rightarrow> artifact_kind \<Rightarrow> pystr option \<Rightarrow> json option \<Rightarrow> session" where
  "add_step_artifact s step_id kind content_text content_json =
     tick (s\<lparr>ss_artifacts := tbl_add
       \<lparr>pa_id = next_uuid s, pa_step_id = step_id, pa_kind = kind, pa_content_text = content_text,
        pa_content_json = content_json, pa_created_at = next_time s\<rparr> (ss_artifacts s)\<rparr>)"

text \<open>The columns of a step that the callers of \<open>_create_completed_step\<close> choose.\<close>

record step_values =
  sv_duration_ms :: int
  sv_status :: step_status
  sv_error :: "pystr option"
  sv_model_provider :: "pystr option"
  sv_model_id :: "pystr option"
  sv_input_tokens :: "int option"
  sv_output_tokens :: "int option"

definition step_defaults :: "int \<Rightarrow> step_values" where
  "step_defaults duration_ms = \<lparr>sv_duration_ms = duration_ms, sv_status = St_completed, sv_error = None,
     sv_model_provider = None, sv_model_id = None, sv_input_tokens = None, sv_output_tokens = None\<rparr>"

definition create_completed_step ::
  "session \<Rightarrow> uuid \<Rightarrow> step_type \<Rightarrow> step_values \<Rightarrow> session \<times> pipeline_step" where
  "create_completed_step s k ty v =
     (let st = \<lparr>ps_id = next_uuid s, ps_pipeline_run_id = k, ps_step_type = ty, ps_status = sv_status v,
                ps_duration_ms = Some (sv_duration_ms v), ps_model_provider = sv_model_provider v,
                ps_model_id = sv_model_id v, ps_input_tokens = sv_input_tokens v,
                ps_output_tokens = sv_output_tokens v, ps_error = sv_error v,
                ps_created_at = next_time s\<rparr>
      in (tick (s\<lparr>ss_steps := tbl_add st (ss_steps s)\<rparr>), st))"

text \<open>\<open>dict.update\<close> and \<open>dict.pop\<close>.\<close>

definition dict_update :: "(pystr \<times> json) list \<Rightarrow> (pystr \<times> json) list \<Rightarrow> (pystr \<times> json) list" where
  "dict_update ms updates = foldl (\<lambda>acc (k, v). json_set k v acc) ms updates"

definition dict_pop :: "pystr \<Rightarrow> (pystr \<times> json) list \<Rightarrow> (pystr \<times> json) list" where
  "dict_pop k ms = filter (\<lambda>e. fst e \<noteq> k) ms"

definition manifest_of :: "pipeline_artifact option \<Rightarrow> (pystr \<times> json) list" where
  "manifest_of a = (case Option.bind a pa_content_json of Some (JObj ms) \<Rightarrow> ms | _ \<Rightarrow> [])"

definition write_manifest ::
  "session \<Rightarrow> uuid \<Rightarrow> pipeline_artifact option \<Rightarrow> (pystr \<times> json) list \<Rightarrow> session" where
  "write_manifest s step_id a manifest =
     (case a of
        Some a \<Rightarrow> put_artifact (a\<lparr>pa_content_json := Some (JObj manifest)\<rparr>) s
      | None \<Rightarrow> add_step_artifact s step_id Art_manifest None (Some (JObj manifest)))"

definition upsert_step_manifest :: "session \<Rightarrow> uuid \<Rightarrow> (pystr \<times> json) list \<Rightarrow> session" where
  "upsert_step_manifest s step_id updates =
     (let a = get_step_manifest_artifact s step_id
      in write_manifest s step_id a (dict_update (manifest_of a) updates))"

definition stash_pipeline_github_check_run_id :: "session \<Rightarrow> uuid \<Rightarrow> int \<Rightarrow> session" where
  "stash_pipeline_github_check_run_id s k check_run_id =
     (let (s, step) =
        (case get_index_pipeline_step s k of
           Some step \<Rightarrow> (s, step)
         | None \<Rightarrow> create_completed_step s k Step_index ((step_defaults 0)\<lparr>sv_status := St_pending\<rparr>))
      in upsert_step_manifest s (ps_id step) [(S ''github_check_run_id'', JInt check_run_id)])"

definition resolve_pipeline_github_check_run_id :: "session \<Rightarrow> uuid \<Rightarrow> int option" where
  "resolve_pipeline_github_check_run_id s k =
     (case get_index_pipeline_step s k of
        None \<Rightarrow> None
      | Some step \<Rightarrow>
          (case json_get (S ''github_check_run_id'')
                  (manifest_of (get_step_manifest_artifact s (ps_id step))) of
             Some (JInt i) \<Rightarrow> Some i
           | Some (JBool b) \<Rightarrow> Some (if b then 1 else 0)
           | _ \<Rightarrow> None))"

subsection \<open>The checks API (\<open>integrations/github_api.py\<close>)\<close>

record check_env =
  ce_enabled :: bool
  ce_send :: "(check_call \<times> bool) list \<Rightarrow> int \<Rightarrow> check_call \<Rightarrow> exn + http_response"

definition CHECK_RUN_NAME :: pystr where
  "CHECK_RUN_NAME = S ''Revy''"

definition CHECK_TITLE :: pystr where
  "CHECK_TITLE = S ''Revy code review''"

definition build_check_run_external_id :: "int \<Rightarrow> int \<Rightarrow> pystr \<Rightarrow> pystr" where
  "build_check_run_external_id inst number head =
     S ''revy:'' @ py_str_int inst @ S '':'' @ py_str_int number @ S '':'' @ head"

text \<open>\<open>client.post\<close> or \<open>client.patch\<close>, then \<open>raise_for_status\<close>.\<close>

definition send_check :: "check_env \<Rightarrow> session \<Rightarrow> int \<Rightarrow> check_call \<Rightarrow> session \<times> (exn + http_response)" where
  "send_check env s inst call =
     (let r = rbind (ce_send env (ss_checks s) inst call) (\<lambda>resp.
                if is_success (hr_status resp) then Inr resp else Inl (Http_status (hr_status resp)))
      in (s\<lparr>ss_checks := ss_checks s @ [(call, case r of Inr _ \<Rightarrow> True | Inl _ \<Rightarrow> False)]\<rparr>, r))"

definition check_runs_url :: "pystr \<Rightarrow> pystr \<Rightarrow> pystr" where
  "check_runs_url owner repo = GITHUB_API_BASE @ S ''/repos/'' @ owner @ S ''/'' @ repo @ S ''/check-runs''"

definition check_run_url :: "pystr \<Rightarrow> pystr \<Rightarrow> int \<Rightarrow> pystr" where
  "check_run_url owner repo check_run_id = check_runs_url owner repo @ S ''/'' @ py_str_int check_run_id"

definition check_output :: "pystr \<Rightarrow> json" where
  "check_output summary = JObj [(S ''title'', JStr CHECK_TITLE), (S ''summary'', JStr summary)]"

text \<open>\<open>isinstance(check_run_id, int)\<close> holds of booleans.\<close>

definition created_check_id :: "http_response \<Rightarrow> exn + int" where
  "created_check_id resp =
     (case hr_body resp of
        None \<Rightarrow> Inl Json_decode_error
      | Some (JObj ms) \<Rightarrow>
          (case json_get (S ''id'') ms of
             Some (JInt i) \<Rightarrow> Inr i
           | Some (JBool b) \<Rightarrow> Inr (if b then 1 else 0)
           | _ \<Rightarrow> Inl (raise_platform ServiceUnavailableError
                        (S ''GitHub check run response invalid'') (Some (S ''github_api_error''))))
      | Some _ \<Rightarrow> Inl Attribute_error)"

definition create_check_run ::
  "check_env \<Rightarrow> session \<Rightarrow> int \<Rightarrow> pystr \<Rightarrow> pystr \<Rightarrow> pystr \<Rightarrow> pystr \<Rightarrow> pystr \<Rightarrow> pystr \<Rightarrow> pystr \<Rightarrow>
     session \<times> (exn + int)" where
  "create_check_run env s inst owner repo head external_id status conclusion summary =
     (let payload =
        [(S ''name'', JStr CHECK_RUN_NAME), (S ''head_sha'', JStr head), (S ''external_id'', JStr external_id),
         (S ''status'', JStr status), (S ''output'', check_output summary)] @
        (if status = S ''completed'' then [(S ''conclusion'', JStr (if conclusion = [] then S ''neutral'' else conclusion))] else []);
          (s, r) = send_check env s inst (Check_post (check_runs_url owner repo) (JObj payload))
      in (s, rbind r created_check_id))"

definition update_check_run_in_progress ::
  "check_env \<Rightarrow> session \<Rightarrow> int \<Rightarrow> pystr \<Rightarrow> pystr \<Rightarrow> int \<Rightarrow> pystr \<Rightarrow> session \<times> (exn + unit)" where
  "update_check_run_in_progress env s inst owner repo check_run_id summary =
     (let (s, r) = send_check env s inst (Check_patch (check_run_url owner repo check_run_id)
        (JObj [(S ''status'', JStr (S ''in_progress'')), (S ''output'', check_output summary)]))
      in (s, rbind r (\<lambda>_. Inr ())))"

definition concluded :: "pystr \<Rightarrow> pystr \<Rightarrow> json" where
  "concluded conclusion summary =
     JObj [(S ''status'', JStr (S ''completed'')), (S ''conclusion'', JStr conclusion),
           (S ''output'', check_output summary)]"

definition update_check_run ::
  "check_env \<Rightarrow> session \<Rightarrow> int \<Rightarrow> pystr \<Rightarrow> pystr \<Rightarrow> int \<Rightarrow> pystr \<Rightarrow> pystr \<Rightarrow> session \<times> (exn + unit)" where
  "update_check_run env s inst owner repo check_run_id conclusion summary =
     (let (s, r) = send_check env s inst
        (Check_patch (check_run_url owner repo check_run_id) (concluded conclusion summary))
      in (s, rbind r (\<lambda>_. Inr ())))"

text \<open>\<open>except httpx.HTTPError\<close> logs and goes on; every other exception leaves the operation.\<close>

definition except_http :: "'a \<Rightarrow> exn + 'a \<Rightarrow> exn + 'a" where
  "except_http d r = (case r of Inl e \<Rightarrow> if is_http_error e then Inr d else Inl e | Inr x \<Rightarrow> Inr x)"

subsection \<open>The check run of a generation\<close>

definition SUPERSEDED_CHECK_SUMMARY :: pystr where
  "SUPERSEDED_CHECK_SUMMARY = S ''Superseded by newer run''"

definition QUEUED_CHECK_SUMMARY :: pystr where
  "QUEUED_CHECK_SUMMARY = S ''Revy review queued '' @ [8212] @ S '' preparing'' @ [8230]"

definition IN_PROGRESS_CHECK_SUMMARY :: pystr where
  "IN_PROGRESS_CHECK_SUMMARY = S ''Revy review in progress'' @ [8230]"

definition revision_is_pull_request_head :: "session \<Rightarrow> uuid \<Rightarrow> bool" where
  "revision_is_pull_request_head s rv_id =
     (case get_revision s rv_id of
        None \<Rightarrow> False
      | Some rv \<Rightarrow>
          (case get_pull_request s (rev_pull_request_id rv) of
             None \<Rightarrow> False
           | Some pr \<Rightarrow> rev_head_sha rv = pr_head_sha pr))"

record check_context =
  cx_installation :: int
  cx_owner :: pystr
  cx_repo :: pystr
  cx_head_sha :: pystr
  cx_number :: int

definition pipeline_check_repo_context :: "session \<Rightarrow> pipeline_run \<Rightarrow> exn + check_context option" where
  "pipeline_check_repo_context s p =
     (case get_revision s (pl_revision_id p) of
        None \<Rightarrow> Inr None
      | Some rv \<Rightarrow>
          (case get_pull_request s (rev_pull_request_id rv) of
             None \<Rightarrow> Inr None
           | Some pr \<Rightarrow>
               (case (get_repository s (pr_repository_id pr), get_installation s (pr_installation_id pr)) of
                  (Some repo, Some inst) \<Rightarrow>
                    (case py_split1 (S ''/'') (repo_full_name repo) of
                       None \<Rightarrow> Inl (Value_error (S ''not enough values to unpack (expected 2, got 1)''))
                     | Some (owner, name) \<Rightarrow>
                         Inr (Some \<lparr>cx_installation = inst_github_installation_id inst, cx_owner = owner,
                                     cx_repo = name, cx_head_sha = pl_head_sha p, cx_number = pr_number pr\<rparr>))
                | _ \<Rightarrow> Inr None)))"

definition create_in_progress ::
  "check_env \<Rightarrow> session \<Rightarrow> check_context \<Rightarrow> pystr \<Rightarrow> session \<times> (exn + int option)" where
  "create_in_progress env s cx summary =
     (let external_id = build_check_run_external_id (cx_installation cx) (cx_number cx) (cx_head_sha cx);
          (s, r) = create_check_run env s (cx_installation cx) (cx_owner cx) (cx_repo cx) (cx_head_sha cx)
                     external_id (S ''in_progress'') (S ''neutral'') summary
      in (s, except_http None (rbind r (\<lambda>i. Inr (Some i)))))"

definition provision_queued_pipeline_github_check ::
  "check_env \<Rightarrow> session \<Rightarrow> index_job \<Rightarrow> pystr \<Rightarrow> session \<times> (exn + int option)" where
  "provision_queued_pipeline_github_check env s job head_sha =
     (if \<not> ce_enabled env then (s, Inr None)
      else
        let (s, p) = ensure_pipeline_run_for_index_job s job head_sha
        in case resolve_pipeline_github_check_run_id s (pl_id p) of
             Some existing \<Rightarrow> (s, Inr (Some existing))
           | None \<Rightarrow>
               (case pipeline_check_repo_context s p of
                  Inl e \<Rightarrow> (s, Inl e)
                | Inr None \<Rightarrow> (s, Inr None)
                | Inr (Some cx) \<Rightarrow>
                    (case create_in_progress env s cx QUEUED_CHECK_SUMMARY of
                       (s, Inr (Some check_run_id)) \<Rightarrow>
                         (stash_pipeline_github_check_run_id s (pl_id p) check_run_id, Inr (Some check_run_id))
                     | r \<Rightarrow> r)))"

text \<open>The tail shared by the refresh and the conclusion of a check run: with the API enabled, an
  identifier and a pipeline run whose rows are complete, one request is made.\<close>

definition with_check ::
  "check_env \<Rightarrow> session \<Rightarrow> uuid \<Rightarrow> (check_context \<Rightarrow> int \<Rightarrow> session \<times> (exn + unit)) \<Rightarrow> session \<times> (exn + unit)" where
  "with_check env s k request =
     (case resolve_pipeline_github_check_run_id s k of
        None \<Rightarrow> (s, Inr ())
      | Some check_run_id \<Rightarrow>
          if \<not> ce_enabled env then (s, Inr ())
          else
            (case get_pipeline_run s k of
               None \<Rightarrow> (s, Inr ())
             | Some p \<Rightarrow>
                 (case pipeline_check_repo_context s p of
                    Inl e \<Rightarrow> (s, Inl e)
                  | Inr None \<Rightarrow> (s, Inr ())
                  | Inr (Some cx) \<Rightarrow>
                      let (s, r) = request cx check_run_id in (s, except_http () r))))"

definition refresh_pipeline_github_check_in_progress ::
  "check_env \<Rightarrow> session \<Rightarrow> uuid \<Rightarrow> pystr \<Rightarrow> session \<times> (exn + unit)" where
  "refresh_pipeline_github_check_in_progress env s k summary =
     with_check env s k (\<lambda>cx check_run_id.
       update_check_run_in_progress env s (cx_installation cx) (cx_owner cx) (cx_repo cx) check_run_id summary)"

definition start_pipeline_github_check ::
  "check_env \<Rightarrow> session \<Rightarrow> pipeline_run \<Rightarrow> session \<times> (exn + int option)" where
  "start_pipeline_github_check env s p =
     (if \<not> ce_enabled env then (s, Inr None)
      else case resolve_pipeline_github_check_run_id s (pl_id p) of
        Some existing \<Rightarrow>
          if revision_is_pull_request_head s (pl_revision_id p) then
            let (s, r) = refresh_pipeline_github_check_in_progress env s (pl_id p) IN_PROGRESS_CHECK_SUMMARY
            in (s, rbind r (\<lambda>_. Inr (Some existing)))
          else (s, Inr None)
      | None \<Rightarrow>
          (case pipeline_check_repo_context s p of
             Inl e \<Rightarrow> (s, Inl e)
           | Inr None \<Rightarrow> (s, Inr None)
           | Inr (Some cx) \<Rightarrow> create_in_progress env s cx IN_PROGRESS_CHECK_SUMMARY))"

definition finalize_pipeline_github_check ::
  "check_env \<Rightarrow> session \<Rightarrow> uuid \<Rightarrow> pystr \<Rightarrow> pystr \<Rightarrow> session \<times> (exn + unit)" where
  "finalize_pipeline_github_check env s k summary conclusion =
     (let s = try_persist_models_snapshot s k
      in with_check env s k (\<lambda>cx check_run_id.
           update_check_run env s (cx_installation cx) (cx_owner cx) (cx_repo cx) check_run_id conclusion summary))"

definition finalize_pipeline_github_check_failure ::
  "check_env \<Rightarrow> session \<Rightarrow> uuid \<Rightarrow> pystr \<Rightarrow> session \<times> (exn + unit)" where
  "finalize_pipeline_github_check_failure env s k summary =
     finalize_pipeline_github_check env s k summary (S ''failure'')"

definition finalize_pipeline_github_check_neutral ::
  "check_env \<Rightarrow> session \<Rightarrow> uuid \<Rightarrow> pystr \<Rightarrow> session \<times> (exn + unit)" where
  "finalize_pipeline_github_check_neutral env s k summary =
     finalize_pipeline_github_check env s k summary (S ''neutral'')"

definition finalize_pipeline_github_check_for_review_run ::
  "check_env \<Rightarrow> session \<Rightarrow> uuid \<Rightarrow> pystr \<Rightarrow> session \<times> (exn + unit)" where
  "finalize_pipeline_github_check_for_review_run env s run_id summary =
     (case get_pipeline_run_for_review_run s run_id of
        None \<Rightarrow> (s, Inr ())
      | Some p \<Rightarrow> finalize_pipeline_github_check_failure env s (pl_id p) summary)"

definition finalize_pipeline_github_check_for_publish_job ::
  "check_env \<Rightarrow> session \<Rightarrow> uuid \<Rightarrow> pystr \<Rightarrow> session \<times> (exn + unit)" where
  "finalize_pipeline_github_check_for_publish_job env s job_id summary =
     (case get_publish_job s job_id of
        None \<Rightarrow> (s, Inr ())
      | Some j \<Rightarrow> finalize_pipeline_github_check_for_review_run env s (pj_review_run_id j) summary)"

definition finalize_pipeline_github_check_for_index_job ::
  "check_env \<Rightarrow> session \<Rightarrow> uuid \<Rightarrow> pystr \<Rightarrow> session \<times> (exn + unit)" where
  "finalize_pipeline_github_check_for_index_job env s job_id summary =
     (case get_pipeline_run_for_index_job s job_id of
        None \<Rightarrow> (s, Inr ())
      | Some p \<Rightarrow> finalize_pipeline_github_check_failure env s (pl_id p) summary)"

subsection \<open>Recording the steps\<close>

definition index_mode_value :: "index_mode \<Rightarrow> pystr" where
  "index_mode_value m = (case m of Mode_diff \<Rightarrow> S ''diff'' | Mode_full \<Rightarrow> S ''full'')"

definition json_opt_str :: "pystr option \<Rightarrow> json" where
  "json_opt_str x = (case x of None \<Rightarrow> JNull | Some t \<Rightarrow> JStr t)"

definition json_opt_int :: "int option \<Rightarrow> json" where
  "json_opt_int x = (case x of None \<Rightarrow> JNull | Some i \<Rightarrow> JInt i)"

text \<open>\<open>(message or default)[:2000]\<close>.\<close>

definition error_text :: "pystr option \<Rightarrow> pystr \<Rightarrow> pystr" where
  "error_text message d = take 2000 (case message of Some (c # cs) \<Rightarrow> c # cs | _ \<Rightarrow> d)"

definition INDEX_MANIFEST_COUNT_KEYS :: "pystr list" where
  "INDEX_MANIFEST_COUNT_KEYS = [S ''reused_count'', S ''new_count'', S ''embed_batches'']"

definition INDEX_EMBEDDING_MANIFEST_KEYS :: "pystr list" where
  "INDEX_EMBEDDING_MANIFEST_KEYS =
     [S ''embedding_provider'', S ''embedding_model'', S ''embedding_dimensions'']"

definition EMBEDDING_SKIPPED_REASON :: pystr where
  "EMBEDDING_SKIPPED_REASON = S ''reused_chunks_only''"

text \<open>\<open>for key in keys: if key in stats: manifest[key] = stats[key]\<close>.\<close>

definition copy_keys ::
  "pystr list \<Rightarrow> (pystr \<times> json) list \<Rightarrow> (pystr \<times> json) list \<Rightarrow> (pystr \<times> json) list" where
  "copy_keys ks stats ms =
     foldl (\<lambda>acc k. case json_get k stats of None \<Rightarrow> acc | Some v \<Rightarrow> json_set k v acc) ms ks"

definition apply_index_manifest_stats ::
  "(pystr \<times> json) list \<Rightarrow> (pystr \<times> json) list \<Rightarrow> pipeline_step \<Rightarrow> (pystr \<times> json) list \<times> pipeline_step" where
  "apply_index_manifest_stats manifest stats step =
     (let manifest = copy_keys INDEX_MANIFEST_COUNT_KEYS stats manifest;
          no_batches = (case json_get (S ''embed_batches'') stats of None \<Rightarrow> True | Some v \<Rightarrow> json_is_zero v)
      in if no_batches then
           (foldl (\<lambda>acc k. dict_pop k acc)
              (json_set (S ''embedding_skipped_reason'') (JStr EMBEDDING_SKIPPED_REASON) manifest)
              INDEX_EMBEDDING_MANIFEST_KEYS,
            step\<lparr>ps_model_provider := None, ps_model_id := None\<rparr>)
         else
           (copy_keys INDEX_EMBEDDING_MANIFEST_KEYS stats (dict_pop (S ''embedding_skipped_reason'') manifest),
            case get_nonempty_str (S ''embedding_model'') stats of
              None \<Rightarrow> step
            | Some model \<Rightarrow>
                step\<lparr>ps_model_provider := Some (opt_or (get_nonempty_str (S ''embedding_provider'') stats) (S ''voyage'')),
                     ps_model_id := Some model\<rparr>))"

text \<open>\<open>index_manifest_stats\<close> is an attribute the indexer may set on the job object.\<close>

definition record_index_pipeline_step ::
  "session \<Rightarrow> uuid \<Rightarrow> index_job \<Rightarrow> (pystr \<times> json) list option \<Rightarrow> int \<Rightarrow> int option \<Rightarrow> session" where
  "record_index_pipeline_step s k job index_manifest_stats duration_ms check_run_id =
     (let status = (if ij_status job = IJ_completed then St_completed else St_failed);
          error = (if ij_status job = IJ_failed
                   then Some (error_text (ij_error_message job) (S ''index_failed'')) else None);
          (s, step) =
            (case get_index_pipeline_step s k of
               None \<Rightarrow> create_completed_step s k Step_index
                         ((step_defaults duration_ms)\<lparr>sv_status := status, sv_error := error\<rparr>)
             | Some step \<Rightarrow>
                 let step = step\<lparr>ps_status := status, ps_duration_ms := Some duration_ms, ps_error := error\<rparr>
                 in (put_step step s, step));
          artifact = get_step_manifest_artifact s (ps_id step);
          manifest = dict_update (manifest_of artifact)
            [(S ''index_mode'', JStr (index_mode_value (ij_index_mode job))),
             (S ''chunk_count'', json_opt_int (ij_chunk_count job)),
             (S ''fallback_reason'', json_opt_str (ij_fallback_reason job)),
             (S ''warning_message'', json_opt_str (ij_warning_message job)),
             (S ''duration_ms'', JInt duration_ms)];
          (manifest, step) =
            (case index_manifest_stats of
               None \<Rightarrow> (manifest, step)
             | Some stats \<Rightarrow> apply_index_manifest_stats manifest stats step);
          manifest =
            (case check_run_id of
               None \<Rightarrow> manifest
             | Some i \<Rightarrow> json_set (S ''github_check_run_id'') (JInt i) manifest)
      in write_manifest (put_step step s) (ps_id step) artifact manifest)"

definition record_retrieve_pipeline_step ::
  "session \<Rightarrow> uuid \<Rightarrow> (pystr \<times> json) list \<Rightarrow> int \<Rightarrow> session" where
  "record_retrieve_pipeline_step s k manifest duration_ms =
     (let (s, step) = create_completed_step s k Step_retrieve (step_defaults duration_ms);
          s = add_step_artifact s (ps_id step) Art_manifest None (Some (JObj manifest))
      in case json_get (S ''retrieval_hits'') manifest of
           Some (JArr hits) \<Rightarrow>
             if hits = [] then s
             else add_step_artifact s (ps_id step) Art_retrieval_hits None
                    (Some (JObj [(S ''items'', JArr hits)]))
         | _ \<Rightarrow> s)"

definition PROMPT_MAX_BYTES :: nat where
  "PROMPT_MAX_BYTES = 512 * 1024"

definition RAW_RESPONSE_MAX_BYTES :: nat where
  "RAW_RESPONSE_MAX_BYTES = 512 * 1024"

definition truncate_text :: "pystr \<Rightarrow> nat \<Rightarrow> pystr" where
  "truncate_text v max_bytes =
     (let encoded = utf8_encode v
      in if length encoded \<le> max_bytes then v else utf8_decode_ignore (take max_bytes encoded))"

definition record_review_pipeline_step ::
  "session \<Rightarrow> uuid \<Rightarrow> review_run \<Rightarrow> pystr \<Rightarrow> pystr option \<Rightarrow> (pystr \<times> json) list \<Rightarrow> int \<Rightarrow> session" where
  "record_review_pipeline_step s k run prompt raw_response report duration_ms =
     (let (s, step) = create_completed_step s k Step_review ((step_defaults duration_ms)\<lparr>
            sv_status := (if rr_status run = RR_completed then St_completed else St_failed),
            sv_error := (if rr_status run = RR_failed
                         then Some (error_text (rr_error_message run) (S ''review_failed'')) else None),
            sv_model_provider := rr_provider run, sv_model_id := rr_model_id run\<rparr>);
          s = add_step_artifact s (ps_id step) Art_prompt (Some (truncate_text prompt PROMPT_MAX_BYTES)) None;
          s = add_step_artifact s (ps_id step) Art_raw_response
                (Some (truncate_text (opt_or raw_response []) RAW_RESPONSE_MAX_BYTES)) None
      in add_step_artifact s (ps_id step) Art_parse_report None (Some (JObj report)))"

definition record_reconcile_pipeline_step ::
  "session \<Rightarrow> uuid \<Rightarrow> nat \<Rightarrow> int \<Rightarrow> json option \<Rightarrow> nat \<Rightarrow> session" where
  "record_reconcile_pipeline_step s k group_count duration_ms resolution_pass suppressed =
     (let (s, step) = create_completed_step s k Step_reconcile (step_defaults duration_ms);
          manifest = [(S ''linked_group_count'', JInt (int group_count))] @
            (case resolution_pass of None \<Rightarrow> [] | Some r \<Rightarrow> [(S ''resolution_pass'', r)]) @
            (if 0 < suppressed then [(S ''head_contradiction_suppressed_count'', JInt (int suppressed))] else [])
      in add_step_artifact s (ps_id step) Art_manifest None (Some (JObj manifest)))"

definition record_resolution_pass_on_reconcile_step :: "session \<Rightarrow> uuid \<Rightarrow> json \<Rightarrow> session" where
  "record_resolution_pass_on_reconcile_step s k resolution_pass =
     (case get_reconcile_pipeline_step s k of
        None \<Rightarrow> s
      | Some step \<Rightarrow> upsert_step_manifest s (ps_id step) [(S ''resolution_pass'', resolution_pass)])"

definition get_resolution_metrics_for_review_run ::
  "session \<Rightarrow> uuid \<Rightarrow> (pystr \<times> json) list option" where
  "get_resolution_metrics_for_review_run s run_id =
     (case get_pipeline_run_for_review_run s run_id of
        None \<Rightarrow> None
      | Some p \<Rightarrow>
          (case get_reconcile_pipeline_step s (pl_id p) of
             None \<Rightarrow> None
           | Some step \<Rightarrow>
               (case json_get (S ''resolution_pass'')
                       (manifest_of (get_step_manifest_artifact s (ps_id step))) of
                  Some (JObj ms) \<Rightarrow> Some ms
                | _ \<Rightarrow> None)))"

text \<open>The fields of a \<open>JudgeCandidateArtifact\<close> as the trace stores them.\<close>

record candidate_item =
  ci_group_id :: uuid
  ci_evidence_snippet :: "pystr option"
  ci_user_prompt :: pystr
  ci_file_patch_chars :: "int option"
  ci_raw_response :: "json option"
  ci_raw_response_text :: "pystr option"
  ci_parse_error :: "pystr option"
  ci_retry_count :: int
  ci_outcome :: "pystr option"
  ci_lock_ids_cited :: "pystr list option"
  ci_input_tokens :: "int option"
  ci_output_tokens :: "int option"

definition candidate_payload :: "candidate_item \<Rightarrow> json" where
  "candidate_payload c = JObj
     [(S ''group_id'', JStr (uuid_str (ci_group_id c))),
      (S ''evidence_snippet'', json_opt_str (ci_evidence_snippet c)),
      (S ''user_prompt'', JStr (ci_user_prompt c)),
      (S ''file_patch_chars'', json_opt_int (ci_file_patch_chars c)),
      (S ''raw_response'', opt_or (ci_raw_response c) JNull),
      (S ''raw_response_text'', json_opt_str (ci_raw_response_text c)),
      (S ''parse_error'', json_opt_str (ci_parse_error c)),
      (S ''retry_count'', JInt (ci_retry_count c)),
      (S ''outcome'', json_opt_str (ci_outcome c)),
      (S ''lock_ids_cited'', case ci_lock_ids_cited c of None \<Rightarrow> JNull | Some ids \<Rightarrow> JArr (map JStr ids)),
      (S ''input_tokens'', json_opt_int (ci_input_tokens c)),
      (S ''output_tokens'', json_opt_int (ci_output_tokens c))]"

text \<open>\<open>tokens or None\<close>.\<close>

definition or_none :: "int \<Rightarrow> int option" where
  "or_none i = (if i = 0 then None else Some i)"

definition record_judge_pipeline_step ::
  "session \<Rightarrow> uuid \<Rightarrow> nat \<Rightarrow> int \<Rightarrow> candidate_item list \<Rightarrow> nat \<Rightarrow> candidate_item list \<Rightarrow>
     pystr option \<Rightarrow> pystr option \<Rightarrow> session" where
  "record_judge_pipeline_step s k judged_count duration_ms candidates verification_judged_count
       verification_candidates provider model_id =
     (let items = candidates @ verification_candidates;
          input_tokens = sum_list (map (\<lambda>c. opt_or (ci_input_tokens c) 0) items);
          output_tokens = sum_list (map (\<lambda>c. opt_or (ci_output_tokens c) 0) items);
          (s, step) = create_completed_step s k Step_judge ((step_defaults duration_ms)\<lparr>
            sv_input_tokens := or_none input_tokens, sv_output_tokens := or_none output_tokens,
            sv_model_provider := provider, sv_model_id := model_id\<rparr>)
      in add_step_artifact s (ps_id step) Art_manifest None (Some (JObj
           [(S ''judged_count'', JInt (int judged_count)),
            (S ''candidates'', JArr (map candidate_payload candidates)),
            (S ''verification_judged_count'', JInt (int verification_judged_count)),
            (S ''verification_candidates'', JArr (map candidate_payload verification_candidates)),
            (S ''verification_group_ids'',
              JArr (map (\<lambda>c. JStr (uuid_str (ci_group_id c))) verification_candidates)),
            (S ''input_tokens'', JInt input_tokens), (S ''output_tokens'', JInt output_tokens)])))"

text \<open>\<open>now\<close> is the ISO form of the current time.\<close>

definition record_generation_superseded_on_pipeline :: "pystr \<Rightarrow> session \<Rightarrow> uuid \<Rightarrow> session" where
  "record_generation_superseded_on_pipeline now s run_id =
     (case get_pipeline_run_for_review_run s run_id of
        None \<Rightarrow> s
      | Some p \<Rightarrow>
          (case get_index_pipeline_step s (pl_id p) of
             None \<Rightarrow> s
           | Some step \<Rightarrow> upsert_step_manifest s (ps_id step) [(S ''generation_superseded_at'', JStr now)]))"

definition record_publish_skip_on_pipeline :: "session \<Rightarrow> uuid \<Rightarrow> pystr \<Rightarrow> session" where
  "record_publish_skip_on_pipeline s run_id manifest_key =
     (case get_pipeline_run_for_review_run s run_id of
        None \<Rightarrow> s
      | Some p \<Rightarrow>
          let (s, step) =
            (case get_publish_pipeline_step s (pl_id p) of
               Some step \<Rightarrow> (s, step)
             | None \<Rightarrow> create_completed_step s (pl_id p) Step_publish (step_defaults 0))
          in upsert_step_manifest s (ps_id step) [(manifest_key, JBool True)])"

definition rollup_of :: "publish_job \<Rightarrow> (pystr \<times> json) list option" where
  "rollup_of job =
     (case pj_summary_json job of
        Some (JObj ms) \<Rightarrow>
          (case json_get (S ''pr_resolution_rollup'') ms of Some (JObj r) \<Rightarrow> Some r | _ \<Rightarrow> None)
      | _ \<Rightarrow> None)"

definition rollup_pass :: "(pystr \<times> json) list \<Rightarrow> json" where
  "rollup_pass r = JObj (map (\<lambda>k. (k, opt_or (json_get k r) JNull))
     [S ''raised_count'', S ''resolved_count'', S ''still_open_display'', S ''review_count''])"

definition record_publish_pipeline_step ::
  "session \<Rightarrow> uuid \<Rightarrow> publish_job \<Rightarrow> pystr \<Rightarrow> int \<Rightarrow> pystr option \<Rightarrow> pystr option \<Rightarrow> pystr option \<Rightarrow> session" where
  "record_publish_pipeline_step s k job summary_markdown duration_ms issue_comment provider model_id =
     (let (s, step) = create_completed_step s k Step_publish ((step_defaults duration_ms)\<lparr>
            sv_status := (if pj_status job = PJ_completed then St_completed else St_failed),
            sv_error := (if pj_status job = PJ_failed
                         then Some (error_text (pj_error_message job) (S ''publish_failed'')) else None),
            sv_model_provider := provider, sv_model_id := model_id\<rparr>);
          s = add_step_artifact s (ps_id step) Art_summary_markdown (Some summary_markdown) None;
          comment = opt_or issue_comment [];
          payload = (if comment = [] then [] else [(S ''issue_comment_markdown'', JStr comment)]) @
                    (case rollup_of job of None \<Rightarrow> [] | Some r \<Rightarrow> [(S ''rollup_pass'', rollup_pass r)]);
          s = (if comment \<noteq> [] \<or> rollup_of job \<noteq> None
               then add_step_artifact s (ps_id step) Art_manifest None (Some (JObj payload)) else s)
      in try_persist_models_snapshot s k)"

end
