(* ===== verification/Pipeline_Laws.thy ===== *)
theory Pipeline_Laws
  imports Pipeline_Trace
begin

section \<open>What the operations of the pipeline trace keep\<close>

text \<open>
  Laws of the lookups and writes of the pipeline trace, the operations of the trace as a step relation
  with its invariant, and the properties of the check run of a generation: its identifier is never lost,
  it is created once for a queued job, and it is concluded by exactly one request.
\<close>

subsection \<open>Laws of the lookups\<close>

lemma first_by_None: "first_by k p rs = None \<longleftrightarrow> (\<forall>r\<in>set rs. \<not> p r)"
  by (induction rs) (auto split: option.splits)

lemma first_by_Some:
  "first_by k p rs = Some r \<Longrightarrow> r \<in> set rs \<and> p r \<and> (\<forall>q\<in>set rs. p q \<longrightarrow> k r \<le> k q)"
proof (induction rs arbitrary: r)
  case (Cons x xs)
  show ?case
  proof (cases "first_by k p xs")
    case None
    then have "\<forall>q\<in>set xs. \<not> p q" by (simp only: first_by_None)
    with Cons.prems None show ?thesis by (auto split: if_splits)
  next
    case (Some q)
    from Cons.IH [OF this] Cons.prems Some show ?thesis by (auto split: if_splits)
  qed
qed simp

lemma first_by_put:
  "\<lbrakk>first_by k p rs = Some r; rid r' = rid r; k r' = k r; p r'\<rbrakk> \<Longrightarrow>
     first_by k p (tbl_put rid r' rs) = Some r'"
proof (induction rs)
  case (Cons x xs)
  from first_by_Some [OF Cons.prems(1)] have least: "\<And>q. q \<in> set xs \<Longrightarrow> p q \<Longrightarrow> k r \<le> k q" by simp
  show ?case
  proof (cases "rid x = rid r")
    case True
    have "k r' \<le> k q" if "first_by k p (tbl_put rid r' xs) = Some q" for q
      using first_by_Some [OF that] least Cons.prems(3) by (auto dest: set_tbl_put)
    with True Cons.prems show ?thesis
      by (auto simp: tbl_put_def split: option.splits)
  next
    case False
    with Cons.prems(1) have "first_by k p xs = Some r" "p x \<longrightarrow> \<not> k x \<le> k r"
      by (auto split: if_splits option.splits)
    with Cons.IH Cons.prems False show ?thesis by (auto simp: tbl_put_def)
  qed
qed simp

text \<open>A row replaced by one with the same key and the same place leaves the other answers alone.\<close>

lemma first_by_put_twin:
  "\<lbrakk>first_by k p rs = Some q; rid q \<noteq> rid r'; \<And>x. x \<in> set rs \<Longrightarrow> rid x = rid r' \<Longrightarrow> x = r; k r' = k r; p r; p r'\<rbrakk> \<Longrightarrow>
     first_by k p (tbl_put rid r' rs) = Some q"
proof (induction rs)
  case (Cons x xs)
  have x: "rid x = rid r' \<Longrightarrow> x = r" using Cons.prems(3) by simp
  show ?case
  proof (cases "first_by k p xs")
    case None
    then have no: "\<forall>y\<in>set xs. \<not> p y" by (simp only: first_by_None)
    with Cons.prems(1) None have "x = q" by (auto split: if_splits)
    moreover have "first_by k p (tbl_put rid r' xs) = first_by k p xs"
    proof -
      have "rid z \<noteq> rid r'" if "z \<in> set xs" for z using no Cons.prems(3) [of z] Cons.prems(5) that by auto
      then have "tbl_put rid r' xs = xs" by (auto simp: tbl_put_def intro!: map_idI)
      then show ?thesis by simp
    qed
    moreover have "p q" using first_by_Some [OF Cons.prems(1)] by simp
    ultimately show ?thesis using Cons.prems(2) None by (simp add: tbl_put_def)
  next
    case (Some y)
    show ?thesis
    proof (cases "y = q")
      case True
      with Cons Some have "first_by k p (tbl_put rid r' xs) = Some q" by auto
      with Cons.prems Some True x show ?thesis by (auto simp: tbl_put_def split: if_splits)
    next
      case False
      with Cons.prems(1) Some have xq: "x = q" "p x" "k x \<le> k y" by (auto split: if_splits)
      have "k q \<le> k z" if "z \<in> set (tbl_put rid r' xs)" "p z" for z
      proof -
        from that(1) obtain y where y: "y \<in> set xs" "z = (if rid y = rid r' then r' else y)"
          by (auto simp: tbl_put_def)
        have "p y \<Longrightarrow> k q \<le> k y" using first_by_Some [OF Cons.prems(1)] y(1) by simp
        moreover have "rid y = rid r' \<Longrightarrow> y = r" using Cons.prems(3) [of y] y(1) by simp
        ultimately show ?thesis using y(2) that(2) Cons.prems(4,5) by (auto split: if_splits)
      qed
      with xq Cons.prems(2) show ?thesis
        by (auto simp: tbl_put_def split: option.splits dest!: first_by_Some)
    qed
  qed
qed simp

lemma first_by_put_other:
  "\<lbrakk>\<And>q. q \<in> set rs \<Longrightarrow> rid q = rid r \<Longrightarrow> \<not> p q; \<not> p r\<rbrakk> \<Longrightarrow>
     first_by k p (tbl_put rid r rs) = first_by k p rs"
proof (induction rs)
  case (Cons x xs)
  then have "first_by k p (tbl_put rid r xs) = first_by k p xs" by auto
  moreover have "rid x = rid r \<longrightarrow> \<not> p x" using Cons.prems by simp
  ultimately show ?case using Cons.prems(2) by (auto simp: tbl_put_def)
qed (simp add: tbl_put_def)

lemma first_by_add: "\<not> p r \<Longrightarrow> first_by k p (tbl_add r rs) = first_by k p rs"
  by (induction rs) (auto simp: tbl_add_def)

lemma first_by_add_new: "first_by k p rs = None \<Longrightarrow> p r \<Longrightarrow> first_by k p (tbl_add r rs) = Some r"
  by (induction rs) (auto simp: tbl_add_def split: if_splits option.splits)

lemma tbl_put_unique:
  "distinct (map rid rs) \<Longrightarrow> r \<in> set rs \<Longrightarrow> q \<in> set rs \<Longrightarrow> rid q = rid r \<Longrightarrow> q = r"
  by (induction rs) (auto simp: rev_image_eqI)

lemma json_get_update: "k \<notin> fst ` set u \<Longrightarrow> json_get k (dict_update ms u) = json_get k ms"
  unfolding dict_update_def
  by (induction u arbitrary: ms) (auto simp del: json_get.simps simp: json_get_set)

lemma json_get_pop: "j \<noteq> k \<Longrightarrow> json_get j (dict_pop k ms) = json_get j ms"
  unfolding dict_pop_def by (induction ms) auto

lemma json_get_copy: "j \<notin> set ks \<Longrightarrow> json_get j (copy_keys ks stats ms) = json_get j ms"
  unfolding copy_keys_def
  by (induction ks arbitrary: ms) (auto simp del: json_get.simps simp: json_get_set split: option.splits)

text \<open>The check-run identifier of a manifest, and the lookups the identifier rests on.\<close>

definition check_id_of :: "(pystr \<times> json) list \<Rightarrow> int option" where
  "check_id_of ms = (case json_get (S ''github_check_run_id'') ms of
     Some (JInt i) \<Rightarrow> Some i | Some (JBool b) \<Rightarrow> Some (if b then 1 else 0) | _ \<Rightarrow> None)"

definition step_manifest_of :: "session \<Rightarrow> uuid \<Rightarrow> (pystr \<times> json) list" where
  "step_manifest_of s step_id = manifest_of (get_step_manifest_artifact s step_id)"

lemma resolve_alt:
  "resolve_pipeline_github_check_run_id s k =
     Option.bind (get_index_pipeline_step s k) (\<lambda>st. check_id_of (step_manifest_of s (ps_id st)))"
  by (simp add: resolve_pipeline_github_check_run_id_def check_id_of_def step_manifest_of_def
      split: option.splits)

lemma check_id_of_Nil [simp]: "check_id_of [] = None"
  by (simp add: check_id_of_def)

lemma check_id_of_cong:
  "json_get (S ''github_check_run_id'') m = json_get (S ''github_check_run_id'') m' \<Longrightarrow>
     check_id_of m = check_id_of m'"
  by (simp add: check_id_of_def)

lemma get_step_artifact_cong:
  "ss_artifacts s' = ss_artifacts s \<Longrightarrow> step_manifest_of s' = step_manifest_of s"
  by (simp add: step_manifest_of_def get_step_manifest_artifact_def fun_eq_iff)

lemma get_index_step_cong:
  "ss_steps s' = ss_steps s \<Longrightarrow> get_index_pipeline_step s' = get_index_pipeline_step s"
  by (simp add: get_index_pipeline_step_def fun_eq_iff)

lemma resolve_cong:
  assumes "ss_artifacts s' = ss_artifacts s" and "ss_steps s' = ss_steps s"
  shows "resolve_pipeline_github_check_run_id s' k = resolve_pipeline_github_check_run_id s k"
  unfolding resolve_alt get_step_artifact_cong [OF assms(1)] get_index_step_cong [OF assms(2)] ..

lemma get_index_step_props:
  "get_index_pipeline_step s k = Some st \<Longrightarrow> st \<in> set (ss_steps s) \<and> is_step_of k Step_index st"
  unfolding get_index_pipeline_step_def by (auto dest: first_by_Some)

lemma write_manifest_steps [simp]: "ss_steps (write_manifest s i a m) = ss_steps s"
  by (simp add: write_manifest_def put_artifact_def add_step_artifact_def tick_def split: option.splits)

lemma upsert_steps [simp]: "ss_steps (upsert_step_manifest s i u) = ss_steps s"
  by (simp add: upsert_step_manifest_def Let_def)

lemma get_index_step_write [simp]:
  "get_index_pipeline_step (write_manifest s i a m) = get_index_pipeline_step s"
  by (rule get_index_step_cong) simp

lemma get_index_step_upsert [simp]:
  "get_index_pipeline_step (upsert_step_manifest s i u) = get_index_pipeline_step s"
  by (rule get_index_step_cong) simp

lemma write_manifest_same:
  assumes "a = get_step_manifest_artifact s i"
  shows "step_manifest_of (write_manifest s i a m) i = m"
proof (cases a)
  case None
  let ?a = "\<lparr>pa_id = next_uuid s, pa_step_id = i, pa_kind = Art_manifest, pa_content_text = None,
    pa_content_json = Some (JObj m), pa_created_at = next_time s\<rparr>"
  have "first_by pa_created_at (is_manifest_of i) (tbl_add ?a (ss_artifacts s)) = Some ?a"
    using assms None by (intro first_by_add_new) (simp_all add: get_step_manifest_artifact_def is_manifest_of_def)
  with None show ?thesis
    by (simp add: step_manifest_of_def get_step_manifest_artifact_def write_manifest_def
        add_step_artifact_def tick_def manifest_of_def)
next
  case (Some x)
  let ?a = "x\<lparr>pa_content_json := Some (JObj m)\<rparr>"
  have f: "first_by pa_created_at (is_manifest_of i) (ss_artifacts s) = Some x"
    using assms Some by (simp add: get_step_manifest_artifact_def)
  have "first_by pa_created_at (is_manifest_of i) (tbl_put pa_id ?a (ss_artifacts s)) = Some ?a"
    using first_by_Some [OF f] by (intro first_by_put [OF f]) (simp_all add: is_manifest_of_def)
  with Some show ?thesis
    by (simp add: step_manifest_of_def get_step_manifest_artifact_def write_manifest_def
        put_artifact_def manifest_of_def)
qed

lemma write_manifest_other:
  assumes "a = get_step_manifest_artifact s i" and "distinct (map pa_id (ss_artifacts s))" and "j \<noteq> i"
  shows "step_manifest_of (write_manifest s i a m) j = step_manifest_of s j"
proof (cases a)
  case None
  with assms(3) show ?thesis
    by (simp add: step_manifest_of_def get_step_manifest_artifact_def write_manifest_def
        add_step_artifact_def tick_def first_by_add is_manifest_of_def)
next
  case (Some x)
  have x: "x \<in> set (ss_artifacts s)" "pa_step_id x = i"
    using assms(1) Some first_by_Some [of pa_created_at "is_manifest_of i" "ss_artifacts s" x]
    by (auto simp: get_step_manifest_artifact_def is_manifest_of_def)
  let ?a = "x\<lparr>pa_content_json := Some (JObj m)\<rparr>"
  have "\<not> is_manifest_of j q" if "q \<in> set (ss_artifacts s)" "pa_id q = pa_id ?a" for q
    using tbl_put_unique [OF assms(2) x(1) that(1)] that(2) x(2) assms(3) by (auto simp: is_manifest_of_def)
  then have "first_by pa_created_at (is_manifest_of j) (tbl_put pa_id ?a (ss_artifacts s)) =
      first_by pa_created_at (is_manifest_of j) (ss_artifacts s)"
    using x(2) assms(3) by (intro first_by_put_other) (auto simp: is_manifest_of_def)
  with Some show ?thesis
    by (simp add: step_manifest_of_def get_step_manifest_artifact_def write_manifest_def put_artifact_def)
qed

lemma step_manifest_upsert:
  "step_manifest_of (upsert_step_manifest s i u) i = dict_update (step_manifest_of s i) u"
  by (simp add: upsert_step_manifest_def write_manifest_same Let_def) (simp add: step_manifest_of_def)

lemma step_manifest_upsert_other:
  "distinct (map pa_id (ss_artifacts s)) \<Longrightarrow> j \<noteq> i \<Longrightarrow>
     step_manifest_of (upsert_step_manifest s i u) j = step_manifest_of s j"
  by (simp add: upsert_step_manifest_def write_manifest_other Let_def)

lemma resolve_upsert:
  assumes "distinct (map pa_id (ss_artifacts s))" and "S ''github_check_run_id'' \<notin> fst ` set u"
  shows "resolve_pipeline_github_check_run_id (upsert_step_manifest s i u) k =
    resolve_pipeline_github_check_run_id s k"
proof -
  have "check_id_of (step_manifest_of (upsert_step_manifest s i u) j) = check_id_of (step_manifest_of s j)" for j
  proof (cases "j = i")
    case True
    show ?thesis unfolding True step_manifest_upsert
      by (rule check_id_of_cong) (rule json_get_update [OF assms(2)])
  next
    case False
    show ?thesis unfolding step_manifest_upsert_other [OF assms(1) False] ..
  qed
  then show ?thesis by (simp add: resolve_alt)
qed

lemma created_index_step:
  assumes "create_completed_step s k Step_index v = (s', st)" and "get_index_pipeline_step s k = None"
  shows "get_index_pipeline_step s' k = Some st"
  using assms by (auto simp: create_completed_step_def get_index_pipeline_step_def tick_def Let_def
      is_step_of_def intro!: first_by_add_new)

lemma resolve_stash: "resolve_pipeline_github_check_run_id (stash_pipeline_github_check_run_id s k c) k = Some c"
proof -
  obtain s1 step where s1: "(case get_index_pipeline_step s k of Some step \<Rightarrow> (s, step)
      | None \<Rightarrow> create_completed_step s k Step_index ((step_defaults 0)\<lparr>sv_status := St_pending\<rparr>)) = (s1, step)"
    by fastforce
  have i: "get_index_pipeline_step s1 k = Some step"
  proof (cases "get_index_pipeline_step s k")
    case None
    with s1 created_index_step [OF _ None] show ?thesis by simp
  qed (use s1 in auto)
  let ?u = "[(S ''github_check_run_id'', JInt c)]"
  have "get_index_pipeline_step (upsert_step_manifest s1 (ps_id step) ?u) k = Some step"
    by (simp add: i)
  moreover have "check_id_of (dict_update ms ?u) = Some c" for ms
    by (simp add: dict_update_def check_id_of_def json_get_set del: json_get.simps)
  ultimately show ?thesis
    by (simp add: stash_pipeline_github_check_run_id_def s1 resolve_alt step_manifest_upsert)
qed

subsection \<open>What every operation of the trace keeps\<close>

text \<open>Primary keys are unique, and the next \<open>n\<close> identifiers the server draws are new.\<close>

definition trace_wf :: "session \<Rightarrow> bool" where
  "trace_wf s \<longleftrightarrow> distinct (map ps_id (ss_steps s)) \<and> distinct (map pa_id (ss_artifacts s))"

definition coming_ids :: "session \<Rightarrow> nat \<Rightarrow> uuid list" where
  "coming_ids s n = map (ss_uuids s) [ss_created s ..< ss_created s + n]"

definition fresh_supply :: "nat \<Rightarrow> session \<Rightarrow> bool" where
  "fresh_supply n s \<longleftrightarrow> distinct (coming_ids s n) \<and>
     set (coming_ids s n) \<inter> (ps_id ` set (ss_steps s) \<union> pa_id ` set (ss_artifacts s)) = {}"

text \<open>\<open>safe n s0 s\<close>: \<open>s\<close> is well formed with \<open>n\<close> fresh identifiers left, and no check-run identifier of
  \<open>s0\<close> is lost in it.\<close>

definition keeps_checks :: "session \<Rightarrow> session \<Rightarrow> bool" where
  "keeps_checks s0 s \<longleftrightarrow>
     (\<forall>k c. resolve_pipeline_github_check_run_id s0 k = Some c \<longrightarrow>
            resolve_pipeline_github_check_run_id s k = Some c)"

definition safe :: "nat \<Rightarrow> session \<Rightarrow> session \<Rightarrow> bool" where
  "safe n s0 s \<longleftrightarrow> trace_wf s \<and> fresh_supply n s \<and> keeps_checks s0 s"

definition not_index :: "session \<Rightarrow> uuid \<Rightarrow> bool" where
  "not_index s i \<longleftrightarrow> (\<forall>st\<in>set (ss_steps s). ps_step_type st = Step_index \<longrightarrow> ps_id st \<noteq> i)"

lemma coming_ids_Suc: "coming_ids s (Suc n) = next_uuid s # coming_ids (tick s) n"
  by (simp add: coming_ids_def next_uuid_def tick_def upt_conv_Cons del: upt_Suc)

lemma coming_ids_cong:
  "ss_uuids s' = ss_uuids s \<Longrightarrow> ss_created s' = ss_created s \<Longrightarrow> coming_ids s' n = coming_ids s n"
  by (simp add: coming_ids_def)

lemma coming_ids_mono: "m \<le> n \<Longrightarrow> coming_ids s m = take m (coming_ids s n)"
  by (simp add: coming_ids_def take_map take_upt del: upt_Suc)

lemma fresh_supply_mono:
  assumes "fresh_supply n s" and "m \<le> n" shows "fresh_supply m s"
  using assms(1) set_take_subset [of m "coming_ids s n"]
  unfolding fresh_supply_def coming_ids_mono [OF assms(2)] by (auto simp del: set_take_subset)

lemma keeps_checks_refl [simp]: "keeps_checks s s"
  by (simp add: keeps_checks_def)

lemma keeps_checksI:
  "keeps_checks s0 s \<Longrightarrow>
     (\<And>k c. resolve_pipeline_github_check_run_id s k = Some c \<Longrightarrow>
        resolve_pipeline_github_check_run_id s' k = Some c) \<Longrightarrow> keeps_checks s0 s'"
  unfolding keeps_checks_def by blast

lemma keeps_checks_trans: "keeps_checks s0 s \<Longrightarrow> keeps_checks s s' \<Longrightarrow> keeps_checks s0 s'"
  unfolding keeps_checks_def by blast

lemma safe_refl: "trace_wf s \<Longrightarrow> fresh_supply n s \<Longrightarrow> safe n s s"
  by (simp add: safe_def)

lemma safe_mono: "safe n s0 s \<Longrightarrow> m \<le> n \<Longrightarrow> safe m s0 s"
  using fresh_supply_mono by (auto simp: safe_def)

lemma safe_frame:
  assumes "safe n s0 s" and "ss_steps s' = ss_steps s" and "ss_artifacts s' = ss_artifacts s"
    and "ss_uuids s' = ss_uuids s" and "ss_created s' = ss_created s"
  shows "safe n s0 s'"
proof -
  have "keeps_checks s0 s'"
    by (rule keeps_checksI [of s0 s]) (use assms(1) in \<open>simp_all add: safe_def resolve_cong [OF assms(3,2)]\<close>)
  moreover have "trace_wf s'" "fresh_supply n s'"
    using assms(1) by (simp_all add: safe_def trace_wf_def fresh_supply_def assms(2,3) coming_ids_cong [OF assms(4,5)])
  ultimately show ?thesis by (simp add: safe_def)
qed

text \<open>Adding a row consumes one identifier.\<close>

lemma disjoint_insert: "A \<inter> U = {} \<Longrightarrow> x \<notin> A \<Longrightarrow> V \<subseteq> insert x U \<Longrightarrow> A \<inter> V = {}"
  by auto

lemma fresh_supply_added:
  assumes "fresh_supply (Suc n) s"
    and "ps_id ` set (ss_steps s') \<union> pa_id ` set (ss_artifacts s') \<subseteq>
      insert (next_uuid s) (ps_id ` set (ss_steps s) \<union> pa_id ` set (ss_artifacts s))"
    and "ss_uuids s' = ss_uuids s" and "ss_created s' = Suc (ss_created s)"
  shows "fresh_supply n s'"
proof -
  have c: "coming_ids s' n = coming_ids (tick s) n"
    using assms(3,4) by (intro coming_ids_cong) (simp_all add: tick_def)
  have "distinct (coming_ids (tick s) n)" "next_uuid s \<notin> set (coming_ids (tick s) n)"
    "set (coming_ids (tick s) n) \<inter> (ps_id ` set (ss_steps s) \<union> pa_id ` set (ss_artifacts s)) = {}"
    using assms(1) unfolding fresh_supply_def coming_ids_Suc by auto
  from this(1) disjoint_insert [OF this(3,2) assms(2)] show ?thesis unfolding fresh_supply_def c by (rule conjI)
qed

lemma safe_tick:
  assumes "safe (Suc n) s0 s" shows "safe n s0 (tick s)"
proof -
  have "fresh_supply n (tick s)"
    using assms by (intro fresh_supply_added [of n s]) (auto simp: safe_def tick_def)
  moreover have "resolve_pipeline_github_check_run_id (tick s) k = resolve_pipeline_github_check_run_id s k" for k
    by (rule resolve_cong) (simp_all add: tick_def)
  ultimately show ?thesis
    using assms keeps_checksI [of s0 s "tick s"] by (simp add: safe_def trace_wf_def) (simp add: tick_def)
qed

lemma fresh_next: "fresh_supply (Suc n) s \<Longrightarrow> next_uuid s \<notin> ps_id ` set (ss_steps s) \<and> next_uuid s \<notin> pa_id ` set (ss_artifacts s)"
  by (auto simp: fresh_supply_def coming_ids_Suc)

lemma resolve_keptI:
  assumes "resolve_pipeline_github_check_run_id s k = Some c"
    and "\<And>st. get_index_pipeline_step s k = Some st \<Longrightarrow>
      get_index_pipeline_step s' k = Some st \<and>
      (check_id_of (step_manifest_of s (ps_id st)) = Some c \<longrightarrow> check_id_of (step_manifest_of s' (ps_id st)) = Some c)"
  shows "resolve_pipeline_github_check_run_id s' k = Some c"
  using assms by (auto simp: resolve_alt bind_eq_Some_conv)

lemma safe_step_add:
  assumes "safe (Suc n) s0 s" and "create_completed_step s k ty v = (s', st)"
    and "ty = Step_index \<Longrightarrow> get_index_pipeline_step s k = None"
  shows "safe n s0 s'" and "ty \<noteq> Step_index \<Longrightarrow> not_index s' (ps_id st)"
proof -
  have s': "ss_steps s' = tbl_add st (ss_steps s)" "ss_artifacts s' = ss_artifacts s"
    "ss_uuids s' = ss_uuids s" "ss_created s' = Suc (ss_created s)"
    and st: "ps_id st = next_uuid s" "ps_pipeline_run_id st = k" "ps_step_type st = ty"
    using assms(2) by (auto simp: create_completed_step_def tick_def Let_def)
  have f: "fresh_supply (Suc n) s" and w: "trace_wf s" using assms(1) by (simp_all add: safe_def)
  have new: "next_uuid s \<notin> ps_id ` set (ss_steps s)" using fresh_next [OF f] by simp
  have "trace_wf s'" using w new st(1) by (auto simp: trace_wf_def s' tbl_add_def)
  moreover have "fresh_supply n s'"
    using st(1) by (intro fresh_supply_added [OF f] s') (auto simp: s' tbl_add_def)
  moreover have "resolve_pipeline_github_check_run_id s' j = Some c"
    if r: "resolve_pipeline_github_check_run_id s j = Some c" for j c
  proof (rule resolve_keptI [OF r])
    fix st0 assume "get_index_pipeline_step s j = Some st0"
    moreover have "\<not> is_step_of j Step_index st"
      using calculation assms(3) st by (auto simp: is_step_of_def)
    ultimately show "get_index_pipeline_step s' j = Some st0 \<and>
      (check_id_of (step_manifest_of s (ps_id st0)) = Some c \<longrightarrow> check_id_of (step_manifest_of s' (ps_id st0)) = Some c)"
      by (simp add: get_index_pipeline_step_def s' first_by_add get_step_artifact_cong [OF s'(2)])
  qed
  ultimately show "safe n s0 s'" using assms(1) keeps_checksI [of s0 s s'] by (simp add: safe_def)
  show "not_index s' (ps_id st)" if "ty \<noteq> Step_index"
    using that new st by (force simp: not_index_def s' tbl_add_def)
qed

lemma safe_artifact_add:
  assumes "safe (Suc n) s0 s" and "kind \<noteq> Art_manifest \<or> not_index s i"
  shows "safe n s0 (add_step_artifact s i kind ct cj)"
proof -
  let ?s = "add_step_artifact s i kind ct cj"
  obtain a where s': "ss_artifacts ?s = tbl_add a (ss_artifacts s)" "ss_steps ?s = ss_steps s"
    "ss_uuids ?s = ss_uuids s" "ss_created ?s = Suc (ss_created s)"
    and a: "pa_id a = next_uuid s" "pa_step_id a = i" "pa_kind a = kind"
    by (auto simp: add_step_artifact_def tick_def)
  have f: "fresh_supply (Suc n) s" and w: "trace_wf s" using assms(1) by (simp_all add: safe_def)
  have "trace_wf ?s" using w fresh_next [OF f] a(1) by (auto simp: trace_wf_def s' tbl_add_def)
  moreover have "fresh_supply n ?s"
    using a(1) by (intro fresh_supply_added [OF f] s') (auto simp: s' tbl_add_def)
  moreover have "resolve_pipeline_github_check_run_id ?s j = Some c"
    if r: "resolve_pipeline_github_check_run_id s j = Some c" for j c
  proof (rule resolve_keptI [OF r], intro conjI impI)
    fix st assume g: "get_index_pipeline_step s j = Some st"
    show "get_index_pipeline_step ?s j = Some st" using g by (simp add: get_index_step_cong [OF s'(2)])
    from get_index_step_props [OF g] assms(2) a have "\<not> is_manifest_of (ps_id st) a"
      by (auto simp: not_index_def is_step_of_def is_manifest_of_def)
    then show "check_id_of (step_manifest_of ?s (ps_id st)) = Some c"
      if "check_id_of (step_manifest_of s (ps_id st)) = Some c"
      using that by (simp add: step_manifest_of_def get_step_manifest_artifact_def s' first_by_add)
  qed
  ultimately show ?thesis using assms(1) keeps_checksI [of s0 s ?s] by (simp add: safe_def)
qed

lemma not_index_artifact [simp]: "not_index (add_step_artifact s i kind ct cj) = not_index s"
  by (simp add: not_index_def add_step_artifact_def tick_def fun_eq_iff)

lemma write_manifest_wf:
  fixes i :: uuid and m :: "(pystr \<times> json) list"
  assumes "safe (Suc n) s0 s"
  defines "s' \<equiv> write_manifest s i (get_step_manifest_artifact s i) m"
  shows "trace_wf s' \<and> fresh_supply n s'"
proof -
  let ?a = "get_step_manifest_artifact s i"
  have f: "fresh_supply (Suc n) s" and w: "trace_wf s" using assms(1) by (simp_all add: safe_def)
  show ?thesis
  proof (cases ?a)
    case None
    have "fresh_supply n s'"
      by (rule fresh_supply_added [OF f])
         (auto simp: None s'_def write_manifest_def add_step_artifact_def tick_def tbl_add_def)
    with w fresh_next [OF f] None show ?thesis
      by (auto simp: trace_wf_def s'_def write_manifest_def add_step_artifact_def tick_def tbl_add_def)
  next
    case (Some a)
    have keys: "map pa_id (ss_artifacts s') = map pa_id (ss_artifacts s)"
      by (simp add: Some s'_def write_manifest_def put_artifact_def)
    then have "pa_id ` set (ss_artifacts s') = pa_id ` set (ss_artifacts s)" by (metis list.set_map)
    moreover have "ss_uuids s' = ss_uuids s" "ss_created s' = ss_created s" "ss_steps s' = ss_steps s"
      by (simp_all add: Some s'_def write_manifest_def put_artifact_def)
    ultimately have "fresh_supply (Suc n) s'"
      using f by (simp add: fresh_supply_def coming_ids_def)
    then have "fresh_supply n s'" by (rule fresh_supply_mono) simp
    with w keys show ?thesis by (simp add: trace_wf_def s'_def)
  qed
qed

text \<open>Replacing the manifest of a step by one that keeps its check-run identifier.\<close>

lemma safe_write_manifest:
  assumes "safe (Suc n) s0 s"
    and "\<And>c. check_id_of (step_manifest_of s i) = Some c \<Longrightarrow> check_id_of m = Some c"
  shows "safe n s0 (write_manifest s i (get_step_manifest_artifact s i) m)"
proof -
  let ?s = "write_manifest s i (get_step_manifest_artifact s i) m"
  have w: "trace_wf s" using assms(1) by (simp add: safe_def)
  have "trace_wf ?s \<and> fresh_supply n ?s" by (rule write_manifest_wf [OF assms(1)])
  moreover have "resolve_pipeline_github_check_run_id ?s j = Some c"
    if r: "resolve_pipeline_github_check_run_id s j = Some c" for j c
  proof (rule resolve_keptI [OF r], intro conjI impI)
    fix st assume g: "get_index_pipeline_step s j = Some st"
    show "get_index_pipeline_step ?s j = Some st" using g by simp
    assume c: "check_id_of (step_manifest_of s (ps_id st)) = Some c"
    show "check_id_of (step_manifest_of ?s (ps_id st)) = Some c"
    proof (cases "ps_id st = i")
      case True
      with assms(2) c show ?thesis by (simp add: write_manifest_same)
    next
      case False
      from c w False show ?thesis by (simp add: write_manifest_other trace_wf_def)
    qed
  qed
  ultimately show ?thesis using assms(1) keeps_checksI [of s0 s ?s] by (simp add: safe_def)
qed

lemma safe_upsert:
  assumes "safe (Suc n) s0 s" and "S ''github_check_run_id'' \<notin> fst ` set u"
  shows "safe n s0 (upsert_step_manifest s i u)"
proof -
  have "check_id_of (dict_update ms u) = check_id_of ms" for ms
    by (rule check_id_of_cong) (rule json_get_update [OF assms(2)])
  then show ?thesis
    unfolding upsert_step_manifest_def Let_def
    by (intro safe_write_manifest [OF assms(1)]) (simp add: step_manifest_of_def)
qed

lemma put_step_keys [simp]: "map ps_id (ss_steps (put_step st s)) = map ps_id (ss_steps s)"
  by (simp add: put_step_def)

lemma put_step_key_set: "ps_id ` set (ss_steps (put_step st s)) = ps_id ` set (ss_steps s)"
  using put_step_keys [of st s] by (metis list.set_map)

lemma safe_put_step:
  assumes "safe n s0 s" and "st \<in> set (ss_steps s)" and "ps_id st' = ps_id st"
    and "ps_pipeline_run_id st' = ps_pipeline_run_id st" and "ps_step_type st' = ps_step_type st"
    and "ps_created_at st' = ps_created_at st"
  shows "safe n s0 (put_step st' s)" and "st' \<in> set (ss_steps (put_step st' s))"
proof -
  let ?s = "put_step st' s"
  have w: "trace_wf s" and fr: "fresh_supply n s" using assms(1) by (simp_all add: safe_def)
  have same: "q = st" if "q \<in> set (ss_steps s)" "ps_id q = ps_id st'" for q
    using tbl_put_unique [of ps_id "ss_steps s" st q] w assms(2,3) that by (simp add: trace_wf_def)
  have arts: "ss_artifacts ?s = ss_artifacts s" "ss_uuids ?s = ss_uuids s" "ss_created ?s = ss_created s"
    by (simp_all add: put_step_def)
  show in_s: "st' \<in> set (ss_steps ?s)" using assms(2,3) by (force simp: put_step_def tbl_put_def)
  have "trace_wf ?s" using w by (simp add: trace_wf_def arts)
  moreover have "fresh_supply n ?s"
    using fr by (simp add: fresh_supply_def put_step_key_set arts coming_ids_cong [OF arts(2,3)])
  moreover have "resolve_pipeline_github_check_run_id ?s j = Some c"
    if r: "resolve_pipeline_github_check_run_id s j = Some c" for j c
  proof (cases "get_index_pipeline_step s j = Some st")
    case True
    have "is_step_of j Step_index st'" using get_index_step_props [OF True] assms(4,5) by (simp add: is_step_of_def)
    with True have "get_index_pipeline_step ?s j = Some st'"
      unfolding get_index_pipeline_step_def put_step_def
      by (simp, intro first_by_put [where r = st]) (simp_all add: assms)
    with True r show ?thesis
      by (simp add: resolve_alt assms(3) get_step_artifact_cong [OF arts(1)])
  next
    case False
    obtain st0 where g: "get_index_pipeline_step s j = Some st0" "st0 \<noteq> st"
      using r False by (auto simp: resolve_alt bind_eq_Some_conv)
    show ?thesis
    proof (cases "is_step_of j Step_index st")
      case True
      then have "is_step_of j Step_index st'" using assms(4,5) by (simp add: is_step_of_def)
      moreover have "ps_id st0 \<noteq> ps_id st'"
        using same [of st0] get_index_step_props [OF g(1)] g(2) by auto
      ultimately have "get_index_pipeline_step ?s j = Some st0"
        using g(1) assms(6) True same unfolding get_index_pipeline_step_def put_step_def
        by (simp add: first_by_put_twin [where r = st])
      with g r show ?thesis by (simp add: resolve_alt get_step_artifact_cong [OF arts(1)])
    next
      case nb: False
      then have "\<not> is_step_of j Step_index st'" using assms(4,5) by (simp add: is_step_of_def)
      with nb same have "get_index_pipeline_step ?s j = get_index_pipeline_step s j"
        unfolding get_index_pipeline_step_def put_step_def by (auto intro: first_by_put_other)
      with r show ?thesis by (simp add: resolve_alt get_step_artifact_cong [OF arts(1)])
    qed
  qed
  ultimately show "safe n s0 ?s" using assms(1) keeps_checksI [of s0 s ?s] by (simp add: safe_def)
qed

subsection \<open>The operations as steps\<close>

text \<open>One step is one operation on the trace, with any arguments the callers can pass.  The index step
  is recorded with no check-run identifier, with the one the run has, or with a first one (what
  \<open>start_pipeline_github_check\<close> returned), and the keys of a publish skip are not that of the
  identifier.  Each operation draws at most four identifiers, which the server has not used before.\<close>

inductive trace_op :: "session \<Rightarrow> session \<Rightarrow> bool" where
  provision: "provision_queued_pipeline_github_check env s job head_sha = (s', r) \<Longrightarrow> trace_op s s'"
| ensure: "ensure_pipeline_run_for_index_job s job head_sha = (s', p) \<Longrightarrow> trace_op s s'"
| link_review: "trace_op s (link_review_run_to_pipeline s p run_id)"
| link_publish: "trace_op s (link_publish_job_to_pipeline s p job_id)"
| start: "start_pipeline_github_check env s p = (s', r) \<Longrightarrow> trace_op s s'"
| refresh: "refresh_pipeline_github_check_in_progress env s k summary = (s', r') \<Longrightarrow> trace_op s s'"
| finalize: "finalize_pipeline_github_check env s k summary conclusion = (s', r') \<Longrightarrow> trace_op s s'"
| index: "check_run_id = None \<or> check_run_id = resolve_pipeline_github_check_run_id s k \<or>
     resolve_pipeline_github_check_run_id s k = None \<Longrightarrow>
     trace_op s (record_index_pipeline_step s k job stats duration_ms check_run_id)"
| retrieve: "trace_op s (record_retrieve_pipeline_step s k manifest duration_ms)"
| review: "trace_op s (record_review_pipeline_step s k run prompt raw_response report duration_ms)"
| reconcile: "trace_op s (record_reconcile_pipeline_step s k group_count duration_ms resolution_pass suppressed)"
| resolution: "trace_op s (record_resolution_pass_on_reconcile_step s k resolution)"
| judge: "trace_op s (record_judge_pipeline_step s k judged duration_ms cs verified vs provider model_id)"
| superseded: "trace_op s (record_generation_superseded_on_pipeline now s run_id)"
| skipped: "key \<noteq> S ''github_check_run_id'' \<Longrightarrow> trace_op s (record_publish_skip_on_pipeline s run_id key)"
| publish: "trace_op s (record_publish_pipeline_step s k pjob md duration_ms comment provider model_id)"

text \<open>Each operation starts with fresh identifiers.\<close>

inductive trace_reach :: "session \<Rightarrow> session \<Rightarrow> bool" where
  start: "trace_reach s s"
| step: "trace_reach s0 s \<Longrightarrow> fresh_supply 4 s \<Longrightarrow> trace_op s s' \<Longrightarrow> trace_reach s0 s'"

lemma put_pipeline_run_frame [simp]:
  "ss_steps (put_pipeline_run p s) = ss_steps s" "ss_artifacts (put_pipeline_run p s) = ss_artifacts s"
  "ss_uuids (put_pipeline_run p s) = ss_uuids s" "ss_created (put_pipeline_run p s) = ss_created s"
  by (simp_all add: put_pipeline_run_def)

lemma safe_snapshot: "safe n s0 s \<Longrightarrow> safe n s0 (try_persist_models_snapshot s k)"
  by (erule safe_frame)
     (simp_all add: try_persist_models_snapshot_def write_models_snapshot_def Let_def split: option.splits)

lemma safe_checks: "safe n s0 s \<Longrightarrow> safe n s0 (s\<lparr>ss_checks := cs\<rparr>)"
  by (erule safe_frame) simp_all

text \<open>A request changes the log only.\<close>

definition only_checks :: "session \<Rightarrow> session \<Rightarrow> bool" where
  "only_checks s s' \<longleftrightarrow> (\<exists>cs. s' = s\<lparr>ss_checks := cs\<rparr>)"

lemma only_checks_refl [simp]: "only_checks s s"
  unfolding only_checks_def by (rule exI [of _ "ss_checks s"]) simp

lemma safe_only_checks: "only_checks s s' \<Longrightarrow> safe n s0 s \<Longrightarrow> safe n s0 s'"
  by (auto simp: only_checks_def dest: safe_checks)

lemma send_check_session: "send_check env s i call = (s', r) \<Longrightarrow> only_checks s s'"
  by (auto simp: send_check_def only_checks_def Let_def)

lemma create_in_progress_session: "create_in_progress env s cx summary = (s', r) \<Longrightarrow> only_checks s s'"
  by (auto simp: create_in_progress_def create_check_run_def Let_def split: prod.splits dest: send_check_session)

lemma with_check_session:
  assumes "with_check env s k request = (s', r)"
    and "\<And>cx i s1 r1. request cx i = (s1, r1) \<Longrightarrow> only_checks s s1"
  shows "only_checks s s'"
  using assms by (auto simp: with_check_def split: option.splits if_splits sum.splits prod.splits)

lemma refresh_session:
  "refresh_pipeline_github_check_in_progress env s k summary = (s', r) \<Longrightarrow> only_checks s s'"
  unfolding refresh_pipeline_github_check_in_progress_def
  by (erule with_check_session)
     (auto simp: update_check_run_in_progress_def split: prod.splits dest: send_check_session)

lemma finalize_session:
  "finalize_pipeline_github_check env s k summary conclusion = (s', r) \<Longrightarrow>
     only_checks (try_persist_models_snapshot s k) s'"
  unfolding finalize_pipeline_github_check_def Let_def
  by (erule with_check_session) (auto simp: update_check_run_def split: prod.splits dest: send_check_session)

lemma start_session: "start_pipeline_github_check env s p = (s', r) \<Longrightarrow> only_checks s s'"
  by (auto simp: start_pipeline_github_check_def split: option.splits if_splits sum.splits prod.splits
      dest: refresh_session create_in_progress_session)

lemma ensure_safe:
  assumes "safe (Suc n) s0 s" and "ensure_pipeline_run_for_index_job s job h = (s', p)"
  shows "safe n s0 s'"
proof (cases "get_pipeline_run_for_index_job s (ij_id job)")
  case None
  then obtain rs where s': "s' = tick (s\<lparr>ss_pipeline_runs := rs\<rparr>)"
    using assms(2) by (auto simp: ensure_pipeline_run_for_index_job_def Let_def)
  have "safe (Suc n) s0 (s\<lparr>ss_pipeline_runs := rs\<rparr>)" by (rule safe_frame [OF assms(1)]) simp_all
  then show ?thesis unfolding s' by (rule safe_tick)
next
  case (Some q)
  with assms safe_mono [OF assms(1), of n] show ?thesis by (simp add: ensure_pipeline_run_for_index_job_def)
qed

text \<open>The first identifier of a run may be written.\<close>

lemma safe_first_id:
  assumes "safe (Suc n) s0 s" and "get_index_pipeline_step s k = Some st"
    and "resolve_pipeline_github_check_run_id s0 k = None"
  shows "safe n s0 (write_manifest s (ps_id st) (get_step_manifest_artifact s (ps_id st)) m)"
proof -
  let ?s = "write_manifest s (ps_id st) (get_step_manifest_artifact s (ps_id st)) m"
  have w: "trace_wf s" using assms(1) by (simp add: safe_def)
  have "resolve_pipeline_github_check_run_id ?s j = Some c"
    if r0: "resolve_pipeline_github_check_run_id s0 j = Some c" for j c
  proof (rule resolve_keptI)
    show "resolve_pipeline_github_check_run_id s j = Some c"
      using assms(1) r0 by (simp add: safe_def keeps_checks_def)
    fix st' assume g: "get_index_pipeline_step s j = Some st'"
    have "ps_pipeline_run_id st' = j" "ps_pipeline_run_id st = k" "j \<noteq> k"
      using get_index_step_props [OF g] get_index_step_props [OF assms(2)] r0 assms(3)
      by (auto simp: is_step_of_def)
    then have "ps_id st' \<noteq> ps_id st"
      using tbl_put_unique [of ps_id "ss_steps s" st st'] w get_index_step_props [OF g]
        get_index_step_props [OF assms(2)] by (auto simp: trace_wf_def)
    then show "get_index_pipeline_step ?s j = Some st' \<and>
        (check_id_of (step_manifest_of s (ps_id st')) = Some c \<longrightarrow>
         check_id_of (step_manifest_of ?s (ps_id st')) = Some c)"
      using g w by (simp add: write_manifest_other trace_wf_def)
  qed
  with write_manifest_wf [OF assms(1)] show ?thesis by (simp add: safe_def keeps_checks_def)
qed

lemma stash_safe:
  assumes "safe (Suc (Suc n)) s0 s" and "resolve_pipeline_github_check_run_id s0 k = None"
  shows "safe n s0 (stash_pipeline_github_check_run_id s k c)"
proof (cases "get_index_pipeline_step s k")
  case (Some st)
  have "safe (Suc n) s0 s" using assms(1) by (rule safe_mono) simp
  from safe_first_id [OF this Some assms(2)] Some show ?thesis
    by (simp add: stash_pipeline_github_check_run_id_def upsert_step_manifest_def Let_def)
next
  case None
  obtain s1 st where c: "create_completed_step s k Step_index ((step_defaults 0)\<lparr>sv_status := St_pending\<rparr>) = (s1, st)"
    by fastforce
  from safe_step_add(1) [OF assms(1) c] None have s1: "safe (Suc n) s0 s1" by simp
  have "get_index_pipeline_step s1 k = Some st" using created_index_step [OF c None] .
  from safe_first_id [OF s1 this assms(2)] None c show ?thesis
    by (simp add: stash_pipeline_github_check_run_id_def upsert_step_manifest_def Let_def)
qed

definition same_step :: "pipeline_step \<Rightarrow> pipeline_step \<Rightarrow> bool" where
  "same_step st st' \<longleftrightarrow> ps_id st' = ps_id st \<and> ps_pipeline_run_id st' = ps_pipeline_run_id st \<and>
     ps_step_type st' = ps_step_type st \<and> ps_created_at st' = ps_created_at st"

lemma index_step_put:
  assumes "get_index_pipeline_step s k = Some st" and "same_step st st'"
  shows "get_index_pipeline_step (put_step st' s) k = Some st'"
  using get_index_step_props [OF assms(1)] assms
  by (auto simp: get_index_pipeline_step_def put_step_def same_step_def is_step_of_def
      intro!: first_by_put [where r = st])

lemma manifest_artifact_put [simp]:
  "get_step_manifest_artifact (put_step st s) = get_step_manifest_artifact s"
  by (simp add: get_step_manifest_artifact_def put_step_def fun_eq_iff)

lemma index_keys_no_check:
  "S ''github_check_run_id'' \<notin> set INDEX_MANIFEST_COUNT_KEYS"
  "S ''github_check_run_id'' \<notin> set INDEX_EMBEDDING_MANIFEST_KEYS"
  "S ''github_check_run_id'' \<noteq> S ''embedding_skipped_reason''"
  by (simp_all add: INDEX_MANIFEST_COUNT_KEYS_def INDEX_EMBEDDING_MANIFEST_KEYS_def S_def)

lemma json_get_pops: "j \<notin> set ks \<Longrightarrow> json_get j (foldl (\<lambda>acc k. dict_pop k acc) ms ks) = json_get j ms"
proof (induction ks arbitrary: ms)
  case (Cons k ks)
  then show ?case using json_get_pop [of j k ms] by simp
qed simp

lemma apply_stats_facts:
  assumes "apply_index_manifest_stats ms stats st = (ms', st')"
  shows "check_id_of ms' = check_id_of ms" and "same_step st st'"
proof -
  have "json_get (S ''github_check_run_id'') ms' = json_get (S ''github_check_run_id'') ms"
    using assms index_keys_no_check
    by (auto simp: apply_index_manifest_stats_def Let_def json_get_pops json_get_pop json_get_copy json_get_set
        simp del: json_get.simps split: if_splits)
  then show "check_id_of ms' = check_id_of ms" by (rule check_id_of_cong)
  show "same_step st st'"
    using assms by (auto simp: apply_index_manifest_stats_def Let_def same_step_def split: if_splits option.splits)
qed

text \<open>The index step before its manifest is written: created, or updated in place.\<close>

definition index_step_recorded ::
  "session \<Rightarrow> uuid \<Rightarrow> int \<Rightarrow> step_status \<Rightarrow> pystr option \<Rightarrow> session \<times> pipeline_step" where
  "index_step_recorded s k duration_ms status error =
     (case get_index_pipeline_step s k of
        None \<Rightarrow> create_completed_step s k Step_index
                  ((step_defaults duration_ms)\<lparr>sv_status := status, sv_error := error\<rparr>)
      | Some step \<Rightarrow>
          let step = step\<lparr>ps_status := status, ps_duration_ms := Some duration_ms, ps_error := error\<rparr>
          in (put_step step s, step))"

lemma index_step_recorded_safe:
  assumes "safe (Suc n) s0 s" and "index_step_recorded s k d status error = (s1, st)"
  shows "safe n s0 s1" and "get_index_pipeline_step s1 k = Some st"
proof -
  have *: "safe n s0 s1 \<and> get_index_pipeline_step s1 k = Some st"
  proof (cases "get_index_pipeline_step s k")
    case None
    then have c: "create_completed_step s k Step_index
        ((step_defaults d)\<lparr>sv_status := status, sv_error := error\<rparr>) = (s1, st)"
      using assms(2) by (simp add: index_step_recorded_def)
    with None safe_step_add(1) [OF assms(1) c] created_index_step [OF c None] show ?thesis by simp
  next
    case (Some st0)
    then have s1: "s1 = put_step st s" and same: "same_step st0 st"
      using assms(2) by (auto simp: index_step_recorded_def Let_def same_step_def)
    have "safe n s0 s" using assms(1) by (rule safe_mono) simp
    then have "safe n s0 (put_step st s)"
      using get_index_step_props [OF Some] same by (intro safe_put_step(1)) (auto simp: same_step_def)
    with index_step_put [OF Some same] s1 show ?thesis by simp
  qed
  then show "safe n s0 s1" "get_index_pipeline_step s1 k = Some st" by simp_all
qed

lemma record_index_safe:
  assumes "safe (Suc (Suc n)) s s"
    and "c = None \<or> c = resolve_pipeline_github_check_run_id s k \<or> resolve_pipeline_github_check_run_id s k = None"
  shows "safe n s (record_index_pipeline_step s k job stats d c)"
proof -
  let ?status = "if ij_status job = IJ_completed then St_completed else St_failed"
  let ?error = "if ij_status job = IJ_failed then Some (error_text (ij_error_message job) (S ''index_failed'')) else None"
  obtain s1 st where r: "index_step_recorded s k d ?status ?error = (s1, st)" by fastforce
  note s1 = index_step_recorded_safe [OF assms(1) r]
  let ?a = "get_step_manifest_artifact s1 (ps_id st)"
  let ?u = "[(S ''index_mode'', JStr (index_mode_value (ij_index_mode job))),
    (S ''chunk_count'', json_opt_int (ij_chunk_count job)), (S ''fallback_reason'', json_opt_str (ij_fallback_reason job)),
    (S ''warning_message'', json_opt_str (ij_warning_message job)), (S ''duration_ms'', JInt d)]"
  let ?m = "dict_update (manifest_of ?a) ?u"
  obtain m st' where m: "(case stats of None \<Rightarrow> (?m, st) | Some x \<Rightarrow> apply_index_manifest_stats ?m x st) = (m, st')"
    by fastforce
  have idm: "check_id_of m = check_id_of (manifest_of ?a)" and same: "same_step st st'"
  proof -
    have "check_id_of ?m = check_id_of (manifest_of ?a)"
      by (intro check_id_of_cong json_get_update) (simp add: S_def)
    with m show "check_id_of m = check_id_of (manifest_of ?a)" "same_step st st'"
      by (auto simp: apply_stats_facts same_step_def split: option.splits dest: apply_stats_facts)
  qed
  let ?s2 = "put_step st' s1"
  let ?m' = "case c of None \<Rightarrow> m | Some i \<Rightarrow> json_set (S ''github_check_run_id'') (JInt i) m"
  have s2: "safe (Suc n) s ?s2"
    using s1(1) get_index_step_props [OF s1(2)] same by (intro safe_put_step(1)) (auto simp: same_step_def)
  have g2: "get_index_pipeline_step ?s2 k = Some st'" by (rule index_step_put [OF s1(2) same])
  have idst: "ps_id st' = ps_id st" using same by (simp add: same_step_def)
  have eq: "record_index_pipeline_step s k job stats d c = write_manifest ?s2 (ps_id st') ?a ?m'"
    unfolding record_index_pipeline_step_def Let_def r [unfolded index_step_recorded_def Let_def] prod.case m ..
  have a: "get_step_manifest_artifact ?s2 (ps_id st') = ?a" by (simp add: idst)
  have old: "step_manifest_of ?s2 (ps_id st') = manifest_of ?a" by (simp add: step_manifest_of_def idst)
  consider (first) "resolve_pipeline_github_check_run_id s k = None"
    | (kept) "c = None \<or> (\<exists>i. c = Some i \<and> resolve_pipeline_github_check_run_id s k = Some i)"
    using assms(2) by (cases "resolve_pipeline_github_check_run_id s k") auto
  then show ?thesis
  proof cases
    case first
    from safe_first_id [OF s2 g2 first, of ?m'] show ?thesis by (simp only: eq a)
  next
    case kept
    have keep: "check_id_of ?m' = Some j" if j: "check_id_of (step_manifest_of ?s2 (ps_id st')) = Some j" for j
    proof (cases c)
      case None
      with j idm old show ?thesis by simp
    next
      case (Some i)
      with kept have "resolve_pipeline_github_check_run_id ?s2 k = Some i"
        using s2 by (simp add: safe_def keeps_checks_def)
      with g2 j have "i = j" by (simp add: resolve_alt)
      with Some show ?thesis by (simp add: check_id_of_def json_get_set del: json_get.simps)
    qed
    show ?thesis unfolding eq a [symmetric] by (rule safe_write_manifest [OF s2 keep])
  qed
qed

lemma safe_step_artifact:
  assumes "safe (Suc (Suc n)) s0 s" and "create_completed_step s k ty v = (s1, st)" and "ty \<noteq> Step_index"
  shows "safe n s0 (add_step_artifact s1 (ps_id st) kind ct cj)" and "safe (Suc n) s0 s1" and "not_index s1 (ps_id st)"
  using safe_step_add [OF assms(1,2)] assms(3) by (auto intro: safe_artifact_add)

lemma retrieve_safe: "safe 3 s0 s \<Longrightarrow> safe 0 s0 (record_retrieve_pipeline_step s k manifest d)"
proof -
  assume s: "safe 3 s0 s"
  obtain s1 st where c: "create_completed_step s k Step_retrieve (step_defaults d) = (s1, st)" by fastforce
  from s have s3: "safe (Suc (Suc 1)) s0 s" by (simp add: numeral_3_eq_3)
  let ?s2 = "add_step_artifact s1 (ps_id st) Art_manifest None (Some (JObj manifest))"
  from safe_step_artifact(1) [OF s3 c] have s2: "safe (Suc 0) s0 ?s2" by simp
  have "safe 0 s0 ?s2" using s2 by (rule safe_mono) simp
  with safe_artifact_add [OF s2] show ?thesis
    by (simp add: record_retrieve_pipeline_step_def c Let_def split: option.splits json.splits)
qed

lemma review_safe: "safe 4 s0 s \<Longrightarrow> safe 0 s0 (record_review_pipeline_step s k run prompt raw report d)"
proof -
  assume "safe 4 s0 s"
  then have s4: "safe (Suc (Suc 2)) s0 s" by (simp add: eval_nat_numeral)
  obtain s1 st where c: "create_completed_step s k Step_review ((step_defaults d)\<lparr>
      sv_status := (if rr_status run = RR_completed then St_completed else St_failed),
      sv_error := (if rr_status run = RR_failed then Some (error_text (rr_error_message run) (S ''review_failed'')) else None),
      sv_model_provider := rr_provider run, sv_model_id := rr_model_id run\<rparr>) = (s1, st)" by fastforce
  from safe_step_artifact [OF s4 c]
  have s1: "safe (Suc (Suc (Suc 0))) s0 s1" "not_index s1 (ps_id st)" by (simp_all add: eval_nat_numeral)
  have "safe 0 s0 (add_step_artifact (add_step_artifact (add_step_artifact s1 (ps_id st) k1 a1 b1) (ps_id st) k2 a2 b2)
      (ps_id st) k3 a3 b3)" for k1 k2 k3 a1 a2 a3 b1 b2 b3
    using s1 by (intro safe_artifact_add) simp_all
  then show ?thesis by (simp add: record_review_pipeline_step_def c Let_def del: if_split)
qed

lemma reconcile_safe: "safe 4 s0 s \<Longrightarrow> safe 0 s0 (record_reconcile_pipeline_step s k g d rp hidden)"
proof -
  assume "safe 4 s0 s"
  then have s2: "safe (Suc (Suc 0)) s0 s" by (rule safe_mono) simp
  obtain s1 st where c: "create_completed_step s k Step_reconcile (step_defaults d) = (s1, st)" by fastforce
  from safe_step_artifact(1) [OF s2 c] show ?thesis
    by (simp add: record_reconcile_pipeline_step_def c Let_def)
qed

lemma judge_safe: "safe 4 s0 s \<Longrightarrow> safe 0 s0 (record_judge_pipeline_step s k j d cs v vs pv mi)"
proof -
  assume "safe 4 s0 s"
  then have s2: "safe (Suc (Suc 0)) s0 s" by (rule safe_mono) simp
  let ?i = "sum_list (map (\<lambda>c. opt_or (ci_input_tokens c) 0) (cs @ vs))"
  let ?o = "sum_list (map (\<lambda>c. opt_or (ci_output_tokens c) 0) (cs @ vs))"
  obtain s1 st where c: "create_completed_step s k Step_judge ((step_defaults d)\<lparr>
      sv_input_tokens := or_none ?i, sv_output_tokens := or_none ?o,
      sv_model_provider := pv, sv_model_id := mi\<rparr>) = (s1, st)" by fastforce
  show ?thesis unfolding record_judge_pipeline_step_def Let_def c prod.case
    by (rule safe_step_artifact(1) [OF s2 c]) simp
qed

lemma publish_safe: "safe 4 s0 s \<Longrightarrow> safe 0 s0 (record_publish_pipeline_step s k job md d comment pv mi)"
proof -
  assume "safe 4 s0 s"
  then have s3: "safe (Suc (Suc (Suc 0))) s0 s" by (rule safe_mono) simp
  obtain s1 st where c: "create_completed_step s k Step_publish ((step_defaults d)\<lparr>
      sv_status := (if pj_status job = PJ_completed then St_completed else St_failed),
      sv_error := (if pj_status job = PJ_failed then Some (error_text (pj_error_message job) (S ''publish_failed'')) else None),
      sv_model_provider := pv, sv_model_id := mi\<rparr>) = (s1, st)" by fastforce
  let ?s2 = "add_step_artifact s1 (ps_id st) Art_summary_markdown (Some md) None"
  from safe_step_artifact [OF s3 c] have s2: "safe (Suc 0) s0 ?s2" "not_index ?s2 (ps_id st)" by simp_all
  have "safe 0 s0 (if b then add_step_artifact ?s2 (ps_id st) kind a j else ?s2)" for b kind a j
    using safe_artifact_add [OF s2(1)] s2(2) safe_mono [OF s2(1), of 0] by simp
  then show ?thesis unfolding record_publish_pipeline_step_def Let_def c prod.case by (rule safe_snapshot)
qed

lemma skip_safe:
  assumes "safe 4 s0 s" and "key \<noteq> S ''github_check_run_id''"
  shows "safe 0 s0 (record_publish_skip_on_pipeline s run_id key)"
proof (cases "get_pipeline_run_for_review_run s run_id")
  case None
  with safe_mono [OF assms(1), of 0] show ?thesis by (simp add: record_publish_skip_on_pipeline_def)
next
  case (Some p)
  obtain s1 st where c: "(case get_publish_pipeline_step s (pl_id p) of Some step \<Rightarrow> (s, step)
      | None \<Rightarrow> create_completed_step s (pl_id p) Step_publish (step_defaults 0)) = (s1, st)" by fastforce
  have s4: "safe (Suc 1) s0 s" using assms(1) by (rule safe_mono) simp
  have "safe (Suc 0) s0 s1"
  proof (cases "get_publish_pipeline_step s (pl_id p)")
    case None
    with c safe_step_add(1) [OF s4, of "pl_id p" Step_publish] show ?thesis by simp
  next
    case (Some st0)
    with c safe_mono [OF s4, of "Suc 0"] show ?thesis by simp
  qed
  then have "safe 0 s0 (upsert_step_manifest s1 (ps_id st) [(key, JBool True)])"
    by (rule safe_upsert) (use assms(2) in simp)
  with Some c show ?thesis by (simp add: record_publish_skip_on_pipeline_def Let_def)
qed

lemma provision_safe:
  assumes "safe 4 s s" and "provision_queued_pipeline_github_check env s job h = (s', r)"
  shows "safe 0 s s'"
proof (cases "ce_enabled env")
  case False
  with assms safe_mono [OF assms(1), of 0] show ?thesis by (simp add: provision_queued_pipeline_github_check_def)
next
  case True
  obtain s1 p where e: "ensure_pipeline_run_for_index_job s job h = (s1, p)" by fastforce
  from assms(1) have "safe (Suc 3) s s" by (simp add: eval_nat_numeral)
  from ensure_safe [OF this e] have s1: "safe 3 s s1" .
  then have s10: "safe 0 s s1" by (rule safe_mono) simp
  show ?thesis
  proof (cases "resolve_pipeline_github_check_run_id s1 (pl_id p)")
    case None
    then have "resolve_pipeline_github_check_run_id s (pl_id p) = None"
      using s1 by (cases "resolve_pipeline_github_check_run_id s (pl_id p)") (auto simp: safe_def keeps_checks_def)
    moreover have "safe (Suc (Suc 0)) s s2" if "create_in_progress env s1 cx QUEUED_CHECK_SUMMARY = (s2, r2)" for cx s2 r2
      using safe_only_checks [OF create_in_progress_session [OF that] s1] by (rule safe_mono) simp
    ultimately have st: "safe 0 s (stash_pipeline_github_check_run_id s2 (pl_id p) c)"
      if "create_in_progress env s1 cx QUEUED_CHECK_SUMMARY = (s2, r2)" for cx s2 r2 c
      using that by (blast intro: stash_safe)
    have "safe 0 s s2" if "create_in_progress env s1 cx QUEUED_CHECK_SUMMARY = (s2, r2)" for cx s2 r2
      using safe_only_checks [OF create_in_progress_session [OF that] s10] .
    with assms(2) True e None s10 st show ?thesis
      by (auto simp: provision_queued_pipeline_github_check_def split: sum.splits option.splits prod.splits)
  next
    case (Some c)
    with assms(2) True e s10 show ?thesis by (simp add: provision_queued_pipeline_github_check_def)
  qed
qed

lemma upsert_safe4:
  "safe 4 s0 s \<Longrightarrow> S ''github_check_run_id'' \<notin> fst ` set u \<Longrightarrow> safe 0 s0 (upsert_step_manifest s i u)"
  by (rule safe_upsert [OF safe_mono [of 4 s0 s "Suc 0"]]) simp_all

lemma trace_op_safe: "trace_op s s' \<Longrightarrow> safe 4 s s \<Longrightarrow> safe 0 s s'"
proof (induction rule: trace_op.induct)
  case (provision env s job head_sha s' r)
  then show ?case by (intro provision_safe)
next
  case (ensure s job head_sha s' p)
  have "safe (Suc 0) s s" using ensure(2) by (rule safe_mono) simp
  then show ?case using ensure(1) by (rule ensure_safe)
next
  case (link_review s p run_id)
  then have "safe 0 s s" by (rule safe_mono) simp
  then show ?case unfolding link_review_run_to_pipeline_def by (rule safe_frame) simp_all
next
  case (link_publish s p job_id)
  then have "safe 0 s s" by (rule safe_mono) simp
  then show ?case unfolding link_publish_job_to_pipeline_def by (rule safe_frame) simp_all
next
  case (start env s p s' r)
  show ?case by (rule safe_only_checks [OF start_session [OF start(1)] safe_mono [OF start(2)]]) simp
next
  case (refresh env s k summary s' r')
  show ?case by (rule safe_only_checks [OF refresh_session [OF refresh(1)] safe_mono [OF refresh(2)]]) simp
next
  case (finalize env s k summary conclusion s' r')
  have "safe 0 s s" using finalize(2) by (rule safe_mono) simp
  from safe_only_checks [OF finalize_session [OF finalize(1)] safe_snapshot [OF this]] show ?case .
next
  case (index c s k job stats d)
  have "safe (Suc (Suc 0)) s s" using index(2) by (rule safe_mono) simp
  then show ?case using index(1) by (rule record_index_safe)
next
  case (retrieve s k manifest d)
  then show ?case by (intro retrieve_safe safe_mono [of 4 s s 3]) simp_all
next
  case (resolution s k r)
  have u: "safe 0 s (upsert_step_manifest s i [(S ''resolution_pass'', r)])" for i
    by (rule upsert_safe4 [OF resolution]) (simp add: S_def)
  have "safe 0 s s" using resolution by (rule safe_mono) simp
  with u show ?case by (simp add: record_resolution_pass_on_reconcile_step_def split: option.splits)
next
  case (superseded s now run_id)
  have u: "safe 0 s (upsert_step_manifest s i [(S ''generation_superseded_at'', JStr now)])" for i
    by (rule upsert_safe4 [OF superseded]) (simp add: S_def)
  have "safe 0 s s" using superseded by (rule safe_mono) simp
  with u show ?case by (simp add: record_generation_superseded_on_pipeline_def split: option.splits)
next
  case (skipped key s run_id)
  then show ?case by (intro skip_safe)
qed (rule review_safe reconcile_safe judge_safe publish_safe, assumption)+

lemma find_append_new: "List.find p xs = None \<Longrightarrow> p x \<Longrightarrow> List.find p (xs @ [x]) = Some x"
  by (induction xs) (auto split: if_splits)

lemma stash_runs: "ss_pipeline_runs (stash_pipeline_github_check_run_id s k c) = ss_pipeline_runs s"
  by (simp add: stash_pipeline_github_check_run_id_def create_completed_step_def upsert_step_manifest_def
      write_manifest_def put_artifact_def add_step_artifact_def tick_def Let_def split: option.splits)

lemma stash_rows:
  "ss_checks (stash_pipeline_github_check_run_id s k c) = ss_checks s"
  "ss_revisions (stash_pipeline_github_check_run_id s k c) = ss_revisions s"
  "ss_pull_requests (stash_pipeline_github_check_run_id s k c) = ss_pull_requests s"
  "ss_repositories (stash_pipeline_github_check_run_id s k c) = ss_repositories s"
  "ss_installations (stash_pipeline_github_check_run_id s k c) = ss_installations s"
  by (simp_all add: stash_pipeline_github_check_run_id_def create_completed_step_def upsert_step_manifest_def
      write_manifest_def put_artifact_def add_step_artifact_def tick_def Let_def split: option.splits)

lemma stash_gets:
  "get_revision (stash_pipeline_github_check_run_id s k c) = get_revision s"
  "get_pull_request (stash_pipeline_github_check_run_id s k c) = get_pull_request s"
  "get_repository (stash_pipeline_github_check_run_id s k c) = get_repository s"
  "get_installation (stash_pipeline_github_check_run_id s k c) = get_installation s"
  by (simp_all add: fun_eq_iff session_gets stash_rows)

subsection \<open>Properties\<close>

text \<open>The check-run identifier of a pipeline run, once stashed, can always be found again: stashing and
  resolving is a round trip from any database, and no later sequence of operations on the trace, of this
  or any other run, loses or changes it (they also keep the primary keys unique).\<close>

theorem check_run_id_survives:
  assumes "trace_wf (stash_pipeline_github_check_run_id s k c)"
    and "trace_reach (stash_pipeline_github_check_run_id s k c) s'"
  shows "resolve_pipeline_github_check_run_id s' k = Some c \<and> trace_wf s'"
  using assms(2,1)
proof (induction "stash_pipeline_github_check_run_id s k c" s' rule: trace_reach.induct)
  case start
  then show ?case using resolve_stash by simp
next
  case (step s1 s2)
  then have "resolve_pipeline_github_check_run_id s1 k = Some c" "trace_wf s1" by simp_all
  moreover have "safe 0 s1 s2"
    using step(3,4) \<open>trace_wf s1\<close> by (intro trace_op_safe) (simp_all add: safe_refl)
  ultimately show ?case by (simp add: safe_def keeps_checks_def)
qed

definition demo_pipeline :: pipeline_run where
  "demo_pipeline = \<lparr>pl_id = 50, pl_workspace_id = 3, pl_revision_id = 2, pl_head_sha = S ''bb'',
     pl_index_mode = Mode_full, pl_index_job_id = Some 60, pl_review_run_id = Some 1,
     pl_publish_job_id = None, pl_models_snapshot = None\<rparr>"

theorem check_run_id_survives_witness:
  "resolve_pipeline_github_check_run_id
     (record_publish_skip_on_pipeline
        (stash_pipeline_github_check_run_id (demo_session\<lparr>ss_pipeline_runs := [demo_pipeline]\<rparr>) 50 77)
        1 (S ''skipped_not_head'')) 50 = Some 77"
proof -
  let ?s = "stash_pipeline_github_check_run_id (demo_session\<lparr>ss_pipeline_runs := [demo_pipeline]\<rparr>) 50 77"
  have w: "trace_wf ?s" and f: "fresh_supply 4 ?s"
    by (simp_all add: trace_wf_def fresh_supply_def coming_ids_def stash_pipeline_github_check_run_id_def
        get_index_pipeline_step_def create_completed_step_def upsert_step_manifest_def write_manifest_def
        get_step_manifest_artifact_def add_step_artifact_def tick_def tbl_add_def next_uuid_def demo_defs
        Let_def upt_rec)
  have "trace_op ?s (record_publish_skip_on_pipeline ?s 1 (S ''skipped_not_head''))"
    by (rule trace_op.skipped) (simp add: S_def)
  from trace_reach.step [OF trace_reach.start f this] check_run_id_survives [OF w] show ?thesis by blast
qed

text \<open>A check run is created at most once for a queued index job: when provisioning has returned an
  identifier, provisioning the job again returns the same identifier, sends no request and changes
  nothing.\<close>

theorem provision_check_once:
  assumes "provision_queued_pipeline_github_check env s job head = (s', Inr (Some c))"
  shows "provision_queued_pipeline_github_check env' s' job head' =
    (s', Inr (if ce_enabled env' then Some c else None))"
proof -
  obtain s1 p where e: "ensure_pipeline_run_for_index_job s job head = (s1, p)" by fastforce
  have run: "get_pipeline_run_for_index_job s1 (ij_id job) = Some p"
  proof (cases "get_pipeline_run_for_index_job s (ij_id job)")
    case None
    with e show ?thesis
      by (auto simp: ensure_pipeline_run_for_index_job_def get_pipeline_run_for_index_job_def tick_def
          tbl_add_def find_append_new Let_def)
  qed (use e in \<open>simp add: ensure_pipeline_run_for_index_job_def\<close>)
  have enabled: "ce_enabled env"
    using assms by (auto simp: provision_queued_pipeline_github_check_def split: if_splits)
  have "resolve_pipeline_github_check_run_id s' (pl_id p) = Some c \<and> ss_pipeline_runs s' = ss_pipeline_runs s1"
  proof (cases "resolve_pipeline_github_check_run_id s1 (pl_id p)")
    case (Some d)
    with assms enabled e show ?thesis by (simp add: provision_queued_pipeline_github_check_def)
  next
    case None
    with assms enabled e obtain cx s2 where
      cr: "create_in_progress env s1 cx QUEUED_CHECK_SUMMARY = (s2, Inr (Some c))"
      and s': "s' = stash_pipeline_github_check_run_id s2 (pl_id p) c"
      by (auto simp: provision_queued_pipeline_github_check_def split: sum.splits option.splits prod.splits)
    from create_in_progress_session [OF cr] have "ss_pipeline_runs s2 = ss_pipeline_runs s1"
      by (auto simp: only_checks_def)
    then show ?thesis by (simp add: s' resolve_stash stash_runs)
  qed
  moreover have "get_pipeline_run_for_index_job s' (ij_id job) = Some p" if "ss_pipeline_runs s' = ss_pipeline_runs s1"
    using run that by (simp add: get_pipeline_run_for_index_job_def)
  ultimately show ?thesis
    by (simp add: provision_queued_pipeline_github_check_def ensure_pipeline_run_for_index_job_def)
qed

definition demo_check_env :: check_env where
  "demo_check_env = \<lparr>ce_enabled = True,
     ce_send = (\<lambda>ch i c. Inr \<lparr>hr_status = 201, hr_body = Some (JObj [(S ''id'', JInt 77)])\<rparr>)\<rparr>"

definition demo_repo_rows :: session where
  "demo_repo_rows = demo_session\<lparr>
     ss_repositories := [\<lparr>repo_id = 5, repo_installation_id = 6, repo_workspace_id = 3, repo_github_repository_id = 70, repo_name = S ''r'', repo_full_name = S ''o/r'',
     repo_default_branch = None, repo_private = False, repo_html_url = None, repo_status = Repo_active\<rparr>],
     ss_installations := [\<lparr>inst_id = 6, inst_workspace_id = 3, inst_github_installation_id = 9, inst_account_login = S ''o'', inst_account_type = Account_user,
     inst_account_id = 8, inst_status = Inst_active, inst_permissions_snapshot = None, inst_verified_at = None\<rparr>],
     ss_pipeline_runs := [demo_pipeline]\<rparr>"

lemma demo_context:
  "pl_revision_id p = 2 \<Longrightarrow> pipeline_check_repo_context demo_repo_rows p =
     Inr (Some \<lparr>cx_installation = 9, cx_owner = S ''o'', cx_repo = S ''r'', cx_head_sha = pl_head_sha p, cx_number = 17\<rparr>)"
  by (simp add: pipeline_check_repo_context_def demo_repo_rows_def session_gets tbl_get_def demo_defs
      py_split1_def S_def py_find.simps py_startswith_def)

definition demo_job :: index_job where
  "demo_job = \<lparr>ij_id = 60, ij_revision_id = 2, ij_workspace_id = 3, ij_status = IJ_pending,
     ij_error_message = None, ij_trigger_source = Trig_manual, ij_index_mode = Mode_full, ij_chunk_count = None,
     ij_fallback_reason = None, ij_warning_message = None, ij_index_incremental = True, ij_created_at = 30\<rparr>"

lemma demo_provision:
  "\<exists>s'. provision_queued_pipeline_github_check demo_check_env demo_repo_rows demo_job (S ''bb'') = (s', Inr (Some 77))"
proof -
  have e: "ensure_pipeline_run_for_index_job demo_repo_rows demo_job (S ''bb'') = (demo_repo_rows, demo_pipeline)"
    by (simp add: ensure_pipeline_run_for_index_job_def get_pipeline_run_for_index_job_def demo_repo_rows_def
        demo_job_def demo_pipeline_def)
  have r: "resolve_pipeline_github_check_run_id demo_repo_rows k = None" for k
    by (simp add: resolve_alt get_index_pipeline_step_def demo_repo_rows_def demo_defs)
  have "\<exists>s'. create_in_progress demo_check_env demo_repo_rows cx summary = (s', Inr (Some 77))" for cx summary
    by (simp add: create_in_progress_def create_check_run_def send_check_def demo_check_env_def is_success_def
        created_check_id_def except_http_def Let_def)
  then obtain s' where "create_in_progress demo_check_env demo_repo_rows
      \<lparr>cx_installation = 9, cx_owner = S ''o'', cx_repo = S ''r'', cx_head_sha = S ''bb'', cx_number = 17\<rparr>
      QUEUED_CHECK_SUMMARY = (s', Inr (Some 77))" by blast
  then show ?thesis
    using demo_context [of demo_pipeline]
    by (simp add: provision_queued_pipeline_github_check_def e r demo_check_env_def [THEN arg_cong [where f = ce_enabled]]
        demo_pipeline_def)
qed

theorem provision_check_once_witness:
  "\<exists>s'. provision_queued_pipeline_github_check demo_check_env demo_repo_rows demo_job (S ''bb'') = (s', Inr (Some 77)) \<and>
     provision_queued_pipeline_github_check demo_check_env s' demo_job (S ''bb'') = (s', Inr (Some 77))"
proof -
  obtain s' where s': "provision_queued_pipeline_github_check demo_check_env demo_repo_rows demo_job (S ''bb'') =
      (s', Inr (Some 77))" using demo_provision by blast
  from provision_check_once [OF s', of demo_check_env "S ''bb''"] s' show ?thesis
    by (simp add: demo_check_env_def [THEN arg_cong [where f = ce_enabled]])
qed

text \<open>Where a conclusion is sent: the check run of the pipeline run, when the API is enabled and the rows
  of its repository are complete.\<close>

definition check_target :: "check_env \<Rightarrow> session \<Rightarrow> uuid \<Rightarrow> (check_context \<times> int) option" where
  "check_target env s k =
     (case (resolve_pipeline_github_check_run_id s k, get_pipeline_run s k) of
        (Some c, Some p) \<Rightarrow>
          if ce_enabled env then
            (case pipeline_check_repo_context s p of Inr (Some cx) \<Rightarrow> Some (cx, c) | _ \<Rightarrow> None)
          else None
      | _ \<Rightarrow> None)"

lemma with_check_sends:
  assumes "with_check env s k request = (s', r)"
    and "\<And>cx c s1 r1. request cx c = (s1, r1) \<Longrightarrow> \<exists>ok. s1 = s\<lparr>ss_checks := ss_checks s @ [(call cx c, ok)]\<rparr>"
  shows "\<exists>ok. s' = s\<lparr>ss_checks := ss_checks s @
      (case check_target env s k of None \<Rightarrow> [] | Some (cx, c) \<Rightarrow> [(call cx c, ok)])\<rparr> \<and>
    (check_target env s k \<noteq> None \<longrightarrow> (\<forall>e. r = Inl e \<longrightarrow> \<not> is_http_error e))"
proof (cases "check_target env s k")
  case None
  with assms(1) have "s' = s"
    by (auto simp: with_check_def check_target_def split: option.splits if_splits sum.splits prod.splits)
  with None show ?thesis by simp
next
  case (Some t)
  obtain cx c where t: "t = (cx, c)" by fastforce
  obtain s1 r1 where q: "request cx c = (s1, r1)" by fastforce
  have "s' = s1 \<and> r = except_http () r1"
    using assms(1) Some t q
    by (auto simp: with_check_def check_target_def split: option.splits if_splits sum.splits prod.splits)
  with assms(2) [OF q] Some t show ?thesis by (auto simp: except_http_def split: sum.splits if_splits)
qed

lemma try_persist_get:
  "get_pipeline_run (try_persist_models_snapshot s j) k =
     map_option (\<lambda>p. if k = j \<and> pl_models_snapshot p = None then p\<lparr>pl_models_snapshot := snapshot_of s j\<rparr> else p)
       (get_pipeline_run s k)"
proof (cases "get_pipeline_run s j")
  case None
  then have "try_persist_models_snapshot s j = s" by (simp add: try_persist_models_snapshot_def write_models_snapshot_def)
  with None show ?thesis by (cases "get_pipeline_run s k") auto
next
  case (Some p)
  show ?thesis
  proof (cases "pl_models_snapshot p")
    case (Some x)
    with \<open>get_pipeline_run s j = Some p\<close> show ?thesis
      by (cases "get_pipeline_run s k") (auto simp: try_persist_models_snapshot_def)
  next
    case none: None
    with Some write_snapshot_get [OF Some, of k] show ?thesis
      by (cases "get_pipeline_run s k") (auto simp: try_persist_models_snapshot_def)
  qed
qed

lemma try_persist_rows [simp]:
  "get_revision (try_persist_models_snapshot s j) = get_revision s"
  "get_pull_request (try_persist_models_snapshot s j) = get_pull_request s"
  "get_repository (try_persist_models_snapshot s j) = get_repository s"
  "get_installation (try_persist_models_snapshot s j) = get_installation s"
  "ss_checks (try_persist_models_snapshot s j) = ss_checks s"
  "ss_review_runs (try_persist_models_snapshot s j) = ss_review_runs s"
  "ss_index_jobs (try_persist_models_snapshot s j) = ss_index_jobs s"
  by (simp_all add: fun_eq_iff try_persist_models_snapshot_def write_models_snapshot_def put_pipeline_run_def
      session_gets Let_def split: option.split)

lemma check_target_snapshot: "check_target env (try_persist_models_snapshot s j) k = check_target env s k"
proof -
  let ?s = "try_persist_models_snapshot s j"
  have r: "resolve_pipeline_github_check_run_id ?s k = resolve_pipeline_github_check_run_id s k"
    by (rule resolve_cong)
       (simp_all add: try_persist_models_snapshot_def write_snapshot_frame split: option.split)
  have cx: "pipeline_check_repo_context ?s p = pipeline_check_repo_context s p" for p
    by (simp only: pipeline_check_repo_context_def try_persist_rows)
  have cx': "pipeline_check_repo_context s (p\<lparr>pl_models_snapshot := x\<rparr>) = pipeline_check_repo_context s p" for p x
  proof -
    have "pl_head_sha (p\<lparr>pl_models_snapshot := x\<rparr>) = pl_head_sha p"
      "pl_revision_id (p\<lparr>pl_models_snapshot := x\<rparr>) = pl_revision_id p" by simp_all
    then show ?thesis unfolding pipeline_check_repo_context_def by (simp only:)
  qed
  show ?thesis
    by (cases "resolve_pipeline_github_check_run_id s k"; cases "get_pipeline_run s k")
       (simp_all add: check_target_def r cx cx' try_persist_get)
qed

lemma finalize_sends:
  assumes "finalize_pipeline_github_check env s k summary conclusion = (s', r)"
  shows "\<exists>ok. s' = (try_persist_models_snapshot s k)\<lparr>ss_checks := ss_checks s @
      (case check_target env s k of
         None \<Rightarrow> []
       | Some (cx, c) \<Rightarrow> [(Check_patch (check_run_url (cx_owner cx) (cx_repo cx) c) (concluded conclusion summary), ok)])\<rparr> \<and>
    (check_target env s k \<noteq> None \<longrightarrow> (\<forall>e. r = Inl e \<longrightarrow> \<not> is_http_error e))"
proof -
  let ?s = "try_persist_models_snapshot s k"
  let ?call = "\<lambda>cx c. Check_patch (check_run_url (cx_owner cx) (cx_repo cx) c) (concluded conclusion summary)"
  have send: "\<exists>ok. s1 = ?s\<lparr>ss_checks := ss_checks ?s @ [(?call cx c, ok)]\<rparr>"
    if "update_check_run env ?s (cx_installation cx) (cx_owner cx) (cx_repo cx) c conclusion summary = (s1, r1)"
    for cx c s1 r1
    using that by (auto simp: update_check_run_def send_check_def Let_def)
  from with_check_sends [OF assms [unfolded finalize_pipeline_github_check_def Let_def] send]
  show ?thesis by (simp add: check_target_snapshot)
qed

text \<open>Concluding a check sends exactly one request, the given conclusion for the check run of the
  pipeline run, or none when there is no such check run, and otherwise only writes the models snapshot;
  a failing API does not stop the caller.\<close>

theorem finalize_check_exact:
  assumes "finalize_pipeline_github_check env s k summary conclusion = (s', r)"
  shows "\<exists>ok. s' = (try_persist_models_snapshot s k)\<lparr>ss_checks := ss_checks s @
      (case check_target env s k of
         None \<Rightarrow> []
       | Some (cx, c) \<Rightarrow> [(Check_patch (check_run_url (cx_owner cx) (cx_repo cx) c) (concluded conclusion summary), ok)])\<rparr> \<and>
    (check_target env s k \<noteq> None \<longrightarrow> (\<forall>e. r = Inl e \<longrightarrow> \<not> is_http_error e))"
  using assms by (rule finalize_sends)

theorem finalize_check_exact_witness:
  "\<exists>ok. ss_checks (fst (finalize_pipeline_github_check demo_check_env
       (stash_pipeline_github_check_run_id demo_repo_rows 50 77) 50 (S ''gone'') (S ''neutral''))) =
     [(Check_patch (check_run_url (S ''o'') (S ''r'') 77) (concluded (S ''neutral'') (S ''gone'')), ok)]"
proof -
  let ?s = "stash_pipeline_github_check_run_id demo_repo_rows 50 77"
  obtain s' r where f: "finalize_pipeline_github_check demo_check_env ?s 50 (S ''gone'') (S ''neutral'') = (s', r)"
    by fastforce
  have "ss_checks ?s = []" by (simp add: stash_rows demo_repo_rows_def demo_defs)
  moreover have "pipeline_check_repo_context ?s p = pipeline_check_repo_context demo_repo_rows p" for p
    by (simp only: pipeline_check_repo_context_def stash_gets)
  then have "\<exists>cx. check_target demo_check_env ?s 50 = Some (cx, 77) \<and> cx_owner cx = S ''o'' \<and> cx_repo cx = S ''r''"
    using demo_context [of demo_pipeline]
    by (simp add: check_target_def resolve_stash get_pipeline_run_def stash_runs tbl_get_def demo_pipeline_def
        demo_check_env_def) (simp add: demo_repo_rows_def demo_pipeline_def)
  ultimately show ?thesis using finalize_check_exact [OF f] f by auto
qed

end
