(* ===== verification/Generations.thy ===== *)
theory Generations
  imports Pipeline_Laws
begin

section \<open>Generations of a review (\<open>services/github_generation_lifecycle.py\<close>)\<close>

text \<open>
  A generation is the index job and the review run of one revision.  A new revision, or a new command for
  the head, supersedes the generations in flight: their review runs become \<open>superseded\<close>, their
  index jobs \<open>failed\<close>, each by an update that only applies while the row is pending or processing, and
  their check runs are concluded as neutral.  \<open>now\<close> is the ISO form of the current time.  Logging is
  left out.
\<close>

subsection \<open>Reading\<close>

definition ACTIVE_REVIEW_RUN_STATUSES :: "review_run_status list" where
  "ACTIVE_REVIEW_RUN_STATUSES = [RR_pending, RR_processing]"

definition ACTIVE_INDEX_JOB_STATUSES :: "index_job_status list" where
  "ACTIVE_INDEX_JOB_STATUSES = [IJ_pending, IJ_processing]"

definition is_authoritative_for_pull_request_head :: "session \<Rightarrow> uuid \<Rightarrow> bool" where
  "is_authoritative_for_pull_request_head s rv_id =
     (case get_revision s rv_id of
        None \<Rightarrow> False
      | Some rv \<Rightarrow>
          (case get_pull_request s (rev_pull_request_id rv) of
             None \<Rightarrow> False
           | Some pr \<Rightarrow> rev_head_sha rv = pr_head_sha pr))"

definition is_review_run_superseded :: "review_run \<Rightarrow> bool" where
  "is_review_run_superseded r \<longleftrightarrow> rr_status r = RR_superseded"

definition is_active_run :: "review_run \<Rightarrow> bool" where
  "is_active_run r \<longleftrightarrow> rr_status r \<in> set ACTIVE_REVIEW_RUN_STATUSES"

definition is_active_job :: "index_job \<Rightarrow> bool" where
  "is_active_job j \<longleftrightarrow> ij_status j \<in> set ACTIVE_INDEX_JOB_STATUSES"

text \<open>The revisions of the pull request before the one that is kept, none when it is not one of them.\<close>

definition older_revision_ids :: "session \<Rightarrow> uuid \<Rightarrow> uuid \<Rightarrow> uuid list" where
  "older_revision_ids s pull_request_id keep_revision_id =
     (case get_revision s keep_revision_id of
        None \<Rightarrow> []
      | Some keep \<Rightarrow>
          if rev_pull_request_id keep \<noteq> pull_request_id then []
          else map rev_id (filter (\<lambda>rv. rev_pull_request_id rv = pull_request_id \<and>
                                       rev_number rv < rev_number keep) (ss_revisions s)))"

subsection \<open>Review runs\<close>

text \<open>One conditional update per identifier; those that applied are returned.\<close>

fun mark_review_run_ids_superseded_cas :: "session \<Rightarrow> uuid list \<Rightarrow> session \<times> uuid list" where
  "mark_review_run_ids_superseded_cas s [] = (s, [])"
| "mark_review_run_ids_superseded_cas s (k # ks) =
     (let hit = (\<lambda>r. rr_id r = k \<and> is_active_run r);
          n = count_if hit (ss_review_runs s);
          s = s\<lparr>ss_review_runs := tbl_map hit (rr_status_update (\<lambda>_. RR_superseded)) (ss_review_runs s)\<rparr>;
          (s, done_ids) = mark_review_run_ids_superseded_cas s ks
      in (s, if n = 0 then done_ids else k # done_ids))"

definition mark_review_runs_superseded_for_pull_request ::
  "session \<Rightarrow> uuid \<Rightarrow> uuid \<Rightarrow> session \<times> uuid list" where
  "mark_review_runs_superseded_for_pull_request s pull_request_id keep_revision_id =
     mark_review_run_ids_superseded_cas s
       (map rr_id (filter (\<lambda>r. rr_revision_id r \<in> set (older_revision_ids s pull_request_id keep_revision_id) \<and>
                              is_active_run r) (ss_review_runs s)))"

definition mark_active_review_runs_superseded_for_revision :: "session \<Rightarrow> uuid \<Rightarrow> session \<times> uuid list" where
  "mark_active_review_runs_superseded_for_revision s revision_id =
     (case get_revision s revision_id of
        None \<Rightarrow> (s, [])
      | Some rv \<Rightarrow>
          mark_review_run_ids_superseded_cas s
            (map rr_id (filter (\<lambda>r. rr_revision_id r = revision_id \<and> is_active_run r) (ss_review_runs s))))"

fun finalize_pipeline_checks_for_superseded_review_runs ::
  "check_env \<Rightarrow> pystr \<Rightarrow> session \<Rightarrow> uuid list \<Rightarrow> session \<times> (exn + unit)" where
  "finalize_pipeline_checks_for_superseded_review_runs env now s [] = (s, Inr ())"
| "finalize_pipeline_checks_for_superseded_review_runs env now s (k # ks) =
     (let s = record_generation_superseded_on_pipeline now s k
      in case get_pipeline_run_for_review_run s k of
           None \<Rightarrow> finalize_pipeline_checks_for_superseded_review_runs env now s ks
         | Some p \<Rightarrow>
             (case finalize_pipeline_github_check_neutral env s (pl_id p) SUPERSEDED_CHECK_SUMMARY of
                (s, Inl e) \<Rightarrow> (s, Inl e)
              | (s, Inr u) \<Rightarrow> finalize_pipeline_checks_for_superseded_review_runs env now s ks))"

subsection \<open>Index jobs\<close>

definition supersede_job :: "index_job \<Rightarrow> index_job" where
  "supersede_job j = j\<lparr>ij_status := IJ_failed, ij_error_message := Some SUPERSEDED_CHECK_SUMMARY\<rparr>"

definition mark_index_job_ids_superseded_cas :: "session \<Rightarrow> uuid list \<Rightarrow> session \<times> uuid list" where
  "mark_index_job_ids_superseded_cas s job_ids =
     (let hit = (\<lambda>j. ij_id j \<in> set job_ids \<and> is_active_job j)
      in (s\<lparr>ss_index_jobs := tbl_map hit supersede_job (ss_index_jobs s)\<rparr>,
          map ij_id (filter hit (ss_index_jobs s))))"

definition mark_index_jobs_superseded_for_pull_request ::
  "session \<Rightarrow> uuid \<Rightarrow> uuid \<Rightarrow> session \<times> uuid list" where
  "mark_index_jobs_superseded_for_pull_request s pull_request_id keep_revision_id =
     mark_index_job_ids_superseded_cas s
       (map ij_id (filter (\<lambda>j. ij_revision_id j \<in> set (older_revision_ids s pull_request_id keep_revision_id) \<and>
                              is_active_job j) (ss_index_jobs s)))"

definition mark_active_index_jobs_superseded_for_revision :: "session \<Rightarrow> uuid \<Rightarrow> session \<times> uuid list" where
  "mark_active_index_jobs_superseded_for_revision s revision_id =
     mark_index_job_ids_superseded_cas s
       (map ij_id (filter (\<lambda>j. ij_revision_id j = revision_id \<and> is_active_job j) (ss_index_jobs s)))"

text \<open>A dictionary from jobs to pipeline runs: of several runs of a job the last one stays.\<close>

definition get_pipeline_runs_for_index_jobs :: "session \<Rightarrow> uuid list \<Rightarrow> uuid \<Rightarrow> pipeline_run option" where
  "get_pipeline_runs_for_index_jobs s job_ids k =
     (if k \<in> set job_ids then List.find (\<lambda>p. pl_index_job_id p = Some k) (rev (ss_pipeline_runs s)) else None)"

fun finalize_index_checks ::
  "check_env \<Rightarrow> (uuid \<Rightarrow> pipeline_run option) \<Rightarrow> session \<Rightarrow> uuid list \<Rightarrow> session \<times> (exn + unit)" where
  "finalize_index_checks env runs s [] = (s, Inr ())"
| "finalize_index_checks env runs s (k # ks) =
     (case runs k of
        None \<Rightarrow> finalize_index_checks env runs s ks
      | Some p \<Rightarrow>
          (case finalize_pipeline_github_check_neutral env s (pl_id p) SUPERSEDED_CHECK_SUMMARY of
             (s, Inl e) \<Rightarrow> (s, Inl e)
           | (s, Inr u) \<Rightarrow> finalize_index_checks env runs s ks))"

definition finalize_pipeline_checks_for_superseded_index_jobs ::
  "check_env \<Rightarrow> session \<Rightarrow> uuid list \<Rightarrow> session \<times> (exn + unit)" where
  "finalize_pipeline_checks_for_superseded_index_jobs env s job_ids =
     finalize_index_checks env (get_pipeline_runs_for_index_jobs s job_ids) s job_ids"

subsection \<open>Superseding\<close>

record supersede_outcome =
  so_review_run_ids :: "uuid list"
  so_index_job_ids :: "uuid list"

definition conclude_superseded ::
  "check_env \<Rightarrow> pystr \<Rightarrow> session \<Rightarrow> uuid list \<Rightarrow> uuid list \<Rightarrow> session \<times> (exn + supersede_outcome)" where
  "conclude_superseded env now s run_ids job_ids =
     (case finalize_pipeline_checks_for_superseded_review_runs env now s run_ids of
        (s, Inl e) \<Rightarrow> (s, Inl e)
      | (s, Inr u) \<Rightarrow>
          (case finalize_pipeline_checks_for_superseded_index_jobs env s job_ids of
             (s, Inl e) \<Rightarrow> (s, Inl e)
           | (s, Inr u) \<Rightarrow> (s, Inr \<lparr>so_review_run_ids = run_ids, so_index_job_ids = job_ids\<rparr>)))"

definition supersede_stale_generations_for_new_revision ::
  "check_env \<Rightarrow> pystr \<Rightarrow> session \<Rightarrow> uuid \<Rightarrow> uuid \<Rightarrow> session \<times> (exn + supersede_outcome)" where
  "supersede_stale_generations_for_new_revision env now s pull_request_id keep_revision_id =
     (let (s, run_ids) = mark_review_runs_superseded_for_pull_request s pull_request_id keep_revision_id;
          (s, job_ids) = mark_index_jobs_superseded_for_pull_request s pull_request_id keep_revision_id
      in conclude_superseded env now s run_ids job_ids)"

definition supersede_active_generations_for_revision ::
  "check_env \<Rightarrow> pystr \<Rightarrow> session \<Rightarrow> uuid \<Rightarrow> session \<times> (exn + supersede_outcome)" where
  "supersede_active_generations_for_revision env now s revision_id =
     (let (s, run_ids) = mark_active_review_runs_superseded_for_revision s revision_id;
          (s, job_ids) = mark_active_index_jobs_superseded_for_revision s revision_id
      in conclude_superseded env now s run_ids job_ids)"

subsection \<open>What the updates change\<close>

definition supersede_run :: "review_run \<Rightarrow> review_run" where
  "supersede_run r = r\<lparr>rr_status := RR_superseded\<rparr>"

lemma supersede_run_facts [simp]:
  "rr_id (supersede_run r) = rr_id r" "rr_revision_id (supersede_run r) = rr_revision_id r"
  "\<not> is_active_run (supersede_run r)"
  by (simp_all add: supersede_run_def is_active_run_def ACTIVE_REVIEW_RUN_STATUSES_def)

lemma supersede_job_facts [simp]:
  "ij_id (supersede_job j) = ij_id j" "ij_revision_id (supersede_job j) = ij_revision_id j"
  "\<not> is_active_job (supersede_job j)"
  by (simp_all add: supersede_job_def is_active_job_def ACTIVE_INDEX_JOB_STATUSES_def)

lemma tbl_map_map: "(\<And>r. p' (f r) = False) \<Longrightarrow>
    tbl_map p' f (tbl_map p f t) = tbl_map (\<lambda>r. p r \<or> p' r) f t"
  by (auto simp: tbl_map_def)

lemma count_if_zero: "count_if p xs = 0 \<longleftrightarrow> (\<forall>x\<in>set xs. \<not> p x)"
  by (simp add: count_if_def filter_empty_conv)

lemma cas_result:
  "mark_review_run_ids_superseded_cas s ks = (s', ids) \<Longrightarrow>
     s' = s\<lparr>ss_review_runs := tbl_map (\<lambda>r. rr_id r \<in> set ks \<and> is_active_run r) supersede_run (ss_review_runs s)\<rparr> \<and>
     set ids = {k \<in> set ks. \<exists>r\<in>set (ss_review_runs s). rr_id r = k \<and> is_active_run r}"
proof (induction ks arbitrary: s s' ids)
  case Nil
  then show ?case by (simp add: tbl_map_def)
next
  case (Cons k ks)
  let ?hit = "\<lambda>r. rr_id r = k \<and> is_active_run r"
  let ?s = "s\<lparr>ss_review_runs := tbl_map ?hit supersede_run (ss_review_runs s)\<rparr>"
  have sup: "rr_status_update (\<lambda>_. RR_superseded) = supersede_run" by (simp add: supersede_run_def fun_eq_iff)
  obtain done_ids where d: "mark_review_run_ids_superseded_cas ?s ks = (s', done_ids)"
    and ids: "ids = (if count_if ?hit (ss_review_runs s) = 0 then done_ids else k # done_ids)"
    using Cons.prems by (auto simp: sup Let_def split: prod.splits)
  from Cons.IH [OF d]
  have s': "s' = ?s\<lparr>ss_review_runs := tbl_map (\<lambda>r. rr_id r \<in> set ks \<and> is_active_run r) supersede_run (ss_review_runs ?s)\<rparr>"
    and di: "set done_ids = {j \<in> set ks. \<exists>r\<in>set (ss_review_runs ?s). rr_id r = j \<and> is_active_run r}" by simp_all
  have after: "(\<exists>r\<in>set (ss_review_runs ?s). rr_id r = j \<and> is_active_run r) \<longleftrightarrow>
      j \<noteq> k \<and> (\<exists>r\<in>set (ss_review_runs s). rr_id r = j \<and> is_active_run r)" for j
  proof
    assume "\<exists>r\<in>set (ss_review_runs ?s). rr_id r = j \<and> is_active_run r"
    then obtain q where "q \<in> set (ss_review_runs s)" "rr_id (if ?hit q then supersede_run q else q) = j"
      "is_active_run (if ?hit q then supersede_run q else q)" by (auto simp: tbl_map_set)
    then show "j \<noteq> k \<and> (\<exists>r\<in>set (ss_review_runs s). rr_id r = j \<and> is_active_run r)"
      by (cases "?hit q") auto
  next
    assume "j \<noteq> k \<and> (\<exists>r\<in>set (ss_review_runs s). rr_id r = j \<and> is_active_run r)"
    then obtain r where "j \<noteq> k" "r \<in> set (ss_review_runs s)" "rr_id r = j" "is_active_run r" by blast
    moreover from this have "r \<in> set (ss_review_runs ?s)" by (force simp: tbl_map_set)
    ultimately show "\<exists>r\<in>set (ss_review_runs ?s). rr_id r = j \<and> is_active_run r" by blast
  qed
  have "set done_ids = {j \<in> set ks. j \<noteq> k \<and> (\<exists>r\<in>set (ss_review_runs s). rr_id r = j \<and> is_active_run r)}"
    unfolding di using after by blast
  then have "set ids = {j \<in> set (k # ks). \<exists>r\<in>set (ss_review_runs s). rr_id r = j \<and> is_active_run r}"
    unfolding ids count_if_zero by auto
  moreover have "s' = s\<lparr>ss_review_runs := tbl_map (\<lambda>r. rr_id r \<in> set (k # ks) \<and> is_active_run r) supersede_run (ss_review_runs s)\<rparr>"
    unfolding s' by (simp add: tbl_map_map) (auto simp: tbl_map_def)
  ultimately show ?case by blast
qed

text \<open>What concluding checks leaves alone, and what it sends.\<close>

definition is_neutral :: "check_call \<times> bool \<Rightarrow> bool" where
  "is_neutral c \<longleftrightarrow> (\<exists>url. fst c = Check_patch url (concluded (S ''neutral'') SUPERSEDED_CHECK_SUMMARY))"

definition neutral_only :: "session \<Rightarrow> session \<Rightarrow> bool" where
  "neutral_only s s' \<longleftrightarrow> ss_review_runs s' = ss_review_runs s \<and> ss_index_jobs s' = ss_index_jobs s \<and>
     ss_revisions s' = ss_revisions s \<and> ss_pull_requests s' = ss_pull_requests s \<and>
     (\<exists>sent. ss_checks s' = ss_checks s @ sent \<and> list_all is_neutral sent)"

lemma neutral_only_refl [simp]: "neutral_only s s"
  by (simp add: neutral_only_def)

lemma neutral_only_trans: "neutral_only s s1 \<Longrightarrow> neutral_only s1 s2 \<Longrightarrow> neutral_only s s2"
  by (auto simp: neutral_only_def)

lemma upsert_frame:
  "ss_review_runs (upsert_step_manifest s i u) = ss_review_runs s"
  "ss_index_jobs (upsert_step_manifest s i u) = ss_index_jobs s"
  "ss_checks (upsert_step_manifest s i u) = ss_checks s"
  "ss_pipeline_runs (upsert_step_manifest s i u) = ss_pipeline_runs s"
  "ss_revisions (upsert_step_manifest s i u) = ss_revisions s"
  "ss_pull_requests (upsert_step_manifest s i u) = ss_pull_requests s"
  "get_revision (upsert_step_manifest s i u) = get_revision s"
  "get_pull_request (upsert_step_manifest s i u) = get_pull_request s"
  "get_repository (upsert_step_manifest s i u) = get_repository s"
  "get_installation (upsert_step_manifest s i u) = get_installation s"
  by (simp_all add: fun_eq_iff upsert_step_manifest_def write_manifest_def put_artifact_def add_step_artifact_def
      tick_def session_gets Let_def split: option.split)

lemma superseded_mark_cases:
  "record_generation_superseded_on_pipeline now s k = s \<or>
     (\<exists>i. record_generation_superseded_on_pipeline now s k =
        upsert_step_manifest s i [(S ''generation_superseded_at'', JStr now)])"
  by (auto simp: record_generation_superseded_on_pipeline_def split: option.splits)

lemma superseded_mark_frame:
  "ss_review_runs (record_generation_superseded_on_pipeline now s k) = ss_review_runs s"
  "ss_index_jobs (record_generation_superseded_on_pipeline now s k) = ss_index_jobs s"
  "ss_checks (record_generation_superseded_on_pipeline now s k) = ss_checks s"
  "ss_pipeline_runs (record_generation_superseded_on_pipeline now s k) = ss_pipeline_runs s"
  "ss_revisions (record_generation_superseded_on_pipeline now s k) = ss_revisions s"
  "ss_pull_requests (record_generation_superseded_on_pipeline now s k) = ss_pull_requests s"
  using superseded_mark_cases [of now s k] by (auto simp: upsert_frame)

text \<open>The request a conclusion sends, by its exact description.\<close>

lemma finalize_neutral_sends:
  assumes "finalize_pipeline_github_check_neutral env s k SUPERSEDED_CHECK_SUMMARY = (s', r)"
  shows "\<exists>ok. s' = (try_persist_models_snapshot s k)\<lparr>ss_checks := ss_checks s @
    (case check_target env s k of None \<Rightarrow> []
     | Some (cx, c) \<Rightarrow> [(Check_patch (check_run_url (cx_owner cx) (cx_repo cx) c)
                          (concluded (S ''neutral'') SUPERSEDED_CHECK_SUMMARY), ok)])\<rparr>"
  using finalize_sends [OF assms [unfolded finalize_pipeline_github_check_neutral_def]] by blast

lemma try_persist_frame [simp]:
  "ss_revisions (try_persist_models_snapshot s k) = ss_revisions s"
  "ss_pull_requests (try_persist_models_snapshot s k) = ss_pull_requests s"
  by (simp_all add: try_persist_models_snapshot_def write_models_snapshot_def put_pipeline_run_def Let_def
      split: option.split)

lemma finalize_neutral_only:
  assumes "finalize_pipeline_github_check_neutral env s k SUPERSEDED_CHECK_SUMMARY = (s', r)"
  shows "neutral_only s s'"
  using finalize_neutral_sends [OF assms]
  by (auto simp: neutral_only_def is_neutral_def split: option.splits prod.splits)

lemma finalize_runs_neutral:
  "finalize_pipeline_checks_for_superseded_review_runs env now s ks = (s', r) \<Longrightarrow> neutral_only s s'"
proof (induction ks arbitrary: s)
  case (Cons k ks)
  let ?s = "record_generation_superseded_on_pipeline now s k"
  have s: "neutral_only s ?s" by (simp add: neutral_only_def superseded_mark_frame)
  show ?case
  proof (cases "get_pipeline_run_for_review_run ?s k")
    case None
    with Cons.prems have "finalize_pipeline_checks_for_superseded_review_runs env now ?s ks = (s', r)"
      by (simp add: Let_def)
    from Cons.IH [OF this] s show ?thesis by (rule neutral_only_trans [rotated])
  next
    case (Some p)
    obtain s1 r1 where f: "finalize_pipeline_github_check_neutral env ?s (pl_id p) SUPERSEDED_CHECK_SUMMARY = (s1, r1)"
      by fastforce
    have s1: "neutral_only s s1" using s finalize_neutral_only [OF f] by (rule neutral_only_trans)
    show ?thesis
    proof (cases r1)
      case (Inl e)
      with Cons.prems Some f s1 show ?thesis by (simp add: Let_def)
    next
      case (Inr u)
      with Cons.prems Some f have "finalize_pipeline_checks_for_superseded_review_runs env now s1 ks = (s', r)"
        by (simp add: Let_def)
      from s1 Cons.IH [OF this] show ?thesis by (rule neutral_only_trans)
    qed
  qed
qed simp

lemma finalize_index_neutral:
  "finalize_index_checks env runs s ks = (s', r) \<Longrightarrow> neutral_only s s'"
proof (induction ks arbitrary: s)
  case (Cons k ks)
  show ?case
  proof (cases "runs k")
    case None
    with Cons show ?thesis by simp
  next
    case (Some p)
    obtain s1 r1 where f: "finalize_pipeline_github_check_neutral env s (pl_id p) SUPERSEDED_CHECK_SUMMARY = (s1, r1)"
      by fastforce
    note s1 = finalize_neutral_only [OF f]
    show ?thesis
    proof (cases r1)
      case (Inl e)
      with Cons.prems Some f s1 show ?thesis by simp
    next
      case (Inr u)
      with Cons.prems Some f have "finalize_index_checks env runs s1 ks = (s', r)" by simp
      from s1 Cons.IH [OF this] show ?thesis by (rule neutral_only_trans)
    qed
  qed
qed simp

lemma conclude_neutral:
  "conclude_superseded env now s run_ids job_ids = (s', r) \<Longrightarrow> neutral_only s s' \<and>
     (\<forall>out. r = Inr out \<longrightarrow> so_review_run_ids out = run_ids \<and> so_index_job_ids out = job_ids)"
  by (auto simp: conclude_superseded_def finalize_pipeline_checks_for_superseded_index_jobs_def
      split: prod.splits sum.splits dest!: finalize_runs_neutral finalize_index_neutral
      intro: neutral_only_trans)

subsection \<open>What superseding does to the rows\<close>

lemma set_ids_filter:
  "distinct (map rid xs) \<Longrightarrow> x \<in> set xs \<Longrightarrow> rid x \<in> set (map rid (filter p xs)) \<longleftrightarrow> p x"
  by (induction xs) (auto simp: rev_image_eqI)

lemma tbl_map_cong_on: "(\<And>r. r \<in> set t \<Longrightarrow> p r = q r) \<Longrightarrow> tbl_map p f t = tbl_map q f t"
  by (auto simp: tbl_map_def)

lemma mark_runs_result:
  assumes "mark_review_run_ids_superseded_cas s (map rr_id (filter (\<lambda>r. pred r \<and> is_active_run r) (ss_review_runs s))) = (s', ids)"
    and "distinct (map rr_id (ss_review_runs s))"
  shows "s' = s\<lparr>ss_review_runs := tbl_map (\<lambda>r. pred r \<and> is_active_run r) supersede_run (ss_review_runs s)\<rparr> \<and>
    set ids = rr_id ` {r \<in> set (ss_review_runs s). pred r \<and> is_active_run r}"
proof -
  let ?ks = "map rr_id (filter (\<lambda>r. pred r \<and> is_active_run r) (ss_review_runs s))"
  note r = cas_result [OF assms(1)]
  have "tbl_map (\<lambda>r. rr_id r \<in> set ?ks \<and> is_active_run r) supersede_run (ss_review_runs s) =
      tbl_map (\<lambda>r. pred r \<and> is_active_run r) supersede_run (ss_review_runs s)"
    using set_ids_filter [OF assms(2), of _ "\<lambda>r. pred r \<and> is_active_run r"] by (intro tbl_map_cong_on) blast
  with r show ?thesis by auto
qed

lemma mark_jobs_result:
  assumes "mark_index_job_ids_superseded_cas s (map ij_id (filter (\<lambda>j. pred j \<and> is_active_job j) (ss_index_jobs s))) = (s', ids)"
    and "distinct (map ij_id (ss_index_jobs s))"
  shows "s' = s\<lparr>ss_index_jobs := tbl_map (\<lambda>j. pred j \<and> is_active_job j) supersede_job (ss_index_jobs s)\<rparr> \<and>
    set ids = ij_id ` {j \<in> set (ss_index_jobs s). pred j \<and> is_active_job j}"
proof -
  let ?ks = "map ij_id (filter (\<lambda>j. pred j \<and> is_active_job j) (ss_index_jobs s))"
  have "tbl_map (\<lambda>j. ij_id j \<in> set ?ks \<and> is_active_job j) supersede_job (ss_index_jobs s) =
      tbl_map (\<lambda>j. pred j \<and> is_active_job j) supersede_job (ss_index_jobs s)"
    using set_ids_filter [OF assms(2), of _ "\<lambda>j. pred j \<and> is_active_job j"] by (intro tbl_map_cong_on) blast
  with assms(1) show ?thesis
    by (auto simp: mark_index_job_ids_superseded_cas_def Let_def)
qed

text \<open>The revisions a new revision makes stale.\<close>

definition stale_revision :: "session \<Rightarrow> uuid \<Rightarrow> uuid \<Rightarrow> uuid \<Rightarrow> bool" where
  "stale_revision s pull_request_id keep k \<longleftrightarrow>
     (\<exists>kept rv. get_revision s keep = Some kept \<and> rev_pull_request_id kept = pull_request_id \<and>
        rv \<in> set (ss_revisions s) \<and> rev_id rv = k \<and> rev_pull_request_id rv = pull_request_id \<and>
        rev_number rv < rev_number kept)"

lemma older_revision_ids_iff: "k \<in> set (older_revision_ids s pr keep) \<longleftrightarrow> stale_revision s pr keep k"
  by (cases "get_revision s keep") (auto simp: older_revision_ids_def stale_revision_def)

lemma stale_cong:
  "ss_revisions s' = ss_revisions s \<Longrightarrow> stale_revision s' pr keep k = stale_revision s pr keep k"
  by (simp add: stale_revision_def get_revision_def)

text \<open>C36. A new revision supersedes exactly the generations in flight on the older revisions of the pull
  request: their active review runs become superseded and their active index jobs failed, every other run
  and job (finished ones, those of the kept revision, other pull requests) is unchanged, the
  identifiers reported are those of the rows changed, and GitHub is sent nothing but neutral
  conclusions.\<close>

theorem supersede_stale_exact:
  assumes "supersede_stale_generations_for_new_revision env now s pull_request_id keep = (s', r)"
    and "distinct (map rr_id (ss_review_runs s))" and "distinct (map ij_id (ss_index_jobs s))"
  shows "ss_review_runs s' = map (\<lambda>r. if stale_revision s pull_request_id keep (rr_revision_id r) \<and> is_active_run r
      then r\<lparr>rr_status := RR_superseded\<rparr> else r) (ss_review_runs s) \<and>
    ss_index_jobs s' = map (\<lambda>j. if stale_revision s pull_request_id keep (ij_revision_id j) \<and> is_active_job j
      then j\<lparr>ij_status := IJ_failed, ij_error_message := Some SUPERSEDED_CHECK_SUMMARY\<rparr> else j) (ss_index_jobs s) \<and>
    (\<exists>sent. ss_checks s' = ss_checks s @ sent \<and> list_all is_neutral sent) \<and>
    (\<forall>out. r = Inr out \<longrightarrow>
      set (so_review_run_ids out) =
        rr_id ` {r \<in> set (ss_review_runs s). stale_revision s pull_request_id keep (rr_revision_id r) \<and> is_active_run r} \<and>
      set (so_index_job_ids out) =
        ij_id ` {j \<in> set (ss_index_jobs s). stale_revision s pull_request_id keep (ij_revision_id j) \<and> is_active_job j})"
proof -
  obtain s1 runs s2 jobs where
    m: "mark_review_runs_superseded_for_pull_request s pull_request_id keep = (s1, runs)"
       "mark_index_jobs_superseded_for_pull_request s1 pull_request_id keep = (s2, jobs)"
    and c: "conclude_superseded env now s2 runs jobs = (s', r)"
    using assms(1) by (auto simp: supersede_stale_generations_for_new_revision_def split: prod.splits)
  let ?st = "stale_revision s pull_request_id keep"
  have s1: "s1 = s\<lparr>ss_review_runs := tbl_map (\<lambda>r. ?st (rr_revision_id r) \<and> is_active_run r) supersede_run (ss_review_runs s)\<rparr>"
    and runs: "set runs = rr_id ` {r \<in> set (ss_review_runs s). ?st (rr_revision_id r) \<and> is_active_run r}"
    using mark_runs_result [of s "\<lambda>r. ?st (rr_revision_id r)", OF _ assms(2)] m(1)
    by (simp_all add: mark_review_runs_superseded_for_pull_request_def older_revision_ids_iff)
  have st1: "stale_revision s1 pull_request_id keep k = ?st k" for k by (rule stale_cong) (simp add: s1)
  have "distinct (map ij_id (ss_index_jobs s1))" using assms(3) by (simp add: s1)
  from mark_jobs_result [of s1 "\<lambda>j. ?st (ij_revision_id j)", OF _ this] m(2)
  have s2: "s2 = s1\<lparr>ss_index_jobs := tbl_map (\<lambda>j. ?st (ij_revision_id j) \<and> is_active_job j) supersede_job (ss_index_jobs s1)\<rparr>"
    and jobs: "set jobs = ij_id ` {j \<in> set (ss_index_jobs s1). ?st (ij_revision_id j) \<and> is_active_job j}"
    by (simp_all add: mark_index_jobs_superseded_for_pull_request_def older_revision_ids_iff st1)
  from conclude_neutral [OF c] have n: "neutral_only s2 s'"
    and out: "\<forall>out. r = Inr out \<longrightarrow> so_review_run_ids out = runs \<and> so_index_job_ids out = jobs" by simp_all
  have rows: "ss_review_runs s2 = map (\<lambda>r. if ?st (rr_revision_id r) \<and> is_active_run r then r\<lparr>rr_status := RR_superseded\<rparr> else r) (ss_review_runs s)"
    "ss_index_jobs s2 = map (\<lambda>j. if ?st (ij_revision_id j) \<and> is_active_job j
       then j\<lparr>ij_status := IJ_failed, ij_error_message := Some SUPERSEDED_CHECK_SUMMARY\<rparr> else j) (ss_index_jobs s)"
    "ss_checks s2 = ss_checks s"
    by (simp_all add: s2 s1 tbl_map_def supersede_run_def supersede_job_def)
  have "set jobs = ij_id ` {j \<in> set (ss_index_jobs s). ?st (ij_revision_id j) \<and> is_active_job j}"
    using jobs by (simp add: s1)
  with n out runs rows show ?thesis unfolding neutral_only_def by simp
qed

subsection \<open>Every superseded check is concluded\<close>

definition lookups_ok :: "nat \<Rightarrow> session \<Rightarrow> bool" where
  "lookups_ok n s \<longleftrightarrow> safe n s s \<and> distinct (map pl_id (ss_pipeline_runs s))"

lemma context_cong:
  assumes "get_revision s' = get_revision s" and "get_pull_request s' = get_pull_request s"
    and "get_repository s' = get_repository s" and "get_installation s' = get_installation s"
  shows "pipeline_check_repo_context s' = pipeline_check_repo_context s"
  by (rule ext) (simp only: pipeline_check_repo_context_def assms)

lemma target_kept:
  assumes "keeps_checks s s'" and "get_pipeline_run s' = get_pipeline_run s" and "get_revision s' = get_revision s"
    and "get_pull_request s' = get_pull_request s" and "get_repository s' = get_repository s"
    and "get_installation s' = get_installation s" and "check_target env s k = Some t"
  shows "check_target env s' k = Some t"
proof -
  have "pipeline_check_repo_context s' = pipeline_check_repo_context s"
    by (rule context_cong [OF assms(3-6)])
  with assms(1,2,7) show ?thesis
    by (auto simp: check_target_def keeps_checks_def split: option.splits)
qed

lemma safe_self: "safe n s0 s \<Longrightarrow> safe n s s"
  by (simp add: safe_def)

lemma superseded_mark_keeps:
  assumes "lookups_ok (Suc n) s"
  shows "lookups_ok n (record_generation_superseded_on_pipeline now s k)"
    and "check_target env s j = Some t \<Longrightarrow> check_target env (record_generation_superseded_on_pipeline now s k) j = Some t"
proof -
  let ?s = "record_generation_superseded_on_pipeline now s k"
  have s: "safe (Suc n) s s" using assms by (simp add: lookups_ok_def)
  consider "?s = s" | i where "?s = upsert_step_manifest s i [(S ''generation_superseded_at'', JStr now)]"
    using superseded_mark_cases [of now s k] by blast
  then have *: "lookups_ok n ?s \<and> (check_target env s j = Some t \<longrightarrow> check_target env ?s j = Some t)"
  proof cases
    case 1
    have "safe n s s" using s by (rule safe_mono) simp
    with 1 assms show ?thesis by (simp add: lookups_ok_def)
  next
    case 2
    have up: "safe n s ?s" unfolding 2 by (rule safe_upsert [OF s]) (simp add: S_def)
    then have "keeps_checks s ?s" by (simp add: safe_def)
    moreover have "get_pipeline_run ?s = get_pipeline_run s"
      by (simp add: fun_eq_iff get_pipeline_run_def superseded_mark_frame)
    ultimately have "check_target env s j = Some t \<longrightarrow> check_target env ?s j = Some t"
      unfolding 2 by (auto intro!: target_kept [of s] simp: upsert_frame)
    with safe_self [OF up] assms show ?thesis by (simp add: lookups_ok_def superseded_mark_frame)
  qed
  then show "lookups_ok n ?s" "check_target env s j = Some t \<Longrightarrow> check_target env ?s j = Some t" by simp_all
qed

lemma persist_run_ids:
  "map pl_id (ss_pipeline_runs (try_persist_models_snapshot s j)) = map pl_id (ss_pipeline_runs s)"
  by (simp add: try_persist_models_snapshot_def write_models_snapshot_def put_pipeline_run_def Let_def
      split: option.split)

text \<open>Finding a run by its review run is not disturbed by a snapshot.\<close>

lemma find_put_run:
  "distinct (map pl_id ps) \<Longrightarrow> q \<in> set ps \<Longrightarrow>
     map_option pl_id (List.find (\<lambda>p. pl_review_run_id p = Some k) (tbl_put pl_id (q\<lparr>pl_models_snapshot := x\<rparr>) ps)) =
     map_option pl_id (List.find (\<lambda>p. pl_review_run_id p = Some k) ps)"
proof (induction ps)
  case (Cons p ps)
  show ?case
  proof (cases "pl_id p = pl_id q")
    case True
    with Cons.prems have "p = q" by (auto simp: rev_image_eqI)
    moreover have "pl_id z \<noteq> pl_id q" if "z \<in> set ps" for z
      using Cons.prems(1) True that by (auto simp: rev_image_eqI)
    then have "tbl_put pl_id (q\<lparr>pl_models_snapshot := x\<rparr>) ps = ps"
      by (auto simp: tbl_put_def intro!: map_idI)
    ultimately show ?thesis by (simp add: tbl_put_def)
  next
    case False
    with Cons show ?thesis by (auto simp: tbl_put_def)
  qed
qed simp

lemma persist_lookup:
  assumes "distinct (map pl_id (ss_pipeline_runs s))"
  shows "map_option pl_id (get_pipeline_run_for_review_run (try_persist_models_snapshot s j) k) =
    map_option pl_id (get_pipeline_run_for_review_run s k)"
proof -
  have "try_persist_models_snapshot s j = s \<or>
      (\<exists>q x. q \<in> set (ss_pipeline_runs s) \<and> try_persist_models_snapshot s j = put_pipeline_run (q\<lparr>pl_models_snapshot := x\<rparr>) s)"
    by (auto simp: try_persist_models_snapshot_def write_models_snapshot_def Let_def get_pipeline_run_def
        split: option.splits dest: tbl_get_in)
  then show ?thesis
    using find_put_run [OF assms] by (auto simp: get_pipeline_run_for_review_run_def put_pipeline_run_def)
qed

lemma safe_persist_checks:
  "safe n s0 s \<Longrightarrow> safe n s0 ((try_persist_models_snapshot s k)\<lparr>ss_checks := cs\<rparr>)"
  by (intro safe_checks safe_snapshot)

lemma check_target_checks: "check_target env (s\<lparr>ss_checks := cs\<rparr>) k = check_target env s k"
proof -
  have "resolve_pipeline_github_check_run_id (s\<lparr>ss_checks := cs\<rparr>) k = resolve_pipeline_github_check_run_id s k"
    by (rule resolve_cong) simp_all
  moreover have "pipeline_check_repo_context (s\<lparr>ss_checks := cs\<rparr>) = pipeline_check_repo_context s"
    by (rule context_cong) (simp_all add: fun_eq_iff session_gets)
  moreover have "get_pipeline_run (s\<lparr>ss_checks := cs\<rparr>) k = get_pipeline_run s k"
    by (simp add: get_pipeline_run_def)
  ultimately show ?thesis unfolding check_target_def by (simp only:)
qed

definition neutral_sent :: "check_context \<Rightarrow> int \<Rightarrow> session \<Rightarrow> bool" where
  "neutral_sent cx c s \<longleftrightarrow> (\<exists>ok. (Check_patch (check_run_url (cx_owner cx) (cx_repo cx) c)
     (concluded (S ''neutral'') SUPERSEDED_CHECK_SUMMARY), ok) \<in> set (ss_checks s))"

lemma neutral_sent_mono: "neutral_only s s' \<Longrightarrow> neutral_sent cx c s \<Longrightarrow> neutral_sent cx c s'"
  by (auto simp: neutral_only_def neutral_sent_def)

lemma finalize_neutral_keeps:
  assumes "finalize_pipeline_github_check_neutral env s k SUPERSEDED_CHECK_SUMMARY = (s', r)" and "lookups_ok n s"
  shows "lookups_ok n s'" and "check_target env s' j = check_target env s j"
    and "map_option pl_id (get_pipeline_run_for_review_run s' i) = map_option pl_id (get_pipeline_run_for_review_run s i)"
    and "check_target env s k = Some (cx, c) \<Longrightarrow> neutral_sent cx c s'"
proof -
  obtain cs where s': "s' = (try_persist_models_snapshot s k)\<lparr>ss_checks := cs\<rparr>"
    using finalize_neutral_sends [OF assms(1)] by blast
  have d: "distinct (map pl_id (ss_pipeline_runs s))" and sf: "safe n s s" using assms(2) by (simp_all add: lookups_ok_def)
  show "lookups_ok n s'" unfolding lookups_ok_def s'
    using safe_self [OF safe_persist_checks [OF sf]] d by (simp add: persist_run_ids)
  show "check_target env s' j = check_target env s j"
    unfolding s' by (simp add: check_target_checks check_target_snapshot)
  show "map_option pl_id (get_pipeline_run_for_review_run s' i) = map_option pl_id (get_pipeline_run_for_review_run s i)"
    using persist_lookup [OF d] by (simp add: s' get_pipeline_run_for_review_run_def)
  show "neutral_sent cx c s'" if "check_target env s k = Some (cx, c)"
    using finalize_neutral_sends [OF assms(1)] that by (auto simp: neutral_sent_def)
qed

text \<open>When a generation with a check run is superseded, the check does not stay in progress: unless an
  exception stops the loop, every superseded review run whose pipeline run has a reachable check run has
  a neutral conclusion sent for exactly that check run.\<close>

theorem superseded_checks_concluded:
  assumes "finalize_pipeline_checks_for_superseded_review_runs env now s ks = (s', Inr ())"
    and "trace_wf s" and "fresh_supply (length ks) s" and "distinct (map pl_id (ss_pipeline_runs s))"
    and "k \<in> set ks" and "get_pipeline_run_for_review_run s k = Some p"
    and "check_target env s (pl_id p) = Some (cx, c)"
  shows "\<exists>ok. (Check_patch (check_run_url (cx_owner cx) (cx_repo cx) c)
     (concluded (S ''neutral'') SUPERSEDED_CHECK_SUMMARY), ok) \<in> set (ss_checks s')"
proof -
  have "neutral_sent cx c s'"
    if "finalize_pipeline_checks_for_superseded_review_runs env now s ks = (s', Inr ())" "lookups_ok (length ks) s"
      "k \<in> set ks" "map_option pl_id (get_pipeline_run_for_review_run s k) = Some j" "check_target env s j = Some (cx, c)" for j
    using that
  proof (induction ks arbitrary: s)
    case (Cons i ks)
    let ?s = "record_generation_superseded_on_pipeline now s i"
    have ok: "lookups_ok (length ks) ?s" and tgt: "check_target env ?s j = Some (cx, c)"
      using superseded_mark_keeps [of "length ks" s] Cons.prems by simp_all
    have look: "map_option pl_id (get_pipeline_run_for_review_run ?s k) = Some j"
      using Cons.prems(4) by (simp add: get_pipeline_run_for_review_run_def superseded_mark_frame)
    show ?case
    proof (cases "get_pipeline_run_for_review_run ?s i")
      case None
      with Cons.prems(1) have f: "finalize_pipeline_checks_for_superseded_review_runs env now ?s ks = (s', Inr ())"
        by (simp add: Let_def)
      have "k \<noteq> i" using look None by auto
      with Cons.prems(3) have "k \<in> set ks" by simp
      from Cons.IH [OF f ok this look tgt] show ?thesis .
    next
      case (Some q)
      obtain s1 where f: "finalize_pipeline_github_check_neutral env ?s (pl_id q) SUPERSEDED_CHECK_SUMMARY = (s1, Inr ())"
        and rest: "finalize_pipeline_checks_for_superseded_review_runs env now s1 ks = (s', Inr ())"
        using Cons.prems(1) Some by (auto simp: Let_def split: prod.splits sum.splits)
      note kept = finalize_neutral_keeps [OF f ok]
      show ?thesis
      proof (cases "k = i")
        case True
        with look Some tgt have "check_target env ?s (pl_id q) = Some (cx, c)" by simp
        from kept(4) [OF this] neutral_sent_mono [OF finalize_runs_neutral [OF rest]] show ?thesis by blast
      next
        case False
        with Cons.prems(3) have "k \<in> set ks" by simp
        from Cons.IH [OF rest kept(1) this] look tgt show ?thesis by (simp add: kept(2,3))
      qed
    qed
  qed simp
  from this [OF assms(1) _ assms(5), of "pl_id p"] assms show ?thesis
    by (auto simp: lookups_ok_def safe_refl neutral_sent_def)
qed

subsection \<open>Concrete generations\<close>

definition demo_stale_run :: review_run where
  "demo_stale_run = demo_run\<lparr>rr_id := 7, rr_revision_id := 8, rr_status := RR_processing\<rparr>"

definition demo_two_revisions :: session where
  "demo_two_revisions = demo_session\<lparr>
     ss_revisions := [demo_revision\<lparr>rev_id := 8, rev_number := 1\<rparr>, demo_revision],
     ss_review_runs := [demo_stale_run, demo_run\<lparr>rr_status := RR_processing\<rparr>],
     ss_index_jobs := [demo_job\<lparr>ij_revision_id := 8, ij_status := IJ_completed\<rparr>]\<rparr>"

theorem supersede_stale_exact_witness:
  "ss_review_runs (fst (supersede_stale_generations_for_new_revision demo_check_env (S ''now'') demo_two_revisions 4 2)) =
     [demo_stale_run\<lparr>rr_status := RR_superseded\<rparr>, demo_run\<lparr>rr_status := RR_processing\<rparr>]"
proof -
  obtain s' r where f: "supersede_stale_generations_for_new_revision demo_check_env (S ''now'') demo_two_revisions 4 2 = (s', r)"
    by fastforce
  have rows: "ss_revisions demo_two_revisions = [demo_revision\<lparr>rev_id := 8, rev_number := 1\<rparr>, demo_revision]"
    by (simp add: demo_two_revisions_def)
  have get: "get_revision demo_two_revisions 2 = Some demo_revision"
    by (simp add: get_revision_def tbl_get_def rows) (simp add: demo_revision_def)
  have st: "stale_revision demo_two_revisions 4 2 k \<longleftrightarrow> k = 8" for k
  proof -
    let ?old = "demo_revision\<lparr>rev_id := 8, rev_number := 1\<rparr>"
    have sel: "rev_pull_request_id demo_revision = 4" "rev_number demo_revision = 2" "rev_id demo_revision = 2"
      "rev_pull_request_id ?old = 4" "rev_number ?old = 1" "rev_id ?old = 8" by (simp_all add: demo_revision_def)
    show ?thesis unfolding stale_revision_def rows get
      by (simp only: option.inject list.set insert_iff empty_iff) (metis sel one_less_numeral_iff order_less_irrefl semiring_norm(76))
  qed
  have d: "distinct (map rr_id (ss_review_runs demo_two_revisions))" "distinct (map ij_id (ss_index_jobs demo_two_revisions))"
    by (simp_all add: demo_two_revisions_def demo_stale_run_def demo_defs)
  from supersede_stale_exact [OF f d] f show ?thesis
    by (simp add: st) (simp add: demo_two_revisions_def demo_stale_run_def demo_defs is_active_run_def
        ACTIVE_REVIEW_RUN_STATUSES_def)
qed

lemma demo_finalize_ok:
  assumes "finalize_pipeline_github_check_neutral demo_check_env s k summary = (s', r)"
    and "\<And>p e. pipeline_check_repo_context (try_persist_models_snapshot s k) p \<noteq> Inl e"
  shows "r = Inr ()"
proof -
  have "snd (update_check_run demo_check_env s1 i ow re c concl sm) = Inr ()" for s1 i ow re c concl sm
    by (simp add: update_check_run_def send_check_def demo_check_env_def is_success_def)
  then show ?thesis
    using assms(1,2)
    by (auto simp: finalize_pipeline_github_check_neutral_def finalize_pipeline_github_check_def with_check_def
        except_http_def Let_def split: option.splits if_splits sum.splits prod.splits)
       (metis snd_conv sum.distinct(1))+
qed

theorem superseded_checks_concluded_witness:
  "\<exists>s' ok. finalize_pipeline_checks_for_superseded_review_runs demo_check_env (S ''now'')
       (stash_pipeline_github_check_run_id demo_repo_rows 50 77) [1] = (s', Inr ()) \<and>
     (Check_patch (check_run_url (S ''o'') (S ''r'') 77)
        (concluded (S ''neutral'') SUPERSEDED_CHECK_SUMMARY), ok) \<in> set (ss_checks s')"
proof -
  let ?s = "stash_pipeline_github_check_run_id demo_repo_rows 50 77"
  let ?s1 = "record_generation_superseded_on_pipeline (S ''now'') ?s 1"
  have ctx: "pipeline_check_repo_context ?s p = pipeline_check_repo_context demo_repo_rows p" for p
    by (simp only: pipeline_check_repo_context_def stash_gets)
  have run: "get_pipeline_run_for_review_run ?s 1 = Some demo_pipeline"
    by (simp add: get_pipeline_run_for_review_run_def stash_runs demo_repo_rows_def demo_pipeline_def)
  have run1: "get_pipeline_run_for_review_run ?s1 1 = Some demo_pipeline"
    using run by (simp add: get_pipeline_run_for_review_run_def superseded_mark_frame)
  have get1: "get_revision ?s1 = get_revision demo_repo_rows" "get_pull_request ?s1 = get_pull_request demo_repo_rows"
    "get_repository ?s1 = get_repository demo_repo_rows" "get_installation ?s1 = get_installation demo_repo_rows"
    using superseded_mark_cases [of "S ''now''" ?s 1] by (auto simp: upsert_frame stash_gets)
  have "py_split1 (S ''/'') (repo_full_name rp) = Some (S ''o'', S ''r'')"
    if "get_repository demo_repo_rows i = Some rp" for i rp
    using that by (auto simp: get_repository_def tbl_get_def demo_repo_rows_def py_split1_def S_def py_find.simps
        py_startswith_def split: if_splits)
  then have "pipeline_check_repo_context demo_repo_rows p \<noteq> Inl e" for p e
    by (auto simp: pipeline_check_repo_context_def split: option.splits)
  then have no: "pipeline_check_repo_context (try_persist_models_snapshot ?s1 50) p \<noteq> Inl e" for p e
    using get1 by (simp only: pipeline_check_repo_context_def try_persist_rows) blast
  obtain s' r where f: "finalize_pipeline_github_check_neutral demo_check_env ?s1 50 SUPERSEDED_CHECK_SUMMARY = (s', r)"
    by fastforce
  have "pl_id demo_pipeline = 50" by (simp add: demo_pipeline_def)
  with demo_finalize_ok [OF f] no f run1
  have fin: "finalize_pipeline_checks_for_superseded_review_runs demo_check_env (S ''now'') ?s [1] = (s', Inr ())"
    by (simp add: Let_def)
  have w: "trace_wf ?s" "fresh_supply (length [1::uuid]) ?s"
    by (simp_all add: trace_wf_def fresh_supply_def coming_ids_def stash_pipeline_github_check_run_id_def
        get_index_pipeline_step_def create_completed_step_def upsert_step_manifest_def write_manifest_def
        get_step_manifest_artifact_def add_step_artifact_def tick_def tbl_add_def next_uuid_def demo_defs
        demo_repo_rows_def Let_def upt_rec)
  have d: "distinct (map pl_id (ss_pipeline_runs ?s))" by (simp add: stash_runs demo_repo_rows_def)
  have "check_target demo_check_env ?s (pl_id demo_pipeline) = Some
      (\<lparr>cx_installation = 9, cx_owner = S ''o'', cx_repo = S ''r'', cx_head_sha = S ''bb'', cx_number = 17\<rparr>, 77)"
    using demo_context [of demo_pipeline] ctx
    by (simp add: check_target_def resolve_stash get_pipeline_run_def stash_runs tbl_get_def demo_pipeline_def
        demo_check_env_def) (simp add: demo_repo_rows_def demo_pipeline_def)
  from superseded_checks_concluded [OF fin w d _ run this] fin show ?thesis by auto
qed

end
