(* ===== verification/Review_Run.thy ===== *)
theory Review_Run
  imports Generations Finding_Rows Diff
begin

section \<open>Review runs (\<open>services/github_review.py\<close>, \<open>workers/review_tasks.py\<close>)\<close>

text \<open>
  Creating a review run, and the task that executes it.  The task runs beside the webhook handlers,
  which may supersede the run at any moment, so the task is modelled as the sequence of its database
  statements, and the other transactions step in between.  A phase names the point the task has reached.

  What the model leaves as parameters (\<open>run_env\<close>): the retrieval of the review context, the model
  policy, the LLM and \<open>parse_llm_json_object\<close>, and the texts of exceptions.  Call recording, timings
  and logging are left out.

  Locks and transactions as in PostgreSQL: from the conditional update that claims the run until the
  checkpoint commits, and from the one that completes it until the final commit, the row of the run is
  locked and no other transaction can change it; an exception rolls the transaction back.  Sessions are
  created with \<open>autoflush=False\<close>, so the findings added to the session reach the database when it
  commits.
\<close>

subsection \<open>Lookups (\<open>services/github_indexing.py\<close> and \<open>github_review.py\<close>)\<close>

text \<open>\<open>.order_by(created_at.desc()).limit(1)\<close>.\<close>

definition latest_by :: "('r \<Rightarrow> int) \<Rightarrow> ('r \<Rightarrow> bool) \<Rightarrow> 'r list \<Rightarrow> 'r option" where
  "latest_by k p rs = first_by (\<lambda>r. - k r) p rs"

definition index_job_in_progress :: "session \<Rightarrow> uuid \<Rightarrow> uuid \<Rightarrow> bool" where
  "index_job_in_progress s ws rv \<longleftrightarrow>
     list_ex (\<lambda>j. ij_workspace_id j = ws \<and> ij_revision_id j = rv \<and> ij_status j \<in> {IJ_pending, IJ_processing})
       (ss_index_jobs s)"

definition ensure_revision_access :: "session \<Rightarrow> uuid \<Rightarrow> uuid \<Rightarrow> uuid \<Rightarrow> uuid \<Rightarrow> exn + unit" where
  "ensure_revision_access s ws repo pr rv =
     (if list_ex (\<lambda>r. rev_id r = rv \<and> rev_pull_request_id r = pr) (ss_revisions s) \<and>
         list_ex (\<lambda>p. pr_id p = pr \<and> pr_repository_id p = repo \<and> pr_workspace_id p = ws) (ss_pull_requests s) \<and>
         list_ex (\<lambda>r. repo_id r = repo \<and> repo_workspace_id r = ws) (ss_repositories s)
      then Inr ()
      else Inl (raise_platform NotFoundError (S ''Pull request revision not found'') None))"

definition get_latest_completed_index_job :: "session \<Rightarrow> uuid \<Rightarrow> uuid \<Rightarrow> index_job option" where
  "get_latest_completed_index_job s ws rv =
     latest_by ij_created_at
       (\<lambda>j. ij_workspace_id j = ws \<and> ij_revision_id j = rv \<and> ij_status j = IJ_completed) (ss_index_jobs s)"

definition get_latest_index_job :: "session \<Rightarrow> uuid \<Rightarrow> uuid \<Rightarrow> index_job option" where
  "get_latest_index_job s ws rv =
     latest_by ij_created_at (\<lambda>j. ij_workspace_id j = ws \<and> ij_revision_id j = rv) (ss_index_jobs s)"

definition get_latest_review_run :: "session \<Rightarrow> uuid \<Rightarrow> uuid \<Rightarrow> review_run option" where
  "get_latest_review_run s ws rv =
     latest_by rr_created_at (\<lambda>r. rr_workspace_id r = ws \<and> rr_revision_id r = rv) (ss_review_runs s)"

definition get_latest_completed_review_run :: "session \<Rightarrow> uuid \<Rightarrow> uuid \<Rightarrow> review_run option" where
  "get_latest_completed_review_run s ws rv =
     latest_by rr_created_at
       (\<lambda>r. rr_workspace_id r = ws \<and> rr_revision_id r = rv \<and> rr_status r = RR_completed) (ss_review_runs s)"

text \<open>One page of the findings of the latest completed run, oldest first, and whether there are more.\<close>

definition list_review_findings ::
  "session \<Rightarrow> uuid \<Rightarrow> uuid \<Rightarrow> uuid \<Rightarrow> uuid \<Rightarrow> nat \<Rightarrow> nat \<Rightarrow> exn + finding list \<times> bool" where
  "list_review_findings s ws repo pr rv limit offset =
     rbind (ensure_revision_access s ws repo pr rv) (\<lambda>_.
       case get_latest_completed_review_run s ws rv of
         None \<Rightarrow> Inr ([], False)
       | Some run \<Rightarrow>
           let rows = take (limit + 1) (drop offset (sort_key fi_created_at
                 (filter (\<lambda>f. fi_workspace_id f = ws \<and> fi_review_run_id f = rr_id run) (ss_findings s))))
           in Inr (take limit rows, limit < length rows))"

subsection \<open>Creating a run\<close>

record review_settings =
  rs_reviewer_llm_enabled :: bool
  rs_embeddings_enabled :: bool
  rs_github_api_enabled :: bool

definition FULL_INDEX_PROFILES :: "review_profile list" where
  "FULL_INDEX_PROFILES = [Prof_deep, Prof_critical]"

definition credit_limit_reached :: "workspace \<Rightarrow> bool" where
  "credit_limit_reached w =
     (case ws_review_run_limit w of None \<Rightarrow> False | Some n \<Rightarrow> n \<le> ws_completed_review_runs w)"

definition review_in_progress :: "session \<Rightarrow> uuid \<Rightarrow> uuid \<Rightarrow> bool" where
  "review_in_progress s ws rv \<longleftrightarrow>
     list_ex (\<lambda>r. rr_workspace_id r = ws \<and> rr_revision_id r = rv \<and> rr_status r \<in> {RR_pending, RR_processing})
       (ss_review_runs s)"

definition new_review_run :: "session \<Rightarrow> uuid \<Rightarrow> uuid \<Rightarrow> review_profile \<Rightarrow> trigger_source \<Rightarrow> review_run" where
  "new_review_run s ws rv profile trigger = \<lparr>rr_id = next_uuid s, rr_revision_id = rv, rr_workspace_id = ws,
     rr_status = RR_pending, rr_profile = profile, rr_provider = None, rr_model_id = None,
     rr_error_message = None, rr_judge_escalation_candidate_count = 0, rr_judge_status = JS_not_applicable,
     rr_context_stats = None, rr_trigger_source = Some trigger, rr_created_at = next_time s\<rparr>"

definition create_review_run ::
  "review_settings \<Rightarrow> session \<Rightarrow> uuid \<Rightarrow> uuid \<Rightarrow> uuid \<Rightarrow> uuid \<Rightarrow> review_profile \<Rightarrow> exn + session \<times> review_run" where
  "create_review_run st s ws repo pr rv profile =
     (if \<not> rs_reviewer_llm_enabled st then
        Inl (raise_platform ServiceUnavailableError (S ''LLM API is not configured'') (Some (S ''llm_disabled'')))
      else if \<not> rs_embeddings_enabled st then
        Inl (raise_platform ServiceUnavailableError (S ''Embeddings API is not configured'') (Some (S ''embeddings_disabled'')))
      else if \<not> rs_github_api_enabled st then
        Inl (raise_platform ServiceUnavailableError (S ''GitHub App API is not configured'') (Some (S ''github_api_disabled'')))
      else
        rbind (ensure_revision_access s ws repo pr rv) (\<lambda>_.
          case get_workspace s ws of
            None \<Rightarrow> Inl (raise_platform NotFoundError (S ''Workspace not found'') None)
          | Some w \<Rightarrow>
              if credit_limit_reached w then
                Inl (raise_platform ForbiddenError
                  (S ''Credit limit reached. Upgrade to Pro for unlimited reviews.'') (Some (S ''credit_limit_reached'')))
              else if index_job_in_progress s ws rv then
                Inl (raise_platform ConflictError
                  (S ''An index job is already in progress for this revision'') (Some (S ''index_in_progress'')))
              else
                (case get_latest_completed_index_job s ws rv of
                   None \<Rightarrow> Inl (raise_platform ConflictError
                     (S ''Revision must be indexed before review'') (Some (S ''index_required'')))
                 | Some job \<Rightarrow>
                     if profile \<in> set FULL_INDEX_PROFILES \<and> ij_index_mode job \<noteq> Mode_full then
                       Inl (raise_platform ConflictError
                         (S ''Deep/critical review requires a completed full-repo index'') (Some (S ''index_mode_mismatch'')))
                     else if review_in_progress s ws rv then
                       Inl (raise_platform ConflictError
                         (S ''A review is already in progress for this revision'') (Some (S ''review_in_progress'')))
                     else
                       let run = new_review_run s ws rv profile (ij_trigger_source job)
                       in Inr (tick (s\<lparr>ss_review_runs := tbl_add run (ss_review_runs s)\<rparr>), run))))"

subsection \<open>Transient failures (\<open>core/worker_retries.py\<close>)\<close>

definition RETRYABLE_HTTP_STATUS_CODES :: "int list" where
  "RETRYABLE_HTTP_STATUS_CODES = [408, 429, 500, 502, 503, 504, 520, 521, 522, 523, 524]"

text \<open>Whether the exception is wrapped as retryable; \<open>Http_transport\<close> stands for the transport errors,
  time-outs included.\<close>

definition classify_transient_error :: "exn \<Rightarrow> bool" where
  "classify_transient_error e =
     (case e of
        Http_status c \<Rightarrow> c \<in> set RETRYABLE_HTTP_STATUS_CODES
      | Http_transport m \<Rightarrow> True
      | _ \<Rightarrow> False)"

definition is_retryable_immediate_mutation_error :: "exn \<Rightarrow> bool" where
  "is_retryable_immediate_mutation_error e =
     (if is_platform RateLimitedError e then False
      else if is_platform ServiceUnavailableError e then True
      else case e of
        Http_status c \<Rightarrow> c \<in> set RETRYABLE_HTTP_STATUS_CODES \<and> c \<noteq> 429
      | _ \<Rightarrow> classify_transient_error e)"

subsection \<open>The task\<close>

record context_pack =
  cp_prompt :: pystr
  cp_manifest :: "(pystr \<times> json) list"
  cp_patches :: "(pystr \<times> pystr) list"
  cp_hits :: "(pystr \<times> pystr) list"
  cp_stats :: json

record run_env =
  re_context :: "session \<Rightarrow> review_run \<Rightarrow> index_job \<Rightarrow> exn + context_pack"
  re_model :: "session \<Rightarrow> review_run \<Rightarrow> exn + pystr \<times> pystr"
  re_llm :: "nat \<Rightarrow> pystr \<Rightarrow> exn + pystr"
  re_json :: "pystr \<Rightarrow> exn + json"
  re_str :: "exn \<Rightarrow> pystr"
  re_unicode :: unicode

text \<open>A finding added to the session, with its evidence.\<close>

type_synonym pending_finding = "finding_row \<times> pystr option"

text \<open>Where the task is.\<close>

datatype phase =
    Ph_start
  | Ph_retrieving bool review_run index_job
  | Ph_asking nat context_pack
  | Ph_checking context_pack "finding_row list"
  | Ph_confirming
  | Ph_completing
  | Ph_crediting
  | Ph_returned
  | Ph_raised exn
  | Ph_finished

text \<open>The database, the phase, what the session holds unflushed, the claimed row as it was before when the
  claim is not committed (for a rollback), the workspace of the run, the retries of the task and the
  credits it has taken.\<close>

record rconf =
  rc_session :: session
  rc_phase :: phase
  rc_pending :: "pending_finding list"
  rc_before :: "review_run option"
  rc_workspace :: uuid
  rc_retries :: nat
  rc_credits :: nat

text \<open>The row of the run is locked by the task.\<close>

definition locked :: "rconf \<Rightarrow> bool" where
  "locked c \<longleftrightarrow> rc_before c \<noteq> None \<or> rc_phase c = Ph_crediting"

definition set_run :: "uuid \<Rightarrow> (review_run \<Rightarrow> review_run) \<Rightarrow> session \<Rightarrow> session" where
  "set_run k f s = s\<lparr>ss_review_runs := tbl_map (\<lambda>r. rr_id r = k) f (ss_review_runs s)\<rparr>"

definition run_status :: "session \<Rightarrow> uuid \<Rightarrow> review_run_status option" where
  "run_status s k = map_option rr_status (get_review_run s k)"

text \<open>\<open>run.status = failed\<close> with a message, which overwrites whatever the row holds.\<close>

definition fail_run :: "uuid \<Rightarrow> pystr \<Rightarrow> session \<Rightarrow> session" where
  "fail_run k message = set_run k (\<lambda>r. r\<lparr>rr_status := RR_failed, rr_error_message := Some (take 2000 message)\<rparr>)"

definition delete_findings :: "uuid \<Rightarrow> session \<Rightarrow> session" where
  "delete_findings k s = s\<lparr>ss_findings := filter (\<lambda>f. fi_review_run_id f \<noteq> k) (ss_findings s)\<rparr>"

definition returned :: "rconf \<Rightarrow> session \<Rightarrow> rconf" where
  "returned c s = c\<lparr>rc_session := s, rc_phase := Ph_returned\<rparr>"

text \<open>The handlers at the end of \<open>run_review_run\<close>.\<close>

definition handle_exn :: "run_env \<Rightarrow> uuid \<Rightarrow> rconf \<Rightarrow> exn \<Rightarrow> rconf" where
  "handle_exn env k c e =
     (if is_platform ValidationError e then returned c (fail_run k (re_str env e) (rc_session c))
      else if is_http_error e \<or> is_platform ServiceUnavailableError e then
        (if classify_transient_error e then c\<lparr>rc_phase := Ph_raised e\<rparr>
         else returned c (fail_run k (re_str env e) (rc_session c)))
      else c\<lparr>rc_phase := Ph_raised e\<rparr>)"

definition claim_run :: "uuid \<Rightarrow> session \<Rightarrow> session" where
  "claim_run k = set_run k (\<lambda>r. if rr_status r = RR_pending
     then r\<lparr>rr_status := RR_processing, rr_error_message := None\<rparr> else r)"

text \<open>Claiming the run, and the checks that end the task before it retrieves anything.\<close>

definition step_start :: "uuid \<Rightarrow> rconf \<Rightarrow> rconf" where
  "step_start k c =
     (let s = rc_session c in
      case get_review_run s k of
        None \<Rightarrow> c\<lparr>rc_phase := Ph_raised (raise_platform NotFoundError (S ''Review run not found'') None)\<rparr>
      | Some run \<Rightarrow>
          let claimed = rr_status run = RR_pending;
              s = claim_run k s;
              status = (if claimed then RR_processing else rr_status run);
              resuming = (status = RR_processing \<and> rr_context_stats run \<noteq> None)
          in if \<not> claimed \<and> \<not> resuming then returned c s
             else
               (case get_revision s (rr_revision_id run) of
                  None \<Rightarrow> returned c (fail_run k (S ''revision_not_found'') s)
                | Some rv \<Rightarrow>
                    (case get_pull_request s (rev_pull_request_id rv) of
                       None \<Rightarrow> returned c (fail_run k (S ''pull_request_not_found'') s)
                     | Some pr \<Rightarrow>
                         (case get_latest_completed_index_job s (rr_workspace_id run) (rr_revision_id run) of
                            None \<Rightarrow> returned c (fail_run k (S ''index_required'') s)
                          | Some job \<Rightarrow>
                              c\<lparr>rc_session := s,
                                rc_phase := Ph_retrieving resuming (run\<lparr>rr_status := RR_processing\<rparr>) job,
                                rc_before := (if claimed then Some run else None),
                                rc_workspace := rr_workspace_id run\<rparr>))))"

text \<open>Retrieving the context, choosing the model and, on a first run, the checkpoint commit.\<close>

definition step_retrieve :: "run_env \<Rightarrow> uuid \<Rightarrow> rconf \<Rightarrow> bool \<Rightarrow> review_run \<Rightarrow> index_job \<Rightarrow> rconf" where
  "step_retrieve env k c resuming run job =
     (case re_context env (rc_session c) run job of
        Inl e \<Rightarrow> handle_exn env k c e
      | Inr pack \<Rightarrow>
          let c = (if resuming then c
                   else c\<lparr>rc_session := set_run k (rr_context_stats_update (\<lambda>_. Some (cp_stats pack))) (rc_session c)\<rparr>)
          in case re_model env (rc_session c) run of
               Inl e \<Rightarrow> handle_exn env k c e
             | Inr (provider, model_id) \<Rightarrow>
                 if resuming then c\<lparr>rc_phase := Ph_asking 0 pack\<rparr>
                 else c\<lparr>rc_session := set_run k (\<lambda>r. r\<lparr>rr_provider := Some provider, rr_model_id := Some model_id\<rparr>)
                          (rc_session c),
                        rc_before := None, rc_phase := Ph_asking 0 pack\<rparr>)"

text \<open>\<open>parse_review_json\<close> (\<open>integrations/moonshot_review.py\<close>).\<close>

definition parse_review_json :: "run_env \<Rightarrow> pystr \<Rightarrow> exn + json list" where
  "parse_review_json env raw =
     rbind (re_json env raw) (\<lambda>payload.
       case payload of
         JObj ms \<Rightarrow>
           (case json_get (S ''findings'') ms of
              None \<Rightarrow> Inr []
            | Some JNull \<Rightarrow> Inr []
            | Some (JArr items) \<Rightarrow> Inr (filter (\<lambda>i. case i of JObj m \<Rightarrow> True | _ \<Rightarrow> False) items)
            | Some _ \<Rightarrow> Inl (Value_error (S ''review_json_findings_not_list'')))
       | _ \<Rightarrow> Inl (Value_error (S ''review_json_not_object'')))"

text \<open>One request to the LLM; an answer that is not the JSON asked for is retried once.\<close>

definition step_ask :: "run_env \<Rightarrow> uuid \<Rightarrow> rconf \<Rightarrow> nat \<Rightarrow> context_pack \<Rightarrow> rconf" where
  "step_ask env k c attempt pack =
     (case re_llm env attempt (cp_prompt pack) of
        Inl e \<Rightarrow> handle_exn env k c e
      | Inr raw \<Rightarrow>
          (case parse_review_json env raw of
             Inl e \<Rightarrow>
               if \<not> is_value_error e then handle_exn env k c e
               else if attempt + 1 < 2 then c\<lparr>rc_phase := Ph_asking (attempt + 1) pack\<rparr>
               else returned c (fail_run k (re_str env e) (rc_session c))
           | Inr items \<Rightarrow>
               (case parse_finding_rows (re_unicode env) items of
                  Inl e \<Rightarrow> handle_exn env k c e
                | Inr (rows, report) \<Rightarrow> c\<lparr>rc_phase := Ph_checking pack rows\<rparr>)))"

definition with_evidence :: "context_pack \<Rightarrow> finding_row \<Rightarrow> pending_finding" where
  "with_evidence pack row = (row, resolve_evidence_snippet (fr_file_path row) (fr_start_line row)
     (cp_patches pack) (cp_hits pack) EVIDENCE_SNIPPET_MAX_CHARS)"

text \<open>The first check for a supersede; then old findings are deleted and the new ones added to the
  session.\<close>

definition step_check :: "uuid \<Rightarrow> rconf \<Rightarrow> context_pack \<Rightarrow> finding_row list \<Rightarrow> rconf" where
  "step_check k c pack rows =
     (if run_status (rc_session c) k = Some RR_superseded then returned c (rc_session c)
      else c\<lparr>rc_session := delete_findings k (rc_session c),
             rc_pending := rc_pending c @ map (with_evidence pack) rows,
             rc_phase := Ph_confirming\<rparr>)"

text \<open>The second check: the delete reaches the rows of the database, not those the session holds.\<close>

definition step_confirm :: "uuid \<Rightarrow> rconf \<Rightarrow> rconf" where
  "step_confirm k c =
     (if run_status (rc_session c) k = Some RR_superseded
      then returned c (delete_findings k (rc_session c))
      else c\<lparr>rc_phase := Ph_completing\<rparr>)"

definition complete_run :: "uuid \<Rightarrow> session \<Rightarrow> session" where
  "complete_run k = set_run k (\<lambda>r. if rr_status r = RR_processing then r\<lparr>rr_status := RR_completed\<rparr> else r)"

definition step_complete :: "uuid \<Rightarrow> rconf \<Rightarrow> rconf" where
  "step_complete k c =
     (if run_status (rc_session c) k = Some RR_processing
      then c\<lparr>rc_session := complete_run k (rc_session c), rc_phase := Ph_crediting\<rparr>
      else if run_status (rc_session c) k = Some RR_superseded
      then returned c (delete_findings k (rc_session c))
      else returned c (rc_session c))"

text \<open>The atomic increment of the credits used.\<close>

definition takes_credit :: "workspace \<Rightarrow> bool" where
  "takes_credit w = (case ws_review_run_limit w of None \<Rightarrow> False | Some n \<Rightarrow> ws_completed_review_runs w < n)"

definition step_credit :: "rconf \<Rightarrow> rconf" where
  "step_credit c =
     (let hit = (\<lambda>w. ws_id w = rc_workspace c \<and> takes_credit w);
          s = rc_session c
      in (returned c (s\<lparr>ss_workspaces := tbl_map hit
             (\<lambda>w. w\<lparr>ws_completed_review_runs := ws_completed_review_runs w + 1\<rparr>) (ss_workspaces s)\<rparr>))
           \<lparr>rc_credits := rc_credits c + count_if hit (ss_workspaces s)\<rparr>)"

text \<open>The commit of the task flushes what the session holds.\<close>

definition add_pending :: "uuid \<Rightarrow> uuid \<Rightarrow> session \<Rightarrow> pending_finding \<Rightarrow> session" where
  "add_pending k ws s p = (case p of (row, evidence) \<Rightarrow>
     tick (s\<lparr>ss_findings := tbl_add
       \<lparr>fi_id = next_uuid s, fi_review_run_id = k, fi_workspace_id = ws, fi_severity = fr_severity row,
        fi_category = fr_category row, fi_title = fr_title row, fi_message = fr_message row,
        fi_file_path = fr_file_path row, fi_start_line = fr_start_line row, fi_end_line = fr_end_line row,
        fi_suggestion = fr_suggestion row, fi_evidence_snippet = evidence, fi_group_id = None,
        fi_created_at = next_time s\<rparr> (ss_findings s)\<rparr>))"

definition step_commit :: "uuid \<Rightarrow> rconf \<Rightarrow> rconf" where
  "step_commit k c =
     c\<lparr>rc_session := foldl (add_pending k (rc_workspace c)) (rc_session c) (rc_pending c), rc_pending := [],
       rc_before := None, rc_phase := Ph_finished\<rparr>"

text \<open>\<open>mark_review_run_failed\<close>, and with the same effect \<open>persist_review_run_permanent_failure\<close>.\<close>

definition mark_review_run_failed :: "uuid \<Rightarrow> pystr \<Rightarrow> session \<Rightarrow> session" where
  "mark_review_run_failed k message s =
     (case get_review_run s k of
        None \<Rightarrow> s
      | Some run \<Rightarrow>
          if rr_status run = RR_completed \<or> rr_status run = RR_failed then s else fail_run k message s)"

definition TASK_MAX_RETRIES :: nat where
  "TASK_MAX_RETRIES = 3"

text \<open>After an exception: a transient one runs the task again, any other marks the run failed.\<close>

definition step_retry :: "run_env \<Rightarrow> uuid \<Rightarrow> rconf \<Rightarrow> exn \<Rightarrow> rconf" where
  "step_retry env k c e =
     (if classify_transient_error e \<and> rc_retries c < TASK_MAX_RETRIES
      then c\<lparr>rc_phase := Ph_start, rc_retries := rc_retries c + 1\<rparr>
      else c\<lparr>rc_session := mark_review_run_failed k (re_str env e) (rc_session c), rc_phase := Ph_finished\<rparr>)"

text \<open>An exception leaves the transaction: what it wrote to the run is undone, what it added is dropped.\<close>

definition roll_back :: "uuid \<Rightarrow> rconf \<Rightarrow> rconf" where
  "roll_back k c =
     (case rc_phase c of
        Ph_raised e \<Rightarrow>
          c\<lparr>rc_session := (case rc_before c of None \<Rightarrow> rc_session c | Some r \<Rightarrow> set_run k (\<lambda>_. r) (rc_session c)),
            rc_pending := [], rc_before := None\<rparr>
      | _ \<Rightarrow> c)"

fun run_step :: "run_env \<Rightarrow> uuid \<Rightarrow> phase \<Rightarrow> rconf \<Rightarrow> rconf" where
  "run_step env k Ph_start c = step_start k c"
| "run_step env k (Ph_retrieving resuming run job) c = roll_back k (step_retrieve env k c resuming run job)"
| "run_step env k (Ph_asking attempt pack) c = roll_back k (step_ask env k c attempt pack)"
| "run_step env k (Ph_checking pack rows) c = step_check k c pack rows"
| "run_step env k Ph_confirming c = step_confirm k c"
| "run_step env k Ph_completing c = step_complete k c"
| "run_step env k Ph_crediting c = step_credit c"
| "run_step env k Ph_returned c = step_commit k c"
| "run_step env k (Ph_raised e) c = step_retry env k c e"
| "run_step env k Ph_finished c = c"

subsection \<open>The task among other transactions\<close>

text \<open>What other transactions leave alone when they do not touch the run: its row, its findings, and the
  credit limits, which hold for every writer.\<close>

definition credits_ok :: "session \<Rightarrow> bool" where
  "credits_ok s \<longleftrightarrow> distinct (map ws_id (ss_workspaces s)) \<and>
     list_all (\<lambda>w. case ws_review_run_limit w of None \<Rightarrow> True | Some n \<Rightarrow> ws_completed_review_runs w \<le> n)
       (ss_workspaces s)"

definition findings_of :: "session \<Rightarrow> uuid \<Rightarrow> finding list" where
  "findings_of s k = filter (\<lambda>f. fi_review_run_id f = k) (ss_findings s)"

definition elsewhere :: "uuid \<Rightarrow> session \<Rightarrow> session \<Rightarrow> bool" where
  "elsewhere k s s' \<longleftrightarrow> get_review_run s' k = get_review_run s k \<and> findings_of s' k = findings_of s k \<and>
     (credits_ok s \<longrightarrow> credits_ok s')"

text \<open>\<open>run_exec env k n c c'\<close>: the task reaches \<open>c'\<close> from \<open>c\<close> in \<open>n\<close> statements of its own, with any
  number of supersedes (the conditional update of a new generation) and other changes in between.\<close>

inductive run_exec :: "run_env \<Rightarrow> uuid \<Rightarrow> nat \<Rightarrow> rconf \<Rightarrow> rconf \<Rightarrow> bool" for env k where
  stop: "run_exec env k 0 c c"
| work: "run_exec env k n c0 c \<Longrightarrow> rc_phase c \<noteq> Ph_finished \<Longrightarrow>
     run_exec env k (Suc n) c0 (run_step env k (rc_phase c) c)"
| supersede: "run_exec env k n c0 c \<Longrightarrow> \<not> locked c \<Longrightarrow>
     mark_review_run_ids_superseded_cas (rc_session c) ks = (s', ids) \<Longrightarrow>
     run_exec env k n c0 (c\<lparr>rc_session := s'\<rparr>)"
| other: "run_exec env k n c0 c \<Longrightarrow> elsewhere k (rc_session c) s' \<Longrightarrow>
     run_exec env k n c0 (c\<lparr>rc_session := s'\<rparr>)"

inductive_cases run_exec_zero: "run_exec env k 0 c c'"

definition run_once :: "run_env \<Rightarrow> uuid \<Rightarrow> rconf \<Rightarrow> rconf" where
  "run_once env k c = run_step env k (rc_phase c) c"

definition task_start :: "session \<Rightarrow> rconf" where
  "task_start s = \<lparr>rc_session = s, rc_phase = Ph_start, rc_pending = [], rc_before = None, rc_workspace = 0,
     rc_retries = 0, rc_credits = 0\<rparr>"

subsection \<open>Laws\<close>

lemma get_review_run_set:
  "(\<And>r. rr_id (f r) = rr_id r) \<Longrightarrow>
     get_review_run (set_run k f s) j = map_option (\<lambda>r. if rr_id r = k then f r else r) (get_review_run s j)"
  by (simp add: get_review_run_def set_run_def tbl_get_map)

lemma run_status_set:
  "(\<And>r. rr_id (f r) = rr_id r) \<Longrightarrow> run_status (set_run k f s) k = map_option (\<lambda>r. rr_status (f r)) (get_review_run s k)"
  by (cases "get_review_run s k") (auto simp: run_status_def get_review_run_set dest: get_review_run_id)

lemma run_status_fail [simp]: "run_status (fail_run k m s) k = map_option (\<lambda>_. RR_failed) (get_review_run s k)"
  by (simp add: fail_run_def run_status_set comp_def)

lemma set_run_frame [simp]:
  "ss_findings (set_run k f s) = ss_findings s" "ss_workspaces (set_run k f s) = ss_workspaces s"
  by (simp_all add: set_run_def)

lemma fail_run_frame [simp]:
  "ss_findings (fail_run k m s) = ss_findings s" "ss_workspaces (fail_run k m s) = ss_workspaces s"
  by (simp_all add: fail_run_def)

lemma delete_findings_frame [simp]:
  "get_review_run (delete_findings k s) = get_review_run s" "ss_workspaces (delete_findings k s) = ss_workspaces s"
  "findings_of (delete_findings k s) k = []"
  by (simp_all add: fun_eq_iff delete_findings_def get_review_run_def findings_of_def)

lemma run_status_delete [simp]: "run_status (delete_findings k s) j = run_status s j"
  by (simp add: run_status_def)

lemma add_pending_frame [simp]:
  "ss_review_runs (add_pending k ws s p) = ss_review_runs s" "ss_workspaces (add_pending k ws s p) = ss_workspaces s"
  by (simp_all add: add_pending_def tick_def split: prod.split)

lemma add_all_frame [simp]:
  "ss_review_runs (foldl (add_pending k ws) s ps) = ss_review_runs s"
  "ss_workspaces (foldl (add_pending k ws) s ps) = ss_workspaces s"
  by (induction ps arbitrary: s) simp_all

lemma run_status_cong: "ss_review_runs s' = ss_review_runs s \<Longrightarrow> run_status s' k = run_status s k"
  by (simp add: run_status_def get_review_run_def)

text \<open>The supersede of another transaction, as this run sees it.\<close>

lemma supersede_run_status:
  assumes "mark_review_run_ids_superseded_cas s ks = (s', ids)"
  shows "run_status s' k = run_status s k \<or>
    (run_status s' k = Some RR_superseded \<and> run_status s k \<in> {Some RR_pending, Some RR_processing})"
proof -
  from cas_result [OF assms] have "get_review_run s' k = map_option (\<lambda>r. if rr_id r \<in> set ks \<and> is_active_run r
      then supersede_run r else r) (get_review_run s k)"
    by (simp add: get_review_run_def tbl_get_map)
  then show ?thesis
    by (cases "get_review_run s k")
       (auto simp: run_status_def supersede_run_def is_active_run_def ACTIVE_REVIEW_RUN_STATUSES_def)
qed

lemma supersede_processing:
  assumes "mark_review_run_ids_superseded_cas s [k] = (s', ids)" and "run_status s k = Some RR_processing"
  shows "run_status s' k = Some RR_superseded"
proof -
  have "get_review_run s' k = map_option (\<lambda>r. if rr_id r \<in> set [k] \<and> is_active_run r then supersede_run r else r)
      (get_review_run s k)"
    using cas_result [OF assms(1)] by (simp add: get_review_run_def tbl_get_map)
  moreover obtain r where r: "get_review_run s k = Some r" "rr_status r = RR_processing"
    using assms(2) by (auto simp: run_status_def)
  ultimately show ?thesis
    using get_review_run_id [OF r(1)]
    by (simp add: run_status_def is_active_run_def ACTIVE_REVIEW_RUN_STATUSES_def supersede_run_def)
qed

lemma supersede_frame:
  assumes "mark_review_run_ids_superseded_cas s ks = (s', ids)"
  shows "ss_findings s' = ss_findings s" "ss_workspaces s' = ss_workspaces s"
  using cas_result [OF assms] by simp_all

lemma elsewhere_status: "elsewhere k s s' \<Longrightarrow> run_status s' k = run_status s k"
  by (simp add: elsewhere_def run_status_def)

subsection \<open>Termination\<close>

fun phase_rank :: "phase \<Rightarrow> nat" where
  "phase_rank Ph_start = 9"
| "phase_rank (Ph_retrieving resuming run job) = 8"
| "phase_rank (Ph_asking attempt pack) = (if attempt = 0 then 7 else 6)"
| "phase_rank (Ph_checking pack rows) = 5"
| "phase_rank Ph_confirming = 4"
| "phase_rank Ph_completing = 3"
| "phase_rank Ph_crediting = 2"
| "phase_rank Ph_returned = 1"
| "phase_rank (Ph_raised e) = 1"
| "phase_rank Ph_finished = 0"

definition task_fuel :: "rconf \<Rightarrow> nat" where
  "task_fuel c = (TASK_MAX_RETRIES - rc_retries c) * 10 + phase_rank (rc_phase c)"

lemma handle_exn_phase:
  "rc_retries (handle_exn env k c e) = rc_retries c" "phase_rank (rc_phase (handle_exn env k c e)) = 1"
  by (simp_all add: handle_exn_def returned_def)

lemma roll_back_phase [simp]:
  "rc_retries (roll_back k c) = rc_retries c" "rc_phase (roll_back k c) = rc_phase c"
  by (simp_all add: roll_back_def split: phase.split)

lemma run_step_fuel:
  assumes "rc_phase c \<noteq> Ph_finished"
  shows "task_fuel (run_step env k (rc_phase c) c) < task_fuel c"
proof (cases "rc_phase c")
  case Ph_start
  then show ?thesis
    by (auto simp: task_fuel_def step_start_def returned_def Let_def split: option.splits)
next
  case (Ph_retrieving resuming run job)
  then show ?thesis
    by (auto simp: task_fuel_def step_retrieve_def handle_exn_phase Let_def split: sum.splits prod.splits)
next
  case (Ph_asking attempt pack)
  then show ?thesis
    by (auto simp: task_fuel_def step_ask_def returned_def handle_exn_phase split: sum.splits prod.splits)
next
  case (Ph_raised e)
  then show ?thesis by (auto simp: task_fuel_def step_retry_def TASK_MAX_RETRIES_def)
qed (use assms in \<open>auto simp: task_fuel_def step_check_def step_confirm_def step_complete_def step_credit_def
       step_commit_def returned_def Let_def\<close>)

lemma finished_once: "rc_phase c = Ph_finished \<Longrightarrow> run_once env k c = c"
  by (simp add: run_once_def)

lemma fuel_zero: "task_fuel c = 0 \<Longrightarrow> rc_phase c = Ph_finished"
  by (cases "rc_phase c") (auto simp: task_fuel_def split: if_splits)

lemma run_exec_fuel: "run_exec env k n c0 c \<Longrightarrow> n + task_fuel c \<le> task_fuel c0"
proof (induction rule: run_exec.induct)
  case (work n c0 c)
  from run_step_fuel [OF work.hyps(2), of env k] work.IH show ?case by simp
qed (simp_all add: task_fuel_def)

text \<open>C31. The task ends: whatever the services answer and however other transactions interfere, it executes
  at most 39 statements of its own (three retries of at most ten, and nine), and it can always take its
  next statement until it is finished.\<close>

theorem review_task_terminates:
  assumes "run_exec env k n (task_start s) c"
  shows "n \<le> 39 \<and> (\<exists>m. m \<le> 39 - n \<and> rc_phase ((run_once env k ^^ m) c) = Ph_finished)"
proof -
  have "rc_phase ((run_once env k ^^ m) c) = Ph_finished \<or> m + task_fuel ((run_once env k ^^ m) c) \<le> task_fuel c" for m
  proof (induction m)
    case (Suc m)
    let ?c = "(run_once env k ^^ m) c"
    show ?case
    proof (cases "rc_phase ?c = Ph_finished")
      case True
      then show ?thesis by (simp add: finished_once)
    next
      case False
      then have "task_fuel (run_once env k ?c) < task_fuel ?c"
        unfolding run_once_def by (rule run_step_fuel)
      with Suc False show ?thesis by simp
    qed
  qed simp
  from this [of "task_fuel c"] have "rc_phase ((run_once env k ^^ task_fuel c) c) = Ph_finished"
    using fuel_zero by auto
  moreover have "n + task_fuel c \<le> 39"
    using run_exec_fuel [OF assms] by (simp add: task_fuel_def task_start_def TASK_MAX_RETRIES_def)
  ultimately show ?thesis by (intro conjI exI [of _ "task_fuel c"]) simp_all
qed

subsection \<open>Superseded runs\<close>

text \<open>The lock: while an uncommitted claim or completion holds the row, the row is what the task made it.\<close>

definition lock_inv :: "uuid \<Rightarrow> rconf \<Rightarrow> bool" where
  "lock_inv k c \<longleftrightarrow>
     (rc_before c \<noteq> None \<and> rc_phase c \<noteq> Ph_returned \<and> rc_phase c \<noteq> Ph_crediting \<longrightarrow>
        run_status (rc_session c) k = Some RR_processing) \<and>
     (rc_phase c = Ph_crediting \<longrightarrow> run_status (rc_session c) k = Some RR_completed)"

definition dead :: "review_run_status option \<Rightarrow> bool" where
  "dead st \<longleftrightarrow> st = Some RR_superseded \<or> st = Some RR_failed"

lemma dead_simps [simp]:
  "dead (Some RR_superseded)" "dead (Some RR_failed)" "\<not> dead (Some RR_processing)" "\<not> dead (Some RR_completed)"
  "\<not> dead (Some RR_pending)" "\<not> dead None"
  by (simp_all add: dead_def)

lemma dead_row: "dead (run_status s k) \<Longrightarrow> \<exists>r. get_review_run s k = Some r"
  by (auto simp: dead_def run_status_def)

lemma run_status_same [simp]:
  "run_status (set_run k (rr_context_stats_update f) s) k = run_status s k"
  "run_status (set_run k (\<lambda>r. r\<lparr>rr_provider := a, rr_model_id := b\<rparr>) s) k = run_status s k"
  by (simp_all add: run_status_set) (simp_all add: run_status_def)

lemma handle_exn_cases:
  "(\<exists>m. handle_exn env k c e = returned c (fail_run k m (rc_session c))) \<or>
     handle_exn env k c e = c\<lparr>rc_phase := Ph_raised e\<rparr>"
  by (auto simp: handle_exn_def)

lemma returned_sel [simp]:
  "rc_session (returned c s) = s" "rc_phase (returned c s) = Ph_returned" "rc_before (returned c s) = rc_before c"
  "rc_pending (returned c s) = rc_pending c" "rc_credits (returned c s) = rc_credits c"
  by (simp_all add: returned_def)

lemma dead_handle: "dead (run_status (rc_session c) k) \<Longrightarrow> dead (run_status (rc_session (handle_exn env k c e)) k)"
  using handle_exn_cases [of env k c e] dead_row [of "rc_session c" k] by auto

lemma lock_handle: "lock_inv k c \<Longrightarrow> rc_phase c \<noteq> Ph_returned \<Longrightarrow> rc_phase c \<noteq> Ph_crediting \<Longrightarrow> lock_inv k (handle_exn env k c e)"
  using handle_exn_cases [of env k c e] by (auto simp: lock_inv_def)

lemma roll_back_before:
  "rc_before c = None \<Longrightarrow> rc_session (roll_back k c) = rc_session c"
  by (simp add: roll_back_def split: phase.split)

lemma lock_roll_back: "lock_inv k c \<Longrightarrow> lock_inv k (roll_back k c)"
  by (auto simp: lock_inv_def roll_back_def split: phase.split)

lemma claim_status:
  "get_review_run s k = Some run \<Longrightarrow> run_status (claim_run k s) k =
     Some (if rr_status run = RR_pending then RR_processing else rr_status run)"
  by (simp add: claim_run_def run_status_set)

lemma complete_status:
  "run_status s k = Some RR_processing \<Longrightarrow> run_status (complete_run k s) k = Some RR_completed"
  by (simp add: complete_run_def run_status_set) (auto simp: run_status_def)

lemma step_start_safe:
  assumes "lock_inv k c" and "rc_before c = None" and "rc_phase c = Ph_start"
  shows "lock_inv k (step_start k c)"
    and "dead (run_status (rc_session c) k) \<Longrightarrow> dead (run_status (rc_session (step_start k c)) k)"
proof -
  have "lock_inv k (step_start k c) \<and>
    (dead (run_status (rc_session c) k) \<longrightarrow> dead (run_status (rc_session (step_start k c)) k))"
  proof (cases "get_review_run (rc_session c) k")
    case None
    with assms show ?thesis by (simp add: step_start_def lock_inv_def)
  next
    case (Some run)
    have "run_status (rc_session c) k = Some (rr_status run)" by (simp add: run_status_def Some)
    with Some assms claim_status [OF Some] show ?thesis
      by (auto simp: step_start_def lock_inv_def Let_def split: option.splits)
  qed
  then show "lock_inv k (step_start k c)"
    "dead (run_status (rc_session c) k) \<Longrightarrow> dead (run_status (rc_session (step_start k c)) k)" by simp_all
qed

lemma step_retrieve_safe:
  assumes "lock_inv k c" and "rc_phase c \<noteq> Ph_returned" and "rc_phase c \<noteq> Ph_crediting"
  shows "lock_inv k (step_retrieve env k c resuming run job)"
    and "dead (run_status (rc_session c) k) \<Longrightarrow> dead (run_status (rc_session (step_retrieve env k c resuming run job)) k)"
proof -
  have st: "lock_inv k (c\<lparr>rc_session := set_run k (rr_context_stats_update f) (rc_session c)\<rparr>)" for f
    using assms(1) by (simp add: lock_inv_def)
  from lock_handle [OF st] lock_handle [OF assms] assms
  show "lock_inv k (step_retrieve env k c resuming run job)"
    by (auto simp: step_retrieve_def Let_def split: sum.splits prod.splits) (auto simp: lock_inv_def)
  show "dead (run_status (rc_session (step_retrieve env k c resuming run job)) k)" if "dead (run_status (rc_session c) k)"
    using that dead_handle [of c k] dead_handle [of "c\<lparr>rc_session := set_run k (rr_context_stats_update f) (rc_session c)\<rparr>" k for f]
    by (auto simp: step_retrieve_def Let_def split: sum.splits prod.splits)
qed

lemma step_ask_safe:
  assumes "lock_inv k c" and "rc_phase c \<noteq> Ph_returned" and "rc_phase c \<noteq> Ph_crediting"
  shows "lock_inv k (step_ask env k c attempt pack)"
    and "dead (run_status (rc_session c) k) \<Longrightarrow> dead (run_status (rc_session (step_ask env k c attempt pack)) k)"
proof -
  show "lock_inv k (step_ask env k c attempt pack)"
    using lock_handle [OF assms] assms
    by (auto simp: step_ask_def split: sum.splits prod.splits) (auto simp: lock_inv_def)
  show "dead (run_status (rc_session (step_ask env k c attempt pack)) k)" if "dead (run_status (rc_session c) k)"
    using that dead_handle [of c k] dead_row [of "rc_session c" k] by (auto simp: step_ask_def split: sum.splits prod.splits)
qed

lemma mark_failed_status:
  "run_status (mark_review_run_failed k m s) k =
     (if run_status s k = Some RR_completed \<or> run_status s k = Some RR_failed then run_status s k
      else map_option (\<lambda>_. RR_failed) (run_status s k))"
proof (cases "get_review_run s k")
  case None
  then show ?thesis by (simp add: mark_review_run_failed_def run_status_def)
next
  case (Some r)
  then have "run_status s k = Some (rr_status r)" by (simp add: run_status_def)
  with Some show ?thesis by (auto simp: mark_review_run_failed_def)
qed

text \<open>A task that starts, or has raised, holds no claim.\<close>

definition claim_inv :: "rconf \<Rightarrow> bool" where
  "claim_inv c \<longleftrightarrow> (case rc_phase c of Ph_start \<Rightarrow> rc_before c = None | Ph_raised e \<Rightarrow> rc_before c = None | _ \<Rightarrow> True)"

lemma claim_roll_back:
  "rc_phase c \<noteq> Ph_start \<Longrightarrow> claim_inv (roll_back k c)"
  by (auto simp: claim_inv_def roll_back_def split: phase.splits)

lemma handle_not_start: "rc_phase (handle_exn env k c e) \<noteq> Ph_start"
  using handle_exn_cases [of env k c e] by auto

lemma claim_step:
  assumes "claim_inv c" and "rc_phase c \<noteq> Ph_finished"
  shows "claim_inv (run_step env k (rc_phase c) c)"
proof (cases "rc_phase c")
  case Ph_start
  with assms show ?thesis by (auto simp: claim_inv_def step_start_def Let_def split: option.splits)
next
  case (Ph_retrieving resuming run job)
  then have "rc_phase (step_retrieve env k c resuming run job) \<noteq> Ph_start"
    using handle_not_start by (auto simp: step_retrieve_def Let_def split: sum.splits prod.splits)
  with Ph_retrieving show ?thesis by (simp add: claim_roll_back)
next
  case (Ph_asking attempt pack)
  then have "rc_phase (step_ask env k c attempt pack) \<noteq> Ph_start"
    using handle_not_start by (auto simp: step_ask_def split: sum.splits prod.splits)
  with Ph_asking show ?thesis by (simp add: claim_roll_back)
qed (use assms in \<open>auto simp: claim_inv_def step_check_def step_confirm_def step_complete_def step_credit_def
       step_commit_def step_retry_def Let_def\<close>)

lemma run_step_safe:
  assumes "lock_inv k c" and "claim_inv c" and "rc_phase c \<noteq> Ph_finished"
  shows "lock_inv k (run_step env k (rc_phase c) c) \<and>
    (dead (run_status (rc_session c) k) \<longrightarrow> dead (run_status (rc_session (run_step env k (rc_phase c) c)) k))"
proof (cases "rc_phase c")
  case Ph_start
  with assms step_start_safe [of k c] show ?thesis by (simp add: claim_inv_def)
next
  case (Ph_retrieving resuming run job)
  have "lock_inv k (step_retrieve env k c resuming run job)"
    using step_retrieve_safe(1) [OF assms(1)] Ph_retrieving by simp
  moreover have "dead (run_status (rc_session (roll_back k (step_retrieve env k c resuming run job))) k)"
    if d: "dead (run_status (rc_session c) k)"
  proof -
    have "rc_before c = None" using assms(1) d Ph_retrieving by (auto simp: lock_inv_def)
    then have "rc_before (step_retrieve env k c resuming run job) = None"
      by (auto simp: step_retrieve_def handle_exn_def Let_def split: sum.splits prod.splits)
    with step_retrieve_safe(2) [OF assms(1)] d Ph_retrieving show ?thesis by (simp add: roll_back_before)
  qed
  ultimately show ?thesis using Ph_retrieving by (simp add: lock_roll_back)
next
  case (Ph_asking attempt pack)
  have "lock_inv k (step_ask env k c attempt pack)" using step_ask_safe(1) [OF assms(1)] Ph_asking by simp
  moreover have "dead (run_status (rc_session (roll_back k (step_ask env k c attempt pack))) k)"
    if d: "dead (run_status (rc_session c) k)"
  proof -
    have "rc_before c = None" using assms(1) d Ph_asking by (auto simp: lock_inv_def)
    then have "rc_before (step_ask env k c attempt pack) = None"
      by (auto simp: step_ask_def handle_exn_def split: sum.splits prod.splits)
    with step_ask_safe(2) [OF assms(1)] d Ph_asking show ?thesis by (simp add: roll_back_before)
  qed
  ultimately show ?thesis using Ph_asking by (simp add: lock_roll_back)
next
  case Ph_completing
  with assms(1) complete_status show ?thesis by (auto simp: lock_inv_def step_complete_def)
next
  case Ph_crediting
  have "run_status (s\<lparr>ss_workspaces := ws\<rparr>) k = run_status s k" for s ws by (rule run_status_cong) simp
  with Ph_crediting assms(1) show ?thesis by (simp add: lock_inv_def step_credit_def Let_def)
next
  case Ph_returned
  have "run_status (foldl (add_pending k ws) s ps) k = run_status s k" for ws s ps by (rule run_status_cong) simp
  with Ph_returned show ?thesis by (simp add: lock_inv_def step_commit_def)
next
  case (Ph_raised e)
  with assms(2) have "rc_before c = None" by (simp add: claim_inv_def)
  with Ph_raised show ?thesis by (auto simp: lock_inv_def step_retry_def mark_failed_status dead_def)
qed (use assms in \<open>auto simp: lock_inv_def step_check_def step_confirm_def\<close>)

lemma other_safe:
  assumes "lock_inv k c" and "run_status s' k = run_status (rc_session c) k"
  shows "lock_inv k (c\<lparr>rc_session := s'\<rparr>)"
  using assms by (simp add: lock_inv_def)

lemma supersede_safe:
  assumes "lock_inv k c" and "\<not> locked c" and "mark_review_run_ids_superseded_cas (rc_session c) ks = (s', ids)"
  shows "lock_inv k (c\<lparr>rc_session := s'\<rparr>) \<and> (dead (run_status (rc_session c) k) \<longrightarrow> dead (run_status s' k))"
  using assms(1,2) supersede_run_status [OF assms(3), of k] by (auto simp: lock_inv_def locked_def)

lemma claim_inv_session [simp]: "claim_inv (c\<lparr>rc_session := s\<rparr>) = claim_inv c"
  by (simp add: claim_inv_def split: phase.split)

lemma handle_credits [simp]: "rc_credits (handle_exn env k c e) = rc_credits c"
  using handle_exn_cases [of env k c e] by auto

lemma roll_back_credits [simp]: "rc_credits (roll_back k c) = rc_credits c"
  by (simp add: roll_back_def split: phase.split)

lemma credits_step:
  "rc_phase c \<noteq> Ph_crediting \<Longrightarrow> rc_credits (run_step env k (rc_phase c) c) = rc_credits c"
  by (cases "rc_phase c")
     (auto simp: step_start_def step_retrieve_def step_ask_def step_check_def step_confirm_def step_complete_def
       step_commit_def step_retry_def Let_def split: option.splits sum.splits prod.splits)

lemma run_exec_safe:
  "run_exec env k n c0 c \<Longrightarrow> lock_inv k c0 \<and> claim_inv c0 \<Longrightarrow>
     lock_inv k c \<and> claim_inv c \<and>
     (dead (run_status (rc_session c0) k) \<longrightarrow> dead (run_status (rc_session c) k) \<and> rc_credits c = rc_credits c0)"
proof (induction rule: run_exec.induct)
  case (work n c0 c)
  have "dead (run_status (rc_session c) k) \<Longrightarrow> rc_phase c \<noteq> Ph_crediting" using work by (auto simp: lock_inv_def)
  with work run_step_safe [of k c env] claim_step [of c env k] credits_step [of c env k] show ?case by auto
next
  case (supersede n c0 c ks s' ids)
  with supersede_safe [of k c ks s' ids] show ?case by auto
next
  case (other n c0 c s')
  from elsewhere_status [OF other.hyps(2)] other other_safe [of k c s'] show ?case by simp
qed simp

lemma task_start_inv: "lock_inv k (task_start s) \<and> claim_inv (task_start s)"
  by (simp add: lock_inv_def claim_inv_def task_start_def)

subsection \<open>Credits\<close>

lemma credit_count:
  "distinct (map ws_id ws) \<Longrightarrow> count_if (\<lambda>w. ws_id w = k \<and> P w) ws \<le> 1"
proof (induction ws)
  case (Cons w ws)
  show ?case
  proof (cases "ws_id w = k")
    case True
    with Cons.prems have "\<forall>v\<in>set ws. ws_id v \<noteq> k" by (auto simp: rev_image_eqI)
    then have "filter (\<lambda>w. ws_id w = k \<and> P w) ws = []" by (auto simp: filter_empty_conv)
    then show ?thesis by (simp add: count_if_def)
  next
    case False
    with Cons show ?thesis by (simp add: count_if_def)
  qed
qed (simp add: count_if_def)

lemma credits_ok_increment:
  assumes "credits_ok s"
  shows "credits_ok (s\<lparr>ss_workspaces := tbl_map (\<lambda>w. ws_id w = k \<and> takes_credit w)
    (\<lambda>w. w\<lparr>ws_completed_review_runs := ws_completed_review_runs w + 1\<rparr>) (ss_workspaces s)\<rparr>)"
proof -
  let ?f = "\<lambda>w. w\<lparr>ws_completed_review_runs := ws_completed_review_runs w + 1\<rparr>"
  have "map ws_id (tbl_map (\<lambda>w. ws_id w = k \<and> takes_credit w) ?f (ss_workspaces s)) = map ws_id (ss_workspaces s)"
    by (rule tbl_map_keys) simp
  with assms show ?thesis
    by (auto simp: credits_ok_def list_all_iff tbl_map_set takes_credit_def split: option.splits)
qed

definition credit_inv :: "uuid \<Rightarrow> rconf \<Rightarrow> bool" where
  "credit_inv k c \<longleftrightarrow> credits_ok (rc_session c) \<and>
     (rc_credits c = 0 \<or>
       rc_credits c = 1 \<and> run_status (rc_session c) k = Some RR_completed \<and> rc_phase c \<in> {Ph_returned, Ph_finished})"

lemma credits_ok_cong: "ss_workspaces s' = ss_workspaces s \<Longrightarrow> credits_ok s' = credits_ok s"
  by (simp add: credits_ok_def)

lemma handle_workspaces [simp]: "ss_workspaces (rc_session (handle_exn env k c e)) = ss_workspaces (rc_session c)"
  using handle_exn_cases [of env k c e] by auto

lemma workspaces_step:
  "rc_phase c \<noteq> Ph_crediting \<Longrightarrow> ss_workspaces (rc_session (run_step env k (rc_phase c) c)) = ss_workspaces (rc_session c)"
  by (cases "rc_phase c")
     (auto simp: step_start_def step_retrieve_def step_ask_def step_check_def step_confirm_def step_complete_def
       step_commit_def step_retry_def roll_back_def claim_run_def complete_run_def mark_review_run_failed_def Let_def
       delete_findings_def split: option.splits sum.splits prod.splits phase.splits)

lemma credit_step:
  assumes "credit_inv k c" and "lock_inv k c" and "rc_phase c \<noteq> Ph_finished"
  shows "credit_inv k (run_step env k (rc_phase c) c)"
proof (cases "rc_phase c = Ph_crediting")
  case True
  let ?hit = "\<lambda>w. ws_id w = rc_workspace c \<and> takes_credit w"
  have zero: "rc_credits c = 0" and ok: "credits_ok (rc_session c)" using assms(1) True by (auto simp: credit_inv_def)
  have "count_if ?hit (ss_workspaces (rc_session c)) \<le> 1" using ok by (intro credit_count) (simp add: credits_ok_def)
  moreover have "run_status ((rc_session c)\<lparr>ss_workspaces := ws\<rparr>) k = Some RR_completed" for ws
    using assms(2) True run_status_cong [of "(rc_session c)\<lparr>ss_workspaces := ws\<rparr>" "rc_session c" k]
    by (simp add: lock_inv_def)
  ultimately show ?thesis using True zero credits_ok_increment [OF ok]
    by (auto simp: credit_inv_def step_credit_def Let_def le_Suc_eq)
next
  case False
  from assms(1) consider "rc_credits c = 0" | "rc_phase c = Ph_returned" "run_status (rc_session c) k = Some RR_completed"
    "rc_credits c = 1" using assms(3) by (auto simp: credit_inv_def)
  then show ?thesis
  proof cases
    case 1
    from credits_ok_cong [OF workspaces_step [OF False, of env k]] credits_step [OF False, of env k] 1 assms(1)
    show ?thesis by (simp add: credit_inv_def)
  next
    case 2
    have "run_status (foldl (add_pending k ws) s ps) k = run_status s k" for ws s ps by (rule run_status_cong) simp
    moreover have "credits_ok (foldl (add_pending k ws) s ps) = credits_ok s" for ws s ps by (rule credits_ok_cong) simp
    ultimately show ?thesis using 2 assms(1) by (simp add: credit_inv_def step_commit_def)
  qed
qed

lemma run_exec_credit:
  "run_exec env k n c0 c \<Longrightarrow> lock_inv k c0 \<and> claim_inv c0 \<and> credit_inv k c0 \<Longrightarrow> credit_inv k c"
proof (induction rule: run_exec.induct)
  case (work n c0 c)
  with run_exec_safe [OF work.hyps(1)] credit_step [of k c env] show ?case by simp
next
  case (supersede n c0 c ks s' ids)
  then show ?case
    using supersede_run_status [OF supersede.hyps(3), of k] credits_ok_cong [OF supersede_frame(2) [OF supersede.hyps(3)]]
    by (auto simp: credit_inv_def)
next
  case (other n c0 c s')
  with elsewhere_status [OF other.hyps(2)] show ?case by (auto simp: credit_inv_def elsewhere_def)
qed simp

subsection \<open>Properties of the task\<close>

text \<open>C29. A superseded run is never completed: once a run is superseded (at any point of its task, however
  the task and the supersedes interleave, retries included), it stays superseded or failed, and no credit
  is taken for it from then on.\<close>

theorem superseded_never_completes:
  assumes "run_exec env k m (task_start s) c" and "run_status (rc_session c) k = Some RR_superseded"
    and "run_exec env k n c c'"
  shows "run_status (rc_session c') k \<in> {Some RR_superseded, Some RR_failed} \<and> rc_credits c' = rc_credits c"
proof -
  from run_exec_safe [OF assms(1) task_start_inv] have "lock_inv k c \<and> claim_inv c" by simp
  from run_exec_safe [OF assms(3) this] assms(2) show ?thesis by (auto simp: dead_def)
qed

text \<open>C30. Credits: a task takes at most one credit, only for a run it has completed, and however many tasks
  and other writers run at the same time no workspace is charged beyond its limit.\<close>

theorem one_credit_per_completed_run:
  assumes "run_exec env k n (task_start s) c" and "credits_ok s"
  shows "rc_credits c \<le> 1 \<and> (rc_credits c = 1 \<longrightarrow> run_status (rc_session c) k = Some RR_completed) \<and>
    (\<forall>w\<in>set (ss_workspaces (rc_session c)). \<forall>limit. ws_review_run_limit w = Some limit \<longrightarrow>
       ws_completed_review_runs w \<le> limit)"
proof -
  have "credit_inv k (task_start s)" using assms(2) by (simp add: credit_inv_def task_start_def)
  with run_exec_credit [OF assms(1)] task_start_inv have "credit_inv k c" by blast
  then show ?thesis by (auto simp: credit_inv_def credits_ok_def list_all_iff)
qed

text \<open>The findings of a run, as its answer gave them.\<close>

definition finding_content :: "finding \<Rightarrow> pending_finding" where
  "finding_content f = (\<lparr>fr_severity = fi_severity f, fr_category = fi_category f, fr_title = fi_title f,
     fr_message = fi_message f, fr_file_path = fi_file_path f, fr_start_line = fi_start_line f,
     fr_end_line = fi_end_line f, fr_suggestion = fi_suggestion f\<rparr>, fi_evidence_snippet f)"

lemma content_of_added:
  "map finding_content (findings_of (foldl (add_pending k ws) s ps) k) = map finding_content (findings_of s k) @ ps"
proof (induction ps arbitrary: s)
  case (Cons p ps)
  obtain row ev where p: "p = (row, ev)" by fastforce
  have "map finding_content (findings_of (add_pending k ws s p) k) = map finding_content (findings_of s k) @ [p]"
    by (simp add: findings_of_def add_pending_def tick_def tbl_add_def finding_content_def p)
  with Cons.IH [of "add_pending k ws s p"] show ?case by simp
qed simp

text \<open>In the middle of the task the run is not completed, and before the answer is saved the session
  holds nothing.\<close>

definition progress_inv :: "uuid \<Rightarrow> rconf \<Rightarrow> bool" where
  "progress_inv k c \<longleftrightarrow>
     (case rc_phase c of
        Ph_start \<Rightarrow> rc_pending c = []
      | Ph_retrieving resuming run job \<Rightarrow> rc_pending c = [] \<and> run_status (rc_session c) k \<noteq> Some RR_completed
      | Ph_asking attempt pack \<Rightarrow> rc_pending c = [] \<and> run_status (rc_session c) k \<noteq> Some RR_completed
      | Ph_checking pack rows \<Rightarrow> rc_pending c = [] \<and> run_status (rc_session c) k \<noteq> Some RR_completed
      | Ph_raised e \<Rightarrow> rc_pending c = []
      | _ \<Rightarrow> True)"

lemma handle_progress:
  "rc_pending (handle_exn env k c e) = rc_pending c"
  "progress_inv k (roll_back k (handle_exn env k c e))"
  using handle_exn_cases [of env k c e] by (auto simp: progress_inv_def roll_back_def)

lemma progress_step:
  assumes "progress_inv k c" and "rc_phase c \<noteq> Ph_finished"
  shows "progress_inv k (run_step env k (rc_phase c) c)"
proof (cases "rc_phase c")
  case Ph_start
  show ?thesis
  proof (cases "get_review_run (rc_session c) k")
    case None
    with Ph_start assms show ?thesis by (simp add: step_start_def progress_inv_def)
  next
    case (Some run)
    with Ph_start assms claim_status [OF Some] show ?thesis
      by (auto simp: step_start_def progress_inv_def Let_def split: option.splits)
  qed
next
  case (Ph_retrieving resuming run job)
  with assms have inv: "rc_pending c = []" "run_status (rc_session c) k \<noteq> Some RR_completed"
    by (simp_all add: progress_inv_def)
  show ?thesis
  proof (cases "re_context env (rc_session c) run job")
    case (Inl e)
    with Ph_retrieving handle_progress(2) show ?thesis by (simp add: step_retrieve_def)
  next
    case (Inr pack)
    define c' where "c' = (if resuming then c
      else c\<lparr>rc_session := set_run k (rr_context_stats_update (\<lambda>_. Some (cp_stats pack))) (rc_session c)\<rparr>)"
    have inv': "rc_pending c' = []" "run_status (rc_session c') k \<noteq> Some RR_completed"
      using inv by (simp_all add: c'_def)
    have step: "step_retrieve env k c resuming run job = (case re_model env (rc_session c') run of
        Inl e \<Rightarrow> handle_exn env k c' e
      | Inr (provider, model_id) \<Rightarrow>
          if resuming then c'\<lparr>rc_phase := Ph_asking 0 pack\<rparr>
          else c'\<lparr>rc_session := set_run k (\<lambda>r. r\<lparr>rr_provider := Some provider, rr_model_id := Some model_id\<rparr>)
                   (rc_session c'), rc_before := None, rc_phase := Ph_asking 0 pack\<rparr>)"
      unfolding step_retrieve_def Inr Let_def sum.case c'_def by (rule refl)
    show ?thesis
    proof (cases "re_model env (rc_session c') run")
      case (Inl e)
      with Ph_retrieving step handle_progress(2) show ?thesis by simp
    next
      case (Inr m)
      with Ph_retrieving step inv' show ?thesis by (cases m) (simp add: progress_inv_def roll_back_def)
    qed
  qed
next
  case (Ph_asking attempt pack)
  with assms have inv: "rc_pending c = []" "run_status (rc_session c) k \<noteq> Some RR_completed"
    by (simp_all add: progress_inv_def)
  have ok: "progress_inv k (roll_back k (handle_exn env k c e))" for e by (rule handle_progress)
  have asking: "progress_inv k (roll_back k (c\<lparr>rc_phase := Ph_asking n pack\<rparr>))"
    and rows_ok: "progress_inv k (roll_back k (c\<lparr>rc_phase := Ph_checking pack rows\<rparr>))"
    and failed: "progress_inv k (roll_back k (returned c s))" for n rows s
    using inv by (simp_all add: progress_inv_def roll_back_def)
  from Ph_asking show ?thesis
    by (simp add: step_ask_def ok asking rows_ok failed split: sum.split prod.split)
qed (use assms in \<open>auto simp: progress_inv_def step_check_def step_confirm_def step_complete_def step_credit_def
       step_commit_def step_retry_def Let_def\<close>)

lemma run_exec_progress: "run_exec env k n c0 c \<Longrightarrow> progress_inv k c0 \<Longrightarrow> progress_inv k c"
proof (induction rule: run_exec.induct)
  case (work n c0 c)
  then show ?case by (simp add: progress_step)
next
  case (supersede n c0 c ks s' ids)
  with supersede_run_status [OF supersede.hyps(3), of k] show ?case
    by (auto simp: progress_inv_def split: phase.splits)
next
  case (other n c0 c s')
  with elsewhere_status [OF other.hyps(2)] show ?case by (auto simp: progress_inv_def split: phase.splits)
qed

definition answer_inv :: "uuid \<Rightarrow> context_pack \<Rightarrow> finding_row list \<Rightarrow> rconf \<Rightarrow> bool" where
  "answer_inv k pack rows c \<longleftrightarrow>
     (let ps = map (with_evidence pack) rows; completed = (run_status (rc_session c) k = Some RR_completed)
      in case rc_phase c of
           Ph_checking pack' rows' \<Rightarrow> pack' = pack \<and> rows' = rows \<and> rc_pending c = [] \<and> \<not> completed
         | Ph_confirming \<Rightarrow> rc_pending c = ps \<and> findings_of (rc_session c) k = [] \<and> \<not> completed
         | Ph_completing \<Rightarrow> rc_pending c = ps \<and> findings_of (rc_session c) k = [] \<and> \<not> completed
         | Ph_crediting \<Rightarrow> rc_pending c = ps \<and> findings_of (rc_session c) k = []
         | Ph_returned \<Rightarrow> completed \<longrightarrow> rc_pending c = ps \<and> findings_of (rc_session c) k = []
         | Ph_finished \<Rightarrow> completed \<longrightarrow> map finding_content (findings_of (rc_session c) k) = ps
         | _ \<Rightarrow> False)"

lemma findings_of_cong: "ss_findings s' = ss_findings s \<Longrightarrow> findings_of s' k = findings_of s k"
  by (simp add: findings_of_def)

lemma answer_step:
  assumes "answer_inv k pack rows c" and "rc_phase c \<noteq> Ph_finished"
  shows "answer_inv k pack rows (run_step env k (rc_phase c) c)"
proof -
  have cr: "findings_of (complete_run k s) k = findings_of s k" for s by (rule findings_of_cong) (simp add: complete_run_def)
  have ws: "findings_of (s\<lparr>ss_workspaces := w\<rparr>) k = findings_of s k" for s w by (rule findings_of_cong) simp
  have fl: "run_status (foldl (add_pending k w) s ps) k = run_status s k" for w s ps by (rule run_status_cong) simp
  from assms show ?thesis
    by (cases "rc_phase c")
       (auto simp: answer_inv_def step_check_def step_confirm_def step_complete_def step_credit_def step_commit_def
         cr ws fl content_of_added Let_def)
qed

lemma run_exec_answer: "run_exec env k n c0 c \<Longrightarrow> answer_inv k pack rows c0 \<Longrightarrow> answer_inv k pack rows c"
proof (induction rule: run_exec.induct)
  case (work n c0 c)
  then show ?case by (simp add: answer_step)
next
  case (supersede n c0 c ks s' ids)
  with supersede_run_status [OF supersede.hyps(3), of k] findings_of_cong [OF supersede_frame(1) [OF supersede.hyps(3)]]
  show ?case by (auto simp: answer_inv_def Let_def split: phase.splits)
next
  case (other n c0 c s')
  with elsewhere_status [OF other.hyps(2)] show ?case
    by (auto simp: answer_inv_def elsewhere_def Let_def split: phase.splits)
qed

text \<open>C34. A completed run has exactly the findings of its last answer, in order and with their evidence,
  however other transactions interfered between the answer and the commit.\<close>

theorem completed_run_findings:
  assumes "run_exec env k m (task_start s) c" and "rc_phase c = Ph_checking pack rows"
    and "run_exec env k n c c'" and "rc_phase c' = Ph_finished"
    and "run_status (rc_session c') k = Some RR_completed"
  shows "map finding_content (findings_of (rc_session c') k) = map (with_evidence pack) rows"
proof -
  have "progress_inv k (task_start s)" by (simp add: progress_inv_def task_start_def)
  with run_exec_progress [OF assms(1)] assms(2) have "answer_inv k pack rows c"
    by (simp add: progress_inv_def answer_inv_def)
  from run_exec_answer [OF assms(3) this] assms(4,5) show ?thesis by (simp add: answer_inv_def Let_def)
qed

text \<open>The findings of a run that is superseded while they are being saved are not removed: the delete
  that should remove them reaches the database before they do, and the commit of the task then stores
  them with the superseded run.\<close>

theorem abandoned_findings_survive:
  assumes "rc_phase c = Ph_confirming" and "\<not> locked c" and "run_status (rc_session c) k = Some RR_processing"
  shows "\<exists>c'. run_exec env k 2 c c' \<and> rc_phase c' = Ph_finished \<and>
    run_status (rc_session c') k = Some RR_superseded \<and>
    map finding_content (findings_of (rc_session c') k) = rc_pending c"
proof -
  obtain s' ids where cas: "mark_review_run_ids_superseded_cas (rc_session c) [k] = (s', ids)" by fastforce
  have st: "run_status s' k = Some RR_superseded" by (rule supersede_processing [OF cas assms(3)])
  let ?c1 = "c\<lparr>rc_session := s'\<rparr>"
  let ?c2 = "returned ?c1 (delete_findings k s')"
  have "run_exec env k 0 c ?c1" by (rule run_exec.supersede [OF run_exec.stop assms(2) cas])
  from run_exec.work [OF this] assms(1) st have 1: "run_exec env k 1 c ?c2" by (simp add: step_confirm_def)
  let ?c3 = "step_commit k ?c2"
  from run_exec.work [OF 1] have "run_exec env k 2 c ?c3" by (simp add: numeral_2_eq_2)
  moreover have "run_status (rc_session ?c3) k = Some RR_superseded"
    using st run_status_cong [of "foldl (add_pending k (rc_workspace c)) (delete_findings k s') (rc_pending c)" "delete_findings k s'" k]
    by (simp add: step_commit_def returned_def)
  moreover have "map finding_content (findings_of (rc_session ?c3) k) = rc_pending c"
    by (simp add: step_commit_def returned_def content_of_added)
  ultimately show ?thesis by (intro exI [of _ ?c3]) (simp add: step_commit_def)
qed

text \<open>C35. At most one run of a revision is in flight: a run is only created when no run of the revision is
  pending or processing and the credits are not used up, and while the new one is, any further request
  for the revision fails and changes nothing.\<close>

theorem create_run_exclusive:
  assumes "create_review_run st s ws repo pr rv profile = Inr (s', run)"
  shows "\<not> review_in_progress s ws rv \<and> review_in_progress s' ws rv \<and> rr_status run = RR_pending \<and>
    ss_review_runs s' = ss_review_runs s @ [run] \<and>
    (\<exists>w. get_workspace s ws = Some w \<and> \<not> credit_limit_reached w) \<and>
    (\<exists>e. create_review_run st s' ws repo pr rv profile' = Inl e)"
proof -
  have in_s: "\<not> review_in_progress s ws rv" and w: "\<exists>w. get_workspace s ws = Some w \<and> \<not> credit_limit_reached w"
    and s': "s' = tick (s\<lparr>ss_review_runs := tbl_add run (ss_review_runs s)\<rparr>)"
    and r: "rr_workspace_id run = ws" "rr_revision_id run = rv" "rr_status run = RR_pending"
    using assms by (auto simp: create_review_run_def rbind_eq_Inr Let_def new_review_run_def split: if_splits option.splits)
  have busy: "review_in_progress s' ws rv" by (simp add: review_in_progress_def s' tick_def tbl_add_def r)
  have "create_review_run st s' ws repo pr rv profile' \<noteq> Inr x" for x
    using busy by (cases x) (auto simp: create_review_run_def rbind_eq_Inr Let_def split: if_splits option.splits)
  then have "\<exists>e. create_review_run st s' ws repo pr rv profile' = Inl e"
    by (cases "create_review_run st s' ws repo pr rv profile'") auto
  with in_s busy w r s' show ?thesis by (simp add: tick_def tbl_add_def)
qed

subsection \<open>A concrete task\<close>

definition demo_pack :: context_pack where
  "demo_pack = \<lparr>cp_prompt = S ''Review'', cp_manifest = [], cp_patches = [(S ''a.py'', S ''@@ -7 +7 @@'')],
     cp_hits = [], cp_stats = JObj []\<rparr>"

definition demo_run_env :: run_env where
  "demo_run_env = \<lparr>re_context = (\<lambda>_ _ _. Inr demo_pack), re_model = (\<lambda>_ _. Inr (S ''p'', S ''m'')),
     re_llm = (\<lambda>_ _. Inr (S ''answer'')),
     re_json = (\<lambda>_. Inr (JObj [(S ''findings'', JArr [JNull, JObj demo_suggestion_json])])),
     re_str = (\<lambda>_. S ''error''), re_unicode = ascii_only\<rparr>"

definition demo_workspace :: workspace where
  "demo_workspace = \<lparr>ws_id = 3, ws_review_autostart_enabled = True, ws_completed_review_runs = 4,
     ws_review_run_limit = Some 5\<rparr>"

definition demo_work :: session where
  "demo_work = demo_session\<lparr>ss_workspaces := [demo_workspace],
     ss_review_runs := [demo_run\<lparr>rr_status := RR_pending\<rparr>],
     ss_index_jobs := [demo_job\<lparr>ij_status := IJ_completed\<rparr>]\<rparr>"

text \<open>The task after its claim, its retrieval and its answer.\<close>

definition demo_claimed :: rconf where
  "demo_claimed = \<lparr>
     rc_session = demo_work\<lparr>ss_review_runs := [demo_run\<lparr>rr_status := RR_processing\<rparr>]\<rparr>,
     rc_phase = Ph_retrieving False (demo_run\<lparr>rr_status := RR_processing\<rparr>) (demo_job\<lparr>ij_status := IJ_completed\<rparr>),
     rc_pending = [], rc_before = Some (demo_run\<lparr>rr_status := RR_pending\<rparr>), rc_workspace = 3, rc_retries = 0,
     rc_credits = 0\<rparr>"

definition demo_asking :: rconf where
  "demo_asking = demo_claimed\<lparr>
     rc_session := demo_work\<lparr>ss_review_runs := [demo_run\<lparr>rr_status := RR_processing,
       rr_context_stats := Some (JObj []), rr_provider := Some (S ''p''), rr_model_id := Some (S ''m'')\<rparr>]\<rparr>,
     rc_phase := Ph_asking 0 demo_pack, rc_before := None\<rparr>"

definition demo_answered :: rconf where
  "demo_answered = demo_asking\<lparr>rc_phase := Ph_checking demo_pack [demo_suggestion_row]\<rparr>"

lemma demo_claims: "run_step demo_run_env 1 Ph_start (task_start demo_work) = demo_claimed"
  by (simp add: step_start_def task_start_def demo_claimed_def demo_work_def claim_run_def set_run_def get_review_run_def
      get_revision_def get_pull_request_def get_latest_completed_index_job_def latest_by_def tbl_get_def
      tbl_map_def demo_job_def demo_defs Let_def)

lemma demo_retrieves: "run_step demo_run_env 1 (rc_phase demo_claimed) demo_claimed = demo_asking"
  by (simp add: step_retrieve_def roll_back_def demo_claimed_def demo_asking_def demo_work_def demo_run_env_def
      demo_pack_def set_run_def tbl_map_def demo_defs Let_def)

lemma demo_answers: "run_step demo_run_env 1 (rc_phase demo_asking) demo_asking = demo_answered"
proof -
  have "parse_finding_rows ascii_only [JObj demo_suggestion_json] =
      Inr ([demo_suggestion_row], \<lparr>rep_parsed_count = 1, rep_dropped_count = 0, rep_drop_reasons = []\<rparr>)"
    by (simp add: parse_finding_rows_def demo_suggestion_parses)
  then show ?thesis
    by (simp add: step_ask_def roll_back_def demo_answered_def demo_asking_def demo_run_env_def parse_review_json_def
        demo_claimed_def S_def)
qed

lemma demo_reaches_answer: "run_exec demo_run_env 1 3 (task_start demo_work) demo_answered"
proof -
  have "run_exec demo_run_env 1 1 (task_start demo_work) demo_claimed"
    using run_exec.work [OF run_exec.stop, of "task_start demo_work" demo_run_env 1] demo_claims
    by (simp add: task_start_def)
  from run_exec.work [OF this] demo_retrieves have "run_exec demo_run_env 1 (Suc 1) (task_start demo_work) demo_asking"
    by (simp add: demo_claimed_def)
  from run_exec.work [OF this] demo_answers show ?thesis
    by (simp add: demo_asking_def numeral_3_eq_3)
qed

definition demo_confirming :: rconf where
  "demo_confirming = demo_answered\<lparr>rc_session := delete_findings 1 (rc_session demo_answered),
     rc_pending := [with_evidence demo_pack demo_suggestion_row], rc_phase := Ph_confirming\<rparr>"

lemma demo_answered_status: "run_status (rc_session demo_answered) 1 = Some RR_processing"
  by (simp add: run_status_def get_review_run_def tbl_get_def demo_answered_def demo_asking_def demo_work_def demo_defs)

lemma demo_confirming_status: "run_status (rc_session demo_confirming) 1 = Some RR_processing"
  by (simp add: demo_confirming_def demo_answered_status)

lemma demo_confirms: "run_exec demo_run_env 1 1 demo_answered demo_confirming"
  using run_exec.work [OF run_exec.stop, of demo_answered demo_run_env 1] demo_answered_status
  by (simp add: demo_answered_def demo_asking_def demo_claimed_def step_check_def demo_confirming_def)

definition demo_done :: rconf where
  "demo_done = step_commit 1 (step_credit (demo_confirming\<lparr>
     rc_session := complete_run 1 (rc_session demo_confirming), rc_phase := Ph_crediting\<rparr>))"

lemma demo_completes: "run_exec demo_run_env 1 5 demo_answered demo_done"
proof -
  let ?a = "demo_confirming\<lparr>rc_phase := Ph_completing\<rparr>"
  let ?b = "demo_confirming\<lparr>rc_session := complete_run 1 (rc_session demo_confirming), rc_phase := Ph_crediting\<rparr>"
  have conf: "rc_phase demo_confirming = Ph_confirming" by (simp add: demo_confirming_def)
  from run_exec.work [OF demo_confirms] conf demo_confirming_status
  have 1: "run_exec demo_run_env 1 (Suc 1) demo_answered ?a" by (simp add: step_confirm_def)
  from run_exec.work [OF 1] demo_confirming_status
  have 2: "run_exec demo_run_env 1 (Suc (Suc 1)) demo_answered ?b" by (simp add: step_complete_def)
  from run_exec.work [OF 2] have 3: "run_exec demo_run_env 1 (Suc (Suc (Suc 1))) demo_answered (step_credit ?b)"
    by simp
  have "rc_phase (step_credit ?b) = Ph_returned" by (simp add: step_credit_def Let_def)
  with run_exec.work [OF 3] show ?thesis by (simp add: demo_done_def eval_nat_numeral)
qed

lemma run_exec_append:
  assumes "run_exec env k n c1 c2" and "run_exec env k m c0 c1"
  shows "run_exec env k (m + n) c0 c2"
  using assms by (induction rule: run_exec.induct) (auto intro: run_exec.intros)

lemma demo_done_status: "rc_phase demo_done = Ph_finished \<and> run_status (rc_session demo_done) 1 = Some RR_completed"
proof -
  have "run_status (foldl (add_pending 1 ws) (complete_run 1 s \<lparr>ss_workspaces := w\<rparr>) ps) 1 =
      run_status (complete_run 1 s) 1" for s w ps ws by (rule run_status_cong) simp
  with complete_status [OF demo_confirming_status] show ?thesis
    by (simp add: demo_done_def step_commit_def step_credit_def Let_def)
qed

theorem review_task_terminates_witness:
  "\<exists>m. m \<le> 36 \<and> rc_phase ((run_once demo_run_env 1 ^^ m) demo_answered) = Ph_finished"
  using review_task_terminates [OF demo_reaches_answer] by simp

theorem superseded_never_completes_witness:
  "\<exists>c c'. run_exec demo_run_env 1 3 (task_start demo_work) c \<and>
     run_status (rc_session c) 1 = Some RR_superseded \<and> run_exec demo_run_env 1 2 c c' \<and>
     rc_phase c' = Ph_finished \<and> run_status (rc_session c') 1 \<in> {Some RR_superseded, Some RR_failed} \<and>
     rc_credits c' = rc_credits c"
proof -
  obtain s' ids where cas: "mark_review_run_ids_superseded_cas (rc_session demo_answered) [1] = (s', ids)" by fastforce
  let ?c = "demo_answered\<lparr>rc_session := s'\<rparr>"
  have "\<not> locked demo_answered" by (simp add: locked_def demo_answered_def demo_asking_def)
  from run_exec.supersede [OF demo_reaches_answer this cas] have c: "run_exec demo_run_env 1 3 (task_start demo_work) ?c" .
  have st: "run_status (rc_session ?c) 1 = Some RR_superseded"
    using supersede_processing [OF cas] demo_answered_status by simp
  from run_exec.work [OF run_exec.stop, of ?c demo_run_env 1] st
  have 1: "run_exec demo_run_env 1 (Suc 0) ?c (returned ?c s')" by (simp add: demo_answered_def step_check_def)
  from run_exec.work [OF 1] have 2: "run_exec demo_run_env 1 2 ?c (step_commit 1 (returned ?c s'))"
    by (simp add: numeral_2_eq_2)
  have "rc_phase (step_commit 1 (returned ?c s')) = Ph_finished" by (simp add: step_commit_def)
  with superseded_never_completes [OF c st 2] c st 2 show ?thesis by blast
qed

lemma demo_credits_ok: "credits_ok demo_work"
  by (simp add: credits_ok_def demo_work_def demo_workspace_def)

theorem one_credit_per_completed_run_witness:
  "rc_credits demo_done \<le> 1 \<and> run_exec demo_run_env 1 8 (task_start demo_work) demo_done"
  using one_credit_per_completed_run [OF run_exec_append [OF demo_completes demo_reaches_answer] demo_credits_ok]
    run_exec_append [OF demo_completes demo_reaches_answer] by simp

theorem completed_run_findings_witness:
  "map finding_content (findings_of (rc_session demo_done) 1) = [with_evidence demo_pack demo_suggestion_row]"
  using completed_run_findings [OF demo_reaches_answer _ demo_completes] demo_done_status
  by (simp add: demo_answered_def)

theorem abandoned_findings_survive_witness:
  "\<exists>c'. run_exec demo_run_env 1 2 demo_confirming c' \<and> rc_phase c' = Ph_finished \<and>
     run_status (rc_session c') 1 = Some RR_superseded \<and>
     map finding_content (findings_of (rc_session c') 1) = [with_evidence demo_pack demo_suggestion_row]"
proof -
  have "rc_phase demo_confirming = Ph_confirming" "\<not> locked demo_confirming"
    "rc_pending demo_confirming = [with_evidence demo_pack demo_suggestion_row]"
    by (simp_all add: demo_confirming_def locked_def demo_answered_def demo_asking_def)
  with abandoned_findings_survive [OF this(1,2) demo_confirming_status, of demo_run_env] show ?thesis by simp
qed

definition demo_idle :: session where
  "demo_idle = demo_work\<lparr>ss_review_runs := [], ss_repositories := [\<lparr>repo_id = 5, repo_installation_id = 6,
     repo_workspace_id = 3, repo_github_repository_id = 70, repo_name = S ''r'', repo_full_name = S ''o/r'',
     repo_default_branch = None, repo_private = False, repo_html_url = None, repo_status = Repo_active\<rparr>]\<rparr>"

theorem create_run_exclusive_witness:
  "\<exists>s' run e. create_review_run \<lparr>rs_reviewer_llm_enabled = True, rs_embeddings_enabled = True,
       rs_github_api_enabled = True\<rparr> demo_idle 3 5 4 2 Prof_standard = Inr (s', run) \<and>
     create_review_run \<lparr>rs_reviewer_llm_enabled = True, rs_embeddings_enabled = True,
       rs_github_api_enabled = True\<rparr> s' 3 5 4 2 Prof_deep = Inl e"
proof -
  let ?st = "\<lparr>rs_reviewer_llm_enabled = True, rs_embeddings_enabled = True, rs_github_api_enabled = True\<rparr>"
  have "\<exists>s' run. create_review_run ?st demo_idle 3 5 4 2 Prof_standard = Inr (s', run)"
    by (simp add: create_review_run_def ensure_revision_access_def demo_idle_def demo_work_def demo_defs demo_workspace_def
        credit_limit_reached_def index_job_in_progress_def get_workspace_def tbl_get_def demo_job_def
        get_latest_completed_index_job_def latest_by_def FULL_INDEX_PROFILES_def review_in_progress_def Let_def)
  then obtain s' run where c: "create_review_run ?st demo_idle 3 5 4 2 Prof_standard = Inr (s', run)" by blast
  from create_run_exclusive [OF c, of Prof_deep] c show ?thesis by blast
qed

end
