(* ===== verification/Py_Text.thy ===== *)
theory Py_Text
  imports Finding_Rows Py_Re
begin

section \<open>More of Python's strings and numbers\<close>

text \<open>
  \<open>str.replace\<close>, \<open>str.rfind\<close>, \<open>str.find\<close> with a start, \<open>re.search\<close> with its position, \<open>int(s, base)\<close>,
  \<open>int\<close> of a JSON value, \<open>uuid.UUID(s)\<close> and the formatting of values in f-strings.  The decimal digits
  above 127 are the parameter \<open>unicode\<close>; the text of a float or a container in an f-string is a
  parameter of the functions that need it.
\<close>

subsection \<open>Searching and replacing\<close>

text \<open>\<open>s.replace(c, t)\<close> of one character.\<close>

definition py_replace_chr :: "nat \<Rightarrow> pystr \<Rightarrow> pystr \<Rightarrow> pystr" where
  "py_replace_chr c t s = concat (map (\<lambda>x. if x = c then t else [x]) s)"

lemma set_py_replace_chr: "set (py_replace_chr c t s) \<subseteq> (set s - {c}) \<union> set t"
  by (auto simp: py_replace_chr_def)

lemma py_replace_chr_simps [simp]:
  "py_replace_chr c t [] = []"
  "py_replace_chr c t (x # s) = (if x = c then t else [x]) @ py_replace_chr c t s"
  "py_replace_chr c t (s @ s') = py_replace_chr c t s @ py_replace_chr c t s'"
  by (simp_all add: py_replace_chr_def)

text \<open>\<open>s.replace(old, new)\<close> of a nonempty text.\<close>

function py_replace :: "pystr \<Rightarrow> pystr \<Rightarrow> pystr \<Rightarrow> pystr" where
  "py_replace old new s =
     (if old = [] then s
      else case s of
        [] \<Rightarrow> []
      | c # t \<Rightarrow> if prefix old s then new @ py_replace old new (drop (length old) s)
                 else c # py_replace old new t)"
  by pat_completeness auto

termination
  by (relation "measure (\<lambda>(old, new, s). length s)") auto

declare py_replace.simps [simp del]

lemma py_replace_absent: "hd old \<notin> set s \<Longrightarrow> py_replace old new s = s"
proof (induction s)
  case (Cons c s)
  have "\<not> prefix old (c # s)" if "old \<noteq> []"
    using Cons.prems that by (cases old) auto
  with Cons show ?case by (subst py_replace.simps) auto
qed (subst py_replace.simps, simp)

text \<open>\<open>s.find(sub, start)\<close>, \<open>s.rfind(sub)\<close> and \<open>s.rfind(sub, 0, stop)\<close>.\<close>

definition py_find_from :: "pystr \<Rightarrow> pystr \<Rightarrow> nat \<Rightarrow> nat option" where
  "py_find_from sub s start =
     (if length s < start then None else map_option (\<lambda>i. start + i) (py_find sub (drop start s)))"

lemma py_find_from_bounds:
  "py_find_from sub s start = Some i \<Longrightarrow> start \<le> i \<and> i + length sub \<le> length s"
  by (auto simp: py_find_from_def split: if_splits dest!: py_find_Some)

definition py_rfind :: "pystr \<Rightarrow> pystr \<Rightarrow> nat option" where
  "py_rfind sub s = map_option (\<lambda>i. length s - i - length sub) (py_find (rev sub) (rev s))"

definition py_rfind_to :: "pystr \<Rightarrow> pystr \<Rightarrow> nat \<Rightarrow> nat option" where
  "py_rfind_to sub s stop = py_rfind sub (take stop s)"

text \<open>\<open>s.rstrip(chars)\<close> and \<open>s.lstrip(chars)\<close>.\<close>

definition rstrip_chars :: "pystr \<Rightarrow> pystr \<Rightarrow> pystr" where
  "rstrip_chars cs s = rev (dropWhile (\<lambda>c. c \<in> set cs) (rev s))"

definition lstrip_chars :: "pystr \<Rightarrow> pystr \<Rightarrow> pystr" where
  "lstrip_chars cs s = dropWhile (\<lambda>c. c \<in> set cs) s"

text \<open>\<open>s.upper()\<close> on the severities and codes it is applied to.\<close>

definition upper_cp :: "nat \<Rightarrow> nat" where
  "upper_cp c = (if 97 \<le> c \<and> c \<le> 122 then c - 32 else c)"

definition py_upper :: "pystr \<Rightarrow> pystr" where
  "py_upper s = map upper_cp s"

text \<open>Start and end of the first match at or after a position.  Where an expression can match in more
  than one way from a start, the last of its ends is the longest one.\<close>

fun re_find_at :: "(nat \<Rightarrow> bool) \<Rightarrow> regex \<Rightarrow> nat option \<Rightarrow> pystr \<Rightarrow> nat \<Rightarrow> (nat \<times> nat) option" where
  "re_find_at u r prev s i =
     (case ends u r prev s of
        e # es \<Rightarrow> Some (i, i + (length s - length (snd (last (e # es)))))
      | [] \<Rightarrow> (case s of [] \<Rightarrow> None | c # t \<Rightarrow> re_find_at u r (Some c) t (Suc i)))"

declare re_find_at.simps [simp del]

definition re_find :: "(nat \<Rightarrow> bool) \<Rightarrow> regex \<Rightarrow> pystr \<Rightarrow> nat \<Rightarrow> (nat \<times> nat) option" where
  "re_find u r s start = re_find_at u r (last_opt (take start s)) (drop start s) start"

subsection \<open>\<open>int(s, base)\<close>\<close>

definition is_c_space :: "nat \<Rightarrow> bool" where
  "is_c_space c \<longleftrightarrow> c = 32 \<or> (9 \<le> c \<and> c \<le> 13)"

text \<open>A string that is not ASCII first has its spaces and decimal digits made ASCII; any other
  character becomes a question mark.\<close>

definition int_ascii :: "unicode \<Rightarrow> pystr \<Rightarrow> pystr" where
  "int_ascii u s =
     (if list_all (\<lambda>c. c < 128) s then s
      else map (\<lambda>c. if c < 127 then c else if is_py_space c then 32
                    else case uc_decimal u c of Some d \<Rightarrow> 48 + d | None \<Rightarrow> 63) s)"

definition base_digit :: "nat \<Rightarrow> nat \<Rightarrow> nat option" where
  "base_digit base c =
     (let d = (if 48 \<le> c \<and> c \<le> 57 then Some (c - 48)
               else if 97 \<le> c \<and> c \<le> 122 then Some (c - 87)
               else if 65 \<le> c \<and> c \<le> 90 then Some (c - 55) else None)
      in case d of Some v \<Rightarrow> if v < base then Some v else None | None \<Rightarrow> None)"

definition is_int_char :: "nat \<Rightarrow> nat \<Rightarrow> bool" where
  "is_int_char base c \<longleftrightarrow> c = 95 \<or> base_digit base c \<noteq> None"

text \<open>Digits with single underscores between them.\<close>

fun well_separated :: "pystr \<Rightarrow> bool" where
  "well_separated [] \<longleftrightarrow> False"
| "well_separated [c] \<longleftrightarrow> c \<noteq> 95"
| "well_separated (c # d # s) \<longleftrightarrow> \<not> (c = 95 \<and> d = 95) \<and> well_separated (d # s)"

definition int_body :: "nat \<Rightarrow> pystr \<Rightarrow> pystr" where
  "int_body base s =
     (if base = 16 \<and> take 1 s = [48] \<and> (take 1 (drop 1 s) = [120] \<or> take 1 (drop 1 s) = [88])
      then (if take 1 (drop 2 s) = [95] then drop 3 s else drop 2 s) else s)"

definition int_error :: exn where
  "int_error = Value_error (S ''invalid literal for int()'')"

definition py_int :: "unicode \<Rightarrow> nat \<Rightarrow> pystr \<Rightarrow> exn + int" where
  "py_int u base s =
     (let t = dropWhile is_c_space (int_ascii u s);
          negative = take 1 t = [45];
          t = (if negative \<or> take 1 t = [43] then drop 1 t else t);
          t = int_body base t;
          body = takeWhile (is_int_char base) t;
          digits = filter (\<lambda>c. c \<noteq> 95) body;
          n = foldl (\<lambda>v c. base * v + (case base_digit base c of Some d \<Rightarrow> d | None \<Rightarrow> 0)) 0 digits
      in if body = [] \<or> hd body = 95 \<or> \<not> well_separated body \<or>
            \<not> list_all is_c_space (dropWhile (is_int_char base) t) then Inl int_error
         else if base = 10 \<and> 4300 < length digits then Inl int_error
         else Inr (if negative then - int n else int n))"

subsection \<open>\<open>uuid.UUID(s)\<close>\<close>

definition uuid_of_str :: "unicode \<Rightarrow> pystr \<Rightarrow> uuid option" where
  "uuid_of_str u s =
     (let h = py_replace (S ''uuid:'') [] (py_replace (S ''urn:'') [] s);
          h = filter (\<lambda>c. c \<noteq> 45) (rstrip_chars [123, 125] (lstrip_chars [123, 125] h))
      in if length h \<noteq> 32 then None
         else case py_int u 16 h of
                Inl e \<Rightarrow> None
              | Inr i \<Rightarrow> if 0 \<le> i \<and> i < 2 ^ 128 then Some (word_of_int i) else None)"

subsection \<open>Values in conversions and f-strings\<close>

text \<open>\<open>int(value)\<close> of a JSON value.\<close>

fun int_of_json :: "unicode \<Rightarrow> json \<Rightarrow> exn + int" where
  "int_of_json u (JBool b) = Inr (if b then 1 else 0)"
| "int_of_json u (JInt i) = Inr i"
| "int_of_json u (JFloat m k) = Inr (if m < 0 then - ((- m) div 10 ^ k) else m div 10 ^ k)"
| "int_of_json u (JStr s) = py_int u 10 s"
| "int_of_json u _ = Inl Type_error"

text \<open>\<open>int(d.get(key) or 0)\<close>.\<close>

definition int_or_0 :: "unicode \<Rightarrow> (pystr \<times> json) list \<Rightarrow> pystr \<Rightarrow> exn + int" where
  "int_or_0 u ms k =
     (case json_get k ms of
        None \<Rightarrow> Inr 0
      | Some v \<Rightarrow> if json_truthy v then int_of_json u v else Inr 0)"

text \<open>\<open>f"{value}"\<close>; \<open>other\<close> gives the text of floats and containers.\<close>

definition py_format :: "(json \<Rightarrow> pystr) \<Rightarrow> json \<Rightarrow> pystr" where
  "py_format other v =
     (case v of
        JStr s \<Rightarrow> s | JInt i \<Rightarrow> py_str_int i | JNull \<Rightarrow> S ''None''
      | JBool b \<Rightarrow> if b then S ''True'' else S ''False'' | _ \<Rightarrow> other v)"

text \<open>\<open>isinstance(value, int) and value > 0\<close>.\<close>

fun positive_int :: "json option \<Rightarrow> bool" where
  "positive_int (Some (JInt i)) = (0 < i)"
| "positive_int (Some (JBool b)) = b"
| "positive_int _ = False"

subsection \<open>Reading back an identifier\<close>

lemma hex_chr_digit: "0 \<le> d \<Longrightarrow> d < 16 \<Longrightarrow> base_digit 16 (hex_chr d) = Some (nat d)"
  by (cases "d < 10") (auto simp: base_digit_def hex_chr_def nat_diff_distrib nat_add_distrib)

lemma hex_value:
  "0 \<le> v \<Longrightarrow> v < 16 ^ k \<Longrightarrow>
     foldl (\<lambda>a c. 16 * a + (case base_digit 16 c of Some d \<Rightarrow> d | None \<Rightarrow> 0)) 0 (hex_n k v) = nat v"
proof (induction k arbitrary: v)
  case (Suc k)
  have q: "0 \<le> v div 16" "v div 16 < 16 ^ k" using Suc.prems by (simp_all add: pos_imp_zdiv_nonneg_iff)
  have d: "base_digit 16 (hex_chr (v mod 16)) = Some (nat (v mod 16))" by (rule hex_chr_digit) simp_all
  have "nat v = 16 * nat (v div 16) + nat (v mod 16)"
    using Suc.prems(1) by (simp add: nat_div_distrib nat_mod_distrib)
  with Suc.IH [OF q] d show ?case by simp
qed simp

lemma well_separated_digits: "s \<noteq> [] \<Longrightarrow> 95 \<notin> set s \<Longrightarrow> well_separated s"
  by (induction s rule: well_separated.induct) auto

lemma hex_n_hex: "c \<in> set (hex_n k v) \<Longrightarrow> is_int_char 16 c \<and> c \<noteq> 95 \<and> c < 128"
  using hex_n_chars [of k v] by (auto simp: is_int_char_def base_digit_def)

lemma py_int_hex:
  assumes "0 \<le> v" and "v < 16 ^ k" and "0 < k"
  shows "py_int u 16 (hex_n k v) = Inr v"
proof -
  let ?h = "hex_n k v"
  obtain c s where h: "?h = c # s" using assms(3) by (cases "hex_n k v") (auto dest: arg_cong [where f = length])
  have c: "(48 \<le> c \<and> c \<le> 57) \<or> (97 \<le> c \<and> c \<le> 102)" using hex_n_chars [of k v] h by simp
  have ascii: "int_ascii u ?h = ?h" using hex_n_hex by (auto simp: int_ascii_def list_all_iff)
  have sp: "dropWhile is_c_space ?h = ?h" using c by (auto simp: h is_c_space_def)
  have sign: "take 1 ?h \<noteq> [45]" "take 1 ?h \<noteq> [43]" using c by (auto simp: h)
  have "s = [] \<or> (\<exists>d s'. s = d # s' \<and> d \<noteq> 120 \<and> d \<noteq> 88)"
    using hex_n_chars [of k v] h by (cases s) auto
  then have body: "int_body 16 ?h = ?h" by (auto simp: int_body_def h)
  have tw: "takeWhile (is_int_char 16) ?h = ?h" "dropWhile (is_int_char 16) ?h = []"
    using hex_n_hex by (simp_all add: takeWhile_eq_all_conv dropWhile_eq_Nil_conv)
  have no_us: "95 \<notin> set ?h" using hex_n_hex by blast
  then have digits: "filter (\<lambda>c. c \<noteq> 95) ?h = ?h" by (auto simp: filter_id_conv)
  have sep: "well_separated ?h" using no_us h by (intro well_separated_digits) auto
  have "hd ?h \<noteq> 95" using no_us h by auto
  with ascii sp sign body tw digits sep h hex_value [OF assms(1,2)] assms(1) show ?thesis
    by (simp add: py_int_def)
qed

lemma hex_list_parts:
  assumes "length h = 32"
  shows "filter (\<lambda>c. c \<noteq> 45) (take 8 h @ [45] @ take 4 (drop 8 h) @ [45] @ take 4 (drop 12 h) @ [45] @
     take 4 (drop 16 h) @ [45] @ drop 20 h) = filter (\<lambda>c. c \<noteq> (45::nat)) h"
proof -
  have "drop 8 h = take 4 (drop 8 h) @ drop 12 h" using append_take_drop_id [of 4 "drop 8 h"] by simp
  moreover have "drop 12 h = take 4 (drop 12 h) @ drop 16 h" using append_take_drop_id [of 4 "drop 12 h"] by simp
  moreover have "drop 16 h = take 4 (drop 16 h) @ drop 20 h" using append_take_drop_id [of 4 "drop 16 h"] by simp
  ultimately have "h = take 8 h @ take 4 (drop 8 h) @ take 4 (drop 12 h) @ take 4 (drop 16 h) @ drop 20 h"
    by (metis append_take_drop_id)
  then have "filter (\<lambda>c. c \<noteq> 45) h = filter (\<lambda>c. c \<noteq> 45) (take 8 h) @ filter (\<lambda>c. c \<noteq> 45) (take 4 (drop 8 h)) @
      filter (\<lambda>c. c \<noteq> 45) (take 4 (drop 12 h)) @ filter (\<lambda>c. c \<noteq> 45) (take 4 (drop 16 h)) @
      filter (\<lambda>c. c \<noteq> 45) (drop 20 h)"
    by (metis filter_append)
  then show ?thesis by simp
qed

lemma uuid_str_chars: "c \<in> set (uuid_str v) \<Longrightarrow> c = 45 \<or> (48 \<le> c \<and> c \<le> 57) \<or> (97 \<le> c \<and> c \<le> 102)"
proof -
  assume "c \<in> set (uuid_str v)"
  then have "c = 45 \<or> c \<in> set (hex_n 32 (uint v))"
    by (auto simp: uuid_str_def Let_def dest: in_set_takeD in_set_dropD)
  with hex_n_chars [of 32 "uint v"] show ?thesis by blast
qed

lemma dropWhile_none: "(\<And>x. x \<in> set xs \<Longrightarrow> \<not> P x) \<Longrightarrow> dropWhile P xs = xs"
  by (cases xs) auto

lemma uuid_roundtrip [simp]: "uuid_of_str u (uuid_str v) = Some v"
proof -
  let ?h = "hex_n 32 (uint v)"
  have r: "py_replace (S ''urn:'') [] (uuid_str v) = uuid_str v" "py_replace (S ''uuid:'') [] (uuid_str v) = uuid_str v"
    using uuid_str_chars [of 117 v] by (auto intro!: py_replace_absent simp: S_def)
  have "123 \<notin> set (uuid_str v)" "125 \<notin> set (uuid_str v)" using uuid_str_chars [of _ v] by force+
  then have strip: "lstrip_chars [123, 125] (uuid_str v) = uuid_str v" "rstrip_chars [123, 125] (uuid_str v) = uuid_str v"
    by (auto simp: lstrip_chars_def rstrip_chars_def intro!: dropWhile_none)
      (subst dropWhile_none, auto)
  have "45 \<notin> set ?h" using hex_n_chars [of 32 "uint v"] by force
  then have "filter (\<lambda>c. c \<noteq> 45) (uuid_str v) = ?h"
    using hex_list_parts [of ?h] by (auto simp: uuid_str_def Let_def filter_id_conv)
  moreover have "py_int u 16 ?h = Inr (uint v)"
    using uint_lt2p [of v] by (intro py_int_hex) simp_all
  moreover have "uint v < 2 ^ 128" using uint_lt2p [of v] by simp
  ultimately show ?thesis by (simp add: uuid_of_str_def r strip)
qed

end
