(* ===== verification/Publish_Verdict.thy ===== *)
theory Publish_Verdict
  imports Resolution_Metrics Py_Text
begin

section \<open>The verdict of a publish (\<open>services/github_publish_formatter.py\<close>)\<close>

text \<open>
  The part of the formatter that decides what is shown: which groups of the pull request are still open,
  the counts, the confidence, the recommendation, the files named, and the numbers of the summary.  The
  texts around them are in \<open>Publish_Markdown\<close>.  A set of identities is a set of strings
  (\<open>str(group.id)\<close>).
\<close>

definition SUMMARY_ROW_CAP :: nat where
  "SUMMARY_ROW_CAP = 50"

definition FILES_NEEDING_ATTENTION_CAP :: nat where
  "FILES_NEEDING_ATTENTION_CAP = 20"

record format_ctx =
  fc_pull_request_id :: uuid
  fc_pull_request_number :: int
  fc_head_sha :: pystr
  fc_revision_number :: int
  fc_groups :: "finding_group list"
  fc_index_mode :: "index_mode option"
  fc_fallback_reason :: "pystr option"
  fc_metrics :: "(pystr \<times> json) list option"
  fc_pr_active :: "finding_group list option"
  fc_ever_inlined :: "pystr set option"
  fc_rollup :: "(pystr \<times> json) list option"
  fc_pipeline_run_id :: "uuid option"
  fc_review_run_id :: "uuid option"

definition group_identity_key :: "finding_group \<Rightarrow> pystr" where
  "group_identity_key g = uuid_str (fg_id g)"

lemma group_identity_inj [simp]: "group_identity_key g = group_identity_key h \<longleftrightarrow> fg_id g = fg_id h"
  using uuid_str_inj by (auto simp: group_identity_key_def)

definition active_groups :: "finding_group list \<Rightarrow> finding_group list" where
  "active_groups groups = filter (\<lambda>g. fg_state g = Grp_active) groups"

definition verdict_groups :: "format_ctx \<Rightarrow> finding_group list" where
  "verdict_groups ctx = opt_or (fc_pr_active ctx) (fc_groups ctx)"

subsection \<open>What is still open\<close>

definition hidden_as_collapsed :: "pystr set \<Rightarrow> pystr set \<Rightarrow> pystr set option \<Rightarrow> finding_group \<Rightarrow> bool" where
  "hidden_as_collapsed publishable collapsed generation g \<longleftrightarrow>
     group_identity_key g \<in> collapsed \<and> group_identity_key g \<notin> publishable \<and>
     (case generation of None \<Rightarrow> True | Some ids \<Rightarrow> group_identity_key g \<notin> ids)"

definition hidden_as_orphan :: "pystr set option \<Rightarrow> pystr set option \<Rightarrow> finding_group \<Rightarrow> bool" where
  "hidden_as_orphan ever_inlined generation g \<longleftrightarrow>
     (case (ever_inlined, generation) of
        (Some inlined, Some ids) \<Rightarrow> group_identity_key g \<notin> inlined \<and> group_identity_key g \<notin> ids
      | _ \<Rightarrow> False)"

fun filter_pr_active_groups_for_summary ::
  "finding_group list \<Rightarrow> pystr set \<Rightarrow> pystr set \<Rightarrow> pystr set option \<Rightarrow> pystr set option \<Rightarrow> finding_group list" where
  "filter_pr_active_groups_for_summary [] publishable collapsed generation ever_inlined = []"
| "filter_pr_active_groups_for_summary (g # gs) publishable collapsed generation ever_inlined =
     (let rest = filter_pr_active_groups_for_summary gs publishable collapsed generation ever_inlined in
      if fg_resolution_status g = Some RS_addressed then rest
      else if hidden_as_collapsed publishable collapsed generation g then rest
      else if hidden_as_orphan ever_inlined generation g then rest
      else g # rest)"

lemma filter_for_summary:
  "filter_pr_active_groups_for_summary gs p c gen ever =
     filter (\<lambda>g. fg_resolution_status g \<noteq> Some RS_addressed \<and> \<not> hidden_as_collapsed p c gen g \<and>
       \<not> hidden_as_orphan ever gen g) gs"
  by (induction gs) (simp_all add: Let_def)

definition generation_ids :: "format_ctx \<Rightarrow> pystr set" where
  "generation_ids ctx = set (map group_identity_key (fc_groups ctx))"

definition display_still_open_prior_count :: "format_ctx \<Rightarrow> nat" where
  "display_still_open_prior_count ctx =
     count_if (\<lambda>g. group_identity_key g \<notin> generation_ids ctx) (active_groups (verdict_groups ctx))"

subsection \<open>Counts of resolutions\<close>

record res_counts =
  rs_addressed :: int
  rs_judge :: int
  rs_verification :: int
  rs_human :: int
  rs_still_open :: int

definition no_counts :: res_counts where
  "no_counts = \<lparr>rs_addressed = 0, rs_judge = 0, rs_verification = 0, rs_human = 0, rs_still_open = 0\<rparr>"

definition count_group :: "res_counts \<Rightarrow> finding_group \<Rightarrow> res_counts" where
  "count_group c g =
     (if fg_state g = Grp_resolved \<and> fg_resolution_method g \<noteq> None then
        (case fg_resolution_method g of
           Some RM_absent_and_addressed \<Rightarrow> c\<lparr>rs_addressed := rs_addressed c + 1\<rparr>
         | Some RM_judge_dismissed \<Rightarrow> c\<lparr>rs_judge := rs_judge c + 1\<rparr>
         | Some RM_verification_dismissed \<Rightarrow> c\<lparr>rs_verification := rs_verification c + 1\<rparr>
         | Some RM_human_dismissed \<Rightarrow> c\<lparr>rs_human := rs_human c + 1\<rparr>
         | _ \<Rightarrow> c)
      else if fg_resolution_status g = Some RS_still_open \<and> fg_state g = Grp_active
      then c\<lparr>rs_still_open := rs_still_open c + 1\<rparr> else c)"

definition count_resolution_status :: "finding_group list \<Rightarrow> res_counts" where
  "count_resolution_status groups = foldl count_group no_counts groups"

definition resolution_counts_from_manifest :: "unicode \<Rightarrow> (pystr \<times> json) list \<Rightarrow> exn + res_counts" where
  "resolution_counts_from_manifest u manifest =
     (let dismissed = (case json_get (S ''transitions_dismissed'') manifest of Some (JObj d) \<Rightarrow> d | _ \<Rightarrow> []) in
      rbind (int_or_0 u manifest (S ''transitions_addressed'')) (\<lambda>addressed.
      rbind (int_or_0 u dismissed (S ''judge_dismissed'')) (\<lambda>judge.
      rbind (int_or_0 u dismissed (S ''verification_dismissed'')) (\<lambda>verification.
      rbind (int_or_0 u dismissed (S ''human_dismissed'')) (\<lambda>human.
      rbind (int_or_0 u manifest (S ''still_open_count'')) (\<lambda>still_open.
        Inr \<lparr>rs_addressed = addressed, rs_judge = judge, rs_verification = verification, rs_human = human,
             rs_still_open = still_open\<rparr>))))))"

definition has_resolution_progress :: "finding_group list \<Rightarrow> bool" where
  "has_resolution_progress groups \<longleftrightarrow>
     (let c = count_resolution_status groups
      in 0 < rs_addressed c \<or> 0 < rs_judge c \<or> 0 < rs_verification c \<or> 0 < rs_human c)"

subsection \<open>Confidence and recommendation\<close>

definition publish_severity_rank :: "finding_severity \<Rightarrow> nat" where
  "publish_severity_rank s = (case s of Sev_critical \<Rightarrow> 0 | Sev_error \<Rightarrow> 1 | Sev_warning \<Rightarrow> 2 | Sev_info \<Rightarrow> 3)"

definition sorted_active_groups :: "finding_group list \<Rightarrow> finding_group list" where
  "sorted_active_groups groups =
     sort_key (\<lambda>g. (publish_severity_rank (fg_severity g), category_value (fg_category g), fg_title g))
       (active_groups groups)"

definition is_blocker :: "finding_group \<Rightarrow> bool" where
  "is_blocker g \<longleftrightarrow> fg_severity g = Sev_critical \<or> fg_severity g = Sev_error"

definition is_warning :: "finding_group \<Rightarrow> bool" where
  "is_warning g \<longleftrightarrow> fg_severity g = Sev_warning"

definition confidence_ceiling :: "finding_group list \<Rightarrow> int" where
  "confidence_ceiling groups =
     (let active = active_groups groups in
      if active = [] then 5
      else if list_ex is_blocker active then 3
      else if list_ex is_warning active then 4
      else 5)"

definition compute_confidence :: "finding_group list \<Rightarrow> finding_group list option \<Rightarrow> int" where
  "compute_confidence groups resolution_groups =
     (let active = active_groups groups in
      if active = [] then 5
      else
        let score = (if list_ex is_blocker active then 5 - 2
                     else if list_ex is_warning active then 5 - 1 else 5);
            resolution = count_resolution_status (opt_or resolution_groups groups);
            score = score + min 2 (rs_addressed resolution);
            dismissed_total = rs_judge resolution + rs_verification resolution + rs_human resolution;
            score = score + min 1 dismissed_total
        in max 0 (min (confidence_ceiling groups) score))"

definition compute_publish_confidence :: "format_ctx \<Rightarrow> int" where
  "compute_publish_confidence ctx = compute_confidence (verdict_groups ctx) (Some (fc_groups ctx))"

definition merge_recommendation :: "finding_group list \<Rightarrow> pystr" where
  "merge_recommendation groups =
     (let active = active_groups groups in
      if active = [] then
        S ''Ready to merge '' @ [8212] @ S '' no active findings on this pull request.''
      else if list_ex is_blocker active then
        S ''Fix before merge '' @ [8212] @ S '' critical or error-severity findings need attention.''
      else if list_ex is_warning active then
        S ''Review warnings before merge '' @ [8212] @ S '' no critical blockers flagged.''
      else
        S ''Informational findings only '' @ [8212] @ S '' merge risk appears low pending your judgment.'')"

definition confidence_rationale :: "finding_group list \<Rightarrow> finding_group list option \<Rightarrow> pystr" where
  "confidence_rationale groups resolution_groups =
     (let active = active_groups groups;
          confidence = compute_confidence groups resolution_groups;
          source = opt_or resolution_groups groups
      in if active = [] then S ''Score is 5 because there are no active findings on this pull request.''
         else if confidence \<le> 2 then
           S ''Score is low due to critical or error-severity findings that need attention before merge.''
         else if confidence = 3 then
           S ''Score is moderated by active findings that still need review before merge.''
         else if confidence = 4 then
           (let base = S ''Score is good but not perfect: some active findings remain.''
            in if has_resolution_progress source
               then base @ S '' Prior fixes or dismissals improved confidence.'' else base)
         else if list_ex (\<lambda>g. fg_severity g \<noteq> Sev_info) active then
           S ''Score is high relative to remaining active findings on this revision.''
         else S ''Score is high with only informational findings on this revision.'')"

definition publish_confidence_rationale :: "format_ctx \<Rightarrow> pystr" where
  "publish_confidence_rationale ctx = confidence_rationale (verdict_groups ctx) (Some (fc_groups ctx))"

text \<open>\<open>compute_check_conclusion\<close> (\<open>services/github_publish.py\<close>).\<close>

definition compute_check_conclusion :: "finding_group list \<Rightarrow> pystr" where
  "compute_check_conclusion groups = (if active_groups groups = [] then S ''success'' else S ''neutral'')"

subsection \<open>Files\<close>

text \<open>The paths of the active findings above info, the gravest first, each once, up to the cap.\<close>

fun attention_paths :: "finding_group list \<Rightarrow> pystr list \<Rightarrow> pystr list" where
  "attention_paths [] paths = paths"
| "attention_paths (g # gs) paths =
     (if fg_severity g = Sev_info then attention_paths gs paths
      else case fg_file_path g of
        None \<Rightarrow> attention_paths gs paths
      | Some p \<Rightarrow>
          if p = [] \<or> p \<in> set paths then attention_paths gs paths
          else let paths = paths @ [p] in
               if FILES_NEEDING_ATTENTION_CAP \<le> length paths then paths else attention_paths gs paths)"

definition files_needing_attention :: "finding_group list \<Rightarrow> pystr list" where
  "files_needing_attention groups = attention_paths (sorted_active_groups groups) []"

subsection \<open>Laws\<close>

lemma active_groups_mem [simp]: "g \<in> set (active_groups gs) \<longleftrightarrow> g \<in> set gs \<and> fg_state g = Grp_active"
  by (auto simp: active_groups_def)

lemma active_groups_idem [simp]: "active_groups (active_groups gs) = active_groups gs"
  by (simp add: active_groups_def)

lemma set_sorted_active [simp]: "set (sorted_active_groups gs) = {g \<in> set gs. fg_state g = Grp_active}"
  by (auto simp: sorted_active_groups_def)

text \<open>The counts are never negative.\<close>

definition counts_ok :: "res_counts \<Rightarrow> bool" where
  "counts_ok c \<longleftrightarrow>
     0 \<le> rs_addressed c \<and> 0 \<le> rs_judge c \<and> 0 \<le> rs_verification c \<and> 0 \<le> rs_human c \<and> 0 \<le> rs_still_open c"

lemma count_group_ok: "counts_ok c \<Longrightarrow> counts_ok (count_group c g)"
  by (simp add: counts_ok_def count_group_def split: option.split resolution_method.split)

lemma count_resolution_ok: "counts_ok (count_resolution_status gs)"
proof -
  have "counts_ok (foldl count_group c gs)" if "counts_ok c" for c
    using that by (induction gs arbitrary: c) (simp_all add: count_group_ok)
  then show ?thesis by (simp add: count_resolution_status_def counts_ok_def no_counts_def)
qed

text \<open>The boost for resolved findings never shows: the score without it already reaches the ceiling.\<close>

lemma confidence_is_ceiling: "compute_confidence gs r = confidence_ceiling gs"
  using count_resolution_ok [of "opt_or r gs"]
  by (simp add: compute_confidence_def confidence_ceiling_def counts_ok_def Let_def)

text \<open>The verdict follows the gravest open finding: the confidence is 3 with an open critical or error
  finding, else 4 with an open warning, else 5; the recommendation is to fix, to review the warnings, or
  neither, in the same cases; ready to merge is said exactly when nothing is open.  Findings resolved in
  this generation never change the confidence.\<close>

theorem verdict_follows_gravest:
  "compute_publish_confidence ctx =
     (if \<exists>g. g \<in> set (verdict_groups ctx) \<and> fg_state g = Grp_active \<and> is_blocker g then 3
      else if \<exists>g. g \<in> set (verdict_groups ctx) \<and> fg_state g = Grp_active \<and> is_warning g then 4 else 5) \<and>
   (py_startswith (merge_recommendation (verdict_groups ctx)) (S ''Ready to merge'') \<longleftrightarrow>
      active_groups (verdict_groups ctx) = []) \<and>
   (py_startswith (merge_recommendation (verdict_groups ctx)) (S ''Fix before merge'') \<longleftrightarrow>
      compute_publish_confidence ctx = 3) \<and>
   (py_startswith (merge_recommendation (verdict_groups ctx)) (S ''Review warnings'') \<longleftrightarrow>
      compute_publish_confidence ctx = 4)"
proof -
  have c: "compute_publish_confidence ctx =
      (if list_ex is_blocker (active_groups (verdict_groups ctx)) then 3
       else if list_ex is_warning (active_groups (verdict_groups ctx)) then 4 else 5)"
    by (simp add: compute_publish_confidence_def confidence_is_ceiling confidence_ceiling_def Let_def)
  have ex: "list_ex P (active_groups gs) \<longleftrightarrow> (\<exists>g. g \<in> set gs \<and> fg_state g = Grp_active \<and> P g)" for P gs
    by (auto simp: list_ex_iff)
  have texts: "py_startswith (merge_recommendation gs) (S ''Ready to merge'') \<longleftrightarrow> active_groups gs = []"
    "py_startswith (merge_recommendation gs) (S ''Fix before merge'') \<longleftrightarrow> list_ex is_blocker (active_groups gs)"
    "py_startswith (merge_recommendation gs) (S ''Review warnings'') \<longleftrightarrow>
       \<not> list_ex is_blocker (active_groups gs) \<and> list_ex is_warning (active_groups gs)" for gs
    by (simp_all add: merge_recommendation_def Let_def py_startswith_def S_def)
  show ?thesis unfolding texts c ex by (simp split: if_split) blast
qed

lemma attention_paths_app: "\<exists>ys. attention_paths gs paths = paths @ ys"
proof (induction gs paths rule: attention_paths.induct)
  case (2 g gs paths)
  then show ?case by (fastforce simp: Let_def split: option.splits)
qed simp

definition wants_attention :: "finding_group \<Rightarrow> pystr \<Rightarrow> bool" where
  "wants_attention g p \<longleftrightarrow> fg_severity g \<noteq> Sev_info \<and> fg_file_path g = Some p \<and> p \<noteq> []"

lemma attention_paths_spec:
  "distinct paths \<Longrightarrow> length paths < FILES_NEEDING_ATTENTION_CAP \<Longrightarrow>
     distinct (attention_paths gs paths) \<and> length (attention_paths gs paths) \<le> FILES_NEEDING_ATTENTION_CAP \<and>
     set (attention_paths gs paths) \<subseteq> set paths \<union> {p. \<exists>g\<in>set gs. wants_attention g p} \<and>
     (length (attention_paths gs paths) < FILES_NEEDING_ATTENTION_CAP \<longrightarrow>
        {p. \<exists>g\<in>set gs. wants_attention g p} \<subseteq> set (attention_paths gs paths))"
proof (induction gs paths rule: attention_paths.induct)
  case (2 g gs paths)
  consider (skip) "\<forall>p. wants_attention g p \<longrightarrow> p \<in> set paths"
    | (add) p where "wants_attention g p" "p \<notin> set paths" by blast
  then show ?case
  proof cases
    case skip
    then have e: "attention_paths (g # gs) paths = attention_paths gs paths"
      by (auto simp: wants_attention_def split: option.splits)
    have "distinct (attention_paths gs paths) \<and> length (attention_paths gs paths) \<le> FILES_NEEDING_ATTENTION_CAP \<and>
        set (attention_paths gs paths) \<subseteq> set paths \<union> {p. \<exists>g\<in>set gs. wants_attention g p} \<and>
        (length (attention_paths gs paths) < FILES_NEEDING_ATTENTION_CAP \<longrightarrow>
          {p. \<exists>g\<in>set gs. wants_attention g p} \<subseteq> set (attention_paths gs paths))"
      using 2 skip by (cases "fg_severity g = Sev_info"; cases "fg_file_path g") (auto simp: wants_attention_def)
    moreover have "set paths \<subseteq> set (attention_paths gs paths)" using attention_paths_app [of gs paths] by auto
    ultimately show ?thesis using skip unfolding e by auto
  next
    case add
    let ?ps = "paths @ [p]"
    have g: "fg_severity g \<noteq> Sev_info" "fg_file_path g = Some p" "p \<noteq> []" using add by (auto simp: wants_attention_def)
    show ?thesis
    proof (cases "FILES_NEEDING_ATTENTION_CAP \<le> length ?ps")
      case True
      with "2.prems"(2) have "length ?ps = FILES_NEEDING_ATTENTION_CAP" by simp
      with True g add "2.prems"(1) show ?thesis by (auto simp: Let_def)
    next
      case False
      then have e: "attention_paths (g # gs) paths = attention_paths gs ?ps" using g add by (simp add: Let_def)
      have "distinct (attention_paths gs ?ps) \<and> length (attention_paths gs ?ps) \<le> FILES_NEEDING_ATTENTION_CAP \<and>
          set (attention_paths gs ?ps) \<subseteq> set ?ps \<union> {p. \<exists>g\<in>set gs. wants_attention g p} \<and>
          (length (attention_paths gs ?ps) < FILES_NEEDING_ATTENTION_CAP \<longrightarrow>
            {p. \<exists>g\<in>set gs. wants_attention g p} \<subseteq> set (attention_paths gs ?ps))"
        using 2 g add False by (auto simp: Let_def)
      moreover have "p \<in> set (attention_paths gs ?ps)" using attention_paths_app [of gs ?ps] by auto
      ultimately show ?thesis using add unfolding e by (auto simp: wants_attention_def)
    qed
  qed
qed auto

text \<open>The files named as needing attention are files of open findings above info, each named once and
  at most twenty; when fewer than twenty are named, none of those files is missing.\<close>

theorem files_needing_attention_exact:
  "distinct (files_needing_attention gs) \<and> length (files_needing_attention gs) \<le> 20 \<and>
   set (files_needing_attention gs) \<subseteq> {p. \<exists>g. g \<in> set gs \<and> fg_state g = Grp_active \<and> wants_attention g p} \<and>
   (20 \<le> length (files_needing_attention gs) \<or>
     set (files_needing_attention gs) = {p. \<exists>g. g \<in> set gs \<and> fg_state g = Grp_active \<and> wants_attention g p})"
proof -
  from attention_paths_spec [of "[]" "sorted_active_groups gs"]
  have "distinct (files_needing_attention gs) \<and> length (files_needing_attention gs) \<le> 20 \<and>
      set (files_needing_attention gs) \<subseteq> {p. \<exists>g\<in>set (sorted_active_groups gs). wants_attention g p} \<and>
      (length (files_needing_attention gs) < 20 \<longrightarrow>
        {p. \<exists>g\<in>set (sorted_active_groups gs). wants_attention g p} \<subseteq> set (files_needing_attention gs))"
    by (simp add: files_needing_attention_def FILES_NEEDING_ATTENTION_CAP_def)
  then show ?thesis by (auto simp: not_le)
qed

end
