(* ===== verification/Rollup.thy ===== *)
theory Rollup
  imports Publish_Verdict
begin

section \<open>The lifetime rollup of a pull request (\<open>services/github_pr_resolution_rollup.py\<close>)\<close>

text \<open>
  The manifest of a publish that says how many findings the pull request ever had, how many are resolved
  and by what, how many are shown as open, and how many of the open ones are hidden and why.  The record
  \<open>rollup\<close> has the fields of the manifest; \<open>rollup_json\<close> is the dict that is stored.
\<close>

definition PR_RESOLUTION_ROLLUP_SCHEMA_VERSION :: int where
  "PR_RESOLUTION_ROLLUP_SCHEMA_VERSION = 1"

definition LIFETIME_DISCLOSURE :: pystr where
  "LIFETIME_DISCLOSURE =
     S ''This is the first Revy review on this pull request. Lifetime counts include findings that existed before this review.''"

record filter_snapshot =
  fs_raw_active :: nat
  fs_collapsed :: nat
  fs_orphan :: nat
  fs_compare_failed :: nat

record resolved_by_method =
  rb_absent_and_addressed :: nat
  rb_judge_dismissed :: nat
  rb_verification_dismissed :: nat
  rb_human_dismissed :: nat
  rb_path_removed :: nat

record rollup =
  ru_computed_at :: uuid
  ru_revision_number :: int
  ru_review_count :: nat
  ru_raised :: nat
  ru_resolved :: nat
  ru_by_method :: resolved_by_method
  ru_still_open_display :: nat
  ru_still_open_generation :: nat
  ru_still_open_prior :: nat
  ru_rate_tenths :: "nat option"
  ru_snapshot :: filter_snapshot
  ru_transition_count :: int
  ru_disclosure :: "pystr option"

subsection \<open>Resolutions by method\<close>

text \<open>Each revision with the one before it.\<close>

fun prior_pairs :: "revision option \<Rightarrow> revision list \<Rightarrow> (uuid \<times> uuid list) list" where
  "prior_pairs before [] = []"
| "prior_pairs before (r # rs) =
     (rev_id r, case before of None \<Rightarrow> [] | Some b \<Rightarrow> [rev_id b]) # prior_pairs (Some r) rs"

definition build_prior_revision_ids_by_resolve_revision :: "revision list \<Rightarrow> uuid \<Rightarrow> uuid list option" where
  "build_prior_revision_ids_by_resolve_revision revisions k =
     map_of (rev (prior_pairs None (sort_key rev_number revisions))) k"

definition load_prior_revision_ids_by_resolve_revision :: "session \<Rightarrow> uuid \<Rightarrow> uuid \<Rightarrow> uuid list option" where
  "load_prior_revision_ids_by_resolve_revision s pr =
     build_prior_revision_ids_by_resolve_revision (filter (\<lambda>r. rev_pull_request_id r = pr) (ss_revisions s))"

definition is_lifetime_path_removed_resolution :: "(uuid \<Rightarrow> uuid list option) \<Rightarrow> finding_group \<Rightarrow> bool" where
  "is_lifetime_path_removed_resolution prior g =
     (case fg_resolved_at_revision_id g of
        None \<Rightarrow> False
      | Some r \<Rightarrow>
          let prior_ids = opt_or (prior r) [] in
          fg_state g = Grp_resolved \<and> fg_resolution_method g = Some RM_absent_and_addressed \<and>
          fg_last_seen_revision_id g \<noteq> r \<and> prior_ids \<noteq> [] \<and> fg_last_seen_revision_id g \<notin> set prior_ids)"

definition empty_resolved_by_method :: resolved_by_method where
  "empty_resolved_by_method = \<lparr>rb_absent_and_addressed = 0, rb_judge_dismissed = 0, rb_verification_dismissed = 0,
     rb_human_dismissed = 0, rb_path_removed = 0\<rparr>"

definition count_method :: "(uuid \<Rightarrow> uuid list option) \<Rightarrow> resolved_by_method \<Rightarrow> finding_group \<Rightarrow> resolved_by_method" where
  "count_method prior c g =
     (if fg_state g \<noteq> Grp_resolved then c
      else if is_lifetime_path_removed_resolution prior g then c\<lparr>rb_path_removed := rb_path_removed c + 1\<rparr>
      else case fg_resolution_method g of
        Some RM_absent_and_addressed \<Rightarrow> c\<lparr>rb_absent_and_addressed := rb_absent_and_addressed c + 1\<rparr>
      | Some RM_judge_dismissed \<Rightarrow> c\<lparr>rb_judge_dismissed := rb_judge_dismissed c + 1\<rparr>
      | Some RM_verification_dismissed \<Rightarrow> c\<lparr>rb_verification_dismissed := rb_verification_dismissed c + 1\<rparr>
      | Some RM_human_dismissed \<Rightarrow> c\<lparr>rb_human_dismissed := rb_human_dismissed c + 1\<rparr>
      | _ \<Rightarrow> c)"

definition build_resolved_by_method :: "finding_group list \<Rightarrow> (uuid \<Rightarrow> uuid list option) \<Rightarrow> resolved_by_method" where
  "build_resolved_by_method groups prior = foldl (count_method prior) empty_resolved_by_method groups"

subsection \<open>What the filters hide\<close>

definition count_hidden ::
  "pystr set \<Rightarrow> pystr set \<Rightarrow> pystr set \<Rightarrow> pystr set \<Rightarrow> pystr set option \<Rightarrow> filter_snapshot \<Rightarrow> finding_group \<Rightarrow>
     filter_snapshot" where
  "count_hidden shown publishable collapsed generation ever_inlined c g =
     (let k = group_identity_key g in
      if k \<in> shown then c
      else if k \<in> collapsed \<and> k \<notin> publishable \<and> k \<notin> generation then c\<lparr>fs_collapsed := fs_collapsed c + 1\<rparr>
      else if (case ever_inlined of None \<Rightarrow> False | Some inlined \<Rightarrow> k \<notin> inlined \<and> k \<notin> generation)
      then c\<lparr>fs_orphan := fs_orphan c + 1\<rparr>
      else if fg_closure_blocked_reason g \<in> {Some COMPARE_FAILED_REASON, Some HEAD_CHECK_FAILED_REASON}
      then c\<lparr>fs_compare_failed := fs_compare_failed c + 1\<rparr> else c)"

definition compute_filter_snapshot ::
  "finding_group list \<Rightarrow> finding_group list \<Rightarrow> pystr set \<Rightarrow> pystr set \<Rightarrow> pystr set \<Rightarrow> pystr set option \<Rightarrow>
     filter_snapshot" where
  "compute_filter_snapshot raw filtered publishable collapsed generation ever_inlined =
     (let raw_active = filter (\<lambda>g. fg_state g = Grp_active \<and> fg_resolution_status g \<noteq> Some RS_addressed) raw
      in foldl (count_hidden (set (map group_identity_key filtered)) publishable collapsed generation ever_inlined)
           \<lparr>fs_raw_active = length raw_active, fs_collapsed = 0, fs_orphan = 0, fs_compare_failed = 0\<rparr> raw_active)"

subsection \<open>The manifest\<close>

definition build_pr_resolution_rollup ::
  "unicode \<Rightarrow> format_ctx \<Rightarrow> finding_group list \<Rightarrow> nat \<Rightarrow> uuid \<Rightarrow> finding_group list \<Rightarrow> pystr set \<Rightarrow> pystr set \<Rightarrow>
     (uuid \<Rightarrow> uuid list option) \<Rightarrow> exn + rollup" where
  "build_pr_resolution_rollup u ctx all_groups review_count revision_id raw publishable collapsed prior =
     (let groups = filter (\<lambda>g. fg_state g \<noteq> Grp_superseded) all_groups;
          raised = length groups;
          resolved = count_if (\<lambda>g. fg_state g = Grp_resolved) groups;
          verdict = verdict_groups ctx;
          shown = length (active_groups verdict);
          denominator = resolved + shown
      in rbind (int_or_0 u (opt_or (fc_metrics ctx) []) (S ''transition_count'')) (\<lambda>transitions.
           Inr \<lparr>ru_computed_at = revision_id, ru_revision_number = fc_revision_number ctx,
             ru_review_count = review_count, ru_raised = raised, ru_resolved = resolved,
             ru_by_method = build_resolved_by_method groups prior,
             ru_still_open_display = shown, ru_still_open_generation = length (active_groups (fc_groups ctx)),
             ru_still_open_prior = display_still_open_prior_count ctx,
             ru_rate_tenths = (if 0 < denominator then Some (pct_tenths resolved denominator) else None),
             ru_snapshot = compute_filter_snapshot raw verdict publishable collapsed (generation_ids ctx)
               (fc_ever_inlined ctx),
             ru_transition_count = transitions,
             ru_disclosure = (if review_count = 1 \<and> length (fc_groups ctx) < raised
                              then Some LIFETIME_DISCLOSURE else None)\<rparr>))"

definition rollup_json :: "rollup \<Rightarrow> (pystr \<times> json) list" where
  "rollup_json r =
     (let n = (\<lambda>k. JInt (int k)); m = ru_by_method r; f = ru_snapshot r in
      [(S ''schema_version'', JInt PR_RESOLUTION_ROLLUP_SCHEMA_VERSION),
       (S ''computed_at_revision_id'', JStr (uuid_str (ru_computed_at r))),
       (S ''revision_number'', JInt (ru_revision_number r)),
       (S ''review_count'', n (ru_review_count r)),
       (S ''raised_count'', n (ru_raised r)),
       (S ''resolved_count'', n (ru_resolved r)),
       (S ''resolved_by_method'', JObj
         [(S ''absent_and_addressed'', n (rb_absent_and_addressed m)), (S ''judge_dismissed'', n (rb_judge_dismissed m)),
          (S ''verification_dismissed'', n (rb_verification_dismissed m)),
          (S ''human_dismissed'', n (rb_human_dismissed m)), (S ''path_removed'', n (rb_path_removed m))]),
       (S ''still_open_display'', n (ru_still_open_display r)),
       (S ''still_open_generation'', n (ru_still_open_generation r)),
       (S ''still_open_prior'', n (ru_still_open_prior r)),
       (S ''lifetime_resolution_rate_pct'',
          case ru_rate_tenths r of None \<Rightarrow> JNull | Some t \<Rightarrow> JFloat (int t) 1),
       (S ''filter_snapshot'', JObj
         [(S ''raw_active_before_filters'', n (fs_raw_active f)), (S ''collapsed_hidden'', n (fs_collapsed f)),
          (S ''orphan_never_inlined_hidden'', n (fs_orphan f)), (S ''compare_failed_hidden'', n (fs_compare_failed f))]),
       (S ''push_manifest_ref'', JObj
         [(S ''revision_number'', JInt (ru_revision_number r)), (S ''transition_count'', JInt (ru_transition_count r))]),
       (S ''lifetime_disclosure'', case ru_disclosure r of None \<Rightarrow> JNull | Some t \<Rightarrow> JStr t)])"

definition count_completed_publish_jobs :: "session \<Rightarrow> uuid \<Rightarrow> nat" where
  "count_completed_publish_jobs s pr =
     length (concat (map (\<lambda>j. filter (\<lambda>r. rev_id r = pj_revision_id j \<and> rev_pull_request_id r = pr) (ss_revisions s))
       (filter (\<lambda>j. pj_status j = PJ_completed) (ss_publish_jobs s))))"

definition review_count_for_in_flight_publish :: "session \<Rightarrow> uuid \<Rightarrow> nat" where
  "review_count_for_in_flight_publish s pr = count_completed_publish_jobs s pr + 1"

subsection \<open>Laws\<close>

definition method_total :: "resolved_by_method \<Rightarrow> nat" where
  "method_total c = rb_absent_and_addressed c + rb_judge_dismissed c + rb_verification_dismissed c +
     rb_human_dismissed c + rb_path_removed c"

text \<open>The resolutions no bucket counts.\<close>

definition unbucketed :: "finding_group \<Rightarrow> bool" where
  "unbucketed g \<longleftrightarrow> fg_state g = Grp_resolved \<and>
     (fg_resolution_method g = None \<or> fg_resolution_method g = Some RM_head_contradiction)"

lemma count_method_total:
  "method_total (count_method prior c g) =
     method_total c + (if fg_state g = Grp_resolved \<and> \<not> unbucketed g then 1 else 0)"
proof -
  have "\<not> unbucketed g" if "is_lifetime_path_removed_resolution prior g"
    using that by (auto simp: is_lifetime_path_removed_resolution_def unbucketed_def Let_def split: option.splits)
  then show ?thesis
    by (auto simp: count_method_def method_total_def unbucketed_def split: option.splits resolution_method.splits)
qed

lemma resolved_by_method_total:
  "method_total (build_resolved_by_method gs prior) + count_if unbucketed gs =
     count_if (\<lambda>g. fg_state g = Grp_resolved) gs"
proof -
  have "method_total (foldl (count_method prior) c gs) + count_if unbucketed gs =
      method_total c + count_if (\<lambda>g. fg_state g = Grp_resolved) gs" for c
  proof (induction gs arbitrary: c)
    case (Cons g gs)
    from Cons.IH [of "count_method prior c g"] show ?case
      by (auto simp: count_method_total count_if_def unbucketed_def)
  qed (simp add: count_if_def)
  from this [of empty_resolved_by_method] show ?thesis
    by (simp add: build_resolved_by_method_def method_total_def empty_resolved_by_method_def)
qed

lemma count_hidden_fold:
  assumes "\<And>g. g \<in> set gs \<Longrightarrow> group_identity_key g \<in> shown \<longleftrightarrow>
      \<not> hidden_as_collapsed p c (Some gen) g \<and> \<not> hidden_as_orphan ever (Some gen) g"
  shows "foldl (count_hidden shown p c gen ever) f gs =
    f\<lparr>fs_collapsed := fs_collapsed f + count_if (hidden_as_collapsed p c (Some gen)) gs,
      fs_orphan := fs_orphan f +
        count_if (\<lambda>g. \<not> hidden_as_collapsed p c (Some gen) g \<and> hidden_as_orphan ever (Some gen) g) gs\<rparr>"
  using assms
proof (induction gs arbitrary: f)
  case (Cons g gs)
  have "count_hidden shown p c gen ever f g =
      (if hidden_as_collapsed p c (Some gen) g then f\<lparr>fs_collapsed := fs_collapsed f + 1\<rparr>
       else if hidden_as_orphan ever (Some gen) g then f\<lparr>fs_orphan := fs_orphan f + 1\<rparr> else f)"
    using Cons.prems [of g]
    by (auto simp: count_hidden_def hidden_as_collapsed_def hidden_as_orphan_def Let_def split: option.splits)
  with Cons.IH [of "count_hidden shown p c gen ever f g"] Cons.prems show ?case by (auto simp: count_if_def)
qed (simp add: count_if_def)

lemma count_if_parts:
  "count_if (\<lambda>x. \<not> a x \<and> \<not> b x) xs + count_if a xs + count_if (\<lambda>x. \<not> a x \<and> b x) xs = length xs"
  by (induction xs) (auto simp: count_if_def)

lemma count_if_filter: "count_if p (filter q xs) = count_if (\<lambda>x. q x \<and> p x) xs"
  by (induction xs) (auto simp: count_if_def)

lemma count_if_cong_set: "(\<And>x. x \<in> set xs \<Longrightarrow> p x \<longleftrightarrow> q x) \<Longrightarrow> count_if p xs = count_if q xs"
  by (induction xs) (auto simp: count_if_def)

lemma raised_split:
  "length (filter (\<lambda>g. fg_state g \<noteq> Grp_superseded) gs) =
     count_if (\<lambda>g. fg_state g = Grp_resolved) gs + count_if (\<lambda>g. fg_state g = Grp_active) gs"
proof (induction gs)
  case (Cons g gs)
  then show ?case by (cases "fg_state g") (auto simp: count_if_def)
qed (simp add: count_if_def)

text \<open>What the snapshot says, when the groups shown are the open groups that passed the filters.\<close>

lemma snapshot_of_filtered:
  fixes raw gen p c ever
  defines "live \<equiv> filter (\<lambda>g. fg_resolution_status g \<noteq> Some RS_addressed) raw"
  assumes "distinct (map fg_id raw)" and "list_all (\<lambda>g. fg_state g = Grp_active) raw"
  shows "compute_filter_snapshot raw (filter_pr_active_groups_for_summary raw p c (Some gen) ever) p c gen ever =
    \<lparr>fs_raw_active = length live,
     fs_collapsed = count_if (hidden_as_collapsed p c (Some gen)) live,
     fs_orphan = count_if (\<lambda>g. \<not> hidden_as_collapsed p c (Some gen) g \<and> hidden_as_orphan ever (Some gen) g) live,
     fs_compare_failed = 0\<rparr>"
    and "length (filter_pr_active_groups_for_summary raw p c (Some gen) ever) =
      count_if (\<lambda>g. \<not> hidden_as_collapsed p c (Some gen) g \<and> \<not> hidden_as_orphan ever (Some gen) g) live"
proof -
  have live: "filter (\<lambda>g. fg_state g = Grp_active \<and> fg_resolution_status g \<noteq> Some RS_addressed) raw = live"
    using assms(3) by (auto simp: live_def list_all_iff intro!: filter_cong)
  let ?shown = "filter_pr_active_groups_for_summary raw p c (Some gen) ever"
  have shown: "?shown = filter (\<lambda>g. \<not> hidden_as_collapsed p c (Some gen) g \<and> \<not> hidden_as_orphan ever (Some gen) g) live"
    by (simp add: filter_for_summary live_def conj_ac)
  have "group_identity_key g \<in> set (map group_identity_key ?shown) \<longleftrightarrow>
      \<not> hidden_as_collapsed p c (Some gen) g \<and> \<not> hidden_as_orphan ever (Some gen) g" if "g \<in> set live" for g
  proof
    assume "group_identity_key g \<in> set (map group_identity_key ?shown)"
    then obtain h where h: "h \<in> set ?shown" "fg_id h = fg_id g" by (auto simp: group_identity_key_def dest!: uuid_str_inj)
    moreover have "h \<in> set raw" "g \<in> set raw" using h(1) that by (auto simp: shown live_def)
    ultimately have "h = g" using assms(2) by (auto simp: distinct_map dest: inj_onD)
    with h(1) show "\<not> hidden_as_collapsed p c (Some gen) g \<and> \<not> hidden_as_orphan ever (Some gen) g" by (simp add: shown)
  qed (use that shown in auto)
  from count_hidden_fold [of live "set (map group_identity_key ?shown)" p c gen ever, OF this]
  show "compute_filter_snapshot raw ?shown p c gen ever =
    \<lparr>fs_raw_active = length live, fs_collapsed = count_if (hidden_as_collapsed p c (Some gen)) live,
     fs_orphan = count_if (\<lambda>g. \<not> hidden_as_collapsed p c (Some gen) g \<and> hidden_as_orphan ever (Some gen) g) live,
     fs_compare_failed = 0\<rparr>"
    by (simp add: compute_filter_snapshot_def live Let_def del: set_map)
  show "length ?shown =
      count_if (\<lambda>g. \<not> hidden_as_collapsed p c (Some gen) g \<and> \<not> hidden_as_orphan ever (Some gen) g) live"
    by (simp add: shown count_if_def)
qed

text \<open>C27. The lifetime summary adds up.  When the groups shown are the open groups of the pull request that
  pass the filters (as the publish computes them): every finding raised is resolved, shown, hidden as
  collapsed, hidden as never inlined, or stamped addressed but not closed yet; nothing is ever counted as
  hidden by a failed comparison; the methods add up to the resolved findings less those closed by a head
  contradiction or without a method; and the resolution rate is at most 100 percent.\<close>

theorem rollup_reconciles:
  assumes "distinct (map fg_id gs)"
    and "fc_pr_active ctx = Some (filter_pr_active_groups_for_summary (active_groups gs) publishable collapsed
      (Some (generation_ids ctx)) (fc_ever_inlined ctx))"
    and "build_pr_resolution_rollup u ctx gs n rv (active_groups gs) publishable collapsed prior = Inr r"
  shows "ru_raised r = ru_resolved r + ru_still_open_display r + fs_collapsed (ru_snapshot r) +
      fs_orphan (ru_snapshot r) +
      count_if (\<lambda>g. fg_state g = Grp_active \<and> fg_resolution_status g = Some RS_addressed) gs \<and>
    fs_raw_active (ru_snapshot r) =
      ru_still_open_display r + fs_collapsed (ru_snapshot r) + fs_orphan (ru_snapshot r) \<and>
    fs_compare_failed (ru_snapshot r) = 0 \<and>
    method_total (ru_by_method r) + count_if unbucketed gs = ru_resolved r \<and>
    opt_or (ru_rate_tenths r) 0 \<le> 1000"
proof -
  let ?raw = "active_groups gs"
  let ?live = "filter (\<lambda>g. fg_resolution_status g \<noteq> Some RS_addressed) ?raw"
  let ?shown = "filter_pr_active_groups_for_summary ?raw publishable collapsed (Some (generation_ids ctx)) (fc_ever_inlined ctx)"
  have d: "distinct (map fg_id ?raw)" using assms(1) by (simp add: active_groups_def distinct_map_filter)
  have act: "list_all (\<lambda>g. fg_state g = Grp_active) ?raw" by (simp add: list_all_iff)
  note snap = snapshot_of_filtered [OF d act, of publishable collapsed "generation_ids ctx" "fc_ever_inlined ctx"]
  have verdict: "verdict_groups ctx = ?shown" using assms(2) by (simp add: verdict_groups_def)
  have "active_groups ?shown = ?shown" unfolding active_groups_def filter_for_summary by (rule filter_True) auto
  note shown = this verdict
  have live: "length ?live + count_if (\<lambda>g. fg_state g = Grp_active \<and> fg_resolution_status g = Some RS_addressed) gs =
      count_if (\<lambda>g. fg_state g = Grp_active) gs"
    by (induction gs) (auto simp: active_groups_def count_if_def)
  let ?ns = "filter (\<lambda>g. fg_state g \<noteq> Grp_superseded) gs"
  have res: "count_if (\<lambda>g. fg_state g = Grp_resolved) ?ns = count_if (\<lambda>g. fg_state g = Grp_resolved) gs"
    "count_if unbucketed ?ns = count_if unbucketed gs"
    unfolding count_if_filter by (rule count_if_cong_set, auto simp: unbucketed_def)+
  have fields: "ru_raised r = length ?ns" "ru_resolved r = count_if (\<lambda>g. fg_state g = Grp_resolved) gs"
    "ru_still_open_display r = length ?shown" "ru_by_method r = build_resolved_by_method ?ns prior"
    "ru_snapshot r = compute_filter_snapshot ?raw ?shown publishable collapsed (generation_ids ctx) (fc_ever_inlined ctx)"
    "opt_or (ru_rate_tenths r) 0 \<le> 1000"
    using assms(3) by (auto simp: build_pr_resolution_rollup_def rbind_eq_Inr Let_def shown res pct_tenths_le split: if_splits)
  have parts: "length ?shown + fs_collapsed (ru_snapshot r) + fs_orphan (ru_snapshot r) = length ?live"
    unfolding fields(5) snap by (simp add: count_if_parts)
  have raw: "fs_raw_active (ru_snapshot r) = length ?live" "fs_compare_failed (ru_snapshot r) = 0"
    unfolding fields(5) snap(1) by simp_all
  have methods: "method_total (ru_by_method r) + count_if unbucketed gs = ru_resolved r"
    using resolved_by_method_total [of ?ns prior] by (simp add: fields res)
  show ?thesis using parts raw methods live raised_split [of gs] fields by linarith
qed

subsection \<open>A concrete rollup\<close>

definition demo_pr_groups :: "finding_group list" where
  "demo_pr_groups =
     [demo_group, demo_group\<lparr>fg_id := 11\<rparr>, demo_group\<lparr>fg_id := 12\<rparr>,
      demo_group\<lparr>fg_id := 13, fg_state := Grp_resolved, fg_resolution_method := Some RM_judge_dismissed\<rparr>,
      demo_group\<lparr>fg_id := 14, fg_resolution_status := Some RS_addressed\<rparr>]"

text \<open>Group 10 is of this generation, the thread of group 11 is collapsed, group 12 was never inlined.\<close>

definition demo_format_ctx :: format_ctx where
  "demo_format_ctx = \<lparr>fc_pull_request_id = 4, fc_pull_request_number = 17, fc_head_sha = S ''bb'',
     fc_revision_number = 2, fc_groups = [demo_group], fc_index_mode = None, fc_fallback_reason = None,
     fc_metrics = None, fc_pr_active = Some [demo_group], fc_ever_inlined = Some {uuid_str 10, uuid_str 11},
     fc_rollup = None, fc_pipeline_run_id = None, fc_review_run_id = None\<rparr>"

theorem rollup_reconciles_witness:
  "\<exists>r. build_pr_resolution_rollup ascii_only demo_format_ctx demo_pr_groups 2 2 (active_groups demo_pr_groups) {}
       {uuid_str 11} (\<lambda>_. None) = Inr r \<and>
     ru_raised r = 5 \<and> ru_resolved r = 1 \<and> ru_still_open_display r = 1 \<and>
     fs_collapsed (ru_snapshot r) + fs_orphan (ru_snapshot r) = 2"
proof -
  have d: "distinct (map fg_id demo_pr_groups)" by (simp add: demo_pr_groups_def demo_group_def)
  have act: "active_groups demo_pr_groups = [demo_group, demo_group\<lparr>fg_id := 11\<rparr>, demo_group\<lparr>fg_id := 12\<rparr>,
      demo_group\<lparr>fg_id := 14, fg_resolution_status := Some RS_addressed\<rparr>]"
    by (simp add: active_groups_def demo_pr_groups_def demo_group_def)
  have ne: "uuid_str 12 \<noteq> uuid_str 10" "uuid_str 12 \<noteq> uuid_str 11" "uuid_str 10 \<noteq> uuid_str 11" "uuid_str 11 \<noteq> uuid_str 10"
    by (auto dest!: uuid_str_inj)
  have "fc_pr_active demo_format_ctx = Some (filter_pr_active_groups_for_summary (active_groups demo_pr_groups) {}
      {uuid_str 11} (Some (generation_ids demo_format_ctx)) (fc_ever_inlined demo_format_ctx))"
    by (simp add: act filter_for_summary demo_format_ctx_def generation_ids_def hidden_as_collapsed_def
        hidden_as_orphan_def group_identity_key_def demo_group_def ne)
  moreover obtain r where b: "build_pr_resolution_rollup ascii_only demo_format_ctx demo_pr_groups 2 2
      (active_groups demo_pr_groups) {} {uuid_str 11} (\<lambda>_. None) = Inr r"
    by (simp add: build_pr_resolution_rollup_def Let_def demo_format_ctx_def int_or_0_def)
  ultimately have sums: "ru_raised r = ru_resolved r + ru_still_open_display r + fs_collapsed (ru_snapshot r) +
      fs_orphan (ru_snapshot r) +
      count_if (\<lambda>g. fg_state g = Grp_active \<and> fg_resolution_status g = Some RS_addressed) demo_pr_groups"
    using rollup_reconciles [OF d] by blast
  from b have "ru_raised r = 5" "ru_resolved r = 1" "ru_still_open_display r = 1"
    by (auto simp: build_pr_resolution_rollup_def Let_def demo_format_ctx_def int_or_0_def verdict_groups_def
        active_groups_def count_if_def demo_pr_groups_def demo_group_def)
  with sums b show ?thesis by (simp add: count_if_def demo_pr_groups_def demo_group_def)
qed

end
