(* ===== verification/Inline_Threads.thy ===== *)
theory Inline_Threads
  imports Rollup Judge
begin

section \<open>Inline threads of a pull request (\<open>services/github_publish.py\<close>)\<close>

text \<open>
  A publish job remembers in \<open>summary_json\<close> which review comment shows which finding group: a JSON object
  from the group's identity to \<open>{comment_id, thread_id?}\<close> (version 2), or to the bare comment id (legacy).
  Keys written before the identity became the group's id are fingerprints of 64 hex digits.  This theory
  reads, rekeys and writes these maps and decides which threads of earlier pushes are to be collapsed.
  A dict is an association list in insertion order with distinct keys.
\<close>

subsection \<open>Identities\<close>

definition parse_group_id_key :: "unicode \<Rightarrow> pystr \<Rightarrow> uuid option" where
  "parse_group_id_key u key = uuid_of_str u key"

text \<open>\<open>_SHA256_HEX_RE.fullmatch\<close>.\<close>

definition is_sha256_hex :: "pystr \<Rightarrow> bool" where
  "is_sha256_hex key \<longleftrightarrow>
     length key = 64 \<and> list_all (\<lambda>c. (48 \<le> c \<and> c \<le> 57) \<or> (97 \<le> c \<and> c \<le> 102)) key"

definition fingerprint_to_group_id_map :: "session \<Rightarrow> uuid \<Rightarrow> pystr list \<Rightarrow> (pystr \<times> pystr) list" where
  "fingerprint_to_group_id_map s pr fingerprints =
     (if fingerprints = [] then []
      else dict_of (map (\<lambda>g. (fg_fingerprint g, group_identity_key g))
        (filter (\<lambda>g. fg_pull_request_id g = pr \<and> fg_fingerprint g \<in> set fingerprints) (ss_groups s))))"

definition rekey_loaded_identity :: "unicode \<Rightarrow> (pystr \<times> pystr) list \<Rightarrow> pystr \<Rightarrow> pystr" where
  "rekey_loaded_identity u fp_to_id key =
     (case parse_group_id_key u key of
        Some k \<Rightarrow> uuid_str k
      | None \<Rightarrow> (case map_of fp_to_id key of Some mapped \<Rightarrow> mapped | None \<Rightarrow> key))"

definition rekey_identity_keys_to_group_ids :: "unicode \<Rightarrow> session \<Rightarrow> uuid \<Rightarrow> pystr list \<Rightarrow> pystr list" where
  "rekey_identity_keys_to_group_ids u s pr keys =
     (let fp_to_id = fingerprint_to_group_id_map s pr (filter is_sha256_hex keys)
      in dedupe (map (rekey_loaded_identity u fp_to_id) keys))"

text \<open>\<open>d.setdefault(k, v)\<close> and the two loops: fingerprints first, then identifiers, which win.\<close>

definition setdefault :: "pystr \<Rightarrow> 'v \<Rightarrow> (pystr \<times> 'v) list \<Rightarrow> (pystr \<times> 'v) list" where
  "setdefault k v d = (case map_of d k of None \<Rightarrow> d @ [(k, v)] | Some _ \<Rightarrow> d)"

definition rekey_hex_entry ::
  "(pystr \<times> pystr) list \<Rightarrow> pystr \<times> 'v \<Rightarrow> (pystr \<times> 'v) list \<Rightarrow> (pystr \<times> 'v) list" where
  "rekey_hex_entry fp_to_id kv d =
     (if is_sha256_hex (fst kv)
      then (case map_of fp_to_id (fst kv) of None \<Rightarrow> d | Some identity \<Rightarrow> setdefault identity (snd kv) d)
      else d)"

definition rekey_id_entry :: "unicode \<Rightarrow> pystr \<times> 'v \<Rightarrow> (pystr \<times> 'v) list \<Rightarrow> (pystr \<times> 'v) list" where
  "rekey_id_entry u kv d =
     (case parse_group_id_key u (fst kv) of
        None \<Rightarrow> if is_sha256_hex (fst kv) then d else AList.update (fst kv) (snd kv) d
      | Some k \<Rightarrow> AList.update (uuid_str k) (snd kv) d)"

definition rekey_inline_thread_map_to_group_ids ::
  "unicode \<Rightarrow> session \<Rightarrow> uuid \<Rightarrow> (pystr \<times> 'v) list \<Rightarrow> (pystr \<times> 'v) list" where
  "rekey_inline_thread_map_to_group_ids u s pr comment_map =
     (let fp_to_id = fingerprint_to_group_id_map s pr (filter is_sha256_hex (map fst comment_map))
      in fold (rekey_id_entry u) comment_map (fold (rekey_hex_entry fp_to_id) comment_map []))"

definition rekey_v2_inline_map_to_group_ids ::
  "unicode \<Rightarrow> session \<Rightarrow> uuid \<Rightarrow> (pystr \<times> json) list \<Rightarrow> (pystr \<times> json) list" where
  "rekey_v2_inline_map_to_group_ids u s pr prior =
     (let fp_to_id = fingerprint_to_group_id_map s pr (filter is_sha256_hex (map fst prior))
      in fold (rekey_id_entry u) prior (fold (rekey_hex_entry fp_to_id) prior []))"

subsection \<open>Reading and writing the maps\<close>

text \<open>\<open>value == n\<close> for an int \<open>n\<close>.\<close>

fun json_eq_int :: "json \<Rightarrow> int \<Rightarrow> bool" where
  "json_eq_int (JInt i) n = (i = n)"
| "json_eq_int (JBool b) n = (of_bool b = n)"
| "json_eq_int (JFloat m k) n = (m = n * 10 ^ k)"
| "json_eq_int _ n = False"

definition prior_thread_id :: "(pystr \<times> json) list \<Rightarrow> pystr \<Rightarrow> int \<Rightarrow> pystr option" where
  "prior_thread_id prior fingerprint comment_id =
     (case json_get fingerprint prior of
        Some (JObj e) \<Rightarrow>
          (case (json_get (S ''comment_id'') e, json_get (S ''thread_id'') e) of
             (Some c, Some (JStr t)) \<Rightarrow> if json_eq_int c comment_id \<and> t \<noteq> [] then Some t else None
           | _ \<Rightarrow> None)
      | _ \<Rightarrow> None)"

definition thread_entry :: "(pystr \<times> json) list \<Rightarrow> (pystr \<times> pystr) list \<Rightarrow> pystr \<Rightarrow> int \<Rightarrow> json" where
  "thread_entry prior thread_ids fingerprint comment_id =
     JObj ([(S ''comment_id'', JInt comment_id)] @
       (case (case map_of thread_ids fingerprint of Some t \<Rightarrow> Some t | None \<Rightarrow> prior_thread_id prior fingerprint comment_id) of
          Some t \<Rightarrow> [(S ''thread_id'', JStr t)] | None \<Rightarrow> []))"

definition serialize_inline_thread_map ::
  "(pystr \<times> int) list \<Rightarrow> (pystr \<times> json) list \<Rightarrow> (pystr \<times> pystr) list \<Rightarrow> (pystr \<times> json) list" where
  "serialize_inline_thread_map comment_map prior thread_ids =
     map (\<lambda>(fp, c). (fp, thread_entry prior thread_ids fp c)) comment_map"

definition summary_member :: "json option \<Rightarrow> pystr \<Rightarrow> json option" where
  "summary_member summary k = (case summary of Some (JObj ms) \<Rightarrow> json_get k ms | _ \<Rightarrow> None)"

text \<open>\<open>d.update(other)\<close>.\<close>

definition updates :: "('k \<times> 'v) list \<Rightarrow> ('k \<times> 'v) list \<Rightarrow> ('k \<times> 'v) list" where
  "updates other d = fold (\<lambda>kv d. AList.update (fst kv) (snd kv) d) other d"

definition load_inline_thread_map :: "publish_job list \<Rightarrow> (pystr \<times> int) list" where
  "load_inline_thread_map jobs =
     fold (\<lambda>j. updates (deserialize_inline_thread_map (summary_member (pj_summary_json j) (S ''github_inline_threads''))))
       jobs []"

definition load_ever_inlined_fingerprints :: "publish_job list \<Rightarrow> json option \<Rightarrow> pystr list" where
  "load_ever_inlined_fingerprints jobs current =
     dedupe (map fst (load_inline_thread_map jobs) @
       map fst (deserialize_inline_thread_map (summary_member current (S ''github_inline_threads''))))"

definition v2_entries :: "json option \<Rightarrow> (pystr \<times> json) list" where
  "v2_entries inline =
     (case inline of
        Some (JObj ms) \<Rightarrow> concat (map (\<lambda>(fp, v).
          case thread_comment_id v of
            None \<Rightarrow> []
          | Some c \<Rightarrow>
              [(fp, JObj ([(S ''comment_id'', JInt c)] @
                 (case v of
                    JObj e \<Rightarrow> (case json_get (S ''thread_id'') e of
                        Some (JStr t) \<Rightarrow> if t = [] then [] else [(S ''thread_id'', JStr t)] | _ \<Rightarrow> [])
                  | _ \<Rightarrow> [])))]) ms)
      | _ \<Rightarrow> [])"

definition load_v2_inline_thread_map :: "publish_job list \<Rightarrow> (pystr \<times> json) list" where
  "load_v2_inline_thread_map jobs =
     fold (\<lambda>j. updates (v2_entries (summary_member (pj_summary_json j) (S ''github_inline_threads'')))) jobs []"

definition fingerprint_thread_ids_from_index ::
  "(pystr \<times> int) list \<Rightarrow> (int \<times> pystr) list \<Rightarrow> (pystr \<times> pystr) list" where
  "fingerprint_thread_ids_from_index comment_map thread_index =
     concat (map (\<lambda>(fp, c). case map_of thread_index c of
         Some t \<Rightarrow> if t = [] then [] else [(fp, t)] | None \<Rightarrow> []) comment_map)"

definition PUBLISH_INLINE_THREAD_REUSE_STATUSES :: "publish_job_status list" where
  "PUBLISH_INLINE_THREAD_REUSE_STATUSES = [PJ_completed, PJ_failed]"

definition pull_request_revision_ids :: "session \<Rightarrow> uuid \<Rightarrow> uuid list" where
  "pull_request_revision_ids s pr = map rev_id (filter (\<lambda>v. rev_pull_request_id v = pr) (ss_revisions s))"

definition fetch_prior_reusable_publish_jobs :: "session \<Rightarrow> uuid \<Rightarrow> publish_job list" where
  "fetch_prior_reusable_publish_jobs s pr =
     sort_key pj_created_at (filter (\<lambda>j. pj_revision_id j \<in> set (pull_request_revision_ids s pr) \<and>
       pj_status j \<in> set PUBLISH_INLINE_THREAD_REUSE_STATUSES) (ss_publish_jobs s))"

definition load_prior_inline_thread_map :: "unicode \<Rightarrow> session \<Rightarrow> uuid \<Rightarrow> (pystr \<times> int) list" where
  "load_prior_inline_thread_map u s pr =
     rekey_inline_thread_map_to_group_ids u s pr (load_inline_thread_map (fetch_prior_reusable_publish_jobs s pr))"

subsection \<open>What this run publishes\<close>

text \<open>The outer conditions of \<open>inline_publish_findings_statement\<close>; every severity is listed there.\<close>

definition inline_publish_findings :: "session \<Rightarrow> uuid \<Rightarrow> finding list" where
  "inline_publish_findings s run_id =
     filter (\<lambda>f. fi_review_run_id f = run_id \<and>
         (case Option.bind (fi_group_id f) (get_group s) of Some g \<Rightarrow> fg_state g = Grp_active | None \<Rightarrow> False) \<and>
         fi_file_path f \<noteq> None \<and> fi_start_line f \<noteq> None)
       (ss_findings s)"

definition outcome_group_ids :: "session \<Rightarrow> uuid \<Rightarrow> uuid list" where
  "outcome_group_ids s run_id = map jo_group_id (filter (\<lambda>o'. jo_review_run_id o' = run_id) (ss_outcomes s))"

definition group_of_finding :: "session \<Rightarrow> uuid \<Rightarrow> finding \<Rightarrow> finding_group option" where
  "group_of_finding s pr f =
     (case Option.bind (fi_group_id f) (get_group s) of
        Some g \<Rightarrow> if fg_pull_request_id g = pr then Some g else None
      | None \<Rightarrow> None)"

definition awaits_judge :: "uuid list \<Rightarrow> finding \<Rightarrow> finding_group \<Rightarrow> bool" where
  "awaits_judge judged f g \<longleftrightarrow>
     is_judge_candidate (fi_severity f) (fi_category f) \<and> fg_id g \<notin> set judged \<and> fg_state g \<noteq> Grp_resolved"

definition publishable_fingerprints_for_run :: "session \<Rightarrow> uuid \<Rightarrow> uuid \<Rightarrow> pystr list" where
  "publishable_fingerprints_for_run s run_id pr =
     dedupe (concat (map (\<lambda>f. case group_of_finding s pr f of
         None \<Rightarrow> []
       | Some g \<Rightarrow> if awaits_judge (outcome_group_ids s run_id) f g then [] else [group_identity_key g])
       (inline_publish_findings s run_id)))"

text \<open>The state of the groups that is enough to collapse their thread: closed, superseded, or stamped
  addressed while tracked.\<close>

definition collapses :: "uuid list \<Rightarrow> finding_group \<Rightarrow> bool" where
  "collapses tracked g \<longleftrightarrow>
     fg_state g = Grp_superseded \<or> fg_state g = Grp_resolved \<or>
     (fg_id g \<in> set tracked \<and> fg_resolution_status g = Some RS_addressed)"

definition fingerprints_to_resolve_inline_threads ::
  "unicode \<Rightarrow> session \<Rightarrow> uuid \<Rightarrow> (pystr \<times> int) list \<Rightarrow> int list \<Rightarrow> pystr list \<Rightarrow> pystr list" where
  "fingerprints_to_resolve_inline_threads u s pr inline_threads outdated publishable =
     (let tracked = List.map_filter (\<lambda>kv. parse_group_id_key u (fst kv)) inline_threads in
      dedupe (filter (\<lambda>fp. fp \<notin> set publishable) (map fst inline_threads) @
        map fst (filter (\<lambda>kv. snd kv \<in> set outdated) inline_threads) @
        (if tracked = [] then []
         else filter (\<lambda>fp. fp \<in> set (map fst inline_threads)) (map group_identity_key
           (filter (\<lambda>g. fg_pull_request_id g = pr \<and> collapses tracked g) (ss_groups s))))))"

text \<open>\<open>_sort_publishable_groups\<close> and \<open>publishable_groups_for_review_run\<close>: the groups of the run's findings,
  a judge candidate only once it has an outcome or is resolved.\<close>

definition sort_publishable_groups :: "finding_group list \<Rightarrow> finding_group list" where
  "sort_publishable_groups groups =
     sort_key (\<lambda>g. (publish_severity_rank (fg_severity g), opt_or (fg_file_path g) [], fg_title g, uuid_str (fg_id g))) groups"

definition publishes :: "uuid list \<Rightarrow> finding \<Rightarrow> finding_group \<Rightarrow> bool" where
  "publishes judged f g \<longleftrightarrow>
     fg_state g \<noteq> Grp_superseded \<and>
     (fg_state g = Grp_resolved \<or> \<not> is_judge_candidate (fi_severity f) (fi_category f) \<or> fg_id g \<in> set judged)"

definition publishable_groups_for_review_run :: "session \<Rightarrow> uuid \<Rightarrow> uuid \<Rightarrow> finding_group list" where
  "publishable_groups_for_review_run s run_id pr =
     (let judged = outcome_group_ids s run_id in
      sort_publishable_groups (map snd (dict_of (concat (map (\<lambda>f.
          case group_of_finding s pr f of
            None \<Rightarrow> []
          | Some g \<Rightarrow> if publishes judged f g then [(fg_id g, g)] else [])
        (filter (\<lambda>f. fi_review_run_id f = run_id \<and> fi_group_id f \<noteq> None) (ss_findings s)))))))"

definition load_pr_active_groups :: "session \<Rightarrow> uuid \<Rightarrow> finding_group list" where
  "load_pr_active_groups s pr =
     filter (\<lambda>g. fg_pull_request_id g = pr \<and> fg_state g = Grp_active) (ss_groups s)"

definition load_pr_groups_for_rollup :: "session \<Rightarrow> uuid \<Rightarrow> finding_group list" where
  "load_pr_groups_for_rollup s pr =
     filter (\<lambda>g. fg_pull_request_id g = pr \<and> fg_state g \<noteq> Grp_superseded) (ss_groups s)"

subsection \<open>Collapsed threads\<close>

definition COLLAPSED_KEY :: pystr where
  "COLLAPSED_KEY = S ''collapsed_inline_fingerprints''"

text \<open>\<open>{str(x) for x in raw if x}\<close>; \<open>other\<close> gives the text of a value that is not a string.\<close>

definition collapsed_inline_fingerprints_from_summary :: "(json \<Rightarrow> pystr) \<Rightarrow> json option \<Rightarrow> pystr list" where
  "collapsed_inline_fingerprints_from_summary other summary =
     (case summary_member summary COLLAPSED_KEY of
        Some (JArr xs) \<Rightarrow> map (py_format other) (filter json_truthy xs)
      | _ \<Rightarrow> [])"

definition load_prior_collapsed_inline_fingerprints ::
  "(json \<Rightarrow> pystr) \<Rightarrow> publish_job list \<Rightarrow> json option \<Rightarrow> pystr list" where
  "load_prior_collapsed_inline_fingerprints other jobs current =
     dedupe (collapsed_inline_fingerprints_from_summary other current @
       concat (map (\<lambda>j. if pj_status j = PJ_completed
         then collapsed_inline_fingerprints_from_summary other (pj_summary_json j) else []) jobs))"

end
