(* ===== verification/Effects.thy ===== *)
theory Effects
  imports Prelude Json
begin

section \<open>Computations with state, exceptions and non-termination\<close>

text \<open>
  The publish calls many operations in a row that change the session, send requests, may raise, and in one
  place (a listing by pages) may not return.  Such an operation is a function from a state to \<open>None\<close> (it
  does not return) or to the state it leaves and an exception or a result.  The laws below are the ones the
  proofs use: an operation runs after the one before it returned a result, and a handler sees the state the
  exception left.
\<close>

type_synonym ('s, 'a) eff = "'s \<Rightarrow> ('s \<times> (exn + 'a)) option"

definition ret :: "'a \<Rightarrow> ('s, 'a) eff" where
  "ret x = (\<lambda>s. Some (s, Inr x))"

definition raise_e :: "exn \<Rightarrow> ('s, 'a) eff" where
  "raise_e e = (\<lambda>s. Some (s, Inl e))"

definition bind_e :: "('s, 'a) eff \<Rightarrow> ('a \<Rightarrow> ('s, 'b) eff) \<Rightarrow> ('s, 'b) eff" where
  "bind_e m f = (\<lambda>s.
     case m s of None \<Rightarrow> None
     | Some (s, Inl e) \<Rightarrow> Some (s, Inl e)
     | Some (s, Inr x) \<Rightarrow> f x s)"

definition catch_e :: "('s, 'a) eff \<Rightarrow> (exn \<Rightarrow> ('s, 'a) eff) \<Rightarrow> ('s, 'a) eff" where
  "catch_e m h = (\<lambda>s.
     case m s of None \<Rightarrow> None
     | Some (s, Inl e) \<Rightarrow> h e s
     | Some (s, Inr x) \<Rightarrow> Some (s, Inr x))"

definition read_e :: "('s \<Rightarrow> 'a) \<Rightarrow> ('s, 'a) eff" where
  "read_e f = (\<lambda>s. Some (s, Inr (f s)))"

definition upd_e :: "('s \<Rightarrow> 's) \<Rightarrow> ('s, unit) eff" where
  "upd_e g = (\<lambda>s. Some (g s, Inr ()))"

definition of_result :: "exn + 'a \<Rightarrow> ('s, 'a) eff" where
  "of_result r = (\<lambda>s. Some (s, r))"

text \<open>An operation without non-termination.\<close>

definition total_e :: "('s \<Rightarrow> 's \<times> (exn + 'a)) \<Rightarrow> ('s, 'a) eff" where
  "total_e m = (\<lambda>s. Some (m s))"

text \<open>An operation on a part of the state.\<close>

definition on_part :: "('s \<Rightarrow> 'p) \<Rightarrow> ('p \<Rightarrow> 's \<Rightarrow> 's) \<Rightarrow> ('p, 'a) eff \<Rightarrow> ('s, 'a) eff" where
  "on_part get put m = (\<lambda>s. case m (get s) of None \<Rightarrow> None | Some (p, r) \<Rightarrow> Some (put p s, r))"

subsection \<open>Laws\<close>

lemma ret_simp [simp]: "ret x s = Some (s, Inr x)"
  by (simp add: ret_def)

lemma raise_simp [simp]: "raise_e e s = Some (s, Inl e)"
  by (simp add: raise_e_def)

lemma read_simp [simp]: "read_e f s = Some (s, Inr (f s))"
  by (simp add: read_e_def)

lemma upd_simp [simp]: "upd_e g s = Some (g s, Inr ())"
  by (simp add: upd_e_def)

lemma of_result_simp [simp]: "of_result r s = Some (s, r)"
  by (simp add: of_result_def)

lemma bind_ret [simp]: "bind_e (ret x) f = f x"
  by (simp add: bind_e_def ret_def)

lemma bind_assoc: "bind_e (bind_e m f) g = bind_e m (\<lambda>x. bind_e (f x) g)"
  by (rule ext) (simp add: bind_e_def split: option.split sum.split prod.split)

lemma bind_Some:
  "bind_e m f s = Some (s', r) \<longleftrightarrow>
     (\<exists>e. m s = Some (s', Inl e) \<and> r = Inl e) \<or> (\<exists>t x. m s = Some (t, Inr x) \<and> f x t = Some (s', r))"
  by (auto simp: bind_e_def split: option.splits sum.splits prod.splits)

lemma catch_Some:
  "catch_e m h s = Some (s', r) \<longleftrightarrow>
     (\<exists>x. m s = Some (s', Inr x) \<and> r = Inr x) \<or> (\<exists>t e. m s = Some (t, Inl e) \<and> h e t = Some (s', r))"
  by (auto simp: catch_e_def split: option.splits sum.splits prod.splits)

subsection \<open>Assertions on every state an operation can leave\<close>

text \<open>Started where \<open>P\<close> holds, an operation that returns leaves a state where \<open>Q\<close> holds of its result, or
  \<open>E\<close> of its exception.\<close>

definition triple :: "('s \<Rightarrow> bool) \<Rightarrow> ('s, 'a) eff \<Rightarrow> ('a \<Rightarrow> 's \<Rightarrow> bool) \<Rightarrow> (exn \<Rightarrow> 's \<Rightarrow> bool) \<Rightarrow> bool" where
  "triple P m Q E \<longleftrightarrow>
     (\<forall>s. P s \<longrightarrow> (case m s of None \<Rightarrow> True | Some (t, Inl e) \<Rightarrow> E e t | Some (t, Inr x) \<Rightarrow> Q x t))"

lemma tripleI:
  "(\<And>s t e. P s \<Longrightarrow> m s = Some (t, Inl e) \<Longrightarrow> E e t) \<Longrightarrow>
   (\<And>s t x. P s \<Longrightarrow> m s = Some (t, Inr x) \<Longrightarrow> Q x t) \<Longrightarrow> triple P m Q E"
  by (auto simp: triple_def split: option.split sum.split)

lemma triple_Inr: "triple P m Q E \<Longrightarrow> P s \<Longrightarrow> m s = Some (t, Inr x) \<Longrightarrow> Q x t"
  by (auto simp: triple_def dest!: spec [of _ s])

lemma triple_Inl: "triple P m Q E \<Longrightarrow> P s \<Longrightarrow> m s = Some (t, Inl e) \<Longrightarrow> E e t"
  by (auto simp: triple_def dest!: spec [of _ s])

lemma triple_bind:
  "triple P m R E \<Longrightarrow> (\<And>x. triple (R x) (f x) Q E) \<Longrightarrow> triple P (bind_e m f) Q E"
  by (rule tripleI) (auto simp: bind_Some dest: triple_Inl triple_Inr)

lemma triple_catch:
  "triple P m Q R \<Longrightarrow> (\<And>e. triple (R e) (h e) Q E) \<Longrightarrow> triple P (catch_e m h) Q E"
  by (rule tripleI) (auto simp: catch_Some dest: triple_Inl triple_Inr)

lemma triple_conseq:
  assumes "triple P m Q E" and "\<And>s. P' s \<Longrightarrow> P s" and "\<And>x s. Q x s \<Longrightarrow> Q' x s" and "\<And>e s. E e s \<Longrightarrow> E' e s"
  shows "triple P' m Q' E'"
proof (rule tripleI)
  show "E' e t" if "P' s" "m s = Some (t, Inl e)" for s t e
    using triple_Inl [OF assms(1)] assms(2,4) that by blast
  show "Q' x t" if "P' s" "m s = Some (t, Inr x)" for s t x
    using triple_Inr [OF assms(1)] assms(2,3) that by blast
qed

lemma triple_ret: "(\<And>s. P s \<Longrightarrow> Q x s) \<Longrightarrow> triple P (ret x) Q E"
  by (rule tripleI) auto

lemma triple_raise: "(\<And>s. P s \<Longrightarrow> E e s) \<Longrightarrow> triple P (raise_e e) Q E"
  by (rule tripleI) auto

lemma triple_read: "(\<And>s. P s \<Longrightarrow> Q (f s) s) \<Longrightarrow> triple P (read_e f) Q E"
  by (rule tripleI) auto

lemma triple_upd: "(\<And>s. P s \<Longrightarrow> Q () (g s)) \<Longrightarrow> triple P (upd_e g) Q E"
  by (rule tripleI) auto

lemma triple_of_result:
  "(\<And>s x. P s \<Longrightarrow> r = Inr x \<Longrightarrow> Q x s) \<Longrightarrow> (\<And>s e. P s \<Longrightarrow> r = Inl e \<Longrightarrow> E e s) \<Longrightarrow> triple P (of_result r) Q E"
  by (rule tripleI) auto

text \<open>An operation that keeps an invariant, whether it returns or raises.\<close>

named_theorems keeps_rules "operations that keep an invariant"

definition keeps :: "('s \<Rightarrow> bool) \<Rightarrow> ('s, 'a) eff \<Rightarrow> bool" where
  "keeps I m \<longleftrightarrow> triple I m (\<lambda>_. I) (\<lambda>_. I)"

lemma keepsI: "(\<And>s t r. I s \<Longrightarrow> m s = Some (t, r) \<Longrightarrow> I t) \<Longrightarrow> keeps I m"
  unfolding keeps_def by (rule tripleI) auto

lemma keepsD: "keeps I m \<Longrightarrow> I s \<Longrightarrow> m s = Some (t, r) \<Longrightarrow> I t"
  unfolding keeps_def by (cases r) (auto dest: triple_Inl triple_Inr)

lemma keeps_ret [keeps_rules]: "keeps I (ret x)"
  by (rule keepsI) simp

lemma keeps_raise [keeps_rules]: "keeps I (raise_e e)"
  by (rule keepsI) simp

lemma keeps_read [keeps_rules]: "keeps I (read_e f)"
  by (rule keepsI) simp

lemma keeps_of_result [keeps_rules]: "keeps I (of_result r)"
  by (rule keepsI) simp

lemma keeps_upd: "(\<And>s. I s \<Longrightarrow> I (g s)) \<Longrightarrow> keeps I (upd_e g)"
  by (rule keepsI) auto

lemma keeps_bind [keeps_rules]: "keeps I m \<Longrightarrow> (\<And>x. keeps I (f x)) \<Longrightarrow> keeps I (bind_e m f)"
  unfolding keeps_def by (rule triple_bind)

lemma keeps_catch [keeps_rules]: "keeps I m \<Longrightarrow> (\<And>e. keeps I (h e)) \<Longrightarrow> keeps I (catch_e m h)"
  unfolding keeps_def by (rule triple_catch)

lemma keeps_if [keeps_rules]: "(b \<Longrightarrow> keeps I m) \<Longrightarrow> (\<not> b \<Longrightarrow> keeps I n) \<Longrightarrow> keeps I (if b then m else n)"
  by simp

lemma keeps_option [keeps_rules]:
  "(x = None \<Longrightarrow> keeps I m) \<Longrightarrow> (\<And>y. x = Some y \<Longrightarrow> keeps I (f y)) \<Longrightarrow>
     keeps I (case x of None \<Rightarrow> m | Some y \<Rightarrow> f y)"
  by (cases x) auto

lemma keeps_prod [keeps_rules]: "(\<And>a b. keeps I (f a b)) \<Longrightarrow> keeps I (case x of (a, b) \<Rightarrow> f a b)"
  by (cases x) auto

end
