(* ===== verification/Review_Threads.thy ===== *)
theory Review_Threads
  imports Pipeline_Trace Effects Py_Text
begin

section \<open>Comments and review threads (\<open>integrations/github_api.py\<close>)\<close>

text \<open>
  The operations of the client that publishing uses besides check runs: issue comments, review comments, and
  the review threads of the GraphQL API.  Requests go through \<open>send_check\<close> and its log; the authorisation
  headers are an argument in the code and are part of the answering parameter here.  The listing of threads
  is two nested loops over pages that follow the cursors GitHub returns; neither is bounded by the code, so
  they are partial functions, \<open>None\<close> when they do not return.
\<close>

subsection \<open>Comments\<close>

definition repo_url :: "pystr \<Rightarrow> pystr \<Rightarrow> pystr" where
  "repo_url owner repo = GITHUB_API_BASE @ S ''/repos/'' @ owner @ S ''/'' @ repo"

text \<open>\<open>isinstance(value, int)\<close> holds of booleans.\<close>

fun json_int :: "json option \<Rightarrow> int option" where
  "json_int (Some (JInt i)) = Some i"
| "json_int (Some (JBool b)) = Some (of_bool b)"
| "json_int _ = None"

definition api_error :: "pystr \<Rightarrow> exn" where
  "api_error msg = raise_platform ServiceUnavailableError msg (Some (S ''github_api_error''))"

definition response_object :: "http_response \<Rightarrow> exn + (pystr \<times> json) list" where
  "response_object resp =
     (case hr_body resp of
        None \<Rightarrow> Inl Json_decode_error | Some (JObj ms) \<Rightarrow> Inr ms | Some _ \<Rightarrow> Inl Attribute_error)"

definition create_issue_comment ::
  "check_env \<Rightarrow> int \<Rightarrow> pystr \<Rightarrow> pystr \<Rightarrow> int \<Rightarrow> pystr \<Rightarrow> session \<Rightarrow> session \<times> (exn + int)" where
  "create_issue_comment env inst owner repo number body s =
     (let (s, r) = send_check env s inst (Check_post
            (repo_url owner repo @ S ''/issues/'' @ py_str_int number @ S ''/comments'') (JObj [(S ''body'', JStr body)]))
      in (s, rbind (rbind r response_object) (\<lambda>ms.
           case json_int (json_get (S ''id'') ms) of
             Some i \<Rightarrow> Inr i | None \<Rightarrow> Inl (api_error (S ''GitHub issue comment response invalid'')))))"

definition issue_comment_url :: "pystr \<Rightarrow> pystr \<Rightarrow> int \<Rightarrow> pystr" where
  "issue_comment_url owner repo comment_id = repo_url owner repo @ S ''/issues/comments/'' @ py_str_int comment_id"

definition update_issue_comment ::
  "check_env \<Rightarrow> int \<Rightarrow> pystr \<Rightarrow> pystr \<Rightarrow> int \<Rightarrow> pystr \<Rightarrow> session \<Rightarrow> session \<times> (exn + unit)" where
  "update_issue_comment env inst owner repo comment_id body s =
     (let (s, r) = send_check env s inst
        (Check_patch (issue_comment_url owner repo comment_id) (JObj [(S ''body'', JStr body)]))
      in (s, rbind r (\<lambda>_. Inr ())))"

definition review_comments_url :: "pystr \<Rightarrow> pystr \<Rightarrow> int \<Rightarrow> pystr" where
  "review_comments_url owner repo number = repo_url owner repo @ S ''/pulls/'' @ py_str_int number @ S ''/comments''"

definition create_pull_request_review_comment ::
  "check_env \<Rightarrow> int \<Rightarrow> pystr \<Rightarrow> pystr \<Rightarrow> int \<Rightarrow> pystr \<Rightarrow> pystr \<Rightarrow> int \<Rightarrow> pystr \<Rightarrow> session \<Rightarrow> session \<times> (exn + int)" where
  "create_pull_request_review_comment env inst owner repo number commit_id path line body s =
     (let (s, r) = send_check env s inst (Check_post (review_comments_url owner repo number)
            (JObj [(S ''body'', JStr body), (S ''commit_id'', JStr commit_id), (S ''path'', JStr path),
                   (S ''line'', JInt line), (S ''side'', JStr (S ''RIGHT''))]))
      in (s, rbind (rbind r response_object) (\<lambda>ms.
           case json_int (json_get (S ''id'') ms) of
             Some i \<Rightarrow> if i \<le> 0 then Inl (api_error (S ''GitHub pull request review comment response invalid'')) else Inr i
           | None \<Rightarrow> Inl (api_error (S ''GitHub pull request review comment response invalid'')))))"

definition delete_pull_request_review_comment ::
  "check_env \<Rightarrow> int \<Rightarrow> pystr \<Rightarrow> pystr \<Rightarrow> int \<Rightarrow> session \<Rightarrow> session \<times> (exn + unit)" where
  "delete_pull_request_review_comment env inst owner repo comment_id s =
     (let (s, r) = send_check env s inst
        (Check_delete (repo_url owner repo @ S ''/pulls/comments/'' @ py_str_int comment_id))
      in (s, rbind r (\<lambda>_. Inr ())))"

definition format_inline_comment_body :: "pystr \<Rightarrow> pystr \<Rightarrow> pystr \<Rightarrow> pystr option \<Rightarrow> pystr" where
  "format_inline_comment_body title message severity suggestion =
     (let body = S ''**['' @ py_upper severity @ S ''] '' @ title @ S ''**'' @ [10, 10] @ message in
      case suggestion of
        Some t \<Rightarrow> if t = [] then body
          else body @ [10, 10, 96, 96, 96] @ S ''suggestion'' @ [10] @ t @ [10, 96, 96, 96]
      | None \<Rightarrow> body)"

subsection \<open>Listing review threads\<close>

definition REVIEW_THREADS_PAGE_SIZE :: nat where
  "REVIEW_THREADS_PAGE_SIZE = 100"

definition REVIEW_THREAD_COMMENTS_PAGE_SIZE :: nat where
  "REVIEW_THREAD_COMMENTS_PAGE_SIZE = 20"

definition MAX_REVIEW_THREADS_PER_PUBLISH :: nat where
  "MAX_REVIEW_THREADS_PER_PUBLISH = 500"

definition GRAPHQL_URL :: pystr where
  "GRAPHQL_URL = GITHUB_API_BASE @ S ''/graphql''"

definition indented :: "(nat \<times> pystr) list \<Rightarrow> pystr" where
  "indented ls = py_join [10] ([] # map (\<lambda>(n, l). replicate n 32 @ l) ls)"

definition THREAD_QUERY :: pystr where
  "THREAD_QUERY = indented
     [(4, S ''query($owner: String!, $repo: String!, $number: Int!, $threadCursor: String) {''),
      (6, S ''repository(owner: $owner, name: $repo) {''), (8, S ''pullRequest(number: $number) {''),
      (10, S ''reviewThreads(first: '' @ nat_digits REVIEW_THREADS_PAGE_SIZE @ S '', after: $threadCursor) {''),
      (12, S ''pageInfo { hasNextPage endCursor }''), (12, S ''nodes {''), (14, S ''id''), (14, S ''isOutdated''),
      (14, S ''isResolved''),
      (14, S ''comments(first: '' @ nat_digits REVIEW_THREAD_COMMENTS_PAGE_SIZE @ S '') {''),
      (16, S ''pageInfo { hasNextPage endCursor }''), (16, S ''nodes { databaseId }''), (14, S ''}''), (12, S ''}''),
      (10, S ''}''), (8, S ''}''), (6, S ''}''), (4, S ''}''), (4, [])]"

definition COMMENT_PAGE_QUERY :: pystr where
  "COMMENT_PAGE_QUERY = indented
     [(4, S ''query($threadId: ID!, $commentCursor: String) {''), (6, S ''node(id: $threadId) {''),
      (8, S ''... on PullRequestReviewThread {''),
      (10, S ''comments(first: '' @ nat_digits REVIEW_THREAD_COMMENTS_PAGE_SIZE @ S '', after: $commentCursor) {''),
      (12, S ''pageInfo { hasNextPage endCursor }''), (12, S ''nodes { databaseId }''), (10, S ''}''), (8, S ''}''),
      (6, S ''}''), (4, S ''}''), (4, [])]"

definition graphql :: "pystr \<Rightarrow> (pystr \<times> json) list \<Rightarrow> check_call" where
  "graphql query variables = Check_post GRAPHQL_URL (JObj [(S ''query'', JStr query), (S ''variables'', JObj variables)])"

definition has_errors :: "(pystr \<times> json) list \<Rightarrow> bool" where
  "has_errors payload = (case json_get (S ''errors'') payload of Some v \<Rightarrow> json_truthy v | None \<Rightarrow> False)"

definition object_at :: "pystr \<Rightarrow> (pystr \<times> json) list \<Rightarrow> (pystr \<times> json) list option" where
  "object_at k ms = (case json_get k ms of Some (JObj o') \<Rightarrow> Some o' | _ \<Rightarrow> None)"

text \<open>The nodes of a connection that is a list, or nothing; a missing one is an empty list.\<close>

definition nodes_of :: "(pystr \<times> json) list \<Rightarrow> json list option" where
  "nodes_of ms = (case json_get (S ''nodes'') ms of None \<Rightarrow> Some [] | Some (JArr xs) \<Rightarrow> Some xs | _ \<Rightarrow> None)"

text \<open>The cursor of the next page, when there is one and it is a string.\<close>

definition next_cursor :: "(pystr \<times> json) list \<Rightarrow> pystr option" where
  "next_cursor ms =
     (case object_at (S ''pageInfo'') ms of
        None \<Rightarrow> None
      | Some page \<Rightarrow>
          (case (json_get (S ''hasNextPage'') page, json_get (S ''endCursor'') page) of
             (Some has_more, Some (JStr c)) \<Rightarrow> if json_truthy has_more then Some c else None
           | _ \<Rightarrow> None))"

fun database_id :: "json \<Rightarrow> int option" where
  "database_id (JObj c) = json_int (json_get (S ''databaseId'') c)"
| "database_id _ = None"

definition comment_ids_of :: "(pystr \<times> json) list \<Rightarrow> int list" where
  "comment_ids_of comments = (case nodes_of comments of None \<Rightarrow> [] | Some xs \<Rightarrow> List.map_filter database_id xs)"

text \<open>What one page of comments says: the comments and the cursor to go on with.\<close>

definition comment_page :: "http_response \<Rightarrow> exn + int list \<times> pystr option" where
  "comment_page resp =
     rbind (response_object resp) (\<lambda>payload.
       if has_errors payload then Inr ([], None)
       else case json_get (S ''data'') payload of
         None \<Rightarrow> Inr ([], None)
       | Some (JObj data) \<Rightarrow>
           (case Option.bind (object_at (S ''node'') data) (object_at (S ''comments'')) of
              None \<Rightarrow> Inr ([], None)
            | Some comments \<Rightarrow> Inr (comment_ids_of comments, next_cursor comments))
       | Some _ \<Rightarrow> Inl Attribute_error)"

definition comment_page_call :: "pystr \<Rightarrow> pystr \<Rightarrow> check_call" where
  "comment_page_call thread_id cursor =
     graphql COMMENT_PAGE_QUERY [(S ''threadId'', JStr thread_id), (S ''commentCursor'', JStr cursor)]"

partial_function (option) page_comments ::
  "check_env \<Rightarrow> int \<Rightarrow> pystr \<Rightarrow> pystr \<Rightarrow> int list \<Rightarrow> session \<Rightarrow> (session \<times> (exn + int list)) option" where
  "page_comments env inst thread_id cursor ids s =
     (case send_check env s inst (comment_page_call thread_id cursor) of
        (s, r) \<Rightarrow>
          (case rbind r comment_page of
             Inl e \<Rightarrow> Some (s, Inl e)
           | Inr (found, next) \<Rightarrow>
               (case next of
                  None \<Rightarrow> Some (s, Inr (ids @ found))
                | Some c \<Rightarrow> page_comments env inst thread_id c (ids @ found) s)))"

record review_thread =
  th_id :: pystr
  th_comments :: "int list"
  th_outdated :: bool
  th_resolved :: bool

text \<open>A thread of the listing with its first page of comments and the cursor of the next one.\<close>

fun thread_node :: "json \<Rightarrow> (review_thread \<times> pystr option) option" where
  "thread_node (JObj t) =
     (case json_get (S ''id'') t of
        Some (JStr i) \<Rightarrow>
          if i = [] then None
          else
            let comments = opt_or (object_at (S ''comments'') t) [] in
            Some (\<lparr>th_id = i, th_comments = comment_ids_of comments,
                   th_outdated = (json_get (S ''isOutdated'') t = Some (JBool True)),
                   th_resolved = (json_get (S ''isResolved'') t = Some (JBool True))\<rparr>, next_cursor comments)
      | _ \<Rightarrow> None)"
| "thread_node _ = None"

fun add_threads ::
  "check_env \<Rightarrow> int \<Rightarrow> json list \<Rightarrow> review_thread list \<Rightarrow> (session, review_thread list) eff" where
  "add_threads env inst [] threads = ret threads"
| "add_threads env inst (n # nodes) threads =
     (if MAX_REVIEW_THREADS_PER_PUBLISH \<le> length threads then ret threads
      else case thread_node n of
        None \<Rightarrow> add_threads env inst nodes threads
      | Some (t, cursor) \<Rightarrow>
          bind_e (case cursor of None \<Rightarrow> ret (th_comments t)
                  | Some c \<Rightarrow> page_comments env inst (th_id t) c (th_comments t))
            (\<lambda>ids. add_threads env inst nodes (threads @ [t\<lparr>th_comments := ids\<rparr>])))"

text \<open>What one page of threads says: \<open>None\<close> where the code breaks off, else its nodes and the next cursor.\<close>

definition thread_page :: "http_response \<Rightarrow> exn + (json list \<times> pystr option) option" where
  "thread_page resp =
     rbind (response_object resp) (\<lambda>payload.
       if has_errors payload then Inr None
       else case Option.bind (Option.bind (Option.bind (object_at (S ''data'') payload) (object_at (S ''repository'')))
           (object_at (S ''pullRequest''))) (object_at (S ''reviewThreads'')) of
         None \<Rightarrow> Inr None
       | Some threads \<Rightarrow>
           (case nodes_of threads of None \<Rightarrow> Inr None | Some nodes \<Rightarrow> Inr (Some (nodes, next_cursor threads))))"

definition thread_page_call :: "pystr \<Rightarrow> pystr \<Rightarrow> int \<Rightarrow> pystr option \<Rightarrow> check_call" where
  "thread_page_call owner repo number cursor =
     graphql THREAD_QUERY [(S ''owner'', JStr owner), (S ''repo'', JStr repo), (S ''number'', JInt number),
       (S ''threadCursor'', json_opt_str cursor)]"

partial_function (option) list_threads_from ::
  "check_env \<Rightarrow> int \<Rightarrow> pystr \<Rightarrow> pystr \<Rightarrow> int \<Rightarrow> pystr option \<Rightarrow> review_thread list \<Rightarrow> session \<Rightarrow>
     (session \<times> (exn + review_thread list)) option" where
  "list_threads_from env inst owner repo number cursor threads s =
     (if MAX_REVIEW_THREADS_PER_PUBLISH \<le> length threads then Some (s, Inr threads)
      else
        (case send_check env s inst (thread_page_call owner repo number cursor) of
           (s, r) \<Rightarrow>
             (case rbind r thread_page of
                Inl e \<Rightarrow> Some (s, Inl e)
              | Inr None \<Rightarrow> Some (s, Inr threads)
              | Inr (Some (nodes, next)) \<Rightarrow>
                  (case add_threads env inst nodes threads s of
                     None \<Rightarrow> None
                   | Some (s, Inl e) \<Rightarrow> Some (s, Inl e)
                   | Some (s, Inr threads) \<Rightarrow>
                       (case next of
                          None \<Rightarrow> Some (s, Inr threads)
                        | Some c \<Rightarrow> list_threads_from env inst owner repo number (Some c) threads s)))))"

definition list_review_threads ::
  "check_env \<Rightarrow> int \<Rightarrow> pystr \<Rightarrow> pystr \<Rightarrow> int \<Rightarrow> (session, review_thread list) eff" where
  "list_review_threads env inst owner repo number = list_threads_from env inst owner repo number None []"

record review_thread_index =
  ti_threads :: "(int \<times> pystr) list"
  ti_outdated :: "int list"
  ti_resolved :: "int list"

definition index_of_threads :: "review_thread list \<Rightarrow> review_thread_index" where
  "index_of_threads threads =
     (let comments = concat (map (\<lambda>t. map (\<lambda>c. (c, t)) (th_comments t)) threads)
      in \<lparr>ti_threads = fold (\<lambda>(c, t) d. AList.update c (th_id t) d) comments [],
          ti_outdated = map fst (filter (\<lambda>(c, t). th_outdated t) comments),
          ti_resolved = map fst (filter (\<lambda>(c, t). th_resolved t) comments)\<rparr>)"

definition build_review_thread_index ::
  "check_env \<Rightarrow> int \<Rightarrow> pystr \<Rightarrow> pystr \<Rightarrow> int \<Rightarrow> (session, review_thread_index) eff" where
  "build_review_thread_index env inst owner repo number =
     bind_e (list_review_threads env inst owner repo number) (\<lambda>threads. ret (index_of_threads threads))"

definition build_review_thread_comment_index ::
  "check_env \<Rightarrow> int \<Rightarrow> pystr \<Rightarrow> pystr \<Rightarrow> int \<Rightarrow> (session, (int \<times> pystr) list) eff" where
  "build_review_thread_comment_index env inst owner repo number =
     bind_e (build_review_thread_index env inst owner repo number) (\<lambda>ti. ret (ti_threads ti))"

definition find_review_thread_id_for_comment ::
  "check_env \<Rightarrow> int \<Rightarrow> pystr \<Rightarrow> pystr \<Rightarrow> int \<Rightarrow> int \<Rightarrow> (int \<times> pystr) list option \<Rightarrow> (session, pystr option) eff" where
  "find_review_thread_id_for_comment env inst owner repo number comment_id thread_index =
     (case Option.bind thread_index (\<lambda>ti. map_of ti comment_id) of
        Some cached \<Rightarrow> ret (Some cached)
      | None \<Rightarrow>
          bind_e (build_review_thread_comment_index env inst owner repo number) (\<lambda>fresh.
            ret (case map_of fresh comment_id of
                   Some t \<Rightarrow> Some t
                 | None \<Rightarrow> Option.bind thread_index (\<lambda>ti. map_of ti comment_id))))"

subsection \<open>Resolving a thread\<close>

definition RESOLVE_MUTATION :: pystr where
  "RESOLVE_MUTATION = indented
     [(4, S ''mutation($threadId: ID!) {''), (6, S ''resolveReviewThread(input: {threadId: $threadId}) {''),
      (8, S ''thread { isResolved }''), (6, S ''}''), (4, S ''}''), (4, [])]"

text \<open>\<open>str(err.get("message") or err)\<close> and \<open>str(err)\<close>.\<close>

definition error_part :: "(json \<Rightarrow> pystr) \<Rightarrow> json \<Rightarrow> pystr" where
  "error_part other err =
     (case err of
        JObj e \<Rightarrow> (case json_get (S ''message'') e of
            Some v \<Rightarrow> if json_truthy v then py_format other v else other err | None \<Rightarrow> other err)
      | _ \<Rightarrow> py_format other err)"

definition graphql_errors_message :: "(json \<Rightarrow> pystr) \<Rightarrow> json list \<Rightarrow> pystr" where
  "graphql_errors_message other errors = take 500 (py_join (S ''; '') (map (error_part other) errors))"

text \<open>\<open>(err.get(key) or "")\<close>, on which a string method is called.\<close>

definition text_or_empty :: "pystr \<Rightarrow> (pystr \<times> json) list \<Rightarrow> exn + pystr" where
  "text_or_empty k e =
     (case json_get k e of
        Some (JStr t) \<Rightarrow> Inr t
      | Some v \<Rightarrow> if json_truthy v then Inl Attribute_error else Inr []
      | None \<Rightarrow> Inr [])"

fun is_graphql_client_error :: "json list \<Rightarrow> exn + bool" where
  "is_graphql_client_error [] = Inr False"
| "is_graphql_client_error (JObj e # errs) =
     rbind (text_or_empty (S ''message'') e) (\<lambda>message.
     rbind (text_or_empty (S ''type'') e) (\<lambda>kind.
       if py_upper kind \<in> {S ''FORBIDDEN'', S ''NOT_FOUND'', S ''VALIDATION_FAILED''} then Inr True
       else if py_contains (py_lower message) (S ''not accessible by integration'') then Inr True
       else is_graphql_client_error errs))"
| "is_graphql_client_error (_ # errs) = is_graphql_client_error errs"

text \<open>Iterating over the errors: the keys of an object, the characters of a string.\<close>

definition json_elements :: "json \<Rightarrow> exn + json list" where
  "json_elements v =
     (case v of JArr xs \<Rightarrow> Inr xs | JObj ms \<Rightarrow> Inr (map (\<lambda>kv. JStr (fst kv)) ms)
      | JStr s \<Rightarrow> Inr (map (\<lambda>c. JStr [c]) s) | _ \<Rightarrow> Inl Type_error)"

definition resolve_outcome :: "(json \<Rightarrow> pystr) \<Rightarrow> http_response \<Rightarrow> exn + unit" where
  "resolve_outcome other resp =
     rbind (response_object resp) (\<lambda>payload.
       case json_get (S ''errors'') payload of
         None \<Rightarrow> Inr ()
       | Some errors \<Rightarrow>
           if \<not> json_truthy errors then Inr ()
           else
             rbind (json_elements errors) (\<lambda>errs.
             rbind (is_graphql_client_error errs) (\<lambda>client.
               if client then Inl (Http_status 403)
               else Inl (api_error (S ''GitHub resolveReviewThread failed: '' @ graphql_errors_message other errs)))))"

definition resolve_review_thread ::
  "(json \<Rightarrow> pystr) \<Rightarrow> check_env \<Rightarrow> int \<Rightarrow> pystr \<Rightarrow> session \<Rightarrow> session \<times> (exn + unit)" where
  "resolve_review_thread other env inst thread_id s =
     (let (s, r) = send_check env s inst (graphql RESOLVE_MUTATION [(S ''threadId'', JStr thread_id)])
      in (s, rbind r (resolve_outcome other)))"

subsection \<open>The listing\<close>

definition threads_ok :: "review_thread list \<Rightarrow> bool" where
  "threads_ok ts \<longleftrightarrow> length ts \<le> MAX_REVIEW_THREADS_PER_PUBLISH \<and> list_all (\<lambda>t. th_id t \<noteq> []) ts"

lemma thread_node_id: "thread_node n = Some (t, c) \<Longrightarrow> th_id t \<noteq> []"
  by (induction n rule: thread_node.induct) (auto simp: Let_def split: option.splits json.splits if_splits)

lemma add_threads_ok: "threads_ok ts \<Longrightarrow> add_threads env inst ns ts s = Some (s', Inr ts') \<Longrightarrow> threads_ok ts'"
proof (induction ns arbitrary: ts s)
  case (Cons n ns)
  show ?case
  proof (cases "MAX_REVIEW_THREADS_PER_PUBLISH \<le> length ts")
    case False
    show ?thesis
    proof (cases "thread_node n")
      case None
      with Cons False show ?thesis by auto
    next
      case (Some p)
      obtain t c where p: "p = (t, c)" by (cases p)
      have "threads_ok (ts @ [t\<lparr>th_comments := ids\<rparr>])" for ids
        using Cons.prems(1) False thread_node_id [OF Some [unfolded p]] by (auto simp: threads_ok_def)
      with Cons False Some p show ?thesis by (auto simp: bind_Some)
    qed
  qed (use Cons in auto)
qed simp

lemma list_threads_from_ok:
  assumes "list_threads_from env inst owner repo number cursor ts s = Some y"
  shows "threads_ok ts \<longrightarrow> (case snd y of Inr ts' \<Rightarrow> threads_ok ts' | Inl e \<Rightarrow> True)"
proof (rule list_threads_from.raw_induct [OF _ assms])
  fix f :: "check_env \<Rightarrow> int \<Rightarrow> pystr \<Rightarrow> pystr \<Rightarrow> int \<Rightarrow> pystr option \<Rightarrow> review_thread list \<Rightarrow> session \<Rightarrow>
      (session \<times> (exn + review_thread list)) option"
    and env inst owner repo number cursor ts s y
  assume IH: "\<And>env inst owner repo number cursor ts s y. f env inst owner repo number cursor ts s = Some y \<Longrightarrow>
      threads_ok ts \<longrightarrow> (case snd y of Inr ts' \<Rightarrow> threads_ok ts' | Inl e \<Rightarrow> True)"
  obtain s1 r where sc: "send_check env s inst (thread_page_call owner repo number cursor) = (s1, r)" by force
  assume step: "(if MAX_REVIEW_THREADS_PER_PUBLISH \<le> length ts then Some (s, Inr ts)
      else case send_check env s inst (thread_page_call owner repo number cursor) of
        (s, r) \<Rightarrow> case rbind r thread_page of Inl e \<Rightarrow> Some (s, Inl e) | Inr None \<Rightarrow> Some (s, Inr ts)
        | Inr (Some (nodes, next)) \<Rightarrow> case add_threads env inst nodes ts s of None \<Rightarrow> None
          | Some (s, Inl e) \<Rightarrow> Some (s, Inl e)
          | Some (s, Inr ts) \<Rightarrow> case next of None \<Rightarrow> Some (s, Inr ts)
            | Some c \<Rightarrow> f env inst owner repo number (Some c) ts s) = Some y"
  show "threads_ok ts \<longrightarrow> (case snd y of Inr ts' \<Rightarrow> threads_ok ts' | Inl e \<Rightarrow> True)"
  proof
    assume ok: "threads_ok ts"
    from step sc ok show "case snd y of Inr ts' \<Rightarrow> threads_ok ts' | Inl e \<Rightarrow> True"
      by (auto split: sum.splits option.splits prod.splits if_splits dest: add_threads_ok [OF ok] dest!: IH)
  qed
qed

text \<open>Cursors advance: the next cursor of an answer is smaller, in some rank, than the one asked for.\<close>

definition cursors_advance :: "(pystr \<Rightarrow> nat) \<Rightarrow> check_env \<Rightarrow> bool" where
  "cursors_advance rank env \<longleftrightarrow>
     (\<forall>sent inst resp t c ids d.
        ce_send env sent inst (comment_page_call t c) = Inr resp \<longrightarrow> comment_page resp = Inr (ids, Some d) \<longrightarrow> rank d < rank c) \<and>
     (\<forall>sent inst resp owner repo number c nodes d.
        ce_send env sent inst (thread_page_call owner repo number (Some c)) = Inr resp \<longrightarrow>
        thread_page resp = Inr (Some (nodes, Some d)) \<longrightarrow> rank d < rank c)"

lemma send_check_Inr: "send_check env s inst call = (s', Inr resp) \<Longrightarrow> ce_send env (ss_checks s) inst call = Inr resp"
  by (cases "ce_send env (ss_checks s) inst call") (auto simp: send_check_def Let_def split: if_splits)

lemma page_comments_returns:
  assumes "cursors_advance rank env"
  shows "page_comments env inst t c ids s \<noteq> None"
proof (induction "rank c" arbitrary: c ids s rule: less_induct)
  case less
  obtain s1 r where sc: "send_check env s inst (comment_page_call t c) = (s1, r)" by force
  have "rank d < rank c" if "r = Inr resp" "comment_page resp = Inr (found, Some d)" for resp found d
    using assms send_check_Inr [OF sc [unfolded that(1)]] that(2) unfolding cursors_advance_def by blast
  with less sc show ?case
    by (subst page_comments.simps) (cases r; auto simp del: not_None_eq split: sum.split option.split)
qed

lemma add_threads_returns:
  assumes "cursors_advance rank env"
  shows "add_threads env inst ns ts s \<noteq> None"
proof (induction ns arbitrary: ts s)
  case (Cons n ns)
  have "add_threads env inst ns us t \<noteq> None" for us t by (rule Cons.IH)
  then show ?case
    using page_comments_returns [OF assms]
    by (auto simp: bind_e_def simp del: not_None_eq split: option.split sum.split prod.split)
qed simp

lemma list_threads_from_returns:
  assumes "cursors_advance rank env"
  shows "list_threads_from env inst owner repo number (Some c) ts s \<noteq> None"
proof (induction "rank c" arbitrary: c ts s rule: less_induct)
  case less
  obtain s1 r where sc: "send_check env s inst (thread_page_call owner repo number (Some c)) = (s1, r)" by force
  have "rank d < rank c" if "r = Inr resp" "thread_page resp = Inr (Some (nodes, Some d))" for resp nodes d
    using assms send_check_Inr [OF sc [unfolded that(1)]] that(2) unfolding cursors_advance_def by blast
  with less sc add_threads_returns [OF assms] show ?case
    by (subst list_threads_from.simps) (cases r; auto simp del: not_None_eq split: sum.split option.split)
qed

text \<open>Listing the review threads of a pull request returns whenever the cursors of GitHub advance, and
  what it returns is at most five hundred threads, each with its identifier.\<close>

theorem thread_listing_returns:
  assumes "cursors_advance rank env"
  shows "\<exists>s' r. list_review_threads env inst owner repo number s = Some (s', r) \<and>
     (case r of Inl e \<Rightarrow> True | Inr ts \<Rightarrow> length ts \<le> 500 \<and> list_all (\<lambda>t. th_id t \<noteq> []) ts)"
proof -
  obtain s1 r where sc: "send_check env s inst (thread_page_call owner repo number None) = (s1, r)" by force
  have "list_review_threads env inst owner repo number s \<noteq> None"
    using add_threads_returns [OF assms] list_threads_from_returns [OF assms] sc
    unfolding list_review_threads_def by (subst list_threads_from.simps) (cases r; auto simp del: not_None_eq split: sum.split option.split)
  then obtain y where y: "list_review_threads env inst owner repo number s = Some y" by blast
  from list_threads_from_ok [OF y [unfolded list_review_threads_def]] y show ?thesis
    by (cases y) (auto simp: threads_ok_def MAX_REVIEW_THREADS_PER_PUBLISH_def split: sum.splits)
qed

text \<open>A GitHub that answers every page with the same cursor.\<close>

definition same_cursor_page :: http_response where
  "same_cursor_page = \<lparr>hr_status = 200, hr_body = Some (JObj [(S ''data'', JObj [(S ''repository'', JObj
     [(S ''pullRequest'', JObj [(S ''reviewThreads'', JObj [(S ''nodes'', JArr []),
       (S ''pageInfo'', JObj [(S ''hasNextPage'', JBool True), (S ''endCursor'', JStr (S ''c''))])])])])])])\<rparr>"

definition same_cursor_env :: check_env where
  "same_cursor_env = \<lparr>ce_enabled = True, ce_send = (\<lambda>sent inst call. Inr same_cursor_page)\<rparr>"

lemma same_cursor_next: "thread_page same_cursor_page = Inr (Some ([], Some (S ''c'')))"
  by (simp add: thread_page_def response_object_def same_cursor_page_def has_errors_def object_at_def nodes_of_def
      next_cursor_def S_def)

lemma same_cursor_send: "\<exists>s'. send_check same_cursor_env s inst call = (s', Inr same_cursor_page)"
  by (simp add: send_check_def same_cursor_env_def is_success_def Let_def same_cursor_page_def)

lemma same_cursor_loops:
  assumes "list_threads_from env inst owner repo number cursor ts s = Some y"
  shows "env = same_cursor_env \<longrightarrow> ts \<noteq> []"
proof (rule list_threads_from.raw_induct [OF _ assms], intro impI notI)
  fix f :: "check_env \<Rightarrow> int \<Rightarrow> pystr \<Rightarrow> pystr \<Rightarrow> int \<Rightarrow> pystr option \<Rightarrow> review_thread list \<Rightarrow> session \<Rightarrow>
      (session \<times> (exn + review_thread list)) option"
    and env inst owner repo number cursor s y and ts :: "review_thread list"
  assume IH: "\<And>env inst owner repo number cursor ts s y. f env inst owner repo number cursor ts s = Some y \<Longrightarrow>
      env = same_cursor_env \<longrightarrow> ts \<noteq> []"
    and e: "env = same_cursor_env" and ts: "ts = []"
  obtain s' where sc: "send_check env s inst (thread_page_call owner repo number cursor) = (s', Inr same_cursor_page)"
    using same_cursor_send e by blast
  assume "(if MAX_REVIEW_THREADS_PER_PUBLISH \<le> length ts then Some (s, Inr ts)
      else case send_check env s inst (thread_page_call owner repo number cursor) of
        (s, r) \<Rightarrow> case rbind r thread_page of Inl e \<Rightarrow> Some (s, Inl e) | Inr None \<Rightarrow> Some (s, Inr ts)
        | Inr (Some (nodes, next)) \<Rightarrow> case add_threads env inst nodes ts s of None \<Rightarrow> None
          | Some (s, Inl e) \<Rightarrow> Some (s, Inl e)
          | Some (s, Inr ts) \<Rightarrow> case next of None \<Rightarrow> Some (s, Inr ts)
            | Some c \<Rightarrow> f env inst owner repo number (Some c) ts s) = Some y"
  then have "f env inst owner repo number (Some (S ''c'')) [] s' = Some y"
    by (simp add: sc ts same_cursor_next MAX_REVIEW_THREADS_PER_PUBLISH_def)
  from IH [OF this] e show False by simp
qed

text \<open>Without that the listing need not return: when GitHub answers every page with the same next cursor
  and no threads, the publish asks for pages for ever.  The cap of five hundred threads does not bound the
  number of pages.\<close>

theorem thread_listing_may_run_for_ever:
  "list_review_threads same_cursor_env inst owner repo number s = None"
  using same_cursor_loops [of same_cursor_env inst owner repo number None "[]" s]
  by (cases "list_review_threads same_cursor_env inst owner repo number s") (auto simp: list_review_threads_def)

text \<open>A GitHub with two pages of one thread each.\<close>

definition two_pages :: "(check_call \<times> bool) list \<Rightarrow> int \<Rightarrow> check_call \<Rightarrow> exn + http_response" where
  "two_pages sent inst call =
     (let page = (\<lambda>i c more. Inr \<lparr>hr_status = 200, hr_body = Some (JObj [(S ''data'', JObj [(S ''repository'', JObj
            [(S ''pullRequest'', JObj [(S ''reviewThreads'', JObj [(S ''nodes'', JArr [JObj [(S ''id'', JStr i),
               (S ''isOutdated'', JBool False), (S ''isResolved'', JBool False),
               (S ''comments'', JObj [(S ''nodes'', JArr [JObj [(S ''databaseId'', JInt c)]])])]]),
             (S ''pageInfo'', JObj [(S ''hasNextPage'', JBool more), (S ''endCursor'', JStr (S ''next''))])])])])])])\<rparr>)
      in if call = thread_page_call (S ''o'') (S ''r'') 17 None then page (S ''T1'') 71 True
         else page (S ''T2'') 72 False)"

definition two_pages_env :: check_env where
  "two_pages_env = \<lparr>ce_enabled = True, ce_send = two_pages\<rparr>"

lemma two_pages_advance: "cursors_advance (\<lambda>_. 0) two_pages_env"
proof -
  let ?last = "\<lparr>hr_status = 200, hr_body = Some (JObj [(S ''data'', JObj [(S ''repository'', JObj
            [(S ''pullRequest'', JObj [(S ''reviewThreads'', JObj [(S ''nodes'', JArr [JObj [(S ''id'', JStr (S ''T2'')),
               (S ''isOutdated'', JBool False), (S ''isResolved'', JBool False),
               (S ''comments'', JObj [(S ''nodes'', JArr [JObj [(S ''databaseId'', JInt 72)]])])]]),
             (S ''pageInfo'', JObj [(S ''hasNextPage'', JBool False), (S ''endCursor'', JStr (S ''next''))])])])])])])\<rparr>"
  have c: "ce_send two_pages_env sent inst (comment_page_call t c) = Inr ?last" for sent inst t c
    by (simp add: two_pages_env_def two_pages_def comment_page_call_def thread_page_call_def graphql_def Let_def)
  have th: "ce_send two_pages_env sent inst (thread_page_call owner repo number (Some c)) = Inr ?last"
    for sent inst owner repo number c
    by (simp add: two_pages_env_def two_pages_def thread_page_call_def graphql_def Let_def json_opt_str_def)
  have "comment_page ?last = Inr ([], None)"
    by (simp add: comment_page_def response_object_def has_errors_def object_at_def S_def)
  moreover have "\<exists>nodes. thread_page ?last = Inr (Some (nodes, None))"
    by (simp add: thread_page_def response_object_def has_errors_def object_at_def nodes_of_def next_cursor_def S_def)
  ultimately show ?thesis unfolding cursors_advance_def c th by auto
qed

theorem thread_listing_returns_witness:
  "\<exists>s' r. list_review_threads two_pages_env 6 (S ''o'') (S ''r'') 17 demo_session = Some (s', r) \<and>
     (case r of Inl e \<Rightarrow> True | Inr ts \<Rightarrow> length ts \<le> 500 \<and> list_all (\<lambda>t. th_id t \<noteq> []) ts)"
  by (rule thread_listing_returns [OF two_pages_advance])

lemma thread_index_sound:
  "map_of (ti_threads (index_of_threads ts)) c = Some i \<Longrightarrow> \<exists>t\<in>set ts. th_id t = i \<and> c \<in> set (th_comments t)"
proof -
  define comments where "comments = concat (map (\<lambda>t. map (\<lambda>c. (c, t)) (th_comments t)) ts)"
  have from_comments: "map_of (fold (\<lambda>(c, t) d. AList.update c (th_id t) d) cs d) c = Some i \<Longrightarrow>
      map_of d c = Some i \<or> (\<exists>t. (c, t) \<in> set cs \<and> th_id t = i)" for cs d
    by (induction cs arbitrary: d) (fastforce simp: update_conv' split: if_splits)+
  assume "map_of (ti_threads (index_of_threads ts)) c = Some i"
  then have "map_of (fold (\<lambda>(c, t) d. AList.update c (th_id t) d) comments []) c = Some i"
    by (simp add: index_of_threads_def Let_def comments_def)
  with from_comments [of comments "[]"] show ?thesis by (auto simp: comments_def)
qed

end
