(* ===== verification/Inline_Posts.thy ===== *)
theory Inline_Posts
  imports Inline_Threads Review_Threads
begin

section \<open>Inline comments and their fallback (\<open>services/github_publish.py\<close>)\<close>

text \<open>
  A finding is posted as a review comment at its line, then at the line next to it when GitHub refuses the
  line (404 or 422); when that is refused too, it is shown as a block of the issue comment.  Each block starts
  with an HTML comment that names the finding, so that a block is appended only once.
\<close>

record inline_post =
  ip_finding_id :: uuid
  ip_group_id :: uuid
  ip_group_fingerprint :: pystr
  ip_file_path :: pystr
  ip_start_line :: int
  ip_title :: pystr
  ip_message :: pystr
  ip_severity :: pystr
  ip_suggestion :: "pystr option"

definition nearest_inline_retry_line :: "int \<Rightarrow> int" where
  "nearest_inline_retry_line start_line = (if 1 < start_line then start_line - 1 else start_line + 1)"

definition RECOVERED_COUNT_KEY :: pystr where
  "RECOVERED_COUNT_KEY = S ''inline_publish_422_recovered_count''"

definition RECOVERED_KEY :: pystr where
  "RECOVERED_KEY = S ''inline_publish_422_recovered_fingerprints''"

definition load_inline_422_recovered_fingerprints :: "json option \<Rightarrow> pystr list" where
  "load_inline_422_recovered_fingerprints summary =
     (case summary_member summary RECOVERED_KEY of
        Some (JArr xs) \<Rightarrow> List.map_filter (\<lambda>x. case x of JStr fp \<Rightarrow> if fp = [] then None else Some fp | _ \<Rightarrow> None) xs
      | _ \<Rightarrow> [])"

subsection \<open>Markers\<close>

definition INLINE_422_FALLBACK_MARKER_PREFIX :: pystr where
  "INLINE_422_FALLBACK_MARKER_PREFIX = S ''<!-- revy:inline-422:''"

definition inline_422_fallback_marker :: "pystr \<Rightarrow> pystr" where
  "inline_422_fallback_marker fingerprint = INLINE_422_FALLBACK_MARKER_PREFIX @ fingerprint @ S '' -->''"

definition marker_chr :: "nat \<Rightarrow> bool" where
  "marker_chr c \<longleftrightarrow> \<not> is_py_space c \<and> c \<noteq> 62"

text \<open>The marker that starts here: its fingerprint and the rest.  The characters of a fingerprint are no
  spaces and the spaces are no fingerprint, so the expression matches in at most one way.\<close>

definition marker_at :: "pystr \<Rightarrow> (pystr \<times> pystr) option" where
  "marker_at s =
     (if \<not> py_startswith s INLINE_422_FALLBACK_MARKER_PREFIX then None
      else
        let t = drop (length INLINE_422_FALLBACK_MARKER_PREFIX) s;
            fp = takeWhile marker_chr t; spaced = dropWhile marker_chr t; e = dropWhile is_py_space spaced
        in if fp \<noteq> [] \<and> e \<noteq> spaced \<and> py_startswith e (S ''-->'') \<and> (drop 3 e = [] \<or> hd (drop 3 e) = 10)
           then Some (fp, drop 3 e) else None)"

lemma marker_at_shorter: "marker_at s = Some (fp, t) \<Longrightarrow> length t < length s"
proof -
  assume "marker_at s = Some (fp, t)"
  then have p: "py_startswith s INLINE_422_FALLBACK_MARKER_PREFIX"
    and t: "t = drop 3 (dropWhile is_py_space (dropWhile marker_chr (drop (length INLINE_422_FALLBACK_MARKER_PREFIX) s)))"
    by (auto simp: marker_at_def Let_def split: if_splits)
  have "length (dropWhile is_py_space (dropWhile marker_chr u)) \<le> length u" for u
    by (meson length_dropWhile_le order_trans)
  from this [of "drop (length INLINE_422_FALLBACK_MARKER_PREFIX) s"]
  have "length t \<le> length s - length INLINE_422_FALLBACK_MARKER_PREFIX" by (simp add: t)
  moreover have "0 < length INLINE_422_FALLBACK_MARKER_PREFIX" "length INLINE_422_FALLBACK_MARKER_PREFIX \<le> length s"
    using p by (auto simp: INLINE_422_FALLBACK_MARKER_PREFIX_def S_def py_startswith_iff dest: prefix_length_le)
  ultimately show ?thesis by linarith
qed

text \<open>\<open>findall\<close>; \<open>bol\<close> tells whether the position is the start of a line.\<close>

function find_markers :: "bool \<Rightarrow> pystr \<Rightarrow> pystr list" where
  "find_markers bol s =
     (case s of
        [] \<Rightarrow> []
      | c # t \<Rightarrow>
          (case (if bol then marker_at s else None) of
             Some (fp, rest) \<Rightarrow> fp # find_markers False rest
           | None \<Rightarrow> find_markers (c = 10) t))"
  by pat_completeness auto

termination
  by (relation "measure (\<lambda>(bol, s). length s)") (auto split: if_splits dest: marker_at_shorter)

declare find_markers.simps [simp del]

definition recovered_inline_422_fingerprints_in_comment :: "pystr \<Rightarrow> pystr list" where
  "recovered_inline_422_fingerprints_in_comment body = find_markers True body"

definition format_inline_422_fallback_block :: "inline_post \<Rightarrow> pystr" where
  "format_inline_422_fallback_block p =
     inline_422_fallback_marker (ip_group_fingerprint p) @ [10] @ S ''### Inline fallback ('' @ ip_file_path p @ S '':'' @
     py_str_int (ip_start_line p) @ S '')'' @ [10, 10] @
     format_inline_comment_body (ip_title p) (ip_message p) (ip_severity p) (ip_suggestion p)"

definition inline_422_fallback_blocks_for_specs :: "inline_post list \<Rightarrow> pystr list \<Rightarrow> pystr list" where
  "inline_422_fallback_blocks_for_specs posts recovered =
     map format_inline_422_fallback_block (filter (\<lambda>p. ip_group_fingerprint p \<in> set recovered) posts)"

definition append_missing_inline_422_fallback_blocks :: "pystr \<Rightarrow> pystr list \<Rightarrow> pystr option" where
  "append_missing_inline_422_fallback_blocks body blocks =
     (let present = recovered_inline_422_fingerprints_in_comment body;
          lacking = filter (\<lambda>b. b \<noteq> [] \<and> list_all (\<lambda>fp. fp \<notin> set present) (find_markers True b)) blocks
      in if lacking = [] then None
         else Some (py_rstrip body @ [10, 10] @ py_join [10, 10] lacking))"

subsection \<open>Posting with a retry\<close>

definition INLINE_COMMENT_RECOVERABLE_STATUS_CODES :: "int list" where
  "INLINE_COMMENT_RECOVERABLE_STATUS_CODES = [404, 422]"

datatype inline_result =
    Posted int
  | Recovered int

fun post_at_lines ::
  "check_env \<Rightarrow> int \<Rightarrow> pystr \<Rightarrow> pystr \<Rightarrow> int \<Rightarrow> pystr \<Rightarrow> inline_post \<Rightarrow> int list \<Rightarrow> int \<Rightarrow> session \<Rightarrow>
     session \<times> (exn + inline_result)" where
  "post_at_lines env inst owner repo number commit_id p [] status s = (s, Inr (Recovered status))"
| "post_at_lines env inst owner repo number commit_id p (line # ls) status s =
     (case create_pull_request_review_comment env inst owner repo number commit_id (ip_file_path p) line
         (format_inline_comment_body (ip_title p) (ip_message p) (ip_severity p) (ip_suggestion p)) s of
        (s, Inr comment_id) \<Rightarrow> (s, Inr (Posted comment_id))
      | (s, Inl e) \<Rightarrow>
          (case e of
             Http_status c \<Rightarrow>
               if c \<in> set INLINE_COMMENT_RECOVERABLE_STATUS_CODES
               then post_at_lines env inst owner repo number commit_id p ls c s else (s, Inl e)
           | _ \<Rightarrow> (s, Inl e)))"

definition create_inline_review_comment_with_422_retry ::
  "check_env \<Rightarrow> int \<Rightarrow> pystr \<Rightarrow> pystr \<Rightarrow> int \<Rightarrow> pystr \<Rightarrow> inline_post \<Rightarrow> session \<Rightarrow> session \<times> (exn + inline_result)" where
  "create_inline_review_comment_with_422_retry env inst owner repo number commit_id p s =
     post_at_lines env inst owner repo number commit_id p
       [ip_start_line p, nearest_inline_retry_line (ip_start_line p)] 0 s"

end
