(* ===== verification/Publish_Markdown.thy ===== *)
theory Publish_Markdown
  imports Rollup
begin

section \<open>The markdown of a publish (\<open>services/github_publish_formatter.py\<close>)\<close>

text \<open>
  The texts of the check run and of the issue comment, from the verdict and the manifests.  A manifest is
  a JSON object read back from the database, so the conversions \<open>int(...)\<close> may raise; a text is then
  \<open>exn + pystr\<close>.  Parameters (\<open>format_env\<close>): the text of floats and containers in f-strings, \<open>float(s)\<close>
  of a string as the text of the float, the public URL, provider and model of the settings, \<open>json.loads\<close>
  (\<open>None\<close> for a \<open>JSONDecodeError\<close>), and the answer of the LLM to a prompt (\<open>None\<close> when it is off).
\<close>

record format_env =
  fm_unicode :: unicode
  fm_word :: "nat \<Rightarrow> bool"
  fm_other :: "json \<Rightarrow> pystr"
  fm_float :: "pystr \<Rightarrow> pystr option"
  fm_public_url :: "pystr option"
  fm_llm :: "(pystr \<Rightarrow> exn + pystr) option"
  fm_json :: "pystr \<Rightarrow> json option"
  fm_provider :: pystr
  fm_model :: pystr

subsection \<open>Pieces\<close>

definition py_lines :: "pystr list \<Rightarrow> pystr" where
  "py_lines ls = py_join [10] ls"

definition plural :: "nat \<Rightarrow> pystr" where
  "plural n = (if n = 1 then [] else S ''s'')"

definition bold :: "pystr \<Rightarrow> pystr" where
  "bold t = S ''**'' @ t @ S ''**''"

definition code :: "pystr \<Rightarrow> pystr" where
  "code t = [96] @ t @ [96]"

definition MDASH :: pystr where
  "MDASH = [8212]"

definition revy_ui_link :: "format_env \<Rightarrow> uuid \<Rightarrow> pystr" where
  "revy_ui_link env pr =
     (let base = (case fm_public_url env of
                    Some url \<Rightarrow> if url = [] then S ''https://app.revy.dev'' else url
                  | None \<Rightarrow> S ''https://app.revy.dev'')
      in rstrip_chars (S ''/'') base @ S ''/reviewer/pull-requests/'' @ uuid_str pr)"

definition escape_markdown_table_cell :: "pystr \<Rightarrow> pystr" where
  "escape_markdown_table_cell v =
     py_replace_chr 10 [32] (py_replace_chr 13 [32] (py_replace_chr 124 [92, 124] (py_replace_chr 92 [92, 92] v)))"

definition escape_markdown_inline :: "pystr \<Rightarrow> pystr" where
  "escape_markdown_inline v =
     py_replace_chr 95 [92, 95] (py_replace_chr 42 [92, 42] (py_replace_chr 96 [92, 96]
       (escape_markdown_table_cell v)))"

subsection \<open>Tables\<close>

definition path_or_dash :: "finding_group \<Rightarrow> pystr" where
  "path_or_dash g = (case fg_file_path g of Some p \<Rightarrow> if p = [] then MDASH else p | None \<Rightarrow> MDASH)"

definition severity_table_row :: "finding_group \<Rightarrow> pystr" where
  "severity_table_row g =
     S ''| '' @ severity_value (fg_severity g) @ S '' | '' @ category_value (fg_category g) @ S '' | '' @
     escape_markdown_table_cell (fg_title g) @ S '' | '' @ escape_markdown_table_cell (path_or_dash g) @ S '' |''"

definition severity_table_rows :: "finding_group list \<Rightarrow> pystr list" where
  "severity_table_rows groups =
     [S ''| Severity | Category | Title | File |'', S ''| --- | --- | --- | --- |''] @
     map severity_table_row (take SUMMARY_ROW_CAP (sorted_active_groups groups))"

definition showing_line :: "nat \<Rightarrow> pystr list" where
  "showing_line n =
     (if SUMMARY_ROW_CAP < n
      then [[], S ''_Showing '' @ nat_digits SUMMARY_ROW_CAP @ S '' of '' @ nat_digits n @ S '' findings._'']
      else [])"

definition format_summary_comment :: "finding_group list \<Rightarrow> finding_group list \<Rightarrow> pystr" where
  "format_summary_comment generation pr_active =
     (let block = (\<lambda>groups none.
            if active_groups groups = [] then [none]
            else severity_table_rows groups @ showing_line (length (active_groups groups)))
      in py_lines ([S ''### This generation'', []] @
           block generation (S ''No publishable findings this generation.'') @
           [[], S ''### Still open on PR'', []] @
           block pr_active (S ''No open findings on this pull request.'')))"

text \<open>\<open>build_summary_markdown\<close> (\<open>services/github_publish.py\<close>).\<close>

definition build_summary_markdown :: "format_env \<Rightarrow> uuid \<Rightarrow> finding_group list \<Rightarrow> pystr" where
  "build_summary_markdown env pr groups =
     (let active_all = active_groups groups; active = take SUMMARY_ROW_CAP active_all
      in py_lines ([S ''## Revy review summary'', [], S ''[Open in Revy]('' @ revy_ui_link env pr @ S '')'', [],
             S ''| Severity | Category | Title | File |'', S ''| --- | --- | --- | --- |''] @
           map severity_table_row active @ showing_line (length active_all)))"

subsection \<open>Resolution prose and metrics\<close>

definition fixed_part :: "int \<Rightarrow> pystr list" where
  "fixed_part n =
     (if n = 0 then [] else [py_str_int n @ S '' issue'' @ (if n = 1 then [] else S ''s'') @ S '' fixed since last push''])"

definition still_open_part :: "int \<Rightarrow> pystr list" where
  "still_open_part n = (if n = 0 then [] else [py_str_int n @ S '' still open from prior review''])"

definition dismissed_part :: "int \<Rightarrow> pystr \<Rightarrow> pystr list" where
  "dismissed_part n label = (if n = 0 then [] else [py_str_int n @ S '' dismissed by '' @ label])"

definition resolution_prose :: "res_counts \<Rightarrow> pystr" where
  "resolution_prose c =
     py_join (S ''; '') (fixed_part (rs_addressed c) @ dismissed_part (rs_judge c) (S ''judge'') @
       dismissed_part (rs_verification c) (S ''verification'') @ dismissed_part (rs_human c) (S ''human'') @
       still_open_part (rs_still_open c))"

definition build_g9_resolution_prose :: "finding_group list \<Rightarrow> pystr" where
  "build_g9_resolution_prose groups = resolution_prose (count_resolution_status groups)"

definition build_g9_resolution_prose_from_manifest ::
  "unicode \<Rightarrow> (pystr \<times> json) list \<Rightarrow> int option \<Rightarrow> exn + pystr" where
  "build_g9_resolution_prose_from_manifest u manifest display =
     (let dismissed = (case json_get (S ''transitions_dismissed'') manifest of Some (JObj d) \<Rightarrow> d | _ \<Rightarrow> []) in
      rbind (int_or_0 u manifest (S ''transitions_addressed'')) (\<lambda>addressed.
      rbind (int_or_0 u dismissed (S ''judge_dismissed'')) (\<lambda>judge.
      rbind (int_or_0 u dismissed (S ''verification_dismissed'')) (\<lambda>verification.
      rbind (int_or_0 u dismissed (S ''human_dismissed'')) (\<lambda>human.
      rbind (case display of Some n \<Rightarrow> Inr n | None \<Rightarrow> int_or_0 u manifest (S ''still_open_count'')) (\<lambda>still_open.
        Inr (resolution_prose \<lparr>rs_addressed = addressed, rs_judge = judge, rs_verification = verification,
          rs_human = human, rs_still_open = still_open\<rparr>)))))))"

definition g9_resolution_prose_for_ctx :: "format_env \<Rightarrow> format_ctx \<Rightarrow> exn + pystr" where
  "g9_resolution_prose_for_ctx env ctx =
     (case fc_metrics ctx of
        Some manifest \<Rightarrow> build_g9_resolution_prose_from_manifest (fm_unicode env) manifest
          (Some (int (display_still_open_prior_count ctx)))
      | None \<Rightarrow> Inr (build_g9_resolution_prose (fc_groups ctx)))"

text \<open>\<open>round((n / d) * 100, 1)\<close> in double arithmetic, in tenths, for \<open>n\<close> and \<open>d\<close> that are not negative.\<close>

definition rate_tenths :: "nat \<Rightarrow> nat \<Rightarrow> nat" where
  "rate_tenths n d =
     (let (m, k) = double_div n d; (m, k) = double_div (100 * m) (2 ^ k) in round_half_even (10 * m) (2 ^ k))"

definition show_rate :: "int \<Rightarrow> int \<Rightarrow> pystr" where
  "show_rate n d = (if n < 0 then [45] else []) @ show_tenths (rate_tenths (nat \<bar>n\<bar>) (nat d)) @ S ''%''"

definition resolution_rate_display :: "format_env \<Rightarrow> (pystr \<times> json) list \<Rightarrow> json" where
  "resolution_rate_display env manifest =
     (case json_get (S ''resolution_rate_display'') manifest of
        Some v \<Rightarrow> if json_truthy v then v else
          (case json_get (S ''resolution_rate_pct'') manifest of
             None \<Rightarrow> JStr (S ''N/A'') | Some JNull \<Rightarrow> JStr (S ''N/A'')
           | Some p \<Rightarrow> JStr (py_format (fm_other env) p @ S ''%''))
      | None \<Rightarrow>
          (case json_get (S ''resolution_rate_pct'') manifest of
             None \<Rightarrow> JStr (S ''N/A'') | Some JNull \<Rightarrow> JStr (S ''N/A'')
           | Some p \<Rightarrow> JStr (py_format (fm_other env) p @ S ''%'')))"

definition positive_line :: "format_env \<Rightarrow> pystr \<Rightarrow> pystr \<Rightarrow> json option \<Rightarrow> pystr list" where
  "positive_line env before after v =
     (if positive_int v then [before @ (case v of Some j \<Rightarrow> py_format (fm_other env) j | None \<Rightarrow> []) @ after] else [])"

definition format_resolution_metrics_block ::
  "format_env \<Rightarrow> (pystr \<times> json) list \<Rightarrow> int option \<Rightarrow> exn + pystr" where
  "format_resolution_metrics_block env manifest display =
     (let u = fm_unicode env in
      rbind (int_or_0 u manifest (S ''transitions_addressed'')) (\<lambda>addressed.
      rbind (int_or_0 u manifest (S ''still_open_count'')) (\<lambda>manifest_still_open.
      rbind (int_or_0 u manifest (S ''denominator_active_prior'')) (\<lambda>denominator.
      rbind (int_or_0 u manifest (S ''transition_count'')) (\<lambda>transitions.
      rbind (int_or_0 u manifest (S ''compare_failed_count'')) (\<lambda>compare_failed.
        let still_open = opt_or display manifest_still_open;
            adjust = (display \<noteq> None \<and> display \<noteq> Some manifest_still_open);
            hidden = max (manifest_still_open - still_open) 0;
            denominator = (if adjust then max (denominator - hidden) 0 else denominator);
            rate = (if \<not> adjust then resolution_rate_display env manifest
                    else if denominator \<noteq> 0 then JStr (show_rate transitions denominator)
                    else JStr (S ''N/A''));
            dismissed = (case json_get (S ''transitions_dismissed'') manifest of
              Some (JObj d) \<Rightarrow>
                concat (map (\<lambda>(k, label). positive_line env [] (S '' by '' @ label) (json_get k d))
                  [(S ''judge_dismissed'', S ''judge''), (S ''verification_dismissed'', S ''verification''),
                   (S ''human_dismissed'', S ''human'')])
            | _ \<Rightarrow> []);
            rate_line = (if rate = JStr (S ''N/A'') then S ''**Resolution rate:** N/A (no prior cohort)''
              else S ''**Resolution rate:** '' @ py_format (fm_other env) rate @ S '' ('' @ py_str_int transitions @ S ''/'' @
                py_str_int denominator @ S '' prior active)'')
        in Inr (py_lines ([S ''### Resolution metrics (this push)'', [], rate_line,
               S ''- **Closed as fixed:** '' @ py_str_int addressed] @
             (if dismissed = [] then [] else [S ''- **Dismissed:** '' @ py_join (S '', '') dismissed]) @
             (if 0 < still_open then [S ''- **Still open from prior review:** '' @ py_str_int still_open] else []) @
             (if 0 < compare_failed then [S ''- **Compare blocked:** '' @ py_str_int compare_failed @ S '' group(s)''] else []) @
             positive_line env (S ''- **Closed as path removed:** '') (S '' (outside this push pair)'')
               (json_get (S ''hygiene_path_removed_count'') manifest) @
             positive_line env (S ''- **HEAD path check blocked:** '') (S '' group(s)'')
               (json_get (S ''head_check_failed_count'') manifest)))))))))"

definition resolution_metrics_block :: "format_env \<Rightarrow> format_ctx \<Rightarrow> exn + pystr option" where
  "resolution_metrics_block env ctx =
     (case fc_metrics ctx of
        None \<Rightarrow> Inr None
      | Some manifest \<Rightarrow>
          rbind (format_resolution_metrics_block env manifest (Some (int (display_still_open_prior_count ctx))))
            (\<lambda>b. Inr (Some b)))"

subsection \<open>Threads that could not be resolved\<close>

definition format_thread_resolve_skipped_block :: "(pystr \<times> nat) list \<Rightarrow> pystr option" where
  "format_thread_resolve_skipped_block skipped =
     (let keys = [S ''thread_id_not_found'', S ''resolve_mutation_failed'', S ''already_resolved'', S ''thread_not_revy_owned''];
          counts = filter (\<lambda>(k, n). 0 < n) (map (\<lambda>k. (k, opt_or (map_of skipped k) 0)) keys)
      in if counts = [] then None
         else Some (S ''- **Thread resolve skipped:** '' @ nat_digits (sum_list (map snd counts)) @ S '' ('' @
           py_join (S '', '') (map (\<lambda>(k, n). k @ S '': '' @ nat_digits n) counts) @ S '')''))"

definition append_thread_resolve_skipped_block :: "pystr \<Rightarrow> (pystr \<times> nat) list \<Rightarrow> pystr" where
  "append_thread_resolve_skipped_block t skipped =
     (case format_thread_resolve_skipped_block skipped of
        None \<Rightarrow> t
      | Some block \<Rightarrow> py_rstrip t @ [10, 10] @ block)"

subsection \<open>Narrative\<close>

text \<open>The first three of the gravest open findings above info.\<close>

definition top_finding_summaries :: "finding_group list \<Rightarrow> pystr list" where
  "top_finding_summaries groups =
     take 3 (map (\<lambda>g. bold (escape_markdown_inline (fg_title g)) @
         (case fg_file_path g of Some p \<Rightarrow> if p = [] then [] else S '' in '' @ code p | None \<Rightarrow> []))
       (filter (\<lambda>g. fg_severity g \<noteq> Sev_info) (sorted_active_groups groups)))"

definition review_narrative_paragraph :: "format_ctx \<Rightarrow> pystr" where
  "review_narrative_paragraph ctx =
     (let generation = active_groups (fc_groups ctx);
          verdict = verdict_groups ctx;
          pr_active = active_groups verdict;
          count = (\<lambda>gs. bold (nat_digits (length gs)));
          number = py_str_int (fc_pull_request_number ctx);
          items = (\<lambda>top. S '' Top items: '' @ py_join (S '', '') top @ S ''.'')
      in if generation = [] \<and> pr_active = [] then
           S ''This revision completed without active findings that need follow-up. '' @
           S ''No merge blockers were identified from the automated review on this push.''
         else
           let lead =
             (if generation = [] then
                let top = top_finding_summaries verdict in
                S ''This revision added no new publishable findings, but '' @ count pr_active @ S '' finding'' @
                plural (length pr_active) @ S '' remain open on PR #'' @ number @ S ''.'' @
                (if top = [] then [] else items top)
              else
                let top = top_finding_summaries (fc_groups ctx);
                    lead = (if top \<noteq> [] then
                        S ''This revision has '' @ count generation @ S '' active finding'' @ plural (length generation) @
                        S '' on PR #'' @ number @ S ''.'' @ items top
                      else
                        S ''This revision has '' @ count generation @ S '' informational finding'' @
                        plural (length generation) @ S '' on PR #'' @ number @ S ''.'')
                in if length generation < length pr_active then
                     lead @ S '' '' @ count pr_active @ S '' finding'' @ plural (length pr_active) @
                     S '' remain open on this pull request overall.''
                   else lead)
           in if list_ex is_blocker pr_active then lead @ S '' Address critical or error findings before merge.''
              else if list_ex is_warning pr_active then
                lead @ S '' Review warnings before merge; no critical blockers were flagged.''
              else lead @ S '' Findings are informational; merge risk appears low pending your judgment.'')"

definition SECURITY_DETAILS_ROW_CAP :: nat where
  "SECURITY_DETAILS_ROW_CAP = 8"

definition IMPORTANT_FILES_ROW_CAP :: nat where
  "IMPORTANT_FILES_ROW_CAP = 8"

definition security_details_lines :: "finding_group list \<Rightarrow> pystr list option" where
  "security_details_lines groups =
     (let found = sorted_active_groups (filter (\<lambda>g. fg_category g = Cat_security) groups)
      in if found = [] then None
         else Some ([S ''<details>'', S ''<summary>Security review</summary>'', []] @
           map (\<lambda>g. S ''- '' @ escape_markdown_inline (fg_title g) @
               (case fg_file_path g of Some p \<Rightarrow> if p = [] then [] else S '' ('' @ code p @ S '')'' | None \<Rightarrow> []))
             (take SECURITY_DETAILS_ROW_CAP found) @
           (if SECURITY_DETAILS_ROW_CAP < length found
            then [S ''- _'' @ nat_digits (length found - SECURITY_DETAILS_ROW_CAP) @
                  S '' more security finding(s) in the findings table._''] else []) @
           [[], S ''</details>'']))"

text \<open>The first finding of each file, the gravest files first, up to the cap.\<close>

fun important_rows :: "finding_group list \<Rightarrow> (pystr \<times> pystr) list \<Rightarrow> (pystr \<times> pystr) list" where
  "important_rows [] rows = rows"
| "important_rows (g # gs) rows =
     (let path = path_or_dash g in
      if path \<in> set (map fst rows) then important_rows gs rows
      else let rows = rows @ [(path, fg_title g)]
           in if IMPORTANT_FILES_ROW_CAP \<le> length rows then rows else important_rows gs rows)"

definition important_files_details_lines :: "finding_group list \<Rightarrow> pystr list option" where
  "important_files_details_lines groups =
     (if active_groups groups = [] then None
      else
        let rows = important_rows (sorted_active_groups groups) []
        in if rows = [] then None
           else Some ([S ''<details>'', S ''<summary>Important files changed</summary>'', [],
               S ''| File | Note |'', S ''| --- | --- |''] @
             map (\<lambda>(path, note). S ''| '' @ (if path = MDASH then MDASH else code (escape_markdown_table_cell path)) @
               S '' | '' @ escape_markdown_inline note @ S '' |'') rows @
             [[], S ''</details>'']))"

definition index_footer :: "format_ctx \<Rightarrow> pystr" where
  "index_footer ctx =
     py_lines ((case fc_fallback_reason ctx of
         Some r \<Rightarrow> if r = [] then [] else [S ''_Index fallback: '' @ r @ S ''_''] | None \<Rightarrow> []) @
       (if fc_index_mode ctx = Some Mode_full then [S ''_Full-repo index (deep/critical profile)._''] else []))"

subsection \<open>The lifetime summary\<close>

definition PR_SUMMARY_HEADING :: pystr where
  "PR_SUMMARY_HEADING = S ''### PR summary (lifetime)''"

definition HIDDEN_FILTER_KEYS :: "(pystr \<times> pystr) list" where
  "HIDDEN_FILTER_KEYS =
     [(S ''collapsed_hidden'', S ''collapsed inline threads''),
      (S ''orphan_never_inlined_hidden'', S ''never-inlined summary-only''),
      (S ''compare_failed_hidden'', S ''compare/closure blocked'')]"

definition RESOLVED_METHOD_LABELS :: "(pystr \<times> pystr) list" where
  "RESOLVED_METHOD_LABELS =
     [(S ''absent_and_addressed'', S ''addressed''), (S ''judge_dismissed'', S ''judge dismissed''),
      (S ''verification_dismissed'', S ''verification dismissed''), (S ''human_dismissed'', S ''human dismissed''),
      (S ''path_removed'', S ''path removed'')]"

definition safe_snapshot_int :: "unicode \<Rightarrow> json option \<Rightarrow> int" where
  "safe_snapshot_int u v =
     (case v of
        None \<Rightarrow> 0
      | Some j \<Rightarrow> (case int_of_json u j of Inr i \<Rightarrow> i | Inl e \<Rightarrow> 0))"

definition hidden_total_from_filter_snapshot :: "unicode \<Rightarrow> json option \<Rightarrow> int" where
  "hidden_total_from_filter_snapshot u snapshot =
     (case snapshot of
        Some (JObj f) \<Rightarrow> sum_list (map (\<lambda>(k, label). safe_snapshot_int u (json_get k f)) HIDDEN_FILTER_KEYS)
      | _ \<Rightarrow> 0)"

text \<open>The text of \<open>float(value)\<close>; a float of the manifest is a number of tenths.\<close>

definition optional_lifetime_rate_pct :: "format_env \<Rightarrow> json option \<Rightarrow> pystr option" where
  "optional_lifetime_rate_pct env v =
     (case v of
        Some (JInt i) \<Rightarrow> Some (py_str_int i @ S ''.0'')
      | Some (JBool b) \<Rightarrow> Some (if b then S ''1.0'' else S ''0.0'')
      | Some (JFloat m k) \<Rightarrow> Some (if k = 1 \<and> 0 \<le> m then show_tenths (nat m) else fm_other env (JFloat m k))
      | Some (JStr s) \<Rightarrow> fm_float env s
      | _ \<Rightarrow> None)"

definition format_publishable_status_line :: "int \<Rightarrow> int \<Rightarrow> pystr" where
  "format_publishable_status_line still_open hidden_total =
     (if 0 < still_open then
        S ''**Publishable status:** '' @ py_str_int still_open @ S '' open '' @ MDASH @ S '' see Still open on PR''
      else if 0 < hidden_total then
        S ''**Publishable status:** Nothing to act on in the tables below ('' @ py_str_int hidden_total @
        S '' hidden from display '' @ MDASH @ S '' expand breakdown).''
      else S ''**Publishable status:** Nothing to act on in the tables below.'')"

text \<open>One line per counter of a table that is not zero.\<close>

fun counter_lines :: "(json option \<Rightarrow> exn + int) \<Rightarrow> (pystr \<times> json) list \<Rightarrow> (pystr \<times> pystr) list \<Rightarrow> exn + pystr list" where
  "counter_lines f ms [] = Inr []"
| "counter_lines f ms ((k, label) # rest) =
     rbind (f (json_get k ms)) (\<lambda>n.
     rbind (counter_lines f ms rest) (\<lambda>ls.
       Inr ((if n = 0 then [] else [S ''- '' @ label @ S '': '' @ py_str_int n]) @ ls)))"

definition reconciliation_lines :: "unicode \<Rightarrow> json option \<Rightarrow> int \<Rightarrow> int \<Rightarrow> int \<Rightarrow> int \<Rightarrow> pystr list" where
  "reconciliation_lines u snapshot raised resolved still_open hidden_total =
     (case snapshot of
        Some (JObj f) \<Rightarrow>
          if raised = resolved + still_open + hidden_total then
            [S ''Reconciliation: raised ('' @ py_str_int raised @ S '') = resolved ('' @ py_str_int resolved @
             S '') + display open ('' @ py_str_int still_open @ S '') + hidden ('' @ py_str_int hidden_total @ S '').'']
          else
            let raw_active = safe_snapshot_int u (json_get (S ''raw_active_before_filters'') f)
            in [S ''Reconciliation: '' @ py_str_int raised @ S '' raised; '' @ py_str_int resolved @ S '' resolved; '' @
                py_str_int still_open @ S '' display open; '' @ py_str_int hidden_total @ S '' hidden.''] @
               (if raw_active = 0 then []
                else [S ''Raw active before display filters: '' @ py_str_int raw_active @
                      S '' (may include addressed-pending groups).''])
      | _ \<Rightarrow> [])"

definition format_pr_summary_details_block ::
  "format_env \<Rightarrow> (pystr \<times> json) list \<Rightarrow> int \<Rightarrow> int \<Rightarrow> int \<Rightarrow> int \<Rightarrow> exn + pystr list" where
  "format_pr_summary_details_block env rollup raised resolved still_open hidden_total =
     (let u = fm_unicode env; snapshot = json_get (S ''filter_snapshot'') rollup in
      rbind (case json_get (S ''resolved_by_method'') rollup of
               Some (JObj m) \<Rightarrow>
                 if 0 < resolved then
                   rbind (counter_lines (\<lambda>v. case v of None \<Rightarrow> Inr 0
                       | Some j \<Rightarrow> if json_truthy j then int_of_json u j else Inr 0) m RESOLVED_METHOD_LABELS)
                     (\<lambda>ls. Inr ([S ''**Resolved (lifetime)**''] @ ls @ [[]]))
                 else Inr []
             | _ \<Rightarrow> Inr []) (\<lambda>resolved_lines.
      rbind (case snapshot of
               Some (JObj f) \<Rightarrow>
                 if 0 < hidden_total then
                   rbind (counter_lines (\<lambda>v. Inr (safe_snapshot_int u v)) f HIDDEN_FILTER_KEYS)
                     (\<lambda>ls. Inr ([S ''**Hidden from tables** (no open GitHub thread to act on)''] @ ls @ [[]]))
                 else Inr []
             | _ \<Rightarrow> Inr []) (\<lambda>hidden_lines.
      rbind (int_or_0 u rollup (S ''still_open_prior'')) (\<lambda>still_open_prior.
        Inr (resolved_lines @ hidden_lines @
          reconciliation_lines u snapshot raised resolved still_open hidden_total @
          (if still_open_prior = still_open then []
           else [S ''Push metrics may show a different prior-open count '' @ MDASH @
                 S '' push block uses prior-revision pairing; tables use display-filtered counts.'']) @
          (case optional_lifetime_rate_pct env (json_get (S ''lifetime_resolution_rate_pct'') rollup) of
             Some rate \<Rightarrow> [S ''Lifetime resolution rate ('' @ rate @ S ''%) uses display open only, not raw DB active count.'']
           | None \<Rightarrow> if resolved + still_open = 0
                     then [S ''Lifetime resolution rate: N/A (no resolved or display-open groups).''] else []))))))"

definition format_pr_resolution_rollup_block :: "format_env \<Rightarrow> (pystr \<times> json) list \<Rightarrow> exn + pystr" where
  "format_pr_resolution_rollup_block env rollup =
     (let u = fm_unicode env in
      rbind (int_or_0 u rollup (S ''raised_count'')) (\<lambda>raised.
      rbind (int_or_0 u rollup (S ''resolved_count'')) (\<lambda>resolved.
      rbind (int_or_0 u rollup (S ''still_open_display'')) (\<lambda>still_open.
        let hidden_total = hidden_total_from_filter_snapshot u (json_get (S ''filter_snapshot'') rollup);
            row = (\<lambda>label n. S ''| '' @ label @ S '' | '' @ py_str_int n @ S '' |'')
        in rbind (format_pr_summary_details_block env rollup raised resolved still_open hidden_total) (\<lambda>details.
             Inr (py_lines ([PR_SUMMARY_HEADING, [], format_publishable_status_line still_open hidden_total, [],
               S ''| | Count |'', S ''|--|--:|'', row (S ''Raised on this PR'') raised,
               row (S ''Resolved (lifetime)'') resolved, row (S ''Still open (in tables)'') still_open] @
               (if 0 < hidden_total then [row (S ''Hidden from tables'') hidden_total] else []) @
               (case json_get (S ''lifetime_disclosure'') rollup of
                  Some (JStr d) \<Rightarrow> if py_strip d = [] then [] else [[], py_strip d] | _ \<Rightarrow> []) @
               (if details = [] then []
                else [[], S ''<details>'', S ''<summary>Lifetime breakdown</summary>'', []] @ details @
                  [S ''</details>''])))))))) "

definition format_pr_rollup_check_one_liner :: "format_env \<Rightarrow> (pystr \<times> json) list \<Rightarrow> exn + pystr" where
  "format_pr_rollup_check_one_liner env rollup =
     (let u = fm_unicode env in
      rbind (int_or_0 u rollup (S ''resolved_count'')) (\<lambda>resolved.
      rbind (int_or_0 u rollup (S ''raised_count'')) (\<lambda>raised.
      rbind (int_or_0 u rollup (S ''still_open_display'')) (\<lambda>still_open.
        Inr (S ''**PR (lifetime):** '' @ py_str_int resolved @ S '' resolved / '' @ py_str_int raised @
          S '' raised; '' @ py_str_int still_open @ S '' still open'')))))"

definition format_push_delta_check_one_liner :: "format_env \<Rightarrow> format_ctx \<Rightarrow> exn + pystr" where
  "format_push_delta_check_one_liner env ctx =
     rbind (g9_resolution_prose_for_ctx env ctx) (\<lambda>prose.
       Inr (if prose = [] then
              (if fc_revision_number ctx \<le> 1 then S ''**This push:** first review on this PR''
               else S ''**This push:** no resolution transitions'')
            else S ''**This push:** '' @ prose))"

definition build_check_run_summary :: "format_env \<Rightarrow> format_ctx \<Rightarrow> exn + pystr" where
  "build_check_run_summary env ctx =
     rbind (case fc_rollup ctx of
              None \<Rightarrow> Inr []
            | Some rollup \<Rightarrow>
                rbind (format_pr_rollup_check_one_liner env rollup) (\<lambda>a.
                rbind (format_push_delta_check_one_liner env ctx) (\<lambda>b. Inr [a, b, []])))
       (\<lambda>extra. Inr (py_lines ([S ''## Revy review'', [],
          S ''**Confidence:** '' @ py_str_int (compute_publish_confidence ctx) @ S ''/5'', []] @ extra @
          [format_summary_comment (fc_groups ctx) (verdict_groups ctx)])))"

definition build_summary_json :: "format_env \<Rightarrow> format_ctx \<Rightarrow> exn + (pystr \<times> json) list" where
  "build_summary_json env ctx =
     rbind (case fc_metrics ctx of
              Some manifest \<Rightarrow>
                rbind (resolution_counts_from_manifest (fm_unicode env) manifest)
                  (\<lambda>c. Inr (c\<lparr>rs_still_open := int (display_still_open_prior_count ctx)\<rparr>))
            | None \<Rightarrow> Inr (count_resolution_status (fc_groups ctx)))
       (\<lambda>c. let n = (\<lambda>gs. JInt (int (length (active_groups gs)))) in
        Inr ([(S ''head_sha'', JStr (fc_head_sha ctx)), (S ''revision_number'', JInt (fc_revision_number ctx)),
          (S ''confidence'', JInt (compute_publish_confidence ctx)), (S ''active_count'', n (verdict_groups ctx)),
          (S ''generation_active_count'', n (fc_groups ctx)), (S ''pr_active_count'', n (verdict_groups ctx)),
          (S ''resolution'', JObj [(S ''addressed'', JInt (rs_addressed c)), (S ''judge_dismissed'', JInt (rs_judge c)),
             (S ''verification_dismissed'', JInt (rs_verification c)), (S ''human_dismissed'', JInt (rs_human c)),
             (S ''still_open'', JInt (rs_still_open c))])] @
          (case fc_rollup ctx of None \<Rightarrow> [] | Some r \<Rightarrow> [(S ''pr_resolution_rollup'', JObj r)])))"

subsection \<open>Tables are well formed\<close>

text \<open>The pipes that delimit cells: those no backslash escapes.\<close>

fun bare_pipes :: "pystr \<Rightarrow> nat" where
  "bare_pipes [] = 0"
| "bare_pipes [c] = (if c = 124 then 1 else 0)"
| "bare_pipes (c # d # s) =
     (if c = 92 then bare_pipes s else (if c = 124 then 1 else 0) + bare_pipes (d # s))"

lemma bare_pipes_plain: "c \<noteq> 92 \<Longrightarrow> bare_pipes (c # s) = (if c = 124 then 1 else 0) + bare_pipes s"
  by (cases s) auto

lemma bare_pipes_prefix: "92 \<notin> set p \<Longrightarrow> bare_pipes (p @ s) = count_if (\<lambda>c. c = 124) p + bare_pipes s"
proof (induction p)
  case (Cons c p)
  then have "bare_pipes (c # (p @ s)) = (if c = 124 then 1 else 0) + bare_pipes (p @ s)"
    by (intro bare_pipes_plain) auto
  with Cons show ?case by (simp add: count_if_def)
qed (simp add: count_if_def)

text \<open>One character of a cell after the escaping.\<close>

lemma escape_cell_cons:
  "escape_markdown_table_cell (c # v) =
     (if c = 92 then [92, 92] else if c = 124 then [92, 124] else if c = 13 \<or> c = 10 then [32] else [c]) @
     escape_markdown_table_cell v"
  by (simp add: escape_markdown_table_cell_def)

lemma escape_cell_Nil [simp]: "escape_markdown_table_cell [] = []"
  by (simp add: escape_markdown_table_cell_def)

lemma escape_cell_pipes: "bare_pipes (escape_markdown_table_cell v @ s) = bare_pipes s"
proof (induction v)
  case (Cons c v)
  have "bare_pipes (d # escape_markdown_table_cell v @ s) = bare_pipes s" if "d \<noteq> 92" "d \<noteq> 124" for d
    using bare_pipes_plain [of d "escape_markdown_table_cell v @ s"] that Cons.IH by simp
  with Cons.IH show ?case by (simp add: escape_cell_cons)
qed simp

lemma escape_cell_line: "10 \<notin> set (escape_markdown_table_cell v)" "13 \<notin> set (escape_markdown_table_cell v)"
  by (induction v) (auto simp: escape_cell_cons split: if_splits)

lemma severity_text: "c \<in> set (severity_value s) \<Longrightarrow> 97 \<le> c \<and> c \<le> 122"
  by (cases s) (auto simp: severity_value_def S_def)

lemma category_text: "c \<in> set (category_value s) \<Longrightarrow> 97 \<le> c \<and> c \<le> 122"
  by (cases s) (auto simp: category_value_def S_def)

lemma no_pipe_count: "124 \<notin> set p \<Longrightarrow> count_if (\<lambda>c. c = 124) p = 0"
  by (auto simp: count_if_def filter_empty_conv)

lemma table_row_pipes: "bare_pipes (severity_table_row g) = 5"
proof -
  have sv: "92 \<notin> set (severity_value s)" "124 \<notin> set (severity_value s)" for s using severity_text by force+
  have cv: "92 \<notin> set (category_value s)" "124 \<notin> set (category_value s)" for s using category_text by force+
  have bar: "bare_pipes (S '' | '' @ s) = Suc (bare_pipes s)" "bare_pipes (S ''| '' @ s) = Suc (bare_pipes s)"
    "bare_pipes (S '' |'') = 1" for s
    by (simp_all add: S_def bare_pipes_plain)
  show ?thesis
    unfolding severity_table_row_def bar bare_pipes_prefix [OF sv(1)] bare_pipes_prefix [OF cv(1)] escape_cell_pipes
      no_pipe_count [OF sv(2)] no_pipe_count [OF cv(2)] by simp
qed

lemma table_row_line: "10 \<notin> set (severity_table_row g) \<and> 13 \<notin> set (severity_table_row g)"
proof -
  have "k \<notin> set (severity_value s)" "k \<notin> set (category_value c)" if "k < 97" for k s c
    using that severity_text [of k s] category_text [of k c] by fastforce+
  then show ?thesis using escape_cell_line by (simp add: severity_table_row_def S_def)
qed

text \<open>A table of findings is well formed whatever the titles and paths contain: every row is one line
  with exactly the five delimiters of four cells, there are at most fifty rows, and below that cap every
  open finding has its row.\<close>

theorem findings_table_well_formed:
  "\<exists>rows. severity_table_rows groups =
       [S ''| Severity | Category | Title | File |'', S ''| --- | --- | --- | --- |''] @ rows \<and>
     list_all (\<lambda>row. bare_pipes row = 5 \<and> 10 \<notin> set row \<and> 13 \<notin> set row) rows \<and>
     length rows = min 50 (length (active_groups groups)) \<and>
     (length rows = 50 \<or> set rows = severity_table_row ` set (active_groups groups))"
proof -
  define rows where "rows = map severity_table_row (take SUMMARY_ROW_CAP (sorted_active_groups groups))"
  have "length (sorted_active_groups groups) = length (active_groups groups)" by (simp add: sorted_active_groups_def)
  then have len: "length rows = min 50 (length (active_groups groups))" by (simp add: rows_def SUMMARY_ROW_CAP_def)
  have "set rows = severity_table_row ` set (active_groups groups)" if "length rows \<noteq> 50"
    using that len by (simp add: rows_def SUMMARY_ROW_CAP_def sorted_active_groups_def min_def split: if_splits)
  then have all: "length rows = 50 \<or> set rows = severity_table_row ` set (active_groups groups)" by blast
  have "list_all (\<lambda>row. bare_pipes row = 5 \<and> 10 \<notin> set row \<and> 13 \<notin> set row) rows"
    using table_row_pipes table_row_line by (simp add: rows_def list_all_iff)
  with len all show ?thesis by (intro exI [of _ rows]) (simp add: severity_table_rows_def rows_def)
qed

end
