(* ===== verification/Publish_Splice.thy ===== *)
theory Publish_Splice
  imports Publish_Markdown
begin

section \<open>Editing the published markdown (\<open>services/github_publish_formatter.py\<close>)\<close>

text \<open>
  The issue comment is either the deterministic one or the answer of the LLM, into which the tables, the
  lifetime summary, the metrics and the footer are spliced; after threads were collapsed the tables and the
  verdict are refreshed.  The functions follow the source: searches by \<open>find\<close> and \<open>rfind\<close>, loops as
  recursion on the position.
\<close>

definition newline_at :: "pystr \<Rightarrow> nat \<Rightarrow> bool" where
  "newline_at s i \<longleftrightarrow> s ! i = 10 \<or> s ! i = 13"

definition canonical_newlines :: "pystr \<Rightarrow> pystr" where
  "canonical_newlines s = py_replace_chr 13 [10] (py_replace [13, 10] [10] s)"

text \<open>The smallest of the positions found, \<open>d\<close> if there is none.\<close>

definition first_of :: "nat \<Rightarrow> nat option list \<Rightarrow> nat" where
  "first_of d ps = foldl (\<lambda>m p. case p of Some i \<Rightarrow> min m i | None \<Rightarrow> m) d ps"

subsection \<open>Finding the place\<close>

definition heading_suffix_matches :: "pystr \<Rightarrow> pystr \<Rightarrow> bool" where
  "heading_suffix_matches remainder sfx \<longleftrightarrow>
     py_startswith remainder sfx \<and>
     (let after = drop (length sfx) remainder in after = [] \<or> newline_at after 0)"

function find_splice_marker :: "pystr \<Rightarrow> pystr \<Rightarrow> pystr list \<Rightarrow> nat \<Rightarrow> nat option" where
  "find_splice_marker markdown marker sfxs start =
     (case py_find_from marker markdown start of
        None \<Rightarrow> None
      | Some i \<Rightarrow>
          let remainder = drop (i + length marker) markdown in
          if 0 < i \<and> \<not> newline_at markdown (i - 1) then find_splice_marker markdown marker sfxs (Suc i)
          else if py_startswith marker (S ''###'') \<and> remainder \<noteq> [] \<and> \<not> newline_at remainder 0 \<and>
              \<not> list_ex (heading_suffix_matches remainder) sfxs
          then find_splice_marker markdown marker sfxs (Suc i)
          else Some i)"
  by pat_completeness auto

termination
  by (relation "measure (\<lambda>(md, m, ss, start). Suc (length md) - start)") (auto dest!: py_find_from_bounds)

declare find_splice_marker.simps [simp del]

definition PR_SUMMARY_SECTION_END_MARKERS :: "pystr list" where
  "PR_SUMMARY_SECTION_END_MARKERS =
     [[10, 10] @ S ''**Since last push:**'', [10] @ S ''### Resolution metrics'',
      [10] @ S ''### Files needing attention'', [10] @ S ''### This generation'']"

definition section_end_marker_matches :: "pystr \<Rightarrow> nat \<Rightarrow> pystr \<Rightarrow> bool" where
  "section_end_marker_matches tail i marker \<longleftrightarrow>
     py_startswith (drop i tail) marker \<and>
     (let rest = drop (i + length marker) tail in
      if rest = [] then True
      else if py_endswith marker (S ''**Since last push:**'') then True
      else if marker = [10] @ S ''### Resolution metrics''
      then newline_at rest 0 \<or> heading_suffix_matches rest (S '' (this push)'')
      else newline_at rest 0)"

definition review_metadata_details_is_footer :: "pystr \<Rightarrow> bool" where
  "review_metadata_details_is_footer block \<longleftrightarrow>
     py_contains block (S ''Revision:'') \<or> py_contains block (S ''Head:'') \<or>
     py_contains block (S ''head_sha'') \<or> py_contains block (S ''revision_number'') \<or>
     py_strip (py_replace (S ''</details>'') []
       (case py_split1 (S ''</summary>'') block of Some (a, b) \<Rightarrow> b | None \<Rightarrow> block)) = []"

definition REVIEW_METADATA_SUMMARY :: pystr where
  "REVIEW_METADATA_SUMMARY = S ''<summary>Review metadata</summary>''"

lemma py_rfind_to_less: "sub \<noteq> [] \<Longrightarrow> py_rfind_to sub s stop = Some i \<Longrightarrow> i < stop"
proof -
  assume ne: "sub \<noteq> []" and "py_rfind_to sub s stop = Some i"
  then obtain j where j: "py_find (rev sub) (rev (take stop s)) = Some j"
    and i: "i = length (take stop s) - j - length sub" by (auto simp: py_rfind_to_def py_rfind_def)
  from py_find_Some [OF j] have "j + length sub \<le> length (take stop s)" by simp
  then show "i < stop" using ne by (cases sub) (auto simp: i)
qed

lemma review_metadata_ne: "REVIEW_METADATA_SUMMARY \<noteq> []"
  by (simp add: REVIEW_METADATA_SUMMARY_def S_def)

function find_valid_review_metadata_details_index :: "pystr \<Rightarrow> nat \<Rightarrow> nat option" where
  "find_valid_review_metadata_details_index md stop =
     (if stop = 0 then None
      else case py_rfind_to REVIEW_METADATA_SUMMARY md stop of
        None \<Rightarrow> None
      | Some i \<Rightarrow>
          (case (py_rfind_to (S ''<details>'') md i, py_find_from (S ''</details>'') md i) of
             (Some start, Some close) \<Rightarrow>
               if review_metadata_details_is_footer (take (close + 10 - start) (drop start md)) then Some start
               else find_valid_review_metadata_details_index md i
           | _ \<Rightarrow> find_valid_review_metadata_details_index md i))"
  by pat_completeness auto

termination
  by (relation "measure (\<lambda>(md, stop). stop)")
    (auto dest: py_rfind_to_less [OF review_metadata_ne])

declare find_valid_review_metadata_details_index.simps [simp del]

text \<open>Where the footer starts: the validated metadata block or the rule before the metadata line.\<close>

definition find_review_footer_insert_index :: "pystr \<Rightarrow> nat option" where
  "find_review_footer_insert_index markdown =
     (let t = canonical_newlines markdown;
          details = find_valid_review_metadata_details_index t (length t);
          footer = (case py_rfind ([10] @ S ''---'' @ [10] @ S ''*'') t of
              None \<Rightarrow> None
            | Some i \<Rightarrow> if py_contains (drop i t) (S ''Revision:'') \<and> py_endswith (py_rstrip (drop i t)) (S ''*'')
                        then Some i else None)
      in case (details, footer) of
           (Some a, Some b) \<Rightarrow> Some (min a b) | (Some a, None) \<Rightarrow> Some a | (None, b) \<Rightarrow> b)"

definition at_line_start :: "pystr \<Rightarrow> nat \<Rightarrow> bool" where
  "at_line_start t i \<longleftrightarrow> i = 0 \<or> newline_at t (i - 1)"

text \<open>One step of the scan for the end of the lifetime section: the next position, whether inside a fence, and
  the depth of \<open><details>\<close>.\<close>

definition section_step :: "pystr \<Rightarrow> bool \<Rightarrow> nat \<Rightarrow> nat \<Rightarrow> nat \<times> bool \<times> nat" where
  "section_step tail fence details i =
     (if at_line_start tail i \<and> py_startswith (drop i tail) [96, 96, 96]
      then (opt_or (py_find_from [10] tail i) (length tail), \<not> fence, details)
      else if \<not> fence \<and> py_startswith (drop i (py_lower tail)) (S ''<details'')
      then (case py_find_from (S ''>'') tail i of
              None \<Rightarrow> (Suc i, fence, details) | Some gt \<Rightarrow> (Suc gt, fence, Suc details))
      else if \<not> fence \<and> py_startswith (drop i (py_lower tail)) (S ''</details>'')
      then (i + length (S ''</details>''), fence, details - 1)
      else (Suc i, fence, details))"

lemma fence_line_end:
  assumes "py_startswith (drop i tail) [96, 96, 96]"
  shows "i < opt_or (py_find_from [10] tail i) (length tail)"
proof (cases "py_find_from [10] tail i")
  case None
  from assms have "i < length tail" by (cases "i < length tail") (auto simp: py_startswith_def)
  with None show ?thesis by simp
next
  case (Some j)
  obtain s where s: "drop i tail = 96 # s"
    using assms by (cases "drop i tail") (auto simp: py_startswith_iff)
  have "j \<noteq> i" using Some by (auto simp: py_find_from_def s split: if_splits dest: py_find_Some)
  with py_find_from_bounds [OF Some] Some show ?thesis by simp
qed

lemma section_step_forward: "i < fst (section_step tail fence details i)"
  using fence_line_end [of i tail]
  by (auto simp: section_step_def S_def split: option.split dest!: py_find_from_bounds)

text \<open>The position of the first marker outside fences and details, the length of the text if there is none.\<close>

function section_scan :: "pystr \<Rightarrow> bool \<Rightarrow> nat \<Rightarrow> nat \<Rightarrow> nat option" where
  "section_scan tail fence details i =
     (if length tail \<le> i then None
      else if \<not> fence \<and> details = 0 \<and> list_ex (section_end_marker_matches tail i) PR_SUMMARY_SECTION_END_MARKERS
      then Some i
      else case section_step tail fence details i of (j, f, d) \<Rightarrow> section_scan tail f d j)"
  by pat_completeness auto

termination
proof (relation "measure (\<lambda>(tail, f, d, i). length tail - i)")
  fix tail :: pystr and fence f :: bool and details d i j k :: nat and p q
  assume i: "\<not> length tail \<le> i" and e: "(j, q) = section_step tail fence details i" "(f, d) = q"
  have "i < j" using section_step_forward [of i tail fence details] e(1) by (metis fst_conv)
  with i show "((tail, f, d, j), (tail, fence, details, i)) \<in> measure (\<lambda>(tail, f, d, i). length tail - i)" by simp
qed simp

declare section_scan.simps [simp del]

definition pr_summary_section_end_offset :: "pystr \<Rightarrow> nat" where
  "pr_summary_section_end_offset tail =
     (let footer = find_review_footer_insert_index tail in
      case section_scan tail False 0 0 of
        Some i \<Rightarrow> (case footer of Some f \<Rightarrow> min i f | None \<Rightarrow> i)
      | None \<Rightarrow> opt_or footer (length tail))"

subsection \<open>The lifetime summary and the footer\<close>

definition replace_pr_summary_section :: "pystr \<Rightarrow> pystr \<Rightarrow> pystr" where
  "replace_pr_summary_section markdown new_block =
     (let markdown = canonical_newlines markdown in
      case find_splice_marker markdown PR_SUMMARY_HEADING [] 0 of
        None \<Rightarrow> markdown
      | Some start \<Rightarrow>
          let tail = drop (start + length PR_SUMMARY_HEADING) markdown
          in take start markdown @ py_rstrip new_block @ drop (pr_summary_section_end_offset tail) tail)"

definition SPLICE_BEFORE :: "(pystr \<times> pystr list) list" where
  "SPLICE_BEFORE =
     [(S ''**Since last push:**'', []), (S ''### Resolution metrics (this push)'', []),
      (S ''### Resolution metrics'', [S '' (this push)'']), (S ''### Files needing attention'', []),
      (S ''### This generation'', [])]"

fun first_splice_marker :: "pystr \<Rightarrow> (pystr \<times> pystr list) list \<Rightarrow> nat option" where
  "first_splice_marker markdown [] = None"
| "first_splice_marker markdown ((m, sfx) # ms) =
     (case find_splice_marker markdown m sfx 0 of Some i \<Rightarrow> Some i | None \<Rightarrow> first_splice_marker markdown ms)"

definition splice_deterministic_pr_summary_block :: "format_env \<Rightarrow> pystr \<Rightarrow> format_ctx \<Rightarrow> exn + pystr" where
  "splice_deterministic_pr_summary_block env markdown ctx =
     (case fc_rollup ctx of
        None \<Rightarrow> Inr markdown
      | Some rollup \<Rightarrow>
          let markdown = canonical_newlines markdown in
          rbind (format_pr_resolution_rollup_block env rollup) (\<lambda>block.
            Inr (if find_splice_marker markdown PR_SUMMARY_HEADING [] 0 \<noteq> None
                 then replace_pr_summary_section markdown block
                 else case first_splice_marker markdown SPLICE_BEFORE of
                   Some i \<Rightarrow> py_rstrip (take i markdown) @ [10, 10] @ block @ [10, 10] @ drop i markdown
                 | None \<Rightarrow>
                     (case find_review_footer_insert_index markdown of
                        Some i \<Rightarrow> py_rstrip (take i markdown) @ [10, 10] @ block @ [10, 10] @ py_lstrip (drop i markdown)
                      | None \<Rightarrow> py_rstrip markdown @ [10, 10] @ block))))"

definition strip_rollup_metadata_footer :: "pystr \<Rightarrow> pystr" where
  "strip_rollup_metadata_footer markdown =
     (case py_rfind ([10] @ S ''---'' @ [10] @ S ''*'') markdown of
        None \<Rightarrow> markdown
      | Some i \<Rightarrow>
          if py_contains (drop i markdown) (S ''Revision:'') \<and> py_endswith (py_rstrip (drop i markdown)) (S ''*'')
          then py_rstrip (take i markdown) else markdown)"

definition review_metadata_footer :: "format_env \<Rightarrow> format_ctx \<Rightarrow> exn + pystr" where
  "review_metadata_footer env ctx =
     rbind (int_or_0 (fm_unicode env) (opt_or (fc_rollup ctx) []) (S ''review_count'')) (\<lambda>review_count.
       let head = fc_head_sha ctx;
           short = (if 7 \<le> length head then take 7 head else if head = [] then S ''unknown'' else head)
       in Inr (S ''---'' @ [10] @ S ''*'' @ py_join (S '' '' @ [183] @ S '' '')
            ((if review_count = 0 then [] else [S ''Reviews on this PR: '' @ py_str_int review_count]) @
             [S ''Revision: '' @ py_str_int (fc_revision_number ctx), S ''Head: '' @ short]) @ S ''*''))"

definition put_metadata_footer :: "pystr \<Rightarrow> pystr \<Rightarrow> pystr" where
  "put_metadata_footer footer markdown =
     (let plain = (if py_contains markdown footer then markdown else py_rstrip markdown @ [10, 10] @ footer) in
      case py_find REVIEW_METADATA_SUMMARY markdown of
        None \<Rightarrow> plain
      | Some i \<Rightarrow>
          (case (py_rfind_to (S ''<details>'') markdown i, py_find_from (S ''</details>'') markdown i) of
             (Some start, Some e) \<Rightarrow> py_rstrip (take start markdown) @ [10, 10] @ footer @ [10]
           | _ \<Rightarrow> plain))"

definition append_review_metadata_footer :: "format_env \<Rightarrow> pystr \<Rightarrow> format_ctx \<Rightarrow> exn + pystr" where
  "append_review_metadata_footer env markdown ctx =
     rbind (review_metadata_footer env ctx) (\<lambda>footer.
       Inr (put_metadata_footer footer (strip_rollup_metadata_footer markdown)))"

definition apply_rollup_to_publish_surfaces ::
  "format_env \<Rightarrow> pystr \<Rightarrow> pystr \<Rightarrow> format_ctx \<Rightarrow> exn + pystr \<times> pystr" where
  "apply_rollup_to_publish_surfaces env check_summary issue_comment ctx =
     (case fc_rollup ctx of
        None \<Rightarrow> Inr (check_summary, issue_comment)
      | Some rollup \<Rightarrow>
          rbind (splice_deterministic_pr_summary_block env issue_comment ctx) (\<lambda>issue_comment.
          rbind (append_review_metadata_footer env issue_comment ctx) (\<lambda>issue_comment.
          rbind (format_pr_rollup_check_one_liner env rollup) (\<lambda>lifetime.
          rbind (format_push_delta_check_one_liner env ctx) (\<lambda>push.
            let one_liners = py_lines [lifetime, push, []];
                at_end = (if py_contains check_summary lifetime then check_summary
                          else check_summary @ [10, 10] @ one_liners)
            in Inr (case py_find (S ''**Confidence:**'') check_summary of
                 None \<Rightarrow> at_end
               | Some conf \<Rightarrow>
                   (case py_find_from [10, 10] check_summary conf of
                      None \<Rightarrow> at_end
                    | Some after \<Rightarrow>
                        let tail = drop (after + 2) check_summary
                        in if py_contains tail lifetime then check_summary
                           else take (after + 2) check_summary @ one_liners @ tail),
               issue_comment))))))"

end
