(* ===== verification/Publish_Comment.thy ===== *)
theory Publish_Comment
  imports Publish_Splice
begin

section \<open>The issue comment and its refresh (\<open>services/github_publish_formatter.py\<close>)\<close>

text \<open>
  The deterministic comment, the comment of the LLM with the deterministic parts spliced into it and the
  deterministic one as its fallback, and the refresh after this publish collapsed threads.
\<close>

subsection \<open>Replacing sections\<close>

text \<open>The smallest position found, \<open>d\<close> when there is none.\<close>

fun first_marker :: "pystr \<Rightarrow> nat \<Rightarrow> pystr list \<Rightarrow> nat \<Rightarrow> nat" where
  "first_marker t start [] d = d"
| "first_marker t start (m # ms) d =
     (case py_find_from m t start of None \<Rightarrow> first_marker t start ms d | Some i \<Rightarrow> first_marker t start ms (min d i))"

definition SECTION_END_MARKERS :: "pystr list" where
  "SECTION_END_MARKERS = [[10] @ S ''### '', [10] @ S ''<details>'', [10] @ S ''---'' @ [10]]"

definition replace_markdown_section :: "pystr \<Rightarrow> pystr \<Rightarrow> pystr \<Rightarrow> pystr" where
  "replace_markdown_section markdown start_marker new_block =
     (if start_marker = PR_SUMMARY_HEADING then replace_pr_summary_section markdown new_block
      else case py_find start_marker markdown of
        None \<Rightarrow> markdown
      | Some start \<Rightarrow>
          let tail = drop (start + length start_marker) markdown;
              end_offset = first_marker tail 0 SECTION_END_MARKERS (length tail);
              replacement = py_rstrip new_block;
              replacement = (if replacement = [] then [] else replacement @ [10])
          in take start markdown @ replacement @ lstrip_chars [10] (drop end_offset tail))"

text \<open>Start and end of the details block with a given summary.\<close>

definition details_block :: "pystr \<Rightarrow> pystr \<Rightarrow> (nat \<times> nat) option" where
  "details_block markdown label =
     (case py_find (S ''<summary>'' @ label @ S ''</summary>'') markdown of
        None \<Rightarrow> None
      | Some i \<Rightarrow>
          (case (py_rfind_to (S ''<details>'') markdown i, py_find_from (S ''</details>'') markdown i) of
             (Some a, Some e) \<Rightarrow> Some (a, e + length (S ''</details>''))
           | _ \<Rightarrow> None))"

definition replace_details_section :: "pystr \<Rightarrow> pystr \<Rightarrow> pystr list \<Rightarrow> pystr" where
  "replace_details_section markdown label new_lines =
     (case details_block markdown label of
        None \<Rightarrow> markdown
      | Some (a, e) \<Rightarrow> take a markdown @ py_lines new_lines @ drop e markdown)"

definition remove_details_section :: "pystr \<Rightarrow> pystr \<Rightarrow> pystr" where
  "remove_details_section markdown label =
     (case details_block markdown label of
        None \<Rightarrow> markdown
      | Some (a, e) \<Rightarrow> py_strip (take a markdown @ drop e markdown))"

definition COMMENT_HEADING :: pystr where
  "COMMENT_HEADING = S ''## Revy code review''"

definition patch_issue_narrative_paragraph :: "pystr \<Rightarrow> format_ctx \<Rightarrow> pystr" where
  "patch_issue_narrative_paragraph issue_comment ctx =
     (if \<not> py_startswith issue_comment COMMENT_HEADING then issue_comment
      else
        let narrative = review_narrative_paragraph ctx;
            rest = lstrip_chars [10] (drop (length COMMENT_HEADING) issue_comment);
            end_offset = first_marker rest 0
              [[10, 10] @ S ''**Merge recommendation:**'', [10, 10] @ S ''**Confidence score:**'',
               [10, 10] @ S ''### '', [10, 10] @ S ''<details>'', [10, 10] @ S ''---''] (length rest);
            tail = lstrip_chars [10] (drop end_offset rest)
        in COMMENT_HEADING @ [10, 10] @ narrative @ (if tail = [] then [] else [10, 10] @ tail))"

text \<open>\<open>re.sub(r, lambda _: line, s, count=1)\<close>.\<close>

definition re_sub1 :: "format_env \<Rightarrow> regex \<Rightarrow> pystr \<Rightarrow> pystr \<Rightarrow> pystr" where
  "re_sub1 env r line s =
     (case re_find (fm_word env) r s 0 of None \<Rightarrow> s | Some (a, e) \<Rightarrow> take a s @ line @ drop e s)"

definition MERGE_LINE_RE :: regex where
  "MERGE_LINE_RE = Cat (re_lit (S ''**Merge recommendation:** '')) (re_plus (\<lambda>c. c \<noteq> 10))"

definition CONFIDENCE_LINE_RE :: "unicode \<Rightarrow> regex" where
  "CONFIDENCE_LINE_RE u = seq [re_lit (S ''**Confidence score:** ''), re_plus (\<lambda>c. digit_value u c \<noteq> None), re_lit (S ''/5'')]"

text \<open>Replaced by the new lines, or removed when there are none.\<close>

definition refresh_details :: "pystr \<Rightarrow> pystr \<Rightarrow> pystr list option \<Rightarrow> pystr" where
  "refresh_details markdown label new_lines =
     (if py_contains markdown (S ''<summary>'' @ label @ S ''</summary>'')
      then (case new_lines of Some ls \<Rightarrow> replace_details_section markdown label ls
            | None \<Rightarrow> remove_details_section markdown label)
      else markdown)"

definition attention_lines :: "pystr list \<Rightarrow> pystr list" where
  "attention_lines paths = map (\<lambda>p. S ''- '' @ code p) paths"

definition NO_ATTENTION :: pystr where
  "NO_ATTENTION = S ''No files require special attention on this revision.''"

definition refresh_issue_pr_verdict_sections :: "format_env \<Rightarrow> pystr \<Rightarrow> format_ctx \<Rightarrow> pystr" where
  "refresh_issue_pr_verdict_sections env issue_comment ctx =
     (let verdict = verdict_groups ctx;
          t = issue_comment;
          t = (if py_contains t (S ''**Merge recommendation:**'')
               then re_sub1 env MERGE_LINE_RE (S ''**Merge recommendation:** '' @ merge_recommendation verdict) t else t);
          t = (if py_contains t (S ''**Confidence score:**'')
               then re_sub1 env (CONFIDENCE_LINE_RE (fm_unicode env))
                 (S ''**Confidence score:** '' @ py_str_int (compute_publish_confidence ctx) @ S ''/5'') t else t);
          attention = files_needing_attention verdict;
          files_block = (if attention \<noteq> [] then
              S ''### Files needing attention'' @ [10, 10] @ py_lines (attention_lines attention)
            else if active_groups verdict = [] then NO_ATTENTION else []);
          t = (if py_contains t (S ''### Files needing attention'')
               then replace_markdown_section t (S ''### Files needing attention'') files_block else t);
          t = refresh_details t (S ''Security review'') (security_details_lines verdict);
          t = refresh_details t (S ''Important files changed'') (important_files_details_lines verdict)
      in patch_issue_narrative_paragraph t ctx)"

definition findings_tables_markdown :: "format_ctx \<Rightarrow> pystr" where
  "findings_tables_markdown ctx = format_summary_comment (fc_groups ctx) (verdict_groups ctx)"

text \<open>A heading with an optional \<open> findings\<close> and a word boundary, whatever its case.\<close>

definition FINDINGS_HEADING_RE :: "pystr \<Rightarrow> regex" where
  "FINDINGS_HEADING_RE h = seq [re_lit_ci h, Alt Eps (re_lit_ci (S '' findings'')), Bnd]"

definition splice_deterministic_findings_tables :: "format_env \<Rightarrow> pystr \<Rightarrow> format_ctx \<Rightarrow> pystr" where
  "splice_deterministic_findings_tables env markdown ctx =
     (case re_find (fm_word env) (FINDINGS_HEADING_RE (S ''### This generation'')) markdown 0 of
        None \<Rightarrow> markdown
      | Some (start, a) \<Rightarrow>
          (case re_find (fm_word env) (FINDINGS_HEADING_RE (S ''### Still open on PR'')) markdown start of
             None \<Rightarrow> markdown
           | Some (still_start, b) \<Rightarrow>
               let tail = drop still_start markdown;
                   end_offset = first_marker tail 1 SECTION_END_MARKERS (length tail)
               in take start markdown @ findings_tables_markdown ctx @ drop (still_start + end_offset) markdown))"

subsection \<open>The deterministic comment\<close>

definition opt_lines :: "pystr list option \<Rightarrow> pystr list" where
  "opt_lines ls = (case ls of Some l \<Rightarrow> if l = [] then [] else [[]] @ l | None \<Rightarrow> [])"

definition build_pr_review_comment_fallback :: "format_env \<Rightarrow> format_ctx \<Rightarrow> exn + pystr" where
  "build_pr_review_comment_fallback env ctx =
     (let verdict = verdict_groups ctx; attention = files_needing_attention verdict in
      rbind (g9_resolution_prose_for_ctx env ctx) (\<lambda>resolution_prose.
      rbind (case fc_rollup ctx of
               None \<Rightarrow> Inr []
             | Some rollup \<Rightarrow> rbind (format_pr_resolution_rollup_block env rollup) (\<lambda>b. Inr [[], b])) (\<lambda>rollup_lines.
      rbind (resolution_metrics_block env ctx) (\<lambda>metrics.
      rbind (append_review_metadata_footer env (py_lines (
           [COMMENT_HEADING, [], review_narrative_paragraph ctx, [],
            S ''**Merge recommendation:** '' @ merge_recommendation verdict, [],
            S ''**Confidence score:** '' @ py_str_int (compute_publish_confidence ctx) @ S ''/5'', [],
            publish_confidence_rationale ctx] @
           rollup_lines @
           (if resolution_prose = [] then [] else [[], S ''**Since last push:** '' @ resolution_prose]) @
           (case metrics of Some m \<Rightarrow> if m = [] then [] else [[], m] | None \<Rightarrow> []) @
           (if attention \<noteq> [] then [[], S ''### Files needing attention'', []] @ attention_lines attention
            else if active_groups verdict = [] then [[], NO_ATTENTION] else []) @
           [[], format_summary_comment (fc_groups ctx) verdict] @
           opt_lines (security_details_lines verdict) @
           opt_lines (important_files_details_lines verdict))) ctx) (\<lambda>body.
        Inr (if index_footer ctx = [] then body else body @ [10, 10] @ index_footer ctx))))))"

record publish_format_result =
  pf_check_summary :: pystr
  pf_issue_comment :: pystr
  pf_confidence :: int
  pf_summary_json :: "(pystr \<times> json) list"
  pf_provider :: "pystr option"
  pf_model :: "pystr option"

definition apply_publish_summary_thread_collapse ::
  "format_env \<Rightarrow> pystr \<Rightarrow> pystr \<Rightarrow> format_ctx \<Rightarrow> pystr set \<Rightarrow> pystr set \<Rightarrow> exn + publish_format_result" where
  "apply_publish_summary_thread_collapse env check_summary issue_comment ctx publishable collapsed =
     (if collapsed = {} then
        rbind (build_summary_json env ctx) (\<lambda>summary_json.
          Inr \<lparr>pf_check_summary = check_summary, pf_issue_comment = issue_comment,
               pf_confidence = compute_publish_confidence ctx, pf_summary_json = summary_json,
               pf_provider = None, pf_model = None\<rparr>)
      else
        let ctx = ctx\<lparr>fc_pr_active := Some (filter_pr_active_groups_for_summary (opt_or (fc_pr_active ctx) [])
              publishable collapsed (Some (generation_ids ctx)) (fc_ever_inlined ctx))\<rparr>;
            spliced = splice_deterministic_findings_tables env issue_comment ctx
        in rbind (build_check_run_summary env ctx) (\<lambda>new_check.
           rbind (if spliced = issue_comment then build_pr_review_comment_fallback env ctx
                  else Inr (refresh_issue_pr_verdict_sections env spliced ctx)) (\<lambda>new_issue.
           rbind (build_summary_json env ctx) (\<lambda>summary_json.
             Inr \<lparr>pf_check_summary = new_check, pf_issue_comment = new_issue,
                  pf_confidence = compute_publish_confidence ctx, pf_summary_json = summary_json,
                  pf_provider = None, pf_model = None\<rparr>))))"

subsection \<open>The comment of the LLM\<close>

text \<open>\<open>json.dumps(value, ensure_ascii=False)\<close>; \<open>other\<close> gives the text of a float.\<close>

definition json_chr :: "nat \<Rightarrow> pystr" where
  "json_chr c =
     (if c = 34 then [92, 34] else if c = 92 then [92, 92] else if c = 10 then [92, 110] else if c = 13 then [92, 114]
      else if c = 9 then [92, 116] else if c = 8 then [92, 98] else if c = 12 then [92, 102]
      else if c < 32 then [92, 117] @ hex_n 4 (int c) else [c])"

definition json_text :: "pystr \<Rightarrow> pystr" where
  "json_text s = [34] @ concat (map json_chr s) @ [34]"

fun json_dumps :: "(json \<Rightarrow> pystr) \<Rightarrow> json \<Rightarrow> pystr" where
  "json_dumps other JNull = S ''null''"
| "json_dumps other (JBool b) = (if b then S ''true'' else S ''false'')"
| "json_dumps other (JInt i) = py_str_int i"
| "json_dumps other (JFloat m k) = other (JFloat m k)"
| "json_dumps other (JStr s) = json_text s"
| "json_dumps other (JArr xs) = S ''['' @ py_join (S '', '') (map (json_dumps other) xs) @ S '']''"
| "json_dumps other (JObj ms) =
     S ''{'' @ py_join (S '', '') (map (\<lambda>kv. json_text (fst kv) @ S '': '' @ json_dumps other (snd kv)) ms) @ S ''}''"

definition findings_payload :: "finding_group list \<Rightarrow> json" where
  "findings_payload groups =
     JArr (map (\<lambda>g. JObj [(S ''severity'', JStr (severity_value (fg_severity g))),
         (S ''category'', JStr (category_value (fg_category g))), (S ''title'', JStr (fg_title g)),
         (S ''file'', case fg_file_path g of Some p \<Rightarrow> JStr p | None \<Rightarrow> JNull)])
       (take SUMMARY_ROW_CAP (active_groups groups)))"

definition build_issue_comment_user_prompt :: "format_env \<Rightarrow> format_ctx \<Rightarrow> exn + pystr" where
  "build_issue_comment_user_prompt env ctx =
     (let verdict = verdict_groups ctx; generation_active = active_groups (fc_groups ctx);
          pr_active = active_groups verdict; dumps = json_dumps (fm_other env);
          confidence = py_str_int (compute_publish_confidence ctx) @ S ''/5''; nl = [10]
      in rbind (g9_resolution_prose_for_ctx env ctx) (\<lambda>prose.
        Inr (S ''Format the issue comment from this structured review context.'' @ nl @ nl @
          S ''PR #'' @ py_str_int (fc_pull_request_number ctx) @ S '' revision '' @ py_str_int (fc_revision_number ctx) @
          S '' head_sha='' @ fc_head_sha ctx @ nl @
          S ''Confidence score (use this exact value): '' @ confidence @ nl @
          S ''Label the section **Confidence score:** '' @ confidence @ S '' in the comment.'' @ nl @
          S ''Confidence rationale (include as one sentence after the score): '' @ publish_confidence_rationale ctx @ nl @
          S ''Narrative hints (write 2-4 sentences in your own words): '' @ review_narrative_paragraph ctx @ nl @
          S ''Merge recommendation (use this exact line): '' @ merge_recommendation verdict @ nl @
          S ''Resolution delta: '' @ (if prose = [] then S ''n/a'' else prose) @ nl @
          S ''Findings layout: use ### This generation and ### Still open on PR markdown '' @
          S ''headings with severity tables (no ### Findings section).'' @ nl @
          S ''Include security <details> block: '' @
          (if list_ex (\<lambda>g. fg_category g = Cat_security) pr_active then S ''yes'' else S ''no'') @ nl @
          S ''Include important files changed <details> table when findings exist.'' @ nl @
          S ''This-generation active findings JSON: '' @ dumps (findings_payload (fc_groups ctx)) @ nl @
          S ''PR-wide still-open findings JSON: '' @ dumps (findings_payload verdict) @ nl @
          S ''Generation active count: '' @ nat_digits (length generation_active) @ S ''; PR active count: '' @
          nat_digits (length pr_active) @ nl @
          S ''Revision note: when revision_number is 1, PR active count equals generation count '' @
          S ''(no prior push); both tables must list the same rows.'' @
          (case fc_rollup ctx of
             None \<Rightarrow> []
           | Some rollup \<Rightarrow>
               nl @ S ''PR lifetime rollup JSON (deterministic formatter owns the full ### PR summary block; '' @
               S ''Moonshot must not emit scan tables or <details> for lifetime '' @ MDASH @ S '' heading stub at most):'' @ nl @
               dumps (JObj rollup) @ nl @
               S ''Do not omit ### PR summary (lifetime) when review_count > 1 or raised_count > 0.''))))"

definition LLM_ISSUE_COMMENT_JSON_KEYS :: "pystr list" where
  "LLM_ISSUE_COMMENT_JSON_KEYS =
     [S ''body'', S ''comment'', S ''markdown'', S ''content'', S ''review_comment'', S ''issue_comment'']"

definition braced :: "pystr \<Rightarrow> bool" where
  "braced t \<longleftrightarrow> py_startswith t (S ''{'') \<and> py_endswith t (S ''}'')"

definition looks_like_json_wrapper :: "(pystr \<Rightarrow> json option) \<Rightarrow> pystr \<Rightarrow> bool" where
  "looks_like_json_wrapper loads t \<longleftrightarrow>
     braced (py_strip t) \<and>
     (case loads (py_strip t) of
        Some (JObj payload) \<Rightarrow> list_ex (\<lambda>k. json_get k payload \<noteq> None) LLM_ISSUE_COMMENT_JSON_KEYS
      | _ \<Rightarrow> False)"

text \<open>The content of a fence around the whole of a stripped text, stripped; the tag \<open>json\<close> is left out.\<close>

definition json_fence :: "pystr \<Rightarrow> pystr option" where
  "json_fence t =
     (let fence = [96, 96, 96]; inner = take (length t - 6) (drop 3 t);
          tagged = 4 \<le> length inner \<and> list_all2 ci (S ''json'') (take 4 inner)
      in if py_startswith t fence \<and> py_endswith t fence \<and> 6 \<le> length t
         then Some (py_strip (if tagged then drop 4 inner else inner)) else None)"

fun first_text :: "(pystr \<times> json) list \<Rightarrow> pystr list \<Rightarrow> pystr option" where
  "first_text payload [] = None"
| "first_text payload (k # ks) =
     (case json_get k payload of
        Some (JStr v) \<Rightarrow> if py_strip v = [] then first_text payload ks else Some (py_strip v)
      | _ \<Rightarrow> first_text payload ks)"

definition normalize_llm_issue_comment :: "(pystr \<Rightarrow> json option) \<Rightarrow> pystr \<Rightarrow> pystr option" where
  "normalize_llm_issue_comment loads raw =
     (let stripped = py_strip raw; t = opt_or (json_fence stripped) stripped in
      if stripped = [] then None
      else if braced t then
        (case loads t of
           None \<Rightarrow> Some stripped
         | Some (JObj payload) \<Rightarrow> first_text payload LLM_ISSUE_COMMENT_JSON_KEYS
         | Some _ \<Rightarrow> Some stripped)
      else Some stripped)"

definition confidence_rationale_snippet :: "pystr \<Rightarrow> pystr" where
  "confidence_rationale_snippet normalized =
     (let lower = py_lower normalized in
      case py_find (S ''confidence'') lower of
        None \<Rightarrow> lower
      | Some i \<Rightarrow>
          let tail = drop i lower
          in case List.find (\<lambda>m. case py_find m tail of Some e \<Rightarrow> 0 < e | None \<Rightarrow> False)
                 [[10] @ S ''### '', [10] @ S ''<details>'', [10] @ S ''---''] of
               Some m \<Rightarrow> take (opt_or (py_find m tail) 0) tail
             | None \<Rightarrow> take 400 tail)"

definition has_confidence_rationale_in_comment :: "pystr \<Rightarrow> bool" where
  "has_confidence_rationale_in_comment normalized \<longleftrightarrow>
     (let snippet = confidence_rationale_snippet normalized in
      py_contains snippet (S ''score is'') \<or> py_contains snippet (S ''confidence is'') \<or>
      (py_contains snippet (S ''because'') \<and> py_contains snippet (S ''/'')) \<or>
      py_contains snippet (S ''rationale''))"

definition issue_comment_meets_product_bar :: "format_env \<Rightarrow> pystr \<Rightarrow> format_ctx \<Rightarrow> exn + bool" where
  "issue_comment_meets_product_bar env t ctx =
     (let normalized = py_strip t; has = (\<lambda>p. py_contains normalized p); rollup = opt_or (fc_rollup ctx) [] in
      if \<not> py_startswith normalized COMMENT_HEADING then Inr False
      else if \<not> has (S ''**Confidence'') \<and> \<not> has (S ''Confidence score'') then Inr False
      else if active_groups (verdict_groups ctx) = [] then Inr True
      else
        rbind (int_or_0 (fm_unicode env) rollup (S ''review_count'')) (\<lambda>review_count.
        rbind (int_or_0 (fm_unicode env) rollup (S ''raised_count'')) (\<lambda>raised_count.
          Inr (if (1 < review_count \<or> 0 < raised_count) \<and> \<not> has (S ''### PR summary'') then False
               else if has (S ''### Findings'') \<and> \<not> has (S ''### This generation'') then False
               else has (S ''### This generation'') \<and> has (S ''### Still open on PR'') \<and>
                 has (S ''| Severity | Category | Title | File |'') \<and> has (S ''**Merge recommendation:**'') \<and>
                 has_confidence_rationale_in_comment normalized))))"

definition insert_resolution_metrics_block :: "format_env \<Rightarrow> pystr \<Rightarrow> format_ctx \<Rightarrow> exn + pystr" where
  "insert_resolution_metrics_block env t ctx =
     rbind (resolution_metrics_block env ctx) (\<lambda>metrics.
       let block = opt_or metrics [] in
       if block = [] \<or> py_contains t block then Inr t
       else case List.find (\<lambda>m. py_contains t m)
           [S ''### Files needing attention'', S ''### This generation'', S ''### Still open on PR'', S ''### Findings'',
            S ''<details>'', S ''---'' @ [10] @ S ''*Review metadata''] of
         Some m \<Rightarrow> let i = opt_or (py_find m t) 0 in Inr (py_rstrip (take i t) @ [10, 10] @ block @ [10, 10] @ drop i t)
       | None \<Rightarrow> Inr (t @ [10, 10] @ block))"

text \<open>\<open>except (httpx.HTTPError, ValueError, OSError, ServiceUnavailableError)\<close>.\<close>

fun llm_failure :: "exn \<Rightarrow> bool" where
  "llm_failure Os_error = True"
| "llm_failure e = (is_http_error e \<or> is_value_error e \<or> is_platform ServiceUnavailableError e)"

text \<open>The body of the \<open>try\<close>: \<open>None\<close> where the answer cannot be used.\<close>

definition llm_comment :: "format_env \<Rightarrow> exn + pystr \<Rightarrow> format_ctx \<Rightarrow> exn + pystr option" where
  "llm_comment env answer ctx =
     rbind answer (\<lambda>raw.
       case normalize_llm_issue_comment (fm_json env) raw of
         None \<Rightarrow> Inr None
       | Some t \<Rightarrow>
           if t = [] \<or> looks_like_json_wrapper (fm_json env) t then Inr None
           else
             rbind (issue_comment_meets_product_bar env t ctx) (\<lambda>ok.
             if \<not> ok then Inr None
             else
               let t = splice_deterministic_findings_tables env t ctx in
               rbind (splice_deterministic_pr_summary_block env t ctx) (\<lambda>t.
               rbind (append_review_metadata_footer env t ctx) (\<lambda>t.
                 let footer = index_footer ctx;
                     t = (if footer \<noteq> [] \<and> \<not> py_contains t footer then t @ [10, 10] @ footer else t)
                 in rbind (insert_resolution_metrics_block env t ctx) (\<lambda>t. Inr (Some t))))))"

definition build_pr_review_comment_with_model ::
  "format_env \<Rightarrow> format_ctx \<Rightarrow> exn + pystr \<times> pystr option \<times> pystr option" where
  "build_pr_review_comment_with_model env ctx =
     rbind (build_pr_review_comment_fallback env ctx) (\<lambda>fallback.
       case fm_llm env of
         None \<Rightarrow> Inr (fallback, None, None)
       | Some llm \<Rightarrow>
           rbind (build_issue_comment_user_prompt env ctx) (\<lambda>prompt.
             if fm_provider env \<notin> {S ''moonshot'', S ''rtu''} then Inr (fallback, None, None)
             else case llm_comment env (llm prompt) ctx of
               Inr (Some t) \<Rightarrow>
                 Inr (t, if fc_pipeline_run_id ctx \<noteq> None \<and> fc_review_run_id ctx \<noteq> None
                         then (Some (fm_provider env), Some (fm_model env)) else (None, None))
             | Inr None \<Rightarrow> Inr (fallback, None, None)
             | Inl e \<Rightarrow> if llm_failure e then Inr (fallback, None, None) else Inl e))"

definition build_publish_format_result :: "format_env \<Rightarrow> format_ctx \<Rightarrow> exn + publish_format_result" where
  "build_publish_format_result env ctx =
     rbind (build_check_run_summary env ctx) (\<lambda>check_summary.
     rbind (build_pr_review_comment_fallback env ctx) (\<lambda>issue_comment.
     rbind (build_summary_json env ctx) (\<lambda>summary_json.
       Inr \<lparr>pf_check_summary = check_summary, pf_issue_comment = issue_comment,
            pf_confidence = compute_publish_confidence ctx, pf_summary_json = summary_json,
            pf_provider = None, pf_model = None\<rparr>)))"

definition build_publish_format_result_async :: "format_env \<Rightarrow> format_ctx \<Rightarrow> exn + publish_format_result" where
  "build_publish_format_result_async env ctx =
     rbind (build_check_run_summary env ctx) (\<lambda>check_summary.
     rbind (build_pr_review_comment_with_model env ctx) (\<lambda>(issue_comment, provider, model).
     rbind (build_summary_json env ctx) (\<lambda>summary_json.
       Inr \<lparr>pf_check_summary = check_summary, pf_issue_comment = issue_comment,
            pf_confidence = compute_publish_confidence ctx, pf_summary_json = summary_json,
            pf_provider = provider, pf_model = model\<rparr>)))"

end
