(* ===== verification/Publish_Flush.thy ===== *)
theory Publish_Flush
  imports Inline_Posts Publish_Comment Closure Review_Run
begin

section \<open>Flushing a publish to GitHub (\<open>services/github_publish.py\<close>)\<close>

text \<open>
  The state of a publish is the session, the session as of the last commit, and the number of times the run
  and the pull request were read again.  Between two such readings other transactions may commit; what they
  did by the \<open>n\<close>-th reading is the parameter \<open>pe_others n\<close>.  The requests go through \<open>ce_send\<close>; the
  installation token is requested once at the start (\<open>pe_auth\<close>).  \<open>pe_str\<close> is \<open>str(exc)\<close>.  The elements
  of a Python set are visited in the order of the list that models it.
\<close>

record pub =
  pb_s :: session
  pb_committed :: session
  pb_readings :: nat

record pub_env =
  pe_check :: check_env
  pe_auth :: "(check_call \<times> bool) list \<Rightarrow> int \<Rightarrow> exn + unit"
  pe_gh :: gh
  pe_format :: format_env
  pe_others :: "nat \<Rightarrow> session \<Rightarrow> session"
  pe_duration :: int
  pe_str :: "exn \<Rightarrow> pystr"

definition on_session :: "(session, 'a) eff \<Rightarrow> (pub, 'a) eff" where
  "on_session m = on_part pb_s (\<lambda>s p. p\<lparr>pb_s := s\<rparr>) m"

definition call_e :: "(session \<Rightarrow> session \<times> (exn + 'a)) \<Rightarrow> (pub, 'a) eff" where
  "call_e m = on_session (total_e m)"

definition write_s :: "(session \<Rightarrow> session) \<Rightarrow> (pub, unit) eff" where
  "write_s f = upd_e (\<lambda>p. p\<lparr>pb_s := f (pb_s p)\<rparr>)"

definition read_s :: "(session \<Rightarrow> 'a) \<Rightarrow> (pub, 'a) eff" where
  "read_s f = read_e (\<lambda>p. f (pb_s p))"

text \<open>Writing attributes of the job, and reading them.\<close>

definition set_job :: "uuid \<Rightarrow> (publish_job \<Rightarrow> publish_job) \<Rightarrow> session \<Rightarrow> session" where
  "set_job k f s = (case get_publish_job s k of None \<Rightarrow> s | Some j \<Rightarrow> put_publish_job (f j) s)"

definition with_job :: "uuid \<Rightarrow> (publish_job \<Rightarrow> (pub, 'a) eff) \<Rightarrow> (pub, 'a) eff" where
  "with_job k f =
     bind_e (read_s (\<lambda>s. get_publish_job s k)) (\<lambda>j.
       case j of Some j \<Rightarrow> f j | None \<Rightarrow> raise_e (Value_error (S ''publish job row is gone'')))"

definition commit_e :: "(pub, unit) eff" where
  "commit_e = upd_e (\<lambda>p. p\<lparr>pb_committed := pb_s p\<rparr>)"

subsection \<open>The gate\<close>

definition SKIP_PUBLISH_NEUTRAL_SUMMARY :: pystr where
  "SKIP_PUBLISH_NEUTRAL_SUMMARY = S ''Superseded by newer commit''"

definition skip_manifest_key :: "publish_job_status \<Rightarrow> pystr option" where
  "skip_manifest_key st =
     (case st of PJ_skipped_not_head \<Rightarrow> Some (S ''publish_skipped_not_head'')
      | PJ_skipped_superseded \<Rightarrow> Some (S ''publish_skipped_superseded'') | _ \<Rightarrow> None)"

definition skip_publish_job_at_gate :: "pub_env \<Rightarrow> uuid \<Rightarrow> publish_job_status \<Rightarrow> (pub, unit) eff" where
  "skip_publish_job_at_gate env k skip_status =
     with_job k (\<lambda>job.
       bind_e (write_s (set_job k (\<lambda>j. j\<lparr>pj_status := skip_status, pj_error_message := None\<rparr>))) (\<lambda>_.
       bind_e (case skip_manifest_key skip_status of
                 Some key \<Rightarrow> write_s (\<lambda>s. record_publish_skip_on_pipeline s (pj_review_run_id job) key)
               | None \<Rightarrow> ret ()) (\<lambda>_.
       bind_e (read_s (\<lambda>s. get_pipeline_run_for_review_run s (pj_review_run_id job))) (\<lambda>p.
         case p of
           None \<Rightarrow> ret ()
         | Some p \<Rightarrow> call_e (\<lambda>s. finalize_pipeline_github_check_neutral (pe_check env) s (pl_id p)
                       SKIP_PUBLISH_NEUTRAL_SUMMARY)))))"

text \<open>Whether the job may no longer publish, by its run and the head of its pull request.\<close>

definition publish_gate :: "session \<Rightarrow> uuid \<Rightarrow> uuid \<Rightarrow> publish_job \<Rightarrow> exn + publish_job_status option" where
  "publish_gate s run_id pr job =
     (case (get_review_run s run_id, get_pull_request s pr) of
        (Some run, Some p) \<Rightarrow>
          Inr (if is_review_run_superseded run then Some PJ_skipped_superseded
               else if pj_head_sha job \<noteq> pr_head_sha p then Some PJ_skipped_not_head else None)
      | _ \<Rightarrow> Inl (Value_error (S ''could not refresh instance'')))"

text \<open>\<open>session.refresh\<close> of the run and of the pull request.\<close>

definition refresh_e :: "pub_env \<Rightarrow> (pub, unit) eff" where
  "refresh_e env = upd_e (\<lambda>p. p\<lparr>pb_s := pe_others env (pb_readings p) (pb_s p), pb_readings := Suc (pb_readings p)\<rparr>)"

definition recheck_publish_authority_before_flush :: "pub_env \<Rightarrow> uuid \<Rightarrow> uuid \<Rightarrow> uuid \<Rightarrow> (pub, bool) eff" where
  "recheck_publish_authority_before_flush env k run_id pr =
     bind_e (refresh_e env) (\<lambda>_.
     with_job k (\<lambda>job.
     bind_e (read_s (\<lambda>s. publish_gate s run_id pr job)) (\<lambda>gate.
     bind_e (of_result gate) (\<lambda>skip.
       case skip of
         None \<Rightarrow> ret False
       | Some st \<Rightarrow> bind_e (skip_publish_job_at_gate env k st) (\<lambda>_. ret True)))))"

subsection \<open>What is flushed\<close>

record surface_build =
  sb_check_summary :: pystr
  sb_issue_comment :: pystr
  sb_conclusion :: pystr
  sb_summary_json :: "(pystr \<times> json) list"
  sb_inline_threads :: "(pystr \<times> int) list"
  sb_prior_v2 :: "(pystr \<times> json) list"
  sb_inline_posts :: "inline_post list"
  sb_post_inline :: bool
  sb_is_update_from_other :: bool
  sb_existing_check :: "int option"
  sb_existing_comment :: "int option"
  sb_existing_inline_posted :: bool
  sb_external_id :: pystr
  sb_owner :: pystr
  sb_repo :: pystr
  sb_format_ctx :: "format_ctx option"
  sb_publishable :: "pystr list"
  sb_prior_collapsed :: "pystr list"
  sb_provider :: "pystr option"
  sb_model :: "pystr option"

text \<open>The job, its run, its pull request and the installation of a flush.\<close>

record flush_ids =
  fx_job :: uuid
  fx_run :: uuid
  fx_pr :: uuid
  fx_inst :: int
  fx_number :: int

subsection \<open>Taking a partial flush back\<close>

definition neutralize_github_check_after_partial_flush :: "pub_env \<Rightarrow> flush_ids \<Rightarrow> surface_build \<Rightarrow> (pub, unit) eff" where
  "neutralize_github_check_after_partial_flush env ids b =
     with_job (fx_job ids) (\<lambda>job.
       case pj_github_check_run_id job of
         None \<Rightarrow> ret ()
       | Some c \<Rightarrow> call_e (\<lambda>s. update_check_run (pe_check env) s (fx_inst ids) (sb_owner b) (sb_repo b) c
                     (S ''neutral'') SKIP_PUBLISH_NEUTRAL_SUMMARY))"

definition neutralize_github_issue_comment_after_partial_flush ::
  "pub_env \<Rightarrow> flush_ids \<Rightarrow> surface_build \<Rightarrow> (pub, unit) eff" where
  "neutralize_github_issue_comment_after_partial_flush env ids b =
     with_job (fx_job ids) (\<lambda>job.
       case pj_github_comment_id job of
         None \<Rightarrow> ret ()
       | Some c \<Rightarrow> call_e (update_issue_comment (pe_check env) (fx_inst ids) (sb_owner b) (sb_repo b) c
                     SKIP_PUBLISH_NEUTRAL_SUMMARY))"

text \<open>\<open>except (httpx.HTTPError, ServiceUnavailableError)\<close> with a log line.\<close>

definition http_or_unavailable :: "exn \<Rightarrow> bool" where
  "http_or_unavailable e \<longleftrightarrow> is_http_error e \<or> is_platform ServiceUnavailableError e"

definition best_effort :: "(pub, unit) eff \<Rightarrow> (pub, unit) eff" where
  "best_effort m = catch_e m (\<lambda>e. if http_or_unavailable e then ret () else raise_e e)"

fun each_e :: "('a \<Rightarrow> ('s, unit) eff) \<Rightarrow> 'a list \<Rightarrow> ('s, unit) eff" where
  "each_e f [] = ret ()"
| "each_e f (x # xs) = bind_e (f x) (\<lambda>_. each_e f xs)"

definition best_effort_revert_partial_flush_surface ::
  "pub_env \<Rightarrow> flush_ids \<Rightarrow> surface_build \<Rightarrow> bool \<Rightarrow> bool \<Rightarrow> int list \<Rightarrow> (pub, unit) eff" where
  "best_effort_revert_partial_flush_surface env ids b check_written comment_written inline_comment_ids =
     bind_e (if check_written then best_effort (neutralize_github_check_after_partial_flush env ids b) else ret ()) (\<lambda>_.
     bind_e (if comment_written then best_effort (neutralize_github_issue_comment_after_partial_flush env ids b)
             else ret ()) (\<lambda>_.
       each_e (\<lambda>c. best_effort (call_e (delete_pull_request_review_comment (pe_check env) (fx_inst ids)
         (sb_owner b) (sb_repo b) c))) inline_comment_ids))"

subsection \<open>Collapsing threads\<close>

definition resolve_review_thread_with_retry :: "pub_env \<Rightarrow> int \<Rightarrow> pystr \<Rightarrow> (pub, unit) eff" where
  "resolve_review_thread_with_retry env inst thread_id =
     (let resolve = call_e (resolve_review_thread (fm_other (pe_format env)) (pe_check env) inst thread_id)
      in catch_e resolve (\<lambda>e. if is_retryable_immediate_mutation_error e then resolve else raise_e e))"

record stale_state =
  st_skipped :: "(pystr \<times> nat) list"
  st_closed :: "pystr list"
  st_threads :: "(pystr \<times> int) list"

definition THREAD_RESOLVE_SKIP_REASONS :: "pystr list" where
  "THREAD_RESOLVE_SKIP_REASONS =
     [S ''already_resolved'', S ''thread_id_not_found'', S ''resolve_mutation_failed'', S ''thread_not_revy_owned'']"

definition empty_thread_resolve_skipped :: "(pystr \<times> nat) list" where
  "empty_thread_resolve_skipped = map (\<lambda>r. (r, 0)) THREAD_RESOLVE_SKIP_REASONS"

definition increment_thread_resolve_skip :: "pystr \<Rightarrow> (pystr \<times> nat) list \<Rightarrow> (pystr \<times> nat) list" where
  "increment_thread_resolve_skip reason skipped = AList.update reason (Suc (opt_or (map_of skipped reason) 0)) skipped"

definition skip_resolve :: "pystr \<Rightarrow> stale_state \<Rightarrow> stale_state" where
  "skip_resolve reason st = st\<lparr>st_skipped := increment_thread_resolve_skip reason (st_skipped st)\<rparr>"

definition close_thread :: "pystr \<Rightarrow> stale_state \<Rightarrow> stale_state" where
  "close_thread fp st = st\<lparr>st_threads := AList.delete fp (st_threads st), st_closed := st_closed st @ [fp]\<rparr>"

text \<open>\<open>except (httpx.HTTPError, RateLimitedError, ServiceUnavailableError)\<close>.\<close>

definition resolve_failure :: "exn \<Rightarrow> bool" where
  "resolve_failure e \<longleftrightarrow> http_or_unavailable e \<or> is_platform RateLimitedError e"

definition resolve_stale_thread ::
  "pub_env \<Rightarrow> flush_ids \<Rightarrow> pystr \<Rightarrow> pystr \<Rightarrow> review_thread_index \<Rightarrow> pystr \<Rightarrow> stale_state \<Rightarrow> (pub, stale_state) eff" where
  "resolve_stale_thread env ids owner repo ti fp st =
     (case map_of (st_threads st) fp of
        None \<Rightarrow> ret st
      | Some comment_id \<Rightarrow>
          if comment_id \<in> set (ti_resolved ti) then ret (close_thread fp st)
          else
            catch_e
              (bind_e (case map_of (ti_threads ti) comment_id of
                         Some t \<Rightarrow> ret (Some t)
                       | None \<Rightarrow> on_session (find_review_thread_id_for_comment (pe_check env) (fx_inst ids) owner repo
                                   (fx_number ids) comment_id (Some (ti_threads ti)))) (\<lambda>thread_id.
                 case thread_id of
                   None \<Rightarrow> ret (skip_resolve (S ''thread_id_not_found'') st)
                 | Some t \<Rightarrow> bind_e (resolve_review_thread_with_retry env (fx_inst ids) t) (\<lambda>_. ret (close_thread fp st))))
              (\<lambda>e. if resolve_failure e then ret (skip_resolve (S ''resolve_mutation_failed'') st) else raise_e e))"

fun resolve_threads ::
  "pub_env \<Rightarrow> flush_ids \<Rightarrow> pystr \<Rightarrow> pystr \<Rightarrow> review_thread_index \<Rightarrow> pystr list \<Rightarrow> stale_state \<Rightarrow> (pub, stale_state) eff" where
  "resolve_threads env ids owner repo ti [] st = ret st"
| "resolve_threads env ids owner repo ti (fp # fps) st =
     bind_e (resolve_stale_thread env ids owner repo ti fp st) (\<lambda>st. resolve_threads env ids owner repo ti fps st)"

definition resolve_stale_inline_threads ::
  "pub_env \<Rightarrow> flush_ids \<Rightarrow> surface_build \<Rightarrow> (pystr \<times> int) list \<Rightarrow> review_thread_index \<Rightarrow> (pub, stale_state) eff" where
  "resolve_stale_inline_threads env ids b inline_threads ti =
     (let st = \<lparr>st_skipped = empty_thread_resolve_skipped, st_closed = [], st_threads = inline_threads\<rparr> in
      if inline_threads = [] then ret st
      else
        bind_e (read_s (\<lambda>s. fingerprints_to_resolve_inline_threads (fm_unicode (pe_format env)) s (fx_pr ids)
                  inline_threads (ti_outdated ti) (sb_publishable b))) (\<lambda>fps.
          resolve_threads env ids (sb_owner b) (sb_repo b) ti fps st))"

subsection \<open>Closing the groups of collapsed threads\<close>

definition close_active_groups_for_fingerprints ::
  "pub_env \<Rightarrow> uuid \<Rightarrow> uuid \<Rightarrow> uuid \<Rightarrow> pystr list \<Rightarrow> session \<Rightarrow> session \<times> (exn + nat)" where
  "close_active_groups_for_fingerprints env pr rv run_id fingerprints s =
     (let ids = List.map_filter (parse_group_id_key (fm_unicode (pe_format env))) fingerprints in
      if ids = [] then (s, Inr 0)
      else case get_revision s rv of
        None \<Rightarrow> (s, Inr 0)
      | Some revision \<Rightarrow>
          let bound = bound_group_ids_this_run s rv;
              counts = run_finding_counts s run_id;
              scope = (\<lambda>g. fg_pull_request_id g = pr \<and> fg_id g \<in> set ids \<and> fg_state g = Grp_active);
              paths = dedupe (filter (\<lambda>p. p \<noteq> []) (map (\<lambda>g. path_or_empty (fg_file_path g)) (filter scope (ss_groups s))))
          in case resolve_absent_paths (pe_gh env) s revision paths of
               Inl e \<Rightarrow> (s, Inl e)
             | Inr gone \<Rightarrow>
                 let closes = (\<lambda>g. scope g \<and> pass2_closes bound counts gone g)
                 in (s\<lparr>ss_groups := tbl_map closes (close_absent rv) (ss_groups s)\<rparr>, Inr (count_if closes (ss_groups s))))"

subsection \<open>The texts of a flush\<close>

definition job_summary :: "publish_job \<Rightarrow> (pystr \<times> json) list" where
  "job_summary j = (case pj_summary_json j of Some (JObj ms) \<Rightarrow> ms | _ \<Rightarrow> [])"

text \<open>\<open>job.summary_json = {**(job.summary_json or {}), **entries}\<close>.\<close>

definition add_summary :: "uuid \<Rightarrow> (pystr \<times> json) list \<Rightarrow> session \<Rightarrow> session" where
  "add_summary k entries s =
     set_job k (\<lambda>j. j\<lparr>pj_summary_json := Some (JObj (updates entries (job_summary j)))\<rparr>) s"

definition build_pr_resolution_rollup_manifest ::
  "pub_env \<Rightarrow> session \<Rightarrow> format_ctx \<Rightarrow> uuid \<Rightarrow> uuid \<Rightarrow> finding_group list \<Rightarrow> pystr list \<Rightarrow> pystr list \<Rightarrow> exn + rollup" where
  "build_pr_resolution_rollup_manifest env s ctx pr rv raw publishable collapsed =
     build_pr_resolution_rollup (fm_unicode (pe_format env)) ctx (load_pr_groups_for_rollup s pr)
       (review_count_for_in_flight_publish s pr) rv raw (set publishable) (set collapsed)
       (load_prior_revision_ids_by_resolve_revision s pr)"

record surfaces =
  sf_check :: pystr
  sf_issue :: pystr
  sf_collapsed_json :: "(pystr \<times> json) list"
  sf_rollup :: "(pystr \<times> json) list option"

definition effective_collapsed :: "surface_build \<Rightarrow> stale_state \<Rightarrow> pystr list" where
  "effective_collapsed b st = dedupe (sb_prior_collapsed b @ st_closed st)"

definition collapse_surfaces :: "pub_env \<Rightarrow> surface_build \<Rightarrow> stale_state \<Rightarrow> exn + surfaces" where
  "collapse_surfaces env b st =
     (let unchanged = Inr \<lparr>sf_check = sb_check_summary b, sf_issue = sb_issue_comment b, sf_collapsed_json = [],
            sf_rollup = None\<rparr>
      in rbind (case sb_format_ctx b of
           None \<Rightarrow> unchanged
         | Some ctx \<Rightarrow>
             if st_closed st = [] then unchanged
             else rbind (apply_publish_summary_thread_collapse (pe_format env) (sb_check_summary b) (sb_issue_comment b)
                 ctx (set (sb_publishable b)) (set (effective_collapsed b st))) (\<lambda>r.
               Inr \<lparr>sf_check = pf_check_summary r, sf_issue = pf_issue_comment r,
                    sf_collapsed_json = pf_summary_json r, sf_rollup = None\<rparr>)) (\<lambda>sf.
         Inr (if list_ex (\<lambda>(r, n). 0 < n) (st_skipped st)
              then sf\<lparr>sf_check := append_thread_resolve_skipped_block (sf_check sf) (st_skipped st),
                      sf_issue := append_thread_resolve_skipped_block (sf_issue sf) (st_skipped st)\<rparr>
              else sf)))"

text \<open>The lifetime summary is computed again, over the groups that are open now.\<close>

definition rollup_surfaces ::
  "pub_env \<Rightarrow> uuid \<Rightarrow> uuid \<Rightarrow> surface_build \<Rightarrow> stale_state \<Rightarrow> surfaces \<Rightarrow> session \<Rightarrow> exn + surfaces" where
  "rollup_surfaces env pr rv b st sf s =
     (case sb_format_ctx b of
        None \<Rightarrow> Inr sf
      | Some ctx \<Rightarrow>
          let raw = load_pr_active_groups s pr;
              collapsed = effective_collapsed b st;
              ctx = (if collapsed = [] then ctx
                else ctx\<lparr>fc_pr_active := Some (filter_pr_active_groups_for_summary raw (set (sb_publishable b))
                       (set collapsed) (Some (generation_ids ctx)) (fc_ever_inlined ctx))\<rparr>)
          in rbind (build_pr_resolution_rollup_manifest env s ctx pr rv raw (sb_publishable b) collapsed) (\<lambda>r.
             rbind (apply_rollup_to_publish_surfaces (pe_format env) (sf_check sf) (sf_issue sf)
               (ctx\<lparr>fc_rollup := Some (rollup_json r)\<rparr>)) (\<lambda>(check, issue).
               Inr (sf\<lparr>sf_check := check, sf_issue := issue, sf_rollup := Some (rollup_json r)\<rparr>))))"

definition threads_json :: "(pystr \<times> json) list \<Rightarrow> json" where
  "threads_json threads = JObj threads"

definition counts_json :: "(pystr \<times> nat) list \<Rightarrow> json" where
  "counts_json counts = JObj (map (\<lambda>(k, n). (k, JInt (int n))) counts)"

subsection \<open>Writing the check run and the comment\<close>

definition write_check :: "pub_env \<Rightarrow> flush_ids \<Rightarrow> surface_build \<Rightarrow> pystr \<Rightarrow> (pub, unit) eff" where
  "write_check env ids b summary =
     with_job (fx_job ids) (\<lambda>job.
       let patch = (\<lambda>c. call_e (\<lambda>s. update_check_run (pe_check env) s (fx_inst ids) (sb_owner b) (sb_repo b) c
             (sb_conclusion b) summary));
           set_check = (\<lambda>c. write_s (set_job (fx_job ids) (\<lambda>j. j\<lparr>pj_github_check_run_id := Some c\<rparr>)))
       in case pj_github_check_run_id job of
            Some c \<Rightarrow> patch c
          | None \<Rightarrow>
              (case (sb_is_update_from_other b, sb_existing_check b) of
                 (True, Some c) \<Rightarrow> bind_e (set_check c) (\<lambda>_. patch c)
               | _ \<Rightarrow> bind_e (call_e (\<lambda>s. create_check_run (pe_check env) s (fx_inst ids) (sb_owner b) (sb_repo b)
                       (pj_head_sha job) (sb_external_id b) (S ''completed'') (sb_conclusion b) summary)) set_check))"

definition write_issue_comment :: "pub_env \<Rightarrow> flush_ids \<Rightarrow> surface_build \<Rightarrow> pystr \<Rightarrow> (pub, unit) eff" where
  "write_issue_comment env ids b body =
     with_job (fx_job ids) (\<lambda>job.
       let patch = (\<lambda>c. call_e (update_issue_comment (pe_check env) (fx_inst ids) (sb_owner b) (sb_repo b) c body));
           set_comment = (\<lambda>c. write_s (set_job (fx_job ids) (\<lambda>j. j\<lparr>pj_github_comment_id := Some c\<rparr>)))
       in case pj_github_comment_id job of
            Some c \<Rightarrow> patch c
          | None \<Rightarrow>
              (case (sb_is_update_from_other b, sb_existing_comment b) of
                 (True, Some c) \<Rightarrow> bind_e (set_comment c) (\<lambda>_. patch c)
               | _ \<Rightarrow> bind_e (call_e (create_issue_comment (pe_check env) (fx_inst ids) (sb_owner b) (sb_repo b)
                       (fx_number ids) body)) set_comment))"

subsection \<open>Posting the inline comments\<close>

record post_state =
  po_threads :: "(pystr \<times> int) list"
  po_thread_ids :: "(pystr \<times> pystr) list"
  po_written :: "int list"
  po_recovered_count :: nat
  po_recovered :: "pystr list"

text \<open>The map is written with the thread ids of the entry it replaces, or of the earlier publishes.\<close>

definition save_threads :: "uuid \<Rightarrow> surface_build \<Rightarrow> post_state \<Rightarrow> session \<Rightarrow> session" where
  "save_threads k b st s =
     (case get_publish_job s k of
        None \<Rightarrow> s
      | Some job \<Rightarrow>
          let prior = (case json_get (S ''github_inline_threads'') (job_summary job) of
                Some (JObj ms) \<Rightarrow> ms | _ \<Rightarrow> sb_prior_v2 b)
          in add_summary k [(S ''github_inline_threads'',
               threads_json (serialize_inline_thread_map (po_threads st) prior (po_thread_ids st)))] s)"

definition pystr_sort :: "pystr list \<Rightarrow> pystr list" where
  "pystr_sort xs = sort xs"

definition recovered_entry :: "pystr list \<Rightarrow> pystr \<times> json" where
  "recovered_entry fps = (RECOVERED_KEY, JArr (map JStr (pystr_sort fps)))"

text \<open>What is remembered of one post: a finding that could not be placed goes to the issue comment; a posted
  comment is stored and committed at once.\<close>

definition after_post ::
  "flush_ids \<Rightarrow> surface_build \<Rightarrow> (int \<times> pystr) list \<Rightarrow> inline_post \<Rightarrow> post_state \<Rightarrow> inline_result \<Rightarrow>
     (pub, post_state option) eff" where
  "after_post ids b thread_index p st r =
     (case r of
        Recovered status \<Rightarrow>
          let recovered = List.insert (ip_group_fingerprint p) (po_recovered st)
          in bind_e (write_s (add_summary (fx_job ids) [recovered_entry recovered])) (\<lambda>_.
               ret (Some (st\<lparr>po_recovered_count := Suc (po_recovered_count st), po_recovered := recovered\<rparr>)))
      | Posted c \<Rightarrow>
          let fp = ip_group_fingerprint p;
              st = st\<lparr>po_threads := AList.update fp c (po_threads st), po_written := po_written st @ [c],
                po_thread_ids := (case map_of thread_index c of
                   Some t \<Rightarrow> if t = [] then po_thread_ids st else AList.update fp t (po_thread_ids st)
                 | None \<Rightarrow> po_thread_ids st)\<rparr>
          in bind_e (write_s (save_threads (fx_job ids) b st)) (\<lambda>_.
             bind_e commit_e (\<lambda>_. ret (Some st))))"

text \<open>One post: \<open>None\<close> when the job lost its authority and the flush was taken back.\<close>

definition post_one ::
  "pub_env \<Rightarrow> flush_ids \<Rightarrow> surface_build \<Rightarrow> (int \<times> pystr) list \<Rightarrow> inline_post \<Rightarrow> post_state \<Rightarrow>
     (pub, post_state option) eff" where
  "post_one env ids b thread_index p st =
     bind_e (recheck_publish_authority_before_flush env (fx_job ids) (fx_run ids) (fx_pr ids)) (\<lambda>skip.
       if skip then
         bind_e (best_effort_revert_partial_flush_surface env ids b True True (po_written st)) (\<lambda>_. ret None)
       else
         with_job (fx_job ids) (\<lambda>job.
         bind_e (call_e (create_inline_review_comment_with_422_retry (pe_check env) (fx_inst ids) (sb_owner b) (sb_repo b)
           (fx_number ids) (pj_head_sha job) p)) (after_post ids b thread_index p st)))"

fun post_inline_comments ::
  "pub_env \<Rightarrow> flush_ids \<Rightarrow> surface_build \<Rightarrow> (int \<times> pystr) list \<Rightarrow> (pystr \<times> int) list \<Rightarrow> inline_post list \<Rightarrow> post_state \<Rightarrow>
     (pub, post_state option) eff" where
  "post_inline_comments env ids b thread_index retry_posted [] st = ret (Some st)"
| "post_inline_comments env ids b thread_index retry_posted (p # ps) st =
     (case map_of retry_posted (ip_group_fingerprint p) of
        Some c \<Rightarrow> post_inline_comments env ids b thread_index retry_posted ps
          (st\<lparr>po_threads := AList.update (ip_group_fingerprint p) c (po_threads st)\<rparr>)
      | None \<Rightarrow>
          if ip_group_fingerprint p \<in> set (po_recovered st)
          then post_inline_comments env ids b thread_index retry_posted ps st
          else bind_e (post_one env ids b thread_index p st) (\<lambda>st'.
            case st' of None \<Rightarrow> ret None
            | Some st \<Rightarrow> post_inline_comments env ids b thread_index retry_posted ps st))"

definition append_recovered_inline_422_blocks_to_issue_comment ::
  "pub_env \<Rightarrow> flush_ids \<Rightarrow> surface_build \<Rightarrow> pystr \<Rightarrow> pystr list \<Rightarrow> (pub, pystr) eff" where
  "append_recovered_inline_422_blocks_to_issue_comment env ids b body recovered =
     (case append_missing_inline_422_fallback_blocks body
             (inline_422_fallback_blocks_for_specs (sb_inline_posts b) recovered) of
        None \<Rightarrow> ret body
      | Some updated \<Rightarrow>
          with_job (fx_job ids) (\<lambda>job.
            let set_comment = (\<lambda>c. write_s (set_job (fx_job ids) (\<lambda>j. j\<lparr>pj_github_comment_id := Some c\<rparr>)))
            in case (case pj_github_comment_id job of Some c \<Rightarrow> Some c | None \<Rightarrow> sb_existing_comment b) of
              None \<Rightarrow>
                bind_e (call_e (create_issue_comment (pe_check env) (fx_inst ids) (sb_owner b) (sb_repo b) (fx_number ids)
                  updated)) (\<lambda>c. bind_e (set_comment c) (\<lambda>_. ret updated))
            | Some c \<Rightarrow>
                bind_e (call_e (update_issue_comment (pe_check env) (fx_inst ids) (sb_owner b) (sb_repo b) c updated)) (\<lambda>_.
                bind_e (if pj_github_comment_id job = None then set_comment c else ret ()) (\<lambda>_. ret updated))))"

text \<open>After the posts: the fallback blocks, the counters, and whether every finding was shown.\<close>

definition finish_inline ::
  "pub_env \<Rightarrow> flush_ids \<Rightarrow> surface_build \<Rightarrow> pystr \<Rightarrow> post_state \<Rightarrow> (pub, pystr) eff" where
  "finish_inline env ids b body st =
     bind_e (if po_recovered st \<noteq> [] \<and> sb_inline_posts b \<noteq> []
             then append_recovered_inline_422_blocks_to_issue_comment env ids b body (po_recovered st) else ret body) (\<lambda>body.
     bind_e (if 0 < po_recovered_count st
             then write_s (add_summary (fx_job ids)
               [(RECOVERED_COUNT_KEY, JInt (int (po_recovered_count st))), recovered_entry (po_recovered st)])
             else ret ()) (\<lambda>_.
     bind_e (write_s (set_job (fx_job ids) (\<lambda>j. j\<lparr>pj_inline_comments_posted :=
         list_all (\<lambda>p. ip_group_fingerprint p \<in> set (map fst (po_threads st)) \<or>
           ip_group_fingerprint p \<in> set (po_recovered st)) (sb_inline_posts b)\<rparr>))) (\<lambda>_.
     bind_e (if po_thread_ids st \<noteq> [] then write_s (save_threads (fx_job ids) b st) else ret ()) (\<lambda>_.
       ret body))))"

subsection \<open>The flush\<close>

datatype flush_result =
    Flush_skipped
  | Flushed pystr pystr "(pystr \<times> json) list option"

definition unless_skipped ::
  "pub_env \<Rightarrow> flush_ids \<Rightarrow> (pub, unit) eff \<Rightarrow> (pub, flush_result) eff \<Rightarrow> (pub, flush_result) eff" where
  "unless_skipped env ids undo rest =
     bind_e (recheck_publish_authority_before_flush env (fx_job ids) (fx_run ids) (fx_pr ids)) (\<lambda>skip.
       if skip then bind_e undo (\<lambda>_. ret Flush_skipped) else rest)"

text \<open>From the inline comments to the end.\<close>

definition flush_posts ::
  "pub_env \<Rightarrow> flush_ids \<Rightarrow> surface_build \<Rightarrow> bool \<Rightarrow> review_thread_index \<Rightarrow> (pystr \<times> int) list \<Rightarrow> stale_state \<Rightarrow> surfaces \<Rightarrow>
     (pub, flush_result) eff" where
  "flush_posts env ids b persist ti retry_posted st sf =
     bind_e (if sb_post_inline b then
         with_job (fx_job ids) (\<lambda>job.
         bind_e (post_inline_comments env ids b (ti_threads ti) retry_posted (sb_inline_posts b)
           \<lparr>po_threads = st_threads st, po_thread_ids = [], po_written = [], po_recovered_count = 0,
            po_recovered = load_inline_422_recovered_fingerprints (pj_summary_json job)\<rparr>) (\<lambda>posted.
           case posted of
             None \<Rightarrow> ret None
           | Some po \<Rightarrow> bind_e (finish_inline env ids b (sf_issue sf) po) (\<lambda>body. ret (Some body))))
       else ret (Some (sf_issue sf))) (\<lambda>body.
     case body of
       None \<Rightarrow> ret Flush_skipped
     | Some body \<Rightarrow>
         with_job (fx_job ids) (\<lambda>job.
         bind_e (if st_closed st = [] then ret 0
                 else call_e (close_active_groups_for_fingerprints env (fx_pr ids) (pj_revision_id job)
                   (pj_review_run_id job) (st_closed st))) (\<lambda>closed.
         bind_e (write_s (add_summary (fx_job ids)
           [(COLLAPSED_KEY, JArr (map JStr (pystr_sort (effective_collapsed b st))))])) (\<lambda>_.
         bind_e (if persist then commit_e else ret ()) (\<lambda>_.
           ret (Flushed (sf_check sf) body (sf_rollup sf)))))))"

text \<open>The check run and the comment, then a commit, with the authority read again before and after.\<close>

definition flush_content ::
  "pub_env \<Rightarrow> flush_ids \<Rightarrow> surface_build \<Rightarrow> bool \<Rightarrow> review_thread_index \<Rightarrow> (pystr \<times> int) list \<Rightarrow> stale_state \<Rightarrow> surfaces \<Rightarrow>
     (pub, flush_result) eff" where
  "flush_content env ids b persist ti retry_posted st sf =
     (let revert = best_effort_revert_partial_flush_surface env ids b True True [] in
      bind_e (write_check env ids b (sf_check sf)) (\<lambda>_.
      bind_e (write_issue_comment env ids b (sf_issue sf)) (\<lambda>_.
      unless_skipped env ids revert
        (bind_e commit_e (\<lambda>_.
         unless_skipped env ids revert (flush_posts env ids b persist ti retry_posted st sf))))))"

text \<open>The summary of the job before anything is written to GitHub but the resolved threads.\<close>

definition record_threads ::
  "uuid \<Rightarrow> surface_build \<Rightarrow> review_thread_index \<Rightarrow> stale_state \<Rightarrow> surfaces \<Rightarrow> session \<Rightarrow> session" where
  "record_threads k b ti st sf =
     add_summary k (sf_collapsed_json sf @
       [(S ''github_inline_threads'', threads_json (serialize_inline_thread_map (st_threads st) (sb_prior_v2 b)
           (fingerprint_thread_ids_from_index (st_threads st) (ti_threads ti)))),
        (S ''thread_resolve_skipped'', counts_json (st_skipped st))])"

definition flush_threads ::
  "pub_env \<Rightarrow> flush_ids \<Rightarrow> surface_build \<Rightarrow> bool \<Rightarrow> review_thread_index \<Rightarrow> (pystr \<times> int) list \<Rightarrow> (pystr \<times> int) list \<Rightarrow>
     (pub, flush_result) eff" where
  "flush_threads env ids b persist ti retry_posted inline_threads =
     bind_e (resolve_stale_inline_threads env ids b inline_threads ti) (\<lambda>st.
     bind_e (of_result (collapse_surfaces env b st)) (\<lambda>sf.
     with_job (fx_job ids) (\<lambda>job.
     bind_e (read_s (rollup_surfaces env (fx_pr ids) (pj_revision_id job) b st sf)) (\<lambda>r.
     bind_e (of_result r) (\<lambda>sf.
     bind_e (write_s (record_threads (fx_job ids) b ti st sf)) (\<lambda>_.
       unless_skipped env ids (ret ()) (flush_content env ids b persist ti retry_posted st sf)))))))"

definition no_threads :: review_thread_index where
  "no_threads = \<lparr>ti_threads = [], ti_outdated = [], ti_resolved = []\<rparr>"

definition flush_publish_surface ::
  "pub_env \<Rightarrow> flush_ids \<Rightarrow> surface_build \<Rightarrow> bool \<Rightarrow> (pystr \<times> int) list \<Rightarrow> (pub, flush_result) eff" where
  "flush_publish_surface env ids b persist retry_posted_inline =
     bind_e (read_s (\<lambda>s. rekey_inline_thread_map_to_group_ids (fm_unicode (pe_format env)) s (fx_pr ids)
       retry_posted_inline)) (\<lambda>retry_posted.
       let inline_threads = updates retry_posted (sb_inline_threads b) in
       unless_skipped env ids (ret ())
         (bind_e (read_s (\<lambda>s. pe_auth env (ss_checks s) (fx_inst ids))) (\<lambda>auth.
          bind_e (of_result auth) (\<lambda>_.
          bind_e (if inline_threads = [] then ret no_threads
                  else on_session (build_review_thread_index (pe_check env) (fx_inst ids) (sb_owner b) (sb_repo b)
                    (fx_number ids))) (\<lambda>ti.
            unless_skipped env ids (ret ()) (flush_threads env ids b persist ti retry_posted inline_threads))))))"

end
