(* ===== verification/Publish_Job.thy ===== *)
theory Publish_Job
  imports Publish_Flush
begin

section \<open>Publish jobs (\<open>services/github_publish.py\<close>, \<open>workers/publish_tasks.py\<close>)\<close>

text \<open>
  A completed review run gets one publish job at a time.  \<open>run_publish_job\<close> checks that the run is still the
  one for the head of its pull request, builds the texts, flushes them and settles the job; the task around
  it commits, rolls back and runs again after a transient failure.
\<close>

definition OPEN_PUBLISH_JOB_STATUSES :: "publish_job_status list" where
  "OPEN_PUBLISH_JOB_STATUSES = [PJ_pending, PJ_processing]"

definition TERMINAL_PUBLISH_JOB_STATUSES :: "publish_job_status list" where
  "TERMINAL_PUBLISH_JOB_STATUSES = [PJ_completed, PJ_failed, PJ_skipped_not_head, PJ_skipped_superseded]"

definition PUBLISH_SURFACE_REUSE_STATUSES :: "publish_job_status list" where
  "PUBLISH_SURFACE_REUSE_STATUSES = [PJ_completed, PJ_skipped_not_head, PJ_skipped_superseded]"

subsection \<open>Lookups\<close>

definition is_open_job_of :: "uuid \<Rightarrow> publish_job \<Rightarrow> bool" where
  "is_open_job_of run_id j \<longleftrightarrow> pj_review_run_id j = run_id \<and> pj_status j \<in> set OPEN_PUBLISH_JOB_STATUSES"

definition open_publish_job :: "session \<Rightarrow> uuid \<Rightarrow> uuid option" where
  "open_publish_job s run_id = map_option pj_id (List.find (is_open_job_of run_id) (ss_publish_jobs s))"

definition get_latest_publish_job_for_revision :: "session \<Rightarrow> uuid \<Rightarrow> uuid \<Rightarrow> publish_job option" where
  "get_latest_publish_job_for_revision s ws rv =
     latest_by pj_created_at (\<lambda>j. pj_workspace_id j = ws \<and> pj_revision_id j = rv) (ss_publish_jobs s)"

definition find_publish_job_for_head_sha :: "session \<Rightarrow> uuid \<Rightarrow> pystr \<Rightarrow> publish_job option" where
  "find_publish_job_for_head_sha s pr head =
     latest_by pj_created_at (\<lambda>j. pj_revision_id j \<in> set (pull_request_revision_ids s pr) \<and> pj_head_sha j = head \<and>
       pj_github_check_run_id j \<noteq> None \<and> pj_status j \<in> set PUBLISH_SURFACE_REUSE_STATUSES) (ss_publish_jobs s)"

definition find_prior_issue_comment_id_for_pull_request :: "session \<Rightarrow> uuid \<Rightarrow> uuid option \<Rightarrow> int option" where
  "find_prior_issue_comment_id_for_pull_request s pr exclude =
     Option.bind (latest_by pj_created_at (\<lambda>j. pj_revision_id j \<in> set (pull_request_revision_ids s pr) \<and>
         pj_github_comment_id j \<noteq> None \<and> pj_status j \<in> set PUBLISH_SURFACE_REUSE_STATUSES \<and> exclude \<noteq> Some (pj_id j))
       (ss_publish_jobs s)) pj_github_comment_id"

subsection \<open>Creating a job\<close>

definition new_publish_job :: "session \<Rightarrow> uuid \<Rightarrow> uuid \<Rightarrow> uuid \<Rightarrow> pystr \<Rightarrow> publish_job" where
  "new_publish_job s run_id rv ws head =
     \<lparr>pj_id = next_uuid s, pj_review_run_id = run_id, pj_revision_id = rv, pj_workspace_id = ws, pj_head_sha = head,
      pj_status = PJ_pending, pj_github_check_run_id = None, pj_github_comment_id = None,
      pj_inline_comments_posted = False, pj_summary_json = None, pj_error_message = None,
      pj_created_at = next_time s\<rparr>"

definition add_publish_job :: "publish_job \<Rightarrow> session \<Rightarrow> session" where
  "add_publish_job j s = tick (s\<lparr>ss_publish_jobs := tbl_add j (ss_publish_jobs s)\<rparr>)"

definition create_publish_job_for_review_run :: "session \<Rightarrow> uuid \<Rightarrow> session \<times> uuid option" where
  "create_publish_job_for_review_run s run_id =
     (case get_review_run s run_id of
        None \<Rightarrow> (s, None)
      | Some run \<Rightarrow>
          if rr_status run \<noteq> RR_completed then (s, None)
          else if open_publish_job s run_id \<noteq> None then (s, None)
          else case get_revision s (rr_revision_id run) of
            None \<Rightarrow> (s, None)
          | Some rv \<Rightarrow>
              let job = new_publish_job s run_id (rr_revision_id run) (rr_workspace_id run) (rev_head_sha rv);
                  s = add_publish_job job s
              in case get_pipeline_run_for_review_run s run_id of
                   None \<Rightarrow> (s, Some (pj_id job))
                 | Some p \<Rightarrow>
                     let s = link_publish_job_to_pipeline s p (pj_id job);
                         s = (case resolve_pipeline_github_check_run_id s (pl_id p) of
                                None \<Rightarrow> s
                              | Some c \<Rightarrow> set_job (pj_id job) (\<lambda>j. j\<lparr>pj_github_check_run_id := Some c\<rparr>) s)
                     in (s, Some (pj_id job)))"

text \<open>The job to dispatch and whether it was created now.\<close>

definition resolve_publish_job_id_for_review_run :: "session \<Rightarrow> uuid \<Rightarrow> session \<times> (uuid option \<times> bool)" where
  "resolve_publish_job_id_for_review_run s run_id =
     (case create_publish_job_for_review_run s run_id of
        (s, Some k) \<Rightarrow> (s, (Some k, True))
      | (s, None) \<Rightarrow> (s, (open_publish_job s run_id, False)))"

definition create_publish_job ::
  "bool \<Rightarrow> session \<Rightarrow> uuid \<Rightarrow> uuid \<Rightarrow> uuid \<Rightarrow> uuid \<Rightarrow> uuid option \<Rightarrow> exn + session \<times> publish_job" where
  "create_publish_job api_enabled s ws repo pr rv review_run_id =
     (let required = raise_platform ConflictError (S ''Completed review run required before publish'')
            (Some (S ''review_required''))
      in if \<not> api_enabled then Inl (raise_platform ServiceUnavailableError (S ''GitHub App API is not configured'')
             (Some (S ''github_api_disabled'')))
         else
           rbind (ensure_revision_access s ws repo pr rv) (\<lambda>_.
           rbind (case review_run_id of
               None \<Rightarrow> (case get_latest_completed_review_run s ws rv of
                   None \<Rightarrow> Inl required | Some run \<Rightarrow> Inr (rr_id run))
             | Some k \<Rightarrow> (case get_review_run s k of
                   None \<Rightarrow> Inl required
                 | Some run \<Rightarrow> if rr_status run \<noteq> RR_completed then Inl required else Inr k)) (\<lambda>run_id.
             case get_revision s rv of
               None \<Rightarrow> Inl (raise_platform NotFoundError (S ''Pull request revision not found'') None)
             | Some revision \<Rightarrow>
                 (case open_publish_job s run_id of
                    Some k \<Rightarrow>
                      (case get_publish_job s k of
                         Some existing \<Rightarrow> Inr (s, existing)
                       | None \<Rightarrow> Inl (raise_platform ConflictError
                           (S ''Publish is already in progress for this review run'') (Some (S ''publish_in_progress''))))
                  | None \<Rightarrow>
                      let job = new_publish_job s run_id rv ws (rev_head_sha revision)
                      in Inr (add_publish_job job s, job)))))"

definition mark_publish_job_failed :: "uuid \<Rightarrow> pystr \<Rightarrow> session \<Rightarrow> session" where
  "mark_publish_job_failed k message s =
     (case get_publish_job s k of
        None \<Rightarrow> s
      | Some j \<Rightarrow>
          if pj_status j \<in> set OPEN_PUBLISH_JOB_STATUSES
          then set_job k (\<lambda>j. j\<lparr>pj_status := PJ_failed, pj_error_message := Some (take 2000 message)\<rparr>) s else s)"

subsection \<open>Building the surface\<close>

definition has_outcome :: "session \<Rightarrow> uuid \<Rightarrow> uuid \<Rightarrow> bool" where
  "has_outcome s run_id gid \<longleftrightarrow> list_ex (\<lambda>o'. jo_review_run_id o' = run_id \<and> jo_group_id o' = gid) (ss_outcomes s)"

definition inline_post_of :: "session \<Rightarrow> uuid \<Rightarrow> finding \<Rightarrow> inline_post option" where
  "inline_post_of s run_id f =
     (case (fi_file_path f, fi_start_line f, Option.bind (fi_group_id f) (get_group s)) of
        (Some path, Some line, Some g) \<Rightarrow>
          if is_judge_candidate (fi_severity f) (fi_category f) \<and> \<not> has_outcome s run_id (fg_id g) \<and>
             fg_state g \<noteq> Grp_resolved
          then None
          else Some \<lparr>ip_finding_id = fi_id f, ip_group_id = fg_id g, ip_group_fingerprint = group_identity_key g,
            ip_file_path = path, ip_start_line = line, ip_title = fi_title f, ip_message = fi_message f,
            ip_severity = severity_value (fi_severity f), ip_suggestion = is_publishable_suggestion f\<rparr>
      | _ \<Rightarrow> None)"

definition inline_posts_of_run :: "session \<Rightarrow> uuid \<Rightarrow> inline_post list" where
  "inline_posts_of_run s run_id =
     List.map_filter (inline_post_of s run_id)
       (sort_key (\<lambda>f. (opt_or (fi_file_path f) [], opt_or (fi_start_line f) 0, fi_id f))
         (inline_publish_findings s run_id))"

text \<open>What the texts are made from.\<close>

definition publish_format_ctx :: "pub_env \<Rightarrow> session \<Rightarrow> publish_job \<Rightarrow> revision \<Rightarrow> pull_request \<Rightarrow> format_ctx" where
  "publish_format_ctx env s job revision pr =
     (let u = fm_unicode (pe_format env); run_id = pj_review_run_id job;
          groups = publishable_groups_for_review_run s run_id (pr_id pr);
          prior_jobs = fetch_prior_reusable_publish_jobs s (pr_id pr);
          prior_collapsed = rekey_identity_keys_to_group_ids u s (pr_id pr)
            (load_prior_collapsed_inline_fingerprints (fm_other (pe_format env)) prior_jobs (pj_summary_json job));
          ever_inlined = set (rekey_identity_keys_to_group_ids u s (pr_id pr)
            (load_ever_inlined_fingerprints prior_jobs (pj_summary_json job)));
          index_job = get_latest_completed_index_job s (pj_workspace_id job) (pj_revision_id job)
      in \<lparr>fc_pull_request_id = pr_id pr, fc_pull_request_number = pr_number pr, fc_head_sha = pj_head_sha job,
          fc_revision_number = rev_number revision, fc_groups = groups,
          fc_index_mode = map_option ij_index_mode index_job,
          fc_fallback_reason = Option.bind index_job ij_fallback_reason,
          fc_metrics = get_resolution_metrics_for_review_run s run_id,
          fc_pr_active = Some (filter_pr_active_groups_for_summary (load_pr_active_groups s (pr_id pr))
            (set (publishable_fingerprints_for_run s run_id (pr_id pr))) (set prior_collapsed)
            (Some (set (map group_identity_key groups))) (Some ever_inlined)),
          fc_ever_inlined = Some ever_inlined, fc_rollup = None,
          fc_pipeline_run_id = map_option pl_id (get_pipeline_run_for_review_run s run_id),
          fc_review_run_id = Some run_id\<rparr>)"

definition is_update_from_other :: "publish_job \<Rightarrow> publish_job option \<Rightarrow> bool" where
  "is_update_from_other job existing =
     (case existing of
        None \<Rightarrow> False
      | Some e \<Rightarrow> pj_github_check_run_id job = None \<and> pj_id e \<noteq> pj_id job \<and> pj_github_check_run_id e \<noteq> None)"

text \<open>The build after the texts; a comment of an earlier push is reused.\<close>

definition finish_build ::
  "pub_env \<Rightarrow> publish_job \<Rightarrow> pull_request \<Rightarrow> repository \<Rightarrow> installation \<Rightarrow> format_ctx \<Rightarrow> publish_format_result \<Rightarrow>
     session \<Rightarrow> session \<times> (exn + surface_build)" where
  "finish_build env job pr repo inst ctx formatted s =
     (let u = fm_unicode (pe_format env); run_id = pj_review_run_id job;
          prior_jobs = fetch_prior_reusable_publish_jobs s (pr_id pr);
          inline_threads = rekey_inline_thread_map_to_group_ids u s (pr_id pr) (load_inline_thread_map prior_jobs);
          prior_v2 = rekey_v2_inline_map_to_group_ids u s (pr_id pr) (load_v2_inline_thread_map prior_jobs);
          prior_collapsed = rekey_identity_keys_to_group_ids u s (pr_id pr)
            (load_prior_collapsed_inline_fingerprints (fm_other (pe_format env)) prior_jobs (pj_summary_json job));
          existing = find_publish_job_for_head_sha s (pr_id pr) (pj_head_sha job);
          from_other = is_update_from_other job existing;
          existing_posted = (case existing of Some e \<Rightarrow> pj_inline_comments_posted e | None \<Rightarrow> False);
          post_inline = (\<not> pj_inline_comments_posted job \<and> (\<not> from_other \<or> \<not> existing_posted));
          s = (if pj_github_comment_id job = None
               then (case find_prior_issue_comment_id_for_pull_request s (pr_id pr) (Some (pj_id job)) of
                       None \<Rightarrow> s
                     | Some c \<Rightarrow> set_job (pj_id job) (\<lambda>j. j\<lparr>pj_github_comment_id := Some c\<rparr>) s)
               else s)
      in (s, rbind (split_full_name (repo_full_name repo)) (\<lambda>(owner, name).
           Inr \<lparr>sb_check_summary = pf_check_summary formatted, sb_issue_comment = pf_issue_comment formatted,
             sb_conclusion = compute_check_conclusion (fc_groups ctx),
             sb_summary_json = updates [(S ''github_inline_threads'',
               threads_json (serialize_inline_thread_map inline_threads prior_v2 []))] (pf_summary_json formatted),
             sb_inline_threads = inline_threads, sb_prior_v2 = prior_v2,
             sb_inline_posts = (if post_inline then inline_posts_of_run s run_id else []),
             sb_post_inline = post_inline, sb_is_update_from_other = from_other,
             sb_existing_check = Option.bind existing pj_github_check_run_id,
             sb_existing_comment = Option.bind existing pj_github_comment_id,
             sb_existing_inline_posted = existing_posted,
             sb_external_id = build_check_run_external_id (inst_github_installation_id inst) (pr_number pr) (pj_head_sha job),
             sb_owner = owner, sb_repo = name, sb_format_ctx = Some ctx,
             sb_publishable = publishable_fingerprints_for_run s run_id (pr_id pr),
             sb_prior_collapsed = prior_collapsed, sb_provider = pf_provider formatted, sb_model = pf_model formatted\<rparr>)))"

definition build_publish_surface ::
  "pub_env \<Rightarrow> uuid \<Rightarrow> revision \<Rightarrow> pull_request \<Rightarrow> repository \<Rightarrow> installation \<Rightarrow> (pub, surface_build) eff" where
  "build_publish_surface env k revision pr repo inst =
     with_job k (\<lambda>job.
     bind_e (read_s (\<lambda>s. publish_format_ctx env s job revision pr)) (\<lambda>ctx.
     bind_e (of_result (build_publish_format_result_async (pe_format env) ctx)) (\<lambda>formatted.
       call_e (finish_build env job pr repo inst ctx formatted))))"

subsection \<open>Running a job\<close>

definition fail_job :: "uuid \<Rightarrow> pystr \<Rightarrow> session \<Rightarrow> session" where
  "fail_job k message = set_job k (\<lambda>j. j\<lparr>pj_status := PJ_failed, pj_error_message := Some message\<rparr>)"

definition nonempty_or :: "pystr option \<Rightarrow> pystr \<Rightarrow> pystr" where
  "nonempty_or t d = (case t of Some (c # cs) \<Rightarrow> c # cs | _ \<Rightarrow> d)"

definition record_publish ::
  "pub_env \<Rightarrow> uuid \<Rightarrow> (publish_job \<Rightarrow> pystr) \<Rightarrow> pystr option \<Rightarrow> pystr option \<Rightarrow> pystr option \<Rightarrow>
     (pipeline_run \<Rightarrow> publish_job \<Rightarrow> (pub, unit) eff) \<Rightarrow> (pub, unit) eff" where
  "record_publish env k summary issue provider model then_do =
     with_job k (\<lambda>job.
     bind_e (read_s (\<lambda>s. get_pipeline_run_for_review_run s (pj_review_run_id job))) (\<lambda>p.
       case p of
         None \<Rightarrow> ret ()
       | Some p \<Rightarrow>
           bind_e (write_s (\<lambda>s. record_publish_pipeline_step s (pl_id p) job (summary job) (pe_duration env) issue
             provider model)) (\<lambda>_. then_do p job)))"

text \<open>\<open>flush_result.published_... or build...\<close>.\<close>

definition or_text :: "pystr \<Rightarrow> pystr \<Rightarrow> pystr" where
  "or_text t d = (if t = [] then d else t)"

definition complete_publish ::
  "pub_env \<Rightarrow> uuid \<Rightarrow> uuid \<Rightarrow> surface_build \<Rightarrow> pystr \<Rightarrow> pystr \<Rightarrow> (pystr \<times> json) list option \<Rightarrow> (pub, unit) eff" where
  "complete_publish env k pr b check issue rollup =
     bind_e (case rollup of
               None \<Rightarrow> ret ()
             | Some r \<Rightarrow> write_s (\<lambda>s.
                 let s = add_summary k [(S ''pr_resolution_rollup'', JObj r)] s
                 in s\<lparr>ss_pull_requests := tbl_map (\<lambda>p. pr_id p = pr) (\<lambda>p. p\<lparr>pr_resolution_rollup := Some (JObj r)\<rparr>)
                        (ss_pull_requests s)\<rparr>)) (\<lambda>_.
     bind_e (write_s (set_job k (\<lambda>j. j\<lparr>pj_status := PJ_completed\<rparr>))) (\<lambda>_.
       record_publish env k (\<lambda>_. or_text check (sb_check_summary b)) (Some (or_text issue (sb_issue_comment b)))
         (sb_provider b) (sb_model b) (\<lambda>_ _. ret ())))"

text \<open>The body of the \<open>try\<close>.\<close>

definition publish_body ::
  "pub_env \<Rightarrow> bool \<Rightarrow> flush_ids \<Rightarrow> revision \<Rightarrow> pull_request \<Rightarrow> repository \<Rightarrow> installation \<Rightarrow> (pystr \<times> int) list \<Rightarrow>
     (pub, unit) eff" where
  "publish_body env persist ids revision pr repo inst retry_posted =
     (let k = fx_job ids; other = fm_other (pe_format env) in
      bind_e (build_publish_surface env k revision pr repo inst) (\<lambda>b.
      bind_e (write_s (set_job k (\<lambda>j. j\<lparr>pj_summary_json := Some (JObj (updates
          [(COLLAPSED_KEY, JArr (map JStr (pystr_sort (dedupe
             (collapsed_inline_fingerprints_from_summary other (pj_summary_json j))))))] (sb_summary_json b)))\<rparr>))) (\<lambda>_.
      bind_e (recheck_publish_authority_before_flush env k (fx_run ids) (fx_pr ids)) (\<lambda>skip.
        if skip then ret ()
        else
          bind_e (flush_publish_surface env ids b persist retry_posted) (\<lambda>r.
            case r of
              Flush_skipped \<Rightarrow> ret ()
            | Flushed check issue rollup \<Rightarrow> complete_publish env k (fx_pr ids) b check issue rollup)))))"

text \<open>\<open>except (httpx.HTTPError, ServiceUnavailableError)\<close>: a skip stands, a transient failure is raised again
  for the task to retry, any other fails the job.\<close>

definition publish_failed :: "pub_env \<Rightarrow> uuid \<Rightarrow> exn \<Rightarrow> (pub, unit) eff" where
  "publish_failed env k e =
     with_job k (\<lambda>job.
       if pj_status job = PJ_skipped_not_head \<or> pj_status job = PJ_skipped_superseded then ret ()
       else if classify_transient_error e then raise_e e
       else
         bind_e (if pj_status job \<notin> set TERMINAL_PUBLISH_JOB_STATUSES
                 then write_s (fail_job k (take 2000 (pe_str env e))) else ret ()) (\<lambda>_.
           record_publish env k (\<lambda>j. nonempty_or (pj_error_message j) (S ''Publish failed'')) None None None
             (\<lambda>p j. call_e (\<lambda>s. finalize_pipeline_github_check_failure (pe_check env) s (pl_id p)
                (opt_or (pj_error_message j) [])))))"

definition publish_guarded ::
  "pub_env \<Rightarrow> bool \<Rightarrow> flush_ids \<Rightarrow> revision \<Rightarrow> pull_request \<Rightarrow> repository \<Rightarrow> installation \<Rightarrow> (pystr \<times> int) list \<Rightarrow>
     (pub, unit) eff" where
  "publish_guarded env persist ids revision pr repo inst retry_posted =
     catch_e (publish_body env persist ids revision pr repo inst retry_posted)
       (\<lambda>e. if http_or_unavailable e then publish_failed env (fx_job ids) e else raise_e e)"

definition run_publish_job :: "pub_env \<Rightarrow> uuid \<Rightarrow> bool \<Rightarrow> (pub, unit) eff" where
  "run_publish_job env k persist =
     bind_e (read_s (\<lambda>s. get_publish_job s k)) (\<lambda>found.
       case found of
         None \<Rightarrow> raise_e (raise_platform NotFoundError (S ''Publish job not found'') None)
       | Some job \<Rightarrow>
           if pj_status job \<in> set TERMINAL_PUBLISH_JOB_STATUSES then ret ()
           else
             bind_e (read_s (\<lambda>s. (get_review_run s (pj_review_run_id job), get_revision s (pj_revision_id job)))) (\<lambda>rows.
               case rows of
                 (Some run, Some revision) \<Rightarrow>
                   bind_e (read_s (\<lambda>s. get_pull_request s (rev_pull_request_id revision))) (\<lambda>pr.
                     case pr of
                       None \<Rightarrow> write_s (fail_job k (S ''pull_request_context_not_found''))
                     | Some pr \<Rightarrow>
                         if is_review_run_superseded run then skip_publish_job_at_gate env k PJ_skipped_superseded
                         else if pj_head_sha job \<noteq> pr_head_sha pr then skip_publish_job_at_gate env k PJ_skipped_not_head
                         else
                           bind_e (read_s (\<lambda>s. (get_repository s (pr_repository_id pr),
                             get_installation s (pr_installation_id pr)))) (\<lambda>context.
                             case context of
                               (Some repo, Some inst) \<Rightarrow>
                                 bind_e (write_s (set_job k (\<lambda>j. j\<lparr>pj_status := PJ_processing, pj_error_message := None\<rparr>)))
                                   (\<lambda>_.
                                 bind_e (read_s (\<lambda>s. rekey_inline_thread_map_to_group_ids (fm_unicode (pe_format env)) s
                                     (pr_id pr) (deserialize_inline_thread_map
                                       (summary_member (pj_summary_json job) (S ''github_inline_threads''))))) (\<lambda>retry_posted.
                                   publish_guarded env persist
                                     \<lparr>fx_job = k, fx_run = rr_id run, fx_pr = pr_id pr,
                                      fx_inst = inst_github_installation_id inst, fx_number = pr_number pr\<rparr>
                                     revision pr repo inst retry_posted))
                             | _ \<Rightarrow> write_s (fail_job k (S ''pull_request_context_not_found''))))
               | _ \<Rightarrow> write_s (fail_job k (S ''review_run_or_revision_not_found''))))"

end
