(* ===== verification/Publish_Task.thy ===== *)
theory Publish_Task
  imports Publish_Job
begin

section \<open>The publish task (\<open>workers/publish_tasks.py\<close>, \<open>workers/task_retries.py\<close>)\<close>

text \<open>
  A task attempt runs the job in one database context, in which it sees what others committed before: it commits at the end, an exception rolls back to the
  last commit (requests sent to GitHub stay sent, identifiers drawn stay drawn).  A transient exception runs
  the task again, at most three times; any other marks the job failed in a context of its own, concludes the
  check run, and leaves the task.
\<close>

definition roll_back_e :: "pub \<Rightarrow> pub" where
  "roll_back_e p = p\<lparr>pb_s := (pb_committed p)\<lparr>ss_checks := ss_checks (pb_s p), ss_created := ss_created (pb_s p)\<rparr>\<rparr>"

text \<open>\<open>get_db_context\<close>: commit after the body, roll back on an exception.\<close>

definition in_context :: "(pub, 'a) eff \<Rightarrow> (pub, 'a) eff" where
  "in_context m = (\<lambda>p.
     case m p of
       None \<Rightarrow> None
     | Some (p, Inr x) \<Rightarrow> Some (p\<lparr>pb_committed := pb_s p\<rparr>, Inr x)
     | Some (p, Inl e) \<Rightarrow> Some (roll_back_e p, Inl e))"

definition execute_publish_review_run :: "pub_env \<Rightarrow> uuid \<Rightarrow> (pub, unit) eff" where
  "execute_publish_review_run env k = in_context (bind_e (refresh_e env) (\<lambda>_. run_publish_job env k True))"

definition mark_failed_e :: "pub_env \<Rightarrow> uuid \<Rightarrow> pystr \<Rightarrow> (pub, unit) eff" where
  "mark_failed_e env k message =
     in_context (bind_e (refresh_e env) (\<lambda>_. bind_e (write_s (mark_publish_job_failed k message)) (\<lambda>_.
       call_e (\<lambda>s. finalize_pipeline_github_check_for_publish_job (pe_check env) s k message))))"

definition PUBLISH_MAX_RETRIES :: nat where
  "PUBLISH_MAX_RETRIES = 3"

text \<open>\<open>run_with_retryable_failure\<close>, with the number of retries that are left.\<close>

fun publish_attempts :: "pub_env \<Rightarrow> uuid \<Rightarrow> nat \<Rightarrow> (pub, unit) eff" where
  "publish_attempts env k 0 =
     catch_e (execute_publish_review_run env k)
       (\<lambda>e. bind_e (mark_failed_e env k (pe_str env e)) (\<lambda>_. raise_e e))"
| "publish_attempts env k (Suc n) =
     catch_e (execute_publish_review_run env k)
       (\<lambda>e. if classify_transient_error e then publish_attempts env k n
             else bind_e (mark_failed_e env k (pe_str env e)) (\<lambda>_. raise_e e))"

definition publish_review_run :: "pub_env \<Rightarrow> uuid \<Rightarrow> (pub, unit) eff" where
  "publish_review_run env k = publish_attempts env k PUBLISH_MAX_RETRIES"

text \<open>Run without Celery, when the broker refuses the task: no retry, and a failure to mark the job is
  only logged.\<close>

definition finalize_inline_publish_failure :: "pub_env \<Rightarrow> uuid \<Rightarrow> pystr \<Rightarrow> (pub, unit) eff" where
  "finalize_inline_publish_failure env k message = catch_e (mark_failed_e env k message) (\<lambda>e. ret ())"

definition run_publish_review_run_inline :: "pub_env \<Rightarrow> uuid \<Rightarrow> (pub, unit) eff" where
  "run_publish_review_run_inline env k =
     catch_e (execute_publish_review_run env k) (\<lambda>e. finalize_inline_publish_failure env k (pe_str env e))"

text \<open>The task called directly, outside a worker: there \<open>task.retry\<close> raises the exception it is given.\<close>

definition run_publish_directly :: "pub_env \<Rightarrow> uuid \<Rightarrow> (pub, unit) eff" where
  "run_publish_directly env k =
     catch_e (execute_publish_review_run env k)
       (\<lambda>e. if classify_transient_error e then raise_e e
             else bind_e (mark_failed_e env k (pe_str env e)) (\<lambda>_. raise_e e))"

text \<open>\<open>broker\<close> tells whether the broker accepts the task, in which case it runs later; \<open>in_loop\<close> whether
  an event loop is running, as in a request to the API.\<close>

definition dispatch_publish_review_run :: "pub_env \<Rightarrow> bool \<Rightarrow> bool \<Rightarrow> uuid \<Rightarrow> (pub, unit) eff" where
  "dispatch_publish_review_run env broker in_loop k =
     (if broker then ret ()
      else if in_loop then run_publish_review_run_inline env k
      else run_publish_directly env k)"

text \<open>The task \<open>publish_for_review_run\<close>: find or create the job, commit when it is new, and dispatch it.
  The number of retries left decides whether a failure is final; \<open>broker n\<close> is the answer of the broker
  in the attempt that has \<open>n\<close> retries left.\<close>

definition publish_for_failed ::
  "pub_env \<Rightarrow> uuid option \<Rightarrow> bool \<Rightarrow> (pub, uuid option) eff \<Rightarrow> exn \<Rightarrow> (pub, uuid option) eff" where
  "publish_for_failed env k final again e =
     bind_e (case (final, k) of (True, Some k) \<Rightarrow> mark_failed_e env k (pe_str env e) | _ \<Rightarrow> ret ()) (\<lambda>_.
       if classify_transient_error e \<and> \<not> final then again else raise_e e)"

definition publish_for_attempt ::
  "pub_env \<Rightarrow> bool \<Rightarrow> uuid \<Rightarrow> bool \<Rightarrow> (pub, uuid option) eff \<Rightarrow> (pub, uuid option) eff" where
  "publish_for_attempt env broker run_id final again =
     bind_e (in_context (bind_e (refresh_e env) (\<lambda>_.
       call_e (\<lambda>s. case resolve_publish_job_id_for_review_run s run_id of
         (s, (job_id, created)) \<Rightarrow> (s, Inr job_id))))) (\<lambda>job_id.
       case job_id of
         None \<Rightarrow> ret None
       | Some k \<Rightarrow>
           catch_e (bind_e (dispatch_publish_review_run env broker False k) (\<lambda>_. ret (Some k)))
             (publish_for_failed env (Some k) final again))"

fun publish_for_attempts :: "pub_env \<Rightarrow> (nat \<Rightarrow> bool) \<Rightarrow> uuid \<Rightarrow> nat \<Rightarrow> (pub, uuid option) eff" where
  "publish_for_attempts env broker run_id 0 = publish_for_attempt env (broker 0) run_id True (ret None)"
| "publish_for_attempts env broker run_id (Suc n) =
     publish_for_attempt env (broker (Suc n)) run_id False (publish_for_attempts env broker run_id n)"

definition publish_for_review_run :: "pub_env \<Rightarrow> (nat \<Rightarrow> bool) \<Rightarrow> uuid \<Rightarrow> (pub, uuid option) eff" where
  "publish_for_review_run env broker run_id = publish_for_attempts env broker run_id PUBLISH_MAX_RETRIES"

end
