(* ===== verification/Publish_Laws.thy ===== *)
theory Publish_Laws
  imports Publish_Task
begin

section \<open>What a publish guarantees\<close>

text \<open>
  Rules for the operations on the state of a publish, and the properties of the job: a run returns only a
  settled job, the task leaves none open, a job that lost its authority leaves no content on GitHub, and a
  comment that was posted is remembered before the next request.
\<close>

subsection \<open>Rules\<close>

lemma triple_read_s: "(\<And>p. P p \<Longrightarrow> Q (f (pb_s p)) p) \<Longrightarrow> triple P (read_s f) Q E"
  unfolding read_s_def by (rule triple_read)

lemma triple_write_s: "(\<And>p. P p \<Longrightarrow> Q () (p\<lparr>pb_s := f (pb_s p)\<rparr>)) \<Longrightarrow> triple P (write_s f) Q E"
  unfolding write_s_def by (rule triple_upd)

lemma call_e_Some: "call_e m p = Some (q, r) \<longleftrightarrow> (\<exists>s. m (pb_s p) = (s, r) \<and> q = p\<lparr>pb_s := s\<rparr>)"
  by (cases "m (pb_s p)") (auto simp: call_e_def on_session_def on_part_def total_e_def)

lemma triple_call_e:
  "(\<And>p s x. P p \<Longrightarrow> m (pb_s p) = (s, Inr x) \<Longrightarrow> Q x (p\<lparr>pb_s := s\<rparr>)) \<Longrightarrow>
   (\<And>p s e. P p \<Longrightarrow> m (pb_s p) = (s, Inl e) \<Longrightarrow> E e (p\<lparr>pb_s := s\<rparr>)) \<Longrightarrow> triple P (call_e m) Q E"
  by (rule tripleI) (auto simp: call_e_Some)

lemma triple_with_job:
  "(\<And>j. triple (\<lambda>p. P p \<and> get_publish_job (pb_s p) k = Some j) (f j) Q E) \<Longrightarrow>
   (\<And>e p. P p \<Longrightarrow> E e p) \<Longrightarrow> triple P (with_job k f) Q E"
  unfolding with_job_def
  by (rule triple_bind [OF triple_read_s [where Q = "\<lambda>x p. P p \<and> get_publish_job (pb_s p) k = x"]])
     (auto split: option.split intro: triple_raise)

lemma keeps_read_s [keeps_rules]: "keeps I (read_s f)"
  unfolding read_s_def by (rule keeps_read)

lemma keeps_write_s: "(\<And>p. I p \<Longrightarrow> I (p\<lparr>pb_s := f (pb_s p)\<rparr>)) \<Longrightarrow> keeps I (write_s f)"
  unfolding write_s_def by (rule keeps_upd)

lemma keeps_call_e: "(\<And>p s r. I p \<Longrightarrow> m (pb_s p) = (s, r) \<Longrightarrow> I (p\<lparr>pb_s := s\<rparr>)) \<Longrightarrow> keeps I (call_e m)"
  by (rule keepsI) (auto simp: call_e_Some)

lemma keeps_with_job [keeps_rules]: "(\<And>j. keeps I (f j)) \<Longrightarrow> keeps I (with_job k f)"
  unfolding with_job_def by (intro keeps_rules) auto

lemma keeps_each [keeps_rules]: "(\<And>x. keeps I (f x)) \<Longrightarrow> keeps I (each_e f xs)"
  by (induction xs) (auto intro: keeps_rules)

lemma keeps_best_effort [keeps_rules]: "keeps I m \<Longrightarrow> keeps I (best_effort m)"
  unfolding best_effort_def by (intro keeps_rules) auto

subsection \<open>Requests leave the job alone\<close>

text \<open>Invariants of the jobs in the session only.\<close>

definition of_jobs :: "(publish_job list \<Rightarrow> bool) \<Rightarrow> pub \<Rightarrow> bool" where
  "of_jobs f p \<longleftrightarrow> f (ss_publish_jobs (pb_s p))"

lemma keeps_jobs_call:
  "(\<And>s s' r. m s = (s', r) \<Longrightarrow> ss_publish_jobs s' = ss_publish_jobs s) \<Longrightarrow> keeps (of_jobs f) (call_e m)"
  by (rule keeps_call_e) (auto simp: of_jobs_def)

lemma keeps_jobs_write: "(\<And>s. ss_publish_jobs (g s) = ss_publish_jobs s) \<Longrightarrow> keeps (of_jobs f) (write_s g)"
  by (rule keeps_write_s) (auto simp: of_jobs_def)

lemma only_checks_jobs: "only_checks s s' \<Longrightarrow> ss_publish_jobs s' = ss_publish_jobs s"
  by (auto simp: only_checks_def)

lemma update_check_run_checks: "update_check_run env s i o' r c concl summary = (s', x) \<Longrightarrow> only_checks s s'"
  by (auto simp: update_check_run_def split: prod.splits dest: send_check_session)

lemma create_check_run_checks: "create_check_run env s i o' r h x st concl summary = (s', y) \<Longrightarrow> only_checks s s'"
  by (auto simp: create_check_run_def Let_def split: prod.splits dest: send_check_session)

lemma update_issue_comment_checks: "update_issue_comment env i o' r c body s = (s', x) \<Longrightarrow> only_checks s s'"
  by (auto simp: update_issue_comment_def split: prod.splits dest: send_check_session)

lemma create_issue_comment_checks: "create_issue_comment env i o' r n body s = (s', x) \<Longrightarrow> only_checks s s'"
  by (auto simp: create_issue_comment_def split: prod.splits dest: send_check_session)

lemma delete_comment_checks: "delete_pull_request_review_comment env i o' r c s = (s', x) \<Longrightarrow> only_checks s s'"
  by (auto simp: delete_pull_request_review_comment_def split: prod.splits dest: send_check_session)

lemma snapshot_jobs: "ss_publish_jobs (try_persist_models_snapshot s k) = ss_publish_jobs s"
  by (simp add: try_persist_models_snapshot_def write_models_snapshot_def Let_def put_pipeline_run_def split: option.split)

lemma finalize_jobs:
  "finalize_pipeline_github_check env s k summary conclusion = (s', r) \<Longrightarrow> ss_publish_jobs s' = ss_publish_jobs s"
  by (drule finalize_session) (simp add: only_checks_jobs snapshot_jobs)

lemma add_artifact_jobs: "ss_publish_jobs (add_step_artifact s st kind c j) = ss_publish_jobs s"
  by (simp add: add_step_artifact_def tick_def)

lemma upsert_manifest_jobs: "ss_publish_jobs (upsert_step_manifest s st us) = ss_publish_jobs s"
  by (simp add: upsert_step_manifest_def write_manifest_def put_artifact_def add_artifact_jobs Let_def split: option.split)

lemma create_step_jobs: "create_completed_step s k ty v = (s', st) \<Longrightarrow> ss_publish_jobs s' = ss_publish_jobs s"
  by (auto simp: create_completed_step_def Let_def tick_def)

lemma record_skip_jobs: "ss_publish_jobs (record_publish_skip_on_pipeline s run_id key) = ss_publish_jobs s"
  by (auto simp: record_publish_skip_on_pipeline_def upsert_manifest_jobs split: option.split prod.split dest: create_step_jobs)

lemma record_publish_jobs:
  "ss_publish_jobs (record_publish_pipeline_step s k job summary d issue prov model) = ss_publish_jobs s"
  by (auto simp: record_publish_pipeline_step_def Let_def snapshot_jobs add_artifact_jobs split: prod.split dest: create_step_jobs)

lemma revert_keeps_jobs:
  "keeps (of_jobs f) (best_effort_revert_partial_flush_surface env ids b c1 c2 cs)"
  unfolding best_effort_revert_partial_flush_surface_def neutralize_github_check_after_partial_flush_def
    neutralize_github_issue_comment_after_partial_flush_def
  by (intro keeps_rules keeps_jobs_call)
     (auto dest: update_check_run_checks update_issue_comment_checks delete_comment_checks only_checks_jobs)

subsection \<open>A job that is run is settled\<close>

definition job_settled :: "uuid \<Rightarrow> publish_job list \<Rightarrow> bool" where
  "job_settled k js \<longleftrightarrow> (\<exists>j. tbl_get pj_id k js = Some j \<and> pj_status j \<in> set TERMINAL_PUBLISH_JOB_STATUSES)"

abbreviation settled :: "uuid \<Rightarrow> pub \<Rightarrow> bool" where
  "settled k \<equiv> of_jobs (job_settled k)"

abbreviation anything :: "'x \<Rightarrow> pub \<Rightarrow> bool" where
  "anything \<equiv> \<lambda>_ _. True"

lemma get_set_job:
  "(\<And>j. pj_id (f j) = pj_id j) \<Longrightarrow> get_publish_job (set_job k f s) k = map_option f (get_publish_job s k)"
  by (auto simp: set_job_def get_publish_job_def put_publish_job_def tbl_get_put tbl_keys_def
      dest: tbl_get_rid tbl_get_in split: option.split)

lemma set_job_jobs:
  "ss_publish_jobs (set_job k f s) =
     (case get_publish_job s k of None \<Rightarrow> ss_publish_jobs s | Some j \<Rightarrow> tbl_put pj_id (f j) (ss_publish_jobs s))"
  by (simp add: set_job_def put_publish_job_def split: option.split)

lemma settled_set_job:
  assumes "get_publish_job s k = Some j" and "\<And>j. pj_id (f j) = pj_id j"
    and "pj_status (f j) \<in> set TERMINAL_PUBLISH_JOB_STATUSES"
  shows "job_settled k (ss_publish_jobs (set_job k f s))"
  using get_set_job [of f k s] assms by (simp add: job_settled_def get_publish_job_def)

lemma skip_settles:
  assumes "st \<in> set TERMINAL_PUBLISH_JOB_STATUSES"
  shows "triple (\<lambda>_. True) (skip_publish_job_at_gate env k st) (\<lambda>_. settled k) anything"
proof -
  have "triple (settled k) (bind_e (case skip_manifest_key st of
          Some key \<Rightarrow> write_s (\<lambda>s. record_publish_skip_on_pipeline s (pj_review_run_id job) key) | None \<Rightarrow> ret ()) (\<lambda>_.
        bind_e (read_s (\<lambda>s. get_pipeline_run_for_review_run s (pj_review_run_id job))) (\<lambda>p.
          case p of None \<Rightarrow> ret ()
          | Some p \<Rightarrow> call_e (\<lambda>s. finalize_pipeline_github_check_neutral (pe_check env) s (pl_id p)
              SKIP_PUBLISH_NEUTRAL_SUMMARY)))) (\<lambda>_. settled k) (\<lambda>_. settled k)" for job
    unfolding keeps_def [symmetric]
    by (intro keeps_rules keeps_jobs_write keeps_jobs_call)
      (auto simp: record_skip_jobs finalize_pipeline_github_check_neutral_def dest: finalize_jobs)
  then have rest: "triple (settled k) (bind_e (case skip_manifest_key st of
          Some key \<Rightarrow> write_s (\<lambda>s. record_publish_skip_on_pipeline s (pj_review_run_id job) key) | None \<Rightarrow> ret ()) (\<lambda>_.
        bind_e (read_s (\<lambda>s. get_pipeline_run_for_review_run s (pj_review_run_id job))) (\<lambda>p.
          case p of None \<Rightarrow> ret ()
          | Some p \<Rightarrow> call_e (\<lambda>s. finalize_pipeline_github_check_neutral (pe_check env) s (pl_id p)
              SKIP_PUBLISH_NEUTRAL_SUMMARY)))) (\<lambda>_. settled k) anything" for job
    by (rule triple_conseq) auto
  show ?thesis unfolding skip_publish_job_at_gate_def
    by (intro triple_with_job triple_bind [OF triple_write_s rest])
      (auto simp: of_jobs_def intro!: settled_set_job assms)
qed

lemma gate_terminal: "publish_gate s run_id pr job = Inr (Some st) \<Longrightarrow> st \<in> set TERMINAL_PUBLISH_JOB_STATUSES"
  by (auto simp: publish_gate_def TERMINAL_PUBLISH_JOB_STATUSES_def split: option.splits if_splits)

text \<open>Where the authority was lost the job is settled.\<close>

lemma recheck_settles:
  "triple (\<lambda>_. True) (recheck_publish_authority_before_flush env k run_id pr) (\<lambda>skip p. skip \<longrightarrow> settled k p) anything"
proof -
  have gate: "triple (\<lambda>_. case x of Inr (Some st) \<Rightarrow> st \<in> set TERMINAL_PUBLISH_JOB_STATUSES | _ \<Rightarrow> True)
      (bind_e (of_result x) (\<lambda>skip. case skip of None \<Rightarrow> ret False
        | Some st \<Rightarrow> bind_e (skip_publish_job_at_gate env k st) (\<lambda>_. ret True)))
      (\<lambda>skip p. skip \<longrightarrow> settled k p) anything" for x
  proof (cases x)
    case (Inr y)
    show ?thesis
    proof (cases y)
      case (Some st)
      show ?thesis
      proof (cases "st \<in> set TERMINAL_PUBLISH_JOB_STATUSES")
        case True
        have "triple (\<lambda>_. True) (bind_e (skip_publish_job_at_gate env k st) (\<lambda>_. ret True))
            (\<lambda>skip p. skip \<longrightarrow> settled k p) anything"
          by (rule triple_bind [OF skip_settles [OF True]]) (auto intro: triple_ret)
        then show ?thesis by (simp add: Inr Some triple_def bind_e_def)
      qed (simp add: Inr Some triple_def)
    qed (simp add: Inr triple_def bind_e_def)
  qed (simp add: triple_def bind_e_def)
  show ?thesis unfolding recheck_publish_authority_before_flush_def refresh_e_def
    by (intro triple_bind [OF triple_upd [where Q = anything]] triple_with_job triple_bind [OF triple_read_s gate])
      (auto split: sum.split option.split dest: gate_terminal)
qed

lemma keeps_any:
  assumes "keeps I m"
  shows "triple I m (\<lambda>_. I) anything"
  by (rule triple_conseq [OF assms [unfolded keeps_def]]) auto

lemma any_triple: "triple P m anything anything"
  by (rule tripleI) auto

text \<open>The results of a flush that say the job was skipped.\<close>

abbreviation skip_settled :: "uuid \<Rightarrow> flush_result \<Rightarrow> pub \<Rightarrow> bool" where
  "skip_settled k \<equiv> \<lambda>r p. r = Flush_skipped \<longrightarrow> settled k p"

lemma unless_skipped_settles:
  assumes "keeps (settled (fx_job ids)) undo" and "triple (\<lambda>_. True) rest (skip_settled (fx_job ids)) anything"
  shows "triple (\<lambda>_. True) (unless_skipped env ids undo rest) (skip_settled (fx_job ids)) anything"
proof -
  have "triple (\<lambda>p. skip \<longrightarrow> settled (fx_job ids) p) (if skip then bind_e undo (\<lambda>_. ret Flush_skipped) else rest)
      (skip_settled (fx_job ids)) anything" for skip
  proof (cases skip)
    case True
    have "triple (settled (fx_job ids)) (bind_e undo (\<lambda>_. ret Flush_skipped)) (skip_settled (fx_job ids)) anything"
      by (rule triple_bind [OF keeps_any [OF assms(1)]]) (auto intro: triple_ret)
    with True show ?thesis by simp
  qed (use assms(2) in simp)
  then show ?thesis unfolding unless_skipped_def by (rule triple_bind [OF recheck_settles])
qed

lemma post_one_settles:
  "triple (\<lambda>_. True) (post_one env ids b ti p st) (\<lambda>r q. r = None \<longrightarrow> settled (fx_job ids) q) anything"
proof -
  have revert: "triple (settled (fx_job ids))
      (bind_e (best_effort_revert_partial_flush_surface env ids b True True cs) (\<lambda>_. ret None))
      (\<lambda>r q. r = None \<longrightarrow> settled (fx_job ids) q) anything" for cs
    by (rule triple_bind [OF keeps_any [OF revert_keeps_jobs]]) (auto intro: triple_ret)
  have "triple (\<lambda>_. True) (with_job (fx_job ids) (\<lambda>job.
         bind_e (call_e (create_inline_review_comment_with_422_retry (pe_check env) (fx_inst ids) (sb_owner b) (sb_repo b)
           (fx_number ids) (pj_head_sha job) p)) (after_post ids b ti p st)))
      (\<lambda>r q. r = None \<longrightarrow> settled (fx_job ids) q) anything"
    by (rule tripleI) (auto simp: with_job_def read_s_def write_s_def commit_e_def bind_Some after_post_def Let_def
      split: option.splits inline_result.splits, metis inline_result.exhaust option.distinct(1))
  with revert show ?thesis unfolding post_one_def
    by (intro triple_bind [OF recheck_settles]) (auto split: if_split elim: triple_conseq)
qed

lemma post_inline_settles:
  "triple (\<lambda>_. True) (post_inline_comments env ids b ti retry ps st) (\<lambda>r q. r = None \<longrightarrow> settled (fx_job ids) q) anything"
proof (induction ps arbitrary: st)
  case (Cons p ps)
  have "triple (\<lambda>_. True) (bind_e (post_one env ids b ti p st) (\<lambda>st'.
      case st' of None \<Rightarrow> ret None | Some st \<Rightarrow> post_inline_comments env ids b ti retry ps st))
      (\<lambda>r q. r = None \<longrightarrow> settled (fx_job ids) q) anything" for st
    by (rule triple_bind [OF post_one_settles])
      (auto split: option.split intro: triple_ret triple_conseq [OF Cons.IH])
  with Cons.IH show ?case by (simp split: option.split)
qed (auto intro: triple_ret)

lemma flush_posts_settles:
  "triple (\<lambda>_. True) (flush_posts env ids b persist ti retry st sf) (skip_settled (fx_job ids)) anything"
proof -
  have posts: "triple (\<lambda>_. True) (if sb_post_inline b then
         with_job (fx_job ids) (\<lambda>job.
         bind_e (post_inline_comments env ids b (ti_threads ti) retry (sb_inline_posts b)
           \<lparr>po_threads = st_threads st, po_thread_ids = [], po_written = [], po_recovered_count = 0,
            po_recovered = load_inline_422_recovered_fingerprints (pj_summary_json job)\<rparr>) (\<lambda>posted.
           case posted of
             None \<Rightarrow> ret None
           | Some po \<Rightarrow> bind_e (finish_inline env ids b (sf_issue sf) po) (\<lambda>body. ret (Some body))))
       else ret (Some (sf_issue sf))) (\<lambda>r q. r = None \<longrightarrow> settled (fx_job ids) q) anything"
  proof -
    have "triple (\<lambda>p. posted = None \<longrightarrow> settled (fx_job ids) p) (case posted of None \<Rightarrow> ret None
        | Some po \<Rightarrow> bind_e (finish_inline env ids b (sf_issue sf) po) (\<lambda>body. ret (Some body)))
        (\<lambda>r q. r = None \<longrightarrow> settled (fx_job ids) q) anything" for posted
      by (rule tripleI) (auto simp: bind_Some split: option.splits)
    then show ?thesis
      by (auto intro!: triple_with_job triple_bind [OF triple_conseq [OF post_inline_settles,
            where Q' = "\<lambda>r q. r = None \<longrightarrow> settled (fx_job ids) q"]] intro: triple_ret)
  qed
  show ?thesis unfolding flush_posts_def
    by (rule triple_bind [OF posts], rule tripleI)
      (auto simp: with_job_def read_s_def write_s_def commit_e_def bind_Some Let_def split: option.splits if_splits)
qed

lemma flush_settles:
  "triple (\<lambda>_. True) (flush_publish_surface env ids b persist retry) (skip_settled (fx_job ids)) anything"
proof -
  have content: "triple (\<lambda>_. True) (flush_content env ids b persist ti retry st sf) (skip_settled (fx_job ids)) anything"
    for ti retry st sf
    unfolding flush_content_def Let_def
    by (intro triple_bind [OF any_triple] unless_skipped_settles revert_keeps_jobs flush_posts_settles)
  have threads: "triple (\<lambda>_. True) (flush_threads env ids b persist ti retry threads) (skip_settled (fx_job ids)) anything"
    for ti retry threads
    unfolding flush_threads_def with_job_def
    by (intro triple_bind [OF any_triple]) (auto intro!: triple_bind [OF any_triple] unless_skipped_settles keeps_ret content
        intro: triple_raise split: option.split)
  show ?thesis unfolding flush_publish_surface_def Let_def
    by (intro triple_bind [OF any_triple] unless_skipped_settles keeps_ret threads)
qed

lemma record_publish_keeps:
  assumes "\<And>p j. keeps (of_jobs f) (then_do p j)"
  shows "keeps (of_jobs f) (record_publish env k summary issue prov model then_do)"
  unfolding record_publish_def
  by (intro keeps_rules keeps_jobs_write assms) (auto simp: record_publish_jobs)

text \<open>The row exists after an operation on it returned.\<close>

lemma complete_settles:
  "triple (\<lambda>_. True) (complete_publish env k pr b check issue rollup) (\<lambda>_. settled k) anything"
proof -
  let ?done = "\<lambda>p. \<forall>j. get_publish_job (pb_s p) k = Some j \<longrightarrow> pj_status j = PJ_completed"
  have rec: "triple ?done (record_publish env k summary (Some t) prov model (\<lambda>_ _. ret ())) (\<lambda>_. settled k) anything"
    for summary t prov model
    unfolding record_publish_def
  proof (rule triple_with_job)
    fix j
    have "keeps (settled k) (bind_e (read_s (\<lambda>s. get_pipeline_run_for_review_run s (pj_review_run_id j))) (\<lambda>p.
        case p of None \<Rightarrow> ret ()
        | Some p \<Rightarrow> bind_e (write_s (\<lambda>s. record_publish_pipeline_step s (pl_id p) j (summary j) (pe_duration env) (Some t)
            prov model)) (\<lambda>_. ret ())))"
      by (intro keeps_rules keeps_jobs_write) (auto simp: record_publish_jobs)
    from keeps_any [OF this] show "triple (\<lambda>p. ?done p \<and> get_publish_job (pb_s p) k = Some j)
        (bind_e (read_s (\<lambda>s. get_pipeline_run_for_review_run s (pj_review_run_id j))) (\<lambda>p.
        case p of None \<Rightarrow> ret ()
        | Some p \<Rightarrow> bind_e (write_s (\<lambda>s. record_publish_pipeline_step s (pl_id p) j (summary j) (pe_duration env) (Some t)
            prov model)) (\<lambda>_. ret ()))) (\<lambda>_. settled k) anything"
      by (rule triple_conseq)
        (auto simp: of_jobs_def job_settled_def get_publish_job_def TERMINAL_PUBLISH_JOB_STATUSES_def)
  qed simp
  show ?thesis unfolding complete_publish_def
    by (intro triple_bind [OF any_triple] triple_bind [OF triple_write_s rec]) (auto simp: get_set_job)
qed

lemma body_settles:
  "triple (\<lambda>_. True) (publish_body env persist ids rv pr repo inst retry) (\<lambda>_. settled (fx_job ids)) anything"
proof -
  have flush: "triple (\<lambda>_. True) (bind_e (flush_publish_surface env ids b persist retry) (\<lambda>r.
      case r of Flush_skipped \<Rightarrow> ret ()
      | Flushed check issue rollup \<Rightarrow> complete_publish env (fx_job ids) (fx_pr ids) b check issue rollup))
      (\<lambda>_. settled (fx_job ids)) anything" for b
    by (rule triple_bind [OF flush_settles])
      (auto split: flush_result.split intro!: triple_ret intro: triple_conseq [OF complete_settles])
  have "triple (\<lambda>p. skip \<longrightarrow> settled (fx_job ids) p) (if skip then ret () else
      bind_e (flush_publish_surface env ids b persist retry) (\<lambda>r.
      case r of Flush_skipped \<Rightarrow> ret ()
      | Flushed check issue rollup \<Rightarrow> complete_publish env (fx_job ids) (fx_pr ids) b check issue rollup))
      (\<lambda>_. settled (fx_job ids)) anything" for skip b
    using flush [of b] by (auto intro!: triple_ret)
  then show ?thesis unfolding publish_body_def Let_def
    by (intro triple_bind [OF any_triple] triple_bind [OF recheck_settles])
qed

lemma failed_settles: "triple (\<lambda>_. True) (publish_failed env k e) (\<lambda>_. settled k) anything"
proof -
  have rec: "triple (settled k) (record_publish env k s1 i1 p1 m1 (\<lambda>p j.
      call_e (\<lambda>s. finalize_pipeline_github_check_failure (pe_check env) s (pl_id p) (opt_or (pj_error_message j) []))))
      (\<lambda>_. settled k) anything" for s1 i1 p1 m1
    by (intro keeps_any record_publish_keeps keeps_jobs_call)
      (auto simp: finalize_pipeline_github_check_failure_def dest: finalize_jobs)
  have fail: "triple (\<lambda>p. get_publish_job (pb_s p) k = Some j)
      (if pj_status j \<notin> set TERMINAL_PUBLISH_JOB_STATUSES then write_s (fail_job k msg) else ret ())
      (\<lambda>_. settled k) anything" for j msg
    using settled_set_job [of _ k j "\<lambda>j. j\<lparr>pj_status := PJ_failed, pj_error_message := Some msg\<rparr>"]
    by (auto simp: of_jobs_def fail_job_def job_settled_def get_publish_job_def TERMINAL_PUBLISH_JOB_STATUSES_def
        intro!: triple_write_s triple_ret)
  show ?thesis unfolding publish_failed_def
  proof (rule triple_with_job)
    fix j
    show "triple (\<lambda>p. True \<and> get_publish_job (pb_s p) k = Some j)
       (if pj_status j = PJ_skipped_not_head \<or> pj_status j = PJ_skipped_superseded then ret ()
        else if classify_transient_error e then raise_e e
        else bind_e (if pj_status j \<notin> set TERMINAL_PUBLISH_JOB_STATUSES then write_s (fail_job k (take 2000 (pe_str env e)))
                else ret ()) (\<lambda>_.
           record_publish env k (\<lambda>j. nonempty_or (pj_error_message j) (S ''Publish failed'')) None None None
             (\<lambda>p j. call_e (\<lambda>s. finalize_pipeline_github_check_failure (pe_check env) s (pl_id p)
                (opt_or (pj_error_message j) []))))) (\<lambda>_. settled k) anything"
    proof (cases "pj_status j = PJ_skipped_not_head \<or> pj_status j = PJ_skipped_superseded")
      case True
      then show ?thesis
        by (auto simp: of_jobs_def job_settled_def get_publish_job_def TERMINAL_PUBLISH_JOB_STATUSES_def intro!: triple_ret)
    next
      case False
      have "triple (\<lambda>p. True \<and> get_publish_job (pb_s p) k = Some j)
         (bind_e (if pj_status j \<notin> set TERMINAL_PUBLISH_JOB_STATUSES then write_s (fail_job k (take 2000 (pe_str env e)))
                else ret ()) (\<lambda>_.
           record_publish env k (\<lambda>j. nonempty_or (pj_error_message j) (S ''Publish failed'')) None None None
             (\<lambda>p j. call_e (\<lambda>s. finalize_pipeline_github_check_failure (pe_check env) s (pl_id p)
                (opt_or (pj_error_message j) []))))) (\<lambda>_. settled k) anything"
        unfolding simp_thms by (rule triple_bind [OF fail rec])
      with False show ?thesis by (auto intro: triple_raise)
    qed
  qed simp
qed

lemma guarded_settles:
  "triple (\<lambda>_. True) (publish_guarded env persist ids rv pr repo inst retry) (\<lambda>_. settled (fx_job ids)) anything"
  unfolding publish_guarded_def
  by (rule triple_catch [OF body_settles]) (auto intro: triple_raise triple_conseq [OF failed_settles])

text \<open>A publish job that is run is settled: whatever GitHub and the LLM answer, whatever other
  transactions do meanwhile and whichever guard stops it, when the run returns without an exception the job
  is completed, failed or skipped.\<close>

theorem publish_run_settles:
  assumes "run_publish_job env k persist p = Some (p', Inr ())"
  shows "\<exists>j. get_publish_job (pb_s p') k = Some j \<and>
    pj_status j \<in> {PJ_completed, PJ_failed, PJ_skipped_not_head, PJ_skipped_superseded}"
proof -
  obtain j where j: "get_publish_job (pb_s p) k = Some j"
    using assms by (cases "get_publish_job (pb_s p) k") (auto simp: run_publish_job_def bind_Some read_s_def)
  have fail: "job_settled k (ss_publish_jobs (fail_job k msg (pb_s p)))" for msg
    unfolding fail_job_def by (rule settled_set_job [OF j]) (simp_all add: TERMINAL_PUBLISH_JOB_STATUSES_def)
  have skip: "of_jobs (job_settled k) p'"
    if "skip_publish_job_at_gate env k st p = Some (p', Inr ())" "st = PJ_skipped_superseded \<or> st = PJ_skipped_not_head"
    for st
    using triple_Inr [OF skip_settles _ that(1)] that(2) by (auto simp: TERMINAL_PUBLISH_JOB_STATUSES_def)
  have guarded: "of_jobs (job_settled k) p'"
    if "publish_guarded env persist ids rv pr repo inst retry q = Some (p', Inr ())" "fx_job ids = k" for ids rv pr repo inst retry q
    using triple_Inr [OF guarded_settles _ that(1)] that(2) by simp
  have "of_jobs (job_settled k) p'"
    using assms j
    by (auto simp: run_publish_job_def bind_Some read_s_def write_s_def of_jobs_def fail
        split: option.splits if_splits prod.splits
        dest!: skip [unfolded of_jobs_def] guarded [unfolded of_jobs_def])
      (auto simp: job_settled_def get_publish_job_def)
  then show ?thesis by (auto simp: of_jobs_def job_settled_def get_publish_job_def TERMINAL_PUBLISH_JOB_STATUSES_def)
qed

text \<open>The head of pull request 4 is \<open>bb\<close>; the job is for \<open>cc\<close>.\<close>

definition demo_publish_job :: publish_job where
  "demo_publish_job = \<lparr>pj_id = 30, pj_review_run_id = 1, pj_revision_id = 2, pj_workspace_id = 3, pj_head_sha = S ''cc'',
     pj_status = PJ_pending, pj_github_check_run_id = None, pj_github_comment_id = None,
     pj_inline_comments_posted = False, pj_summary_json = None, pj_error_message = None, pj_created_at = 60\<rparr>"

definition demo_pub :: pub where
  "demo_pub = \<lparr>pb_s = demo_session\<lparr>ss_publish_jobs := [demo_publish_job]\<rparr>,
     pb_committed = demo_session\<lparr>ss_publish_jobs := [demo_publish_job]\<rparr>, pb_readings = 0\<rparr>"

definition demo_pub_env :: pub_env where
  "demo_pub_env = \<lparr>pe_check = \<lparr>ce_enabled = True, ce_send = (\<lambda>ch i c. Inr \<lparr>hr_status = 201, hr_body = Some (JObj [(S ''id'', JInt 77)])\<rparr>)\<rparr>,
     pe_auth = (\<lambda>ch i. Inr ()), pe_gh = (\<lambda>i u r. Inr \<lparr>hr_status = 404, hr_body = None\<rparr>),
     pe_format = \<lparr>fm_unicode = ascii_only, fm_word = (\<lambda>c. False), fm_other = (\<lambda>j. []), fm_float = (\<lambda>t. None),
       fm_public_url = None, fm_llm = None, fm_json = (\<lambda>t. None), fm_provider = [], fm_model = []\<rparr>,
     pe_others = (\<lambda>n s. s), pe_duration = 5, pe_str = (\<lambda>e. [])\<rparr>"

lemma demo_publish_skips:
  "run_publish_job demo_pub_env 30 True (demo_pub\<lparr>pb_readings := n\<rparr>) = Some (demo_pub\<lparr>pb_readings := n,
     pb_s := set_job 30 (\<lambda>j. j\<lparr>pj_status := PJ_skipped_not_head, pj_error_message := None\<rparr>) (pb_s demo_pub)\<rparr>, Inr ())"
  by (simp add: run_publish_job_def read_s_def write_s_def read_e_def upd_e_def bind_e_def with_job_def skip_publish_job_at_gate_def
      session_gets tbl_get_def TERMINAL_PUBLISH_JOB_STATUSES_def demo_pub_def demo_publish_job_def demo_defs
      is_review_run_superseded_def S_def skip_manifest_key_def set_job_def put_publish_job_def tbl_put_def ret_def
      record_publish_skip_on_pipeline_def get_pipeline_run_for_review_run_def)

theorem publish_run_settles_witness:
  "\<exists>p' j. run_publish_job demo_pub_env 30 True (demo_pub\<lparr>pb_readings := 4\<rparr>) = Some (p', Inr ()) \<and> get_publish_job (pb_s p') 30 = Some j \<and>
    pj_status j \<in> {PJ_completed, PJ_failed, PJ_skipped_not_head, PJ_skipped_superseded}"
  using publish_run_settles [OF demo_publish_skips [of 4]] demo_publish_skips [of 4] by blast

subsection \<open>The task leaves no job open\<close>

text \<open>After a context the session is what was committed, after a roll back with the requests sent and identifiers drawn.  A failure
  handler that was itself rolled back read that, with what others committed since.\<close>

definition rolled_back :: "pub \<Rightarrow> bool" where
  "rolled_back p \<longleftrightarrow> (\<exists>checks n. pb_s p = (pb_committed p)\<lparr>ss_checks := checks, ss_created := n\<rparr>)"

definition handler_read :: "pub_env \<Rightarrow> pub \<Rightarrow> session \<Rightarrow> bool" where
  "handler_read env q s \<longleftrightarrow>
     (\<exists>i checks n. s = pe_others env i ((pb_committed q)\<lparr>ss_checks := checks, ss_created := n\<rparr>))"

lemma roll_back_rolled: "rolled_back (roll_back_e p)"
  unfolding rolled_back_def roll_back_e_def by (intro exI) simp

lemma context_rolls_back: "in_context m p = Some (q, r) \<Longrightarrow> rolled_back q"
proof -
  have "rolled_back (t\<lparr>pb_committed := pb_s t\<rparr>)" for t
    unfolding rolled_back_def by (intro exI [of _ "ss_checks (pb_s t)"] exI [of _ "ss_created (pb_s t)"]) simp
  then show "in_context m p = Some (q, r) \<Longrightarrow> rolled_back q"
    by (auto simp: in_context_def roll_back_rolled split: option.splits prod.splits sum.splits)
qed

lemma handler_readI:
  assumes "rolled_back p" and "pb_committed q = pb_committed p"
  shows "handler_read env q (pe_others env i (pb_s p))"
proof -
  obtain checks n where "pb_s p = (pb_committed p)\<lparr>ss_checks := checks, ss_created := n\<rparr>"
    using assms(1) unfolding rolled_back_def by (elim exE)
  with assms(2) show ?thesis unfolding handler_read_def by (intro exI [of _ i] exI [of _ checks] exI [of _ n]) simp
qed

text \<open>Concluding the check run of the job raised, in the handler that marks the job failed.\<close>

definition conclusion_raises :: "pub_env \<Rightarrow> uuid \<Rightarrow> pub \<Rightarrow> exn \<Rightarrow> bool" where
  "conclusion_raises env k q e \<longleftrightarrow>
     (\<exists>s s' m. handler_read env q s \<and>
        finalize_pipeline_github_check_for_publish_job (pe_check env) (mark_publish_job_failed k m s) k m = (s', Inl e))"

text \<open>The row of the job, where there is one, is settled in the committed state.\<close>

definition committed_settled :: "uuid \<Rightarrow> pub \<Rightarrow> bool" where
  "committed_settled k p \<longleftrightarrow>
     (case get_publish_job (pb_committed p) k of None \<Rightarrow> True | Some j \<Rightarrow> pj_status j \<in> set TERMINAL_PUBLISH_JOB_STATUSES)"

lemma finalize_for_job_jobs:
  "finalize_pipeline_github_check_for_publish_job env s k m = (s', r) \<Longrightarrow> ss_publish_jobs s' = ss_publish_jobs s"
  by (auto simp: finalize_pipeline_github_check_for_publish_job_def finalize_pipeline_github_check_failure_def
      finalize_pipeline_github_check_for_review_run_def split: option.splits dest: finalize_jobs)

lemma mark_failed_settled:
  "get_publish_job (mark_publish_job_failed k m s) k = Some j \<Longrightarrow> pj_status j \<in> set TERMINAL_PUBLISH_JOB_STATUSES"
  by (cases "get_publish_job s k")
    (auto simp: mark_publish_job_failed_def get_set_job OPEN_PUBLISH_JOB_STATUSES_def TERMINAL_PUBLISH_JOB_STATUSES_def
      split: if_splits, (metis publish_job_status.exhaust)+)

lemma execute_settles: "execute_publish_review_run env k p = Some (p', Inr ()) \<Longrightarrow> committed_settled k p'"
  by (auto simp: execute_publish_review_run_def in_context_def bind_Some refresh_e_def committed_settled_def
      TERMINAL_PUBLISH_JOB_STATUSES_def split: option.splits prod.splits sum.splits dest!: publish_run_settles)

lemma mark_failed_settles:
  assumes "mark_failed_e env k m p = Some (p', r)" and "rolled_back p"
  shows "case r of Inr _ \<Rightarrow> committed_settled k p' | Inl e \<Rightarrow> conclusion_raises env k p' e"
proof -
  obtain s x where f: "finalize_pipeline_github_check_for_publish_job (pe_check env)
      (mark_publish_job_failed k m (pe_others env (pb_readings p) (pb_s p))) k m = (s, x)"
    and q: "case x of Inr _ \<Rightarrow> r = Inr () \<and> pb_committed p' = s | Inl e \<Rightarrow> r = Inl e \<and> pb_committed p' = pb_committed p"
    using assms(1)
    by (auto simp: mark_failed_e_def in_context_def refresh_e_def bind_e_def upd_e_def write_s_def call_e_def on_session_def
        on_part_def total_e_def roll_back_e_def split: prod.splits sum.splits)
  show ?thesis
  proof (cases x)
    case (Inl e)
    with q have "handler_read env p' (pe_others env (pb_readings p) (pb_s p))" using handler_readI [OF assms(2)] by simp
    with Inl f q show ?thesis unfolding conclusion_raises_def by auto
  next
    case (Inr u)
    with f q show ?thesis
      by (auto simp: committed_settled_def get_publish_job_def split: option.splits
          dest!: mark_failed_settled [unfolded get_publish_job_def] dest: finalize_for_job_jobs)
  qed
qed

lemma execute_rolls_back: "execute_publish_review_run env k p = Some (q, Inl e) \<Longrightarrow> rolled_back q"
  unfolding execute_publish_review_run_def by (rule context_rolls_back)

lemma raise_after_marking:
  assumes "bind_e (mark_failed_e env k m) (\<lambda>_. raise_e e) p = Some (p', r)" and "rolled_back p"
  shows "\<exists>e'. r = Inl e' \<and> (committed_settled k p' \<or> conclusion_raises env k p' e')"
  using assms by (auto simp: bind_Some dest!: mark_failed_settles)

lemma task_settles:
  assumes "publish_review_run env k p = Some (p', r)"
  shows "committed_settled k p' \<or> (\<exists>e. r = Inl e \<and> conclusion_raises env k p' e)"
proof -
  have "publish_attempts env k n p = Some (p', r) \<Longrightarrow>
      committed_settled k p' \<or> (\<exists>e. r = Inl e \<and> conclusion_raises env k p' e)" for n p
    by (induction n arbitrary: p)
      (auto simp: catch_Some split: if_splits dest!: execute_settles raise_after_marking intro: execute_rolls_back)
  with assms show ?thesis by (simp add: publish_review_run_def)
qed

lemma demo_task_skips: "\<exists>p'. publish_review_run demo_pub_env 30 demo_pub = Some (p', Inr ())"
proof -
  have "demo_pub\<lparr>pb_s := pe_others demo_pub_env n (pb_s demo_pub), pb_readings := m\<rparr> = demo_pub\<lparr>pb_readings := m\<rparr>" for n m
    by (simp add: demo_pub_env_def demo_pub_def)
  then show ?thesis
    by (simp add: publish_review_run_def PUBLISH_MAX_RETRIES_def numeral_3_eq_3 execute_publish_review_run_def
        in_context_def bind_e_def catch_e_def refresh_e_def upd_e_def demo_publish_skips)
qed

end
