(* ===== verification/Publish_Frame.thy ===== *)
theory Publish_Frame
  imports Publish_Laws
begin

section \<open>Invariants of a publish\<close>

text \<open>
  The interface between the operations of a publish and an invariant of its state.  Apart from posting an
  inline comment, an operation only sends requests that post none, keeps the rows of the jobs in the
  table, reads again after other transactions, or commits; an invariant kept by these steps is kept by the
  whole publish.  The locale carries the invariant through every operation; the interpretations are below
  and in the next theory.
\<close>

subsection \<open>Steps that post no inline comment\<close>

text \<open>Of the requests a publish makes only the inline comments carry a commit.\<close>

definition inline_call :: "check_call \<Rightarrow> bool" where
  "inline_call call =
     (case call of Check_post url (JObj ms) \<Rightarrow> json_get (S ''commit_id'') ms \<noteq> None | _ \<Rightarrow> False)"

definition quiet_log :: "(check_call \<times> bool) list \<Rightarrow> bool" where
  "quiet_log log = list_all (\<lambda>(call, ok). \<not> inline_call call) log"

definition own_step :: "session \<Rightarrow> session \<Rightarrow> bool" where
  "own_step s s' \<longleftrightarrow>
     (\<exists>log. ss_checks s' = ss_checks s @ log \<and> quiet_log log) \<and>
     map pj_id (ss_publish_jobs s') = map pj_id (ss_publish_jobs s)"

named_theorems own_calls
named_theorems own_writes

lemma own_stepI:
  "ss_checks s' = ss_checks s \<Longrightarrow> map pj_id (ss_publish_jobs s') = map pj_id (ss_publish_jobs s) \<Longrightarrow> own_step s s'"
  by (auto simp: own_step_def quiet_log_def)

lemma own_step_refl [simp, intro]: "own_step s s"
  by (rule own_stepI) simp_all

lemma own_step_trans [trans]: "own_step s t \<Longrightarrow> own_step t u \<Longrightarrow> own_step s u"
  by (auto simp: own_step_def quiet_log_def)

lemma own_step_send: "send_check env s i call = (s', r) \<Longrightarrow> \<not> inline_call call \<Longrightarrow> own_step s s'"
  by (auto simp: send_check_def own_step_def quiet_log_def Let_def)

lemma own_step_only_checks:
  "only_checks s s' \<Longrightarrow> ss_checks s' = ss_checks s @ log \<Longrightarrow> quiet_log log \<Longrightarrow> own_step s s'"
  by (auto simp: own_step_def only_checks_def)

lemma quiet_calls [simp]:
  "\<not> inline_call (Check_patch url body)" "\<not> inline_call (Check_delete url)"
  by (simp_all add: inline_call_def)

lemma update_check_run_own [own_calls]:
  "update_check_run env s i o' r c concl summary = (s', x) \<Longrightarrow> own_step s s'"
  by (auto simp: update_check_run_def split: prod.splits dest: own_step_send)

lemma create_check_run_own [own_calls]:
  "create_check_run env s i o' r h x st concl summary = (s', y) \<Longrightarrow> own_step s s'"
  by (auto simp: create_check_run_def Let_def inline_call_def S_def split: prod.splits if_splits dest!: own_step_send)

lemma update_issue_comment_own [own_calls]: "update_issue_comment env i o' r c body s = (s', x) \<Longrightarrow> own_step s s'"
  by (auto simp: update_issue_comment_def split: prod.splits dest: own_step_send)

lemma create_issue_comment_own [own_calls]: "create_issue_comment env i o' r n body s = (s', x) \<Longrightarrow> own_step s s'"
  by (auto simp: create_issue_comment_def inline_call_def S_def split: prod.splits dest!: own_step_send)

lemma delete_comment_own [own_calls]: "delete_pull_request_review_comment env i o' r c s = (s', x) \<Longrightarrow> own_step s s'"
  by (auto simp: delete_pull_request_review_comment_def split: prod.splits dest: own_step_send)

lemma quiet_graphql [simp]: "\<not> inline_call (graphql q vs)"
  by (simp add: graphql_def inline_call_def S_def)

lemma resolve_thread_own [own_calls]: "resolve_review_thread other env inst t s = (s', r) \<Longrightarrow> own_step s s'"
  by (auto simp: resolve_review_thread_def split: prod.splits dest: own_step_send)

text \<open>The paged listing of threads, by induction on the answers.\<close>

lemma quiet_pages [simp]: "\<not> inline_call (comment_page_call t c)" "\<not> inline_call (thread_page_call o' r n cur)"
  by (simp_all add: comment_page_call_def thread_page_call_def)

lemma page_comments_own:
  assumes "page_comments env inst t c ids s = Some y"
  shows "own_step s (fst y)"
proof (rule page_comments.raw_induct [OF _ assms])
  fix f :: "check_env \<Rightarrow> int \<Rightarrow> pystr \<Rightarrow> pystr \<Rightarrow> int list \<Rightarrow> session \<Rightarrow> (session \<times> (exn + int list)) option"
    and env inst t c ids s y
  assume IH: "\<And>env inst t c ids s y. f env inst t c ids s = Some y \<Longrightarrow> own_step s (fst y)"
  obtain s1 r where sc: "send_check env s inst (comment_page_call t c) = (s1, r)" by force
  have trans: "own_step s1 u \<Longrightarrow> own_step s u" for u
    using own_step_send [OF sc] by (simp add: own_step_trans)
  assume "(case send_check env s inst (comment_page_call t c) of
        (s, r) \<Rightarrow> case rbind r comment_page of Inl e \<Rightarrow> Some (s, Inl e)
          | Inr (found, next) \<Rightarrow> case next of None \<Rightarrow> Some (s, Inr (ids @ found))
            | Some c \<Rightarrow> f env inst t c (ids @ found) s) = Some y"
  with sc own_step_send [OF sc] show "own_step s (fst y)"
    by (auto split: sum.splits option.splits prod.splits dest!: IH intro: trans)
qed

lemma add_threads_own: "add_threads env inst ns ts s = Some (s', r) \<Longrightarrow> own_step s s'"
proof (induction ns arbitrary: ts s)
  case (Cons n ns)
  have trans: "own_step s t \<Longrightarrow> own_step t s' \<Longrightarrow> own_step s s'" for t by (rule own_step_trans)
  from Cons show ?case
    by (auto simp: bind_Some split: if_splits option.splits dest!: page_comments_own Cons.IH) (erule (1) trans)
qed simp

lemma list_threads_own:
  assumes "list_threads_from env inst owner repo number cursor ts s = Some y"
  shows "own_step s (fst y)"
proof (rule list_threads_from.raw_induct [OF _ assms])
  fix f :: "check_env \<Rightarrow> int \<Rightarrow> pystr \<Rightarrow> pystr \<Rightarrow> int \<Rightarrow> pystr option \<Rightarrow> review_thread list \<Rightarrow> session \<Rightarrow>
      (session \<times> (exn + review_thread list)) option"
    and env inst owner repo number cursor ts s y
  assume IH: "\<And>env inst owner repo number cursor ts s y. f env inst owner repo number cursor ts s = Some y \<Longrightarrow>
      own_step s (fst y)"
  obtain s1 r where sc: "send_check env s inst (thread_page_call owner repo number cursor) = (s1, r)" by force
  have trans: "own_step s1 u \<Longrightarrow> own_step s u" for u
    using own_step_send [OF sc] by (simp add: own_step_trans)
  have adds: "add_threads env inst nodes ts s1 = Some (u, x) \<Longrightarrow> own_step s u" for nodes u x
    by (rule trans, erule add_threads_own)
  assume "(if MAX_REVIEW_THREADS_PER_PUBLISH \<le> length ts then Some (s, Inr ts)
      else case send_check env s inst (thread_page_call owner repo number cursor) of
        (s, r) \<Rightarrow> case rbind r thread_page of Inl e \<Rightarrow> Some (s, Inl e) | Inr None \<Rightarrow> Some (s, Inr ts)
        | Inr (Some (nodes, next)) \<Rightarrow> case add_threads env inst nodes ts s of None \<Rightarrow> None
          | Some (s, Inl e) \<Rightarrow> Some (s, Inl e)
          | Some (s, Inr ts) \<Rightarrow> case next of None \<Rightarrow> Some (s, Inr ts)
            | Some c \<Rightarrow> f env inst owner repo number (Some c) ts s) = Some y"
  with sc own_step_send [OF sc] show "own_step s (fst y)"
    by (auto split: if_splits sum.splits option.splits prod.splits dest: adds) (meson IH adds own_step_trans)
qed

lemma index_own: "build_review_thread_index env inst owner repo number s = Some (s', r) \<Longrightarrow> own_step s s'"
  by (auto simp: build_review_thread_index_def list_review_threads_def bind_Some dest: list_threads_own)

lemma find_thread_own:
  "find_review_thread_id_for_comment env inst owner repo number c idx s = Some (s', r) \<Longrightarrow> own_step s s'"
  by (auto simp: find_review_thread_id_for_comment_def build_review_thread_comment_index_def bind_Some
      split: option.splits dest!: index_own)

text \<open>Writes of the session.\<close>

lemma put_job_ids: "map pj_id (tbl_put pj_id j js) = map pj_id js"
  by (induction js) (auto simp: tbl_put_def)

lemma set_job_own [own_writes]: "own_step s (set_job k f s)"
  by (cases "get_publish_job s k") (auto simp: set_job_def put_publish_job_def put_job_ids intro!: own_stepI)

lemma add_summary_own [own_writes]: "own_step s (add_summary k entries s)"
  by (simp add: add_summary_def set_job_own)

lemma save_threads_own [own_writes]: "own_step s (save_threads k b st s)"
  by (auto simp: save_threads_def Let_def add_summary_own split: option.split)

lemma record_threads_own [own_writes]: "own_step s (record_threads k b ti st sf s)"
  by (simp add: record_threads_def add_summary_own)

lemma fail_job_own [own_writes]: "own_step s (fail_job k m s)"
  by (simp add: fail_job_def set_job_own)

lemma snapshot_log: "ss_checks (try_persist_models_snapshot s k) = ss_checks s"
  by (simp add: try_persist_models_snapshot_def write_models_snapshot_def Let_def put_pipeline_run_def split: option.split)

lemma snapshot_own: "own_step s (try_persist_models_snapshot s k)"
  by (rule own_stepI) (simp_all add: snapshot_jobs snapshot_log)

lemma create_step_log: "create_completed_step s k ty v = (s', st) \<Longrightarrow> ss_checks s' = ss_checks s"
  by (auto simp: create_completed_step_def Let_def tick_def)

lemma add_artifact_log: "ss_checks (add_step_artifact s st kind c j) = ss_checks s"
  by (simp add: add_step_artifact_def tick_def)

lemma record_skip_own [own_writes]: "own_step s (record_publish_skip_on_pipeline s run_id key)"
proof (rule own_stepI)
  show "ss_checks (record_publish_skip_on_pipeline s run_id key) = ss_checks s"
    by (auto simp: record_publish_skip_on_pipeline_def upsert_step_manifest_def write_manifest_def put_artifact_def
        add_artifact_log Let_def split: option.split prod.split dest: create_step_log)
qed (simp add: record_skip_jobs)

lemma record_publish_own [own_writes]:
  "own_step s (record_publish_pipeline_step s k job summary d issue prov model)"
proof (rule own_stepI)
  show "ss_checks (record_publish_pipeline_step s k job summary d issue prov model) = ss_checks s"
    by (auto simp: record_publish_pipeline_step_def add_artifact_log snapshot_log Let_def
        split: prod.split dest: create_step_log)
qed (simp add: record_publish_jobs)

lemma finalize_own: "finalize_pipeline_github_check env s k summary conclusion = (s', r) \<Longrightarrow> own_step s s'"
  by (auto simp: finalize_pipeline_github_check_def with_check_def Let_def
      split: option.splits if_splits sum.splits prod.splits
      intro: snapshot_own own_step_trans [OF snapshot_own] dest!: update_check_run_own)

lemma finalize_neutral_own [own_calls]:
  "finalize_pipeline_github_check_neutral env s k summary = (s', r) \<Longrightarrow> own_step s s'"
  by (simp add: finalize_pipeline_github_check_neutral_def finalize_own)

lemma finalize_failure_own [own_calls]:
  "finalize_pipeline_github_check_failure env s k summary = (s', r) \<Longrightarrow> own_step s s'"
  by (simp add: finalize_pipeline_github_check_failure_def finalize_own)

lemma close_groups_own [own_calls]:
  "close_active_groups_for_fingerprints env pr rv run_id fps s = (s', r) \<Longrightarrow> own_step s s'"
  by (auto simp: close_active_groups_for_fingerprints_def Let_def intro: own_stepI split: if_splits option.splits sum.splits)

subsection \<open>The interface\<close>

locale publish_invariant =
  fixes env :: pub_env and I :: "pub \<Rightarrow> bool"
  assumes own: "I p \<Longrightarrow> own_step (pb_s p) s \<Longrightarrow> I (p\<lparr>pb_s := s\<rparr>)"
    and others: "I p \<Longrightarrow> I (p\<lparr>pb_s := pe_others env (pb_readings p) (pb_s p), pb_readings := Suc (pb_readings p)\<rparr>)"
    and commit: "I p \<Longrightarrow> I (p\<lparr>pb_committed := pb_s p\<rparr>)"
begin

lemma keeps_own_call: "(\<And>s s' r. m s = (s', r) \<Longrightarrow> own_step s s') \<Longrightarrow> keeps I (call_e m)"
  by (rule keeps_call_e) (auto intro: own)

lemma keeps_own_write: "(\<And>s. own_step s (f s)) \<Longrightarrow> keeps I (write_s f)"
  by (rule keeps_write_s) (auto intro: own)

lemma keeps_own_session:
  assumes "\<And>s s' r. m s = Some (s', r) \<Longrightarrow> own_step s s'"
  shows "keeps I (on_session m)"
  by (rule keepsI) (auto simp: on_session_def on_part_def split: option.splits dest!: assms intro: own)

lemma keeps_refresh: "keeps I (refresh_e env)"
  unfolding refresh_e_def by (rule keeps_upd) (rule others)

lemma keeps_Some: "keeps I (\<lambda>p. Some (p, x))"
  by (rule keepsI) auto

lemma keeps_commit: "keeps I commit_e"
  unfolding commit_e_def by (rule keeps_upd) (rule commit)

lemmas publish_rules = keeps_rules keeps_own_call keeps_own_write keeps_own_session keeps_refresh keeps_commit keeps_Some own_writes

lemma keeps_skip: "keeps I (skip_publish_job_at_gate env k st)"
  unfolding skip_publish_job_at_gate_def by (intro publish_rules) (auto dest: own_calls)

lemma keeps_recheck: "keeps I (recheck_publish_authority_before_flush env k run_id pr)"
  unfolding recheck_publish_authority_before_flush_def by (intro publish_rules keeps_skip)

lemma keeps_revert: "keeps I (best_effort_revert_partial_flush_surface env ids b c1 c2 cs)"
  unfolding best_effort_revert_partial_flush_surface_def neutralize_github_check_after_partial_flush_def
    neutralize_github_issue_comment_after_partial_flush_def
  by (intro publish_rules) (auto dest: own_calls)

lemma keeps_resolve_thread: "keeps I (resolve_stale_thread env ids o' r ti fp st)"
  unfolding resolve_stale_thread_def resolve_review_thread_with_retry_def Let_def
  by (intro publish_rules) (auto dest: own_calls find_thread_own)

lemma keeps_resolve_threads: "keeps I (resolve_threads env ids o' r ti fps st)"
  by (induction fps arbitrary: st) (auto intro!: keeps_rules keeps_resolve_thread)

lemma keeps_resolve_stale: "keeps I (resolve_stale_inline_threads env ids b ts ti)"
  unfolding resolve_stale_inline_threads_def Let_def by (intro publish_rules keeps_resolve_threads)

lemma keeps_write_check: "keeps I (write_check env ids b t)"
  unfolding write_check_def Let_def
  by (auto split: option.split prod.split bool.split intro!: publish_rules dest: own_calls)

lemma keeps_write_comment: "keeps I (write_issue_comment env ids b t)"
  unfolding write_issue_comment_def Let_def
  by (auto split: option.split prod.split bool.split intro!: publish_rules dest: own_calls)

lemma keeps_append_recovered: "keeps I (append_recovered_inline_422_blocks_to_issue_comment env ids b body fps)"
  unfolding append_recovered_inline_422_blocks_to_issue_comment_def Let_def
  by (auto split: option.split intro!: publish_rules dest: own_calls)

lemma keeps_finish_inline: "keeps I (finish_inline env ids b body st)"
  unfolding finish_inline_def by (intro publish_rules keeps_append_recovered)

lemma keeps_unless_skipped: "keeps I undo \<Longrightarrow> keeps I rest \<Longrightarrow> keeps I (unless_skipped env ids undo rest)"
  unfolding unless_skipped_def by (intro publish_rules keeps_recheck)

end

text \<open>With the inline comments, the whole publish.\<close>

locale publish_invariant_posts = publish_invariant +
  assumes post: "I p \<Longrightarrow> create_inline_review_comment_with_422_retry (pe_check env) inst o' r n h post (pb_s p) = (s, x) \<Longrightarrow>
    I (p\<lparr>pb_s := s\<rparr>)"
begin

lemma keeps_post: "keeps I (call_e (create_inline_review_comment_with_422_retry (pe_check env) inst o' r n h p))"
  by (rule keeps_call_e) (rule post)

lemma keeps_post_one: "keeps I (post_one env ids b ti p st)"
  unfolding post_one_def after_post_def Let_def
  by (auto split: inline_result.split intro!: publish_rules keeps_recheck keeps_revert keeps_post)

lemma keeps_posts: "keeps I (post_inline_comments env ids b ti retry ps st)"
  by (induction ps arbitrary: st) (auto split: option.split intro!: keeps_rules keeps_post_one)

lemma keeps_flush_posts: "keeps I (flush_posts env ids b persist ti retry st sf)"
  unfolding flush_posts_def
  by (auto split: option.split intro!: publish_rules keeps_posts keeps_finish_inline dest: own_calls close_groups_own)

lemma keeps_content: "keeps I (flush_content env ids b persist ti retry st sf)"
  unfolding flush_content_def Let_def
  by (intro publish_rules keeps_write_check keeps_write_comment keeps_unless_skipped keeps_revert keeps_flush_posts)

lemma keeps_threads: "keeps I (flush_threads env ids b persist ti retry threads)"
  unfolding flush_threads_def
  by (intro publish_rules keeps_resolve_stale keeps_unless_skipped keeps_content)

lemma keeps_flush: "keeps I (flush_publish_surface env ids b persist retry)"
  unfolding flush_publish_surface_def Let_def
  by (auto intro!: publish_rules keeps_unless_skipped keeps_threads dest: index_own)

lemma keeps_record_publish:
  "(\<And>p j. keeps I (then_do p j)) \<Longrightarrow> keeps I (record_publish env k summary issue prov model then_do)"
  unfolding record_publish_def by (auto split: option.split intro!: publish_rules)

lemma finish_build_own: "finish_build env j pr repo inst ctx fmt s = (s', r) \<Longrightarrow> own_step s s'"
  by (auto simp: finish_build_def Let_def set_job_own split: if_splits option.splits)

lemma complete_own: "own_step s (case Some r of None \<Rightarrow> s | Some r \<Rightarrow> (add_summary k es s)
    \<lparr>ss_pull_requests := tbl_map c f (ss_pull_requests (add_summary k es s))\<rparr>)"
  using add_summary_own [of s k es] by (auto simp: own_step_def)

lemma keeps_run: "keeps I (run_publish_job env k persist)"
proof -
  have complete: "keeps I (complete_publish env k pr b c i r)" for k pr b c i r
    unfolding complete_publish_def Let_def using complete_own
    by (auto split: option.split intro!: publish_rules keeps_record_publish)
  have failed: "keeps I (publish_failed env k e)" for k e
    unfolding publish_failed_def
    by (auto intro!: publish_rules keeps_record_publish dest: own_calls)
  have "keeps I (publish_body env persist ids rv pr repo inst retry)" for ids rv pr repo inst retry
    unfolding publish_body_def Let_def build_publish_surface_def
    by (auto split: flush_result.split intro!: publish_rules keeps_recheck keeps_flush complete dest: finish_build_own)
  then have guarded: "keeps I (publish_guarded env persist ids rv pr repo inst retry)" for ids rv pr repo inst retry
    unfolding publish_guarded_def by (auto intro!: keeps_rules failed)
  show ?thesis
    unfolding run_publish_job_def
    by (auto split: option.split prod.split intro!: publish_rules keeps_skip guarded)
qed

end

end
