(* ===== verification/Publish_Safety.thy ===== *)
theory Publish_Safety
  imports Publish_Frame
begin

section \<open>What a publish leaves on GitHub\<close>

text \<open>
  A flush that loses its authority after it wrote content takes the content back: the comments it posted
  are read off the log of its requests and the answers.
\<close>

subsection \<open>The comments a flush posted\<close>

text \<open>The answer to the request \<open>call\<close> after \<open>pre\<close>, as the id of a comment.\<close>

definition answered_comment :: "check_env \<Rightarrow> int \<Rightarrow> (check_call \<times> bool) list \<Rightarrow> check_call \<Rightarrow> int option" where
  "answered_comment env inst pre call =
     (case ce_send env pre inst call of
        Inl e \<Rightarrow> None
      | Inr resp \<Rightarrow>
          if \<not> is_success (hr_status resp) then None
          else case response_object resp of
            Inl e \<Rightarrow> None
          | Inr ms \<Rightarrow> (case json_int (json_get (S ''id'') ms) of Some i \<Rightarrow> if i \<le> 0 then None else Some i | None \<Rightarrow> None))"

text \<open>The inline comments posted by the requests \<open>log\<close> that follow \<open>pre\<close>.\<close>

fun posted_ids ::
  "check_env \<Rightarrow> int \<Rightarrow> (check_call \<times> bool) list \<Rightarrow> (check_call \<times> bool) list \<Rightarrow> int list" where
  "posted_ids env inst pre [] = []"
| "posted_ids env inst pre ((call, ok) # log) =
     (if inline_call call then (case answered_comment env inst pre call of Some c \<Rightarrow> [c] | None \<Rightarrow> []) else []) @
     posted_ids env inst (pre @ [(call, ok)]) log"

lemma posted_ids_append:
  "posted_ids env inst pre (xs @ ys) = posted_ids env inst pre xs @ posted_ids env inst (pre @ xs) ys"
  by (induction env inst pre xs rule: posted_ids.induct) simp_all

lemma posted_ids_quiet: "quiet_log xs \<Longrightarrow> posted_ids env inst pre xs = []"
  by (induction env inst pre xs rule: posted_ids.induct) (simp_all add: quiet_log_def)

text \<open>Other transactions send their own requests, not those of this task.\<close>

definition others_quiet :: "pub_env \<Rightarrow> bool" where
  "others_quiet env \<longleftrightarrow> (\<forall>n s. ss_checks (pe_others env n s) = ss_checks s)"

text \<open>Every comment posted since \<open>pre\<close> is in \<open>W\<close>.\<close>

definition answers_accounted :: "pub_env \<Rightarrow> int \<Rightarrow> (check_call \<times> bool) list \<Rightarrow> int set \<Rightarrow> pub \<Rightarrow> bool" where
  "answers_accounted env inst pre W p \<longleftrightarrow>
     others_quiet env \<and>
     (\<exists>log. ss_checks (pb_s p) = pre @ log \<and> set (posted_ids (pe_check env) inst pre log) \<subseteq> W)"

lemma answers_accounted_own:
  assumes "answers_accounted env inst pre W p" and "own_step (pb_s p) s"
  shows "answers_accounted env inst pre W (p\<lparr>pb_s := s\<rparr>)"
  using assms by (auto simp: answers_accounted_def own_step_def posted_ids_append posted_ids_quiet)

interpretation content: publish_invariant env "answers_accounted env inst pre W" for env inst pre W
proof
  fix p s
  show "answers_accounted env inst pre W p \<Longrightarrow> own_step (pb_s p) s \<Longrightarrow> answers_accounted env inst pre W (p\<lparr>pb_s := s\<rparr>)"
    by (rule answers_accounted_own)
  show "answers_accounted env inst pre W p \<Longrightarrow>
      answers_accounted env inst pre W (p\<lparr>pb_s := pe_others env (pb_readings p) (pb_s p), pb_readings := Suc (pb_readings p)\<rparr>)"
    by (auto simp: answers_accounted_def others_quiet_def)
qed (auto simp: answers_accounted_def)

subsection \<open>Posting\<close>

lemma accounted_posted:
  assumes "create_pull_request_review_comment (pe_check env) inst o' r n h path line body (pb_s p) = (s, x)"
    and "answers_accounted env inst pre W p"
  shows "case x of Inr c \<Rightarrow> answers_accounted env inst pre (insert c W) (p\<lparr>pb_s := s\<rparr>)
    | Inl e \<Rightarrow> (case e of Http_status st \<Rightarrow> answers_accounted env inst pre W (p\<lparr>pb_s := s\<rparr>) | _ \<Rightarrow> True)"
proof -
  obtain log where log: "ss_checks (pb_s p) = pre @ log" "set (posted_ids (pe_check env) inst pre log) \<subseteq> W"
    and others: "others_quiet env"
    using assms(2) by (auto simp: answers_accounted_def)
  define call where "call = Check_post (review_comments_url o' r n)
            (JObj [(S ''body'', JStr body), (S ''commit_id'', JStr h), (S ''path'', JStr path),
                   (S ''line'', JInt line), (S ''side'', JStr (S ''RIGHT''))])"
  obtain ok where s: "ss_checks s = pre @ log @ [(call, ok)]"
    using assms(1) log(1)
    by (auto simp: create_pull_request_review_comment_def send_check_def call_def Let_def split: prod.splits)
  have "posted_ids (pe_check env) inst pre (log @ [(call, ok)]) =
      posted_ids (pe_check env) inst pre log @
      (case answered_comment (pe_check env) inst (pre @ log) call of Some c \<Rightarrow> [c] | None \<Rightarrow> [])"
    by (simp add: posted_ids_append inline_call_def call_def S_def)
  moreover have "case x of Inr c \<Rightarrow> answered_comment (pe_check env) inst (pre @ log) call = Some c
      | Inl e \<Rightarrow> (case e of Http_status st \<Rightarrow> answered_comment (pe_check env) inst (pre @ log) call = None | _ \<Rightarrow> True)"
    using assms(1) log(1)
    by (auto simp: create_pull_request_review_comment_def send_check_def call_def Let_def answered_comment_def
        response_object_def api_error_def raise_platform_def split: prod.splits sum.splits option.splits if_splits exn.splits json.splits)
  ultimately show ?thesis
    using log(2) s others by (auto simp: answers_accounted_def split: sum.splits exn.splits)
qed

lemma answer_accounted_mono: "answers_accounted env inst pre W p \<Longrightarrow> W \<subseteq> V \<Longrightarrow> answers_accounted env inst pre V p"
  by (auto simp: answers_accounted_def)

lemma accounted_at_lines:
  assumes "post_at_lines (pe_check env) inst o' r n h post ls st (pb_s p) = (s, Inr x)"
    and "answers_accounted env inst pre W p"
  shows "answers_accounted env inst pre (case x of Posted c \<Rightarrow> insert c W | Recovered _ \<Rightarrow> W) (p\<lparr>pb_s := s\<rparr>)"
  using assms
proof (induction ls arbitrary: st p)
  case (Cons l ls)
  obtain s1 y where create: "create_pull_request_review_comment (pe_check env) inst o' r n h (ip_file_path post) l
      (format_inline_comment_body (ip_title post) (ip_message post) (ip_severity post) (ip_suggestion post)) (pb_s p) = (s1, y)"
    by force
  show ?case
  proof (cases y)
    case (Inr c)
    with Cons.prems create accounted_posted [OF create Cons.prems(2)] show ?thesis by auto
  next
    case (Inl e)
    with Cons.prems(1) create obtain c where e: "e = Http_status c"
      and rest: "post_at_lines (pe_check env) inst o' r n h post ls c s1 = (s, Inr x)"
      by (auto split: exn.splits if_splits)
    from accounted_posted [OF create Cons.prems(2)] Inl e have "answers_accounted env inst pre W (p\<lparr>pb_s := s1\<rparr>)" by simp
    from Cons.IH [OF _ this] rest show ?thesis by simp
  qed
next
  case Nil
  moreover have "p\<lparr>pb_s := pb_s p\<rparr> = p" by (cases p) simp
  ultimately show ?case by auto
qed

subsection \<open>Taking the content back\<close>

text \<open>The requests that take the content of a job back: the check run and the comment are overwritten, the
  inline comments are deleted.\<close>

definition revert_calls :: "surface_build \<Rightarrow> publish_job \<Rightarrow> int list \<Rightarrow> check_call list" where
  "revert_calls b j cs =
     (case pj_github_check_run_id j of None \<Rightarrow> []
      | Some c \<Rightarrow> [Check_patch (check_run_url (sb_owner b) (sb_repo b) c) (concluded (S ''neutral'') SKIP_PUBLISH_NEUTRAL_SUMMARY)]) @
     (case pj_github_comment_id j of None \<Rightarrow> []
      | Some c \<Rightarrow> [Check_patch (issue_comment_url (sb_owner b) (sb_repo b) c)
          (JObj [(S ''body'', JStr SKIP_PUBLISH_NEUTRAL_SUMMARY)])]) @
     map (\<lambda>c. Check_delete (repo_url (sb_owner b) (sb_repo b) @ S ''/pulls/comments/'' @ py_str_int c)) cs"

text \<open>The jobs are \<open>js\<close> and since \<open>start\<close> no inline comment was posted and \<open>calls\<close> were sent.\<close>

definition sending :: "(check_call \<times> bool) list \<Rightarrow> publish_job list \<Rightarrow> check_call set \<Rightarrow> pub \<Rightarrow> bool" where
  "sending start js calls p \<longleftrightarrow>
     ss_publish_jobs (pb_s p) = js \<and>
     (\<exists>log. ss_checks (pb_s p) = start @ log \<and> quiet_log log \<and> calls \<subseteq> fst ` set log)"

text \<open>\<open>m\<close> sends the one request \<open>call\<close>.\<close>

definition sends :: "(session \<Rightarrow> session \<times> (exn + 'a)) \<Rightarrow> check_call \<Rightarrow> bool" where
  "sends m call \<longleftrightarrow>
     \<not> inline_call call \<and> (\<forall>s. \<exists>ok. fst (m s) = s\<lparr>ss_checks := ss_checks s @ [(call, ok)]\<rparr>)"

lemma sends_request:
  "\<not> inline_call call \<Longrightarrow> sends (\<lambda>s. case send_check env s i call of (s, r) \<Rightarrow> (s, f r)) call"
  by (auto simp: sends_def send_check_def Let_def)

lemma triple_sending:
  assumes "sends m call"
  shows "triple (sending start js calls) (best_effort (call_e m)) (\<lambda>_. sending start js (insert call calls)) anything"
proof -
  have step: "sending start js (insert call calls) (p\<lparr>pb_s := s\<rparr>)"
    if pre: "sending start js calls p" and m: "m (pb_s p) = (s, r)" for p s r
  proof -
    obtain ok where s: "s = (pb_s p)\<lparr>ss_checks := ss_checks (pb_s p) @ [(call, ok)]\<rparr>"
      using assms m unfolding sends_def by (metis fst_conv)
    from pre obtain log where "ss_checks (pb_s p) = start @ log" "quiet_log log" "calls \<subseteq> fst ` set log"
      "ss_publish_jobs (pb_s p) = js" by (auto simp: sending_def)
    then show ?thesis
      using assms by (auto simp: sending_def s sends_def quiet_log_def intro!: exI [of _ "log @ [(call, ok)]"])
  qed
  show ?thesis unfolding best_effort_def
    by (rule triple_catch [where R = "\<lambda>_. sending start js (insert call calls)"])
      (auto intro!: triple_call_e triple_ret triple_raise dest: step)
qed

lemma best_effort_with_job:
  assumes "tbl_get pj_id k js = Some j"
    and "triple (sending start js calls) (best_effort (f j)) (\<lambda>_. sending start js calls') anything"
  shows "triple (sending start js calls) (best_effort (with_job k f)) (\<lambda>_. sending start js calls') anything"
proof (rule tripleI)
  fix p q :: pub and x
  assume pre: "sending start js calls p"
  then have "get_publish_job (pb_s p) k = Some j" using assms(1) by (simp add: sending_def get_publish_job_def)
  then have "best_effort (with_job k f) p = best_effort (f j) p"
    by (simp add: best_effort_def catch_e_def with_job_def bind_e_def read_s_def read_e_def)
  moreover assume "best_effort (with_job k f) p = Some (q, Inr x)"
  ultimately show "sending start js calls' q" using triple_Inr [OF assms(2) pre] by simp
qed simp

lemma triple_best_ret: "triple P (best_effort (ret ())) (\<lambda>_. P) anything"
  by (rule tripleI) (auto simp: best_effort_def catch_Some split: if_splits)

lemma triple_deletes:
  "triple (sending start js calls)
     (each_e (\<lambda>c. best_effort (call_e (delete_pull_request_review_comment env inst o' r c))) cs)
     (\<lambda>_. sending start js (calls \<union> (\<lambda>c. Check_delete (repo_url o' r @ S ''/pulls/comments/'' @ py_str_int c)) ` set cs))
     anything"
proof (induction cs arbitrary: calls)
  case (Cons c cs)
  have "sends (delete_pull_request_review_comment env inst o' r c)
      (Check_delete (repo_url o' r @ S ''/pulls/comments/'' @ py_str_int c))"
    unfolding delete_pull_request_review_comment_def Let_def by (rule sends_request) simp
  from triple_bind [OF triple_sending [OF this] Cons.IH] show ?case by simp
qed (auto intro: triple_ret)

lemma revert_sends:
  "triple (sending start js {}) (best_effort_revert_partial_flush_surface env ids b True True cs)
     (\<lambda>_ p. \<exists>j. tbl_get pj_id (fx_job ids) js = Some j \<and> sending start js (set (revert_calls b j cs)) p) anything"
proof (cases "tbl_get pj_id (fx_job ids) js")
  case None
  then have "best_effort (neutralize_github_check_after_partial_flush env ids b) p \<noteq> Some (q, Inr ())"
    if "sending start js {} p" for p q
    using that by (auto simp: sending_def best_effort_def catch_Some neutralize_github_check_after_partial_flush_def
        with_job_def bind_Some read_s_def get_publish_job_def http_or_unavailable_def split: if_splits)
  then show ?thesis
    by (intro tripleI) (auto simp: best_effort_revert_partial_flush_surface_def bind_Some)
next
  case (Some j)
  define check where "check = (case pj_github_check_run_id j of None \<Rightarrow> {}
    | Some c \<Rightarrow> {Check_patch (check_run_url (sb_owner b) (sb_repo b) c) (concluded (S ''neutral'') SKIP_PUBLISH_NEUTRAL_SUMMARY)})"
  define comment where "comment = (case pj_github_comment_id j of None \<Rightarrow> {}
    | Some c \<Rightarrow> {Check_patch (issue_comment_url (sb_owner b) (sb_repo b) c)
        (JObj [(S ''body'', JStr SKIP_PUBLISH_NEUTRAL_SUMMARY)])})"
  have one: "triple (sending start js {}) (best_effort (neutralize_github_check_after_partial_flush env ids b))
      (\<lambda>_. sending start js check) anything"
  proof -
    have "sends (\<lambda>s. update_check_run (pe_check env) s (fx_inst ids) (sb_owner b) (sb_repo b) c (S ''neutral'')
        SKIP_PUBLISH_NEUTRAL_SUMMARY) (Check_patch (check_run_url (sb_owner b) (sb_repo b) c)
        (concluded (S ''neutral'') SKIP_PUBLISH_NEUTRAL_SUMMARY))" for c
      unfolding update_check_run_def Let_def by (rule sends_request) simp
    then show ?thesis unfolding neutralize_github_check_after_partial_flush_def
      by (intro best_effort_with_job [OF Some])
        (auto simp: check_def split: option.split intro: triple_best_ret triple_sending)
  qed
  have two: "triple (sending start js check) (best_effort (neutralize_github_issue_comment_after_partial_flush env ids b))
      (\<lambda>_. sending start js (comment \<union> check)) anything"
  proof -
    have "sends (update_issue_comment (pe_check env) (fx_inst ids) (sb_owner b) (sb_repo b) c SKIP_PUBLISH_NEUTRAL_SUMMARY)
        (Check_patch (issue_comment_url (sb_owner b) (sb_repo b) c) (JObj [(S ''body'', JStr SKIP_PUBLISH_NEUTRAL_SUMMARY)]))" for c
      unfolding update_issue_comment_def Let_def by (rule sends_request) simp
    then show ?thesis unfolding neutralize_github_issue_comment_after_partial_flush_def
      by (intro best_effort_with_job [OF Some])
        (auto simp: comment_def split: option.split intro: triple_best_ret triple_sending)
  qed
  have "set (revert_calls b j cs) = comment \<union> check \<union>
      (\<lambda>c. Check_delete (repo_url (sb_owner b) (sb_repo b) @ S ''/pulls/comments/'' @ py_str_int c)) ` set cs"
    by (auto simp: revert_calls_def check_def comment_def split: option.split)
  then show ?thesis
    unfolding best_effort_revert_partial_flush_surface_def if_True
    using triple_bind [OF one triple_bind [OF two triple_deletes]] Some by simp
qed

subsection \<open>A skipped flush takes its content back\<close>

text \<open>From \<open>pre\<close> on the requests are \<open>a\<close>, then \<open>d\<close> that post no inline comment and take back the content of the
  job and every inline comment posted in \<open>a\<close>.\<close>

definition taken_back :: "pub_env \<Rightarrow> flush_ids \<Rightarrow> surface_build \<Rightarrow> (check_call \<times> bool) list \<Rightarrow> pub \<Rightarrow> bool" where
  "taken_back env ids b pre p \<longleftrightarrow>
     (\<exists>a d j. ss_checks (pb_s p) = pre @ a @ d \<and> quiet_log d \<and> get_publish_job (pb_s p) (fx_job ids) = Some j \<and>
        set (revert_calls b j (posted_ids (pe_check env) (fx_inst ids) pre a)) \<subseteq> fst ` set d)"

lemma revert_calls_mono: "set cs \<subseteq> set ds \<Longrightarrow> set (revert_calls b j cs) \<subseteq> set (revert_calls b j ds)"
  by (auto simp: revert_calls_def split: option.splits)

lemma revert_takes_back:
  "triple (answers_accounted env (fx_inst ids) pre (set cs)) (best_effort_revert_partial_flush_surface env ids b True True cs)
     (\<lambda>_. taken_back env ids b pre) anything"
proof (rule tripleI)
  fix p q :: pub and x :: unit
  assume acc: "answers_accounted env (fx_inst ids) pre (set cs) p"
    and run: "best_effort_revert_partial_flush_surface env ids b True True cs p = Some (q, Inr x)"
  from acc obtain a where a: "ss_checks (pb_s p) = pre @ a"
    "set (posted_ids (pe_check env) (fx_inst ids) pre a) \<subseteq> set cs" by (auto simp: answers_accounted_def)
  have "sending (pre @ a) (ss_publish_jobs (pb_s p)) {} p"
    by (auto simp: sending_def a quiet_log_def)
  from triple_Inr [OF revert_sends this run] obtain j where j: "tbl_get pj_id (fx_job ids) (ss_publish_jobs (pb_s p)) = Some j"
    and sent: "sending (pre @ a) (ss_publish_jobs (pb_s p)) (set (revert_calls b j cs)) q" by blast
  then obtain d where d: "ss_checks (pb_s q) = (pre @ a) @ d" "quiet_log d" "set (revert_calls b j cs) \<subseteq> fst ` set d"
    "ss_publish_jobs (pb_s q) = ss_publish_jobs (pb_s p)" by (auto simp: sending_def)
  with j revert_calls_mono [OF a(2), of b j] show "taken_back env ids b pre q"
    unfolding taken_back_def get_publish_job_def by (metis append_assoc subset_trans)
qed simp

text \<open>After one post.\<close>

definition post_outcome ::
  "pub_env \<Rightarrow> flush_ids \<Rightarrow> surface_build \<Rightarrow> (check_call \<times> bool) list \<Rightarrow> post_state option \<Rightarrow> pub \<Rightarrow> bool" where
  "post_outcome env ids b pre r q =
     (case r of None \<Rightarrow> taken_back env ids b pre q
      | Some st \<Rightarrow> answers_accounted env (fx_inst ids) pre (set (po_written st)) q)"

lemma post_outcome_simps [simp]:
  "post_outcome env ids b pre None = taken_back env ids b pre"
  "post_outcome env ids b pre (Some st) = answers_accounted env (fx_inst ids) pre (set (po_written st))"
  by (simp_all add: post_outcome_def fun_eq_iff)

lemma post_accounts:
  "triple (answers_accounted env (fx_inst ids) pre W)
      (call_e (create_inline_review_comment_with_422_retry (pe_check env) (fx_inst ids) o' r n h p))
      (\<lambda>x. answers_accounted env (fx_inst ids) pre (case x of Posted c \<Rightarrow> insert c W | Recovered _ \<Rightarrow> W)) anything"
  by (rule triple_call_e) (auto simp: create_inline_review_comment_with_422_retry_def simp del: post_at_lines.simps
      dest: accounted_at_lines)

lemma after_post_accounts:
  "triple (answers_accounted env (fx_inst ids) pre (case x of Posted c \<Rightarrow> insert c (set (po_written st))
      | Recovered _ \<Rightarrow> set (po_written st))) (after_post ids b ti p st x) (post_outcome env ids b pre) anything"
proof -
  have saved: "triple (answers_accounted env (fx_inst ids) pre W) (bind_e (write_s f) (\<lambda>_. m)) Q anything"
    if "\<And>s. own_step s (f s)" and "triple (answers_accounted env (fx_inst ids) pre W) m Q anything" for W f m Q
    by (rule triple_bind [OF keeps_any [OF content.keeps_own_write]]) (use that in auto)
  have final: "triple (answers_accounted env (fx_inst ids) pre W) (bind_e commit_e (\<lambda>_. ret (Some st'))) (post_outcome env ids b pre)
      anything" if "W = set (po_written st')" for W st'
    by (rule triple_bind [OF keeps_any [OF content.keeps_commit]]) (auto simp: that intro: triple_ret)
  show ?thesis
  proof (cases x)
    case (Posted c)
    then show ?thesis by (auto simp: after_post_def Let_def intro!: saved final save_threads_own)
  next
    case (Recovered s)
    then show ?thesis by (auto simp: after_post_def Let_def intro!: saved triple_ret add_summary_own)
  qed
qed

lemma post_one_accounts:
  "triple (answers_accounted env (fx_inst ids) pre (set (po_written st))) (post_one env ids b ti p st) (post_outcome env ids b pre)
     anything"
proof -
  have skipped: "triple (answers_accounted env (fx_inst ids) pre (set (po_written st)))
      (bind_e (best_effort_revert_partial_flush_surface env ids b True True (po_written st)) (\<lambda>_. ret None))
      (post_outcome env ids b pre) anything"
    by (rule triple_bind [OF revert_takes_back]) (auto intro: triple_ret)
  have "triple (answers_accounted env (fx_inst ids) pre (set (po_written st)))
      (with_job (fx_job ids) (\<lambda>job. bind_e (call_e (create_inline_review_comment_with_422_retry (pe_check env) (fx_inst ids)
         (sb_owner b) (sb_repo b) (fx_number ids) (pj_head_sha job) p)) (after_post ids b ti p st)))
      (post_outcome env ids b pre) anything"
    by (intro triple_with_job triple_conseq [OF triple_bind [OF post_accounts after_post_accounts]]) auto
  then show ?thesis
    unfolding post_one_def
    by (intro triple_bind [OF keeps_any [OF content.keeps_recheck]]) (auto intro: skipped)
qed

lemma posts_account:
  "triple (answers_accounted env (fx_inst ids) pre (set (po_written st))) (post_inline_comments env ids b ti retry ps st)
     (post_outcome env ids b pre) anything"
proof (induction ps arbitrary: st)
  case (Cons p ps)
  have "triple (post_outcome env ids b pre r) (case r of None \<Rightarrow> ret None
      | Some st \<Rightarrow> post_inline_comments env ids b ti retry ps st) (post_outcome env ids b pre) anything" for r
    by (cases r) (auto intro: triple_ret Cons.IH)
  then have "triple (answers_accounted env (fx_inst ids) pre (set (po_written st))) (bind_e (post_one env ids b ti p st)
      (\<lambda>r. case r of None \<Rightarrow> ret None | Some st \<Rightarrow> post_inline_comments env ids b ti retry ps st))
      (post_outcome env ids b pre) anything" for st
    by (rule triple_bind [OF post_one_accounts])
  then show ?case
    using Cons.IH Cons.IH [of "st\<lparr>po_threads := AList.update (ip_group_fingerprint p) c (po_threads st)\<rparr>" for c]
    by (cases "map_of retry (ip_group_fingerprint p)") auto
qed (auto intro: triple_ret)

abbreviation skip_taken_back ::
  "pub_env \<Rightarrow> flush_ids \<Rightarrow> surface_build \<Rightarrow> (check_call \<times> bool) list \<Rightarrow> flush_result \<Rightarrow> pub \<Rightarrow> bool" where
  "skip_taken_back env ids b pre \<equiv> \<lambda>r p. r = Flush_skipped \<longrightarrow> taken_back env ids b pre p"

lemma flush_posts_taken_back:
  "triple (answers_accounted env (fx_inst ids) pre {}) (flush_posts env ids b persist ti retry st sf)
     (skip_taken_back env ids b pre) anything"
proof -
  have finish: "triple (post_outcome env ids b pre posted) (case posted of None \<Rightarrow> ret None
      | Some po \<Rightarrow> bind_e (finish_inline env ids b (sf_issue sf) po) (\<lambda>body. ret (Some body)))
      (\<lambda>body p. body = None \<longrightarrow> taken_back env ids b pre p) anything" for posted
    by (rule tripleI) (auto simp: bind_Some split: option.splits)
  have init: "answers_accounted env (fx_inst ids) pre {} = answers_accounted env (fx_inst ids) pre (set (po_written
      \<lparr>po_threads = st_threads st, po_thread_ids = [], po_written = [], po_recovered_count = 0, po_recovered = fps\<rparr>))" for fps
    by simp
  have posts: "triple (answers_accounted env (fx_inst ids) pre {}) (if sb_post_inline b then
         with_job (fx_job ids) (\<lambda>job.
         bind_e (post_inline_comments env ids b (ti_threads ti) retry (sb_inline_posts b)
           \<lparr>po_threads = st_threads st, po_thread_ids = [], po_written = [], po_recovered_count = 0,
            po_recovered = load_inline_422_recovered_fingerprints (pj_summary_json job)\<rparr>) (\<lambda>posted.
           case posted of
             None \<Rightarrow> ret None
           | Some po \<Rightarrow> bind_e (finish_inline env ids b (sf_issue sf) po) (\<lambda>body. ret (Some body))))
       else ret (Some (sf_issue sf))) (\<lambda>body p. body = None \<longrightarrow> taken_back env ids b pre p) anything"
    unfolding init
    by (auto intro!: triple_with_job triple_conseq [OF triple_bind [OF posts_account finish]] intro: triple_ret)
  show ?thesis unfolding flush_posts_def
    by (rule triple_bind [OF posts], rule tripleI)
      (auto simp: with_job_def read_s_def write_s_def commit_e_def bind_Some Let_def split: option.splits if_splits)
qed

lemma unless_skipped_taken_back:
  assumes "triple (answers_accounted env (fx_inst ids) pre {}) rest (skip_taken_back env ids b pre) anything"
  shows "triple (answers_accounted env (fx_inst ids) pre {})
     (unless_skipped env ids (best_effort_revert_partial_flush_surface env ids b True True []) rest)
     (skip_taken_back env ids b pre) anything"
proof -
  have "triple (answers_accounted env (fx_inst ids) pre {})
      (bind_e (best_effort_revert_partial_flush_surface env ids b True True []) (\<lambda>_. ret Flush_skipped))
      (skip_taken_back env ids b pre) anything"
    by (rule triple_bind [OF revert_takes_back [where cs = "[]", unfolded list.set(1)]]) (auto intro: triple_ret)
  with assms show ?thesis
    unfolding unless_skipped_def by (intro triple_bind [OF keeps_any [OF content.keeps_recheck]]) auto
qed

text \<open>C17. A flush that loses its authority after it began to write, because a newer commit arrived or the run
  was superseded, takes everything back: the requests end with a part that posts no inline comment and in
  which the check run and the comment of the job are overwritten with the neutral notice and every inline
  comment this flush posted is deleted.\<close>

theorem skipped_content_taken_back:
  assumes "flush_content env ids b persist ti retry st sf p = Some (p', Inr Flush_skipped)" and "others_quiet env"
  shows "\<exists>a d j. ss_checks (pb_s p') = ss_checks (pb_s p) @ a @ d \<and> quiet_log d \<and>
    get_publish_job (pb_s p') (fx_job ids) = Some j \<and>
    set (revert_calls b j (posted_ids (pe_check env) (fx_inst ids) (ss_checks (pb_s p)) a)) \<subseteq> fst ` set d"
proof -
  have pre: "answers_accounted env (fx_inst ids) (ss_checks (pb_s p)) {} p"
    using assms(2) by (simp add: answers_accounted_def)
  have "triple (answers_accounted env (fx_inst ids) pre {}) (flush_content env ids b persist ti retry st sf)
      (skip_taken_back env ids b pre) anything" for pre
    unfolding flush_content_def Let_def
    by (intro triple_bind [OF keeps_any [OF content.keeps_write_check]] triple_bind [OF keeps_any [OF content.keeps_write_comment]]
        triple_bind [OF keeps_any [OF content.keeps_commit]] unless_skipped_taken_back flush_posts_taken_back)
  from triple_Inr [OF this pre assms(1)] show ?thesis by (simp add: taken_back_def)
qed

text \<open>A flush of two inline comments; the run is superseded after the first was posted.\<close>

definition demo_flush_pub :: pub where
  "demo_flush_pub = demo_pub\<lparr>pb_s := demo_session\<lparr>ss_publish_jobs := [demo_publish_job\<lparr>pj_head_sha := S ''bb'',
     pj_status := PJ_processing, pj_github_check_run_id := Some 40, pj_github_comment_id := Some 41\<rparr>]\<rparr>\<rparr>"

definition demo_flush_env :: pub_env where
  "demo_flush_env = demo_pub_env\<lparr>pe_others := (\<lambda>n s. if n < 3 then s else
     s\<lparr>ss_review_runs := [demo_run\<lparr>rr_status := RR_superseded\<rparr>]\<rparr>)\<rparr>"

definition demo_ids :: flush_ids where
  "demo_ids = \<lparr>fx_job = 30, fx_run = 1, fx_pr = 4, fx_inst = 9, fx_number = 17\<rparr>"

definition demo_inline_post :: "pystr \<Rightarrow> inline_post" where
  "demo_inline_post fp = \<lparr>ip_finding_id = 20, ip_group_id = 10, ip_group_fingerprint = fp, ip_file_path = S ''a.py'',
     ip_start_line = 7, ip_title = S ''t'', ip_message = S ''m'', ip_severity = S ''error'', ip_suggestion = None\<rparr>"

definition demo_build :: surface_build where
  "demo_build = \<lparr>sb_check_summary = S ''c'', sb_issue_comment = S ''i'', sb_conclusion = S ''neutral'', sb_summary_json = [],
     sb_inline_threads = [], sb_prior_v2 = [], sb_inline_posts = [demo_inline_post (S ''g1''), demo_inline_post (S ''g2'')],
     sb_post_inline = True, sb_is_update_from_other = False, sb_existing_check = None, sb_existing_comment = None,
     sb_existing_inline_posted = False, sb_external_id = [], sb_owner = S ''o'', sb_repo = S ''r'', sb_format_ctx = None,
     sb_publishable = [], sb_prior_collapsed = [], sb_provider = None, sb_model = None\<rparr>"

lemmas demo_publish_defs = demo_flush_pub_def demo_flush_env_def demo_ids_def demo_inline_post_def demo_build_def
  demo_pub_def demo_pub_env_def demo_publish_job_def demo_defs

definition demo_stale :: stale_state where
  "demo_stale = \<lparr>st_skipped = [], st_closed = [], st_threads = []\<rparr>"

definition demo_surfaces :: surfaces where
  "demo_surfaces = \<lparr>sf_check = S ''c'', sf_issue = S ''i'', sf_collapsed_json = [], sf_rollup = None\<rparr>"

lemma demo_flush_skips:
  "case flush_content demo_flush_env demo_ids demo_build True no_threads [] demo_stale demo_surfaces demo_flush_pub of
     Some (p', Inr Flush_skipped) \<Rightarrow> inline_call (fst (ss_checks (pb_s p') ! 2)) | _ \<Rightarrow> False"
  by (simp add: demo_stale_def demo_surfaces_def inline_call_def flush_content_def Let_def write_check_def write_issue_comment_def bind_e_def with_job_def read_s_def
      read_e_def demo_publish_defs session_gets tbl_get_def call_e_def on_session_def on_part_def total_e_def
      update_check_run_def send_check_def is_success_def ret_def update_issue_comment_def unless_skipped_def
      recheck_publish_authority_before_flush_def refresh_e_def upd_e_def publish_gate_def
      is_review_run_superseded_def of_result_def commit_e_def flush_posts_def post_one_def S_def
      create_inline_review_comment_with_422_retry_def create_pull_request_review_comment_def
      response_object_def json_int.simps after_post_def write_s_def no_threads_def
      load_inline_422_recovered_fingerprints_def summary_member_def save_threads_def
      best_effort_revert_partial_flush_surface_def summary_member_def json_int.simps job_summary_def
      skip_publish_job_at_gate_def skip_manifest_key_def neutralize_github_check_after_partial_flush_def
      neutralize_github_issue_comment_after_partial_flush_def best_effort_def catch_e_def set_job_def
      put_publish_job_def tbl_put_def add_summary_def record_publish_skip_on_pipeline_def
      get_pipeline_run_for_review_run_def delete_pull_request_review_comment_def updates_def
      serialize_inline_thread_map_def)

theorem skipped_content_taken_back_witness:
  "\<exists>p' a d j. flush_content demo_flush_env demo_ids demo_build True no_threads [] demo_stale demo_surfaces demo_flush_pub =
      Some (p', Inr Flush_skipped) \<and> ss_checks (pb_s p') = a @ d \<and> quiet_log d \<and>
    get_publish_job (pb_s p') 30 = Some j \<and>
    set (revert_calls demo_build j (posted_ids (pe_check demo_flush_env) 9 [] a)) \<subseteq> fst ` set d"
proof -
  obtain p' where run: "flush_content demo_flush_env demo_ids demo_build True no_threads [] demo_stale demo_surfaces demo_flush_pub =
      Some (p', Inr Flush_skipped)"
    using demo_flush_skips by (auto split: option.splits prod.splits sum.splits flush_result.splits)
  have "others_quiet demo_flush_env" by (simp add: others_quiet_def demo_flush_env_def)
  moreover have "ss_checks (pb_s demo_flush_pub) = []" by (simp add: demo_publish_defs)
  ultimately show ?thesis
    using skipped_content_taken_back [OF run] run by (simp add: demo_ids_def)
qed

subsection \<open>The row of the job\<close>

definition job_rows :: "session \<Rightarrow> uuid list" where
  "job_rows s = map pj_id (ss_publish_jobs s)"

text \<open>Other transactions never delete the row of the job.\<close>

definition others_keep :: "pub_env \<Rightarrow> uuid \<Rightarrow> bool" where
  "others_keep env k \<longleftrightarrow> (\<forall>n s. k \<in> set (job_rows s) \<longrightarrow> k \<in> set (job_rows (pe_others env n s)))"

definition row_kept :: "pub_env \<Rightarrow> uuid \<Rightarrow> pub \<Rightarrow> bool" where
  "row_kept env k p \<longleftrightarrow>
     others_keep env k \<and> k \<in> set (job_rows (pb_s p)) \<and> k \<in> set (job_rows (pb_committed p))"

lemma own_step_rows: "own_step s s' \<Longrightarrow> job_rows s' = job_rows s"
  by (simp add: own_step_def job_rows_def)

lemma post_at_lines_checks:
  "post_at_lines env inst o' r n commit p ls st s = (s', x) \<Longrightarrow> only_checks s s'"
proof (induction ls arbitrary: st s)
  case (Cons l ls)
  have create: "create_pull_request_review_comment env inst o' r n commit path line body s = (t, y) \<Longrightarrow> only_checks s t"
    for path line body t y
    by (auto simp: create_pull_request_review_comment_def split: prod.splits dest: send_check_session)
  have trans: "only_checks s t \<Longrightarrow> only_checks t s' \<Longrightarrow> only_checks s s'" for t by (auto simp: only_checks_def)
  from Cons.prems show ?case
    by (auto split: prod.splits sum.splits exn.splits if_splits dest!: create Cons.IH intro: trans)
qed simp

interpretation row: publish_invariant_posts env "row_kept env k" for env k
proof
  fix p s and inst n :: int and o' r h :: pystr and post x
  show "row_kept env k p \<Longrightarrow> own_step (pb_s p) s \<Longrightarrow> row_kept env k (p\<lparr>pb_s := s\<rparr>)"
    by (simp add: row_kept_def own_step_rows)
  show "row_kept env k p \<Longrightarrow>
      row_kept env k (p\<lparr>pb_s := pe_others env (pb_readings p) (pb_s p), pb_readings := Suc (pb_readings p)\<rparr>)"
    by (auto simp: row_kept_def others_keep_def)
  show "row_kept env k p \<Longrightarrow>
      create_inline_review_comment_with_422_retry (pe_check env) inst o' r n h post (pb_s p) = (s, x) \<Longrightarrow>
      row_kept env k (p\<lparr>pb_s := s\<rparr>)"
    by (auto simp: row_kept_def job_rows_def create_inline_review_comment_with_422_retry_def simp del: post_at_lines.simps
        dest!: post_at_lines_checks only_checks_jobs)
qed (auto simp: row_kept_def)

lemma row_after_context:
  "row_kept env k p \<Longrightarrow> row_kept env k (roll_back_e p)"
  "row_kept env k p \<Longrightarrow> row_kept env k (p\<lparr>pb_committed := pb_s p\<rparr>)"
  by (simp_all add: row_kept_def roll_back_e_def job_rows_def)

lemma keeps_row_context: "keeps (row_kept env k) m \<Longrightarrow> keeps (row_kept env k) (in_context m)"
  by (rule keepsI) (auto simp: in_context_def row_after_context split: option.splits prod.splits sum.splits dest: keepsD)

lemma mark_failed_own: "own_step s (mark_publish_job_failed k m s)"
  by (auto simp: mark_publish_job_failed_def set_job_own split: option.split)

lemma finalize_for_job_own:
  "finalize_pipeline_github_check_for_publish_job env s k m = (s', r) \<Longrightarrow> own_step s s'"
  by (auto simp: finalize_pipeline_github_check_for_publish_job_def finalize_pipeline_github_check_for_review_run_def
      split: option.splits dest: own_calls)

lemma keeps_row_attempts: "keeps (row_kept env k) (publish_attempts env j n)"
proof -
  have run: "keeps (row_kept env k) (execute_publish_review_run env j)"
    unfolding execute_publish_review_run_def
    by (intro keeps_row_context keeps_rules row.keeps_refresh row.keeps_run)
  have mark: "keeps (row_kept env k) (bind_e (mark_failed_e env j m) (\<lambda>_. raise_e e))" for m and e :: exn
    unfolding mark_failed_e_def
    by (intro keeps_rules keeps_row_context row.keeps_refresh row.keeps_own_write row.keeps_own_call mark_failed_own)
      (auto dest: finalize_for_job_own)
  show ?thesis by (induction n) (auto intro!: keeps_rules run mark)
qed

text \<open>C16. The publish task never leaves its job open: when it returns, with or without an exception, after any
  number of retries and whatever other transactions did short of deleting the job, the committed job is
  completed, failed or skipped.  The one exception is a failure of the failure handler itself: concluding
  the check run raised on the rows as they are committed, and the task raised the same exception.\<close>

theorem publish_task_settles:
  assumes "publish_review_run env k p = Some (p', r)" and "others_keep env k"
    and "get_publish_job (pb_s p) k \<noteq> None" and "get_publish_job (pb_committed p) k \<noteq> None"
  shows "(\<exists>j. get_publish_job (pb_committed p') k = Some j \<and>
      pj_status j \<in> {PJ_completed, PJ_failed, PJ_skipped_not_head, PJ_skipped_superseded}) \<or>
    (\<exists>e. r = Inl e \<and> conclusion_raises env k p' e)"
proof -
  have row: "get_publish_job s k \<noteq> None \<longleftrightarrow> k \<in> set (job_rows s)" for s
    by (force simp: get_publish_job_def tbl_get_def find_None_iff job_rows_def)
  then have "row_kept env k p" using assms by (auto simp: row_kept_def)
  with assms(1) have "row_kept env k p'"
    unfolding publish_review_run_def by (blast intro: keepsD [OF keeps_row_attempts])
  with row have "get_publish_job (pb_committed p') k \<noteq> None" by (simp add: row_kept_def)
  with task_settles [OF assms(1)] show ?thesis
    by (auto simp: committed_settled_def TERMINAL_PUBLISH_JOB_STATUSES_def split: option.splits)
qed

theorem publish_task_settles_witness:
  "\<exists>p' j. publish_review_run demo_pub_env 30 demo_pub = Some (p', Inr ()) \<and> get_publish_job (pb_committed p') 30 = Some j \<and>
    pj_status j \<in> {PJ_completed, PJ_failed, PJ_skipped_not_head, PJ_skipped_superseded}"
proof -
  obtain p' where "publish_review_run demo_pub_env 30 demo_pub = Some (p', Inr ())" using demo_task_skips by blast
  moreover from publish_task_settles [OF this] have "\<exists>j. get_publish_job (pb_committed p') 30 = Some j \<and>
      pj_status j \<in> {PJ_completed, PJ_failed, PJ_skipped_not_head, PJ_skipped_superseded}"
    by (simp add: others_keep_def demo_pub_env_def demo_pub_def get_publish_job_def tbl_get_def demo_publish_job_def)
  ultimately show ?thesis by blast
qed

subsection \<open>One open job for a run\<close>

definition open_jobs :: "session \<Rightarrow> uuid \<Rightarrow> publish_job list" where
  "open_jobs s run_id = filter (is_open_job_of run_id) (ss_publish_jobs s)"

lemma open_publish_job_hd: "open_publish_job s run_id = (case open_jobs s run_id of [] \<Rightarrow> None | j # js \<Rightarrow> Some (pj_id j))"
proof -
  have "List.find P xs = (case filter P xs of [] \<Rightarrow> None | x # _ \<Rightarrow> Some x)" for P and xs :: "publish_job list"
    by (induction xs) auto
  then show ?thesis by (simp add: open_publish_job_def open_jobs_def split: list.split)
qed

lemma open_jobs_set_check:
  assumes "k \<notin> set (job_rows s)" and "pj_id j = k"
  shows "open_jobs (set_job k (\<lambda>j. j\<lparr>pj_github_check_run_id := c\<rparr>) (add_publish_job j s)) run_id =
    open_jobs s run_id @ (if is_open_job_of run_id j then [j\<lparr>pj_github_check_run_id := c\<rparr>] else [])"
proof -
  have absent: "tbl_get pj_id k (ss_publish_jobs s) = None"
    using assms(1) by (force simp: tbl_get_def find_None_iff job_rows_def)
  have "(\<lambda>q. if pj_id q = k then r else q) q = q" if "q \<in> set (ss_publish_jobs s)" for q r
    using that assms(1) by (auto simp: job_rows_def)
  then have "map (\<lambda>q. if pj_id q = k then r else q) (ss_publish_jobs s) = ss_publish_jobs s" for r
    by (intro map_idI)
  moreover have "tbl_get pj_id k (ss_publish_jobs s @ [j]) = Some j"
    using tbl_get_add [of pj_id k j "ss_publish_jobs s"] absent assms(2) by (simp add: tbl_add_def)
  ultimately show ?thesis
    using assms(2)
    by (auto simp: set_job_def put_publish_job_def get_publish_job_def add_publish_job_def tick_def tbl_put_def
        tbl_add_def open_jobs_def is_open_job_of_def)
qed

lemma open_jobs_add: "open_jobs (add_publish_job j s) run_id = open_jobs s run_id @ (if is_open_job_of run_id j then [j] else [])"
  by (simp add: open_jobs_def add_publish_job_def tick_def tbl_add_def)

lemma link_publish_rows: "open_jobs (link_publish_job_to_pipeline s p k) r = open_jobs s r"
  "set_job k f (link_publish_job_to_pipeline s p k') = link_publish_job_to_pipeline (set_job k f s) p k'"
  by (simp_all add: open_jobs_def link_publish_job_to_pipeline_def put_pipeline_run_def set_job_def get_publish_job_def
      put_publish_job_def split: option.split)

text \<open>C19. A completed review run has one publish job to dispatch: asked again, by a retry or by a second
  trigger, the service returns the open job it has and changes nothing; it creates a job, for the head the
  run reviewed, only when none is open.\<close>

theorem publish_job_exclusive:
  assumes "resolve_publish_job_id_for_review_run s run_id = (s', (k, created))"
    and "length (open_jobs s run_id) \<le> 1"
    and "get_review_run s run_id = Some run" and "rr_status run = RR_completed"
    and "get_revision s (rr_revision_id run) = Some rv" and "next_uuid s \<notin> set (job_rows s)"
  shows "\<exists>j. open_jobs s' run_id = [j] \<and> k = Some (pj_id j) \<and> (created \<longleftrightarrow> open_jobs s run_id = []) \<and>
    (if created then pj_head_sha j = rev_head_sha rv \<and> pj_revision_id j = rr_revision_id run else s' = s)"
proof (cases "open_jobs s run_id")
  case Nil
  define job where "job = new_publish_job s run_id (rr_revision_id run) (rr_workspace_id run) (rev_head_sha rv)"
  have job: "pj_id job = next_uuid s" "is_open_job_of run_id job" "pj_head_sha job = rev_head_sha rv"
    "pj_revision_id job = rr_revision_id run"
    by (simp_all add: job_def new_publish_job_def is_open_job_of_def OPEN_PUBLISH_JOB_STATUSES_def)
  have none: "open_publish_job s run_id = None" using Nil by (simp add: open_publish_job_hd)
  from assms(1) show ?thesis
    using Nil job open_jobs_set_check [OF assms(6) job(1)]
    by (auto simp: resolve_publish_job_id_for_review_run_def create_publish_job_for_review_run_def assms(3-5) none
        job_def [symmetric] Let_def link_publish_rows open_jobs_add split: option.splits prod.splits)
next
  case (Cons j js)
  with assms(2) have "open_jobs s run_id = [j]" by simp
  with assms(1) show ?thesis
    by (auto simp: resolve_publish_job_id_for_review_run_def create_publish_job_for_review_run_def assms(3-5)
        open_publish_job_hd)
qed

theorem publish_job_exclusive_witness:
  "\<exists>s' k j. resolve_publish_job_id_for_review_run demo_session 1 = (s', (k, True)) \<and> open_jobs s' 1 = [j] \<and> k = Some (pj_id j)"
proof -
  obtain s' k created where r: "resolve_publish_job_id_for_review_run demo_session 1 = (s', (k, created))"
    by (metis prod_cases3)
  have empty: "open_jobs demo_session 1 = []" by (simp add: open_jobs_def demo_defs)
  have rows: "get_review_run demo_session 1 = Some demo_run" "rr_status demo_run = RR_completed"
    "get_revision demo_session (rr_revision_id demo_run) = Some demo_revision" "job_rows demo_session = []"
    by (simp_all add: demo_defs session_gets tbl_get_def job_rows_def)
  obtain j where "open_jobs s' 1 = [j]" "k = Some (pj_id j)" "created"
    using publish_job_exclusive [OF r _ rows(1-3)] by (auto simp: empty rows)
  with r show ?thesis by auto
qed

end
