(* ===== verification/Inline_Laws.thy ===== *)
theory Inline_Laws
  imports Inline_Threads
begin

section \<open>Properties of the inline thread maps\<close>

text \<open>
  The maps a publish works with are canonical, reading a map back gives what was written, and the threads
  that are collapsed are exactly those without a live finding.
\<close>

subsection \<open>Canonical keys\<close>

text \<open>No key is a fingerprint, a key that is an identifier is written the way \<open>str(uuid)\<close> writes it, and no
  key occurs twice.\<close>

definition canonical_key :: "unicode \<Rightarrow> pystr \<Rightarrow> bool" where
  "canonical_key u k \<longleftrightarrow>
     \<not> is_sha256_hex k \<and> (case parse_group_id_key u k of None \<Rightarrow> True | Some g \<Rightarrow> k = uuid_str g)"

definition canonical_map :: "unicode \<Rightarrow> (pystr \<times> 'v) list \<Rightarrow> bool" where
  "canonical_map u m \<longleftrightarrow> distinct (map fst m) \<and> list_all (canonical_key u) (map fst m)"

lemma uuid_not_hex [simp]: "\<not> is_sha256_hex (uuid_str g)"
  by (simp add: is_sha256_hex_def)

lemma canonical_uuid [simp]: "canonical_key u (uuid_str g)"
  by (simp add: canonical_key_def parse_group_id_key_def)

lemma canonical_setdefault: "canonical_map u d \<Longrightarrow> canonical_key u k \<Longrightarrow> canonical_map u (setdefault k v d)"
  by (auto simp: canonical_map_def setdefault_def map_of_eq_None_iff split: option.split)

lemma canonical_update: "canonical_map u d \<Longrightarrow> canonical_key u k \<Longrightarrow> canonical_map u (AList.update k v d)"
  by (auto simp: canonical_map_def list_all_iff distinct_update dom_update)

lemma canonical_id_entry: "canonical_map u d \<Longrightarrow> canonical_map u (rekey_id_entry u kv d)"
  by (cases "parse_group_id_key u (fst kv)")
    (auto simp: rekey_id_entry_def canonical_key_def [of u "fst kv"] intro!: canonical_update)

lemma canonical_hex_entry:
  assumes "canonical_map u d" and "\<And>k v. map_of fp_to_id k = Some v \<Longrightarrow> canonical_key u v"
  shows "canonical_map u (rekey_hex_entry fp_to_id kv d)"
  using assms by (auto simp: rekey_hex_entry_def split: option.split intro!: canonical_setdefault)

lemma canonical_fold: "(\<And>kv d. canonical_map u d \<Longrightarrow> canonical_map u (f kv d)) \<Longrightarrow>
    canonical_map u d \<Longrightarrow> canonical_map u (fold f xs d)"
  by (induction xs arbitrary: d) auto

lemma canonical_identity: "map_of (fingerprint_to_group_id_map s pr fps) k = Some v \<Longrightarrow> canonical_key u v"
  by (auto simp: fingerprint_to_group_id_map_def map_of_dict_of group_identity_key_def
      split: if_splits dest!: map_of_SomeD)

lemma canonical_rekey: "canonical_map u (rekey_inline_thread_map_to_group_ids u s pr m)"
proof -
  have hex: "canonical_map u (fold (rekey_hex_entry (fingerprint_to_group_id_map s pr fps)) m [])" for fps
    by (rule canonical_fold [OF canonical_hex_entry]) (auto simp: canonical_map_def dest: canonical_identity)
  show ?thesis
    unfolding rekey_inline_thread_map_to_group_ids_def Let_def
    by (rule canonical_fold [OF canonical_id_entry hex])
qed

text \<open>On a canonical map both loops change nothing.\<close>

lemma hex_fold_canonical: "canonical_map u m \<Longrightarrow> fold (rekey_hex_entry fp_to_id) m d = d"
  by (induction m arbitrary: d) (auto simp: canonical_map_def canonical_key_def rekey_hex_entry_def)

lemma id_entry_canonical: "canonical_key u k \<Longrightarrow> rekey_id_entry u (k, v) d = AList.update k v d"
  by (auto simp: canonical_key_def rekey_id_entry_def split: option.splits)

lemma update_fresh: "k \<notin> set (map fst d) \<Longrightarrow> AList.update k v d = d @ [(k, v)]"
  by (induction d) auto

lemma id_fold_canonical:
  "canonical_map u m \<Longrightarrow> set (map fst d) \<inter> set (map fst m) = {} \<Longrightarrow> fold (rekey_id_entry u) m d = d @ m"
proof (induction m arbitrary: d)
  case (Cons kv m)
  obtain k v where kv: "kv = (k, v)" by force
  from Cons.prems have "canonical_key u k" "canonical_map u m" "k \<notin> set (map fst d)" "k \<notin> set (map fst m)"
    by (auto simp: canonical_map_def kv)
  then show ?case
    using Cons.prems(2) Cons.IH [of "d @ [(k, v)]"] by (auto simp: kv id_entry_canonical update_fresh)
qed simp

lemma rekey_canonical_id: "canonical_map u m \<Longrightarrow> rekey_inline_thread_map_to_group_ids u s pr m = m"
  by (simp add: rekey_inline_thread_map_to_group_ids_def hex_fold_canonical id_fold_canonical)

text \<open>C25. The maps read from earlier publishes are canonical whatever those jobs stored: every key is the
  identity of a group as it is written today or a legacy text that is neither an identifier nor a
  fingerprint, no key occurs twice, and rekeying a map again leaves it as it is.\<close>

theorem rekeyed_map_canonical:
  "canonical_map u (rekey_inline_thread_map_to_group_ids u s pr m) \<and>
   rekey_inline_thread_map_to_group_ids u s' pr' (rekey_inline_thread_map_to_group_ids u s pr m) =
     rekey_inline_thread_map_to_group_ids u s pr m"
  by (simp add: canonical_rekey rekey_canonical_id)

subsection \<open>Reading what was written\<close>

lemma entry_comment_id [simp]: "thread_comment_id (thread_entry prior ids fp c) = Some c"
  by (simp add: thread_entry_def)

lemma deserialize_serialize:
  "deserialize_inline_thread_map (Some (JObj (serialize_inline_thread_map m prior ids))) = m"
  by (induction m) (auto simp: deserialize_inline_thread_map_def serialize_inline_thread_map_def)

lemma get_serialized:
  "map_of (serialize_inline_thread_map m prior ids) fp =
     map_option (thread_entry prior ids fp) (map_of m fp)"
  by (induction m) (auto simp: serialize_inline_thread_map_def)

lemma prior_of_entry:
  assumes "[] \<notin> set (map snd ids)"
  shows "prior_thread_id [(fp, thread_entry prior ids fp c)] fp c =
    (case map_of ids fp of Some t \<Rightarrow> Some t | None \<Rightarrow> prior_thread_id prior fp c)"
proof (cases "map_of ids fp")
  case (Some t)
  with assms have "t \<noteq> []" using map_of_SomeD [OF Some] by force
  with Some show ?thesis by (simp add: prior_thread_id_def thread_entry_def S_def)
next
  case None
  show ?thesis
  proof (cases "prior_thread_id prior fp c")
    case (Some t)
    then have "t \<noteq> []" by (auto simp: prior_thread_id_def split: option.splits json.splits if_splits)
    with None Some show ?thesis by (simp add: prior_thread_id_def [of "[_]"] thread_entry_def S_def)
  qed (use None in \<open>simp add: prior_thread_id_def [of "[_]"] thread_entry_def S_def\<close>)
qed

lemma prior_of_serialized:
  assumes "[] \<notin> set (map snd ids)" and "map_of m fp = Some c"
  shows "prior_thread_id (serialize_inline_thread_map m prior ids) fp c =
    (case map_of ids fp of Some t \<Rightarrow> Some t | None \<Rightarrow> prior_thread_id prior fp c)"
  using prior_of_entry [OF assms(1), of fp prior c] assms(2)
  by (simp add: prior_thread_id_def get_serialized)

text \<open>C26. Nothing is lost between a publish and the next one that reads its summary: the map of comments is
  read back as it was written, and writing it again with what was stored as the earlier version and no newly
  found threads keeps every entry, its thread identifier included.\<close>

theorem thread_map_roundtrip:
  assumes "distinct (map fst m)" and "[] \<notin> set (map snd ids)"
  shows "deserialize_inline_thread_map (Some (JObj (serialize_inline_thread_map m prior ids))) = m \<and>
    serialize_inline_thread_map m (serialize_inline_thread_map m prior ids) [] = serialize_inline_thread_map m prior ids"
proof -
  have "thread_entry (serialize_inline_thread_map m prior ids) [] fp c = thread_entry prior ids fp c"
    if "(fp, c) \<in> set m" for fp c
    using prior_of_serialized [OF assms(2), of m fp c prior] map_of_is_SomeI [OF assms(1) that]
    by (auto simp: thread_entry_def split: option.splits)
  then have "serialize_inline_thread_map m (serialize_inline_thread_map m prior ids) [] =
      serialize_inline_thread_map m prior ids"
    unfolding serialize_inline_thread_map_def [of m _ "[]"]
    by (subst serialize_inline_thread_map_def) auto
  then show ?thesis by (simp add: deserialize_serialize)
qed

definition demo_v2_prior :: "(pystr \<times> json) list" where
  "demo_v2_prior = [(uuid_str 8, JObj [(S ''comment_id'', JInt 81), (S ''thread_id'', JStr (S ''PRRT_8''))])]"

theorem thread_map_roundtrip_witness:
  "deserialize_inline_thread_map (Some (JObj (serialize_inline_thread_map [(uuid_str 7, 71), (uuid_str 8, 81)]
      demo_v2_prior [(uuid_str 7, S ''PRRT_7'')]))) = [(uuid_str 7, 71), (uuid_str 8, 81)] \<and>
   serialize_inline_thread_map [(uuid_str 7, 71), (uuid_str 8, 81)] (serialize_inline_thread_map
      [(uuid_str 7, 71), (uuid_str 8, 81)] demo_v2_prior [(uuid_str 7, S ''PRRT_7'')]) [] =
    serialize_inline_thread_map [(uuid_str 7, 71), (uuid_str 8, 81)] demo_v2_prior [(uuid_str 7, S ''PRRT_7'')]"
  by (rule thread_map_roundtrip) (auto dest: uuid_str_inj simp: S_def)

subsection \<open>Which threads are collapsed\<close>

text \<open>A finding of the run that keeps the thread of its group open.\<close>

definition keeps_open :: "session \<Rightarrow> uuid \<Rightarrow> finding_group \<Rightarrow> finding \<Rightarrow> bool" where
  "keeps_open s run_id g f \<longleftrightarrow>
     fi_review_run_id f = run_id \<and> fi_group_id f = Some (fg_id g) \<and> fi_file_path f \<noteq> None \<and> fi_start_line f \<noteq> None \<and>
     (is_judge_candidate (fi_severity f) (fi_category f) \<longrightarrow> fg_id g \<in> set (outcome_group_ids s run_id))"

text \<open>The group still has an open finding in the run, and was not stamped addressed.\<close>

definition still_open_in_run :: "session \<Rightarrow> uuid \<Rightarrow> finding_group \<Rightarrow> bool" where
  "still_open_in_run s run_id g \<longleftrightarrow>
     fg_state g = Grp_active \<and> fg_resolution_status g \<noteq> Some RS_addressed \<and>
     list_ex (keeps_open s run_id g) (ss_findings s)"

lemma set_resolve:
  "set (fingerprints_to_resolve_inline_threads u s pr threads outdated publishable) =
     {fp \<in> set (map fst threads). fp \<notin> set publishable} \<union> fst ` {kv \<in> set threads. snd kv \<in> set outdated} \<union>
     {fp \<in> set (map fst threads). \<exists>g \<in> set (ss_groups s). fg_pull_request_id g = pr \<and> fp = uuid_str (fg_id g) \<and>
        collapses (List.map_filter (\<lambda>kv. parse_group_id_key u (fst kv)) threads) g}"
  by (force simp: fingerprints_to_resolve_inline_threads_def Let_def group_identity_key_def List.map_filter_def
      parse_group_id_key_def filter_empty_conv)

lemma in_publishable:
  "x \<in> set (publishable_fingerprints_for_run s run_id pr) \<longleftrightarrow>
     (\<exists>f \<in> set (inline_publish_findings s run_id). \<exists>h. group_of_finding s pr f = Some h \<and>
        \<not> awaits_judge (outcome_group_ids s run_id) f h \<and> x = uuid_str (fg_id h))"
  by (auto simp: publishable_fingerprints_for_run_def group_identity_key_def split: option.splits if_splits) force+

lemma publishable_of_group:
  assumes "distinct (map fg_id (ss_groups s))" and "g \<in> set (ss_groups s)" and "fg_pull_request_id g = pr"
    and "fg_state g = Grp_active"
  shows "uuid_str (fg_id g) \<in> set (publishable_fingerprints_for_run s run_id pr) \<longleftrightarrow>
    list_ex (keeps_open s run_id g) (ss_findings s)"
proof -
  have get: "get_group s (fg_id g) = Some g"
    unfolding get_group_def by (rule tbl_get_unique [OF assms(1,2)])
  have group: "(\<exists>h. group_of_finding s pr f = Some h \<and> P h \<and> uuid_str (fg_id g) = uuid_str (fg_id h)) \<longleftrightarrow>
      fi_group_id f = Some (fg_id g) \<and> P g" for f P
  proof -
    have "group_of_finding s pr f = Some h \<Longrightarrow> fi_group_id f = Some (fg_id h) \<and> get_group s (fg_id h) = Some h" for h
      by (auto simp: group_of_finding_def bind_eq_Some_conv split: option.splits if_splits dest: get_group_id)
    moreover have "group_of_finding s pr f = Some g" if "fi_group_id f = Some (fg_id g)"
      using that get assms(3) by (simp add: group_of_finding_def)
    ultimately show ?thesis using get uuid_str_inj by (metis option.inject)
  qed
  have inline: "f \<in> set (inline_publish_findings s run_id) \<longleftrightarrow> f \<in> set (ss_findings s) \<and> fi_review_run_id f = run_id \<and>
      fi_file_path f \<noteq> None \<and> fi_start_line f \<noteq> None" if "fi_group_id f = Some (fg_id g)" for f
    using get assms(4) that by (auto simp: inline_publish_findings_def)
  show ?thesis
    unfolding in_publishable group
    using inline assms(4) by (auto simp: list_ex_iff keeps_open_def awaits_judge_def)
qed

text \<open>C18. The thread of a group that already has an inline comment is collapsed by the next publish exactly
  when its code is gone from the diff or the group has no open finding left: it is resolved, superseded or
  stamped addressed, or the run does not report it at a place in the diff (with the judge's answer where
  one is required).  A finding that is still open keeps its thread.\<close>

theorem thread_collapsed_iff:
  assumes "distinct (map fg_id (ss_groups s))" and "distinct (map fst threads)"
    and "g \<in> set (ss_groups s)" and "fg_pull_request_id g = pr" and "map_of threads (uuid_str (fg_id g)) = Some c"
  shows "uuid_str (fg_id g) \<in> set (fingerprints_to_resolve_inline_threads u s pr threads outdated
      (publishable_fingerprints_for_run s run_id pr)) \<longleftrightarrow>
    c \<in> set outdated \<or> \<not> still_open_in_run s run_id g"
proof -
  have key: "uuid_str (fg_id g) \<in> fst ` set threads" using assms(5) by (metis domI dom_map_of_conv_image_fst)
  then have tracked: "fg_id g \<in> set (List.map_filter (\<lambda>kv. parse_group_id_key u (fst kv)) threads)"
    by (force simp: List.map_filter_def parse_group_id_key_def)
  have out: "uuid_str (fg_id g) \<in> fst ` {kv \<in> set threads. snd kv \<in> set outdated} \<longleftrightarrow> c \<in> set outdated"
    using assms(2,5) by (auto simp: image_iff dest: map_of_SomeD) (metis map_of_is_SomeI option.inject)
  have "h = g" if "h \<in> set (ss_groups s)" "uuid_str (fg_id g) = uuid_str (fg_id h)" for h
    using that assms(1,3) by (metis eq_key_imp_eq_value inj_onD distinct_map uuid_str_inj)
  with assms(3,4) have same: "(\<exists>h \<in> set (ss_groups s). fg_pull_request_id h = pr \<and> uuid_str (fg_id g) = uuid_str (fg_id h) \<and> P h)
      \<longleftrightarrow> P g" for P by blast
  have "collapses (List.map_filter (\<lambda>kv. parse_group_id_key u (fst kv)) threads) g \<longleftrightarrow>
      fg_state g \<noteq> Grp_active \<or> fg_resolution_status g = Some RS_addressed"
    using tracked by (cases "fg_state g") (simp_all add: collapses_def)
  then show ?thesis
    unfolding set_resolve Un_iff mem_Collect_eq out same still_open_in_run_def
    using key publishable_of_group [OF assms(1,3,4), of run_id] by auto
qed

text \<open>One group with an inline comment that the run still reports, after the judge's answer.\<close>

definition demo_tracked :: session where
  "demo_tracked = demo_session\<lparr>ss_findings := [demo_finding\<lparr>fi_group_id := Some 10, fi_category := Cat_style, fi_severity := Sev_warning\<rparr>]\<rparr>"

theorem thread_collapsed_iff_witness:
  "uuid_str 10 \<notin> set (fingerprints_to_resolve_inline_threads ascii_only demo_tracked 4 [(uuid_str 10, 71)] [80]
      (publishable_fingerprints_for_run demo_tracked 1 4))"
proof -
  have "\<not> is_judge_candidate Sev_warning Cat_style" by (simp add: is_judge_candidate_def)
  then have "still_open_in_run demo_tracked 1 demo_group"
    by (simp add: still_open_in_run_def keeps_open_def demo_tracked_def demo_defs)
  then show ?thesis
    using thread_collapsed_iff [of demo_tracked "[(uuid_str 10, 71)]" demo_group 4 71 ascii_only "[80]" 1]
    by (simp add: demo_tracked_def demo_defs)
qed

end
