(* ===== verification/Reconcile_Task.thy ===== *)
theory Reconcile_Task
  imports Verification Head_Suppression Publish_Task
begin

section \<open>The reconciliation task (\<open>workers/reconcile_tasks.py\<close>)\<close>

text \<open>
  One transaction runs the passes over a completed review run in their order: reconciliation, the head
  contradictions, pass 2, the judge, the verification pass and the second look at the judge status.  It
  then records what they did on the pipeline run, commits, and hands the run to the publish task unless
  the run was superseded.  An exception rolls the transaction back; the task is run again up to three
  times, and after that the check run is concluded as failed.

  The broker's answer in each attempt, the transport's record of a judge request (the answer with its
  usage and the preview of a refused body) and the measured times are parameters.
\<close>

record judge_transport =
  jx_raw_response :: "json option"
  jx_preview :: "pystr option"
  jx_input_tokens :: "int option"
  jx_output_tokens :: "int option"

record reconcile_env =
  rk_pub :: pub_env
  rk_judge :: judge_env
  rk_unicode :: "nat \<Rightarrow> bool"
  rk_transport :: "judge_artifact \<Rightarrow> judge_transport"
  rk_broker :: "nat \<Rightarrow> exn option"
  rk_reconcile_ms :: int
  rk_judge_ms :: int

subsection \<open>The artifacts of the judge in the trace\<close>

text \<open>The text and the error a failed request leaves (\<open>integrations/judge_llm_errors.py\<close>).\<close>

definition judge_failure_trace_fields ::
  "(exn \<Rightarrow> pystr) \<Rightarrow> judge_transport \<Rightarrow> exn \<Rightarrow> pystr option \<times> pystr option" where
  "judge_failure_trace_fields str x e =
     (case e of
        Judge_parse_error c t \<Rightarrow> (Some t, Some c)
      | Platform ServiceUnavailableError message _ \<Rightarrow>
          (if opt_or (jx_preview x) [] \<noteq> [] then jx_preview x else None, Some message)
      | _ \<Rightarrow> (None, Some (str e)))"

definition candidate_of :: "reconcile_env \<Rightarrow> judge_artifact \<Rightarrow> candidate_item" where
  "candidate_of env a =
     (let t = rk_transport env a;
          (response_text, parse_error) =
            (case ja_error a of
               None \<Rightarrow> (None, None)
             | Some e \<Rightarrow> judge_failure_trace_fields (pe_str (rk_pub env)) t e);
          answered = (ja_error a = None)
      in \<lparr>ci_group_id = ja_group_id a, ci_evidence_snippet = ja_evidence_snippet a,
          ci_user_prompt = ja_user_prompt a, ci_file_patch_chars = map_option int (ja_file_patch_chars a),
          ci_raw_response = (if answered then jx_raw_response t else None),
          ci_raw_response_text = response_text, ci_parse_error = parse_error,
          ci_retry_count = int (ja_retry_count a),
          ci_outcome = map_option outcome_value (ja_outcome a),
          ci_lock_ids_cited = ja_lock_ids_cited a,
          ci_input_tokens = (if answered then jx_input_tokens t else None),
          ci_output_tokens = (if answered then jx_output_tokens t else None)\<rparr>)"

subsection \<open>The passes\<close>

record pass_results =
  px_group_ids :: "uuid list"
  px_suppressed :: nat
  px_closed :: nat
  px_judged :: nat
  px_model :: "model_ref option"
  px_artifacts :: "judge_artifact list"
  px_verified :: nat
  px_verification_artifacts :: "judge_artifact list"

definition reconcile_passes :: "reconcile_env \<Rightarrow> session \<Rightarrow> uuid \<Rightarrow> exn + session \<times> pass_results" where
  "reconcile_passes env s k =
     (let gh = pe_gh (rk_pub env); (s, ids) = reconcile_review_run s k in
      rbind (suppress_head_contradictions_for_review_run (rk_unicode env) gh s k) (\<lambda>(s, suppressed).
      rbind (apply_pass2_closure_for_review_run gh s k) (\<lambda>(s, closed).
      rbind (record_review_run_judge_status_with_model gh (rk_judge env) s k) (\<lambda>(s, judged, model, artifacts).
      rbind (verify_still_open_escalation_groups gh (rk_judge env) s k) (\<lambda>(s, verified, verification_artifacts).
        Inr (finalize_review_run_judge_status s k,
          \<lparr>px_group_ids = ids, px_suppressed = suppressed, px_closed = closed, px_judged = judged,
           px_model = model, px_artifacts = artifacts, px_verified = verified,
           px_verification_artifacts = verification_artifacts\<rparr>))))))"

text \<open>The resolution metrics against the last published revision.\<close>

definition run_resolution_pass :: "session \<Rightarrow> uuid \<Rightarrow> resolution_pass option" where
  "run_resolution_pass s k =
     Option.bind (get_review_run s k) (\<lambda>run.
     Option.bind (get_revision s (rr_revision_id run)) (\<lambda>cur.
     Option.bind (get_last_published_prior_revision s (rev_pull_request_id cur) cur) (\<lambda>prior.
     map_option (\<lambda>pr. compute_resolution_transitions s pr prior cur)
       (get_pull_request s (rev_pull_request_id cur)))))"

definition record_passes :: "reconcile_env \<Rightarrow> session \<Rightarrow> uuid \<Rightarrow> pass_results \<Rightarrow> session" where
  "record_passes env s k r =
     (let resolution = map_option resolution_pass_json (run_resolution_pass s k) in
      case get_pipeline_run_for_review_run s k of
        None \<Rightarrow> s
      | Some p \<Rightarrow>
          let s = record_reconcile_pipeline_step s (pl_id p) (length (px_group_ids r)) (max (rk_reconcile_ms env) 0)
                resolution (px_suppressed r)
          in record_judge_pipeline_step s (pl_id p) (px_judged r) (max (rk_judge_ms env) 0)
               (map (candidate_of env) (px_artifacts r)) (px_verified r)
               (map (candidate_of env) (px_verification_artifacts r))
               (map_option mr_provider (px_model r)) (map_option mr_model_id (px_model r)))"

definition reconcile_transaction :: "reconcile_env \<Rightarrow> session \<Rightarrow> uuid \<Rightarrow> exn + session" where
  "reconcile_transaction env s k =
     rbind (reconcile_passes env s k) (\<lambda>(s, r). Inr (record_passes env s k r))"

subsection \<open>The task\<close>

text \<open>\<open>enqueue_publish_for_review_run\<close> in the attempt with \<open>n\<close> retries left: whether the publish task was
  handed to the broker.\<close>

definition enqueue_publish_for_review_run :: "reconcile_env \<Rightarrow> nat \<Rightarrow> exn + bool" where
  "enqueue_publish_for_review_run env n =
     (if \<not> ce_enabled (pe_check (rk_pub env)) then Inr False
      else case rk_broker env n of Some e \<Rightarrow> Inl e | None \<Rightarrow> Inr True)"

definition reconcile_run :: "reconcile_env \<Rightarrow> nat \<Rightarrow> uuid \<Rightarrow> (pub, bool) eff" where
  "reconcile_run env n k =
     bind_e (call_e (\<lambda>s. case reconcile_transaction env s k of Inl e \<Rightarrow> (s, Inl e) | Inr s' \<Rightarrow> (s', Inr ()))) (\<lambda>_.
     bind_e (read_s (\<lambda>s. get_review_run s k)) (\<lambda>run.
     bind_e commit_e (\<lambda>_.
       if (case run of None \<Rightarrow> False | Some run \<Rightarrow> is_review_run_superseded run) then ret False
       else of_result (enqueue_publish_for_review_run env n))))"

definition reconcile_attempt :: "reconcile_env \<Rightarrow> nat \<Rightarrow> uuid \<Rightarrow> (pub, bool) eff" where
  "reconcile_attempt env n k = in_context (bind_e (refresh_e (rk_pub env)) (\<lambda>_. reconcile_run env n k))"

definition finalize_failed_reconcile :: "reconcile_env \<Rightarrow> uuid \<Rightarrow> pystr \<Rightarrow> (pub, unit) eff" where
  "finalize_failed_reconcile env k message =
     in_context (bind_e (refresh_e (rk_pub env)) (\<lambda>_.
       call_e (\<lambda>s. finalize_pipeline_github_check_for_review_run (pe_check (rk_pub env)) s k message)))"

definition RECONCILE_MAX_RETRIES :: nat where
  "RECONCILE_MAX_RETRIES = 3"

fun reconcile_attempts :: "reconcile_env \<Rightarrow> uuid \<Rightarrow> nat \<Rightarrow> (pub, bool) eff" where
  "reconcile_attempts env k 0 =
     catch_e (reconcile_attempt env 0 k)
       (\<lambda>e. bind_e (finalize_failed_reconcile env k (pe_str (rk_pub env) e)) (\<lambda>_. raise_e e))"
| "reconcile_attempts env k (Suc n) =
     catch_e (reconcile_attempt env (Suc n) k) (\<lambda>e. reconcile_attempts env k n)"

definition reconcile_review_run_task :: "reconcile_env \<Rightarrow> uuid \<Rightarrow> (pub, bool) eff" where
  "reconcile_review_run_task env k = reconcile_attempts env k RECONCILE_MAX_RETRIES"

end
