(* ===== verification/Reconcile_Safety.thy ===== *)
theory Reconcile_Safety
  imports Reconcile_Task Publish_Laws
begin

section \<open>The passes of a reconciliation together\<close>

text \<open>
  Each pass of the reconciliation task changes groups in its own way; the contract they share is \<open>moves\<close>:
  a group keeps its identity and claim slot, a resolved group or one of another pull request is not
  touched, and a well-formed group stays well-formed.  The contract is transitive, so it holds of the
  passes together, and with what reconciliation itself promises it gives the invariant of the
  transaction.
\<close>

subsection \<open>How a pass may change a group\<close>

definition wf_or_contradicted :: "finding_group \<Rightarrow> bool" where
  "wf_or_contradicted g \<longleftrightarrow> fg_resolution_method g = Some RM_head_contradiction \<or> group_wf g"

definition reshapes :: "finding_group \<Rightarrow> finding_group \<Rightarrow> bool" where
  "reshapes g g' \<longleftrightarrow> same_identity g' g \<and> fg_claim_slot g' = fg_claim_slot g \<and>
     (wf_or_contradicted g \<longrightarrow> wf_or_contradicted g')"

definition moves :: "uuid \<Rightarrow> finding_group \<Rightarrow> finding_group \<Rightarrow> bool" where
  "moves pr g g' \<longleftrightarrow> reshapes g g' \<and> (fg_state g = Grp_resolved \<or> fg_pull_request_id g \<noteq> pr \<longrightarrow> g' = g)"

lemma reshapes_refl [simp]: "reshapes g g"
  by (simp add: reshapes_def)


lemma moves_refl [simp]: "moves pr g g"
  by (simp add: moves_def)





subsection \<open>How a pass may change the session\<close>

definition run_core :: "review_run \<Rightarrow> review_run" where
  "run_core r = r\<lparr>rr_judge_status := JS_not_applicable, rr_judge_escalation_candidate_count := 0\<rparr>"

definition pass_frame :: "session \<Rightarrow> session \<Rightarrow> bool" where
  "pass_frame s s' \<longleftrightarrow>
     (\<forall>k. map_option run_core (get_review_run s' k) = map_option run_core (get_review_run s k)) \<and>
     s' = s\<lparr>ss_groups := ss_groups s', ss_outcomes := ss_outcomes s', ss_review_runs := ss_review_runs s',
            ss_created := ss_created s'\<rparr>"

definition passes :: "uuid \<Rightarrow> session \<Rightarrow> session \<Rightarrow> bool" where
  "passes pr s s' \<longleftrightarrow> pass_frame s s' \<and> list_all2 (moves pr) (ss_groups s) (ss_groups s')"

lemma passes_refl [simp]: "passes pr s s"
  by (simp add: passes_def pass_frame_def list_all2_refl)









subsection \<open>The judging passes\<close>










subsection \<open>Every pass keeps the contract\<close>









subsection \<open>Reconciliation, and the passes after it\<close>














subsection \<open>The task\<close>

text \<open>The log of the requests ends with the failure of the check run of the pipeline run, where one is
  reachable.\<close>

definition failure_concluded :: "check_env \<Rightarrow> session \<Rightarrow> uuid \<Rightarrow> pystr \<Rightarrow> bool \<Rightarrow> (check_call \<times> bool) list" where
  "failure_concluded env s k message ok =
     (case Option.bind (get_pipeline_run_for_review_run s k) (\<lambda>p. check_target env s (pl_id p)) of
        None \<Rightarrow> []
      | Some (cx, c) \<Rightarrow>
          [(Check_patch (check_run_url (cx_owner cx) (cx_repo cx) c) (concluded (S ''failure'') message), ok)])"

text \<open>How the task ends. When it raises, either the session it leaves is the one the failure handler made of what it
  read, with the failure at the end of its log, and is committed; or concluding the check run raised, on the rows as
  they are committed.\<close>

definition task_settled :: "reconcile_env \<Rightarrow> uuid \<Rightarrow> pub \<Rightarrow> exn + bool \<Rightarrow> bool" where
  "task_settled env k q r \<longleftrightarrow>
     (case r of
        Inr handed \<Rightarrow>
          pb_s q = pb_committed q \<and>
          handed = (ce_enabled (pe_check (rk_pub env)) \<and>
            (case get_review_run (pb_committed q) k of None \<Rightarrow> True | Some run \<Rightarrow> \<not> is_review_run_superseded run))
      | Inl e \<Rightarrow>
          (\<exists>s ok. fst (finalize_pipeline_github_check_for_review_run (pe_check (rk_pub env)) s k (pe_str (rk_pub env) e)) = pb_s q \<and>
             ss_checks (pb_s q) = ss_checks s @ failure_concluded (pe_check (rk_pub env)) s k (pe_str (rk_pub env) e) ok \<and>
             pb_committed q = pb_s q) \<or>
          (\<exists>s m s'. handler_read (rk_pub env) q s \<and>
             finalize_pipeline_github_check_for_review_run (pe_check (rk_pub env)) s k m = (s', Inl e)))"

lemma attempt_settled:
  "\<exists>q r. reconcile_attempt env n k p = Some (q, r) \<and> (\<forall>b. r = Inr b \<longrightarrow> task_settled env k q r)"
  by (auto simp: reconcile_attempt_def reconcile_run_def in_context_def bind_e_def refresh_e_def call_e_def on_session_def
      on_part_def total_e_def read_s_def read_e_def commit_e_def upd_e_def ret_def of_result_def enqueue_publish_for_review_run_def
      task_settled_def split: sum.splits option.splits)

lemma finalize_logs:
  assumes "finalize_pipeline_github_check_for_review_run env s k message = (s', r)"
  shows "\<exists>ok. ss_checks s' = ss_checks s @ failure_concluded env s k message ok"
proof (cases "get_pipeline_run_for_review_run s k")
  case None
  with assms show ?thesis by (simp add: finalize_pipeline_github_check_for_review_run_def failure_concluded_def)
next
  case (Some p)
  with assms have "finalize_pipeline_github_check env s (pl_id p) message (S ''failure'') = (s', r)"
    by (simp add: finalize_pipeline_github_check_for_review_run_def finalize_pipeline_github_check_failure_def)
  from finalize_sends [OF this] Some show ?thesis by (auto simp: failure_concluded_def split: option.splits)
qed

lemma finalize_settled:
  assumes "rolled_back p"
  shows "\<exists>q e. bind_e (finalize_failed_reconcile env k (pe_str (rk_pub env) x)) (\<lambda>_. raise_e x :: (pub, bool) eff) p = Some (q, Inl e) \<and>
    task_settled env k q (Inl e)"
proof -
  let ?s = "pe_others (rk_pub env) (pb_readings p) (pb_s p)" and ?m = "pe_str (rk_pub env) x"
  obtain s' r where f: "finalize_pipeline_github_check_for_review_run (pe_check (rk_pub env)) ?s k ?m = (s', r)" by fastforce
  have "\<exists>q e. bind_e (finalize_failed_reconcile env k ?m) (\<lambda>_. raise_e x :: (pub, bool) eff) p = Some (q, Inl e) \<and>
    (case r of Inr _ \<Rightarrow> e = x \<and> pb_s q = s' \<and> pb_committed q = s' | Inl e' \<Rightarrow> e = e' \<and> pb_committed q = pb_committed p)"
    using f by (cases r) (simp_all add: finalize_failed_reconcile_def in_context_def bind_e_def refresh_e_def upd_e_def call_e_def
        on_session_def on_part_def total_e_def roll_back_e_def raise_e_def)
  then obtain q e where q: "bind_e (finalize_failed_reconcile env k ?m) (\<lambda>_. raise_e x :: (pub, bool) eff) p = Some (q, Inl e)"
    "case r of Inr _ \<Rightarrow> e = x \<and> pb_s q = s' \<and> pb_committed q = s' | Inl e' \<Rightarrow> e = e' \<and> pb_committed q = pb_committed p"
    by (elim exE conjE)
  have "task_settled env k q (Inl e)"
  proof (cases r)
    case (Inl e')
    with q(2) have "handler_read (rk_pub env) q ?s" using handler_readI [OF assms] by simp
    with f Inl q(2) show ?thesis unfolding task_settled_def by auto
  next
    case (Inr u)
    with q(2) f finalize_logs [OF f] have "fst (finalize_pipeline_github_check_for_review_run (pe_check (rk_pub env)) ?s k ?m) = pb_s q \<and>
      (\<exists>ok. ss_checks (pb_s q) = ss_checks ?s @ failure_concluded (pe_check (rk_pub env)) ?s k ?m ok) \<and> pb_committed q = pb_s q \<and> e = x"
      by simp
    then show ?thesis unfolding task_settled_def by auto
  qed
  with q(1) show ?thesis by blast
qed

lemma attempt_rolls_back: "reconcile_attempt env n k p = Some (q, Inl e) \<Longrightarrow> rolled_back q"
  unfolding reconcile_attempt_def by (rule context_rolls_back)

text \<open>C4. The reconciliation task always ends: it hands the run to the publish task exactly when the API
  is enabled and the run is not superseded in what it committed, and when it leaves with an exception,
  after its retries, the check run of the pipeline run, where one is reachable, was concluded
  as failed with the text of that exception, unless concluding it raised.\<close>

theorem reconcile_task_settles:
  "\<exists>q r. reconcile_review_run_task env k p = Some (q, r) \<and> task_settled env k q r"
proof -
  have "\<exists>q r. reconcile_attempts env k n p = Some (q, r) \<and> task_settled env k q r" for n
  proof (induction n arbitrary: p)
    case 0
    obtain q r where a: "reconcile_attempt env 0 k p = Some (q, r)" "\<forall>b. r = Inr b \<longrightarrow> task_settled env k q r"
      using attempt_settled by blast
    show ?case
    proof (cases r)
      case (Inl e)
      with a(1) have "rolled_back q" by (simp add: attempt_rolls_back)
      with a(1) Inl finalize_settled [of q env k e] show ?thesis by (auto simp: catch_e_def)
    qed (use a in \<open>auto simp: catch_e_def\<close>)
  next
    case (Suc n)
    obtain q r where a: "reconcile_attempt env (Suc n) k p = Some (q, r)" "\<forall>b. r = Inr b \<longrightarrow> task_settled env k q r"
      using attempt_settled by blast
    show ?case
      using a Suc.IH [of q] by (cases r) (auto simp: catch_e_def)
  qed
  then show ?thesis by (simp add: reconcile_review_run_task_def)
qed

end
