(* ===== verification/Pull_Requests.thy ===== *)
theory Pull_Requests
  imports Publish_Task Generations
begin

section \<open>Pull requests from webhooks (\<open>services/github_pull_requests.py\<close>)\<close>

text \<open>
  A webhook writes the pull request, appends a revision for a head it has not seen, and says for
  which revision the pipeline should start.  Two rows are unique in the database: a pull request by repository
  and GitHub identifier, a revision by pull request and number.  A violation is raised when another transaction
  committed the row first; \<open>refresh_e\<close> makes what others committed visible, at the points where an insert is
  flushed or a row is read again.
\<close>

record hook_env =
  he_pub :: pub_env
  he_now :: pystr
  he_now_instant :: int
  he_fromisoformat :: "pystr \<Rightarrow> int option"
  he_unicode :: "nat \<Rightarrow> bool"
  he_bot_login :: pystr

definition PULL_REQUEST_ACTIONS :: "pystr list" where
  "PULL_REQUEST_ACTIONS = map S [''opened'', ''synchronize'', ''closed'', ''reopened'', ''converted_to_draft'',
     ''ready_for_review'', ''edited'']"

definition REVIEW_ACTIONS :: "pystr list" where
  "REVIEW_ACTIONS = map S [''submitted'', ''edited'', ''dismissed'']"

definition REVY_REVIEW_COMMAND :: regex where
  "REVY_REVIEW_COMMAND = seq [re_lit_ci (S ''@revy''), re_plus is_py_space, re_lit_ci (S ''review''), Bnd]"

record pull_request_result =
  pw_workspace_id :: uuid
  pw_revision_id :: uuid
  pw_new_revision :: bool
  pw_action :: pystr
  pw_pipeline_retrigger :: bool

record comment_intent =
  ci_workspace_id :: uuid
  ci_revision_id :: uuid

subsection \<open>Reading the payload\<close>

text \<open>\<open>isinstance(x, int)\<close>, which a boolean satisfies too, \<open>isinstance(x, str)\<close> and \<open>isinstance(x, dict)\<close>.\<close>

fun payload_int :: "json option \<Rightarrow> int option" where
  "payload_int (Some (JInt i)) = Some i"
| "payload_int (Some (JBool b)) = Some (if b then 1 else 0)"
| "payload_int _ = None"

fun payload_str :: "json option \<Rightarrow> pystr option" where
  "payload_str (Some (JStr t)) = Some t"
| "payload_str _ = None"

fun payload_dict :: "json option \<Rightarrow> (pystr \<times> json) list option" where
  "payload_dict (Some (JObj ms)) = Some ms"
| "payload_dict _ = None"

definition parse_github_datetime :: "(pystr \<Rightarrow> int option) \<Rightarrow> json option \<Rightarrow> int option" where
  "parse_github_datetime fromisoformat v =
     (case payload_str v of
        None \<Rightarrow> None
      | Some t \<Rightarrow> if t = [] then None else fromisoformat (py_replace_chr 90 (S ''+00:00'') t))"

record pr_fields =
  pf_github_pull_request_id :: int
  pf_number :: int
  pf_title :: pystr
  pf_state :: pull_request_state
  pf_head_sha :: pystr
  pf_head_ref :: pystr
  pf_base_ref :: pystr
  pf_base_sha :: pystr
  pf_html_url :: "pystr option"
  pf_body :: "pystr option"
  pf_is_draft :: bool
  pf_merged :: bool

definition pull_request_state_of :: "pystr \<Rightarrow> pull_request_state option" where
  "pull_request_state_of v = (if v = S ''open'' then Some PR_open else if v = S ''closed'' then Some PR_closed else None)"

definition extract_pr_fields :: "(pystr \<times> json) list \<Rightarrow> pr_fields option" where
  "extract_pr_fields pr =
     (case (payload_int (json_get (S ''id'') pr), payload_int (json_get (S ''number'') pr), payload_str (json_get (S ''title'') pr),
            payload_str (json_get (S ''state'') pr), payload_dict (json_get (S ''head'') pr), payload_dict (json_get (S ''base'') pr)) of
        (Some raw_id, Some number, Some title, Some state, Some head, Some base) \<Rightarrow>
          (case (payload_str (json_get (S ''sha'') head), payload_str (json_get (S ''ref'') head),
                 payload_str (json_get (S ''ref'') base), payload_str (json_get (S ''sha'') base), pull_request_state_of state) of
             (Some head_sha, Some head_ref, Some base_ref, Some base_sha, Some st) \<Rightarrow>
               Some \<lparr>pf_github_pull_request_id = raw_id, pf_number = number, pf_title = title, pf_state = st,
                 pf_head_sha = head_sha, pf_head_ref = head_ref, pf_base_ref = base_ref, pf_base_sha = base_sha,
                 pf_html_url = payload_str (json_get (S ''html_url'') pr),
                 pf_body = (case payload_str (json_get (S ''body'') pr) of
                     None \<Rightarrow> None | Some b \<Rightarrow> if py_strip b \<noteq> [] then Some b else None),
                 pf_is_draft = (json_get (S ''draft'') pr = Some (JBool True)),
                 pf_merged = (st = PR_closed \<and> json_get (S ''merged'') pr = Some (JBool True))\<rparr>
           | _ \<Rightarrow> None)
      | _ \<Rightarrow> None)"

definition installation_by_github_id :: "session \<Rightarrow> int \<Rightarrow> installation option" where
  "installation_by_github_id s i = List.find (\<lambda>n. inst_github_installation_id n = i) (ss_installations s)"

definition resolve_repository :: "session \<Rightarrow> (pystr \<times> json) list \<Rightarrow> repository option" where
  "resolve_repository s payload =
     (case (payload_dict (json_get (S ''installation'') payload), payload_dict (json_get (S ''repository'') payload)) of
        (Some i, Some r) \<Rightarrow>
          (case (payload_int (json_get (S ''id'') i), payload_int (json_get (S ''id'') r)) of
             (Some installation_id, Some repository_id) \<Rightarrow>
               (case installation_by_github_id s installation_id of
                  None \<Rightarrow> None
                | Some inst \<Rightarrow>
                    List.find (\<lambda>q. repo_installation_id q = inst_id inst \<and> repo_github_repository_id q = repository_id \<and>
                      repo_status q = Repo_active) (ss_repositories s))
           | _ \<Rightarrow> None)
      | _ \<Rightarrow> None)"

definition is_github_pr :: "uuid \<Rightarrow> int \<Rightarrow> pull_request \<Rightarrow> bool" where
  "is_github_pr repo i p \<longleftrightarrow> pr_repository_id p = repo \<and> pr_github_pull_request_id p = i"

definition find_pull_request :: "session \<Rightarrow> uuid \<Rightarrow> int \<Rightarrow> pull_request option" where
  "find_pull_request s repo i = List.find (is_github_pr repo i) (ss_pull_requests s)"

definition get_revision_for_head_sha :: "session \<Rightarrow> uuid \<Rightarrow> pystr \<Rightarrow> revision option" where
  "get_revision_for_head_sha s pr head =
     latest_by rev_number (\<lambda>r. rev_pull_request_id r = pr \<and> rev_head_sha r = head) (ss_revisions s)"

subsection \<open>Revisions\<close>

definition set_pull_request :: "uuid \<Rightarrow> (pull_request \<Rightarrow> pull_request) \<Rightarrow> session \<Rightarrow> session" where
  "set_pull_request k f s = (case get_pull_request s k of None \<Rightarrow> s | Some p \<Rightarrow> put_pull_request (f p) s)"

definition with_pull_request :: "uuid \<Rightarrow> (pull_request \<Rightarrow> (pub, 'a) eff) \<Rightarrow> (pub, 'a) eff" where
  "with_pull_request k f =
     bind_e (read_s (\<lambda>s. get_pull_request s k)) (\<lambda>p.
       case p of Some p \<Rightarrow> f p | None \<Rightarrow> raise_e (Value_error (S ''could not refresh instance'')))"

definition new_revision :: "session \<Rightarrow> uuid \<Rightarrow> int \<Rightarrow> pystr \<Rightarrow> pystr option \<Rightarrow> revision" where
  "new_revision s pr n head base =
     \<lparr>rev_id = next_uuid s, rev_pull_request_id = pr, rev_number = n, rev_head_sha = head, rev_base_sha = base\<rparr>"

definition add_revision :: "revision \<Rightarrow> session \<Rightarrow> session" where
  "add_revision r s = tick (s\<lparr>ss_revisions := tbl_add r (ss_revisions s)\<rparr>)"

text \<open>The savepoint of \<open>_append_revision\<close>: \<open>None\<close> when the insert violates a unique constraint, its
  number being taken by the time it is flushed (or its identifier, which the server has drawn by then).\<close>

definition revision_conflict :: "session \<Rightarrow> revision \<Rightarrow> bool" where
  "revision_conflict s r \<longleftrightarrow> list_ex (\<lambda>q. rev_id q = rev_id r \<or>
     rev_pull_request_id q = rev_pull_request_id r \<and> rev_number q = rev_number r) (ss_revisions s)"

definition insert_revision :: "hook_env \<Rightarrow> uuid \<Rightarrow> pystr \<Rightarrow> pystr option \<Rightarrow> (pub, uuid option) eff" where
  "insert_revision env pr head base =
     with_pull_request pr (\<lambda>p.
       let n = pr_revision_count p + 1 in
       bind_e (refresh_e (he_pub env)) (\<lambda>_.
       bind_e (read_s (\<lambda>s. (revision_conflict s (new_revision s pr n head base), new_revision s pr n head base))) (\<lambda>(taken, r).
         if taken then bind_e (write_s tick) (\<lambda>_. ret None)
         else bind_e (write_s (\<lambda>s. set_pull_request pr (\<lambda>p. p\<lparr>pr_revision_count := n, pr_head_sha := head\<rparr>)
                (add_revision r s))) (\<lambda>_. ret (Some (rev_id r))))))"

text \<open>A revision that exists for the head is taken instead.\<close>

definition dedupe_revision :: "uuid \<Rightarrow> pystr \<Rightarrow> (pub, uuid) eff \<Rightarrow> (pub, uuid) eff" where
  "dedupe_revision pr head otherwise =
     bind_e (read_s (\<lambda>s. get_revision_for_head_sha s pr head)) (\<lambda>existing.
       case existing of
         Some r \<Rightarrow>
           bind_e (write_s (set_pull_request pr (\<lambda>p. p\<lparr>pr_head_sha := head\<rparr>))) (\<lambda>_. ret (rev_id r))
       | None \<Rightarrow> otherwise)"

definition append_revision :: "hook_env \<Rightarrow> uuid \<Rightarrow> pystr \<Rightarrow> pystr option \<Rightarrow> (pub, uuid) eff" where
  "append_revision env pr head base =
     dedupe_revision pr head
       (bind_e (insert_revision env pr head base) (\<lambda>first.
          case first of
            Some k \<Rightarrow> ret k
          | None \<Rightarrow>
              bind_e (refresh_e (he_pub env)) (\<lambda>_.
              dedupe_revision pr head
                (bind_e (insert_revision env pr head base) (\<lambda>second.
                   case second of Some k \<Rightarrow> ret k | None \<Rightarrow> raise_e Integrity_error)))))"

subsection \<open>The pull request\<close>

definition new_pull_request :: "session \<Rightarrow> repository \<Rightarrow> pr_fields \<Rightarrow> pull_request" where
  "new_pull_request s repo f =
     \<lparr>pr_id = next_uuid s, pr_repository_id = repo_id repo, pr_workspace_id = repo_workspace_id repo,
      pr_installation_id = repo_installation_id repo, pr_github_pull_request_id = pf_github_pull_request_id f,
      pr_number = pf_number f, pr_title = pf_title f, pr_state = pf_state f, pr_head_sha = pf_head_sha f,
      pr_head_ref = pf_head_ref f, pr_base_ref = pf_base_ref f, pr_html_url = pf_html_url f, pr_body = pf_body f,
      pr_revision_count = 1, pr_is_draft = pf_is_draft f, pr_merged = pf_merged f, pr_resolution_rollup = None\<rparr>"

definition create_pull_request :: "session \<Rightarrow> repository \<Rightarrow> pr_fields \<Rightarrow> session \<times> (exn + uuid \<times> uuid)" where
  "create_pull_request s0 repo f =
     (let p = new_pull_request s0 repo f;
          s = tick (s0\<lparr>ss_pull_requests := tbl_add p (ss_pull_requests s0)\<rparr>);
          r = new_revision s (pr_id p) 1 (pf_head_sha f) (Some (pf_base_sha f))
      in if pr_id p \<in> tbl_keys pr_id (ss_pull_requests s0) \<or> revision_conflict s r then (s0, Inl Integrity_error)
         else (add_revision r s, Inr (pr_id p, rev_id r)))"

definition write_pr_fields :: "pr_fields \<Rightarrow> pull_request \<Rightarrow> pull_request" where
  "write_pr_fields f p = p\<lparr>pr_title := pf_title f, pr_state := pf_state f, pr_head_ref := pf_head_ref f,
     pr_base_ref := pf_base_ref f, pr_html_url := pf_html_url f, pr_number := pf_number f,
     pr_is_draft := pf_is_draft f, pr_merged := pf_merged f, pr_body := pf_body f\<rparr>"

text \<open>The pull request is there: its columns, and the revision of the head.\<close>

definition update_pull_request ::
  "hook_env \<Rightarrow> uuid \<Rightarrow> pr_fields \<Rightarrow> bool \<Rightarrow> bool \<Rightarrow> (pub, uuid \<times> uuid option) eff" where
  "update_pull_request env pr f create_revision update_head_sha =
     bind_e (write_s (set_pull_request pr (write_pr_fields f))) (\<lambda>_.
       if create_revision then
         bind_e (read_s (\<lambda>s. get_revision_for_head_sha s pr (pf_head_sha f))) (\<lambda>existing.
           case existing of
             Some r \<Rightarrow>
               bind_e (write_s (set_pull_request pr (\<lambda>p. p\<lparr>pr_head_sha := pf_head_sha f\<rparr>))) (\<lambda>_.
                 ret (pr, Some (rev_id r)))
           | None \<Rightarrow>
               bind_e (append_revision env pr (pf_head_sha f) (Some (pf_base_sha f))) (\<lambda>k. ret (pr, Some k)))
       else
         bind_e (write_s (\<lambda>s. if update_head_sha then set_pull_request pr (\<lambda>p. p\<lparr>pr_head_sha := pf_head_sha f\<rparr>) s else s)) (\<lambda>_.
           ret (pr, None)))"

definition upsert_pull_request ::
  "hook_env \<Rightarrow> repository \<Rightarrow> pr_fields \<Rightarrow> bool \<Rightarrow> bool \<Rightarrow> (pub, uuid \<times> uuid option) eff" where
  "upsert_pull_request env repo f create_revision update_head_sha =
     (let found = read_s (\<lambda>s. find_pull_request s (repo_id repo) (pf_github_pull_request_id f));
          update = (\<lambda>p. update_pull_request env (pr_id p) f create_revision update_head_sha)
      in bind_e found (\<lambda>existing.
           case existing of
             Some p \<Rightarrow> update p
           | None \<Rightarrow>
               bind_e (refresh_e (he_pub env)) (\<lambda>_.
               bind_e found (\<lambda>raced.
                 case raced of
                   Some p \<Rightarrow> update p
                 | None \<Rightarrow>
                     bind_e (call_e (\<lambda>s. create_pull_request s repo f)) (\<lambda>(pr, rv). ret (pr, Some rv))))))"

subsection \<open>The events\<close>

definition opened_event :: "hook_env \<Rightarrow> repository \<Rightarrow> pr_fields \<Rightarrow> (pub, pull_request_result option) eff" where
  "opened_event env repo f =
     bind_e (upsert_pull_request env repo f False True) (\<lambda>(pr, rv).
       case rv of
         None \<Rightarrow> ret None
       | Some k \<Rightarrow> ret (Some \<lparr>pw_workspace_id = repo_workspace_id repo, pw_revision_id = k, pw_new_revision = True,
             pw_action = S ''opened'', pw_pipeline_retrigger = True\<rparr>))"

text \<open>Whether the push made a revision, by the count before and after.\<close>

definition created_new_revision :: "pull_request option \<Rightarrow> pull_request \<Rightarrow> bool" where
  "created_new_revision before now =
     (case before of
        None \<Rightarrow> pr_revision_count now = 1
      | Some p \<Rightarrow> pr_revision_count p < pr_revision_count now)"

definition supersede_for_push :: "hook_env \<Rightarrow> uuid \<Rightarrow> uuid \<Rightarrow> pull_request option \<Rightarrow> (pub, bool) eff" where
  "supersede_for_push env pr rv before =
     bind_e (call_e (\<lambda>s. supersede_stale_generations_for_new_revision (pe_check (he_pub env)) (he_now env) s pr rv)) (\<lambda>_.
     with_pull_request pr (\<lambda>p.
       let created = created_new_revision before p in
       if created then ret True
       else bind_e (call_e (\<lambda>s. supersede_active_generations_for_revision (pe_check (he_pub env)) (he_now env) s rv)) (\<lambda>_.
         ret False)))"

definition synchronize_event :: "hook_env \<Rightarrow> repository \<Rightarrow> pr_fields \<Rightarrow> (pub, pull_request_result option) eff" where
  "synchronize_event env repo f =
     bind_e (read_s (\<lambda>s. find_pull_request s (repo_id repo) (pf_github_pull_request_id f))) (\<lambda>before.
     bind_e (upsert_pull_request env repo f True True) (\<lambda>(pr, rv).
       case rv of
         None \<Rightarrow> ret None
       | Some k \<Rightarrow>
           bind_e (read_s (\<lambda>s. get_revision s k)) (\<lambda>bound.
             case bound of
               None \<Rightarrow> ret None
             | Some r \<Rightarrow>
                 bind_e (supersede_for_push env pr (rev_id r) before) (\<lambda>created.
                   ret (Some \<lparr>pw_workspace_id = repo_workspace_id repo, pw_revision_id = rev_id r, pw_new_revision = created,
                     pw_action = S ''synchronize'', pw_pipeline_retrigger = True\<rparr>)))))"

definition state_event :: "repository \<Rightarrow> pr_fields \<Rightarrow> (pub, pull_request_result option) eff" where
  "state_event repo f =
     bind_e (read_s (\<lambda>s. find_pull_request s (repo_id repo) (pf_github_pull_request_id f))) (\<lambda>existing.
       case existing of
         None \<Rightarrow> ret None
       | Some p \<Rightarrow>
           bind_e (write_s (set_pull_request (pr_id p) (\<lambda>p. p\<lparr>pr_state := pf_state f, pr_title := pf_title f,
             pr_html_url := pf_html_url f, pr_is_draft := pf_is_draft f, pr_merged := pf_merged f, pr_body := pf_body f\<rparr>)))
             (\<lambda>_. ret None))"

definition apply_pull_request_webhook_event ::
  "hook_env \<Rightarrow> (pystr \<times> json) list \<Rightarrow> (pub, pull_request_result option) eff" where
  "apply_pull_request_webhook_event env payload =
     (case payload_str (json_get (S ''action'') payload) of
        None \<Rightarrow> ret None
      | Some action \<Rightarrow>
          if action \<notin> set PULL_REQUEST_ACTIONS then ret None
          else case payload_dict (json_get (S ''pull_request'') payload) of
            None \<Rightarrow> ret None
          | Some pr \<Rightarrow>
              (case extract_pr_fields pr of
                 None \<Rightarrow> ret None
               | Some f \<Rightarrow>
                   bind_e (read_s (\<lambda>s. resolve_repository s payload)) (\<lambda>repo.
                     case repo of
                       None \<Rightarrow> ret None
                     | Some repo \<Rightarrow>
                         if action = S ''opened'' then opened_event env repo f
                         else if action = S ''synchronize'' then synchronize_event env repo f
                         else if action = S ''edited'' then
                           bind_e (upsert_pull_request env repo f False False) (\<lambda>_. ret None)
                         else state_event repo f)))"

text \<open>Reviews of people are stored by their GitHub identifier.\<close>

definition store_review :: "session \<Rightarrow> uuid \<Rightarrow> int \<Rightarrow> pystr \<Rightarrow> pystr \<Rightarrow> int \<Rightarrow> session" where
  "store_review s pr raw_review_id login state submitted_at =
     (case List.find (\<lambda>v. pv_github_review_id v = raw_review_id) (ss_reviews s) of
        None \<Rightarrow> tick (s\<lparr>ss_reviews := tbl_add
            \<lparr>pv_id = next_uuid s, pv_pull_request_id = pr, pv_github_review_id = raw_review_id,
             pv_author_login = login, pv_state = state, pv_submitted_at = submitted_at\<rparr> (ss_reviews s)\<rparr>)
      | Some v \<Rightarrow> s\<lparr>ss_reviews := tbl_put pv_id
            (v\<lparr>pv_author_login := login, pv_state := state, pv_submitted_at := submitted_at\<rparr>) (ss_reviews s)\<rparr>)"

definition apply_pull_request_review_webhook_event :: "hook_env \<Rightarrow> (pystr \<times> json) list \<Rightarrow> (pub, unit) eff" where
  "apply_pull_request_review_webhook_event env payload =
     (case payload_str (json_get (S ''action'') payload) of
        None \<Rightarrow> ret ()
      | Some action \<Rightarrow>
          if action \<notin> set REVIEW_ACTIONS then ret ()
          else case (payload_dict (json_get (S ''review'') payload), payload_dict (json_get (S ''pull_request'') payload)) of
            (Some review, Some pr) \<Rightarrow>
              (case extract_pr_fields pr of
                 None \<Rightarrow> ret ()
               | Some f \<Rightarrow>
                   bind_e (read_s (\<lambda>s. resolve_repository s payload)) (\<lambda>repo.
                     case repo of
                       None \<Rightarrow> ret ()
                     | Some repo \<Rightarrow>
                         bind_e (read_s (\<lambda>s. find_pull_request s (repo_id repo) (pf_github_pull_request_id f))) (\<lambda>existing.
                         bind_e (case existing of
                             Some p \<Rightarrow> ret (pr_id p)
                           | None \<Rightarrow> bind_e (upsert_pull_request env repo f False True) (\<lambda>(k, rv). ret k)) (\<lambda>k.
                           case (payload_int (json_get (S ''id'') review), payload_dict (json_get (S ''user'') review),
                                 payload_str (json_get (S ''state'') review)) of
                             (Some raw_review_id, Some user, Some state) \<Rightarrow>
                               (case payload_str (json_get (S ''login'') user) of
                                  None \<Rightarrow> ret ()
                                | Some login \<Rightarrow>
                                    write_s (\<lambda>s. store_review s k raw_review_id login state
                                      (opt_or (parse_github_datetime (he_fromisoformat env) (json_get (S ''submitted_at'') review))
                                        (he_now_instant env))))
                           | _ \<Rightarrow> ret ()))))
          | _ \<Rightarrow> ret ())"

text \<open>The comment that asks for a review: what it must say, by whom, and on what.\<close>

definition is_bot_comment :: "pystr \<Rightarrow> (pystr \<times> json) list \<Rightarrow> bool" where
  "is_bot_comment own_login comment =
     (case payload_dict (json_get (S ''user'') comment) of
        None \<Rightarrow> False
      | Some user \<Rightarrow>
          (case payload_str (json_get (S ''login'') user) of
             None \<Rightarrow> False
           | Some login \<Rightarrow> py_strip own_login \<noteq> [] \<and> py_lower login = py_lower (py_strip own_login)))"

definition review_requested :: "hook_env \<Rightarrow> (pystr \<times> json) list \<Rightarrow> (pystr \<times> json) list \<Rightarrow> bool" where
  "review_requested env comment issue \<longleftrightarrow>
     opt_or (json_get (S ''pull_request'') issue) JNull \<noteq> JNull \<and>
     (case payload_str (json_get (S ''body'') comment) of
        None \<Rightarrow> False | Some body \<Rightarrow> re_search (he_unicode env) REVY_REVIEW_COMMAND body) \<and>
     \<not> is_bot_comment (he_bot_login env) comment \<and>
     json_get (S ''state'') issue = Some (JStr (S ''open''))"

definition apply_issue_comment_webhook_event ::
  "hook_env \<Rightarrow> (pystr \<times> json) list \<Rightarrow> (pub, comment_intent option) eff" where
  "apply_issue_comment_webhook_event env payload =
     (if json_get (S ''action'') payload \<noteq> Some (JStr (S ''created'')) then ret None
      else case (payload_dict (json_get (S ''comment'') payload), payload_dict (json_get (S ''issue'') payload)) of
        (Some comment, Some issue) \<Rightarrow>
          if \<not> review_requested env comment issue then ret None
          else
            bind_e (read_s (\<lambda>s. resolve_repository s payload)) (\<lambda>repo.
              case (repo, payload_int (json_get (S ''number'') issue)) of
                (Some repo, Some number) \<Rightarrow>
                  bind_e (read_s (\<lambda>s. List.find (\<lambda>p. pr_repository_id p = repo_id repo \<and> pr_number p = number)
                      (ss_pull_requests s))) (\<lambda>found.
                    case found of
                      None \<Rightarrow> ret None
                    | Some p \<Rightarrow>
                        if pr_is_draft p \<or> pr_state p \<noteq> PR_open then ret None
                        else
                          bind_e (read_s (\<lambda>s. get_revision_for_head_sha s (pr_id p) (pr_head_sha p))) (\<lambda>rv.
                          bind_e (case rv of
                              Some r \<Rightarrow> ret (rev_id r)
                            | None \<Rightarrow> append_revision env (pr_id p) (pr_head_sha p) None) (\<lambda>k.
                            ret (Some \<lparr>ci_workspace_id = repo_workspace_id repo, ci_revision_id = k\<rparr>))))
              | _ \<Rightarrow> ret None)
      | _ \<Rightarrow> ret None)"

end
