(* ===== verification/Pull_Request_Laws.thy ===== *)
theory Pull_Request_Laws
  imports Pull_Requests Publish_Laws
begin

section \<open>Numbering of revisions, and what a push leaves behind\<close>

text \<open>
  The revisions of a pull request are numbered from one to its count, whatever webhooks arrive and whatever
  other transactions commit at the points where a row is read again.  A push leaves its head as the head of
  the pull request, bound to a revision, and nothing in flight on the revisions before it.
\<close>

subsection \<open>The invariant\<close>

definition github_key :: "pull_request \<Rightarrow> uuid \<times> int" where
  "github_key p = (pr_repository_id p, pr_github_pull_request_id p)"

definition revision_key :: "revision \<Rightarrow> uuid \<times> int" where
  "revision_key r = (rev_pull_request_id r, rev_number r)"

definition numbers_of :: "revision list \<Rightarrow> uuid \<Rightarrow> int set" where
  "numbers_of rs k = rev_number ` {r \<in> set rs. rev_pull_request_id r = k}"

definition numbering :: "pull_request list \<Rightarrow> revision list \<Rightarrow> bool" where
  "numbering ps rs \<longleftrightarrow>
     distinct (map pr_id ps) \<and> distinct (map github_key ps) \<and>
     distinct (map rev_id rs) \<and> distinct (map revision_key rs) \<and>
     (\<forall>p\<in>set ps. 1 \<le> pr_revision_count p \<and> numbers_of rs (pr_id p) = {1..pr_revision_count p}) \<and>
     rev_pull_request_id ` set rs \<subseteq> pr_id ` set ps"

definition numbered :: "session \<Rightarrow> bool" where
  "numbered s \<longleftrightarrow> numbering (ss_pull_requests s) (ss_revisions s)"

text \<open>What other transactions do: they keep the numbering and delete no revision and no pull request.\<close>

definition others_keep_numbering :: "pub_env \<Rightarrow> bool" where
  "others_keep_numbering env \<longleftrightarrow>
     (\<forall>n s. numbered s \<longrightarrow> numbered (pe_others env n s) \<and>
        set (ss_revisions s) \<subseteq> set (ss_revisions (pe_others env n s)) \<and>
        pr_id ` set (ss_pull_requests s) \<subseteq> pr_id ` set (ss_pull_requests (pe_others env n s)))"

text \<open>The columns the numbering depends on.\<close>

definition pr_shape :: "pull_request \<Rightarrow> uuid \<times> (uuid \<times> int) \<times> int" where
  "pr_shape p = (pr_id p, github_key p, pr_revision_count p)"

lemma pr_shape_cong:
  assumes "map pr_shape ps' = map pr_shape ps"
  shows "numbering ps' rs = numbering ps rs"
proof -
  have 1: "map pr_id ps' = map pr_id ps" "map github_key ps' = map github_key ps"
    using arg_cong [OF assms, of "map fst"] arg_cong [OF assms, of "map (fst \<circ> snd)"]
    by (simp_all add: comp_def pr_shape_def)
  have 2: "pr_shape ` set ps' = pr_shape ` set ps" using arg_cong [OF assms, of set] by simp
  have all: "(\<forall>p\<in>set qs. 1 \<le> pr_revision_count p \<and> numbers_of rs (pr_id p) = {1..pr_revision_count p}) \<longleftrightarrow>
      (\<forall>(k, g, n)\<in>pr_shape ` set qs. 1 \<le> n \<and> numbers_of rs k = {1..n})" for qs
    by (auto simp: pr_shape_def)
  have 3: "pr_id ` set ps' = pr_id ` set ps" using 1(1) by (metis set_map)
  show ?thesis unfolding numbering_def all 1 2 3 ..
qed

lemma tbl_put_shape:
  assumes "distinct (map pr_id ps)" and "p \<in> set ps" and "pr_shape p' = pr_shape p"
  shows "map pr_shape (tbl_put pr_id p' ps) = map pr_shape ps"
proof -
  have "pr_shape p' = pr_shape q" if "q \<in> set ps" "pr_id q = pr_id p'" for q
    using that assms by (metis distinct_map inj_onD pr_shape_def prod.inject)
  then show ?thesis by (auto simp: tbl_put_def)
qed

lemma get_pull_request_in: "get_pull_request s k = Some p \<Longrightarrow> p \<in> set (ss_pull_requests s) \<and> pr_id p = k"
  unfolding get_pull_request_def using tbl_get_in tbl_get_rid by metis

lemma set_pull_request_numbered:
  assumes "numbered s" and "\<And>p. pr_shape (f p) = pr_shape p"
  shows "numbered (set_pull_request k f s)"
proof (cases "get_pull_request s k")
  case (Some p)
  have d: "distinct (map pr_id (ss_pull_requests s))" using assms(1) by (simp add: numbered_def numbering_def)
  have "pr_shape (f p) = pr_shape p" by (rule assms(2))
  from tbl_put_shape [OF d _ this] get_pull_request_in [OF Some]
  have m: "map pr_shape (tbl_put pr_id (f p) (ss_pull_requests s)) = map pr_shape (ss_pull_requests s)" by blast
  show ?thesis
    using assms(1) pr_shape_cong [OF m]
    by (simp add: set_pull_request_def Some put_pull_request_def numbered_def)
qed (use assms in \<open>simp add: set_pull_request_def\<close>)

lemma numbers_of_add:
  "numbers_of (tbl_add r rs) k = (if rev_pull_request_id r = k then insert (rev_number r) (numbers_of rs k) else numbers_of rs k)"
  by (auto simp: numbers_of_def tbl_add_def)

lemma numbering_extend:
  assumes "numbering ps rs" and "distinct (map pr_id qs)" and "distinct (map github_key qs)"
    and "rev_id r \<notin> rev_id ` set rs" and "revision_key r \<notin> revision_key ` set rs"
    and "pr_id ` set ps \<subseteq> pr_id ` set qs" and "rev_pull_request_id r \<in> pr_id ` set qs"
    and "\<And>p. p \<in> set qs \<Longrightarrow> 1 \<le> pr_revision_count p \<and> numbers_of (tbl_add r rs) (pr_id p) = {1..pr_revision_count p}"
  shows "numbering qs (tbl_add r rs)"
proof -
  have old: "distinct (map rev_id rs)" "distinct (map revision_key rs)" "rev_pull_request_id ` set rs \<subseteq> pr_id ` set ps"
    using assms(1) unfolding numbering_def by blast+
  have "distinct (map rev_id (tbl_add r rs))" "distinct (map revision_key (tbl_add r rs))"
    using old(1,2) assms(4,5) by (simp_all add: tbl_add_def)
  moreover have "rev_pull_request_id ` set (tbl_add r rs) \<subseteq> pr_id ` set qs"
    using old(3) assms(6,7) unfolding tbl_add_def by auto
  ultimately show ?thesis using assms(2,3,8) unfolding numbering_def by blast
qed

text \<open>A revision under the next number.\<close>

lemma numbering_append:
  assumes "numbering ps rs" and "p \<in> set ps" and "pr_id p' = pr_id p" and "github_key p' = github_key p"
    and "pr_revision_count p' = pr_revision_count p + 1"
    and "rev_pull_request_id r = pr_id p" and "rev_number r = pr_revision_count p + 1" and "rev_id r \<notin> rev_id ` set rs"
  shows "numbering (tbl_put pr_id p' ps) (tbl_add r rs)"
proof -
  have one: "q = p" if "q \<in> set ps" "pr_id q = pr_id p'" for q
    using that assms(1-3) by (metis distinct_map inj_onD numbering_def)
  have keys: "map github_key (tbl_put pr_id p' ps) = map github_key ps"
    using one assms(4) by (auto simp: tbl_put_def)
  have n: "1 \<le> pr_revision_count p" "numbers_of rs (pr_id p) = {1..pr_revision_count p}"
    using assms(1,2) unfolding numbering_def by blast+
  have "revision_key r \<notin> revision_key ` set rs"
  proof
    assume "revision_key r \<in> revision_key ` set rs"
    then have "rev_number r \<in> numbers_of rs (pr_id p)" using assms(6) by (force simp: revision_key_def numbers_of_def)
    then show False using n assms(7) by simp
  qed
  moreover have "1 \<le> pr_revision_count q \<and> numbers_of (tbl_add r rs) (pr_id q) = {1..pr_revision_count q}"
    if q: "q \<in> set (tbl_put pr_id p' ps)" for q
  proof (cases "q = p'")
    case True
    then show ?thesis using n assms(3,5-7) by (auto simp: numbers_of_add)
  next
    case False
    have "q \<in> set ps" "pr_id q \<noteq> pr_id p" using set_tbl_put [OF q] assms(3) False by auto
    then show ?thesis using assms(1,6) by (simp add: numbers_of_add numbering_def)
  qed
  moreover have "pr_id ` set (tbl_put pr_id p' ps) = pr_id ` set ps" by (metis list.set_map map_rid_tbl_put)
  moreover have "distinct (map pr_id ps)" "distinct (map github_key ps)" using assms(1) unfolding numbering_def by blast+
  ultimately show ?thesis
    using assms(2,6,8) keys by (intro numbering_extend [OF assms(1)]) simp_all
qed

text \<open>A pull request and its first revision.\<close>

lemma numbering_create:
  assumes "numbering ps rs" and "pr_id p \<notin> pr_id ` set ps" and "github_key p \<notin> github_key ` set ps"
    and "pr_revision_count p = 1" and "rev_pull_request_id r = pr_id p" and "rev_number r = 1"
    and "rev_id r \<notin> rev_id ` set rs"
  shows "numbering (tbl_add p ps) (tbl_add r rs)"
proof -
  have fk: "rev_pull_request_id ` set rs \<subseteq> pr_id ` set ps" using assms(1) unfolding numbering_def by blast
  have none: "rev_pull_request_id v \<noteq> pr_id p" if "v \<in> set rs" for v
    using fk that assms(2) by (metis image_subset_iff)
  have old: "distinct (map pr_id ps)" "distinct (map github_key ps)"
    "\<And>q. q \<in> set ps \<Longrightarrow> 1 \<le> pr_revision_count q \<and> numbers_of rs (pr_id q) = {1..pr_revision_count q}"
    using assms(1) unfolding numbering_def by blast+
  show ?thesis
  proof (rule numbering_extend [OF assms(1) _ _ assms(7)])
    show "distinct (map pr_id (tbl_add p ps))" "distinct (map github_key (tbl_add p ps))"
      using old(1,2) assms(2,3) by (simp_all add: tbl_add_def)
    show "revision_key r \<notin> revision_key ` set rs"
      using assms(5) by (auto simp: revision_key_def dest: none)
    show "pr_id ` set ps \<subseteq> pr_id ` set (tbl_add p ps)" "rev_pull_request_id r \<in> pr_id ` set (tbl_add p ps)"
      using assms(5) unfolding tbl_add_def by auto
    have "numbers_of rs (pr_id p) = {}" using none unfolding numbers_of_def by blast
    moreover have "pr_id q \<noteq> pr_id p" if "q \<in> set ps" for q using that assms(2) by (metis image_eqI)
    ultimately show "1 \<le> pr_revision_count q \<and> numbers_of (tbl_add r rs) (pr_id q) = {1..pr_revision_count q}"
      if "q \<in> set (tbl_add p ps)" for q
      using that old(3) [of q] assms(4-6) unfolding tbl_add_def numbers_of_add [unfolded tbl_add_def] by auto
  qed
qed

subsection \<open>Revisions\<close>

text \<open>A revision that is bound to a head of its pull request.\<close>

definition bound :: "session \<Rightarrow> uuid \<Rightarrow> uuid \<Rightarrow> pystr \<Rightarrow> bool" where
  "bound s pr k head \<longleftrightarrow>
     (\<exists>r p. get_revision s k = Some r \<and> rev_pull_request_id r = pr \<and> rev_head_sha r = head \<and>
        get_pull_request s pr = Some p \<and> pr_head_sha p = head)"

definition lands :: "uuid \<Rightarrow> pystr \<Rightarrow> pub \<Rightarrow> exn + uuid \<Rightarrow> bool" where
  "lands pr head q r \<longleftrightarrow> numbered (pb_s q) \<and> (\<forall>k. r = Inr k \<longrightarrow> bound (pb_s q) pr k head)"

lemma get_set_pull_request:
  assumes "get_pull_request s k = Some p" and "\<And>p. pr_id (f p) = pr_id p"
  shows "get_pull_request (set_pull_request k f s) k = Some (f p)" "ss_revisions (set_pull_request k f s) = ss_revisions s"
  using assms get_pull_request_in [OF assms(1)]
  by (auto simp: set_pull_request_def put_pull_request_def get_pull_request_def tbl_get_put tbl_keys_def)

lemma get_add_revision [simp]: "get_pull_request (add_revision r s) k = get_pull_request s k"
  "ss_pull_requests (add_revision r s) = ss_pull_requests s" "ss_revisions (add_revision r s) = tbl_add r (ss_revisions s)"
  by (simp_all add: add_revision_def tick_def get_pull_request_def)

lemma numbered_tick [simp]: "numbered (tick s) = numbered s"
  by (simp add: numbered_def tick_def)

lemma numbered_pr: "numbered s \<Longrightarrow> v \<in> set (ss_revisions s) \<Longrightarrow> \<exists>p. get_pull_request s (rev_pull_request_id v) = Some p"
  unfolding numbered_def numbering_def get_pull_request_def
  by (metis image_eqI image_subset_iff option.exhaust tbl_get_def find_key_None)

lemma numbered_get: "numbered s \<Longrightarrow> v \<in> set (ss_revisions s) \<Longrightarrow> get_revision s (rev_id v) = Some v"
  unfolding numbered_def numbering_def get_revision_def by (blast intro: tbl_get_unique)

lemma head_revision_in:
  "get_revision_for_head_sha s pr head = Some v \<Longrightarrow>
     v \<in> set (ss_revisions s) \<and> rev_pull_request_id v = pr \<and> rev_head_sha v = head"
  unfolding get_revision_for_head_sha_def latest_by_def by (auto dest: first_by_Some)

lemma set_head_lands:
  assumes "numbered s" and "get_revision_for_head_sha s pr head = Some v"
  shows "numbered (set_pull_request pr (\<lambda>p. p\<lparr>pr_head_sha := head\<rparr>) s)"
    "bound (set_pull_request pr (\<lambda>p. p\<lparr>pr_head_sha := head\<rparr>) s) pr (rev_id v) head"
proof -
  note v = head_revision_in [OF assms(2)]
  from numbered_pr [OF assms(1)] v obtain p where p: "get_pull_request s pr = Some p" by blast
  from get_set_pull_request [OF p, of "\<lambda>p. p\<lparr>pr_head_sha := head\<rparr>"] numbered_get [OF assms(1)] v
  show "bound (set_pull_request pr (\<lambda>p. p\<lparr>pr_head_sha := head\<rparr>) s) pr (rev_id v) head"
    by (auto simp: bound_def get_revision_def)
  show "numbered (set_pull_request pr (\<lambda>p. p\<lparr>pr_head_sha := head\<rparr>) s)"
    by (rule set_pull_request_numbered [OF assms(1)]) (simp add: pr_shape_def github_key_def)
qed

lemma dedupe_lands:
  assumes "dedupe_revision pr head m p = Some (q, r)" and "numbered (pb_s p)"
    and "\<And>q r. m p = Some (q, r) \<Longrightarrow> lands pr head q r"
  shows "lands pr head q r"
  using assms set_head_lands [OF assms(2), of pr head]
  by (auto simp: dedupe_revision_def bind_Some read_s_def write_s_def lands_def split: option.splits)

definition refreshed :: "pub_env \<Rightarrow> pub \<Rightarrow> session" where
  "refreshed env p = pe_others env (pb_readings p) (pb_s p)"

lemma insert_revision_cases:
  assumes "insert_revision env pr head base p = Some (q, r)"
  obtains e where "pb_s q = pb_s p" "r = Inl e"
  | c n v where "get_pull_request (pb_s p) pr = Some c" "n = pr_revision_count c + 1"
      "v = new_revision (refreshed (he_pub env) p) pr n head base" "revision_conflict (refreshed (he_pub env) p) v"
      "pb_s q = tick (refreshed (he_pub env) p)" "r = Inr None"
  | c n v where "get_pull_request (pb_s p) pr = Some c" "n = pr_revision_count c + 1"
      "v = new_revision (refreshed (he_pub env) p) pr n head base" "\<not> revision_conflict (refreshed (he_pub env) p) v"
      "pb_s q = set_pull_request pr (\<lambda>p. p\<lparr>pr_revision_count := n, pr_head_sha := head\<rparr>) (add_revision v (refreshed (he_pub env) p))"
      "r = Inr (Some (rev_id v))"
  using assms
  by (auto simp: insert_revision_def with_pull_request_def bind_Some read_s_def write_s_def refresh_e_def Let_def
      refreshed_def split: option.splits if_splits)

lemma othersD:
  assumes "others_keep_numbering env" and "numbered (pb_s p)"
  shows "numbered (refreshed env p)" "set (ss_revisions (pb_s p)) \<subseteq> set (ss_revisions (refreshed env p))"
    "pr_id ` set (ss_pull_requests (pb_s p)) \<subseteq> pr_id ` set (ss_pull_requests (refreshed env p))"
  using assms unfolding others_keep_numbering_def refreshed_def by blast+

lemma numbered_counts:
  "numbered s \<Longrightarrow> p \<in> set (ss_pull_requests s) \<Longrightarrow>
     1 \<le> pr_revision_count p \<and> numbers_of (ss_revisions s) (pr_id p) = {1..pr_revision_count p}"
  by (simp add: numbered_def numbering_def)

text \<open>When the number after the count is still free, the count is still the same.\<close>

lemma insert_numbered:
  assumes n: "numbered s" "numbered t" and kept: "set (ss_revisions s) \<subseteq> set (ss_revisions t)"
    "pr_id ` set (ss_pull_requests s) \<subseteq> pr_id ` set (ss_pull_requests t)"
    and c: "get_pull_request s pr = Some c" and v: "v = new_revision u pr (pr_revision_count c + 1) head base"
    and free: "\<not> revision_conflict t v"
  defines "f \<equiv> \<lambda>p. p\<lparr>pr_revision_count := pr_revision_count c + 1, pr_head_sha := head\<rparr>"
  shows "numbered (set_pull_request pr f (add_revision v t))" "bound (set_pull_request pr f (add_revision v t)) pr (rev_id v) head"
proof -
  have c': "c \<in> set (ss_pull_requests s)" "pr_id c = pr" using get_pull_request_in [OF c] by auto
  have v': "rev_pull_request_id v = pr" "rev_number v = pr_revision_count c + 1" "rev_head_sha v = head"
    using v by (simp_all add: new_revision_def)
  obtain d where d: "get_pull_request t pr = Some d"
    using kept(2) c' unfolding get_pull_request_def by (metis image_eqI image_subset_iff find_key_None option.exhaust tbl_get_def)
  note d' = get_pull_request_in [OF d]
  have no: "rev_id q \<noteq> rev_id v \<and> (rev_pull_request_id q = pr \<longrightarrow> rev_number q \<noteq> pr_revision_count c + 1)"
    if "q \<in> set (ss_revisions t)" for q
    using free that unfolding revision_conflict_def list_ex_iff v' by blast
  have fresh: "rev_id v \<notin> rev_id ` set (ss_revisions t)"
    by (rule notI, erule imageE) (use no in fastforce)
  have new: "pr_revision_count c + 1 \<notin> numbers_of (ss_revisions t) pr"
    unfolding numbers_of_def by (rule notI, erule imageE) (use no in force)
  note nums = numbered_counts [OF n(1) c'(1)] numbered_counts [OF n(2) d' [THEN conjunct1]]
  have "numbers_of (ss_revisions s) pr \<subseteq> numbers_of (ss_revisions t) pr" using kept(1) unfolding numbers_of_def by blast
  then have "pr_revision_count c \<in> {1..pr_revision_count d}" using nums c'(2) d' by auto
  with new nums d' have same: "pr_revision_count d = pr_revision_count c" by auto
  have "numbering (tbl_put pr_id (f d) (ss_pull_requests t)) (tbl_add v (ss_revisions t))"
    using n(2) d' fresh v' same
    by (intro numbering_append [of _ _ d]) (simp_all add: f_def github_key_def numbered_def)
  then show "numbered (set_pull_request pr f (add_revision v t))"
    by (simp add: set_pull_request_def d put_pull_request_def numbered_def)
  have "get_revision (add_revision v t) (rev_id v) = Some v"
    using fresh unfolding get_revision_def get_add_revision tbl_get_add
    by (simp add: tbl_get_def find_key_None [THEN iffD2])
  then show "bound (set_pull_request pr f (add_revision v t)) pr (rev_id v) head"
    using get_set_pull_request [of "add_revision v t" pr d f] d v' by (auto simp: f_def bound_def get_revision_def)
qed

lemma insert_revision_lands:
  assumes "others_keep_numbering (he_pub env)" and "numbered (pb_s p)" and "insert_revision env pr head base p = Some (q, r)"
  shows "numbered (pb_s q) \<and> (\<forall>k. r = Inr (Some k) \<longrightarrow> bound (pb_s q) pr k head)"
  using assms(3)
proof (cases rule: insert_revision_cases)
  case (3 c n v)
  with insert_numbered [OF assms(2) othersD [OF assms(1,2)] 3(1), of v "refreshed (he_pub env) p" head base]
  show ?thesis by auto
qed (use assms(2) othersD [OF assms(1,2)] in auto)

lemma append_revision_lands:
  assumes "others_keep_numbering (he_pub env)" and "numbered (pb_s p)" and "append_revision env pr head base p = Some (q, r)"
  shows "lands pr head q r"
  using assms(3) unfolding append_revision_def
proof (rule dedupe_lands [OF _ assms(2)])
  fix q r
  assume "bind_e (insert_revision env pr head base) (\<lambda>first. case first of Some k \<Rightarrow> ret k
      | None \<Rightarrow> bind_e (refresh_e (he_pub env)) (\<lambda>_. dedupe_revision pr head
          (bind_e (insert_revision env pr head base) (\<lambda>second. case second of Some k \<Rightarrow> ret k | None \<Rightarrow> raise_e Integrity_error)))) p
      = Some (q, r)"
  then consider e where "insert_revision env pr head base p = Some (q, Inl e)" "r = Inl e"
    | k where "insert_revision env pr head base p = Some (q, Inr (Some k))" "r = Inr k"
    | t t' where "insert_revision env pr head base p = Some (t, Inr None)" "pb_s t' = refreshed (he_pub env) t"
        "dedupe_revision pr head (bind_e (insert_revision env pr head base)
          (\<lambda>second. case second of Some k \<Rightarrow> ret k | None \<Rightarrow> raise_e Integrity_error)) t' = Some (q, r)"
    by (fastforce simp: bind_Some refresh_e_def refreshed_def split: option.splits)
  then show "lands pr head q r"
  proof cases
    case (3 t t')
    have "numbered (pb_s t)" using insert_revision_lands [OF assms(1,2) 3(1)] by blast
    then have t': "numbered (pb_s t')" using othersD(1) [OF assms(1)] 3(2) by simp
    from 3(3) show ?thesis
      by (rule dedupe_lands [OF _ t'])
        (auto simp: bind_Some lands_def split: option.splits dest!: insert_revision_lands [OF assms(1) t'])
  qed (use insert_revision_lands [OF assms(1,2)] in \<open>auto simp: lands_def\<close>)
qed

subsection \<open>The pull request\<close>

lemma bind_write: "bind_e (write_s g) f p = f () (p\<lparr>pb_s := g (pb_s p)\<rparr>)"
  by (simp add: bind_e_def write_s_def)

lemma bind_read: "bind_e (read_s g) f p = f (g (pb_s p)) p"
  by (simp add: bind_e_def read_s_def)

lemma bind_refresh: "bind_e (refresh_e env) f p = f () (p\<lparr>pb_s := refreshed env p, pb_readings := Suc (pb_readings p)\<rparr>)"
  by (simp add: bind_e_def refresh_e_def refreshed_def)

lemma bind_call: "bind_e (call_e m) f p =
    (case m (pb_s p) of (s, Inl e) \<Rightarrow> Some (p\<lparr>pb_s := s\<rparr>, Inl e) | (s, Inr x) \<Rightarrow> f x (p\<lparr>pb_s := s\<rparr>))"
  by (auto simp: bind_e_def call_e_def on_session_def on_part_def total_e_def split: prod.split sum.split)

definition landed :: "bool \<Rightarrow> pystr \<Rightarrow> pub \<Rightarrow> exn + uuid \<times> uuid option \<Rightarrow> bool" where
  "landed bind head q r \<longleftrightarrow> numbered (pb_s q) \<and>
     (bind \<longrightarrow> (\<forall>pr rv. r = Inr (pr, rv) \<longrightarrow> (\<exists>k. rv = Some k \<and> bound (pb_s q) pr k head)))"

lemma create_numbered:
  assumes "numbered s" and "find_pull_request s (repo_id repo) (pf_github_pull_request_id f) = None"
    and "create_pull_request s repo f = (s', r)"
  shows "numbered s'" "r = Inr (pr, rv) \<Longrightarrow> bound s' pr rv (pf_head_sha f)"
proof -
  define p where "p = new_pull_request s repo f"
  define t where "t = tick (s\<lparr>ss_pull_requests := tbl_add p (ss_pull_requests s)\<rparr>)"
  define v where "v = new_revision t (pr_id p) 1 (pf_head_sha f) (Some (pf_base_sha f))"
  have p: "pr_repository_id p = repo_id repo" "pr_github_pull_request_id p = pf_github_pull_request_id f"
    "pr_revision_count p = 1" "pr_head_sha p = pf_head_sha f"
    by (simp_all add: p_def new_pull_request_def)
  have v: "rev_pull_request_id v = pr_id p" "rev_number v = 1" "rev_head_sha v = pf_head_sha f"
    by (simp_all add: v_def new_revision_def)
  have t: "ss_pull_requests t = tbl_add p (ss_pull_requests s)" "ss_revisions t = ss_revisions s"
    by (simp_all add: t_def tick_def)
  have r: "(s', r) = (if pr_id p \<in> tbl_keys pr_id (ss_pull_requests s) \<or> revision_conflict t v then (s, Inl Integrity_error)
      else (add_revision v t, Inr (pr_id p, rev_id v)))"
    unfolding assms(3) [symmetric] create_pull_request_def Let_def p_def t_def v_def by (rule refl)
  have key: "github_key p \<notin> github_key ` set (ss_pull_requests s)"
    using assms(2) p by (auto simp: find_pull_request_def is_github_pr_def github_key_def find_None_iff)
  have ok: "numbered (add_revision v t) \<and> bound (add_revision v t) (pr_id p) (rev_id v) (pf_head_sha f)"
    if free: "pr_id p \<notin> tbl_keys pr_id (ss_pull_requests s)" "\<not> revision_conflict t v"
  proof
    have fresh: "rev_id v \<notin> rev_id ` set (ss_revisions s)"
      using free(2) by (auto simp: revision_conflict_def list_ex_iff t)
    have new: "pr_id p \<notin> pr_id ` set (ss_pull_requests s)" using free(1) by (simp add: tbl_keys_def)
    show "numbered (add_revision v t)"
      using numbering_create [OF assms(1) [unfolded numbered_def] new key p(3) v(1,2) fresh] by (simp add: numbered_def t)
    show "bound (add_revision v t) (pr_id p) (rev_id v) (pf_head_sha f)"
      using fresh new v p unfolding bound_def get_revision_def get_pull_request_def get_add_revision t tbl_get_add
      by (simp add: tbl_get_def find_key_None [THEN iffD2])
  qed
  show "numbered s'" using r ok assms(1) by (auto split: if_splits)
  show "bound s' pr rv (pf_head_sha f)" if "r = Inr (pr, rv)" using r ok that by (auto split: if_splits)
qed

lemma write_pr_fields_shape: "pr_shape (write_pr_fields f p) = pr_shape p" "pr_id (write_pr_fields f p) = pr_id p"
  by (simp_all add: write_pr_fields_def pr_shape_def github_key_def)

lemma update_landed:
  assumes "others_keep_numbering (he_pub env)" and "numbered (pb_s p)"
    and "update_pull_request env pr f create upd p = Some (q, r)"
  shows "landed create (pf_head_sha f) q r"
proof -
  define p1 where "p1 = p\<lparr>pb_s := set_pull_request pr (write_pr_fields f) (pb_s p)\<rparr>"
  have n1: "numbered (pb_s p1)"
    using set_pull_request_numbered [OF assms(2)] write_pr_fields_shape by (simp add: p1_def)
  show ?thesis
  proof (cases create)
    case True
    then have "bind_e (read_s (\<lambda>s. get_revision_for_head_sha s pr (pf_head_sha f))) (\<lambda>existing.
        case existing of Some r \<Rightarrow> bind_e (write_s (set_pull_request pr (\<lambda>p. p\<lparr>pr_head_sha := pf_head_sha f\<rparr>))) (\<lambda>_. ret (pr, Some (rev_id r)))
        | None \<Rightarrow> bind_e (append_revision env pr (pf_head_sha f) (Some (pf_base_sha f))) (\<lambda>k. ret (pr, Some k))) p1 = Some (q, r)"
      using assms(3) by (simp only: update_pull_request_def bind_write p1_def if_True)
    then show ?thesis
      using set_head_lands [OF n1, of pr "pf_head_sha f"]
      by (auto simp: bind_Some read_s_def write_s_def landed_def lands_def split: option.splits
          dest: append_revision_lands [OF assms(1) n1])
  next
    case False
    with assms(3) have "pb_s q = (if upd then set_pull_request pr (\<lambda>p. p\<lparr>pr_head_sha := pf_head_sha f\<rparr>) (pb_s p1) else pb_s p1)"
      by (auto simp: update_pull_request_def bind_Some write_s_def p1_def)
    then show ?thesis
      using n1 False set_pull_request_numbered [OF n1] by (simp add: landed_def pr_shape_def github_key_def)
  qed
qed

lemma upsert_landed:
  assumes "others_keep_numbering (he_pub env)" and "numbered (pb_s p)"
    and "upsert_pull_request env repo f create upd p = Some (q, r)"
  shows "landed create (pf_head_sha f) q r"
proof (cases "find_pull_request (pb_s p) (repo_id repo) (pf_github_pull_request_id f)")
  case (Some x)
  with assms(3) have "update_pull_request env (pr_id x) f create upd p = Some (q, r)"
    by (simp add: upsert_pull_request_def Let_def bind_read)
  then show ?thesis by (rule update_landed [OF assms(1,2)])
next
  case None
  define t where "t = p\<lparr>pb_s := refreshed (he_pub env) p, pb_readings := Suc (pb_readings p)\<rparr>"
  have n: "numbered (pb_s t)" using othersD(1) [OF assms(1,2)] by (simp add: t_def)
  show ?thesis
  proof (cases "find_pull_request (pb_s t) (repo_id repo) (pf_github_pull_request_id f)")
    case (Some x)
    with None assms(3) have "update_pull_request env (pr_id x) f create upd t = Some (q, r)"
      by (simp add: upsert_pull_request_def Let_def bind_read bind_refresh t_def)
    then show ?thesis by (rule update_landed [OF assms(1) n])
  next
    case none: None
    obtain s' x where c: "create_pull_request (pb_s t) repo f = (s', x)" by fastforce
    have "pb_s q = s' \<and> r = map_sum id (\<lambda>(pr, rv). (pr, Some rv)) x"
      using None none assms(3) c
      by (auto simp: upsert_pull_request_def Let_def bind_read bind_refresh t_def bind_call split: sum.splits prod.splits)
    with create_numbered [OF n none c] show ?thesis by (cases x) (auto simp: landed_def)
  qed
qed

subsection \<open>Superseding\<close>

definition same_rows :: "session \<Rightarrow> session \<Rightarrow> bool" where
  "same_rows s s' \<longleftrightarrow> ss_revisions s' = ss_revisions s \<and> ss_pull_requests s' = ss_pull_requests s"

text \<open>No review run and no index job of the revision is in flight.\<close>

definition idle :: "session \<Rightarrow> uuid \<Rightarrow> bool" where
  "idle s k \<longleftrightarrow> (\<forall>r\<in>set (ss_review_runs s). rr_revision_id r = k \<longrightarrow> \<not> is_active_run r) \<and>
     (\<forall>j\<in>set (ss_index_jobs s). ij_revision_id j = k \<longrightarrow> \<not> is_active_job j)"

lemma same_rows_trans: "same_rows s t \<Longrightarrow> same_rows t u \<Longrightarrow> same_rows s u"
  by (simp add: same_rows_def)

lemma same_rows_facts:
  assumes "same_rows s s'"
  shows "numbered s' = numbered s" "get_revision s' k = get_revision s k" "get_pull_request s' k = get_pull_request s k"
    "bound s' pr k head = bound s pr k head" "stale_revision s' pr keep k = stale_revision s pr keep k"
  using assms by (auto simp: same_rows_def numbered_def bound_def get_revision_def get_pull_request_def stale_revision_def)

lemma active_not_superseded: "is_active_run r \<Longrightarrow> r \<noteq> supersede_run q" "is_active_job j \<Longrightarrow> j \<noteq> supersede_job i"
  by auto

lemma marked_runs:
  assumes "mark_review_run_ids_superseded_cas s (map rr_id (filter (\<lambda>r. P r \<and> is_active_run r) (ss_review_runs s))) = (s', ids)"
    and "\<And>r. P (supersede_run r) = P r"
  shows "same_rows s s'" "ss_index_jobs s' = ss_index_jobs s"
    "\<And>r. r \<in> set (ss_review_runs s') \<Longrightarrow> P r \<Longrightarrow> \<not> is_active_run r"
    "\<And>r. r \<in> set (ss_review_runs s') \<Longrightarrow> is_active_run r \<Longrightarrow> r \<in> set (ss_review_runs s)"
proof -
  note c = cas_result [OF assms(1), THEN conjunct1]
  show "same_rows s s'" "ss_index_jobs s' = ss_index_jobs s" by (simp_all add: c same_rows_def)
  show "\<not> is_active_run r" if r: "r \<in> set (ss_review_runs s')" "P r" for r
  proof
    assume a: "is_active_run r"
    with r(1) have m: "r \<in> set (ss_review_runs s)" "rr_id r \<notin> set (map rr_id (filter (\<lambda>r. P r \<and> is_active_run r) (ss_review_runs s)))"
      unfolding c by (auto simp: tbl_map_set active_not_superseded split: if_splits)
    with a r(2) show False by auto
  qed
  show "r \<in> set (ss_review_runs s)" if "r \<in> set (ss_review_runs s')" "is_active_run r" for r
    using that unfolding c by (auto simp: tbl_map_set split: if_splits)
qed

lemma marked_jobs:
  assumes "mark_index_job_ids_superseded_cas s (map ij_id (filter (\<lambda>j. P j \<and> is_active_job j) (ss_index_jobs s))) = (s', ids)"
  shows "same_rows s s'" "ss_review_runs s' = ss_review_runs s"
    "\<And>j. j \<in> set (ss_index_jobs s') \<Longrightarrow> P j \<Longrightarrow> \<not> is_active_job j"
    "\<And>j. j \<in> set (ss_index_jobs s') \<Longrightarrow> is_active_job j \<Longrightarrow> j \<in> set (ss_index_jobs s)"
proof -
  let ?ks = "map ij_id (filter (\<lambda>j. P j \<and> is_active_job j) (ss_index_jobs s))"
  have c: "s' = s\<lparr>ss_index_jobs := tbl_map (\<lambda>j. ij_id j \<in> set ?ks \<and> is_active_job j) supersede_job (ss_index_jobs s)\<rparr>"
    using assms unfolding mark_index_job_ids_superseded_cas_def Let_def by simp
  show "same_rows s s'" "ss_review_runs s' = ss_review_runs s" by (simp_all add: c same_rows_def)
  show "\<not> is_active_job j" if j: "j \<in> set (ss_index_jobs s')" "P j" for j
  proof
    assume a: "is_active_job j"
    with j(1) have m: "j \<in> set (ss_index_jobs s)" "ij_id j \<notin> set ?ks"
      unfolding c by (auto simp: tbl_map_set active_not_superseded split: if_splits)
    with a j(2) show False by auto
  qed
  show "j \<in> set (ss_index_jobs s)" if "j \<in> set (ss_index_jobs s')" "is_active_job j" for j
    using that unfolding c by (auto simp: tbl_map_set split: if_splits)
qed

lemma conclude_idle:
  assumes "conclude_superseded env now s ids js = (s', r)"
  shows "same_rows s s'" "idle s' k = idle s k"
  using conclude_neutral [OF assms] by (auto simp: neutral_only_def same_rows_def idle_def)

text \<open>Both ways of superseding leave the revisions they are about idle, and none that was idle active.\<close>

lemma marked_idle:
  assumes "mark_review_run_ids_superseded_cas s (map rr_id (filter (\<lambda>r. P (rr_revision_id r) \<and> is_active_run r) (ss_review_runs s))) = (s1, ids)"
    and "mark_index_job_ids_superseded_cas s1 (map ij_id (filter (\<lambda>j. P (ij_revision_id j) \<and> is_active_job j) (ss_index_jobs s1))) = (s2, js)"
    and "conclude_superseded env now s2 ids js = (s', r)"
  shows "same_rows s s' \<and> (\<forall>k. P k \<or> idle s k \<longrightarrow> idle s' k)"
proof -
  note m1 = marked_runs [OF assms(1)] and m2 = marked_jobs [OF assms(2)] and c = conclude_idle [OF assms(3)]
  have "idle s2 k" if "P k \<or> idle s k" for k
    unfolding idle_def
  proof (intro conjI ballI impI notI)
    fix r assume "r \<in> set (ss_review_runs s2)" "rr_revision_id r = k" "is_active_run r"
    then show False using m1(3,4) [of r] m2(2) that by (auto simp: idle_def)
  next
    fix j assume "j \<in> set (ss_index_jobs s2)" "ij_revision_id j = k" "is_active_job j"
    then show False using m2(3,4) [of j] m1(2) that by (auto simp: idle_def)
  qed
  then show ?thesis using same_rows_trans [OF m1(1) same_rows_trans [OF m2(1) c(1)]] c(2) by simp
qed

lemma supersede_stale_idle:
  assumes "supersede_stale_generations_for_new_revision env now s pr keep = (s', r)"
  shows "same_rows s s' \<and> (\<forall>k. stale_revision s pr keep k \<or> idle s k \<longrightarrow> idle s' k)"
proof -
  obtain s1 ids s2 js where 1: "mark_review_runs_superseded_for_pull_request s pr keep = (s1, ids)"
    and 2: "mark_index_jobs_superseded_for_pull_request s1 pr keep = (s2, js)"
    and 3: "conclude_superseded env now s2 ids js = (s', r)"
    using assms by (auto simp: supersede_stale_generations_for_new_revision_def split: prod.splits)
  have "same_rows s s1" using 1 unfolding mark_review_runs_superseded_for_pull_request_def
    by (rule marked_runs(1)) simp
  then have "k \<in> set (older_revision_ids s1 pr keep) \<longleftrightarrow> stale_revision s pr keep k" for k
    using same_rows_facts(5) older_revision_ids_iff by blast
  with 1 2 3 older_revision_ids_iff show ?thesis
    unfolding mark_review_runs_superseded_for_pull_request_def mark_index_jobs_superseded_for_pull_request_def
    by (intro marked_idle [where P = "stale_revision s pr keep"]) simp_all
qed

lemma supersede_active_idle:
  assumes "supersede_active_generations_for_revision env now s k = (s', r)" and "get_revision s k = Some v"
  shows "same_rows s s' \<and> (\<forall>j. j = k \<or> idle s j \<longrightarrow> idle s' j)"
proof -
  obtain s1 ids s2 js where 1: "mark_active_review_runs_superseded_for_revision s k = (s1, ids)"
    and 2: "mark_active_index_jobs_superseded_for_revision s1 k = (s2, js)"
    and 3: "conclude_superseded env now s2 ids js = (s', r)"
    using assms(1) by (auto simp: supersede_active_generations_for_revision_def split: prod.splits)
  with assms(2) show ?thesis
    unfolding mark_active_review_runs_superseded_for_revision_def mark_active_index_jobs_superseded_for_revision_def
    by (intro marked_idle [where P = "\<lambda>j. j = k"]) simp_all
qed

subsection \<open>Every event\<close>

lemma keeps_set_pull_request:
  "(\<And>p. pr_shape (f p) = pr_shape p) \<Longrightarrow> keeps (\<lambda>p. numbered (pb_s p)) (write_s (set_pull_request k f))"
  by (rule keeps_write_s) (simp add: set_pull_request_numbered)

lemma keeps_upsert:
  "others_keep_numbering (he_pub env) \<Longrightarrow> keeps (\<lambda>p. numbered (pb_s p)) (upsert_pull_request env repo f create upd)"
  by (rule keepsI) (auto dest: upsert_landed simp: landed_def)

lemma keeps_append:
  "others_keep_numbering (he_pub env) \<Longrightarrow> keeps (\<lambda>p. numbered (pb_s p)) (append_revision env pr head base)"
  by (rule keepsI) (auto dest: append_revision_lands simp: lands_def)

lemma keeps_same_rows:
  "(\<And>s s' r. m s = (s', r) \<Longrightarrow> same_rows s s') \<Longrightarrow> keeps (\<lambda>p. numbered (pb_s p)) (call_e m)"
  by (rule keeps_call_e) (auto dest: same_rows_facts(1))

lemma keeps_store_review: "keeps (\<lambda>p. numbered (pb_s p)) (write_s (\<lambda>s. store_review s k i l st t))"
  by (rule keeps_write_s) (auto simp: store_review_def numbered_def tick_def split: option.split)

lemma supersede_active_rows:
  assumes "supersede_active_generations_for_revision env now s k = (s', r)"
  shows "same_rows s s'"
proof (cases "get_revision s k")
  case None
  obtain s2 js where 2: "mark_active_index_jobs_superseded_for_revision s k = (s2, js)"
    and 3: "conclude_superseded env now s2 [] js = (s', r)"
    using assms None
    by (auto simp: supersede_active_generations_for_revision_def mark_active_review_runs_superseded_for_revision_def
        split: prod.splits)
  show ?thesis
    by (rule same_rows_trans [OF marked_jobs(1) [OF 2 [unfolded mark_active_index_jobs_superseded_for_revision_def]]
        conclude_idle(1) [OF 3]])
qed (use supersede_active_idle [OF assms] in blast)

lemma keeps_supersede_for_push: "keeps (\<lambda>p. numbered (pb_s p)) (supersede_for_push env pr rv before)"
  unfolding supersede_for_push_def with_pull_request_def Let_def
  by (intro keeps_rules keeps_read_s keeps_same_rows)
    (use supersede_stale_idle supersede_active_rows in blast)+

lemmas event_rules = keeps_rules keeps_read_s keeps_upsert keeps_append keeps_supersede_for_push keeps_set_pull_request
  keeps_store_review

text \<open>C7. Every webhook about a pull request keeps the numbering: a pull request has one row by repository
  and GitHub identifier, its revisions carry exactly the numbers from one to its count, once each, and every
  revision has its pull request. This holds whether the handler returns or raises, provided the
  transactions that commit in between keep it and delete no row.\<close>

theorem webhook_events_keep_numbering:
  assumes "others_keep_numbering (he_pub env)"
  shows "keeps (\<lambda>p. numbered (pb_s p)) (apply_pull_request_webhook_event env payload) \<and>
    keeps (\<lambda>p. numbered (pb_s p)) (apply_pull_request_review_webhook_event env payload) \<and>
    keeps (\<lambda>p. numbered (pb_s p)) (apply_issue_comment_webhook_event env payload)"
proof (intro conjI)
  show "keeps (\<lambda>p. numbered (pb_s p)) (apply_pull_request_webhook_event env payload)"
    unfolding apply_pull_request_webhook_event_def opened_event_def synchronize_event_def state_event_def
    using assms by (intro event_rules) (simp_all add: pr_shape_def github_key_def)
  show "keeps (\<lambda>p. numbered (pb_s p)) (apply_pull_request_review_webhook_event env payload)"
    unfolding apply_pull_request_review_webhook_event_def prod.case
    using assms by (intro event_rules)
  show "keeps (\<lambda>p. numbered (pb_s p)) (apply_issue_comment_webhook_event env payload)"
    unfolding apply_issue_comment_webhook_event_def prod.case
    using assms by (intro event_rules)
qed

subsection \<open>Which pull request an event is about\<close>

text \<open>Other transactions leave the repository and the GitHub identifier of a pull request's row alone.\<close>

definition others_keep_identity :: "pub_env \<Rightarrow> bool" where
  "others_keep_identity env \<longleftrightarrow>
     (\<forall>n s k p. get_pull_request s k = Some p \<longrightarrow>
        (\<exists>p'. get_pull_request (pe_others env n s) k = Some p' \<and> github_key p' = github_key p))"

definition has_key :: "session \<Rightarrow> uuid \<Rightarrow> uuid \<times> int \<Rightarrow> bool" where
  "has_key s k key \<longleftrightarrow> (\<exists>p. get_pull_request s k = Some p \<and> github_key p = key)"

lemma has_key_set:
  assumes "has_key s k key" and "\<And>p. pr_id (f p) = pr_id p \<and> github_key (f p) = github_key p"
  shows "has_key (set_pull_request j f s) k key"
proof (cases "get_pull_request s j")
  case (Some q)
  with assms get_pull_request_in [OF Some] show ?thesis
    by (auto simp: has_key_def set_pull_request_def put_pull_request_def get_pull_request_def tbl_get_put)
qed (use assms in \<open>simp add: set_pull_request_def\<close>)

lemma has_key_refreshed: "others_keep_identity env \<Longrightarrow> has_key (pb_s p) k key \<Longrightarrow> has_key (refreshed env p) k key"
  unfolding others_keep_identity_def has_key_def refreshed_def by metis

lemma keeps_key_refresh: "others_keep_identity env \<Longrightarrow> keeps (\<lambda>p. has_key (pb_s p) k key) (refresh_e env)"
  by (rule keepsI) (auto simp: refresh_e_def refreshed_def [symmetric] dest: has_key_refreshed)

lemma keeps_key_set:
  "(\<And>p. pr_id (f p) = pr_id p \<and> github_key (f p) = github_key p) \<Longrightarrow>
     keeps (\<lambda>p. has_key (pb_s p) k key) (write_s (set_pull_request j f))"
  by (rule keeps_write_s) (simp add: has_key_set)

lemma has_key_add [simp]: "has_key (add_revision r s) k key = has_key s k key" "has_key (tick s) k key = has_key s k key"
  by (simp_all add: has_key_def) (simp add: tick_def get_pull_request_def)

lemma keeps_key_insert:
  "others_keep_identity (he_pub env) \<Longrightarrow> keeps (\<lambda>p. has_key (pb_s p) k key) (insert_revision env pr head base)"
  unfolding insert_revision_def with_pull_request_def Let_def
  by (intro keeps_rules keeps_key_refresh keeps_write_s) (simp_all add: has_key_set github_key_def)

lemma keeps_key_dedupe:
  "keeps (\<lambda>p. has_key (pb_s p) k key) m \<Longrightarrow> keeps (\<lambda>p. has_key (pb_s p) k key) (dedupe_revision pr head m)"
  unfolding dedupe_revision_def by (intro keeps_rules keeps_key_set) (simp_all add: github_key_def)

lemma keeps_key_append:
  "others_keep_identity (he_pub env) \<Longrightarrow> keeps (\<lambda>p. has_key (pb_s p) k key) (append_revision env pr head base)"
  unfolding append_revision_def
  by (intro keeps_key_dedupe keeps_rules keeps_key_insert keeps_key_refresh)

lemma keeps_key_update:
  "others_keep_identity (he_pub env) \<Longrightarrow> keeps (\<lambda>p. has_key (pb_s p) k key) (update_pull_request env pr f create upd)"
  unfolding update_pull_request_def
  by (intro keeps_rules keeps_key_append keeps_key_set keeps_write_s)
    (simp_all add: github_key_def write_pr_fields_def has_key_set)

lemma update_id: "update_pull_request env pr f create upd p = Some (q, Inr (k, rv)) \<Longrightarrow> k = pr"
  by (auto simp: update_pull_request_def bind_Some split: option.splits if_splits)

lemma found_key:
  "numbered s \<Longrightarrow> find_pull_request s repo i = Some x \<Longrightarrow> has_key s (pr_id x) (repo, i)"
  unfolding numbered_def numbering_def has_key_def get_pull_request_def find_pull_request_def is_github_pr_def
  by (intro exI [of _ x]) (auto simp: find_Some_iff github_key_def intro!: tbl_get_unique)

lemma create_key:
  assumes "create_pull_request s repo f = (s', Inr (pr, rv))"
  shows "has_key s' pr (repo_id repo, pf_github_pull_request_id f)"
proof -
  define p where "p = new_pull_request s repo f"
  obtain r where r: "s' = add_revision r (tick (s\<lparr>ss_pull_requests := tbl_add p (ss_pull_requests s)\<rparr>))"
      "pr = pr_id p" "pr_id p \<notin> tbl_keys pr_id (ss_pull_requests s)"
    using assms by (auto simp: create_pull_request_def Let_def p_def split: if_splits)
  then have "tbl_get pr_id (pr_id p) (ss_pull_requests s) = None" by (simp add: tbl_get_def tbl_keys_def find_key_None)
  then have "has_key (s\<lparr>ss_pull_requests := tbl_add p (ss_pull_requests s)\<rparr>) pr (github_key p)"
    by (simp add: has_key_def get_pull_request_def tbl_get_add r(2))
  then show ?thesis by (simp add: r(1)) (simp add: p_def github_key_def new_pull_request_def)
qed

lemma upsert_key:
  assumes "others_keep_numbering (he_pub env)" and o: "others_keep_identity (he_pub env)" and "numbered (pb_s p)"
    and "upsert_pull_request env repo f create upd p = Some (q, Inr (k, rv))"
  shows "has_key (pb_s q) k (repo_id repo, pf_github_pull_request_id f)"
proof (cases "find_pull_request (pb_s p) (repo_id repo) (pf_github_pull_request_id f)")
  case (Some x)
  with assms(4) have u: "update_pull_request env (pr_id x) f create upd p = Some (q, Inr (k, rv))"
    by (simp add: upsert_pull_request_def Let_def bind_read)
  show ?thesis using keepsD [OF keeps_key_update [OF o] found_key [OF assms(3) Some] u] update_id [OF u] by simp
next
  case None
  define t where "t = p\<lparr>pb_s := refreshed (he_pub env) p, pb_readings := Suc (pb_readings p)\<rparr>"
  have n: "numbered (pb_s t)" using othersD(1) [OF assms(1,3)] by (simp add: t_def)
  show ?thesis
  proof (cases "find_pull_request (pb_s t) (repo_id repo) (pf_github_pull_request_id f)")
    case (Some x)
    with None assms(4) have u: "update_pull_request env (pr_id x) f create upd t = Some (q, Inr (k, rv))"
      by (simp add: upsert_pull_request_def Let_def bind_read bind_refresh t_def)
    show ?thesis using keepsD [OF keeps_key_update [OF o] found_key [OF n Some] u] update_id [OF u] by simp
  next
    case none: None
    obtain s' x where c: "create_pull_request (pb_s t) repo f = (s', x)" by fastforce
    have "pb_s q = s' \<and> x = Inr (k, the rv)"
      using None none assms(4) c
      by (auto simp: upsert_pull_request_def Let_def bind_read bind_refresh t_def bind_call split: sum.splits prod.splits)
    with c create_key show ?thesis by blast
  qed
qed

text \<open>The repository the payload names: active, with the GitHub identifiers of the payload.\<close>

definition names_repository :: "session \<Rightarrow> (pystr \<times> json) list \<Rightarrow> repository \<Rightarrow> bool" where
  "names_repository s payload repo \<longleftrightarrow>
     (\<exists>i r inst. payload_dict (json_get (S ''installation'') payload) = Some i \<and>
        payload_dict (json_get (S ''repository'') payload) = Some r \<and>
        inst \<in> set (ss_installations s) \<and> payload_int (json_get (S ''id'') i) = Some (inst_github_installation_id inst) \<and>
        repo \<in> set (ss_repositories s) \<and> repo_installation_id repo = inst_id inst \<and>
        payload_int (json_get (S ''id'') r) = Some (repo_github_repository_id repo) \<and> repo_status repo = Repo_active)"

lemma find_in: "List.find p xs = Some x \<Longrightarrow> x \<in> set xs \<and> p x"
  by (auto simp: find_Some_iff)

lemma resolve_names: "resolve_repository s payload = Some repo \<Longrightarrow> names_repository s payload repo"
  unfolding names_repository_def
  by (auto simp: resolve_repository_def installation_by_github_id_def split: option.splits dest!: find_in)

subsection \<open>What a push leaves\<close>

definition settled_on ::
  "session \<Rightarrow> pull_request_result \<Rightarrow> repository \<Rightarrow> pr_fields \<Rightarrow> revision \<Rightarrow> bool" where
  "settled_on s w repo f v \<longleftrightarrow>
     get_revision s (pw_revision_id w) = Some v \<and> rev_head_sha v = pf_head_sha f \<and>
     (\<exists>p. get_pull_request s (rev_pull_request_id v) = Some p \<and> pr_head_sha p = pf_head_sha f \<and>
        pr_repository_id p = repo_id repo \<and> pr_github_pull_request_id p = pf_github_pull_request_id f) \<and>
     pw_workspace_id w = repo_workspace_id repo \<and>
     (\<forall>u\<in>set (ss_revisions s). rev_pull_request_id u = rev_pull_request_id v \<and> rev_number u < rev_number v \<longrightarrow>
        idle s (rev_id u)) \<and>
     (\<not> pw_new_revision w \<longrightarrow> idle s (rev_id v))"

lemma supersede_for_push_idle:
  assumes "supersede_for_push env pr k before p = Some (q, Inr created)" and "get_revision (pb_s p) k = Some v"
  shows "same_rows (pb_s p) (pb_s q)" "stale_revision (pb_s p) pr k j \<Longrightarrow> idle (pb_s q) j" "\<not> created \<Longrightarrow> idle (pb_s q) k"
proof -
  obtain s1 r1 where 1: "supersede_stale_generations_for_new_revision (pe_check (he_pub env)) (he_now env) (pb_s p) pr k = (s1, r1)"
    by fastforce
  note i1 = supersede_stale_idle [OF 1]
  obtain s2 r2 where 2: "supersede_active_generations_for_revision (pe_check (he_pub env)) (he_now env) s1 k = (s2, r2)"
    by fastforce
  have "get_revision s1 k = Some v" using same_rows_facts(2) i1 assms(2) by metis
  note i2 = supersede_active_idle [OF 2 this]
  have "pb_s q = s1 \<and> created \<or> pb_s q = s2 \<and> \<not> created"
    using assms(1) 1 2 by (auto simp: supersede_for_push_def with_pull_request_def bind_call bind_read Let_def
        split: sum.splits option.splits if_splits)
  with i1 i2 same_rows_trans show "same_rows (pb_s p) (pb_s q)" "stale_revision (pb_s p) pr k j \<Longrightarrow> idle (pb_s q) j"
    "\<not> created \<Longrightarrow> idle (pb_s q) k" by blast+
qed

lemma synchronize_settles:
  assumes "others_keep_numbering (he_pub env)" and "numbered (pb_s p)"
    and "synchronize_event env repo f p = Some (q, Inr (Some w))" and "others_keep_identity (he_pub env)"
  shows "\<exists>v. settled_on (pb_s q) w repo f v"
proof -
  define before where "before = find_pull_request (pb_s p) (repo_id repo) (pf_github_pull_request_id f)"
  obtain p1 pr rv where u: "upsert_pull_request env repo f True True p = Some (p1, Inr (pr, rv))"
    and rest: "(case rv of None \<Rightarrow> ret None
       | Some k \<Rightarrow> bind_e (read_s (\<lambda>s. get_revision s k)) (\<lambda>bound. case bound of None \<Rightarrow> ret None
           | Some r \<Rightarrow> bind_e (supersede_for_push env pr (rev_id r) before) (\<lambda>created.
               ret (Some \<lparr>pw_workspace_id = repo_workspace_id repo, pw_revision_id = rev_id r, pw_new_revision = created,
                 pw_action = S ''synchronize'', pw_pipeline_retrigger = True\<rparr>)))) p1 = Some (q, Inr (Some w))"
    using assms(3) by (auto simp: synchronize_event_def bind_read before_def [symmetric] bind_Some [of "upsert_pull_request env repo f True True"])
  obtain k where k: "rv = Some k" "numbered (pb_s p1)" "bound (pb_s p1) pr k (pf_head_sha f)"
    using upsert_landed [OF assms(1,2) u] by (auto simp: landed_def)
  then obtain v c where v: "get_revision (pb_s p1) k = Some v" "rev_pull_request_id v = pr" "rev_head_sha v = pf_head_sha f"
    "get_pull_request (pb_s p1) pr = Some c" "pr_head_sha c = pf_head_sha f"
    by (auto simp: bound_def)
  have id: "rev_id v = k" using get_revision_id [OF v(1)] .
  from rest k v id obtain created where c: "supersede_for_push env pr k before p1 = Some (q, Inr created)"
    and w: "pw_revision_id w = k" "pw_new_revision w = created" "pw_workspace_id w = repo_workspace_id repo"
    by (auto simp: bind_read bind_Some)
  note i = supersede_for_push_idle [OF c v(1)]
  have stale: "stale_revision (pb_s p1) pr k (rev_id u)"
    if "u \<in> set (ss_revisions (pb_s q))" "rev_pull_request_id u = pr" "rev_number u < rev_number v" for u
    using that v i(1) unfolding stale_revision_def same_rows_def by auto
  have key: "pr_repository_id c = repo_id repo" "pr_github_pull_request_id c = pf_github_pull_request_id f"
    using upsert_key [OF assms(1,4,2) u] v(4) by (auto simp: has_key_def github_key_def)
  have "settled_on (pb_s q) w repo f v"
    unfolding settled_on_def using same_rows_facts(2,3) [OF i(1)] v w id i(2) [OF stale] i(3) key by simp
  then show ?thesis ..
qed

text \<open>C8. A push, when it starts a pipeline, leaves the pull request it names (by the repository and installation
  of the payload and its GitHub identifier) with the pushed head and binds the
  pipeline, in the workspace of the repository, to a revision of that head; nothing stays in flight on the revisions numbered before it, and,
  when the revision was there already, nothing on the revision itself. The other transactions keep the numbering
  and do not move a pull request to another repository or identifier.\<close>

theorem push_settles_on_head:
  assumes "others_keep_numbering (he_pub env)" and "numbered (pb_s p)"
    and "json_get (S ''action'') payload = Some (JStr (S ''synchronize''))"
    and "json_get (S ''pull_request'') payload = Some (JObj ms)" and "extract_pr_fields ms = Some f"
    and "apply_pull_request_webhook_event env payload p = Some (q, Inr (Some w))"
    and "others_keep_identity (he_pub env)"
  shows "is_authoritative_for_pull_request_head (pb_s q) (pw_revision_id w) \<and>
    (\<exists>repo v. names_repository (pb_s p) payload repo \<and> settled_on (pb_s q) w repo f v)"
proof -
  have "S ''synchronize'' \<in> set PULL_REQUEST_ACTIONS" "S ''synchronize'' \<noteq> S ''opened''"
    by (simp_all add: PULL_REQUEST_ACTIONS_def S_def)
  with assms(3-6) obtain repo where s: "synchronize_event env repo f p = Some (q, Inr (Some w))"
    and repo: "resolve_repository (pb_s p) payload = Some repo"
    by (auto simp: apply_pull_request_webhook_event_def bind_read split: option.splits)
  from synchronize_settles [OF assms(1,2) s assms(7)] obtain v where v: "settled_on (pb_s q) w repo f v" ..
  then have "is_authoritative_for_pull_request_head (pb_s q) (pw_revision_id w)"
    by (auto simp: settled_on_def is_authoritative_for_pull_request_head_def)
  with v resolve_names [OF repo] show ?thesis by blast
qed

subsection \<open>A push to the small database\<close>

definition demo_hook :: hook_env where
  "demo_hook = \<lparr>he_pub = demo_pub_env, he_now = S ''now'', he_now_instant = 5, he_fromisoformat = (\<lambda>t. None),
     he_unicode = (\<lambda>c. False), he_bot_login = S ''revy''\<rparr>"

definition demo_hook_pub :: pub where
  "demo_hook_pub = (let s = empty_session\<lparr>
       ss_installations := [\<lparr>inst_id = 6, inst_workspace_id = 3, inst_github_installation_id = 9, inst_account_login = S ''o'',
         inst_account_type = Account_organization, inst_account_id = 1, inst_status = Inst_active,
         inst_permissions_snapshot = None, inst_verified_at = None\<rparr>],
       ss_repositories := [\<lparr>repo_id = 5, repo_installation_id = 6, repo_workspace_id = 3, repo_github_repository_id = 70,
         repo_name = S ''r'', repo_full_name = S ''o/r'', repo_default_branch = None, repo_private = False,
         repo_html_url = None, repo_status = Repo_active\<rparr>],
       ss_pull_requests := [demo_pull_request\<lparr>pr_revision_count := 1\<rparr>], ss_revisions := [demo_revision\<lparr>rev_number := 1\<rparr>],
       ss_review_runs := [demo_run\<lparr>rr_status := RR_processing\<rparr>]\<rparr>
     in \<lparr>pb_s = s, pb_committed = s, pb_readings = 0\<rparr>)"

definition demo_push_pr :: "(pystr \<times> json) list" where
  "demo_push_pr = [(S ''id'', JInt 900), (S ''number'', JInt 17), (S ''title'', JStr (S ''Add'')), (S ''state'', JStr (S ''open'')),
     (S ''head'', JObj [(S ''sha'', JStr (S ''cc'')), (S ''ref'', JStr (S ''topic''))]),
     (S ''base'', JObj [(S ''sha'', JStr (S ''aa'')), (S ''ref'', JStr (S ''main''))])]"

definition demo_push :: "(pystr \<times> json) list" where
  "demo_push = [(S ''action'', JStr (S ''synchronize'')), (S ''pull_request'', JObj demo_push_pr),
     (S ''installation'', JObj [(S ''id'', JInt 9)]), (S ''repository'', JObj [(S ''id'', JInt 70)])]"

lemma demo_others: "others_keep_numbering (he_pub demo_hook)"
  by (simp add: others_keep_numbering_def demo_hook_def demo_pub_env_def)

lemma demo_others_identity: "others_keep_identity (he_pub demo_hook)"
  by (simp add: others_keep_identity_def demo_hook_def demo_pub_env_def)

lemma numbers_of_list: "numbers_of rs k = set (map rev_number (filter (\<lambda>r. rev_pull_request_id r = k) rs))"
  by (auto simp: numbers_of_def)

lemma demo_numbered: "numbered (pb_s demo_hook_pub)"
  by (simp add: numbered_def numbering_def numbers_of_list demo_hook_pub_def demo_defs Let_def)

lemma demo_payload:
  "json_get (S ''action'') demo_push = Some (JStr (S ''synchronize''))"
  "json_get (S ''pull_request'') demo_push = Some (JObj demo_push_pr)"
  "json_get (S ''installation'') demo_push = Some (JObj [(S ''id'', JInt 9)])"
  "json_get (S ''repository'') demo_push = Some (JObj [(S ''id'', JInt 70)])"
  "\<exists>f. extract_pr_fields demo_push_pr = Some f \<and> pf_head_sha f = S ''cc'' \<and> pf_github_pull_request_id f = 900"
  by (simp_all add: demo_push_def demo_push_pr_def S_def extract_pr_fields_def pull_request_state_of_def)

lemma demo_push_runs:
  "\<exists>q w. apply_pull_request_webhook_event demo_hook demo_push demo_hook_pub = Some (q, Inr (Some w)) \<and>
     map rr_status (ss_review_runs (pb_s q)) = [RR_superseded]"
proof -
  note payload = demo_payload [unfolded json_get.simps]
  obtain f where f: "extract_pr_fields demo_push_pr = Some f" "pf_head_sha f = S ''cc''" "pf_github_pull_request_id f = 900"
    using payload(5) by blast
  have a: "S ''synchronize'' \<in> set PULL_REQUEST_ACTIONS" "S ''synchronize'' \<noteq> S ''opened''" "S ''bb'' \<noteq> S ''cc''"
    by (simp_all add: PULL_REQUEST_ACTIONS_def S_def)
  have r: "resolve_repository (pb_s demo_hook_pub) demo_push = Some (hd (ss_repositories (pb_s demo_hook_pub)))"
    by (simp add: resolve_repository_def payload installation_by_github_id_def demo_hook_pub_def Let_def)
  define repo where "repo = hd (ss_repositories (pb_s demo_hook_pub))"
  have repo: "repo_id repo = 5" by (simp add: repo_def demo_hook_pub_def Let_def)
  have 1: "apply_pull_request_webhook_event demo_hook demo_push demo_hook_pub = synchronize_event demo_hook repo f demo_hook_pub"
    by (simp add: apply_pull_request_webhook_event_def payload f a bind_read r repo_def)
  have 2: "\<exists>q w. synchronize_event demo_hook repo f demo_hook_pub = Some (q, Inr (Some w)) \<and>
     map rr_status (ss_review_runs (pb_s q)) = [RR_superseded]"
    by (simp add: synchronize_event_def upsert_pull_request_def Let_def find_pull_request_def is_github_pr_def bind_read repo f update_pull_request_def bind_write
        bind_call bind_refresh refreshed_def set_pull_request_def put_pull_request_def tbl_put_def bind_assoc a
        write_pr_fields_def get_revision_for_head_sha_def latest_by_def append_revision_def dedupe_revision_def
        insert_revision_def with_pull_request_def get_pull_request_def get_revision_def tbl_get_def new_revision_def
        revision_conflict_def add_revision_def tick_def tbl_add_def next_uuid_def supersede_for_push_def created_new_revision_def
        supersede_stale_generations_for_new_revision_def mark_review_runs_superseded_for_pull_request_def older_revision_ids_def
        mark_index_jobs_superseded_for_pull_request_def mark_index_job_ids_superseded_cas_def is_active_run_def
        ACTIVE_REVIEW_RUN_STATUSES_def count_if_def tbl_map_def conclude_superseded_def get_pipeline_run_for_review_run_def
        record_generation_superseded_on_pipeline_def finalize_pipeline_checks_for_superseded_index_jobs_def
        demo_hook_def demo_hook_pub_def demo_pub_env_def demo_defs)
  with 1 show ?thesis by simp
qed

theorem webhook_events_keep_numbering_witness:
  "\<exists>q r. apply_pull_request_webhook_event demo_hook demo_push demo_hook_pub = Some (q, r) \<and> numbered (pb_s q)"
  using demo_push_runs keepsD [OF webhook_events_keep_numbering [OF demo_others, of demo_push, THEN conjunct1] demo_numbered]
  by blast

theorem push_settles_on_head_witness:
  "\<exists>q w. apply_pull_request_webhook_event demo_hook demo_push demo_hook_pub = Some (q, Inr (Some w)) \<and>
     is_authoritative_for_pull_request_head (pb_s q) (pw_revision_id w) \<and> map rr_status (ss_review_runs (pb_s q)) = [RR_superseded] \<and>
     (\<exists>repo v f. names_repository (pb_s demo_hook_pub) demo_push repo \<and> settled_on (pb_s q) w repo f v)"
proof -
  obtain f where f: "extract_pr_fields demo_push_pr = Some f" using demo_payload(5) by blast
  obtain q w where r: "apply_pull_request_webhook_event demo_hook demo_push demo_hook_pub = Some (q, Inr (Some w))"
    "map rr_status (ss_review_runs (pb_s q)) = [RR_superseded]" using demo_push_runs by (elim exE conjE)
  note push = push_settles_on_head [OF demo_others demo_numbered demo_payload(1,2) f r(1) demo_others_identity]
  then obtain repo v where "names_repository (pb_s demo_hook_pub) demo_push repo" "settled_on (pb_s q) w repo f v" by blast
  with push [THEN conjunct1] r show ?thesis by (intro exI conjI)
qed

end
