(* ===== verification/Review_Pipeline.thy ===== *)
theory Review_Pipeline
  imports Review_Run
begin

section \<open>The review pipeline (\<open>services/review_pipeline.py\<close>)\<close>

text \<open>
  A pipeline is an index job and then a review run of one revision.  An event of a pull request or a command
  may start one (\<open>maybe_enqueue_pipeline_for_revision\<close>); when its index job has completed, the review run
  is created (\<open>prepare_review_after_index\<close>), or the check run is to be concluded as failed or neutral.
  Logging is left out.
\<close>

definition PIPELINE_TRIGGERS :: "trigger_source list" where
  "PIPELINE_TRIGGERS = [Trig_autostart, Trig_command]"

definition resolve_pending_index_job_id :: "session \<Rightarrow> uuid \<Rightarrow> uuid \<Rightarrow> uuid option" where
  "resolve_pending_index_job_id s ws rv =
     map_option ij_id (List.find (\<lambda>j. ij_workspace_id j = ws \<and> ij_revision_id j = rv \<and> ij_status j = IJ_pending)
       (ss_index_jobs s))"

definition resolve_pending_review_run_id :: "session \<Rightarrow> uuid \<Rightarrow> uuid \<Rightarrow> uuid option" where
  "resolve_pending_review_run_id s ws rv =
     map_option rr_id (List.find (\<lambda>r. rr_workspace_id r = ws \<and> rr_revision_id r = rv \<and> rr_status r = RR_pending)
       (ss_review_runs s))"

definition pipeline_prerequisites_met :: "review_settings \<Rightarrow> bool" where
  "pipeline_prerequisites_met st \<longleftrightarrow>
     rs_github_api_enabled st \<and> rs_embeddings_enabled st \<and> rs_reviewer_llm_enabled st"

definition reviewable :: "pull_request \<Rightarrow> bool" where
  "reviewable p \<longleftrightarrow> \<not> pr_is_draft p \<and> pr_state p = PR_open"

subsection \<open>Starting\<close>

definition new_index_job :: "session \<Rightarrow> uuid \<Rightarrow> uuid \<Rightarrow> trigger_source \<Rightarrow> index_mode \<Rightarrow> bool \<Rightarrow> index_job" where
  "new_index_job s ws rv trigger mode incremental =
     \<lparr>ij_id = next_uuid s, ij_revision_id = rv, ij_workspace_id = ws, ij_status = IJ_pending, ij_error_message = None,
      ij_trigger_source = trigger, ij_index_mode = mode, ij_chunk_count = None, ij_fallback_reason = None,
      ij_warning_message = None, ij_index_incremental = incremental, ij_created_at = next_time s\<rparr>"

definition add_index_job :: "index_job \<Rightarrow> session \<Rightarrow> session" where
  "add_index_job j s = tick (s\<lparr>ss_index_jobs := tbl_add j (ss_index_jobs s)\<rparr>)"

text \<open>The rows a pipeline needs, and that nothing is in flight: the revision, or none when it is not to
  start.\<close>

definition pipeline_revision :: "review_settings \<Rightarrow> session \<Rightarrow> uuid \<Rightarrow> uuid \<Rightarrow> trigger_source \<Rightarrow> revision option" where
  "pipeline_revision st s ws rv trigger =
     (case get_revision s rv of
        None \<Rightarrow> None
      | Some v \<Rightarrow>
          (case get_pull_request s (rev_pull_request_id v) of
             None \<Rightarrow> None
           | Some p \<Rightarrow>
               if pr_workspace_id p \<noteq> ws \<or> \<not> reviewable p then None
               else
                 (case get_workspace s ws of
                    None \<Rightarrow> None
                  | Some w \<Rightarrow>
                      if trigger = Trig_autostart \<and> \<not> ws_review_autostart_enabled w then None
                      else if \<not> pipeline_prerequisites_met st then None
                      else if index_job_in_progress s ws rv \<or> review_in_progress s ws rv then None
                      else Some v)))"

definition maybe_enqueue_pipeline_for_revision ::
  "check_env \<Rightarrow> review_settings \<Rightarrow> session \<Rightarrow> uuid \<Rightarrow> uuid \<Rightarrow> trigger_source \<Rightarrow> session \<times> (exn + uuid option)" where
  "maybe_enqueue_pipeline_for_revision env st s ws rv trigger =
     (if trigger \<notin> set PIPELINE_TRIGGERS then (s, Inl (Value_error (S ''unsupported pipeline trigger'')))
      else case pipeline_revision st s ws rv trigger of
        None \<Rightarrow> (s, Inr None)
      | Some v \<Rightarrow>
          let job = new_index_job s ws rv trigger Mode_diff True;
              (s, r) = provision_queued_pipeline_github_check env (add_index_job job s) job (rev_head_sha v)
          in (s, rbind r (\<lambda>_. Inr (Some (ij_id job)))))"

subsection \<open>After the index\<close>

record review_after_index =
  ai_review_run_id :: "uuid option"
  ai_fail_pipeline_check :: bool
  ai_neutral_finalize_check :: bool
  ai_pipeline_check_summary :: "pystr option"

definition nothing_to_do :: review_after_index where
  "nothing_to_do = \<lparr>ai_review_run_id = None, ai_fail_pipeline_check = False, ai_neutral_finalize_check = False,
     ai_pipeline_check_summary = None\<rparr>"

definition fail_check :: "pystr \<Rightarrow> review_after_index" where
  "fail_check m = nothing_to_do\<lparr>ai_fail_pipeline_check := True, ai_pipeline_check_summary := Some m\<rparr>"

definition neutral_check :: "pystr \<Rightarrow> review_after_index" where
  "neutral_check m = nothing_to_do\<lparr>ai_neutral_finalize_check := True, ai_pipeline_check_summary := Some m\<rparr>"

definition NOT_REVIEWABLE_SUMMARY :: pystr where
  "NOT_REVIEWABLE_SUMMARY = S ''Review skipped '' @ [8212] @ S '' pull request is draft or not open''"

definition NOT_HEAD_SUMMARY :: pystr where
  "NOT_HEAD_SUMMARY = S ''Review skipped '' @ [8212] @ S '' revision is not pull request HEAD''"

text \<open>The handlers of \<open>create_review_run\<close>; an exception of another class is not handled.\<close>

definition review_refused :: "exn \<Rightarrow> exn + review_after_index" where
  "review_refused e =
     (if is_platform ForbiddenError e \<or> is_platform ServiceUnavailableError e then
        Inr (fail_check (if is_platform ForbiddenError e \<and> exn_code e = S ''credit_limit_reached''
          then S ''credit_limit_reached'' else take 2000 (exn_code e)))
      else if is_platform ConflictError e then Inr nothing_to_do
      else Inl e)"

definition prepare_review_after_index ::
  "review_settings \<Rightarrow> session \<Rightarrow> index_job \<Rightarrow> session \<times> (exn + review_after_index)" where
  "prepare_review_after_index st s job =
     (if ij_status job \<noteq> IJ_completed \<or> ij_trigger_source job \<notin> set PIPELINE_TRIGGERS then (s, Inr nothing_to_do)
      else if resolve_pending_review_run_id s (ij_workspace_id job) (ij_revision_id job) \<noteq> None then (s, Inr nothing_to_do)
      else case get_revision s (ij_revision_id job) of
        None \<Rightarrow> (s, Inr (fail_check (S ''revision_not_found'')))
      | Some v \<Rightarrow>
          (case get_pull_request s (rev_pull_request_id v) of
             None \<Rightarrow> (s, Inr (fail_check (S ''pull_request_not_found'')))
           | Some p \<Rightarrow>
               if \<not> reviewable p then (s, Inr (neutral_check NOT_REVIEWABLE_SUMMARY))
               else if \<not> is_authoritative_for_pull_request_head s (ij_revision_id job)
                 then (s, Inr (neutral_check NOT_HEAD_SUMMARY))
               else
                 (case create_review_run st s (ij_workspace_id job) (pr_repository_id p) (pr_id p) (ij_revision_id job)
                    Prof_standard of
                    Inl e \<Rightarrow> (s, review_refused e)
                  | Inr (s, run) \<Rightarrow>
                      (case get_pipeline_run_for_index_job s (ij_id job) of
                         None \<Rightarrow> s
                       | Some q \<Rightarrow> link_review_run_to_pipeline s q (rr_id run),
                       Inr (nothing_to_do\<lparr>ai_review_run_id := Some (rr_id run)\<rparr>)))))"

end
