(* ===== verification/Chunking.thy ===== *)
theory Chunking
  imports Py_Text
begin

section \<open>Chunks of a source file (\<open>services/code_chunking.py\<close>)\<close>

text \<open>
  Which files are indexed, and how their text is cut into chunks: lines are collected until the next one
  would pass the limit, and a collected block that is not blank becomes a chunk with the next index.
\<close>

definition MAX_CHUNK_CHARS :: nat where
  "MAX_CHUNK_CHARS = 2000"

subsection \<open>Which files\<close>

definition SKIP_DIR_NAMES :: "pystr list" where
  "SKIP_DIR_NAMES = map S [''.git'', ''node_modules'', ''vendor'', ''__pycache__'', ''.venv'', ''venv'', ''dist'',
     ''build'', ''.next'', ''coverage'']"

definition CODE_EXTENSIONS :: "pystr list" where
  "CODE_EXTENSIONS = map S [''.py'', ''.ts'', ''.tsx'', ''.js'', ''.jsx'', ''.go'', ''.rs'', ''.java'', ''.kt'', ''.md'',
     ''.json'', ''.yaml'', ''.yml'', ''.toml'', ''.sql'', ''.css'', ''.html'']"

text \<open>\<open>str.split(c)\<close>; the accumulator is the current part, reversed.\<close>

fun split_chr :: "nat \<Rightarrow> pystr \<Rightarrow> pystr \<Rightarrow> pystr list" where
  "split_chr c acc [] = [rev acc]"
| "split_chr c acc (d # s) = (if d = c then rev acc # split_chr c [] s else split_chr c (d # acc) s)"

text \<open>\<open>PurePosixPath.parts\<close> without the root, and \<open>PurePosixPath.suffix\<close>.\<close>

definition path_parts :: "pystr \<Rightarrow> pystr list" where
  "path_parts p = filter (\<lambda>x. x \<noteq> [] \<and> x \<noteq> S ''.'') (split_chr 47 [] p)"

definition path_suffix :: "pystr \<Rightarrow> pystr" where
  "path_suffix p =
     (case rev (path_parts p) of
        [] \<Rightarrow> []
      | name # _ \<Rightarrow>
          (case py_rfind_char 46 name of
             None \<Rightarrow> []
           | Some i \<Rightarrow> if 0 < i \<and> i < length name - 1 then drop i name else []))"

definition should_index_file :: "pystr \<Rightarrow> bool" where
  "should_index_file file_path =
     (let path = py_replace_char 92 47 file_path in
      if list_ex (\<lambda>part. part \<in> set SKIP_DIR_NAMES) (path_parts path) then False
      else py_lower (path_suffix path) \<in> set CODE_EXTENSIONS)"

subsection \<open>Cutting the text\<close>

record code_chunk =
  ck_file_path :: pystr
  ck_chunk_index :: nat
  ck_content :: pystr

definition flush_chunk :: "pystr \<Rightarrow> pystr list \<Rightarrow> nat \<Rightarrow> code_chunk list" where
  "flush_chunk p buffer i =
     (let txt = py_strip (py_join [10] buffer) in
      if buffer = [] \<or> txt = [] then []
      else [\<lparr>ck_file_path = p, ck_chunk_index = i, ck_content = txt\<rparr>])"

text \<open>The lines that are left, the buffer with its length, and the next index.\<close>

fun chunk_lines :: "pystr \<Rightarrow> pystr list \<Rightarrow> pystr list \<Rightarrow> nat \<Rightarrow> nat \<Rightarrow> code_chunk list" where
  "chunk_lines p [] buffer n i = flush_chunk p buffer i"
| "chunk_lines p (l # ls) buffer n i =
     (let k = length l + 1 in
      if buffer \<noteq> [] \<and> MAX_CHUNK_CHARS < n + k then
        (let out = flush_chunk p buffer i in out @ chunk_lines p ls [l] k (i + length out))
      else chunk_lines p ls (buffer @ [l]) (n + k) i)"

definition chunk_file_content :: "pystr \<Rightarrow> pystr \<Rightarrow> code_chunk list" where
  "chunk_file_content file_path content =
     (if py_strip content = [] then [] else chunk_lines file_path (py_splitlines content) [] 0 0)"

subsection \<open>What is in the chunks\<close>

text \<open>The size of a block of lines, with a line break each.\<close>

definition block_size :: "pystr list \<Rightarrow> nat" where
  "block_size ls = sum_list (map (\<lambda>l. length l + 1) ls)"

definition block_fits :: "pystr list \<Rightarrow> bool" where
  "block_fits ls \<longleftrightarrow> ls \<noteq> [] \<and> (length ls = 1 \<or> block_size ls \<le> MAX_CHUNK_CHARS)"

text \<open>Blocks are as long as they can be: the first line of the next one would not have fitted.\<close>

fun greedy :: "pystr list list \<Rightarrow> bool" where
  "greedy (b # c # bs) \<longleftrightarrow> MAX_CHUNK_CHARS < block_size (b @ [hd c]) \<and> greedy (c # bs)"
| "greedy _ \<longleftrightarrow> True"

fun number_from :: "nat \<Rightarrow> pystr \<Rightarrow> pystr list \<Rightarrow> code_chunk list" where
  "number_from i p [] = []"
| "number_from i p (t # ts) = \<lparr>ck_file_path = p, ck_chunk_index = i, ck_content = t\<rparr> # number_from (Suc i) p ts"

definition block_texts :: "pystr list list \<Rightarrow> pystr list" where
  "block_texts bs = filter (\<lambda>t. t \<noteq> []) (map (\<lambda>b. py_strip (py_join [10] b)) bs)"

lemma number_from_append: "number_from i p (xs @ ys) = number_from i p xs @ number_from (i + length xs) p ys"
  by (induction xs arbitrary: i) simp_all

lemma flush_chunk_number: "b \<noteq> [] \<Longrightarrow> flush_chunk p b i = number_from i p (block_texts [b])"
  by (simp add: flush_chunk_def block_texts_def Let_def)

lemma length_number_from [simp]: "length (number_from i p ts) = length ts"
  by (induction ts arbitrary: i) simp_all

lemma chunk_lines_blocks:
  assumes "buffer \<noteq> [] \<Longrightarrow> block_fits buffer" and "n = block_size buffer"
  shows "\<exists>bs. concat bs = buffer @ ls \<and> list_all block_fits bs \<and> greedy bs \<and>
    (buffer \<noteq> [] \<longrightarrow> bs \<noteq> [] \<and> prefix buffer (hd bs)) \<and> chunk_lines p ls buffer n i = number_from i p (block_texts bs)"
  using assms
proof (induction ls arbitrary: buffer n i)
  case Nil
  show ?case
  proof (cases "buffer = []")
    case True
    then show ?thesis by (intro exI [of _ "[]"]) (simp add: flush_chunk_def block_texts_def)
  next
    case False
    with Nil.prems show ?thesis by (intro exI [of _ "[buffer]"]) (simp add: flush_chunk_number)
  qed
next
  case (Cons l ls)
  show ?case
  proof (cases "buffer \<noteq> [] \<and> MAX_CHUNK_CHARS < n + (length l + 1)")
    case True
    let ?out = "flush_chunk p buffer i"
    have "block_fits [l]" "length l + 1 = block_size [l]" by (simp_all add: block_fits_def block_size_def)
    with Cons.IH [of "[l]" "length l + 1" "i + length ?out"] obtain bs where
      bs: "concat bs = [l] @ ls" "list_all block_fits bs" "greedy bs" "bs \<noteq> []" "prefix [l] (hd bs)"
        "chunk_lines p ls [l] (length l + 1) (i + length ?out) = number_from (i + length ?out) p (block_texts bs)"
      by auto
    from bs(4,5) obtain c cs where c: "bs = c # cs" "c \<noteq> []" "hd c = l" by (cases bs) (auto simp: prefix_def)
    have out: "?out = number_from i p (block_texts [buffer])" using True by (simp add: flush_chunk_number)
    have "block_texts (buffer # bs) = block_texts [buffer] @ block_texts bs" by (simp add: block_texts_def)
    then have "chunk_lines p (l # ls) buffer n i = number_from i p (block_texts (buffer # bs))"
      using True bs(6) out by (simp add: Let_def number_from_append)
    moreover have "greedy (buffer # bs)"
      using True bs(3) c Cons.prems(2) by (simp add: block_size_def)
    ultimately show ?thesis
      using True bs Cons.prems(1) by (intro exI [of _ "buffer # bs"]) simp
  next
    case False
    have fits: "block_fits (buffer @ [l])"
      using False Cons.prems by (auto simp: block_fits_def block_size_def)
    have "n + (length l + 1) = block_size (buffer @ [l])" using Cons.prems(2) by (simp add: block_size_def)
    from Cons.IH [OF fits this, of i] obtain bs where
      "concat bs = (buffer @ [l]) @ ls" "list_all block_fits bs" "greedy bs" "bs \<noteq> []" "prefix (buffer @ [l]) (hd bs)"
      "chunk_lines p ls (buffer @ [l]) (n + (length l + 1)) i = number_from i p (block_texts bs)" by auto
    moreover have "prefix buffer (hd bs)" using \<open>prefix (buffer @ [l]) (hd bs)\<close> by (auto simp: prefix_def)
    moreover have "chunk_lines p (l # ls) buffer n i = chunk_lines p ls (buffer @ [l]) (n + (length l + 1)) i"
      using False by (auto simp: Let_def)
    ultimately show ?thesis by (intro exI [of _ bs]) simp
  qed
qed

lemma length_join: "b \<noteq> [] \<Longrightarrow> Suc (length (py_join [10] b)) = block_size b"
  by (induction b rule: induct_list012) (simp_all add: block_size_def)

lemma chunk_file_numbered: "\<exists>ts. chunk_file_content p content = number_from 0 p ts"
proof (cases "py_strip content = []")
  case True
  then show ?thesis by (intro exI [of _ "[]"]) (simp add: chunk_file_content_def)
next
  case False
  then show ?thesis
    using chunk_lines_blocks [of "[]" 0 "py_splitlines content" p 0] by (auto simp: chunk_file_content_def block_size_def)
qed

text \<open>C20. The chunks of a file are a partition of its lines: the lines fall, in order, into non-empty blocks, each of
  one line or at most 2000 characters and as long as it can be; the chunks are the blocks that are not blank,
  stripped, numbered from 0, and a chunk longer than 1999 characters is a single line.\<close>

theorem chunks_partition_lines:
  "\<exists>bs. concat bs = (if py_strip content = [] then [] else py_splitlines content) \<and>
     list_all block_fits bs \<and> greedy bs \<and> chunk_file_content p content = number_from 0 p (block_texts bs) \<and>
     list_all (\<lambda>b. length b = 1 \<or> length (py_join [10] b) < 2000) bs"
proof -
  obtain bs where bs: "concat bs = (if py_strip content = [] then [] else py_splitlines content)"
    "list_all block_fits bs" "greedy bs" "chunk_file_content p content = number_from 0 p (block_texts bs)"
  proof (cases "py_strip content = []")
    case True
    then show ?thesis by (intro that [of "[]"]) (simp_all add: chunk_file_content_def block_texts_def)
  next
    case False
    then show ?thesis
      using chunk_lines_blocks [of "[]" 0 "py_splitlines content" p 0] that
      by (auto simp: chunk_file_content_def block_size_def)
  qed
  moreover from bs(2) have "list_all (\<lambda>b. length b = 1 \<or> length (py_join [10] b) < 2000) bs"
    using length_join by (fastforce simp: list_all_iff block_fits_def MAX_CHUNK_CHARS_def)
  ultimately show ?thesis by blast
qed

end
