(* ===== verification/Indexing.thy ===== *)
theory Indexing
  imports Review_Pipeline Chunking Compare Publish_Task
begin

section \<open>Indexing a revision (\<open>services/github_indexing.py\<close>)\<close>

text \<open>
  An index job reads the repository at the head of its revision, cuts the files into chunks and stores
  them with their embeddings, reusing those of the parent revision. Parameters (\<open>index_env\<close>): GitHub's
  compare, the files of the archive in the order of their paths (download and extraction), the embeddings,
  the median duration of earlier full jobs (an aggregate of the database), \<open>str(exc)\<close>. The
  directory the archive is extracted to is left out.

  Locks as in PostgreSQL: from the conditional update that claims the job until the transaction ends its row is
  locked, so what other transactions do to it is seen before the claim and after a rollback.
\<close>

record index_env =
  ix_pub :: pub_env
  ix_tree :: "int \<Rightarrow> pystr \<Rightarrow> pystr \<Rightarrow> pystr \<Rightarrow> exn + (pystr \<times> nat list) list"
  ix_embed :: "pystr list \<Rightarrow> exn + int list list"
  ix_embedding_model :: pystr
  ix_embedding_dimensions :: int
  ix_p50 :: "session \<Rightarrow> index_job \<Rightarrow> int option"
  ix_str :: "exn \<Rightarrow> pystr"

definition SUPERSEDED_INDEX_ERROR :: pystr where
  "SUPERSEDED_INDEX_ERROR = S ''Superseded by newer run''"

definition is_superseded_index_job :: "index_job \<Rightarrow> bool" where
  "is_superseded_index_job j \<longleftrightarrow> ij_status j = IJ_failed \<and> ij_error_message j = Some SUPERSEDED_INDEX_ERROR"

subsection \<open>Creating a job\<close>

definition create_index_job ::
  "review_settings \<Rightarrow> session \<Rightarrow> uuid \<Rightarrow> uuid \<Rightarrow> uuid \<Rightarrow> uuid \<Rightarrow> index_mode option \<Rightarrow> bool \<Rightarrow> exn + session \<times> index_job" where
  "create_index_job st s ws repo pr rv mode incremental =
     (if \<not> rs_embeddings_enabled st then
        Inl (raise_platform ServiceUnavailableError (S ''Embeddings API is not configured'') (Some (S ''embeddings_disabled'')))
      else if \<not> rs_github_api_enabled st then
        Inl (raise_platform ServiceUnavailableError (S ''GitHub App API is not configured'') (Some (S ''github_api_disabled'')))
      else
        rbind (ensure_revision_access s ws repo pr rv) (\<lambda>_.
          if index_job_in_progress s ws rv then
            Inl (raise_platform ConflictError
              (S ''An index job is already in progress for this revision'') (Some (S ''index_in_progress'')))
          else
            let job = new_index_job s ws rv Trig_manual (opt_or mode Mode_full) incremental
            in Inr (add_index_job job s, job)))"

definition prepare_full_index_for_review_profile ::
  "review_settings \<Rightarrow> session \<Rightarrow> uuid \<Rightarrow> uuid \<Rightarrow> uuid \<Rightarrow> uuid \<Rightarrow> review_profile \<Rightarrow> exn + session \<times> index_job option" where
  "prepare_full_index_for_review_profile st s ws repo pr rv profile =
     (if profile \<notin> set FULL_INDEX_PROFILES then Inr (s, None)
      else
        rbind (ensure_revision_access s ws repo pr rv) (\<lambda>_.
          if index_job_in_progress s ws rv then
            Inl (raise_platform ConflictError
              (S ''An index job is already in progress for this revision'') (Some (S ''index_in_progress'')))
          else if (case get_latest_completed_index_job s ws rv of None \<Rightarrow> False | Some j \<Rightarrow> ij_index_mode j = Mode_full)
            then Inr (s, None)
          else rbind (create_index_job st s ws repo pr rv (Some Mode_full) False) (\<lambda>(s, job). Inr (s, Some job))))"

definition set_index_job :: "uuid \<Rightarrow> (index_job \<Rightarrow> index_job) \<Rightarrow> session \<Rightarrow> session" where
  "set_index_job k f s = (case get_index_job s k of None \<Rightarrow> s | Some j \<Rightarrow> put_index_job (f j) s)"

definition job_failed :: "pystr \<Rightarrow> index_job \<Rightarrow> index_job" where
  "job_failed m j = j\<lparr>ij_status := IJ_failed, ij_error_message := Some m\<rparr>"

definition mark_index_job_failed :: "uuid \<Rightarrow> pystr \<Rightarrow> session \<Rightarrow> session" where
  "mark_index_job_failed k message s =
     (case get_index_job s k of
        None \<Rightarrow> s
      | Some j \<Rightarrow> if ij_status j = IJ_completed then s else put_index_job (job_failed (take 2000 message) j) s)"

definition fail_pending_index_job_for_resolution_error :: "session \<Rightarrow> uuid \<Rightarrow> pystr \<Rightarrow> session \<times> bool" where
  "fail_pending_index_job_for_resolution_error s k message =
     (case get_index_job s k of
        None \<Rightarrow> (s, False)
      | Some j \<Rightarrow>
          if ij_status j \<noteq> IJ_pending then (s, False)
          else (put_index_job (job_failed message j) s, True))"

subsection \<open>Chunks of a revision\<close>

definition chunk_key :: "chunk_row \<Rightarrow> uuid \<times> pystr \<times> int" where
  "chunk_key c = (cr_revision_id c, cr_file_path c, cr_chunk_index c)"

definition revision_chunks :: "session \<Rightarrow> uuid \<Rightarrow> chunk_row list" where
  "revision_chunks s rv = filter (\<lambda>c. cr_revision_id c = rv) (ss_chunks s)"

definition delete_chunks :: "(chunk_row \<Rightarrow> bool) \<Rightarrow> session \<Rightarrow> session" where
  "delete_chunks p s = s\<lparr>ss_chunks := filter (\<lambda>c. \<not> p c) (ss_chunks s)\<rparr>"

definition delete_index_job_chunks :: "uuid \<Rightarrow> session \<Rightarrow> session" where
  "delete_index_job_chunks k = delete_chunks (\<lambda>c. cr_index_job_id c = k)"

definition delete_paths :: "uuid \<Rightarrow> pystr list \<Rightarrow> session \<Rightarrow> session" where
  "delete_paths rv paths = delete_chunks (\<lambda>c. cr_revision_id c = rv \<and> cr_file_path c \<in> set paths)"

definition delete_revision_chunks :: "uuid \<Rightarrow> session \<Rightarrow> session" where
  "delete_revision_chunks rv = delete_chunks (\<lambda>c. cr_revision_id c = rv)"

record new_chunk =
  nk_path :: pystr
  nk_index :: int
  nk_content :: pystr
  nk_hash :: pystr
  nk_embedding :: "int list option"

definition add_chunk :: "index_job \<Rightarrow> session \<Rightarrow> new_chunk \<Rightarrow> session" where
  "add_chunk job s c = tick (s\<lparr>ss_chunks := tbl_add
     \<lparr>cr_id = next_uuid s, cr_index_job_id = ij_id job, cr_revision_id = ij_revision_id job,
      cr_workspace_id = ij_workspace_id job, cr_file_path = nk_path c, cr_chunk_index = nk_index c,
      cr_content = nk_content c, cr_content_hash = Some (nk_hash c), cr_embedding = nk_embedding c\<rparr> (ss_chunks s)\<rparr>)"

definition hash_chunk_content :: "pystr \<Rightarrow> pystr" where
  "hash_chunk_content content = sha256_hex content"

text \<open>\<open>chunk.content_hash or ...\<close>: an empty hash counts as none.\<close>

definition parent_chunk_hash :: "chunk_row \<Rightarrow> pystr" where
  "parent_chunk_hash c =
     (case cr_content_hash c of
        Some (h # hs) \<Rightarrow> h # hs
      | _ \<Rightarrow> hash_chunk_content (cr_content c))"

definition get_parent_revision :: "session \<Rightarrow> revision \<Rightarrow> revision option" where
  "get_parent_revision s rv =
     (if rev_number rv \<le> 1 then None
      else List.find (\<lambda>r. rev_pull_request_id r = rev_pull_request_id rv \<and> rev_number r = rev_number rv - 1) (ss_revisions s))"

text \<open>A dictionary by path and index: of several rows under a key the last one is taken, at the place of the
  first.\<close>

definition load_parent_chunks :: "session \<Rightarrow> uuid \<Rightarrow> ((pystr \<times> int) \<times> chunk_row) list" where
  "load_parent_chunks s parent = dict_of (map (\<lambda>c. ((cr_file_path c, cr_chunk_index c), c)) (revision_chunks s parent))"

definition parent_chunks_of :: "session \<Rightarrow> index_job \<Rightarrow> revision \<Rightarrow> ((pystr \<times> int) \<times> chunk_row) list" where
  "parent_chunks_of s job rv =
     (if \<not> ij_index_incremental job then []
      else case get_parent_revision s rv of None \<Rightarrow> [] | Some p \<Rightarrow> load_parent_chunks s (rev_id p))"

subsection \<open>The files\<close>

text \<open>\<open>Path.read_text\<close>: line breaks are translated to line feeds.\<close>

fun universal_newlines :: "pystr \<Rightarrow> pystr" where
  "universal_newlines (c # d # s) =
     (if c = 13 then (if d = 10 then 10 # universal_newlines s else 10 # universal_newlines (d # s))
      else c # universal_newlines (d # s))"
| "universal_newlines [c] = [if c = 13 then 10 else c]"
| "universal_newlines [] = []"

fun iter_indexable_files :: "(pystr \<times> nat list) list \<Rightarrow> (pystr \<times> pystr) list" where
  "iter_indexable_files [] = []"
| "iter_indexable_files ((rel, bytes) # fs) =
     (if \<not> should_index_file rel then iter_indexable_files fs
      else case py_decode bytes of
        Inl _ \<Rightarrow> iter_indexable_files fs
      | Inr content \<Rightarrow> (rel, universal_newlines content) # iter_indexable_files fs)"

type_synonym raw_chunk = "pystr \<times> int \<times> pystr"

definition file_chunks :: "pystr \<Rightarrow> pystr \<Rightarrow> raw_chunk list" where
  "file_chunks p content = map (\<lambda>c. (ck_file_path c, int (ck_chunk_index c), ck_content c)) (chunk_file_content p content)"

definition collect_chunks_for_paths :: "(pystr \<times> nat list) list \<Rightarrow> pystr list option \<Rightarrow> raw_chunk list \<times> nat" where
  "collect_chunks_for_paths tree paths =
     (let files = iter_indexable_files tree;
          wanted = (\<lambda>p. case paths of None \<Rightarrow> True | Some ps \<Rightarrow> p \<in> set ps)
      in (concat (map (\<lambda>(p, content). file_chunks p content) (filter (\<lambda>(p, content). wanted p) files)), length files))"

subsection \<open>What is indexed\<close>

text \<open>The paths a diff is restricted to and those it removes, or none for a full index; a diff that cannot
  be had falls back to one.\<close>

definition full_fallback :: "pystr \<Rightarrow> index_job \<Rightarrow> index_job" where
  "full_fallback why j = j\<lparr>ij_index_mode := Mode_full, ij_fallback_reason := Some why\<rparr>"

definition index_scope ::
  "gh \<Rightarrow> int \<Rightarrow> pystr \<Rightarrow> pystr \<Rightarrow> revision \<Rightarrow> index_job \<Rightarrow> exn + index_job \<times> (pystr list \<times> pystr list) option" where
  "index_scope gh inst owner repo rv job =
     (if ij_index_mode job = Mode_full then Inr (job, None)
      else case rev_base_sha rv of
        None \<Rightarrow> Inr (full_fallback (S ''missing_base_sha'') job, None)
      | Some base \<Rightarrow>
          if base = [] then Inr (full_fallback (S ''missing_base_sha'') job, None)
          else
            (case compare_commits gh inst owner repo base (rev_head_sha rv) of
               Inr files \<Rightarrow> Inr (job, Some (paths_to_index files, paths_to_remove files))
             | Inl e \<Rightarrow>
                 if is_platform NotFoundError e \<or> is_platform RateLimitedError e \<or> is_platform ServiceUnavailableError e
                   then Inr (full_fallback (exn_code e) job, None)
                 else
                   (case e of
                      Http_status c \<Rightarrow> Inr (full_fallback (S ''compare_http_'' @ py_str_int c) job, None)
                    | _ \<Rightarrow> Inl e)))"

text \<open>The rows that make room, by whether the chunks of the parent are at hand.\<close>

definition clear_chunks :: "uuid \<Rightarrow> bool \<Rightarrow> (pystr list \<times> pystr list) option \<Rightarrow> session \<Rightarrow> session" where
  "clear_chunks rv incremental scope s =
     (if incremental then delete_revision_chunks rv s
      else case scope of
        Some (index, remove) \<Rightarrow> delete_paths rv index (delete_paths rv remove s)
      | None \<Rightarrow> delete_revision_chunks rv s)"

text \<open>The chunks of the parent that are taken over without looking at the files.\<close>

definition copied_chunks :: "((pystr \<times> int) \<times> chunk_row) list \<Rightarrow> (pystr list \<times> pystr list) option \<Rightarrow> new_chunk list" where
  "copied_chunks parents scope =
     (case scope of
        None \<Rightarrow> []
      | Some (index, remove) \<Rightarrow>
          map (\<lambda>((p, i), c). \<lparr>nk_path = p, nk_index = i, nk_content = cr_content c, nk_hash = parent_chunk_hash c,
              nk_embedding = cr_embedding c\<rparr>)
            (filter (\<lambda>((p, i), c). p \<notin> set index \<and> p \<notin> set remove) parents))"

text \<open>A chunk of a file whose content the parent has under the same key keeps its embedding; the others are to
  be embedded.\<close>

definition reused_chunk :: "((pystr \<times> int) \<times> chunk_row) list \<Rightarrow> raw_chunk \<Rightarrow> new_chunk option" where
  "reused_chunk parents r =
     (case r of (p, i, content) \<Rightarrow>
        (case map_of parents (p, i) of
           None \<Rightarrow> None
         | Some c \<Rightarrow>
             if parent_chunk_hash c = hash_chunk_content content \<and> cr_embedding c \<noteq> None
             then Some \<lparr>nk_path = p, nk_index = i, nk_content = content, nk_hash = hash_chunk_content content,
               nk_embedding = cr_embedding c\<rparr>
             else None))"

definition fresh_chunk :: "raw_chunk \<Rightarrow> int list \<Rightarrow> new_chunk" where
  "fresh_chunk r v =
     (case r of (p, i, content) \<Rightarrow> \<lparr>nk_path = p, nk_index = i, nk_content = content,
        nk_hash = hash_chunk_content content, nk_embedding = Some v\<rparr>)"

definition BATCH_SIZE :: nat where
  "BATCH_SIZE = 128"

definition embed_chunks :: "index_env \<Rightarrow> raw_chunk list \<Rightarrow> exn + new_chunk list" where
  "embed_chunks env raw =
     (if raw = [] then Inr []
      else rbind (ix_embed env (map (\<lambda>(p, i, content). content) raw)) (\<lambda>vs.
        if length vs \<noteq> length raw then Inl (Runtime_error (S ''embedding_count_mismatch''))
        else Inr (map2 fresh_chunk raw vs)))"

definition index_manifest_stats :: "index_env \<Rightarrow> nat \<Rightarrow> nat \<Rightarrow> nat \<Rightarrow> (pystr \<times> json) list" where
  "index_manifest_stats env reused fresh to_embed =
     [(S ''reused_count'', JInt (int reused)), (S ''new_count'', JInt (int fresh)),
      (S ''embed_batches'', JInt (int ((to_embed + BATCH_SIZE - 1) div BATCH_SIZE)))] @
     (if to_embed = 0 then []
      else [(S ''embedding_provider'', JStr (S ''voyage'')), (S ''embedding_model'', JStr (ix_embedding_model env)),
            (S ''embedding_dimensions'', JInt (ix_embedding_dimensions env))])"

text \<open>With nothing to store, what is stale is removed.\<close>

definition drop_stale_chunks :: "uuid \<Rightarrow> bool \<Rightarrow> (pystr list \<times> pystr list) option \<Rightarrow> session \<Rightarrow> session" where
  "drop_stale_chunks rv incremental scope s =
     (case scope of
        Some (index, remove) \<Rightarrow> delete_paths rv (remove @ index) s
      | None \<Rightarrow> if incremental then s else delete_revision_chunks rv s)"

definition full_mode_warning :: "nat \<Rightarrow> int option \<Rightarrow> pystr" where
  "full_mode_warning files p50 =
     take 2000 (S ''Full-repo index: '' @ py_str_int (int files) @ S '' file(s).'' @
       (case p50 of
          None \<Rightarrow> []
        | Some t \<Rightarrow> S '' Typical full index duration ~'' @ py_str_int t @ S ''s (p50).''))"

subsection \<open>Running a job\<close>

definition set_full_mode_warning :: "index_env \<Rightarrow> nat \<Rightarrow> uuid \<Rightarrow> session \<Rightarrow> session" where
  "set_full_mode_warning env files k s =
     set_index_job k (\<lambda>j. j\<lparr>ij_warning_message := Some (full_mode_warning files (ix_p50 env s j))\<rparr>) s"

text \<open>The conditional update that completes a job, and what happens to a job superseded by then.\<close>

definition complete_index_job :: "uuid \<Rightarrow> uuid \<Rightarrow> session \<Rightarrow> session" where
  "complete_index_job k rv s =
     (case get_index_job s k of
        None \<Rightarrow> s
      | Some j \<Rightarrow>
          if ij_status j = IJ_processing then
            put_index_job (j\<lparr>ij_status := IJ_completed, ij_chunk_count := Some (int (length (revision_chunks s rv)))\<rparr>) s
          else if is_superseded_index_job j then delete_index_job_chunks k s
          else s)"

definition finish_index_job :: "index_env \<Rightarrow> index_job \<Rightarrow> nat \<Rightarrow> session \<Rightarrow> session" where
  "finish_index_job env job files s =
     (case get_index_job s (ij_id job) of
        None \<Rightarrow> s
      | Some j \<Rightarrow>
          if is_superseded_index_job j then delete_index_job_chunks (ij_id job) s
          else complete_index_job (ij_id job) (ij_revision_id job)
            (if ij_index_mode j = Mode_full then set_full_mode_warning env files (ij_id job) s else s))"

definition store_chunks ::
  "index_env \<Rightarrow> session \<Rightarrow> index_job \<Rightarrow> revision \<Rightarrow> (pystr list \<times> pystr list) option \<Rightarrow> raw_chunk list \<Rightarrow>
    session \<times> (exn + (pystr \<times> json) list)" where
  "store_chunks env s job rv scope raw =
     (let parents = parent_chunks_of s job rv;
          incremental = (parents \<noteq> []);
          s = clear_chunks (ij_revision_id job) incremental scope s;
          kept = List.map_filter (reused_chunk parents) raw;
          reused = copied_chunks parents scope @ kept;
          to_embed = filter (\<lambda>r. reused_chunk parents r = None) raw
      in case embed_chunks env to_embed of
           Inl e \<Rightarrow> (s, Inl e)
         | Inr fresh \<Rightarrow>
             let s = (if raw = [] \<and> reused = [] then drop_stale_chunks (ij_revision_id job) incremental scope s else s);
                 s = foldl (add_chunk job) s (reused @ fresh)
             in (s, Inr (index_manifest_stats env (length reused) (length fresh) (length to_embed))))"

definition index_work ::
  "index_env \<Rightarrow> session \<Rightarrow> index_job \<Rightarrow> revision \<Rightarrow> int \<Rightarrow> pystr \<Rightarrow> session \<times> (exn + (pystr \<times> json) list)" where
  "index_work env s job rv inst full_name =
     (case split_full_name full_name of
        Inl e \<Rightarrow> (s, Inl e)
      | Inr (owner, repo) \<Rightarrow>
          (case index_scope (pe_gh (ix_pub env)) inst owner repo rv job of
             Inl e \<Rightarrow> (s, Inl e)
           | Inr (job, scope) \<Rightarrow>
               let s = put_index_job job s
               in case ix_tree env inst owner repo (rev_head_sha rv) of
                    Inl e \<Rightarrow> (s, Inl e)
                  | Inr tree \<Rightarrow>
                      (case collect_chunks_for_paths tree (map_option fst scope) of (raw, files) \<Rightarrow>
                         (case store_chunks env s job rv scope raw of
                            (s, Inl e) \<Rightarrow> (s, Inl e)
                          | (s, Inr stats) \<Rightarrow> (finish_index_job env job files s, Inr stats)))))"

text \<open>The exceptions that fail the job rather than the task.\<close>

fun is_index_failure :: "exn \<Rightarrow> bool" where
  "is_index_failure Os_error = True"
| "is_index_failure (Runtime_error m) = True"
| "is_index_failure e = (is_http_error e \<or> is_platform ServiceUnavailableError e)"

text \<open>Roll back, and write the failure to the job as it is now; the fallback of the work is kept.\<close>

definition with_index_job :: "uuid \<Rightarrow> (index_job \<Rightarrow> (pub, 'a) eff) \<Rightarrow> (pub, 'a) eff" where
  "with_index_job k f =
     bind_e (read_s (\<lambda>s. get_index_job s k)) (\<lambda>j.
       case j of Some j \<Rightarrow> f j | None \<Rightarrow> raise_e (raise_platform NotFoundError (S ''Index job not found'') None))"

definition with_refreshed_job :: "uuid \<Rightarrow> (index_job \<Rightarrow> (pub, 'a) eff) \<Rightarrow> (pub, 'a) eff" where
  "with_refreshed_job k f =
     bind_e (read_s (\<lambda>s. get_index_job s k)) (\<lambda>j.
       case j of Some j \<Rightarrow> f j | None \<Rightarrow> raise_e (Value_error (S ''could not refresh instance'')))"

definition keep_fallback :: "index_job option \<Rightarrow> index_job \<Rightarrow> index_job" where
  "keep_fallback before j =
     (case before of
        None \<Rightarrow> j
      | Some b \<Rightarrow>
          (case ij_fallback_reason b of
             None \<Rightarrow> j
           | Some why \<Rightarrow> j\<lparr>ij_index_mode := ij_index_mode b, ij_fallback_reason := Some why\<rparr>))"

definition fail_index_job_after_chunk_work :: "index_env \<Rightarrow> uuid \<Rightarrow> pystr \<Rightarrow> (pub, unit) eff" where
  "fail_index_job_after_chunk_work env k message =
     bind_e (read_s (\<lambda>s. get_index_job s k)) (\<lambda>before.
     bind_e (upd_e roll_back_e) (\<lambda>_.
     bind_e (refresh_e (ix_pub env)) (\<lambda>_.
     with_index_job k (\<lambda>j.
       if is_superseded_index_job j then write_s (delete_index_job_chunks k)
       else write_s (put_index_job (keep_fallback before (job_failed (take 2000 message) j)))))))"

definition claimed_job :: "index_job \<Rightarrow> index_job" where
  "claimed_job j = j\<lparr>ij_status := IJ_processing, ij_error_message := None\<rparr>"

definition run_claimed_job :: "index_env \<Rightarrow> index_job \<Rightarrow> (pub, (pystr \<times> json) list option) eff" where
  "run_claimed_job env job =
     (let fail = (\<lambda>m. bind_e (write_s (put_index_job (job_failed (S m) job))) (\<lambda>_. ret None))
      in bind_e (read_s (\<lambda>s. get_revision s (ij_revision_id job))) (\<lambda>rv.
           case rv of
             None \<Rightarrow> fail ''revision_not_found''
           | Some rv \<Rightarrow>
               bind_e (read_s (\<lambda>s. get_pull_request s (rev_pull_request_id rv))) (\<lambda>pr.
                 case pr of
                   None \<Rightarrow> fail ''pull_request_not_found''
                 | Some pr \<Rightarrow>
                     bind_e (read_s (\<lambda>s. (get_repository s (pr_repository_id pr), get_installation s (pr_installation_id pr)))) (\<lambda>r.
                       case r of
                         (Some repo, Some inst) \<Rightarrow>
                           catch_e
                             (bind_e (call_e (\<lambda>s. index_work env s job rv (inst_github_installation_id inst) (repo_full_name repo)))
                                (\<lambda>stats. ret (Some stats)))
                             (\<lambda>e. if is_index_failure e
                                then bind_e (fail_index_job_after_chunk_work env (ij_id job) (ix_str env e)) (\<lambda>_. ret None)
                                else raise_e e)
                       | _ \<Rightarrow> fail ''repository_or_installation_not_found''))))"

definition run_index_job :: "index_env \<Rightarrow> uuid \<Rightarrow> (pub, (pystr \<times> json) list option) eff" where
  "run_index_job env k =
     with_index_job k (\<lambda>job.
       if ij_status job \<noteq> IJ_pending then ret None
       else
         bind_e (refresh_e (ix_pub env)) (\<lambda>_.
         with_refreshed_job k (\<lambda>job.
           if ij_status job \<noteq> IJ_pending then ret None
           else
             bind_e (write_s (put_index_job (claimed_job job))) (\<lambda>_.
               run_claimed_job env (claimed_job job)))))"

subsection \<open>Reading chunks\<close>

text \<open>One page of the chunks of a revision, in the order of their paths and indices, and whether there are
  more; the collation of the database is a parameter.\<close>

definition list_revision_chunks ::
  "(pystr \<Rightarrow> pystr \<Rightarrow> bool) \<Rightarrow> session \<Rightarrow> uuid \<Rightarrow> uuid \<Rightarrow> uuid \<Rightarrow> uuid \<Rightarrow> nat \<Rightarrow> nat \<Rightarrow> exn + chunk_row list \<times> bool" where
  "list_revision_chunks le s ws repo pr rv limit offset =
     rbind (ensure_revision_access s ws repo pr rv) (\<lambda>_.
       let before = (\<lambda>c d. if cr_file_path c = cr_file_path d then cr_chunk_index c \<le> cr_chunk_index d
             else le (cr_file_path c) (cr_file_path d));
           rows = take (limit + 1) (drop offset (foldr (\<lambda>c cs. takeWhile (\<lambda>d. \<not> before c d) cs @ c # dropWhile (\<lambda>d. \<not> before c d) cs)
             (filter (\<lambda>c. cr_workspace_id c = ws) (revision_chunks s rv)) []))
       in Inr (take limit rows, limit < length rows))"

end
