(* ===== verification/Index_Task.thy ===== *)
theory Index_Task
  imports Indexing
begin

section \<open>The index task (\<open>workers/index_tasks.py\<close>)\<close>

text \<open>
  The task runs in two transactions: the first gives the pipeline its check run, the second runs the job,
  records it, and creates the review run or concludes the check run.  It is not retried; any exception marks the
  job failed in a transaction of its own.  The result is the review run to be handed to the review queue.
\<close>

record index_start =
  is_pipeline_run :: "uuid option"
  is_check_run :: "int option"

text \<open>The first transaction; \<open>None\<close> when there is nothing to do.\<close>

definition start_pipeline_of_job :: "index_env \<Rightarrow> index_job \<Rightarrow> revision \<Rightarrow> (pub, index_start option) eff" where
  "start_pipeline_of_job env job rv =
     bind_e (call_e (\<lambda>s. case ensure_pipeline_run_for_index_job s job (rev_head_sha rv) of (s, p) \<Rightarrow> (s, Inr p))) (\<lambda>p.
     bind_e (call_e (\<lambda>s. start_pipeline_github_check (pe_check (ix_pub env)) s p)) (\<lambda>check.
     bind_e (case check of
         None \<Rightarrow> ret ()
       | Some c \<Rightarrow> write_s (\<lambda>s. stash_pipeline_github_check_run_id s (pl_id p) c)) (\<lambda>_.
       ret (Some \<lparr>is_pipeline_run = Some (pl_id p), is_check_run = check\<rparr>))))"

definition index_task_start :: "index_env \<Rightarrow> uuid \<Rightarrow> (pub, index_start option) eff" where
  "index_task_start env k =
     (let bare = \<lparr>is_pipeline_run = None, is_check_run = None\<rparr>
      in bind_e (read_s (\<lambda>s. get_index_job s k)) (\<lambda>job.
           case job of
             None \<Rightarrow> ret None
           | Some job \<Rightarrow>
               if is_superseded_index_job job then ret None
               else if ij_trigger_source job \<notin> set PIPELINE_TRIGGERS then ret (Some bare)
               else if ij_status job \<notin> {IJ_pending, IJ_processing} then ret None
               else
                 bind_e (read_s (\<lambda>s. (get_revision s (ij_revision_id job),
                     is_authoritative_for_pull_request_head s (ij_revision_id job)))) (\<lambda>(rv, authoritative).
                   case rv of
                     None \<Rightarrow> ret (Some bare)
                   | Some rv \<Rightarrow> if authoritative then start_pipeline_of_job env job rv else ret (Some bare))))"

text \<open>What follows the run of the job.\<close>

definition record_index_run ::
  "index_env \<Rightarrow> index_start \<Rightarrow> index_job \<Rightarrow> (pystr \<times> json) list option \<Rightarrow> int \<Rightarrow> (pub, unit) eff" where
  "record_index_run env st job stats duration_ms =
     (case is_pipeline_run st of
        None \<Rightarrow> ret ()
      | Some p \<Rightarrow>
          bind_e (write_s (\<lambda>s. record_index_pipeline_step s p job stats duration_ms (is_check_run st))) (\<lambda>_.
            if ij_status job = IJ_failed then
              call_e (\<lambda>s. finalize_pipeline_github_check_failure (pe_check (ix_pub env)) s p
                (case ij_error_message job of Some (c # cs) \<Rightarrow> c # cs | _ \<Rightarrow> S ''Index job failed''))
            else ret ()))"

definition summary_or :: "pystr option \<Rightarrow> pystr \<Rightarrow> pystr" where
  "summary_or m d = (case m of Some (c # cs) \<Rightarrow> c # cs | _ \<Rightarrow> d)"

definition conclude_after_index :: "index_env \<Rightarrow> index_start \<Rightarrow> index_job \<Rightarrow> review_after_index \<Rightarrow> (pub, uuid option) eff" where
  "conclude_after_index env st job out =
     (case ai_review_run_id out of
        Some r \<Rightarrow> ret (Some r)
      | None \<Rightarrow>
          (case is_pipeline_run st of
             None \<Rightarrow> ret None
           | Some p \<Rightarrow>
               if ij_status job = IJ_completed \<and> ai_neutral_finalize_check out then
                 bind_e (call_e (\<lambda>s. finalize_pipeline_github_check_neutral (pe_check (ix_pub env)) s p
                   (summary_or (ai_pipeline_check_summary out) (S ''Review skipped'')))) (\<lambda>_. ret None)
               else if ij_status job = IJ_completed \<and> ai_fail_pipeline_check out then
                 bind_e (call_e (\<lambda>s. finalize_pipeline_github_check_failure (pe_check (ix_pub env)) s p
                   (summary_or (ai_pipeline_check_summary out) (S ''Review was not enqueued'')))) (\<lambda>_. ret None)
               else ret None))"

definition index_task_run :: "index_env \<Rightarrow> review_settings \<Rightarrow> int \<Rightarrow> uuid \<Rightarrow> index_start \<Rightarrow> (pub, uuid option) eff" where
  "index_task_run env settings duration_ms k st =
     bind_e (run_index_job env k) (\<lambda>stats.
     with_index_job k (\<lambda>job.
       bind_e (record_index_run env st job stats duration_ms) (\<lambda>_.
       bind_e (call_e (\<lambda>s. prepare_review_after_index settings s job)) (\<lambda>out.
         conclude_after_index env st job out))))"

definition mark_index_task_failed :: "index_env \<Rightarrow> uuid \<Rightarrow> pystr \<Rightarrow> (pub, unit) eff" where
  "mark_index_task_failed env k message =
     in_context (bind_e (refresh_e (ix_pub env)) (\<lambda>_.
       bind_e (write_s (mark_index_job_failed k message)) (\<lambda>_.
         call_e (\<lambda>s. finalize_pipeline_github_check_for_index_job (pe_check (ix_pub env)) s k message))))"

definition index_pull_request_revision ::
  "index_env \<Rightarrow> review_settings \<Rightarrow> int \<Rightarrow> uuid \<Rightarrow> (pub, uuid option) eff" where
  "index_pull_request_revision env settings duration_ms k =
     catch_e
       (bind_e (in_context (bind_e (refresh_e (ix_pub env)) (\<lambda>_. index_task_start env k))) (\<lambda>st.
          case st of
            None \<Rightarrow> ret None
          | Some st \<Rightarrow> in_context (bind_e (refresh_e (ix_pub env)) (\<lambda>_. index_task_run env settings duration_ms k st))))
       (\<lambda>e. bind_e (mark_index_task_failed env k (ix_str env e)) (\<lambda>_. raise_e e))"

end
