(* ===== verification/Index_Laws.thy ===== *)
theory Index_Laws
  imports Indexing Publish_Laws "HOL-Library.Multiset"
begin

section \<open>What an index job stores\<close>

text \<open>
  The rows a completed index job leaves for its revision are described exactly: the chunks of the files it
  read, each once, and beside them the rows it took over from the parent, or left from an earlier job,
  for the paths a diff does not mention.  Rows of other revisions are never touched, and the keys
  of the rows stay unique.
\<close>

subsection \<open>Rows and texts\<close>

definition row_text :: "chunk_row \<Rightarrow> raw_chunk" where
  "row_text c = (cr_file_path c, cr_chunk_index c, cr_content c)"

definition new_text :: "new_chunk \<Rightarrow> raw_chunk" where
  "new_text c = (nk_path c, nk_index c, nk_content c)"

lemma delete_chunks_chunks [simp]: "ss_chunks (delete_chunks p s) = filter (\<lambda>c. \<not> p c) (ss_chunks s)"
  by (simp add: delete_chunks_def)

lemma delete_chunks_jobs [simp]: "ss_index_jobs (delete_chunks p s) = ss_index_jobs s"
  by (simp add: delete_chunks_def)

lemmas delete_defs = delete_index_job_chunks_def delete_paths_def delete_revision_chunks_def

lemma add_chunk_jobs: "ss_index_jobs (foldl (add_chunk job) s cs) = ss_index_jobs s"
  by (induction cs arbitrary: s) (simp_all add: add_chunk_def tick_def)

lemma add_chunk_one:
  "\<exists>r. ss_chunks (add_chunk job s c) = ss_chunks s @ [r] \<and> row_text r = new_text c \<and>
     cr_revision_id r = ij_revision_id job \<and> cr_index_job_id r = ij_id job \<and> cr_embedding r = nk_embedding c"
  by (simp add: add_chunk_def tick_def tbl_add_def row_text_def new_text_def)

lemma add_chunk_rows:
  "\<exists>rows. ss_chunks (foldl (add_chunk job) s cs) = ss_chunks s @ rows \<and> map row_text rows = map new_text cs \<and>
     (\<forall>c\<in>set rows. cr_revision_id c = ij_revision_id job \<and> cr_index_job_id c = ij_id job) \<and>
     map cr_embedding rows = map nk_embedding cs"
proof (induction cs arbitrary: s)
  case (Cons c cs)
  obtain r where r: "ss_chunks (add_chunk job s c) = ss_chunks s @ [r]" "row_text r = new_text c"
    "cr_revision_id r = ij_revision_id job \<and> cr_index_job_id r = ij_id job" "cr_embedding r = nk_embedding c"
    using add_chunk_one by blast
  from Cons.IH [of "add_chunk job s c"] obtain rows where
    "ss_chunks (foldl (add_chunk job) (add_chunk job s c) cs) = ss_chunks (add_chunk job s c) @ rows"
    "map row_text rows = map new_text cs" "\<forall>c\<in>set rows. cr_revision_id c = ij_revision_id job \<and> cr_index_job_id c = ij_id job"
    "map cr_embedding rows = map nk_embedding cs" by blast
  with r show ?case by (intro exI [of _ "r # rows"]) simp
qed simp

lemma reused_chunk_text: "reused_chunk parents r = Some c \<Longrightarrow> new_text c = r"
  by (auto simp: reused_chunk_def new_text_def split: prod.splits option.splits if_splits)

lemma fresh_chunk_text: "length vs = length raw \<Longrightarrow> map new_text (map2 fresh_chunk raw vs) = raw"
  by (induction raw vs rule: list_induct2') (auto simp: new_text_def fresh_chunk_def split: prod.split)

lemma embed_chunks_text: "embed_chunks env raw = Inr cs \<Longrightarrow> map new_text cs = raw"
  by (auto simp: embed_chunks_def rbind_eq_Inr fresh_chunk_text simp del: map_map split: if_splits)

lemma embed_chunks_embedded: "embed_chunks env raw = Inr cs \<Longrightarrow> c \<in> set cs \<Longrightarrow> nk_embedding c \<noteq> None"
  by (auto simp: embed_chunks_def rbind_eq_Inr fresh_chunk_def split: if_splits prod.splits)

lemma kept_and_fresh:
  "mset (map new_text (List.map_filter (reused_chunk parents) raw)) + mset (filter (\<lambda>r. reused_chunk parents r = None) raw) = mset raw"
proof (induction raw)
  case (Cons r raw)
  then show ?case
    by (cases "reused_chunk parents r") (auto simp: List.map_filter_simps dest: reused_chunk_text)
qed (simp add: List.map_filter_simps)

subsection \<open>Storing\<close>

lemma clear_chunks_jobs [simp]: "ss_index_jobs (clear_chunks rv b scope s) = ss_index_jobs s"
  by (auto simp: clear_chunks_def delete_defs split: option.split)

lemma drop_after_clear: "ss_chunks (drop_stale_chunks rv b scope (clear_chunks rv b scope s)) = ss_chunks (clear_chunks rv b scope s)"
  by (auto simp: drop_stale_chunks_def clear_chunks_def delete_defs intro!: filter_cong split: option.split)

lemma drop_stale_jobs [simp]: "ss_index_jobs (drop_stale_chunks rv b scope s) = ss_index_jobs s"
  by (auto simp: drop_stale_chunks_def delete_defs split: option.split)

lemma store_chunks_rows:
  assumes "store_chunks env s job rv scope raw = (s', Inr stats)"
  defines "parents \<equiv> parent_chunks_of s job rv"
  shows "ss_index_jobs s' = ss_index_jobs s \<and>
    (\<exists>rows. ss_chunks s' = ss_chunks (clear_chunks (ij_revision_id job) (parents \<noteq> []) scope s) @ rows \<and>
       mset (map row_text rows) = mset (map new_text (copied_chunks parents scope)) + mset raw \<and>
       (\<forall>c\<in>set rows. cr_revision_id c = ij_revision_id job))"
proof -
  define cl where "cl = clear_chunks (ij_revision_id job) (parents \<noteq> []) scope s"
  define kept where "kept = List.map_filter (reused_chunk parents) raw"
  obtain fresh where f: "embed_chunks env (filter (\<lambda>r. reused_chunk parents r = None) raw) = Inr fresh"
    and s': "s' = foldl (add_chunk job) (if raw = [] \<and> copied_chunks parents scope @ kept = []
        then drop_stale_chunks (ij_revision_id job) (parents \<noteq> []) scope cl else cl) ((copied_chunks parents scope @ kept) @ fresh)"
    using assms(1) unfolding store_chunks_def Let_def parents_def [symmetric] cl_def [symmetric] kept_def [symmetric]
    by (auto split: sum.splits)
  define base where "base = (if raw = [] \<and> copied_chunks parents scope @ kept = []
        then drop_stale_chunks (ij_revision_id job) (parents \<noteq> []) scope cl else cl)"
  have base: "ss_chunks base = ss_chunks cl" "ss_index_jobs base = ss_index_jobs s"
    by (simp_all add: base_def cl_def drop_after_clear)
  have t: "mset (map new_text ((copied_chunks parents scope @ kept) @ fresh)) = mset (map new_text (copied_chunks parents scope)) + mset raw"
    using kept_and_fresh [of parents raw] embed_chunks_text [OF f] by (simp add: kept_def)
  obtain rows where "ss_chunks s' = ss_chunks base @ rows"
    "map row_text rows = map new_text ((copied_chunks parents scope @ kept) @ fresh)"
    "\<forall>c\<in>set rows. cr_revision_id c = ij_revision_id job"
    using add_chunk_rows [of job base "(copied_chunks parents scope @ kept) @ fresh"] unfolding s' base_def [symmetric] by blast
  with t base show ?thesis
    using add_chunk_jobs unfolding s' base_def [symmetric] cl_def [symmetric] by metis
qed

subsection \<open>The work of a job\<close>

definition left_over :: "session \<Rightarrow> index_job \<Rightarrow> revision \<Rightarrow> (pystr list \<times> pystr list) option \<Rightarrow> raw_chunk multiset" where
  "left_over s job rv scope =
     (case scope of
        None \<Rightarrow> {#}
      | Some (index, remove) \<Rightarrow>
          if parent_chunks_of s job rv \<noteq> [] then mset (map new_text (copied_chunks (parent_chunks_of s job rv) scope))
          else mset (map row_text (filter (\<lambda>c. cr_file_path c \<notin> set index \<union> set remove)
                 (revision_chunks s (ij_revision_id job)))))"

lemma left_over_parts:
  "left_over s job rv scope =
     mset (map row_text (case scope of Some (index, remove) \<Rightarrow> if parent_chunks_of s job rv \<noteq> [] then []
         else filter (\<lambda>c. cr_file_path c \<notin> set index \<union> set remove) (revision_chunks s (ij_revision_id job)) | None \<Rightarrow> [])) +
     mset (map new_text (copied_chunks (parent_chunks_of s job rv) scope))"
  by (cases "parent_chunks_of s job rv = []") (auto simp: left_over_def copied_chunks_def split: option.split)

lemma index_scope_job:
  "index_scope gh inst owner repo rv job = Inr (job', scope) \<Longrightarrow>
     ij_id job' = ij_id job \<and> ij_revision_id job' = ij_revision_id job \<and> ij_status job' = ij_status job \<and>
     ij_index_incremental job' = ij_index_incremental job \<and> ij_error_message job' = ij_error_message job"
  by (auto simp: index_scope_def full_fallback_def split: if_splits option.splits sum.splits exn.splits)

lemma put_index_job_chunks [simp]: "ss_chunks (put_index_job j s) = ss_chunks s" "revision_chunks (put_index_job j s) rv = revision_chunks s rv"
  by (simp_all add: put_index_job_def revision_chunks_def)

lemma parents_put: "ij_index_incremental job' = ij_index_incremental job \<Longrightarrow>
    parent_chunks_of (put_index_job j s) job' rv = parent_chunks_of s job rv"
  by (simp add: parent_chunks_of_def get_parent_revision_def load_parent_chunks_def put_index_job_def revision_chunks_def split: option.split)

lemma cleared_rows:
  assumes "\<forall>c\<in>set rows. cr_revision_id c = k"
  shows "filter (\<lambda>c. cr_revision_id c = k) (ss_chunks (clear_chunks k b scope s) @ rows) =
      (case scope of Some (index, remove) \<Rightarrow> if b then [] else filter (\<lambda>c. cr_file_path c \<notin> set index \<union> set remove) (revision_chunks s k)
       | None \<Rightarrow> []) @ rows"
    "j \<noteq> k \<Longrightarrow> filter (\<lambda>c. cr_revision_id c = j) (ss_chunks (clear_chunks k b scope s) @ rows) = revision_chunks s j"
proof -
  have r: "filter (\<lambda>c. cr_revision_id c = k) rows = rows" "j \<noteq> k \<Longrightarrow> filter (\<lambda>c. cr_revision_id c = j) rows = []"
    using assms by (auto simp: filter_empty_conv)
  show "filter (\<lambda>c. cr_revision_id c = k) (ss_chunks (clear_chunks k b scope s) @ rows) =
      (case scope of Some (index, remove) \<Rightarrow> if b then [] else filter (\<lambda>c. cr_file_path c \<notin> set index \<union> set remove) (revision_chunks s k)
       | None \<Rightarrow> []) @ rows"
    by (auto simp: clear_chunks_def delete_defs revision_chunks_def r(1) filter_empty_conv intro!: filter_cong split: option.split)
  show "filter (\<lambda>c. cr_revision_id c = j) (ss_chunks (clear_chunks k b scope s) @ rows) = revision_chunks s j" if "j \<noteq> k"
    using that by (auto simp: clear_chunks_def delete_defs revision_chunks_def r(2) [OF that] intro!: filter_cong split: option.split)
qed

lemma get_put_index_job: "get_index_job s (ij_id j) = Some x \<Longrightarrow> get_index_job (put_index_job j s) (ij_id j) = Some j"
  unfolding get_index_job_def put_index_job_def by (simp add: jobs.get_put_same)

lemma finish_completes:
  assumes "get_index_job s (ij_id job) = Some job" and "ij_status job = IJ_processing"
  shows "\<exists>j. get_index_job (finish_index_job env job files s) (ij_id job) = Some j \<and> ij_status j = IJ_completed \<and>
      ij_index_mode j = ij_index_mode job \<and> ij_revision_id j = ij_revision_id job \<and>
      ij_chunk_count j = Some (int (length (revision_chunks s (ij_revision_id job)))) \<and>
    ss_chunks (finish_index_job env job files s) = ss_chunks s"
proof -
  define t where "t = (if ij_index_mode job = Mode_full then set_full_mode_warning env files (ij_id job) s else s)"
  have t: "\<exists>j. get_index_job t (ij_id job) = Some j \<and> ij_id j = ij_id job \<and> ij_status j = IJ_processing \<and>
      ij_index_mode j = ij_index_mode job \<and> ij_revision_id j = ij_revision_id job \<and> ss_chunks t = ss_chunks s"
  proof (cases "ij_index_mode job = Mode_full")
    case True
    define w where "w = job\<lparr>ij_warning_message := Some (full_mode_warning files (ix_p50 env s job))\<rparr>"
    have "t = put_index_job w s" using True assms(1) by (simp add: t_def set_full_mode_warning_def set_index_job_def w_def)
    moreover have "get_index_job (put_index_job w s) (ij_id w) = Some w"
      by (rule get_put_index_job) (simp add: w_def assms(1))
    ultimately show ?thesis using assms(2) by (auto simp: w_def)
  qed (use assms in \<open>simp add: t_def\<close>)
  then obtain j where j: "get_index_job t (ij_id job) = Some j" "ij_id j = ij_id job" "ij_status j = IJ_processing"
    "ij_index_mode j = ij_index_mode job" "ij_revision_id j = ij_revision_id job" "ss_chunks t = ss_chunks s" by blast
  define d where "d = j\<lparr>ij_status := IJ_completed, ij_chunk_count := Some (int (length (revision_chunks t (ij_revision_id job))))\<rparr>"
  have "finish_index_job env job files s = put_index_job d t"
    using assms j by (simp add: finish_index_job_def is_superseded_index_job_def t_def [symmetric] complete_index_job_def d_def)
  moreover have "get_index_job (put_index_job d t) (ij_id d) = Some d"
    by (rule get_put_index_job) (simp add: d_def j)
  ultimately show ?thesis using j by (auto simp: d_def revision_chunks_def)
qed

lemma index_work_rows:
  assumes "index_work env s job rv inst full_name = (s', Inr stats)"
    and "get_index_job s (ij_id job) = Some job" and "ij_status job = IJ_processing"
  shows "\<exists>owner repo job' scope tree. split_full_name full_name = Inr (owner, repo) \<and>
    index_scope (pe_gh (ix_pub env)) inst owner repo rv job = Inr (job', scope) \<and>
    ix_tree env inst owner repo (rev_head_sha rv) = Inr tree \<and>
    mset (map row_text (revision_chunks s' (ij_revision_id job))) =
      mset (fst (collect_chunks_for_paths tree (map_option fst scope))) + left_over s job rv scope \<and>
    (\<forall>k. k = ij_revision_id job \<or> revision_chunks s' k = revision_chunks s k) \<and>
    (\<exists>j. get_index_job s' (ij_id job) = Some j \<and> ij_status j = IJ_completed \<and> ij_index_mode j = ij_index_mode job' \<and>
       ij_chunk_count j = Some (int (length (revision_chunks s' (ij_revision_id job)))))"
proof -
  obtain owner repo job' scope tree raw files s1 where
    1: "split_full_name full_name = Inr (owner, repo)" "index_scope (pe_gh (ix_pub env)) inst owner repo rv job = Inr (job', scope)"
      "ix_tree env inst owner repo (rev_head_sha rv) = Inr tree" "collect_chunks_for_paths tree (map_option fst scope) = (raw, files)"
    and st: "store_chunks env (put_index_job job' s) job' rv scope raw = (s1, Inr stats)" and s': "s' = finish_index_job env job' files s1"
    using assms(1) by (auto simp: index_work_def Let_def split: sum.splits prod.splits)
  note j = index_scope_job [OF 1(2)]
  let ?P = "parent_chunks_of s job rv"
  have P: "parent_chunks_of (put_index_job job' s) job' rv = ?P" by (rule parents_put) (simp add: j)
  have inj: "clear_chunks k b scope (put_index_job job' s) = put_index_job job' (clear_chunks k b scope s)" for k b
    by (auto simp: clear_chunks_def delete_defs delete_chunks_def put_index_job_def split: option.split)
  have rv: "ij_revision_id job' = ij_revision_id job" using j by simp
  from store_chunks_rows [OF st, unfolded P inj put_index_job_chunks rv] obtain rows where
    jobs: "ss_index_jobs s1 = ss_index_jobs (put_index_job job' s)"
    and rows: "ss_chunks s1 = ss_chunks (clear_chunks (ij_revision_id job) (?P \<noteq> []) scope s) @ rows"
      "mset (map row_text rows) = mset (map new_text (copied_chunks ?P scope)) + mset raw"
      "\<forall>c\<in>set rows. cr_revision_id c = ij_revision_id job"
    by (elim conjE exE)
  have "get_index_job (put_index_job job' s) (ij_id job) = Some job'"
    using get_put_index_job [of s job' job] assms(2) j by simp
  then have "get_index_job s1 (ij_id job') = Some job'" using jobs j by (simp add: get_index_job_def)
  from finish_completes [OF this, of env files] assms(3) j s'
  obtain d where d: "get_index_job s' (ij_id job) = Some d" "ij_status d = IJ_completed" "ij_index_mode d = ij_index_mode job'"
    "ij_chunk_count d = Some (int (length (revision_chunks s1 (ij_revision_id job))))" "ss_chunks s' = ss_chunks s1"
    by auto
  have "mset (map row_text (revision_chunks s1 (ij_revision_id job))) = mset raw + left_over s job rv scope"
    unfolding revision_chunks_def [of s1] rows(1) cleared_rows(1) [OF rows(3)] map_append mset_append rows(2)
    using left_over_parts [of s job rv scope] by (simp del: map_map)
  moreover have "revision_chunks s1 k = revision_chunks s k" if "k \<noteq> ij_revision_id job" for k
    using cleared_rows(2) [OF rows(3) that] unfolding revision_chunks_def [of s1] rows(1) .
  ultimately show ?thesis
    using 1 d unfolding revision_chunks_def [of s'] d(5) revision_chunks_def [of s1, symmetric] by auto
qed

text \<open>C9. A claimed index job whose work returns is completed, and what it leaves is known row by row: for its
  revision exactly the chunks of the files it read (all indexable files, or those the diff lists), and
  beside them, for a diff, the parent's chunks of the other paths, or, without a parent, the rows
  an earlier job left for them; no row of another revision changes, and the count it reports is the number
  of rows.\<close>

theorem index_work_exact:
  assumes "index_work env s job rv inst full_name = (s', Inr stats)"
    and "get_index_job s (ij_id job) = Some job" and "ij_status job = IJ_processing"
  shows "\<exists>owner repo job' scope tree. split_full_name full_name = Inr (owner, repo) \<and>
    index_scope (pe_gh (ix_pub env)) inst owner repo rv job = Inr (job', scope) \<and>
    ix_tree env inst owner repo (rev_head_sha rv) = Inr tree \<and>
    mset (map row_text (revision_chunks s' (ij_revision_id job))) =
      mset (fst (collect_chunks_for_paths tree (map_option fst scope))) + left_over s job rv scope \<and>
    (\<forall>k. k = ij_revision_id job \<or> revision_chunks s' k = revision_chunks s k) \<and>
    (\<exists>j. get_index_job s' (ij_id job) = Some j \<and> ij_status j = IJ_completed \<and> ij_index_mode j = ij_index_mode job' \<and>
       ij_chunk_count j = Some (int (length (revision_chunks s' (ij_revision_id job)))))"
  by (rule index_work_rows [OF assms])

text \<open>The chunks of the parent are taken over for every path the comparison of base and head does not mention,
  whatever the archive holds there: a path that the parent changed and the head changes back keeps the
  parent's text.\<close>

theorem parent_text_kept_unread:
  assumes "index_work env s job rv inst full_name = (s', Inr stats)"
    and "get_index_job s (ij_id job) = Some job" and "ij_status job = IJ_processing"
    and "split_full_name full_name = Inr (owner, repo)"
    and "index_scope (pe_gh (ix_pub env)) inst owner repo rv job = Inr (job', Some (index, remove))"
    and "((p, i), c) \<in> set (parent_chunks_of s job rv)" and "p \<notin> set index" and "p \<notin> set remove"
  shows "\<exists>row\<in>set (revision_chunks s' (ij_revision_id job)). row_text row = (p, i, cr_content c)"
proof -
  have "(p, i, cr_content c) \<in> set (map new_text (copied_chunks (parent_chunks_of s job rv) (Some (index, remove))))"
    using assms(6-8) by (force simp: copied_chunks_def new_text_def)
  moreover have "parent_chunks_of s job rv \<noteq> []" using assms(6) by auto
  ultimately have "(p, i, cr_content c) \<in># left_over s job rv (Some (index, remove))" by (simp add: left_over_def)
  moreover obtain raw where
    "mset (map row_text (revision_chunks s' (ij_revision_id job))) = mset raw + left_over s job rv (Some (index, remove))"
    using index_work_rows [OF assms(1-3)] assms(4,5) by (auto simp del: mset_map)
  ultimately have "(p, i, cr_content c) \<in># mset (map row_text (revision_chunks s' (ij_revision_id job)))" by simp
  then have "(p, i, cr_content c) \<in> set (map row_text (revision_chunks s' (ij_revision_id job)))" by (simp only: set_mset_mset)
  then show ?thesis by auto
qed

subsection \<open>Keys stay unique\<close>

definition chunk_keys_unique :: "session \<Rightarrow> bool" where
  "chunk_keys_unique s \<longleftrightarrow> distinct (map chunk_key (ss_chunks s))"

definition text_key :: "raw_chunk \<Rightarrow> pystr \<times> int" where
  "text_key r = (case r of (p, i, content) \<Rightarrow> (p, i))"

lemma chunk_key_text: "chunk_key c = (cr_revision_id c, text_key (row_text c))"
  by (simp add: chunk_key_def text_key_def row_text_def)

lemma number_from_keys:
  "map (\<lambda>c. text_key (ck_file_path c, int (ck_chunk_index c), ck_content c)) (number_from i p ts) =
     map (\<lambda>j. (p, int j)) [i..<i + length ts]"
proof (induction ts arbitrary: i)
  case (Cons t ts)
  have "[i..<i + length (t # ts)] = i # [Suc i..<Suc i + length ts]" using upt_conv_Cons [of i "i + length (t # ts)"] by simp
  with Cons.IH [of "Suc i"] show ?case by (simp add: text_key_def)
qed simp

lemma file_chunks_keys:
  "distinct (map text_key (file_chunks p content))" "r \<in> set (file_chunks p content) \<Longrightarrow> fst r = p"
proof -
  obtain ts where ts: "chunk_file_content p content = number_from 0 p ts" using chunk_file_numbered by blast
  have keys: "map text_key (file_chunks p content) = map (\<lambda>j. (p, int j)) [0..<length ts]"
    using number_from_keys [of 0 p ts] by (simp add: file_chunks_def ts comp_def)
  show "distinct (map text_key (file_chunks p content))" unfolding keys by (simp add: distinct_map inj_on_def)
  show "fst r = p" if "r \<in> set (file_chunks p content)"
  proof -
    have "text_key r \<in> set (map text_key (file_chunks p content))" using that by simp
    then have "fst (text_key r) = p" unfolding keys by auto
    then show ?thesis by (cases r) (simp add: text_key_def)
  qed
qed

lemma iter_files_names: "fst ` set (iter_indexable_files fs) \<subseteq> fst ` set fs"
  by (induction fs rule: iter_indexable_files.induct) (auto split: sum.splits)

lemma iter_files_distinct: "distinct (map fst fs) \<Longrightarrow> distinct (map fst (iter_indexable_files fs))"
proof (induction fs rule: iter_indexable_files.induct)
  case (2 rel bytes fs)
  have "rel \<notin> fst ` set (iter_indexable_files fs)" using 2(4) iter_files_names [of fs] by auto
  with 2 show ?case by (auto split: sum.splits)
qed simp

lemma chunks_of_files_keys:
  "distinct (map fst files) \<Longrightarrow> distinct (map text_key (concat (map (\<lambda>(p, content). file_chunks p content) files)))"
proof (induction files)
  case (Cons f files)
  obtain p content where f: "f = (p, content)" by fastforce
  have "text_key r \<noteq> text_key q" if "r \<in> set (file_chunks p content)" "(p', c') \<in> set files" "q \<in> set (file_chunks p' c')" for r q p' c'
  proof -
    have "p' \<noteq> p" using Cons.prems that(2) f by (auto simp: image_iff)
    then show ?thesis
      using file_chunks_keys(2) [OF that(1)] file_chunks_keys(2) [OF that(3)] by (cases r; cases q) (auto simp: text_key_def)
  qed
  then show ?case using Cons f file_chunks_keys(1) by (fastforce simp: f)
qed simp

lemma collected_keys:
  assumes "collect_chunks_for_paths tree paths = (raw, files)" and "distinct (map fst tree)"
  shows "distinct (map text_key raw)" "paths = Some ps \<Longrightarrow> r \<in> set raw \<Longrightarrow> fst r \<in> set ps"
proof -
  define fs where "fs = filter (\<lambda>(p, content). case paths of None \<Rightarrow> True | Some ps \<Rightarrow> p \<in> set ps) (iter_indexable_files tree)"
  have raw: "raw = concat (map (\<lambda>(p, content). file_chunks p content) fs)"
    using assms(1) by (simp add: collect_chunks_for_paths_def fs_def Let_def)
  have "distinct (map fst fs)" unfolding fs_def by (rule distinct_map_filter [OF iter_files_distinct [OF assms(2)]])
  then show "distinct (map text_key raw)" unfolding raw by (rule chunks_of_files_keys)
  show "fst r \<in> set ps" if "paths = Some ps" "r \<in> set raw"
    using that file_chunks_keys(2) by (fastforce simp: raw fs_def)
qed

lemma dict_of_keys: "distinct (map fst (dict_of kvs))"
proof -
  have "distinct (map fst d) \<Longrightarrow> distinct (map fst (fold (\<lambda>kv d. AList.update (fst kv) (snd kv) d) kvs d))" for d :: "('a \<times> 'b) list"
    by (induction kvs arbitrary: d) (simp_all add: distinct_update)
  then show ?thesis by (simp add: dict_of_def)
qed

lemma parents_keys: "distinct (map fst (parent_chunks_of s job rv))"
  by (simp add: parent_chunks_of_def load_parent_chunks_def dict_of_keys split: option.split)

text \<open>The keys of the chunks taken over and of the chunks of the files.\<close>

lemma new_keys:
  assumes "distinct (map fst parents)" and "distinct (map text_key raw)"
    and "\<And>index remove r. scope = Some (index, remove) \<Longrightarrow> r \<in> set raw \<Longrightarrow> fst r \<in> set index"
  shows "distinct (map text_key (map new_text (copied_chunks parents scope) @ raw))"
proof (cases scope)
  case (Some ir)
  obtain index remove where ir: "ir = (index, remove)" by fastforce
  let ?kept = "filter (\<lambda>((p, i), c). p \<notin> set index \<and> p \<notin> set remove) parents"
  have keys: "map text_key (map new_text (copied_chunks parents scope)) = map fst ?kept"
    by (auto simp: copied_chunks_def Some ir new_text_def text_key_def)
  have "distinct (map fst ?kept)" by (rule distinct_map_filter [OF assms(1)])
  moreover have "set (map fst ?kept) \<inter> set (map text_key raw) = {}"
  proof (rule Int_emptyI)
    fix x assume x: "x \<in> set (map fst ?kept)" "x \<in> set (map text_key raw)"
    then obtain r where r: "r \<in> set raw" "x = text_key r" by auto
    from x(1) assms(3) [OF Some [unfolded ir] r(1)] r(2) show False by (cases r) (auto simp: text_key_def)
  qed
  ultimately show ?thesis using assms(2) unfolding map_append distinct_append keys by blast
qed (use assms(2) in \<open>simp add: copied_chunks_def\<close>)

lemma clear_unique: "chunk_keys_unique s \<Longrightarrow> chunk_keys_unique (clear_chunks k b scope s)"
  by (auto simp: chunk_keys_unique_def clear_chunks_def delete_defs distinct_map_filter split: option.split)

lemma store_keys:
  assumes "store_chunks env s job rv scope raw = (s', r)" and "chunk_keys_unique s" and "distinct (map text_key raw)"
    and files: "\<And>index remove r. scope = Some (index, remove) \<Longrightarrow> r \<in> set raw \<Longrightarrow> fst r \<in> set index"
  shows "chunk_keys_unique s'"
proof (cases r)
  case (Inl e)
  then have "\<exists>b. s' = clear_chunks (ij_revision_id job) b scope s"
    using assms(1) by (auto simp: store_chunks_def Let_def split: sum.splits)
  then show ?thesis using clear_unique [OF assms(2)] by blast
next
  case (Inr stats)
  let ?P = "parent_chunks_of s job rv" and ?k = "ij_revision_id job"
  let ?cl = "ss_chunks (clear_chunks ?k (?P \<noteq> []) scope s)"
  obtain rows where rows: "ss_chunks s' = ?cl @ rows" "mset (map row_text rows) = mset (map new_text (copied_chunks ?P scope)) + mset raw"
    "\<forall>c\<in>set rows. cr_revision_id c = ?k"
    using store_chunks_rows [OF assms(1) [unfolded Inr]] by blast
  have same: "mset (map text_key (map row_text rows)) = mset (map text_key (map new_text (copied_chunks ?P scope) @ raw))"
    using arg_cong [OF rows(2), of "image_mset text_key"] by (simp add: multiset.map_comp)
  have d: "distinct (map text_key (map row_text rows))"
    unfolding mset_eq_imp_distinct_iff [OF same] by (rule new_keys [OF parents_keys assms(3) files])
  have "map snd (map chunk_key rows) = map text_key (map row_text rows)" by (simp add: chunk_key_text)
  with d have "distinct (map chunk_key rows)" by (metis distinct_map)
  moreover have ne: "chunk_key c \<noteq> chunk_key q" if c: "c \<in> set ?cl" and q: "q \<in> set rows" for c q
  proof
    assume eq: "chunk_key c = chunk_key q"
    then have k: "cr_revision_id c = ?k" "cr_file_path c = cr_file_path q" using rows(3) q by (auto simp: chunk_key_def)
    with c obtain index remove where sc: "scope = Some (index, remove)" "?P = []" "cr_file_path c \<notin> set index"
      by (auto simp: clear_chunks_def delete_defs split: option.splits if_splits)
    have "row_text q \<in># mset (map row_text rows)" using q by simp
    then have "row_text q \<in> set raw" unfolding rows(2) sc by (auto simp: copied_chunks_def)
    then show False using files [OF sc(1)] sc(3) k(2) by (force simp: row_text_def)
  qed
  moreover have "set (map chunk_key ?cl) \<inter> set (map chunk_key rows) = {}"
  proof (rule Int_emptyI)
    fix x assume "x \<in> set (map chunk_key ?cl)" "x \<in> set (map chunk_key rows)"
    then obtain c q where "c \<in> set ?cl" "q \<in> set rows" "x = chunk_key c" "x = chunk_key q" unfolding set_map by (elim imageE)
    then show False using ne by metis
  qed
  ultimately show ?thesis
    using clear_unique [OF assms(2), of ?k "?P \<noteq> []" scope] unfolding chunk_keys_unique_def rows(1) map_append distinct_append by blast
qed

lemma finish_unique: "chunk_keys_unique s \<Longrightarrow> chunk_keys_unique (finish_index_job env job files s)"
  by (auto simp: finish_index_job_def complete_index_job_def set_full_mode_warning_def set_index_job_def chunk_keys_unique_def
      delete_defs distinct_map_filter split: option.split)

definition tree_names_unique :: "index_env \<Rightarrow> bool" where
  "tree_names_unique env \<longleftrightarrow> (\<forall>i owner repo sha tree. ix_tree env i owner repo sha = Inr tree \<longrightarrow> distinct (map fst tree))"

lemma index_work_unique:
  assumes "index_work env s job rv inst full_name = (s', r)" and "chunk_keys_unique s" and "tree_names_unique env"
  shows "chunk_keys_unique s'"
proof (cases "s' = s \<or> (\<exists>j. s' = put_index_job j s)")
  case True
  with assms(2) show ?thesis by (auto simp: chunk_keys_unique_def)
next
  case False
  then obtain owner repo job' scope tree raw files s1 x where
    1: "ix_tree env inst owner repo (rev_head_sha rv) = Inr tree" "collect_chunks_for_paths tree (map_option fst scope) = (raw, files)"
    and st: "store_chunks env (put_index_job job' s) job' rv scope raw = (s1, x)" and s': "s' = s1 \<or> s' = finish_index_job env job' files s1"
    using assms(1) by (auto simp: index_work_def Let_def split: sum.splits prod.splits)
  have "distinct (map fst tree)" using 1(1) assms(3) unfolding tree_names_unique_def by blast
  note keys = collected_keys [OF 1(2) this]
  have "chunk_keys_unique (put_index_job job' s)" using assms(2) by (simp add: chunk_keys_unique_def)
  then have "chunk_keys_unique s1"
    by (rule store_keys [OF st]) (use keys in \<open>auto\<close>)
  with s' finish_unique show ?thesis by blast
qed

subsection \<open>The job in its transaction\<close>

definition keys_kept :: "pub \<Rightarrow> bool" where
  "keys_kept p \<longleftrightarrow> chunk_keys_unique (pb_s p) \<and> chunk_keys_unique (pb_committed p)"

lemma keeps_keys_write: "(\<And>s. ss_chunks (f s) = ss_chunks s) \<Longrightarrow> keeps keys_kept (write_s f)"
  by (rule keeps_write_s) (simp add: keys_kept_def chunk_keys_unique_def)

lemma keeps_keys_delete: "keeps keys_kept (write_s (delete_index_job_chunks k))"
  by (rule keeps_write_s) (simp add: keys_kept_def chunk_keys_unique_def delete_defs distinct_map_filter)

lemma keeps_keys_read: "keeps keys_kept (read_s f)"
  unfolding read_s_def by (rule keeps_read)

lemma keeps_roll_back: "keeps keys_kept (upd_e roll_back_e)"
  by (rule keeps_upd) (simp add: keys_kept_def chunk_keys_unique_def roll_back_e_def)

text \<open>Running an index job keeps the key of a chunk unique (revision, path and index, as the database
  demands) whether the job is claimed, completes, fails and is rolled back, or leaves with an exception;
  so the insert of the chunks never violates the constraint. The archive lists a path once, and
  the transactions that commit in between keep the keys unique.\<close>

theorem index_job_keeps_chunk_keys:
  assumes "tree_names_unique env"
    and "\<forall>n s. chunk_keys_unique s \<longrightarrow> chunk_keys_unique (pe_others (ix_pub env) n s)"
  shows "keeps keys_kept (run_index_job env k)"
proof -
  have refresh: "keeps keys_kept (refresh_e (ix_pub env))"
    unfolding refresh_e_def by (rule keeps_upd) (use assms(2) in \<open>simp add: keys_kept_def\<close>)
  have work: "keeps keys_kept (call_e (\<lambda>s. index_work env s job rv inst full_name))" for job rv inst full_name
    by (rule keeps_call_e) (auto simp: keys_kept_def dest: index_work_unique [OF _ _ assms(1)])
  have put: "keeps keys_kept (write_s (put_index_job j))" for j by (rule keeps_keys_write) simp
  show ?thesis
    unfolding run_index_job_def run_claimed_job_def with_index_job_def with_refreshed_job_def fail_index_job_after_chunk_work_def
      Let_def
    by (intro keeps_rules keeps_keys_read refresh work put keeps_keys_delete keeps_roll_back)
qed

subsection \<open>A small archive\<close>

definition demo_index_env :: index_env where
  "demo_index_env = \<lparr>ix_pub = demo_pub_env, ix_tree = (\<lambda>i owner repo sha. Inr [(S ''a.py'', [120, 10]), (S ''a.bin'', [0])]),
     ix_embed = (\<lambda>ts. Inr (map (\<lambda>t. [1]) ts)), ix_embedding_model = S ''m'', ix_embedding_dimensions = 1,
     ix_p50 = (\<lambda>s j. None), ix_str = (\<lambda>e. [])\<rparr>"

definition demo_index_job :: index_job where
  "demo_index_job = \<lparr>ij_id = 8, ij_revision_id = 2, ij_workspace_id = 3, ij_status = IJ_processing, ij_error_message = None,
     ij_trigger_source = Trig_autostart, ij_index_mode = Mode_full, ij_chunk_count = None, ij_fallback_reason = None,
     ij_warning_message = None, ij_index_incremental = True, ij_created_at = 1\<rparr>"

lemma demo_collect: "collect_chunks_for_paths [(S ''a.py'', [120, 10]), (S ''a.bin'', [0])] None = ([(S ''a.py'', 0, [120])], 1)"
  by code_simp

definition demo_index_session :: session where
  "demo_index_session = demo_github_session\<lparr>ss_pull_requests := [demo_pull_request], ss_revisions := [demo_revision],
     ss_index_jobs := [demo_index_job]\<rparr>"

lemma demo_index_runs:
  assumes "ss_revisions s = [demo_revision]"
  shows "\<exists>s' stats. index_work demo_index_env s demo_index_job demo_revision 9 (S ''o/r'') = (s', Inr stats)"
proof -
  have n: "split_full_name (S ''o/r'') = Inr (S ''o'', S ''r'')" by code_simp
  have sc: "index_scope g 9 (S ''o'') (S ''r'') demo_revision demo_index_job = Inr (demo_index_job, None)" for g
    by (simp add: index_scope_def demo_index_job_def)
  have tr: "ix_tree demo_index_env 9 (S ''o'') (S ''r'') h = Inr [(S ''a.py'', [120, 10]), (S ''a.bin'', [0])]" for h
    by (simp add: demo_index_env_def)
  have none: "parent_chunks_of (put_index_job demo_index_job s) demo_index_job demo_revision = []"
    by (simp add: parent_chunks_of_def get_parent_revision_def assms put_index_job_def demo_revision_def)
  have em: "embed_chunks demo_index_env raw = Inr (map2 fresh_chunk raw (map (\<lambda>t. [1]) raw))" for raw
    by (simp add: embed_chunks_def demo_index_env_def comp_def)
  show ?thesis
    by (simp add: index_work_def n sc tr demo_collect store_chunks_def none Let_def em)
qed

theorem index_work_exact_witness:
  "\<exists>s' stats j. index_work demo_index_env demo_index_session demo_index_job demo_revision 9 (S ''o/r'') = (s', Inr stats) \<and>
     map row_text (revision_chunks s' 2) = [(S ''a.py'', 0, [120])] \<and>
     get_index_job s' 8 = Some j \<and> ij_status j = IJ_completed \<and> ij_chunk_count j = Some 1"
proof -
  obtain s' stats where w: "index_work demo_index_env demo_index_session demo_index_job demo_revision 9 (S ''o/r'') = (s', Inr stats)"
    using demo_index_runs [of demo_index_session] by (auto simp: demo_index_session_def)
  have j: "get_index_job demo_index_session (ij_id demo_index_job) = Some demo_index_job" "ij_status demo_index_job = IJ_processing"
    by (simp_all add: demo_index_session_def demo_index_job_def get_index_job_def tbl_get_def)
  have id: "ij_id demo_index_job = 8" "ij_revision_id demo_index_job = 2" by (simp_all add: demo_index_job_def)
  have tr: "ix_tree demo_index_env i o' r h = Inr [(S ''a.py'', [120, 10]), (S ''a.bin'', [0])]" for i o' r h
    by (simp add: demo_index_env_def)
  have sc: "index_scope g i o' r demo_revision demo_index_job = Inr (demo_index_job, None)" for g i o' r
    by (simp add: index_scope_def demo_index_job_def)
  have lo: "left_over demo_index_session demo_index_job demo_revision None = {#}" by (simp add: left_over_def)
  from index_work_exact [OF w j] obtain jj where
    "mset (map row_text (revision_chunks s' 2)) = {#(S ''a.py'', 0, [120])#}"
    "get_index_job s' 8 = Some jj" "ij_status jj = IJ_completed" "ij_chunk_count jj = Some (int (length (revision_chunks s' 2)))"
    unfolding id tr sc by (auto simp: demo_collect lo)
  moreover from this(1) have "map row_text (revision_chunks s' 2) = [(S ''a.py'', 0, [120])]" by (simp del: mset_map)
  moreover from this have "length (revision_chunks s' 2) = 1" by (metis length_map length_Cons list.size(3) One_nat_def)
  ultimately show ?thesis using w by auto
qed

definition demo_index_pub :: pub where
  "demo_index_pub = (let s = demo_index_session\<lparr>ss_index_jobs := [demo_index_job\<lparr>ij_status := IJ_pending\<rparr>]\<rparr>
     in \<lparr>pb_s = s, pb_committed = s, pb_readings = 0\<rparr>)"

lemma demo_job_runs: "\<exists>q stats. run_index_job demo_index_env 8 demo_index_pub = Some (q, Inr (Some stats))"
proof -
  let ?s = "demo_index_session\<lparr>ss_index_jobs := [demo_index_job]\<rparr>"
  have r: "ss_revisions ?s = [demo_revision]" by (simp add: demo_index_session_def)
  obtain s' stats where w: "index_work demo_index_env ?s demo_index_job demo_revision 9 (S ''o/r'') = (s', Inr stats)"
    using demo_index_runs [OF r] by blast
  have c: "claimed_job (demo_index_job\<lparr>ij_status := IJ_pending\<rparr>) = demo_index_job"
    by (simp add: claimed_job_def demo_index_job_def)
  have put: "put_index_job demo_index_job (demo_index_session\<lparr>ss_index_jobs := [demo_index_job\<lparr>ij_status := IJ_pending\<rparr>]\<rparr>) = ?s"
    by (simp add: put_index_job_def tbl_put_def)
  have rows: "get_revision ?s (ij_revision_id demo_index_job) = Some demo_revision"
    "get_pull_request ?s (rev_pull_request_id demo_revision) = Some demo_pull_request"
    "get_repository ?s (pr_repository_id demo_pull_request) = Some demo_repository"
    "get_installation ?s (pr_installation_id demo_pull_request) = Some demo_installation"
    by (simp_all add: session_gets tbl_get_def demo_index_session_def demo_github_session_def demo_index_job_def demo_revision_def
        demo_pull_request_def demo_repository_def demo_installation_def)
  have i: "inst_github_installation_id demo_installation = 9" "repo_full_name demo_repository = S ''o/r''"
    by (simp_all add: demo_installation_def demo_repository_def)
  have o: "pe_others (ix_pub demo_index_env) = (\<lambda>n s. s)" by (simp add: demo_index_env_def demo_pub_env_def)
  have job: "get_index_job (demo_index_session\<lparr>ss_index_jobs := [demo_index_job\<lparr>ij_status := IJ_pending\<rparr>]\<rparr>) 8 =
      Some (demo_index_job\<lparr>ij_status := IJ_pending\<rparr>)"
    by (simp add: get_index_job_def tbl_get_def demo_index_job_def)
  show ?thesis
    by (simp add: run_index_job_def with_index_job_def with_refreshed_job_def bind_e_def read_s_def refresh_e_def upd_e_def write_s_def
        demo_index_pub_def Let_def job o c put run_claimed_job_def rows i catch_e_def call_e_def on_session_def on_part_def
        total_e_def w)
qed

theorem index_job_keeps_chunk_keys_witness:
  "\<exists>q stats. run_index_job demo_index_env 8 demo_index_pub = Some (q, Inr (Some stats)) \<and> chunk_keys_unique (pb_s q)"
proof -
  obtain q stats where run: "run_index_job demo_index_env 8 demo_index_pub = Some (q, Inr (Some stats))" using demo_job_runs by blast
  have "tree_names_unique demo_index_env" by (simp add: tree_names_unique_def demo_index_env_def S_def)
  moreover have "\<forall>n s. chunk_keys_unique s \<longrightarrow> chunk_keys_unique (pe_others (ix_pub demo_index_env) n s)"
    by (simp add: demo_index_env_def demo_pub_env_def)
  moreover have "keys_kept demo_index_pub"
    by (simp add: keys_kept_def chunk_keys_unique_def demo_index_pub_def demo_index_session_def demo_github_session_def demo_session_def
        empty_session_def Let_def)
  ultimately have "keys_kept q" using keepsD [OF index_job_keeps_chunk_keys _ run] by blast
  with run show ?thesis by (auto simp: keys_kept_def)
qed

end
