(* ===== verification/Index_Task_Laws.thy ===== *)
theory Index_Task_Laws
  imports Index_Task Index_Laws Publish_Laws
begin

section \<open>Pipelines start once, and settle\<close>

text \<open>
  When a pipeline starts and when its review run is created, and that the index task always ends with its job
  settled.
\<close>

subsection \<open>Starting a pipeline\<close>

lemma stash_frame:
  "ss_index_jobs (stash_pipeline_github_check_run_id s k i) = ss_index_jobs s"
  "ss_review_runs (stash_pipeline_github_check_run_id s k i) = ss_review_runs s"
  by (simp_all add: stash_pipeline_github_check_run_id_def Let_def put_step_def upsert_frame create_completed_step_def tick_def
      split: option.split prod.split)

lemma create_in_progress_frame:
  "create_in_progress env s cx m = (s', r) \<Longrightarrow> ss_index_jobs s' = ss_index_jobs s \<and> ss_review_runs s' = ss_review_runs s"
  by (auto simp: create_in_progress_def create_check_run_def send_check_def Let_def split: prod.splits)

lemma provision_frame:
  assumes "provision_queued_pipeline_github_check env s job head = (s', r)"
  shows "ss_index_jobs s' = ss_index_jobs s \<and> ss_review_runs s' = ss_review_runs s"
proof -
  obtain s1 p where e: "ensure_pipeline_run_for_index_job s job head = (s1, p)" by fastforce
  have 1: "ss_index_jobs s1 = ss_index_jobs s \<and> ss_review_runs s1 = ss_review_runs s"
    using e by (auto simp: ensure_pipeline_run_for_index_job_def tick_def Let_def split: option.splits)
  show ?thesis
    using assms 1
    by (auto simp: provision_queued_pipeline_github_check_def e stash_frame split: if_splits option.splits sum.splits prod.splits
        dest!: create_in_progress_frame)
qed

lemma pipeline_revision_facts:
  assumes "pipeline_revision st s ws rv trigger = Some v"
  shows "get_revision s rv = Some v" "\<exists>p. get_pull_request s (rev_pull_request_id v) = Some p \<and> pr_workspace_id p = ws \<and> reviewable p"
    "\<exists>w. get_workspace s ws = Some w \<and> (trigger = Trig_autostart \<longrightarrow> ws_review_autostart_enabled w)"
    "pipeline_prerequisites_met st" "\<not> index_job_in_progress s ws rv" "\<not> review_in_progress s ws rv"
  using assms by (auto simp: pipeline_revision_def split: option.splits if_splits)

lemma busy_revision: "index_job_in_progress s ws rv \<Longrightarrow> pipeline_revision st s ws rv trigger = None"
  by (auto simp: pipeline_revision_def split: option.splits)

lemma pipeline_started:
  assumes "maybe_enqueue_pipeline_for_revision env st s ws rv trigger = (s', Inr (Some k))"
  obtains v j where "trigger = Trig_autostart \<or> trigger = Trig_command" "pipeline_revision st s ws rv trigger = Some v"
    "j = new_index_job s ws rv trigger Mode_diff True" "ij_id j = k"
    "ss_index_jobs s' = ss_index_jobs s @ [j]" "ss_review_runs s' = ss_review_runs s"
proof -
  have trig: "trigger = Trig_autostart \<or> trigger = Trig_command"
    using assms by (cases trigger) (auto simp: maybe_enqueue_pipeline_for_revision_def PIPELINE_TRIGGERS_def)
  then obtain v where v: "pipeline_revision st s ws rv trigger = Some v"
    using assms by (auto simp: maybe_enqueue_pipeline_for_revision_def PIPELINE_TRIGGERS_def split: option.splits)
  define j where "j = new_index_job s ws rv trigger Mode_diff True"
  obtain r where pr: "provision_queued_pipeline_github_check env (add_index_job j s) j (rev_head_sha v) = (s', r)" and k: "ij_id j = k"
    using assms v trig by (auto simp: maybe_enqueue_pipeline_for_revision_def PIPELINE_TRIGGERS_def Let_def j_def
        rbind_eq_Inr split: prod.splits)
  show ?thesis
    using provision_frame [OF pr] by (intro that [OF trig v j_def k]) (simp_all add: add_index_job_def tick_def tbl_add_def)
qed

lemma pipeline_not_started:
  "maybe_enqueue_pipeline_for_revision env st s ws rv trigger = (s', Inr None) \<Longrightarrow> s' = s"
  by (auto simp: maybe_enqueue_pipeline_for_revision_def Let_def rbind_eq_Inr split: if_splits option.splits prod.splits)

text \<open>C13. A pipeline starts only for a revision of an open pull request of the workspace that is no draft, with
  nothing in flight for it, the integrations configured, and for an event, autostart on. It adds exactly one
  pending index job, which has the identifier reported, and no review run; until that job is done, no further
  event or command starts another, and changes nothing.\<close>

theorem pipeline_starts_once:
  assumes "maybe_enqueue_pipeline_for_revision env st s ws rv trigger = (s', Inr (Some k))"
  shows "\<exists>v p w j. get_revision s rv = Some v \<and> get_pull_request s (rev_pull_request_id v) = Some p \<and>
    pr_workspace_id p = ws \<and> \<not> pr_is_draft p \<and> pr_state p = PR_open \<and>
    get_workspace s ws = Some w \<and> (trigger = Trig_command \<or> trigger = Trig_autostart \<and> ws_review_autostart_enabled w) \<and>
    pipeline_prerequisites_met st \<and> \<not> index_job_in_progress s ws rv \<and> \<not> review_in_progress s ws rv \<and>
    ss_index_jobs s' = ss_index_jobs s @ [j] \<and> ij_id j = k \<and> ij_status j = IJ_pending \<and> ij_trigger_source j = trigger \<and>
    ij_revision_id j = rv \<and> ij_workspace_id j = ws \<and> ij_index_mode j = Mode_diff \<and> ss_review_runs s' = ss_review_runs s \<and>
    (\<forall>env' trigger'. trigger' = Trig_manual \<or>
       maybe_enqueue_pipeline_for_revision env' st s' ws rv trigger' = (s', Inr None))"
proof -
  obtain v j where trig: "trigger = Trig_autostart \<or> trigger = Trig_command" and v: "pipeline_revision st s ws rv trigger = Some v"
    and new: "j = new_index_job s ws rv trigger Mode_diff True" and k: "ij_id j = k"
    and rows: "ss_index_jobs s' = ss_index_jobs s @ [j]" "ss_review_runs s' = ss_review_runs s"
    using assms by (rule pipeline_started)
  have j: "ij_status j = IJ_pending" "ij_trigger_source j = trigger" "ij_revision_id j = rv" "ij_workspace_id j = ws" "ij_index_mode j = Mode_diff"
    by (simp_all add: new new_index_job_def)
  have "index_job_in_progress s' ws rv" by (simp add: index_job_in_progress_def rows j)
  note busy = busy_revision [OF this]
  have "maybe_enqueue_pipeline_for_revision env' st s' ws rv t = (s', Inr None)" if "t \<noteq> Trig_manual" for env' t
    using that by (cases t) (simp_all add: maybe_enqueue_pipeline_for_revision_def PIPELINE_TRIGGERS_def busy)
  with rows j k trig pipeline_revision_facts [OF v] show ?thesis unfolding reviewable_def by auto
qed

subsection \<open>The review run after the index\<close>

lemma link_review_runs: "ss_review_runs (link_review_run_to_pipeline s q k) = ss_review_runs s"
  by (simp add: link_review_run_to_pipeline_def put_pipeline_run_def)

text \<open>C15. After an index job, a review run is created only when the job completed, was started by a pipeline,
  and its revision is still the head of an open pull request that is no draft, with no run in flight and
  credit left; then exactly one pending run of the revision is added. In every other case nothing changes, and the
  check run is concluded as failed or as neutral, never as both.\<close>

theorem review_only_on_reviewable_head:
  assumes "prepare_review_after_index st s job = (s', Inr out)"
  shows "case ai_review_run_id out of
      None \<Rightarrow> s' = s \<and> \<not> (ai_fail_pipeline_check out \<and> ai_neutral_finalize_check out)
    | Some k \<Rightarrow>
        ij_status job = IJ_completed \<and> ij_trigger_source job \<noteq> Trig_manual \<and>
        is_authoritative_for_pull_request_head s (ij_revision_id job) \<and>
        (\<exists>v p w. get_revision s (ij_revision_id job) = Some v \<and> get_pull_request s (rev_pull_request_id v) = Some p \<and>
           \<not> pr_is_draft p \<and> pr_state p = PR_open \<and>
           get_workspace s (ij_workspace_id job) = Some w \<and> \<not> credit_limit_reached w) \<and>
        \<not> review_in_progress s (ij_workspace_id job) (ij_revision_id job) \<and>
        (\<exists>run. ss_review_runs s' = ss_review_runs s @ [run] \<and> rr_id run = k \<and> rr_status run = RR_pending \<and>
           rr_revision_id run = ij_revision_id job \<and> rr_workspace_id run = ij_workspace_id job)"
proof (cases "ai_review_run_id out")
  case None
  then show ?thesis
    using assms by (auto simp: prepare_review_after_index_def review_refused_def nothing_to_do_def fail_check_def neutral_check_def
        split: if_splits option.splits sum.splits prod.splits)
next
  case (Some k)
  then obtain v p t run where v: "get_revision s (ij_revision_id job) = Some v" "get_pull_request s (rev_pull_request_id v) = Some p"
    "reviewable p" "is_authoritative_for_pull_request_head s (ij_revision_id job)" "ij_status job = IJ_completed"
    "ij_trigger_source job \<in> set PIPELINE_TRIGGERS"
    and c: "create_review_run st s (ij_workspace_id job) (pr_repository_id p) (pr_id p) (ij_revision_id job) Prof_standard = Inr (t, run)"
    and k: "k = rr_id run" "ss_review_runs s' = ss_review_runs t"
    using assms
    by (auto simp: prepare_review_after_index_def review_refused_def nothing_to_do_def fail_check_def neutral_check_def
        link_review_runs split: if_splits option.splits sum.splits prod.splits)
  have run: "\<not> review_in_progress s (ij_workspace_id job) (ij_revision_id job)" "ss_review_runs t = ss_review_runs s @ [run]"
    "\<exists>w. get_workspace s (ij_workspace_id job) = Some w \<and> \<not> credit_limit_reached w"
    "rr_status run = RR_pending" "rr_revision_id run = ij_revision_id job" "rr_workspace_id run = ij_workspace_id job"
    using c by (auto simp: create_review_run_def rbind_eq_Inr Let_def new_review_run_def tick_def tbl_add_def
        split: if_splits option.splits)
  show ?thesis
    using v run k Some by (auto simp: reviewable_def PIPELINE_TRIGGERS_def)
qed

definition demo_settings :: review_settings where
  "demo_settings = \<lparr>rs_reviewer_llm_enabled = True, rs_embeddings_enabled = True, rs_github_api_enabled = True\<rparr>"

definition demo_ready :: session where
  "demo_ready = demo_idle\<lparr>ss_index_jobs := []\<rparr>"

lemma demo_start: "\<exists>s' k. maybe_enqueue_pipeline_for_revision (pe_check demo_pub_env) demo_settings demo_ready 3 2 Trig_autostart = (s', Inr (Some k))"
  by (simp add: maybe_enqueue_pipeline_for_revision_def PIPELINE_TRIGGERS_def pipeline_revision_def demo_ready_def demo_idle_def
      demo_work_def demo_defs session_gets tbl_get_def reviewable_def demo_workspace_def demo_settings_def
      pipeline_prerequisites_met_def index_job_in_progress_def review_in_progress_def Let_def add_index_job_def tick_def
      provision_queued_pipeline_github_check_def ensure_pipeline_run_for_index_job_def get_pipeline_run_for_index_job_def
      resolve_pipeline_github_check_run_id_def get_index_pipeline_step_def pipeline_check_repo_context_def demo_pub_env_def
      tbl_add_def new_index_job_def next_uuid_def)

theorem pipeline_starts_once_witness:
  "\<exists>s' k. maybe_enqueue_pipeline_for_revision (pe_check demo_pub_env) demo_settings demo_ready 3 2 Trig_autostart = (s', Inr (Some k)) \<and>
     map ij_id (ss_index_jobs s') = [k] \<and>
     maybe_enqueue_pipeline_for_revision (pe_check demo_pub_env) demo_settings s' 3 2 Trig_command = (s', Inr None)"
proof -
  obtain s' k where r: "maybe_enqueue_pipeline_for_revision (pe_check demo_pub_env) demo_settings demo_ready 3 2 Trig_autostart = (s', Inr (Some k))"
    using demo_start by (elim exE)
  from pipeline_starts_once [OF r] obtain j where "ss_index_jobs s' = ss_index_jobs demo_ready @ [j]" "ij_id j = k"
    "maybe_enqueue_pipeline_for_revision (pe_check demo_pub_env) demo_settings s' 3 2 Trig_command = (s', Inr None)" by blast
  with r show ?thesis by (auto simp: demo_ready_def)
qed

theorem review_only_on_reviewable_head_witness:
  "\<exists>s' out k. prepare_review_after_index demo_settings demo_idle (demo_job\<lparr>ij_status := IJ_completed, ij_trigger_source := Trig_command\<rparr>) =
       (s', Inr out) \<and> ai_review_run_id out = Some k \<and> map rr_id (ss_review_runs s') = [k]"
proof -
  let ?job = "demo_job\<lparr>ij_status := IJ_completed, ij_trigger_source := Trig_command\<rparr>"
  have "\<exists>s' out k. prepare_review_after_index demo_settings demo_idle ?job = (s', Inr out) \<and> ai_review_run_id out = Some k"
    by (simp add: prepare_review_after_index_def PIPELINE_TRIGGERS_def resolve_pending_review_run_id_def reviewable_def
        is_authoritative_for_pull_request_head_def session_gets tbl_get_def demo_settings_def get_pipeline_run_for_index_job_def
        create_review_run_def ensure_revision_access_def demo_idle_def demo_work_def demo_defs demo_workspace_def
        credit_limit_reached_def index_job_in_progress_def demo_job_def tick_def
        get_latest_completed_index_job_def latest_by_def FULL_INDEX_PROFILES_def review_in_progress_def Let_def)
  then obtain s' out k where r: "prepare_review_after_index demo_settings demo_idle ?job = (s', Inr out)" "ai_review_run_id out = Some k"
    by (elim exE conjE)
  from review_only_on_reviewable_head [OF r(1)] r(2) have "map rr_id (ss_review_runs s') = [k]"
    by (auto simp: demo_idle_def)
  with r show ?thesis by (intro exI conjI)
qed

subsection \<open>The index task settles\<close>

text \<open>An operation that always returns.\<close>

definition returns :: "('s, 'a) eff \<Rightarrow> bool" where
  "returns m \<longleftrightarrow> (\<forall>p. m p \<noteq> None)"

named_theorems returns_rules

lemma returns_basic [returns_rules]: "returns (ret x)" "returns (raise_e e)" "returns (read_s f)" "returns (write_s g)"
  "returns (call_e m)" "returns (upd_e u)" "returns (refresh_e env)"
  by (simp_all add: returns_def read_s_def write_s_def call_e_def on_session_def on_part_def total_e_def refresh_e_def split: prod.split)

lemma returns_bind [returns_rules]: "returns m \<Longrightarrow> (\<And>x. returns (f x)) \<Longrightarrow> returns (bind_e m f)"
  by (auto simp: returns_def bind_e_def split: option.split sum.split prod.split)

lemma returns_catch [returns_rules]: "returns m \<Longrightarrow> (\<And>e. returns (h e)) \<Longrightarrow> returns (catch_e m h)"
  by (auto simp: returns_def catch_e_def split: option.split sum.split prod.split)

lemma returns_context [returns_rules]: "returns m \<Longrightarrow> returns (in_context m)"
  by (auto simp: returns_def in_context_def split: option.split sum.split prod.split)

lemma returns_cases [returns_rules]:
  "returns m \<Longrightarrow> returns n \<Longrightarrow> returns (if b then m else n)"
  "returns m \<Longrightarrow> (\<And>y. returns (f y)) \<Longrightarrow> returns (case x of None \<Rightarrow> m | Some y \<Rightarrow> f y)"
  "(\<And>a b. returns (g a b)) \<Longrightarrow> returns (case y of (a, b) \<Rightarrow> g a b)"
  by (simp_all split: option.split prod.split)

lemma run_index_job_returns: "returns (run_index_job env k)"
  unfolding run_index_job_def run_claimed_job_def with_index_job_def with_refreshed_job_def fail_index_job_after_chunk_work_def Let_def
  by (intro returns_rules)

lemma index_task_returns: "returns (index_pull_request_revision env settings d k)"
  unfolding index_pull_request_revision_def index_task_start_def start_pipeline_of_job_def index_task_run_def record_index_run_def
    conclude_after_index_def mark_index_task_failed_def with_index_job_def Let_def
  by (intro returns_rules run_index_job_returns)

definition not_pending :: "uuid \<Rightarrow> session \<Rightarrow> bool" where
  "not_pending k s \<longleftrightarrow> (case get_index_job s k of None \<Rightarrow> True | Some j \<Rightarrow> ij_status j \<noteq> IJ_pending)"

text \<open>Concluding the check run raised in the handler that marks the job failed, on the rows as they are
  committed.\<close>

definition index_conclusion_raises :: "index_env \<Rightarrow> uuid \<Rightarrow> pub \<Rightarrow> exn \<Rightarrow> bool" where
  "index_conclusion_raises env k q e \<longleftrightarrow>
     (\<exists>s s' m. handler_read (ix_pub env) q s \<and>
        finalize_pipeline_github_check_for_index_job (pe_check (ix_pub env)) (mark_index_job_failed k m s) k m = (s', Inl e))"

lemma finalize_index_jobs: "finalize_pipeline_github_check env s p m c = (s', r) \<Longrightarrow> ss_index_jobs s' = ss_index_jobs s"
  by (drule finalize_sends) auto

lemma step_writes_jobs:
  "ss_index_jobs (write_manifest s i a ms) = ss_index_jobs s" "ss_index_jobs (put_step st s) = ss_index_jobs s"
  "ss_index_jobs (fst (create_completed_step s k ty v)) = ss_index_jobs s"
  by (simp_all add: write_manifest_def put_step_def put_artifact_def add_step_artifact_def create_completed_step_def tick_def Let_def
      split: option.split)

lemma record_index_jobs: "ss_index_jobs (record_index_pipeline_step s p job stats d c) = ss_index_jobs s"
  by (simp only: record_index_pipeline_step_def Let_def split_def step_writes_jobs)
    (simp add: step_writes_jobs split: option.split)

lemma prepare_index_jobs: "prepare_review_after_index st s job = (s', r) \<Longrightarrow> ss_index_jobs s' = ss_index_jobs s"
  by (auto simp: prepare_review_after_index_def create_review_run_def rbind_eq_Inr Let_def tick_def link_review_run_to_pipeline_def
      put_pipeline_run_def rbind_def split: if_splits option.splits sum.splits prod.splits)

lemma not_pending_cong: "ss_index_jobs s' = ss_index_jobs s \<Longrightarrow> not_pending k s' = not_pending k s"
  by (simp add: not_pending_def get_index_job_def)

lemma keeps_index_jobs_call:
  assumes "\<And>s s' r. m s = (s', r) \<Longrightarrow> ss_index_jobs s' = ss_index_jobs s"
  shows "keeps (\<lambda>p. not_pending k (pb_s p)) (call_e m)"
proof (rule keeps_call_e)
  fix p :: pub and s r assume "not_pending k (pb_s p)" "m (pb_s p) = (s, r)"
  then show "not_pending k (pb_s (p\<lparr>pb_s := s\<rparr>))" using not_pending_cong [OF assms] by simp
qed

lemma keeps_index_jobs_write:
  assumes "\<And>s. ss_index_jobs (f s) = ss_index_jobs s"
  shows "keeps (\<lambda>p. not_pending k (pb_s p)) (write_s f)"
proof (rule keeps_write_s)
  fix p :: pub assume "not_pending k (pb_s p)"
  then show "not_pending k (pb_s (p\<lparr>pb_s := f (pb_s p)\<rparr>))" using not_pending_cong [OF assms] by simp
qed

lemma keeps_reading: "keeps I (read_s f)"
  unfolding read_s_def by (rule keeps_read)

lemma put_not_pending: "ij_status j \<noteq> IJ_pending \<Longrightarrow> ij_id j = k \<Longrightarrow> not_pending k (put_index_job j s)"
  unfolding not_pending_def get_index_job_def put_index_job_def
  using jobs.get_put [of k j "ss_index_jobs s"] jobs.get_keys [of k "ss_index_jobs s"] by (auto split: option.split)

text \<open>After the claim the job is completed or failed.\<close>

lemma bind_read_job: "bind_e (read_s g) f p = f (g (pb_s p)) p"
  by (simp add: bind_e_def read_s_def)

lemma fail_not_pending:
  assumes "fail_index_job_after_chunk_work env k m p = Some (q, Inr x)"
  shows "not_pending k (pb_s q)"
proof -
  have put: "not_pending k (put_index_job (keep_fallback b (job_failed m' j)) s)" if "get_index_job s k = Some j" for b m' j s
  proof (rule put_not_pending)
    have "ij_id j = k" using that unfolding get_index_job_def by (rule jobs.get_rid)
    then show "ij_id (keep_fallback b (job_failed m' j)) = k" by (simp add: keep_fallback_def job_failed_def split: option.split)
    show "ij_status (keep_fallback b (job_failed m' j)) \<noteq> IJ_pending"
      by (simp add: keep_fallback_def job_failed_def split: option.split)
  qed
  have gone: "not_pending k (delete_index_job_chunks k s)" if "get_index_job s k = Some j" "is_superseded_index_job j" for j s
    using that by (simp add: not_pending_def delete_index_job_chunks_def delete_chunks_def get_index_job_def is_superseded_index_job_def)
  show ?thesis
    using assms
    by (auto simp: fail_index_job_after_chunk_work_def with_index_job_def bind_Some read_s_def write_s_def put gone
        split: option.splits if_splits)
qed

lemma work_not_pending:
  assumes "index_work env s job rv inst full_name = (s', Inr stats)" and "get_index_job s (ij_id job) = Some job"
    and "ij_status job = IJ_processing"
  shows "not_pending (ij_id job) s'"
  using index_work_rows [OF assms] by (auto simp: not_pending_def)

lemma run_claimed_not_pending:
  assumes run: "run_claimed_job env job p = Some (q, Inr x)" and job: "get_index_job (pb_s p) (ij_id job) = Some job" "ij_status job = IJ_processing"
  shows "not_pending (ij_id job) (pb_s q)"
proof -
  have fail: "not_pending (ij_id job) (put_index_job (job_failed m job) s)" for m s
    by (rule put_not_pending) (simp_all add: job_failed_def)
  have work: "not_pending (ij_id job) (pb_s u)"
    if "catch_e (bind_e (call_e (\<lambda>s. index_work env s job rv inst full_name)) (\<lambda>stats. ret (Some stats)))
        (\<lambda>e. if is_index_failure e then bind_e (fail_index_job_after_chunk_work env (ij_id job) (ix_str env e)) (\<lambda>_. ret None)
           else raise_e e) p = Some (u, Inr y)" for rv inst full_name u y
    using that job by (auto simp: catch_Some bind_Some call_e_Some split: if_splits dest: work_not_pending fail_not_pending)
  show ?thesis
    using run unfolding run_claimed_job_def Let_def bind_read_job
    by (auto simp: bind_Some write_s_def fail split: option.splits dest: work)
qed

lemma run_index_job_not_pending:
  assumes "run_index_job env k p = Some (q, Inr x)"
  shows "not_pending k (pb_s q)"
proof -
  have skip: "not_pending k s" if "get_index_job s k = Some j" "ij_status j \<noteq> IJ_pending" for s j
    using that by (simp add: not_pending_def)
  have go: "not_pending k (pb_s u)"
    if j: "get_index_job (pb_s t) k = Some j" and r: "run_claimed_job env (claimed_job j) (t\<lparr>pb_s := put_index_job (claimed_job j) (pb_s t)\<rparr>) = Some (u, Inr y)"
    for t u y j
  proof -
    have id: "ij_id (claimed_job j) = k" using j jobs.get_rid by (auto simp: claimed_job_def get_index_job_def)
    then have "get_index_job (put_index_job (claimed_job j) (pb_s t)) k = Some (claimed_job j)"
      using get_put_index_job [of "pb_s t" "claimed_job j" j] j by simp
    with run_claimed_not_pending [OF r] id show ?thesis by (simp add: claimed_job_def)
  qed
  show ?thesis
    using assms
    by (auto simp: run_index_job_def with_index_job_def with_refreshed_job_def bind_read_job bind_Some write_s_def skip
        split: option.splits if_splits dest: go)
qed

lemma index_task_run_not_pending:
  assumes "index_task_run env settings d k st p = Some (q, Inr x)"
  shows "not_pending k (pb_s q)"
proof -
  obtain t stats where t: "run_index_job env k p = Some (t, Inr stats)"
    and rest: "with_index_job k (\<lambda>job. bind_e (record_index_run env st job stats d) (\<lambda>_.
       bind_e (call_e (\<lambda>s. prepare_review_after_index settings s job)) (\<lambda>out. conclude_after_index env st job out))) t = Some (q, Inr x)"
    using assms by (auto simp: index_task_run_def bind_Some)
  have fin: "keeps (\<lambda>p. not_pending k (pb_s p)) (call_e (\<lambda>s. finalize_pipeline_github_check_failure e s p m))"
    "keeps (\<lambda>p. not_pending k (pb_s p)) (call_e (\<lambda>s. finalize_pipeline_github_check_neutral e s p m))" for e p m
    unfolding finalize_pipeline_github_check_failure_def finalize_pipeline_github_check_neutral_def
    by (rule keeps_index_jobs_call, erule finalize_index_jobs)+
  have "keeps (\<lambda>p. not_pending k (pb_s p)) (with_index_job k (\<lambda>job. bind_e (record_index_run env st job stats d) (\<lambda>_.
       bind_e (call_e (\<lambda>s. prepare_review_after_index settings s job)) (\<lambda>out. conclude_after_index env st job out))))"
    unfolding with_index_job_def record_index_run_def conclude_after_index_def
    by (intro keeps_rules keeps_reading keeps_index_jobs_call keeps_index_jobs_write fin) (rule record_index_jobs prepare_index_jobs, assumption?)+
  from keepsD [OF this _ rest] run_index_job_not_pending [OF t] show ?thesis by blast
qed

lemma index_task_start_none:
  "index_task_start env k p = Some (q, Inr None) \<Longrightarrow> not_pending k (pb_s q)"
  by (auto simp: index_task_start_def start_pipeline_of_job_def bind_read_job Let_def bind_Some not_pending_def
      is_superseded_index_job_def split: option.splits if_splits)

lemma mark_not_pending: "not_pending k (mark_index_job_failed k m s)"
proof (cases "get_index_job s k")
  case (Some j)
  then have id: "ij_id j = k" unfolding get_index_job_def by (rule jobs.get_rid)
  show ?thesis
  proof (cases "ij_status j = IJ_completed")
    case False
    then show ?thesis
      using put_not_pending [of "job_failed (take 2000 m) j" k s] id Some by (simp add: mark_index_job_failed_def job_failed_def)
  qed (simp add: mark_index_job_failed_def Some not_pending_def)
qed (simp add: mark_index_job_failed_def not_pending_def)

lemma finalize_job_jobs:
  "finalize_pipeline_github_check_for_index_job env s k m = (s', r) \<Longrightarrow> ss_index_jobs s' = ss_index_jobs s"
  by (auto simp: finalize_pipeline_github_check_for_index_job_def finalize_pipeline_github_check_failure_def
      split: option.splits dest: finalize_index_jobs)

lemma mark_task_failed:
  assumes "mark_index_task_failed env k m p = Some (q, r)" and "rolled_back p"
  shows "case r of Inr _ \<Rightarrow> not_pending k (pb_committed q) | Inl e \<Rightarrow> index_conclusion_raises env k q e"
proof -
  let ?s = "pe_others (ix_pub env) (pb_readings p) (pb_s p)"
  obtain s' x where f: "finalize_pipeline_github_check_for_index_job (pe_check (ix_pub env)) (mark_index_job_failed k m ?s) k m = (s', x)"
    and q: "case x of Inr _ \<Rightarrow> r = Inr () \<and> pb_committed q = s' | Inl e \<Rightarrow> r = Inl e \<and> pb_committed q = pb_committed p"
    using assms(1)
    by (auto simp: mark_index_task_failed_def in_context_def refresh_e_def bind_e_def upd_e_def write_s_def call_e_def on_session_def
        on_part_def total_e_def roll_back_e_def split: prod.splits sum.splits)
  show ?thesis
  proof (cases x)
    case (Inl e)
    with q have "handler_read (ix_pub env) q ?s" using handler_readI [OF assms(2)] by simp
    with Inl f q show ?thesis unfolding index_conclusion_raises_def by auto
  next
    case (Inr u)
    have "not_pending k s'" using mark_not_pending not_pending_cong [OF finalize_job_jobs [OF f]] by blast
    with Inr q show ?thesis by simp
  qed
qed

text \<open>C14. The index task always ends, and never leaves its job waiting: in what it committed last the job is no longer
  pending, whether it completed, failed and was rolled back, was superseded, or the task left with an exception; the only
  way out of this is an exception from concluding the check run, on the rows as they are committed, while the failure is
  written.\<close>

theorem index_task_settles:
  "\<exists>q r. index_pull_request_revision env settings d k p = Some (q, r) \<and>
     (not_pending k (pb_committed q) \<or> (\<exists>e. r = Inl e \<and> index_conclusion_raises env k q e))"
proof -
  obtain q r where run: "index_pull_request_revision env settings d k p = Some (q, r)"
    using index_task_returns unfolding returns_def by (metis option.exhaust surj_pair)
  have ctx: "not_pending k (pb_committed v)"
    if "in_context (bind_e (refresh_e (ix_pub env)) (\<lambda>_. m)) u = Some (v, Inr x)"
      and "\<And>t w. m t = Some (w, Inr x) \<Longrightarrow> not_pending k (pb_s w)" for m :: "(pub, 'c) eff" and u v x
    using that by (auto simp: in_context_def bind_Some split: option.splits prod.splits sum.splits)
  let ?body = "bind_e (in_context (bind_e (refresh_e (ix_pub env)) (\<lambda>_. index_task_start env k))) (\<lambda>st.
          case st of None \<Rightarrow> ret None
          | Some st \<Rightarrow> in_context (bind_e (refresh_e (ix_pub env)) (\<lambda>_. index_task_run env settings d k st)))"
  have rolled: "rolled_back t" if "?body p = Some (t, Inl e)" for t e
    using that by (auto simp: bind_Some split: option.splits dest: context_rolls_back)
  from run consider x where "r = Inr x" "?body p = Some (q, Inr x)"
    | t e where "bind_e (mark_index_task_failed env k (ix_str env e)) (\<lambda>_. raise_e e) t = Some (q, r)" "rolled_back t"
    unfolding index_pull_request_revision_def catch_Some using rolled by blast
  then have "not_pending k (pb_committed q) \<or> (\<exists>e. r = Inl e \<and> index_conclusion_raises env k q e)"
  proof cases
    case (1 x)
    then obtain t st where s: "in_context (bind_e (refresh_e (ix_pub env)) (\<lambda>_. index_task_start env k)) p = Some (t, Inr st)"
      and rest: "(case st of None \<Rightarrow> ret None
        | Some st \<Rightarrow> in_context (bind_e (refresh_e (ix_pub env)) (\<lambda>_. index_task_run env settings d k st))) t = Some (q, Inr x)"
      by (auto simp: bind_Some)
    show ?thesis
    proof (cases st)
      case None
      with rest have "q = t" by simp
      with ctx [OF s] index_task_start_none None show ?thesis by blast
    next
      case (Some i)
      with rest have "in_context (bind_e (refresh_e (ix_pub env)) (\<lambda>_. index_task_run env settings d k i)) t = Some (q, Inr x)" by simp
      from ctx [OF this] index_task_run_not_pending show ?thesis by blast
    qed
  next
    case (2 t e)
    then show ?thesis by (auto simp: bind_Some dest!: mark_task_failed)
  qed
  with run show ?thesis by blast
qed

end
