(* ===== verification/Messages.thy ===== *)
theory Messages
  imports Publish_Task
begin

section \<open>Tasks that send tasks\<close>

text \<open>
  The state of code that both writes to the database and hands tasks to the message broker: the database as in
  a publish, the messages the broker accepted, and the number of attempts.  Whether the broker
  accepts a message is a parameter, by the number of attempts before it.
\<close>

text \<open>The tasks sent: to process a delivery, to run an index job, to pair the resolutions of a push (with the index
  job that follows, and what a coalesced start needs), and to start a pipeline after some seconds.\<close>

datatype message =
    Msg_event pystr
  | Msg_index uuid
  | Msg_resolution uuid "uuid option" "(uuid \<times> pystr) option" bool
  | Msg_autostart uuid uuid int

record tasks =
  tk_pub :: pub
  tk_sent :: "message list"
  tk_sends :: nat

type_synonym broker = "nat \<Rightarrow> message \<Rightarrow> exn option"

definition db :: "(pub, 'a) eff \<Rightarrow> (tasks, 'a) eff" where
  "db m = on_part tk_pub (\<lambda>p t. t\<lparr>tk_pub := p\<rparr>) m"

definition send_e :: "broker \<Rightarrow> message \<Rightarrow> (tasks, unit) eff" where
  "send_e broker m = (\<lambda>t.
     case broker (tk_sends t) m of
       Some e \<Rightarrow> Some (t\<lparr>tk_sends := Suc (tk_sends t)\<rparr>, Inl e)
     | None \<Rightarrow> Some (t\<lparr>tk_sent := tk_sent t @ [m], tk_sends := Suc (tk_sends t)\<rparr>, Inr ()))"

text \<open>An exception as a value, and one that is only logged.\<close>

definition attempt_e :: "('s, 'a) eff \<Rightarrow> ('s, exn + 'a) eff" where
  "attempt_e m = catch_e (bind_e m (\<lambda>x. ret (Inr x))) (\<lambda>e. ret (Inl e))"

definition logged_e :: "('s, unit) eff \<Rightarrow> ('s, unit) eff" where
  "logged_e m = catch_e m (\<lambda>e. ret ())"

lemma db_Some: "db m t = Some (u, r) \<longleftrightarrow> (\<exists>p. m (tk_pub t) = Some (p, r) \<and> u = t\<lparr>tk_pub := p\<rparr>)"
  by (auto simp: db_def on_part_def split: option.splits)

lemma send_Some:
  "send_e broker m t = Some (u, r) \<longleftrightarrow>
     (\<exists>e. broker (tk_sends t) m = Some e \<and> r = Inl e \<and> u = t\<lparr>tk_sends := Suc (tk_sends t)\<rparr>) \<or>
     (broker (tk_sends t) m = None \<and> r = Inr () \<and>
        u = t\<lparr>tk_sent := tk_sent t @ [m], tk_sends := Suc (tk_sends t)\<rparr>)"
  by (auto simp: send_e_def split: option.splits)

lemma attempt_Some:
  "attempt_e m s = Some (t, r) \<longleftrightarrow> (\<exists>r'. m s = Some (t, r') \<and> r = Inr r')"
proof
  assume "attempt_e m s = Some (t, r)"
  then show "\<exists>r'. m s = Some (t, r') \<and> r = Inr r'"
    unfolding attempt_e_def by (auto simp: catch_Some bind_Some)
next
  assume "\<exists>r'. m s = Some (t, r') \<and> r = Inr r'"
  then obtain r' where "m s = Some (t, r')" "r = Inr r'" by blast
  then show "attempt_e m s = Some (t, r)"
    unfolding attempt_e_def by (cases r') (simp_all add: catch_e_def bind_e_def)
qed

lemma logged_Some: "logged_e m s = Some (t, r) \<longleftrightarrow> r = Inr () \<and> (\<exists>r'. m s = Some (t, r'))"
proof
  assume "logged_e m s = Some (t, r)"
  then show "r = Inr () \<and> (\<exists>r'. m s = Some (t, r'))"
    unfolding logged_e_def by (auto simp: catch_Some)
next
  assume "r = Inr () \<and> (\<exists>r'. m s = Some (t, r'))"
  then obtain r' where "m s = Some (t, r')" "r = Inr ()" by blast
  then show "logged_e m s = Some (t, r)"
    unfolding logged_e_def by (cases r') (simp_all add: catch_e_def)
qed

end
