(* ===== verification/Repositories.thy ===== *)
theory Repositories
  imports Pull_Requests
begin

section \<open>Installations and repositories (\<open>services/github_installations.py\<close>, \<open>services/github_repositories.py\<close>)\<close>

text \<open>
  A workspace is bound to an installation of the GitHub App, and the repositories the installation can see
  are rows of their own: written by webhooks, one by one, and by a task that lists them all.  The database
  keeps an installation unique by its GitHub identifier and a repository by installation and GitHub identifier;
  an insert is flushed after what others committed has become visible, and a second row raises.  The HTTP
  transport, with the token of the installation, is the parameter \<open>gh\<close>.
\<close>

subsection \<open>Fields of a repository\<close>

record repo_fields =
  rf_github_repository_id :: int
  rf_name :: pystr
  rf_full_name :: pystr
  rf_default_branch :: "pystr option"
  rf_private :: bool
  rf_html_url :: "pystr option"

definition repo_fields_from_github :: "(pystr \<times> json) list \<Rightarrow> repo_fields option" where
  "repo_fields_from_github repo =
     (case (payload_int (json_get (S ''id'') repo), payload_str (json_get (S ''name'') repo),
            payload_str (json_get (S ''full_name'') repo)) of
        (Some raw_id, Some name, Some full_name) \<Rightarrow>
          Some \<lparr>rf_github_repository_id = raw_id, rf_name = name, rf_full_name = full_name,
            rf_default_branch = payload_str (json_get (S ''default_branch'') repo),
            rf_private = (case json_get (S ''private'') repo of None \<Rightarrow> False | Some v \<Rightarrow> json_truthy v),
            rf_html_url = payload_str (json_get (S ''html_url'') repo)\<rparr>
      | _ \<Rightarrow> None)"

definition is_github_repo :: "uuid \<Rightarrow> int \<Rightarrow> repository \<Rightarrow> bool" where
  "is_github_repo inst i q \<longleftrightarrow> repo_installation_id q = inst \<and> repo_github_repository_id q = i"

definition find_repository :: "session \<Rightarrow> uuid \<Rightarrow> int \<Rightarrow> repository option" where
  "find_repository s inst i = List.find (is_github_repo inst i) (ss_repositories s)"

definition put_repository :: "repository \<Rightarrow> session \<Rightarrow> session" where
  "put_repository q s = s\<lparr>ss_repositories := tbl_put repo_id q (ss_repositories s)\<rparr>"

definition new_repository :: "session \<Rightarrow> installation \<Rightarrow> repo_fields \<Rightarrow> repository" where
  "new_repository s inst f =
     \<lparr>repo_id = next_uuid s, repo_installation_id = inst_id inst, repo_workspace_id = inst_workspace_id inst,
      repo_github_repository_id = rf_github_repository_id f, repo_name = rf_name f, repo_full_name = rf_full_name f,
      repo_default_branch = rf_default_branch f, repo_private = rf_private f, repo_html_url = rf_html_url f,
      repo_status = Repo_active\<rparr>"

definition write_repo_fields :: "repo_fields \<Rightarrow> repository \<Rightarrow> repository" where
  "write_repo_fields f q = q\<lparr>repo_name := rf_name f, repo_full_name := rf_full_name f,
     repo_default_branch := rf_default_branch f, repo_private := rf_private f, repo_html_url := rf_html_url f,
     repo_status := Repo_active\<rparr>"

definition insert_repository :: "session \<Rightarrow> installation \<Rightarrow> repo_fields \<Rightarrow> session \<times> (exn + unit)" where
  "insert_repository s inst f =
     (let q = new_repository s inst f in
      if find_repository s (inst_id inst) (rf_github_repository_id f) \<noteq> None \<or> repo_id q \<in> tbl_keys repo_id (ss_repositories s)
      then (tick s, Inl Integrity_error)
      else (tick (s\<lparr>ss_repositories := tbl_add q (ss_repositories s)\<rparr>), Inr ()))"

text \<open>The GitHub identifier of the row written, or none when the item lacks a field.\<close>

definition upsert_repository_from_github ::
  "pub_env \<Rightarrow> installation \<Rightarrow> (pystr \<times> json) list \<Rightarrow> (pub, int option) eff" where
  "upsert_repository_from_github env inst repo =
     (case repo_fields_from_github repo of
        None \<Rightarrow> ret None
      | Some f \<Rightarrow>
          bind_e (read_s (\<lambda>s. find_repository s (inst_id inst) (rf_github_repository_id f))) (\<lambda>existing.
          bind_e (case existing of
              Some q \<Rightarrow> write_s (put_repository (write_repo_fields f q))
            | None \<Rightarrow> bind_e (refresh_e env) (\<lambda>_. call_e (\<lambda>s. insert_repository s inst f))) (\<lambda>_.
            ret (Some (rf_github_repository_id f)))))"

definition mark_repository_removed :: "installation \<Rightarrow> (pystr \<times> json) list \<Rightarrow> session \<Rightarrow> session" where
  "mark_repository_removed inst repo s =
     (case repo_fields_from_github repo of
        None \<Rightarrow> s
      | Some f \<Rightarrow>
          (case find_repository s (inst_id inst) (rf_github_repository_id f) of
             None \<Rightarrow> s
           | Some q \<Rightarrow> put_repository (q\<lparr>repo_status := Repo_removed\<rparr>) s))"

subsection \<open>The events\<close>

text \<open>The dictionaries of a list; what is no list has none.\<close>

fun dict_items :: "json option \<Rightarrow> (pystr \<times> json) list list" where
  "dict_items (Some (JArr items)) = List.map_filter (\<lambda>v. case v of JObj ms \<Rightarrow> Some ms | _ \<Rightarrow> None) items"
| "dict_items _ = []"

definition apply_installation_repositories_webhook_event :: "pub_env \<Rightarrow> (pystr \<times> json) list \<Rightarrow> (pub, unit) eff" where
  "apply_installation_repositories_webhook_event env payload =
     (case Option.bind (payload_dict (json_get (S ''installation'') payload)) (\<lambda>i. payload_int (json_get (S ''id'') i)) of
        None \<Rightarrow> ret ()
      | Some raw_installation_id \<Rightarrow>
          bind_e (read_s (\<lambda>s. installation_by_github_id s raw_installation_id)) (\<lambda>found.
            case found of
              None \<Rightarrow> ret ()
            | Some inst \<Rightarrow>
                bind_e (each_e (\<lambda>repo. bind_e (upsert_repository_from_github env inst repo) (\<lambda>_. ret ()))
                    (dict_items (json_get (S ''repositories_added'') payload))) (\<lambda>_.
                  write_s (\<lambda>s. foldl (\<lambda>s repo. mark_repository_removed inst repo s) s
                    (dict_items (json_get (S ''repositories_removed'') payload))))))"

definition INSTALLATION_ACTION_STATUS :: "(pystr \<times> github_installation_status) list" where
  "INSTALLATION_ACTION_STATUS =
     [(S ''deleted'', Inst_removed), (S ''suspend'', Inst_suspended), (S ''unsuspend'', Inst_active),
      (S ''created'', Inst_active), (S ''new_permissions_accepted'', Inst_active)]"

definition put_installation :: "installation \<Rightarrow> session \<Rightarrow> session" where
  "put_installation i s = s\<lparr>ss_installations := tbl_put inst_id i (ss_installations s)\<rparr>"

definition apply_installation_webhook_event :: "int \<Rightarrow> pystr \<Rightarrow> session \<Rightarrow> session" where
  "apply_installation_webhook_event github_installation_id action s =
     (case installation_by_github_id s github_installation_id of
        None \<Rightarrow> s
      | Some i \<Rightarrow>
          (case map_of INSTALLATION_ACTION_STATUS action of
             None \<Rightarrow> s
           | Some st \<Rightarrow> put_installation (i\<lparr>inst_status := st\<rparr>) s))"

subsection \<open>Listing and synchronizing\<close>

text \<open>The pages of \<open>list_installation_repositories\<close>: it ends with a page of fewer than a hundred items, so with a
  server that always sends full ones it never does.\<close>

definition installation_repositories_url :: pystr where
  "installation_repositories_url = GITHUB_API_BASE @ S ''/installation/repositories''"

definition repository_page :: "gh \<Rightarrow> int \<Rightarrow> nat \<Rightarrow> exn + json list" where
  "repository_page gh inst page =
     rbind (get_json gh Http_status inst installation_repositories_url
         (Some (S ''per_page=100&page='' @ py_str_int (int page)))) (\<lambda>data.
       case data of
         JObj ms \<Rightarrow> Inr (case json_get (S ''repositories'') ms of Some (JArr batch) \<Rightarrow> batch | _ \<Rightarrow> [])
       | _ \<Rightarrow> Inl Attribute_error)"

partial_function (option) list_repositories_from ::
  "gh \<Rightarrow> int \<Rightarrow> nat \<Rightarrow> (pystr \<times> json) list list \<Rightarrow> (exn + (pystr \<times> json) list list) option" where
  "list_repositories_from gh inst page repos =
     (case repository_page gh inst page of
        Inl e \<Rightarrow> Some (Inl e)
      | Inr batch \<Rightarrow>
          if length batch < 100 then Some (Inr (repos @ dict_items (Some (JArr batch))))
          else list_repositories_from gh inst (Suc page) (repos @ dict_items (Some (JArr batch))))"

definition list_installation_repositories :: "gh \<Rightarrow> int \<Rightarrow> (exn + (pystr \<times> json) list list) option" where
  "list_installation_repositories gh inst = list_repositories_from gh inst 1 []"

definition fetch_e :: "(exn + 'a) option \<Rightarrow> ('s, 'a) eff" where
  "fetch_e m = (\<lambda>s. map_option (\<lambda>r. (s, r)) m)"

fun upsert_repositories :: "pub_env \<Rightarrow> installation \<Rightarrow> (pystr \<times> json) list list \<Rightarrow> (pub, int list) eff" where
  "upsert_repositories env inst [] = ret []"
| "upsert_repositories env inst (repo # repos) =
     bind_e (upsert_repository_from_github env inst repo) (\<lambda>i.
     bind_e (upsert_repositories env inst repos) (\<lambda>seen. ret (case i of None \<Rightarrow> seen | Some i \<Rightarrow> i # seen)))"

definition remove_unseen :: "installation \<Rightarrow> int list \<Rightarrow> session \<Rightarrow> session" where
  "remove_unseen inst seen s = s\<lparr>ss_repositories := tbl_map
     (\<lambda>q. repo_installation_id q = inst_id inst \<and> repo_status q = Repo_active \<and> repo_github_repository_id q \<notin> set seen)
     (\<lambda>q. q\<lparr>repo_status := Repo_removed\<rparr>) (ss_repositories s)\<rparr>"

definition reconcile_repositories_from_api ::
  "pub_env \<Rightarrow> installation \<Rightarrow> (pystr \<times> json) list list \<Rightarrow> (pub, unit) eff" where
  "reconcile_repositories_from_api env inst repos =
     bind_e (upsert_repositories env inst repos) (\<lambda>seen. write_s (remove_unseen inst seen))"

text \<open>The task (\<open>workers/repo_tasks.py\<close>), with the number of retries left.\<close>

definition sync_attempt :: "pub_env \<Rightarrow> uuid \<Rightarrow> (pub, unit) eff" where
  "sync_attempt env k =
     in_context (bind_e (refresh_e env) (\<lambda>_.
     bind_e (read_s (\<lambda>s. get_installation s k)) (\<lambda>found.
       case found of
         None \<Rightarrow> raise_e (Runtime_error (S ''github_installation_not_found''))
       | Some inst \<Rightarrow>
           bind_e (fetch_e (list_installation_repositories (pe_gh env) (inst_github_installation_id inst))) (\<lambda>repos.
             reconcile_repositories_from_api env inst repos))))"

fun sync_attempts :: "pub_env \<Rightarrow> uuid \<Rightarrow> nat \<Rightarrow> (pub, unit) eff" where
  "sync_attempts env k 0 = sync_attempt env k"
| "sync_attempts env k (Suc n) = catch_e (sync_attempt env k) (\<lambda>e. sync_attempts env k n)"

definition sync_installation_repositories :: "pub_env \<Rightarrow> uuid \<Rightarrow> (pub, unit) eff" where
  "sync_installation_repositories env k = sync_attempts env k 3"

definition verify_granted_repositories :: "pub_env \<Rightarrow> int \<Rightarrow> installation \<Rightarrow> (pub, unit) eff" where
  "verify_granted_repositories env now inst =
     bind_e (fetch_e (list_installation_repositories (pe_gh env) (inst_github_installation_id inst))) (\<lambda>repos.
       write_s (\<lambda>s. case get_installation s (inst_id inst) of
         None \<Rightarrow> s
       | Some i \<Rightarrow> put_installation (i\<lparr>inst_verified_at := (if repos \<noteq> [] then Some now else None)\<rparr>) s))"

subsection \<open>Binding an installation to a workspace\<close>

record installation_data =
  id_github_installation_id :: int
  id_account_login :: pystr
  id_account_type :: account_type
  id_account_id :: int
  id_permissions_snapshot :: "json option"

definition installation_conflict :: "installation \<Rightarrow> uuid \<Rightarrow> exn" where
  "installation_conflict existing ws = raise_platform ConflictError
     (if inst_workspace_id existing = ws then S ''GitHub installation already registered for this workspace''
      else S ''GitHub installation is linked to another workspace'') None"

definition new_installation :: "session \<Rightarrow> uuid \<Rightarrow> installation_data \<Rightarrow> installation" where
  "new_installation s ws d =
     \<lparr>inst_id = next_uuid s, inst_workspace_id = ws, inst_github_installation_id = id_github_installation_id d,
      inst_account_login = py_strip (id_account_login d), inst_account_type = id_account_type d,
      inst_account_id = id_account_id d, inst_status = Inst_active,
      inst_permissions_snapshot = id_permissions_snapshot d, inst_verified_at = None\<rparr>"

text \<open>The flush of the new row; after a violation the transaction is rolled back and the row looked up again.\<close>

definition insert_installation ::
  "pub_env \<Rightarrow> uuid \<Rightarrow> installation_data \<Rightarrow> (installation option \<Rightarrow> (pub, uuid) eff) \<Rightarrow> (pub, uuid) eff" where
  "insert_installation env ws d raced =
     bind_e (refresh_e env) (\<lambda>_.
     bind_e (read_s (\<lambda>s. let i = new_installation s ws d in
         (installation_by_github_id s (id_github_installation_id d) \<noteq> None \<or>
            inst_id i \<in> tbl_keys inst_id (ss_installations s), i))) (\<lambda>(taken, i).
       if taken then
         bind_e (upd_e (\<lambda>p. roll_back_e (p\<lparr>pb_s := tick (pb_s p)\<rparr>))) (\<lambda>_.
         bind_e (refresh_e env) (\<lambda>_.
         bind_e (read_s (\<lambda>s. installation_by_github_id s (id_github_installation_id d))) raced))
       else
         bind_e (write_s (\<lambda>s. tick (s\<lparr>ss_installations := tbl_add i (ss_installations s)\<rparr>))) (\<lambda>_. ret (inst_id i))))"

definition already_registered :: exn where
  "already_registered = raise_platform ConflictError (S ''GitHub installation already registered'') None"

definition create_github_installation :: "pub_env \<Rightarrow> uuid \<Rightarrow> installation_data \<Rightarrow> (pub, uuid) eff" where
  "create_github_installation env ws d =
     bind_e (read_s (\<lambda>s. (get_workspace s ws, installation_by_github_id s (id_github_installation_id d)))) (\<lambda>(w, existing).
       if w = None then raise_e (raise_platform NotFoundError (S ''Workspace not found'') None)
       else case existing of
         Some i \<Rightarrow> raise_e (installation_conflict i ws)
       | None \<Rightarrow>
           insert_installation env ws d (\<lambda>raced. case raced of
             Some i \<Rightarrow> raise_e (installation_conflict i ws)
           | None \<Rightarrow> raise_e already_registered))"

definition rebind_installation :: "installation_data \<Rightarrow> installation \<Rightarrow> installation" where
  "rebind_installation d i =
     i\<lparr>inst_account_login := py_strip (id_account_login d), inst_account_type := id_account_type d,
       inst_account_id := id_account_id d,
       inst_permissions_snapshot := (case id_permissions_snapshot d of
          None \<Rightarrow> inst_permissions_snapshot i | Some v \<Rightarrow> Some v),
       inst_status := Inst_active\<rparr>"

definition bind_github_installation :: "pub_env \<Rightarrow> uuid \<Rightarrow> installation_data \<Rightarrow> (pub, uuid) eff" where
  "bind_github_installation env ws d =
     bind_e (read_s (\<lambda>s. (get_workspace s ws, installation_by_github_id s (id_github_installation_id d)))) (\<lambda>(w, existing).
       if w = None then raise_e (raise_platform NotFoundError (S ''Workspace not found'') None)
       else case existing of
         Some i \<Rightarrow>
           if inst_workspace_id i \<noteq> ws then raise_e (installation_conflict i ws)
           else bind_e (write_s (put_installation (rebind_installation d i))) (\<lambda>_. ret (inst_id i))
       | None \<Rightarrow>
           insert_installation env ws d (\<lambda>raced. case raced of
             Some i \<Rightarrow> if inst_workspace_id i = ws then ret (inst_id i) else raise_e (installation_conflict i ws)
           | None \<Rightarrow> raise_e already_registered))"

definition get_github_installation :: "session \<Rightarrow> uuid \<Rightarrow> uuid \<Rightarrow> exn + installation" where
  "get_github_installation s ws k =
     (case List.find (\<lambda>i. inst_id i = k \<and> inst_workspace_id i = ws) (ss_installations s) of
        None \<Rightarrow> Inl (raise_platform NotFoundError (S ''GitHub installation not found'') None)
      | Some i \<Rightarrow> Inr i)"

end
