(* ===== verification/Github_Tasks.thy ===== *)
theory Github_Tasks
  imports Messages Repositories Indexing Resolution_Metrics
begin

section \<open>The tasks behind the webhooks (\<open>workers/github_tasks.py\<close>)\<close>

text \<open>
  \<open>process_github_event\<close> applies a delivery in one transaction, and after the commit sends what follows: an index
  job, or, for a push, the task that first pairs the earlier findings with the new revision
  (\<open>apply_resolution_for_synchronize\<close>) and then sends the index job or starts the pipeline after
  a delay.  Instants are microseconds; the retries of Celery run the task again, with the number that
  is left.  Logging and the identifiers of Celery tasks are left out.
\<close>

record event_env =
  te_hook :: hook_env
  te_settings :: review_settings
  te_coalesce_seconds :: int
  te_schedule_at :: pystr
  te_broker :: broker

abbreviation te_pub :: "event_env \<Rightarrow> pub_env" where
  "te_pub env \<equiv> he_pub (te_hook env)"

definition enqueue_index_job :: "event_env \<Rightarrow> uuid \<Rightarrow> (tasks, unit) eff" where
  "enqueue_index_job env k = send_e (te_broker env) (Msg_index k)"

definition maybe_enqueue_e :: "event_env \<Rightarrow> trigger_source \<Rightarrow> uuid \<Rightarrow> uuid \<Rightarrow> (pub, uuid option) eff" where
  "maybe_enqueue_e env trigger ws rv =
     call_e (\<lambda>s. maybe_enqueue_pipeline_for_revision (pe_check (te_pub env)) (te_settings env) s ws rv trigger)"

subsection \<open>Coalesced starts\<close>

definition schedule_coalesced_autostart :: "event_env \<Rightarrow> uuid \<Rightarrow> uuid \<Rightarrow> pystr \<Rightarrow> (tasks, unit) eff" where
  "schedule_coalesced_autostart env rv ws schedule_at =
     (case he_fromisoformat (te_hook env) schedule_at of
        None \<Rightarrow> raise_e (Value_error (S ''Invalid isoformat string''))
      | Some deadline \<Rightarrow>
          send_e (te_broker env) (Msg_autostart rv ws (max 0 ((deadline - he_now_instant (te_hook env)) div 1000000))))"

definition schedule_autostart_pipeline_for_revision :: "event_env \<Rightarrow> uuid \<Rightarrow> uuid \<Rightarrow> (tasks, unit) eff" where
  "schedule_autostart_pipeline_for_revision env rv ws =
     bind_e (db (in_context (bind_e (refresh_e (te_pub env)) (\<lambda>_.
       bind_e (read_s (\<lambda>s. is_authoritative_for_pull_request_head s rv)) (\<lambda>authoritative.
         if authoritative then maybe_enqueue_e env Trig_autostart ws rv else ret None))))) (\<lambda>k.
       case k of None \<Rightarrow> ret () | Some k \<Rightarrow> enqueue_index_job env k)"

definition head_revision_id_for_pull_request :: "session \<Rightarrow> uuid \<Rightarrow> uuid option" where
  "head_revision_id_for_pull_request s pr =
     (case get_pull_request s pr of
        None \<Rightarrow> None
      | Some p \<Rightarrow> map_option rev_id (get_revision_for_head_sha s pr (pr_head_sha p)))"

text \<open>The revision of the head, when the one the task was sent for no longer is.\<close>

definition newer_head :: "session \<Rightarrow> uuid \<Rightarrow> uuid option" where
  "newer_head s stale =
     (case get_revision s stale of
        None \<Rightarrow> None
      | Some v \<Rightarrow>
          (case head_revision_id_for_pull_request s (rev_pull_request_id v) of
             None \<Rightarrow> None
           | Some h \<Rightarrow>
               if h = rev_id v \<or> \<not> is_authoritative_for_pull_request_head s h then None else Some h))"

definition handoff_stale_coalesce_resolution_task :: "event_env \<Rightarrow> uuid \<Rightarrow> uuid \<times> pystr \<Rightarrow> (tasks, unit) eff" where
  "handoff_stale_coalesce_resolution_task env stale co =
     bind_e (db (in_context (bind_e (refresh_e (te_pub env)) (\<lambda>_. read_s (\<lambda>s. newer_head s stale))))) (\<lambda>h.
       case h of
         None \<Rightarrow> ret ()
       | Some h \<Rightarrow> send_e (te_broker env) (Msg_resolution h None (Some co) True))"

subsection \<open>Pairing the resolutions of a push\<close>

definition RESOLUTION_CLEANUP_CHECK_SUMMARIES :: "(pystr \<times> pystr) list" where
  "RESOLUTION_CLEANUP_CHECK_SUMMARIES =
     [(S ''resolution_pairing_failed'', S ''Resolution pairing failed''),
      (S ''resolution_synchronize_skipped'', S ''Resolution skipped (stale revision)''),
      (S ''resolution_post_outcome_failed'', S ''Resolution follow-up failed'')]"

definition cleanup_summary :: "pystr \<Rightarrow> pystr" where
  "cleanup_summary m = opt_or (map_of RESOLUTION_CLEANUP_CHECK_SUMMARIES m) (S ''Resolution pairing failed'')"

definition cleanup_pending_index_job_after_resolution_failure :: "event_env \<Rightarrow> uuid \<Rightarrow> pystr \<Rightarrow> (pub, unit) eff" where
  "cleanup_pending_index_job_after_resolution_failure env k message =
     in_context (bind_e (refresh_e (te_pub env)) (\<lambda>_.
       bind_e (call_e (\<lambda>s. case fail_pending_index_job_for_resolution_error s k message of (s, b) \<Rightarrow> (s, Inr b))) (\<lambda>failed.
         if \<not> failed then ret ()
         else call_e (\<lambda>s. finalize_pipeline_github_check_for_index_job (pe_check (te_pub env)) s k (cleanup_summary message)))))"

datatype resolution_outcome = Applied | Skipped_stale | Skipped_permanent

text \<open>The arguments the task keeps over its retries.\<close>

record resolution_task =
  rt_revision_id :: uuid
  rt_index_job_id :: "uuid option"
  rt_coalesce :: "(uuid \<times> pystr) option"

definition resolution_run :: "event_env \<Rightarrow> uuid \<Rightarrow> bool \<Rightarrow> (pub, resolution_outcome) eff" where
  "resolution_run env rv pair =
     in_context (bind_e (refresh_e (te_pub env)) (\<lambda>_.
     bind_e (read_s (\<lambda>s. (is_authoritative_for_pull_request_head s rv, get_revision s rv))) (\<lambda>(authoritative, v).
       if \<not> authoritative then ret Skipped_stale
       else case v of
         None \<Rightarrow> ret Skipped_permanent
       | Some v \<Rightarrow>
           bind_e (read_s (\<lambda>s. get_pull_request s (rev_pull_request_id v))) (\<lambda>pr.
             case pr of
               None \<Rightarrow> ret Skipped_permanent
             | Some pr \<Rightarrow>
                 bind_e (if pair then call_e (\<lambda>s.
                     case apply_resolution_status_for_synchronize (pe_gh (te_pub env)) s pr v of
                       Inl e \<Rightarrow> (s, Inl e) | Inr (s, n) \<Rightarrow> (s, Inr ()))
                   else ret ()) (\<lambda>_. ret Applied)))))"

definition coalesced :: "event_env \<Rightarrow> resolution_task \<Rightarrow> (tasks, unit) eff" where
  "coalesced env t =
     (case rt_coalesce t of
        None \<Rightarrow> ret ()
      | Some (ws, schedule_at) \<Rightarrow> schedule_coalesced_autostart env (rt_revision_id t) ws schedule_at)"

definition clean_up :: "event_env \<Rightarrow> resolution_task \<Rightarrow> pystr \<Rightarrow> (tasks, unit) eff" where
  "clean_up env t message =
     (case rt_index_job_id t of
        None \<Rightarrow> ret ()
      | Some k \<Rightarrow> logged_e (db (cleanup_pending_index_job_after_resolution_failure env k message)))"

definition run_post_outcome :: "event_env \<Rightarrow> resolution_task \<Rightarrow> resolution_outcome \<Rightarrow> (tasks, unit) eff" where
  "run_post_outcome env t out =
     bind_e (if out = Applied then
               (case rt_index_job_id t of Some k \<Rightarrow> enqueue_index_job env k | None \<Rightarrow> coalesced env t)
             else ret ()) (\<lambda>_.
     bind_e (case rt_coalesce t of
               Some co \<Rightarrow> if out = Skipped_stale then handoff_stale_coalesce_resolution_task env (rt_revision_id t) co else ret ()
             | None \<Rightarrow> ret ()) (\<lambda>_.
     bind_e (if out \<noteq> Applied then clean_up env t (S ''resolution_synchronize_skipped'') else ret ()) (\<lambda>_.
       if out = Skipped_permanent then coalesced env t else ret ())))"

definition resolution_failed :: "event_env \<Rightarrow> resolution_task \<Rightarrow> exn \<Rightarrow> (tasks, unit) eff" where
  "resolution_failed env t e =
     bind_e (clean_up env t (S ''resolution_pairing_failed'')) (\<lambda>_.
     bind_e (coalesced env t) (\<lambda>_. raise_e e))"

definition post_outcome_failed :: "event_env \<Rightarrow> resolution_task \<Rightarrow> resolution_outcome \<Rightarrow> exn \<Rightarrow> (tasks, unit) eff" where
  "post_outcome_failed env t out e =
     bind_e (clean_up env t (S ''resolution_post_outcome_failed'')) (\<lambda>_.
     bind_e (if out \<noteq> Skipped_stale then coalesced env t else ret ()) (\<lambda>_. raise_e e))"

text \<open>One attempt, with what follows when the pairing or what comes after it raised.\<close>

definition resolution_attempt ::
  "event_env \<Rightarrow> resolution_task \<Rightarrow> bool \<Rightarrow> (exn \<Rightarrow> (tasks, unit) eff) \<Rightarrow>
    (resolution_outcome \<Rightarrow> exn \<Rightarrow> (tasks, unit) eff) \<Rightarrow> (tasks, unit) eff" where
  "resolution_attempt env t pair run_failed post_failed =
     bind_e (attempt_e (db (resolution_run env (rt_revision_id t) pair))) (\<lambda>r.
       case r of
         Inl e \<Rightarrow> run_failed e
       | Inr out \<Rightarrow>
           bind_e (attempt_e (run_post_outcome env t out)) (\<lambda>q.
             case q of Inr _ \<Rightarrow> ret () | Inl e \<Rightarrow> post_failed out e))"

fun resolution_attempts :: "event_env \<Rightarrow> resolution_task \<Rightarrow> bool \<Rightarrow> nat \<Rightarrow> (tasks, unit) eff" where
  "resolution_attempts env t pair 0 =
     resolution_attempt env t pair (resolution_failed env t) (post_outcome_failed env t)"
| "resolution_attempts env t pair (Suc n) =
     resolution_attempt env t pair (\<lambda>e. resolution_attempts env t pair n) (\<lambda>out e. resolution_attempts env t False n)"

definition apply_resolution_for_synchronize :: "event_env \<Rightarrow> resolution_task \<Rightarrow> bool \<Rightarrow> (tasks, unit) eff" where
  "apply_resolution_for_synchronize env t pair = resolution_attempts env t pair 3"

subsection \<open>Processing a delivery\<close>

text \<open>What is to be sent after the commit.\<close>

record follow_ups =
  fu_index_jobs :: "uuid list"
  fu_resolutions :: "(resolution_task \<times> bool) list"

definition no_follow_ups :: follow_ups where
  "no_follow_ups = \<lparr>fu_index_jobs = [], fu_resolutions = []\<rparr>"

definition index_follow_up :: "uuid option \<Rightarrow> follow_ups" where
  "index_follow_up k = no_follow_ups\<lparr>fu_index_jobs := (case k of None \<Rightarrow> [] | Some k \<Rightarrow> [k])\<rparr>"

definition resolution_follow_up :: "pull_request_result \<Rightarrow> uuid option \<Rightarrow> (uuid \<times> pystr) option \<Rightarrow> follow_ups" where
  "resolution_follow_up w k co = no_follow_ups\<lparr>fu_resolutions :=
     [(\<lparr>rt_revision_id = pw_revision_id w, rt_index_job_id = k, rt_coalesce = co\<rparr>, pw_new_revision w)]\<rparr>"

definition installation_event :: "(pystr \<times> json) list \<Rightarrow> (pub, follow_ups) eff" where
  "installation_event payload =
     (case (Option.bind (payload_dict (json_get (S ''installation'') payload)) (\<lambda>i. payload_int (json_get (S ''id'') i)),
            payload_str (json_get (S ''action'') payload)) of
        (Some i, Some action) \<Rightarrow>
          bind_e (write_s (apply_installation_webhook_event i action)) (\<lambda>_. ret no_follow_ups)
      | _ \<Rightarrow> ret no_follow_ups)"

definition pull_request_event :: "event_env \<Rightarrow> (pystr \<times> json) list \<Rightarrow> (pub, follow_ups) eff" where
  "pull_request_event env payload =
     bind_e (apply_pull_request_webhook_event (te_hook env) payload) (\<lambda>result.
       case result of
         None \<Rightarrow> ret no_follow_ups
       | Some w \<Rightarrow>
           if pw_action w \<notin> {S ''opened'', S ''synchronize''} \<or> \<not> (pw_new_revision w \<or> pw_pipeline_retrigger w)
             then ret no_follow_ups
           else if pw_action w = S ''synchronize'' then
             (if 0 < te_coalesce_seconds env then
                ret (resolution_follow_up w None (Some (pw_workspace_id w, te_schedule_at env)))
              else
                bind_e (maybe_enqueue_e env Trig_autostart (pw_workspace_id w) (pw_revision_id w)) (\<lambda>k.
                  ret (resolution_follow_up w k None)))
           else
             bind_e (maybe_enqueue_e env Trig_autostart (pw_workspace_id w) (pw_revision_id w)) (\<lambda>k.
               ret (index_follow_up k)))"

definition issue_comment_event :: "event_env \<Rightarrow> (pystr \<times> json) list \<Rightarrow> (pub, follow_ups) eff" where
  "issue_comment_event env payload =
     bind_e (apply_issue_comment_webhook_event (te_hook env) payload) (\<lambda>intent.
       case intent of
         None \<Rightarrow> ret no_follow_ups
       | Some i \<Rightarrow>
           bind_e (call_e (\<lambda>s. supersede_active_generations_for_revision (pe_check (te_pub env)) (he_now (te_hook env)) s
               (ci_revision_id i))) (\<lambda>_.
           bind_e (maybe_enqueue_e env Trig_command (ci_workspace_id i) (ci_revision_id i)) (\<lambda>k.
             ret (index_follow_up k))))"

definition apply_delivery :: "event_env \<Rightarrow> webhook_delivery \<Rightarrow> (pub, follow_ups) eff" where
  "apply_delivery env d =
     (let payload = wd_payload d; event_type = wd_event_type d in
      if event_type = S ''installation'' then installation_event payload
      else if event_type = S ''pull_request'' then pull_request_event env payload
      else if event_type = S ''issue_comment'' then issue_comment_event env payload
      else if event_type = S ''pull_request_review'' then
        bind_e (apply_pull_request_review_webhook_event (te_hook env) payload) (\<lambda>_. ret no_follow_ups)
      else if event_type = S ''installation_repositories'' then
        bind_e (apply_installation_repositories_webhook_event (te_pub env) payload) (\<lambda>_. ret no_follow_ups)
      else ret no_follow_ups)"

definition get_delivery :: "session \<Rightarrow> pystr \<Rightarrow> webhook_delivery option" where
  "get_delivery s d = tbl_get wd_delivery_id d (ss_deliveries s)"

definition event_attempt :: "event_env \<Rightarrow> pystr \<Rightarrow> (pub, follow_ups) eff" where
  "event_attempt env delivery_id =
     in_context (bind_e (refresh_e (te_pub env)) (\<lambda>_.
     bind_e (read_s (\<lambda>s. get_delivery s delivery_id)) (\<lambda>d.
       case d of
         None \<Rightarrow> raise_e (Runtime_error (S ''github_delivery_not_found''))
       | Some d \<Rightarrow> apply_delivery env d)))"

fun event_attempts :: "event_env \<Rightarrow> pystr \<Rightarrow> nat \<Rightarrow> (pub, follow_ups) eff" where
  "event_attempts env delivery_id 0 = event_attempt env delivery_id"
| "event_attempts env delivery_id (Suc n) =
     catch_e (event_attempt env delivery_id) (\<lambda>e. event_attempts env delivery_id n)"

definition send_follow_ups :: "event_env \<Rightarrow> follow_ups \<Rightarrow> (tasks, unit) eff" where
  "send_follow_ups env fu =
     bind_e (each_e (\<lambda>(t, pair). send_e (te_broker env)
         (Msg_resolution (rt_revision_id t) (rt_index_job_id t) (rt_coalesce t) pair)) (fu_resolutions fu)) (\<lambda>_.
       each_e (enqueue_index_job env)
         (filter (\<lambda>k. Some k \<notin> set (map (\<lambda>(t, pair). rt_index_job_id t) (fu_resolutions fu))) (fu_index_jobs fu)))"

definition process_github_event :: "event_env \<Rightarrow> pystr \<Rightarrow> (tasks, unit) eff" where
  "process_github_event env delivery_id =
     bind_e (db (event_attempts env delivery_id 3)) (send_follow_ups env)"

end
