(* ===== verification/Github_Task_Laws.thy ===== *)
theory Github_Task_Laws
  imports Github_Tasks Index_Task_Laws Pull_Request_Laws
begin

section \<open>What the webhook tasks hand over\<close>

text \<open>
  An index job that a task creates reaches the index queue: the task that processes a delivery names every job it
  committed in a message, and the task that pairs resolutions sends the job on, or fails it.
\<close>

subsection \<open>Messages only grow\<close>

lemma returns_db [returns_rules]: "returns m \<Longrightarrow> returns (db m)"
  by (auto simp: returns_def db_def on_part_def split: option.split)

lemma returns_send [returns_rules]: "returns (send_e broker m)"
  by (simp add: returns_def send_e_def split: option.split)

lemma returns_attempt [returns_rules]: "returns m \<Longrightarrow> returns (attempt_e m)"
  unfolding attempt_e_def by (intro returns_rules)

lemma returns_logged [returns_rules]: "returns m \<Longrightarrow> returns (logged_e m)"
  unfolding logged_e_def by (intro returns_rules)

lemma returns_ret [returns_rules]: "returns (ret x)" "returns (raise_e e)"
  by (simp_all add: returns_def)

lemma returns_sum [returns_rules]:
  "(\<And>e. returns (f e)) \<Longrightarrow> (\<And>x. returns (g x)) \<Longrightarrow> returns (case r of Inl e \<Rightarrow> f e | Inr x \<Rightarrow> g x)"
  by (cases r) simp_all

text \<open>The operation leaves what was sent before.\<close>

definition appends :: "(tasks, 'a) eff \<Rightarrow> bool" where
  "appends m \<longleftrightarrow> (\<forall>t u r. m t = Some (u, r) \<longrightarrow> prefix (tk_sent t) (tk_sent u))"

named_theorems appends_rules

lemma appendsD: "appends m \<Longrightarrow> m t = Some (u, r) \<Longrightarrow> prefix (tk_sent t) (tk_sent u)"
  by (simp add: appends_def)

lemma appends_basic [appends_rules]: "appends (ret x)" "appends (raise_e e)" "appends (db m)" "appends (send_e broker msg)"
  by (auto simp: appends_def db_Some send_Some)

lemma appends_bind [appends_rules]: "appends m \<Longrightarrow> (\<And>x. appends (f x)) \<Longrightarrow> appends (bind_e m f)"
  by (fastforce simp: appends_def bind_Some intro: prefix_order.trans)

lemma appends_attempt [appends_rules]: "appends m \<Longrightarrow> appends (attempt_e m)"
  by (auto simp: appends_def attempt_Some)

lemma appends_logged [appends_rules]: "appends m \<Longrightarrow> appends (logged_e m)"
  by (auto simp: appends_def logged_Some)

lemma appends_cases [appends_rules]:
  "appends m \<Longrightarrow> appends n \<Longrightarrow> appends (if b then m else n)"
  "appends m \<Longrightarrow> (\<And>y. appends (f y)) \<Longrightarrow> appends (case x of None \<Rightarrow> m | Some y \<Rightarrow> f y)"
  "(\<And>a b. appends (g a b)) \<Longrightarrow> appends (case y of (a, b) \<Rightarrow> g a b)"
  "(\<And>e. appends (h e)) \<Longrightarrow> (\<And>z. appends (i z)) \<Longrightarrow> appends (case r of Inl e \<Rightarrow> h e | Inr z \<Rightarrow> i z)"
  by (simp_all split: option.split prod.split sum.split)

definition new_messages :: "tasks \<Rightarrow> tasks \<Rightarrow> message set" where
  "new_messages t u = set (drop (length (tk_sent t)) (tk_sent u))"

lemma new_messages_later: "prefix (tk_sent t) (tk_sent v) \<Longrightarrow> prefix (tk_sent v) (tk_sent u) \<Longrightarrow> new_messages v u \<subseteq> new_messages t u"
  by (auto simp: new_messages_def prefix_def)

lemma new_messages_earlier: "prefix (tk_sent t) (tk_sent v) \<Longrightarrow> prefix (tk_sent v) (tk_sent u) \<Longrightarrow> new_messages t v \<subseteq> new_messages t u"
  by (auto simp: new_messages_def prefix_def)

subsection \<open>The index job behind a push\<close>

definition clean_up_raises :: "event_env \<Rightarrow> uuid \<Rightarrow> pub \<Rightarrow> bool" where
  "clean_up_raises env k q \<longleftrightarrow>
     (\<exists>s s' m e. handler_read (te_pub env) q s \<and>
        finalize_pipeline_github_check_for_index_job (pe_check (te_pub env))
          (fst (fail_pending_index_job_for_resolution_error s k m)) k (cleanup_summary m) = (s', Inl e))"

definition cleaned :: "event_env \<Rightarrow> uuid \<Rightarrow> pub \<Rightarrow> bool" where
  "cleaned env k q \<longleftrightarrow> not_pending k (pb_committed q) \<or> clean_up_raises env k q"

lemma fail_pending_not_pending: "not_pending k (fst (fail_pending_index_job_for_resolution_error s k m))"
proof (cases "get_index_job s k")
  case (Some j)
  then have "ij_id j = k" unfolding get_index_job_def by (rule jobs.get_rid)
  then show ?thesis
    using put_not_pending [of "job_failed m j" k s] Some
    by (simp add: fail_pending_index_job_for_resolution_error_def not_pending_def job_failed_def)
qed (simp add: fail_pending_index_job_for_resolution_error_def not_pending_def)

lemma clean_up_cleans:
  assumes "cleanup_pending_index_job_after_resolution_failure env k m p = Some (q, r)" and "rolled_back p"
  shows "cleaned env k q"
proof -
  let ?s = "pe_others (te_pub env) (pb_readings p) (pb_s p)"
  obtain s1 b where f: "fail_pending_index_job_for_resolution_error ?s k m = (s1, b)" by fastforce
  obtain s2 x where g: "finalize_pipeline_github_check_for_index_job (pe_check (te_pub env)) s1 k (cleanup_summary m) = (s2, x)"
    by fastforce
  have n: "not_pending k s1" using fail_pending_not_pending [of k ?s m] f by simp
  have c: "pb_committed q = s1 \<or> pb_committed q = s2 \<and> x = Inr () \<or> pb_committed q = pb_committed p \<and> (\<exists>e. x = Inl e)"
    using assms(1) f g
    by (cases b; cases x) (auto simp: cleanup_pending_index_job_after_resolution_failure_def in_context_def refresh_e_def bind_e_def
        upd_e_def call_e_def on_session_def on_part_def total_e_def roll_back_e_def)
  consider "not_pending k (pb_committed q)" | e where "pb_committed q = pb_committed p" "x = Inl e"
    using c n not_pending_cong [OF finalize_job_jobs [OF g]] by auto
  then show ?thesis
  proof cases
    case (2 e)
    then have "handler_read (te_pub env) q ?s" using handler_readI [OF assms(2)] by simp
    with g 2 f show ?thesis unfolding cleaned_def clean_up_raises_def by (metis fst_conv)
  qed (simp add: cleaned_def)
qed

lemma clean_up_step:
  assumes "clean_up env t m T = Some (u, r)" and "rt_index_job_id t = Some k" and "rolled_back (tk_pub T)"
  shows "r = Inr () \<and> cleaned env k (tk_pub u)"
  using assms by (auto simp: clean_up_def logged_Some db_Some dest: clean_up_cleans)

text \<open>What is sent on a schedule leaves the database alone.\<close>

lemma coalesced_pub: "coalesced env t T = Some (u, r) \<Longrightarrow> tk_pub u = tk_pub T"
  by (auto simp: coalesced_def schedule_coalesced_autostart_def send_Some split: option.splits)

lemma handoff_rolled:
  assumes "handoff_stale_coalesce_resolution_task env rv co T = Some (u, r)"
  shows "rolled_back (tk_pub u)"
proof -
  obtain p x where "in_context (bind_e (refresh_e (te_pub env)) (\<lambda>_. read_s (\<lambda>s. newer_head s rv))) (tk_pub T) = Some (p, x)"
    and u: "tk_pub u = p"
    using assms by (auto simp: handoff_stale_coalesce_resolution_task_def bind_Some db_Some send_Some split: option.splits)
  from context_rolls_back [OF this(1)] u show ?thesis by simp
qed

text \<open>The job was sent, or cleaned up.\<close>

definition handed_over :: "event_env \<Rightarrow> uuid \<Rightarrow> tasks \<Rightarrow> tasks \<Rightarrow> bool" where
  "handed_over env k t u \<longleftrightarrow> Msg_index k \<in> new_messages t u \<or> cleaned env k (tk_pub u)"

lemma appends_post: "appends (run_post_outcome env t out)" "appends (coalesced env t)" "appends (clean_up env t m)"
proof -
  show c: "appends (coalesced env t)" "appends (clean_up env t m)" for m
    unfolding coalesced_def schedule_coalesced_autostart_def clean_up_def by (intro appends_rules)+
  show "appends (run_post_outcome env t out)"
    unfolding run_post_outcome_def enqueue_index_job_def handoff_stale_coalesce_resolution_task_def
    by (intro appends_rules c)
qed

lemma post_outcome_hands_over:
  assumes "run_post_outcome env t out T = Some (u, Inr x)" and k: "rt_index_job_id t = Some k" and "rolled_back (tk_pub T)"
  shows "handed_over env k T u"
proof (cases "out = Applied")
  case True
  have "Msg_index k \<in> new_messages T u"
    using assms True
    by (auto simp: run_post_outcome_def bind_Some enqueue_index_job_def send_Some new_messages_def split: option.splits)
  then show ?thesis by (simp add: handed_over_def)
next
  case False
  obtain T1 T2 where 1: "(case rt_coalesce t of
        Some co \<Rightarrow> if out = Skipped_stale then handoff_stale_coalesce_resolution_task env (rt_revision_id t) co else ret ()
      | None \<Rightarrow> ret ()) T = Some (T1, Inr ())"
    and 2: "clean_up env t (S ''resolution_synchronize_skipped'') T1 = Some (T2, Inr ())"
    and 3: "(if out = Skipped_permanent then coalesced env t else ret ()) T2 = Some (u, Inr x)"
    using assms(1) False by (auto simp: run_post_outcome_def bind_Some)
  have "rolled_back (tk_pub T1)"
    using 1 assms(3) by (auto split: option.splits if_splits dest: handoff_rolled)
  from clean_up_step [OF 2 k this] have "cleaned env k (tk_pub T2)" by simp
  moreover have "tk_pub u = tk_pub T2" using 3 by (auto split: if_splits dest: coalesced_pub)
  ultimately show ?thesis by (simp add: handed_over_def)
qed

lemma rolled_after_post:
  assumes "run_post_outcome env t out T = Some (u, r)" and "rolled_back (tk_pub T)"
  shows "rolled_back (tk_pub u)"
proof -
  have [simp]: "tk_pub v = tk_pub T" if "coalesced env t T = Some (v, r')" for T v r' using that by (rule coalesced_pub)
  have c: "rolled_back (tk_pub v)" if "clean_up env t m T = Some (v, r')" "rolled_back (tk_pub T)" for m T v r'
    using that by (auto simp: clean_up_def logged_Some db_Some cleanup_pending_index_job_after_resolution_failure_def
        split: option.splits dest: context_rolls_back)
  have e: "rolled_back (tk_pub v)" if "enqueue_index_job env k T = Some (v, r')" "rolled_back (tk_pub T)" for k T v r'
    using that by (auto simp: enqueue_index_job_def send_Some)
  show ?thesis
    using assms
    by (auto simp: run_post_outcome_def bind_Some split: option.splits if_splits dest: c e handoff_rolled coalesced_pub)
qed

lemma attempt_hands_over:
  assumes "resolution_attempt env t pair run_failed post_failed T = Some (u, r)" and k: "rt_index_job_id t = Some k"
    and run: "\<And>e T u r. run_failed e T = Some (u, r) \<Longrightarrow> rolled_back (tk_pub T) \<Longrightarrow> handed_over env k T u"
    and post: "\<And>out e T u r. post_failed out e T = Some (u, r) \<Longrightarrow> rolled_back (tk_pub T) \<Longrightarrow> handed_over env k T u"
    and app: "\<And>e. appends (run_failed e)" "\<And>out e. appends (post_failed out e)"
  shows "handed_over env k T u"
proof -
  obtain p x where p: "resolution_run env (rt_revision_id t) pair (tk_pub T) = Some (p, x)"
    and rest: "(case x of Inl e \<Rightarrow> run_failed e
      | Inr out \<Rightarrow> bind_e (attempt_e (run_post_outcome env t out)) (\<lambda>q.
          case q of Inr _ \<Rightarrow> ret () | Inl e \<Rightarrow> post_failed out e)) (T\<lparr>tk_pub := p\<rparr>) = Some (u, r)"
    using assms(1) by (auto simp: resolution_attempt_def bind_Some attempt_Some db_Some)
  have rolled: "rolled_back (tk_pub (T\<lparr>tk_pub := p\<rparr>))"
    using p unfolding resolution_run_def by (simp add: context_rolls_back)
  have same: "handed_over env k (T\<lparr>tk_pub := p\<rparr>) v = handed_over env k T v" for v
    by (simp add: handed_over_def new_messages_def)
  show ?thesis
  proof (cases x)
    case (Inl e)
    with rest have "run_failed e (T\<lparr>tk_pub := p\<rparr>) = Some (u, r)" by simp
    from run [OF this rolled] same show ?thesis by blast
  next
    case (Inr out)
    with rest obtain v y where v: "run_post_outcome env t out (T\<lparr>tk_pub := p\<rparr>) = Some (v, y)"
      and after: "(case y of Inl e \<Rightarrow> post_failed out e | Inr z \<Rightarrow> ret z) v = Some (u, r)"
      by (auto simp: bind_Some attempt_Some)
    show ?thesis
    proof (cases y)
      case (Inr z)
      with v after post_outcome_hands_over [OF _ k rolled] same show ?thesis by auto
    next
      case (Inl e)
      with after post rolled_after_post [OF v rolled] have h: "handed_over env k v u" by auto
      have "prefix (tk_sent (T\<lparr>tk_pub := p\<rparr>)) (tk_sent v)" "prefix (tk_sent v) (tk_sent u)"
        using appendsD [OF appends_post(1) v] appendsD [OF app(2)] after Inl by auto
      from new_messages_later [OF this] h same show ?thesis by (auto simp: handed_over_def)
    qed
  qed
qed

lemma appends_attempts: "appends (resolution_attempts env t pair n)"
proof (induction n arbitrary: pair)
  case 0
  show ?case
    unfolding resolution_attempts.simps resolution_attempt_def resolution_failed_def post_outcome_failed_def
    by (intro appends_rules appends_post)
next
  case (Suc n)
  show ?case
    unfolding resolution_attempts.simps resolution_attempt_def by (intro appends_rules appends_post Suc)
qed

lemma last_attempt_hands_over:
  assumes "rt_index_job_id t = Some k" and "rolled_back (tk_pub T)"
  shows "resolution_failed env t e T = Some (u, r) \<Longrightarrow> handed_over env k T u"
    "post_outcome_failed env t out e T = Some (u, r) \<Longrightarrow> handed_over env k T u"
proof -
  have "handed_over env k T u"
    if tail: "bind_e (clean_up env t m) (\<lambda>_. bind_e (if b then coalesced env t else ret ()) (\<lambda>_. raise_e e :: (tasks, unit) eff)) T = Some (u, r)"
    for m b
  proof -
    obtain V y where V: "clean_up env t m T = Some (V, y)"
      using tail by (auto simp: bind_Some [of "clean_up env t m"])
    have rest: "bind_e (if b then coalesced env t else ret ()) (\<lambda>_. raise_e e :: (tasks, unit) eff) V = Some (u, r)"
      if "y = Inr ()"
      using tail V that by (simp add: bind_e_def [of "clean_up env t m"])
    note y = clean_up_step [OF V assms]
    with rest have "tk_pub u = tk_pub V" by (cases b) (auto simp: bind_Some dest: coalesced_pub)
    with y show ?thesis by (simp add: handed_over_def)
  qed
  note h = this
  show "resolution_failed env t e T = Some (u, r) \<Longrightarrow> handed_over env k T u"
    using h [of _ True] unfolding resolution_failed_def by simp
  show "post_outcome_failed env t out e T = Some (u, r) \<Longrightarrow> handed_over env k T u"
    using h unfolding post_outcome_failed_def .
qed

lemma attempts_hand_over:
  assumes "rt_index_job_id t = Some k"
  shows "resolution_attempts env t pair n T = Some (u, r) \<Longrightarrow> handed_over env k T u"
proof (induction n arbitrary: pair T u r)
  case 0
  show ?case
  proof (rule attempt_hands_over [OF _ assms])
    show "resolution_attempt env t pair (resolution_failed env t) (post_outcome_failed env t) T = Some (u, r)" using 0 by simp
    show "appends (resolution_failed env t e)" "appends (post_outcome_failed env t out e)" for out e
      unfolding resolution_failed_def post_outcome_failed_def by (intro appends_rules appends_post)+
  qed (rule last_attempt_hands_over [OF assms], assumption+)+
next
  case (Suc n)
  show ?case
  proof (rule attempt_hands_over [OF _ assms])
    show "resolution_attempt env t pair (\<lambda>e. resolution_attempts env t pair n) (\<lambda>out e. resolution_attempts env t False n) T =
      Some (u, r)" using Suc.prems by simp
  qed (rule Suc.IH appends_attempts, assumption?)+
qed

lemma resolution_returns: "returns (resolution_attempts env t pair n)"
proof -
  have c: "returns (coalesced env t)" "returns (clean_up env t m)" for m
    unfolding coalesced_def schedule_coalesced_autostart_def clean_up_def cleanup_pending_index_job_after_resolution_failure_def
    by (intro returns_rules)+
  have run: "returns (resolution_run env rv pair)" for rv pair
    unfolding resolution_run_def by (intro returns_rules)
  have post: "returns (run_post_outcome env t out)" for out
    unfolding run_post_outcome_def enqueue_index_job_def handoff_stale_coalesce_resolution_task_def
    by (intro returns_rules c)
  show ?thesis
  proof (induction n arbitrary: pair)
    case 0
    show ?case
      unfolding resolution_attempts.simps resolution_attempt_def resolution_failed_def post_outcome_failed_def
      by (intro returns_rules c run post)
  next
    case (Suc n)
    show ?case
      unfolding resolution_attempts.simps resolution_attempt_def by (intro returns_rules c run post Suc)
  qed
qed

text \<open>C12. The task behind a push always ends and never loses the index job it was given: either it sends the job to the
  index queue, or the job is no longer pending in what is committed at the end, whatever the comparison, the broker, GitHub
  and other transactions did, over all retries; the only way out is an exception from concluding the check run
  of the job, on the rows as they are committed, which the task logs.\<close>

theorem push_never_loses_index_job:
  "\<exists>u r. apply_resolution_for_synchronize env \<lparr>rt_revision_id = rv, rt_index_job_id = Some k, rt_coalesce = co\<rparr> pair t = Some (u, r) \<and>
     prefix (tk_sent t) (tk_sent u) \<and>
     (Msg_index k \<in> set (drop (length (tk_sent t)) (tk_sent u)) \<or> not_pending k (pb_committed (tk_pub u)) \<or>
      clean_up_raises env k (tk_pub u))"
proof -
  let ?t = "\<lparr>rt_revision_id = rv, rt_index_job_id = Some k, rt_coalesce = co\<rparr>"
  obtain u r where run: "resolution_attempts env ?t pair 3 t = Some (u, r)"
    using resolution_returns unfolding returns_def by (metis option.exhaust surj_pair)
  have "handed_over env k t u" by (rule attempts_hand_over [OF _ run]) simp
  moreover have "prefix (tk_sent t) (tk_sent u)" by (rule appendsD [OF appends_attempts run])
  ultimately show ?thesis
    using run by (auto simp: apply_resolution_for_synchronize_def handed_over_def cleaned_def new_messages_def)
qed

subsection \<open>The index jobs of a delivery\<close>

definition job_ids :: "session \<Rightarrow> uuid set" where
  "job_ids s = ij_id ` set (ss_index_jobs s)"

text \<open>The jobs of the session and those committed.\<close>

abbreviation ids_are :: "uuid set \<times> uuid set \<Rightarrow> pub \<Rightarrow> bool" where
  "ids_are J \<equiv> \<lambda>p. (job_ids (pb_s p), job_ids (pb_committed p)) = J"

abbreviation committed_are :: "uuid set \<times> uuid set \<Rightarrow> exn \<Rightarrow> pub \<Rightarrow> bool" where
  "committed_are J \<equiv> \<lambda>_ p. job_ids (pb_committed p) = snd J"

text \<open>The other transactions start no job.\<close>

definition others_start_none :: "pub_env \<Rightarrow> bool" where
  "others_start_none env \<longleftrightarrow> (\<forall>n s. job_ids (pe_others env n s) = job_ids s)"

lemma ids_call: "(\<And>s s' r. m s = (s', r) \<Longrightarrow> job_ids s' = job_ids s) \<Longrightarrow> keeps (ids_are J) (call_e m)"
  by (rule keeps_call_e) auto

lemma ids_write: "(\<And>s. job_ids (f s) = job_ids s) \<Longrightarrow> keeps (ids_are J) (write_s f)"
  by (rule keeps_write_s) auto

lemma ids_refresh: "others_start_none env \<Longrightarrow> keeps (ids_are J) (refresh_e env)"
  unfolding refresh_e_def by (rule keeps_upd) (simp add: others_start_none_def)

lemma ids_rows [simp]:
  "job_ids (tick s) = job_ids s" "job_ids (set_pull_request k f s) = job_ids s" "job_ids (add_revision v s) = job_ids s"
  "job_ids (store_review s k i l st t) = job_ids s" "job_ids (put_repository q s) = job_ids s"
  "job_ids (put_installation inst s) = job_ids s" "job_ids (s\<lparr>ss_repositories := R\<rparr>) = job_ids s"
  by (simp_all add: job_ids_def tick_def set_pull_request_def put_pull_request_def add_revision_def store_review_def
      put_repository_def put_installation_def split: option.split)

lemma ids_create: "create_pull_request s repo f = (s', r) \<Longrightarrow> job_ids s' = job_ids s"
proof -
  have "job_ids (s\<lparr>ss_pull_requests := P\<rparr>) = job_ids s" for P by (simp add: job_ids_def)
  then show "create_pull_request s repo f = (s', r) \<Longrightarrow> job_ids s' = job_ids s"
    by (auto simp: create_pull_request_def Let_def split: if_splits)
qed

lemma ids_insert: "insert_repository s inst f = (s', r) \<Longrightarrow> job_ids s' = job_ids s"
  by (auto simp: insert_repository_def Let_def split: if_splits)

lemma ids_mark_removed: "job_ids (foldl (\<lambda>s repo. mark_repository_removed inst repo s) s repos) = job_ids s"
  by (induction repos arbitrary: s) (simp_all add: mark_repository_removed_def split: option.split)

lemma ids_installation: "job_ids (apply_installation_webhook_event i action s) = job_ids s"
  by (simp add: apply_installation_webhook_event_def split: option.split)

lemma ids_marked:
  assumes "mark_index_job_ids_superseded_cas s ks = (s', ids)"
  shows "job_ids s' = job_ids s"
proof -
  have "map ij_id (tbl_map P supersede_job js) = map ij_id js" for P js by (simp add: tbl_map_def)
  then have "ij_id ` set (tbl_map P supersede_job js) = ij_id ` set js" for P js by (metis set_map)
  moreover obtain P where "s' = s\<lparr>ss_index_jobs := tbl_map P supersede_job (ss_index_jobs s)\<rparr>"
    using assms by (auto simp: mark_index_job_ids_superseded_cas_def Let_def)
  ultimately show ?thesis by (simp add: job_ids_def)
qed

lemma ids_runs_marked: "mark_review_run_ids_superseded_cas s ks = (s', ids) \<Longrightarrow> job_ids s' = job_ids s"
  by (drule cas_result) (simp add: job_ids_def)

lemma ids_concluded: "conclude_superseded env now s ids js = (s', r) \<Longrightarrow> job_ids s' = job_ids s"
  using conclude_neutral by (fastforce simp: neutral_only_def job_ids_def)

lemma ids_supersede_stale:
  "supersede_stale_generations_for_new_revision env now s pr keep = (s', r) \<Longrightarrow> job_ids s' = job_ids s"
  by (auto simp: supersede_stale_generations_for_new_revision_def mark_review_runs_superseded_for_pull_request_def
      mark_index_jobs_superseded_for_pull_request_def split: prod.splits
      dest!: ids_concluded ids_marked ids_runs_marked)

lemma ids_supersede_active:
  "supersede_active_generations_for_revision env now s k = (s', r) \<Longrightarrow> job_ids s' = job_ids s"
  by (auto simp: supersede_active_generations_for_revision_def mark_active_review_runs_superseded_for_revision_def
      mark_active_index_jobs_superseded_for_revision_def split: prod.splits option.splits
      dest!: ids_concluded ids_marked ids_runs_marked)

lemma ids_append: "others_start_none (he_pub env) \<Longrightarrow> keeps (ids_are J) (append_revision env pr head base)"
  unfolding append_revision_def dedupe_revision_def insert_revision_def with_pull_request_def Let_def
  by (intro keeps_rules ids_refresh ids_write) simp_all

lemma ids_upsert: "others_start_none (he_pub env) \<Longrightarrow> keeps (ids_are J) (upsert_pull_request env repo f create upd)"
  unfolding upsert_pull_request_def update_pull_request_def Let_def
  by (intro keeps_rules ids_refresh ids_write ids_call ids_append) (auto dest: ids_create)

lemma ids_supersede_for_push: "keeps (ids_are J) (supersede_for_push env pr rv before)"
  unfolding supersede_for_push_def with_pull_request_def Let_def
  by (intro keeps_rules ids_call) (auto dest: ids_supersede_stale ids_supersede_active)

lemma ids_events:
  assumes "others_start_none (he_pub env)"
  shows "keeps (ids_are J) (apply_pull_request_webhook_event env payload)"
    "keeps (ids_are J) (apply_pull_request_review_webhook_event env payload)"
    "keeps (ids_are J) (apply_issue_comment_webhook_event env payload)"
    "keeps (ids_are J) (apply_installation_repositories_webhook_event (he_pub env) payload)"
proof -
  show "keeps (ids_are J) (apply_pull_request_webhook_event env payload)"
    unfolding apply_pull_request_webhook_event_def opened_event_def synchronize_event_def state_event_def
    by (intro keeps_rules ids_upsert ids_supersede_for_push ids_write assms) simp_all
  show "keeps (ids_are J) (apply_pull_request_review_webhook_event env payload)"
    unfolding apply_pull_request_review_webhook_event_def prod.case
    by (intro keeps_rules ids_upsert ids_write assms) simp_all
  show "keeps (ids_are J) (apply_issue_comment_webhook_event env payload)"
    unfolding apply_issue_comment_webhook_event_def prod.case
    by (intro keeps_rules ids_append assms)
  show "keeps (ids_are J) (apply_installation_repositories_webhook_event (he_pub env) payload)"
    unfolding apply_installation_repositories_webhook_event_def upsert_repository_from_github_def
    by (intro keeps_rules ids_refresh ids_write ids_call assms) (simp_all add: ids_mark_removed ids_insert)
qed

text \<open>The jobs a delivery's follow-ups name.\<close>

definition follow_up_jobs :: "follow_ups \<Rightarrow> uuid set" where
  "follow_up_jobs fu = set (fu_index_jobs fu) \<union> {k. \<exists>t pair. (t, pair) \<in> set (fu_resolutions fu) \<and> rt_index_job_id t = Some k}"

definition waiting :: "session \<Rightarrow> uuid \<Rightarrow> bool" where
  "waiting s k \<longleftrightarrow> (\<exists>j\<in>set (ss_index_jobs s). ij_id j = k \<and> ij_status j = IJ_pending)"

lemma enqueue_jobs:
  assumes "maybe_enqueue_e env trigger ws rv p = Some (q, Inr k)"
  shows "job_ids (pb_s q) = job_ids (pb_s p) \<union> set_option k \<and> (\<forall>i\<in>set_option k. waiting (pb_s q) i)"
proof (cases k)
  case None
  then show ?thesis using assms by (auto simp: maybe_enqueue_e_def call_e_Some dest: pipeline_not_started)
next
  case (Some i)
  obtain s where s: "maybe_enqueue_pipeline_for_revision (pe_check (te_pub env)) (te_settings env) (pb_s p) ws rv trigger = (s, Inr (Some i))"
    and q: "pb_s q = s"
    using assms Some by (auto simp: maybe_enqueue_e_def call_e_Some)
  from pipeline_started [OF s] obtain j where "j = new_index_job (pb_s p) ws rv trigger Mode_diff True" "ij_id j = i"
    "ss_index_jobs s = ss_index_jobs (pb_s p) @ [j]" by metis
  then show ?thesis using Some q by (auto simp: job_ids_def waiting_def new_index_job_def)
qed

text \<open>What an event leaves: its follow-ups name the jobs it created, and those are pending.\<close>

definition creates :: "uuid set \<times> uuid set \<Rightarrow> follow_ups \<Rightarrow> pub \<Rightarrow> bool" where
  "creates J fu q \<longleftrightarrow> job_ids (pb_s q) = fst J \<union> follow_up_jobs fu \<and> (\<forall>k\<in>follow_up_jobs fu. waiting (pb_s q) k)"

lemma follow_up_jobs_simps [simp]:
  "follow_up_jobs no_follow_ups = {}" "follow_up_jobs (index_follow_up k) = set_option k"
  "follow_up_jobs (resolution_follow_up w k co) = set_option k"
  by (auto simp: follow_up_jobs_def no_follow_ups_def index_follow_up_def resolution_follow_up_def split: option.split)

lemma keeps_triple: "keeps (ids_are J) m \<Longrightarrow> triple (ids_are J) m (\<lambda>_. ids_are J) (committed_are J)"
  unfolding keeps_def by (erule triple_conseq) auto

lemma creates_ret: "follow_up_jobs fu = {} \<Longrightarrow> triple (ids_are J) (ret fu) (creates J) (committed_are J)"
  by (intro triple_ret) (auto simp: creates_def)

lemma creates_none: "keeps (ids_are J) m \<Longrightarrow> triple (ids_are J) (bind_e m (\<lambda>_. ret no_follow_ups)) (creates J) (committed_are J)"
  by (rule triple_bind [OF keeps_triple]) (simp_all add: creates_ret)

lemma creates_enqueue:
  assumes "\<And>k. follow_up_jobs (f k) = set_option k"
  shows "triple (ids_are J) (bind_e (maybe_enqueue_e env trigger ws rv) (\<lambda>k. ret (f k))) (creates J) (committed_are J)"
proof (rule tripleI)
  fix s t e assume "ids_are J s" "bind_e (maybe_enqueue_e env trigger ws rv) (\<lambda>k. ret (f k)) s = Some (t, Inl e)"
  then show "committed_are J e t" by (auto simp: bind_Some maybe_enqueue_e_def call_e_Some)
next
  fix s t fu assume s: "ids_are J s" and "bind_e (maybe_enqueue_e env trigger ws rv) (\<lambda>k. ret (f k)) s = Some (t, Inr fu)"
  then obtain k where m: "maybe_enqueue_e env trigger ws rv s = Some (t, Inr k)" and fu: "fu = f k" by (auto simp: bind_Some)
  from enqueue_jobs [OF m] s show "creates J fu t" by (auto simp: creates_def fu assms)
qed

lemma delivery_creates:
  assumes "others_start_none (te_pub env)"
  shows "triple (ids_are J) (apply_delivery env d) (creates J) (committed_are J)"
proof -
  note ev = ids_events [OF assms]
  have i: "triple (ids_are J) (installation_event payload) (creates J) (committed_are J)" for payload
    unfolding installation_event_def
    by (auto split: option.split intro!: creates_none creates_ret ids_write ids_installation)
  have p: "triple (ids_are J) (pull_request_event env payload) (creates J) (committed_are J)" for payload
    unfolding pull_request_event_def
    by (rule triple_bind [OF keeps_triple [OF ev(1)]])
      (auto split: option.split intro!: creates_enqueue creates_ret)
  have c: "triple (ids_are J) (issue_comment_event env payload) (creates J) (committed_are J)" for payload
    unfolding issue_comment_event_def
  proof (rule triple_bind [OF keeps_triple [OF ev(3)]])
    fix intent
    have s: "keeps (ids_are J) (call_e (\<lambda>s. supersede_active_generations_for_revision (pe_check (te_pub env)) (he_now (te_hook env)) s k))" for k
      by (rule ids_call) (rule ids_supersede_active)
    show "triple (ids_are J) (case intent of None \<Rightarrow> ret no_follow_ups | Some i \<Rightarrow>
        bind_e (call_e (\<lambda>s. supersede_active_generations_for_revision (pe_check (te_pub env)) (he_now (te_hook env)) s (ci_revision_id i)))
          (\<lambda>_. bind_e (maybe_enqueue_e env Trig_command (ci_workspace_id i) (ci_revision_id i)) (\<lambda>k. ret (index_follow_up k))))
      (creates J) (committed_are J)"
      by (cases intent) (auto intro!: creates_ret triple_bind [OF keeps_triple [OF s]] creates_enqueue)
  qed
  show ?thesis
    unfolding apply_delivery_def Let_def
    by (auto intro!: i p c creates_none creates_ret ev)
qed

lemma attempt_creates:
  assumes "others_start_none (te_pub env)" and "event_attempt env d p = Some (q, r)" and J: "ids_are (J, J) p"
  shows "case r of Inl e \<Rightarrow> ids_are (J, J) q | Inr fu \<Rightarrow> creates (J, J) fu q \<and> pb_committed q = pb_s q"
proof -
  let ?m = "bind_e (refresh_e (te_pub env)) (\<lambda>_. bind_e (read_s (\<lambda>s. get_delivery s d)) (\<lambda>d.
       case d of None \<Rightarrow> raise_e (Runtime_error (S ''github_delivery_not_found'')) | Some d \<Rightarrow> apply_delivery env d))"
  have t: "triple (ids_are (J, J)) ?m (creates (J, J)) (committed_are (J, J))"
  proof (rule triple_bind [OF keeps_triple [OF ids_refresh [OF assms(1)]]], rule triple_bind [OF keeps_triple [OF keeps_read_s]])
    fix d
    have "triple (ids_are (J, J)) (raise_e (Runtime_error (S ''github_delivery_not_found''))) (creates (J, J)) (committed_are (J, J))"
      by (rule triple_raise) simp
    then show "triple (ids_are (J, J)) (case d of None \<Rightarrow> raise_e (Runtime_error (S ''github_delivery_not_found'')) | Some d \<Rightarrow> apply_delivery env d)
        (creates (J, J)) (committed_are (J, J))"
      using delivery_creates [OF assms(1)] by (cases d) (simp_all only: option.case)
  qed
  obtain u x where u: "?m p = Some (u, x)"
    and q: "case x of Inl e \<Rightarrow> q = roll_back_e u \<and> r = Inl e | Inr y \<Rightarrow> q = u\<lparr>pb_committed := pb_s u\<rparr> \<and> r = Inr y"
    using assms(2) unfolding event_attempt_def in_context_def by (auto split: option.splits prod.splits sum.splits)
  show ?thesis
  proof (cases x)
    case (Inl e)
    with triple_Inl [OF t J] u q show ?thesis by (auto simp: roll_back_e_def job_ids_def)
  next
    case (Inr fu)
    with triple_Inr [OF t J] u q show ?thesis by (auto simp: creates_def)
  qed
qed

lemma attempts_create:
  assumes "others_start_none (te_pub env)"
  shows "event_attempts env d n p = Some (q, Inr fu) \<Longrightarrow> ids_are (J, J) p \<Longrightarrow> creates (J, J) fu q \<and> pb_committed q = pb_s q"
proof (induction n arbitrary: p)
  case 0
  then show ?case using attempt_creates [OF assms, of d p q "Inr fu" J] by simp
next
  case (Suc n)
  from Suc.prems(1) consider "event_attempt env d p = Some (q, Inr fu)"
    | v e where "event_attempt env d p = Some (v, Inl e)" "event_attempts env d n v = Some (q, Inr fu)"
    by (auto simp: catch_Some)
  then show ?case
  proof cases
    case 1
    then show ?thesis using attempt_creates [OF assms, of d p q "Inr fu" J] Suc.prems(2) by simp
  next
    case (2 v e)
    then have "ids_are (J, J) v" using attempt_creates [OF assms, of d p v "Inl e" J] Suc.prems(2) by simp
    with Suc.IH 2(2) show ?thesis by blast
  qed
qed

lemma each_send:
  "each_e (\<lambda>x. send_e broker (f x)) xs t = Some (u, Inr ()) \<Longrightarrow> tk_sent u = tk_sent t @ map f xs \<and> tk_pub u = tk_pub t"
  by (induction xs arbitrary: t) (auto simp: bind_Some send_Some)

definition names_job :: "message list \<Rightarrow> uuid \<Rightarrow> bool" where
  "names_job ms k \<longleftrightarrow> Msg_index k \<in> set ms \<or> (\<exists>rv co pair. Msg_resolution rv (Some k) co pair \<in> set ms)"

lemma follow_ups_sent:
  assumes "send_follow_ups env fu t = Some (u, Inr ())"
  shows "\<exists>ms. tk_sent u = tk_sent t @ ms \<and> {k. names_job ms k} = follow_up_jobs fu \<and> tk_pub u = tk_pub t"
proof -
  let ?res = "\<lambda>(t, pair). Msg_resolution (rt_revision_id t) (rt_index_job_id t) (rt_coalesce t) pair"
  let ?left = "filter (\<lambda>k. Some k \<notin> set (map (\<lambda>(t, pair). rt_index_job_id t) (fu_resolutions fu))) (fu_index_jobs fu)"
  have f: "(\<lambda>(t, pair). send_e (te_broker env) (Msg_resolution (rt_revision_id t) (rt_index_job_id t) (rt_coalesce t) pair)) =
    (\<lambda>x. send_e (te_broker env) (?res x))" by (rule ext) (simp split: prod.split)
  obtain v y where 1: "each_e (\<lambda>x. send_e (te_broker env) (?res x)) (fu_resolutions fu) t = Some (v, Inr y)"
    and 2: "each_e (\<lambda>k. send_e (te_broker env) (Msg_index k)) ?left v = Some (u, Inr ())"
    using assms by (auto simp: send_follow_ups_def f bind_Some enqueue_index_job_def [abs_def])
  have "y = ()" by simp
  with each_send [OF 1 [unfolded this]] each_send [OF 2]
  have "tk_sent u = tk_sent t @ (map ?res (fu_resolutions fu) @ map Msg_index ?left) \<and> tk_pub u = tk_pub t" by simp
  moreover have "{k. names_job (map ?res (fu_resolutions fu) @ map Msg_index ?left) k} = follow_up_jobs fu"
  proof (rule set_eqI)
    fix k
    let ?ms = "map ?res (fu_resolutions fu) @ map Msg_index ?left" and ?deferred = "\<exists>t pair. (t, pair) \<in> set (fu_resolutions fu) \<and> rt_index_job_id t = Some k"
    have "Msg_index k \<in> set ?ms \<longleftrightarrow> k \<in> set ?left" by auto
    moreover have "k \<in> set ?left \<longleftrightarrow> k \<in> set (fu_index_jobs fu) \<and> \<not> ?deferred" by force
    moreover have "(\<exists>rv co pair. Msg_resolution rv (Some k) co pair \<in> set ?ms) \<longleftrightarrow> ?deferred"
    proof
      assume "\<exists>rv co pair. Msg_resolution rv (Some k) co pair \<in> set ?ms"
      then show ?deferred by auto
    next
      assume ?deferred
      then obtain t pair where "(t, pair) \<in> set (fu_resolutions fu)" "rt_index_job_id t = Some k" by blast
      then have "Msg_resolution (rt_revision_id t) (Some k) (rt_coalesce t) pair \<in> set ?ms" by force
      then show "\<exists>rv co pair. Msg_resolution rv (Some k) co pair \<in> set ?ms" by (intro exI)
    qed
    ultimately show "k \<in> {k. names_job ?ms k} \<longleftrightarrow> k \<in> follow_up_jobs fu" unfolding names_job_def follow_up_jobs_def by blast
  qed
  ultimately show ?thesis by blast
qed

text \<open>C11. When the task that processes a delivery returns, the index jobs it committed are exactly those its messages name,
  for the index queue or for the task behind a push, so that no job is left without a task and no message names a job
  the workers cannot see; and each is still pending. This holds over all retries; what other
  transactions start is left aside.\<close>

theorem committed_jobs_are_sent:
  assumes "others_start_none (te_pub env)"
    and "job_ids (pb_s (tk_pub t)) = J" and "job_ids (pb_committed (tk_pub t)) = J"
    and "process_github_event env d t = Some (u, Inr ())"
  shows "\<exists>ms. tk_sent u = tk_sent t @ ms \<and>
    job_ids (pb_committed (tk_pub u)) = J \<union> {k. names_job ms k} \<and>
    (\<forall>k. names_job ms k \<longrightarrow> waiting (pb_committed (tk_pub u)) k)"
proof -
  obtain p fu where e: "event_attempts env d 3 (tk_pub t) = Some (p, Inr fu)"
    and s: "send_follow_ups env fu (t\<lparr>tk_pub := p\<rparr>) = Some (u, Inr ())"
    using assms(4) by (auto simp: process_github_event_def bind_Some db_Some)
  have "creates (J, J) fu p \<and> pb_committed p = pb_s p" using attempts_create [OF assms(1) e, of J] assms(2,3) by simp
  moreover obtain ms where "tk_sent u = tk_sent t @ ms" "{k. names_job ms k} = follow_up_jobs fu" "tk_pub u = p"
    using follow_ups_sent [OF s] by auto
  ultimately show ?thesis by (intro exI [of _ ms]) (auto simp: creates_def)
qed

definition demo_event_env :: event_env where
  "demo_event_env = \<lparr>te_hook = demo_hook, te_settings = demo_settings, te_coalesce_seconds = 0, te_schedule_at = [],
     te_broker = (\<lambda>n m. None)\<rparr>"

definition demo_comment :: "(pystr \<times> json) list" where
  "demo_comment = [(S ''body'', JStr (S ''@revy review''))]"

definition demo_issue :: "(pystr \<times> json) list" where
  "demo_issue = [(S ''pull_request'', JObj []), (S ''state'', JStr (S ''open'')), (S ''number'', JInt 17)]"

definition demo_command :: "(pystr \<times> json) list" where
  "demo_command = [(S ''action'', JStr (S ''created'')), (S ''comment'', JObj demo_comment), (S ''issue'', JObj demo_issue),
     (S ''installation'', JObj [(S ''id'', JInt 9)]), (S ''repository'', JObj [(S ''id'', JInt 70)])]"

definition demo_delivery :: webhook_delivery where
  "demo_delivery = \<lparr>wd_delivery_id = S ''d'', wd_event_type = S ''issue_comment'', wd_installation_id = Some 9, wd_payload = demo_command\<rparr>"

definition demo_commanded :: session where
  "demo_commanded = (pb_s demo_hook_pub)\<lparr>ss_workspaces := [demo_workspace], ss_review_runs := [], ss_deliveries := [demo_delivery]\<rparr>"

definition demo_tasks :: tasks where
  "demo_tasks = \<lparr>tk_pub = \<lparr>pb_s = demo_commanded, pb_committed = demo_commanded, pb_readings = 0\<rparr>, tk_sent = [], tk_sends = 0\<rparr>"

lemma demo_command_members:
  "json_get (S ''action'') demo_command = Some (JStr (S ''created''))"
  "json_get (S ''comment'') demo_command = Some (JObj demo_comment)"
  "json_get (S ''issue'') demo_command = Some (JObj demo_issue)"
  "json_get (S ''installation'') demo_command = Some (JObj [(S ''id'', JInt 9)])"
  "json_get (S ''repository'') demo_command = Some (JObj [(S ''id'', JInt 70)])"
  "json_get (S ''number'') demo_issue = Some (JInt 17)"
  by (simp_all add: demo_command_def demo_issue_def S_def)

lemma demo_review_requested: "review_requested demo_hook demo_comment demo_issue"
  by code_simp

lemma demo_comment_event:
  "apply_issue_comment_webhook_event demo_hook demo_command p = Some (p, Inr (Some \<lparr>ci_workspace_id = 3, ci_revision_id = 2\<rparr>))"
  if "pb_s p = demo_commanded"
proof -
  note members = demo_command_members [unfolded json_get.simps]
  have r: "resolve_repository demo_commanded demo_command = Some (hd (ss_repositories demo_commanded))"
    by (simp add: resolve_repository_def members installation_by_github_id_def demo_commanded_def demo_hook_pub_def Let_def)
  show ?thesis
    using that
    by (simp add: apply_issue_comment_webhook_event_def members demo_review_requested bind_read r)
      (simp add: demo_commanded_def demo_hook_pub_def Let_def demo_defs get_revision_for_head_sha_def latest_by_def bind_read)
qed

lemma demo_created: "\<exists>s'. create_in_progress (pe_check demo_pub_env) s cx m = (s', Inr (Some 77))"
  by (simp add: create_in_progress_def create_check_run_def send_check_def created_check_id_def is_success_def except_http_def Let_def demo_pub_env_def S_def)

lemma demo_command_starts:
  "\<exists>s' k. maybe_enqueue_pipeline_for_revision (pe_check demo_pub_env) demo_settings demo_commanded 3 2 Trig_command = (s', Inr (Some k))"
proof -
  define job where "job = new_index_job demo_commanded 3 2 Trig_command Mode_diff True"
  define s where "s = add_index_job job demo_commanded"
  have "\<exists>v. pipeline_revision demo_settings demo_commanded 3 2 Trig_command = Some v"
    by (simp add: pipeline_revision_def demo_commanded_def demo_hook_pub_def demo_defs session_gets tbl_get_def reviewable_def
        demo_workspace_def demo_settings_def pipeline_prerequisites_met_def index_job_in_progress_def review_in_progress_def Let_def)
  then obtain v where v: "pipeline_revision demo_settings demo_commanded 3 2 Trig_command = Some v" by blast
  obtain s1 p where e: "ensure_pipeline_run_for_index_job s job (rev_head_sha v) = (s1, p)" by fastforce
  have rows: "ss_repositories s1 = ss_repositories demo_commanded" 
    using e by (auto simp: ensure_pipeline_run_for_index_job_def tick_def Let_def s_def add_index_job_def split: option.splits)
  have "\<exists>x. pipeline_check_repo_context s1 p = Inr x"
    using rows by (auto simp: pipeline_check_repo_context_def get_repository_def tbl_get_def demo_commanded_def demo_hook_pub_def Let_def
        py_split1_def py_find.simps py_startswith_def S_def split: option.splits)
  moreover have "create_in_progress (pe_check demo_pub_env) s2 cx m \<noteq> (s3, Inl e)" for s2 cx m s3 e
    using demo_created by (metis Pair_inject sum.distinct(1))
  ultimately have "\<exists>s' y. provision_queued_pipeline_github_check (pe_check demo_pub_env) s job (rev_head_sha v) = (s', Inr y)"
    by (auto simp: provision_queued_pipeline_github_check_def e split: option.splits sum.splits prod.splits)
  then show ?thesis
    by (auto simp: maybe_enqueue_pipeline_for_revision_def PIPELINE_TRIGGERS_def v job_def [symmetric] s_def [symmetric] Let_def)
qed

lemma demo_supersedes_none:
  "\<exists>x. supersede_active_generations_for_revision (pe_check demo_pub_env) now demo_commanded 2 = (demo_commanded, Inr x)"
  by (simp add: supersede_active_generations_for_revision_def mark_active_review_runs_superseded_for_revision_def
      mark_active_index_jobs_superseded_for_revision_def finalize_pipeline_checks_for_superseded_index_jobs_def tbl_map_def
      mark_index_job_ids_superseded_cas_def conclude_superseded_def demo_commanded_def demo_hook_pub_def demo_defs session_gets tbl_get_def Let_def)

lemma demo_event:
  "\<exists>p k. event_attempt demo_event_env (S ''d'') (tk_pub demo_tasks) = Some (p, Inr (index_follow_up (Some k)))"
proof -
  obtain s k where k: "maybe_enqueue_pipeline_for_revision (pe_check demo_pub_env) demo_settings demo_commanded 3 2 Trig_command = (s, Inr (Some k))"
    using demo_command_starts by blast
  obtain x where x: "supersede_active_generations_for_revision (pe_check demo_pub_env) (he_now demo_hook) demo_commanded 2 = (demo_commanded, Inr x)"
    using demo_supersedes_none by blast
  have d: "get_delivery demo_commanded (S ''d'') = Some demo_delivery"
    by (simp add: get_delivery_def tbl_get_def demo_commanded_def demo_delivery_def)
  have env: "te_pub demo_event_env = demo_pub_env" "he_pub demo_hook = demo_pub_env" "te_hook demo_event_env = demo_hook" "te_settings demo_event_env = demo_settings"
    "pe_others demo_pub_env n s = s" for n s
    by (simp_all add: demo_event_env_def demo_hook_def demo_pub_env_def)
  have e: "apply_delivery demo_event_env demo_delivery = issue_comment_event demo_event_env demo_command"
    by (simp add: apply_delivery_def demo_delivery_def Let_def S_def)
  define p where "p = tk_pub demo_tasks\<lparr>pb_readings := Suc (pb_readings (tk_pub demo_tasks))\<rparr>"
  have p: "pb_s p = demo_commanded" by (simp add: p_def demo_tasks_def)
  have refresh: "refresh_e demo_pub_env (tk_pub demo_tasks) = Some (p, Inr ())"
    by (simp add: refresh_e_def upd_e_def env p_def demo_tasks_def)
  have "issue_comment_event demo_event_env demo_command p = Some (p\<lparr>pb_s := s\<rparr>, Inr (index_follow_up (Some k)))"
    using p k demo_comment_event [OF p] x
    by (simp add: issue_comment_event_def bind_e_def maybe_enqueue_e_def call_e_def on_session_def on_part_def total_e_def env)
  then show ?thesis
    using refresh p d
    by (intro exI) (simp add: event_attempt_def in_context_def bind_e_def read_s_def on_session_def on_part_def env e)
qed

lemma demo_delivery_processed:
  "\<exists>u k. process_github_event demo_event_env (S ''d'') demo_tasks = Some (u, Inr ()) \<and> tk_sent u = [Msg_index k]"
proof -
  obtain p k where p: "event_attempt demo_event_env (S ''d'') (tk_pub demo_tasks) = Some (p, Inr (index_follow_up (Some k)))"
    using demo_event by blast
  have three: "(3::nat) = Suc (Suc (Suc 0))" by simp
  have "event_attempts demo_event_env (S ''d'') 3 (tk_pub demo_tasks) = Some (p, Inr (index_follow_up (Some k)))"
    unfolding three event_attempts.simps by (simp add: catch_e_def p)
  then have "db (event_attempts demo_event_env (S ''d'') 3) demo_tasks = Some (demo_tasks\<lparr>tk_pub := p\<rparr>, Inr (index_follow_up (Some k)))"
    by (simp add: db_Some)
  moreover have "te_broker demo_event_env = (\<lambda>n m. None)" by (simp add: demo_event_env_def)
  ultimately show ?thesis
    by (simp add: process_github_event_def bind_e_def send_follow_ups_def index_follow_up_def no_follow_ups_def enqueue_index_job_def
        send_e_def demo_tasks_def)
qed

lemma committed_jobs_are_sent_witness:
  "\<exists>u k. process_github_event demo_event_env (S ''d'') demo_tasks = Some (u, Inr ()) \<and> tk_sent u = [Msg_index k] \<and>
    job_ids (pb_committed (tk_pub u)) = {k} \<and> waiting (pb_committed (tk_pub u)) k"
proof -
  obtain u k where u: "process_github_event demo_event_env (S ''d'') demo_tasks = Some (u, Inr ())" and k: "tk_sent u = [Msg_index k]"
    using demo_delivery_processed by blast
  have "others_start_none (te_pub demo_event_env)"
    by (simp add: others_start_none_def demo_event_env_def demo_hook_def demo_pub_env_def)
  moreover have none: "job_ids (pb_s (tk_pub demo_tasks)) = {}" "job_ids (pb_committed (tk_pub demo_tasks)) = {}"
    by (simp_all add: job_ids_def demo_tasks_def demo_commanded_def demo_hook_pub_def empty_session_def Let_def)
  ultimately obtain ms where "tk_sent u = tk_sent demo_tasks @ ms" "job_ids (pb_committed (tk_pub u)) = {} \<union> {k. names_job ms k}"
    "\<forall>k. names_job ms k \<longrightarrow> waiting (pb_committed (tk_pub u)) k"
    using committed_jobs_are_sent [OF _ none u] by blast
  with u k show ?thesis by (auto simp: names_job_def demo_tasks_def)
qed

end
