(* ===== verification/Webhooks.thy ===== *)
theory Webhooks
  imports Messages Github_Tasks
begin

section \<open>The webhook endpoint\<close>

text \<open>
  \<open>api/v1/webhooks/github.py\<close> takes a delivery: it verifies the signature over the raw body
  (\<open>integrations/github_webhook.py\<close>), records the delivery under its identifier
  (\<open>services/github_webhooks.py\<close>), commits, and sends the task that processes it.  Parsing JSON is the parameter
  \<open>wk_json_loads\<close>; the middleware and the response are left out.
\<close>

subsection \<open>The signature\<close>

unbundle bit_operations_syntax

definition sha256_bytes :: "nat list \<Rightarrow> nat list" where
  "sha256_bytes m = concat (map (\<lambda>w. be_bytes 4 (unat w)) (sha256 m))"

definition hmac_key :: "nat list \<Rightarrow> nat list" where
  "hmac_key key = (let k = (if 64 < length key then sha256_bytes key else key) in k @ replicate (64 - length k) 0)"

text \<open>\<open>hmac.new(key, msg, hashlib.sha256).hexdigest()\<close>.\<close>

definition hmac_sha256_hex :: "nat list \<Rightarrow> nat list \<Rightarrow> pystr" where
  "hmac_sha256_hex key msg =
     (let k = hmac_key key;
          inner = sha256_bytes (map (\<lambda>b. b XOR 0x36) k @ msg)
      in concat (map (\<lambda>w. hex_n 8 (uint w)) (sha256 (map (\<lambda>b. b XOR 0x5C) k @ inner))))"

text \<open>\<open>hmac.compare_digest\<close> raises for text that is not ASCII.\<close>

definition verify_github_signature :: "nat list \<Rightarrow> pystr option \<Rightarrow> pystr \<Rightarrow> exn + bool" where
  "verify_github_signature payload signature secret =
     (case signature of
        None \<Rightarrow> Inr False
      | Some sig \<Rightarrow>
          if sig = [] \<or> \<not> py_startswith sig (S ''sha256='') then Inr False
          else if list_ex (\<lambda>c. 128 \<le> c) sig then Inl Type_error
          else Inr (S ''sha256='' @ hmac_sha256_hex (utf8_encode secret) payload = sig))"

subsection \<open>Recording the delivery\<close>

definition SUPPORTED_EVENTS :: "pystr list" where
  "SUPPORTED_EVENTS = map S [''installation'', ''installation_repositories'', ''push'', ''pull_request'',
     ''pull_request_review'', ''issue_comment'']"

definition extract_installation_id :: "(pystr \<times> json) list \<Rightarrow> int option" where
  "extract_installation_id payload =
     (case payload_dict (json_get (S ''installation'') payload) of
        None \<Rightarrow> None
      | Some i \<Rightarrow> payload_int (json_get (S ''id'') i))"

text \<open>The row is pending when the savepoint is opened, and opening it flushes first: a violation is
  raised outside the savepoint, and the transaction is no longer usable, which a commit then reports.\<close>

datatype recorded = Recorded | Known | Raced

definition try_record_delivery ::
  "pub_env \<Rightarrow> pystr \<Rightarrow> pystr \<Rightarrow> int option \<Rightarrow> (pystr \<times> json) list \<Rightarrow> (pub, recorded) eff" where
  "try_record_delivery env delivery_id event_type installation_id payload =
     bind_e (read_s (\<lambda>s. get_delivery s delivery_id)) (\<lambda>existing.
       if existing \<noteq> None then ret Known
       else
         bind_e (refresh_e env) (\<lambda>_.
         bind_e (read_s (\<lambda>s. get_delivery s delivery_id)) (\<lambda>raced.
           if raced \<noteq> None then ret Raced
           else
             bind_e (write_s (\<lambda>s. s\<lparr>ss_deliveries := tbl_add
                 \<lparr>wd_delivery_id = delivery_id, wd_event_type = event_type, wd_installation_id = installation_id,
                  wd_payload = payload\<rparr> (ss_deliveries s)\<rparr>)) (\<lambda>_. ret Recorded))))"

definition accept_github_webhook :: "pub_env \<Rightarrow> pystr \<Rightarrow> pystr \<Rightarrow> (pystr \<times> json) list \<Rightarrow> (pub, recorded) eff" where
  "accept_github_webhook env delivery_id event_type payload =
     (if event_type \<notin> set SUPPORTED_EVENTS then ret Known
      else try_record_delivery env delivery_id event_type (extract_installation_id payload) payload)"

subsection \<open>The endpoint\<close>

record webhook_env =
  wk_pub :: pub_env
  wk_enabled :: bool
  wk_secret :: "pystr option"
  wk_json_loads :: "nat list \<Rightarrow> exn + json"
  wk_broker :: broker

record webhook_request =
  wr_signature :: "pystr option"
  wr_event :: "pystr option"
  wr_delivery :: "pystr option"
  wr_body :: "nat list"

definition missing :: "pystr option \<Rightarrow> bool" where
  "missing h \<longleftrightarrow> opt_or h [] = []"

definition validation_error :: "string \<Rightarrow> exn" where
  "validation_error m = raise_platform ValidationError (S m) None"

text \<open>What is checked before the database is used: the identifier, the event and the payload.\<close>

definition read_webhook :: "webhook_env \<Rightarrow> webhook_request \<Rightarrow> exn + pystr \<times> pystr \<times> (pystr \<times> json) list" where
  "read_webhook env req =
     (if \<not> wk_enabled env then
        Inl (raise_platform ServiceUnavailableError (S ''GitHub webhooks are not configured'')
          (Some (S ''github_webhooks_disabled'')))
      else if missing (wr_signature req) then Inl (validation_error ''Missing X-Hub-Signature-256 header'')
      else if missing (wr_event req) then Inl (validation_error ''Missing X-GitHub-Event header'')
      else if missing (wr_delivery req) then Inl (validation_error ''Missing X-GitHub-Delivery header'')
      else
        rbind (verify_github_signature (wr_body req) (wr_signature req) (opt_or (wk_secret env) [])) (\<lambda>authentic.
          if \<not> authentic then Inl (validation_error ''Invalid GitHub webhook signature'')
          else
            (case wk_json_loads env (wr_body req) of
               Inl e \<Rightarrow> Inl (if e = Json_decode_error then validation_error ''Invalid JSON payload'' else e)
             | Inr (JObj payload) \<Rightarrow> Inr (the (wr_delivery req), the (wr_event req), payload)
             | Inr _ \<Rightarrow> Inl (validation_error ''Webhook payload must be a JSON object''))))"

definition record_webhook :: "webhook_env \<Rightarrow> pystr \<Rightarrow> pystr \<Rightarrow> (pystr \<times> json) list \<Rightarrow> (pub, bool) eff" where
  "record_webhook env delivery_id event_type payload =
     in_context (bind_e (refresh_e (wk_pub env)) (\<lambda>_.
       bind_e (accept_github_webhook (wk_pub env) delivery_id event_type payload) (\<lambda>r.
         case r of
           Recorded \<Rightarrow> ret True
         | Known \<Rightarrow> ret False
         | Raced \<Rightarrow> raise_e Pending_rollback_error)))"

definition post_github_webhook :: "webhook_env \<Rightarrow> webhook_request \<Rightarrow> (tasks, unit) eff" where
  "post_github_webhook env req =
     (case read_webhook env req of
        Inl e \<Rightarrow> raise_e e
      | Inr (delivery_id, event_type, payload) \<Rightarrow>
          bind_e (db (record_webhook env delivery_id event_type payload)) (\<lambda>accepted.
            if accepted then send_e (wk_broker env) (Msg_event delivery_id) else ret ()))"

end
