(* ===== verification/Webhook_Laws.thy ===== *)
theory Webhook_Laws
  imports Webhooks Publish_Laws
begin

section \<open>What the webhook endpoint dispatches\<close>

text \<open>
  GitHub repeats deliveries.  Over any sequence of requests the endpoint sends at most one task for a delivery, and only for
  one that is signed with the secret and recorded.
\<close>

definition delivery_ids :: "session \<Rightarrow> pystr set" where
  "delivery_ids s = wd_delivery_id ` set (ss_deliveries s)"

text \<open>The other transactions delete no delivery, which nothing in the program does.\<close>

definition others_keep_deliveries :: "pub_env \<Rightarrow> bool" where
  "others_keep_deliveries env \<longleftrightarrow> (\<forall>n s. set (ss_deliveries s) \<subseteq> set (ss_deliveries (pe_others env n s)))"

text \<open>No other transaction records a delivery, and the broker takes every message.\<close>

definition undisturbed :: "webhook_env \<Rightarrow> bool" where
  "undisturbed env \<longleftrightarrow>
     (\<forall>n s. ss_deliveries (pe_others (wk_pub env) n s) = ss_deliveries s) \<and> (\<forall>n m. wk_broker env n m = None)"

text \<open>The request carries the delivery, signed with the secret over its body.\<close>

definition carries :: "webhook_env \<Rightarrow> webhook_request \<Rightarrow> webhook_delivery \<Rightarrow> bool" where
  "carries env req row \<longleftrightarrow>
     wk_enabled env \<and>
     wr_signature req = Some (S ''sha256='' @ hmac_sha256_hex (utf8_encode (opt_or (wk_secret env) [])) (wr_body req)) \<and>
     wr_event req = Some (wd_event_type row) \<and> wd_event_type row \<in> set SUPPORTED_EVENTS \<and>
     wr_delivery req = Some (wd_delivery_id row) \<and> wd_delivery_id row \<noteq> [] \<and>
     wk_json_loads env (wr_body req) = Inr (JObj (wd_payload row)) \<and>
     wd_installation_id row = extract_installation_id (wd_payload row)"

subsection \<open>Reading a request\<close>

lemma hmac_ascii: "c \<in> set (hmac_sha256_hex key m) \<Longrightarrow> c < 128"
  using hex_n_hex by (auto simp: hmac_sha256_hex_def Let_def)

lemma verify_iff:
  "verify_github_signature payload sig secret = Inr True \<longleftrightarrow>
     sig = Some (S ''sha256='' @ hmac_sha256_hex (utf8_encode secret) payload)"
proof (cases sig)
  case (Some g)
  have "list_ex (\<lambda>c. 128 \<le> c) (S ''sha256='' @ hmac_sha256_hex k m) = False" for k m
    using hmac_ascii by (fastforce simp: list_ex_iff S_def)
  then show ?thesis using Some by (auto simp: verify_github_signature_def py_startswith_def S_def)
qed (simp add: verify_github_signature_def)

lemma read_webhook_Inr:
  "read_webhook env req = Inr (d, ev, payload) \<Longrightarrow> ev \<in> set SUPPORTED_EVENTS \<Longrightarrow>
     carries env req \<lparr>wd_delivery_id = d, wd_event_type = ev, wd_installation_id = extract_installation_id payload,
       wd_payload = payload\<rparr>"
proof -
  assume read: "read_webhook env req = Inr (d, ev, payload)" and ev: "ev \<in> set SUPPORTED_EVENTS"
  have open_: "wk_enabled env" "\<not> missing (wr_event req)" "\<not> missing (wr_delivery req)"
    using read by (auto simp: read_webhook_def split: if_splits)
  have v: "verify_github_signature (wr_body req) (wr_signature req) (opt_or (wk_secret env) []) = Inr True"
    and j: "wk_json_loads env (wr_body req) = Inr (JObj payload)" and "d = the (wr_delivery req)" "ev = the (wr_event req)"
    using read by (auto simp: read_webhook_def rbind_def split: if_splits sum.splits json.splits)
  with open_ ev v [unfolded verify_iff] show "carries env req \<lparr>wd_delivery_id = d, wd_event_type = ev,
      wd_installation_id = extract_installation_id payload, wd_payload = payload\<rparr>"
    by (auto simp: carries_def missing_def opt_or_def split: option.splits)
qed

lemma supported_not_empty: "[] \<notin> set SUPPORTED_EVENTS"
  by (simp add: SUPPORTED_EVENTS_def S_def)

lemma carries_read:
  assumes "carries env req row"
  shows "read_webhook env req = Inr (wd_delivery_id row, wd_event_type row, wd_payload row)"
proof -
  have v: "verify_github_signature (wr_body req) (wr_signature req) (opt_or (wk_secret env) []) = Inr True"
    using assms by (simp add: verify_iff carries_def)
  have "wd_event_type row \<noteq> []" using assms supported_not_empty by (auto simp: carries_def)
  then show ?thesis using assms v by (simp add: read_webhook_def rbind_def carries_def missing_def opt_or_def S_def)
qed

subsection \<open>One request\<close>

definition sent_for :: "webhook_env \<Rightarrow> webhook_request list \<Rightarrow> tasks \<Rightarrow> tasks \<Rightarrow> message list \<Rightarrow> bool" where
  "sent_for env reqs t u ms \<longleftrightarrow>
     tk_sent u = tk_sent t @ ms \<and> distinct ms \<and>
     (\<forall>m\<in>set ms. \<exists>req\<in>set reqs. \<exists>row. m = Msg_event (wd_delivery_id row) \<and> carries env req row \<and>
        row \<in> set (ss_deliveries (pb_committed (tk_pub u))) \<and>
        wd_delivery_id row \<notin> delivery_ids (pb_committed (tk_pub t)))"

definition all_sent :: "webhook_env \<Rightarrow> webhook_request list \<Rightarrow> tasks \<Rightarrow> tasks \<Rightarrow> message list \<Rightarrow> bool" where
  "all_sent env reqs t u ms \<longleftrightarrow>
     delivery_ids (pb_committed (tk_pub u)) = delivery_ids (pb_committed (tk_pub t)) \<union> {d. Msg_event d \<in> set ms} \<and>
     (\<forall>req\<in>set reqs. \<forall>row. carries env req row \<longrightarrow> wd_delivery_id row \<in> delivery_ids (pb_committed (tk_pub u)))"

definition dispatched :: "webhook_env \<Rightarrow> webhook_request list \<Rightarrow> tasks \<Rightarrow> tasks \<Rightarrow> bool" where
  "dispatched env reqs t u \<longleftrightarrow>
     rolled_back (tk_pub u) \<and>
     set (ss_deliveries (pb_committed (tk_pub t))) \<subseteq> set (ss_deliveries (pb_committed (tk_pub u))) \<and>
     (\<exists>ms. sent_for env reqs t u ms \<and> (undisturbed env \<longrightarrow> all_sent env reqs t u ms))"

lemma rolled_deliveries: "rolled_back p \<Longrightarrow> ss_deliveries (pb_s p) = ss_deliveries (pb_committed p)"
  by (auto simp: rolled_back_def)

lemma get_delivery_None: "get_delivery s d = None \<longleftrightarrow> d \<notin> delivery_ids s"
  by (auto simp: get_delivery_def tbl_get_def delivery_ids_def find_None_iff)

lemma record_webhook_cases:
  fixes env p d ev payload
  defines "s \<equiv> pe_others (wk_pub env) (pb_readings p) (pb_s p)"
  defines "s' \<equiv> pe_others (wk_pub env) (Suc (pb_readings p)) s"
  defines "row \<equiv> \<lparr>wd_delivery_id = d, wd_event_type = ev, wd_installation_id = extract_installation_id payload, wd_payload = payload\<rparr>"
  obtains (old) q where "record_webhook env d ev payload p = Some (q, Inr False)" "ev \<notin> set SUPPORTED_EVENTS \<or> d \<in> delivery_ids s"
      "ss_deliveries (pb_committed q) = ss_deliveries s" "rolled_back q"
    | (raced) q where "record_webhook env d ev payload p = Some (q, Inl Pending_rollback_error)" "d \<notin> delivery_ids s" "d \<in> delivery_ids s'"
      "pb_committed q = pb_committed p" "rolled_back q"
    | (recorded) q where "record_webhook env d ev payload p = Some (q, Inr True)" "ev \<in> set SUPPORTED_EVENTS"
      "d \<notin> delivery_ids s'" "ss_deliveries (pb_committed q) = ss_deliveries s' @ [row]" "rolled_back q"
proof -
  let ?m = "record_webhook env d ev payload p"
  have rolled: "rolled_back q" if "?m = Some (q, r)" for q r
    using that unfolding record_webhook_def by (rule context_rolls_back)
  note defs = record_webhook_def in_context_def accept_github_webhook_def try_record_delivery_def bind_e_def refresh_e_def read_s_def
    write_s_def upd_e_def roll_back_e_def get_delivery_None s_def [symmetric] s'_def [symmetric] row_def [symmetric]
  consider "ev \<notin> set SUPPORTED_EVENTS \<or> d \<in> delivery_ids s"
    | "ev \<in> set SUPPORTED_EVENTS" "d \<notin> delivery_ids s" "d \<in> delivery_ids s'"
    | "ev \<in> set SUPPORTED_EVENTS" "d \<notin> delivery_ids s" "d \<notin> delivery_ids s'" by blast
  then show ?thesis
  proof cases
    case 1
    then have "\<exists>q. ?m = Some (q, Inr False) \<and> ss_deliveries (pb_committed q) = ss_deliveries s" by (auto simp: defs)
    with 1 rolled old show ?thesis by blast
  next
    case 2
    then have "\<exists>q. ?m = Some (q, Inl Pending_rollback_error) \<and> pb_committed q = pb_committed p" by (simp add: defs)
    with 2 rolled raced show ?thesis by blast
  next
    case 3
    then have "\<exists>q. ?m = Some (q, Inr True) \<and> ss_deliveries (pb_committed q) = ss_deliveries s' @ [row]" by (simp add: defs tbl_add_def)
    with 3 rolled recorded show ?thesis by blast
  qed
qed

lemma dispatched_nothing:
  assumes "rolled_back (tk_pub u)" and "tk_sent u = tk_sent t"
    and "set (ss_deliveries (pb_committed (tk_pub t))) \<subseteq> set (ss_deliveries (pb_committed (tk_pub u)))"
    and "undisturbed env \<Longrightarrow> delivery_ids (pb_committed (tk_pub u)) = delivery_ids (pb_committed (tk_pub t))"
    and "\<And>row. undisturbed env \<Longrightarrow> carries env req row \<Longrightarrow> wd_delivery_id row \<in> delivery_ids (pb_committed (tk_pub u))"
  shows "dispatched env [req] t u"
  unfolding dispatched_def
  by (intro conjI exI [of _ "[]"]) (use assms in \<open>auto simp: sent_for_def all_sent_def\<close>)

lemma post_dispatches:
  assumes "others_keep_deliveries (wk_pub env)" and rolled: "rolled_back (tk_pub t)"
  shows "\<exists>u r. post_github_webhook env req t = Some (u, r) \<and> dispatched env [req] t u"
proof (cases "read_webhook env req")
  case (Inl e)
  have "\<not> carries env req row" for row using carries_read [of env req row] Inl by auto
  then have "dispatched env [req] t t" by (intro dispatched_nothing rolled) auto
  then show ?thesis using Inl by (simp add: post_github_webhook_def)
next
  case (Inr x)
  obtain d ev payload where read: "read_webhook env req = Inr (d, ev, payload)" using Inr by (cases x) auto
  let ?p = "tk_pub t" and ?row = "\<lparr>wd_delivery_id = d, wd_event_type = ev, wd_installation_id = extract_installation_id payload, wd_payload = payload\<rparr>"
  let ?s = "pe_others (wk_pub env) (pb_readings ?p) (pb_s ?p)"
  let ?s' = "pe_others (wk_pub env) (Suc (pb_readings ?p)) ?s"
  have grow: "set (ss_deliveries (pb_committed ?p)) \<subseteq> set (ss_deliveries ?s)" "set (ss_deliveries ?s) \<subseteq> set (ss_deliveries ?s')"
    using assms(1) rolled_deliveries [OF rolled] by (simp_all add: others_keep_deliveries_def) (metis (no_types))
  have quiet: "ss_deliveries ?s = ss_deliveries (pb_committed ?p)" "ss_deliveries ?s' = ss_deliveries (pb_committed ?p)" if "undisturbed env"
    using that rolled_deliveries [OF rolled] by (auto simp: undisturbed_def)
  have only: "wd_delivery_id row = d \<and> wd_event_type row = ev" if "carries env req row" for row
    using carries_read [OF that] read by simp
  have post: "post_github_webhook env req t = bind_e (db (record_webhook env d ev payload)) (\<lambda>accepted.
      if accepted then send_e (wk_broker env) (Msg_event d) else ret ()) t" by (simp add: post_github_webhook_def read)
  show ?thesis
  proof (cases rule: record_webhook_cases [of env d ev payload ?p])
    case (old q)
    have "delivery_ids (pb_committed q) = delivery_ids ?s" by (simp add: delivery_ids_def old(3))
    moreover have "delivery_ids ?s = delivery_ids (pb_committed ?p)" if "undisturbed env"
      using quiet(1) [OF that] by (simp add: delivery_ids_def)
    moreover have "wd_delivery_id row \<in> delivery_ids ?s" if "carries env req row" for row
      using only [OF that] that old(2) by (auto simp: carries_def)
    ultimately have "dispatched env [req] t (t\<lparr>tk_pub := q\<rparr>)"
      by (intro dispatched_nothing) (simp_all add: old(3,4) grow(1))
    then show ?thesis using old(1) by (simp add: post bind_e_def db_def on_part_def)
  next
    case (raced q)
    have "\<not> undisturbed env" using raced(2,3) quiet by (auto simp: delivery_ids_def)
    then have "dispatched env [req] t (t\<lparr>tk_pub := q\<rparr>)"
      by (intro dispatched_nothing) (use raced in auto)
    then show ?thesis using raced(1) by (simp add: post bind_e_def db_def on_part_def)
  next
    case (recorded q)
    have new: "d \<notin> delivery_ids (pb_committed ?p)" using recorded(3) grow by (auto simp: delivery_ids_def)
    have row: "carries env req ?row" "?row \<in> set (ss_deliveries (pb_committed q))"
      using read_webhook_Inr [OF read recorded(2)] recorded(4) by auto
    have sub: "set (ss_deliveries (pb_committed ?p)) \<subseteq> set (ss_deliveries (pb_committed q))" using grow recorded(4) by auto
    have ids: "delivery_ids (pb_committed q) = insert d (delivery_ids (pb_committed ?p))" if "undisturbed env"
      using quiet [OF that] recorded(4) by (simp add: delivery_ids_def)
    have sent: "dispatched env [req] t u" if "tk_sent u = tk_sent t @ [Msg_event d]" "tk_pub u = q" for u
      unfolding dispatched_def
      by (intro conjI exI [of _ "[Msg_event d]"])
        (use that recorded(5) sub row new ids only in \<open>auto simp: sent_for_def all_sent_def intro!: exI [of _ ?row]\<close>)
    show ?thesis
    proof (cases "wk_broker env (tk_sends t) (Msg_event d)")
      case None
      let ?u = "t\<lparr>tk_pub := q, tk_sent := tk_sent t @ [Msg_event d], tk_sends := Suc (tk_sends t)\<rparr>"
      have "dispatched env [req] t ?u" by (rule sent) simp_all
      then show ?thesis using recorded(1) None by (simp add: post bind_e_def db_def on_part_def send_e_def)
    next
      case (Some e)
      have "\<not> undisturbed env" using Some by (auto simp: undisturbed_def)
      then have "dispatched env [req] t (t\<lparr>tk_pub := q, tk_sends := Suc (tk_sends t)\<rparr>)"
        by (intro dispatched_nothing) (use recorded(5) sub in auto)
      then show ?thesis using recorded(1) Some by (simp add: post bind_e_def db_def on_part_def send_e_def)
    qed
  qed
qed

subsection \<open>Any sequence of requests\<close>

lemma dispatched_trans:
  assumes "dispatched env [req] t v" and "dispatched env reqs v u"
  shows "dispatched env (req # reqs) t u"
proof -
  obtain ms where ms: "sent_for env [req] t v ms" "undisturbed env \<longrightarrow> all_sent env [req] t v ms"
    using assms(1) by (auto simp: dispatched_def)
  obtain ms' where ms': "sent_for env reqs v u ms'" "undisturbed env \<longrightarrow> all_sent env reqs v u ms'"
    using assms(2) by (auto simp: dispatched_def)
  have tv: "set (ss_deliveries (pb_committed (tk_pub t))) \<subseteq> set (ss_deliveries (pb_committed (tk_pub v)))"
    and vu: "set (ss_deliveries (pb_committed (tk_pub v))) \<subseteq> set (ss_deliveries (pb_committed (tk_pub u)))"
    using assms by (auto simp: dispatched_def)
  have apart: "set ms \<inter> set ms' = {}"
    using ms(1) ms'(1) by (fastforce simp: sent_for_def delivery_ids_def)
  have "sent_for env (req # reqs) t u (ms @ ms')"
    unfolding sent_for_def
  proof (intro conjI ballI)
    show "tk_sent u = tk_sent t @ ms @ ms'" "distinct (ms @ ms')" using ms(1) ms'(1) apart by (auto simp: sent_for_def)
    fix m assume "m \<in> set (ms @ ms')"
    then consider "m \<in> set ms" | "m \<in> set ms'" by auto
    then show "\<exists>r\<in>set (req # reqs). \<exists>row. m = Msg_event (wd_delivery_id row) \<and> carries env r row \<and>
        row \<in> set (ss_deliveries (pb_committed (tk_pub u))) \<and> wd_delivery_id row \<notin> delivery_ids (pb_committed (tk_pub t))"
    proof cases
      case 1
      with ms(1) vu show ?thesis by (fastforce simp: sent_for_def)
    next
      case 2
      with ms'(1) tv show ?thesis by (fastforce simp: sent_for_def delivery_ids_def)
    qed
  qed
  moreover have "undisturbed env \<longrightarrow> all_sent env (req # reqs) t u (ms @ ms')"
    using ms(2) ms'(2) by (auto simp: all_sent_def)
  ultimately show ?thesis using assms tv vu unfolding dispatched_def by blast
qed

lemma posts_dispatch:
  assumes "others_keep_deliveries (wk_pub env)"
  shows "rolled_back (tk_pub t) \<Longrightarrow>
    \<exists>u. each_e (\<lambda>req. logged_e (post_github_webhook env req)) reqs t = Some (u, Inr ()) \<and> dispatched env reqs t u"
proof (induction reqs arbitrary: t)
  case Nil
  then have "dispatched env [] t t" by (auto simp: dispatched_def sent_for_def all_sent_def)
  then show ?case by simp
next
  case (Cons req reqs)
  obtain v r where v: "post_github_webhook env req t = Some (v, r)" and d: "dispatched env [req] t v"
    using post_dispatches [OF assms Cons.prems] by blast
  then have "rolled_back (tk_pub v)" by (simp add: dispatched_def)
  with Cons.IH obtain u where u: "each_e (\<lambda>req. logged_e (post_github_webhook env req)) reqs v = Some (u, Inr ())"
    and "dispatched env reqs v u" by blast
  with d have "dispatched env (req # reqs) t u" by (blast intro: dispatched_trans)
  moreover have "logged_e (post_github_webhook env req) t = Some (v, Inr ())" using v by (auto simp: logged_Some)
  ultimately show ?case using u by (simp add: bind_e_def)
qed

text \<open>C10. Over any sequence of requests, redeliveries and forgeries included, the endpoint sends at most one task for a delivery, and
  only for one that a request carries with the signature of the secret over its body, of a supported event, that was not
  recorded before and is committed with the event and payload of the request. When nothing else records deliveries and
  the broker takes every message, every delivery carried by a request is recorded in the end,
  and those that are new are exactly the ones sent.\<close>

theorem deliveries_dispatched_once:
  assumes "others_keep_deliveries (wk_pub env)" and "rolled_back (tk_pub t)"
  shows "\<exists>u ms. each_e (\<lambda>req. logged_e (post_github_webhook env req)) reqs t = Some (u, Inr ()) \<and>
    tk_sent u = tk_sent t @ ms \<and> distinct ms \<and>
    (\<forall>m\<in>set ms. \<exists>req\<in>set reqs. \<exists>row. m = Msg_event (wd_delivery_id row) \<and> carries env req row \<and>
       row \<in> set (ss_deliveries (pb_committed (tk_pub u))) \<and>
       wd_delivery_id row \<notin> delivery_ids (pb_committed (tk_pub t))) \<and>
    (undisturbed env \<longrightarrow>
       delivery_ids (pb_committed (tk_pub u)) = delivery_ids (pb_committed (tk_pub t)) \<union> {d. Msg_event d \<in> set ms} \<and>
       (\<forall>req\<in>set reqs. \<forall>row. carries env req row \<longrightarrow> wd_delivery_id row \<in> delivery_ids (pb_committed (tk_pub u))))"
  using posts_dispatch [OF assms, of reqs] unfolding dispatched_def sent_for_def all_sent_def by blast

definition demo_webhook_env :: webhook_env where
  "demo_webhook_env = \<lparr>wk_pub = demo_pub_env, wk_enabled = True, wk_secret = Some (S ''k''),
     wk_json_loads = (\<lambda>b. Inr (JObj [])), wk_broker = (\<lambda>n m. None)\<rparr>"

definition demo_request :: webhook_request where
  "demo_request = \<lparr>wr_signature = Some (S ''sha256='' @ hmac_sha256_hex (utf8_encode (S ''k'')) [123, 125]),
     wr_event = Some (S ''push''), wr_delivery = Some (S ''d''), wr_body = [123, 125]\<rparr>"

definition demo_forged :: webhook_request where
  "demo_forged = demo_request\<lparr>wr_signature := Some (S ''sha256=0''), wr_delivery := Some (S ''e'')\<rparr>"

definition demo_endpoint :: tasks where
  "demo_endpoint = \<lparr>tk_pub = \<lparr>pb_s = empty_session, pb_committed = empty_session, pb_readings = 0\<rparr>, tk_sent = [], tk_sends = 0\<rparr>"

lemma length_hmac: "length (hmac_sha256_hex key m) = 64"
  by (simp add: hmac_sha256_hex_def Let_def length_concat length_sha256 comp_def sum_list_triv)

lemma forged_digest: "S ''sha256=0'' \<noteq> S ''sha256='' @ hmac_sha256_hex key m"
proof
  assume "S ''sha256=0'' = S ''sha256='' @ hmac_sha256_hex key m"
  then have "length (S ''sha256=0'') = length (S ''sha256='') + 64" by (metis length_append length_hmac)
  then show False by (simp add: S_def)
qed

lemma deliveries_dispatched_once_witness:
  "\<exists>u. each_e (\<lambda>req. logged_e (post_github_webhook demo_webhook_env req)) [demo_request, demo_forged, demo_request] demo_endpoint =
     Some (u, Inr ()) \<and> tk_sent u = [Msg_event (S ''d'')]"
proof -
  let ?env = demo_webhook_env and ?row = "\<lparr>wd_delivery_id = S ''d'', wd_event_type = S ''push'', wd_installation_id = None, wd_payload = []\<rparr>"
  have kept: "others_keep_deliveries (wk_pub ?env)" by (simp add: others_keep_deliveries_def demo_webhook_env_def demo_pub_env_def)
  have rolled: "rolled_back (tk_pub demo_endpoint)"
    unfolding rolled_back_def demo_endpoint_def by (intro exI [of _ "ss_checks empty_session"] exI [of _ "ss_created empty_session"]) simp
  obtain u ms where w: "each_e (\<lambda>req. logged_e (post_github_webhook ?env req)) [demo_request, demo_forged, demo_request] demo_endpoint =
      Some (u, Inr ()) \<and> tk_sent u = tk_sent demo_endpoint @ ms \<and> distinct ms \<and>
      (\<forall>m\<in>set ms. \<exists>req\<in>set [demo_request, demo_forged, demo_request]. \<exists>row. m = Msg_event (wd_delivery_id row) \<and> carries ?env req row \<and>
         row \<in> set (ss_deliveries (pb_committed (tk_pub u))) \<and>
         wd_delivery_id row \<notin> delivery_ids (pb_committed (tk_pub demo_endpoint))) \<and>
      (undisturbed ?env \<longrightarrow>
         delivery_ids (pb_committed (tk_pub u)) = delivery_ids (pb_committed (tk_pub demo_endpoint)) \<union> {d. Msg_event d \<in> set ms} \<and>
         (\<forall>req\<in>set [demo_request, demo_forged, demo_request]. \<forall>row. carries ?env req row \<longrightarrow>
            wd_delivery_id row \<in> delivery_ids (pb_committed (tk_pub u))))"
    using deliveries_dispatched_once [OF kept rolled, of "[demo_request, demo_forged, demo_request]"] by (elim exE) (rule that, assumption)
  note u = w [THEN conjunct1] and sent = w [THEN conjunct2, THEN conjunct1] and once = w [THEN conjunct2, THEN conjunct2, THEN conjunct1]
    and some = w [THEN conjunct2, THEN conjunct2, THEN conjunct2, THEN conjunct1]
    and all = w [THEN conjunct2, THEN conjunct2, THEN conjunct2, THEN conjunct2]
  have "undisturbed ?env" by (simp add: undisturbed_def demo_webhook_env_def demo_pub_env_def)
  moreover have "carries ?env demo_request ?row"
    by (simp add: carries_def demo_webhook_env_def demo_request_def opt_or_def SUPPORTED_EVENTS_def S_def extract_installation_id_def)
  moreover have "delivery_ids (pb_committed (tk_pub demo_endpoint)) = {}"
    by (simp add: delivery_ids_def demo_endpoint_def empty_session_def)
  ultimately have "Msg_event (S ''d'') \<in> set ms" using all by force
  moreover have forged: "\<not> carries ?env demo_forged row" for row
    using forged_digest by (simp add: carries_def demo_forged_def)
  moreover have named: "wd_delivery_id row = S ''d''" if "carries ?env demo_request row" for row
    using that by (simp add: carries_def demo_request_def)
  moreover have "m = Msg_event (S ''d'')" if m: "m \<in> set ms" for m
  proof -
    obtain req row where "req = demo_request \<or> req = demo_forged" "m = Msg_event (wd_delivery_id row)" "carries ?env req row"
      using some m by (fastforce simp only: list.set insert_iff empty_iff)
    with forged named show ?thesis by metis
  qed
  ultimately have "set ms = {Msg_event (S ''d'')}" by blast
  then have "ms = [Msg_event (S ''d'')]" using once by (cases ms; cases "tl ms") auto
  with u sent show ?thesis by (auto simp: demo_endpoint_def)
qed

end
