(* ===== verification/Repository_Laws.thy ===== *)
theory Repository_Laws
  imports Repositories Publish_Laws
begin

section \<open>What the rows of installations and repositories mean\<close>

text \<open>
  Abstractly the repositories of an installation are a map from GitHub's identifier to the fields and the status; the
  operations on the rows implement updates of that map, and a synchronization replaces it.  An installation
  belongs to one workspace, which registering and binding never change.
\<close>

subsection \<open>The map the rows stand for\<close>

definition fields_of :: "repository \<Rightarrow> repo_fields" where
  "fields_of q = \<lparr>rf_github_repository_id = repo_github_repository_id q, rf_name = repo_name q, rf_full_name = repo_full_name q,
     rf_default_branch = repo_default_branch q, rf_private = repo_private q, rf_html_url = repo_html_url q\<rparr>"

definition entry_of :: "repository \<Rightarrow> repo_fields \<times> repository_status" where
  "entry_of q = (fields_of q, repo_status q)"

definition repository_view :: "uuid \<Rightarrow> session \<Rightarrow> int \<Rightarrow> (repo_fields \<times> repository_status) option" where
  "repository_view i s g = map_option entry_of (find_repository s i g)"

definition repository_ids :: "session \<Rightarrow> bool" where
  "repository_ids s \<longleftrightarrow> distinct (map repo_id (ss_repositories s))"

text \<open>The specification: what is listed is active with the fields listed last, what was known and is not listed is
  removed.\<close>

definition listed_view ::
  "repo_fields list \<Rightarrow> (int \<Rightarrow> (repo_fields \<times> repository_status) option) \<Rightarrow> int \<Rightarrow> (repo_fields \<times> repository_status) option" where
  "listed_view fs v = (\<lambda>g.
     case map_of (rev (map (\<lambda>f. (rf_github_repository_id f, f)) fs)) g of
       Some f \<Rightarrow> Some (f, Repo_active)
     | None \<Rightarrow> map_option (\<lambda>(f, st). (f, Repo_removed)) (v g))"

lemma find_map_same:
  assumes "\<And>q. q \<in> set qs \<Longrightarrow> P (f q) = P q"
  shows "List.find P (map f qs) = map_option f (List.find P qs)"
  using assms by (induction qs) simp_all

lemma find_cong: "(\<And>q. q \<in> set qs \<Longrightarrow> P q = Q q) \<Longrightarrow> List.find P qs = List.find Q qs"
  by (induction qs) auto

lemma find_repository_facts:
  assumes "find_repository s i g = Some q"
  shows "q \<in> set (ss_repositories s)" "repo_installation_id q = i" "repo_github_repository_id q = g"
  using assms by (auto simp: find_repository_def find_Some_iff is_github_repo_def)

lemma view_put:
  assumes "repository_ids s" and found: "find_repository s i g = Some q"
    and same: "repo_id q' = repo_id q" "repo_installation_id q' = i" "repo_github_repository_id q' = g"
  shows "repository_view i (put_repository q' s) = (repository_view i s)(g \<mapsto> entry_of q')"
    and "repository_ids (put_repository q' s)"
proof -
  show "repository_ids (put_repository q' s)" using assms(1) by (simp add: repository_ids_def put_repository_def)
  note q = find_repository_facts [OF found]
  let ?f = "\<lambda>r. if repo_id r = repo_id q then q' else r"
  have only: "r = q" if "r \<in> set (ss_repositories s)" "repo_id r = repo_id q" for r
    using inj_onD [OF _ that(2) that(1) q(1)] assms(1) by (simp add: repository_ids_def distinct_map)
  have "is_github_repo i h (?f r) = is_github_repo i h r" if r: "r \<in> set (ss_repositories s)" for h r
  proof (cases "repo_id r = repo_id q")
    case True
    from only [OF r True] show ?thesis by (simp add: is_github_repo_def same q(2,3))
  qed simp
  then have "List.find (is_github_repo i h) (map ?f (ss_repositories s)) = map_option ?f (List.find (is_github_repo i h) (ss_repositories s))" for h
    by (rule find_map_same)
  then have "find_repository (put_repository q' s) i h = map_option ?f (find_repository s i h)" for h
    by (simp add: find_repository_def put_repository_def tbl_put_def same)
  then have after: "repository_view i (put_repository q' s) h = map_option (\<lambda>r. entry_of (?f r)) (find_repository s i h)" for h
    by (simp add: repository_view_def option.map_comp comp_def)
  show "repository_view i (put_repository q' s) = (repository_view i s)(g \<mapsto> entry_of q')"
  proof
    fix h
    show "repository_view i (put_repository q' s) h = ((repository_view i s)(g \<mapsto> entry_of q')) h"
    proof (cases "find_repository s i h")
      case None
      then show ?thesis using found after [of h] by (cases "h = g") (simp_all add: repository_view_def)
    next
      case (Some r)
      note r = find_repository_facts [OF Some]
      show ?thesis
      proof (cases "repo_id r = repo_id q")
        case True
        from only [OF r(1) True] r(3) q(3) have "h = g" by simp
        with True Some show ?thesis by (simp add: after)
      next
        case False
        with Some found have "h \<noteq> g" by auto
        with False Some after [of h] show ?thesis by (simp add: repository_view_def)
      qed
    qed
  qed
qed

lemma view_insert:
  assumes "insert_repository s inst f = (s', Inr x)" and "repository_ids s"
  shows "repository_view (inst_id inst) s' = (repository_view (inst_id inst) s)(rf_github_repository_id f \<mapsto> (f, Repo_active))"
    and "repository_ids s'"
proof -
  let ?q = "new_repository s inst f"
  have new: "find_repository s (inst_id inst) (rf_github_repository_id f) = None" "repo_id ?q \<notin> repo_id ` set (ss_repositories s)"
    and s': "ss_repositories s' = ss_repositories s @ [?q]"
    using assms(1) by (auto simp: insert_repository_def Let_def tbl_keys_def tbl_add_def tick_def split: if_splits)
  show "repository_ids s'" using assms(2) new(2) s' by (simp add: repository_ids_def)
  have "List.find P (rs @ [r]) = (case List.find P rs of None \<Rightarrow> if P r then Some r else None | Some x \<Rightarrow> Some x)" for P rs and r :: repository
    by (induction rs) auto
  then have "find_repository s' i g = (case find_repository s i g of None \<Rightarrow> if is_github_repo i g ?q then Some ?q else None | Some x \<Rightarrow> Some x)" for i g
    by (simp add: find_repository_def s')
  then show "repository_view (inst_id inst) s' = (repository_view (inst_id inst) s)(rf_github_repository_id f \<mapsto> (f, Repo_active))"
    using new(1) by (auto simp: repository_view_def fun_eq_iff is_github_repo_def new_repository_def entry_of_def fields_of_def split: option.split)
qed

lemma view_remove_unseen:
  "repository_view (inst_id inst) (remove_unseen inst seen s) =
     (\<lambda>g. if g \<in> set seen then repository_view (inst_id inst) s g
       else map_option (\<lambda>(f, st). (f, Repo_removed)) (repository_view (inst_id inst) s g))"
  and ids_remove_unseen: "repository_ids (remove_unseen inst seen s) = repository_ids s"
proof -
  let ?i = "inst_id inst"
  let ?P = "\<lambda>q. repo_installation_id q = ?i \<and> repo_status q = Repo_active \<and> repo_github_repository_id q \<notin> set seen"
  let ?f = "\<lambda>q. if ?P q then q\<lparr>repo_status := Repo_removed\<rparr> else q"
  have "map repo_id (ss_repositories (remove_unseen inst seen s)) = map repo_id (ss_repositories s)"
    by (simp add: remove_unseen_def tbl_map_keys)
  then show "repository_ids (remove_unseen inst seen s) = repository_ids s"
    by (simp only: repository_ids_def)
  have "List.find (is_github_repo ?i g) (map ?f (ss_repositories s)) = map_option ?f (List.find (is_github_repo ?i g) (ss_repositories s))" for g
    by (rule find_map_same) (simp add: is_github_repo_def)
  then have found: "find_repository (remove_unseen inst seen s) ?i g = map_option ?f (find_repository s ?i g)" for g
    by (simp add: find_repository_def remove_unseen_def tbl_map_def)
  show "repository_view ?i (remove_unseen inst seen s) = (\<lambda>g. if g \<in> set seen then repository_view ?i s g
       else map_option (\<lambda>(f, st). (f, Repo_removed)) (repository_view ?i s g))"
  proof
    fix g
    show "repository_view ?i (remove_unseen inst seen s) g = (if g \<in> set seen then repository_view ?i s g
       else map_option (\<lambda>(f, st). (f, Repo_removed)) (repository_view ?i s g))"
    proof (cases "find_repository s ?i g")
      case (Some q)
      have "repo_status q = Repo_active \<or> repo_status q = Repo_removed" by (cases "repo_status q") simp_all
      then show ?thesis
        using find_repository_facts [OF Some] Some by (auto simp: repository_view_def found entry_of_def fields_of_def)
    qed (simp add: repository_view_def found)
  qed
qed

subsection \<open>A synchronization\<close>

text \<open>No other transaction touches the installation and its repositories, and identifiers stay unique.\<close>

definition others_leave_repositories :: "pub_env \<Rightarrow> uuid \<Rightarrow> bool" where
  "others_leave_repositories env i \<longleftrightarrow>
     (\<forall>n s. repository_view i (pe_others env n s) = repository_view i s \<and>
       get_installation (pe_others env n s) i = get_installation s i \<and>
       (repository_ids s \<longrightarrow> repository_ids (pe_others env n s)))"

lemma upsert_view:
  assumes "upsert_repository_from_github env inst repo p = Some (q, Inr x)" and "others_leave_repositories env (inst_id inst)"
    and ids: "repository_ids (pb_s p)"
  shows "repository_ids (pb_s q)"
    and "case repo_fields_from_github repo of
        None \<Rightarrow> x = None \<and> repository_view (inst_id inst) (pb_s q) = repository_view (inst_id inst) (pb_s p)
      | Some f \<Rightarrow> x = Some (rf_github_repository_id f) \<and>
          repository_view (inst_id inst) (pb_s q) = (repository_view (inst_id inst) (pb_s p))(rf_github_repository_id f \<mapsto> (f, Repo_active))"
proof -
  let ?v = "repository_view (inst_id inst)"
  have "repository_ids (pb_s q) \<and> (case repo_fields_from_github repo of
        None \<Rightarrow> x = None \<and> ?v (pb_s q) = ?v (pb_s p)
      | Some f \<Rightarrow> x = Some (rf_github_repository_id f) \<and> ?v (pb_s q) = (?v (pb_s p))(rf_github_repository_id f \<mapsto> (f, Repo_active)))"
  proof (cases "repo_fields_from_github repo")
    case None
    then show ?thesis using assms(1) ids by (simp add: upsert_repository_from_github_def)
  next
    case (Some f)
    let ?g = "rf_github_repository_id f"
    show ?thesis
    proof (cases "find_repository (pb_s p) (inst_id inst) ?g")
      case None
      let ?s = "pe_others env (pb_readings p) (pb_s p)"
      obtain s' where ins: "insert_repository ?s inst f = (s', Inr ())" and q: "pb_s q = s'" and x: "x = Some ?g"
        using assms(1) Some None
        by (auto simp: upsert_repository_from_github_def bind_Some read_s_def refresh_e_def call_e_Some)
      have "repository_ids ?s" "?v ?s = ?v (pb_s p)" using assms(2) ids by (simp_all add: others_leave_repositories_def)
      with view_insert [OF ins] q x Some show ?thesis by simp
    next
      case found: (Some r)
      have q: "pb_s q = put_repository (write_repo_fields f r) (pb_s p)" and x: "x = Some ?g"
        using assms(1) Some found by (auto simp: upsert_repository_from_github_def bind_Some read_s_def write_s_def)
      note r = find_repository_facts [OF found]
      have "entry_of (write_repo_fields f r) = (f, Repo_active)" using r by (simp add: entry_of_def fields_of_def write_repo_fields_def)
      moreover have "repo_id (write_repo_fields f r) = repo_id r" "repo_installation_id (write_repo_fields f r) = inst_id inst"
        "repo_github_repository_id (write_repo_fields f r) = ?g" using r by (simp_all add: write_repo_fields_def)
      note view_put [OF ids found this]
      ultimately show ?thesis using q x Some by simp
    qed
  qed
  then show "repository_ids (pb_s q)"
    and "case repo_fields_from_github repo of
        None \<Rightarrow> x = None \<and> repository_view (inst_id inst) (pb_s q) = repository_view (inst_id inst) (pb_s p)
      | Some f \<Rightarrow> x = Some (rf_github_repository_id f) \<and>
          repository_view (inst_id inst) (pb_s q) = (repository_view (inst_id inst) (pb_s p))(rf_github_repository_id f \<mapsto> (f, Repo_active))"
    by blast+
qed

text \<open>The fields listed last for an identifier, over what was known.\<close>

definition upserted ::
  "repo_fields list \<Rightarrow> (int \<Rightarrow> (repo_fields \<times> repository_status) option) \<Rightarrow> int \<Rightarrow> (repo_fields \<times> repository_status) option" where
  "upserted fs v = foldl (\<lambda>v f. v(rf_github_repository_id f \<mapsto> (f, Repo_active))) v fs"

lemma upserted_eq:
  "upserted fs v g = (case map_of (rev (map (\<lambda>f. (rf_github_repository_id f, f)) fs)) g of
     Some f \<Rightarrow> Some (f, Repo_active) | None \<Rightarrow> v g)"
  by (induction fs rule: rev_induct) (auto simp: upserted_def)

lemma map_of_rev_dom: "map_of (rev (map (\<lambda>f. (h f, f)) fs)) g = None \<longleftrightarrow> g \<notin> h ` set fs"
  by (simp add: map_of_eq_None_iff image_image)

lemma upserts_view:
  assumes "others_leave_repositories env (inst_id inst)"
  shows "upsert_repositories env inst repos p = Some (q, Inr seen) \<Longrightarrow> repository_ids (pb_s p) \<Longrightarrow>
    repository_ids (pb_s q) \<and>
    repository_view (inst_id inst) (pb_s q) = upserted (List.map_filter repo_fields_from_github repos) (repository_view (inst_id inst) (pb_s p)) \<and>
    set seen = rf_github_repository_id ` set (List.map_filter repo_fields_from_github repos)"
proof (induction repos arbitrary: p seen)
  case Nil
  then show ?case by (simp add: upserted_def map_filter_simps)
next
  case (Cons repo repos)
  obtain v x seen' where v: "upsert_repository_from_github env inst repo p = Some (v, Inr x)"
    and rest: "upsert_repositories env inst repos v = Some (q, Inr seen')"
    and seen: "seen = (case x of None \<Rightarrow> seen' | Some i \<Rightarrow> i # seen')"
    using Cons.prems(1) by (auto simp: bind_Some)
  note step = upsert_view [OF v assms Cons.prems(2)]
  note ih = Cons.IH [OF rest step(1)]
  show ?case
    using step(2) ih seen
    by (cases "repo_fields_from_github repo") (auto simp: map_filter_simps upserted_def simp del: fun_upd_apply)
qed

lemma reconcile_view:
  assumes "others_leave_repositories env (inst_id inst)" and "repository_ids (pb_s p)"
    and "reconcile_repositories_from_api env inst repos p = Some (q, Inr x)"
  shows "repository_ids (pb_s q) \<and>
    repository_view (inst_id inst) (pb_s q) = listed_view (List.map_filter repo_fields_from_github repos) (repository_view (inst_id inst) (pb_s p))"
proof -
  let ?fs = "List.map_filter repo_fields_from_github repos" and ?v = "repository_view (inst_id inst)"
  obtain u seen where u: "upsert_repositories env inst repos p = Some (u, Inr seen)" and q: "pb_s q = remove_unseen inst seen (pb_s u)"
    using assms(3) by (auto simp: reconcile_repositories_from_api_def bind_Some write_s_def)
  note up = upserts_view [OF assms(1) u assms(2)]
  have "?v (pb_s q) g = listed_view ?fs (?v (pb_s p)) g" for g
    using up map_of_rev_dom [of rf_github_repository_id ?fs g]
    by (cases "map_of (rev (map (\<lambda>f. (rf_github_repository_id f, f)) ?fs)) g")
      (simp_all add: q view_remove_unseen listed_view_def upserted_eq)
  then show ?thesis using up by (auto simp: q ids_remove_unseen)
qed

lemma get_installation_id: "get_installation s k = Some inst \<Longrightarrow> inst_id inst = k"
  unfolding get_installation_def by (rule tbl_get_rid)

lemma attempt_syncs:
  assumes "others_leave_repositories env k" and ids: "repository_ids (pb_s p)" and "sync_attempt env k p = Some (q, r)"
  shows "case r of
      Inl e \<Rightarrow> pb_committed q = pb_committed p
    | Inr x \<Rightarrow> \<exists>inst repos. get_installation (pb_s p) k = Some inst \<and>
        list_installation_repositories (pe_gh env) (inst_github_installation_id inst) = Some (Inr repos) \<and>
        repository_view k (pb_committed q) = listed_view (List.map_filter repo_fields_from_github repos) (repository_view k (pb_s p))"
proof -
  let ?m = "bind_e (refresh_e env) (\<lambda>_. bind_e (read_s (\<lambda>s. get_installation s k)) (\<lambda>found.
       case found of None \<Rightarrow> raise_e (Runtime_error (S ''github_installation_not_found''))
       | Some inst \<Rightarrow> bind_e (fetch_e (list_installation_repositories (pe_gh env) (inst_github_installation_id inst)))
           (\<lambda>repos. reconcile_repositories_from_api env inst repos)))"
  obtain u y where u: "?m p = Some (u, y)"
    and q: "case y of Inl e \<Rightarrow> q = roll_back_e u \<and> r = Inl e | Inr x \<Rightarrow> q = u\<lparr>pb_committed := pb_s u\<rparr> \<and> r = Inr x"
    using assms(3) unfolding sync_attempt_def in_context_def by (auto split: option.splits prod.splits sum.splits)
  show ?thesis
  proof (cases y)
    case (Inl e)
    let ?I = "\<lambda>p'. pb_committed p' = pb_committed p"
    have one: "keeps ?I (upsert_repository_from_github env inst repo)" for inst repo
      unfolding upsert_repository_from_github_def refresh_e_def write_s_def by (intro keeps_rules keeps_upd keeps_call_e) auto
    have "keeps ?I (upsert_repositories env inst repos)" for inst repos
    proof (induction repos)
      case Nil
      show ?case unfolding upsert_repositories.simps by (rule keeps_ret)
    next
      case (Cons repo repos)
      show ?case unfolding upsert_repositories.simps by (intro keeps_rules one Cons)
    qed
    then have "keeps (\<lambda>p'. pb_committed p' = pb_committed p) (reconcile_repositories_from_api env inst repos)" for inst repos
      unfolding reconcile_repositories_from_api_def write_s_def by (intro keeps_rules keeps_upd) auto
    moreover have "keeps (\<lambda>p'. pb_committed p' = pb_committed p) (fetch_e f)" for f :: "(exn + 'x) option"
      by (rule keepsI) (auto simp: fetch_e_def)
    ultimately have "keeps (\<lambda>p'. pb_committed p' = pb_committed p) ?m"
      unfolding refresh_e_def by (intro keeps_rules keeps_upd) auto
    from keepsD [OF this _ u] Inl q show ?thesis by (simp add: roll_back_e_def)
  next
    case (Inr x)
    let ?s = "pe_others env (pb_readings p) (pb_s p)"
    have same: "repository_view k ?s = repository_view k (pb_s p)" "get_installation ?s k = get_installation (pb_s p) k" "repository_ids ?s"
      using assms(1) ids by (simp_all add: others_leave_repositories_def)
    let ?v = "p\<lparr>pb_s := ?s, pb_readings := Suc (pb_readings p)\<rparr>"
    obtain inst repos where inst: "get_installation ?s k = Some inst"
      and repos: "list_installation_repositories (pe_gh env) (inst_github_installation_id inst) = Some (Inr repos)"
      and rec: "reconcile_repositories_from_api env inst repos ?v = Some (u, Inr x)"
      using u Inr by (auto simp: bind_Some refresh_e_def read_s_def fetch_e_def split: option.splits)
    have k: "inst_id inst = k" by (rule get_installation_id [OF inst])
    have "repository_view k (pb_s u) = listed_view (List.map_filter repo_fields_from_github repos) (repository_view k ?s)"
      using reconcile_view [OF _ _ rec] assms(1) same(3) by (simp add: k)
    with inst repos same q Inr show ?thesis by auto
  qed
qed

text \<open>C32. The task that synchronizes an installation refines the replacement of the map of its repositories: when it returns,
  every repository GitHub listed is committed as active with the fields listed last, every other one that was known is committed as
  removed with the fields it had, and nothing else is there; when it raises after its retries,
  what was committed is as it was. Other transactions are assumed not to write these rows meanwhile.\<close>

theorem sync_refines_listing:
  assumes "others_leave_repositories env k" and "rolled_back p" and "repository_ids (pb_committed p)"
    and "sync_installation_repositories env k p = Some (q, r)"
  shows "case r of
      Inl e \<Rightarrow> pb_committed q = pb_committed p
    | Inr x \<Rightarrow> \<exists>inst repos. get_installation (pb_committed p) k = Some inst \<and>
        list_installation_repositories (pe_gh env) (inst_github_installation_id inst) = Some (Inr repos) \<and>
        repository_view k (pb_committed q) = listed_view (List.map_filter repo_fields_from_github repos) (repository_view k (pb_committed p))"
proof -
  let ?T = "\<lambda>p q (r :: exn + unit). case r of
      Inl e \<Rightarrow> pb_committed q = pb_committed p
    | Inr x \<Rightarrow> \<exists>inst repos. get_installation (pb_committed p) k = Some inst \<and>
        list_installation_repositories (pe_gh env) (inst_github_installation_id inst) = Some (Inr repos) \<and>
        repository_view k (pb_committed q) = listed_view (List.map_filter repo_fields_from_github repos) (repository_view k (pb_committed p))"
  have one: "?T p q r" if p: "rolled_back p" "repository_ids (pb_committed p)" "sync_attempt env k p = Some (q, r)" for p q r
  proof -
    have same: "repository_view k (pb_s p) = repository_view k (pb_committed p)" "repository_ids (pb_s p)"
      "get_installation (pb_s p) k = get_installation (pb_committed p) k"
      using p(1,2) by (auto simp: rolled_back_def repository_view_def find_repository_def repository_ids_def get_installation_def)
    from attempt_syncs [OF assms(1) same(2) p(3)] show ?thesis by (simp only: same)
  qed
  have "?T p q r" if "sync_attempts env k n p = Some (q, r)" "rolled_back p" "repository_ids (pb_committed p)" for n p
    using that
  proof (induction n arbitrary: p)
    case 0
    then show ?case using one [OF 0(2,3)] by simp
  next
    case (Suc n)
    from Suc.prems(1) consider x where "sync_attempt env k p = Some (q, Inr x)" "r = Inr x"
      | v e where "sync_attempt env k p = Some (v, Inl e)" "sync_attempts env k n v = Some (q, r)"
      by (auto simp: catch_Some)
    then show ?case
    proof cases
      case 1
      from one [OF Suc.prems(2,3) 1(1)] 1(2) show ?thesis by simp
    next
      case (2 v e)
      have same: "pb_committed v = pb_committed p" using one [OF Suc.prems(2,3) 2(1)] by simp
      moreover have "rolled_back v" using 2(1) unfolding sync_attempt_def by (rule context_rolls_back)
      with same have "?T v q r" using Suc.IH [OF 2(2)] Suc.prems(3) by simp
      ultimately show ?thesis by (simp only:)
    qed
  qed
  from this [OF assms(4) [unfolded sync_installation_repositories_def] assms(2,3)] show ?thesis .
qed

definition demo_listed :: json where
  "demo_listed = JObj [(S ''repositories'', JArr [JObj [(S ''id'', JInt 71), (S ''name'', JStr (S ''new'')), (S ''full_name'', JStr (S ''o/new''))]])]"

definition demo_sync_env :: pub_env where
  "demo_sync_env = demo_pub_env\<lparr>pe_gh := (\<lambda>i u r. Inr \<lparr>hr_status = 200, hr_body = Some demo_listed\<rparr>)\<rparr>"

definition demo_sync_rows :: session where
  "demo_sync_rows = empty_session\<lparr>
     ss_installations := [\<lparr>inst_id = 6, inst_workspace_id = 3, inst_github_installation_id = 9, inst_account_login = S ''o'',
       inst_account_type = Account_organization, inst_account_id = 1, inst_status = Inst_active,
       inst_permissions_snapshot = None, inst_verified_at = None\<rparr>],
     ss_repositories := [\<lparr>repo_id = 5, repo_installation_id = 6, repo_workspace_id = 3, repo_github_repository_id = 70,
       repo_name = S ''r'', repo_full_name = S ''o/r'', repo_default_branch = None, repo_private = False,
       repo_html_url = None, repo_status = Repo_active\<rparr>]\<rparr>"

lemma demo_listing:
  "list_installation_repositories (pe_gh demo_sync_env) 9 =
     Some (Inr [[(S ''id'', JInt 71), (S ''name'', JStr (S ''new'')), (S ''full_name'', JStr (S ''o/new''))]])"
  by (subst list_installation_repositories_def, subst list_repositories_from.simps)
    (simp add: repository_page_def get_json_def demo_sync_env_def demo_listed_def rbind_def map_filter_simps is_success_def)

definition demo_sync_pub :: pub where
  "demo_sync_pub = \<lparr>pb_s = demo_sync_rows, pb_committed = demo_sync_rows, pb_readings = 0\<rparr>"

lemma demo_sync_runs: "\<exists>q. sync_attempt demo_sync_env 6 demo_sync_pub = Some (q, Inr ())"
proof -
  have inst: "get_installation demo_sync_rows 6 = Some (hd (ss_installations demo_sync_rows))"
    by (simp add: get_installation_def tbl_get_def demo_sync_rows_def)
  have none: "find_repository demo_sync_rows 6 71 = None"
    by (simp add: find_repository_def is_github_repo_def demo_sync_rows_def)
  have facts: "inst_id (hd (ss_installations demo_sync_rows)) = 6" "inst_github_installation_id (hd (ss_installations demo_sync_rows)) = 9"
    by (simp_all add: demo_sync_rows_def)
  have others: "pe_others demo_sync_env n s = s" for n s by (simp add: demo_sync_env_def demo_pub_env_def)
  have ins: "\<exists>s'. insert_repository demo_sync_rows (hd (ss_installations demo_sync_rows)) f = (s', Inr ())"
    if "rf_github_repository_id f = 71" for f
    using that none by (simp add: insert_repository_def Let_def facts new_repository_def tbl_keys_def)
      (simp add: demo_sync_rows_def next_uuid_def empty_session_def)
  let ?f = "\<lparr>rf_github_repository_id = 71, rf_name = S ''new'', rf_full_name = S ''o/new'', rf_default_branch = None, rf_private = False,
    rf_html_url = None\<rparr>"
  have f: "repo_fields_from_github [(S ''id'', JInt 71), (S ''name'', JStr (S ''new'')), (S ''full_name'', JStr (S ''o/new''))] = Some ?f"
    by (simp add: repo_fields_from_github_def S_def)
  obtain s' where "insert_repository demo_sync_rows (hd (ss_installations demo_sync_rows)) ?f = (s', Inr ())" using ins [of ?f] by auto
  then show ?thesis
    by (simp add: sync_attempt_def in_context_def bind_e_def refresh_e_def read_s_def fetch_e_def demo_sync_pub_def inst others facts
        demo_listing reconcile_repositories_from_api_def upsert_repository_from_github_def f none write_s_def
        call_e_def on_session_def on_part_def total_e_def)
qed

lemma sync_refines_listing_witness:
  "\<exists>q. sync_installation_repositories demo_sync_env 6 demo_sync_pub = Some (q, Inr ()) \<and>
     map_option snd (repository_view 6 (pb_committed q) 70) = Some Repo_removed \<and>
     map_option snd (repository_view 6 (pb_committed q) 71) = Some Repo_active"
proof -
  obtain q where one: "sync_attempt demo_sync_env 6 demo_sync_pub = Some (q, Inr ())" using demo_sync_runs by blast
  have three: "(3::nat) = Suc (Suc (Suc 0))" by simp
  have run: "sync_installation_repositories demo_sync_env 6 demo_sync_pub = Some (q, Inr ())"
    unfolding sync_installation_repositories_def three sync_attempts.simps by (simp add: catch_e_def one)
  have others: "others_leave_repositories demo_sync_env 6"
    by (simp add: others_leave_repositories_def demo_sync_env_def demo_pub_env_def)
  have rolled: "rolled_back demo_sync_pub"
    unfolding rolled_back_def demo_sync_pub_def by (intro exI [of _ "ss_checks demo_sync_rows"] exI [of _ "ss_created demo_sync_rows"]) simp
  have ids: "repository_ids (pb_committed demo_sync_pub)" by (simp add: repository_ids_def demo_sync_pub_def demo_sync_rows_def)
  from sync_refines_listing [OF others rolled ids run] obtain inst repos where
    inst: "get_installation demo_sync_rows 6 = Some inst" and
    repos: "list_installation_repositories (pe_gh demo_sync_env) (inst_github_installation_id inst) = Some (Inr repos)" and
    view: "repository_view 6 (pb_committed q) = listed_view (List.map_filter repo_fields_from_github repos) (repository_view 6 demo_sync_rows)"
    by (auto simp: demo_sync_pub_def)
  have "inst_github_installation_id inst = 9" using inst by (auto simp: get_installation_def tbl_get_def demo_sync_rows_def)
  with repos have "repos = [[(S ''id'', JInt 71), (S ''name'', JStr (S ''new'')), (S ''full_name'', JStr (S ''o/new''))]]"
    by (simp add: demo_listing)
  then have "map_option snd (repository_view 6 (pb_committed q) 70) = Some Repo_removed"
    "map_option snd (repository_view 6 (pb_committed q) 71) = Some Repo_active"
    by (simp_all add: view listed_view_def map_filter_simps repo_fields_from_github_def repository_view_def find_repository_def
        is_github_repo_def demo_sync_rows_def entry_of_def S_def)
  with run show ?thesis by blast
qed

subsection \<open>The workspace of an installation\<close>

definition owner :: "session \<Rightarrow> int \<Rightarrow> uuid option" where
  "owner s g = map_option inst_workspace_id (installation_by_github_id s g)"

definition installation_ids :: "session \<Rightarrow> bool" where
  "installation_ids s \<longleftrightarrow> distinct (map inst_id (ss_installations s))"

text \<open>The other transactions move no installation to another workspace, and identifiers stay unique.\<close>

definition others_keep_owners :: "pub_env \<Rightarrow> bool" where
  "others_keep_owners env \<longleftrightarrow>
     (\<forall>n s. (\<forall>g w. owner s g = Some w \<longrightarrow> owner (pe_others env n s) g = Some w) \<and>
       (installation_ids s \<longrightarrow> installation_ids (pe_others env n s)))"

text \<open>The result is an installation of the workspace, with the identifier asked for.\<close>

definition bound_to :: "uuid \<Rightarrow> int \<Rightarrow> session \<Rightarrow> uuid \<Rightarrow> bool" where
  "bound_to ws g s k \<longleftrightarrow>
     owner s g = Some ws \<and>
     (\<exists>i. get_installation s k = Some i \<and> inst_workspace_id i = ws \<and> inst_github_installation_id i = g)"

lemma by_github_id_facts:
  assumes "installation_by_github_id s g = Some i"
  shows "i \<in> set (ss_installations s)" "inst_github_installation_id i = g"
  using assms by (auto simp: installation_by_github_id_def find_Some_iff)

lemma bound_found:
  assumes "installation_by_github_id s g = Some i" and "inst_workspace_id i = ws" and "installation_ids s"
  shows "bound_to ws g s (inst_id i)"
proof -
  note i = by_github_id_facts [OF assms(1)]
  have "get_installation s (inst_id i) = Some i"
    using tbl_get_unique [of inst_id "ss_installations s" i] assms(3) i(1) by (simp add: get_installation_def installation_ids_def)
  with assms i show ?thesis by (simp add: bound_to_def owner_def)
qed

lemma owner_put:
  assumes "installation_ids s" and found: "installation_by_github_id s g = Some i"
    and same: "inst_id i' = inst_id i" "inst_github_installation_id i' = g" "inst_workspace_id i' = inst_workspace_id i"
  shows "owner (put_installation i' s) h = owner s h" and "bound_to (inst_workspace_id i) g (put_installation i' s) (inst_id i)"
proof -
  note i = by_github_id_facts [OF found]
  let ?f = "\<lambda>r. if inst_id r = inst_id i then i' else r"
  have only: "r = i" if "r \<in> set (ss_installations s)" "inst_id r = inst_id i" for r
    using inj_onD [OF _ that(2) that(1) i(1)] assms(1) by (simp add: installation_ids_def distinct_map)
  have "(inst_github_installation_id (?f r) = h) = (inst_github_installation_id r = h)" if r: "r \<in> set (ss_installations s)" for h r
  proof (cases "inst_id r = inst_id i")
    case True
    from only [OF r True] show ?thesis by (simp add: same i(2))
  qed simp
  then have "List.find (\<lambda>n. inst_github_installation_id n = h) (map ?f (ss_installations s)) =
      map_option ?f (List.find (\<lambda>n. inst_github_installation_id n = h) (ss_installations s))" for h
    by (rule find_map_same)
  then have after: "installation_by_github_id (put_installation i' s) h = map_option ?f (installation_by_github_id s h)" for h
    by (simp add: installation_by_github_id_def put_installation_def tbl_put_def same)
  show *: "owner (put_installation i' s) h = owner s h" for h
  proof (cases "installation_by_github_id s h")
    case (Some r)
    then show ?thesis using only [OF by_github_id_facts(1) [OF Some]] by (auto simp: owner_def after same)
  qed (simp add: owner_def after)
  have "get_installation (put_installation i' s) (inst_id i) = Some i'"
    using i(1) by (simp add: get_installation_def put_installation_def tbl_get_put same tbl_keys_def)
  with * found same show "bound_to (inst_workspace_id i) g (put_installation i' s) (inst_id i)"
    by (simp add: bound_to_def) (simp add: owner_def)
qed

definition owners_kept :: "session \<Rightarrow> session \<Rightarrow> bool" where
  "owners_kept s s' \<longleftrightarrow> (\<forall>g w. owner s g = Some w \<longrightarrow> owner s' g = Some w)"

lemma owner_add:
  assumes "installation_by_github_id s (inst_github_installation_id i) = None" and "inst_id i \<notin> tbl_keys inst_id (ss_installations s)"
  shows "owners_kept s (tick (s\<lparr>ss_installations := tbl_add i (ss_installations s)\<rparr>))"
    and "bound_to (inst_workspace_id i) (inst_github_installation_id i) (tick (s\<lparr>ss_installations := tbl_add i (ss_installations s)\<rparr>)) (inst_id i)"
proof -
  let ?s = "tick (s\<lparr>ss_installations := tbl_add i (ss_installations s)\<rparr>)"
  have "List.find P (rs @ [r]) = (case List.find P rs of None \<Rightarrow> if P r then Some r else None | Some x \<Rightarrow> Some x)" for P rs and r :: installation
    by (induction rs) auto
  then have after: "installation_by_github_id ?s h = (case installation_by_github_id s h of
      None \<Rightarrow> if inst_github_installation_id i = h then Some i else None | Some x \<Rightarrow> Some x)" for h
    by (simp add: installation_by_github_id_def tbl_add_def tick_def)
  then show "owners_kept s ?s" by (auto simp: owners_kept_def owner_def)
  have "get_installation ?s (inst_id i) = Some i"
  proof -
    have "tbl_get inst_id (inst_id i) (ss_installations s) = None"
      using assms(2) by (simp add: tbl_get_def tbl_keys_def find_key_None)
    then show ?thesis by (simp add: get_installation_def tick_def tbl_get_add)
  qed
  then show "bound_to (inst_workspace_id i) (inst_github_installation_id i) ?s (inst_id i)"
    using assms(1) by (simp add: bound_to_def owner_def after)
qed

lemma owners_kept_trans: "owners_kept s t \<Longrightarrow> owners_kept t u \<Longrightarrow> owners_kept s u"
  by (auto simp: owners_kept_def)

lemma insert_binds:
  assumes run: "insert_installation env ws d raced p = Some (q, r)" and others: "others_keep_owners env"
    and kept: "owners_kept (pb_committed p) (pb_s p)" and ids: "installation_ids (pb_committed p)" "installation_ids (pb_s p)"
    and race: "\<And>v q r. raced (installation_by_github_id (pb_s v) (id_github_installation_id d)) v = Some (q, r) \<Longrightarrow> installation_ids (pb_s v) \<Longrightarrow>
      pb_s q = pb_s v \<and> (\<forall>k. r = Inr k \<longrightarrow> bound_to ws (id_github_installation_id d) (pb_s v) k)"
  shows "owners_kept (pb_committed p) (pb_s q) \<and> (\<forall>k. r = Inr k \<longrightarrow> bound_to ws (id_github_installation_id d) (pb_s q) k)"
proof -
  let ?s = "pe_others env (pb_readings p) (pb_s p)" and ?g = "id_github_installation_id d"
  let ?i = "new_installation ?s ws d"
  have s: "owners_kept (pb_committed p) ?s" "installation_ids ?s"
    using others kept ids(2) by (auto simp: others_keep_owners_def owners_kept_def)
  show ?thesis
  proof (cases "installation_by_github_id ?s ?g \<noteq> None \<or> inst_id ?i \<in> tbl_keys inst_id (ss_installations ?s)")
    case True
    let ?u = "roll_back_e (p\<lparr>pb_s := tick ?s, pb_readings := Suc (pb_readings p)\<rparr>)"
    let ?v = "?u\<lparr>pb_s := pe_others env (Suc (pb_readings p)) (pb_s ?u), pb_readings := Suc (Suc (pb_readings p))\<rparr>"
    have v: "raced (installation_by_github_id (pb_s ?v) ?g) ?v = Some (q, r)"
      using run True by (auto simp: insert_installation_def bind_e_def refresh_e_def read_s_def Let_def roll_back_e_def)
    have "owners_kept (pb_committed p) (pb_s ?u)" "installation_ids (pb_s ?u)"
      using ids(1) by (auto simp: owners_kept_def owner_def roll_back_e_def installation_by_github_id_def installation_ids_def)
    then have "owners_kept (pb_committed p) (pb_s ?v)" "installation_ids (pb_s ?v)"
      using others by (auto simp: others_keep_owners_def owners_kept_def)
    with race [OF v] show ?thesis by simp
  next
    case False
    then have q: "pb_s q = tick (?s\<lparr>ss_installations := tbl_add ?i (ss_installations ?s)\<rparr>)" and r: "r = Inr (inst_id ?i)"
      using run by (auto simp: insert_installation_def bind_e_def refresh_e_def read_s_def write_s_def Let_def)
    have i: "inst_github_installation_id ?i = ?g" "inst_workspace_id ?i = ws" by (simp_all add: new_installation_def)
    note added = owner_add [of ?s ?i, unfolded i]
    have "owners_kept (pb_committed p) (pb_s q)" unfolding q by (rule owners_kept_trans [OF s(1) added(1)]) (use False in auto)
    moreover have "bound_to ws ?g (pb_s q) (inst_id ?i)" unfolding q by (rule added(2)) (use False in auto)
    ultimately show ?thesis using r by simp
  qed
qed

text \<open>C33. An installation belongs to one workspace: registering or binding one, races with other requests included, leaves every
  committed installation with its workspace, and what is returned is the installation with the identifier asked
  for, in the workspace that asked; so for an installation of another workspace the operation raises.\<close>

theorem installation_stays_bound:
  assumes "m = create_github_installation env ws d \<or> m = bind_github_installation env ws d"
    and "others_keep_owners env" and "rolled_back p" and "installation_ids (pb_committed p)"
    and "m p = Some (q, r)"
  shows "(\<forall>g w. owner (pb_committed p) g = Some w \<longrightarrow> owner (pb_s q) g = Some w) \<and>
    (case r of
       Inr k \<Rightarrow> owner (pb_s q) (id_github_installation_id d) = Some ws \<and>
         (\<exists>i. get_installation (pb_s q) k = Some i \<and> inst_workspace_id i = ws \<and>
            inst_github_installation_id i = id_github_installation_id d)
     | Inl e \<Rightarrow> True)"
proof -
  let ?g = "id_github_installation_id d"
  have rows: "ss_installations (pb_s p) = ss_installations (pb_committed p)" using assms(3) by (auto simp: rolled_back_def)
  have ids: "installation_ids (pb_s p)" and kept: "owners_kept (pb_committed p) (pb_s p)"
    using assms(4) by (simp_all add: installation_ids_def owners_kept_def owner_def installation_by_github_id_def rows)
  have "owners_kept (pb_committed p) (pb_s q) \<and> (\<forall>k. r = Inr k \<longrightarrow> bound_to ws ?g (pb_s q) k)"
  proof (cases "get_workspace (pb_s p) ws = None")
    case True
    then show ?thesis using assms(1,5) kept
      by (auto simp: create_github_installation_def bind_github_installation_def bind_e_def read_s_def)
  next
    case ws: False
    show ?thesis
    proof (cases "installation_by_github_id (pb_s p) ?g")
      case None
      from assms(1) consider (create) "m = create_github_installation env ws d" | (bind) "m = bind_github_installation env ws d" by blast
      then show ?thesis
      proof cases
        case create
        then have "insert_installation env ws d (\<lambda>raced. case raced of Some i \<Rightarrow> raise_e (installation_conflict i ws)
            | None \<Rightarrow> raise_e already_registered) p = Some (q, r)"
          using assms(5) ws None by (simp add: create_github_installation_def bind_e_def read_s_def)
        then show ?thesis by (rule insert_binds [OF _ assms(2) kept assms(4) ids]) (auto split: option.splits)
      next
        case bind
        then have "insert_installation env ws d (\<lambda>raced. case raced of
            Some i \<Rightarrow> if inst_workspace_id i = ws then ret (inst_id i) else raise_e (installation_conflict i ws)
            | None \<Rightarrow> raise_e already_registered) p = Some (q, r)"
          using assms(5) ws None by (simp add: bind_github_installation_def bind_e_def read_s_def)
        then show ?thesis
          by (rule insert_binds [OF _ assms(2) kept assms(4) ids]) (auto split: option.splits if_splits dest: bound_found)
      qed
    next
      case (Some i)
      show ?thesis
      proof (cases "(\<exists>e. r = Inl e) \<and> pb_s q = pb_s p")
        case True
        then show ?thesis using kept by auto
      next
        case False
        then have w: "inst_workspace_id i = ws" and q: "pb_s q = put_installation (rebind_installation d i) (pb_s p)" and r: "r = Inr (inst_id i)"
          using assms(1,5) ws Some
          by (auto simp: create_github_installation_def bind_github_installation_def bind_e_def read_s_def write_s_def split: if_splits)
        have i': "inst_id (rebind_installation d i) = inst_id i" "inst_github_installation_id (rebind_installation d i) = ?g"
          "inst_workspace_id (rebind_installation d i) = inst_workspace_id i"
          using by_github_id_facts [OF Some] by (simp_all add: rebind_installation_def)
        note put = owner_put [OF ids Some i']
        show ?thesis using kept put w r by (auto simp: q owners_kept_def)
      qed
    qed
  qed
  then show ?thesis by (auto simp: owners_kept_def bound_to_def split: sum.split)
qed

definition demo_bind_pub :: pub where
  "demo_bind_pub = demo_sync_pub\<lparr>pb_s := demo_sync_rows\<lparr>ss_workspaces := [demo_workspace]\<rparr>,
     pb_committed := demo_sync_rows\<lparr>ss_workspaces := [demo_workspace]\<rparr>\<rparr>"

definition demo_installation_data :: installation_data where
  "demo_installation_data = \<lparr>id_github_installation_id = 9, id_account_login = S '' org '', id_account_type = Account_organization,
     id_account_id = 1, id_permissions_snapshot = None\<rparr>"

lemma installation_stays_bound_witness:
  "\<exists>q. bind_github_installation demo_sync_env 3 demo_installation_data demo_bind_pub = Some (q, Inr 6) \<and>
     owner (pb_committed demo_bind_pub) 9 = Some 3 \<and> owner (pb_s q) 9 = Some 3"
proof -
  let ?d = demo_installation_data
  have found: "installation_by_github_id (pb_s demo_bind_pub) 9 = Some (hd (ss_installations demo_sync_rows))"
    "inst_workspace_id (hd (ss_installations demo_sync_rows)) = 3" "inst_id (hd (ss_installations demo_sync_rows)) = 6"
    by (simp_all add: installation_by_github_id_def demo_bind_pub_def demo_sync_rows_def)
  have ws: "get_workspace (pb_s demo_bind_pub) 3 \<noteq> None"
    by (simp add: get_workspace_def tbl_get_def demo_bind_pub_def demo_workspace_def)
  have g: "id_github_installation_id ?d = 9" by (simp add: demo_installation_data_def)
  obtain q where q: "bind_github_installation demo_sync_env 3 ?d demo_bind_pub = Some (q, Inr 6)"
    using ws by (auto simp: bind_github_installation_def bind_e_def read_s_def write_s_def found g)
  have others: "others_keep_owners demo_sync_env" by (simp add: others_keep_owners_def demo_sync_env_def demo_pub_env_def)
  have rolled: "rolled_back demo_bind_pub"
    unfolding rolled_back_def demo_bind_pub_def by (intro exI [of _ "ss_checks demo_sync_rows"] exI [of _ "ss_created demo_sync_rows"]) simp
  have ids: "installation_ids (pb_committed demo_bind_pub)" by (simp add: installation_ids_def demo_bind_pub_def demo_sync_rows_def)
  have own: "owner (pb_committed demo_bind_pub) 9 = Some 3"
    by (simp add: owner_def installation_by_github_id_def demo_bind_pub_def demo_sync_rows_def)
  from installation_stays_bound [OF disjI2 [OF refl] others rolled ids q] own have "owner (pb_s q) 9 = Some 3" by simp
  with q own show ?thesis by blast
qed

end
