(* ===== verification/Spec2Isabelle.thy ===== *)
theory Spec2Isabelle
  imports Reconcile Github_Api Diff Compare Resolution_Metrics Closure Judge Verification Head_Suppression Finding_Rows
    Model_Snapshot Review_Run Publish_Safety Inline_Laws Reconcile_Safety Pull_Request_Laws Index_Task_Laws
    Github_Task_Laws Webhook_Laws Repository_Laws
begin

text \<open>
  Verification development for the backend of Revy (\<open>backend/app\<close>), a GitHub App that reviews pull requests
  with a language model and keeps the findings of a pull request over its pushes.

  \<^bold>\<open>The program.\<close>
  GitHub delivers webhooks to an endpoint (\<open>api/v1/webhooks/github.py\<close>), which verifies and records each
  delivery and sends a task.  The task (\<open>workers/github_tasks.py\<close>) writes installations, repositories, pull requests
  and revisions, supersedes what runs on older revisions, and starts a pipeline: an index job, whose task
  (\<open>workers/index_tasks.py\<close>, \<open>services/github_indexing.py\<close>) stores chunks of the code with embeddings and creates
  a review run; the review task (\<open>services/github_review.py\<close>) builds the diff, asks the model and stores findings;
  the reconciliation task (\<open>workers/reconcile_tasks.py\<close>) binds findings to persistent groups, judges them, closes or
  verifies older groups; the publish task (\<open>services/github_publish.py\<close>) writes a check run, a comment and inline
  threads on GitHub.  Before a push is indexed, the resolution task pairs the earlier groups with the new diff.
  Every stage writes its trace (\<open>services/github_pipeline_trace.py\<close>) and the check run of the generation.

  \<^bold>\<open>The state.\<close>
  \<open>Records\<close> has one record per table, with the columns the modelled code uses, and the record \<open>session\<close> of
  all tables, the identifiers and instants still to be drawn, and the check-run requests sent.  Tables are lists of rows
  (\<open>Prelude\<close>, with the laws of a table as the locale \<open>row_store\<close>).  SQLAlchemy sessions are
  created with \<open>autoflush=False, expire_on_commit=False\<close>: rows stay as they were read until the code refreshes
  them, which the models of the long tasks write out.  \<open>pub\<close> (\<open>Publish_Job\<close>) adds what is committed and a
  count of readings: at each reading (\<open>refresh_e\<close>) the other transactions act, as the parameter
  \<open>pe_others\<close>, an arbitrary function of the count and the rows; \<open>in_context\<close> commits or rolls back.
  \<open>tasks\<close> (\<open>Messages\<close>) adds the messages the broker took.  Locks are modelled by what a reading after
  them sees.  Strings are lists of code points (\<open>Py_Str\<close>), identifiers 128-bit words, integers of
  Python \<open>int\<close>, SHA-256 works on 32-bit words.

  \<^bold>\<open>Errors and loops.\<close>
  \<open>exn\<close> (\<open>Json\<close>) lists the exceptions the code raises or catches; a fallible function returns
  \<open>exn + 'a\<close>, one on the state \<open>'s \<times> (exn + 'a)\<close>, and one that may also not return is an \<open>eff\<close>
  (\<open>Effects\<close>), whose value None is not returning.  Only the listings by pages may not return
  (\<open>partial_function\<close>); every other loop is a total recursion, the retries of Celery tasks over the number that is
  left, as \<open>max_retries\<close> bounds them.  The review task is a step relation
  (\<open>run_exec\<close>), and the measure \<open>task_fuel\<close> bounds its steps by 39 whatever the answers.  No definition takes fuel.

  \<^bold>\<open>Theories.\<close>
  Python's library: \<open>Py_Str\<close>, \<open>Py_Text\<close>, \<open>Py_Re\<close> (a search proved to decide the language of an
  expression), \<open>Utf8\<close>, \<open>Sha256\<close>, \<open>Json\<close>, \<open>Enums\<close>.
  GitHub's API: \<open>Github_Api\<close>, \<open>Compare\<close> (\<open>github_compare_patches.py\<close>, \<open>github_path_hygiene.py\<close>),
  \<open>Diff\<close> (the unified diff and the evidence of findings), \<open>Review_Threads\<close>.
  Webhooks: \<open>Webhooks\<close> and \<open>Webhook_Laws\<close> (the endpoint), \<open>Pull_Requests\<close> and
  \<open>Pull_Request_Laws\<close>, \<open>Repositories\<close> and \<open>Repository_Laws\<close>, \<open>Github_Tasks\<close> and
  \<open>Github_Task_Laws\<close>, \<open>Messages\<close>.
  Pipelines: \<open>Pipeline_Trace\<close>, \<open>Pipeline_Laws\<close>, \<open>Generations\<close>, \<open>Review_Pipeline\<close>,
  \<open>Chunking\<close>, \<open>Indexing\<close>, \<open>Index_Laws\<close>, \<open>Index_Task\<close>, \<open>Index_Task_Laws\<close>,
  \<open>Model_Snapshot\<close>, \<open>Review_Run\<close>, \<open>Finding_Rows\<close>.
  Findings over time: \<open>Closure_Rules\<close>, \<open>Reconcile\<close>, \<open>Resolution_Metrics\<close>, \<open>Closure\<close>,
  \<open>Judge\<close>, \<open>Verification\<close>, \<open>Head_Suppression\<close>, \<open>Reconcile_Task\<close>, \<open>Reconcile_Safety\<close>.
  Publishing: \<open>Publish_Verdict\<close>, \<open>Rollup\<close>, \<open>Publish_Markdown\<close>, \<open>Publish_Splice\<close>,
  \<open>Publish_Comment\<close>, \<open>Inline_Threads\<close>, \<open>Inline_Laws\<close>, \<open>Inline_Posts\<close>, \<open>Publish_Job\<close>,
  \<open>Publish_Flush\<close>, \<open>Publish_Task\<close>, \<open>Publish_Frame\<close>, \<open>Publish_Laws\<close>, \<open>Publish_Safety\<close>.
  A definition has the name of the function it models, without a leading underscore; a part of a long function has a
  name of its own, and the manifest gives its lines.

  \<^bold>\<open>Interfaces.\<close>
  \<open>row_store\<close> is the contract of a table, interpreted for the tables; \<open>closing\<close> (\<open>Closure_Rules\<close>) what the
  five ways of closing a group share; \<open>judging\<close> (\<open>Judge\<close>) the loop of the two judges over candidates, with
  the retries and the transport that stops it, interpreted for discovery and verification and again for the
  invariants of \<open>Reconcile_Safety\<close>; \<open>publish_invariant\<close> and its extension \<open>publish_invariant_posts\<close>
  (\<open>Publish_Frame\<close>) carry an invariant through all of a publish, and are interpreted for the record of
  GitHub's answers and for the row of the publish job.

  \<^bold>\<open>What the lemmas show.\<close>
  Deliveries and hand-over: a delivery is dispatched once and only when authentic, a committed index job is named by
  a message, and the task behind a push sends it on or fails it.  Pull requests: revisions are numbered without gaps
  under races, and a push leaves nothing in flight on older revisions.  Pipelines: one starts only once, its index job
  settles, the chunks stored are those of the files, and a review starts only on the head of an open pull request.
  Review runs: a superseded run never completes, a completed one costs one credit.  Findings: each is bound
  to one group, closing needs evidence, the judges account for every candidate and fail open, suppression and
  verification change exactly what they may.  Publishing: the job settles, only one is open, what was
  posted and not recorded is taken back, threads are collapsed exactly when settled, and counts of the
  rollup add up.  The Isar proofs of the properties are short because each component's theory proves what its operations keep
  (\<open>keeps\<close>, \<open>triple\<close> of \<open>Effects\<close>, with the collection \<open>keeps_rules\<close>) and when they return
  (\<open>returns\<close>, with \<open>returns_rules\<close>).

  \<^bold>\<open>Parameters.\<close>
  The HTTP exchanges (\<open>gh\<close>, \<open>ce_send\<close>, \<open>pe_auth\<close>), the answers of the language model and of the embedding
  service, the archive of a revision, the broker, the clock, the other transactions, Unicode's tables beyond ASCII, parsing and printing
  JSON where a text comes from outside, \<open>datetime.fromisoformat\<close>.  A property that needs something of them says so as
  a hypothesis, and its witness gives an instance.

  \<^bold>\<open>Not modelled.\<close>
  Logging and metrics.  The API routes and their response schemas, which call the services and page through
  tables by cursor.  Authentication, JWKS, rate limits and idempotency keys of the API (\<open>core/\<close>), which are middleware around
  tokens and Redis.  The prompts and the transports of the language models (\<open>anthropic_review.py\<close>, \<open>moonshot_review.py\<close>,
  \<open>bedrock_review.py\<close>, \<open>llm_dispatch.py\<close>) beyond what is listed, and of Voyage's embeddings: they format a request and read a
  vendor's answer.  The vector search of PostgreSQL, full-text search, e-mail, exports, the recorder of model calls, the
  catalogue of models and the model policies, the configuration (\<open>core/config.py\<close>), the migrations and the staging
  scripts.  Workspaces, members, invitations, billing, accounts and impersonation, which do not touch the pipeline but for the limit of
  review runs a workspace has.
  The engineering context of a repository (\<open>services/engineering_context/\<close>), whose selection reaches the pipeline as part
  of the prompt.
\<close>

end
